(* ===== verification/Vhd_Base.thy ===== *)
theory Vhd_Base
  imports Main "HOL-Library.Word"
begin

text \<open>
  The prelude of the development: machine integer types, the error values of the C code, the
  state-and-error monad in which the effectful functions are written, its program logic
  (\<open>vtriple\<close> for total case analysis of outcomes, \<open>vinv\<close> for invariants that every outcome
  keeps) and the lemmas on lists and words that the component theories share.
\<close>

unbundle bit_operations_syntax

section \<open>Machine integers and error values\<close>

type_synonym u8 = "8 word"
type_synonym u32 = "32 word"
type_synonym u64 = "64 word"
type_synonym bytes = "u8 list"

named_theorems vm_simps \<open>unfolding equations of the monad's operations\<close>
named_theorems vinv_intros \<open>introduction rules for invariants of monadic programs\<close>
named_theorems errno_simps \<open>numeric values of the errno constants\<close>

text \<open>The errno values of Linux that the code returns (negated) or inspects.\<close>

definition ENOENT :: int where "ENOENT = 2"
definition EINTR :: int where "EINTR = 4"
definition EIO :: int where "EIO = 5"
definition ENXIO :: int where "ENXIO = 6"
definition EAGAIN :: int where "EAGAIN = 11"
definition ENOMEM :: int where "ENOMEM = 12"
definition EBUSY :: int where "EBUSY = 16"
definition EINVAL :: int where "EINVAL = 22"
definition ENOSPC :: int where "ENOSPC = 28"
definition EPIPE :: int where "EPIPE = 32"
definition ERANGE :: int where "ERANGE = 34"
definition ENAMETOOLONG :: int where "ENAMETOOLONG = 36"
definition ENOSYS :: int where "ENOSYS = 38"

lemmas errno_defs [errno_simps] =
  ENOENT_def EINTR_def EIO_def ENXIO_def EAGAIN_def ENOMEM_def EBUSY_def EINVAL_def ENOSPC_def
  EPIPE_def ERANGE_def ENAMETOOLONG_def ENOSYS_def

text \<open>
  A C function that fails returns a negative errno: \<open>Errno (- EINVAL)\<close>. Two further outcomes
  end a run: \<open>Abort\<close> is a failed \<open>ASSERT\<close> (the macro dereferences a null pointer), and
  \<open>Undef\<close> an access outside an array, which C leaves undefined; \<open>Hang\<close> is a loop that does not
  end (the I/O loop carries fuel, and is shown never to run out of it).
\<close>

datatype verr = Errno int | Abort | Undef | Hang

section \<open>State, errors and their composition\<close>

type_synonym ('s, 'a) vm = "'s \<Rightarrow> (verr + 'a) \<times> 's"

definition vret :: "'a \<Rightarrow> ('s, 'a) vm" where
  "vret x = (\<lambda>s. (Inr x, s))"

definition vraise :: "verr \<Rightarrow> ('s, 'a) vm" where
  "vraise e = (\<lambda>s. (Inl e, s))"

abbreviation vfail :: "int \<Rightarrow> ('s, 'a) vm" where
  "vfail e \<equiv> vraise (Errno e)"

definition vbind :: "('s, 'a) vm \<Rightarrow> ('a \<Rightarrow> ('s, 'b) vm) \<Rightarrow> ('s, 'b) vm" where
  "vbind m f = (\<lambda>s. case m s of (Inl e, t) \<Rightarrow> (Inl e, t) | (Inr x, t) \<Rightarrow> f x t)"

abbreviation vthen :: "('s, 'a) vm \<Rightarrow> ('s, 'b) vm \<Rightarrow> ('s, 'b) vm" where
  "vthen m k \<equiv> vbind m (\<lambda>_. k)"

text \<open>\<open>vcatch m h\<close>: the caller looks at the returned error number and goes on with \<open>h\<close>.\<close>

definition vcatch :: "('s, 'a) vm \<Rightarrow> (int \<Rightarrow> ('s, 'a) vm) \<Rightarrow> ('s, 'a) vm" where
  "vcatch m h = (\<lambda>s. case m s of (Inl (Errno e), t) \<Rightarrow> h e t | r \<Rightarrow> r)"

definition vgets :: "('s \<Rightarrow> 'a) \<Rightarrow> ('s, 'a) vm" where
  "vgets f = (\<lambda>s. (Inr (f s), s))"

definition vmodify :: "('s \<Rightarrow> 's) \<Rightarrow> ('s, unit) vm" where
  "vmodify f = (\<lambda>s. (Inr (), f s))"

text \<open>\<open>vcheck b e\<close>: return the error \<open>e\<close> unless \<open>b\<close>. \<open>vassert b\<close>: the \<open>ASSERT\<close> macro.
  \<open>vdefined b\<close>: the run is undefined unless \<open>b\<close>.\<close>

definition vcheck :: "bool \<Rightarrow> int \<Rightarrow> ('s, unit) vm" where
  "vcheck b e = (if b then vret () else vfail e)"

definition vassert :: "bool \<Rightarrow> ('s, unit) vm" where
  "vassert b = (if b then vret () else vraise Abort)"

definition vdefined :: "bool \<Rightarrow> ('s, unit) vm" where
  "vdefined b = (if b then vret () else vraise Undef)"

definition vwhen :: "bool \<Rightarrow> ('s, unit) vm \<Rightarrow> ('s, unit) vm" where
  "vwhen b m = (if b then m else vret ())"

text \<open>A counted loop whose body may stop with an error.\<close>

primrec vfor :: "'b list \<Rightarrow> ('b \<Rightarrow> ('s, unit) vm) \<Rightarrow> ('s, unit) vm" where
  "vfor [] f = vret ()"
| "vfor (x # xs) f = vthen (f x) (vfor xs f)"

lemmas vm_core_defs [vm_simps] =
  vret_def vraise_def vbind_def vcatch_def vgets_def vmodify_def vcheck_def vassert_def
  vdefined_def vwhen_def

lemma vbind_ok [vm_simps]: "m s = (Inr x, t) \<Longrightarrow> vbind m f s = f x t"
  by (simp add: vbind_def)

lemma vbind_err [vm_simps]: "m s = (Inl e, t) \<Longrightarrow> vbind m f s = (Inl e, t)"
  by (simp add: vbind_def)

lemma vbind_okE:
  assumes "vbind m f s = (Inr y, u)"
  obtains x t where "m s = (Inr x, t)" and "f x t = (Inr y, u)"
  using assms by (auto simp: vbind_def split: prod.splits sum.splits)

lemma vbind_assoc: "vbind (vbind m f) g = vbind m (\<lambda>x. vbind (f x) g)"
  by (rule ext) (simp add: vbind_def split: prod.splits sum.splits)

lemma vbind_vret [simp]: "vbind (vret x) f = f x"
  by (rule ext) (simp add: vbind_def vret_def)

lemma vbind_right_vret [simp]: "vbind m vret = m"
  by (rule ext) (auto simp: vbind_def vret_def split: prod.splits sum.splits)

section \<open>Program logic\<close>

text \<open>
  \<open>vtriple P m Q E\<close>: from a state satisfying \<open>P\<close>, a normal result satisfies \<open>Q\<close> and an error
  satisfies \<open>E\<close>. Nothing is left out: every program of the monad returns.
\<close>

definition vtriple ::
    "('s \<Rightarrow> bool) \<Rightarrow> ('s, 'a) vm \<Rightarrow> ('a \<Rightarrow> 's \<Rightarrow> bool) \<Rightarrow> (verr \<Rightarrow> 's \<Rightarrow> bool) \<Rightarrow> bool" where
  "vtriple P m Q E \<longleftrightarrow>
     (\<forall>s. P s \<longrightarrow> (case m s of (Inl e, t) \<Rightarrow> E e t | (Inr x, t) \<Rightarrow> Q x t))"

lemma vtripleI:
  assumes "\<And>s x t. P s \<Longrightarrow> m s = (Inr x, t) \<Longrightarrow> Q x t"
    and "\<And>s e t. P s \<Longrightarrow> m s = (Inl e, t) \<Longrightarrow> E e t"
  shows "vtriple P m Q E"
  using assms by (auto simp: vtriple_def split: prod.splits sum.splits)

lemma vtriple_okD: "vtriple P m Q E \<Longrightarrow> P s \<Longrightarrow> m s = (Inr x, t) \<Longrightarrow> Q x t"
  by (auto simp: vtriple_def split: prod.splits sum.splits)

lemma vtriple_errD: "vtriple P m Q E \<Longrightarrow> P s \<Longrightarrow> m s = (Inl e, t) \<Longrightarrow> E e t"
  by (auto simp: vtriple_def split: prod.splits sum.splits)

lemma vtriple_bind:
  assumes "vtriple P m R E" and "\<And>x. vtriple (R x) (f x) Q E"
  shows "vtriple P (vbind m f) Q E"
  using assms by (fastforce simp: vtriple_def vbind_def split: prod.splits sum.splits)

lemma vtriple_conseq:
  assumes "vtriple P' m Q' E'" and "\<And>s. P s \<Longrightarrow> P' s"
    and "\<And>x s. Q' x s \<Longrightarrow> Q x s" and "\<And>e s. E' e s \<Longrightarrow> E e s"
  shows "vtriple P m Q E"
  using assms by (fastforce simp: vtriple_def split: prod.splits sum.splits)

subsection \<open>Invariants that every outcome keeps\<close>

definition vinv :: "('s \<Rightarrow> bool) \<Rightarrow> ('s, 'a) vm \<Rightarrow> bool" where
  "vinv I m \<longleftrightarrow> (\<forall>s. I s \<longrightarrow> I (snd (m s)))"

lemma vinvI: "(\<And>s. I s \<Longrightarrow> I (snd (m s))) \<Longrightarrow> vinv I m"
  by (simp add: vinv_def)

lemma vinvD: "vinv I m \<Longrightarrow> I s \<Longrightarrow> m s = (r, t) \<Longrightarrow> I t"
  by (auto simp: vinv_def dest!: spec [of _ s])

lemma vinv_vret [vinv_intros]: "vinv I (vret x)"
  by (simp add: vinv_def vret_def)

lemma vinv_vraise [vinv_intros]: "vinv I (vraise e)"
  by (simp add: vinv_def vraise_def)

lemma vinv_vgets [vinv_intros]: "vinv I (vgets f)"
  by (simp add: vinv_def vgets_def)

lemma vinv_vmodify [vinv_intros]: "(\<And>s. I s \<Longrightarrow> I (f s)) \<Longrightarrow> vinv I (vmodify f)"
  by (simp add: vinv_def vmodify_def)

lemma vinv_vcheck [vinv_intros]: "vinv I (vcheck b e)"
  by (simp add: vinv_def vcheck_def vret_def vraise_def)

lemma vinv_vassert [vinv_intros]: "vinv I (vassert b)"
  by (simp add: vinv_def vassert_def vret_def vraise_def)

lemma vinv_vdefined [vinv_intros]: "vinv I (vdefined b)"
  by (simp add: vinv_def vdefined_def vret_def vraise_def)

lemma vinv_vbind [vinv_intros]:
  assumes "vinv I m" and "\<And>x. vinv I (f x)"
  shows "vinv I (vbind m f)"
proof (rule vinvI)
  fix s
  assume "I s"
  obtain r t where r: "m s = (r, t)" by (cases "m s")
  with assms(1) \<open>I s\<close> have "I t" by (rule vinvD)
  with assms(2) r show "I (snd (vbind m f s))"
    by (cases r) (auto simp: vbind_def vinv_def)
qed

lemma vinv_vcatch [vinv_intros]:
  assumes "vinv I m" and "\<And>e. vinv I (h e)"
  shows "vinv I (vcatch m h)"
proof (rule vinvI)
  fix s
  assume "I s"
  obtain r t where r: "m s = (r, t)" by (cases "m s")
  with assms(1) \<open>I s\<close> have "I t" by (rule vinvD)
  with assms(2) r show "I (snd (vcatch m h s))"
    by (auto simp: vcatch_def vinv_def split: sum.splits verr.splits)
qed

lemma vinv_if [vinv_intros]: "(b \<Longrightarrow> vinv I m) \<Longrightarrow> (\<not> b \<Longrightarrow> vinv I n) \<Longrightarrow> vinv I (if b then m else n)"
  by simp

lemma vinv_vwhen [vinv_intros]: "(b \<Longrightarrow> vinv I m) \<Longrightarrow> vinv I (vwhen b m)"
  by (simp add: vwhen_def vinv_vret)

lemma vinv_vfor [vinv_intros]: "(\<And>x. x \<in> set xs \<Longrightarrow> vinv I (f x)) \<Longrightarrow> vinv I (vfor xs f)"
  by (induction xs) (auto intro!: vinv_intros)

lemma vinv_case_option [vinv_intros]:
  "vinv I m \<Longrightarrow> (\<And>x. vinv I (f x)) \<Longrightarrow> vinv I (case y of None \<Rightarrow> m | Some x \<Rightarrow> f x)"
  by (cases y) auto

lemma vinv_case_prod [vinv_intros]:
  "(\<And>x y. vinv I (f x y)) \<Longrightarrow> vinv I (case p of (x, y) \<Rightarrow> f x y)"
  by (cases p) auto

text \<open>A component of the state that a program leaves alone.\<close>

definition vkeeps :: "('s \<Rightarrow> 'c) \<Rightarrow> ('s, 'a) vm \<Rightarrow> bool" where
  "vkeeps g m \<longleftrightarrow> (\<forall>c. vinv (\<lambda>s. g s = c) m)"

lemma vkeepsD: "vkeeps g m \<Longrightarrow> m s = (r, t) \<Longrightarrow> g t = g s"
  using vinvD [of "\<lambda>u. g u = g s" m s r t] by (simp add: vkeeps_def)

lemma vkeepsI: "(\<And>s r t. m s = (r, t) \<Longrightarrow> g t = g s) \<Longrightarrow> vkeeps g m"
  by (auto simp: vkeeps_def vinv_def) (metis prod.collapse)

section \<open>Lists and words\<close>

definition zeros :: "nat \<Rightarrow> bytes" where
  "zeros n = replicate n 0"

lemma length_zeros [simp]: "length (zeros n) = n"
  by (simp add: zeros_def)

lemma nth_zeros [simp]: "i < n \<Longrightarrow> zeros n ! i = 0"
  by (simp add: zeros_def)

lemma zeros_0 [simp]: "zeros 0 = []"
  by (simp add: zeros_def)

lemma set_zeros: "set (zeros n) \<subseteq> {0}"
  by (auto simp: zeros_def)

lemma map_const_upt_zeros: "map (\<lambda>_. 0) [a..<b] = zeros (b - a)"
  by (simp add: zeros_def map_replicate_const)

text \<open>Overwriting a stretch of a list in place, as \<open>memcpy\<close> into a buffer does.\<close>

definition overlay :: "nat \<Rightarrow> 'a list \<Rightarrow> 'a list \<Rightarrow> 'a list" where
  "overlay off new xs = take off xs @ new @ drop (off + length new) xs"

lemma length_overlay [simp]: "off + length new \<le> length xs \<Longrightarrow> length (overlay off new xs) = length xs"
  by (simp add: overlay_def)

lemma nth_overlay:
  assumes "off + length new \<le> length xs" and "i < length xs"
  shows "overlay off new xs ! i =
    (if off \<le> i \<and> i < off + length new then new ! (i - off) else xs ! i)"
  using assms by (auto simp: overlay_def nth_append min_def)

lemma overlay_Nil [simp]: "overlay off [] xs = xs"
  by (simp add: overlay_def)

lemma sum_list_update_nat:
  fixes xs :: "nat list"
  assumes "i < length xs"
  shows "sum_list (xs[i := v]) + xs ! i = sum_list xs + v"
  using assms
proof (induction xs arbitrary: i)
  case Nil
  then show ?case by simp
next
  case (Cons x xs)
  then show ?case by (cases i) auto
qed

lemma unat_of_nat_u32: "n < 2 ^ 32 \<Longrightarrow> unat (of_nat n :: u32) = n"
  by (simp add: unat_of_nat take_bit_eq_mod)

lemma unat_of_nat_u64: "n < 2 ^ 64 \<Longrightarrow> unat (of_nat n :: u64) = n"
  by (simp add: unat_of_nat take_bit_eq_mod)

lemma unat_u32_less [simp]: "unat (w :: u32) < 4294967296"
  using unsigned_less [of w, where ?'a = nat] by simp

lemma unat_u64_less [simp]: "unat (w :: u64) < 18446744073709551616"
  using unsigned_less [of w, where ?'a = nat] by simp

lemma unat_u8_less [simp]: "unat (w :: u8) < 256"
  using unsigned_less [of w, where ?'a = nat] by simp

end
