(* ===== verification/Vhd_Bytes.thy ===== *)
theory Vhd_Bytes
  imports Vhd_Base
begin

text \<open>
  How the C structures lie in memory. \<open>le_bytes\<close> and \<open>le_word\<close> are the host's (little endian)
  layout of an unsigned integer; \<open>bswap\<close> is what the \<open>BE32_IN\<close> family of \<open>libvhd.h\<close> does to a
  field on such a host. The locale \<open>byte_codec\<close> is the interface every on-disk record offers:
  a fixed width, an encoder and a decoder inverse to each other. Its client lemmas cover
  prefixes and arrays; it is interpreted here on the integer types and, in
  \<open>Vhd_Format\<close>, on the footer, the header, the parent locator and the batmap header.
\<close>

section \<open>Little endian integers\<close>

definition le_bytes :: "nat \<Rightarrow> 'a::len word \<Rightarrow> bytes" where
  "le_bytes n w = map (\<lambda>i. ucast (drop_bit (8 * i) w)) [0..<n]"

primrec le_word :: "bytes \<Rightarrow> 'a::len word" where
  "le_word [] = 0"
| "le_word (b # bs) = ucast b OR push_bit 8 (le_word bs)"

lemma length_le_bytes [simp]: "length (le_bytes n w) = n"
  by (simp add: le_bytes_def)

lemma bit_le_word:
  "bit (le_word bs :: 'a::len word) k \<longleftrightarrow>
    k < LENGTH('a) \<and> k div 8 < length bs \<and> bit (bs ! (k div 8)) (k mod 8)"
proof (induction bs arbitrary: k)
  case Nil
  then show ?case by simp
next
  case (Cons b bs)
  show ?case
  proof (cases "k < 8")
    case True
    then show ?thesis
      by (auto simp: bit_or_iff bit_push_bit_iff bit_unsigned_iff dest: bit_imp_le_length)
  next
    case False
    then have "k div 8 = Suc ((k - 8) div 8)" and "k mod 8 = (k - 8) mod 8"
      by (simp_all add: div_if [of k] le_mod_geq)
    with False show ?thesis
      by (auto simp: bit_or_iff bit_push_bit_iff bit_unsigned_iff Cons.IH dest: bit_imp_le_length)
  qed
qed

lemma bit_le_bytes:
  "i < n \<Longrightarrow> k < 8 \<Longrightarrow> bit (le_bytes n w ! i) k \<longleftrightarrow> bit w (8 * i + k)"
  by (simp add: le_bytes_def bit_unsigned_iff bit_drop_bit_eq)

lemma le_word_le_bytes:
  assumes "LENGTH('a) \<le> 8 * n"
  shows "le_word (le_bytes n w) = (w :: 'a::len word)"
proof (rule bit_word_eqI)
  fix k
  assume k: "k < LENGTH('a)"
  with assms have "k div 8 < n" by simp
  then show "bit (le_word (le_bytes n w) :: 'a word) k \<longleftrightarrow> bit w k"
    using k by (simp add: bit_le_word bit_le_bytes)
qed

lemma le_bytes_le_word:
  assumes "length bs = n" and "8 * n \<le> LENGTH('a::len)"
  shows "le_bytes n (le_word bs :: 'a word) = bs"
proof (rule nth_equalityI)
  show "length (le_bytes n (le_word bs :: 'a word)) = length bs"
    using assms by simp
next
  fix i
  assume "i < length (le_bytes n (le_word bs :: 'a word))"
  then have i: "i < n" by simp
  show "le_bytes n (le_word bs :: 'a word) ! i = bs ! i"
  proof (rule bit_word_eqI)
    fix k
    assume "k < LENGTH(8)"
    then have k: "k < 8" by simp
    with i assms(2) have "8 * i + k < LENGTH('a)" by simp
    with i k assms(1) show "bit (le_bytes n (le_word bs :: 'a word) ! i) k \<longleftrightarrow> bit (bs ! i) k"
      by (simp add: bit_le_bytes bit_le_word)
  qed
qed

section \<open>Byte swapping\<close>

text \<open>
  \<open>libvhd.h\<close>: on a little endian host \<open>BE32_IN(foo)\<close> and \<open>BE32_OUT(foo)\<close> are both
  \<open>*foo = bswap_32(*foo)\<close>, and the 64-bit forms likewise.
\<close>

definition bswap :: "nat \<Rightarrow> 'a::len word \<Rightarrow> 'a word" where
  "bswap n w = le_word (rev (le_bytes n w))"

definition be32 :: "u32 \<Rightarrow> u32" where
  "be32 w = bswap 4 w"

definition be64 :: "u64 \<Rightarrow> u64" where
  "be64 w = bswap 8 w"

lemma le_bytes_bswap:
  assumes "8 * n \<le> LENGTH('a::len)"
  shows "le_bytes n (bswap n (w :: 'a word)) = rev (le_bytes n w)"
  using assms by (simp add: bswap_def le_bytes_le_word)

lemma be32_be32 [simp]: "be32 (be32 w) = w"
  by (simp add: be32_def bswap_def le_bytes_le_word le_word_le_bytes)

lemma be64_be64 [simp]: "be64 (be64 w) = w"
  by (simp add: be64_def bswap_def le_bytes_le_word le_word_le_bytes)

lemma le_bytes_be32 [simp]: "le_bytes 4 (be32 w) = rev (le_bytes 4 w)"
  by (simp add: be32_def le_bytes_bswap)

lemma le_bytes_be64 [simp]: "le_bytes 8 (be64 w) = rev (le_bytes 8 w)"
  by (simp add: be64_def le_bytes_bswap)

section \<open>The codec interface\<close>

locale byte_codec =
  fixes width :: nat
    and enc :: "'a \<Rightarrow> bytes"
    and dec :: "bytes \<Rightarrow> 'a"
    and wf :: "'a \<Rightarrow> bool"
  assumes length_enc: "wf x \<Longrightarrow> length (enc x) = width"
    and dec_enc: "wf x \<Longrightarrow> dec (enc x) = x"
    and enc_dec: "length bs = width \<Longrightarrow> enc (dec bs) = bs"
    and wf_dec: "length bs = width \<Longrightarrow> wf (dec bs)"
begin

lemma enc_inject: "wf x \<Longrightarrow> wf y \<Longrightarrow> enc x = enc y \<longleftrightarrow> x = y"
  using dec_enc by metis

lemma dec_prefix: "wf x \<Longrightarrow> dec (take width (enc x @ rest)) = x"
  by (simp add: length_enc dec_enc)

lemma ex_dec: "wf x \<Longrightarrow> \<exists>bs. length bs = width \<and> dec bs = x"
  using length_enc dec_enc by blast

lemma length_concat_enc:
  "list_all wf xs \<Longrightarrow> length (concat (map enc xs)) = width * length xs"
  by (induction xs) (auto simp: length_enc)

lemma dec_array:
  "list_all wf xs \<Longrightarrow> i < length xs \<Longrightarrow>
    dec (take width (drop (width * i) (concat (map enc xs) @ rest))) = xs ! i"
proof (induction xs arbitrary: i)
  case Nil
  then show ?case by simp
next
  case (Cons x xs)
  show ?case
  proof (cases i)
    case 0
    with Cons.prems show ?thesis by (simp add: length_enc dec_enc)
  next
    case (Suc j)
    with Cons.prems Cons.IH [of j] show ?thesis by (simp add: length_enc)
  qed
qed

end

interpretation u32_codec: byte_codec 4 "le_bytes 4 :: u32 \<Rightarrow> bytes" le_word "\<lambda>_. True"
  by unfold_locales (simp_all add: le_word_le_bytes le_bytes_le_word)

interpretation u64_codec: byte_codec 8 "le_bytes 8 :: u64 \<Rightarrow> bytes" le_word "\<lambda>_. True"
  by unfold_locales (simp_all add: le_word_le_bytes le_bytes_le_word)

interpretation u8_codec: byte_codec 1 "le_bytes 1 :: u8 \<Rightarrow> bytes" le_word "\<lambda>_. True"
  by unfold_locales (simp_all add: le_word_le_bytes le_bytes_le_word)

lemma le_bytes_8_1: "le_bytes 1 (b :: u8) = [b]"
  by (simp add: le_bytes_def)

section \<open>Fields of a byte string\<close>

definition field :: "nat \<Rightarrow> nat \<Rightarrow> bytes \<Rightarrow> bytes" where
  "field off n bs = take n (drop off bs)"

lemma length_field: "off + n \<le> length bs \<Longrightarrow> length (field off n bs) = n"
  by (simp add: field_def)

lemma field_join: "field off n bs @ drop (off + n) bs = drop off bs"
  by (simp add: field_def add.commute flip: drop_drop)

lemma field_append_skip:
  "length xs \<le> off \<Longrightarrow> field off n (xs @ ys) = field (off - length xs) n ys"
  by (simp add: field_def)

lemma field_append_here: "length xs = n \<Longrightarrow> field 0 n (xs @ ys) = xs"
  by (simp add: field_def)

lemma field_whole: "length xs \<le> n \<Longrightarrow> field 0 n xs = xs"
  by (simp add: field_def)

section \<open>Byte sums\<close>

text \<open>The 32-bit sum of the bytes of an object: every checksum of the format is its complement.\<close>

definition byte_sum :: "bytes \<Rightarrow> u32" where
  "byte_sum bs = foldl (\<lambda>acc b. acc + ucast b) 0 bs"

lemma foldl_byte_sum: "foldl (\<lambda>acc b. acc + ucast b) a bs = a + byte_sum bs"
proof (induction bs arbitrary: a)
  case Nil
  then show ?case by (simp add: byte_sum_def)
next
  case (Cons b bs)
  show ?case
    using Cons.IH [of "a + ucast b"] Cons.IH [of "ucast b"] by (simp add: byte_sum_def)
qed

lemma byte_sum_Nil [simp]: "byte_sum [] = 0"
  by (simp add: byte_sum_def)

lemma byte_sum_Cons [simp]: "byte_sum (b # bs) = ucast b + byte_sum bs"
  using foldl_byte_sum [of "ucast b" bs] by (simp add: byte_sum_def)

lemma byte_sum_append [simp]: "byte_sum (xs @ ys) = byte_sum xs + byte_sum ys"
  by (induction xs) simp_all

lemma byte_sum_rev [simp]: "byte_sum (rev xs) = byte_sum xs"
  by (induction xs) (simp_all add: add.commute)

lemma byte_sum_zeros [simp]: "byte_sum (zeros n) = 0"
  by (induction n) (simp_all add: zeros_def)

lemma byte_sum_update:
  "i < length bs \<Longrightarrow> byte_sum (bs[i := b]) = byte_sum bs - ucast (bs ! i) + ucast b"
proof (induction bs arbitrary: i)
  case Nil
  then show ?case by simp
next
  case (Cons x xs)
  then show ?case by (cases i) simp_all
qed

lemma ucast_u8_u32_inject: "(ucast (a :: u8) :: u32) = ucast b \<longleftrightarrow> a = b"
proof
  assume "(ucast a :: u32) = ucast b"
  then have "uint (ucast a :: u32) = uint (ucast b :: u32)" by simp
  then show "a = b"
    by (intro unsigned_word_eqI [where ?'a = int]) (simp add: uint_up_ucast is_up)
qed simp

text \<open>A sum of bytes notices every change of a single byte.\<close>

lemma byte_sum_detects:
  assumes "i < length bs" and "b \<noteq> bs ! i"
  shows "byte_sum (bs[i := b]) \<noteq> byte_sum bs"
  using assms by (auto simp: byte_sum_update ucast_u8_u32_inject)

end
