(* ===== verification/Vhd_Bitmap.thy ===== *)
theory Vhd_Bitmap
  imports Vhd_Bytes
begin

text \<open>
  The sector bitmaps of the VHD format. \<open>test_bit\<close>, \<open>set_bit\<close> and \<open>clear_bit\<close> of
  \<open>include/libvhd.h\<close> number bits from the most significant bit of each byte; the \<open>old_\<close> variants
  of \<open>vhd/lib/libvhd.c\<close> (files written by version 0.1 of tapdisk) number them from the least
  significant bit of little endian 32-bit words. Both meet one interface, the locale
  \<open>bitmap_ops\<close>, under which the loops over bit ranges of the I/O code are verified once.
  A bit number is a \<open>nat\<close>; the code's index is an \<open>int\<close>, so numbers from \<open>2 ^ 31\<close> on are
  outside the model (a block of that many sectors does not occur: \<open>spb\<close> is at most \<open>2 ^ 23\<close>).
\<close>

section \<open>The operations\<close>

definition BIT_MASK :: "'a::len word" where
  "BIT_MASK = 0x80"

definition test_bit :: "bytes \<Rightarrow> nat \<Rightarrow> bool" where
  "test_bit addr nr =
     (push_bit (nr mod 8) (scast (addr ! (nr div 8)) :: u32) AND BIT_MASK \<noteq> 0)"

definition set_bit :: "bytes \<Rightarrow> nat \<Rightarrow> bytes" where
  "set_bit addr nr =
     addr[nr div 8 := (addr ! (nr div 8)) OR drop_bit (nr mod 8) BIT_MASK]"

definition clear_bit :: "bytes \<Rightarrow> nat \<Rightarrow> bytes" where
  "clear_bit addr nr =
     addr[nr div 8 := (addr ! (nr div 8)) AND NOT (drop_bit (nr mod 8) BIT_MASK)]"

text \<open>The \<open>uint32_t\<close> view of a byte array on a little endian host.\<close>

definition word_at :: "bytes \<Rightarrow> nat \<Rightarrow> u32" where
  "word_at addr k = le_word (field (4 * k) 4 addr)"

definition set_word_at :: "bytes \<Rightarrow> nat \<Rightarrow> u32 \<Rightarrow> bytes" where
  "set_word_at addr k w = overlay (4 * k) (le_bytes 4 w) addr"

definition old_test_bit :: "bytes \<Rightarrow> nat \<Rightarrow> bool" where
  "old_test_bit addr nr = (drop_bit (nr mod 32) (word_at addr (nr div 32)) AND 1 \<noteq> 0)"

definition old_set_bit :: "bytes \<Rightarrow> nat \<Rightarrow> bytes" where
  "old_set_bit addr nr =
     set_word_at addr (nr div 32) (word_at addr (nr div 32) OR push_bit (nr mod 32) 1)"

definition old_clear_bit :: "bytes \<Rightarrow> nat \<Rightarrow> bytes" where
  "old_clear_bit addr nr =
     set_word_at addr (nr div 32) (word_at addr (nr div 32) AND NOT (push_bit (nr mod 32) 1))"

section \<open>The bitmap interface\<close>

locale bitmap_ops =
  fixes wf :: "'m \<Rightarrow> bool"
    and cap :: "'m \<Rightarrow> nat"
    and tst :: "'m \<Rightarrow> nat \<Rightarrow> bool"
    and st :: "'m \<Rightarrow> nat \<Rightarrow> 'm"
    and clr :: "'m \<Rightarrow> nat \<Rightarrow> 'm"
  assumes wf_st: "wf m \<Longrightarrow> i < cap m \<Longrightarrow> wf (st m i)"
    and wf_clr: "wf m \<Longrightarrow> i < cap m \<Longrightarrow> wf (clr m i)"
    and cap_st: "wf m \<Longrightarrow> i < cap m \<Longrightarrow> cap (st m i) = cap m"
    and cap_clr: "wf m \<Longrightarrow> i < cap m \<Longrightarrow> cap (clr m i) = cap m"
    and tst_st: "wf m \<Longrightarrow> i < cap m \<Longrightarrow> j < cap m \<Longrightarrow> tst (st m i) j \<longleftrightarrow> j = i \<or> tst m j"
    and tst_clr: "wf m \<Longrightarrow> i < cap m \<Longrightarrow> j < cap m \<Longrightarrow> tst (clr m i) j \<longleftrightarrow> j \<noteq> i \<and> tst m j"
begin

lemma foldl_st_wf_cap:
  "wf m \<Longrightarrow> (\<forall>i\<in>set is. i < cap m) \<Longrightarrow> wf (foldl st m is) \<and> cap (foldl st m is) = cap m"
  by (induction "is" arbitrary: m) (simp_all add: wf_st cap_st)

lemma tst_foldl_st:
  "wf m \<Longrightarrow> (\<forall>i\<in>set is. i < cap m) \<Longrightarrow> j < cap m \<Longrightarrow>
    tst (foldl st m is) j \<longleftrightarrow> j \<in> set is \<or> tst m j"
proof (induction "is" arbitrary: m)
  case Nil
  then show ?case by simp
next
  case (Cons i "is")
  then have "wf (st m i)" and "cap (st m i) = cap m"
    by (simp_all add: wf_st cap_st)
  with Cons show ?case by (auto simp: tst_st)
qed

lemma tst_set_range:
  assumes "wf m" and "a + n \<le> cap m" and "j < cap m"
  shows "tst (foldl st m [a..<a + n]) j \<longleftrightarrow> (a \<le> j \<and> j < a + n) \<or> tst m j"
  using assms by (subst tst_foldl_st) auto

lemma set_range_wf_cap:
  assumes "wf m" and "a + n \<le> cap m"
  shows "wf (foldl st m [a..<a + n])" and "cap (foldl st m [a..<a + n]) = cap m"
  using assms foldl_st_wf_cap [of m "[a..<a + n]"] by auto

lemma tst_st_clr:
  assumes "wf m" and "i < cap m" and "j < cap m"
  shows "tst (st (clr m i) i) j \<longleftrightarrow> tst (st m i) j"
  using assms by (auto simp: tst_st tst_clr wf_clr cap_clr)

lemma tst_clr_st:
  assumes "wf m" and "i < cap m" and "j < cap m"
  shows "tst (clr (st m i) i) j \<longleftrightarrow> tst (clr m i) j"
  using assms by (auto simp: tst_st tst_clr wf_st cap_st)

text \<open>Setting every bit of a range one at a time, in any order, gives a full range.\<close>

lemma all_set_iff_covered:
  assumes "wf m" and "n \<le> cap m" and "\<forall>i\<in>set is. i < cap m"
  shows "(\<forall>j<n. tst (foldl st m is) j) \<longleftrightarrow> (\<forall>j<n. j \<in> set is \<or> tst m j)"
  using assms by (auto simp: tst_foldl_st)

end

section \<open>Both numberings meet it\<close>

definition bitmap_wf :: "bytes \<Rightarrow> bool" where
  "bitmap_wf m = (4 dvd length m)"

definition bitmap_cap :: "bytes \<Rightarrow> nat" where
  "bitmap_cap m = 8 * length m"

lemma BIT_MASK_exp: "BIT_MASK = 2 ^ 7"
  by (simp add: BIT_MASK_def)

lemma bit_BIT_MASK: "bit (BIT_MASK :: 'a::len word) k \<longleftrightarrow> k = 7 \<and> 7 < LENGTH('a)"
  unfolding BIT_MASK_exp bit_exp_iff by auto

lemma and_single_bit:
  "(x :: 'a::len word) AND 2 ^ n \<noteq> 0 \<longleftrightarrow> bit x n"
  using bit_iff_and_push_bit_not_eq_0 [of x n] by simp

lemma test_bit_iff: "test_bit addr nr \<longleftrightarrow> bit (addr ! (nr div 8)) (7 - nr mod 8)"
proof -
  have "test_bit addr nr \<longleftrightarrow> bit (push_bit (nr mod 8) (scast (addr ! (nr div 8)) :: u32)) 7"
    unfolding test_bit_def BIT_MASK_exp and_single_bit ..
  moreover have "min 7 (7 - nr mod 8) = 7 - nr mod 8" and "nr mod 8 \<le> 7"
    using mod_less_divisor [of 8 nr] by linarith+
  ultimately show ?thesis
    by (auto simp: bit_push_bit_iff bit_signed_iff)
qed

lemma drop_BIT_MASK:
  "k < 8 \<Longrightarrow> j < 8 \<Longrightarrow> bit (drop_bit k (BIT_MASK :: u8)) j \<longleftrightarrow> j = 7 - k"
  by (auto simp: bit_drop_bit_eq bit_BIT_MASK)

lemma bit_pos_eq:
  fixes i j :: nat
  shows "i div 8 = j div 8 \<and> 7 - i mod 8 = 7 - j mod 8 \<longleftrightarrow> i = j"
proof -
  have "7 - i mod 8 = 7 - j mod 8 \<longleftrightarrow> i mod 8 = j mod 8"
    using mod_less_divisor [of 8 i] mod_less_divisor [of 8 j] by linarith
  then show ?thesis by (metis div_mult_mod_eq)
qed

lemma test_bit_set_bit:
  assumes "i < 8 * length m" and "j < 8 * length m"
  shows "test_bit (set_bit m i) j \<longleftrightarrow> j = i \<or> test_bit m j"
proof (cases "i div 8 = j div 8")
  case True
  moreover have "bit (drop_bit (i mod 8) (BIT_MASK :: u8)) (7 - j mod 8) \<longleftrightarrow> 7 - j mod 8 = 7 - i mod 8"
    by (rule drop_BIT_MASK) simp_all
  ultimately show ?thesis
    using assms bit_pos_eq [of j i]
    by (auto simp: test_bit_iff set_bit_def bit_or_iff)
next
  case False
  with assms show ?thesis by (auto simp: test_bit_iff set_bit_def)
qed

lemma test_bit_clear_bit:
  assumes "i < 8 * length m" and "j < 8 * length m"
  shows "test_bit (clear_bit m i) j \<longleftrightarrow> j \<noteq> i \<and> test_bit m j"
proof (cases "i div 8 = j div 8")
  case True
  moreover have "bit (drop_bit (i mod 8) (BIT_MASK :: u8)) (7 - j mod 8) \<longleftrightarrow> 7 - j mod 8 = 7 - i mod 8"
    by (rule drop_BIT_MASK) simp_all
  ultimately show ?thesis
    using assms bit_pos_eq [of j i]
    by (auto simp: test_bit_iff clear_bit_def bit_and_iff bit_not_iff)
next
  case False
  with assms show ?thesis by (auto simp: test_bit_iff clear_bit_def)
qed

lemma length_set_bit [simp]: "length (set_bit m i) = length m"
  and length_clear_bit [simp]: "length (clear_bit m i) = length m"
  by (simp_all add: set_bit_def clear_bit_def)

interpretation new_bits: bitmap_ops bitmap_wf bitmap_cap test_bit set_bit clear_bit
  by unfold_locales
    (simp_all add: bitmap_wf_def bitmap_cap_def test_bit_set_bit test_bit_clear_bit)

subsection \<open>The old numbering\<close>

lemma old_test_bit_iff: "old_test_bit addr nr \<longleftrightarrow> bit (word_at addr (nr div 32)) (nr mod 32)"
  using and_single_bit [of "drop_bit (nr mod 32) (word_at addr (nr div 32))" 0]
  by (simp add: old_test_bit_def bit_drop_bit_eq)

lemma bitmap_word_range:
  assumes "bitmap_wf m" and "i < bitmap_cap m"
  shows "4 * (i div 32) + 4 \<le> length m"
proof -
  from assms(1) obtain k where "length m = 4 * k" by (auto simp: bitmap_wf_def)
  with assms(2) have "i div 32 < k" by (simp add: bitmap_cap_def less_mult_imp_div_less mult.commute)
  with \<open>length m = 4 * k\<close> show ?thesis by simp
qed

lemma field_overlay_same: "off + length new \<le> length xs \<Longrightarrow> field off (length new) (overlay off new xs) = new"
  by (simp add: field_def overlay_def)

lemma field_overlay_other:
  assumes "off + length new \<le> length xs" and "off' + n \<le> length xs"
    and "off' + n \<le> off \<or> off + length new \<le> off'"
  shows "field off' n (overlay off new xs) = field off' n xs"
proof (rule nth_equalityI)
  show "length (field off' n (overlay off new xs)) = length (field off' n xs)"
    using assms by (simp add: length_field)
next
  fix i
  assume "i < length (field off' n (overlay off new xs))"
  with assms have "i < n" by (simp add: length_field)
  with assms show "field off' n (overlay off new xs) ! i = field off' n xs ! i"
    by (auto simp: field_def nth_overlay)
qed

lemma word_at_set_word_at:
  assumes "4 * k + 4 \<le> length m" and "4 * l + 4 \<le> length m"
  shows "word_at (set_word_at m k w) l = (if l = k then w else word_at m l)"
proof (cases "l = k")
  case True
  with assms show ?thesis
    using field_overlay_same [of "4 * k" "le_bytes 4 w" m]
    by (simp add: word_at_def set_word_at_def le_word_le_bytes)
next
  case False
  then have "4 * l + 4 \<le> 4 * k \<or> 4 * k + 4 \<le> 4 * l" by linarith
  with assms False show ?thesis
    by (simp add: word_at_def set_word_at_def field_overlay_other)
qed

lemma length_set_word_at [simp]: "4 * k + 4 \<le> length m \<Longrightarrow> length (set_word_at m k w) = length m"
  by (simp add: set_word_at_def)

lemma old_pos_eq: "(i :: nat) div 32 = j div 32 \<and> i mod 32 = j mod 32 \<longleftrightarrow> i = j"
  by (metis div_mult_mod_eq)

interpretation old_bits: bitmap_ops bitmap_wf bitmap_cap old_test_bit old_set_bit old_clear_bit
proof unfold_locales
  fix m i
  assume "bitmap_wf m" and "i < bitmap_cap m"
  then have "4 * (i div 32) + 4 \<le> length m" by (rule bitmap_word_range)
  with \<open>bitmap_wf m\<close> show "bitmap_wf (old_set_bit m i)" and "bitmap_wf (old_clear_bit m i)"
    and "bitmap_cap (old_set_bit m i) = bitmap_cap m"
    and "bitmap_cap (old_clear_bit m i) = bitmap_cap m"
    by (simp_all add: old_set_bit_def old_clear_bit_def bitmap_wf_def bitmap_cap_def)
next
  fix m i j
  assume "bitmap_wf m" and "i < bitmap_cap m" and "j < bitmap_cap m"
  then have r: "4 * (i div 32) + 4 \<le> length m" "4 * (j div 32) + 4 \<le> length m"
    by (auto intro: bitmap_word_range)
  have [simp]: "j mod 32 < 32" by simp
  show "old_test_bit (old_set_bit m i) j \<longleftrightarrow> j = i \<or> old_test_bit m j"
    using r old_pos_eq [of j i]
    by (auto simp: old_test_bit_iff old_set_bit_def word_at_set_word_at bit_or_iff bit_exp_iff)
  show "old_test_bit (old_clear_bit m i) j \<longleftrightarrow> j \<noteq> i \<and> old_test_bit m j"
    using r old_pos_eq [of j i]
    by (auto simp: old_test_bit_iff old_clear_bit_def word_at_set_word_at bit_and_iff bit_not_iff
        bit_exp_iff)
qed

text \<open>
  The same bit number names different bits in the two numberings: bit 0 is the top bit of the
  first byte in the new one and the bottom bit in the old one.
\<close>

lemma numberings_differ: "test_bit (set_bit [0, 0, 0, 0] 0) 0 \<and> \<not> old_test_bit (set_bit [0, 0, 0, 0] 0) 0"
  by (simp add: test_bit_def set_bit_def old_test_bit_def word_at_def field_def BIT_MASK_def)

end
