(* ===== verification/Vhd_Format.thy ===== *)
theory Vhd_Format
  imports Vhd_Bitmap
begin

text \<open>
  The data of a VHD file (\<open>include/vhd.h\<close>) and the pure functions on it
  (\<open>include/libvhd.h\<close>, \<open>vhd/lib/libvhd.c\<close>): the footer, the dynamic disk header, the parent
  locators, the block allocation table and the batmap as records, their byte layouts, the
  conversions between file and host byte order, the checksums, the validation functions, the
  sector arithmetic and the CHS geometry. File offsets (\<open>off64_t\<close>) are kept as 64-bit words and
  read signed where the code compares or seeks.
\<close>

section \<open>The structures\<close>

record hd_ftr =
  ftr_cookie :: bytes
  ftr_features :: u32
  ftr_ff_version :: u32
  ftr_data_offset :: u64
  ftr_timestamp :: u32
  ftr_crtr_app :: bytes
  ftr_crtr_ver :: u32
  ftr_crtr_os :: u32
  ftr_orig_size :: u64
  ftr_curr_size :: u64
  ftr_geometry :: u32
  ftr_type :: u32
  ftr_checksum :: u32
  ftr_uuid :: bytes
  ftr_saved :: u8
  ftr_hidden :: u8
  ftr_reserved :: bytes

record prt_loc =
  loc_code :: u32
  loc_data_space :: u32
  loc_data_len :: u32
  loc_res :: u32
  loc_data_offset :: u64

record dd_hdr =
  hdr_cookie :: bytes
  hdr_data_offset :: u64
  hdr_table_offset :: u64
  hdr_ver :: u32
  hdr_max_bat_size :: u32
  hdr_block_size :: u32
  hdr_checksum :: u32
  hdr_prt_uuid :: bytes
  hdr_prt_ts :: u32
  hdr_res1 :: u32
  hdr_prt_name :: bytes
  hdr_loc :: "prt_loc list"
  hdr_res2 :: bytes

text \<open>The compiler pads \<open>struct dd_batmap_hdr\<close> with three bytes to a multiple of eight.\<close>

record dd_batmap_hdr =
  bmh_cookie :: bytes
  bmh_batmap_offset :: u64
  bmh_batmap_size :: u32
  bmh_batmap_version :: u32
  bmh_checksum :: u32
  bmh_marker :: u8
  bmh_pad :: bytes

text \<open>A null \<open>bat\<close> or \<open>map\<close> pointer is \<open>None\<close>. The buffer of a BAT is padded to whole sectors, so
  it may be longer than \<open>entries\<close>.\<close>

record vhd_bat =
  bat_spb :: u32
  bat_entries :: u32
  bat_bat :: "u32 list option"

record vhd_batmap =
  bm_header :: dd_batmap_hdr
  bm_map :: "bytes option"

record vhd_context =
  ctx_file :: string
  ctx_oflags :: u32
  ctx_is_block :: bool
  ctx_spb :: u32
  ctx_bm_secs :: u32
  ctx_header :: dd_hdr
  ctx_footer :: hd_ftr
  ctx_bat :: vhd_bat
  ctx_batmap :: vhd_batmap

section \<open>Constants\<close>

definition VHD_SECTOR_SIZE :: nat where "VHD_SECTOR_SIZE = 512"
definition VHD_SECTOR_SHIFT :: nat where "VHD_SECTOR_SHIFT = 9"
definition VHD_BLOCK_SHIFT :: nat where "VHD_BLOCK_SHIFT = 21"
definition VHD_BLOCK_SIZE :: u64 where "VHD_BLOCK_SIZE = push_bit VHD_BLOCK_SHIFT 1"
definition DD_BLK_UNUSED :: u32 where "DD_BLK_UNUSED = 0xFFFFFFFF"
definition HD_TYPE_NONE :: u32 where "HD_TYPE_NONE = 0"
definition HD_TYPE_FIXED :: u32 where "HD_TYPE_FIXED = 2"
definition HD_TYPE_DYNAMIC :: u32 where "HD_TYPE_DYNAMIC = 3"
definition HD_TYPE_DIFF :: u32 where "HD_TYPE_DIFF = 4"
definition HD_RESERVED :: u32 where "HD_RESERVED = 2"
definition HD_FF_VERSION :: u32 where "HD_FF_VERSION = 0x00010000"
definition DD_VERSION :: u32 where "DD_VERSION = 0x00010000"
definition PLAT_CODE_NONE :: u32 where "PLAT_CODE_NONE = 0"
definition PLAT_CODE_WI2R :: u32 where "PLAT_CODE_WI2R = 0x57693272"
definition PLAT_CODE_WI2K :: u32 where "PLAT_CODE_WI2K = 0x5769326B"
definition PLAT_CODE_W2RU :: u32 where "PLAT_CODE_W2RU = 0x57327275"
definition PLAT_CODE_W2KU :: u32 where "PLAT_CODE_W2KU = 0x57326B75"
definition PLAT_CODE_MAC :: u32 where "PLAT_CODE_MAC = 0x4D616320"
definition PLAT_CODE_MACX :: u32 where "PLAT_CODE_MACX = 0x4D616358"

definition ascii :: "string \<Rightarrow> bytes" where
  "ascii s = map (\<lambda>c. of_nat (of_char c)) s"

definition HD_COOKIE :: bytes where "HD_COOKIE = ascii ''conectix''"
definition DD_COOKIE :: bytes where "DD_COOKIE = ascii ''cxsparse''"
definition VHD_BATMAP_COOKIE :: bytes where "VHD_BATMAP_COOKIE = ascii ''tdbatmap''"
definition VHD_POISON_COOKIE :: bytes where "VHD_POISON_COOKIE = ascii ''v_poison''"

definition VHD_VERSION :: "u32 \<Rightarrow> u32 \<Rightarrow> u32" where
  "VHD_VERSION major minor = push_bit 16 major OR (minor AND 0x0000FFFF)"

definition VHD_CURRENT_VERSION :: u32 where
  "VHD_CURRENT_VERSION = VHD_VERSION 1 3"

definition VHD_BATMAP_VERSION :: "u32 \<Rightarrow> u32 \<Rightarrow> u32" where
  "VHD_BATMAP_VERSION major minor = push_bit 16 major OR (minor AND 0x0000FFFF)"

definition VHD_BATMAP_CURRENT_VERSION :: u32 where
  "VHD_BATMAP_CURRENT_VERSION = VHD_BATMAP_VERSION 1 2"

definition VHD_OPEN_RDONLY :: u32 where "VHD_OPEN_RDONLY = 1"
definition VHD_OPEN_RDWR :: u32 where "VHD_OPEN_RDWR = 2"
definition VHD_OPEN_FAST :: u32 where "VHD_OPEN_FAST = 4"
definition VHD_OPEN_STRICT :: u32 where "VHD_OPEN_STRICT = 8"
definition VHD_OPEN_IGNORE_DISABLED :: u32 where "VHD_OPEN_IGNORE_DISABLED = 16"
definition VHD_OPEN_CACHED :: u32 where "VHD_OPEN_CACHED = 32"
definition VHD_OPEN_IO_WRITE_SPARSE :: u32 where "VHD_OPEN_IO_WRITE_SPARSE = 64"

definition vhd_flag_set :: "u32 \<Rightarrow> u32 \<Rightarrow> u32" where
  "vhd_flag_set word flag = word OR flag"

definition vhd_flag_clear :: "u32 \<Rightarrow> u32 \<Rightarrow> u32" where
  "vhd_flag_clear word flag = word AND NOT flag"

definition vhd_flag_test :: "u32 \<Rightarrow> u32 \<Rightarrow> bool" where
  "vhd_flag_test word flag = (word AND flag \<noteq> 0)"

lemmas vhd_const_defs =
  VHD_SECTOR_SIZE_def VHD_SECTOR_SHIFT_def VHD_BLOCK_SHIFT_def DD_BLK_UNUSED_def
  HD_TYPE_NONE_def HD_TYPE_FIXED_def HD_TYPE_DYNAMIC_def HD_TYPE_DIFF_def
  PLAT_CODE_NONE_def PLAT_CODE_WI2R_def PLAT_CODE_WI2K_def PLAT_CODE_W2RU_def
  PLAT_CODE_W2KU_def PLAT_CODE_MAC_def PLAT_CODE_MACX_def

lemma length_cookies [simp]:
  "length HD_COOKIE = 8" "length DD_COOKIE = 8" "length VHD_BATMAP_COOKIE = 8"
  "length VHD_POISON_COOKIE = 8"
  by (simp_all add: HD_COOKIE_def DD_COOKIE_def VHD_BATMAP_COOKIE_def VHD_POISON_COOKIE_def ascii_def)

lemma VHD_BLOCK_SIZE_val: "VHD_BLOCK_SIZE = 0x200000"
  by (simp add: VHD_BLOCK_SIZE_def VHD_BLOCK_SHIFT_def)

section \<open>Memory layout\<close>

subsection \<open>The footer\<close>

definition ftr_wf :: "hd_ftr \<Rightarrow> bool" where
  "ftr_wf f \<longleftrightarrow> length (ftr_cookie f) = 8 \<and> length (ftr_crtr_app f) = 4 \<and>
     length (ftr_uuid f) = 16 \<and> length (ftr_reserved f) = 426"

definition ftr_bytes :: "hd_ftr \<Rightarrow> bytes" where
  "ftr_bytes f =
     ftr_cookie f @ le_bytes 4 (ftr_features f) @ le_bytes 4 (ftr_ff_version f) @
     le_bytes 8 (ftr_data_offset f) @ le_bytes 4 (ftr_timestamp f) @ ftr_crtr_app f @
     le_bytes 4 (ftr_crtr_ver f) @ le_bytes 4 (ftr_crtr_os f) @ le_bytes 8 (ftr_orig_size f) @
     le_bytes 8 (ftr_curr_size f) @ le_bytes 4 (ftr_geometry f) @ le_bytes 4 (ftr_type f) @
     le_bytes 4 (ftr_checksum f) @ ftr_uuid f @ le_bytes 1 (ftr_saved f) @
     le_bytes 1 (ftr_hidden f) @ ftr_reserved f"

definition ftr_of_bytes :: "bytes \<Rightarrow> hd_ftr" where
  "ftr_of_bytes bs = \<lparr>
     ftr_cookie = field 0 8 bs, ftr_features = le_word (field 8 4 bs),
     ftr_ff_version = le_word (field 12 4 bs), ftr_data_offset = le_word (field 16 8 bs),
     ftr_timestamp = le_word (field 24 4 bs), ftr_crtr_app = field 28 4 bs,
     ftr_crtr_ver = le_word (field 32 4 bs), ftr_crtr_os = le_word (field 36 4 bs),
     ftr_orig_size = le_word (field 40 8 bs), ftr_curr_size = le_word (field 48 8 bs),
     ftr_geometry = le_word (field 56 4 bs), ftr_type = le_word (field 60 4 bs),
     ftr_checksum = le_word (field 64 4 bs), ftr_uuid = field 68 16 bs,
     ftr_saved = le_word (field 84 1 bs), ftr_hidden = le_word (field 85 1 bs),
     ftr_reserved = field 86 426 bs\<rparr>"

subsection \<open>The parent locators and the header\<close>

definition loc_bytes :: "prt_loc \<Rightarrow> bytes" where
  "loc_bytes l =
     le_bytes 4 (loc_code l) @ le_bytes 4 (loc_data_space l) @ le_bytes 4 (loc_data_len l) @
     le_bytes 4 (loc_res l) @ le_bytes 8 (loc_data_offset l)"

definition loc_of_bytes :: "bytes \<Rightarrow> prt_loc" where
  "loc_of_bytes bs = \<lparr>
     loc_code = le_word (field 0 4 bs), loc_data_space = le_word (field 4 4 bs),
     loc_data_len = le_word (field 8 4 bs), loc_res = le_word (field 12 4 bs),
     loc_data_offset = le_word (field 16 8 bs)\<rparr>"

definition hdr_wf :: "dd_hdr \<Rightarrow> bool" where
  "hdr_wf h \<longleftrightarrow> length (hdr_cookie h) = 8 \<and> length (hdr_prt_uuid h) = 16 \<and>
     length (hdr_prt_name h) = 512 \<and> length (hdr_loc h) = 8 \<and> length (hdr_res2 h) = 256"

definition hdr_bytes :: "dd_hdr \<Rightarrow> bytes" where
  "hdr_bytes h =
     hdr_cookie h @ le_bytes 8 (hdr_data_offset h) @ le_bytes 8 (hdr_table_offset h) @
     le_bytes 4 (hdr_ver h) @ le_bytes 4 (hdr_max_bat_size h) @ le_bytes 4 (hdr_block_size h) @
     le_bytes 4 (hdr_checksum h) @ hdr_prt_uuid h @ le_bytes 4 (hdr_prt_ts h) @
     le_bytes 4 (hdr_res1 h) @ hdr_prt_name h @ concat (map loc_bytes (hdr_loc h)) @ hdr_res2 h"

definition hdr_of_bytes :: "bytes \<Rightarrow> dd_hdr" where
  "hdr_of_bytes bs = \<lparr>
     hdr_cookie = field 0 8 bs, hdr_data_offset = le_word (field 8 8 bs),
     hdr_table_offset = le_word (field 16 8 bs), hdr_ver = le_word (field 24 4 bs),
     hdr_max_bat_size = le_word (field 28 4 bs), hdr_block_size = le_word (field 32 4 bs),
     hdr_checksum = le_word (field 36 4 bs), hdr_prt_uuid = field 40 16 bs,
     hdr_prt_ts = le_word (field 56 4 bs), hdr_res1 = le_word (field 60 4 bs),
     hdr_prt_name = field 64 512 bs,
     hdr_loc = map (\<lambda>i. loc_of_bytes (field (576 + 24 * i) 24 bs)) [0..<8],
     hdr_res2 = field 768 256 bs\<rparr>"

subsection \<open>The batmap header\<close>

definition bmh_wf :: "dd_batmap_hdr \<Rightarrow> bool" where
  "bmh_wf b \<longleftrightarrow> length (bmh_cookie b) = 8 \<and> length (bmh_pad b) = 3"

definition bmh_bytes :: "dd_batmap_hdr \<Rightarrow> bytes" where
  "bmh_bytes b =
     bmh_cookie b @ le_bytes 8 (bmh_batmap_offset b) @ le_bytes 4 (bmh_batmap_size b) @
     le_bytes 4 (bmh_batmap_version b) @ le_bytes 4 (bmh_checksum b) @
     le_bytes 1 (bmh_marker b) @ bmh_pad b"

definition bmh_of_bytes :: "bytes \<Rightarrow> dd_batmap_hdr" where
  "bmh_of_bytes bs = \<lparr>
     bmh_cookie = field 0 8 bs, bmh_batmap_offset = le_word (field 8 8 bs),
     bmh_batmap_size = le_word (field 16 4 bs), bmh_batmap_version = le_word (field 20 4 bs),
     bmh_checksum = le_word (field 24 4 bs), bmh_marker = le_word (field 28 1 bs),
     bmh_pad = field 29 3 bs\<rparr>"

subsection \<open>The layouts are codecs\<close>

lemmas field_simps_layout = field_append_skip field_append_here field_whole length_field

lemma length_ftr_bytes [simp]: "ftr_wf f \<Longrightarrow> length (ftr_bytes f) = 512"
  by (simp add: ftr_bytes_def ftr_wf_def)

lemma ftr_of_bytes_ftr_bytes: "ftr_wf f \<Longrightarrow> ftr_of_bytes (ftr_bytes f) = f"
  by (cases f) (simp add: ftr_of_bytes_def ftr_bytes_def ftr_wf_def field_simps_layout
      le_word_le_bytes)

lemma field_then_drop: "b = a + n \<Longrightarrow> field a n bs @ drop b bs = drop a bs"
  by (simp add: field_join)

lemma field_to_end: "length bs = a + n \<Longrightarrow> field a n bs = drop a bs"
  by (simp add: field_def)

lemma field_field: "a + n \<le> m \<Longrightarrow> field a n (field b m bs) = field (b + a) n bs"
  by (simp add: field_def drop_take min_def add.commute)

lemma le_bytes_field:
  assumes "a + n \<le> length bs" and "8 * n \<le> LENGTH('a::len)"
  shows "le_bytes n (le_word (field a n bs) :: 'a word) = field a n bs"
  using assms by (simp add: le_bytes_le_word length_field)

lemma ftr_bytes_ftr_of_bytes: "length bs = 512 \<Longrightarrow> ftr_bytes (ftr_of_bytes bs) = bs"
  by (simp add: ftr_bytes_def ftr_of_bytes_def le_bytes_field field_to_end [of _ 86 426]
      field_then_drop)

lemma ftr_wf_ftr_of_bytes: "length bs = 512 \<Longrightarrow> ftr_wf (ftr_of_bytes bs)"
  by (simp add: ftr_wf_def ftr_of_bytes_def length_field)

interpretation ftr_codec: byte_codec 512 ftr_bytes ftr_of_bytes ftr_wf
  by unfold_locales
    (rule length_ftr_bytes ftr_of_bytes_ftr_bytes ftr_bytes_ftr_of_bytes ftr_wf_ftr_of_bytes;
      assumption)+

lemma length_loc_bytes [simp]: "length (loc_bytes l) = 24"
  by (simp add: loc_bytes_def)

interpretation loc_codec: byte_codec 24 loc_bytes loc_of_bytes "\<lambda>_. True"
proof unfold_locales
  fix l :: prt_loc
  show "loc_of_bytes (loc_bytes l) = l"
    by (cases l) (simp add: loc_of_bytes_def loc_bytes_def field_simps_layout le_word_le_bytes)
next
  fix bs :: bytes
  assume "length bs = 24"
  then show "loc_bytes (loc_of_bytes bs) = bs"
    by (simp add: loc_bytes_def loc_of_bytes_def le_bytes_field)
      (simp add: field_to_end [of _ 16 8] field_then_drop)
qed simp_all

lemma length_concat_loc_bytes [simp]: "length (concat (map loc_bytes ls)) = 24 * length ls"
  by (induction ls) simp_all

lemma upt_0_8: "[0..<8] = [0, 1, 2, 3, 4, 5, 6, 7 :: nat]"
  by (simp add: upt_rec)

lemma list_of_8:
  assumes "length xs = 8"
  obtains a b c d e f g h where "xs = [a, b, c, d, e, f, g, h]"
proof -
  have "length xs = Suc (Suc (Suc (Suc (Suc (Suc (Suc (Suc 0)))))))" using assms by simp
  then show thesis by (auto simp: length_Suc_conv intro: that)
qed

lemma length_hdr_bytes [simp]: "hdr_wf h \<Longrightarrow> length (hdr_bytes h) = 1024"
  by (simp add: hdr_bytes_def hdr_wf_def)

lemma hdr_of_bytes_hdr_bytes:
  assumes "hdr_wf h"
  shows "hdr_of_bytes (hdr_bytes h) = h"
proof -
  from assms have "length (hdr_loc h) = 8" by (simp add: hdr_wf_def)
  then obtain a b c d e f g i where ls: "hdr_loc h = [a, b, c, d, e, f, g, i]"
    by (rule list_of_8)
  with assms show ?thesis
    by (cases h) (simp add: hdr_of_bytes_def hdr_bytes_def hdr_wf_def field_simps_layout
        le_word_le_bytes loc_codec.dec_enc upt_0_8)
qed

lemma loc_bytes_field: "a + 24 \<le> length bs \<Longrightarrow> loc_bytes (loc_of_bytes (field a 24 bs)) = field a 24 bs"
  by (simp add: loc_codec.enc_dec length_field)

lemma hdr_bytes_hdr_of_bytes: "length bs = 1024 \<Longrightarrow> hdr_bytes (hdr_of_bytes bs) = bs"
  by (simp add: hdr_bytes_def hdr_of_bytes_def le_bytes_field field_to_end [of _ 768 256]
      field_then_drop loc_bytes_field upt_0_8)

lemma hdr_wf_hdr_of_bytes: "length bs = 1024 \<Longrightarrow> hdr_wf (hdr_of_bytes bs)"
  by (simp add: hdr_wf_def hdr_of_bytes_def length_field)

interpretation hdr_codec: byte_codec 1024 hdr_bytes hdr_of_bytes hdr_wf
  by unfold_locales
    (rule length_hdr_bytes hdr_of_bytes_hdr_bytes hdr_bytes_hdr_of_bytes hdr_wf_hdr_of_bytes;
      assumption)+

lemma length_bmh_bytes [simp]: "bmh_wf b \<Longrightarrow> length (bmh_bytes b) = 32"
  by (simp add: bmh_bytes_def bmh_wf_def)

interpretation bmh_codec: byte_codec 32 bmh_bytes bmh_of_bytes bmh_wf
proof unfold_locales
  fix b :: dd_batmap_hdr
  assume "bmh_wf b"
  then show "bmh_of_bytes (bmh_bytes b) = b"
    by (cases b) (simp add: bmh_of_bytes_def bmh_bytes_def bmh_wf_def field_simps_layout
        le_word_le_bytes)
next
  fix bs :: bytes
  assume "length bs = 32"
  then show "bmh_bytes (bmh_of_bytes bs) = bs" and "bmh_wf (bmh_of_bytes bs)"
    by (simp_all add: bmh_bytes_def bmh_of_bytes_def bmh_wf_def le_bytes_field length_field
        field_to_end [of _ 29 3] field_then_drop)
qed simp

end
