(* ===== verification/Vhd_Check.thy ===== *)
theory Vhd_Check
  imports Vhd_Format
begin

text \<open>
  The pure functions of \<open>vhd/lib/libvhd.c\<close> and \<open>include/libvhd.h\<close> on the VHD structures: byte
  order conversion, checksums, validation and sector arithmetic. What a checksum detects is in
  \<open>Vhd_Seal\<close>, the CHS geometry in \<open>Vhd_Geometry\<close>.
\<close>

section \<open>Byte order conversion\<close>

definition vhd_footer_in :: "hd_ftr \<Rightarrow> hd_ftr" where
  "vhd_footer_in f = f\<lparr>
     ftr_features := be32 (ftr_features f), ftr_ff_version := be32 (ftr_ff_version f),
     ftr_data_offset := be64 (ftr_data_offset f), ftr_timestamp := be32 (ftr_timestamp f),
     ftr_crtr_ver := be32 (ftr_crtr_ver f), ftr_crtr_os := be32 (ftr_crtr_os f),
     ftr_orig_size := be64 (ftr_orig_size f), ftr_curr_size := be64 (ftr_curr_size f),
     ftr_geometry := be32 (ftr_geometry f), ftr_type := be32 (ftr_type f),
     ftr_checksum := be32 (ftr_checksum f)\<rparr>"

definition vhd_footer_out :: "hd_ftr \<Rightarrow> hd_ftr" where
  "vhd_footer_out f = f\<lparr>
     ftr_features := be32 (ftr_features f), ftr_ff_version := be32 (ftr_ff_version f),
     ftr_data_offset := be64 (ftr_data_offset f), ftr_timestamp := be32 (ftr_timestamp f),
     ftr_crtr_ver := be32 (ftr_crtr_ver f), ftr_crtr_os := be32 (ftr_crtr_os f),
     ftr_orig_size := be64 (ftr_orig_size f), ftr_curr_size := be64 (ftr_curr_size f),
     ftr_geometry := be32 (ftr_geometry f), ftr_type := be32 (ftr_type f),
     ftr_checksum := be32 (ftr_checksum f)\<rparr>"

definition loc_swap :: "prt_loc \<Rightarrow> prt_loc" where
  "loc_swap l = l\<lparr>loc_code := be32 (loc_code l), loc_data_space := be32 (loc_data_space l),
     loc_data_len := be32 (loc_data_len l), loc_data_offset := be64 (loc_data_offset l)\<rparr>"

definition vhd_header_in :: "dd_hdr \<Rightarrow> dd_hdr" where
  "vhd_header_in h = h\<lparr>
     hdr_data_offset := be64 (hdr_data_offset h), hdr_table_offset := be64 (hdr_table_offset h),
     hdr_ver := be32 (hdr_ver h), hdr_max_bat_size := be32 (hdr_max_bat_size h),
     hdr_block_size := be32 (hdr_block_size h), hdr_checksum := be32 (hdr_checksum h),
     hdr_prt_ts := be32 (hdr_prt_ts h), hdr_loc := map loc_swap (hdr_loc h)\<rparr>"

definition vhd_header_out :: "dd_hdr \<Rightarrow> dd_hdr" where
  "vhd_header_out h = h\<lparr>
     hdr_data_offset := be64 (hdr_data_offset h), hdr_table_offset := be64 (hdr_table_offset h),
     hdr_ver := be32 (hdr_ver h), hdr_max_bat_size := be32 (hdr_max_bat_size h),
     hdr_block_size := be32 (hdr_block_size h), hdr_checksum := be32 (hdr_checksum h),
     hdr_prt_ts := be32 (hdr_prt_ts h), hdr_loc := map loc_swap (hdr_loc h)\<rparr>"

definition vhd_batmap_header_in :: "vhd_batmap \<Rightarrow> vhd_batmap" where
  "vhd_batmap_header_in b = b\<lparr>bm_header := (bm_header b)\<lparr>
     bmh_batmap_offset := be64 (bmh_batmap_offset (bm_header b)),
     bmh_batmap_size := be32 (bmh_batmap_size (bm_header b)),
     bmh_batmap_version := be32 (bmh_batmap_version (bm_header b)),
     bmh_checksum := be32 (bmh_checksum (bm_header b))\<rparr>\<rparr>"

definition vhd_batmap_header_out :: "vhd_batmap \<Rightarrow> vhd_batmap" where
  "vhd_batmap_header_out b = b\<lparr>bm_header := (bm_header b)\<lparr>
     bmh_batmap_offset := be64 (bmh_batmap_offset (bm_header b)),
     bmh_batmap_size := be32 (bmh_batmap_size (bm_header b)),
     bmh_batmap_version := be32 (bmh_batmap_version (bm_header b)),
     bmh_checksum := be32 (bmh_checksum (bm_header b))\<rparr>\<rparr>"

text \<open>Only the first \<open>entries\<close> words of the buffer are swapped.\<close>

definition swap_first :: "nat \<Rightarrow> u32 list \<Rightarrow> u32 list" where
  "swap_first n ws = map be32 (take n ws) @ drop n ws"

definition vhd_bat_in :: "vhd_bat \<Rightarrow> vhd_bat" where
  "vhd_bat_in b = b\<lparr>bat_bat := map_option (swap_first (unat (bat_entries b))) (bat_bat b)\<rparr>"

definition vhd_bat_out :: "vhd_bat \<Rightarrow> vhd_bat" where
  "vhd_bat_out b = b\<lparr>bat_bat := map_option (swap_first (unat (bat_entries b))) (bat_bat b)\<rparr>"

lemma vhd_footer_in_out [simp]: "vhd_footer_in (vhd_footer_out f) = f"
  by (cases f) (simp add: vhd_footer_in_def vhd_footer_out_def)

lemma vhd_footer_out_in [simp]: "vhd_footer_out (vhd_footer_in f) = f"
  by (cases f) (simp add: vhd_footer_in_def vhd_footer_out_def)

lemma loc_swap_swap [simp]: "loc_swap (loc_swap l) = l"
  by (cases l) (simp add: loc_swap_def)

lemma map_loc_swap_swap [simp]: "map (loc_swap \<circ> loc_swap) ls = ls"
  by (induction ls) simp_all

lemma vhd_header_in_out [simp]: "vhd_header_in (vhd_header_out h) = h"
  by (cases h) (simp add: vhd_header_in_def vhd_header_out_def)

lemma vhd_header_out_in [simp]: "vhd_header_out (vhd_header_in h) = h"
  by (cases h) (simp add: vhd_header_in_def vhd_header_out_def)

lemma vhd_batmap_header_in_out [simp]: "vhd_batmap_header_in (vhd_batmap_header_out b) = b"
  by (cases b; cases "bm_header b") (simp add: vhd_batmap_header_in_def vhd_batmap_header_out_def)

lemma swap_first_swap_first [simp]: "swap_first n (swap_first n ws) = ws"
proof -
  have "map (be32 \<circ> be32) xs = xs" for xs by (induction xs) simp_all
  then show ?thesis by (simp add: swap_first_def min_def)
qed

lemma vhd_bat_in_out [simp]: "vhd_bat_in (vhd_bat_out b) = b"
  by (cases b; cases "bat_bat b") (simp_all add: vhd_bat_in_def vhd_bat_out_def)

lemma ftr_wf_in_out [simp]:
  "ftr_wf (vhd_footer_in f) = ftr_wf f" "ftr_wf (vhd_footer_out f) = ftr_wf f"
  by (simp_all add: ftr_wf_def vhd_footer_in_def vhd_footer_out_def)

lemma hdr_wf_in_out [simp]:
  "hdr_wf (vhd_header_in h) = hdr_wf h" "hdr_wf (vhd_header_out h) = hdr_wf h"
  by (simp_all add: hdr_wf_def vhd_header_in_def vhd_header_out_def)

section \<open>Sector arithmetic\<close>

definition secs_round_up :: "u64 \<Rightarrow> u32" where
  "secs_round_up b = ucast (drop_bit VHD_SECTOR_SHIFT (b + (of_nat VHD_SECTOR_SIZE - 1)))"

definition secs_round_up_no_zero :: "u64 \<Rightarrow> u32" where
  "secs_round_up_no_zero b = (if secs_round_up b \<noteq> 0 then secs_round_up b else 1)"

definition vhd_sectors_to_bytes :: "u64 \<Rightarrow> u64" where
  "vhd_sectors_to_bytes sectors = push_bit VHD_SECTOR_SHIFT sectors"

definition vhd_bytes_padded :: "u64 \<Rightarrow> u64" where
  "vhd_bytes_padded b = vhd_sectors_to_bytes (ucast (secs_round_up_no_zero b))"

definition vhd_parent_locator_size :: "prt_loc \<Rightarrow> u64" where
  "vhd_parent_locator_size loc =
     (if loc_data_space loc < 512 then vhd_sectors_to_bytes (ucast (loc_data_space loc))
      else if loc_data_space loc mod 512 = 0 then ucast (loc_data_space loc)
      else 0)"

section \<open>Predicates on a context\<close>

definition vhd_type_dynamic :: "vhd_context \<Rightarrow> bool" where
  "vhd_type_dynamic ctx \<longleftrightarrow>
     ftr_type (ctx_footer ctx) = HD_TYPE_DYNAMIC \<or> ftr_type (ctx_footer ctx) = HD_TYPE_DIFF"

text \<open>\<open>strncmp(app, "tap", 3) == 0\<close>: no character of the literal is NUL, so the comparison is of
  the first three bytes.\<close>

definition app_is_tap :: "bytes \<Rightarrow> bool" where
  "app_is_tap app \<longleftrightarrow> take 3 app = ascii ''tap''"

definition vhd_creator_tapdisk :: "vhd_context \<Rightarrow> bool" where
  "vhd_creator_tapdisk ctx = app_is_tap (ftr_crtr_app (ctx_footer ctx))"

definition vhd_disabled :: "vhd_context \<Rightarrow> bool" where
  "vhd_disabled ctx \<longleftrightarrow> take 8 (ftr_cookie (ctx_footer ctx)) = VHD_POISON_COOKIE"

definition vhd_parent_raw :: "vhd_context \<Rightarrow> bool" where
  "vhd_parent_raw ctx \<longleftrightarrow> hdr_prt_uuid (ctx_header ctx) = zeros 16"

definition vhd_parent_locator_count :: "vhd_context \<Rightarrow> nat" where
  "vhd_parent_locator_count ctx = 8"

section \<open>Bitmaps of a context\<close>

definition old_bitmaps :: "vhd_context \<Rightarrow> bool" where
  "old_bitmaps ctx \<longleftrightarrow> vhd_creator_tapdisk ctx \<and> ftr_crtr_ver (ctx_footer ctx) = 0x00000001"

definition vhd_bitmap_test :: "vhd_context \<Rightarrow> bytes \<Rightarrow> nat \<Rightarrow> bool" where
  "vhd_bitmap_test ctx m block =
     (if vhd_creator_tapdisk ctx \<and> ftr_crtr_ver (ctx_footer ctx) = 0x00000001
      then old_test_bit m block else test_bit m block)"

definition vhd_bitmap_set :: "vhd_context \<Rightarrow> bytes \<Rightarrow> nat \<Rightarrow> bytes" where
  "vhd_bitmap_set ctx m block =
     (if vhd_creator_tapdisk ctx \<and> ftr_crtr_ver (ctx_footer ctx) = 0x00000001
      then old_set_bit m block else set_bit m block)"

definition vhd_bitmap_clear :: "vhd_context \<Rightarrow> bytes \<Rightarrow> nat \<Rightarrow> bytes" where
  "vhd_bitmap_clear ctx m block =
     (if vhd_creator_tapdisk ctx \<and> ftr_crtr_ver (ctx_footer ctx) = 0x00000001
      then old_clear_bit m block else clear_bit m block)"

interpretation ctx_bits: bitmap_ops bitmap_wf bitmap_cap
    "vhd_bitmap_test ctx" "vhd_bitmap_set ctx" "vhd_bitmap_clear ctx" for ctx
  by unfold_locales
    (simp_all add: vhd_bitmap_test_def vhd_bitmap_set_def vhd_bitmap_clear_def
      new_bits.wf_st new_bits.wf_clr new_bits.cap_st new_bits.cap_clr new_bits.tst_st new_bits.tst_clr
      old_bits.wf_st old_bits.wf_clr old_bits.cap_st old_bits.cap_clr old_bits.tst_st old_bits.tst_clr)

section \<open>Checksums and validation\<close>

definition vhd_checksum_footer :: "hd_ftr \<Rightarrow> u32" where
  "vhd_checksum_footer f = NOT (byte_sum (ftr_bytes (f\<lparr>ftr_checksum := 0\<rparr>)))"

text \<open>Early versions of the tools did not seal the footer again when they marked a disk hidden.\<close>

definition legacy_hidden :: "hd_ftr \<Rightarrow> bool" where
  "legacy_hidden f \<longleftrightarrow> ftr_hidden f \<noteq> 0 \<and> app_is_tap (ftr_crtr_app f) \<and>
     (ftr_crtr_ver f = VHD_VERSION 0 1 \<or> ftr_crtr_ver f = VHD_VERSION 1 1)"

definition vhd_validate_footer :: "hd_ftr \<Rightarrow> int" where
  "vhd_validate_footer f =
     (if ftr_cookie f \<noteq> HD_COOKIE \<and> ftr_cookie f \<noteq> VHD_POISON_COOKIE then - EINVAL
      else if vhd_checksum_footer f \<noteq> ftr_checksum f then
        (if legacy_hidden f \<and> vhd_checksum_footer (f\<lparr>ftr_hidden := 0\<rparr>) = ftr_checksum f then 0
         else - EINVAL)
      else 0)"

definition vhd_checksum_header :: "dd_hdr \<Rightarrow> u32" where
  "vhd_checksum_header h = NOT (byte_sum (hdr_bytes (h\<lparr>hdr_checksum := 0\<rparr>)))"

definition vhd_validate_platform_code :: "u32 \<Rightarrow> int" where
  "vhd_validate_platform_code code =
     (if code = PLAT_CODE_NONE \<or> code = PLAT_CODE_WI2R \<or> code = PLAT_CODE_WI2K \<or>
         code = PLAT_CODE_W2RU \<or> code = PLAT_CODE_W2KU \<or> code = PLAT_CODE_MAC \<or>
         code = PLAT_CODE_MACX
      then 0 else - EINVAL)"

definition vhd_validate_header :: "dd_hdr \<Rightarrow> int" where
  "vhd_validate_header h =
     (if hdr_cookie h \<noteq> DD_COOKIE then - EINVAL
      else if hdr_ver h \<noteq> 0x00010000 then - EINVAL
      else if hdr_data_offset h \<noteq> 0xFFFFFFFFFFFFFFFF then - EINVAL
      else if \<exists>l\<in>set (hdr_loc h). vhd_validate_platform_code (loc_code l) \<noteq> 0 then - EINVAL
      else if vhd_checksum_header h \<noteq> hdr_checksum h then - EINVAL
      else 0)"

definition vhd_validate_bat :: "vhd_bat \<Rightarrow> int" where
  "vhd_validate_bat b = (if bat_bat b = None then - EINVAL else 0)"

text \<open>The number of bytes of the batmap that are in use for the current size of the disk.\<close>

definition batmap_map_size :: "vhd_context \<Rightarrow> u64" where
  "batmap_map_size ctx =
     vhd_sectors_to_bytes (ucast (secs_round_up_no_zero
       (drop_bit (VHD_BLOCK_SHIFT + 3) (ftr_curr_size (ctx_footer ctx)))))"

text \<open>
  Version 1.1 of the batmap sums signed characters. The map is read up to \<open>map_size\<close> bytes; where
  it is shorter the C code reads past its end, and the model sums what there is (the callers in
  \<open>Vhd_Meta\<close> make that case undefined).
\<close>

definition vhd_checksum_batmap :: "vhd_context \<Rightarrow> vhd_batmap \<Rightarrow> u32" where
  "vhd_checksum_batmap ctx b =
     NOT (foldl (\<lambda>c x. c +
         (if bmh_batmap_version (bm_header b) = VHD_BATMAP_VERSION 1 1 then scast x else ucast x))
       0 (take (unat (batmap_map_size ctx)) (case bm_map b of None \<Rightarrow> [] | Some m \<Rightarrow> m)))"

definition vhd_validate_batmap_header :: "vhd_batmap \<Rightarrow> int" where
  "vhd_validate_batmap_header b =
     (if bmh_cookie (bm_header b) \<noteq> VHD_BATMAP_COOKIE then - EINVAL
      else if bmh_batmap_version (bm_header b) > VHD_BATMAP_CURRENT_VERSION then - EINVAL
      else 0)"

definition vhd_validate_batmap :: "vhd_context \<Rightarrow> vhd_batmap \<Rightarrow> int" where
  "vhd_validate_batmap ctx b =
     (if bm_map b = None then - EINVAL
      else if vhd_checksum_batmap ctx b \<noteq> bmh_checksum (bm_header b) then - EINVAL
      else 0)"

text \<open>The batmap header lies in the first sector after the BAT.\<close>

definition vhd_batmap_header_offset :: "vhd_context \<Rightarrow> u64" where
  "vhd_batmap_header_offset ctx =
     hdr_table_offset (ctx_header ctx) +
     vhd_bytes_padded (ucast (hdr_max_bat_size (ctx_header ctx)) * 4)"

end
