(* ===== verification/Vhd_Posix.thy ===== *)
theory Vhd_Posix
  imports Vhd_Check
begin

text \<open>
  The files the library works on and its I/O primitives (\<open>vhd_atomic_pio\<close>, \<open>vhd_atomic_io\<close>,
  \<open>vhd_seek\<close>, \<open>vhd_position\<close>, \<open>vhd_read\<close>, \<open>vhd_write\<close>, \<open>vhd_pread\<close>, \<open>vhd_pwrite\<close>). The
  system calls follow POSIX, and what they may do is input of the model: every call takes
  the next event of a schedule and transfers everything it can (\<open>Full\<close>), at most \<open>k\<close> bytes
  (\<open>Short k\<close>) or fails with an errno (\<open>Fail e\<close>); when the schedule is used up every further call
  is \<open>Full\<close>. Allocations take the next element of a second list. So a statement about all
  schedules is a statement about every interruption, short transfer, I/O error and shortage of
  memory.
\<close>

section \<open>Files and system calls\<close>

text \<open>A file is its bytes and its size; the size of a block device cannot change.\<close>

record vfile =
  f_data :: "nat \<Rightarrow> u8"
  f_size :: nat
  f_blk :: bool

datatype io_ev = Full | Short nat | Fail int

record vsys =
  sys_files :: "string \<Rightarrow> vfile option"
  sys_sched :: "io_ev list"
  sys_mem :: "bool list"
  sys_errno :: int

text \<open>
  An open context: the structure, the kernel's offset of its descriptor, the contexts reachable
  through its \<open>parent\<close> pointers (an image opened with \<open>VHD_OPEN_CACHED\<close>; the offsets of their
  descriptors are not kept, since every access to a parent seeks first), and the system.
\<close>

record vst =
  st_ctx :: vhd_context
  st_pos :: nat
  st_parents :: "vhd_context list"
  st_sys :: vsys

definition EBADF :: int where [errno_simps]: "EBADF = 9"

definition cur_file :: "vst \<Rightarrow> vfile option" where
  "cur_file s = sys_files (st_sys s) (ctx_file (st_ctx s))"

definition set_cur_file :: "vfile \<Rightarrow> vst \<Rightarrow> vst" where
  "set_cur_file f s = s\<lparr>st_sys := (st_sys s)\<lparr>sys_files :=
     (sys_files (st_sys s))(ctx_file (st_ctx s) \<mapsto> f)\<rparr>\<rparr>"

definition set_errno :: "int \<Rightarrow> vst \<Rightarrow> vst" where
  "set_errno e s = s\<lparr>st_sys := (st_sys s)\<lparr>sys_errno := e\<rparr>\<rparr>"

definition get_errno :: "vst \<Rightarrow> int" where
  "get_errno s = sys_errno (st_sys s)"

definition take_ev :: "vst \<Rightarrow> io_ev \<times> vst" where
  "take_ev s = (case sys_sched (st_sys s) of
     [] \<Rightarrow> (Full, s)
   | e # es \<Rightarrow> (e, s\<lparr>st_sys := (st_sys s)\<lparr>sys_sched := es\<rparr>\<rparr>))"

text \<open>How many of \<open>n\<close> bytes an event lets through (a successful transfer makes progress).\<close>

fun ev_limit :: "io_ev \<Rightarrow> nat \<Rightarrow> nat" where
  "ev_limit Full n = n"
| "ev_limit (Short k) n = min (max 1 k) n"
| "ev_limit (Fail e) n = 0"

definition file_read :: "vfile \<Rightarrow> nat \<Rightarrow> nat \<Rightarrow> bytes" where
  "file_read f off n = map (f_data f) [off..<off + n]"

text \<open>Writing past the end of a file leaves a hole that reads as zeros.\<close>

definition file_write :: "vfile \<Rightarrow> nat \<Rightarrow> bytes \<Rightarrow> vfile" where
  "file_write f off bs = f\<lparr>
     f_data := (\<lambda>i. if off \<le> i \<and> i < off + length bs then bs ! (i - off)
                    else if \<not> f_blk f \<and> f_size f \<le> i \<and> i < off then 0
                    else f_data f i),
     f_size := (if f_blk f then f_size f else max (f_size f) (off + length bs))\<rparr>"

definition pread_call :: "nat \<Rightarrow> int \<Rightarrow> vst \<Rightarrow> int \<times> bytes \<times> vst" where
  "pread_call n off s = (case take_ev s of (ev, s) \<Rightarrow>
     (case ev of Fail e \<Rightarrow> (- 1, [], set_errno e s)
      | _ \<Rightarrow> (case cur_file s of
           None \<Rightarrow> (- 1, [], set_errno EBADF s)
         | Some f \<Rightarrow>
             if off < 0 then (- 1, [], set_errno EINVAL s)
             else (let m = ev_limit ev (min n (f_size f - nat off))
                   in (int m, file_read f (nat off) m, s)))))"

definition pwrite_call :: "bytes \<Rightarrow> int \<Rightarrow> vst \<Rightarrow> int \<times> vst" where
  "pwrite_call bs off s = (case take_ev s of (ev, s) \<Rightarrow>
     (case ev of Fail e \<Rightarrow> (- 1, set_errno e s)
      | _ \<Rightarrow> (case cur_file s of
           None \<Rightarrow> (- 1, set_errno EBADF s)
         | Some f \<Rightarrow>
             if off < 0 then (- 1, set_errno EINVAL s)
             else if bs = [] then (0, s)
             else if f_blk f \<and> f_size f \<le> nat off then (- 1, set_errno ENOSPC s)
             else (let m = ev_limit ev (if f_blk f then min (length bs) (f_size f - nat off)
                                        else length bs)
                   in (int m, set_cur_file (file_write f (nat off) (take m bs)) s)))))"

text \<open>\<open>fstat\<close>: \<open>None\<close> is -1. The size of a block device is reported as 0.\<close>

definition fstat_size :: "vst \<Rightarrow> nat option \<times> vst" where
  "fstat_size s = (case take_ev s of (ev, s) \<Rightarrow>
     (case ev of Fail e \<Rightarrow> (None, set_errno e s)
      | _ \<Rightarrow> (case cur_file s of
           None \<Rightarrow> (None, set_errno EBADF s)
         | Some f \<Rightarrow> (Some (if f_blk f then 0 else f_size f), s))))"

datatype whence = SEEK_SET | SEEK_CUR | SEEK_END

text \<open>\<open>lseek64\<close>: the new offset, or \<open>None\<close> for -1.\<close>

definition lseek64 :: "int \<Rightarrow> whence \<Rightarrow> vst \<Rightarrow> nat option \<times> vst" where
  "lseek64 off wh s = (case take_ev s of (ev, s) \<Rightarrow>
     (case ev of Fail e \<Rightarrow> (None, set_errno e s)
      | _ \<Rightarrow> (case cur_file s of
           None \<Rightarrow> (None, set_errno EBADF s)
         | Some f \<Rightarrow>
             (let new = (case wh of SEEK_SET \<Rightarrow> off
                         | SEEK_CUR \<Rightarrow> int (st_pos s) + off
                         | SEEK_END \<Rightarrow> int (f_size f) + off)
              in if new < 0 then (None, set_errno EINVAL s)
                 else (Some (nat new), s\<lparr>st_pos := nat new\<rparr>)))))"

definition ftruncate :: "int \<Rightarrow> vst \<Rightarrow> int \<times> vst" where
  "ftruncate len s = (case take_ev s of (ev, s) \<Rightarrow>
     (case ev of Fail e \<Rightarrow> (- 1, set_errno e s)
      | _ \<Rightarrow> (case cur_file s of
           None \<Rightarrow> (- 1, set_errno EBADF s)
         | Some f \<Rightarrow>
             if len < 0 \<or> f_blk f then (- 1, set_errno EINVAL s)
             else (0, set_cur_file (f\<lparr>
               f_data := (\<lambda>i. if i < nat len \<and> i < f_size f then f_data f i else 0),
               f_size := nat len\<rparr>) s))))"

text \<open>\<open>posix_memalign\<close>, \<open>malloc\<close>, \<open>calloc\<close>, \<open>mmap\<close>: the error is what the caller returns.\<close>

definition valloc :: "int \<Rightarrow> (vst, unit) vm" where
  "valloc e = (\<lambda>s. case sys_mem (st_sys s) of
     [] \<Rightarrow> (Inr (), s)
   | b # bs \<Rightarrow> (if b then Inl (Errno e) else Inr (),
       s\<lparr>st_sys := (st_sys s)\<lparr>sys_mem := bs\<rparr>\<rparr>))"

section \<open>The I/O loop\<close>

datatype pio_dir = Pread | Pwrite

text \<open>One call \<open>f(fd, s + pos, n - pos, off + pos)\<close>; a read fills the buffer.\<close>

definition pio_step :: "pio_dir \<Rightarrow> bytes \<Rightarrow> nat \<Rightarrow> nat \<Rightarrow> int \<Rightarrow> vst \<Rightarrow> int \<times> bytes \<times> vst" where
  "pio_step d buf pos n off s =
     (case d of
        Pread \<Rightarrow> (case pread_call (n - pos) (off + int pos) s of
                   (res, data, s) \<Rightarrow> (res, overlay pos data buf, s))
      | Pwrite \<Rightarrow> (case pwrite_call (take (n - pos) (drop pos buf)) (off + int pos) s of
                   (res, s) \<Rightarrow> (res, buf, s)))"

text \<open>
  The body of \<open>vhd_atomic_pio\<close>. \<open>stsz\<close> is \<open>st.st_size\<close>, 0 until \<open>fstat\<close> has been called. A short
  transfer that does not end at the end of the file goes on from the last whole sector.
\<close>

fun pio_loop ::
    "nat \<Rightarrow> pio_dir \<Rightarrow> nat \<Rightarrow> int \<Rightarrow> nat \<Rightarrow> nat \<Rightarrow> bytes \<Rightarrow> vst \<Rightarrow> (int \<times> bytes \<times> vst) option" where
  "pio_loop 0 d n off pos stsz buf s = None"
| "pio_loop (Suc k) d n off pos stsz buf s =
     (case pio_step d buf pos n off s of (res, buf, s) \<Rightarrow>
        if res = - 1 then
          (if get_errno s = EINTR \<or> get_errno s = EAGAIN
           then pio_loop k d n off pos stsz buf s
           else Some (0, buf, s))
        else if res = 0 then Some (int pos, buf, set_errno EPIPE s)
        else if pos + nat res = n then Some (int n, buf, s)
        else
          (case (if stsz = 0 then fstat_size s else (Some stsz, s)) of
             (None, s) \<Rightarrow> Some (- 1, buf, s)
           | (Some stsz, s) \<Rightarrow>
               if off + int pos + res = int stsz then Some (int pos + res, buf, s)
               else pio_loop k d n off (pos + VHD_SECTOR_SIZE * (nat res div VHD_SECTOR_SIZE))
                      stsz buf s))"

text \<open>The loop ends: a call that does not end it consumes an event of the schedule, apart from
  at most one call after the schedule is used up (see \<open>pio_loop_enough\<close>).\<close>

definition pio_fuel :: "vst \<Rightarrow> nat" where
  "pio_fuel s = length (sys_sched (st_sys s)) + 3"

definition vhd_atomic_pio :: "pio_dir \<Rightarrow> bytes \<Rightarrow> nat \<Rightarrow> int \<Rightarrow> (vst, int \<times> bytes) vm" where
  "vhd_atomic_pio d buf n off = (\<lambda>s.
     case pio_loop (pio_fuel s) d n off 0 0 buf s of
       None \<Rightarrow> (Inl Hang, s)
     | Some (res, buf, s) \<Rightarrow> (Inr (res, buf), s))"

definition vhd_atomic_io :: "pio_dir \<Rightarrow> bytes \<Rightarrow> nat \<Rightarrow> (vst, int \<times> bytes) vm" where
  "vhd_atomic_io d buf n = (\<lambda>s.
     case lseek64 0 SEEK_CUR s of
       (None, s) \<Rightarrow> (Inr (- 1, buf), s)
     | (Some off, s) \<Rightarrow>
         vbind (vhd_atomic_pio d buf n (int off)) (\<lambda>(res, buf) s.
           if res > 0 then
             (case lseek64 (int off + res) SEEK_SET s of
                (None, s) \<Rightarrow> (Inr (- 1, buf), s)
              | (Some _, s) \<Rightarrow> (Inr (res, buf), s))
           else (Inr (res, buf), s)) s)"

definition vhd_seek :: "int \<Rightarrow> whence \<Rightarrow> (vst, unit) vm" where
  "vhd_seek offset wh = (\<lambda>s. case lseek64 offset wh s of
     (None, s) \<Rightarrow> (Inl (Errno (- get_errno s)), s)
   | (Some _, s) \<Rightarrow> (Inr (), s))"

text \<open>\<open>vhd_position\<close> returns -1 (here \<open>None\<close>) when \<open>lseek64\<close> fails.\<close>

definition vhd_position :: "(vst, nat option) vm" where
  "vhd_position = (\<lambda>s. case lseek64 0 SEEK_CUR s of (r, s) \<Rightarrow> (Inr r, s))"

text \<open>\<open>return (errno ? -errno : -EIO)\<close>\<close>

definition io_error :: "vst \<Rightarrow> int" where
  "io_error s = (if get_errno s \<noteq> 0 then - get_errno s else - EIO)"

text \<open>\<open>vhd_read\<close> as seen by a caller that goes on after an error: the status and the buffer.\<close>

definition vhd_read_buf :: "bytes \<Rightarrow> nat \<Rightarrow> (vst, int \<times> bytes) vm" where
  "vhd_read_buf buf n =
     vthen (vmodify (set_errno 0))
       (vbind (vhd_atomic_io Pread buf n) (\<lambda>(ret, buf) s.
          (Inr (if ret = int n then 0 else io_error s, buf), s)))"

definition vhd_read :: "nat \<Rightarrow> (vst, bytes) vm" where
  "vhd_read n = vbind (vhd_read_buf (zeros n) n)
     (\<lambda>(err, buf). if err = 0 then vret buf else vfail err)"

definition vhd_write :: "bytes \<Rightarrow> (vst, unit) vm" where
  "vhd_write buf =
     vthen (vmodify (set_errno 0))
       (vbind (vhd_atomic_io Pwrite buf (length buf)) (\<lambda>(ret, _) s.
          (if ret = int (length buf) then Inr () else Inl (Errno (io_error s)), s)))"

definition vhd_pread :: "nat \<Rightarrow> int \<Rightarrow> (vst, bytes) vm" where
  "vhd_pread n offset =
     vthen (vmodify (set_errno 0))
       (vbind (vhd_atomic_pio Pread (zeros n) n offset) (\<lambda>(ret, buf) s.
          (if ret = int n then Inr buf else Inl (Errno (io_error s)), s)))"

definition vhd_pwrite :: "bytes \<Rightarrow> int \<Rightarrow> (vst, unit) vm" where
  "vhd_pwrite buf offset =
     vthen (vmodify (set_errno 0))
       (vbind (vhd_atomic_pio Pwrite buf (length buf) offset) (\<lambda>(ret, _) s.
          (if ret = int (length buf) then Inr () else Inl (Errno (io_error s)), s)))"

end
