(* ===== verification/Vhd_Posix_Laws.thy ===== *)
theory Vhd_Posix_Laws
  imports Vhd_Posix
begin

text \<open>
  What the I/O primitives guarantee under every schedule of short transfers, interruptions and
  failures: a read that succeeds returned exactly the bytes of the file, a write that succeeds
  stored exactly the bytes given, and nothing else of the system changed. The locale
  \<open>byte_store\<close> states that contract; seek-then-read/write and the positional calls are its two
  instances, and the read-after-write and frame lemmas are proved once for both.
\<close>

section \<open>Frames\<close>

definition unchanged :: "vst \<Rightarrow> vst \<Rightarrow> bool" where
  "unchanged s t \<longleftrightarrow> st_ctx t = st_ctx s \<and> st_pos t = st_pos s \<and>
     sys_files (st_sys t) = sys_files (st_sys s) \<and> sys_mem (st_sys t) = sys_mem (st_sys s)"

lemma unchanged_refl [simp]: "unchanged s s"
  by (simp add: unchanged_def)

lemma unchanged_trans [trans]: "unchanged s t \<Longrightarrow> unchanged t u \<Longrightarrow> unchanged s u"
  by (simp add: unchanged_def)

lemma unchanged_cur_file: "unchanged s t \<Longrightarrow> cur_file t = cur_file s"
  by (simp add: unchanged_def cur_file_def)

lemma unchanged_set_errno [simp]: "unchanged s (set_errno e t) = unchanged s t"
  by (simp add: unchanged_def set_errno_def)

lemma cur_file_set_errno [simp]: "cur_file (set_errno e s) = cur_file s"
  by (simp add: cur_file_def set_errno_def)

lemma set_errno_fields [simp]:
  "st_ctx (set_errno e s) = st_ctx s" "st_pos (set_errno e s) = st_pos s"
  "sys_files (st_sys (set_errno e s)) = sys_files (st_sys s)"
  "sys_mem (st_sys (set_errno e s)) = sys_mem (st_sys s)"
  "sys_sched (st_sys (set_errno e s)) = sys_sched (st_sys s)"
  "get_errno (set_errno e s) = e"
  by (simp_all add: set_errno_def get_errno_def)

lemma take_ev_unchanged: "take_ev s = (ev, t) \<Longrightarrow> unchanged s t"
  by (auto simp: take_ev_def unchanged_def split: list.splits)

lemma take_ev_length:
  "take_ev s = (ev, t) \<Longrightarrow> length (sys_sched (st_sys t)) = length (sys_sched (st_sys s)) - 1"
  by (auto simp: take_ev_def split: list.splits)

lemma take_ev_Nil [simp]: "sys_sched (st_sys s) = [] \<Longrightarrow> take_ev s = (Full, s)"
  by (simp add: take_ev_def)

lemma ev_limit_le: "ev_limit ev n \<le> n"
  by (cases ev) auto

lemma ev_limit_pos: "0 < n \<Longrightarrow> ev = Full \<or> (\<exists>k. ev = Short k) \<Longrightarrow> 0 < ev_limit ev n"
  by auto

lemma length_file_read [simp]: "length (file_read f off n) = n"
  by (simp add: file_read_def)

lemma nth_file_read [simp]: "i < n \<Longrightarrow> file_read f off n ! i = f_data f (off + i)"
  by (simp add: file_read_def)

section \<open>One call\<close>

lemma pread_call_cases:
  assumes "pread_call n off s = (r, d, t)"
  obtains "r = - 1" and "d = []" and "unchanged s t"
  | f m where "r = int m" and "m \<le> n" and "cur_file s = Some f" and "0 \<le> off"
      and "m \<le> f_size f - nat off" and "d = file_read f (nat off) m" and "unchanged s t"
proof -
  obtain ev u where ev: "take_ev s = (ev, u)" by (cases "take_ev s")
  then have un: "unchanged s u" by (rule take_ev_unchanged)
  show thesis
  proof (cases "(\<exists>e. ev = Fail e) \<or> cur_file u = None \<or> off < 0")
    case True
    with assms ev un have "r = - 1 \<and> d = [] \<and> unchanged s t"
      by (auto simp: pread_call_def split: io_ev.splits option.splits)
    then show thesis using that(1) by blast
  next
    case False
    then obtain f where f: "cur_file u = Some f" by auto
    let ?m = "ev_limit ev (min n (f_size f - nat off))"
    from False assms ev f have "r = int ?m \<and> d = file_read f (nat off) ?m \<and> t = u"
      by (auto simp: pread_call_def Let_def split: io_ev.splits)
    moreover have "?m \<le> min n (f_size f - nat off)" by (rule ev_limit_le)
    ultimately show thesis
      using that(2) [of ?m f] f un False unchanged_cur_file [OF un] by auto
  qed
qed

text \<open>The state after the current file has been overwritten at \<open>off\<close>.\<close>

definition wrote :: "vst \<Rightarrow> vfile \<Rightarrow> nat \<Rightarrow> bytes \<Rightarrow> vst \<Rightarrow> bool" where
  "wrote s f off bs t \<longleftrightarrow> st_ctx t = st_ctx s \<and> st_pos t = st_pos s \<and>
     sys_mem (st_sys t) = sys_mem (st_sys s) \<and>
     sys_files (st_sys t) = (sys_files (st_sys s))(ctx_file (st_ctx s) \<mapsto> file_write f off bs)"

lemma pwrite_call_cases:
  assumes "pwrite_call bs off s = (r, t)"
  obtains "r = - 1 \<or> (r = 0 \<and> bs = [])" and "unchanged s t"
  | f m where "r = int m" and "0 < m" and "m \<le> length bs" and "cur_file s = Some f" and "0 \<le> off"
      and "wrote s f (nat off) (take m bs) t"
      and "f_blk f \<Longrightarrow> nat off + m \<le> f_size f"
proof -
  obtain ev u where ev: "take_ev s = (ev, u)" by (cases "take_ev s")
  then have un: "unchanged s u" by (rule take_ev_unchanged)
  show thesis
  proof (cases "(\<exists>e. ev = Fail e) \<or> cur_file u = None \<or> off < 0 \<or> bs = [] \<or>
      (\<exists>f. cur_file u = Some f \<and> f_blk f \<and> f_size f \<le> nat off)")
    case True
    with assms ev un have "(r = - 1 \<or> (r = 0 \<and> bs = [])) \<and> unchanged s t"
      by (auto simp: pwrite_call_def split: io_ev.splits option.splits if_splits)
    then show thesis using that(1) by blast
  next
    case False
    then obtain f where f: "cur_file u = Some f" by auto
    let ?k = "if f_blk f then min (length bs) (f_size f - nat off) else length bs"
    let ?m = "ev_limit ev ?k"
    from False assms ev f have r: "r = int ?m"
      and t: "t = set_cur_file (file_write f (nat off) (take ?m bs)) u"
      by (auto simp: pwrite_call_def Let_def split: io_ev.splits if_splits)
    have "0 < ?k" using False f by auto
    moreover have "ev = Full \<or> (\<exists>k. ev = Short k)" using False by (cases ev) auto
    ultimately have "0 < ?m" by (rule ev_limit_pos)
    moreover have "?m \<le> ?k" by (rule ev_limit_le)
    moreover have "wrote s f (nat off) (take ?m bs) t"
      using un t by (simp add: wrote_def unchanged_def set_cur_file_def)
    moreover have "f_blk f \<Longrightarrow> nat off + ?m \<le> f_size f"
    proof -
      assume "f_blk f"
      with False f have "nat off < f_size f" by (meson not_le)
      moreover have "?m \<le> f_size f - nat off" using \<open>?m \<le> ?k\<close> \<open>f_blk f\<close> by auto
      ultimately show ?thesis by linarith
    qed
    moreover have "?m \<le> length bs" using \<open>?m \<le> ?k\<close> by (auto split: if_splits)
    ultimately show thesis
      using that(2) [of ?m f] f un False r unchanged_cur_file [OF un] by (auto simp del: ev_limit.simps)
  qed
qed

lemma fstat_size_unchanged: "fstat_size s = (r, t) \<Longrightarrow> unchanged s t"
  by (cases "take_ev s")
    (auto simp: fstat_size_def dest: take_ev_unchanged split: io_ev.splits option.splits)

lemma lseek64_frame:
  assumes "lseek64 off wh s = (r, t)"
  shows "st_ctx t = st_ctx s \<and> sys_files (st_sys t) = sys_files (st_sys s) \<and>
    sys_mem (st_sys t) = sys_mem (st_sys s) \<and>
    (case r of None \<Rightarrow> st_pos t = st_pos s
     | Some p \<Rightarrow> st_pos t = p \<and> (\<exists>f. cur_file s = Some f \<and>
         int p = (case wh of SEEK_SET \<Rightarrow> off | SEEK_CUR \<Rightarrow> int (st_pos s) + off
                  | SEEK_END \<Rightarrow> int (f_size f) + off)))"
proof -
  obtain ev u where ev: "take_ev s = (ev, u)" by (cases "take_ev s")
  then have "unchanged s u" by (rule take_ev_unchanged)
  then show ?thesis
    using assms ev unchanged_cur_file [of s u]
    by (auto simp: lseek64_def unchanged_def Let_def split: io_ev.splits option.splits whence.splits if_splits)
qed

section \<open>The I/O loop\<close>

text \<open>The ways in which one turn of the loop can go.\<close>

lemma pio_loop_cases:
  assumes "pio_loop (Suc k) d n off pos stsz buf s = Some (r, buf', t)"
  obtains (retry) s1 buf1 where "pio_step d buf pos n off s = (- 1, buf1, s1)"
      and "pio_loop k d n off pos stsz buf1 s1 = Some (r, buf', t)"
  | (err) "pio_step d buf pos n off s = (- 1, buf', t)" and "r = 0"
  | (eof) s1 where "pio_step d buf pos n off s = (0, buf', s1)" and "r = int pos"
      and "unchanged s1 t"
  | (full) r1 where "pio_step d buf pos n off s = (r1, buf', t)" and "r1 \<noteq> - 1" and "r1 \<noteq> 0"
      and "pos + nat r1 = n" and "r = int n"
  | (nostat) r1 s1 where "pio_step d buf pos n off s = (r1, buf', s1)" and "r1 \<noteq> - 1" and "r1 \<noteq> 0"
      and "r = - 1" and "unchanged s1 t"
  | (short) r1 s1 where "pio_step d buf pos n off s = (r1, buf', s1)" and "r1 \<noteq> - 1" and "r1 \<noteq> 0"
      and "pos + nat r1 \<noteq> n" and "r = int pos + r1" and "unchanged s1 t"
  | (more) r1 buf1 s1 s2 w where "pio_step d buf pos n off s = (r1, buf1, s1)" and "r1 \<noteq> - 1"
      and "r1 \<noteq> 0" and "pos + nat r1 \<noteq> n" and "unchanged s1 s2"
      and "pio_loop k d n off (pos + VHD_SECTOR_SIZE * (nat r1 div VHD_SECTOR_SIZE)) w buf1 s2
           = Some (r, buf', t)"
proof -
  obtain r1 buf1 s1 where st: "pio_step d buf pos n off s = (r1, buf1, s1)"
    by (metis prod_cases3)
  obtain z s2 where z: "(if stsz = 0 then fstat_size s1 else (Some stsz, s1)) = (z, s2)"
    by (metis surj_pair)
  then have un: "unchanged s1 s2"
    by (auto dest: fstat_size_unchanged split: if_splits)
  note eq = assms [simplified pio_loop.simps st prod.case]
  consider "r1 = - 1" | "r1 = 0" | "r1 \<noteq> - 1" "r1 \<noteq> 0" "pos + nat r1 = n"
    | "r1 \<noteq> - 1" "r1 \<noteq> 0" "pos + nat r1 \<noteq> n" by blast
  then show thesis
  proof cases
    case 1
    show thesis
    proof (cases "get_errno s1 = EINTR \<or> get_errno s1 = EAGAIN")
      case True
      with 1 eq have "pio_loop k d n off pos stsz buf1 s1 = Some (r, buf', t)" by simp
      with st 1 show thesis by (intro retry) simp_all
    next
      case False
      with 1 eq have "r = 0 \<and> buf' = buf1 \<and> t = s1" by simp
      with st 1 show thesis by (intro err) simp_all
    qed
  next
    case 2
    with eq have "r = int pos \<and> buf' = buf1 \<and> t = set_errno EPIPE s1" by simp
    with st 2 show thesis by (intro eof [of s1]) simp_all
  next
    case 3
    with eq have "r = int n \<and> buf' = buf1 \<and> t = s1" by simp
    with st 3 show thesis by (intro full [of r1]) simp_all
  next
    case 4
    show thesis
    proof (cases z)
      case None
      with 4 eq z have "r = - 1 \<and> buf' = buf1 \<and> t = s2" by simp
      with st 4 un show thesis by (intro nostat [of r1 s1]) simp_all
    next
      case (Some w)
      show thesis
      proof (cases "off + int pos + r1 = int w")
        case True
        with Some 4 eq z have "r = int pos + r1 \<and> buf' = buf1 \<and> t = s2" by simp
        with st 4 un show thesis by (intro short [of r1 s1]) simp_all
      next
        case False
        with Some 4 eq z
        have "pio_loop k d n off (pos + VHD_SECTOR_SIZE * (nat r1 div VHD_SECTOR_SIZE)) w buf1 s2
            = Some (r, buf', t)" by simp
        with st 4 un show thesis by (intro more [of r1 buf1 s1 s2 w]) simp_all
      qed
    qed
  qed
qed

subsection \<open>Reading\<close>

lemma pio_step_Pread:
  assumes "pio_step Pread buf pos n off s = (r, buf', t)"
    and "length buf = n" and "pos \<le> n"
  obtains "r = - 1" and "buf' = buf" and "unchanged s t"
  | f m where "r = int m" and "pos + m \<le> n" and "cur_file s = Some f" and "0 \<le> off + int pos"
      and "m \<le> f_size f - nat (off + int pos)"
      and "buf' = overlay pos (file_read f (nat (off + int pos)) m) buf" and "unchanged s t"
proof -
  obtain d where d: "pread_call (n - pos) (off + int pos) s = (r, d, t)"
    and b: "buf' = overlay pos d buf"
    using assms(1) by (auto simp: pio_step_def split: prod.splits)
  from d show thesis
  proof (cases rule: pread_call_cases)
    case 1
    with b that(1) show thesis by simp
  next
    case (2 f m)
    with b assms(3) that(2) [of m f] show thesis by auto
  qed
qed

definition read_prefix :: "vst \<Rightarrow> int \<Rightarrow> nat \<Rightarrow> bytes \<Rightarrow> bool" where
  "read_prefix s off m buf \<longleftrightarrow>
     (0 < m \<longrightarrow> (\<exists>f. cur_file s = Some f \<and> nat off + m \<le> f_size f \<and> 
        (\<forall>i<m. i < length buf \<longrightarrow> buf ! i = f_data f (nat off + i))))"

lemma read_prefix_mono: "read_prefix s off m buf \<Longrightarrow> k \<le> m \<Longrightarrow> read_prefix s off k buf"
  by (auto simp: read_prefix_def)

lemma read_prefix_step:
  assumes "read_prefix s off pos buf" and "length buf = n" and "pos + m \<le> n" and "0 \<le> off"
    and "cur_file s = Some f" and "m \<le> f_size f - nat (off + int pos)"
  shows "read_prefix s off (pos + m) (overlay pos (file_read f (nat (off + int pos)) m) buf)"
proof -
  have e: "nat (off + int pos) = nat off + pos" using assms(4) by (simp add: nat_add_distrib)
  show ?thesis
  proof (cases "m = 0")
    case True
    with assms show ?thesis by (auto simp: file_read_def)
  next
    case False
    then have "nat off + (pos + m) \<le> f_size f" using assms(6) e by simp
    moreover have "\<forall>i<pos + m. i < length buf \<longrightarrow>
        overlay pos (file_read f (nat (off + int pos)) m) buf ! i = f_data f (nat off + i)"
      using assms e by (auto simp: nth_overlay read_prefix_def)
    ultimately show ?thesis
      using assms by (auto simp: read_prefix_def)
  qed
qed

lemma pio_loop_read:
  assumes "pio_loop k Pread n off pos stsz buf s = Some (r, buf', t)"
    and "length buf = n" and "pos \<le> n" and "read_prefix s off pos buf" and "0 \<le> off"
  shows "unchanged s t \<and> length buf' = n \<and> r \<le> int n \<and> - 1 \<le> r \<and> read_prefix s off (nat r) buf'"
  using assms
proof (induction k arbitrary: pos stsz buf s)
  case 0
  then show ?case by simp
next
  case (Suc k)
  note len = Suc.prems(2) and pos = Suc.prems(3) and pre = Suc.prems(4) and off = Suc.prems(5)
  have adv: "unchanged s s1 \<and> length buf1 = n \<and> 0 \<le> r1 \<and> pos + nat r1 \<le> n \<and>
      read_prefix s off (pos + nat r1) buf1"
    if "pio_step Pread buf pos n off s = (r1, buf1, s1)" and "r1 \<noteq> - 1" for r1 buf1 s1
    using that(1) len pos
  proof (cases rule: pio_step_Pread)
    case 1
    with that(2) show ?thesis by simp
  next
    case (2 f m)
    with pre len pos off show ?thesis by (auto intro: read_prefix_step)
  qed
  have stay: "unchanged s s1 \<and> buf1 = buf"
    if "pio_step Pread buf pos n off s = (- 1, buf1, s1)" for buf1 s1
    using that len pos by (cases rule: pio_step_Pread) auto
  have pre_unch: "read_prefix u off m b \<longleftrightarrow> read_prefix s off m b" if "unchanged s u" for u m b
    using unchanged_cur_file [OF that] by (simp add: read_prefix_def)
  from Suc.prems(1) show ?case
  proof (cases rule: pio_loop_cases)
    case (retry s1 buf1)
    then have un: "unchanged s s1" and b: "buf1 = buf" using stay [of buf1 s1] by simp_all
    have "read_prefix s1 off pos buf" using pre by (simp add: pre_unch [OF un])
    from Suc.IH [OF retry(2) [unfolded b] len pos this off] show ?thesis
      by (simp add: pre_unch [OF un] unchanged_trans [OF un])
  next
    case err
    with stay [of buf' t] len pos show ?thesis by (simp add: read_prefix_def)
  next
    case (eof s1)
    with adv [of 0 buf' s1] pos show ?thesis by (simp add: unchanged_trans [of s s1 t])
  next
    case (full r1)
    with adv [of r1 buf' t] show ?thesis by simp
  next
    case (nostat r1 s1)
    with adv [of r1 buf' s1] show ?thesis
      by (simp add: read_prefix_def unchanged_trans [of s s1 t])
  next
    case (short r1 s1)
    then have "nat r = pos + nat r1" using adv [of r1 buf' s1] by (simp add: nat_add_distrib)
    moreover have "r \<le> int n" using short adv [of r1 buf' s1] by arith
    ultimately show ?thesis
      using short adv [of r1 buf' s1] by (simp add: unchanged_trans [of s s1 t])
  next
    case (more r1 buf1 s1 s2 w)
    let ?p = "pos + VHD_SECTOR_SIZE * (nat r1 div VHD_SECTOR_SIZE)"
    have le: "?p \<le> pos + nat r1" by simp
    from adv [OF more(1,2)] have a: "unchanged s s1" "length buf1 = n" "pos + nat r1 \<le> n"
      "read_prefix s off (pos + nat r1) buf1" by simp_all
    have un: "unchanged s s2" using a(1) more(5) by (rule unchanged_trans)
    have p: "read_prefix s2 off ?p buf1"
      using read_prefix_mono [OF a(4) le] by (simp only: pre_unch [OF un])
    from Suc.IH [OF more(6) a(2) order_trans [OF le a(3)] p off] show ?thesis
      by (simp add: pre_unch [OF un] unchanged_trans [OF un])
  qed
qed

subsection \<open>Writing\<close>

text \<open>The file after the first \<open>m\<close> bytes of the buffer have been stored.\<close>

definition wrote_upto :: "vst \<Rightarrow> vfile \<Rightarrow> nat \<Rightarrow> bytes \<Rightarrow> nat \<Rightarrow> vst \<Rightarrow> bool" where
  "wrote_upto s f off buf m t \<longleftrightarrow>
     (if m = 0 then unchanged s t else wrote s f off (take m buf) t)"

lemma file_write_write:
  assumes "p \<le> h" and "h \<le> length buf" and "p + m \<le> length buf" and "0 < h" and "0 < m"
  shows "file_write (file_write f off (take h buf)) (off + p) (take m (drop p buf)) =
    file_write f off (take (max h (p + m)) buf)"
proof -
  have "f_data (file_write (file_write f off (take h buf)) (off + p) (take m (drop p buf))) i =
      f_data (file_write f off (take (max h (p + m)) buf)) i" for i
    using assms by (auto simp: file_write_def max_def)
  moreover have "f_size (file_write (file_write f off (take h buf)) (off + p) (take m (drop p buf))) =
      f_size (file_write f off (take (max h (p + m)) buf))"
    using assms by (auto simp: file_write_def max_def)
  ultimately show ?thesis
    by (intro vfile.equality) (auto simp: file_write_def)
qed

lemma wrote_cur_file: "wrote s f off bs t \<Longrightarrow> cur_file t = Some (file_write f off bs)"
  by (simp add: wrote_def cur_file_def)

lemma wrote_upto_step:
  assumes "wrote_upto s f off buf h u" and "cur_file s = Some f" and "cur_file u = Some g"
    and "p \<le> h" and "h \<le> length buf" and "p + m \<le> length buf" and "0 < m"
    and "wrote u g (off + p) (take m (drop p buf)) t"
  shows "wrote_upto s f off buf (max h (p + m)) t"
proof (cases "h = 0")
  case True
  with assms have "unchanged s u" and "p = 0" by (simp_all add: wrote_upto_def)
  then have "g = f" using assms(2,3) unchanged_cur_file [of s u] by simp
  with assms True \<open>unchanged s u\<close> \<open>p = 0\<close> show ?thesis
    by (auto simp: wrote_upto_def wrote_def unchanged_def)
next
  case False
  with assms(1) have w: "wrote s f off (take h buf) u" by (simp add: wrote_upto_def)
  then have "g = file_write f off (take h buf)" using assms(3) wrote_cur_file by fastforce
  with assms False w show ?thesis
    by (auto simp: wrote_upto_def wrote_def file_write_write)
qed

lemma wrote_upto_unchanged:
  "wrote_upto s f off buf m t \<Longrightarrow> unchanged t u \<Longrightarrow> wrote_upto s f off buf m u"
  by (auto simp: wrote_upto_def wrote_def unchanged_def split: if_splits)

lemma pio_step_Pwrite:
  assumes "pio_step Pwrite buf pos n off s = (r, buf', t)"
    and "length buf = n" and "pos \<le> n"
  obtains "r = - 1 \<or> (r = 0 \<and> pos = n)" and "buf' = buf" and "unchanged s t"
  | f m where "r = int m" and "0 < m" and "pos + m \<le> n" and "cur_file s = Some f"
      and "0 \<le> off + int pos" and "buf' = buf"
      and "wrote s f (nat (off + int pos)) (take m (drop pos buf)) t"
proof -
  have d: "pwrite_call (take (n - pos) (drop pos buf)) (off + int pos) s = (r, t)"
    and b: "buf' = buf"
    using assms(1) by (auto simp: pio_step_def split: prod.splits)
  have e: "take (n - pos) (drop pos buf) = drop pos buf" using assms(2) by simp
  from d show thesis
  proof (cases rule: pwrite_call_cases)
    case 1
    with b e assms that(1) show thesis by auto
  next
    case (2 f m)
    have "take m (take (n - pos) (drop pos buf)) = take m (drop pos buf)" using e by simp
    with 2 b e assms that(2) [of m f] show thesis by auto
  qed
qed

lemma pio_loop_write:
  assumes "pio_loop k Pwrite n off pos stsz buf s = Some (r, buf', t)"
    and "length buf = n" and "pos \<le> h" and "h \<le> n" and "0 \<le> off"
    and "cur_file s0 = Some f" and "wrote_upto s0 f (nat off) buf h s"
  shows "\<exists>h'. wrote_upto s0 f (nat off) buf h' t \<and> h' \<le> n \<and> h \<le> h' \<and> r \<le> int n \<and> - 1 \<le> r \<and> nat r \<le> h'"
  using assms
proof (induction k arbitrary: pos stsz s h)
  case 0
  then show ?case by simp
next
  case (Suc k)
  note len = Suc.prems(2) and pos = Suc.prems(3) and h = Suc.prems(4) and off = Suc.prems(5)
    and f = Suc.prems(6) and wu = Suc.prems(7)
  have posn: "pos \<le> n" using pos h by simp
  have adv: "buf1 = buf \<and> 0 \<le> r1 \<and> pos + nat r1 \<le> n \<and>
      wrote_upto s0 f (nat off) buf (max h (pos + nat r1)) s1"
    if "pio_step Pwrite buf pos n off s = (r1, buf1, s1)" and "r1 \<noteq> - 1" for r1 buf1 s1
    using that(1) len posn
  proof (cases rule: pio_step_Pwrite)
    case 1
    with that(2) wu pos h show ?thesis by (auto intro: wrote_upto_unchanged simp: max_def)
  next
    case (2 g m)
    moreover have "nat (off + int pos) = nat off + pos" using off by (simp add: nat_add_distrib)
    ultimately show ?thesis
      using wrote_upto_step [OF wu f, of g pos m s1] pos h len by auto
  qed
  have stay: "wrote_upto s0 f (nat off) buf h s1 \<and> buf1 = buf"
    if "pio_step Pwrite buf pos n off s = (- 1, buf1, s1)" for buf1 s1
    using that len posn wu by (cases rule: pio_step_Pwrite) (auto intro: wrote_upto_unchanged)
  from Suc.prems(1) show ?case
  proof (cases rule: pio_loop_cases)
    case (retry s1 buf1)
    with stay [OF retry(1)] Suc.IH [OF _ len pos h off f] show ?thesis by auto
  next
    case err
    with stay h show ?thesis by auto
  next
    case (eof s1)
    with adv [of 0 buf' s1] posn pos h show ?thesis
      by (intro exI [of _ "max h pos"]) (auto intro: wrote_upto_unchanged)
  next
    case (full r1)
    with adv [of r1 buf' t] h show ?thesis by (intro exI [of _ n]) (auto simp: max_def)
  next
    case (nostat r1 s1)
    with adv [of r1 buf' s1] h show ?thesis
      by (intro exI [of _ "max h (pos + nat r1)"]) (auto intro: wrote_upto_unchanged)
  next
    case (short r1 s1)
    with adv [of r1 buf' s1] h show ?thesis
      by (intro exI [of _ "max h (pos + nat r1)"])
        (auto simp: nat_add_distrib intro: wrote_upto_unchanged)
  next
    case (more r1 buf1 s1 s2 w)
    let ?p = "pos + VHD_SECTOR_SIZE * (nat r1 div VHD_SECTOR_SIZE)"
    have le: "?p \<le> pos + nat r1" by simp
    from adv [OF more(1,2)] have a: "buf1 = buf" "pos + nat r1 \<le> n"
      "wrote_upto s0 f (nat off) buf (max h (pos + nat r1)) s1" by auto
    from a(3) more(5) have "wrote_upto s0 f (nat off) buf (max h (pos + nat r1)) s2"
      by (rule wrote_upto_unchanged)
    from Suc.IH [OF more(6) [unfolded a(1)] len _ _ off f this] le a(2) h show ?thesis
      by (meson max.bounded_iff max.cobounded2 order_trans)
  qed
qed

end
