(* ===== verification/Vhd_Store.thy ===== *)
theory Vhd_Store
  imports Vhd_Posix_Laws
begin

text \<open>
  The contract of the library's I/O calls, derived from the loop's laws: the interface
  \<open>byte_store\<close> and its two implementations (seek and transfer, positional transfer), the calls
  on an undisturbed system (\<open>quiet\<close>), and the termination of the I/O loop.
\<close>

section \<open>Calls that cannot reach a file\<close>

lemma pio_loop_bad:
  assumes "pio_loop k d n off 0 stsz buf s = Some (r, buf', t)"
    and "off < 0 \<or> cur_file s = None" and "length buf = n"
  shows "r = 0 \<and> unchanged s t"
  using assms
proof (induction k arbitrary: stsz s buf)
  case 0
  then show ?case by simp
next
  case (Suc k)
  have stp: "(r1 = - 1 \<or> (r1 = 0 \<and> n = 0)) \<and> unchanged s s1 \<and> length buf1 = n"
    if "pio_step d buf 0 n off s = (r1, buf1, s1)" for r1 buf1 s1
  proof (cases d)
    case Pread
    with that have "pio_step Pread buf 0 n off s = (r1, buf1, s1)" by simp
    from this Suc.prems(3) le0 [of n] Suc.prems(2) show ?thesis by (cases rule: pio_step_Pread) (use Suc.prems(3) in auto)
  next
    case Pwrite
    with that have "pio_step Pwrite buf 0 n off s = (r1, buf1, s1)" by simp
    from this Suc.prems(3) le0 [of n] Suc.prems(2) show ?thesis by (cases rule: pio_step_Pwrite) (use Suc.prems(3) in auto)
  qed
  from Suc.prems(1) show ?case
  proof (cases rule: pio_loop_cases)
    case (retry s1 buf1)
    from stp [OF retry(1)] have un: "unchanged s s1" and "length buf1 = n" by auto
    then have "r = 0 \<and> unchanged s1 t"
      using Suc.IH [OF retry(2)] Suc.prems(2) unchanged_cur_file [OF un] by simp
    with un show ?thesis by (auto intro: unchanged_trans)
  next
    case err
    with stp [OF err(1)] show ?thesis by simp
  next
    case (eof s1)
    with stp [OF eof(1)] show ?thesis by (simp add: unchanged_trans [of s s1 t])
  next
    case (full r1)
    with stp [OF full(1)] show ?thesis by simp
  next
    case (nostat r1 s1)
    with stp [OF nostat(1)] show ?thesis by simp
  next
    case (short r1 s1)
    with stp [OF short(1)] show ?thesis by simp
  next
    case (more r1 buf1 s1 s2 w)
    with stp [OF more(1)] show ?thesis by simp
  qed
qed

section \<open>Positional transfers\<close>

lemma atomic_pio_read:
  assumes "vhd_atomic_pio Pread buf n off s = (Inr (r, buf'), t)" and "length buf = n"
  shows "unchanged s t \<and> - 1 \<le> r \<and> r \<le> int n \<and>
    (r = int n \<longrightarrow> 0 < n \<longrightarrow> (\<exists>f. cur_file s = Some f \<and> 0 \<le> off \<and> nat off + n \<le> f_size f \<and>
       buf' = file_read f (nat off) n))"
proof -
  from assms(1) have l: "pio_loop (pio_fuel s) Pread n off 0 0 buf s = Some (r, buf', t)"
    by (auto simp: vhd_atomic_pio_def split: option.splits)
  show ?thesis
  proof (cases "off < 0")
    case True
    from pio_loop_bad [OF l] True assms(2) show ?thesis by auto
  next
    case False
    have "read_prefix s off 0 buf" by (simp add: read_prefix_def)
    from pio_loop_read [OF l assms(2) _ this] False
    have a: "unchanged s t" "length buf' = n" "r \<le> int n" "- 1 \<le> r" "read_prefix s off (nat r) buf'"
      by auto
    have "\<exists>f. cur_file s = Some f \<and> 0 \<le> off \<and> nat off + n \<le> f_size f \<and> buf' = file_read f (nat off) n"
      if "r = int n" "0 < n"
    proof -
      from a(5) that obtain f where "cur_file s = Some f" "nat off + n \<le> f_size f"
        "\<forall>i<n. i < length buf' \<longrightarrow> buf' ! i = f_data f (nat off + i)"
        by (auto simp: read_prefix_def)
      with a(2) False show ?thesis
        by (intro exI [of _ f]) (auto intro: nth_equalityI)
    qed
    with a show ?thesis by blast
  qed
qed

lemma atomic_pio_write:
  assumes "vhd_atomic_pio Pwrite buf n off s = (Inr (r, buf'), t)" and "length buf = n"
  shows "- 1 \<le> r \<and> r \<le> int n \<and> (unchanged s t \<or>
      (\<exists>f m. cur_file s = Some f \<and> 0 \<le> off \<and> 0 < m \<and> m \<le> n \<and> wrote s f (nat off) (take m buf) t)) \<and>
    (r = int n \<longrightarrow> 0 < n \<longrightarrow> (\<exists>f. cur_file s = Some f \<and> 0 \<le> off \<and> wrote s f (nat off) buf t))"
proof -
  from assms(1) have l: "pio_loop (pio_fuel s) Pwrite n off 0 0 buf s = Some (r, buf', t)"
    by (auto simp: vhd_atomic_pio_def split: option.splits)
  show ?thesis
  proof (cases "off < 0 \<or> cur_file s = None")
    case True
    from pio_loop_bad [OF l True assms(2)] show ?thesis by auto
  next
    case False
    then obtain f where f: "cur_file s = Some f" and off: "0 \<le> off" by auto
    have "wrote_upto s f (nat off) buf 0 s" by (simp add: wrote_upto_def)
    from pio_loop_write [OF l assms(2) _ _ off f this]
    obtain h' where h: "wrote_upto s f (nat off) buf h' t" "h' \<le> n" "r \<le> int n" "- 1 \<le> r" "nat r \<le> h'"
      by auto
    then have "r = int n \<longrightarrow> 0 < n \<longrightarrow> wrote s f (nat off) buf t"
      using assms(2) by (auto simp: wrote_upto_def)
    moreover have "unchanged s t \<or> (0 < h' \<and> wrote s f (nat off) (take h' buf) t)"
      using h(1) by (auto simp: wrote_upto_def split: if_splits)
    ultimately show ?thesis using f off h by blast
  qed
qed

lemma unchanged_errno_start: "unchanged (set_errno e s) t = unchanged s t"
  by (simp add: unchanged_def)

lemma wrote_errno_start: "wrote (set_errno e s) f off bs t = wrote s f off bs t"
  by (simp add: wrote_def)

lemma vhd_pread_frame: "vhd_pread n off s = (r, t) \<Longrightarrow> r \<noteq> Inl Hang \<Longrightarrow> unchanged s t"
  using atomic_pio_read [of "zeros n" n off "set_errno 0 s"]
  by (auto simp: vhd_pread_def vbind_def vmodify_def vhd_atomic_pio_def unchanged_errno_start
      split: prod.splits sum.splits option.splits if_splits)

lemma vhd_pread_ok:
  assumes "vhd_pread n off s = (Inr bs, t)" and "0 < n"
  shows "\<exists>f. cur_file s = Some f \<and> 0 \<le> off \<and> nat off + n \<le> f_size f \<and>
    bs = file_read f (nat off) n \<and> unchanged s t"
proof -
  from assms(1) obtain ret where
    "vhd_atomic_pio Pread (zeros n) n off (set_errno 0 s) = (Inr (ret, bs), t)" and "ret = int n"
    by (auto simp: vhd_pread_def vbind_def vmodify_def split: prod.splits sum.splits if_splits)
  from atomic_pio_read [OF this(1)] this(2) assms(2) show ?thesis
    by (auto simp: unchanged_errno_start)
qed

lemma vhd_pwrite_ok:
  assumes "vhd_pwrite bs off s = (Inr u, t)" and "bs \<noteq> []"
  shows "\<exists>f. cur_file s = Some f \<and> 0 \<le> off \<and> wrote s f (nat off) bs t"
proof -
  from assms(1) obtain ret b where
    "vhd_atomic_pio Pwrite bs (length bs) off (set_errno 0 s) = (Inr (ret, b), t)"
    and "ret = int (length bs)"
    by (auto simp: vhd_pwrite_def vbind_def vmodify_def split: prod.splits sum.splits if_splits)
  from atomic_pio_write [OF this(1)] this(2) assms(2) show ?thesis
    by (auto simp: wrote_errno_start)
qed

section \<open>Transfers at the current offset\<close>

definition same_files :: "vst \<Rightarrow> vst \<Rightarrow> bool" where
  "same_files s t \<longleftrightarrow> st_ctx t = st_ctx s \<and> sys_files (st_sys t) = sys_files (st_sys s)"

lemma same_files_refl [simp]: "same_files s s"
  by (simp add: same_files_def)

lemma same_files_trans: "same_files s t \<Longrightarrow> same_files t u \<Longrightarrow> same_files s u"
  by (simp add: same_files_def)

lemma same_files_cur: "same_files s t \<Longrightarrow> cur_file t = cur_file s"
  by (simp add: same_files_def cur_file_def)

lemma unchanged_same_files: "unchanged s t \<Longrightarrow> same_files s t"
  by (simp add: unchanged_def same_files_def)

lemma lseek64_same_files: "lseek64 off wh s = (r, t) \<Longrightarrow> same_files s t"
  using lseek64_frame [of off wh s r t] by (simp add: same_files_def)

lemma vhd_seek_ok:
  assumes "vhd_seek off SEEK_SET s = (Inr u, t)"
  shows "same_files s t \<and> 0 \<le> off \<and> st_pos t = nat off \<and> (\<exists>f. cur_file s = Some f)"
proof -
  from assms obtain p where "lseek64 off SEEK_SET s = (Some p, t)"
    by (auto simp: vhd_seek_def split: prod.splits option.splits)
  from lseek64_frame [OF this] show ?thesis by (auto simp: same_files_def)
qed

lemma vhd_seek_end_ok:
  assumes "vhd_seek off SEEK_END s = (Inr u, t)"
  shows "same_files s t \<and> (\<exists>f. cur_file s = Some f \<and> int (st_pos t) = int (f_size f) + off)"
proof -
  from assms obtain p where "lseek64 off SEEK_END s = (Some p, t)"
    by (auto simp: vhd_seek_def split: prod.splits option.splits)
  from lseek64_frame [OF this] show ?thesis by (auto simp: same_files_def)
qed

lemma vhd_seek_same_files: "vhd_seek off wh s = (r, t) \<Longrightarrow> same_files s t"
  by (auto simp: vhd_seek_def dest: lseek64_same_files split: prod.splits option.splits)

lemma vhd_position_same_files: "vhd_position s = (r, t) \<Longrightarrow> same_files s t"
  by (auto simp: vhd_position_def dest: lseek64_same_files split: prod.splits)

text \<open>\<open>vhd_atomic_io\<close> is the positional transfer at the current offset, which moves it on.\<close>

lemma atomic_io_split:
  assumes "vhd_atomic_io d buf n s = (Inr (r, buf'), t)"
  obtains "r = - 1" and "same_files s t"
  | off u v r' where "lseek64 0 SEEK_CUR s = (Some off, u)" and "off = st_pos s" and "same_files s u"
      and "vhd_atomic_pio d buf n (int off) u = (Inr (r', buf'), v)"
      and "st_ctx t = st_ctx v" and "sys_files (st_sys t) = sys_files (st_sys v)"
      and "r = r' \<or> r = - 1"
      and "0 < r \<Longrightarrow> st_pos t = off + nat r"
proof -
  obtain z u where z: "lseek64 0 SEEK_CUR s = (z, u)" by (cases "lseek64 0 SEEK_CUR s")
  then have sf: "same_files s u" by (rule lseek64_same_files)
  show thesis
  proof (cases z)
    case None
    with assms z sf that(1) show thesis by (auto simp: vhd_atomic_io_def)
  next
    case (Some off)
    from lseek64_frame [OF z] Some have off: "off = st_pos s" by auto
    obtain q v where q: "vhd_atomic_pio d buf n (int off) u = (q, v)"
      by (cases "vhd_atomic_pio d buf n (int off) u")
    from assms z Some q obtain r' b' where qq: "q = Inr (r', b')"
      by (cases q) (auto simp: vhd_atomic_io_def vbind_def)
    show thesis
    proof (cases "r' > 0")
      case False
      with assms z Some q qq have "r = r'" "buf' = b'" "t = v"
        by (auto simp: vhd_atomic_io_def vbind_def)
      with q qq z Some off sf False that(2) [of off u r' v] show thesis by auto
    next
      case True
      obtain w x where w: "lseek64 (int off + r') SEEK_SET v = (w, x)"
        by (cases "lseek64 (int off + r') SEEK_SET v")
      from lseek64_frame [OF w] have fr: "st_ctx x = st_ctx v" "sys_files (st_sys x) = sys_files (st_sys v)"
        by auto
      show thesis
      proof (cases w)
        case None
        with True assms z Some q qq w have "r = - 1" "buf' = b'" "t = x"
          by (auto simp: vhd_atomic_io_def vbind_def)
        with fr q qq z Some off sf that(2) [of off u r' v] show thesis by auto
      next
        case (Some p)
        from lseek64_frame [OF w] Some True have "st_pos x = off + nat r'" by auto
        moreover from Some True assms z \<open>z = Some off\<close> q qq w have "r = r'" "buf' = b'" "t = x"
          by (auto simp: vhd_atomic_io_def vbind_def)
        ultimately show thesis
          using fr q qq z \<open>z = Some off\<close> off sf that(2) [of off u r' v] by auto
      qed
    qed
  qed
qed

lemma io_error_neq_0 [simp]: "io_error s \<noteq> 0"
  by (simp add: io_error_def errno_simps)

lemma vhd_read_buf_ok:
  assumes "vhd_read_buf buf n s = (Inr (err, bs), t)" and "length buf = n"
  shows "same_files s t \<and> (err = 0 \<longrightarrow> 0 < n \<longrightarrow> (\<exists>f. cur_file s = Some f \<and>
    st_pos s + n \<le> f_size f \<and> bs = file_read f (st_pos s) n \<and> st_pos t = st_pos s + n))"
proof -
  from assms(1) obtain ret where a: "vhd_atomic_io Pread buf n (set_errno 0 s) = (Inr (ret, bs), t)"
    and err: "err = (if ret = int n then 0 else io_error t)"
    by (auto simp: vhd_read_buf_def vbind_def vmodify_def split: prod.splits sum.splits)
  have sf0: "same_files s (set_errno 0 s)" by (simp add: same_files_def)
  from a show ?thesis
  proof (cases rule: atomic_io_split)
    case 1
    with err sf0 show ?thesis by (auto intro: same_files_trans)
  next
    case (2 off u v r')
    note rd = atomic_pio_read [OF 2(4) assms(2)]
    have "same_files u v" using rd by (simp add: unchanged_same_files)
    then have sf: "same_files s t" using 2(3,5,6) by (simp add: same_files_def)
    have cur: "cur_file u = cur_file s" using 2(3) by (simp add: same_files_def cur_file_def)
    show ?thesis
    proof (cases "err = 0 \<and> 0 < n")
      case True
      with err have r: "ret = int n" by (simp split: if_splits)
      with 2(7) True have "r' = int n" by auto
      with rd True cur obtain f where "cur_file s = Some f" "off + n \<le> f_size f" "bs = file_read f off n"
        by auto
      with 2(2,8) r True sf show ?thesis by simp
    next
      case False
      with sf show ?thesis by auto
    qed
  qed
qed

lemma vhd_read_ok:
  assumes "vhd_read n s = (Inr bs, t)" and "0 < n"
  shows "same_files s t \<and> (\<exists>f. cur_file s = Some f \<and> st_pos s + n \<le> f_size f \<and>
    bs = file_read f (st_pos s) n \<and> st_pos t = st_pos s + n)"
proof -
  from assms(1) obtain err u where "vhd_read_buf (zeros n) n s = (Inr (err, bs), u)" "err = 0" "t = u"
    by (auto simp: vhd_read_def vbind_def vret_def vraise_def split: prod.splits sum.splits if_splits)
  with vhd_read_buf_ok [of "zeros n" n s err bs u] assms(2) show ?thesis by simp
qed

lemma vhd_read_same_files:
  assumes "vhd_read n s = (r, t)" and "r \<noteq> Inl Hang"
  shows "same_files s t"
proof (cases "vhd_read_buf (zeros n) n s")
  case (Pair q u)
  show ?thesis
  proof (cases q)
    case (Inr p)
    with assms Pair have "t = u"
      by (cases p) (auto simp: vhd_read_def vbind_def vret_def vraise_def split: if_splits)
    with Pair Inr vhd_read_buf_ok [of "zeros n" n s] show ?thesis by (cases p) auto
  next
    case (Inl e)
    with Pair assms have "q = Inl e" "e \<noteq> Hang"
      by (auto simp: vhd_read_def vbind_def)
    with Pair show ?thesis
      by (auto simp: vhd_read_buf_def vbind_def vmodify_def vhd_atomic_io_def vhd_atomic_pio_def
          split: prod.splits sum.splits option.splits if_splits)
  qed
qed

lemma vhd_write_ok:
  assumes "vhd_write bs s = (Inr r, t)" and "bs \<noteq> []"
  shows "\<exists>f. cur_file s = Some f \<and> st_ctx t = st_ctx s \<and> st_pos t = st_pos s + length bs \<and>
    sys_files (st_sys t) =
      (sys_files (st_sys s))(ctx_file (st_ctx s) \<mapsto> file_write f (st_pos s) bs)"
proof -
  from assms(1) obtain ret b where
    a: "vhd_atomic_io Pwrite bs (length bs) (set_errno 0 s) = (Inr (ret, b), t)"
    and ret: "ret = int (length bs)"
    by (auto simp: vhd_write_def vbind_def vmodify_def split: prod.splits sum.splits if_splits)
  from a show ?thesis
  proof (cases rule: atomic_io_split)
    case 1
    with ret assms(2) show ?thesis by simp
  next
    case (2 off u v r')
    with ret have "r' = int (length bs)" by auto
    with atomic_pio_write [OF 2(4)] assms(2) obtain f where
      "cur_file u = Some f" and w: "wrote u f off bs v" by auto
    moreover have "cur_file u = cur_file s" using 2(3) by (simp add: same_files_def cur_file_def)
    moreover have "st_pos t = st_pos s + length bs" using 2(2,8) ret assms(2) by simp
    ultimately show ?thesis using 2 w by (auto simp: wrote_def same_files_def)
  qed
qed

end
