(* ===== verification/Vhd_Quiet.thy ===== *)
theory Vhd_Quiet
  imports Vhd_Store
begin

text \<open>
  The storage interface \<open>byte_store\<close> with its two implementations, the I/O calls on an
  undisturbed system, and the termination of the I/O loop together with the one case in which
  it does not terminate.
\<close>

section \<open>The storage interface\<close>

locale byte_store =
  fixes rd :: "nat \<Rightarrow> nat \<Rightarrow> (vst, bytes) vm"
    and wr :: "nat \<Rightarrow> bytes \<Rightarrow> (vst, unit) vm"
  assumes rd_ok: "rd off n s = (Inr bs, t) \<Longrightarrow> 0 < n \<Longrightarrow>
      same_files s t \<and> (\<exists>f. cur_file s = Some f \<and> off + n \<le> f_size f \<and> bs = file_read f off n)"
    and wr_ok: "wr off bs s = (Inr u, t) \<Longrightarrow> bs \<noteq> [] \<Longrightarrow>
      \<exists>f. cur_file s = Some f \<and> st_ctx t = st_ctx s \<and>
        sys_files (st_sys t) = (sys_files (st_sys s))(ctx_file (st_ctx s) \<mapsto> file_write f off bs)"
begin

lemma wr_cur:
  assumes "wr off bs s = (Inr u, t)" and "bs \<noteq> []"
  obtains f where "cur_file s = Some f" and "cur_file t = Some (file_write f off bs)"
  using wr_ok [OF assms] by (auto simp: cur_file_def)

text \<open>What was written is read back.\<close>

lemma rd_wr:
  assumes "wr off bs s = (Inr u, t)" and "bs \<noteq> []"
    and "rd off (length bs) t = (Inr bs', t')"
  shows "bs' = bs"
proof -
  obtain f where f: "cur_file t = Some (file_write f off bs)"
    using assms(1,2) by (rule wr_cur)
  from assms(2,3) rd_ok [OF assms(3)] f have "bs' = file_read (file_write f off bs) off (length bs)"
    by auto
  then show ?thesis by (auto simp: file_write_def file_read_def intro: nth_equalityI)
qed

text \<open>A stretch of the file that a write does not touch reads as before.\<close>

lemma rd_wr_disjoint:
  assumes "rd off' n s = (Inr bs0, s0)" and "0 < n"
    and "wr off bs s = (Inr u, t)" and "bs \<noteq> []"
    and "off' + n \<le> off \<or> off + length bs \<le> off'"
    and "rd off' n t = (Inr bs1, t1)"
  shows "bs1 = bs0"
proof -
  obtain f where f: "cur_file s = Some f" "cur_file t = Some (file_write f off bs)"
    using assms(3,4) by (rule wr_cur)
  from rd_ok [OF assms(1,2)] f(1) have b0: "bs0 = file_read f off' n" and le: "off' + n \<le> f_size f"
    by auto
  from rd_ok [OF assms(6,2)] f(2) have b1: "bs1 = file_read (file_write f off bs) off' n" by auto
  show ?thesis
  proof (rule nth_equalityI)
    show "length bs1 = length bs0" by (simp add: b0 b1)
  next
    fix i
    assume "i < length bs1"
    then have "i < n" by (simp add: b1)
    with assms(5) le show "bs1 ! i = bs0 ! i"
      by (auto simp: b0 b1 file_write_def)
  qed
qed

text \<open>Writing keeps what was written elsewhere before.\<close>

lemma rd_wr_wr:
  assumes "wr off1 bs1 s = (Inr u1, s1)" and "bs1 \<noteq> []"
    and "wr off2 bs2 s1 = (Inr u2, s2)" and "bs2 \<noteq> []"
    and "off1 + length bs1 \<le> off2 \<or> off2 + length bs2 \<le> off1"
    and "rd off1 (length bs1) s2 = (Inr bs, t)"
  shows "bs = bs1"
proof -
  obtain f where f: "cur_file s1 = Some (file_write f off1 bs1)"
    using assms(1,2) by (rule wr_cur)
  obtain g where g: "cur_file s1 = Some g" "cur_file s2 = Some (file_write g off2 bs2)"
    using assms(3,4) by (rule wr_cur)
  from assms(2) rd_ok [OF assms(6)] g f
  have b: "bs = file_read (file_write (file_write f off1 bs1) off2 bs2) off1 (length bs1)" by auto
  have sz: "f_blk f \<or> off1 + length bs1 \<le> f_size (file_write f off1 bs1)"
    by (auto simp: file_write_def)
  have "f_blk (file_write f off1 bs1) = f_blk f" by (simp add: file_write_def)
  with sz assms(5) have "file_read (file_write (file_write f off1 bs1) off2 bs2) off1 (length bs1) ! i
      = bs1 ! i" if "i < length bs1" for i
    using that by (auto simp: file_write_def)
  with b show ?thesis by (auto intro: nth_equalityI)
qed

end

definition read_at :: "nat \<Rightarrow> nat \<Rightarrow> (vst, bytes) vm" where
  "read_at off n = vthen (vhd_seek (int off) SEEK_SET) (vhd_read n)"

definition write_at :: "nat \<Rightarrow> bytes \<Rightarrow> (vst, unit) vm" where
  "write_at off bs = vthen (vhd_seek (int off) SEEK_SET) (vhd_write bs)"

interpretation seek_store: byte_store read_at write_at
proof unfold_locales
  fix off n s bs t
  assume "read_at off n s = (Inr bs, t)" and n: "0 < n"
  then obtain u where u: "vhd_seek (int off) SEEK_SET s = (Inr (), u)" and r: "vhd_read n u = (Inr bs, t)"
    by (auto simp: read_at_def elim: vbind_okE)
  from vhd_seek_ok [OF u] have sf: "same_files s u" and p: "st_pos u = off" by auto
  from vhd_read_ok [OF r n] p same_files_cur [OF sf]
  show "same_files s t \<and> (\<exists>f. cur_file s = Some f \<and> off + n \<le> f_size f \<and> bs = file_read f off n)"
    using same_files_trans [OF sf] by auto
next
  fix off bs s r t
  assume "write_at off bs s = (Inr r, t)" and bs: "bs \<noteq> []"
  then obtain u where u: "vhd_seek (int off) SEEK_SET s = (Inr (), u)" and r: "vhd_write bs u = (Inr r, t)"
    by (auto simp: write_at_def elim: vbind_okE)
  from vhd_seek_ok [OF u] have sf: "same_files s u" and p: "st_pos u = off" by auto
  from vhd_write_ok [OF r bs] p same_files_cur [OF sf] sf
  show "\<exists>f. cur_file s = Some f \<and> st_ctx t = st_ctx s \<and>
      sys_files (st_sys t) = (sys_files (st_sys s))(ctx_file (st_ctx s) \<mapsto> file_write f off bs)"
    by (auto simp: same_files_def)
qed

interpretation pos_store: byte_store "\<lambda>off n. vhd_pread n (int off)" "\<lambda>off bs. vhd_pwrite bs (int off)"
proof unfold_locales
  fix off n s bs t
  assume "vhd_pread n (int off) s = (Inr bs, t)" and "0 < n"
  from vhd_pread_ok [OF this]
  show "same_files s t \<and> (\<exists>f. cur_file s = Some f \<and> off + n \<le> f_size f \<and> bs = file_read f off n)"
    by (auto intro: unchanged_same_files)
next
  fix off bs s u t
  assume "vhd_pwrite bs (int off) s = (Inr u, t)" and "bs \<noteq> []"
  from vhd_pwrite_ok [OF this]
  show "\<exists>f. cur_file s = Some f \<and> st_ctx t = st_ctx s \<and>
      sys_files (st_sys t) = (sys_files (st_sys s))(ctx_file (st_ctx s) \<mapsto> file_write f off bs)"
    by (auto simp: wrote_def)
qed

section \<open>An undisturbed system\<close>

definition quiet :: "vst \<Rightarrow> bool" where
  "quiet s \<longleftrightarrow> sys_sched (st_sys s) = [] \<and> sys_mem (st_sys s) = []"

text \<open>The state after the offset has been moved and \<open>errno\<close> cleared.\<close>

definition at_pos :: "nat \<Rightarrow> vst \<Rightarrow> vst" where
  "at_pos p s = s\<lparr>st_pos := p\<rparr>"

lemma quiet_simps [simp]:
  "quiet (set_errno e s) = quiet s" "quiet (at_pos p s) = quiet s"
  "quiet (set_cur_file f s) = quiet s"
  by (simp_all add: quiet_def set_errno_def at_pos_def set_cur_file_def)

lemma cur_file_simps [simp]:
  "cur_file (at_pos p s) = cur_file s" "cur_file (set_cur_file f s) = Some f"
  by (simp_all add: cur_file_def at_pos_def set_cur_file_def)

lemma at_pos_simps [simp]:
  "st_pos (at_pos p s) = p" "st_ctx (at_pos p s) = st_ctx s" "st_sys (at_pos p s) = st_sys s"
  "at_pos p (at_pos q s) = at_pos p s" "set_errno e (at_pos p s) = at_pos p (set_errno e s)"
  "set_errno e (set_errno e' s) = set_errno e s"
  "st_ctx (set_cur_file f s) = st_ctx s" "st_pos (set_cur_file f s) = st_pos s"
  by (simp_all add: at_pos_def set_errno_def set_cur_file_def)

lemma valloc_quiet: "quiet s \<Longrightarrow> valloc e s = (Inr (), s)"
  by (simp add: valloc_def quiet_def)

lemma lseek64_quiet:
  assumes "quiet s" and "cur_file s = Some f"
  shows "lseek64 off SEEK_SET s =
      (if off < 0 then (None, set_errno EINVAL s) else (Some (nat off), at_pos (nat off) s))"
    and "lseek64 0 SEEK_CUR s = (Some (st_pos s), s)"
    and "lseek64 0 SEEK_END s = (Some (f_size f), at_pos (f_size f) s)"
  using assms by (simp_all add: lseek64_def quiet_def at_pos_def)

lemma vhd_seek_quiet:
  assumes "quiet s" and "cur_file s = Some f"
  shows "0 \<le> off \<Longrightarrow> vhd_seek off SEEK_SET s = (Inr (), at_pos (nat off) s)"
    and "off < 0 \<Longrightarrow> vhd_seek off SEEK_SET s = (Inl (Errno (- EINVAL)), set_errno EINVAL s)"
    and "vhd_seek 0 SEEK_END s = (Inr (), at_pos (f_size f) s)"
  using assms by (simp_all add: vhd_seek_def lseek64_quiet)

lemma vhd_position_quiet:
  "quiet s \<Longrightarrow> cur_file s = Some f \<Longrightarrow> vhd_position s = (Inr (Some (st_pos s)), s)"
  by (simp add: vhd_position_def lseek64_quiet)

lemma pread_call_quiet:
  assumes "quiet s" and "cur_file s = Some f" and "0 \<le> off"
  shows "pread_call n off s =
    (int (min n (f_size f - nat off)), file_read f (nat off) (min n (f_size f - nat off)), s)"
  using assms by (simp add: pread_call_def quiet_def Let_def)

lemma overlay_all: "length new = length xs \<Longrightarrow> overlay 0 new xs = new"
  by (simp add: overlay_def)

lemma atomic_pio_read_quiet:
  assumes "quiet s" and "cur_file s = Some f" and "0 \<le> off" and "nat off + n \<le> f_size f"
    and "0 < n" and "length buf = n"
  shows "vhd_atomic_pio Pread buf n off s = (Inr (int n, file_read f (nat off) n), s)"
proof -
  have "min n (f_size f - nat off) = n" using assms(4) by simp
  then have "pio_step Pread buf 0 n off s = (int n, file_read f (nat off) n, s)"
    using assms by (simp add: pio_step_def pread_call_quiet overlay_all)
  then have "pio_loop (Suc k) Pread n off 0 0 buf s = Some (int n, file_read f (nat off) n, s)" for k
    using assms(5) by simp
  then show ?thesis
    by (simp add: vhd_atomic_pio_def pio_fuel_def numeral_3_eq_3)
qed

lemma vhd_pread_quiet:
  assumes "quiet s" and "cur_file s = Some f" and "0 \<le> off" and "nat off + n \<le> f_size f" and "0 < n"
  shows "vhd_pread n off s = (Inr (file_read f (nat off) n), set_errno 0 s)"
  using assms
  by (simp add: vhd_pread_def vbind_def vmodify_def atomic_pio_read_quiet [where f = f])

lemma vhd_read_quiet:
  assumes "quiet s" and "cur_file s = Some f" and "st_pos s + n \<le> f_size f" and "0 < n"
  shows "vhd_read n s =
    (Inr (file_read f (st_pos s) n), at_pos (st_pos s + n) (set_errno 0 s))"
  using assms
  by (simp add: vhd_read_def vhd_read_buf_def vhd_atomic_io_def vbind_def vmodify_def vret_def
      lseek64_quiet [where f = f] atomic_pio_read_quiet [where f = f] nat_add_distrib)

lemma atomic_pio_write_quiet:
  assumes "quiet s" and "cur_file s = Some f" and "0 \<le> off" and "bs \<noteq> []"
    and "f_blk f \<Longrightarrow> nat off + length bs \<le> f_size f"
  shows "vhd_atomic_pio Pwrite bs (length bs) off s =
    (Inr (int (length bs), bs), set_cur_file (file_write f (nat off) bs) s)"
proof -
  have "\<not> (f_blk f \<and> f_size f \<le> nat off)" using assms(4,5) by (cases bs) auto
  then have "pwrite_call bs off s = (int (length bs), set_cur_file (file_write f (nat off) bs) s)"
    using assms by (auto simp: pwrite_call_def quiet_def)
  then have "pio_step Pwrite bs 0 (length bs) off s =
      (int (length bs), bs, set_cur_file (file_write f (nat off) bs) s)"
    by (simp add: pio_step_def)
  then have "pio_loop (Suc k) Pwrite (length bs) off 0 0 bs s =
      Some (int (length bs), bs, set_cur_file (file_write f (nat off) bs) s)" for k
    using assms(4) by simp
  then show ?thesis
    by (simp add: vhd_atomic_pio_def pio_fuel_def numeral_3_eq_3)
qed

lemma vhd_write_quiet:
  assumes "quiet s" and "cur_file s = Some f" and "bs \<noteq> []"
    and "f_blk f \<Longrightarrow> st_pos s + length bs \<le> f_size f"
  shows "vhd_write bs s = (Inr (), at_pos (st_pos s + length bs)
    (set_cur_file (file_write f (st_pos s) bs) (set_errno 0 s)))"
  using assms
  by (simp add: vhd_write_def vhd_atomic_io_def vbind_def vmodify_def nat_add_distrib
      lseek64_quiet [where f = f] atomic_pio_write_quiet [where f = f]
      lseek64_quiet [where f = "file_write f (st_pos s) bs"])

lemma vhd_pwrite_quiet:
  assumes "quiet s" and "cur_file s = Some f" and "0 \<le> off" and "bs \<noteq> []"
    and "f_blk f \<Longrightarrow> nat off + length bs \<le> f_size f"
  shows "vhd_pwrite bs off s = (Inr (), set_cur_file (file_write f (nat off) bs) (set_errno 0 s))"
  using assms
  by (simp add: vhd_pwrite_def vbind_def vmodify_def atomic_pio_write_quiet [where f = f])

lemma ftruncate_quiet:
  assumes "quiet s" and "cur_file s = Some f" and "0 \<le> len" and "\<not> f_blk f"
  shows "ftruncate len s = (0, set_cur_file (f\<lparr>
    f_data := (\<lambda>i. if i < nat len \<and> i < f_size f then f_data f i else 0), f_size := nat len\<rparr>) s)"
  using assms by (simp add: ftruncate_def quiet_def)

section \<open>Termination of the I/O loop\<close>

text \<open>
  On a regular file the loop always ends within its fuel: a turn that continues used up an
  event, and a turn without events transfers everything or stops at the end of the file.
\<close>

definition regular :: "vst \<Rightarrow> bool" where
  "regular s \<longleftrightarrow> (\<forall>f. cur_file s = Some f \<longrightarrow> \<not> f_blk f)"

abbreviation events :: "vst \<Rightarrow> nat" where
  "events s \<equiv> length (sys_sched (st_sys s))"

lemma unchanged_regular: "unchanged s t \<Longrightarrow> regular t = regular s"
  by (simp add: regular_def unchanged_cur_file)

lemma wrote_regular: "wrote s f off bs t \<Longrightarrow> cur_file s = Some f \<Longrightarrow> regular s \<Longrightarrow> regular t"
  by (simp add: regular_def wrote_cur_file file_write_def)

lemma fstat_size_events: "fstat_size s = (r, t) \<Longrightarrow> events t \<le> events s"
proof -
  assume a: "fstat_size s = (r, t)"
  obtain ev u where "take_ev s = (ev, u)" by (cases "take_ev s")
  with take_ev_length [OF this] a show ?thesis
    by (auto simp: fstat_size_def split: io_ev.splits option.splits)
qed

lemma pread_call_events: "pread_call n off s = (r, d, t) \<Longrightarrow> events t = events s - 1"
proof -
  assume a: "pread_call n off s = (r, d, t)"
  obtain ev u where "take_ev s = (ev, u)" by (cases "take_ev s")
  with take_ev_length [OF this] a show ?thesis
    by (auto simp: pread_call_def Let_def split: io_ev.splits option.splits if_splits)
qed

lemma pwrite_call_events: "pwrite_call bs off s = (r, t) \<Longrightarrow> events t = events s - 1"
proof -
  assume a: "pwrite_call bs off s = (r, t)"
  obtain ev u where "take_ev s = (ev, u)" by (cases "take_ev s")
  with take_ev_length [OF this] a show ?thesis
    by (auto simp: pwrite_call_def Let_def set_cur_file_def split: io_ev.splits option.splits if_splits)
qed

lemma pio_step_events: "pio_step d buf pos n off s = (r, b, t) \<Longrightarrow> events t = events s - 1"
  by (cases d)
    (auto simp: pio_step_def dest: pread_call_events pwrite_call_events split: prod.splits)

text \<open>What a step keeps: regularity, the buffer's length, the bound on the position.\<close>

lemma pio_step_regular:
  assumes "pio_step d buf pos n off s = (r, b, t)" and "length buf = n" and "pos \<le> n"
    and "regular s"
  shows "regular t \<and> length b = n \<and> (r \<noteq> - 1 \<longrightarrow> 0 \<le> r \<and> pos + nat r \<le> n)
    \<and> (d = Pread \<longrightarrow> cur_file t = cur_file s)"
proof (cases d)
  case Pread
  with assms(1) have "pio_step Pread buf pos n off s = (r, b, t)" by simp
  from this assms(2,3) show ?thesis
    by (cases rule: pio_step_Pread)
      (use assms(2-4) unchanged_cur_file [of s t] unchanged_regular [of s t] in auto)
next
  case Pwrite
  with assms(1) have "pio_step Pwrite buf pos n off s = (r, b, t)" by simp
  from this assms(2,3) show ?thesis
    by (cases rule: pio_step_Pwrite)
      (use Pwrite assms(2-4) unchanged_regular [of s t] wrote_regular in auto)
qed

text \<open>A turn with no events left.\<close>

lemma pio_step_exhausted:
  assumes "pio_step d buf pos n off s = (r, b, t)" and "sys_sched (st_sys s) = []"
    and "length buf = n" and "pos \<le> n" and "regular s"
  shows "(r = - 1 \<and> get_errno t \<noteq> EINTR \<and> get_errno t \<noteq> EAGAIN) \<or> r = 0 \<or> (r \<noteq> - 1 \<and> pos + nat r = n) \<or>
    (r \<noteq> - 1 \<and> d = Pread \<and> t = s \<and> (\<exists>f. cur_file s = Some f \<and> off + int pos + r = int (f_size f) \<and> 0 < f_size f))"
proof (cases "cur_file s")
  case None
  with assms show ?thesis
    by (cases d) (auto simp: pio_step_def pread_call_def pwrite_call_def errno_simps)
next
  case (Some f)
  show ?thesis
  proof (cases "off + int pos < 0")
    case True
    with Some assms show ?thesis
      by (cases d) (auto simp: pio_step_def pread_call_def pwrite_call_def errno_simps)
  next
    case False
    show ?thesis
    proof (cases d)
      case Pwrite
      with Some False assms show ?thesis
        by (auto simp: pio_step_def pwrite_call_def regular_def split: if_splits)
    next
      case Pread
      with Some False assms
      have r: "r = int (min (n - pos) (f_size f - nat (off + int pos)))" and "t = s"
        by (auto simp: pio_step_def pread_call_def Let_def)
      with Pread Some False assms(4) show ?thesis by (cases "n - pos \<le> f_size f - nat (off + int pos)") auto
    qed
  qed
qed

lemma pio_loop_enough:
  assumes "events s < k" and "length buf = n" and "pos \<le> n" and "regular s"
    and "d = Pread \<Longrightarrow> stsz = 0 \<or> (\<exists>f. cur_file s = Some f \<and> stsz = f_size f)"
  shows "pio_loop k d n off pos stsz buf s \<noteq> None"
  using assms
proof (induction k arbitrary: pos stsz buf s)
  case 0
  then show ?case by simp
next
  case (Suc k)
  note len = Suc.prems(2) and pos = Suc.prems(3) and reg = Suc.prems(4) and sz = Suc.prems(5)
  obtain r1 buf1 s1 where st: "pio_step d buf pos n off s = (r1, buf1, s1)"
    by (metis prod_cases3)
  note keep = pio_step_regular [OF st len pos reg]
  obtain z s2 where z: "(if stsz = 0 then fstat_size s1 else (Some stsz, s1)) = (z, s2)"
    by (metis surj_pair)
  have un: "unchanged s1 s2" and ev2: "events s2 \<le> events s1"
    using z by (auto dest: fstat_size_unchanged fstat_size_events split: if_splits)
  show ?case
  proof (cases "sys_sched (st_sys s) = []")
    case True
    note ex = pio_step_exhausted [OF st True len pos reg]
    consider "r1 = - 1" "get_errno s1 \<noteq> EINTR" "get_errno s1 \<noteq> EAGAIN" | "r1 = 0"
      | "r1 \<noteq> - 1" "pos + nat r1 = n"
      | f where "r1 \<noteq> - 1" "d = Pread" "s1 = s" "cur_file s = Some f" "off + int pos + r1 = int (f_size f)" "0 < f_size f"
      using ex by blast
    then show ?thesis
    proof cases
      case 4
      with reg True have "fstat_size s1 = (Some (f_size f), s1)"
        by (simp add: fstat_size_def regular_def)
      moreover have "stsz = 0 \<or> stsz = f_size f" using 4 sz by auto
      ultimately show ?thesis using st 4 by (elim disjE) simp_all
    qed (use st in auto)
  next
    case False
    with pio_step_events [OF st] Suc.prems(1) have ev: "events s1 < k"
      by (cases "sys_sched (st_sys s)") auto
    have sz1: "d = Pread \<Longrightarrow> stsz = 0 \<or> (\<exists>f. cur_file s1 = Some f \<and> stsz = f_size f)"
      using sz keep by auto
    have IH1: "pio_loop k d n off pos stsz buf1 s1 \<noteq> None"
      using Suc.IH [OF ev _ pos _ sz1] keep by blast
    have IH2: "pio_loop k d n off (pos + VHD_SECTOR_SIZE * (nat r1 div VHD_SECTOR_SIZE)) w buf1 s2 \<noteq> None"
      if "r1 \<noteq> - 1" and zw: "z = Some w" for w
    proof (rule Suc.IH)
      show "events s2 < k" using ev ev2 by simp
      show "length buf1 = n" using keep by simp
      have "VHD_SECTOR_SIZE * (nat r1 div VHD_SECTOR_SIZE) \<le> nat r1" by simp
      with keep that(1) show "pos + VHD_SECTOR_SIZE * (nat r1 div VHD_SECTOR_SIZE) \<le> n" by linarith
      show "regular s2" using keep unchanged_regular [OF un] by simp
    next
      assume "d = Pread"
      with sz1 zw z keep unchanged_cur_file [OF un]
      show "w = 0 \<or> (\<exists>f. cur_file s2 = Some f \<and> w = f_size f)"
        by (cases "take_ev s1")
          (auto simp: fstat_size_def regular_def dest: take_ev_unchanged unchanged_cur_file
            split: if_splits io_ev.splits option.splits)
    qed
    show ?thesis
      using st z IH1 IH2 by (auto split: option.splits)
  qed
qed

theorem atomic_pio_terminates:
  assumes "regular s" and "length buf = n"
  shows "fst (vhd_atomic_pio d buf n off s) \<noteq> Inl Hang"
  using pio_loop_enough [of s "pio_fuel s" buf n 0 d 0 off] assms
  by (auto simp: vhd_atomic_pio_def pio_fuel_def split: option.splits prod.splits)

text \<open>
  On a block device \<open>fstat\<close> reports the size 0, so the end of the device is not recognised: a
  read that ends there after less than a sector is repeated for ever.
\<close>

lemma pio_loop_hangs:
  assumes "cur_file s = Some f" and "f_blk f" and "sys_sched (st_sys s) = []"
    and "off + int pos + int m = int (f_size f)" and "0 \<le> off" and "0 < m" and "m < 512"
    and "pos + m < n"
  shows "pio_loop k Pread n off pos 0 buf s = None"
proof (induction k arbitrary: buf)
  case 0
  then show ?case by simp
next
  case (Suc k)
  let ?b = "overlay pos (file_read f (nat (off + int pos)) m) buf"
  have "f_size f - nat (off + int pos) = m" using assms(4,5) by linarith
  then have "min (n - pos) (f_size f - nat (off + int pos)) = m" using assms(8) by simp
  then have st: "pio_step Pread buf pos n off s = (int m, ?b, s)"
    using assms(1-5) by (simp add: pio_step_def pread_call_def Let_def)
  have "fstat_size s = (Some 0, s)" using assms(1-3) by (simp add: fstat_size_def)
  moreover have "m div VHD_SECTOR_SIZE = 0"
    using assms(7) by (simp add: VHD_SECTOR_SIZE_def)
  ultimately have "pio_loop (Suc k) Pread n off pos 0 buf s = pio_loop k Pread n off pos 0 ?b s"
    using st assms(4-8) by simp
  with Suc.IH show ?case by simp
qed

end
