(* ===== verification/Vhd_Geometry.thy ===== *)
theory Vhd_Geometry
  imports Vhd_Check
begin

text \<open>
  The CHS geometry of a disk (\<open>vhd_chs\<close> of \<open>vhd/lib/libvhd.c\<close>, the \<open>GEOM_\<close> macros of
  \<open>include/vhd.h\<close>), its refinement to natural numbers, and its bounds.
\<close>

definition GEOM_GET_CYLS :: "u32 \<Rightarrow> u32" where
  "GEOM_GET_CYLS g = drop_bit 16 g AND 0xffff"

definition GEOM_GET_HEADS :: "u32 \<Rightarrow> u32" where
  "GEOM_GET_HEADS g = drop_bit 8 g AND 0xff"

definition GEOM_GET_SPT :: "u32 \<Rightarrow> u32" where
  "GEOM_GET_SPT g = g AND 0xff"

definition GEOM_ENCODE :: "u32 \<Rightarrow> u32 \<Rightarrow> u32 \<Rightarrow> u32" where
  "GEOM_ENCODE c h s = push_bit 16 c OR push_bit 8 h OR s"

text \<open>\<open>heads = (cth + 1023) / 1024\<close>, at least 4.\<close>

definition chs_heads :: "u32 \<Rightarrow> u32" where
  "chs_heads cth = (if (cth + 1023) div 1024 < 4 then 4 else (cth + 1023) div 1024)"

text \<open>The cylinders, heads and sectors per track the code computes before encoding them.\<close>

definition chs_fields :: "u32 \<Rightarrow> u32 \<times> u32 \<times> u32" where
  "chs_fields secs0 =
     (let secs = (if secs0 > 65535 * 16 * 255 then 65535 * 16 * 255 else secs0) in
      if secs \<ge> 65535 * 16 * 63 then
        (let spt = 255; cth = secs div spt; heads = 16 in (cth div heads, heads, spt))
      else
        (let spt = 17; cth = secs div spt; heads = chs_heads cth;
             (spt, cth, heads) =
               (if cth \<ge> heads * 1024 \<or> heads > 16 then (31, secs div 31, 16)
                else (spt, cth, heads));
             (spt, cth, heads) =
               (if cth \<ge> heads * 1024 then (63, secs div 63, 16) else (spt, cth, heads))
         in (cth div heads, heads, spt)))"

definition vhd_chs :: "u64 \<Rightarrow> u32" where
  "vhd_chs sz = (case chs_fields (secs_round_up_no_zero sz) of
     (cylinders, heads, spt) \<Rightarrow> GEOM_ENCODE cylinders heads spt)"

section \<open>On natural numbers\<close>

definition chs_nat :: "nat \<Rightarrow> nat \<times> nat \<times> nat" where
  "chs_nat secs0 =
     (let secs = min secs0 267382800 in
      if secs \<ge> 66059280 then (secs div 255 div 16, 16, 255)
      else
        (let cth = secs div 17; heads = max 4 ((cth + 1023) div 1024) in
         if cth \<ge> heads * 1024 \<or> heads > 16 then
           (if secs div 31 \<ge> 16384 then (secs div 63 div 16, 16, 63)
            else (secs div 31 div 16, 16, 31))
         else (cth div heads, heads, 17)))"

lemma chs_heads_nat:
  fixes secs :: u32
  assumes "unat secs \<le> 267382800"
  shows "unat (chs_heads (secs div 17)) = max 4 ((unat secs div 17 + 1023) div 1024)"
    and "unat (chs_heads (secs div 17) * 1024) = unat (chs_heads (secs div 17)) * 1024"
proof -
  have cth: "unat (secs div 17) = unat secs div 17" by (simp add: unat_div)
  with assms have "unat (secs div 17) \<le> 15728400" by simp
  then have "unat (secs div 17 + 1023) = unat (secs div 17) + 1023" by (simp add: unat_word_ariths)
  then have "unat ((secs div 17 + 1023) div 1024) = (unat secs div 17 + 1023) div 1024"
    using cth by (simp add: unat_div)
  then show h: "unat (chs_heads (secs div 17)) = max 4 ((unat secs div 17 + 1023) div 1024)"
    by (auto simp: chs_heads_def word_less_nat_alt)
  with assms have "unat (chs_heads (secs div 17)) \<le> 15361" by simp
  then show "unat (chs_heads (secs div 17) * 1024) = unat (chs_heads (secs div 17)) * 1024"
    by (simp add: unat_word_ariths)
qed

lemma chs_fields_nat:
  "(case chs_fields w of (c, h, s) \<Rightarrow> (unat c, unat h, unat s)) = chs_nat (unat w)"
proof -
  define secs :: u32 where "secs = (if w > 65535 * 16 * 255 then 65535 * 16 * 255 else w)"
  have secs: "unat secs = min (unat w) 267382800"
    by (auto simp: secs_def word_less_nat_alt)
  then have le: "unat secs \<le> 267382800" by simp
  define cth where "cth = secs div 17"
  define h where "h = chs_heads cth"
  define nh where "nh = max 4 ((unat secs div 17 + 1023) div 1024)"
  have cth: "unat cth = unat secs div 17" by (simp add: cth_def unat_div)
  have h: "unat h = nh" and h1024: "unat (h * 1024) = nh * 1024"
    using chs_heads_nat [OF le] by (simp_all add: h_def cth_def nh_def)
  have big: "secs \<ge> 65535 * 16 * 63 \<longleftrightarrow> unat secs \<ge> 66059280"
    by (simp add: word_le_nat_alt)
  have c1: "(cth \<ge> h * 1024 \<or> h > 16) \<longleftrightarrow> (unat secs div 17 \<ge> nh * 1024 \<or> nh > 16)"
    using cth h h1024 by (simp add: word_le_nat_alt word_less_nat_alt)
  have d31: "secs div 31 \<ge> 16 * 1024 \<longleftrightarrow> unat secs div 31 \<ge> 16384"
    by (simp add: word_le_nat_alt unat_div)
  have f: "chs_fields w =
      (if secs \<ge> 65535 * 16 * 63 then (secs div 255 div 16, 16, 255)
       else if cth \<ge> h * 1024 \<or> h > 16 then
         (if secs div 31 \<ge> 16 * 1024 then (secs div 63 div 16, 16, 63)
          else (secs div 31 div 16, 16, 31))
       else (cth div h, h, 17))"
    unfolding chs_fields_def secs_def [symmetric] Let_def cth_def [symmetric] h_def [symmetric]
    by (cases "secs \<ge> 65535 * 16 * 63"; cases "cth \<ge> h * 1024 \<or> h > 16";
        cases "secs div 31 \<ge> 16 * 1024")
      (simp_all only: if_True if_False prod.case de_Morgan_disj simp_thms)
  show ?thesis
    unfolding f chs_nat_def secs [symmetric] Let_def nh_def [symmetric] big c1 d31
    by (simp add: unat_div cth h)
qed

text \<open>Cutting a number of sectors into tracks and cylinders loses less than one cylinder.\<close>

lemma cut_bounds:
  fixes n k h :: nat
  assumes "0 < k" and "0 < h"
  shows "n div k div h * h * k \<le> n" and "n < (n div k div h + 1) * h * k"
proof -
  have e: "n div k div h = n div (k * h)" by (simp add: div_mult2_eq)
  have "n div (k * h) * (k * h) \<le> n" by simp
  then show "n div k div h * h * k \<le> n" by (simp add: e ac_simps)
  have "n < (n div (k * h) + 1) * (k * h)"
    using assms dividend_less_div_times [of "k * h" n] by simp
  then show "n < (n div k div h + 1) * h * k" by (simp add: e algebra_simps)
qed

lemma chs_nat_bounds:
  assumes "chs_nat n = (c, h, s)"
  shows "s \<in> {17, 31, 63, 255} \<and> 4 \<le> h \<and> h \<le> 16 \<and> c \<le> 65535 \<and>
    c * h * s \<le> min n 267382800 \<and> min n 267382800 < (c + 1) * h * s"
proof -
  define m where "m = min n 267382800"
  define nh where "nh = max 4 ((m div 17 + 1023) div 1024)"
  have m: "m \<le> 267382800" by (simp add: m_def)
  have eq: "(c, h, s) = (if m \<ge> 66059280 then (m div 255 div 16, 16, 255)
     else if m div 17 \<ge> nh * 1024 \<or> nh > 16 then
       (if m div 31 \<ge> 16384 then (m div 63 div 16, 16, 63) else (m div 31 div 16, 16, 31))
     else (m div 17 div nh, nh, 17))"
    using assms [symmetric] unfolding chs_nat_def Let_def m_def [symmetric] nh_def [symmetric] .
  consider "m \<ge> 66059280" "c = m div 255 div 16" "h = 16" "s = 255"
    | "m < 66059280" "c = m div 63 div 16" "h = 16" "s = 63"
    | "m div 31 < 16384" "c = m div 31 div 16" "h = 16" "s = 31"
    | "m div 17 < nh * 1024" "nh \<le> 16" "c = m div 17 div nh" "h = nh" "s = 17"
    using eq by (auto split: if_splits)
  then have "s \<in> {17, 31, 63, 255} \<and> 4 \<le> h \<and> h \<le> 16 \<and> c \<le> 65535 \<and>
    c * h * s \<le> m \<and> m < (c + 1) * h * s"
  proof cases
    case 4
    have nh: "4 \<le> nh" by (simp add: nh_def)
    have "c < 1024" using 4 nh by (simp add: less_mult_imp_div_less mult.commute)
    with 4 nh cut_bounds [of 17 nh m] show ?thesis by simp
  next
    case 3
    have "m div 31 div 16 \<le> m div 31" by (rule div_le_dividend)
    also have "\<dots> \<le> 65535" using 3 by simp
    finally show ?thesis using 3 cut_bounds [of 31 16 m] by simp
  qed (use m cut_bounds [of 255 16 m] cut_bounds [of 63 16 m] in simp_all)
  then show ?thesis by (simp only: m_def)
qed

section \<open>The encoded geometry\<close>

lemma not_bit_u32:
  fixes w :: u32
  assumes "unat w < 2 ^ m" and "m \<le> k"
  shows "\<not> bit w k"
proof -
  have "take_bit m (unat w) = unat w" using assms(1) by (simp add: take_bit_nat_eq_self)
  then have "\<not> bit (unat w) k" using assms(2) by (metis bit_take_bit_iff not_le)
  then show ?thesis by (simp add: bit_unsigned_iff)
qed

lemma geom_masks: "(0xffff :: u32) = mask 16" "(0xff :: u32) = mask 8"
  by (simp_all add: mask_eq_exp_minus_1)

lemma geom_fields:
  assumes c: "unat c < 65536" and h: "unat h < 256" and s: "unat s < 256"
  shows "GEOM_GET_CYLS (GEOM_ENCODE c h s) = c"
    and "GEOM_GET_HEADS (GEOM_ENCODE c h s) = h"
    and "GEOM_GET_SPT (GEOM_ENCODE c h s) = s"
proof -
  have bits: "bit c k \<Longrightarrow> k < 16" "bit h k \<Longrightarrow> k < 8" "bit s k \<Longrightarrow> k < 8" for k
    using not_bit_u32 [of c 16 k] not_bit_u32 [of h 8 k] not_bit_u32 [of s 8 k] c h s
    by (auto simp: not_le [symmetric])
  note defs = GEOM_ENCODE_def geom_masks bit_and_iff bit_or_iff bit_push_bit_iff
    bit_drop_bit_eq bit_mask_iff
  show "GEOM_GET_CYLS (GEOM_ENCODE c h s) = c"
    by (intro bit_word_eqI) (auto simp: GEOM_GET_CYLS_def defs dest: bits)
  show "GEOM_GET_HEADS (GEOM_ENCODE c h s) = h"
    by (intro bit_word_eqI) (auto simp: GEOM_GET_HEADS_def defs dest: bits)
  show "GEOM_GET_SPT (GEOM_ENCODE c h s) = s"
    by (intro bit_word_eqI) (auto simp: GEOM_GET_SPT_def defs dest: bits)
qed

text \<open>The number of sectors from which the geometry of a disk of the given size is computed.\<close>

definition chs_secs :: "u64 \<Rightarrow> nat" where
  "chs_secs sz = min (unat (secs_round_up_no_zero sz)) 267382800"

lemma chs_secs_exact:
  assumes "unat sz \<le> 2199023255040"
  shows "chs_secs sz = min (max 1 ((unat sz + 511) div 512)) 267382800"
proof -
  have e: "unat (sz + 511) = unat sz + 511" using assms by (simp add: unat_word_ariths)
  have "(unat sz + 511) div 512 \<le> (2199023255040 + 511) div 512" using assms by (intro div_le_mono) simp
  then have l: "(unat sz + 511) div 512 < 4294967296" by simp
  have r: "unat (secs_round_up sz) = (unat sz + 511) div 512"
    using l by (simp add: secs_round_up_def VHD_SECTOR_SHIFT_def VHD_SECTOR_SIZE_def unsigned_ucast_eq take_bit_nat_eq_self
        drop_bit_eq_div unat_div e)
  have "unat (secs_round_up_no_zero sz) = max 1 ((unat sz + 511) div 512)"
    unfolding r [symmetric] using unat_gt_0 [of "secs_round_up sz"] by (auto simp: secs_round_up_no_zero_def max_def)
  then show ?thesis by (simp add: chs_secs_def)
qed

lemma vhd_chs_bounds:
  fixes sz :: u64
  defines "g \<equiv> vhd_chs sz"
  defines "c \<equiv> unat (GEOM_GET_CYLS g)" and "h \<equiv> unat (GEOM_GET_HEADS g)"
    and "s \<equiv> unat (GEOM_GET_SPT g)"
  shows "s \<in> {17, 31, 63, 255} \<and> 4 \<le> h \<and> h \<le> 16 \<and> c \<le> 65535 \<and>
    c * h * s \<le> chs_secs sz \<and> chs_secs sz < (c + 1) * h * s"
proof -
  obtain c' h' s' where f: "chs_fields (secs_round_up_no_zero sz) = (c', h', s')"
    by (metis prod_cases3)
  with chs_fields_nat [of "secs_round_up_no_zero sz"]
  have "chs_nat (unat (secs_round_up_no_zero sz)) = (unat c', unat h', unat s')" by simp
  note b = chs_nat_bounds [OF this]
  then have "unat c' < 65536" and "unat h' < 256" and "unat s' < 256" by auto
  note gf = geom_fields [OF this]
  have "g = GEOM_ENCODE c' h' s'" by (simp add: g_def vhd_chs_def f)
  with gf have "c = unat c'" and "h = unat h'" and "s = unat s'"
    by (simp_all add: c_def h_def s_def)
  with b show ?thesis by (simp add: chs_secs_def)
qed

text \<open>
  The number of sectors is computed in 64 bits and returned in 32: a size of \<open>2 ^ 41\<close> bytes
  (2 TiB) rounds to \<open>2 ^ 32\<close> sectors, which is 0 in \<open>uint32_t\<close> and then taken as 1.
\<close>

lemma vhd_chs_2TiB: "vhd_chs (2 ^ 41) = GEOM_ENCODE 0 4 17"
proof -
  have "secs_round_up_no_zero (2 ^ 41) = 1"
    by (simp add: secs_round_up_no_zero_def secs_round_up_def VHD_SECTOR_SHIFT_def
        VHD_SECTOR_SIZE_def)
  then show ?thesis by (simp add: vhd_chs_def chs_fields_def chs_heads_def word_le_nat_alt)
qed

end
