(* ===== verification/Vhd_Seal.thy ===== *)
theory Vhd_Seal
  imports Vhd_Check
begin

text \<open>
  The contract of a sealed record, as a locale over a byte codec: its checksum field lies at a
  known offset in big endian form and the seal is the complement of the byte sum of the record
  with that field zeroed. The footer and the dynamic disk header are the two instances, in the
  form in which they lie on disk.
\<close>

section \<open>Sealed records\<close>

locale checksummed = byte_codec width enc dec wf
  for width :: nat and enc :: "'a \<Rightarrow> bytes" and dec :: "bytes \<Rightarrow> 'a" and wf :: "'a \<Rightarrow> bool" +
  fixes off :: nat
    and chk :: "'a \<Rightarrow> u32"
    and set_chk :: "u32 \<Rightarrow> 'a \<Rightarrow> 'a"
    and seal :: "'a \<Rightarrow> u32"
  assumes off_width: "off + 4 \<le> width"
    and chk_field: "wf x \<Longrightarrow> rev (le_bytes 4 (chk x)) = field off 4 (enc x)"
    and wf_set_chk: "wf x \<Longrightarrow> wf (set_chk c x)"
    and enc_set_chk: "wf x \<Longrightarrow> enc (set_chk c x) = overlay off (rev (le_bytes 4 c)) (enc x)"
    and seal_sum: "wf x \<Longrightarrow> seal x = NOT (byte_sum (overlay off (zeros 4) (enc x)))"
begin

lemma overlay_overlay:
  assumes "length new = length old" and "off + length old \<le> length xs"
  shows "overlay off new (overlay off old xs) = overlay off new xs"
  using assms by (simp add: overlay_def)

lemma seal_set_chk [simp]:
  assumes "wf x"
  shows "seal (set_chk c x) = seal x"
  using assms off_width
  by (simp add: seal_sum wf_set_chk enc_set_chk overlay_overlay length_enc)

lemma chk_set_chk:
  assumes "wf x"
  shows "chk (set_chk c x) = c"
proof -
  have "rev (le_bytes 4 (chk (set_chk c x))) = field off 4 (overlay off (rev (le_bytes 4 c)) (enc x))"
    using assms by (simp add: chk_field wf_set_chk enc_set_chk)
  also have "\<dots> = rev (le_bytes 4 c)"
    using assms off_width field_overlay_same [of off "rev (le_bytes 4 c)" "enc x"]
    by (simp add: length_enc)
  finally show ?thesis by (simp add: u32_codec.enc_inject)
qed

text \<open>Sealing makes the check succeed.\<close>

lemma sealed: "wf x \<Longrightarrow> chk (set_chk (seal x) x) = seal (set_chk (seal x) x)"
  by (simp add: chk_set_chk)

text \<open>A correctly sealed record with one byte changed on disk fails the check.\<close>

lemma detects_corruption:
  assumes len: "length bs = width" and i: "i < width" and b: "b \<noteq> bs ! i"
    and ok: "chk (dec bs) = seal (dec bs)"
  shows "chk (dec (bs[i := b])) \<noteq> seal (dec (bs[i := b]))"
proof -
  let ?bs = "bs[i := b]"
  have wfs: "wf (dec bs)" "wf (dec ?bs)" and enc: "enc (dec bs) = bs" "enc (dec ?bs) = ?bs"
    using len by (simp_all add: wf_dec enc_dec)
  have ow: "off + 4 \<le> length bs" using off_width len by simp
  show ?thesis
  proof (cases "off \<le> i \<and> i < off + 4")
    case True
    then have "overlay off (zeros 4) ?bs = overlay off (zeros 4) bs"
      using ow by (simp add: overlay_def)
    then have same: "seal (dec ?bs) = seal (dec bs)"
      using wfs enc by (simp add: seal_sum)
    have "field off 4 ?bs \<noteq> field off 4 bs"
    proof
      assume "field off 4 ?bs = field off 4 bs"
      then have "field off 4 ?bs ! (i - off) = field off 4 bs ! (i - off)" by simp
      moreover have "i - off < 4" and "off + (i - off) = i" using True by auto
      ultimately show False using ow i len b by (simp add: field_def)
    qed
    then have "chk (dec ?bs) \<noteq> chk (dec bs)"
      using wfs enc chk_field by metis
    with same ok show ?thesis by simp
  next
    case False
    define j where "j = i"
    have upd: "overlay off (zeros 4) ?bs = (overlay off (zeros 4) bs)[i := b]"
    proof (rule nth_equalityI)
      show "length (overlay off (zeros 4) ?bs) = length ((overlay off (zeros 4) bs)[i := b])"
        using ow by simp
    next
      fix k
      assume "k < length (overlay off (zeros 4) ?bs)"
      with ow False i len show "overlay off (zeros 4) ?bs ! k = (overlay off (zeros 4) bs)[i := b] ! k"
        by (auto simp: nth_overlay nth_list_update)
    qed
    have "overlay off (zeros 4) bs ! i = bs ! i"
      using ow i len False by (auto simp: nth_overlay)
    then have "byte_sum ((overlay off (zeros 4) bs)[i := b]) \<noteq> byte_sum (overlay off (zeros 4) bs)"
      using ow i len b by (intro byte_sum_detects) simp_all
    then have "seal (dec ?bs) \<noteq> seal (dec bs)"
      using wfs enc upd by (simp add: seal_sum)
    moreover have "field off 4 ?bs = field off 4 bs"
      using False by (auto simp: field_def drop_update_swap)
    then have "chk (dec ?bs) = chk (dec bs)"
      using wfs enc chk_field u32_codec.enc_inject rev_rev_ident by metis
    ultimately show ?thesis using ok by simp
  qed
qed

end

section \<open>The on-disk footer\<close>

definition ftr_disk_bytes :: "hd_ftr \<Rightarrow> bytes" where
  "ftr_disk_bytes f = ftr_bytes (vhd_footer_out f)"

definition ftr_of_disk :: "bytes \<Rightarrow> hd_ftr" where
  "ftr_of_disk bs = vhd_footer_in (ftr_of_bytes bs)"

lemma ftr_disk_bytes_eq:
  "ftr_disk_bytes f =
     ftr_cookie f @ rev (le_bytes 4 (ftr_features f)) @ rev (le_bytes 4 (ftr_ff_version f)) @
     rev (le_bytes 8 (ftr_data_offset f)) @ rev (le_bytes 4 (ftr_timestamp f)) @ ftr_crtr_app f @
     rev (le_bytes 4 (ftr_crtr_ver f)) @ rev (le_bytes 4 (ftr_crtr_os f)) @
     rev (le_bytes 8 (ftr_orig_size f)) @ rev (le_bytes 8 (ftr_curr_size f)) @
     rev (le_bytes 4 (ftr_geometry f)) @ rev (le_bytes 4 (ftr_type f)) @
     rev (le_bytes 4 (ftr_checksum f)) @ ftr_uuid f @ le_bytes 1 (ftr_saved f) @
     le_bytes 1 (ftr_hidden f) @ ftr_reserved f"
  by (simp add: ftr_disk_bytes_def ftr_bytes_def vhd_footer_out_def)

lemma byte_sum_ftr_disk: "byte_sum (ftr_disk_bytes f) = byte_sum (ftr_bytes f)"
  by (simp add: ftr_disk_bytes_eq ftr_bytes_def)

lemma rev_le_bytes_0: "rev (le_bytes 4 (0 :: u32)) = zeros 4"
  by (simp add: le_bytes_def zeros_def upt_rec numeral_eq_Suc)

lemma overlay_at:
  "length xs = off \<Longrightarrow> length new = length old \<Longrightarrow> overlay off new (xs @ old @ ys) = xs @ new @ ys"
  by (simp add: overlay_def)

lemma ftr_disk_set_checksum:
  assumes "ftr_wf f"
  shows "ftr_disk_bytes (f\<lparr>ftr_checksum := c\<rparr>) = overlay 64 (rev (le_bytes 4 c)) (ftr_disk_bytes f)"
proof -
  define pre where "pre =
     ftr_cookie f @ rev (le_bytes 4 (ftr_features f)) @ rev (le_bytes 4 (ftr_ff_version f)) @
     rev (le_bytes 8 (ftr_data_offset f)) @ rev (le_bytes 4 (ftr_timestamp f)) @ ftr_crtr_app f @
     rev (le_bytes 4 (ftr_crtr_ver f)) @ rev (le_bytes 4 (ftr_crtr_os f)) @
     rev (le_bytes 8 (ftr_orig_size f)) @ rev (le_bytes 8 (ftr_curr_size f)) @
     rev (le_bytes 4 (ftr_geometry f)) @ rev (le_bytes 4 (ftr_type f))"
  define post where "post = ftr_uuid f @ le_bytes 1 (ftr_saved f) @
     le_bytes 1 (ftr_hidden f) @ ftr_reserved f"
  have d: "ftr_disk_bytes (f\<lparr>ftr_checksum := c\<rparr>) = pre @ rev (le_bytes 4 c) @ post" for c
    by (simp add: ftr_disk_bytes_eq pre_def post_def)
  from d [of "ftr_checksum f"] have "ftr_disk_bytes f = pre @ rev (le_bytes 4 (ftr_checksum f)) @ post"
    by simp
  moreover have "length pre = 64" using assms by (simp add: pre_def ftr_wf_def)
  ultimately show ?thesis using d [of c] by (simp add: overlay_at)
qed

interpretation ftr_seal: checksummed 512 ftr_disk_bytes ftr_of_disk ftr_wf
    64 ftr_checksum "\<lambda>c. ftr_checksum_update (\<lambda>_. c)" vhd_checksum_footer
proof unfold_locales
  fix f :: hd_ftr and c :: u32
  assume wf: "ftr_wf f"
  then show "length (ftr_disk_bytes f) = 512" and "ftr_of_disk (ftr_disk_bytes f) = f"
    by (simp_all add: ftr_disk_bytes_def ftr_of_disk_def ftr_of_bytes_ftr_bytes)
  show "ftr_wf (f\<lparr>ftr_checksum := c\<rparr>)" using wf by (simp add: ftr_wf_def)
  show "ftr_disk_bytes (f\<lparr>ftr_checksum := c\<rparr>) = overlay 64 (rev (le_bytes 4 c)) (ftr_disk_bytes f)"
    using wf by (rule ftr_disk_set_checksum)
  show "rev (le_bytes 4 (ftr_checksum f)) = field 64 4 (ftr_disk_bytes f)"
    using wf by (simp add: ftr_disk_bytes_eq ftr_wf_def field_simps_layout)
  show "vhd_checksum_footer f = NOT (byte_sum (overlay 64 (zeros 4) (ftr_disk_bytes f)))"
    using wf ftr_disk_set_checksum [OF wf, of 0]
    by (simp add: vhd_checksum_footer_def rev_le_bytes_0 flip: byte_sum_ftr_disk)
next
  fix bs :: bytes
  assume "length bs = 512"
  then show "ftr_disk_bytes (ftr_of_disk bs) = bs" and "ftr_wf (ftr_of_disk bs)"
    by (simp_all add: ftr_disk_bytes_def ftr_of_disk_def ftr_bytes_ftr_of_bytes
        ftr_wf_ftr_of_bytes)
qed simp

section \<open>The on-disk header\<close>

definition hdr_disk_bytes :: "dd_hdr \<Rightarrow> bytes" where
  "hdr_disk_bytes h = hdr_bytes (vhd_header_out h)"

definition hdr_of_disk :: "bytes \<Rightarrow> dd_hdr" where
  "hdr_of_disk bs = vhd_header_in (hdr_of_bytes bs)"

lemma hdr_disk_bytes_eq:
  "hdr_disk_bytes h =
     hdr_cookie h @ rev (le_bytes 8 (hdr_data_offset h)) @ rev (le_bytes 8 (hdr_table_offset h)) @
     rev (le_bytes 4 (hdr_ver h)) @ rev (le_bytes 4 (hdr_max_bat_size h)) @
     rev (le_bytes 4 (hdr_block_size h)) @ rev (le_bytes 4 (hdr_checksum h)) @ hdr_prt_uuid h @
     rev (le_bytes 4 (hdr_prt_ts h)) @ le_bytes 4 (hdr_res1 h) @ hdr_prt_name h @
     concat (map loc_bytes (map loc_swap (hdr_loc h))) @ hdr_res2 h"
  by (simp add: hdr_disk_bytes_def hdr_bytes_def vhd_header_out_def)

lemma byte_sum_loc_swap: "byte_sum (loc_bytes (loc_swap l)) = byte_sum (loc_bytes l)"
  by (simp add: loc_bytes_def loc_swap_def)

lemma byte_sum_locs:
  "byte_sum (concat (map loc_bytes (map loc_swap ls))) = byte_sum (concat (map loc_bytes ls))"
  by (induction ls) (simp_all add: byte_sum_loc_swap)

lemma byte_sum_hdr_disk: "byte_sum (hdr_disk_bytes h) = byte_sum (hdr_bytes h)"
  using byte_sum_locs [of "hdr_loc h"] by (simp add: hdr_disk_bytes_eq hdr_bytes_def)

lemma hdr_disk_set_checksum:
  assumes "hdr_wf h"
  shows "hdr_disk_bytes (h\<lparr>hdr_checksum := c\<rparr>) = overlay 36 (rev (le_bytes 4 c)) (hdr_disk_bytes h)"
proof -
  define pre where "pre =
     hdr_cookie h @ rev (le_bytes 8 (hdr_data_offset h)) @ rev (le_bytes 8 (hdr_table_offset h)) @
     rev (le_bytes 4 (hdr_ver h)) @ rev (le_bytes 4 (hdr_max_bat_size h)) @
     rev (le_bytes 4 (hdr_block_size h))"
  define post where "post = hdr_prt_uuid h @
     rev (le_bytes 4 (hdr_prt_ts h)) @ le_bytes 4 (hdr_res1 h) @ hdr_prt_name h @
     concat (map loc_bytes (map loc_swap (hdr_loc h))) @ hdr_res2 h"
  have d: "hdr_disk_bytes (h\<lparr>hdr_checksum := c\<rparr>) = pre @ rev (le_bytes 4 c) @ post" for c
    by (simp add: hdr_disk_bytes_eq pre_def post_def)
  from d [of "hdr_checksum h"] have "hdr_disk_bytes h = pre @ rev (le_bytes 4 (hdr_checksum h)) @ post"
    by simp
  moreover have "length pre = 36" using assms by (simp add: pre_def hdr_wf_def)
  ultimately show ?thesis using d [of c] by (simp add: overlay_at)
qed

interpretation hdr_seal: checksummed 1024 hdr_disk_bytes hdr_of_disk hdr_wf
    36 hdr_checksum "\<lambda>c. hdr_checksum_update (\<lambda>_. c)" vhd_checksum_header
proof unfold_locales
  fix h :: dd_hdr and c :: u32
  assume wf: "hdr_wf h"
  then show "length (hdr_disk_bytes h) = 1024" and "hdr_of_disk (hdr_disk_bytes h) = h"
    by (simp_all add: hdr_disk_bytes_def hdr_of_disk_def hdr_of_bytes_hdr_bytes)
  show "hdr_wf (h\<lparr>hdr_checksum := c\<rparr>)" using wf by (simp add: hdr_wf_def)
  show "hdr_disk_bytes (h\<lparr>hdr_checksum := c\<rparr>) = overlay 36 (rev (le_bytes 4 c)) (hdr_disk_bytes h)"
    using wf by (rule hdr_disk_set_checksum)
  show "rev (le_bytes 4 (hdr_checksum h)) = field 36 4 (hdr_disk_bytes h)"
    using wf by (simp add: hdr_disk_bytes_eq hdr_wf_def field_simps_layout)
  show "vhd_checksum_header h = NOT (byte_sum (overlay 36 (zeros 4) (hdr_disk_bytes h)))"
    using wf hdr_disk_set_checksum [OF wf, of 0]
    by (simp add: vhd_checksum_header_def rev_le_bytes_0 flip: byte_sum_hdr_disk)
next
  fix bs :: bytes
  assume "length bs = 1024"
  then show "hdr_disk_bytes (hdr_of_disk bs) = bs" and "hdr_wf (hdr_of_disk bs)"
    by (simp_all add: hdr_disk_bytes_def hdr_of_disk_def hdr_bytes_hdr_of_bytes
        hdr_wf_hdr_of_bytes)
qed simp

section \<open>Validation\<close>

lemma validate_sealed_footer:
  assumes "ftr_wf f" and "ftr_cookie f = HD_COOKIE \<or> ftr_cookie f = VHD_POISON_COOKIE"
  shows "vhd_validate_footer (f\<lparr>ftr_checksum := vhd_checksum_footer f\<rparr>) = 0"
  using assms ftr_seal.seal_set_chk [of f "vhd_checksum_footer f"]
  by (auto simp: vhd_validate_footer_def)

lemma validate_footer_accepts:
  assumes "vhd_validate_footer f = 0" and "\<not> legacy_hidden f"
  shows "ftr_checksum f = vhd_checksum_footer f"
  using assms by (auto simp: vhd_validate_footer_def errno_simps split: if_splits)

lemma validate_footer_rejects:
  assumes "ftr_checksum f \<noteq> vhd_checksum_footer f" and "\<not> legacy_hidden f"
  shows "vhd_validate_footer f = - EINVAL"
  using assms by (auto simp: vhd_validate_footer_def)

lemma validate_header_checksum: "vhd_validate_header h = 0 \<Longrightarrow> hdr_checksum h = vhd_checksum_header h"
  by (auto simp: vhd_validate_header_def errno_simps split: if_splits)

lemma validate_header_rejects:
  "hdr_checksum h \<noteq> vhd_checksum_header h \<Longrightarrow> vhd_validate_header h = - EINVAL"
  by (auto simp: vhd_validate_header_def)

lemma validate_footer_range: "vhd_validate_footer f = 0 \<or> vhd_validate_footer f = - EINVAL"
  by (auto simp: vhd_validate_footer_def)

lemma validate_header_range: "vhd_validate_header h = 0 \<or> vhd_validate_header h = - EINVAL"
  by (auto simp: vhd_validate_header_def)

text \<open>The checks do not depend on the byte order in which the record is held.\<close>

lemma checksum_footer_out: "ftr_wf f \<Longrightarrow> vhd_checksum_footer (vhd_footer_out f) = vhd_checksum_footer f"
proof -
  have "le_word (zeros 4) = (0 :: u32)" by (simp add: zeros_def numeral_eq_Suc)
  then have "be32 0 = 0" by (simp add: be32_def bswap_def rev_le_bytes_0)
  then have "vhd_footer_out (f\<lparr>ftr_checksum := 0\<rparr>) = (vhd_footer_out f)\<lparr>ftr_checksum := 0\<rparr>"
    by (simp add: vhd_footer_out_def)
  then show ?thesis
    using byte_sum_ftr_disk [of "f\<lparr>ftr_checksum := 0\<rparr>"]
    by (simp add: vhd_checksum_footer_def ftr_disk_bytes_def)
qed

end
