(* ===== verification/Vhd_Meta.thy ===== *)
theory Vhd_Meta
  imports Vhd_Quiet Vhd_Geometry Vhd_Seal
begin

text \<open>
  Reading and writing the metadata of an open image (\<open>vhd/lib/libvhd.c\<close>): footers, header,
  block allocation table, batmap header and map, and the offsets derived from them
  (\<open>vhd_end_of_headers\<close>, \<open>vhd_end_of_data\<close>, \<open>vhd_offset\<close>). A destination pointer of the C code is
  an argument \<open>put\<close> that stores the value: \<open>put_footer\<close> for \<open>&ctx->footer\<close>, \<open>nowhere\<close> for a local
  variable of the caller, who then uses the returned value.
\<close>

section \<open>Access to the context\<close>

definition with_ctx :: "(vhd_context \<Rightarrow> (vst, 'a) vm) \<Rightarrow> (vst, 'a) vm" where
  "with_ctx f = (\<lambda>s. f (st_ctx s) s)"

definition upd_ctx :: "(vhd_context \<Rightarrow> vhd_context) \<Rightarrow> vst \<Rightarrow> vst" where
  "upd_ctx g s = s\<lparr>st_ctx := g (st_ctx s)\<rparr>"

type_synonym 'a dst = "'a \<Rightarrow> vst \<Rightarrow> vst"

definition nowhere :: "'a dst" where
  "nowhere x s = s"

definition put_footer :: "hd_ftr dst" where
  "put_footer f = upd_ctx (\<lambda>c. c\<lparr>ctx_footer := f\<rparr>)"

definition put_header :: "dd_hdr dst" where
  "put_header h = upd_ctx (\<lambda>c. c\<lparr>ctx_header := h\<rparr>)"

definition put_bat :: "vhd_bat dst" where
  "put_bat b = upd_ctx (\<lambda>c. c\<lparr>ctx_bat := b\<rparr>)"

definition put_batmap :: "vhd_batmap dst" where
  "put_batmap b = upd_ctx (\<lambda>c. c\<lparr>ctx_batmap := b\<rparr>)"

definition put_batmap_header :: "dd_batmap_hdr dst" where
  "put_batmap_header h = upd_ctx (\<lambda>c. c\<lparr>ctx_batmap := (ctx_batmap c)\<lparr>bm_header := h\<rparr>\<rparr>)"

text \<open>The values \<open>memset(..., 0, ...)\<close> leaves.\<close>

definition ftr_zero :: hd_ftr where
  "ftr_zero = ftr_of_bytes (zeros 512)"

definition hdr_zero :: dd_hdr where
  "hdr_zero = hdr_of_bytes (zeros 1024)"

definition bmh_zero :: dd_batmap_hdr where
  "bmh_zero = bmh_of_bytes (zeros 32)"

definition bat_zero :: vhd_bat where
  "bat_zero = \<lparr>bat_spb = 0, bat_entries = 0, bat_bat = None\<rparr>"

definition batmap_zero :: vhd_batmap where
  "batmap_zero = \<lparr>bm_header = bmh_zero, bm_map = None\<rparr>"

text \<open>\<open>err = e; if (err) goto out;\<close> and the clean-up of a \<open>fail:\<close> label.\<close>

definition vstatus :: "int \<Rightarrow> (vst, unit) vm" where
  "vstatus e = (if e = 0 then vret () else vfail e)"

definition vonfail :: "('s, 'a) vm \<Rightarrow> ('s \<Rightarrow> 's) \<Rightarrow> ('s, 'a) vm" where
  "vonfail m g = vcatch m (\<lambda>e. vthen (vmodify g) (vfail e))"

text \<open>\<open>posix_memalign(&buf, VHD_SECTOR_SIZE, size)\<close> and \<open>err = -err\<close>.\<close>

abbreviation valloc_buf :: "(vst, unit) vm" where
  "valloc_buf \<equiv> valloc (- ENOMEM)"

section \<open>Footers\<close>

definition vhd_read_short_footer :: "hd_ftr dst \<Rightarrow> (vst, hd_ftr) vm" where
  "vhd_read_short_footer put =
     vthen (vhd_seek 0 SEEK_END)
       (vbind vhd_position (\<lambda>eof.
          case eof of None \<Rightarrow> (\<lambda>s. (Inl (Errno (- get_errno s)), s))
          | Some eof \<Rightarrow>
              vthen (vhd_seek (int eof - 511) SEEK_SET)
                (vthen valloc_buf
                   (vbind (vhd_read_buf (zeros 512) 512) (\<lambda>(_, buf).
                      let f = vhd_footer_in (ftr_of_bytes buf)
                      in vthen (vmodify (put f)) (vthen (vstatus (vhd_validate_footer f)) (vret f)))))))"

definition vhd_read_footer_at :: "hd_ftr dst \<Rightarrow> int \<Rightarrow> (vst, hd_ftr) vm" where
  "vhd_read_footer_at put off =
     vthen (vhd_seek off SEEK_SET)
       (vthen valloc_buf
          (vbind (vhd_read 512) (\<lambda>buf.
             let f = vhd_footer_in (ftr_of_bytes buf)
             in vthen (vmodify (put f)) (vthen (vstatus (vhd_validate_footer f)) (vret f)))))"

definition vhd_read_footer :: "hd_ftr dst \<Rightarrow> (vst, hd_ftr) vm" where
  "vhd_read_footer put =
     vthen (vhd_seek 0 SEEK_END)
       (vbind vhd_position (\<lambda>off.
          case off of None \<Rightarrow> (\<lambda>s. (Inl (Errno (- get_errno s)), s))
          | Some off \<Rightarrow>
              vcatch (vhd_read_footer_at put (int off - 512)) (\<lambda>err.
                if err \<noteq> - EINVAL then vfail err
                else vcatch (vhd_read_short_footer put) (\<lambda>err.
                  if err \<noteq> - EINVAL then vfail err
                  else vhd_read_footer_at put 0))))"

definition vhd_get_footer :: "(vst, unit) vm" where
  "vhd_get_footer = with_ctx (\<lambda>ctx.
     if vhd_validate_footer (ctx_footer ctx) = 0 then vret ()
     else vthen (vhd_read_footer put_footer) (vret ()))"

definition vhd_put_footer :: "(vst, unit) vm" where
  "vhd_put_footer = vmodify (put_footer ftr_zero)"

definition vhd_hidden :: "(vst, u8) vm" where
  "vhd_hidden = with_ctx (\<lambda>ctx.
     if vhd_type_dynamic ctx \<and> vhd_creator_tapdisk ctx \<and>
        (ftr_crtr_ver (ctx_footer ctx) = VHD_VERSION 0 1 \<or>
         ftr_crtr_ver (ctx_footer ctx) = VHD_VERSION 1 1)
     then vbind (vhd_read_footer_at nowhere 0) (\<lambda>copy. vret (ftr_hidden copy))
     else vret (ftr_hidden (ctx_footer ctx)))"

text \<open>\<open>return errno\<close>, not \<open>-errno\<close>; and \<open>vhd_position\<close> is not checked, so that a failed
  \<open>lseek\<close> gives the offset -1 - 512.\<close>

definition vhd_footer_offset_at_eof :: "(vst, int) vm" where
  "vhd_footer_offset_at_eof =
     vthen (vcatch (vhd_seek 0 SEEK_END) (\<lambda>_ s. (Inl (Errno (get_errno s)), s)))
       (vbind vhd_position (\<lambda>p.
          vret ((case p of None \<Rightarrow> - 1 | Some p \<Rightarrow> int p) - 512)))"

definition vhd_write_footer_at :: "hd_ftr \<Rightarrow> int \<Rightarrow> (vst, unit) vm" where
  "vhd_write_footer_at footer off =
     vthen valloc_buf
       (let f = footer\<lparr>ftr_checksum := vhd_checksum_footer footer\<rparr>
        in vthen (vstatus (vhd_validate_footer f))
             (vthen (vhd_seek off SEEK_SET) (vhd_write (ftr_bytes (vhd_footer_out f)))))"

section \<open>The header\<close>

definition vhd_read_header_at :: "dd_hdr dst \<Rightarrow> int \<Rightarrow> (vst, dd_hdr) vm" where
  "vhd_read_header_at put off = with_ctx (\<lambda>ctx.
     if \<not> vhd_type_dynamic ctx then vfail (- EINVAL)
     else vthen (vhd_seek off SEEK_SET)
       (vthen valloc_buf
          (vbind (vhd_read 1024) (\<lambda>buf.
             let h = vhd_header_in (hdr_of_bytes buf)
             in vthen (vmodify (put h)) (vthen (vstatus (vhd_validate_header h)) (vret h))))))"

definition vhd_read_header :: "dd_hdr dst \<Rightarrow> (vst, dd_hdr) vm" where
  "vhd_read_header put = with_ctx (\<lambda>ctx.
     if \<not> vhd_type_dynamic ctx then vfail (- EINVAL)
     else vhd_read_header_at put (sint (ftr_data_offset (ctx_footer ctx))))"

definition vhd_get_header :: "(vst, unit) vm" where
  "vhd_get_header = with_ctx (\<lambda>ctx.
     if \<not> vhd_type_dynamic ctx then vfail (- EINVAL)
     else if vhd_validate_header (ctx_header ctx) = 0 then vret ()
     else vthen (vhd_read_header put_header) (vret ()))"

definition vhd_put_header :: "(vst, unit) vm" where
  "vhd_put_header = vmodify (put_header hdr_zero)"

definition vhd_write_header_at :: "dd_hdr \<Rightarrow> int \<Rightarrow> (vst, unit) vm" where
  "vhd_write_header_at header off = with_ctx (\<lambda>ctx.
     if \<not> vhd_type_dynamic ctx then vfail (- EINVAL)
     else vthen valloc_buf
       (let h = header\<lparr>hdr_checksum := vhd_checksum_header header\<rparr>
        in vthen (vstatus (vhd_validate_header h))
             (vthen (vhd_seek off SEEK_SET) (vhd_write (hdr_bytes (vhd_header_out h))))))"

definition vhd_write_header :: "dd_hdr \<Rightarrow> (vst, unit) vm" where
  "vhd_write_header header = with_ctx (\<lambda>ctx.
     if \<not> vhd_type_dynamic ctx then vfail (- EINVAL)
     else vhd_write_header_at header (sint (ftr_data_offset (ctx_footer ctx))))"

section \<open>The block allocation table\<close>

definition bat_bytes :: "u32 list \<Rightarrow> bytes" where
  "bat_bytes ws = concat (map (le_bytes 4) ws)"

definition bat_of_bytes :: "bytes \<Rightarrow> u32 list" where
  "bat_of_bytes bs = map (\<lambda>i. le_word (field (4 * i) 4 bs)) [0..<length bs div 4]"

text \<open>\<open>curr_size >> VHD_BLOCK_SHIFT\<close>, stored in 32 bits: the last block counts only if complete.\<close>

definition vhd_blks :: "vhd_context \<Rightarrow> u32" where
  "vhd_blks ctx = ucast (drop_bit VHD_BLOCK_SHIFT (ftr_curr_size (ctx_footer ctx)))"

definition vhd_read_bat :: "vhd_bat dst \<Rightarrow> (vst, vhd_bat) vm" where
  "vhd_read_bat put = with_ctx (\<lambda>ctx. vonfail
     (if \<not> vhd_type_dynamic ctx then vfail (- EINVAL)
      else let off = sint (hdr_table_offset (ctx_header ctx));
               blks = vhd_blks ctx;
               sz = unat (vhd_bytes_padded (ucast blks * 4))
        in vthen (vassert (hdr_max_bat_size (ctx_header ctx) \<ge> blks))
          (vthen valloc_buf
            (vthen (vhd_seek off SEEK_SET)
              (vbind (vhd_read sz) (\<lambda>buf.
                 let b = vhd_bat_in \<lparr>bat_spb = drop_bit VHD_SECTOR_SHIFT (hdr_block_size (ctx_header ctx)),
                           bat_entries = blks, bat_bat = Some (bat_of_bytes buf)\<rparr>
                 in vthen (vmodify (put b)) (vret b))))))
     (put bat_zero))"

definition vhd_put_bat :: "(vst, unit) vm" where
  "vhd_put_bat = with_ctx (\<lambda>ctx.
     if \<not> vhd_type_dynamic ctx then vret () else vmodify (put_bat bat_zero))"

definition vhd_get_bat :: "(vst, unit) vm" where
  "vhd_get_bat = with_ctx (\<lambda>ctx.
     if \<not> vhd_type_dynamic ctx then vfail (- EINVAL)
     else if vhd_validate_bat (ctx_bat ctx) = 0 then vret ()
     else vthen vhd_put_bat (vthen (vhd_read_bat put_bat) (vret ())))"

definition vhd_write_bat :: "vhd_bat \<Rightarrow> (vst, unit) vm" where
  "vhd_write_bat bat = with_ctx (\<lambda>ctx.
     if \<not> vhd_type_dynamic ctx then vfail (- EINVAL)
     else vthen (vstatus (vhd_validate_bat (ctx_bat ctx)))
       (vthen (vstatus (vhd_validate_bat bat))
         (let off = sint (hdr_table_offset (ctx_header ctx));
              sz = unat (vhd_bytes_padded (ucast (bat_entries bat) * 4));
              ws = (case bat_bat bat of None \<Rightarrow> [] | Some ws \<Rightarrow> ws)
          in vthen (vhd_seek off SEEK_SET)
               (vthen valloc_buf
                 (vthen (vdefined (sz \<le> 4 * length ws))
                   (let b = vhd_bat_out (bat\<lparr>bat_bat := Some (take (sz div 4) ws)\<rparr>)
                    in vhd_write (bat_bytes (case bat_bat b of None \<Rightarrow> [] | Some ws \<Rightarrow> ws))))))))"

section \<open>The batmap\<close>

definition vhd_read_batmap_header :: "dd_batmap_hdr dst \<Rightarrow> (vst, dd_batmap_hdr) vm" where
  "vhd_read_batmap_header put = with_ctx (\<lambda>ctx. vonfail
     (vthen (vhd_seek (sint (vhd_batmap_header_offset ctx)) SEEK_SET)
       (vthen valloc_buf
         (vbind (vhd_read (unat (vhd_bytes_padded 32))) (\<lambda>buf.
            let h = bm_header (vhd_batmap_header_in
                      \<lparr>bm_header = bmh_of_bytes (field 0 32 buf), bm_map = None\<rparr>)
            in vthen (vmodify (put h)) (vret h)))))
     (put bmh_zero))"

definition vhd_read_batmap_map :: "dd_batmap_hdr \<Rightarrow> bytes option dst \<Rightarrow> (vst, bytes) vm" where
  "vhd_read_batmap_map header put = with_ctx (\<lambda>ctx.
     vthen (vassert (vhd_sectors_to_bytes (ucast (bmh_batmap_size header)) \<ge> batmap_map_size ctx))
       (vonfail
         (vthen valloc_buf
           (vthen (vhd_seek (sint (bmh_batmap_offset header)) SEEK_SET)
             (vbind (vhd_read (unat (batmap_map_size ctx))) (\<lambda>buf.
                vthen (vmodify (put (Some buf))) (vret buf)))))
         (put None)))"

definition vhd_has_batmap :: "(vst, bool) vm" where
  "vhd_has_batmap = with_ctx (\<lambda>ctx.
     if \<not> vhd_type_dynamic ctx then vret False
     else if \<not> vhd_creator_tapdisk ctx then vret False
     else if ftr_crtr_ver (ctx_footer ctx) \<le> VHD_VERSION 0 1 then vret False
     else if ftr_crtr_ver (ctx_footer ctx) \<ge> VHD_VERSION 1 2 then vret True
     else if vhd_validate_batmap_header (ctx_batmap ctx) = 0 then vret True
     else vcatch
       (vthen (vhd_read_batmap_header put_batmap_header)
         (with_ctx (\<lambda>ctx. vret (vhd_validate_batmap_header (ctx_batmap ctx) = 0))))
       (\<lambda>_. vret False))"

text \<open>\<open>vhd_checksum_batmap\<close> reads \<open>map_size\<close> bytes of the map, whatever the length of the buffer.\<close>

definition batmap_readable :: "vhd_context \<Rightarrow> vhd_batmap \<Rightarrow> bool" where
  "batmap_readable ctx b =
     (case bm_map b of None \<Rightarrow> False | Some m \<Rightarrow> unat (batmap_map_size ctx) \<le> length m)"

definition vhd_read_batmap :: "vhd_batmap dst \<Rightarrow> (vst, vhd_batmap) vm" where
  "vhd_read_batmap put = vbind vhd_has_batmap (\<lambda>hb.
     if \<not> hb then vfail (- EINVAL)
     else vthen (vmodify (put batmap_zero))
       (vbind (vhd_read_batmap_header (\<lambda>h. put \<lparr>bm_header = h, bm_map = None\<rparr>)) (\<lambda>h.
          vthen (vstatus (vhd_validate_batmap_header \<lparr>bm_header = h, bm_map = None\<rparr>))
            (vbind (vhd_read_batmap_map h (\<lambda>m. put \<lparr>bm_header = h, bm_map = m\<rparr>)) (\<lambda>m.
               let b = \<lparr>bm_header = h, bm_map = Some m\<rparr>
               in with_ctx (\<lambda>ctx.
                    vthen (vonfail (vstatus (vhd_validate_batmap ctx b)) (put batmap_zero))
                      (vret b)))))))"

definition vhd_put_batmap :: "(vst, unit) vm" where
  "vhd_put_batmap = with_ctx (\<lambda>ctx.
     if \<not> vhd_type_dynamic ctx then vret ()
     else vbind vhd_has_batmap (\<lambda>hb. if \<not> hb then vret () else vmodify (put_batmap batmap_zero)))"

definition vhd_get_batmap :: "(vst, unit) vm" where
  "vhd_get_batmap = vbind vhd_has_batmap (\<lambda>hb.
     if \<not> hb then vfail (- EINVAL)
     else with_ctx (\<lambda>ctx.
       vthen (vdefined (bm_map (ctx_batmap ctx) \<noteq> None \<longrightarrow> batmap_readable ctx (ctx_batmap ctx)))
         (if vhd_validate_batmap ctx (ctx_batmap ctx) = 0 then vret ()
          else vthen vhd_put_batmap (vthen (vhd_read_batmap put_batmap) (vret ())))))"

text \<open>The tests \<open>block >= batmap_size << 12\<close> are on 32 bits; the map must hold the byte tested.\<close>

definition batmap_index_ok :: "vhd_batmap \<Rightarrow> u32 \<Rightarrow> bool" where
  "batmap_index_ok b block \<longleftrightarrow>
     block < push_bit (VHD_SECTOR_SHIFT + 3) (bmh_batmap_size (bm_header b))"

definition vhd_batmap_test :: "vhd_batmap \<Rightarrow> u32 \<Rightarrow> (vst, bool) vm" where
  "vhd_batmap_test b block = vbind vhd_has_batmap (\<lambda>hb.
     case bm_map b of None \<Rightarrow> vret False
     | Some m \<Rightarrow>
         if \<not> hb \<or> \<not> batmap_index_ok b block then vret False
         else vthen (vdefined (unat block div 8 < length m)) (vret (test_bit m (unat block))))"

definition vhd_batmap_set :: "vhd_batmap \<Rightarrow> u32 \<Rightarrow> (vst, vhd_batmap) vm" where
  "vhd_batmap_set b block = vbind vhd_has_batmap (\<lambda>hb.
     case bm_map b of None \<Rightarrow> vret b
     | Some m \<Rightarrow>
         if \<not> hb \<or> \<not> batmap_index_ok b block then vret b
         else vthen (vdefined (unat block div 8 < length m))
           (vret (b\<lparr>bm_map := Some (set_bit m (unat block))\<rparr>)))"

definition vhd_batmap_clear :: "vhd_batmap \<Rightarrow> u32 \<Rightarrow> (vst, vhd_batmap) vm" where
  "vhd_batmap_clear b block = vbind vhd_has_batmap (\<lambda>hb.
     case bm_map b of None \<Rightarrow> vret b
     | Some m \<Rightarrow>
         if \<not> hb \<or> \<not> batmap_index_ok b block then vret b
         else vthen (vdefined (unat block div 8 < length m))
           (vret (b\<lparr>bm_map := Some (clear_bit m (unat block))\<rparr>)))"

text \<open>\<open>vhd_batmap_header_out\<close> swaps the caller's structure in place; the swapped batmap is the result.
  The sector written is padded to \<open>sizeof(*batmap)\<close> = 40 bytes rounded up.\<close>

definition vhd_write_batmap_header :: "vhd_batmap \<Rightarrow> (vst, vhd_batmap) vm" where
  "vhd_write_batmap_header b = with_ctx (\<lambda>ctx.
     vthen (vhd_seek (sint (vhd_batmap_header_offset ctx)) SEEK_SET)
       (vthen valloc_buf
         (let b' = vhd_batmap_header_out b
          in vthen (vhd_write (overlay 0 (bmh_bytes (bm_header b'))
                      (zeros (unat (vhd_bytes_padded 40)))))
               (vret b'))))"

text \<open>Every error below the label \<open>out\<close> is logged and 0 returned. The checksum reads the map before
  it is tested for null.\<close>

definition vhd_write_batmap :: "vhd_batmap \<Rightarrow> (vst, unit) vm" where
  "vhd_write_batmap batmap = vcatch
     (vbind vhd_has_batmap (\<lambda>hb.
        if \<not> hb then vfail (- EINVAL)
        else with_ctx (\<lambda>ctx.
          vthen (vdefined (batmap_readable ctx batmap))
            (let b = batmap\<lparr>bm_header := (bm_header batmap)
                       \<lparr>bmh_checksum := vhd_checksum_batmap ctx batmap\<rparr>\<rparr>;
                 map_size = batmap_map_size ctx;
                 m = (case bm_map b of None \<Rightarrow> [] | Some m \<Rightarrow> m)
             in vthen (vstatus (vhd_validate_batmap ctx b))
               (vthen (vassert (vhd_sectors_to_bytes (ucast (bmh_batmap_size (bm_header b))) \<ge> map_size))
                 (vthen (vhd_seek (sint (bmh_batmap_offset (bm_header b))) SEEK_SET)
                   (vthen valloc_buf
                     (vthen (vhd_write (take (unat map_size) m))
                       (vthen (vhd_seek (sint (vhd_batmap_header_offset ctx)) SEEK_SET)
                         (vthen valloc_buf
                           (vhd_write (overlay 0
                              (bmh_bytes (bm_header (vhd_batmap_header_out b)))
                              (zeros (unat (vhd_bytes_padded 32)))))))))))))))
     (\<lambda>_. vret ())"

section \<open>Offsets\<close>

text \<open>\<open>MAX\<close> on two values of type \<open>off64_t\<close>.\<close>

definition max_off :: "u64 \<Rightarrow> u64 \<Rightarrow> u64" where
  "max_off a b = (if sint a > sint b then a else b)"

definition locators_end :: "u64 \<Rightarrow> prt_loc list \<Rightarrow> u64" where
  "locators_end = foldl (\<lambda>eom loc. if loc_code loc = PLAT_CODE_NONE then eom
     else max_off eom (loc_data_offset loc + vhd_parent_locator_size loc))"

definition vhd_end_of_headers :: "(vst, u64) vm" where
  "vhd_end_of_headers = with_ctx (\<lambda>ctx.
     if \<not> vhd_type_dynamic ctx then vret 0
     else let eom = ftr_data_offset (ctx_footer ctx) + 1024;
              bat_byts = (ucast (vhd_bytes_padded (ucast (hdr_max_bat_size (ctx_header ctx)) * 4)) :: u32);
              eom = max_off eom (hdr_table_offset (ctx_header ctx) + ucast bat_byts)
       in vbind vhd_has_batmap (\<lambda>hb.
            vbind (if \<not> hb then vret eom
                   else vthen vhd_get_batmap (with_ctx (\<lambda>ctx.
                     let eom = max_off eom (vhd_batmap_header_offset ctx +
                                 vhd_sectors_to_bytes (ucast (secs_round_up_no_zero 32)));
                         h = bm_header (ctx_batmap ctx)
                     in vret (max_off eom (bmh_batmap_offset h +
                                 vhd_sectors_to_bytes (ucast (bmh_batmap_size h)))))))
              (\<lambda>eom. vret (locators_end eom (hdr_loc (ctx_header ctx))))))"

text \<open>The BAT is scanned with \<open>MAX(blk, max)\<close> where \<open>blk\<close> is unsigned, which makes the comparison
  unsigned.\<close>

definition bat_max :: "u32 \<Rightarrow> u64 \<Rightarrow> u32 list \<Rightarrow> u64" where
  "bat_max blk_secs = foldl (\<lambda>mx blk. if blk = DD_BLK_UNUSED then mx
     else (let b = ucast blk + ucast blk_secs in if b > mx then b else mx))"

definition bat_words :: "vhd_context \<Rightarrow> u32 list" where
  "bat_words ctx = (case bat_bat (ctx_bat ctx) of None \<Rightarrow> [] | Some ws \<Rightarrow> ws)"

definition vhd_end_of_data :: "(vst, u64) vm" where
  "vhd_end_of_data = with_ctx (\<lambda>ctx.
     if \<not> vhd_type_dynamic ctx then
       vthen (vhd_seek 0 SEEK_END)
         (vbind vhd_position (\<lambda>p.
            case p of None \<Rightarrow> (\<lambda>s. (Inl (Errno (- get_errno s)), s))
            | Some p \<Rightarrow> vret (of_nat p - 512)))
     else vbind vhd_end_of_headers (\<lambda>mx.
       vthen vhd_get_bat (with_ctx (\<lambda>ctx.
         vthen (vdefined (unat (bat_entries (ctx_bat ctx)) \<le> length (bat_words ctx)))
           (vret (vhd_sectors_to_bytes (bat_max (ctx_spb ctx + ctx_bm_secs ctx)
              (signed_drop_bit VHD_SECTOR_SHIFT mx)
              (take (unat (bat_entries (ctx_bat ctx))) (bat_words ctx)))))))))"

text \<open>For an image that is not dynamic \<open>vhd_offset\<close> returns the sector as its status and leaves
  \<open>*offset\<close> alone: the pair is the status and what is stored.\<close>

definition vhd_offset :: "u32 \<Rightarrow> (vst, int \<times> u32 option) vm" where
  "vhd_offset sector = with_ctx (\<lambda>ctx.
     if \<not> vhd_type_dynamic ctx then vret (sint sector, None)
     else vthen vhd_get_bat (with_ctx (\<lambda>ctx.
       vthen (vdefined (ctx_spb ctx \<noteq> 0))
         (let block = unat (sector div ctx_spb ctx)
          in vthen (vdefined (block < length (bat_words ctx)))
               (if bat_words ctx ! block = DD_BLK_UNUSED then vret (0, Some DD_BLK_UNUSED)
                else vret (0, Some (bat_words ctx ! block + ctx_bm_secs ctx + sector mod ctx_spb ctx)))))))"

section \<open>Writing the footer and setting the sizes\<close>

definition vhd_write_footer :: "hd_ftr \<Rightarrow> (vst, unit) vm" where
  "vhd_write_footer footer = with_ctx (\<lambda>ctx.
     vbind (if ctx_is_block ctx then vhd_footer_offset_at_eof
            else vbind vhd_end_of_data (\<lambda>w. vret (sint w)))
       (\<lambda>off.
          vthen (vhd_write_footer_at footer off)
            (vthen (if ctx_is_block ctx then vret ()
                    else (\<lambda>s. case ftruncate (off + 512) s of (r, s) \<Rightarrow>
                            (if r = 0 then Inr () else Inl (Errno (- get_errno s)), s)))
              (if \<not> vhd_type_dynamic ctx then vret () else vhd_write_footer_at footer 0))))"

definition vhd_get_phys_size :: "(vst, u64) vm" where
  "vhd_get_phys_size = vbind vhd_end_of_data (\<lambda>sz. vret (sz + 512))"

definition vhd_set_phys_size :: "u64 \<Rightarrow> (vst, unit) vm" where
  "vhd_set_phys_size sz = vbind vhd_get_phys_size (\<lambda>phys_size.
     if sint sz < sint phys_size then vfail (- EINVAL)
     else with_ctx (\<lambda>ctx. vhd_write_footer_at (ctx_footer ctx) (sint (sz - 512))))"

definition vhd_set_virt_size_no_write :: "u64 \<Rightarrow> (vst, unit) vm" where
  "vhd_set_virt_size_no_write sz = with_ctx (\<lambda>ctx.
     if drop_bit VHD_BLOCK_SHIFT sz > ucast (hdr_max_bat_size (ctx_header ctx)) then vfail (- EINVAL)
     else let f = (ctx_footer ctx)\<lparr>ftr_curr_size := sz, ftr_geometry := vhd_chs sz\<rparr>
       in vmodify (put_footer (f\<lparr>ftr_checksum := vhd_checksum_footer f\<rparr>)))"

definition vhd_set_virt_size :: "u64 \<Rightarrow> (vst, unit) vm" where
  "vhd_set_virt_size sz = vthen (vhd_set_virt_size_no_write sz)
     (with_ctx (\<lambda>ctx. vhd_write_footer (ctx_footer ctx)))"

end
