(* ===== verification/Vhd_Meta_Laws.thy ===== *)
theory Vhd_Meta_Laws
  imports Vhd_Meta
begin

text \<open>
  Laws of the metadata operations: every write of a footer, a header, a BAT or a batmap is a
  write through the interface \<open>byte_store\<close>, every read a read through it, so that the round trips
  and the separation of the regions follow from the laws of the interface, under every schedule.
\<close>

named_theorems ctx_simps \<open>projections of updated contexts\<close>

lemma with_ctx_app [vm_simps]: "with_ctx f s = f (st_ctx s) s"
  by (simp add: with_ctx_def)

lemma upd_ctx_simps [ctx_simps, simp]:
  "st_ctx (upd_ctx g s) = g (st_ctx s)" "st_pos (upd_ctx g s) = st_pos s"
  "st_sys (upd_ctx g s) = st_sys s"
  by (simp_all add: upd_ctx_def)

lemma put_simps [ctx_simps, simp]:
  "st_ctx (put_footer f s) = (st_ctx s)\<lparr>ctx_footer := f\<rparr>"
  "st_ctx (put_header h s) = (st_ctx s)\<lparr>ctx_header := h\<rparr>"
  "st_ctx (put_bat b s) = (st_ctx s)\<lparr>ctx_bat := b\<rparr>"
  "st_ctx (put_batmap m s) = (st_ctx s)\<lparr>ctx_batmap := m\<rparr>"
  "st_sys (put_footer f s) = st_sys s" "st_sys (put_header h s) = st_sys s"
  "st_sys (put_bat b s) = st_sys s" "st_sys (put_batmap m s) = st_sys s"
  "st_sys (put_batmap_header x s) = st_sys s"
  "st_pos (put_footer f s) = st_pos s" "st_pos (put_header h s) = st_pos s"
  "st_pos (put_bat b s) = st_pos s" "st_pos (put_batmap m s) = st_pos s"
  "nowhere x s = s"
  by (simp_all add: put_footer_def put_header_def put_bat_def put_batmap_def put_batmap_header_def
      nowhere_def)

lemma vstatus_ok: "vstatus e s = (Inr u, t) \<longleftrightarrow> e = 0 \<and> t = s"
  by (auto simp: vstatus_def vm_simps)

lemma vstatus_0 [simp]: "vstatus 0 = vret ()"
  by (simp add: vstatus_def)

lemma valloc_ok: "valloc e s = (Inr u, t) \<Longrightarrow> same_files s t \<and> st_pos t = st_pos s"
  by (auto simp: valloc_def same_files_def split: list.splits if_splits)

lemma vret_ok [simp]: "vret x s = (Inr y, t) \<longleftrightarrow> y = x \<and> t = s"
  by (auto simp: vret_def)

lemma vfail_not_ok [simp]: "vfail e s \<noteq> (Inr y, t)" "vraise v s \<noteq> (Inr y, t)"
  by (simp_all add: vraise_def)

lemma vdefined_ok [simp]: "vdefined b s = (Inr u, t) \<longleftrightarrow> b \<and> t = s"
  by (auto simp: vdefined_def vm_simps)

lemma vassert_ok [simp]: "vassert b s = (Inr u, t) \<longleftrightarrow> b \<and> t = s"
  by (auto simp: vassert_def vm_simps)

lemma vmodify_ok [simp]: "vmodify f s = (Inr u, t) \<longleftrightarrow> t = f s"
  by (auto simp: vm_simps)

lemma vonfail_ok [simp]: "vonfail m g s = (Inr x, t) \<longleftrightarrow> m s = (Inr x, t)"
  by (auto simp: vonfail_def vcatch_def vm_simps split: prod.splits sum.splits verr.splits)

lemma same_files_sym: "same_files s t \<Longrightarrow> same_files t s"
  by (simp add: same_files_def)

section \<open>Writing metadata is writing through the store\<close>

lemma write_footer_at_store:
  assumes "vhd_write_footer_at f off s = (Inr u, t)"
  obtains s' where "same_files s s'" and "0 \<le> off"
    and "write_at (nat off) (ftr_disk_bytes (f\<lparr>ftr_checksum := vhd_checksum_footer f\<rparr>)) s' = (Inr (), t)"
    and "vhd_validate_footer (f\<lparr>ftr_checksum := vhd_checksum_footer f\<rparr>) = 0"
proof -
  let ?f = "f\<lparr>ftr_checksum := vhd_checksum_footer f\<rparr>"
  from assms obtain s1 s2 where 1: "valloc_buf s = (Inr (), s1)" and v: "vhd_validate_footer ?f = 0"
    and 2: "vhd_seek off SEEK_SET s1 = (Inr (), s2)"
    and 3: "vhd_write (ftr_bytes (vhd_footer_out ?f)) s2 = (Inr (), t)"
    by (auto simp: vhd_write_footer_at_def Let_def vstatus_ok elim!: vbind_okE)
  from vhd_seek_ok [OF 2] have "0 \<le> off" by simp
  moreover from 2 3 \<open>0 \<le> off\<close> have "write_at (nat off) (ftr_disk_bytes ?f) s1 = (Inr (), t)"
    by (simp add: write_at_def vbind_ok ftr_disk_bytes_def)
  ultimately show thesis using that valloc_ok [OF 1] v by blast
qed

lemma write_header_at_store:
  assumes "vhd_write_header_at h off s = (Inr u, t)"
  obtains s' where "same_files s s'" and "0 \<le> off" and "vhd_type_dynamic (st_ctx s)"
    and "write_at (nat off) (hdr_disk_bytes (h\<lparr>hdr_checksum := vhd_checksum_header h\<rparr>)) s' = (Inr (), t)"
    and "vhd_validate_header (h\<lparr>hdr_checksum := vhd_checksum_header h\<rparr>) = 0"
proof -
  let ?h = "h\<lparr>hdr_checksum := vhd_checksum_header h\<rparr>"
  from assms obtain s1 s2 where 1: "valloc_buf s = (Inr (), s1)" and v: "vhd_validate_header ?h = 0"
    and 2: "vhd_seek off SEEK_SET s1 = (Inr (), s2)" and d: "vhd_type_dynamic (st_ctx s)"
    and 3: "vhd_write (hdr_bytes (vhd_header_out ?h)) s2 = (Inr (), t)"
    by (auto simp: vhd_write_header_at_def Let_def vstatus_ok with_ctx_app split: if_splits
        elim!: vbind_okE)
  from vhd_seek_ok [OF 2] have "0 \<le> off" by simp
  moreover from 2 3 \<open>0 \<le> off\<close> have "write_at (nat off) (hdr_disk_bytes ?h) s1 = (Inr (), t)"
    by (simp add: write_at_def vbind_ok hdr_disk_bytes_def)
  ultimately show thesis using that valloc_ok [OF 1] v d by blast
qed

lemma read_footer_at_store:
  assumes "vhd_read_footer_at put off s = (Inr f, t)"
  obtains s1 bs t1 where "same_files s s1" and "0 \<le> off" and "read_at (nat off) 512 s1 = (Inr bs, t1)"
    and "f = ftr_of_disk bs" and "length bs = 512" and "vhd_validate_footer f = 0" and "t = put f t1"
proof -
  from assms obtain s1 s2 bs t1 where 1: "vhd_seek off SEEK_SET s = (Inr (), s1)"
    and 2: "valloc_buf s1 = (Inr (), s2)" and 3: "vhd_read 512 s2 = (Inr bs, t1)"
    and f: "f = ftr_of_disk bs" and v: "vhd_validate_footer f = 0" and t: "t = put f t1"
    by (auto simp: vhd_read_footer_at_def Let_def vstatus_ok ftr_of_disk_def elim!: vbind_okE)
  from vhd_seek_ok [OF 1] valloc_ok [OF 2] have sf: "same_files s s2" and p: "st_pos s2 = nat off"
    and nn: "0 \<le> off" and cf: "\<exists>g. cur_file s2 = Some g"
    by (auto intro: same_files_trans simp: same_files_cur)
  from vhd_read_ok [OF 3] have "length bs = 512" by auto
  define s3 where "s3 = s2\<lparr>st_sys := (st_sys s2)\<lparr>sys_sched := Full # sys_sched (st_sys s2)\<rparr>\<rparr>"
  from cf p have "vhd_seek (int (nat off)) SEEK_SET s3 = (Inr (), s2)"
    by (auto simp: vhd_seek_def lseek64_def take_ev_def s3_def cur_file_def)
  then have "read_at (nat off) 512 s3 = (Inr bs, t1)"
    using 3 by (simp add: read_at_def vbind_ok)
  moreover have "same_files s s3" using sf by (simp add: same_files_def s3_def)
  ultimately show thesis using that nn f v t \<open>length bs = 512\<close> by blast
qed

lemma read_header_at_store:
  assumes "vhd_read_header_at put off s = (Inr h, t)"
  obtains s1 bs t1 where "same_files s s1" and "0 \<le> off" and "read_at (nat off) 1024 s1 = (Inr bs, t1)"
    and "h = hdr_of_disk bs" and "length bs = 1024" and "vhd_validate_header h = 0" and "t = put h t1"
proof -
  from assms obtain s1 s2 bs t1 where 1: "vhd_seek off SEEK_SET s = (Inr (), s1)"
    and 2: "valloc_buf s1 = (Inr (), s2)" and 3: "vhd_read 1024 s2 = (Inr bs, t1)"
    and f: "h = hdr_of_disk bs" and v: "vhd_validate_header h = 0" and t: "t = put h t1"
    by (auto simp: vhd_read_header_at_def Let_def vstatus_ok hdr_of_disk_def with_ctx_app
        split: if_splits elim!: vbind_okE)
  from vhd_seek_ok [OF 1] valloc_ok [OF 2] have sf: "same_files s s2" and p: "st_pos s2 = nat off"
    and nn: "0 \<le> off" and cf: "\<exists>g. cur_file s2 = Some g"
    by (auto intro: same_files_trans simp: same_files_cur)
  from vhd_read_ok [OF 3] have "length bs = 1024" by auto
  define s3 where "s3 = s2\<lparr>st_sys := (st_sys s2)\<lparr>sys_sched := Full # sys_sched (st_sys s2)\<rparr>\<rparr>"
  from cf p have "vhd_seek (int (nat off)) SEEK_SET s3 = (Inr (), s2)"
    by (auto simp: vhd_seek_def lseek64_def take_ev_def s3_def cur_file_def)
  then have "read_at (nat off) 1024 s3 = (Inr bs, t1)"
    using 3 by (simp add: read_at_def vbind_ok)
  moreover have "same_files s s3" using sf by (simp add: same_files_def s3_def)
  ultimately show thesis using that nn f v t \<open>length bs = 1024\<close> by blast
qed

lemma length_ftr_disk [simp]: "ftr_wf f \<Longrightarrow> length (ftr_disk_bytes f) = 512"
  by (simp add: ftr_seal.length_enc)

lemma length_hdr_disk [simp]: "hdr_wf h \<Longrightarrow> length (hdr_disk_bytes h) = 1024"
  by (simp add: hdr_seal.length_enc)

text \<open>The effect of a successful write on the file.\<close>

lemma write_footer_at_file:
  assumes "vhd_write_footer_at f off s = (Inr u, t)" and "ftr_wf f"
  shows "\<exists>g. cur_file s = Some g \<and> st_ctx t = st_ctx s \<and> 0 \<le> off \<and>
    cur_file t = Some (file_write g (nat off) (ftr_disk_bytes (f\<lparr>ftr_checksum := vhd_checksum_footer f\<rparr>)))"
proof -
  let ?f = "f\<lparr>ftr_checksum := vhd_checksum_footer f\<rparr>"
  from assms(1) obtain s' where sf: "same_files s s'" and nn: "0 \<le> off"
    and w: "write_at (nat off) (ftr_disk_bytes ?f) s' = (Inr (), t)"
    by (rule write_footer_at_store)
  have "ftr_wf ?f" using assms(2) by (simp add: ftr_wf_def)
  then have "ftr_disk_bytes ?f \<noteq> []" using length_ftr_disk [of ?f] by force
  from seek_store.wr_ok [OF w this] same_files_cur [OF sf] sf nn show ?thesis
    by (auto simp: same_files_def cur_file_def)
qed

lemma write_header_at_file:
  assumes "vhd_write_header_at h off s = (Inr u, t)" and "hdr_wf h"
  shows "\<exists>g. cur_file s = Some g \<and> st_ctx t = st_ctx s \<and> 0 \<le> off \<and>
    cur_file t = Some (file_write g (nat off) (hdr_disk_bytes (h\<lparr>hdr_checksum := vhd_checksum_header h\<rparr>)))"
proof -
  let ?h = "h\<lparr>hdr_checksum := vhd_checksum_header h\<rparr>"
  from assms(1) obtain s' where sf: "same_files s s'" and nn: "0 \<le> off"
    and w: "write_at (nat off) (hdr_disk_bytes ?h) s' = (Inr (), t)"
    by (rule write_header_at_store)
  have "hdr_wf ?h" using assms(2) by (simp add: hdr_wf_def)
  then have "hdr_disk_bytes ?h \<noteq> []" using length_hdr_disk [of ?h] by force
  from seek_store.wr_ok [OF w this] same_files_cur [OF sf] sf nn show ?thesis
    by (auto simp: same_files_def cur_file_def)
qed

text \<open>The value of a successful read, as a function of the file.\<close>

lemma read_footer_at_file:
  assumes "vhd_read_footer_at put off s = (Inr f, t)"
  shows "\<exists>g. cur_file s = Some g \<and> 0 \<le> off \<and> nat off + 512 \<le> f_size g \<and>
    f = ftr_of_disk (file_read g (nat off) 512) \<and> vhd_validate_footer f = 0"
proof -
  from assms obtain s1 bs t1 where sf: "same_files s s1" and nn: "0 \<le> off"
    and r: "read_at (nat off) 512 s1 = (Inr bs, t1)"
    and f: "f = ftr_of_disk bs" "vhd_validate_footer f = 0" by (rule read_footer_at_store)
  from seek_store.rd_ok [OF r] same_files_cur [OF sf] nn f show ?thesis by auto
qed

lemma read_header_at_file:
  assumes "vhd_read_header_at put off s = (Inr h, t)"
  shows "\<exists>g. cur_file s = Some g \<and> 0 \<le> off \<and> nat off + 1024 \<le> f_size g \<and>
    h = hdr_of_disk (file_read g (nat off) 1024) \<and> vhd_validate_header h = 0"
proof -
  from assms obtain s1 bs t1 where sf: "same_files s s1" and nn: "0 \<le> off"
    and r: "read_at (nat off) 1024 s1 = (Inr bs, t1)"
    and f: "h = hdr_of_disk bs" "vhd_validate_header h = 0" by (rule read_header_at_store)
  from seek_store.rd_ok [OF r] same_files_cur [OF sf] nn f show ?thesis by auto
qed

lemma file_read_write_same: "file_read (file_write f off bs) off (length bs) = bs"
  by (auto simp: file_write_def file_read_def intro: nth_equalityI)

lemma file_read_write_disjoint:
  assumes "off' + n \<le> off \<or> off + length bs \<le> off'" and "off' + n \<le> f_size f"
  shows "file_read (file_write f off bs) off' n = file_read f off' n"
  using assms by (auto simp: file_write_def file_read_def)

text \<open>Footer and header read back as they were written, with the seal.\<close>

lemma footer_at_roundtrip:
  assumes "vhd_write_footer_at f off s = (Inr u, t)" and "ftr_wf f"
    and "vhd_read_footer_at put off t = (Inr g, t')"
  shows "g = f\<lparr>ftr_checksum := vhd_checksum_footer f\<rparr>"
proof -
  let ?f = "f\<lparr>ftr_checksum := vhd_checksum_footer f\<rparr>"
  have wf: "ftr_wf ?f" using assms(2) by (simp add: ftr_wf_def)
  from write_footer_at_file [OF assms(1,2)] read_footer_at_file [OF assms(3)]
    file_read_write_same [of _ "nat off" "ftr_disk_bytes ?f"] wf
  have "g = ftr_of_disk (ftr_disk_bytes ?f)" by auto
  with wf show ?thesis by (simp add: ftr_seal.dec_enc)
qed

lemma header_at_roundtrip:
  assumes "vhd_write_header_at h off s = (Inr u, t)" and "hdr_wf h"
    and "vhd_read_header_at put off t = (Inr g, t')"
  shows "g = h\<lparr>hdr_checksum := vhd_checksum_header h\<rparr>"
proof -
  let ?h = "h\<lparr>hdr_checksum := vhd_checksum_header h\<rparr>"
  have wf: "hdr_wf ?h" using assms(2) by (simp add: hdr_wf_def)
  from write_header_at_file [OF assms(1,2)] read_header_at_file [OF assms(3)]
    file_read_write_same [of _ "nat off" "hdr_disk_bytes ?h"] wf
  have "g = hdr_of_disk (hdr_disk_bytes ?h)" by auto
  with wf show ?thesis by (simp add: hdr_seal.dec_enc)
qed

end
