(* ===== verification/Vhd_Meta_Quiet.thy ===== *)
theory Vhd_Meta_Quiet
  imports Vhd_Meta_Laws
begin

text \<open>
  The metadata operations on an undisturbed system (\<open>quiet\<close>: no interruption, no failure), as
  equations that give the result and the final state. \<open>st_with p f s\<close> is the state \<open>s\<close> with the
  file offset \<open>p\<close>, the file \<open>f\<close> and \<open>errno\<close> 0: the form every read and write leaves behind.
\<close>

definition st_with :: "nat \<Rightarrow> vfile \<Rightarrow> vst \<Rightarrow> vst" where
  "st_with p f s = at_pos p (set_cur_file f (set_errno 0 s))"

lemma st_with_simps [simp]:
  "st_pos (st_with p f s) = p" "st_ctx (st_with p f s) = st_ctx s"
  "cur_file (st_with p f s) = Some f" "quiet (st_with p f s) = quiet s"
  by (simp_all add: st_with_def)

lemma set_cur_file_set_cur_file [simp]: "set_cur_file f (set_cur_file g s) = set_cur_file f s"
  by (simp add: set_cur_file_def)

lemma set_cur_file_commute [simp]:
  "set_cur_file f (at_pos p s) = at_pos p (set_cur_file f s)"
  "set_errno e (set_cur_file f s) = set_cur_file f (set_errno e s)"
  by (simp_all add: set_cur_file_def at_pos_def set_errno_def)

lemma st_with_st_with [simp]:
  "st_with p f (st_with q g s) = st_with p f s" "st_with p f (at_pos q s) = st_with p f s"
  "st_with p f (set_errno e s) = st_with p f s" "at_pos q (st_with p f s) = st_with q f s"
  "set_errno 0 (st_with p f s) = st_with p f s"
  by (simp_all add: st_with_def)

lemma st_with_self: "cur_file s = Some f \<Longrightarrow> at_pos p (set_errno 0 s) = st_with p f s"
  by (simp add: st_with_def at_pos_def set_cur_file_def set_errno_def cur_file_def fun_upd_idem)

lemma st_with_upd_ctx:
  assumes "ctx_file (g (st_ctx s)) = ctx_file (st_ctx s)"
  shows "st_with p f (upd_ctx g s) = upd_ctx g (st_with p f s)"
  using assms by (simp add: st_with_def upd_ctx_def at_pos_def set_cur_file_def set_errno_def)

lemma quiet_upd_ctx [simp]: "quiet (upd_ctx g s) = quiet s"
  by (simp add: quiet_def upd_ctx_def)

lemma cur_file_upd_ctx:
  "ctx_file (g (st_ctx s)) = ctx_file (st_ctx s) \<Longrightarrow> cur_file (upd_ctx g s) = cur_file s"
  by (simp add: cur_file_def upd_ctx_def)

section \<open>Seek, read and write\<close>

lemma seek_quiet:
  "quiet s \<Longrightarrow> cur_file s = Some f \<Longrightarrow> 0 \<le> off \<Longrightarrow> vhd_seek off SEEK_SET s = (Inr (), at_pos (nat off) s)"
  by (simp add: vhd_seek_quiet)

lemma read_here_quiet:
  assumes "quiet s" and "cur_file s = Some f" and "st_pos s + n \<le> f_size f" and "0 < n"
  shows "vhd_read n s = (Inr (file_read f (st_pos s) n), st_with (st_pos s + n) f s)"
  using assms by (simp add: vhd_read_quiet [where f = f] st_with_self [where f = f])

lemma write_here_quiet:
  assumes "quiet s" and "cur_file s = Some f" and "bs \<noteq> []"
    and "f_blk f \<Longrightarrow> st_pos s + length bs \<le> f_size f"
  shows "vhd_write bs s = (Inr (), st_with (st_pos s + length bs) (file_write f (st_pos s) bs) s)"
  using assms by (simp add: vhd_write_quiet [where f = f] st_with_def)

lemmas io_quiet = seek_quiet read_here_quiet write_here_quiet valloc_quiet

section \<open>Footers and headers\<close>

lemma write_footer_at_quiet:
  assumes "quiet s" and "cur_file s = Some g" and "0 \<le> off" and "ftr_wf f"
    and "ftr_cookie f = HD_COOKIE \<or> ftr_cookie f = VHD_POISON_COOKIE"
    and "f_blk g \<Longrightarrow> nat off + 512 \<le> f_size g"
  shows "vhd_write_footer_at f off s = (Inr (), st_with (nat off + 512)
    (file_write g (nat off) (ftr_disk_bytes (f\<lparr>ftr_checksum := vhd_checksum_footer f\<rparr>))) s)"
proof -
  let ?f = "f\<lparr>ftr_checksum := vhd_checksum_footer f\<rparr>"
  have "ftr_wf ?f" using assms(4) by (simp add: ftr_wf_def)
  then have l: "length (ftr_disk_bytes ?f) = 512" by simp
  then have ne: "ftr_disk_bytes ?f \<noteq> []" by force
  have v: "vhd_validate_footer ?f = 0" using assms(4,5) by (rule validate_sealed_footer)
  show ?thesis
    using assms(1-3,6) l ne v
    by (simp add: vhd_write_footer_at_def vbind_def Let_def vret_def valloc_quiet seek_quiet
        write_here_quiet [where f = g] flip: ftr_disk_bytes_def)
qed

lemma read_footer_at_quiet:
  assumes "quiet s" and "cur_file s = Some g" and "0 \<le> off" and "nat off + 512 \<le> f_size g"
  shows "vhd_read_footer_at put off s =
    (let f = ftr_of_disk (file_read g (nat off) 512) in
     (if vhd_validate_footer f = 0 then Inr f else Inl (Errno (- EINVAL)),
      put f (st_with (nat off + 512) g s)))"
  using assms validate_footer_range
  by (auto simp: vhd_read_footer_at_def vbind_def Let_def vm_simps valloc_quiet seek_quiet
      read_here_quiet [where f = g] ftr_of_disk_def vstatus_def)

lemma write_header_at_quiet:
  assumes "quiet s" and "cur_file s = Some g" and "0 \<le> off" and "hdr_wf h"
    and "vhd_type_dynamic (st_ctx s)"
    and "vhd_validate_header (h\<lparr>hdr_checksum := vhd_checksum_header h\<rparr>) = 0"
    and "f_blk g \<Longrightarrow> nat off + 1024 \<le> f_size g"
  shows "vhd_write_header_at h off s = (Inr (), st_with (nat off + 1024)
    (file_write g (nat off) (hdr_disk_bytes (h\<lparr>hdr_checksum := vhd_checksum_header h\<rparr>))) s)"
proof -
  let ?h = "h\<lparr>hdr_checksum := vhd_checksum_header h\<rparr>"
  have "hdr_wf ?h" using assms(4) by (simp add: hdr_wf_def)
  then have l: "length (hdr_disk_bytes ?h) = 1024" by simp
  then have ne: "hdr_disk_bytes ?h \<noteq> []" by force
  show ?thesis
    using assms(1-3,5-7) l ne
    by (simp add: vhd_write_header_at_def with_ctx_app vbind_def Let_def vret_def valloc_quiet
        seek_quiet write_here_quiet [where f = g] flip: hdr_disk_bytes_def)
qed

lemma read_header_at_quiet:
  assumes "quiet s" and "cur_file s = Some g" and "0 \<le> off" and "nat off + 1024 \<le> f_size g"
    and "vhd_type_dynamic (st_ctx s)"
  shows "vhd_read_header_at put off s =
    (let h = hdr_of_disk (file_read g (nat off) 1024) in
     (if vhd_validate_header h = 0 then Inr h else Inl (Errno (- EINVAL)),
      put h (st_with (nat off + 1024) g s)))"
  using assms validate_header_range
  by (auto simp: vhd_read_header_at_def with_ctx_app vbind_def Let_def vm_simps valloc_quiet seek_quiet
      read_here_quiet [where f = g] hdr_of_disk_def vstatus_def)

section \<open>The block allocation table\<close>

lemma length_bat_bytes [simp]: "length (bat_bytes ws) = 4 * length ws"
  by (induction ws) (simp_all add: bat_bytes_def)

lemma field_bat_bytes: "i < length ws \<Longrightarrow> field (4 * i) 4 (bat_bytes ws) = le_bytes 4 (ws ! i)"
proof (induction ws arbitrary: i)
  case Nil
  then show ?case by simp
next
  case (Cons w ws)
  then show ?case
    by (cases i) (simp_all add: bat_bytes_def field_append_here field_append_skip)
qed

lemma bat_of_bytes_bat_bytes [simp]: "bat_of_bytes (bat_bytes ws) = ws"
  by (auto simp: bat_of_bytes_def field_bat_bytes le_word_le_bytes intro: nth_equalityI)

lemma length_bat_of_bytes [simp]: "length (bat_of_bytes bs) = length bs div 4"
  by (simp add: bat_of_bytes_def)

lemma length_swap_first [simp]: "length (swap_first n ws) = length ws"
  by (simp add: swap_first_def)

lemma get_bat_quiet:
  assumes "vhd_type_dynamic (st_ctx s)" and "bat_bat (ctx_bat (st_ctx s)) = Some ws"
  shows "vhd_get_bat s = (Inr (), s)"
  using assms by (simp add: vhd_get_bat_def with_ctx_app vhd_validate_bat_def vm_simps)

end
