(* ===== verification/Rel_Path.thy ===== *)
theory Rel_Path
  imports Vhd_Meta_Quiet
begin

text \<open>
  \<open>vhd/lib/relative-path.c\<close>: the relative path from one file to another, which a child image
  stores to find its parent. What the C library computes from the file system (\<open>realpath\<close>,
  \<open>access\<close>, \<open>iconv\<close>) is a record of functions \<open>libc\<close>, an argument of every function that uses it.
\<close>

section \<open>The C library\<close>

text \<open>
  \<open>lc_iconv to from input room\<close> is the errno (0 for success), the output and the number of input
  bytes not consumed; \<open>lc_iconv_open\<close> the errno or 0; \<open>lc_epoch\<close> what \<open>mktime\<close> gives for the start
  of the year 2000.
\<close>

record libc =
  lc_realpath :: "vsys \<Rightarrow> string \<Rightarrow> int + string"
  lc_access :: "vsys \<Rightarrow> string \<Rightarrow> int"
  lc_iconv_open :: "string \<Rightarrow> string \<Rightarrow> int"
  lc_iconv :: "string \<Rightarrow> string \<Rightarrow> bytes \<Rightarrow> nat \<Rightarrow> int \<times> bytes \<times> nat"
  lc_pagesize :: nat
  lc_epoch :: int
  lc_time :: int
  lc_mtime :: "vsys \<Rightarrow> string \<Rightarrow> int"
  lc_uuid :: bytes

definition DELIMITER :: char where "DELIMITER = CHR ''/''"
definition MAX_NAME_LEN :: nat where "MAX_NAME_LEN = 1000"

section \<open>The functions of the file\<close>

fun count_nodes :: "string \<Rightarrow> nat" where
  "count_nodes [] = 0"
| "count_nodes (c # cs) = (if c = DELIMITER then Suc (count_nodes cs) else count_nodes cs)"

text \<open>The copy of the next node and the path from its delimiter on; \<open>None\<close> without a delimiter.\<close>

definition next_node :: "string \<Rightarrow> (vst, (string \<times> string) option) vm" where
  "next_node path =
     (if DELIMITER \<in> set path then
        vthen (valloc (- ENOMEM))
          (vret (Some (takeWhile (\<lambda>c. c \<noteq> DELIMITER) path, dropWhile (\<lambda>c. c \<noteq> DELIMITER) path)))
      else vret None)"

lemma next_node_decreases:
  assumes "next_node path s = (Inr (Some (n, rest)), t)"
  shows "length (tl rest) < length path"
proof -
  from assms have d: "DELIMITER \<in> set path" and r: "rest = dropWhile (\<lambda>c. c \<noteq> DELIMITER) path"
    by (auto simp: next_node_def valloc_def vm_simps split: if_splits list.splits prod.splits sum.splits)
  have "0 < length rest" using d r by (auto simp: dropWhile_eq_Nil_conv)
  moreover have "length rest \<le> length path" by (simp add: r length_dropWhile_le)
  ultimately show ?thesis unfolding length_tl by linarith
qed

function count_common :: "string \<Rightarrow> string \<Rightarrow> nat \<Rightarrow> (vst, nat) vm" where
  "count_common to from common s =
     (case next_node to s of
        (Inl e, s) \<Rightarrow> (Inl e, s)
      | (Inr None, s) \<Rightarrow> (Inr common, s)
      | (Inr (Some (to_node, to')), s1) \<Rightarrow>
          (case next_node from s1 of
             (Inl e, s) \<Rightarrow> (Inl e, s)
           | (Inr None, s) \<Rightarrow> (Inr common, s)
           | (Inr (Some (from_node, from')), s2) \<Rightarrow>
               if take MAX_NAME_LEN to_node \<noteq> take MAX_NAME_LEN from_node then (Inr common, s2)
               else count_common (tl to') (tl from') (Suc common) s2))"
  by pat_completeness auto
termination
  by (relation "measure (\<lambda>(to, _, _, _). length to)") (auto dest: next_node_decreases simp: eq_commute [of "(Inr _, _)"] simp del: length_tl)

declare count_common.simps [simp del]

definition count_common_nodes :: "string \<Rightarrow> string \<Rightarrow> (vst, nat) vm" where
  "count_common_nodes to from = count_common to from 0"

text \<open>A null result is an error of the allocation; the caller reports \<open>-ENOMEM\<close> for both.\<close>

definition up_nodes :: "int \<Rightarrow> (vst, string) vm" where
  "up_nodes count =
     (if count = 0 then vthen (valloc (- ENOMEM)) (vret ''./'')
      else if 3 * count \<ge> int MAX_NAME_LEN \<or> count < 0 then vfail (- ENOMEM)
      else vthen (valloc (- ENOMEM)) (vret (concat (replicate (nat count) ''../''))))"

fun node_offset :: "string \<Rightarrow> nat \<Rightarrow> string option" where
  "node_offset [] n = None"
| "node_offset (c # cs) n =
     (if n = 0 then None
      else if c = DELIMITER then (if n = 1 then Some cs else node_offset cs (n - 1))
      else node_offset cs n)"

definition libc_realpath :: "libc \<Rightarrow> string \<Rightarrow> (vst, string) vm" where
  "libc_realpath lc p = (\<lambda>s. case lc_realpath lc (st_sys s) p of
     Inl e \<Rightarrow> (Inl (Errno (- e)), set_errno e s)
   | Inr q \<Rightarrow> (Inr q, s))"

definition relative_path_to :: "libc \<Rightarrow> string \<Rightarrow> string \<Rightarrow> (vst, string) vm" where
  "relative_path_to lc from to =
     vthen (vcheck (length to < MAX_NAME_LEN \<and> length from < MAX_NAME_LEN) (- ENAMETOOLONG))
       (vbind (libc_realpath lc to) (\<lambda>to_absolute.
          vbind (libc_realpath lc from) (\<lambda>from_absolute.
            vthen (vcheck (length to_absolute < MAX_NAME_LEN \<and> length from_absolute < MAX_NAME_LEN)
                     (- ENAMETOOLONG))
              (vbind (count_common_nodes (tl to_absolute) (tl from_absolute)) (\<lambda>common.
                 vbind (up_nodes (int (count_nodes from_absolute) - int common - 1)) (\<lambda>up.
                   case node_offset to_absolute (common + 1) of
                     None \<Rightarrow> vfail (- EINVAL)
                   | Some target \<Rightarrow>
                       vthen (valloc (- ENOMEM)) (vret (up @ target))))))))"

section \<open>Paths as lists of nodes\<close>

definition path_of :: "string list \<Rightarrow> string" where
  "path_of cs = concat (map (\<lambda>c. DELIMITER # c) cs)"

definition node_ok :: "string \<Rightarrow> bool" where
  "node_ok c \<longleftrightarrow> c \<noteq> [] \<and> DELIMITER \<notin> set c \<and> c \<noteq> ''.'' \<and> c \<noteq> ''..''"

text \<open>What \<open>realpath\<close> promises: an absolute path without empty, \<open>.\<close> and \<open>..\<close> components.\<close>

definition canonical :: "string list \<Rightarrow> bool" where
  "canonical cs \<longleftrightarrow> cs \<noteq> [] \<and> (\<forall>c\<in>set cs. node_ok c)"

text \<open>Components of a relative path and how the file system resolves them from a directory.\<close>

fun split_path :: "string \<Rightarrow> string list" where
  "split_path [] = [[]]"
| "split_path (c # cs) =
     (if c = DELIMITER then [] # split_path cs
      else (case split_path cs of [] \<Rightarrow> [[c]] | p # ps \<Rightarrow> (c # p) # ps))"

definition walk :: "string list \<Rightarrow> string \<Rightarrow> string list" where
  "walk dir c = (if c = ''..'' then butlast dir else if c = ''.'' \<or> c = [] then dir else dir @ [c])"

definition resolve :: "string list \<Rightarrow> string \<Rightarrow> string list" where
  "resolve dir rel = foldl walk dir (split_path rel)"

lemma path_of_simps [simp]: "path_of [] = []" "path_of (c # cs) = DELIMITER # c @ path_of cs"
  by (simp_all add: path_of_def)

lemma split_path_append: "DELIMITER \<notin> set p \<Longrightarrow> split_path (p @ DELIMITER # q) = p # split_path q"
  by (induction p) auto

lemma split_path_atom: "DELIMITER \<notin> set p \<Longrightarrow> split_path p = [p]"
  by (induction p) auto

lemma split_path_nodes:
  "DELIMITER \<notin> set c \<Longrightarrow> (\<And>d. d \<in> set cs \<Longrightarrow> DELIMITER \<notin> set d) \<Longrightarrow> split_path (c @ path_of cs) = c # cs"
proof (induction cs arbitrary: c)
  case Nil
  then show ?case by (simp add: split_path_atom)
next
  case (Cons d ds)
  then show ?case by (simp add: split_path_append)
qed

lemma split_path_up:
  "split_path (concat (replicate n ''../'') @ q) = replicate n ''..'' @ split_path q"
proof (induction n)
  case (Suc n)
  have "''../'' @ r = ''..'' @ DELIMITER # r" for r by (simp add: DELIMITER_def)
  moreover have "DELIMITER \<notin> set ''..''" by (simp add: DELIMITER_def)
  ultimately show ?case using Suc split_path_append [of "''..''"] by simp
qed simp

lemma count_nodes_append: "count_nodes (p @ q) = count_nodes p + count_nodes q"
  by (induction p) auto

lemma count_nodes_0: "DELIMITER \<notin> set p \<Longrightarrow> count_nodes p = 0"
  by (induction p) auto

lemma count_nodes_path_of: "(\<And>d. d \<in> set cs \<Longrightarrow> DELIMITER \<notin> set d) \<Longrightarrow> count_nodes (path_of cs) = length cs"
  by (induction cs) (auto simp: count_nodes_append count_nodes_0)

lemma node_offset_skip: "DELIMITER \<notin> set c \<Longrightarrow> node_offset (c @ p) n = (if n = 0 then None else node_offset p n)"
  by (induction c) (cases p; auto)+

lemma node_offset_path_of:
  "(\<And>d. d \<in> set cs \<Longrightarrow> DELIMITER \<notin> set d) \<Longrightarrow> k < length cs \<Longrightarrow>
   node_offset (path_of cs) (Suc k) = Some (cs ! k @ path_of (drop (Suc k) cs))"
proof (induction cs arbitrary: k)
  case Nil
  then show ?case by simp
next
  case (Cons c cs)
  then show ?case by (cases k) (auto simp: node_offset_skip)
qed

lemma next_node_last: "DELIMITER \<notin> set c \<Longrightarrow> next_node c s = (Inr None, s)"
  by (simp add: next_node_def vm_simps)

lemma next_node_path:
  assumes "DELIMITER \<notin> set c" and "next_node (c @ DELIMITER # p) s = (r, t)"
  shows "r = Inr (Some (c, DELIMITER # p)) \<or> (\<exists>e. r = Inl e)"
proof -
  have "takeWhile (\<lambda>x. x \<noteq> DELIMITER) (c @ DELIMITER # p) = c"
    and "dropWhile (\<lambda>x. x \<noteq> DELIMITER) (c @ DELIMITER # p) = DELIMITER # p"
    using assms(1) by (induction c) auto
  with assms(2) show ?thesis
    by (auto simp: next_node_def valloc_def vm_simps split: list.splits if_splits)
qed

text \<open>The number counted is the length of a common prefix that leaves at least the last node of
  both paths.\<close>

lemma count_common_prefix:
  assumes "count_common (t @ path_of ts) (f @ path_of fs) n s = (Inr k, u)"
    and "\<And>d. d \<in> set (t # ts) \<Longrightarrow> DELIMITER \<notin> set d \<and> length d \<le> MAX_NAME_LEN"
    and "\<And>d. d \<in> set (f # fs) \<Longrightarrow> DELIMITER \<notin> set d \<and> length d \<le> MAX_NAME_LEN"
  shows "n \<le> k \<and> k - n \<le> length ts \<and> k - n \<le> length fs \<and> take (k - n) (t # ts) = take (k - n) (f # fs)"
  using assms
proof (induction ts arbitrary: t f fs n s)
  case Nil
  then show ?case by (simp add: count_common.simps [of t] next_node_last)
next
  case (Cons t' ts)
  obtain r1 s1 where n1: "next_node (t @ DELIMITER # t' @ path_of ts) s = (r1, s1)" by fastforce
  with next_node_path [of t _ s] Cons.prems(1,2)
  have r1: "r1 = Inr (Some (t, DELIMITER # t' @ path_of ts))"
    by (fastforce simp: count_common.simps [of "t @ _"])
  show ?case
  proof (cases fs)
    case Nil
    with Cons.prems n1 r1 show ?thesis by (simp add: count_common.simps [of "t @ _"] next_node_last)
  next
    case (Cons f' fs')
    obtain r2 s2 where n2: "next_node (f @ DELIMITER # f' @ path_of fs') s1 = (r2, s2)" by fastforce
    with next_node_path [of f _ s1] Cons.prems Cons n1 r1
    have r2: "r2 = Inr (Some (f, DELIMITER # f' @ path_of fs'))"
      by (fastforce simp: count_common.simps [of "t @ _"])
    show ?thesis
    proof (cases "t = f")
      case False
      with Cons.prems Cons n1 r1 n2 r2 show ?thesis
        by (auto simp: count_common.simps [of "t @ _"])
    next
      case True
      with Cons.prems(1) Cons n1 r1 n2 r2
      have "count_common (t' @ path_of ts) (f' @ path_of fs') (Suc n) s2 = (Inr k, u)"
        by (simp add: count_common.simps [of "f @ _"])
      from Cons.IH [OF this] Cons.prems(2,3) Cons
      have "Suc n \<le> k \<and> k - Suc n \<le> length ts \<and> k - Suc n \<le> length fs' \<and>
        take (k - Suc n) (t' # ts) = take (k - Suc n) (f' # fs')" by auto
      moreover from this have "k - n = Suc (k - Suc n)" by (simp add: Suc_diff_Suc Suc_le_eq)
      ultimately show ?thesis using True Cons by auto
    qed
  qed
qed

lemma foldl_walk_up: "foldl walk dir (replicate n ''..'') = take (length dir - n) dir"
proof (induction n arbitrary: dir)
  case (Suc n)
  then show ?case by (simp add: walk_def butlast_conv_take min_def)
qed simp

lemma foldl_walk_nodes: "(\<And>c. c \<in> set cs \<Longrightarrow> node_ok c) \<Longrightarrow> foldl walk dir cs = dir @ cs"
  by (induction cs arbitrary: dir) (auto simp: walk_def node_ok_def)

text \<open>The path computed leads from the directory of \<open>from\<close> to \<open>to\<close>.\<close>

lemma relative_path_resolves:
  assumes rel: "relative_path_to lc from to s = (Inr rel, u)"
    and T: "\<And>sy. lc_realpath lc sy to = Inr (path_of ts)" and F: "\<And>sy. lc_realpath lc sy from = Inr (path_of fs)"
    and ts: "canonical ts" and fs: "canonical fs"
  shows "resolve (butlast fs) rel = ts"
proof -
  obtain t ts' where t: "ts = t # ts'" using ts by (cases ts) (auto simp: canonical_def)
  obtain f fs' where f: "fs = f # fs'" using fs by (cases fs) (auto simp: canonical_def)
  have nt: "DELIMITER \<notin> set d" if "d \<in> set ts" for d using ts that by (auto simp: canonical_def node_ok_def)
  have nf: "DELIMITER \<notin> set d" if "d \<in> set fs" for d using fs that by (auto simp: canonical_def node_ok_def)
  have len: "length d \<le> length (path_of cs)" if "d \<in> set cs" for d cs
    using that by (induction cs) auto
  from rel T F obtain k s1 s2 s3 up tgt where
    lt: "length (path_of ts) < MAX_NAME_LEN" "length (path_of fs) < MAX_NAME_LEN"
    and cc: "count_common (t @ path_of ts') (f @ path_of fs') 0 s1 = (Inr k, s2)"
    and up: "up_nodes (int (count_nodes (path_of fs)) - int k - 1) s2 = (Inr up, s3)"
    and tgt: "node_offset (path_of ts) (Suc k) = Some tgt" and r: "rel = up @ tgt"
    by (auto simp: relative_path_to_def libc_realpath_def count_common_nodes_def vcheck_def t f
        simp del: vbind_right_vret split: if_splits option.splits elim!: vbind_okE)
  from count_common_prefix [OF cc] nt nf len [of _ ts] len [of _ fs] lt t f
  have k: "k \<le> length ts'" "k \<le> length fs'" and pre: "take k ts = take k fs"
    by (force dest: order.strict_trans1)+
  have "tgt = ts ! k @ path_of (drop (Suc k) ts)"
    using node_offset_path_of [of ts k] nt tgt k t by auto
  then have tgt': "split_path tgt = drop k ts"
    using split_path_nodes [of "ts ! k" "drop (Suc k) ts"] nt k t
    by (metis Cons_nth_drop_Suc in_set_dropD le_imp_less_Suc length_Cons nth_mem)
  define m where "m = length fs - k - 1"
  have "int (count_nodes (path_of fs)) - int k - 1 = int m"
    using count_nodes_path_of [of fs] nf k f by (auto simp: m_def)
  with up have "up = (if m = 0 then ''./'' else concat (replicate m ''../''))"
    by (auto simp: up_nodes_def split: if_splits elim!: vbind_okE)
  moreover have "split_path (''./'' @ q) = ''.'' # split_path q" for q
    using split_path_append [of "''.''" q] by (simp add: DELIMITER_def)
  ultimately have "resolve (butlast fs) rel = foldl walk (foldl walk (butlast fs) (replicate m ''..'')) (drop k ts)"
    using r tgt' split_path_up [of m tgt] by (auto simp: resolve_def walk_def)
  also have "foldl walk (butlast fs) (replicate m ''..'') = take k fs"
    using k f by (auto simp: foldl_walk_up m_def butlast_conv_take min_def)
  also have "foldl walk (take k fs) (drop k ts) = take k fs @ drop k ts"
    using ts by (intro foldl_walk_nodes) (auto simp: canonical_def dest: in_set_dropD)
  finally show ?thesis using pre by (metis append_take_drop_id)
qed

end
