(* ===== verification/Vhd_Locator.thy ===== *)
theory Vhd_Locator
  imports Rel_Path
begin

text \<open>
  Parent locators (\<open>vhd/lib/libvhd.c\<close>): how a child names its parent. The names are encoded with
  \<open>iconv\<close>, read from and written to the image, and resolved relative to the child's directory.
\<close>

section \<open>Strings and files\<close>

definition chars :: "bytes \<Rightarrow> string" where
  "chars bs = map (\<lambda>b. char_of (unat b)) bs"

text \<open>A C string ends at the first NUL byte.\<close>

definition cstr :: "bytes \<Rightarrow> bytes" where
  "cstr bs = takeWhile (\<lambda>b. b \<noteq> 0) bs"

definition starts_with :: "'a list \<Rightarrow> 'a list \<Rightarrow> bool" where
  "starts_with p xs \<longleftrightarrow> take (length p) xs = p"

text \<open>\<open>stat\<close>: the file, or \<open>None\<close> with \<open>errno\<close> set.\<close>

definition stat_call :: "string \<Rightarrow> vst \<Rightarrow> vfile option \<times> vst" where
  "stat_call path s = (case take_ev s of (ev, s) \<Rightarrow>
     (case ev of Fail e \<Rightarrow> (None, set_errno e s)
      | _ \<Rightarrow> (case sys_files (st_sys s) path of
           None \<Rightarrow> (None, set_errno ENOENT s)
         | Some f \<Rightarrow> (Some f, s))))"

definition vhd_test_file_fixed :: "string \<Rightarrow> (vst, bool) vm" where
  "vhd_test_file_fixed file = (\<lambda>s. case stat_call file s of
     (None, s) \<Rightarrow> (Inl (Errno (- get_errno s)), s)
   | (Some f, s) \<Rightarrow> (Inr (f_blk f), s))"

text \<open>\<open>dirname\<close> and \<open>basename\<close> of POSIX.\<close>

definition strip_slashes :: "string \<Rightarrow> string" where
  "strip_slashes p = rev (dropWhile (\<lambda>c. c = DELIMITER) (rev p))"

definition dirname :: "string \<Rightarrow> string" where
  "dirname p =
     (let q = strip_slashes p in
      if q = [] then (if p = [] then ''.'' else ''/'')
      else if DELIMITER \<notin> set q then ''.''
      else (let d = strip_slashes (rev (dropWhile (\<lambda>c. c \<noteq> DELIMITER) (rev q)))
            in if d = [] then ''/'' else d))"

definition basename :: "string \<Rightarrow> string" where
  "basename p =
     (let q = strip_slashes p in
      if q = [] then (if p = [] then ''.'' else ''/'')
      else rev (takeWhile (\<lambda>c. c \<noteq> DELIMITER) (rev q)))"

definition vhd_find_parent :: "libc \<Rightarrow> string \<Rightarrow> (vst, string) vm" where
  "vhd_find_parent lc parent = with_ctx (\<lambda>ctx s.
     if starts_with ''/'' parent \<and> lc_access lc (st_sys s) parent = 0
     then vthen (valloc (- ENOMEM)) (vret parent) s
     else vbind (libc_realpath lc (ctx_file ctx)) (\<lambda>cpath.
       vthen (valloc (- ENOMEM))
         (let location = dirname cpath @ ''/'' @ parent
          in (\<lambda>s. if lc_access lc (st_sys s) location \<noteq> 0
                  then (Inl (Errno (- lc_access lc (st_sys s) location)), s)
                  else vbind (libc_realpath lc location) (\<lambda>path. vthen (valloc (- ENOMEM)) (vret path)) s))) s)"

section \<open>Encoding of names\<close>

definition libc_iconv_open :: "libc \<Rightarrow> string \<Rightarrow> string \<Rightarrow> (vst, unit) vm" where
  "libc_iconv_open lc to from = (\<lambda>s.
     if lc_iconv_open lc to from = 0 then (Inr (), s)
     else (Inl (Errno (- lc_iconv_open lc to from)), set_errno (lc_iconv_open lc to from) s))"

text \<open>A conversion that must use up the input and, in the encoders, the whole buffer.\<close>

definition convert_all :: "libc \<Rightarrow> string \<Rightarrow> string \<Rightarrow> bytes \<Rightarrow> nat \<Rightarrow> (vst, bytes) vm" where
  "convert_all lc to from input room = (\<lambda>s. case lc_iconv lc to from input room of
     (e, out, left) \<Rightarrow>
       if e \<noteq> 0 then (Inl (Errno (- e)), set_errno e s)
       else if left \<noteq> 0 \<or> length out \<noteq> room then (Inl (Errno (io_error s)), s)
       else (Inr out, s))"

definition vhd_macx_encode_location :: "libc \<Rightarrow> bytes \<Rightarrow> (vst, bytes) vm" where
  "vhd_macx_encode_location lc name =
     (let len = length name + 7 in
      vthen (valloc (- ENOMEM)) (vthen (valloc (- ENOMEM))
        (vthen (libc_iconv_open lc ''UTF-8'' ''ASCII'')
          (vbind (convert_all lc ''UTF-8'' ''ASCII'' (ascii ''file://'' @ name) len) (\<lambda>uri.
             vthen (valloc (- ENOMEM)) (vret uri))))))"

definition backslash :: "u8 \<Rightarrow> u8" where
  "backslash b = (if b = 0x2F then 0x5C else b)"

definition vhd_w2u_encode_location :: "libc \<Rightarrow> bytes \<Rightarrow> (vst, bytes) vm" where
  "vhd_w2u_encode_location lc name =
     (let uri = (if \<not> starts_with [0x2F] name
                 then [0x2E, 0x5C] @ (if starts_with [0x2E, 0x2F] name then drop 2 name else name)
                 else name);
          uri = map backslash uri;
          len = length uri
      in vthen (valloc (- ENOMEM)) (vthen (valloc (- ENOMEM))
           (vthen (libc_iconv_open lc ''UTF-16LE'' ''ASCII'')
             (vbind (convert_all lc ''UTF-16LE'' ''ASCII'' uri (2 * len)) (\<lambda>out.
                vthen (valloc (- ENOMEM)) (vret out))))))"

text \<open>The decoders return null for every failure.\<close>

definition decode_all :: "libc \<Rightarrow> string \<Rightarrow> bytes \<Rightarrow> bytes option" where
  "decode_all lc from input =
     (if lc_iconv_open lc ''ASCII'' from \<noteq> 0 then None
      else case lc_iconv lc ''ASCII'' from input (length input) of
        (e, out, left) \<Rightarrow> if e \<noteq> 0 \<or> left \<noteq> 0 then None else Some out)"

definition vhd_macx_decode_location :: "libc \<Rightarrow> bytes \<Rightarrow> (vst, bytes option) vm" where
  "vhd_macx_decode_location lc input =
     (case decode_all lc ''UTF-8'' input of
        None \<Rightarrow> vret None
      | Some out \<Rightarrow>
          if \<not> starts_with (ascii ''file://'') (cstr out) then vret None
          else vcatch (vthen (valloc (- ENOMEM)) (vret (Some (drop 7 (cstr out))))) (\<lambda>_. vret None))"

definition slash :: "u8 \<Rightarrow> u8" where
  "slash b = (if b = 0x5C then 0x2F else b)"

definition vhd_w2u_decode_location :: "libc \<Rightarrow> bytes \<Rightarrow> string \<Rightarrow> (vst, bytes option) vm" where
  "vhd_w2u_decode_location lc input utf_type =
     (case decode_all lc utf_type input of
        None \<Rightarrow> vret None
      | Some out \<Rightarrow>
          (let name = cstr (map slash out);
               name = (if starts_with [0x43, 0x3A] name \<or> starts_with [0x63, 0x3A] name
                       then drop 2 name else name)
           in vcatch (vthen (valloc (- ENOMEM)) (vret (Some name))) (\<lambda>_. vret None)))"

definition vhd_header_decode_parent :: "libc \<Rightarrow> dd_hdr \<Rightarrow> (vst, bytes) vm" where
  "vhd_header_decode_parent lc header = with_ctx (\<lambda>ctx.
     let code = (if vhd_creator_tapdisk ctx \<and> ftr_crtr_ver (ctx_footer ctx) = VHD_VERSION 0 1
                 then ''UTF-16'' else ''UTF-16BE'')
     in vbind (vhd_w2u_decode_location lc (hdr_prt_name header) code) (\<lambda>r.
          case r of None \<Rightarrow> vfail (- EINVAL) | Some name \<Rightarrow> vret name))"

section \<open>Locators\<close>

definition locator_code :: "u32 \<Rightarrow> bool" where
  "locator_code code \<longleftrightarrow> code = PLAT_CODE_MACX \<or> code = PLAT_CODE_W2KU \<or> code = PLAT_CODE_W2RU"

text \<open>
  \<open>data_len\<close> bytes of the buffer are converted; it holds \<open>size\<close> bytes, and nothing compares the
  two: the run is undefined when \<open>data_len\<close> is larger.
\<close>

definition vhd_parent_locator_read :: "libc \<Rightarrow> prt_loc \<Rightarrow> (vst, bytes) vm" where
  "vhd_parent_locator_read lc loc = with_ctx (\<lambda>ctx.
     if ftr_type (ctx_footer ctx) \<noteq> HD_TYPE_DIFF then vfail (- EINVAL)
     else if \<not> locator_code (loc_code loc) then vfail (- EINVAL)
     else vthen (vhd_seek (sint (loc_data_offset loc)) SEEK_SET)
       (let sz = sint (ucast (vhd_parent_locator_size loc) :: u32)
        in if sz \<le> 0 then vfail (- EINVAL)
           else vthen valloc_buf
             (vbind (vhd_read (nat sz)) (\<lambda>raw.
                vthen (valloc (- ENOMEM))
                  (vthen (vdefined (unat (loc_data_len loc) \<le> nat sz))
                    (let input = take (unat (loc_data_len loc)) raw
                     in vbind (if loc_code loc = PLAT_CODE_MACX
                               then vhd_macx_decode_location lc input
                               else vhd_w2u_decode_location lc input ''UTF-16LE'')
                          (\<lambda>name. case name of None \<Rightarrow> vfail (- EINVAL) | Some n \<Rightarrow> vret n)))))))"

text \<open>The first locator that can be read and found; the error of the last search otherwise.\<close>

primrec locator_search :: "libc \<Rightarrow> prt_loc list \<Rightarrow> int \<Rightarrow> (vst, string) vm" where
  "locator_search lc [] err = vfail err"
| "locator_search lc (loc # locs) err =
     vbind (vcatch (vbind (vhd_parent_locator_read lc loc) (\<lambda>n. vret (Some n))) (\<lambda>_. vret None)) (\<lambda>r.
       case r of None \<Rightarrow> locator_search lc locs err
       | Some name \<Rightarrow>
           vbind (vcatch (vbind (vhd_find_parent lc (chars name)) (\<lambda>p. vret (Inr p))) (\<lambda>e. vret (Inl e)))
             (\<lambda>p. case p of Inr location \<Rightarrow> vret location | Inl e \<Rightarrow> locator_search lc locs e))"

definition vhd_parent_locator_get :: "libc \<Rightarrow> (vst, string) vm" where
  "vhd_parent_locator_get lc = with_ctx (\<lambda>ctx.
     if ftr_type (ctx_footer ctx) \<noteq> HD_TYPE_DIFF then vfail (- EINVAL)
     else locator_search lc (hdr_loc (ctx_header ctx)) (- EINVAL))"

definition loc_zero :: prt_loc where
  "loc_zero = loc_of_bytes (zeros 24)"

definition vhd_parent_locator_write_at ::
    "libc \<Rightarrow> string \<Rightarrow> u64 \<Rightarrow> u32 \<Rightarrow> nat \<Rightarrow> prt_loc dst \<Rightarrow> (vst, prt_loc) vm" where
  "vhd_parent_locator_write_at lc parent off code max_bytes put =
     vthen (vmodify (put loc_zero)) (with_ctx (\<lambda>ctx.
       if ftr_type (ctx_footer ctx) \<noteq> HD_TYPE_DIFF then vfail (- EINVAL)
       else if \<not> locator_code code then vfail (- EINVAL)
       else vbind (libc_realpath lc parent) (\<lambda>absolute_path.
         vthen (vbind (\<lambda>s. case stat_call absolute_path s of
                   (None, s) \<Rightarrow> (Inl (Errno (- get_errno s)), s) | (Some f, s) \<Rightarrow> (Inr f, s)) (\<lambda>_. vret ()))
           (vbind (relative_path_to lc (ctx_file ctx) absolute_path) (\<lambda>relative_path.
              vbind (if code = PLAT_CODE_MACX then vhd_macx_encode_location lc (ascii relative_path)
                     else vhd_w2u_encode_location lc (ascii relative_path)) (\<lambda>encoded.
                vthen (vhd_seek (sint off) SEEK_SET)
                  (let sz = unat (vhd_bytes_padded (of_nat (length encoded)))
                   in if max_bytes \<noteq> 0 \<and> sz > max_bytes then vfail (- ENAMETOOLONG)
                      else vthen valloc_buf
                        (vthen (vhd_write (overlay 0 encoded (zeros sz)))
                          (let loc = \<lparr>loc_code = code, loc_data_space = of_nat sz,
                                 loc_data_len = of_nat (length encoded), loc_res = 0,
                                 loc_data_offset = off\<rparr>
                           in vthen (vmodify (put loc)) (vret loc))))))))))"

end
