(* ===== verification/Vhd_Open.thy ===== *)
theory Vhd_Open
  imports Vhd_Locator
begin

text \<open>
  Opening, closing and creating images (\<open>vhd/lib/libvhd.c\<close>): \<open>vhd_open\<close> with its fast path and
  the cache of parents, \<open>vhd_close\<close>, the initialisation of footer, header, batmap and BAT, and
  \<open>__vhd_create\<close>. A second context (the \<open>vhd_context_t parent\<close> on the stack of a caller) is a run
  on a fresh context that shares the file system, \<open>in_new_ctx\<close>.
\<close>

definition ctx_zero :: vhd_context where
  "ctx_zero = \<lparr>ctx_file = [], ctx_oflags = 0, ctx_is_block = False, ctx_spb = 0, ctx_bm_secs = 0,
     ctx_header = hdr_zero, ctx_footer = ftr_zero, ctx_bat = bat_zero, ctx_batmap = batmap_zero\<rparr>"

definition reset_ctx :: "vst \<Rightarrow> vst" where
  "reset_ctx s = s\<lparr>st_ctx := ctx_zero, st_pos := 0, st_parents := []\<rparr>"

definition in_new_ctx :: "(vst, 'a) vm \<Rightarrow> (vst, 'a) vm" where
  "in_new_ctx m = (\<lambda>s. case m (reset_ctx s) of (r, t) \<Rightarrow> (r, s\<lparr>st_sys := st_sys t\<rparr>))"

section \<open>Open\<close>

definition namedup :: "string \<Rightarrow> (vst, string) vm" where
  "namedup name =
     (if length name \<ge> MAX_NAME_LEN then vfail (- ENAMETOOLONG)
      else vthen (valloc (- ENOMEM)) (vret name))"

text \<open>\<open>open\<close> of an existing file, with the offset at its start.\<close>

definition open_call :: "string \<Rightarrow> (vst, unit) vm" where
  "open_call path = (\<lambda>s. case stat_call path s of
     (None, s) \<Rightarrow> (Inl (Errno (- get_errno s)), s)
   | (Some _, s) \<Rightarrow> (Inr (), s\<lparr>st_ctx := (st_ctx s)\<lparr>ctx_file := path\<rparr>, st_pos := 0\<rparr>))"

definition set_block_sizes :: "vhd_context \<Rightarrow> vhd_context" where
  "set_block_sizes c = (let spb = drop_bit VHD_SECTOR_SHIFT (hdr_block_size (ctx_header c)) in
     c\<lparr>ctx_spb := spb, ctx_bm_secs := secs_round_up_no_zero (ucast (drop_bit 3 spb))\<rparr>)"

definition vhd_open_fast :: "(vst, unit) vm" where
  "vhd_open_fast = vthen (valloc (- ENOMEM)) (vbind (vhd_read 1536) (\<lambda>buf.
     let f = vhd_footer_in (ftr_of_bytes (take 512 buf))
     in vthen (vmodify (put_footer f)) (vthen (vstatus (vhd_validate_footer f))
       (with_ctx (\<lambda>ctx.
          if \<not> vhd_type_dynamic ctx then vret ()
          else vthen
            (if ftr_data_offset (ctx_footer ctx) \<noteq> 512
             then vthen (vhd_read_header put_header) (vret ())
             else (let h = vhd_header_in (hdr_of_bytes (drop 512 buf))
                   in vthen (vmodify (put_header h)) (vstatus (vhd_validate_header h))))
            (vmodify (upd_ctx set_block_sizes)))))))"

definition VHD_HEADER_MAX_RETRIES :: nat where "VHD_HEADER_MAX_RETRIES = 10"

text \<open>The reads of the header, at most \<open>n + 1\<close>; the last error is the one returned.\<close>

primrec read_header_retry :: "nat \<Rightarrow> (vst, unit) vm" where
  "read_header_retry 0 = vthen (vhd_read_header put_header) (vret ())"
| "read_header_retry (Suc n) =
     vcatch (vthen (vhd_read_header put_header) (vret ())) (\<lambda>_. read_header_retry n)"

text \<open>The body of \<open>vhd_open\<close>, the loading of the cache being its last step.\<close>

definition vhd_open_core :: "(vst, unit) vm \<Rightarrow> string \<Rightarrow> u32 \<Rightarrow> (vst, unit) vm" where
  "vhd_open_core load file flags =
     (let flags = (if flags AND VHD_OPEN_STRICT \<noteq> 0 then vhd_flag_clear flags VHD_OPEN_FAST else flags)
      in vthen (vmodify reset_ctx) (vthen (vmodify (upd_ctx (\<lambda>c. c\<lparr>ctx_oflags := flags\<rparr>)))
        (vbind (namedup file) (\<lambda>_. vonfail
          (vthen (open_call file)
            (vbind (vhd_test_file_fixed file) (\<lambda>blk.
              vthen (vmodify (upd_ctx (\<lambda>c. c\<lparr>ctx_is_block := blk\<rparr>)))
                (if flags AND VHD_OPEN_FAST \<noteq> 0 then vhd_open_fast
                 else vthen (vhd_read_footer put_footer) (with_ctx (\<lambda>ctx.
                   if \<not> vhd_flag_test flags VHD_OPEN_IGNORE_DISABLED \<and> vhd_disabled ctx
                   then vfail (- EINVAL)
                   else vthen
                     (if vhd_type_dynamic ctx
                      then vthen (read_header_retry (VHD_HEADER_MAX_RETRIES - 1))
                             (vmodify (upd_ctx set_block_sizes))
                      else vret ())
                     load))))))
          reset_ctx))))"

definition vhd_cache_enabled :: "vhd_context \<Rightarrow> bool" where
  "vhd_cache_enabled ctx \<longleftrightarrow> vhd_flag_test (ctx_oflags ctx) VHD_OPEN_CACHED"

text \<open>
  The loop of \<open>vhd_cache_load\<close>: the contexts of the ancestors, nearest first. A parent is opened
  without \<open>VHD_OPEN_CACHED\<close>, so its own \<open>vhd_cache_load\<close> does nothing. The C loop has no bound: a
  cyclic chain of parents makes it run for ever, which the model reports as \<open>Hang\<close> when more
  than \<open>fuel\<close> images have been opened.
\<close>

primrec cache_parents :: "libc \<Rightarrow> nat \<Rightarrow> u32 \<Rightarrow> (vst, vhd_context list) vm" where
  "cache_parents lc 0 pflags = vraise Hang"
| "cache_parents lc (Suc fuel) pflags = with_ctx (\<lambda>ctx.
     if ftr_type (ctx_footer ctx) \<noteq> HD_TYPE_DIFF \<or> vhd_parent_raw ctx then vret []
     else vbind (vhd_parent_locator_get lc) (\<lambda>next.
       vbind (vcatch (vthen (valloc 1) (vret True)) (\<lambda>_. vret False)) (\<lambda>mem. if \<not> mem then vret []
         else in_new_ctx
           (vthen (vhd_open_core (vret ()) next pflags)
             (vthen (vmodify (upd_ctx (\<lambda>c. c\<lparr>ctx_oflags := vhd_flag_set (ctx_oflags c) VHD_OPEN_CACHED\<rparr>)))
               (vbind (cache_parents lc fuel pflags) (\<lambda>ps. with_ctx (\<lambda>p. vret (p # ps)))))))))"

definition vhd_cache_load :: "libc \<Rightarrow> nat \<Rightarrow> (vst, unit) vm" where
  "vhd_cache_load lc fuel = with_ctx (\<lambda>ctx.
     if \<not> vhd_cache_enabled ctx then vret ()
     else let pflags = vhd_flag_clear (vhd_flag_set (ctx_oflags ctx) VHD_OPEN_RDONLY) VHD_OPEN_CACHED
       in vbind (cache_parents lc fuel pflags) (\<lambda>ps. vmodify (\<lambda>s. s\<lparr>st_parents := ps\<rparr>)))"

definition vhd_open :: "libc \<Rightarrow> nat \<Rightarrow> string \<Rightarrow> u32 \<Rightarrow> (vst, unit) vm" where
  "vhd_open lc fuel = vhd_open_core (vhd_cache_load lc fuel)"

definition vhd_close :: "(vst, unit) vm" where
  "vhd_close = vmodify reset_ctx"

text \<open>\<open>vhd_chain_depth\<close>; the fuel bounds the number of images opened, as in \<open>cache_parents\<close>.\<close>

primrec chain_depth :: "libc \<Rightarrow> nat \<Rightarrow> nat \<Rightarrow> (vst, nat) vm" where
  "chain_depth lc 0 cnt = vraise Hang"
| "chain_depth lc (Suc fuel) cnt = with_ctx (\<lambda>cur.
     if ftr_type (ctx_footer cur) \<noteq> HD_TYPE_DIFF then vret (Suc cnt)
     else if vhd_parent_raw cur then vret (cnt + 2)
     else vbind (vhd_parent_locator_get lc) (\<lambda>file.
       in_new_ctx (vthen (vhd_open lc 0 file VHD_OPEN_RDONLY) (chain_depth lc fuel (Suc cnt)))))"

definition vhd_chain_depth :: "libc \<Rightarrow> nat \<Rightarrow> (vst, nat) vm" where
  "vhd_chain_depth lc fuel = chain_depth lc fuel 0"

section \<open>Initialisation\<close>

definition vhd_time :: "libc \<Rightarrow> int \<Rightarrow> u32" where
  "vhd_time lc t = word_of_int (t - lc_epoch lc)"

definition stat_mtime :: "libc \<Rightarrow> string \<Rightarrow> (vst, int) vm" where
  "stat_mtime lc path = (\<lambda>s. case stat_call path s of
     (None, s) \<Rightarrow> (Inl (Errno (- get_errno s)), s)
   | (Some _, s) \<Rightarrow> (Inr (lc_mtime lc (st_sys s) path), s))"

definition vhd_initialize_footer :: "libc \<Rightarrow> u32 \<Rightarrow> u64 \<Rightarrow> (vst, unit) vm" where
  "vhd_initialize_footer lc type sz = vmodify (put_footer (ftr_zero\<lparr>
     ftr_cookie := HD_COOKIE, ftr_features := HD_RESERVED, ftr_ff_version := HD_FF_VERSION,
     ftr_timestamp := vhd_time lc (lc_time lc), ftr_crtr_ver := VHD_CURRENT_VERSION,
     ftr_crtr_os := 0, ftr_orig_size := sz, ftr_curr_size := sz, ftr_geometry := vhd_chs sz,
     ftr_type := type, ftr_saved := 0, ftr_data_offset := 0xFFFFFFFFFFFFFFFF,
     ftr_crtr_app := ascii ''tap'' @ [0], ftr_uuid := lc_uuid lc\<rparr>))"

text \<open>The parent's name in big endian UTF-16, padded with zeros; it is stored even if the
  conversion stops early.\<close>

definition vhd_initialize_header_parent_name :: "libc \<Rightarrow> string \<Rightarrow> (vst, unit) vm" where
  "vhd_initialize_header_parent_name lc parent_path =
     vthen (libc_iconv_open lc ''UTF-16BE'' ''ASCII'')
       (vthen (valloc (- ENOMEM))
         (let pname = basename parent_path in
          if pname = [] then vfail (- EINVAL)
          else case lc_iconv lc ''UTF-16BE'' ''ASCII'' (ascii pname) 512 of (e, out, left) \<Rightarrow>
            vthen (vmodify (upd_ctx (\<lambda>c. c\<lparr>ctx_header := (ctx_header c)\<lparr>hdr_prt_name :=
                     overlay 0 (take 512 out) (zeros 512)\<rparr>\<rparr>)))
              (if e \<noteq> 0 then (\<lambda>s. (Inl (Errno (- e)), set_errno e s))
               else if left \<noteq> 0
                 then (\<lambda>s. (Inl (Errno (if get_errno s \<noteq> 0 then - get_errno s else - EINVAL)), s))
               else vret ())))"

text \<open>\<open>get_file_size\<close> returns the negated errno of \<open>open\<close> as if it were a size, and -1 when
  \<open>lseek64\<close> fails.\<close>

definition get_file_size :: "string \<Rightarrow> (vst, u64) vm" where
  "get_file_size name = in_new_ctx (vcatch
     (vthen (open_call name) (\<lambda>s. case lseek64 0 SEEK_END s of
        (None, s) \<Rightarrow> (Inr (- 1), s) | (Some n, s) \<Rightarrow> (Inr (of_nat n), s)))
     (\<lambda>e. vret (word_of_int e)))"

definition blocks_of :: "u64 \<Rightarrow> u64" where
  "blocks_of b = drop_bit VHD_BLOCK_SHIFT (b + VHD_BLOCK_SIZE - 1)"

definition vhd_initialize_header ::
    "libc \<Rightarrow> nat \<Rightarrow> string \<Rightarrow> u64 \<Rightarrow> bool \<Rightarrow> (vst, u64) vm" where
  "vhd_initialize_header lc fuel parent_path sz raw = with_ctx (\<lambda>ctx.
     if \<not> vhd_type_dynamic ctx then vfail (- EINVAL)
     else vthen (vmodify (put_header (hdr_zero\<lparr>hdr_cookie := DD_COOKIE,
            hdr_data_offset := 0xFFFFFFFFFFFFFFFF, hdr_table_offset := 1536, hdr_ver := DD_VERSION,
            hdr_block_size := ucast VHD_BLOCK_SIZE,
            hdr_max_bat_size := ucast (blocks_of (ftr_curr_size (ctx_footer ctx)))\<rparr>)))
       (vthen (vmodify (put_footer ((ctx_footer ctx)\<lparr>ftr_data_offset := 512\<rparr>)))
         (if ftr_type (ctx_footer ctx) = HD_TYPE_DYNAMIC then vret 0
          else vbind (stat_mtime lc parent_path) (\<lambda>mtime.
            vbind (if raw then vbind (get_file_size parent_path) (\<lambda>n. vret (None, n))
                    else in_new_ctx (vthen (vhd_open lc fuel parent_path VHD_OPEN_RDONLY)
                      (with_ctx (\<lambda>p. vret (Some (ftr_uuid (ctx_footer p)), ftr_curr_size (ctx_footer p))))))
              (\<lambda>(uuid, psize).
                let sz = (if sz = 0 then psize else sz) in
                vthen (vmodify (upd_ctx (\<lambda>c. c\<lparr>ctx_header := (ctx_header c)\<lparr>
                    hdr_prt_ts := vhd_time lc mtime,
                    hdr_prt_uuid := (case uuid of None \<Rightarrow> hdr_prt_uuid (ctx_header c) | Some u \<Rightarrow> u)\<rparr>\<rparr>)))
                  (if sz < psize then vfail (- EINVAL)
                   else vthen (vmodify (upd_ctx (\<lambda>c. c\<lparr>
                       ctx_footer := (ctx_footer c)\<lparr>ftr_orig_size := sz, ftr_curr_size := sz,
                         ftr_geometry := vhd_chs sz\<rparr>,
                       ctx_header := (ctx_header c)\<lparr>hdr_max_bat_size := ucast (blocks_of sz)\<rparr>\<rparr>)))
                     (vthen (vhd_initialize_header_parent_name lc parent_path) (vret psize))))))))"

text \<open>The codes of the three locators, written one after the other.\<close>

definition put_loc :: "nat \<Rightarrow> prt_loc dst" where
  "put_loc i loc = upd_ctx (\<lambda>c. c\<lparr>ctx_header := (ctx_header c)\<lparr>hdr_loc := (hdr_loc (ctx_header c))[i := loc]\<rparr>\<rparr>)"

primrec write_locators :: "libc \<Rightarrow> string \<Rightarrow> (nat \<times> u32) list \<Rightarrow> u64 \<Rightarrow> (vst, unit) vm" where
  "write_locators lc parent [] off = vret ()"
| "write_locators lc parent (ic # ics) off =
     vbind (vhd_parent_locator_write_at lc parent off (snd ic) 0 (put_loc (fst ic))) (\<lambda>loc.
       write_locators lc parent ics (off + vhd_parent_locator_size loc))"

definition vhd_write_parent_locators :: "libc \<Rightarrow> string \<Rightarrow> (vst, unit) vm" where
  "vhd_write_parent_locators lc parent = with_ctx (\<lambda>ctx.
     if ftr_type (ctx_footer ctx) \<noteq> HD_TYPE_DIFF then vfail (- EINVAL)
     else let h = bm_header (ctx_batmap ctx);
              off = bmh_batmap_offset h + vhd_sectors_to_bytes (ucast (bmh_batmap_size h));
              off = (if off AND 511 \<noteq> 0 then vhd_bytes_padded off else off)
       in write_locators lc parent [(0, PLAT_CODE_MACX), (1, PLAT_CODE_W2KU), (2, PLAT_CODE_W2RU)] off)"

section \<open>Change of the parent\<close>

primrec rewrite_locators :: "libc \<Rightarrow> string \<Rightarrow> nat list \<Rightarrow> (vst, unit) vm" where
  "rewrite_locators lc ppath [] = vret ()"
| "rewrite_locators lc ppath (i # is) = with_ctx (\<lambda>child.
     let loc = hdr_loc (ctx_header child) ! i; mx = unat (vhd_parent_locator_size loc)
     in if \<not> locator_code (loc_code loc) then rewrite_locators lc ppath is
        else vthen (vhd_parent_locator_write_at lc ppath (loc_data_offset loc) (loc_code loc) mx (put_loc i))
               (rewrite_locators lc ppath is))"

definition vhd_change_parent :: "libc \<Rightarrow> nat \<Rightarrow> string \<Rightarrow> bool \<Rightarrow> (vst, unit) vm" where
  "vhd_change_parent lc fuel parent_path raw =
     vbind (libc_realpath lc parent_path) (\<lambda>ppath.
       vbind (stat_mtime lc ppath) (\<lambda>mtime.
         vbind (if raw then vret (zeros 16)
                 else in_new_ctx (vthen (vhd_open lc fuel ppath VHD_OPEN_RDONLY)
                        (with_ctx (\<lambda>p. vret (ftr_uuid (ctx_footer p))))))
           (\<lambda>uuid.
             vthen (vmodify (upd_ctx (\<lambda>c. c\<lparr>ctx_header := (ctx_header c)\<lparr>hdr_prt_uuid := uuid\<rparr>\<rparr>)))
               (vthen (vcatch (vhd_initialize_header_parent_name lc ppath) (\<lambda>_. vret ()))
                 (vthen (vmodify (upd_ctx (\<lambda>c. c\<lparr>ctx_header := (ctx_header c)\<lparr>
                       hdr_prt_ts := vhd_time lc mtime\<rparr>\<rparr>)))
                   (vthen (rewrite_locators lc ppath [0..<8])
                     (with_ctx (\<lambda>child. vhd_write_header (ctx_header child)))))))))"

section \<open>Create\<close>

definition vhd_create_batmap :: "(vst, unit) vm" where
  "vhd_create_batmap = with_ctx (\<lambda>ctx.
     if \<not> vhd_type_dynamic ctx then vfail (- EINVAL)
     else let map_byts = drop_bit 3 (hdr_max_bat_size (ctx_header ctx) + 7);
              h = bmh_zero\<lparr>bmh_cookie := VHD_BATMAP_COOKIE,
                    bmh_batmap_offset := vhd_batmap_header_offset ctx + vhd_bytes_padded 32,
                    bmh_batmap_size := secs_round_up_no_zero (ucast map_byts),
                    bmh_batmap_version := VHD_BATMAP_CURRENT_VERSION\<rparr>
       in vthen (vmodify (put_batmap_header h))
         (vthen valloc_buf
           (vthen (vmodify (upd_ctx (\<lambda>c. c\<lparr>ctx_batmap := (ctx_batmap c)\<lparr>bm_map :=
                    Some (zeros (unat (vhd_sectors_to_bytes (ucast (bmh_batmap_size h)))))\<rparr>\<rparr>)))
             (with_ctx (\<lambda>ctx. vhd_write_batmap (ctx_batmap ctx))))))"

text \<open>A failed allocation is returned as the positive errno.\<close>

definition vhd_create_bat :: "(vst, unit) vm" where
  "vhd_create_bat = with_ctx (\<lambda>ctx.
     if \<not> vhd_type_dynamic ctx then vfail (- EINVAL)
     else let n = hdr_max_bat_size (ctx_header ctx);
              sz = unat (vhd_bytes_padded (ucast n * 4))
       in vthen (valloc ENOMEM)
         (vthen (vmodify (put_bat ((ctx_bat ctx)\<lparr>bat_bat :=
                  Some (replicate (unat n) DD_BLK_UNUSED @ replicate (sz div 4 - unat n) 0)\<rparr>)))
           (vthen (vhd_seek (sint (hdr_table_offset (ctx_header ctx))) SEEK_SET)
             (vthen (vmodify (upd_ctx (\<lambda>c. c\<lparr>ctx_bat := (ctx_bat c)\<lparr>bat_entries := n,
                      bat_spb := drop_bit VHD_SECTOR_SHIFT (hdr_block_size (ctx_header c))\<rparr>\<rparr>)))
               (with_ctx (\<lambda>ctx. vhd_write_bat (ctx_bat ctx)))))))"

definition vhd_initialize_fixed_disk :: "(vst, unit) vm" where
  "vhd_initialize_fixed_disk = with_ctx (\<lambda>ctx.
     if ftr_type (ctx_footer ctx) \<noteq> HD_TYPE_FIXED then vfail (- EINVAL)
     else vthen (vhd_seek 0 SEEK_SET)
       (vthen (valloc (- ENOMEM))
         (vfor [0..<unat (drop_bit VHD_BLOCK_SHIFT (ftr_curr_size (ctx_footer ctx)))]
            (\<lambda>_. vhd_write (zeros (unat VHD_BLOCK_SIZE))))))"

text \<open>\<open>open\<close> with \<open>O_CREAT | O_TRUNC\<close>: a block device keeps its contents.\<close>

definition creat_call :: "string \<Rightarrow> (vst, unit) vm" where
  "creat_call path = (\<lambda>s. case take_ev s of (ev, s) \<Rightarrow>
     (case ev of Fail e \<Rightarrow> (Inl (Errno (- e)), set_errno e s)
      | _ \<Rightarrow> (let f = (case sys_files (st_sys s) path of
                  Some f \<Rightarrow> if f_blk f then f else f\<lparr>f_data := (\<lambda>_. 0), f_size := 0\<rparr>
                | None \<Rightarrow> \<lparr>f_data = (\<lambda>_. 0), f_size = 0, f_blk = False\<rparr>)
            in (Inr (), s\<lparr>st_ctx := (st_ctx s)\<lparr>ctx_file := path\<rparr>, st_pos := 0,
                 st_sys := (st_sys s)\<lparr>sys_files := (sys_files (st_sys s))(path \<mapsto> f)\<rparr>\<rparr>))))"

definition VHD_FLAG_CREAT_PARENT_RAW :: u32 where "VHD_FLAG_CREAT_PARENT_RAW = 2"

definition VHD_MAX_NAME_LEN :: nat where "VHD_MAX_NAME_LEN = 1024"

text \<open>
  The part of \<open>__vhd_create\<close> between the opening of the file and the label \<open>out\<close>. After an error
  \<open>__vhd_create\<close> closes the context, which clears \<open>is_block\<close>, and only then tests \<open>is_block\<close> to decide
  whether to unlink the name.
\<close>

definition create_body ::
    "libc \<Rightarrow> nat \<Rightarrow> string \<Rightarrow> string \<Rightarrow> u64 \<Rightarrow> u32 \<Rightarrow> u64 \<Rightarrow> u32 \<Rightarrow> u64 \<Rightarrow> (vst, unit) vm" where
  "create_body lc fuel name parent byts type mbytes flags sz =
     vthen (valloc (- ENOMEM))
      (vbind (vhd_test_file_fixed name) (\<lambda>blk.
        vthen (vmodify (upd_ctx (\<lambda>c. c\<lparr>ctx_is_block := blk\<rparr>)))
         (vthen (vhd_initialize_footer lc type sz)
          (vbind
            (if type = HD_TYPE_FIXED then vthen vhd_initialize_fixed_disk (vret 0)
             else vbind (vhd_initialize_header lc fuel parent sz
                          (vhd_flag_test flags VHD_FLAG_CREAT_PARENT_RAW)) (\<lambda>psize.
               vthen vhd_create_batmap (vthen vhd_create_bat
                 (vthen (if type = HD_TYPE_DIFF then vhd_write_parent_locators lc parent else vret ())
                   (vret psize)))))
            (\<lambda>psize.
              vthen (if mbytes = 0 then vret ()
                     else (let sz = (if byts \<noteq> 0 then push_bit VHD_BLOCK_SHIFT (blocks_of byts) else psize)
                           in vthen (vmodify (upd_ctx (\<lambda>c. c\<lparr>ctx_footer := (ctx_footer c)\<lparr>ftr_orig_size := sz\<rparr>\<rparr>)))
                                (vhd_set_virt_size_no_write sz)))
               (vthen (if type = HD_TYPE_FIXED then vret ()
                       else with_ctx (\<lambda>ctx. vthen (vhd_write_footer_at (ctx_footer ctx) 0)
                              (vhd_write_header_at (ctx_header ctx) 512)))
                (vthen (vhd_seek 0 SEEK_END)
                 (vbind vhd_position (\<lambda>off.
                    case off of None \<Rightarrow> (\<lambda>s. (Inl (Errno (- get_errno s)), s))
                    | Some off \<Rightarrow> with_ctx (\<lambda>ctx.
                        vhd_write_footer_at (ctx_footer ctx)
                          (if ctx_is_block ctx then int off - 512 else int off)))))))))))"

definition vhd_create_image ::
    "libc \<Rightarrow> nat \<Rightarrow> string \<Rightarrow> string option \<Rightarrow> u64 \<Rightarrow> u32 \<Rightarrow> u64 \<Rightarrow> u32 \<Rightarrow> (vst, unit) vm" where
  "vhd_create_image lc fuel name parent byts type mbytes flags =
     (if \<not> (type = HD_TYPE_DIFF \<and> parent \<noteq> None \<or> type = HD_TYPE_FIXED \<or> type = HD_TYPE_DYNAMIC)
      then vfail (- EINVAL)
      else if length name \<ge> VHD_MAX_NAME_LEN - 1 then vfail (- ENAMETOOLONG)
      else if byts \<noteq> 0 \<and> mbytes \<noteq> 0 \<and> mbytes < byts then vfail (- EINVAL)
      else let sz = push_bit VHD_BLOCK_SHIFT (blocks_of (if mbytes \<noteq> 0 then mbytes else byts))
        in in_new_ctx (vthen (creat_call name)
             (\<lambda>s. case create_body lc fuel name (case parent of None \<Rightarrow> [] | Some p \<Rightarrow> p) byts type mbytes
                         flags sz s of
                (Inl (Errno e), t) \<Rightarrow> (Inl (Errno e),
                  let t = snd (vhd_close t)
                  in if ctx_is_block (st_ctx t) then t
                     else t\<lparr>st_sys := (st_sys t)\<lparr>sys_files := (sys_files (st_sys t))(name := None)\<rparr>\<rparr>)
              | r \<Rightarrow> r)))"

definition vhd_create :: "libc \<Rightarrow> nat \<Rightarrow> string \<Rightarrow> u64 \<Rightarrow> u32 \<Rightarrow> u64 \<Rightarrow> u32 \<Rightarrow> (vst, unit) vm" where
  "vhd_create lc fuel name byts type mbytes flags =
     vhd_create_image lc fuel name None byts type mbytes flags"

definition vhd_snapshot ::
    "libc \<Rightarrow> nat \<Rightarrow> string \<Rightarrow> u64 \<Rightarrow> string \<Rightarrow> u64 \<Rightarrow> u32 \<Rightarrow> (vst, unit) vm" where
  "vhd_snapshot lc fuel name byts parent mbytes flags =
     vhd_create_image lc fuel name (Some parent) byts HD_TYPE_DIFF mbytes flags"

end
