(* ===== verification/Vhd_Io.thy ===== *)
theory Vhd_Io
  imports Vhd_Open
begin

text \<open>
  Sector I/O on an open image (\<open>vhd/lib/libvhd.c\<close>): the bitmap and the data of a block, block
  allocation, \<open>vhd_io_read\<close> and \<open>vhd_io_write\<close> for fixed and dynamic images, and reads through a
  chain of parents. Loops over sectors carry fuel, and the entry points pass one more than the
  number of sectors, which is enough since every turn but the last handles at least one; the
  loop over the parents has no bound in the C code either.
\<close>

section \<open>Bitmap and data of a block\<close>

text \<open>The entry of a block in the BAT; an index outside the buffer is undefined.\<close>

definition bat_entry :: "nat \<Rightarrow> (vst, u32) vm" where
  "bat_entry block = with_ctx (\<lambda>ctx.
     vthen (vdefined (block < length (bat_words ctx))) (vret (bat_words ctx ! block)))"

definition vhd_read_bitmap :: "u32 \<Rightarrow> (vst, bytes) vm" where
  "vhd_read_bitmap block = with_ctx (\<lambda>ctx.
     if \<not> vhd_type_dynamic ctx then vfail (- EINVAL)
     else vthen vhd_get_bat (with_ctx (\<lambda>ctx.
       if block \<ge> bat_entries (ctx_bat ctx) then vfail (- ERANGE)
       else vbind (bat_entry (unat block)) (\<lambda>blk.
         if blk = DD_BLK_UNUSED then vfail (- EINVAL)
         else vthen (vhd_seek (sint (vhd_sectors_to_bytes (ucast blk))) SEEK_SET)
           (vthen valloc_buf
             (vhd_read (unat (vhd_bytes_padded (ucast (drop_bit 3 (ctx_spb ctx))))))))))) "

text \<open>
  The data of a block may be cut off by the end of the file; the rest reads as zeros. A block
  that starts behind the footer gives a negative length.
\<close>

definition vhd_read_block :: "u32 \<Rightarrow> (vst, bytes) vm" where
  "vhd_read_block block = with_ctx (\<lambda>ctx.
     if \<not> vhd_type_dynamic ctx then vfail (- EINVAL)
     else vthen vhd_get_bat (with_ctx (\<lambda>ctx.
       if block \<ge> bat_entries (ctx_bat ctx) then vfail (- ERANGE)
       else vbind (bat_entry (unat block)) (\<lambda>blk.
         if blk = DD_BLK_UNUSED then vfail (- EINVAL)
         else let off = sint (vhd_sectors_to_bytes (ucast blk + ucast (ctx_bm_secs ctx)));
                  sz = unat (vhd_sectors_to_bytes (ucast (ctx_spb ctx)));
                  bsz = unat (hdr_block_size (ctx_header ctx))
           in vbind vhd_footer_offset_at_eof (\<lambda>end.
             vthen valloc_buf
               (if end < off + int bsz then
                  vthen (vdefined (off \<le> end \<and> bsz = sz))
                    (vthen (vhd_seek off SEEK_SET)
                      (vbind (vhd_read (nat (end - off))) (\<lambda>buf.
                         vret (buf @ zeros (bsz - nat (end - off))))))
                else vthen (vhd_seek off SEEK_SET) (vhd_read sz)))))))"

text \<open>The address of the caller's buffer is an argument, because its alignment is tested.\<close>

definition vhd_write_bitmap :: "u32 \<Rightarrow> u64 \<Rightarrow> bytes \<Rightarrow> (vst, unit) vm" where
  "vhd_write_bitmap block addr bitmap = with_ctx (\<lambda>ctx.
     if \<not> vhd_type_dynamic ctx then vfail (- EINVAL)
     else vthen (vstatus (vhd_validate_bat (ctx_bat ctx)))
       (if block \<ge> bat_entries (ctx_bat ctx) then vfail (- ERANGE)
        else if addr AND 511 \<noteq> 0 then vfail (- EINVAL)
        else vbind (bat_entry (unat block)) (\<lambda>blk.
          if blk = DD_BLK_UNUSED then vfail (- EINVAL)
          else vthen (vhd_seek (sint (vhd_sectors_to_bytes (ucast blk))) SEEK_SET)
            (let sz = unat (vhd_sectors_to_bytes (ucast (ctx_bm_secs ctx)))
             in vthen (vdefined (sz \<le> length bitmap)) (vhd_write (take sz bitmap))))))"

text \<open>The test is \<open>data & ~(VHD_SECTOR_SIZE - 1)\<close>: the complement of the one above.\<close>

definition vhd_write_block :: "u32 \<Rightarrow> u64 \<Rightarrow> bytes \<Rightarrow> (vst, unit) vm" where
  "vhd_write_block block addr data = with_ctx (\<lambda>ctx.
     if \<not> vhd_type_dynamic ctx then vfail (- EINVAL)
     else vthen (vstatus (vhd_validate_bat (ctx_bat ctx)))
       (if block \<ge> bat_entries (ctx_bat ctx) then vfail (- ERANGE)
        else if addr AND NOT 511 \<noteq> 0 then vfail (- EINVAL)
        else vbind (bat_entry (unat block)) (\<lambda>blk.
          if blk = DD_BLK_UNUSED then vfail (- EINVAL)
          else vthen (vhd_seek (sint (vhd_sectors_to_bytes (ucast blk + ucast (ctx_bm_secs ctx)))) SEEK_SET)
            (let sz = unat (vhd_sectors_to_bytes (ucast (ctx_spb ctx)))
             in vthen (vdefined (sz \<le> length data)) (vhd_write (take sz data))))))"

section \<open>Reading\<close>

definition vhd_io_fixed_read :: "u64 \<Rightarrow> u32 \<Rightarrow> (vst, bytes) vm" where
  "vhd_io_fixed_read sec secs =
     vthen (vhd_seek (sint (vhd_sectors_to_bytes sec)) SEEK_SET)
       (vhd_read (unat (vhd_sectors_to_bytes (ucast secs))))"

text \<open>
  \<open>__vhd_io_dynamic_copy_data\<close>: sector \<open>i\<close> is copied unless it is already marked in \<open>map\<close> or, given
  a context, not present in the bitmap of the block. The pair is \<open>map\<close> and the caller's buffer;
  \<open>dst\<close> is an offset into the buffer.
\<close>

definition copy_sector ::
    "vhd_context option \<Rightarrow> nat \<Rightarrow> bytes \<Rightarrow> nat \<Rightarrow> nat \<Rightarrow> bytes \<Rightarrow> nat \<Rightarrow> bytes \<times> bytes \<Rightarrow> bytes \<times> bytes" where
  "copy_sector ctx map_off bitmap bitmap_off dst src i mb = (case mb of (m, buf) \<Rightarrow>
     if test_bit m (map_off + i) then (m, buf)
     else if (case ctx of None \<Rightarrow> False | Some c \<Rightarrow> \<not> vhd_bitmap_test c bitmap (bitmap_off + i)) then (m, buf)
     else (set_bit m (map_off + i), overlay (dst + 512 * i) (field (512 * i) 512 src) buf))"

definition vhd_io_dynamic_copy_data ::
    "vhd_context option \<Rightarrow> nat \<Rightarrow> bytes \<Rightarrow> nat \<Rightarrow> nat \<Rightarrow> bytes \<Rightarrow> nat \<Rightarrow> bytes \<times> bytes \<Rightarrow> bytes \<times> bytes" where
  "vhd_io_dynamic_copy_data ctx map_off bitmap bitmap_off dst src secs mb =
     foldl (\<lambda>mb i. copy_sector ctx map_off bitmap bitmap_off dst src i mb) mb [0..<secs]"

text \<open>
  One image of the chain. \<open>cnt\<close> for an unallocated block is \<open>MIN(secs, spb)\<close>, whatever the
  position in the block.
\<close>

primrec read_link_loop ::
    "nat \<Rightarrow> nat \<Rightarrow> u64 \<Rightarrow> u32 \<Rightarrow> bytes \<times> bytes \<Rightarrow> (vst, bytes \<times> bytes) vm" where
  "read_link_loop 0 map_off sector secs mb = vraise Hang"
| "read_link_loop (Suc k) map_off sector secs mb = with_ctx (\<lambda>ctx.
     vthen (vdefined (ctx_spb ctx \<noteq> 0))
      (let blk = (ucast (sector div ucast (ctx_spb ctx)) :: u32);
           sec = (ucast (sector mod ucast (ctx_spb ctx)) :: u32)
       in vbind (bat_entry (unat blk)) (\<lambda>off.
         vbind
           (if off = DD_BLK_UNUSED then vret (min secs (ctx_spb ctx), mb)
            else vbind (vhd_read_bitmap blk) (\<lambda>bitmap.
              vbind (vhd_read_block blk) (\<lambda>data.
                let cnt = min secs (ctx_spb ctx - sec); n = unat cnt; p = unat sec
                in vthen (vdefined (p + n \<le> 8 * length bitmap \<and> 512 * (p + n) \<le> length data \<and>
                           map_off + n \<le> 8 * length (fst mb) \<and> 512 * (map_off + n) \<le> length (snd mb)))
                     (with_ctx (\<lambda>ctx. vret (cnt, vhd_io_dynamic_copy_data (Some ctx) map_off bitmap p
                        (512 * map_off) (drop (512 * p) data) n mb))))))
           (\<lambda>(cnt, mb).
              if secs - cnt = 0 then vret mb
              else read_link_loop k (map_off + unat cnt) (sector + ucast cnt) (secs - cnt) mb))))"

definition vhd_io_dynamic_read_link ::
    "u64 \<Rightarrow> u32 \<Rightarrow> bytes \<times> bytes \<Rightarrow> (vst, bytes \<times> bytes) vm" where
  "vhd_io_dynamic_read_link sector secs mb = read_link_loop (Suc (unat secs)) 0 sector secs mb"

text \<open>A raw parent is read with one \<open>read\<close>; a failed allocation is returned as the positive
  errno.\<close>

definition raw_read_link ::
    "string \<Rightarrow> u64 \<Rightarrow> u32 \<Rightarrow> bytes \<times> bytes \<Rightarrow> (vst, bytes \<times> bytes) vm" where
  "raw_read_link filename sec secs mb =
     vthen (vmodify (set_errno 0)) (in_new_ctx
       (vthen (open_call filename)
         (vthen (vhd_seek (sint (vhd_sectors_to_bytes sec)) SEEK_SET)
           (let sz = unat (vhd_sectors_to_bytes (ucast secs))
            in vthen (valloc ENOMEM) (\<lambda>s.
              case pread_call sz (int (st_pos s)) s of (r, data, s) \<Rightarrow>
                if r \<noteq> int sz then (Inl (Errno (io_error s)), s)
                else (Inr (vhd_io_dynamic_copy_data None 0 [] 0 0 data (unat secs) mb), s))))))"

text \<open>A run on the nearest cached parent; the contexts behind it are its own parents.\<close>

definition on_parent :: "(vst, 'a) vm \<Rightarrow> (vst, 'a) vm" where
  "on_parent m = (\<lambda>s. case st_parents s of
     [] \<Rightarrow> (Inl Undef, s)
   | p # ps \<Rightarrow> (case m (s\<lparr>st_ctx := p, st_pos := 0, st_parents := ps\<rparr>) of
       (r, t) \<Rightarrow> (r, s\<lparr>st_parents := st_ctx t # st_parents t, st_sys := st_sys t\<rparr>)))"

definition vhd_cache_get_parent :: "vst \<Rightarrow> bool" where
  "vhd_cache_get_parent s \<longleftrightarrow> vhd_cache_enabled (st_ctx s) \<and> st_parents s \<noteq> []"

definition all_done :: "u32 \<Rightarrow> bytes \<Rightarrow> bool" where
  "all_done secs m \<longleftrightarrow> (\<forall>i \<in> set [0..<unat secs]. test_bit m i)"

primrec read_chain ::
    "libc \<Rightarrow> nat \<Rightarrow> u64 \<Rightarrow> u32 \<Rightarrow> bytes \<times> bytes \<Rightarrow> (vst, bytes \<times> bytes) vm" where
  "read_chain lc 0 sec secs mb = vraise Hang"
| "read_chain lc (Suc fuel) sec secs mb =
     vbind (vhd_io_dynamic_read_link sec secs mb) (\<lambda>mb.
       if all_done secs (fst mb) then vret mb
       else with_ctx (\<lambda>vhd s.
         if ftr_type (ctx_footer vhd) \<noteq> HD_TYPE_DIFF then (Inr mb, s)
         else if vhd_cache_get_parent s
           then on_parent (vthen vhd_get_bat (read_chain lc fuel sec secs mb)) s
         else vbind (vhd_parent_locator_get lc) (\<lambda>next.
           if vhd_parent_raw vhd then raw_read_link next sec secs mb
           else in_new_ctx (vthen (vhd_open lc 0 next VHD_OPEN_RDONLY)
                  (vthen vhd_get_bat (read_chain lc fuel sec secs mb)))) s))"

definition vhd_io_dynamic_read :: "libc \<Rightarrow> nat \<Rightarrow> u64 \<Rightarrow> u32 \<Rightarrow> (vst, bytes) vm" where
  "vhd_io_dynamic_read lc fuel sec secs =
     vthen vhd_get_bat (vthen (valloc (- ENOMEM))
       (vbind (read_chain lc fuel sec secs
                (zeros (unat (push_bit (VHD_SECTOR_SHIFT - 3) secs)),
                 zeros (unat (vhd_sectors_to_bytes (ucast secs)))))
          (\<lambda>mb. vret (snd mb))))"

text \<open>The range check is on 64 bits and wraps.\<close>

definition out_of_range :: "vhd_context \<Rightarrow> u64 \<Rightarrow> u32 \<Rightarrow> bool" where
  "out_of_range ctx sec secs \<longleftrightarrow>
     vhd_sectors_to_bytes (sec + ucast secs) > ftr_curr_size (ctx_footer ctx)"

definition vhd_io_read :: "libc \<Rightarrow> nat \<Rightarrow> u64 \<Rightarrow> u32 \<Rightarrow> (vst, bytes) vm" where
  "vhd_io_read lc fuel sec secs = with_ctx (\<lambda>ctx.
     if out_of_range ctx sec secs then vfail (- ERANGE)
     else if \<not> vhd_type_dynamic ctx then vhd_io_fixed_read sec secs
     else vhd_io_dynamic_read lc fuel sec secs)"

section \<open>Writing\<close>

definition vhd_io_fixed_write :: "bytes \<Rightarrow> u64 \<Rightarrow> u32 \<Rightarrow> (vst, unit) vm" where
  "vhd_io_fixed_write buf sec secs =
     vthen (vhd_seek (sint (vhd_sectors_to_bytes sec)) SEEK_SET)
       (let n = unat (vhd_sectors_to_bytes (ucast secs))
        in vthen (vdefined (n \<le> length buf)) (vhd_write (take n buf)))"

text \<open>
  A new block goes to the end of the data, with a gap that puts its data on a page boundary.
  The space is written with zeros (the bitmap only, for a sparse file), then the BAT.
\<close>

definition alloc_gap :: "nat \<Rightarrow> u64 \<Rightarrow> u32 \<Rightarrow> nat" where
  "alloc_gap spp mx bm_secs =
     (let r = nat ((sint mx + int (unat bm_secs)) mod int spp) in if r = 0 then 0 else spp - r)"

definition vhd_io_allocate_block :: "libc \<Rightarrow> u32 \<Rightarrow> (vst, unit) vm" where
  "vhd_io_allocate_block lc block =
     (let spp = lc_pagesize lc div 512 in
      vbind vhd_end_of_data (\<lambda>off. with_ctx (\<lambda>ctx.
        vthen (vdefined (spp \<noteq> 0))
         (let gap = alloc_gap spp (signed_drop_bit VHD_SECTOR_SHIFT off) (ctx_bm_secs ctx);
              mx = signed_drop_bit VHD_SECTOR_SHIFT off + of_nat gap;
              secs = ctx_bm_secs ctx + of_nat gap +
                (if vhd_flag_test (ctx_oflags ctx) VHD_OPEN_IO_WRITE_SPARSE then 0 else ctx_spb ctx)
          in vthen (vhd_seek (sint off) SEEK_SET)
            (vthen (valloc (- ENOMEM))
              (vthen (vhd_write (zeros (unat (vhd_sectors_to_bytes (scast secs)))))
                (vthen (vdefined (unat block < length (bat_words ctx)))
                  (vthen (vmodify (upd_ctx (\<lambda>c. c\<lparr>ctx_bat := (ctx_bat c)\<lparr>bat_bat :=
                           Some ((bat_words c)[unat block := ucast mx])\<rparr>\<rparr>)))
                    (with_ctx (\<lambda>ctx. vhd_write_bat (ctx_bat ctx)))))))))))"

definition ALIGNED_ADDR :: u64 where "ALIGNED_ADDR = 0x1000"

definition set_bits :: "vhd_context \<Rightarrow> nat \<Rightarrow> nat \<Rightarrow> bytes \<Rightarrow> bytes" where
  "set_bits ctx a b m = foldl (\<lambda>m i. vhd_bitmap_set ctx m i) m [a..<b]"

text \<open>
  The bookkeeping after the data of a block has been written: the bits of the sectors in the
  block's bitmap, and the bit of the block in the batmap once all its sectors are present. The
  result is the \<open>err\<close> with which the C code jumps to \<open>fail\<close>, 0 if it goes on; other errors leave
  the function at once.
\<close>

definition mark_written :: "u32 \<Rightarrow> nat \<Rightarrow> nat \<Rightarrow> (vst, int) vm" where
  "mark_written blk lo hi = with_ctx (\<lambda>ctx.
     vbind vhd_has_batmap (\<lambda>hb.
     vbind (if hb then with_ctx (\<lambda>ctx. vhd_batmap_test (ctx_batmap ctx) blk) else vret False) (\<lambda>full.
       if full then vret 0
       else vbind (vhd_read_bitmap blk) (\<lambda>m.
         vthen (vdefined (hi \<le> 8 * length m))
          (let m = set_bits ctx lo hi m in
           vbind (vcatch (vthen (vhd_write_bitmap blk ALIGNED_ADDR m) (vret 0)) vret) (\<lambda>err.
             if err \<noteq> 0 then vret err
             else vbind vhd_has_batmap (\<lambda>hb.
               if \<not> hb then vret 0
               else vthen (vdefined (unat (ctx_spb ctx) \<le> 8 * length m))
                (if \<exists>i \<in> set [0..<unat (ctx_spb ctx)]. \<not> vhd_bitmap_test ctx m i then vret 0
                 else with_ctx (\<lambda>ctx. vbind (vhd_batmap_set (ctx_batmap ctx) blk) (\<lambda>b.
                   vthen (vmodify (put_batmap b))
                     (vcatch (vthen (vhd_write_batmap b) (vret 0)) vret)))))))))))"

definition dynamic_write_block :: "libc \<Rightarrow> bytes \<Rightarrow> u32 \<Rightarrow> u32 \<Rightarrow> u32 \<Rightarrow> (vst, int) vm" where
  "dynamic_write_block lc data blk sec cnt =
     vbind (bat_entry (unat blk)) (\<lambda>off.
       vthen (if off = DD_BLK_UNUSED then vhd_io_allocate_block lc blk else vret ())
         (vbind (bat_entry (unat blk)) (\<lambda>off. with_ctx (\<lambda>ctx.
            vthen (vhd_seek (sint (vhd_sectors_to_bytes (ucast off + ucast (ctx_bm_secs ctx + sec)))) SEEK_SET)
              (vthen (vhd_write data)
                (mark_written blk (unat sec) (unat sec + unat cnt)))))))"

primrec dynamic_write_loop :: "libc \<Rightarrow> nat \<Rightarrow> bytes \<Rightarrow> u64 \<Rightarrow> u32 \<Rightarrow> (vst, int) vm" where
  "dynamic_write_loop lc 0 buf sector secs = vraise Hang"
| "dynamic_write_loop lc (Suc k) buf sector secs = with_ctx (\<lambda>ctx.
     vthen (vdefined (ctx_spb ctx \<noteq> 0))
      (let blk = (ucast (sector div ucast (ctx_spb ctx)) :: u32);
           sec = (ucast (sector mod ucast (ctx_spb ctx)) :: u32);
           cnt = min secs (ctx_spb ctx - sec); n = 512 * unat cnt
       in vthen (vdefined (n \<le> length buf))
         (vbind (dynamic_write_block lc (take n buf) blk sec cnt) (\<lambda>err.
            if err \<noteq> 0 then vret err
            else if secs - cnt = 0 then vret 0
            else dynamic_write_loop lc k (drop n buf) (sector + ucast cnt) (secs - cnt)))))"

definition vhd_io_dynamic_write :: "libc \<Rightarrow> bytes \<Rightarrow> u64 \<Rightarrow> u32 \<Rightarrow> (vst, unit) vm" where
  "vhd_io_dynamic_write lc buf sector secs = with_ctx (\<lambda>ctx.
     if out_of_range ctx sector secs then vfail (- ERANGE)
     else vthen vhd_get_bat
       (vthen (vbind vhd_has_batmap (\<lambda>hb. if hb then vhd_get_batmap else vret ()))
         (vbind (dynamic_write_loop lc (Suc (unat secs)) buf sector secs) (\<lambda>err.
            vthen (vcatch (with_ctx (\<lambda>ctx. vhd_write_footer (ctx_footer ctx)))
                     (\<lambda>ret. vfail (if err \<noteq> 0 then err else ret)))
              (vstatus err)))))"

definition vhd_io_write :: "libc \<Rightarrow> bytes \<Rightarrow> u64 \<Rightarrow> u32 \<Rightarrow> (vst, unit) vm" where
  "vhd_io_write lc buf sec secs = with_ctx (\<lambda>ctx.
     if out_of_range ctx sec secs then vfail (- ERANGE)
     else if \<not> vhd_type_dynamic ctx then vhd_io_fixed_write buf sec secs
     else vhd_io_dynamic_write lc buf sec secs)"

end
