(* ===== verification/Vhd_Image.thy ===== *)
theory Vhd_Image
  imports Vhd_Io
begin

text \<open>
  The well-formedness invariant of a dynamic image and the virtual disk it stands for. \<open>vlayer\<close> is
  the abstraction: the byte the image holds for an address of the virtual disk as a function of
  the BAT, the bitmaps and the data in the file, \<open>None\<close> where the image has no data and a
  differencing image shows its parent; \<open>vdisk\<close> reads such addresses as zero. The operations are then shown to act on the virtual disk as
  reads and writes of a flat array, on an undisturbed system, for images without a batmap whose
  block size is the 2 MB with which every image is created.
\<close>

section \<open>The virtual disk\<close>

definition vlayer :: "vhd_context \<Rightarrow> vfile \<Rightarrow> nat \<Rightarrow> u8 option" where
  "vlayer c f x =
     (let w = bat_words c ! (x div 2097152); o' = x mod 2097152
      in if w = DD_BLK_UNUSED then None
         else if vhd_bitmap_test c (file_read f (512 * unat w) 512) (o' div 512)
         then Some (f_data f (512 * (unat w + 1) + o'))
         else None)"

definition vdisk :: "vhd_context \<Rightarrow> vfile \<Rightarrow> nat \<Rightarrow> u8" where
  "vdisk c f x = (case vlayer c f x of None \<Rightarrow> 0 | Some v \<Rightarrow> v)"

definition allocated :: "vhd_context \<Rightarrow> nat \<Rightarrow> bool" where
  "allocated c i \<longleftrightarrow> bat_words c ! i \<noteq> DD_BLK_UNUSED"

text \<open>The first sector of a block's bitmap.\<close>

abbreviation start :: "vhd_context \<Rightarrow> nat \<Rightarrow> nat" where
  "start c i \<equiv> unat (bat_words c ! i)"

definition nblocks :: "vhd_context \<Rightarrow> nat" where
  "nblocks c = unat (bat_entries (ctx_bat c))"

definition no_batmap :: "vhd_context \<Rightarrow> bool" where
  "no_batmap c \<longleftrightarrow> \<not> vhd_creator_tapdisk c \<or> ftr_crtr_ver (ctx_footer c) \<le> VHD_VERSION 0 1"

text \<open>What \<open>vhd_end_of_headers\<close> computes for an image without a batmap.\<close>

definition headers_end :: "vhd_context \<Rightarrow> u64" where
  "headers_end c = locators_end
     (max_off (ftr_data_offset (ctx_footer c) + 1024)
        (hdr_table_offset (ctx_header c) +
           ucast (ucast (vhd_bytes_padded (ucast (hdr_max_bat_size (ctx_header c)) * 4)) :: u32)))
     (hdr_loc (ctx_header c))"

definition bat_file_size :: "vhd_context \<Rightarrow> nat" where
  "bat_file_size c = unat (vhd_bytes_padded (ucast (bat_entries (ctx_bat c)) * 4))"

definition std_ctx :: "nat \<Rightarrow> vhd_context \<Rightarrow> bool" where
  "std_ctx hs c \<longleftrightarrow>
     vhd_type_dynamic c \<and> \<not> ctx_is_block c \<and> no_batmap c \<and>
     ctx_spb c = 4096 \<and> ctx_bm_secs c = 1 \<and> hdr_block_size (ctx_header c) = 0x200000 \<and>
     \<not> vhd_flag_test (ctx_oflags c) VHD_OPEN_IO_WRITE_SPARSE \<and>
     ftr_wf (ctx_footer c) \<and>
     (ftr_cookie (ctx_footer c) = HD_COOKIE \<or> ftr_cookie (ctx_footer c) = VHD_POISON_COOKIE) \<and>
     ftr_curr_size (ctx_footer c) = of_nat (nblocks c * 2097152) \<and>
     bat_bat (ctx_bat c) \<noteq> None \<and> nblocks c \<le> length (bat_words c) \<and>
     bat_file_size c \<le> 4 * length (bat_words c) \<and>
     headers_end c = of_nat (512 * hs) \<and> 1 \<le> hs \<and> hs < 2 ^ 32 \<and>
     unat (hdr_table_offset (ctx_header c)) + bat_file_size c \<le> 512 * hs"

text \<open>Allocated blocks lie behind the metadata, inside the file, and do not overlap.\<close>

definition blocks_ok :: "nat \<Rightarrow> vhd_context \<Rightarrow> nat \<Rightarrow> bool" where
  "blocks_ok hs c sz \<longleftrightarrow>
     (\<forall>i < nblocks c. allocated c i \<longrightarrow> hs \<le> start c i \<and> 512 * (start c i + 4097) \<le> sz) \<and>
     (\<forall>i < nblocks c. \<forall>j < nblocks c. i \<noteq> j \<and> allocated c i \<and> allocated c j \<longrightarrow>
        start c i + 4097 \<le> start c j \<or> start c j + 4097 \<le> start c i)"

definition image_core :: "nat \<Rightarrow> vst \<Rightarrow> vfile \<Rightarrow> bool" where
  "image_core hs s f \<longleftrightarrow> quiet s \<and> cur_file s = Some f \<and> \<not> f_blk f \<and> std_ctx hs (st_ctx s) \<and>
     blocks_ok hs (st_ctx s) (f_size f)"

text \<open>At rest the footer follows the last block.\<close>

definition image_ok :: "nat \<Rightarrow> vst \<Rightarrow> vfile \<Rightarrow> bool" where
  "image_ok hs s f \<longleftrightarrow> image_core hs s f \<and> blocks_ok hs (st_ctx s) (f_size f - 512)"

section \<open>The end of the data\<close>

fun data_secs :: "nat \<Rightarrow> u32 list \<Rightarrow> nat" where
  "data_secs m [] = m"
| "data_secs m (w # ws) = data_secs (if w = DD_BLK_UNUSED then m else max m (unat w + 4097)) ws"

lemma data_secs_ge: "m \<le> data_secs m ws"
proof (induction ws arbitrary: m)
  case (Cons w ws)
  show ?case
  proof (cases "w = DD_BLK_UNUSED")
    case False
    have "m \<le> max m (unat w + 4097)" by simp
    also have "\<dots> \<le> data_secs (max m (unat w + 4097)) ws" by (rule Cons.IH)
    finally show ?thesis using False by simp
  qed (simp add: Cons.IH)
qed simp

lemma data_secs_bound: "w \<in> set ws \<Longrightarrow> w \<noteq> DD_BLK_UNUSED \<Longrightarrow> unat w + 4097 \<le> data_secs m ws"
proof (induction ws arbitrary: m)
  case (Cons v ws)
  show ?case
  proof (cases "w = v")
    case True
    with Cons.prems(2) data_secs_ge [of "max m (unat v + 4097)" ws] show ?thesis by simp
  next
    case False
    with Cons show ?thesis by simp
  qed
qed simp

lemma data_secs_least:
  "m \<le> d \<Longrightarrow> (\<And>w. w \<in> set ws \<Longrightarrow> w \<noteq> DD_BLK_UNUSED \<Longrightarrow> unat w + 4097 \<le> d) \<Longrightarrow> data_secs m ws \<le> d"
  by (induction ws arbitrary: m) auto

lemma bat_max_Cons: "bat_max k m (w # ws) = bat_max k (bat_max k m [w]) ws"
  by (simp add: bat_max_def)

lemma unat_ucast_u64 [simp]: "unat (ucast (w :: u32) :: u64) = unat w"
proof -
  have "unat w < 18446744073709551616" using unat_u32_less [of w] by linarith
  then have "take_bit 64 (unat w) = unat w" by (intro take_bit_nat_eq_self) simp
  then show ?thesis by (simp add: unsigned_ucast_eq)
qed

lemma unat_entry_end: "unat (ucast (w :: u32) + 4097 :: u64) = unat w + 4097"
proof -
  have "unat w + 4097 < 18446744073709551616" using unat_u32_less [of w] by linarith
  moreover have "unat (ucast w :: u64) = unat w" by (rule unat_ucast_u64)
  ultimately show ?thesis by (simp add: unat_word_ariths)
qed

lemma bat_max_data_secs:
  assumes "unat m < 9223372036854775808"
  shows "unat (bat_max 4097 m ws) = data_secs (unat m) ws \<and>
    unat (bat_max 4097 m ws) < 9223372036854775808"
  using assms
proof (induction ws arbitrary: m)
  case Nil
  then show ?case by (simp add: bat_max_def)
next
  case (Cons w ws)
  let ?m = "bat_max 4097 m [w]"
  have m: "unat ?m = (if w = DD_BLK_UNUSED then unat m else max (unat m) (unat w + 4097))"
    by (simp add: bat_max_def Let_def word_less_nat_alt unat_entry_end)
  have "unat w + 4097 < 9223372036854775808" using unat_u32_less [of w] by linarith
  with m Cons.prems have "unat ?m < 9223372036854775808" by simp
  from Cons.IH [OF this] show ?case
    unfolding bat_max_Cons [of _ _ w ws] by (simp add: m)
qed

lemma sint_small:
  assumes "unat (w :: u64) < 2 ^ 63"
  shows "sint w = int (unat w)"
proof -
  have "uint w < 2 ^ 63" unfolding uint_nat by (metis assms of_nat_less_iff of_nat_numeral of_nat_power)
  then have "signed_take_bit 63 (uint w) = uint w"
    by (intro signed_take_bit_int_eq_self) (auto intro: order_trans [of _ 0])
  then show ?thesis unfolding uint_nat [symmetric] by (simp add: sint_uint)
qed

lemma unat_sint:
  assumes "0 \<le> sint (w :: u64)"
  shows "int (unat w) = sint w"
proof -
  have "sint w < 2 ^ 64" using sint_less [of w] by simp
  with assms have "take_bit 64 (sint w) = sint w"
    by (intro take_bit_int_eq_self) simp_all
  then show ?thesis using uint_sint [of w] by simp
qed

lemma signed_drop_bit_small:
  assumes "unat (w :: u64) < 2 ^ 63"
  shows "unat (signed_drop_bit n w) = unat w div 2 ^ n"
proof -
  have "sint (signed_drop_bit n w) = int (unat w div 2 ^ n)"
    unfolding sint_signed_drop_bit_eq sint_small [OF assms] by (simp add: drop_bit_eq_div zdiv_int)
  with unat_sint [of "signed_drop_bit n w"] show ?thesis by linarith
qed

end
