(* ===== verification/Vhd_Image_Ops.thy ===== *)
theory Vhd_Image_Ops
  imports Vhd_Image
begin

text \<open>
  The steps of a block write on a well-formed image: the end of the data, the writing of the BAT,
  the allocation of a block, the bitmap. Each is an equation for the final state on an
  undisturbed system; the invariant and the virtual disk are then followed through it.
\<close>

section \<open>Arithmetic of sectors\<close>

lemma unat_sectors_to_bytes:
  assumes "unat x < 36028797018963968"
  shows "unat (vhd_sectors_to_bytes x) = 512 * unat x"
proof -
  have "vhd_sectors_to_bytes x = x * 512"
    by (simp add: vhd_sectors_to_bytes_def VHD_SECTOR_SHIFT_def push_bit_eq_mult)
  then show ?thesis using assms by (simp add: unat_word_ariths)
qed

lemma sectors_to_bytes_of_nat:
  "n < 36028797018963968 \<Longrightarrow> vhd_sectors_to_bytes (of_nat n) = of_nat (512 * n)"
  by (simp add: vhd_sectors_to_bytes_def VHD_SECTOR_SHIFT_def push_bit_eq_mult)

lemma unat_of_nat_small: "n < 18446744073709551616 \<Longrightarrow> unat (of_nat n :: u64) = n"
  by (simp add: unat_of_nat_u64)

lemma unat_ucast_sectors: "unat (vhd_sectors_to_bytes (ucast (w :: u32))) = 512 * unat w"
  using unat_u32_less [of w] by (subst unat_sectors_to_bytes) (simp_all del: unat_u32_less)

lemma sint_ucast_sectors: "sint (vhd_sectors_to_bytes (ucast (w :: u32))) = int (512 * unat w)"
  using unat_u32_less [of w] by (subst sint_small) (simp_all add: unat_ucast_sectors del: unat_u32_less)

lemma bytes_padded_mult: "unat (vhd_bytes_padded x) = 512 * unat (secs_round_up_no_zero x)"
  by (simp add: vhd_bytes_padded_def unat_ucast_sectors)

lemma bytes_padded_pos: "0 < unat (vhd_bytes_padded x)"
proof -
  have "secs_round_up_no_zero x \<noteq> 0" by (simp add: secs_round_up_no_zero_def)
  then show ?thesis unfolding bytes_padded_mult by (simp add: unat_gt_0)
qed

lemma file_write_outside:
  "i < f_size f \<Longrightarrow> i < off \<or> off + length bs \<le> i \<Longrightarrow> f_data (file_write f off bs) i = f_data f i"
  by (auto simp: file_write_def)

lemma file_write_inside:
  "off \<le> i \<Longrightarrow> i < off + length bs \<Longrightarrow> f_data (file_write f off bs) i = bs ! (i - off)"
  by (simp add: file_write_def)

lemma f_size_file_write: "\<not> f_blk f \<Longrightarrow> f_size (file_write f off bs) = max (f_size f) (off + length bs)"
  and f_blk_file_write [simp]: "f_blk (file_write f off bs) = f_blk f"
  by (simp_all add: file_write_def)

section \<open>End of the data\<close>

definition data_end :: "nat \<Rightarrow> vhd_context \<Rightarrow> nat" where
  "data_end hs c = data_secs hs (take (nblocks c) (bat_words c))"

lemma std_ctxD:
  assumes "std_ctx hs c"
  shows "vhd_type_dynamic c" "\<not> ctx_is_block c" "no_batmap c" "ctx_spb c = 4096" "ctx_bm_secs c = 1"
    "hdr_block_size (ctx_header c) = 0x200000"
    "\<not> vhd_flag_test (ctx_oflags c) VHD_OPEN_IO_WRITE_SPARSE" "ftr_wf (ctx_footer c)"
    "ftr_cookie (ctx_footer c) = HD_COOKIE \<or> ftr_cookie (ctx_footer c) = VHD_POISON_COOKIE"
    "ftr_curr_size (ctx_footer c) = of_nat (nblocks c * 2097152)"
    "bat_bat (ctx_bat c) = Some (bat_words c)" "nblocks c \<le> length (bat_words c)"
    "bat_file_size c \<le> 4 * length (bat_words c)" "headers_end c = of_nat (512 * hs)" "1 \<le> hs"
    "hs < 4294967296" "unat (hdr_table_offset (ctx_header c)) + bat_file_size c \<le> 512 * hs"
  using assms by (auto simp: std_ctx_def bat_words_def split: option.splits)

lemma has_batmap_none: "no_batmap (st_ctx s) \<Longrightarrow> vhd_has_batmap s = (Inr False, s)"
  by (auto simp: vhd_has_batmap_def no_batmap_def with_ctx_app vret_def)

lemma end_of_headers_quiet:
  assumes "std_ctx hs (st_ctx s)"
  shows "vhd_end_of_headers s = (Inr (of_nat (512 * hs)), s)"
proof -
  note c = std_ctxD [OF assms]
  have "vhd_end_of_headers s = (Inr (headers_end (st_ctx s)), s)"
    using c(1) has_batmap_none [OF c(3)]
    by (simp add: vhd_end_of_headers_def with_ctx_app Let_def vbind_def vret_def headers_end_def)
  then show ?thesis using c by simp
qed

lemma data_end_ge: "hs \<le> data_end hs c"
  by (simp add: data_end_def data_secs_ge)

lemma data_end_bound:
  assumes "i < nblocks c" and "nblocks c \<le> length (bat_words c)" and "allocated c i"
  shows "start c i + 4097 \<le> data_end hs c"
proof -
  have "bat_words c ! i \<in> set (take (nblocks c) (bat_words c))"
    using assms(1,2) by (auto simp: in_set_conv_nth intro!: exI [of _ i])
  then show ?thesis using assms(3) unfolding data_end_def allocated_def by (rule data_secs_bound)
qed

lemma data_end_less: "hs < 4294967296 \<Longrightarrow> data_end hs c < 8589934592"
proof -
  assume "hs < 4294967296"
  then have "data_end hs c \<le> 8589934591"
    unfolding data_end_def
  proof (intro data_secs_least)
    fix w :: u32
    show "unat w + 4097 \<le> 8589934591" using unat_u32_less [of w] by linarith
  qed simp
  then show ?thesis by simp
qed

lemma end_of_data_quiet:
  assumes "std_ctx hs (st_ctx s)"
  shows "vhd_end_of_data s = (Inr (of_nat (512 * data_end hs (st_ctx s))), s)"
proof -
  let ?c = "st_ctx s"
  note c = std_ctxD [OF assms]
  have u: "unat (of_nat (512 * hs) :: u64) = 512 * hs" using c(16) by (intro unat_of_nat_small) simp
  then have m: "unat (signed_drop_bit VHD_SECTOR_SHIFT (of_nat (512 * hs)) :: u64) = hs"
    using c(16) by (subst signed_drop_bit_small) (simp_all add: VHD_SECTOR_SHIFT_def)
  let ?b = "bat_max 4097 (signed_drop_bit VHD_SECTOR_SHIFT (of_nat (512 * hs)))
    (take (nblocks ?c) (bat_words ?c))"
  have b: "unat ?b = data_end hs ?c"
    using bat_max_data_secs [of "signed_drop_bit VHD_SECTOR_SHIFT (of_nat (512 * hs))"] m c(16)
    by (simp add: data_end_def)
  then have "?b = of_nat (data_end hs ?c)" by (metis of_nat_unat ucast_id)
  then have "vhd_sectors_to_bytes ?b = of_nat (512 * data_end hs ?c)"
    using data_end_less [OF c(16), of ?c] by (simp only: sectors_to_bytes_of_nat)
  then show ?thesis
    using c get_bat_quiet [OF c(1) c(11)] end_of_headers_quiet [OF assms]
    by (simp add: vhd_end_of_data_def with_ctx_app vbind_def vdefined_def vret_def nblocks_def)
qed

section \<open>Writing the BAT\<close>

definition bat_image :: "vhd_context \<Rightarrow> bytes" where
  "bat_image c = bat_bytes (swap_first (nblocks c) (take (bat_file_size c div 4) (bat_words c)))"

lemma bat_file_size_div: "4 * (bat_file_size c div 4) = bat_file_size c"
  by (simp add: bat_file_size_def bytes_padded_mult)

lemma length_bat_image: "bat_file_size c \<le> 4 * length (bat_words c) \<Longrightarrow> length (bat_image c) = bat_file_size c"
  using bat_file_size_div [of c] by (simp add: bat_image_def)

lemma write_bat_quiet:
  assumes "quiet s" and "cur_file s = Some f" and "\<not> f_blk f" and "std_ctx hs (st_ctx s)"
  shows "vhd_write_bat (ctx_bat (st_ctx s)) s =
    (Inr (), st_with (unat (hdr_table_offset (ctx_header (st_ctx s))) + bat_file_size (st_ctx s))
      (file_write f (unat (hdr_table_offset (ctx_header (st_ctx s)))) (bat_image (st_ctx s))) s)"
proof -
  let ?c = "st_ctx s"
  note c = std_ctxD [OF assms(4)]
  have off: "sint (hdr_table_offset (ctx_header ?c)) = int (unat (hdr_table_offset (ctx_header ?c)))"
    using c(16,17) by (intro sint_small) simp
  have l: "length (bat_image ?c) = bat_file_size ?c" using c(13) by (rule length_bat_image)
  moreover have "0 < bat_file_size ?c" unfolding bat_file_size_def by (rule bytes_padded_pos)
  ultimately have ne: "bat_image ?c \<noteq> []" by auto
  have v: "vhd_validate_bat (ctx_bat ?c) = 0" using c(11) by (simp add: vhd_validate_bat_def)
  have img: "bat_bytes (case bat_bat (vhd_bat_out ((ctx_bat ?c)\<lparr>bat_bat :=
      Some (take (bat_file_size ?c div 4) (bat_words ?c))\<rparr>)) of None \<Rightarrow> [] | Some ws \<Rightarrow> ws) = bat_image ?c"
    by (simp add: vhd_bat_out_def bat_image_def nblocks_def)
  let ?p = "unat (hdr_table_offset (ctx_header ?c))"
  have "vhd_write (bat_image ?c) (at_pos ?p s) =
      (Inr (), st_with (?p + bat_file_size ?c) (file_write f ?p (bat_image ?c)) s)"
    using write_here_quiet [of "at_pos ?p s" f "bat_image ?c"] assms(1-3) ne l by simp
  then show ?thesis
    using assms(1,2) c(1,11,13) v off img
    by (simp add: vhd_write_bat_def with_ctx_app vbind_def Let_def vret_def vdefined_def valloc_quiet
        seek_quiet flip: bat_file_size_def)
qed

section \<open>Frame of the virtual disk\<close>

definition set_words :: "u32 list \<Rightarrow> vhd_context \<Rightarrow> vhd_context" where
  "set_words ws c = c\<lparr>ctx_bat := (ctx_bat c)\<lparr>bat_bat := Some ws\<rparr>\<rparr>"

lemma set_words_simps [simp]:
  "bat_words (set_words ws c) = ws" "nblocks (set_words ws c) = nblocks c"
  "bat_file_size (set_words ws c) = bat_file_size c" "ctx_footer (set_words ws c) = ctx_footer c"
  "ctx_header (set_words ws c) = ctx_header c" "ctx_file (set_words ws c) = ctx_file c"
  "ctx_spb (set_words ws c) = ctx_spb c" "ctx_bm_secs (set_words ws c) = ctx_bm_secs c"
  "ctx_oflags (set_words ws c) = ctx_oflags c" "ctx_is_block (set_words ws c) = ctx_is_block c"
  "ctx_batmap (set_words ws c) = ctx_batmap c"
  by (simp_all add: set_words_def bat_words_def nblocks_def bat_file_size_def)

lemma footer_determines:
  assumes "ctx_footer c' = ctx_footer c"
  shows "vhd_bitmap_test c' = vhd_bitmap_test c" "vhd_type_dynamic c' = vhd_type_dynamic c"
    "no_batmap c' = no_batmap c" "vhd_bitmap_set c' = vhd_bitmap_set c"
  using assms by (auto simp: fun_eq_iff vhd_bitmap_test_def vhd_bitmap_set_def vhd_creator_tapdisk_def
      vhd_type_dynamic_def no_batmap_def)

lemma std_ctx_set_words:
  assumes "std_ctx hs c" and "length ws = length (bat_words c)"
  shows "std_ctx hs (set_words ws c)"
  using assms footer_determines [of "set_words ws c" c]
  by (simp add: std_ctx_def headers_end_def) (simp add: set_words_def)

lemma vlayer_frame:
  assumes "ctx_footer c' = ctx_footer c" and "bat_words c' ! (x div 2097152) = bat_words c ! (x div 2097152)"
    and "allocated c (x div 2097152) \<Longrightarrow> (\<And>i. 512 * start c (x div 2097152) \<le> i \<Longrightarrow>
      i < 512 * (start c (x div 2097152) + 4097) \<Longrightarrow> f_data f' i = f_data f i)"
  shows "vlayer c' f' x = vlayer c f x"
proof (cases "allocated c (x div 2097152)")
  case False
  with assms(2) show ?thesis by (simp add: vlayer_def allocated_def Let_def)
next
  case True
  let ?w = "start c (x div 2097152)"
  note same = assms(3) [OF True]
  have "file_read f' (512 * ?w) 512 = file_read f (512 * ?w) 512"
    by (rule nth_equalityI) (simp_all add: same)
  moreover obtain r where r: "x mod 2097152 = r" "r < 2097152" by simp
  then have "f_data f' (512 * (?w + 1) + x mod 2097152) = f_data f (512 * (?w + 1) + x mod 2097152)"
    unfolding r(1) by (intro same) simp_all
  ultimately show ?thesis
    using assms(2) footer_determines [OF assms(1)] by (simp add: vlayer_def Let_def)
qed

text \<open>A write outside the allocated blocks, which may also lengthen the file, changes neither the
  invariant nor the virtual disk.\<close>

lemma image_core_upd:
  assumes "image_core hs s f" and "std_ctx hs (g (st_ctx s))" and "ctx_file (g (st_ctx s)) = ctx_file (st_ctx s)"
    and "blocks_ok hs (g (st_ctx s)) (f_size f')" and "\<not> f_blk f'"
  shows "image_core hs (upd_ctx g (st_with p f' s)) f'"
  using assms by (simp add: image_core_def cur_file_upd_ctx)

lemma image_core_st_with:
  assumes "image_core hs s f" and "f_size f \<le> f_size f'" and "\<not> f_blk f'"
  shows "image_core hs (st_with p f' s) f'"
  using assms by (auto simp: image_core_def blocks_ok_def intro: order_trans)

lemma blocks_okD:
  assumes "blocks_ok hs c sz" and "i < nblocks c" and "allocated c i"
  shows "hs \<le> start c i" and "512 * (start c i + 4097) \<le> sz"
    and "j < nblocks c \<Longrightarrow> i \<noteq> j \<Longrightarrow> allocated c j \<Longrightarrow>
      start c i + 4097 \<le> start c j \<or> start c j + 4097 \<le> start c i"
  using assms by (auto simp: blocks_ok_def)

lemma blocks_ok_mono: "blocks_ok hs c sz \<Longrightarrow> sz \<le> sz' \<Longrightarrow> blocks_ok hs c sz'"
  by (auto simp: blocks_ok_def intro: order_trans)

lemma blocks_ok_data_end:
  assumes "std_ctx hs c" and "blocks_ok hs c sz"
  shows "blocks_ok hs c (512 * data_end hs c)"
  unfolding blocks_ok_def
proof (intro conjI allI impI)
  fix i
  assume i: "i < nblocks c" "allocated c i"
  from blocks_okD(1) [OF assms(2) this] show "hs \<le> start c i" .
  from data_end_bound [OF i(1) std_ctxD(12) [OF assms(1)] i(2)]
  show "512 * (start c i + 4097) \<le> 512 * data_end hs c" by (rule mult_le_mono2)
qed (use blocks_okD(3) [OF assms(2)] in blast)

section \<open>Allocation of a block\<close>

lemma sint_small32:
  assumes "unat (w :: u32) < 2147483648"
  shows "sint w = int (unat w)"
proof -
  have "uint w < 2147483648" unfolding uint_nat by (metis assms of_nat_less_iff of_nat_numeral)
  then have "signed_take_bit 31 (uint w) = uint w"
    by (intro signed_take_bit_int_eq_self) (auto intro: order_trans [of _ 0])
  then show ?thesis unfolding uint_nat [symmetric] by (simp add: sint_uint)
qed

lemma scast_of_nat_u32:
  assumes "n < 2147483648"
  shows "(scast (of_nat n :: u32) :: u64) = of_nat n"
proof -
  have u: "unat (of_nat n :: u32) = n" using assms by (intro unat_of_nat_u32) simp
  then have "sint (of_nat n :: u32) = int n" using assms sint_small32 [of "of_nat n"] by simp
  then show ?thesis by (simp add: scast_eq)
qed

end
