(* ===== verification/Vhd_Alloc.thy ===== *)
theory Vhd_Alloc
  imports Vhd_Image_Ops
begin

text \<open>
  Block allocation: where the new block lies, that its data begin on a page boundary, and that
  allocation keeps the invariant of the image and the contents of the virtual disk.
\<close>

definition alloc_words :: "nat \<Rightarrow> vhd_context \<Rightarrow> nat \<Rightarrow> nat \<Rightarrow> u32 list" where
  "alloc_words hs c gap b = (bat_words c)[b := of_nat (data_end hs c + gap)]"

definition alloc_file :: "nat \<Rightarrow> vhd_context \<Rightarrow> nat \<Rightarrow> nat \<Rightarrow> vfile \<Rightarrow> vfile" where
  "alloc_file hs c gap b f =
     file_write (file_write f (512 * data_end hs c) (zeros (512 * (4097 + gap))))
       (unat (hdr_table_offset (ctx_header c))) (bat_image (set_words (alloc_words hs c gap b) c))"

lemma alloc_gap_aligned:
  assumes "0 < spp"
  shows "alloc_gap spp (of_nat D) 1 < spp"
    and "D < 9223372036854775807 \<Longrightarrow> spp dvd D + alloc_gap spp (of_nat D) 1 + 1"
proof -
  show "alloc_gap spp (of_nat D) 1 < spp" using assms by (auto simp: alloc_gap_def Let_def)
  assume "D < 9223372036854775807"
  then have "sint (of_nat D :: u64) = int D" by (subst sint_small) (simp_all add: unat_of_nat_small)
  then have r: "alloc_gap spp (of_nat D) 1 = (let r = (D + 1) mod spp in if r = 0 then 0 else spp - r)"
    by (simp add: alloc_gap_def Let_def nat_mod_distrib nat_add_distrib flip: of_nat_Suc zmod_int)
  show "spp dvd D + alloc_gap spp (of_nat D) 1 + 1"
  proof (cases "(D + 1) mod spp = 0")
    case True
    then show ?thesis by (simp add: r mod_eq_0_iff_dvd)
  next
    case False
    define q where "q = (D + 1) div spp"
    have "(D + 1) mod spp < spp" using assms by simp
    moreover have "D + 1 = spp * q + (D + 1) mod spp" unfolding q_def by (rule mult_div_mod_eq [symmetric])
    ultimately have "D + 1 + (spp - (D + 1) mod spp) = spp * q + spp" by linarith
    then have "D + 1 + (spp - (D + 1) mod spp) = spp * (q + 1)" by simp
    then show ?thesis using False by (simp add: r Let_def add.commute add.left_commute)
  qed
qed

text \<open>The gap in front of a block.\<close>

definition gap_of :: "libc \<Rightarrow> nat \<Rightarrow> nat" where
  "gap_of lc D = alloc_gap (lc_pagesize lc div 512) (of_nat D) 1"

lemma allocate_quiet:
  assumes core: "image_core hs s f" and b: "b < nblocks (st_ctx s)"
    and spp: "0 < lc_pagesize lc div 512" "lc_pagesize lc div 512 \<le> 8"
    and room: "data_end hs (st_ctx s) + 4105 < 4294967295"
  shows "vhd_io_allocate_block lc (of_nat b) s =
    (let c = st_ctx s; gap = gap_of lc (data_end hs c) in
     (Inr (), upd_ctx (set_words (alloc_words hs c gap b))
       (st_with (unat (hdr_table_offset (ctx_header c)) + bat_file_size c) (alloc_file hs c gap b f) s)))"
proof -
  define c where "c = st_ctx s"
  define D where "D = data_end hs c"
  define gap where "gap = gap_of lc D"
  define f1 where "f1 = file_write f (512 * D) (zeros (512 * (4097 + gap)))"
  define s1 where "s1 = st_with (512 * D + 512 * (4097 + gap)) f1 s"
  define ws where "ws = alloc_words hs c gap b"
  from core have q: "quiet s" and cf: "cur_file s = Some f" and blk: "\<not> f_blk f" and std: "std_ctx hs c"
    by (simp_all add: image_core_def c_def)
  note cc = std_ctxD [OF std]
  have g: "gap < 8" using alloc_gap_aligned(1) [OF spp(1)] spp(2) by (auto simp: gap_def gap_of_def intro: less_le_trans)
  have D: "D < 4294967295" "1 \<le> D" using room data_end_ge [of hs c] cc(15) by (simp_all add: D_def c_def)
  have eod: "vhd_end_of_data s = (Inr (of_nat (512 * D)), s)"
    using end_of_data_quiet [of hs s] std by (simp add: D_def c_def)
  have uD: "unat (of_nat (512 * D) :: u64) = 512 * D" using D by (intro unat_of_nat_small) simp
  have so: "sint (of_nat (512 * D) :: u64) = int (512 * D)" using D uD by (subst sint_small) simp_all
  have sd: "signed_drop_bit VHD_SECTOR_SHIFT (of_nat (512 * D) :: u64) = of_nat D"
  proof -
    have "unat (signed_drop_bit VHD_SECTOR_SHIFT (of_nat (512 * D) :: u64)) = D"
      using D uD by (subst signed_drop_bit_small) (simp_all add: VHD_SECTOR_SHIFT_def)
    then show ?thesis by (metis of_nat_unat ucast_id)
  qed
  have n: "unat (vhd_sectors_to_bytes (scast (1 + of_nat gap + 4096 :: u32))) = 512 * (4097 + gap)"
  proof -
    have "(1 + of_nat gap + 4096 :: u32) = of_nat (4097 + gap)" by simp
    moreover have "unat (of_nat (4097 + gap) :: u64) = 4097 + gap" using g by (intro unat_of_nat_small) simp
    ultimately show ?thesis using g
      by (simp only: scast_of_nat_u32) (subst unat_sectors_to_bytes; simp)
  qed
  have mx: "(ucast (of_nat D + of_nat gap :: u64) :: u32) = of_nat (D + gap)"
    using D g by (simp add: unsigned_of_nat take_bit_nat_eq_self flip: of_nat_add)
  have ub: "unat (of_nat b :: u32) = b"
    using less_trans [OF b [unfolded nblocks_def] unat_u32_less] by (intro unat_of_nat_u32) simp
  have bl: "b < length (bat_words c)" using b cc(12) by (simp add: c_def)
  have wr: "vhd_write (zeros (512 * (4097 + gap))) (at_pos (512 * D) s) = (Inr (), s1)"
    using write_here_quiet [of "at_pos (512 * D) s" f "zeros (512 * (4097 + gap))"] q cf blk
    by (simp add: s1_def f1_def zeros_def)
  let ?s2 = "upd_ctx (\<lambda>c. c\<lparr>ctx_bat := (ctx_bat c)\<lparr>bat_bat := Some ((bat_words c)[b := of_nat (D + gap)])\<rparr>\<rparr>) s1"
  have s2: "?s2 = upd_ctx (set_words ws) s1"
    by (simp add: upd_ctx_def set_words_def ws_def alloc_words_def D_def s1_def flip: c_def)
  have c2: "st_ctx (upd_ctx (set_words ws) s1) = set_words ws c" by (simp add: s1_def c_def)
  have std2: "std_ctx hs (set_words ws c)" using std by (simp add: std_ctx_set_words ws_def alloc_words_def)
  have wb: "vhd_write_bat (ctx_bat (set_words ws c)) (upd_ctx (set_words ws) s1) =
    (Inr (), st_with (unat (hdr_table_offset (ctx_header c)) + bat_file_size c)
      (file_write f1 (unat (hdr_table_offset (ctx_header c))) (bat_image (set_words ws c))) (upd_ctx (set_words ws) s1))"
    using write_bat_quiet [of "upd_ctx (set_words ws) s1" f1 hs] q blk std2 c2
    by (simp add: s1_def f1_def cur_file_upd_ctx c_def)
  have fin: "st_with p g (upd_ctx (set_words ws) s1) = upd_ctx (set_words ws) (st_with p g s)" for p g
    by (simp add: st_with_upd_ctx s1_def)
  have nd: "nat (512 * int D) = 512 * D" by (simp add: nat_mult_distrib)
  have sb: "ctx_bat (set_words ws c) = (ctx_bat c)\<lparr>bat_bat := Some ((bat_words c)[b := of_nat (D + gap)])\<rparr>"
    by (simp add: set_words_def ws_def alloc_words_def D_def c_def)
  have body: "vhd_io_allocate_block lc (of_nat b) s =
      vhd_write_bat (ctx_bat (set_words ws c)) (upd_ctx (set_words ws) s1)"
    using eod spp(1) cc(4,5,7) so sd n mx ub bl wr q cf s2 c2 sb
    by (simp add: vhd_io_allocate_block_def vbind_def with_ctx_app vdefined_def vret_def vmodify_def Let_def
        seek_quiet valloc_quiet gap_def gap_of_def s1_def nd flip: c_def)
  show ?thesis
    unfolding body wb fin by (simp add: Let_def alloc_file_def f1_def gap_def ws_def D_def flip: c_def)
qed

section \<open>What allocation keeps\<close>

lemma test_bit_zeros: "j < 4096 \<Longrightarrow> \<not> test_bit (zeros 512) j"
  by (simp add: test_bit_iff less_mult_imp_div_less)

lemma old_test_bit_zeros: "j < 4096 \<Longrightarrow> \<not> old_test_bit (zeros 512) j"
proof -
  assume "j < 4096"
  then have "j div 32 < 128" by (simp add: less_mult_imp_div_less)
  then have "field (4 * (j div 32)) 4 (zeros 512) = zeros 4"
    by (intro nth_equalityI) (auto simp: field_def zeros_def)
  moreover have "le_word (zeros 4) = (0 :: u32)" by (simp add: zeros_def numeral_eq_Suc)
  ultimately show ?thesis by (simp add: old_test_bit_iff word_at_def)
qed

lemma bitmap_test_zeros: "j < 4096 \<Longrightarrow> \<not> vhd_bitmap_test c (zeros 512) j"
  by (simp add: vhd_bitmap_test_def test_bit_zeros old_test_bit_zeros)

lemma alloc_file_data:
  assumes std: "std_ctx hs c" and blk: "\<not> f_blk f"
  shows "i < 512 * data_end hs c \<Longrightarrow> i < f_size f \<Longrightarrow> 512 * hs \<le> i \<Longrightarrow>
      f_data (alloc_file hs c gap b f) i = f_data f i"
    and "512 * data_end hs c \<le> i \<Longrightarrow> i < 512 * (data_end hs c + gap + 4097) \<Longrightarrow>
      f_data (alloc_file hs c gap b f) i = 0"
    and "f_size (alloc_file hs c gap b f) = max (f_size f) (512 * (data_end hs c + gap + 4097))"
    and "\<not> f_blk (alloc_file hs c gap b f)"
proof -
  let ?D = "data_end hs c" and ?t = "unat (hdr_table_offset (ctx_header c))"
  let ?f1 = "file_write f (512 * ?D) (zeros (512 * (4097 + gap)))"
  let ?img = "bat_image (set_words (alloc_words hs c gap b) c)"
  note cc = std_ctxD [OF std]
  have "length ?img = bat_file_size c"
    using length_bat_image [of "set_words (alloc_words hs c gap b) c"] cc(13) by (simp add: alloc_words_def)
  then have img: "?t + length ?img \<le> 512 * hs" using cc(17) by simp
  have hD: "512 * hs \<le> 512 * ?D" using data_end_ge by (rule mult_le_mono2)
  have sz1: "f_size ?f1 = max (f_size f) (512 * (?D + gap + 4097))"
    using blk by (simp add: f_size_file_write algebra_simps)
  show sz: "f_size (alloc_file hs c gap b f) = max (f_size f) (512 * (?D + gap + 4097))"
    using blk img hD by (simp add: alloc_file_def f_size_file_write max_def)
  show "\<not> f_blk (alloc_file hs c gap b f)" using blk by (simp add: alloc_file_def)
  have out: "f_data (alloc_file hs c gap b f) i = f_data ?f1 i" if "512 * hs \<le> i" "i < f_size ?f1" for i
    unfolding alloc_file_def using that img by (intro file_write_outside) auto
  show "f_data (alloc_file hs c gap b f) i = f_data f i"
    if "i < 512 * ?D" "i < f_size f" "512 * hs \<le> i" for i
    using that out [of i] sz1 by (simp add: file_write_outside)
  show "f_data (alloc_file hs c gap b f) i = 0"
    if "512 * ?D \<le> i" "i < 512 * (?D + gap + 4097)" for i
    using that out [of i] sz1 hD by (simp add: file_write_inside algebra_simps)
qed

lemma allocate_keeps:
  assumes core: "image_core hs s f" and b: "b < nblocks (st_ctx s)" and na: "\<not> allocated (st_ctx s) b"
    and room: "data_end hs (st_ctx s) + 4105 < 4294967295" and g: "gap < 8"
  defines "c \<equiv> st_ctx s"
  defines "c' \<equiv> set_words (alloc_words hs c gap b) c"
  defines "f' \<equiv> alloc_file hs c gap b f"
  shows "start c' b = data_end hs c + gap" and "allocated c' b"
    and "\<And>j. j \<noteq> b \<Longrightarrow> bat_words c' ! j = bat_words c ! j"
    and "std_ctx hs c'" and "blocks_ok hs c' (f_size f')"
    and "\<And>x. x < nblocks c * 2097152 \<Longrightarrow> vlayer c' f' x = vlayer c f x"
    and "data_end hs c' \<le> data_end hs c + 4105"
proof -
  let ?D = "data_end hs c"
  from core have blk: "\<not> f_blk f" and std: "std_ctx hs c" and ok: "blocks_ok hs c (f_size f)"
    by (simp_all add: image_core_def c_def)
  note cc = std_ctxD [OF std] and fd = alloc_file_data [OF std blk, where gap = gap and b = b]
  have bl: "b < length (bat_words c)" using b cc(12) by (simp add: c_def)
  have u: "unat (of_nat (?D + gap) :: u32) = ?D + gap" using room g by (intro unat_of_nat_u32) (simp add: c_def)
  have w: "bat_words c' = (bat_words c)[b := of_nat (?D + gap)]" by (simp add: c'_def alloc_words_def)
  show st: "start c' b = ?D + gap" using bl u by (simp add: w)
  have ne: "(of_nat (?D + gap) :: u32) \<noteq> DD_BLK_UNUSED"
  proof
    assume "(of_nat (?D + gap) :: u32) = DD_BLK_UNUSED"
    with u have "?D + gap = unat DD_BLK_UNUSED" by simp
    then show False using room g by (simp add: DD_BLK_UNUSED_def c_def)
  qed
  show al: "allocated c' b" using ne bl by (simp add: allocated_def w)
  show oth: "bat_words c' ! j = bat_words c ! j" if "j \<noteq> b" for j using that by (simp add: w)
  show std': "std_ctx hs c'" using std by (simp add: c'_def std_ctx_set_words alloc_words_def)
  have nb: "nblocks c' = nblocks c" by (simp add: c'_def)
  have aj: "allocated c' j = allocated c j" "start c' j = start c j" if "j \<noteq> b" for j
    using oth [OF that] by (simp_all add: allocated_def)
  have le: "start c j + 4097 \<le> ?D" if "j < nblocks c" "allocated c j" for j
    using data_end_bound [OF that(1) cc(12) that(2)] .
  show "blocks_ok hs c' (f_size f')"
    unfolding blocks_ok_def
  proof (intro conjI allI impI)
    fix i
    assume i: "i < nblocks c'" "allocated c' i"
    show "hs \<le> start c' i"
      using i nb aj st blocks_okD(1) [OF ok] data_end_ge [of hs c] by (cases "i = b") auto
    show "512 * (start c' i + 4097) \<le> f_size f'"
    proof (cases "i = b")
      case True
      then show ?thesis by (simp add: st f'_def fd(3) algebra_simps)
    next
      case False
      with i nb aj blocks_okD(2) [OF ok, of i] show ?thesis by (simp add: f'_def fd(3))
    qed
  next
    fix i j
    assume i: "i < nblocks c'" and j: "j < nblocks c'" and ij: "i \<noteq> j \<and> allocated c' i \<and> allocated c' j"
    show "start c' i + 4097 \<le> start c' j \<or> start c' j + 4097 \<le> start c' i"
    proof (cases "i = b \<or> j = b")
      case True
      with i j ij nb aj trans_le_add1 [OF le, of _ gap] show ?thesis by (auto simp: st)
    next
      case False
      with i j ij nb aj blocks_okD(3) [OF ok, of i j] show ?thesis by auto
    qed
  qed
  show "vlayer c' f' x = vlayer c f x" if x: "x < nblocks c * 2097152" for x
  proof (cases "x div 2097152 = b")
    case False
    have d: "x div 2097152 < nblocks c" using x by (simp add: less_mult_imp_div_less)
    show ?thesis
    proof (rule vlayer_frame)
      show "ctx_footer c' = ctx_footer c" by (simp add: c'_def)
      show "bat_words c' ! (x div 2097152) = bat_words c ! (x div 2097152)" using oth False by simp
      fix i
      assume al: "allocated c (x div 2097152)" and i: "512 * start c (x div 2097152) \<le> i"
        "i < 512 * (start c (x div 2097152) + 4097)"
      have "i < 512 * ?D" using i(2) mult_le_mono2 [OF le [OF d al], of 512] by linarith
      moreover have "512 * hs \<le> i" using i(1) mult_le_mono2 [OF blocks_okD(1) [OF ok d al], of 512] by linarith
      moreover have "i < f_size f" using i(2) blocks_okD(2) [OF ok d al] by linarith
      ultimately show "f_data f' i = f_data f i" by (simp add: f'_def fd(1))
    qed
  next
    case True
    obtain r where r: "x mod 2097152 = r" "r < 2097152" by simp
    have "file_read f' (512 * (?D + gap)) 512 = zeros 512"
      by (intro nth_equalityI) (simp_all add: f'_def fd(2))
    moreover have "r div 512 < 4096" using r(2) by (simp add: less_mult_imp_div_less)
    ultimately have "vlayer c' f' x = None"
      using True st al bitmap_test_zeros by (simp add: vlayer_def Let_def r(1))
    moreover have "vlayer c f x = None" using True na by (simp add: vlayer_def allocated_def c_def)
    ultimately show ?thesis by simp
  qed
  show "data_end hs c' \<le> ?D + 4105"
    unfolding data_end_def [of hs c']
  proof (rule data_secs_least)
    show "hs \<le> ?D + 4105" using data_end_ge [of hs c] by simp
    fix v
    assume "v \<in> set (take (nblocks c') (bat_words c'))" and "v \<noteq> DD_BLK_UNUSED"
    then obtain i where i: "i < nblocks c'" "v = bat_words c' ! i" and a: "allocated c' i"
      by (auto simp: in_set_conv_nth allocated_def)
    show "unat v + 4097 \<le> ?D + 4105"
      using i nb aj le [of i] st a g by (cases "i = b") auto
  qed
qed

end
