(* ===== verification/Vhd_Block_Write.thy ===== *)
theory Vhd_Block_Write
  imports Vhd_Alloc
begin

text \<open>
  Writing sectors of one block on a well-formed image: the state it leads to, and its effect on
  the virtual disk.
\<close>

section \<open>The bitmap of a block\<close>

lemma bat_entry_quiet:
  "b < length (bat_words (st_ctx s)) \<Longrightarrow> bat_entry b s = (Inr (bat_words (st_ctx s) ! b), s)"
  by (simp add: bat_entry_def with_ctx_app vbind_def vdefined_def vret_def)

lemma unat_of_nblocks: "b < nblocks c \<Longrightarrow> unat (of_nat b :: u32) = b"
  unfolding nblocks_def by (intro unat_of_nat_u32) (rule less_trans, assumption, simp)

lemma of_nat_less_entries: "b < nblocks c \<Longrightarrow> (of_nat b :: u32) < bat_entries (ctx_bat c)"
  unfolding word_less_nat_alt by (simp add: unat_of_nblocks [of _ c]) (simp add: nblocks_def)

lemma seek_sectors_quiet:
  assumes "quiet s" and "cur_file s = Some f"
  shows "vhd_seek (sint (vhd_sectors_to_bytes (ucast (w :: u32)))) SEEK_SET s = (Inr (), at_pos (512 * unat w) s)"
  unfolding sint_ucast_sectors using seek_quiet [OF assms, of "int (512 * unat w)"]
  by (simp only: nat_int of_nat_0_le_iff)

lemma bm_bytes: "unat (vhd_bytes_padded (ucast (drop_bit 3 (4096 :: u32)))) = 512"
  by (simp add: vhd_bytes_padded_def secs_round_up_no_zero_def secs_round_up_def vhd_sectors_to_bytes_def
      VHD_SECTOR_SIZE_def VHD_SECTOR_SHIFT_def)

lemma read_bitmap_quiet:
  assumes q: "quiet s" and cf: "cur_file s = Some f" and std: "std_ctx hs (st_ctx s)"
    and b: "b < nblocks (st_ctx s)" and al: "allocated (st_ctx s) b"
    and sz: "512 * start (st_ctx s) b + 512 \<le> f_size f"
  shows "vhd_read_bitmap (of_nat b) s =
    (Inr (file_read f (512 * start (st_ctx s) b) 512), st_with (512 * start (st_ctx s) b + 512) f s)"
proof -
  let ?c = "st_ctx s"
  note c = std_ctxD [OF std]
  have bl: "b < length (bat_words ?c)" using b c(12) by simp
  have rd: "vhd_read 512 (at_pos (512 * start ?c b) s) =
      (Inr (file_read f (512 * start ?c b) 512), st_with (512 * start ?c b + 512) f s)"
    using read_here_quiet [of "at_pos (512 * start ?c b) s" f 512] q cf sz by simp
  show ?thesis
    using c(1,4) get_bat_quiet [OF c(1) c(11)] bat_entry_quiet [OF bl] al unat_of_nblocks [OF b]
      of_nat_less_entries [OF b] rd q cf bm_bytes
    by (simp add: vhd_read_bitmap_def with_ctx_app vbind_def allocated_def valloc_quiet
        seek_sectors_quiet [where f = f] linorder_not_le [symmetric])
qed

lemma write_bitmap_quiet:
  assumes q: "quiet s" and cf: "cur_file s = Some f" and blk: "\<not> f_blk f" and std: "std_ctx hs (st_ctx s)"
    and b: "b < nblocks (st_ctx s)" and al: "allocated (st_ctx s) b" and m: "length m = 512"
  shows "vhd_write_bitmap (of_nat b) ALIGNED_ADDR m s =
    (Inr (), st_with (512 * start (st_ctx s) b + 512) (file_write f (512 * start (st_ctx s) b) m) s)"
proof -
  let ?c = "st_ctx s"
  note c = std_ctxD [OF std]
  have bl: "b < length (bat_words ?c)" using b c(12) by simp
  have sz: "unat (vhd_sectors_to_bytes (ucast (1 :: u32))) = 512"
    by (simp add: vhd_sectors_to_bytes_def VHD_SECTOR_SHIFT_def)
  have v: "vhd_validate_bat (ctx_bat ?c) = 0" using c(11) by (simp add: vhd_validate_bat_def)
  have al': "ALIGNED_ADDR AND 511 = 0" by (simp add: ALIGNED_ADDR_def)
  have "m \<noteq> []" using m by auto
  then have wr: "vhd_write m (at_pos (512 * start ?c b) s) =
      (Inr (), st_with (512 * start ?c b + 512) (file_write f (512 * start ?c b) m) s)"
    using write_here_quiet [of "at_pos (512 * start ?c b) s" f m] q cf blk m by simp
  show ?thesis
    using c(1,5) v bat_entry_quiet [OF bl] al unat_of_nblocks [OF b]
      of_nat_less_entries [OF b] wr q cf sz m al'
    by (simp add: vhd_write_bitmap_def with_ctx_app vbind_def allocated_def vret_def vdefined_def
        seek_sectors_quiet [where f = f] linorder_not_le [symmetric])
qed

lemma bitmap_wf_512: "length m = 512 \<Longrightarrow> bitmap_wf m \<and> bitmap_cap m = 4096"
  by (simp add: bitmap_wf_def bitmap_cap_def)

lemma set_bits_facts:
  assumes m: "length m = 512" and lh: "lo \<le> hi" "hi \<le> 4096"
  shows "length (set_bits c lo hi m) = 512"
    and "j < 4096 \<Longrightarrow> vhd_bitmap_test c (set_bits c lo hi m) j \<longleftrightarrow> lo \<le> j \<and> j < hi \<or> vhd_bitmap_test c m j"
proof -
  have wf: "bitmap_wf m" "bitmap_cap m = 4096" using bitmap_wf_512 [OF m] by auto
  have r: "lo + (hi - lo) \<le> bitmap_cap m" using lh wf by simp
  show "length (set_bits c lo hi m) = 512"
    using ctx_bits.set_range_wf_cap(2) [OF wf(1) r, of c] lh m
    by (simp add: set_bits_def bitmap_cap_def)
  show "vhd_bitmap_test c (set_bits c lo hi m) j \<longleftrightarrow> lo \<le> j \<and> j < hi \<or> vhd_bitmap_test c m j" if "j < 4096"
    using ctx_bits.tst_set_range [OF wf(1) r, of j c] lh that wf by (simp add: set_bits_def)
qed

lemma mark_written_quiet:
  assumes q: "quiet s" and cf: "cur_file s = Some f" and blk: "\<not> f_blk f" and std: "std_ctx hs (st_ctx s)"
    and b: "b < nblocks (st_ctx s)" and al: "allocated (st_ctx s) b"
    and sz: "512 * start (st_ctx s) b + 512 \<le> f_size f" and lh: "lo \<le> hi" "hi \<le> 4096"
  shows "mark_written (of_nat b) lo hi s = (Inr 0, st_with (512 * start (st_ctx s) b + 512)
    (file_write f (512 * start (st_ctx s) b)
      (set_bits (st_ctx s) lo hi (file_read f (512 * start (st_ctx s) b) 512))) s)"
proof -
  let ?c = "st_ctx s"
  let ?m = "file_read f (512 * start ?c b) 512"
  note c = std_ctxD [OF std]
  have l: "length (set_bits ?c lo hi ?m) = 512" by (rule set_bits_facts(1) [OF _ lh]) simp
  have wb: "vhd_write_bitmap (of_nat b) ALIGNED_ADDR (set_bits ?c lo hi ?m)
      (st_with (512 * start ?c b + 512) f s) = (Inr (), st_with (512 * start ?c b + 512)
      (file_write f (512 * start ?c b) (set_bits ?c lo hi ?m)) s)"
    using write_bitmap_quiet [of "st_with (512 * start ?c b + 512) f s" f hs b] q blk std b al l by simp
  show ?thesis
    using has_batmap_none [of s] has_batmap_none [of "st_with _ _ s"] c(3)
      read_bitmap_quiet [OF q cf std b al sz] wb lh(2)
    by (simp add: mark_written_def with_ctx_app vbind_def vret_def vdefined_def vcatch_def Let_def)
qed

section \<open>Data and bitmap\<close>

definition write_file :: "vhd_context \<Rightarrow> nat \<Rightarrow> nat \<Rightarrow> nat \<Rightarrow> bytes \<Rightarrow> vfile \<Rightarrow> vfile" where
  "write_file c b sec cnt data f =
     (let f1 = file_write f (512 * (start c b + 1 + sec)) data
      in file_write f1 (512 * start c b)
           (set_bits c sec (sec + cnt) (file_read f1 (512 * start c b) 512)))"

lemma write_allocated_quiet:
  assumes core: "image_core hs s f" and b: "b < nblocks (st_ctx s)" and al: "allocated (st_ctx s) b"
    and sec: "sec + cnt \<le> 4096" and data: "length data = 512 * cnt" and cnt: "0 < cnt"
  shows "vthen (vhd_seek (sint (vhd_sectors_to_bytes (ucast (bat_words (st_ctx s) ! b) +
             ucast (ctx_bm_secs (st_ctx s) + of_nat sec)))) SEEK_SET)
           (vthen (vhd_write data) (mark_written (of_nat b) sec (sec + cnt))) s =
    (Inr 0, st_with (512 * start (st_ctx s) b + 512) (write_file (st_ctx s) b sec cnt data f) s)"
proof -
  let ?c = "st_ctx s"
  from core have q: "quiet s" and cf: "cur_file s = Some f" and blk: "\<not> f_blk f" and std: "std_ctx hs ?c"
    and ok: "blocks_ok hs ?c (f_size f)" by (simp_all add: image_core_def)
  note c = std_ctxD [OF std]
  have lt: "start ?c b + 1 + sec < 4294972000" using sec unat_u32_less [of "bat_words ?c ! b"] by linarith
  have "unat (1 + of_nat sec :: u32) = 1 + sec"
    using sec unat_of_nat_u32 [of "1 + sec"] by simp
  then have u: "unat (ucast (bat_words ?c ! b) + ucast (1 + of_nat sec :: u32) :: u64) = start ?c b + 1 + sec"
    using lt by (simp add: unat_word_ariths)
  then have o1: "unat (vhd_sectors_to_bytes (ucast (bat_words ?c ! b) + ucast (1 + of_nat sec :: u32))) =
      512 * (start ?c b + 1 + sec)"
    using lt by (subst unat_sectors_to_bytes) simp_all
  then have off: "sint (vhd_sectors_to_bytes (ucast (bat_words ?c ! b) + ucast (1 + of_nat sec :: u32))) =
      int (512 * (start ?c b + 1 + sec))"
    using lt by (subst sint_small) simp_all
  let ?p = "512 * (start ?c b + 1 + sec)"
  let ?f1 = "file_write f ?p data"
  have "data \<noteq> []" using data cnt by auto
  then have wr: "vhd_write data (at_pos ?p s) = (Inr (), st_with (?p + 512 * cnt) ?f1 s)"
    using write_here_quiet [of "at_pos ?p s" f data] q cf blk data by simp
  have "512 * start ?c b + 512 \<le> f_size ?f1"
    using blocks_okD(2) [OF ok b al] blk by (simp add: f_size_file_write)
  then have mk: "mark_written (of_nat b) sec (sec + cnt) (st_with (?p + 512 * cnt) ?f1 s) =
      (Inr 0, st_with (512 * start ?c b + 512) (write_file ?c b sec cnt data f) s)"
    using mark_written_quiet [of "st_with (?p + 512 * cnt) ?f1 s" ?f1 hs b sec "sec + cnt"]
      q blk std b al sec by (simp add: write_file_def Let_def)
  have sk: "vhd_seek (int ?p) SEEK_SET s = (Inr (), at_pos ?p s)"
    using seek_quiet [OF q cf, of "int ?p"] by (simp only: nat_int of_nat_0_le_iff)
  show ?thesis
    unfolding c(5) off vbind_def sk by (simp only: wr mk prod.case sum.case)
qed

text \<open>The effect on the virtual disk.\<close>

lemma write_file_facts:
  assumes std: "std_ctx hs c" and blk: "\<not> f_blk f" and ok: "blocks_ok hs c (f_size f)"
    and b: "b < nblocks c" and al: "allocated c b"
    and sec: "sec + cnt \<le> 4096" and data: "length data = 512 * cnt"
  defines "f' \<equiv> write_file c b sec cnt data f"
  shows "f_size f' = f_size f" and "\<not> f_blk f'"
    and "\<And>x. x < nblocks c * 2097152 \<Longrightarrow> vlayer c f' x =
      (if b * 2097152 + 512 * sec \<le> x \<and> x < b * 2097152 + 512 * (sec + cnt)
       then Some (data ! (x - (b * 2097152 + 512 * sec))) else vlayer c f x)"
proof -
  let ?w = "start c b"
  let ?f1 = "file_write f (512 * (?w + 1 + sec)) data"
  let ?m = "set_bits c sec (sec + cnt) (file_read ?f1 (512 * ?w) 512)"
  have f': "f' = file_write ?f1 (512 * ?w) ?m" by (simp only: f'_def write_file_def Let_def)
  have fin: "512 * (?w + 4097) \<le> f_size f" by (rule blocks_okD(2) [OF ok b al])
  have lm: "length ?m = 512" by (rule set_bits_facts(1)) (use sec in simp_all)
  have s1: "f_size ?f1 = f_size f" using fin sec data blk by (simp add: f_size_file_write)
  then show s': "f_size f' = f_size f" using fin blk lm by (simp add: f' f_size_file_write)
  show "\<not> f_blk f'" using blk by (simp add: f')
  have bm: "file_read ?f1 (512 * ?w) 512 = file_read f (512 * ?w) 512"
    using fin by (intro nth_equalityI) (auto simp: file_write_outside)
  fix x
  assume x: "x < nblocks c * 2097152"
  obtain r where r: "x mod 2097152 = r" "r < 2097152" by simp
  define d where "d = x div 2097152"
  have xdr: "x = d * 2097152 + r" using div_mult_mod_eq [of x 2097152] by (simp add: d_def r(1))
  have dn: "d < nblocks c" using x by (simp add: d_def less_mult_imp_div_less)
  show "vlayer c f' x = (if b * 2097152 + 512 * sec \<le> x \<and> x < b * 2097152 + 512 * (sec + cnt)
      then Some (data ! (x - (b * 2097152 + 512 * sec))) else vlayer c f x)"
  proof (cases "d = b")
    case False
    have "vlayer c f' x = vlayer c f x"
    proof (rule vlayer_frame)
      fix i
      assume a: "allocated c (x div 2097152)" and i: "512 * start c (x div 2097152) \<le> i"
        "i < 512 * (start c (x div 2097152) + 4097)"
      have a': "allocated c d" using a by (simp add: d_def)
      have "?w + 4097 \<le> start c d \<or> start c d + 4097 \<le> ?w"
        using blocks_okD(3) [OF ok b al dn] False a' by blast
      then have "i < 512 * ?w \<or> 512 * (?w + 4097) \<le> i" using i by (auto simp: d_def)
      moreover have "i < f_size f" using i(2) blocks_okD(2) [OF ok dn a'] by (simp add: d_def)
      ultimately show "f_data f' i = f_data f i"
        using sec data lm s1 by (auto simp: f' file_write_outside)
    qed simp_all
    moreover have "\<not> (b * 2097152 + 512 * sec \<le> x \<and> x < b * 2097152 + 512 * (sec + cnt))"
    proof (cases "d < b")
      case True
      then have "(d + 1) * 2097152 \<le> b * 2097152" by (intro mult_le_mono1) simp
      then show ?thesis using xdr r(2) by simp
    next
      case False
      with \<open>d \<noteq> b\<close> have "(b + 1) * 2097152 \<le> d * 2097152" by (intro mult_le_mono1) simp
      then show ?thesis using xdr r(2) sec by simp
    qed
    ultimately show ?thesis by (simp only: if_False)
  next
    case True
    have rng: "(b * 2097152 + 512 * sec \<le> x \<and> x < b * 2097152 + 512 * (sec + cnt)) \<longleftrightarrow>
        (sec \<le> r div 512 \<and> r div 512 < sec + cnt)"
      using xdr True by (auto simp: less_eq_div_iff_mult_less_eq div_less_iff_less_mult algebra_simps)
    have "file_read f' (512 * ?w) 512 = ?m"
      using file_read_write_same [of ?f1 "512 * ?w" ?m] lm by (simp add: f')
    moreover have r4: "r div 512 < 4096" using r(2) by (simp add: less_mult_imp_div_less)
    ultimately have bit: "vhd_bitmap_test c (file_read f' (512 * ?w) 512) (r div 512) \<longleftrightarrow>
        (sec \<le> r div 512 \<and> r div 512 < sec + cnt) \<or> vhd_bitmap_test c (file_read f (512 * ?w) 512) (r div 512)"
      using set_bits_facts(2) [of "file_read ?f1 (512 * ?w) 512" sec "sec + cnt" "r div 512" c] sec bm by simp
    have dat: "f_data f' (512 * (?w + 1) + r) = f_data ?f1 (512 * (?w + 1) + r)"
      unfolding f' using lm s1 fin r(2) by (intro file_write_outside) simp_all
    have in_rng: "f_data ?f1 (512 * (?w + 1) + r) = data ! (r - 512 * sec)"
      if "sec \<le> r div 512 \<and> r div 512 < sec + cnt"
    proof -
      have "512 * sec \<le> r" "r < 512 * sec + 512 * cnt"
        using that by (auto simp: less_eq_div_iff_mult_less_eq div_less_iff_less_mult algebra_simps)
      then show ?thesis using data by (subst file_write_inside) (simp_all add: algebra_simps)
    qed
    have out_rng: "f_data ?f1 (512 * (?w + 1) + r) = f_data f (512 * (?w + 1) + r)"
      if "\<not> (sec \<le> r div 512 \<and> r div 512 < sec + cnt)"
    proof -
      have "r < 512 * sec \<or> 512 * sec + 512 * cnt \<le> r"
        using that by (auto simp: less_eq_div_iff_mult_less_eq div_less_iff_less_mult algebra_simps)
      then show ?thesis using data fin r(2) by (intro file_write_outside) auto
    qed
    have vd: "vlayer c g x = (if vhd_bitmap_test c (file_read g (512 * ?w) 512) (r div 512)
        then Some (f_data g (512 * (?w + 1) + r)) else None)" for g
      using True al by (simp add: vlayer_def Let_def r(1) allocated_def flip: d_def)
    show ?thesis
      unfolding rng vd bit dat
      using in_rng out_rng xdr True by auto
  qed
qed

end
