(* ===== verification/Vhd_Write.thy ===== *)
theory Vhd_Write
  imports Vhd_Block_Write
begin

text \<open>
  \<open>vhd_io_write\<close> on a well-formed dynamic image writes a range of the virtual disk: allocation of the
  blocks it touches, the loop over the blocks, and the footer that is moved behind the data.
\<close>

section \<open>One block\<close>

text \<open>What a write leaves alone: everything but the BAT and the batmap of the context; blocks are
  only added to the BAT.\<close>

definition same_shape :: "vhd_context \<Rightarrow> vhd_context \<Rightarrow> bool" where
  "same_shape c c' \<longleftrightarrow> nblocks c' = nblocks c \<and> ctx_footer c' = ctx_footer c \<and>
     ctx_header c' = ctx_header c \<and> ctx_spb c' = ctx_spb c \<and> ctx_file c' = ctx_file c \<and>
     ctx_oflags c' = ctx_oflags c \<and> (\<forall>i. allocated c i \<longrightarrow> allocated c' i)"

text \<open>A run on one image leaves the other files and the cached parents alone.\<close>

definition same_world :: "vst \<Rightarrow> vst \<Rightarrow> bool" where
  "same_world s t \<longleftrightarrow> st_parents t = st_parents s \<and> ctx_file (st_ctx t) = ctx_file (st_ctx s) \<and>
     (\<forall>nm. nm \<noteq> ctx_file (st_ctx s) \<longrightarrow> sys_files (st_sys t) nm = sys_files (st_sys s) nm)"

lemma same_world_refl [simp]: "same_world s s"
  by (simp add: same_world_def)

lemma same_world_trans: "same_world s t \<Longrightarrow> same_world t u \<Longrightarrow> same_world s u"
  by (simp add: same_world_def)

lemma same_world_st_with [simp]: "same_world s (st_with p f t) = same_world s t"
  by (auto simp: same_world_def st_with_def at_pos_def set_cur_file_def set_errno_def)

lemma same_world_upd_ctx:
  "ctx_file (g (st_ctx t)) = ctx_file (st_ctx t) \<Longrightarrow> same_world s (upd_ctx g t) = same_world s t"
  by (simp add: same_world_def upd_ctx_def)

lemma same_shape_refl [simp]: "same_shape c c"
  by (simp add: same_shape_def)

lemma same_shape_trans: "same_shape a b \<Longrightarrow> same_shape b c \<Longrightarrow> same_shape a c"
  by (simp add: same_shape_def)

lemma same_shape_set_words:
  "(\<And>i. allocated c i \<Longrightarrow> allocated (set_words ws c) i) \<Longrightarrow> same_shape c (set_words ws c)"
  by (simp add: same_shape_def)

text \<open>The bytes \<open>data\<close> written at position \<open>p\<close> of an array.\<close>

definition put_range :: "(nat \<Rightarrow> u8 option) \<Rightarrow> nat \<Rightarrow> bytes \<Rightarrow> nat \<Rightarrow> u8 option" where
  "put_range v p data x = (if p \<le> x \<and> x < p + length data then Some (data ! (x - p)) else v x)"

definition pages_ok :: "libc \<Rightarrow> bool" where
  "pages_ok lc \<longleftrightarrow> 0 < lc_pagesize lc div 512 \<and> lc_pagesize lc div 512 \<le> 8"

lemma gap_of_less: "pages_ok lc \<Longrightarrow> gap_of lc D < 8"
  using alloc_gap_aligned(1) [of "lc_pagesize lc div 512" D]
  by (auto simp: pages_ok_def gap_of_def intro: less_le_trans)

lemma allocate_ok:
  assumes core: "image_core hs s f" and b: "b < nblocks (st_ctx s)" and na: "\<not> allocated (st_ctx s) b"
    and pg: "pages_ok lc" and room: "data_end hs (st_ctx s) + 4105 < 4294967295"
  shows "\<exists>t g. vhd_io_allocate_block lc (of_nat b) s = (Inr (), t) \<and> image_core hs t g \<and>
    allocated (st_ctx t) b \<and> data_end hs (st_ctx s) \<le> start (st_ctx t) b \<and>
    lc_pagesize lc div 512 dvd start (st_ctx t) b + 1 \<and>
    (\<forall>j. j \<noteq> b \<longrightarrow> bat_words (st_ctx t) ! j = bat_words (st_ctx s) ! j) \<and>
    (\<forall>x < nblocks (st_ctx s) * 2097152. vlayer (st_ctx t) g x = vlayer (st_ctx s) f x)"
proof -
  let ?c = "st_ctx s"
  let ?D = "data_end hs ?c"
  let ?gap = "gap_of lc ?D"
  note k = allocate_keeps [OF core b na room gap_of_less [OF pg, of ?D]]
  have spp: "0 < lc_pagesize lc div 512" "lc_pagesize lc div 512 \<le> 8" using pg by (simp_all add: pages_ok_def)
  let ?ws = "alloc_words hs ?c ?gap b"
  let ?g = "alloc_file hs ?c ?gap b f"
  let ?t = "upd_ctx (set_words ?ws) (st_with (unat (hdr_table_offset (ctx_header ?c)) + bat_file_size ?c) ?g s)"
  have al: "vhd_io_allocate_block lc (of_nat b) s = (Inr (), ?t)"
    using allocate_quiet [OF core b spp room] by (simp add: Let_def)
  have "\<not> f_blk f" "std_ctx hs ?c" using core by (simp_all add: image_core_def)
  then have nb: "\<not> f_blk ?g" by (intro alloc_file_data(4))
  have core': "image_core hs ?t ?g"
    by (rule image_core_upd [where g = "set_words ?ws", OF core _ _ _ nb]) (use k(4,5) in simp_all)
  have "lc_pagesize lc div 512 dvd ?D + ?gap + 1"
    using alloc_gap_aligned(2) [OF spp(1), of ?D] room by (simp add: gap_of_def)
  then show ?thesis
    using al core' k(1,2,3,6) by (intro exI [of _ ?t] exI [of _ ?g]) simp
qed

lemma ensure_allocated:
  assumes core: "image_core hs s f" and b: "b < nblocks (st_ctx s)" and pg: "pages_ok lc"
    and room: "data_end hs (st_ctx s) + 4105 < 4294967295"
  shows "\<exists>t g. (if bat_words (st_ctx s) ! b = DD_BLK_UNUSED
                then vhd_io_allocate_block lc (of_nat b) else vret ()) s = (Inr (), t) \<and>
    image_core hs t g \<and> same_world s t \<and> allocated (st_ctx t) b \<and> same_shape (st_ctx s) (st_ctx t) \<and>
    data_end hs (st_ctx t) \<le> data_end hs (st_ctx s) + 4105 \<and>
    (\<forall>x < nblocks (st_ctx s) * 2097152. vlayer (st_ctx t) g x = vlayer (st_ctx s) f x)"
proof (cases "bat_words (st_ctx s) ! b = DD_BLK_UNUSED")
  case False
  then show ?thesis using core by (intro exI [of _ s] exI [of _ f]) (simp add: allocated_def vret_def)
next
  case True
  let ?c = "st_ctx s"
  let ?gap = "gap_of lc (data_end hs ?c)"
  have na: "\<not> allocated ?c b" using True by (simp add: allocated_def)
  note k = allocate_keeps [OF core b na room gap_of_less [OF pg, of "data_end hs ?c"]]
  have spp: "0 < lc_pagesize lc div 512" "lc_pagesize lc div 512 \<le> 8" using pg by (simp_all add: pages_ok_def)
  let ?ws = "alloc_words hs ?c ?gap b"
  let ?g = "alloc_file hs ?c ?gap b f"
  let ?t = "upd_ctx (set_words ?ws) (st_with (unat (hdr_table_offset (ctx_header ?c)) + bat_file_size ?c) ?g s)"
  have al: "vhd_io_allocate_block lc (of_nat b) s = (Inr (), ?t)"
    using allocate_quiet [OF core b spp room] by (simp add: Let_def)
  have "\<not> f_blk f" "std_ctx hs ?c" using core by (simp_all add: image_core_def)
  then have nb: "\<not> f_blk ?g" by (intro alloc_file_data(4))
  have core': "image_core hs ?t ?g"
    by (rule image_core_upd [where g = "set_words ?ws", OF core _ _ _ nb]) (use k(4,5) in simp_all)
  have "same_shape ?c (set_words ?ws ?c)"
  proof (rule same_shape_set_words)
    fix i
    assume "allocated ?c i"
    then show "allocated (set_words ?ws ?c) i" using k(2) k(3) [of i] by (cases "i = b") (simp_all add: allocated_def)
  qed
  then show ?thesis
    using al core' k(2,6,7) True same_world_upd_ctx [of "set_words ?ws"] by (intro exI [of _ ?t] exI [of _ ?g]) simp
qed

lemma dynamic_write_block_ok:
  assumes core: "image_core hs s f" and b: "b < nblocks (st_ctx s)" and pg: "pages_ok lc"
    and room: "data_end hs (st_ctx s) + 4105 < 4294967295"
    and sec: "sec + cnt \<le> 4096" and data: "length data = 512 * cnt" and cnt: "0 < cnt"
  shows "\<exists>t g. dynamic_write_block lc data (of_nat b) (of_nat sec) (of_nat cnt) s = (Inr 0, t) \<and>
    image_core hs t g \<and> same_world s t \<and> same_shape (st_ctx s) (st_ctx t) \<and>
    data_end hs (st_ctx t) \<le> data_end hs (st_ctx s) + 4105 \<and>
    (\<forall>x < nblocks (st_ctx s) * 2097152. vlayer (st_ctx t) g x =
       put_range (vlayer (st_ctx s) f) (b * 2097152 + 512 * sec) data x)"
proof -
  obtain t1 g1 where al: "(if bat_words (st_ctx s) ! b = DD_BLK_UNUSED
      then vhd_io_allocate_block lc (of_nat b) else vret ()) s = (Inr (), t1)"
    and core1: "image_core hs t1 g1" and sw: "same_world s t1" and a1: "allocated (st_ctx t1) b"
    and sh: "same_shape (st_ctx s) (st_ctx t1)" and de: "data_end hs (st_ctx t1) \<le> data_end hs (st_ctx s) + 4105"
    and vd: "\<forall>x < nblocks (st_ctx s) * 2097152. vlayer (st_ctx t1) g1 x = vlayer (st_ctx s) f x"
    using ensure_allocated [OF core b pg room] by blast
  have std: "std_ctx hs (st_ctx s)" and std1: "std_ctx hs (st_ctx t1)" and blk1: "\<not> f_blk g1"
    and ok1: "blocks_ok hs (st_ctx t1) (f_size g1)"
    using core core1 by (simp_all add: image_core_def)
  have nb: "nblocks (st_ctx t1) = nblocks (st_ctx s)" using sh by (simp add: same_shape_def)
  have b1: "b < nblocks (st_ctx t1)" using b nb by simp
  have bl: "b < length (bat_words (st_ctx s))" "b < length (bat_words (st_ctx t1))"
    using b b1 std_ctxD(12) [OF std] std_ctxD(12) [OF std1] by simp_all
  note ub = unat_of_nblocks [OF b]
  have u: "unat (of_nat sec :: u32) = sec" "unat (of_nat cnt :: u32) = cnt"
    using sec by (simp_all add: unat_of_nat_u32)
  let ?g = "write_file (st_ctx t1) b sec cnt data g1"
  let ?t = "st_with (512 * start (st_ctx t1) b + 512) ?g t1"
  have run: "dynamic_write_block lc data (of_nat b) (of_nat sec) (of_nat cnt) s = (Inr 0, ?t)"
    using write_allocated_quiet [OF core1 b1 a1 sec data cnt] bat_entry_quiet [OF bl(1)]
      bat_entry_quiet [OF bl(2)] al
    by (simp add: dynamic_write_block_def vbind_def with_ctx_app ub u)
  note wf = write_file_facts [OF std1 blk1 ok1 b1 a1 sec data]
  have "image_core hs ?t ?g" using wf(1,2) by (intro image_core_st_with [OF core1]) simp_all
  moreover have "vlayer (st_ctx t1) ?g x = put_range (vlayer (st_ctx s) f) (b * 2097152 + 512 * sec) data x"
    if "x < nblocks (st_ctx s) * 2097152" for x
    using wf(3) [of x] that nb vd data by (simp add: put_range_def algebra_simps)
  ultimately show ?thesis using run sh sw de by (intro exI [of _ ?t] exI [of _ ?g]) simp
qed

section \<open>The loop\<close>

text \<open>The number of blocks a range of sectors touches.\<close>

definition blocks_touched :: "nat \<Rightarrow> nat \<Rightarrow> nat" where
  "blocks_touched S n = (S mod 4096 + n + 4095) div 4096"

lemma put_range_append:
  "put_range (put_range v p xs) (p + length xs) ys = put_range v p (xs @ ys)"
  by (rule ext) (auto simp: put_range_def nth_append)

lemma put_range_cong: "v x = v' x \<Longrightarrow> put_range v p data x = put_range v' p data x"
  by (simp add: put_range_def)

lemma block_arith:
  assumes "S + n \<le> 4096 * N" and "0 < n"
  defines "m \<equiv> min n (4096 - S mod 4096)"
  shows "S div 4096 < N" and "S mod 4096 + m \<le> 4096" and "0 < m" and "m \<le> n"
    and "(S div 4096) * 2097152 + 512 * (S mod 4096) = 512 * S"
    and "n - m \<noteq> 0 \<Longrightarrow> blocks_touched S n = Suc (blocks_touched (S + m) (n - m))"
    and "1 \<le> blocks_touched S n"
proof -
  define q where "q = S div 4096"
  obtain r where r: "S mod 4096 = r" "r < 4096" by simp
  have S: "S = 4096 * q + r" using mult_div_mod_eq [of 4096 S] by (simp add: q_def r(1))
  show "S div 4096 < N" using assms(1,2) by (simp add: less_mult_imp_div_less mult.commute)
  show "S mod 4096 + m \<le> 4096" "0 < m" "m \<le> n" using r assms(2) by (simp_all add: m_def)
  show "(S div 4096) * 2097152 + 512 * (S mod 4096) = 512 * S"
    unfolding r(1) q_def [symmetric] using S by linarith
  show "1 \<le> blocks_touched S n" using assms(2) by (simp add: blocks_touched_def)
  assume "n - m \<noteq> 0"
  then have m: "m = 4096 - r" and nm: "n = n - m + (4096 - r)" using r by (auto simp: m_def min_def split: if_splits)
  have "S + m = 4096 * (q + 1)" using S m r(2) by simp
  then have "(S + m) mod 4096 = 0" by simp
  moreover have "(r + n + 4095) div 4096 = ((n - m) + 4095 + 4096) div 4096"
    using nm r(2) by (intro arg_cong [of _ _ "\<lambda>x. x div 4096"]) linarith
  ultimately show "blocks_touched S n = Suc (blocks_touched (S + m) (n - m))"
    by (simp add: blocks_touched_def r(1))
qed

lemma of_nat_div_4096:
  assumes "S < 18446744073709551616"
  shows "(ucast (of_nat S div (4096 :: u64)) :: u32) = of_nat (S div 4096)"
    and "(ucast (of_nat S mod (4096 :: u64)) :: u32) = of_nat (S mod 4096)"
proof -
  have u: "unat (of_nat S :: u64) = S" using assms by (rule unat_of_nat_small)
  have "unat (of_nat S div (4096 :: u64)) = S div 4096" by (simp add: unat_div_distrib u)
  then have d: "of_nat S div (4096 :: u64) = of_nat (S div 4096)" by (metis of_nat_unat ucast_id)
  have "unat (of_nat S mod (4096 :: u64)) = S mod 4096" by (simp add: unat_mod_distrib u)
  then have m: "of_nat S mod (4096 :: u64) = of_nat (S mod 4096)" by (metis of_nat_unat ucast_id)
  have "S div 4096 < 18446744073709551616" "S mod 4096 < 18446744073709551616"
    using assms by (simp_all add: less_le_trans [OF mod_less_divisor])
  then show "(ucast (of_nat S div (4096 :: u64)) :: u32) = of_nat (S div 4096)"
    "(ucast (of_nat S mod (4096 :: u64)) :: u32) = of_nat (S mod 4096)"
    unfolding d m by (simp_all add: unsigned_of_nat take_bit_nat_eq_self)
qed

lemma min_of_nat_u32:
  "a < 4294967296 \<Longrightarrow> b < 4294967296 \<Longrightarrow> min (of_nat a) (of_nat b :: u32) = of_nat (min a b)"
  by (auto simp: min_def word_le_nat_alt unat_of_nat_u32)

lemma write_loop_ok:
  assumes "image_core hs s f" and "pages_ok lc"
    and "data_end hs (st_ctx s) + 4105 * blocks_touched S n < 4294967295"
    and "S + n \<le> 4096 * nblocks (st_ctx s)" and "0 < n" and "n \<le> k" and "length buf = 512 * n"
  shows "\<exists>t g. dynamic_write_loop lc k buf (of_nat S) (of_nat n) s = (Inr 0, t) \<and>
    image_core hs t g \<and> same_world s t \<and> same_shape (st_ctx s) (st_ctx t) \<and>
    (\<forall>x < nblocks (st_ctx s) * 2097152. vlayer (st_ctx t) g x = put_range (vlayer (st_ctx s) f) (512 * S) buf x)"
  using assms
proof (induction k arbitrary: S n buf s f)
  case 0
  then show ?case by simp
next
  case (Suc k)
  note core = Suc.prems(1) and pg = Suc.prems(2) and room = Suc.prems(3) and rng = Suc.prems(4)
    and n = Suc.prems(5) and nk = Suc.prems(6) and buf = Suc.prems(7)
  let ?c = "st_ctx s"
  define b where "b = S div 4096"
  define r where "r = S mod 4096"
  define m where "m = min n (4096 - r)"
  note ar = block_arith [OF rng n, folded b_def r_def, folded m_def]
  have std: "std_ctx hs ?c" using core by (simp add: image_core_def)
  have N: "nblocks ?c < 4294967296" by (simp add: nblocks_def)
  have Sb: "S + n \<le> 17592186040320" using rng N by linarith
  have r4: "r < 4096" by (simp add: r_def)
  have n32: "n < 4294967296"
  proof (rule ccontr)
    assume "\<not> n < 4294967296"
    then have "1048576 \<le> (r + n + 4095) div 4096" by simp
    then show False using room by (simp add: blocks_touched_def r_def)
  qed
  have w: "(ucast (of_nat S div (4096 :: u64)) :: u32) = of_nat b" "(ucast (of_nat S mod (4096 :: u64)) :: u32) = of_nat r"
    using Sb of_nat_div_4096 [of S] by (simp_all add: b_def r_def)
  have cnt: "min (of_nat n) (4096 - of_nat r :: u32) = of_nat m"
  proof -
    have "(4096 - of_nat r :: u32) = of_nat (4096 - r)" using r4 by (simp add: of_nat_diff)
    then show ?thesis using n32 by (simp add: m_def min_of_nat_u32)
  qed
  have um: "unat (of_nat m :: u32) = m" using le_less_trans [OF ar(4) n32] by (intro unat_of_nat_u32) simp
  have lt: "length (take (512 * m) buf) = 512 * m" using buf ar(4) by simp
  have "data_end hs ?c + 4105 < 4294967295" using room ar(7) by linarith
  from dynamic_write_block_ok [OF core ar(1) pg this ar(2) lt ar(3)]
  obtain t1 g1 where run: "dynamic_write_block lc (take (512 * m) buf) (of_nat b) (of_nat r) (of_nat m) s = (Inr 0, t1)"
    and core1: "image_core hs t1 g1" and sw1: "same_world s t1" and sh1: "same_shape ?c (st_ctx t1)"
    and de1: "data_end hs (st_ctx t1) \<le> data_end hs ?c + 4105"
    and vd1: "\<forall>x < nblocks ?c * 2097152. vlayer (st_ctx t1) g1 x =
      put_range (vlayer ?c f) (512 * S) (take (512 * m) buf) x"
    by (auto simp: ar(5))
  have nb: "nblocks (st_ctx t1) = nblocks ?c" using sh1 by (simp add: same_shape_def)
  have nm: "(of_nat n - of_nat m :: u32) = of_nat (n - m)" using ar(4) by (simp add: of_nat_diff)
  have step: "dynamic_write_loop lc (Suc k) buf (of_nat S) (of_nat n) s =
      (if n - m = 0 then (Inr 0, t1)
       else dynamic_write_loop lc k (drop (512 * m) buf) (of_nat (S + m)) (of_nat (n - m)) t1)"
  proof -
    have "unat (of_nat (n - m) :: u32) = n - m"
      using le_less_trans [OF diff_le_self n32] by (intro unat_of_nat_u32) simp
    then have z: "(of_nat (n - m) :: u32) = 0 \<longleftrightarrow> n - m = 0"
      by (simp only: flip: unsigned_eq_0_iff [where ?'a = nat])
    have "(ucast (of_nat m :: u32) :: u64) = of_nat m" by (metis um of_nat_unat)
    then show ?thesis
      using std_ctxD(4) [OF std] w cnt um run ar(4) buf nm z
      by (simp add: with_ctx_app vbind_def vdefined_def vret_def Let_def)
  qed
  show ?case
  proof (cases "n - m = 0")
    case True
    then have "take (512 * m) buf = buf" using ar(4) buf by simp
    then show ?thesis using step True core1 sw1 sh1 vd1 by auto
  next
    case False
    have "data_end hs (st_ctx t1) + 4105 * blocks_touched (S + m) (n - m) < 4294967295"
      using room de1 ar(6) [OF False] by simp
    moreover have "S + m + (n - m) \<le> 4096 * nblocks (st_ctx t1)" using rng nb ar(4) by simp
    moreover have "0 < n - m" "n - m \<le> k" using False nk ar(3) by simp_all
    moreover have "length (drop (512 * m) buf) = 512 * (n - m)" using buf by (simp add: right_diff_distrib')
    ultimately obtain t g where
      "dynamic_write_loop lc k (drop (512 * m) buf) (of_nat (S + m)) (of_nat (n - m)) t1 = (Inr 0, t)"
      "image_core hs t g" "same_world t1 t" "same_shape (st_ctx t1) (st_ctx t)"
      "\<forall>x < nblocks (st_ctx t1) * 2097152. vlayer (st_ctx t) g x =
        put_range (vlayer (st_ctx t1) g1) (512 * (S + m)) (drop (512 * m) buf) x"
      using Suc.IH [OF core1 pg] by blast
    moreover have "put_range (vlayer (st_ctx t1) g1) (512 * (S + m)) (drop (512 * m) buf) x =
        put_range (vlayer ?c f) (512 * S) buf x" if "x < nblocks ?c * 2097152" for x
    proof -
      have "put_range (vlayer (st_ctx t1) g1) (512 * (S + m)) (drop (512 * m) buf) x =
          put_range (put_range (vlayer ?c f) (512 * S) (take (512 * m) buf)) (512 * (S + m)) (drop (512 * m) buf) x"
        using vd1 that by (intro put_range_cong) simp
      moreover have e: "512 * (S + m) = 512 * S + length (take (512 * m) buf)" using lt by simp
      ultimately show ?thesis by (simp only: e put_range_append append_take_drop_id)
    qed
    ultimately show ?thesis using step False same_shape_trans [OF sh1] same_world_trans [OF sw1] nb by auto
  qed
qed

end
