(* ===== verification/Vhd_Disk.thy ===== *)
theory Vhd_Disk
  imports Vhd_Write
begin

text \<open>
  \<open>vhd_io_write\<close> as an operation on the virtual disk: on a well-formed dynamic image it succeeds,
  keeps the invariant and changes exactly the sectors written. Reads are in \<open>Vhd_Read\<close>.
\<close>

section \<open>The footer behind the data\<close>

text \<open>The file that \<open>vhd_write_footer\<close> leaves: the footer behind the last block, and its copy at the start.\<close>

definition footer_bytes :: "vhd_context \<Rightarrow> bytes" where
  "footer_bytes c = ftr_disk_bytes ((ctx_footer c)\<lparr>ftr_checksum := vhd_checksum_footer (ctx_footer c)\<rparr>)"

definition footed :: "nat \<Rightarrow> vhd_context \<Rightarrow> vfile \<Rightarrow> vfile" where
  "footed hs c f = (let d = 512 * data_end hs c; g = file_write f d (footer_bytes c)
     in file_write (g\<lparr>f_data := (\<lambda>i. if i < d + 512 \<and> i < f_size g then f_data g i else 0), f_size := d + 512\<rparr>)
          0 (footer_bytes c))"

lemma length_footer_bytes: "ftr_wf (ctx_footer c) \<Longrightarrow> length (footer_bytes c) = 512"
  unfolding footer_bytes_def by (rule length_ftr_disk) (simp add: ftr_wf_def)

lemma footed_facts:
  assumes "ftr_wf (ctx_footer c)" and "\<not> f_blk f"
  shows "\<not> f_blk (footed hs c f)" and "f_size (footed hs c f) = 512 * data_end hs c + 512"
    and "1 \<le> data_end hs c \<Longrightarrow> file_read (footed hs c f) (512 * data_end hs c) 512 = footer_bytes c"
    and "file_read (footed hs c f) 0 512 = footer_bytes c"
    and "512 \<le> i \<Longrightarrow> i < 512 * data_end hs c \<Longrightarrow> i < f_size f \<Longrightarrow> f_data (footed hs c f) i = f_data f i"
proof -
  let ?d = "512 * data_end hs c" and ?b = "footer_bytes c"
  let ?g = "file_write f ?d ?b"
  let ?h = "?g\<lparr>f_data := (\<lambda>i. if i < ?d + 512 \<and> i < f_size ?g then f_data ?g i else 0), f_size := ?d + 512\<rparr>"
  have l: "length ?b = 512" using assms(1) by (rule length_footer_bytes)
  have e: "footed hs c f = file_write ?h 0 ?b" by (simp only: footed_def Let_def)
  have bh: "\<not> f_blk ?h" using assms(2) by simp
  show "\<not> f_blk (footed hs c f)" "f_size (footed hs c f) = ?d + 512"
    unfolding e using bh l by (simp_all add: f_size_file_write)
  show "file_read (footed hs c f) 0 512 = footer_bytes c" unfolding e using file_read_write_same [of ?h 0 ?b] l by simp
  show "file_read (footed hs c f) ?d 512 = footer_bytes c" if "1 \<le> data_end hs c"
  proof -
    have "file_read (footed hs c f) ?d 512 = file_read ?h ?d 512"
      unfolding e by (rule file_read_write_disjoint) (use l that in simp_all)
    also have "\<dots> = file_read ?g ?d 512" using assms(2) l by (auto simp: file_read_def f_size_file_write less_max_iff_disj)
    also have "\<dots> = ?b" using file_read_write_same [of f ?d ?b] l by simp
    finally show ?thesis .
  qed
  assume i: "512 \<le> i" "i < ?d" "i < f_size f"
  have "f_data (footed hs c f) i = f_data ?h i" unfolding e using i l by (intro file_write_outside) simp_all
  also have "\<dots> = f_data ?g i" using i assms(2) l by (simp add: f_size_file_write less_max_iff_disj)
  also have "\<dots> = f_data f i" using i by (intro file_write_outside) simp_all
  finally show "f_data (footed hs c f) i = f_data f i" .
qed

lemma write_footer_run:
  assumes core: "image_core hs s f"
  shows "vhd_write_footer (ctx_footer (st_ctx s)) s = (Inr (), st_with 512 (footed hs (st_ctx s) f) s)"
proof -
  let ?c = "st_ctx s"
  from core have q: "quiet s" and cf: "cur_file s = Some f" and blk: "\<not> f_blk f" and std: "std_ctx hs ?c"
    by (simp_all add: image_core_def)
  note c = std_ctxD [OF std]
  define D where "D = data_end hs ?c"
  let ?b = "footer_bytes ?c"
  have D: "1 \<le> D" "D < 8589934592"
    using data_end_ge [of hs ?c] data_end_less [OF c(16)] c(15) by (simp_all add: D_def)
  have so: "sint (of_nat (512 * D) :: u64) = int (512 * D)"
  proof -
    have "unat (of_nat (512 * D) :: u64) = 512 * D" using D by (intro unat_of_nat_small) simp
    then show ?thesis using D by (subst sint_small) simp_all
  qed
  define f1 where "f1 = file_write f (512 * D) ?b"
  define f2 where "f2 = f1\<lparr>f_data := (\<lambda>i. if i < 512 * D + 512 \<and> i < f_size f1 then f_data f1 i else 0),
    f_size := 512 * D + 512\<rparr>"
  define s1 where "s1 = st_with (512 * D + 512) f1 s"
  have f3: "footed hs ?c f = file_write f2 0 ?b" by (simp only: footed_def Let_def f2_def f1_def D_def)
  have b1: "\<not> f_blk f1" "\<not> f_blk f2" using blk by (simp_all add: f1_def f2_def)
  have w1: "vhd_write_footer_at (ctx_footer ?c) (int (512 * D)) s = (Inr (), s1)"
    using write_footer_at_quiet [OF q cf _ c(8,9), of "int (512 * D)"] blk
    by (simp only: nat_int of_nat_0_le_iff s1_def f1_def footer_bytes_def)
  have nt: "nat (int (512 * D) + 512) = 512 * D + 512" by linarith
  have tr: "ftruncate (int (512 * D) + 512) s1 = (0, set_cur_file f2 s1)"
    using ftruncate_quiet [of s1 f1 "int (512 * D) + 512"] q b1 unfolding nt by (simp add: s1_def f2_def)
  have w3: "vhd_write_footer_at (ctx_footer ?c) 0 (set_cur_file f2 s1) = (Inr (), st_with 512 (footed hs ?c f) s)"
    using write_footer_at_quiet [of "set_cur_file f2 s1" f2 0 "ctx_footer ?c"] q c(8,9) b1
    by (simp add: s1_def f3 footer_bytes_def st_with_def)
  show ?thesis
    using c(1,2) end_of_data_quiet [OF std] w1 tr w3
    by (simp add: vhd_write_footer_def with_ctx_app vbind_def vret_def so flip: D_def del: of_nat_mult)
qed

lemma write_footer_ok:
  assumes core: "image_core hs s f"
  shows "\<exists>t g. vhd_write_footer (ctx_footer (st_ctx s)) s = (Inr (), t) \<and> image_ok hs t g \<and>
    same_world s t \<and> st_ctx t = st_ctx s \<and> f_size g = 512 * data_end hs (st_ctx s) + 512 \<and>
    file_read g (512 * data_end hs (st_ctx s)) 512 = footer_bytes (st_ctx s) \<and> file_read g 0 512 = footer_bytes (st_ctx s) \<and>
    (\<forall>x < nblocks (st_ctx s) * 2097152. vlayer (st_ctx t) g x = vlayer (st_ctx s) f x)"
proof -
  let ?c = "st_ctx s"
  from core have q: "quiet s" and blk: "\<not> f_blk f" and std: "std_ctx hs ?c"
    and ok: "blocks_ok hs ?c (f_size f)" by (simp_all add: image_core_def)
  note c = std_ctxD [OF std]
  define D where "D = data_end hs ?c"
  define g where "g = footed hs ?c f"
  note run = write_footer_run [OF core, folded g_def]
  note g = footed_facts [OF c(8) blk, where hs = hs, folded g_def D_def]
  have okD: "blocks_ok hs ?c (512 * D)" unfolding D_def by (rule blocks_ok_data_end [OF std ok])
  have "image_ok hs (st_with 512 g s) g"
    using q g(1,2) std blocks_ok_mono [OF okD, of "f_size g"] okD by (simp add: image_ok_def image_core_def)
  moreover have "vlayer ?c g x = vlayer ?c f x" if x: "x < nblocks ?c * 2097152" for x
  proof (rule vlayer_frame)
    fix i
    assume al: "allocated ?c (x div 2097152)" and i: "512 * start ?c (x div 2097152) \<le> i"
      "i < 512 * (start ?c (x div 2097152) + 4097)"
    have d: "x div 2097152 < nblocks ?c" using x by (simp add: less_mult_imp_div_less)
    have "512 \<le> i" using i(1) mult_le_mono2 [OF blocks_okD(1) [OF ok d al], of 512] c(15) by linarith
    moreover have "i < 512 * D" using i(2) blocks_okD(2) [OF okD d al] by linarith
    moreover have "i < f_size f" using i(2) blocks_okD(2) [OF ok d al] by linarith
    ultimately show "f_data g i = f_data f i" by (rule g(5))
  qed simp_all
  ultimately show ?thesis
    using run g(2,3,4) data_end_ge [of hs ?c] c(15) by (intro exI [of _ "st_with 512 g s"] exI [of _ g]) (simp add: D_def)
qed

section \<open>Write\<close>

lemma in_range:
  assumes "std_ctx hs c" and "S + n \<le> 4096 * nblocks c" and "n < 4294967296"
  shows "\<not> out_of_range c (of_nat S) (of_nat n)"
proof -
  have N: "nblocks c < 4294967296" by (simp add: nblocks_def)
  have b: "S + n < 17592186044416" using assms(2) N by linarith
  have "(ucast (of_nat n :: u32) :: u64) = of_nat n"
  proof -
    have "unat (of_nat n :: u32) = n" using assms(3) by (intro unat_of_nat_u32) simp
    then show ?thesis by (metis of_nat_unat)
  qed
  then have "vhd_sectors_to_bytes (of_nat S + ucast (of_nat n :: u32)) = of_nat (512 * (S + n))"
    using b sectors_to_bytes_of_nat [of "S + n"] by simp
  moreover have "unat (of_nat (512 * (S + n)) :: u64) = 512 * (S + n)" using b by (intro unat_of_nat_small) simp
  moreover have "unat (of_nat (nblocks c * 2097152) :: u64) = nblocks c * 2097152"
    using N by (intro unat_of_nat_small) simp
  ultimately show ?thesis
    using std_ctxD(10) [OF assms(1)] assms(2) unfolding out_of_range_def word_less_nat_alt by simp
qed

lemma image_write:
  assumes core: "image_core hs s f" and pg: "pages_ok lc"
    and room: "data_end hs (st_ctx s) + 4105 * blocks_touched S n < 4294967295"
    and rng: "S + n \<le> 4096 * nblocks (st_ctx s)" and n: "0 < n" and buf: "length buf = 512 * n"
  shows "\<exists>t g. vhd_io_write lc buf (of_nat S) (of_nat n) s = (Inr (), t) \<and> image_ok hs t g \<and>
    same_world s t \<and> same_shape (st_ctx s) (st_ctx t) \<and>
    (\<forall>x < nblocks (st_ctx s) * 2097152. vlayer (st_ctx t) g x = put_range (vlayer (st_ctx s) f) (512 * S) buf x)"
proof -
  let ?c = "st_ctx s"
  have std: "std_ctx hs ?c" using core by (simp add: image_core_def)
  note c = std_ctxD [OF std]
  have n32: "n < 4294967296"
  proof (rule ccontr)
    assume "\<not> n < 4294967296"
    then have "1048576 \<le> (S mod 4096 + n + 4095) div 4096" by simp
    then show False using room by (simp add: blocks_touched_def)
  qed
  have un: "unat (of_nat n :: u32) = n" using n32 by (intro unat_of_nat_u32) simp
  obtain t1 g1 where run: "dynamic_write_loop lc (Suc n) buf (of_nat S) (of_nat n) s = (Inr 0, t1)"
    and core1: "image_core hs t1 g1" and sw: "same_world s t1" and sh: "same_shape ?c (st_ctx t1)"
    and vd: "\<forall>x < nblocks ?c * 2097152. vlayer (st_ctx t1) g1 x = put_range (vlayer ?c f) (512 * S) buf x"
    using write_loop_ok [OF core pg room rng n _ buf, of "Suc n"] by auto
  obtain t g where wf: "vhd_write_footer (ctx_footer (st_ctx t1)) t1 = (Inr (), t)" and ok: "image_ok hs t g"
    and sw2: "same_world t1 t" and ct: "st_ctx t = st_ctx t1"
    and vd2: "\<forall>x < nblocks (st_ctx t1) * 2097152. vlayer (st_ctx t) g x = vlayer (st_ctx t1) g1 x"
    using write_footer_ok [OF core1] by blast
  have "vhd_io_write lc buf (of_nat S) (of_nat n) s = (Inr (), t)"
    using in_range [OF std rng n32] c(1) get_bat_quiet [OF c(1) c(11)] has_batmap_none [OF c(3)] run wf un
    by (simp add: vhd_io_write_def vhd_io_dynamic_write_def with_ctx_app vbind_def vcatch_def vret_def)
  moreover have "nblocks (st_ctx t1) = nblocks ?c" using sh by (simp add: same_shape_def)
  ultimately show ?thesis using ok ct sh vd vd2 same_world_trans [OF sw sw2] by (intro exI [of _ t] exI [of _ g]) simp
qed

end
