(* ===== verification/Vhd_Read.thy ===== *)
theory Vhd_Read
  imports Vhd_Disk
begin

text \<open>
  \<open>vhd_io_read\<close> on well-formed dynamic images. One image of a chain fills the sectors it has and the
  caller's map does not list yet (\<open>linked\<close>); the loop over the blocks composes such fillings. For
  an image without a parent the result is the contents of the virtual disk; for a chain of cached
  parents it is, sector by sector, the contents of the first image that has the sector.
\<close>

section \<open>Filling a buffer\<close>

text \<open>
  The sectors \<open>lo ..< hi\<close> of the buffer that are in \<open>P\<close> and not marked are marked and filled with
  \<open>D\<close>; nothing else changes.
\<close>

definition linked ::
    "(nat \<Rightarrow> bool) \<Rightarrow> (nat \<Rightarrow> u8) \<Rightarrow> nat \<Rightarrow> nat \<Rightarrow> bytes \<times> bytes \<Rightarrow> bytes \<times> bytes \<Rightarrow> bool" where
  "linked P D lo hi mb mb' \<longleftrightarrow>
     length (fst mb') = length (fst mb) \<and> length (snd mb') = length (snd mb) \<and>
     (\<forall>j < 8 * length (fst mb).
        test_bit (fst mb') j \<longleftrightarrow> test_bit (fst mb) j \<or> lo \<le> j \<and> j < hi \<and> P j) \<and>
     (\<forall>x < length (snd mb). snd mb' ! x =
        (if lo \<le> x div 512 \<and> x div 512 < hi \<and> P (x div 512) \<and> \<not> test_bit (fst mb) (x div 512)
         then D x else snd mb ! x))"

lemma linked_none: "(\<And>j. lo \<le> j \<Longrightarrow> j < hi \<Longrightarrow> \<not> P j) \<Longrightarrow> linked P D lo hi mb mb"
  by (auto simp: linked_def)

lemma linked_trans:
  assumes "linked P D lo mid mb mb1" and "linked P D mid hi mb1 mb2" and "lo \<le> mid" "mid \<le> hi"
    and "hi \<le> 8 * length (fst mb)"
  shows "linked P D lo hi mb mb2"
  using assms by (auto simp: linked_def not_less)

lemma linked_cong:
  assumes "linked P D lo hi mb mb'" and "\<And>j. lo \<le> j \<Longrightarrow> j < hi \<Longrightarrow> P j = P' j"
    and "\<And>x. lo \<le> x div 512 \<Longrightarrow> x div 512 < hi \<Longrightarrow> P (x div 512) \<Longrightarrow> D x = D' x"
  shows "linked P' D' lo hi mb mb'"
  using assms by (auto simp: linked_def)

lemma sector_of: "(x :: nat) div 512 = k \<longleftrightarrow> 512 * k \<le> x \<and> x < 512 * k + 512"
  by (rule iffI) linarith+

lemma linked_one:
  assumes "length m' = length m" and "length buf' = length buf"
    and "\<And>j. j < 8 * length m \<Longrightarrow> test_bit m' j \<longleftrightarrow> test_bit m j \<or> j = k \<and> P k"
    and "\<And>x. x < length buf \<Longrightarrow>
      buf' ! x = (if x div 512 = k \<and> P k \<and> \<not> test_bit m k then D x else buf ! x)"
  shows "linked P D k (Suc k) (m, buf) (m', buf')"
  using assms by (auto simp: linked_def le_less_Suc_eq)

lemma copy_sector_linked:
  assumes "lo + i < 8 * length (fst mb)" and "512 * (lo + i) + 512 \<le> length (snd mb)"
    and "512 * i + 512 \<le> length src"
  shows "linked (\<lambda>j. vhd_bitmap_test c bm (p + (j - lo))) (\<lambda>x. src ! (x - 512 * lo)) (lo + i) (lo + Suc i)
    mb (copy_sector (Some c) lo bm p (512 * lo) src i mb)"
proof -
  obtain m buf where mb: "mb = (m, buf)" by (cases mb)
  have lf: "length (field (512 * i) 512 src) = 512" using assms(3) by (intro length_field) simp
  have len: "length (overlay (512 * lo + 512 * i) (field (512 * i) 512 src) buf) = length buf"
    using assms lf by (intro length_overlay) (simp add: mb)
  have ov: "overlay (512 * lo + 512 * i) (field (512 * i) 512 src) buf ! x =
      (if x div 512 = lo + i then src ! (x - 512 * lo) else buf ! x)" if x: "x < length buf" for x
  proof -
    have "field (512 * i) 512 src ! (x - (512 * lo + 512 * i)) = src ! (x - 512 * lo)"
      if "512 * (lo + i) \<le> x" "x < 512 * (lo + i) + 512"
      using that assms(3) by (simp add: field_def nth_take)
    then show ?thesis
      using x assms lf by (simp add: mb nth_overlay sector_of algebra_simps)
  qed
  show ?thesis
  proof (cases "test_bit m (lo + i) \<or> \<not> vhd_bitmap_test c bm (p + i)")
    case True
    then have "copy_sector (Some c) lo bm p (512 * lo) src i mb = (m, buf)"
      by (auto simp: mb copy_sector_def)
    then show ?thesis using True unfolding mb add_Suc_right by (auto intro!: linked_one)
  next
    case False
    then have "copy_sector (Some c) lo bm p (512 * lo) src i mb =
        (set_bit m (lo + i), overlay (512 * lo + 512 * i) (field (512 * i) 512 src) buf)"
      by (simp add: mb copy_sector_def)
    moreover have "test_bit (set_bit m (lo + i)) j \<longleftrightarrow> j = lo + i \<or> test_bit m j" if "j < 8 * length m" for j
      using that assms(1) by (intro test_bit_set_bit) (simp_all add: mb)
    ultimately show ?thesis using False len ov unfolding mb add_Suc_right by (auto intro!: linked_one)
  qed
qed

lemma copy_data_linked:
  assumes "lo + n \<le> 8 * length (fst mb)" and "512 * (lo + n) \<le> length (snd mb)" and "512 * n \<le> length src"
  shows "linked (\<lambda>j. vhd_bitmap_test c bm (p + (j - lo))) (\<lambda>x. src ! (x - 512 * lo)) lo (lo + n)
    mb (vhd_io_dynamic_copy_data (Some c) lo bm p (512 * lo) src n mb)"
  using assms
proof (induction n)
  case 0
  then show ?case by (simp add: vhd_io_dynamic_copy_data_def linked_none)
next
  case (Suc n)
  let ?mb = "vhd_io_dynamic_copy_data (Some c) lo bm p (512 * lo) src n mb"
  from Suc have l: "linked (\<lambda>j. vhd_bitmap_test c bm (p + (j - lo))) (\<lambda>x. src ! (x - 512 * lo)) lo (lo + n) mb ?mb"
    by simp
  then have len: "length (fst ?mb) = length (fst mb)" "length (snd ?mb) = length (snd mb)"
    by (simp_all add: linked_def)
  have "vhd_io_dynamic_copy_data (Some c) lo bm p (512 * lo) src (Suc n) mb =
      copy_sector (Some c) lo bm p (512 * lo) src n ?mb"
    by (simp add: vhd_io_dynamic_copy_data_def)
  with linked_trans [OF l copy_sector_linked [of lo n ?mb src c bm p]] Suc.prems len
  show ?case by simp
qed

section \<open>The data of a block\<close>

lemma footer_offset_at_eof_quiet:
  "quiet s \<Longrightarrow> cur_file s = Some f \<Longrightarrow>
    vhd_footer_offset_at_eof s = (Inr (int (f_size f) - 512), at_pos (f_size f) s)"
  by (simp add: vhd_footer_offset_at_eof_def vbind_def vcatch_def vret_def vhd_seek_quiet
      vhd_position_quiet [where f = f])

lemma not_behind_footer: "n + 512 \<le> sz \<Longrightarrow> \<not> int sz - 512 < int m + k" if "n = m + nat k" "0 \<le> k"
  using that by auto

lemma image_block_end:
  assumes "image_ok hs s f" and "b < nblocks (st_ctx s)" and "allocated (st_ctx s) b"
  shows "512 * start (st_ctx s) b + 2098176 \<le> f_size f"
proof -
  have "512 * (start (st_ctx s) b + 4097) \<le> f_size f - 512"
    using assms blocks_okD(2) [of hs "st_ctx s" "f_size f - 512" b] by (simp add: image_ok_def)
  then show ?thesis by simp
qed

lemma read_block_quiet:
  assumes ok: "image_ok hs s f" and b: "b < nblocks (st_ctx s)" and al: "allocated (st_ctx s) b"
  shows "vhd_read_block (of_nat b) s = (Inr (file_read f (512 * (start (st_ctx s) b + 1)) 2097152),
    st_with (512 * (start (st_ctx s) b + 1) + 2097152) f s)"
proof -
  let ?c = "st_ctx s"
  define p where "p = 512 * (start ?c b + 1)"
  from ok have q: "quiet s" and cf: "cur_file s = Some f" and std: "std_ctx hs ?c"
    by (simp_all add: image_ok_def image_core_def)
  note c = std_ctxD [OF std]
  have bl: "b < length (bat_words ?c)" using b c(12) by simp
  have fin: "512 * start ?c b + 2098176 \<le> f_size f" by (rule image_block_end [OF ok b al])
  have lt: "start ?c b + 1 < 4294972000" using unat_u32_less [of "bat_words ?c ! b"] by linarith
  then have "unat (ucast (bat_words ?c ! b) + 1 :: u64) = start ?c b + 1"
    by (simp add: unat_word_ariths)
  then have o1: "unat (vhd_sectors_to_bytes (ucast (bat_words ?c ! b) + 1)) = p"
    using lt by (subst unat_sectors_to_bytes) (simp_all add: p_def)
  then have off: "sint (vhd_sectors_to_bytes (ucast (bat_words ?c ! b) + 1)) = int p"
    using lt by (subst sint_small) (simp_all add: p_def)
  have sz: "unat (vhd_sectors_to_bytes (ucast (4096 :: u32))) = 2097152"
    by (simp add: vhd_sectors_to_bytes_def VHD_SECTOR_SHIFT_def)
  have ne: "\<not> int (f_size f) - 512 < int p + 2097152"
    by (rule not_behind_footer [of "p + 2097152"]) (use fin in \<open>simp_all add: p_def\<close>)
  have sk: "vhd_seek (int p) SEEK_SET (at_pos (f_size f) s) = (Inr (), at_pos p s)"
    using seek_quiet [of "at_pos (f_size f) s" f "int p"] q cf by (simp only: quiet_simps cur_file_simps nat_int of_nat_0_le_iff at_pos_simps)
  have rd: "vhd_read 2097152 (at_pos p s) = (Inr (file_read f p 2097152), st_with (p + 2097152) f s)"
    using read_here_quiet [of "at_pos p s" f 2097152] q cf fin by (simp add: p_def)
  show ?thesis
    unfolding p_def [symmetric]
    using c(1,4,5,6) get_bat_quiet [OF c(1) c(11)] bat_entry_quiet [OF bl] al unat_of_nblocks [OF b]
      of_nat_less_entries [OF b] ne q cf sz off
    by (simp add: vhd_read_block_def with_ctx_app vbind_def allocated_def valloc_quiet sk rd
        footer_offset_at_eof_quiet [where f = f] linorder_not_le [symmetric] Let_def)
qed

section \<open>One image\<close>

text \<open>The image has the sector; its contents are then those of the virtual disk.\<close>

definition present :: "vhd_context \<Rightarrow> vfile \<Rightarrow> nat \<Rightarrow> bool" where
  "present c f k \<longleftrightarrow> allocated c (k div 4096) \<and>
     vhd_bitmap_test c (file_read f (512 * start c (k div 4096)) 512) (k mod 4096)"

text \<open>
  The reads for which \<open>cnt\<close> is right: an unallocated block that is entered in the middle is not
  left by the range.
\<close>

definition reads_whole :: "vhd_context \<Rightarrow> nat \<Rightarrow> nat \<Rightarrow> bool" where
  "reads_whole c S n \<longleftrightarrow> S mod 4096 = 0 \<or> S mod 4096 + n \<le> 4096 \<or> allocated c (S div 4096)"

lemma vlayer_present:
  "vlayer c f (512 * k + o') =
     (if present c f k then Some (f_data f (512 * (start c (k div 4096) + 1 + k mod 4096) + o')) else None)"
  if "o' < 512"
proof -
  obtain q r where qr: "k div 4096 = q" "k mod 4096 = r" "r < 4096" by simp
  have k: "k = 4096 * q + r" using mult_div_mod_eq [of 4096 k] by (simp add: qr)
  have x: "512 * k + o' = q * 2097152 + (512 * r + o')" using k by simp
  have l: "512 * r + o' < 2097152" using qr(3) that by linarith
  have "(512 * k + o') div 2097152 = q" unfolding x using l by simp
  moreover have "(512 * k + o') mod 2097152 = 512 * r + o'" unfolding x using l by simp
  moreover have "(512 * r + o') div 512 = r" using that by simp
  ultimately show ?thesis
    by (simp add: vlayer_def present_def allocated_def Let_def qr algebra_simps)
qed

lemma present_iff: "present c f (x div 512) \<longleftrightarrow> vlayer c f x \<noteq> None"
  using vlayer_present [of "x mod 512" c f "x div 512"] by simp

lemma vlayer_allocated: "vlayer c f x \<noteq> None \<Longrightarrow> allocated c (x div 2097152)"
  by (auto simp: vlayer_def allocated_def Let_def)

definition moved :: "vfile \<Rightarrow> vst \<Rightarrow> vst \<Rightarrow> bool" where
  "moved f s t \<longleftrightarrow> t = s \<or> (\<exists>p. t = st_with p f s)"

lemma moved_refl [simp]: "moved f s s" and moved_st_with [simp]: "moved f s (st_with p f s)"
  by (auto simp: moved_def)

lemma moved_trans: "moved f s t \<Longrightarrow> moved f t u \<Longrightarrow> moved f s u"
  by (auto simp: moved_def)

lemma movedD:
  assumes "moved f s t"
  shows "st_ctx t = st_ctx s" "st_parents t = st_parents s" "cur_file s = Some f \<Longrightarrow> cur_file t = Some f"
    "quiet t = quiet s" "sys_sched (st_sys t) = sys_sched (st_sys s)"
    "cur_file s = Some f \<Longrightarrow> sys_files (st_sys t) = sys_files (st_sys s)"
  using assms
  by (auto simp: moved_def quiet_def st_with_def at_pos_def set_cur_file_def set_errno_def cur_file_def)

lemma image_ok_moved: "image_ok hs s f \<Longrightarrow> moved f s t \<Longrightarrow> image_ok hs t f"
  using movedD [of f s t] by (simp add: image_ok_def image_core_def)

text \<open>One turn of the loop for an allocated block.\<close>

lemma read_allocated:
  assumes ok: "image_ok hs s f" and b: "b < nblocks (st_ctx s)" and al: "allocated (st_ctx s) b"
    and pn: "p + n \<le> 4096" and room: "lo + n \<le> 8 * length (fst mb)" "512 * (lo + n) \<le> length (snd mb)"
  shows "\<exists>t. vbind (vhd_read_bitmap (of_nat b)) (\<lambda>bitmap. vbind (vhd_read_block (of_nat b)) (\<lambda>data. k bitmap data)) s =
      k (file_read f (512 * start (st_ctx s) b) 512) (file_read f (512 * (start (st_ctx s) b + 1)) 2097152) t \<and>
    moved f s t \<and>
    linked (\<lambda>j. present (st_ctx s) f (4096 * b + p + (j - lo))) (\<lambda>x. vdisk (st_ctx s) f (512 * (4096 * b + p) + (x - 512 * lo)))
      lo (lo + n) mb
      (vhd_io_dynamic_copy_data (Some (st_ctx s)) lo (file_read f (512 * start (st_ctx s) b) 512) p (512 * lo)
         (drop (512 * p) (file_read f (512 * (start (st_ctx s) b + 1)) 2097152)) n mb)"
proof -
  let ?c = "st_ctx s"
  let ?bm = "file_read f (512 * start ?c b) 512" and ?d = "file_read f (512 * (start ?c b + 1)) 2097152"
  from ok have core: "image_core hs s f" by (simp add: image_ok_def)
  from core have q: "quiet s" and cf: "cur_file s = Some f" and std: "std_ctx hs ?c" by (simp_all add: image_core_def)
  have fin: "512 * start ?c b + 2098176 \<le> f_size f" by (rule image_block_end [OF ok b al])
  have rb: "vhd_read_bitmap (of_nat b) s = (Inr ?bm, st_with (512 * start ?c b + 512) f s)"
    by (rule read_bitmap_quiet [OF q cf std b al]) (use fin in linarith)
  let ?s = "st_with (512 * start ?c b + 512) f s"
  have "image_ok hs ?s f" by (rule image_ok_moved [OF ok]) simp
  from read_block_quiet [OF this, of b] b al
  have rk: "vhd_read_block (of_nat b) ?s = (Inr ?d, st_with (512 * (start ?c b + 1) + 2097152) f s)" by simp
  have ld: "512 * n \<le> length (drop (512 * p) ?d)" using pn by simp
  have "linked (\<lambda>j. present ?c f (4096 * b + p + (j - lo)))
      (\<lambda>x. vdisk ?c f (512 * (4096 * b + p) + (x - 512 * lo))) lo (lo + n) mb
      (vhd_io_dynamic_copy_data (Some ?c) lo ?bm p (512 * lo) (drop (512 * p) ?d) n mb)"
  proof (rule linked_cong [OF copy_data_linked [OF room ld]])
    fix j assume j: "lo \<le> j" "j < lo + n"
    obtain i where i: "j = lo + i" "i < n" using j by (metis le_Suc_ex add_less_cancel_left)
    have "p + i < 4096" using i pn by simp
    then have "(4096 * b + p + i) div 4096 = b" "(4096 * b + p + i) mod 4096 = p + i"
      by (simp_all add: add.assoc)
    then show "vhd_bitmap_test ?c ?bm (p + (j - lo)) = present ?c f (4096 * b + p + (j - lo))"
      using al i by (simp add: present_def)
  next
    fix x assume x: "lo \<le> x div 512" "x div 512 < lo + n" and bit: "vhd_bitmap_test ?c ?bm (p + (x div 512 - lo))"
    obtain i where i: "x div 512 = lo + i" "i < n" using x by (metis le_Suc_ex add_less_cancel_left)
    obtain o' where o': "x mod 512 = o'" "o' < 512" by simp
    have x': "x = 512 * (lo + i) + o'" using i(1) o'(1) by (metis mult_div_mod_eq)
    have pi: "p + i < 4096" using i pn by simp
    then have dm: "(4096 * b + p + i) div 4096 = b" "(4096 * b + p + i) mod 4096 = p + i"
      by (simp_all add: add.assoc)
    have pr: "present ?c f (4096 * b + p + i)" using al bit i dm by (simp add: present_def)
    have "512 * (4096 * b + p) + (x - 512 * lo) = 512 * (4096 * b + p + i) + o'" using x' by simp
    then have v: "vdisk ?c f (512 * (4096 * b + p) + (x - 512 * lo)) =
        f_data f (512 * (start ?c b + 1 + (p + i)) + o')"
      using vlayer_present [OF o'(2), of ?c f "4096 * b + p + i"] pr
      by (simp only: vdisk_def dm if_True option.case)
    have xi: "x - 512 * lo = 512 * i + o'" using x' by simp
    have lt: "512 * p + (512 * i + o') < 2097152" using pi o'(2) by linarith
    then show "drop (512 * p) ?d ! (x - 512 * lo) = vdisk ?c f (512 * (4096 * b + p) + (x - 512 * lo))"
      unfolding v unfolding xi by (simp add: algebra_simps)
  qed
  moreover have "vbind (vhd_read_bitmap (of_nat b)) (\<lambda>bitmap. vbind (vhd_read_block (of_nat b)) (\<lambda>data. k bitmap data)) s =
      k ?bm ?d (st_with (512 * (start ?c b + 1) + 2097152) f s)"
    by (simp only: vbind_def rb rk prod.case sum.case)
  ultimately show ?thesis by (intro exI [of _ "st_with (512 * (start ?c b + 1) + 2097152) f s"]) simp
qed

section \<open>The loop over the blocks\<close>

lemma read_link_word_facts:
  assumes "m \<le> n" and "n < 4294967296"
  shows "unat (of_nat m :: u32) = m" "(of_nat n - of_nat m :: u32) = of_nat (n - m)"
    "(of_nat (n - m) :: u32) = 0 \<longleftrightarrow> n - m = 0" "(ucast (of_nat m :: u32) :: u64) = of_nat m"
proof -
  show u: "unat (of_nat m :: u32) = m" using le_less_trans [OF assms] by (intro unat_of_nat_u32) simp
  show "(of_nat n - of_nat m :: u32) = of_nat (n - m)" using assms(1) by (simp add: of_nat_diff)
  have "unat (of_nat (n - m) :: u32) = n - m"
    using le_less_trans [OF diff_le_self assms(2)] by (intro unat_of_nat_u32) simp
  then show "(of_nat (n - m) :: u32) = 0 \<longleftrightarrow> n - m = 0"
    by (simp only: flip: unsigned_eq_0_iff [where ?'a = nat])
  show "(ucast (of_nat m :: u32) :: u64) = of_nat m" by (metis u of_nat_unat)
qed

text \<open>The number of sectors one turn handles, and the turn.\<close>

definition turn :: "vhd_context \<Rightarrow> nat \<Rightarrow> nat \<Rightarrow> nat" where
  "turn c S n = (if allocated c (S div 4096) then min n (4096 - S mod 4096) else min n 4096)"

lemma turn_facts:
  assumes "0 < n" and "reads_whole c S n"
  shows "0 < turn c S n" "turn c S n \<le> n" "S mod 4096 + turn c S n \<le> 4096"
    "turn c S n < n \<Longrightarrow> (S + turn c S n) mod 4096 = 0"
proof -
  define b where "b = S div 4096"
  obtain r where r: "S mod 4096 = r" "r < 4096" by simp
  have S: "S = 4096 * b + r" using mult_div_mod_eq [of 4096 S] by (simp add: b_def r(1))
  show fit: "0 < turn c S n" "turn c S n \<le> n" "S mod 4096 + turn c S n \<le> 4096"
    using assms r by (auto simp: reads_whole_def turn_def)
  assume "turn c S n < n"
  then have "turn c S n = 4096 - r \<or> turn c S n = 4096"
    by (auto simp: turn_def min_def r(1) split: if_splits)
  then have "S + turn c S n = 4096 * (b + 1)" using S r fit(3) by auto
  then show "(S + turn c S n) mod 4096 = 0" by simp
qed

text \<open>The data part of a turn, and the rest of the loop.\<close>

definition link_copy :: "nat \<Rightarrow> nat \<Rightarrow> u32 \<Rightarrow> bytes \<times> bytes \<Rightarrow> bytes \<Rightarrow> bytes \<Rightarrow> (vst, u32 \<times> bytes \<times> bytes) vm" where
  "link_copy lo r cnt mb bitmap data =
     vthen (vdefined (r + unat cnt \<le> 8 * length bitmap \<and> 512 * (r + unat cnt) \<le> length data \<and>
        lo + unat cnt \<le> 8 * length (fst mb) \<and> 512 * (lo + unat cnt) \<le> length (snd mb)))
      (with_ctx (\<lambda>ctx. vret (cnt, vhd_io_dynamic_copy_data (Some ctx) lo bitmap r
         (512 * lo) (drop (512 * r) data) (unat cnt) mb)))"

definition link_rest :: "nat \<Rightarrow> nat \<Rightarrow> u64 \<Rightarrow> u32 \<Rightarrow> u32 \<times> bytes \<times> bytes \<Rightarrow> (vst, bytes \<times> bytes) vm" where
  "link_rest k lo sector secs = (\<lambda>(cnt, mb). if secs - cnt = 0 then vret mb
     else read_link_loop k (lo + unat cnt) (sector + ucast cnt) (secs - cnt) mb)"

lemma if_distrib_vret: "(if b then vret x else m) s = (if b then (Inr x, s) else m s)"
  by (simp add: vret_def)

lemma ucast_4096: "(ucast (4096 :: u32) :: u64) = 4096"
  by simp

lemma read_link_unfold:
  assumes "ctx_spb (st_ctx s) = 4096" and "bat_entry (unat blk) s = (Inr w, s)"
    and "(ucast (sector div (4096 :: u64)) :: u32) = blk" "(ucast (sector mod (4096 :: u64)) :: u32) = sec"
  shows "read_link_loop (Suc k) lo sector secs mb s =
    vbind (if w = DD_BLK_UNUSED then vret (min secs 4096, mb)
           else vbind (vhd_read_bitmap blk) (\<lambda>bitmap. vbind (vhd_read_block blk) (\<lambda>data.
             link_copy lo (unat sec) (min secs (4096 - sec)) mb bitmap data)))
      (link_rest k lo sector secs) s"
proof -
  have "(\<lambda>bitmap. vbind (vhd_read_block blk) (\<lambda>data.
      let cnt = min secs (4096 - sec); n = unat cnt; p = unat sec
      in vthen (vdefined (p + n \<le> 8 * length bitmap \<and> 512 * (p + n) \<le> length data \<and>
                   lo + n \<le> 8 * length (fst mb) \<and> 512 * (lo + n) \<le> length (snd mb)))
             (with_ctx (\<lambda>ctx. vret (cnt, vhd_io_dynamic_copy_data (Some ctx) lo bitmap p
                (512 * lo) (drop (512 * p) data) n mb))))) =
    (\<lambda>bitmap. vbind (vhd_read_block blk) (\<lambda>data.
             link_copy lo (unat sec) (min secs (4096 - sec)) mb bitmap data))"
    by (simp only: link_copy_def Let_def)
  then have "read_link_loop (Suc k) lo sector secs mb s =
    vthen (vdefined (4096 \<noteq> (0 :: u32))) (vbind (bat_entry (unat blk)) (\<lambda>w.
      vbind (if w = DD_BLK_UNUSED then vret (min secs 4096, mb)
           else vbind (vhd_read_bitmap blk) (\<lambda>bitmap. vbind (vhd_read_block blk) (\<lambda>data.
             link_copy lo (unat sec) (min secs (4096 - sec)) mb bitmap data)))
      (link_rest k lo sector secs))) s"
    by (simp only: read_link_loop.simps(2) with_ctx_app link_rest_def assms(1,3,4) Let_def ucast_4096)
  moreover have "vdefined (4096 \<noteq> (0 :: u32)) s = (Inr (), s)" by (simp add: vdefined_def vret_def)
  ultimately show ?thesis using assms(2) by (simp only: vbind_ok)
qed

lemma read_link_step:
  assumes ok: "image_ok hs s f" and rng: "S + n \<le> 4096 * nblocks (st_ctx s)" and n: "0 < n"
    and n32: "n < 4294967296" and whole: "reads_whole (st_ctx s) S n" and S0: "S = S0 + lo"
    and room: "lo + n \<le> 8 * length (fst mb)" "512 * (lo + n) \<le> length (snd mb)"
  defines "m \<equiv> turn (st_ctx s) S n"
  shows "\<exists>mb1 t1. read_link_loop (Suc k) lo (of_nat S) (of_nat n) mb s =
      (if n - m = 0 then (Inr mb1, t1) else read_link_loop k (lo + m) (of_nat (S + m)) (of_nat (n - m)) mb1 t1) \<and>
      moved f s t1 \<and>
      linked (\<lambda>j. present (st_ctx s) f (S0 + j)) (\<lambda>x. vdisk (st_ctx s) f (512 * S0 + x)) lo (lo + m) mb mb1"
proof -
  let ?c = "st_ctx s"
  let ?P = "\<lambda>j. present ?c f (S0 + j)" and ?D = "\<lambda>x. vdisk ?c f (512 * S0 + x)"
  define b where "b = S div 4096"
  define r where "r = S mod 4096"
  note m = turn_facts [OF n whole, folded m_def r_def]
  have std: "std_ctx hs ?c" using ok by (simp add: image_ok_def image_core_def)
  have r4: "r < 4096" by (simp add: r_def)
  have Sbr: "S = 4096 * b + r" using mult_div_mod_eq [of 4096 S] by (simp add: b_def r_def)
  have bn: "b < nblocks ?c" using rng n by (simp add: b_def less_mult_imp_div_less mult.commute)
  have bl: "b < length (bat_words ?c)" using bn std_ctxD(12) [OF std] by simp
  have N: "nblocks ?c < 4294967296" by (simp add: nblocks_def)
  have Sb: "S < 18446744073709551616" using rng N by linarith
  have w: "(ucast (of_nat S div (4096 :: u64)) :: u32) = of_nat b" "(ucast (of_nat S mod (4096 :: u64)) :: u32) = of_nat r"
    using of_nat_div_4096 [OF Sb] by (simp_all add: b_def r_def)
  note wf = read_link_word_facts [OF m(2) n32]
  have ur: "unat (of_nat r :: u32) = r" using r4 by (intro unat_of_nat_u32) simp
  have be: "bat_entry (unat (of_nat b :: u32)) s = (Inr (bat_words ?c ! b), s)"
    using bat_entry_quiet [OF bl] unat_of_nblocks [OF bn] by simp
  show ?thesis
  proof (cases "allocated ?c b")
    case False
    then have un: "bat_words ?c ! b = DD_BLK_UNUSED" by (simp add: allocated_def)
    have mn: "min (of_nat n) (4096 :: u32) = of_nat m"
      using False n32 min_of_nat_u32 [of n 4096] by (simp add: m_def turn_def b_def)
    have "read_link_loop (Suc k) lo (of_nat S) (of_nat n) mb s =
      (if n - m = 0 then (Inr mb, s) else read_link_loop k (lo + m) (of_nat (S + m)) (of_nat (n - m)) mb s)"
      unfolding read_link_unfold [OF std_ctxD(4) [OF std] be w]
      by (simp only: un mn simp_thms if_True vbind_vret link_rest_def prod.case wf of_nat_add if_distrib_vret)
    moreover have "linked ?P ?D lo (lo + m) mb mb"
    proof (rule linked_none)
      fix j assume j: "lo \<le> j" "j < lo + m"
      obtain i where i: "j = lo + i" "i < m" using j by (metis le_Suc_ex add_less_cancel_left)
      have "S0 + j = 4096 * b + (r + i)" using i S0 Sbr by simp
      moreover have "r + i < 4096" using i m(3) by simp
      ultimately have "(S0 + j) div 4096 = b" by simp
      then show "\<not> ?P j" using False by (simp add: present_def)
    qed
    ultimately show ?thesis by (intro exI [of _ mb] exI [of _ s]) simp
  next
    case True
    let ?bm = "file_read f (512 * start ?c b) 512" and ?d = "file_read f (512 * (start ?c b + 1)) 2097152"
    have cnt: "min (of_nat n) (4096 - of_nat r :: u32) = of_nat m"
    proof -
      have "(4096 - of_nat r :: u32) = of_nat (4096 - r)" using r4 by (simp add: of_nat_diff)
      moreover have "m = min n (4096 - r)" using True by (simp add: m_def turn_def b_def r_def)
      ultimately show ?thesis using n32 by (simp add: min_of_nat_u32)
    qed
    have used: "bat_words ?c ! b \<noteq> DD_BLK_UNUSED" using True by (simp add: allocated_def)
    have room1: "lo + m \<le> 8 * length (fst mb)" "512 * (lo + m) \<le> length (snd mb)" using room m(2) by simp_all
    let ?mb = "vhd_io_dynamic_copy_data (Some ?c) lo ?bm r (512 * lo) (drop (512 * r) ?d) m mb"
    from read_allocated [OF ok bn True m(3) room1, of "link_copy lo r (of_nat m) mb"]
    obtain t1 where run: "vbind (vhd_read_bitmap (of_nat b)) (\<lambda>bitmap. vbind (vhd_read_block (of_nat b)) (\<lambda>data.
        link_copy lo r (of_nat m) mb bitmap data)) s = link_copy lo r (of_nat m) mb ?bm ?d t1"
      and mv: "moved f s t1"
      and lk: "linked (\<lambda>j. present ?c f (4096 * b + r + (j - lo))) (\<lambda>x. vdisk ?c f (512 * (4096 * b + r) + (x - 512 * lo)))
        lo (lo + m) mb ?mb" by blast
    have cp: "link_copy lo r (of_nat m) mb ?bm ?d t1 = (Inr (of_nat m, ?mb), t1)"
      using m(3) room1 movedD(1) [OF mv] wf(1)
      by (simp add: link_copy_def vdefined_def vbind_def vret_def with_ctx_app)
    have step: "read_link_loop (Suc k) lo (of_nat S) (of_nat n) mb s =
      (if n - m = 0 then (Inr ?mb, t1) else read_link_loop k (lo + m) (of_nat (S + m)) (of_nat (n - m)) ?mb t1)"
      unfolding read_link_unfold [OF std_ctxD(4) [OF std] be w] using used wf
      by (simp only: if_False ur cnt vbind_ok [where m = "vbind _ _" and s = s, OF run [unfolded cp]] link_rest_def prod.case wf
          of_nat_add if_distrib_vret)
    have "linked ?P ?D lo (lo + m) mb ?mb"
    proof (rule linked_cong [OF lk])
      fix x assume x: "lo \<le> x div 512"
      have "512 * lo \<le> x" using x by (simp add: less_eq_div_iff_mult_less_eq mult.commute)
      then have "512 * (4096 * b + r) + (x - 512 * lo) = 512 * S0 + x" using S0 Sbr by simp
      then show "vdisk ?c f (512 * (4096 * b + r) + (x - 512 * lo)) = ?D x" by simp
    next
      fix j assume "lo \<le> j"
      then have "4096 * b + r + (j - lo) = S0 + j" using S0 Sbr by simp
      then show "present ?c f (4096 * b + r + (j - lo)) = ?P j" by simp
    qed
    then show ?thesis using step mv by (intro exI [of _ ?mb] exI [of _ t1]) simp
  qed
qed

lemma read_link_loop_ok:
  assumes "image_ok hs s f" and "S + n \<le> 4096 * nblocks (st_ctx s)" and "0 < n" and "n \<le> k"
    and "n < 4294967296" and "reads_whole (st_ctx s) S n" and "S = S0 + lo"
    and "lo + n \<le> 8 * length (fst mb)" and "512 * (lo + n) \<le> length (snd mb)"
  shows "\<exists>mb' t. read_link_loop k lo (of_nat S) (of_nat n) mb s = (Inr mb', t) \<and> moved f s t \<and>
    linked (\<lambda>j. present (st_ctx s) f (S0 + j)) (\<lambda>x. vdisk (st_ctx s) f (512 * S0 + x)) lo (lo + n) mb mb'"
  using assms
proof (induction k arbitrary: S n lo mb s)
  case 0
  then show ?case by simp
next
  case (Suc k)
  note ok = Suc.prems(1) and rng = Suc.prems(2) and n = Suc.prems(3) and nk = Suc.prems(4)
    and n32 = Suc.prems(5) and whole = Suc.prems(6) and S0 = Suc.prems(7) and room = Suc.prems(8,9)
  let ?c = "st_ctx s"
  let ?P = "\<lambda>j. present ?c f (S0 + j)" and ?D = "\<lambda>x. vdisk ?c f (512 * S0 + x)"
  define m where "m = turn ?c S n"
  note m = turn_facts [OF n whole, folded m_def]
  obtain mb1 t1 where step: "read_link_loop (Suc k) lo (of_nat S) (of_nat n) mb s =
      (if n - m = 0 then (Inr mb1, t1) else read_link_loop k (lo + m) (of_nat (S + m)) (of_nat (n - m)) mb1 t1)"
    and mv: "moved f s t1" and lk: "linked ?P ?D lo (lo + m) mb mb1"
    using read_link_step [OF ok rng n n32 whole S0 room, of k] unfolding m_def by blast
  show ?case
  proof (cases "n - m = 0")
    case True
    then have "m = n" using m(2) by simp
    then show ?thesis using step mv lk by (simp del: read_link_loop.simps)
  next
    case False
    then have al: "(S + m) mod 4096 = 0" using m(4) by simp
    have ct: "st_ctx t1 = ?c" by (rule movedD(1) [OF mv])
    have len: "length (fst mb1) = length (fst mb)" "length (snd mb1) = length (snd mb)"
      using lk by (simp_all add: linked_def)
    have w: "reads_whole (st_ctx t1) (S + m) (n - m)" using al by (simp add: reads_whole_def)
    have "S + m + (n - m) \<le> 4096 * nblocks (st_ctx t1)" "0 < n - m" "n - m \<le> k" "n - m < 4294967296"
      "S + m = S0 + (lo + m)" "lo + m + (n - m) \<le> 8 * length (fst mb1)"
      "512 * (lo + m + (n - m)) \<le> length (snd mb1)"
      using rng m(1,2) nk n32 S0 room False len ct by simp_all
    from Suc.IH [OF image_ok_moved [OF ok mv] this(1-4) w this(5-7)]
    obtain mb' t where run: "read_link_loop k (lo + m) (of_nat (S + m)) (of_nat (n - m)) mb1 t1 = (Inr mb', t)"
      and mv': "moved f t1 t" and lk': "linked ?P ?D (lo + m) (lo + n) mb1 mb'" using ct m(2) by auto
    have "linked ?P ?D lo (lo + n) mb mb'" by (rule linked_trans [OF lk lk']) (use m room in simp_all)
    moreover have "read_link_loop (Suc k) lo (of_nat S) (of_nat n) mb s = (Inr mb', t)"
      unfolding step run using False by (simp only: if_False)
    ultimately show ?thesis using moved_trans [OF mv mv'] by blast
  qed
qed

lemma read_link_ok:
  assumes ok: "image_ok hs s f" and rng: "S + n \<le> 4096 * nblocks (st_ctx s)" and n: "0 < n" "n < 4294967296"
    and whole: "reads_whole (st_ctx s) S n" and room: "n \<le> 8 * length (fst mb)" "512 * n \<le> length (snd mb)"
  shows "\<exists>mb' t. vhd_io_dynamic_read_link (of_nat S) (of_nat n) mb s = (Inr mb', t) \<and> moved f s t \<and>
    linked (\<lambda>j. present (st_ctx s) f (S + j)) (\<lambda>x. vdisk (st_ctx s) f (512 * S + x)) 0 n mb mb'"
proof -
  have "unat (of_nat n :: u32) = n" using n by (intro unat_of_nat_u32) simp
  then show ?thesis
    using read_link_loop_ok [OF ok rng n(1) _ n(2) whole, of "Suc n" S 0 mb] room
    by (simp add: vhd_io_dynamic_read_link_def del: read_link_loop.simps)
qed

section \<open>Chains of cached parents\<close>

text \<open>The contents of a chain: the first image that has the sector, zero if none does.\<close>

primrec chain_disk :: "(string \<rightharpoonup> vfile) \<Rightarrow> vhd_context list \<Rightarrow> nat \<Rightarrow> u8" where
  "chain_disk fs [] x = 0"
| "chain_disk fs (c # cs) x = (case fs (ctx_file c) of None \<Rightarrow> 0
     | Some f \<Rightarrow> (case vlayer c f x of None \<Rightarrow> chain_disk fs cs x | Some v \<Rightarrow> v))"

definition image_at :: "nat \<Rightarrow> (string \<rightharpoonup> vfile) \<Rightarrow> vhd_context \<Rightarrow> vfile \<Rightarrow> bool" where
  "image_at hs fs c f \<longleftrightarrow> fs (ctx_file c) = Some f \<and> \<not> f_blk f \<and> std_ctx hs c \<and> blocks_ok hs c (f_size f) \<and>
     blocks_ok hs c (f_size f - 512)"

lemma image_ok_at: "image_ok hs s f \<longleftrightarrow> quiet s \<and> image_at hs (sys_files (st_sys s)) (st_ctx s) f"
  by (auto simp: image_ok_def image_core_def image_at_def cur_file_def)

text \<open>Every image but the last is a differencing one with its parent in the cache.\<close>

primrec chain_ok :: "nat \<Rightarrow> nat \<Rightarrow> (string \<rightharpoonup> vfile) \<Rightarrow> vhd_context list \<Rightarrow> bool" where
  "chain_ok S n fs [] \<longleftrightarrow> False"
| "chain_ok S n fs (c # cs) \<longleftrightarrow> (\<exists>hs f. image_at hs fs c f) \<and> S + n \<le> 4096 * nblocks c \<and> reads_whole c S n \<and>
     (if cs = [] then ftr_type (ctx_footer c) \<noteq> HD_TYPE_DIFF
      else ftr_type (ctx_footer c) = HD_TYPE_DIFF \<and> vhd_cache_enabled c \<and> chain_ok S n fs cs)"

definition same_image :: "vst \<Rightarrow> vst \<Rightarrow> bool" where
  "same_image s t \<longleftrightarrow> st_ctx t = st_ctx s \<and> st_parents t = st_parents s \<and>
     sys_files (st_sys t) = sys_files (st_sys s) \<and> quiet t = quiet s"

lemma moved_same_image: "moved f s t \<Longrightarrow> cur_file s = Some f \<Longrightarrow> same_image s t"
  using movedD [of f s t] by (simp add: same_image_def)

lemma same_image_trans: "same_image s t \<Longrightarrow> same_image t u \<Longrightarrow> same_image s u"
  by (simp add: same_image_def)

lemma on_parent_ok:
  assumes "st_parents s = c # cs" and "m (s\<lparr>st_ctx := c, st_pos := 0, st_parents := cs\<rparr>) = (Inr r, t)"
    and "same_image (s\<lparr>st_ctx := c, st_pos := 0, st_parents := cs\<rparr>) t"
  shows "\<exists>u. on_parent m s = (Inr r, u) \<and> same_image s u"
  using assms by (auto simp: on_parent_def same_image_def quiet_def)

text \<open>What a chain has delivered into an unfinished buffer.\<close>

definition delivered :: "(nat \<Rightarrow> u8) \<Rightarrow> nat \<Rightarrow> bytes \<times> bytes \<Rightarrow> bytes \<times> bytes \<Rightarrow> bool" where
  "delivered D n mb mb' \<longleftrightarrow> length (snd mb') = length (snd mb) \<and>
     (\<forall>x < 512 * n. snd mb' ! x = (if test_bit (fst mb) (x div 512) then snd mb ! x else D x))"

definition blank :: "nat \<Rightarrow> bytes \<times> bytes \<Rightarrow> bool" where
  "blank n mb \<longleftrightarrow> n \<le> 8 * length (fst mb) \<and> 512 * n \<le> length (snd mb) \<and>
     (\<forall>x < 512 * n. \<not> test_bit (fst mb) (x div 512) \<longrightarrow> snd mb ! x = 0)"

lemma linked_blank: "linked P D 0 n mb mb' \<Longrightarrow> blank n mb \<Longrightarrow> blank n mb'"
  by (auto simp: linked_def blank_def less_mult_imp_div_less mult.commute)

lemma linked_delivered:
  assumes "linked P D 0 n mb mb1" and "blank n mb" and "delivered E n mb1 mb2"
  shows "delivered (\<lambda>x. if P (x div 512) then D x else E x) n mb mb2"
  using assms by (auto simp: linked_def delivered_def blank_def less_mult_imp_div_less mult.commute)

lemma delivered_rest:
  assumes "linked P D 0 n mb mb'" and "blank n mb"
  shows "delivered (\<lambda>x. if P (x div 512) then D x else 0) n mb mb'"
    and "(\<forall>i < n. test_bit (fst mb') i) \<Longrightarrow> delivered (\<lambda>x. if P (x div 512) then D x else E x) n mb mb'"
proof -
  show d: "delivered (\<lambda>x. if P (x div 512) then D x else 0) n mb mb'"
    using assms by (auto simp: linked_def delivered_def blank_def less_mult_imp_div_less mult.commute)
  assume full: "\<forall>i < n. test_bit (fst mb') i"
  have "P (x div 512) \<or> test_bit (fst mb) (x div 512)" if "x < 512 * n" for x
  proof -
    have "x div 512 < n" using that by (simp add: less_mult_imp_div_less mult.commute)
    then show ?thesis using full assms by (auto simp: linked_def blank_def)
  qed
  then show "delivered (\<lambda>x. if P (x div 512) then D x else E x) n mb mb'"
    using d by (auto simp: delivered_def)
qed

lemma read_chain_ok:
  assumes "chain_ok S n (sys_files (st_sys s)) (st_ctx s # st_parents s)" and "quiet s"
    and "0 < n" "n < 4294967296" and "blank n mb" and "length (st_parents s) < fuel"
  shows "\<exists>mb' t. read_chain lc fuel (of_nat S) (of_nat n) mb s = (Inr mb', t) \<and> same_image s t \<and>
    delivered (\<lambda>x. chain_disk (sys_files (st_sys s)) (st_ctx s # st_parents s) (512 * S + x)) n mb mb'"
  using assms
proof (induction fuel arbitrary: s mb)
  case 0
  then show ?case by simp
next
  case (Suc fuel)
  let ?c = "st_ctx s" and ?ps = "st_parents s" and ?fs = "sys_files (st_sys s)"
  obtain hs f where at: "image_at hs ?fs ?c f" using Suc.prems(1) by auto
  have ok: "image_ok hs s f" using at Suc.prems(2) by (simp add: image_ok_at)
  have cf: "cur_file s = Some f" using at by (simp add: image_at_def cur_file_def)
  have room: "n \<le> 8 * length (fst mb)" "512 * n \<le> length (snd mb)" using Suc.prems(5) by (simp_all add: blank_def)
  from Suc.prems(1) have rng: "S + n \<le> 4096 * nblocks ?c" and whole: "reads_whole ?c S n" by simp_all
  obtain mb1 t1 where run: "vhd_io_dynamic_read_link (of_nat S) (of_nat n) mb s = (Inr mb1, t1)" and mv: "moved f s t1"
    and lk: "linked (\<lambda>j. present ?c f (S + j)) (\<lambda>x. vdisk ?c f (512 * S + x)) 0 n mb mb1"
    using read_link_ok [OF ok rng Suc.prems(3,4) whole room] by blast
  have si: "same_image s t1" by (rule moved_same_image [OF mv cf])
  have un: "unat (of_nat n :: u32) = n" using Suc.prems(4) by (intro unat_of_nat_u32) simp
  have ff: "?fs (ctx_file ?c) = Some f" using at by (simp add: image_at_def)
  have dv: "(512 * S + x) div 512 = S + x div 512" for x by simp
  let ?E = "\<lambda>x. chain_disk ?fs ?ps (512 * S + x)"
  have lay: "(case vlayer ?c f y of None \<Rightarrow> e | Some v \<Rightarrow> v) =
      (if present ?c f (y div 512) then vdisk ?c f y else e)" for y e
    using present_iff [of ?c f y] by (auto simp: vdisk_def)
  have goal: "(\<lambda>x. chain_disk ?fs (?c # ?ps) (512 * S + x)) =
      (\<lambda>x. if present ?c f (S + x div 512) then vdisk ?c f (512 * S + x) else ?E x)"
    by (simp only: chain_disk.simps ff option.case lay dv)
  show ?case
  proof (cases "all_done (of_nat n) (fst mb1)")
    case True
    then have "\<forall>i < n. test_bit (fst mb1) i" by (auto simp: all_done_def un)
    with delivered_rest(2) [OF lk Suc.prems(5)] run True si show ?thesis
      unfolding goal by (simp add: vbind_def vret_def)
  next
    case False
    have ct: "st_ctx t1 = ?c" "st_parents t1 = ?ps" using si by (simp_all add: same_image_def)
    show ?thesis
    proof (cases "?ps = []")
      case True
      then have "ftr_type (ctx_footer ?c) \<noteq> HD_TYPE_DIFF" using Suc.prems(1) by simp
      then have "read_chain lc (Suc fuel) (of_nat S) (of_nat n) mb s = (Inr mb1, t1)"
        using run False ct by (simp add: vbind_def with_ctx_app)
      moreover have "delivered (\<lambda>x. chain_disk ?fs (?c # ?ps) (512 * S + x)) n mb mb1"
        using delivered_rest(1) [OF lk Suc.prems(5)] unfolding goal by (simp only: True chain_disk.simps)
      ultimately show ?thesis using si by blast
    next
      case ps: False
      then obtain c cs where p: "?ps = c # cs" by (cases ?ps) auto
      have df: "ftr_type (ctx_footer ?c) = HD_TYPE_DIFF" "vhd_cache_enabled ?c" "chain_ok S n ?fs (c # cs)"
        using Suc.prems(1) p by simp_all
      let ?u = "t1\<lparr>st_ctx := c, st_pos := 0, st_parents := cs\<rparr>"
      have fu: "sys_files (st_sys ?u) = ?fs" "quiet ?u" using si Suc.prems(2) by (simp_all add: same_image_def quiet_def)
      obtain hs' g where std: "std_ctx hs' (st_ctx ?u)" using df(3) by (auto simp: image_at_def)
      have gb: "vhd_get_bat ?u = (Inr (), ?u)"
        using get_bat_quiet [of ?u] std_ctxD(1,11) [OF std] by simp
      have "\<exists>mb' t. read_chain lc fuel (of_nat S) (of_nat n) mb1 ?u = (Inr mb', t) \<and> same_image ?u t \<and>
          delivered (\<lambda>x. chain_disk (sys_files (st_sys ?u)) (st_ctx ?u # st_parents ?u) (512 * S + x)) n mb1 mb'"
        by (rule Suc.IH) (use df(3) fu Suc.prems(3,4,6) linked_blank [OF lk Suc.prems(5)] p in \<open>simp_all del: chain_ok.simps\<close>)
      then obtain mb2 t2 where run2: "read_chain lc fuel (of_nat S) (of_nat n) mb1 ?u = (Inr mb2, t2)"
        and si2: "same_image ?u t2" and dl: "delivered ?E n mb1 mb2" unfolding fu p by auto
      have "vthen vhd_get_bat (read_chain lc fuel (of_nat S) (of_nat n) mb1) ?u = (Inr mb2, t2)"
        using gb run2 by (simp only: vbind_def prod.case sum.case)
      from on_parent_ok [of t1 c cs "vthen vhd_get_bat (read_chain lc fuel (of_nat S) (of_nat n) mb1)", OF _ this si2]
        ct p obtain u where
        op: "on_parent (vthen vhd_get_bat (read_chain lc fuel (of_nat S) (of_nat n) mb1)) t1 = (Inr mb2, u)"
        and su: "same_image t1 u" by auto
      have "vhd_cache_get_parent t1" using ct df p by (simp add: vhd_cache_get_parent_def)
      then have "read_chain lc (Suc fuel) (of_nat S) (of_nat n) mb s = (Inr mb2, u)"
        using run False ct df op by (simp add: vbind_def [of "vhd_io_dynamic_read_link _ _ _"] with_ctx_app)
      with linked_delivered [OF lk Suc.prems(5) dl] same_image_trans [OF si su] show ?thesis
        unfolding goal by blast
    qed
  qed
qed

section \<open>vhd_io_read\<close>

lemma io_read_chain:
  assumes ch: "chain_ok S n (sys_files (st_sys s)) (st_ctx s # st_parents s)" and q: "quiet s"
    and n: "0 < n" "n < 67108864" and fuel: "length (st_parents s) < fuel"
  shows "\<exists>buf t. vhd_io_read lc fuel (of_nat S) (of_nat n) s = (Inr buf, t) \<and> same_image s t \<and>
    length buf = 512 * n \<and>
    (\<forall>x < 512 * n. buf ! x = chain_disk (sys_files (st_sys s)) (st_ctx s # st_parents s) (512 * S + x))"
proof -
  let ?c = "st_ctx s"
  obtain hs f where std: "std_ctx hs ?c" and rng: "S + n \<le> 4096 * nblocks ?c"
    using ch by (auto simp: image_at_def)
  note c = std_ctxD [OF std]
  have n32: "n < 4294967296" using n by simp
  have un: "unat (of_nat n :: u32) = n" using n by (intro unat_of_nat_u32) simp
  have uu: "(ucast (of_nat n :: u32) :: u64) = of_nat n" by (metis un of_nat_unat)
  have b: "unat (vhd_sectors_to_bytes (of_nat n :: u64)) = 512 * n"
  proof -
    have "unat (of_nat n :: u64) = n" using n by (intro unat_of_nat_small) simp
    then show ?thesis using n by (subst unat_sectors_to_bytes) simp_all
  qed
  have m: "unat (push_bit (VHD_SECTOR_SHIFT - 3) (of_nat n :: u32)) = 64 * n"
  proof -
    have "push_bit (VHD_SECTOR_SHIFT - 3) (of_nat n :: u32) = of_nat (64 * n)"
      by (simp add: VHD_SECTOR_SHIFT_def push_bit_eq_mult)
    then show ?thesis using n unat_of_nat_u32 [of "64 * n"] by simp
  qed
  let ?mb = "(zeros (64 * n), zeros (512 * n))"
  have "blank n ?mb" by (simp add: blank_def)
  from read_chain_ok [OF ch q n(1) n32 this fuel, of lc] obtain mb' t
    where run: "read_chain lc fuel (of_nat S) (of_nat n) ?mb s = (Inr mb', t)" and si: "same_image s t"
      and dl: "delivered (\<lambda>x. chain_disk (sys_files (st_sys s)) (?c # st_parents s) (512 * S + x)) n ?mb mb'" by blast
  have z: "\<not> test_bit (zeros (64 * n)) (x div 512)" if "x < 512 * n" for x
    using that by (simp add: test_bit_iff div_mult2_eq [symmetric])
  have "vhd_io_read lc fuel (of_nat S) (of_nat n) s = (Inr (snd mb'), t)"
    using in_range [OF std rng n32] c(1) get_bat_quiet [OF c(1) c(11)] run q
    by (simp add: vhd_io_read_def vhd_io_dynamic_read_def with_ctx_app vbind_def vret_def valloc_quiet uu b m)
  then show ?thesis using si dl z by (intro exI [of _ "snd mb'"] exI [of _ t]) (simp add: delivered_def)
qed

lemma image_read:
  assumes ok: "image_ok hs s f" and par: "ftr_type (ctx_footer (st_ctx s)) \<noteq> HD_TYPE_DIFF" "st_parents s = []"
    and rng: "S + n \<le> 4096 * nblocks (st_ctx s)" and n: "0 < n" "n < 67108864"
    and whole: "reads_whole (st_ctx s) S n" and fuel: "0 < fuel"
  shows "\<exists>buf t. vhd_io_read lc fuel (of_nat S) (of_nat n) s = (Inr buf, t) \<and> same_image s t \<and>
    buf = map (vdisk (st_ctx s) f) [512 * S ..< 512 * (S + n)]"
proof -
  let ?c = "st_ctx s" and ?fs = "sys_files (st_sys s)"
  have q: "quiet s" and at: "image_at hs ?fs ?c f" using ok by (simp_all add: image_ok_at)
  have ch: "chain_ok S n ?fs (?c # st_parents s)" using at rng whole par by auto
  have ff: "?fs (ctx_file ?c) = Some f" using at by (simp add: image_at_def)
  have v: "chain_disk ?fs [?c] x = vdisk ?c f x" for x by (simp add: ff vdisk_def split: option.split)
  have "length (st_parents s) < fuel" using fuel par(2) by simp
  from io_read_chain [OF ch q n this, of lc, unfolded par(2)]
  obtain buf t where run: "vhd_io_read lc fuel (of_nat S) (of_nat n) s = (Inr buf, t)"
    and si: "same_image s t" and l: "length buf = 512 * n"
    and d: "\<forall>x < 512 * n. buf ! x = chain_disk ?fs [?c] (512 * S + x)" by blast
  have "buf = map (vdisk ?c f) [512 * S ..< 512 * (S + n)]"
    using l d unfolding v by (intro nth_equalityI) (auto simp: algebra_simps)
  then show ?thesis using run si by blast
qed

section \<open>A write, seen through the chain\<close>

text \<open>
  The images of a chain live in different files, so a write to the first leaves its parents
  alone; the disk the chain shows has the new bytes in the range written and the old ones
  elsewhere.
\<close>

lemma chain_disk_cong:
  "(\<And>c. c \<in> set cs \<Longrightarrow> fs (ctx_file c) = gs (ctx_file c)) \<Longrightarrow> chain_disk fs cs = chain_disk gs cs"
  by (induction cs) (auto simp: fun_eq_iff split: option.splits)

lemma chain_ok_cong:
  "(\<And>c. c \<in> set cs \<Longrightarrow> fs (ctx_file c) = gs (ctx_file c)) \<Longrightarrow> chain_ok S n fs cs = chain_ok S n gs cs"
  by (induction cs) (auto simp: image_at_def)

definition chain_state :: "vst \<Rightarrow> bool" where
  "chain_state s \<longleftrightarrow> (\<forall>c \<in> set (st_parents s). ctx_file c \<noteq> ctx_file (st_ctx s))"

lemma chain_disk_write:
  assumes sep: "chain_state s" and sw: "same_world s t" and cf: "cur_file s = Some f" and ct: "cur_file t = Some g"
    and lay: "vlayer (st_ctx t) g x = put_range (vlayer (st_ctx s) f) p buf x"
  shows "chain_disk (sys_files (st_sys t)) (st_ctx t # st_parents t) x =
    (if p \<le> x \<and> x < p + length buf then buf ! (x - p)
     else chain_disk (sys_files (st_sys s)) (st_ctx s # st_parents s) x)"
proof -
  have "chain_disk (sys_files (st_sys t)) (st_parents s) = chain_disk (sys_files (st_sys s)) (st_parents s)"
    using sep sw by (intro chain_disk_cong) (auto simp: chain_state_def same_world_def)
  then show ?thesis
    using cf ct lay sw by (simp add: cur_file_def put_range_def same_world_def split: option.split)
qed

lemma write_then_read:
  assumes core: "image_core hs s f" and ch: "chain_ok S' n' (sys_files (st_sys s)) (st_ctx s # st_parents s)"
    and sep: "chain_state s" and pg: "pages_ok lc"
    and room: "data_end hs (st_ctx s) + 4105 * blocks_touched S n < 4294967295"
    and rng: "S + n \<le> 4096 * nblocks (st_ctx s)"
    and n: "0 < n" "0 < n'" "n' < 67108864" and buf: "length buf = 512 * n"
    and fuel: "length (st_parents s) < fuel"
  shows "\<exists>t u. vhd_io_write lc buf (of_nat S) (of_nat n) s = (Inr (), t) \<and>
    vhd_io_read lc fuel (of_nat S') (of_nat n') t = (Inr (map (\<lambda>x.
      if 512 * S \<le> x \<and> x < 512 * (S + n) then buf ! (x - 512 * S)
      else chain_disk (sys_files (st_sys s)) (st_ctx s # st_parents s) x) [512 * S' ..< 512 * (S' + n')]), u)"
proof -
  let ?c = "st_ctx s" and ?ps = "st_parents s"
  from image_write [OF core pg room rng n(1) buf]
  obtain t g where w: "vhd_io_write lc buf (of_nat S) (of_nat n) s = (Inr (), t)" and ok: "image_ok hs t g"
    and sw: "same_world s t" and sh: "same_shape ?c (st_ctx t)"
    and lay: "\<forall>x < nblocks ?c * 2097152. vlayer (st_ctx t) g x = put_range (vlayer ?c f) (512 * S) buf x"
    by blast
  note s = sh [unfolded same_shape_def]
  have at: "image_at hs (sys_files (st_sys t)) (st_ctx t) g" and q: "quiet t" and ct: "cur_file t = Some g"
    using ok by (simp_all add: image_ok_at) (simp add: image_at_def cur_file_def)
  have cf: "cur_file s = Some f" using core by (simp add: image_core_def)
  have ps: "st_parents t = ?ps" using sw by (simp add: same_world_def)
  have rw: "reads_whole (st_ctx t) S' n'" using ch s by (auto simp: reads_whole_def)
  have par: "chain_ok S' n' (sys_files (st_sys t)) ?ps = chain_ok S' n' (sys_files (st_sys s)) ?ps"
    using sep sw by (intro chain_ok_cong) (auto simp: chain_state_def same_world_def)
  have "chain_ok S' n' (sys_files (st_sys t)) (st_ctx t # st_parents t)"
    using ch at rw s ps par by (auto simp: vhd_cache_enabled_def)
  from io_read_chain [OF this q n(2,3), of fuel lc] fuel ps
  obtain rd u where r: "vhd_io_read lc fuel (of_nat S') (of_nat n') t = (Inr rd, u)" and l: "length rd = 512 * n'"
    and d: "\<forall>x < 512 * n'. rd ! x = chain_disk (sys_files (st_sys t)) (st_ctx t # st_parents t) (512 * S' + x)"
    by (auto simp del: chain_disk.simps)
  have "S' + n' \<le> 4096 * nblocks ?c" using ch by simp
  then have "rd = map (\<lambda>x. if 512 * S \<le> x \<and> x < 512 * (S + n) then buf ! (x - 512 * S)
      else chain_disk (sys_files (st_sys s)) (?c # ?ps) x) [512 * S' ..< 512 * (S' + n')]"
    using l d lay buf
    by (intro nth_equalityI) (simp_all add: chain_disk_write [OF sep sw cf ct] algebra_simps del: chain_disk.simps)
  then show ?thesis using w r by blast
qed

lemma write_read_back:
  assumes core: "image_core hs s f" and par: "ftr_type (ctx_footer (st_ctx s)) \<noteq> HD_TYPE_DIFF" "st_parents s = []"
    and pg: "pages_ok lc" and room: "data_end hs (st_ctx s) + 4105 * blocks_touched S n < 4294967295"
    and rng: "S + n \<le> 4096 * nblocks (st_ctx s)" and n: "0 < n" "n < 67108864" and buf: "length buf = 512 * n"
    and fuel: "0 < fuel"
  shows "\<exists>t u. vhd_io_write lc buf (of_nat S) (of_nat n) s = (Inr (), t) \<and>
    vhd_io_read lc fuel (of_nat S) (of_nat n) t = (Inr buf, u)"
proof -
  let ?c = "st_ctx s"
  from image_write [OF core pg room rng n(1) buf]
  obtain t g where w: "vhd_io_write lc buf (of_nat S) (of_nat n) s = (Inr (), t)" and ok: "image_ok hs t g"
    and sw: "same_world s t" and sh: "same_shape ?c (st_ctx t)"
    and lay: "\<forall>x < nblocks ?c * 2097152. vlayer (st_ctx t) g x = put_range (vlayer ?c f) (512 * S) buf x"
    by blast
  note s = sh [unfolded same_shape_def]
  have x: "512 * S < nblocks ?c * 2097152" using rng n by simp
  then have "vlayer (st_ctx t) g (512 * S) \<noteq> None" using lay buf n by (simp add: put_range_def)
  then have "allocated (st_ctx t) (S div 4096)"
    using vlayer_allocated [of "st_ctx t" g "512 * S"] div_mult_mult1 [of 512 S 4096] by simp
  then have rw: "reads_whole (st_ctx t) S n" by (simp add: reads_whole_def)
  have tp: "ftr_type (ctx_footer (st_ctx t)) \<noteq> HD_TYPE_DIFF" "st_parents t = []" "S + n \<le> 4096 * nblocks (st_ctx t)"
    using par rng s sw by (simp_all add: same_world_def)
  from image_read [OF ok tp n rw fuel, of lc]
  obtain u where "vhd_io_read lc fuel (of_nat S) (of_nat n) t =
      (Inr (map (vdisk (st_ctx t) g) [512 * S ..< 512 * (S + n)]), u)" by blast
  moreover have "map (vdisk (st_ctx t) g) [512 * S ..< 512 * (S + n)] = buf"
    using lay rng buf by (intro nth_equalityI) (auto simp: vdisk_def put_range_def algebra_simps)
  ultimately show ?thesis using w by auto
qed

section \<open>A read that enters an unallocated block in the middle\<close>

text \<open>
  The turn for an unallocated block takes \<open>MIN(secs, spb)\<close> sectors whatever the position in the
  block, so the sectors of the next block it runs into are never looked up.
\<close>

lemma read_unallocated_skips:
  assumes ok: "image_ok hs s f" and par: "ftr_type (ctx_footer (st_ctx s)) \<noteq> HD_TYPE_DIFF"
    and rng: "S + n \<le> 4096 * nblocks (st_ctx s)" and n: "0 < n" "n \<le> 4096"
    and na: "\<not> allocated (st_ctx s) (S div 4096)"
  shows "vhd_io_read lc (Suc fuel) (of_nat S) (of_nat n) s = (Inr (zeros (512 * n)), s)"
proof -
  let ?c = "st_ctx s"
  have std: "std_ctx hs ?c" and q: "quiet s" using ok by (simp_all add: image_ok_def image_core_def)
  note c = std_ctxD [OF std]
  define b where "b = S div 4096"
  define r where "r = S mod 4096"
  have bn: "b < nblocks ?c" using rng n by (simp add: b_def less_mult_imp_div_less mult.commute)
  have bl: "b < length (bat_words ?c)" using bn c(12) by simp
  have N: "nblocks ?c < 4294967296" by (simp add: nblocks_def)
  have Sb: "S < 18446744073709551616" using rng N by linarith
  have w: "(ucast (of_nat S div (4096 :: u64)) :: u32) = of_nat b" "(ucast (of_nat S mod (4096 :: u64)) :: u32) = of_nat r"
    using of_nat_div_4096 [OF Sb] by (simp_all add: b_def r_def)
  have be: "bat_entry (unat (of_nat b :: u32)) s = (Inr (bat_words ?c ! b), s)"
    using bat_entry_quiet [OF bl] unat_of_nblocks [OF bn] by simp
  have n32: "n < 4294967296" using n by simp
  have un: "unat (of_nat n :: u32) = n" using n by (intro unat_of_nat_u32) simp
  have uu: "(ucast (of_nat n :: u32) :: u64) = of_nat n" by (metis un of_nat_unat)
  have nby: "unat (vhd_sectors_to_bytes (of_nat n :: u64)) = 512 * n"
  proof -
    have "unat (of_nat n :: u64) = n" using n by (intro unat_of_nat_small) simp
    then show ?thesis using n by (subst unat_sectors_to_bytes) simp_all
  qed
  have mn: "min (of_nat n) (4096 :: u32) = of_nat n"
    using n min_of_nat_u32 [of n 4096] by (simp add: min_absorb1)
  have us: "bat_words ?c ! b = DD_BLK_UNUSED" using na by (simp add: allocated_def b_def)
  have lp: "read_link_loop (Suc k) lo (of_nat S) (of_nat n) mb s = (Inr mb, s)" for k lo mb
    unfolding read_link_unfold [OF c(4) be w]
    by (simp add: us mn link_rest_def vret_def vbind_def)
  have lk: "vhd_io_dynamic_read_link (of_nat S) (of_nat n) mb s = (Inr mb, s)" for mb
    by (simp add: vhd_io_dynamic_read_link_def lp del: read_link_loop.simps)
  have rc: "read_chain lc (Suc fuel) (of_nat S) (of_nat n) mb s = (Inr mb, s)" for mb
    using par by (simp add: vbind_def [of "vhd_io_dynamic_read_link _ _ _"] lk with_ctx_app vret_def)
  show ?thesis
    using in_range [OF std rng n32] c(1) get_bat_quiet [OF c(1) c(11)] q
    by (simp add: vhd_io_read_def vhd_io_dynamic_read_def with_ctx_app vbind_def vret_def valloc_quiet rc uu nby
        del: read_chain.simps)
qed

end
