(* ===== verification/Vhd_Example.thy ===== *)
theory Vhd_Example
  imports Vhd_Read
begin

text \<open>
  Concrete states on which the witnesses of the properties run: an empty file, and the smallest
  dynamic image in rest, two blocks of 2 MB with an empty BAT.
\<close>

section \<open>An empty file\<close>

definition ex_footer :: hd_ftr where
  "ex_footer = ftr_zero\<lparr>ftr_cookie := HD_COOKIE, ftr_features := HD_RESERVED,
     ftr_ff_version := HD_FF_VERSION, ftr_data_offset := 512, ftr_crtr_app := ascii ''tap'' @ [0],
     ftr_crtr_ver := VHD_CURRENT_VERSION, ftr_orig_size := 0x400000, ftr_curr_size := 0x400000,
     ftr_type := HD_TYPE_DYNAMIC\<rparr>"

definition ex_ctx :: vhd_context where
  "ex_ctx = \<lparr>ctx_file = ''disk.vhd'', ctx_oflags = VHD_OPEN_RDWR, ctx_is_block = False,
     ctx_spb = 4096, ctx_bm_secs = 1, ctx_header = hdr_zero, ctx_footer = ex_footer,
     ctx_bat = bat_zero, ctx_batmap = batmap_zero\<rparr>"

definition ex_file :: vfile where
  "ex_file = \<lparr>f_data = \<lambda>_. 0, f_size = 0, f_blk = False\<rparr>"

definition ex_state :: vst where
  "ex_state = \<lparr>st_ctx = ex_ctx, st_pos = 0, st_parents = [], st_sys = \<lparr>sys_files = [''disk.vhd'' \<mapsto> ex_file],
     sys_sched = [], sys_mem = [], sys_errno = 0\<rparr>\<rparr>"

lemma ex_state_facts:
  "quiet ex_state" "cur_file ex_state = Some ex_file" "st_ctx ex_state = ex_ctx"
  by (simp_all add: ex_state_def quiet_def cur_file_def ex_ctx_def)

lemma ftr_wf_ex_footer: "ftr_wf ex_footer"
  using ftr_wf_ftr_of_bytes [of "zeros 512"]
  by (simp add: ex_footer_def ftr_wf_def ftr_zero_def ascii_def)

lemma ex_footer_cookie: "ftr_cookie ex_footer = HD_COOKIE"
  by (simp add: ex_footer_def)

section \<open>An image of two blocks\<close>

definition ex_header :: dd_hdr where
  "ex_header = hdr_zero\<lparr>hdr_cookie := DD_COOKIE, hdr_data_offset := - 1, hdr_table_offset := 1536,
     hdr_ver := DD_VERSION, hdr_max_bat_size := 2, hdr_block_size := 0x200000\<rparr>"

text \<open>The creator is not tapdisk, so the image has no batmap.\<close>

definition ex_image_footer :: hd_ftr where
  "ex_image_footer = ex_footer\<lparr>ftr_crtr_app := zeros 4\<rparr>"

definition ex_image_ctx :: "string \<Rightarrow> vhd_context" where
  "ex_image_ctx file = \<lparr>ctx_file = file, ctx_oflags = VHD_OPEN_RDWR, ctx_is_block = False,
     ctx_spb = 4096, ctx_bm_secs = 1, ctx_header = ex_header, ctx_footer = ex_image_footer,
     ctx_bat = \<lparr>bat_spb = 4096, bat_entries = 2, bat_bat = Some (replicate 128 DD_BLK_UNUSED)\<rparr>,
     ctx_batmap = batmap_zero\<rparr>"

definition ex_image_file :: vfile where
  "ex_image_file = \<lparr>f_data = \<lambda>_. 0, f_size = 2560, f_blk = False\<rparr>"

definition ex_image :: vst where
  "ex_image = \<lparr>st_ctx = ex_image_ctx ''disk.vhd'', st_pos = 0, st_parents = [],
     st_sys = \<lparr>sys_files = [''disk.vhd'' \<mapsto> ex_image_file], sys_sched = [], sys_mem = [], sys_errno = 0\<rparr>\<rparr>"

definition ex_libc :: libc where
  "ex_libc = \<lparr>lc_realpath = \<lambda>_ p. Inr p, lc_access = \<lambda>_ _. 0, lc_iconv_open = \<lambda>_ _. 0,
     lc_iconv = \<lambda>_ _ i room. (0, i, 0), lc_pagesize = 4096, lc_epoch = 946684800, lc_time = 946684800,
     lc_mtime = \<lambda>_ _. 946684800, lc_uuid = replicate 16 1\<rparr>"

lemma pages_ok_ex_libc: "pages_ok ex_libc"
  by (simp add: pages_ok_def ex_libc_def)

lemma ftr_wf_ex_image_footer: "ftr_wf ex_image_footer"
  using ftr_wf_ex_footer by (simp add: ex_image_footer_def ftr_wf_def)

lemma ex_image_ctx_words:
  "bat_words (ex_image_ctx file) = replicate 128 DD_BLK_UNUSED" "nblocks (ex_image_ctx file) = 2"
  "i < 128 \<Longrightarrow> \<not> allocated (ex_image_ctx file) i"
  by (simp_all add: ex_image_ctx_def bat_words_def nblocks_def allocated_def)

lemma ex_header_loc_codes: "l \<in> set (hdr_loc ex_header) \<Longrightarrow> loc_code l = PLAT_CODE_NONE"
  by (auto simp: ex_header_def hdr_zero_def hdr_of_bytes_def loc_of_bytes_def zeros_def
      PLAT_CODE_NONE_def field_def eval_nat_numeral)

lemma ex_header_locs: "locators_end m (hdr_loc ex_header) = m"
proof -
  have "(\<forall>l \<in> set ls. loc_code l = PLAT_CODE_NONE) \<Longrightarrow> locators_end m ls = m" for ls
    by (induction ls) (simp_all add: locators_end_def)
  then show ?thesis using ex_header_loc_codes by blast
qed

lemma hdr_wf_ex_header: "hdr_wf ex_header"
  using hdr_wf_hdr_of_bytes [of "zeros 1024"]
  by (simp add: hdr_wf_def ex_header_def hdr_zero_def DD_COOKIE_def ascii_def)

text \<open>The header, sealed.\<close>

definition ex_sealed :: dd_hdr where
  "ex_sealed = ex_header\<lparr>hdr_checksum := vhd_checksum_header ex_header\<rparr>"

lemma ex_sealed_facts:
  "hdr_wf ex_sealed" "vhd_validate_header ex_sealed = 0" "hdr_checksum ex_sealed = vhd_checksum_header ex_sealed"
proof -
  have cs: "vhd_checksum_header ex_sealed = vhd_checksum_header ex_header"
    by (simp add: ex_sealed_def vhd_checksum_header_def)
  show "hdr_wf ex_sealed" using hdr_wf_ex_header by (simp add: ex_sealed_def hdr_wf_def)
  show "hdr_checksum ex_sealed = vhd_checksum_header ex_sealed" by (simp add: cs) (simp add: ex_sealed_def)
  show "vhd_validate_header ex_sealed = 0"
    using ex_header_loc_codes unfolding vhd_validate_header_def cs
    by (simp add: ex_sealed_def vhd_validate_platform_code_def) (simp add: ex_header_def DD_VERSION_def)
qed

lemma std_ctx_ex_image: "std_ctx 4 (ex_image_ctx file)"
proof -
  let ?c = "ex_image_ctx file"
  have bp: "vhd_bytes_padded 8 = 512"
    by (simp add: vhd_bytes_padded_def secs_round_up_no_zero_def secs_round_up_def vhd_sectors_to_bytes_def
        VHD_SECTOR_SIZE_def VHD_SECTOR_SHIFT_def)
  have sz: "bat_file_size ?c = 512" by (simp add: bat_file_size_def ex_image_ctx_def bp)
  have he: "headers_end ?c = of_nat (512 * 4)"
    unfolding headers_end_def
    by (simp add: ex_image_ctx_def ex_header_locs)
      (simp add: ex_header_def ex_image_footer_def ex_footer_def bp max_off_def)
  have cp: "ftr_cookie ex_image_footer = HD_COOKIE" "ftr_type ex_image_footer = HD_TYPE_DYNAMIC"
    "ftr_curr_size ex_image_footer = 0x400000" "ftr_crtr_app ex_image_footer = zeros 4"
    by (simp_all add: ex_image_footer_def ex_footer_def)
  have nt: "\<not> app_is_tap (zeros 4)" by (simp add: app_is_tap_def ascii_def zeros_def numeral_3_eq_3)
  show ?thesis
    unfolding std_ctx_def
    using he sz cp nt ftr_wf_ex_image_footer
    by (simp add: ex_image_ctx_words)
      (simp add: ex_image_ctx_def vhd_type_dynamic_def no_batmap_def vhd_creator_tapdisk_def ex_header_def
        vhd_flag_test_def VHD_OPEN_RDWR_def VHD_OPEN_IO_WRITE_SPARSE_def)
qed

lemma blocks_ok_ex_image: "blocks_ok 4 (ex_image_ctx file) sz"
  by (auto simp: blocks_ok_def ex_image_ctx_words)

lemma ex_image_facts:
  "quiet ex_image" "cur_file ex_image = Some ex_image_file" "st_ctx ex_image = ex_image_ctx ''disk.vhd''"
  "st_parents ex_image = []" "\<not> f_blk ex_image_file"
  by (simp_all add: ex_image_def quiet_def cur_file_def ex_image_ctx_def ex_image_file_def)

lemma image_ok_ex_image: "image_ok 4 ex_image ex_image_file" and image_core_ex_image: "image_core 4 ex_image ex_image_file"
  using std_ctx_ex_image blocks_ok_ex_image by (simp_all add: image_ok_def image_core_def ex_image_facts)

lemma data_end_ex_image: "data_end 4 (ex_image_ctx file) = 4"
  by (simp add: data_end_def ex_image_ctx_words take_replicate numeral_2_eq_2)

lemma ex_image_not_diff: "ftr_type (ctx_footer (st_ctx ex_image)) \<noteq> HD_TYPE_DIFF"
  by (simp add: ex_image_facts ex_image_ctx_def ex_image_footer_def ex_footer_def HD_TYPE_DYNAMIC_def HD_TYPE_DIFF_def)

section \<open>An image whose second block is allocated\<close>

definition ex_half_file :: vfile where
  "ex_half_file = \<lparr>f_data = \<lambda>_. 255, f_size = 512 * (7 + 4097) + 512, f_blk = False\<rparr>"

definition ex_half :: vst where
  "ex_half = \<lparr>st_ctx = set_words ((replicate 128 DD_BLK_UNUSED)[1 := 7]) (ex_image_ctx ''half.vhd''), st_pos = 0,
     st_parents = [], st_sys = \<lparr>sys_files = [''half.vhd'' \<mapsto> ex_half_file], sys_sched = [], sys_mem = [],
     sys_errno = 0\<rparr>\<rparr>"

lemma ex_half_facts:
  "nblocks (st_ctx ex_half) = 2" "\<not> allocated (st_ctx ex_half) 0" "allocated (st_ctx ex_half) 1"
  "start (st_ctx ex_half) 1 = 7" "ftr_type (ctx_footer (st_ctx ex_half)) \<noteq> HD_TYPE_DIFF"
  using ex_image_not_diff
  by (simp_all add: ex_half_def ex_image_ctx_words allocated_def DD_BLK_UNUSED_def)
    (simp_all add: ex_image_def ex_image_ctx_def)

lemma image_ok_ex_half: "image_ok 4 ex_half ex_half_file"
proof -
  have "std_ctx 4 (st_ctx ex_half)"
    using std_ctx_set_words [OF std_ctx_ex_image] by (simp add: ex_half_def ex_image_ctx_words)
  moreover have "blocks_ok 4 (st_ctx ex_half) (512 * (7 + 4097))"
    unfolding blocks_ok_def ex_half_facts(1)
  proof (intro conjI allI impI)
    fix i assume "i < 2" "allocated (st_ctx ex_half) i"
    then have "i = 1" using ex_half_facts(2) by (cases i) auto
    then show "4 \<le> start (st_ctx ex_half) i" "512 * (start (st_ctx ex_half) i + 4097) \<le> 512 * (7 + 4097)"
      using ex_half_facts(4) by simp_all
  next
    fix i j assume "i < 2" "j < 2" "i \<noteq> j \<and> allocated (st_ctx ex_half) i \<and> allocated (st_ctx ex_half) j"
    then show "start (st_ctx ex_half) i + 4097 \<le> start (st_ctx ex_half) j \<or>
        start (st_ctx ex_half) j + 4097 \<le> start (st_ctx ex_half) i"
      using ex_half_facts(2) by (metis less_2_cases)
  qed
  ultimately show ?thesis
    using blocks_ok_mono [of 4 "st_ctx ex_half" "512 * (7 + 4097)" "f_size ex_half_file"]
    by (simp add: image_ok_def image_core_def ex_half_file_def)
      (simp add: ex_half_def quiet_def cur_file_def ex_image_ctx_def ex_half_file_def)
qed

lemma vdisk_ex_half: "vdisk (st_ctx ex_half) ex_half_file 2097152 = 255"
proof -
  have "\<not> old_bitmaps (st_ctx ex_half)"
    by (simp add: ex_half_def ex_image_ctx_def old_bitmaps_def vhd_creator_tapdisk_def ex_image_footer_def
        app_is_tap_def ascii_def zeros_def numeral_3_eq_3)
  then have "vhd_bitmap_test (st_ctx ex_half) m i = test_bit m i" for m i
    by (auto simp: vhd_bitmap_test_def old_bitmaps_def)
  then show ?thesis
    using ex_half_facts(3)
    by (simp add: vdisk_def vlayer_def Let_def allocated_def test_bit_iff ex_half_file_def)
qed

end
