(* ===== verification/Vhd_Bat.thy ===== *)
theory Vhd_Bat
  imports Vhd_Disk
begin

text \<open>
  The block allocation table on disk: \<open>vhd_read_bat\<close> on an undisturbed system and its agreement
  with \<open>vhd_write_bat\<close>; the end of the data as the maximum over the table.
\<close>

section \<open>The table read back\<close>

lemma blks_std: "std_ctx hs c \<Longrightarrow> vhd_blks c = bat_entries (ctx_bat c)"
proof -
  assume std: "std_ctx hs c"
  have N: "nblocks c < 4294967296" by (simp add: nblocks_def)
  have u: "unat (of_nat (nblocks c * 2097152) :: u64) = nblocks c * 2097152"
    using N by (intro unat_of_nat_small) simp
  then have d: "unat (drop_bit VHD_BLOCK_SHIFT (of_nat (nblocks c * 2097152) :: u64)) = nblocks c"
    unfolding unat_drop_bit_eq u by (simp add: VHD_BLOCK_SHIFT_def drop_bit_eq_div)
  have "unat (vhd_blks c) = nblocks c"
    unfolding vhd_blks_def std_ctxD(10) [OF std] unsigned_ucast_eq d
    using N by (simp add: take_bit_nat_eq_self)
  then have "unat (vhd_blks c) = unat (bat_entries (ctx_bat c))" by (simp add: nblocks_def)
  then show ?thesis by (metis of_nat_unat ucast_id)
qed

lemma read_bat_quiet:
  assumes q: "quiet s" and cf: "cur_file s = Some f" and std: "std_ctx hs (st_ctx s)"
    and mx: "bat_entries (ctx_bat (st_ctx s)) \<le> hdr_max_bat_size (ctx_header (st_ctx s))"
    and sz: "unat (hdr_table_offset (ctx_header (st_ctx s))) + bat_file_size (st_ctx s) \<le> f_size f"
  defines "p \<equiv> unat (hdr_table_offset (ctx_header (st_ctx s)))"
  defines "b \<equiv> vhd_bat_in \<lparr>bat_spb = 4096, bat_entries = bat_entries (ctx_bat (st_ctx s)),
    bat_bat = Some (bat_of_bytes (file_read f p (bat_file_size (st_ctx s))))\<rparr>"
  shows "vhd_read_bat put s = (Inr b, put b (st_with (p + bat_file_size (st_ctx s)) f s))"
proof -
  let ?c = "st_ctx s"
  note c = std_ctxD [OF std]
  have off: "sint (hdr_table_offset (ctx_header ?c)) = int p"
    unfolding p_def using c(16,17) by (intro sint_small) simp
  have n: "unat (vhd_bytes_padded (ucast (vhd_blks ?c) * 4)) = bat_file_size ?c"
    by (simp add: bat_file_size_def blks_std [OF std])
  have n0: "0 < bat_file_size ?c" by (simp add: bat_file_size_def bytes_padded_pos)
  have sk: "vhd_seek (int p) SEEK_SET s = (Inr (), at_pos p s)"
    using seek_quiet [OF q cf, of "int p"] by simp
  have rd: "vhd_read (bat_file_size ?c) (at_pos p s) =
      (Inr (file_read f p (bat_file_size ?c)), st_with (p + bat_file_size ?c) f s)"
    using read_here_quiet [of "at_pos p s" f "bat_file_size ?c"] q cf sz n0 by (simp add: p_def)
  have spb: "drop_bit VHD_SECTOR_SHIFT (0x200000 :: u32) = 4096" by (simp add: VHD_SECTOR_SHIFT_def)
  show ?thesis
    using c(1,6) off n sk rd mx q spb blks_std [OF std]
    by (simp add: vhd_read_bat_def with_ctx_app vonfail_def vcatch_def vbind_def Let_def valloc_quiet vmodify_def vret_def
        vassert_def b_def)
qed

lemma bat_written_read_back:
  assumes q: "quiet s" and cf: "cur_file s = Some f" and blk: "\<not> f_blk f" and std: "std_ctx hs (st_ctx s)"
    and mx: "bat_entries (ctx_bat (st_ctx s)) \<le> hdr_max_bat_size (ctx_header (st_ctx s))"
  shows "\<exists>t b u. vhd_write_bat (ctx_bat (st_ctx s)) s = (Inr (), t) \<and> vhd_read_bat put t = (Inr b, u) \<and>
    bat_entries b = bat_entries (ctx_bat (st_ctx s)) \<and>
    bat_bat b = Some (take (bat_file_size (st_ctx s) div 4) (bat_words (st_ctx s)))"
proof -
  let ?c = "st_ctx s"
  let ?p = "unat (hdr_table_offset (ctx_header ?c))" and ?n = "bat_file_size ?c"
  let ?g = "file_write f ?p (bat_image ?c)"
  note c = std_ctxD [OF std]
  define t where "t = st_with (?p + ?n) ?g s"
  have w: "vhd_write_bat (ctx_bat ?c) s = (Inr (), t)"
    unfolding t_def by (rule write_bat_quiet [OF q cf blk std])
  have l: "length (bat_image ?c) = ?n" using c(13) by (rule length_bat_image)
  have sz: "?p + ?n \<le> f_size ?g" using blk l by (simp add: f_size_file_write)
  have rd: "file_read ?g ?p ?n = bat_image ?c" using file_read_write_same [of f ?p "bat_image ?c"] l by simp
  define b where "b = vhd_bat_in \<lparr>bat_spb = 4096, bat_entries = bat_entries (ctx_bat ?c),
    bat_bat = Some (bat_of_bytes (file_read ?g ?p ?n))\<rparr>"
  have "vhd_read_bat put t = (Inr b, put b (st_with (?p + ?n) ?g t))"
    using read_bat_quiet [of t ?g hs put] q std mx sz by (simp add: t_def b_def)
  moreover have "bat_entries b = bat_entries (ctx_bat ?c)" by (simp add: b_def vhd_bat_in_def)
  moreover have "bat_bat b = Some (take (?n div 4) (bat_words ?c))"
    unfolding b_def rd by (simp add: vhd_bat_in_def bat_image_def nblocks_def)
  ultimately show ?thesis using w by blast
qed

section \<open>The end of the data\<close>

lemma data_secs_attained: "data_secs m ws = m \<or> (\<exists>w \<in> set ws. w \<noteq> DD_BLK_UNUSED \<and> data_secs m ws = unat w + 4097)"
proof (induction ws arbitrary: m)
  case (Cons w ws)
  show ?case
  proof (cases "w = DD_BLK_UNUSED")
    case True
    then show ?thesis using Cons.IH [of m] by auto
  next
    case False
    from Cons.IH [of "max m (unat w + 4097)"] consider
      "data_secs m (w # ws) = m" | "data_secs m (w # ws) = unat w + 4097"
      | v where "v \<in> set ws" "v \<noteq> DD_BLK_UNUSED" "data_secs m (w # ws) = unat v + 4097"
      using False by (auto simp: max_def split: if_splits)
    then show ?thesis by cases (use False in auto)
  qed
qed simp

lemma data_end_attained:
  assumes "nblocks c \<le> length (bat_words c)"
  shows "data_end hs c = hs \<or> (\<exists>i < nblocks c. allocated c i \<and> data_end hs c = start c i + 4097)"
proof (cases "data_end hs c = hs")
  case False
  then obtain w where w: "w \<in> set (take (nblocks c) (bat_words c))" "w \<noteq> DD_BLK_UNUSED" "data_end hs c = unat w + 4097"
    using data_secs_attained [of hs "take (nblocks c) (bat_words c)"] by (auto simp: data_end_def)
  from w(1) obtain i where "i < nblocks c" "w = bat_words c ! i" by (auto simp: in_set_conv_nth)
  then show ?thesis using w(2,3) by (auto simp: allocated_def)
qed simp

section \<open>The virtual size\<close>

text \<open>The test counts whole blocks.\<close>

lemma virt_size_test:
  "drop_bit VHD_BLOCK_SHIFT sz > ucast (n :: u32) \<longleftrightarrow> unat n < unat (sz :: u64) div 2097152"
  unfolding word_less_nat_alt unat_drop_bit_eq unat_ucast_u64 by (simp add: VHD_BLOCK_SHIFT_def drop_bit_eq_div)

lemma set_virt_size_ok:
  assumes wf: "ftr_wf (ctx_footer (st_ctx s))"
    and ck: "ftr_cookie (ctx_footer (st_ctx s)) = HD_COOKIE \<or> ftr_cookie (ctx_footer (st_ctx s)) = VHD_POISON_COOKIE"
    and n: "unat sz div 2097152 \<le> unat (hdr_max_bat_size (ctx_header (st_ctx s)))"
  shows "\<exists>t. vhd_set_virt_size_no_write sz s = (Inr (), t) \<and> vhd_validate_footer (ctx_footer (st_ctx t)) = 0 \<and>
    ftr_curr_size (ctx_footer (st_ctx t)) = sz \<and> ftr_geometry (ctx_footer (st_ctx t)) = vhd_chs sz \<and> st_sys t = st_sys s"
proof -
  let ?c = "st_ctx s"
  let ?f = "(ctx_footer ?c)\<lparr>ftr_curr_size := sz, ftr_geometry := vhd_chs sz\<rparr>"
  let ?t = "put_footer (?f\<lparr>ftr_checksum := vhd_checksum_footer ?f\<rparr>) s"
  have "vhd_set_virt_size_no_write sz s = (Inr (), ?t)"
    using n by (simp add: vhd_set_virt_size_no_write_def with_ctx_app Let_def vmodify_def virt_size_test)
  moreover have "ftr_wf ?f" using wf by (simp add: ftr_wf_def)
  from validate_sealed_footer [OF this] ck
  have "vhd_validate_footer (ctx_footer (st_ctx ?t)) = 0" by (simp add: put_footer_def upd_ctx_def)
  ultimately show ?thesis by (intro exI [of _ ?t]) (simp add: put_footer_def upd_ctx_def)
qed

lemma set_virt_size_refused:
  assumes "unat (hdr_max_bat_size (ctx_header (st_ctx s))) < unat sz div 2097152"
  shows "vhd_set_virt_size_no_write sz s = (Inl (Errno (- EINVAL)), s)"
  using assms by (simp add: vhd_set_virt_size_no_write_def with_ctx_app virt_size_test vraise_def)

end
