(* ===== verification/Vhd_Byte_Io.thy ===== *)
theory Vhd_Byte_Io
  imports Vhd_Io
begin

text \<open>
  I/O at byte granularity (\<open>vhd_io_read_bytes\<close>, \<open>vhd_io_write_bytes\<close> of \<open>vhd/lib/libvhd.c\<close>): block
  vectors, reads through the chain of parents into a buffer of the caller, the clearing of
  what no image of the chain holds, and the read-modify-write of partial sectors; and the
  marker byte of the batmap header. A pointer into the caller's buffer is an offset; a store
  outside the buffer is undefined.
\<close>

section \<open>Block vectors\<close>

record vhd_block_vector_entry =
  ve_off :: u64
  ve_bytes :: u32
  ve_buf :: nat

record vhd_block_vector =
  vv_block :: u32
  vv_array :: "vhd_block_vector_entry list"

primrec vector_reads :: "vhd_block_vector_entry list \<Rightarrow> u64 \<Rightarrow> bytes \<Rightarrow> (vst, bytes) vm" where
  "vector_reads [] off buf = vret buf"
| "vector_reads (v # vs) off buf =
     vbind (vhd_pread (unat (ve_bytes v)) (sint (off + ve_off v))) (\<lambda>data.
       vthen (vdefined (ve_buf v + unat (ve_bytes v) \<le> length buf))
         (vector_reads vs off (overlay (ve_buf v) data buf)))"

definition vhd_block_vector_read :: "vhd_block_vector \<Rightarrow> bytes \<Rightarrow> (vst, bytes) vm" where
  "vhd_block_vector_read vec buf = vthen vhd_get_bat (with_ctx (\<lambda>ctx.
     if vv_block vec \<ge> bat_entries (ctx_bat ctx) then vfail (- ERANGE)
     else vbind (bat_entry (unat (vv_block vec))) (\<lambda>blk.
       if blk = DD_BLK_UNUSED then vfail (- EINVAL)
       else vector_reads (vv_array vec) (vhd_sectors_to_bytes (ucast (blk + ctx_bm_secs ctx))) buf)))"

text \<open>The state of the loop of \<open>vhd_block_vector_init\<close>: the position in the block and in the
  buffer, the map, and the entries so far.\<close>

definition vector_add ::
    "u64 \<Rightarrow> u32 \<Rightarrow> nat \<Rightarrow> vhd_block_vector_entry list \<Rightarrow> vhd_block_vector_entry list" where
  "vector_add blk_start cnt buf vs =
     (if vs \<noteq> [] \<and> ve_off (last vs) + ucast (ve_bytes (last vs)) = blk_start
      then butlast vs @ [(last vs)\<lparr>ve_bytes := ve_bytes (last vs) + cnt\<rparr>]
      else vs @ [\<lparr>ve_off = blk_start, ve_bytes = cnt, ve_buf = buf\<rparr>])"

definition vector_step ::
    "vhd_context \<Rightarrow> bytes \<Rightarrow> u64 \<Rightarrow> nat \<Rightarrow> u64 \<times> nat \<times> bytes option \<times> vhd_block_vector_entry list \<Rightarrow>
     u64 \<times> nat \<times> bytes option \<times> vhd_block_vector_entry list" where
  "vector_step ctx bitmap blk_end sec st = (case st of (blk_start, buf, m, vs) \<Rightarrow>
     let cnt = 512 - (ucast (blk_start AND 511) :: u32);
         cnt = (if ucast cnt > blk_end - blk_start then ucast (blk_end - blk_start) else cnt);
         go = (\<lambda>m vs. (blk_start + ucast cnt, buf + unat cnt, m, vs))
     in case m of
          None \<Rightarrow> go None (if vhd_bitmap_test ctx bitmap sec then vector_add blk_start cnt buf vs else vs)
        | Some mp \<Rightarrow>
            if \<not> test_bit mp sec then go m vs
            else if vhd_bitmap_test ctx bitmap sec then go m (vector_add blk_start cnt buf vs)
            else go (Some (clear_bit mp sec)) vs)"

definition vhd_block_vector_init ::
    "u32 \<Rightarrow> bytes option \<Rightarrow> nat \<Rightarrow> u64 \<Rightarrow> u64 \<Rightarrow> (vst, bytes option \<times> vhd_block_vector) vm" where
  "vhd_block_vector_init block m buf blk_start blk_end =
     (let first_sec = (ucast (drop_bit VHD_SECTOR_SHIFT blk_start) :: u32);
          last_sec = secs_round_up_no_zero blk_end
      in vbind (vhd_read_bitmap block) (\<lambda>bitmap. vthen (valloc (- ENOMEM)) (with_ctx (\<lambda>ctx.
        vthen (vdefined (unat last_sec \<le> 8 * length bitmap \<and>
                 (case m of None \<Rightarrow> True | Some mp \<Rightarrow> unat last_sec \<le> 8 * length mp)))
          (case foldl (\<lambda>st sec. vector_step ctx bitmap blk_end sec st) (blk_start, buf, m, [])
                  [unat first_sec..<unat last_sec] of
             (_, _, m, vs) \<Rightarrow>
               vthen (vdefined (length vs \<le> unat (ctx_spb ctx)))
                 (vret (m, \<lparr>vv_block = block, vv_array = vs\<rparr>)))))))"

definition vhd_block_vector_read_allocated_selective ::
    "u32 \<Rightarrow> bytes \<Rightarrow> bytes \<Rightarrow> nat \<Rightarrow> u64 \<Rightarrow> u64 \<Rightarrow> (vst, bytes \<times> bytes) vm" where
  "vhd_block_vector_read_allocated_selective block m buf p start end =
     vbind (vhd_block_vector_init block (Some m) p start end) (\<lambda>(m', vec).
       vbind (vhd_block_vector_read vec buf) (\<lambda>buf.
         vret (case m' of None \<Rightarrow> m | Some m' \<Rightarrow> m', buf)))"

section \<open>Reading\<close>

definition set_where :: "(nat \<Rightarrow> bool) \<Rightarrow> nat \<Rightarrow> nat \<Rightarrow> bytes \<Rightarrow> bytes" where
  "set_where P base n m = foldl (\<lambda>m i. if P i then set_bit m (base + i) else m) m [0..<n]"

primrec read_link_bytes_loop ::
    "nat \<Rightarrow> nat \<Rightarrow> nat \<Rightarrow> nat \<Rightarrow> u64 \<Rightarrow> bytes \<times> bytes \<Rightarrow> (vst, bytes \<times> bytes) vm" where
  "read_link_bytes_loop 0 map_off p sz off mb = vraise Hang"
| "read_link_bytes_loop (Suc k) map_off p sz off mb = with_ctx (\<lambda>ctx.
     vthen (vdefined (ctx_spb ctx \<noteq> 0))
      (let blk_size = vhd_sectors_to_bytes (ucast (ctx_spb ctx));
           blk = (ucast (off div blk_size) :: u32);
           blk_off = off mod blk_size;
           byts = (ucast (min (blk_size - blk_off) (of_nat sz)) :: u32);
           first_sec = (ucast (drop_bit VHD_SECTOR_SHIFT blk_off) :: u32);
           last_sec = secs_round_up_no_zero (blk_off + ucast byts);
           n = unat (last_sec - first_sec)
       in vbind (bat_entry (unat blk)) (\<lambda>w.
         vbind
           (if w = DD_BLK_UNUSED then vret mb
            else vthen (vdefined (map_off + n \<le> 8 * length (fst mb)))
              (let blkmap = set_where (\<lambda>i. \<not> test_bit (fst mb) (map_off + i)) (unat first_sec) n
                     (zeros (unat (drop_bit 3 (ctx_spb ctx + 7))))
               in vbind (vhd_block_vector_read_allocated_selective blk blkmap (snd mb) p blk_off
                          (blk_off + ucast byts)) (\<lambda>(blkmap, buf).
                    vret (set_where (\<lambda>i. test_bit blkmap (unat first_sec + i)) map_off n (fst mb), buf))))
           (\<lambda>mb. if sz - unat byts = 0 then vret mb
                 else read_link_bytes_loop k (map_off + n) (p + unat byts) (sz - unat byts)
                        (off + ucast byts) mb))))"

definition vhd_io_dynamic_read_link_bytes ::
    "nat \<Rightarrow> u64 \<Rightarrow> bytes \<times> bytes \<Rightarrow> (vst, bytes \<times> bytes) vm" where
  "vhd_io_dynamic_read_link_bytes sz off mb =
     vthen (valloc (- ENOMEM)) (read_link_bytes_loop (Suc sz) 0 0 sz off mb)"

text \<open>Sector numbers of a byte range.\<close>

definition first_sector :: "u64 \<Rightarrow> nat" where
  "first_sector off = unat (ucast (drop_bit VHD_SECTOR_SHIFT off) :: u32)"

definition last_sector :: "u64 \<Rightarrow> nat \<Rightarrow> nat" where
  "last_sector off sz = unat (secs_round_up_no_zero (off + of_nat sz))"

text \<open>
  \<open>__raw_read_link_bytes\<close>: runs of sectors that are not yet in the buffer are read from the raw
  parent. The last run is recognised by \<open>secs == last_sec - 1\<close>.
\<close>

definition run_length :: "bytes \<Rightarrow> nat \<Rightarrow> nat \<Rightarrow> nat \<Rightarrow> nat" where
  "run_length m first i lst = length (takeWhile (\<lambda>j. \<not> test_bit m (j - first)) [i..<lst])"

primrec raw_read_bytes_loop ::
    "nat \<Rightarrow> nat \<Rightarrow> nat \<Rightarrow> nat \<Rightarrow> bytes \<Rightarrow> nat \<Rightarrow> u64 \<Rightarrow> bytes \<Rightarrow> (vst, bytes) vm" where
  "raw_read_bytes_loop 0 i first lst m sz off buf = vraise Hang"
| "raw_read_bytes_loop (Suc k) i first lst m sz off buf =
     (if i \<ge> lst then vret buf
      else if test_bit m (i - first) then raw_read_bytes_loop k (Suc i) first lst m sz off buf
      else let secs = run_length m first i lst;
               coff = (if i = first then unat off else 512 * i);
               csize = (if secs = lst - 1 then unat off + sz - coff else 512 * secs)
        in (\<lambda>s. case pread_call csize (int coff) s of (r, data, s) \<Rightarrow>
             vthen (vdefined (r \<le> 0 \<or> (unat off \<le> coff \<and> coff - unat off + nat r \<le> length buf)))
              (if r \<noteq> int csize then (\<lambda>s. (Inl (Errno (io_error s)), s))
               else raw_read_bytes_loop k (i + secs) first lst m sz off
                 (overlay (coff - unat off) data buf)) s))"

definition raw_read_link_bytes ::
    "string \<Rightarrow> nat \<Rightarrow> u64 \<Rightarrow> bytes \<times> bytes \<Rightarrow> (vst, bytes \<times> bytes) vm" where
  "raw_read_link_bytes filename sz off mb = in_new_ctx (vthen (open_call filename)
     (let first = first_sector off; lst = last_sector off sz
      in vbind (raw_read_bytes_loop (Suc (lst - first)) first first lst (fst mb) sz off (snd mb))
           (\<lambda>buf. vret (fst mb, buf))))"

text \<open>
  The sectors that no image of the chain holds are cleared. The first one starts at \<open>off\<close> but is
  cleared for a whole sector.
\<close>

definition clear_missing :: "bytes \<Rightarrow> nat \<Rightarrow> u64 \<Rightarrow> nat \<Rightarrow> bytes option \<Rightarrow> bytes option" where
  "clear_missing m sz off i buf = (case buf of None \<Rightarrow> None | Some buf \<Rightarrow>
     let first = first_sector off; lst = last_sector off sz in
     if test_bit m (i - first) then Some buf
     else let coff = (if i = first then unat off else 512 * i);
              csize = (if i = lst - 1 then unat off + sz - coff else 512)
       in if coff - unat off + csize \<le> length buf
          then Some (overlay (coff - unat off) (zeros csize) buf) else None)"

definition clear_all_missing :: "bytes \<Rightarrow> nat \<Rightarrow> u64 \<Rightarrow> bytes \<Rightarrow> bytes option" where
  "clear_all_missing m sz off buf =
     foldl (\<lambda>b i. clear_missing m sz off i b) (Some buf) [first_sector off..<last_sector off sz]"

primrec read_chain_bytes ::
    "libc \<Rightarrow> nat \<Rightarrow> nat \<Rightarrow> u64 \<Rightarrow> bytes \<times> bytes \<Rightarrow> (vst, bytes \<times> bytes) vm" where
  "read_chain_bytes lc 0 sz off mb = vraise Hang"
| "read_chain_bytes lc (Suc fuel) sz off mb =
     vbind (vhd_io_dynamic_read_link_bytes sz off mb) (\<lambda>mb.
       if \<forall>i \<in> set [0..<last_sector off sz - first_sector off]. test_bit (fst mb) i then vret mb
       else with_ctx (\<lambda>vhd s.
         if ftr_type (ctx_footer vhd) \<noteq> HD_TYPE_DIFF then (Inr mb, s)
         else if vhd_cache_get_parent s
           then on_parent (vthen vhd_get_bat (read_chain_bytes lc fuel sz off mb)) s
         else vbind (vhd_parent_locator_get lc) (\<lambda>next.
           if vhd_parent_raw vhd then raw_read_link_bytes next sz off mb
           else in_new_ctx (vthen (vhd_open lc 0 next VHD_OPEN_RDONLY)
                  (vthen vhd_get_bat (read_chain_bytes lc fuel sz off mb)))) s))"

definition vhd_io_dynamic_read_bytes :: "libc \<Rightarrow> nat \<Rightarrow> bytes \<Rightarrow> nat \<Rightarrow> u64 \<Rightarrow> (vst, bytes) vm" where
  "vhd_io_dynamic_read_bytes lc fuel buf sz off =
     vthen vhd_get_bat (vthen (valloc (- ENOMEM))
       (vbind (read_chain_bytes lc fuel sz off
                 (zeros ((last_sector off sz - first_sector off + 7) div 8), buf)) (\<lambda>mb.
          case clear_all_missing (fst mb) sz off (snd mb) of
            None \<Rightarrow> vraise Undef | Some buf \<Rightarrow> vret buf)))"

text \<open>The buffer of the caller holds at least \<open>sz\<close> bytes.\<close>

definition vhd_io_read_bytes :: "libc \<Rightarrow> nat \<Rightarrow> bytes \<Rightarrow> nat \<Rightarrow> u64 \<Rightarrow> (vst, bytes) vm" where
  "vhd_io_read_bytes lc fuel buf sz off = with_ctx (\<lambda>ctx.
     if off + of_nat sz > ftr_curr_size (ctx_footer ctx) then vfail (- ERANGE)
     else if \<not> vhd_type_dynamic ctx
       then vbind (vhd_pread sz (sint off)) (\<lambda>data.
              vthen (vdefined (sz \<le> length buf)) (vret (overlay 0 data buf)))
     else vhd_io_dynamic_read_bytes lc fuel buf sz off)"

section \<open>Writing\<close>

text \<open>An error inside the loop leads to the label \<open>fail\<close>, and from there to the writing of the
  footer; it is the result of the loop here.\<close>

definition write_bytes_block :: "libc \<Rightarrow> bytes \<Rightarrow> u32 \<Rightarrow> u64 \<Rightarrow> nat \<Rightarrow> nat \<Rightarrow> (vst, int) vm" where
  "write_bytes_block lc data blk blk_off lo hi = vcatch
     (vbind (bat_entry (unat blk)) (\<lambda>w.
        vthen (if w = DD_BLK_UNUSED then vhd_io_allocate_block lc blk else vret ())
          (vbind (bat_entry (unat blk)) (\<lambda>w. with_ctx (\<lambda>ctx.
             vthen (vhd_pwrite data
                 (sint (vhd_sectors_to_bytes (ucast w + ucast (ctx_bm_secs ctx)) + blk_off)))
               (mark_written blk lo hi))))))
     vret"

primrec write_bytes_loop :: "libc \<Rightarrow> nat \<Rightarrow> bytes \<Rightarrow> nat \<Rightarrow> u64 \<Rightarrow> (vst, int) vm" where
  "write_bytes_loop lc 0 buf sz off = vraise Hang"
| "write_bytes_loop lc (Suc k) buf sz off = with_ctx (\<lambda>ctx.
     vthen (vdefined (ctx_spb ctx \<noteq> 0))
      (let blk_size = vhd_sectors_to_bytes (ucast (ctx_spb ctx));
           blk = (ucast (off div blk_size) :: u32);
           blk_off = off mod blk_size;
           byts = (ucast (min (blk_size - blk_off) (of_nat sz)) :: u32);
           first_sec = (ucast (drop_bit VHD_SECTOR_SHIFT blk_off) :: u32);
           last_sec = secs_round_up_no_zero (blk_off + ucast byts);
           n = unat byts
       in vthen (vdefined (n \<le> length buf))
         (vbind (write_bytes_block lc (take n buf) blk blk_off (unat first_sec) (unat last_sec)) (\<lambda>err.
            if err \<noteq> 0 then vret err
            else if sz - n = 0 then vret 0
            else write_bytes_loop lc k (drop n buf) (sz - n) (off + ucast byts)))))"

definition vhd_io_dynamic_write_bytes_aligned :: "libc \<Rightarrow> bytes \<Rightarrow> nat \<Rightarrow> u64 \<Rightarrow> (vst, unit) vm" where
  "vhd_io_dynamic_write_bytes_aligned lc buf sz off =
     (if off AND 511 \<noteq> 0 \<or> sz mod 512 \<noteq> 0 then vfail (- EINVAL)
      else vthen vhd_get_bat
        (vthen (vbind vhd_has_batmap (\<lambda>hb. if hb then vhd_get_batmap else vret ()))
          (vbind (write_bytes_loop lc (Suc sz) buf sz off) (\<lambda>err.
             vthen (vcatch (with_ctx (\<lambda>ctx. vhd_write_footer (ctx_footer ctx)))
                      (\<lambda>ret. vfail (if err \<noteq> 0 then err else ret)))
               (vstatus err)))))"

text \<open>Partial sectors at the ends are read, changed and written; the rest is written directly.\<close>

definition vhd_io_dynamic_write_bytes :: "libc \<Rightarrow> nat \<Rightarrow> bytes \<Rightarrow> nat \<Rightarrow> u64 \<Rightarrow> (vst, unit) vm" where
  "vhd_io_dynamic_write_bytes lc fuel buf sz off =
     (let first_sec = first_sector off; last_sec = last_sector off sz;
          first_sec_off = unat (off AND 511); last_sec_off = unat ((off + of_nat sz) AND 511);
          sector = (\<lambda>i. vhd_sectors_to_bytes (of_nat i))
      in vbind
        (if first_sec_off = 0 \<and> last_sec_off = 0 then vret (buf, off, sz, zeros 512)
         else vthen (valloc (- ENOMEM))
           (if first_sec_off = 0 then vret (buf, off, sz, zeros 512)
            else let new = min (512 - first_sec_off) sz in
              vbind (vhd_io_read_bytes lc fuel (zeros 512) 512 (sector first_sec)) (\<lambda>tmp.
                let tmp = overlay first_sec_off (take new buf) tmp in
                vthen (vhd_io_dynamic_write_bytes_aligned lc tmp 512 (sector first_sec))
                  (vret (drop new buf, off + of_nat new, sz - new, tmp)))))
        (\<lambda>(buf, off, sz, tmp).
           vbind
             (if last_sec_off \<noteq> 0 \<and> (last_sec - first_sec > 1 \<or> first_sec_off = 0)
              then vbind (vhd_io_read_bytes lc fuel tmp 512 (sector (last_sec - 1))) (\<lambda>tmp.
                let tmp = overlay 0 (take last_sec_off (drop (sz - last_sec_off) buf)) tmp in
                vthen (vhd_io_dynamic_write_bytes_aligned lc tmp 512 (sector (last_sec - 1)))
                  (vret (sz - last_sec_off)))
              else vret sz)
             (\<lambda>sz. if sz \<noteq> 0 then vhd_io_dynamic_write_bytes_aligned lc buf sz off else vret ())))"

definition vhd_io_write_bytes :: "libc \<Rightarrow> nat \<Rightarrow> bytes \<Rightarrow> nat \<Rightarrow> u64 \<Rightarrow> (vst, unit) vm" where
  "vhd_io_write_bytes lc fuel buf sz off = with_ctx (\<lambda>ctx.
     if off + of_nat sz > ftr_curr_size (ctx_footer ctx) then vfail (- ERANGE)
     else if \<not> vhd_type_dynamic ctx
       then vthen (vdefined (sz \<le> length buf)) (vhd_pwrite (take sz buf) (sint off))
     else vhd_io_dynamic_write_bytes lc fuel buf sz off)"

section \<open>The marker\<close>

definition vhd_marker :: "(vst, u8) vm" where
  "vhd_marker = vbind vhd_has_batmap (\<lambda>hb.
     if \<not> hb then vfail (- ENOSYS)
     else vbind (vhd_read_batmap_header nowhere) (\<lambda>h. vret (bmh_marker h)))"

definition vhd_set_marker :: "u8 \<Rightarrow> (vst, unit) vm" where
  "vhd_set_marker marker = vbind vhd_has_batmap (\<lambda>hb.
     if \<not> hb then vfail (- ENOSYS)
     else vbind (vhd_read_batmap_header nowhere) (\<lambda>h.
       vthen (vhd_write_batmap_header \<lparr>bm_header = h\<lparr>bmh_marker := marker\<rparr>, bm_map = None\<rparr>) (vret ())))"

end
