(* ===== verification/Vhd_Byte_Laws.thy ===== *)
theory Vhd_Byte_Laws
  imports Vhd_Byte_Io Vhd_Read
begin

text \<open>
  Reads at byte granularity from a block no image holds: what the clearing at the end of
  \<open>__vhd_io_dynamic_read_bytes\<close> does to the buffer of the caller.
\<close>

text \<open>Sector numbers of a range below 2 TiB.\<close>

lemma unat_bytes: "a \<le> 2199023255040 \<Longrightarrow> unat (of_nat a :: u64) = a"
  by (rule unat_of_nat_small) simp

lemma first_sector_exact:
  assumes "a \<le> 2199023255040"
  shows "first_sector (of_nat a) = a div 512"
proof -
  have "a div 512 \<le> 2199023255040 div 512" using assms by (rule div_le_mono)
  then have "a div 512 < 4294967296" by simp
  then show ?thesis using unat_bytes [OF assms]
    by (simp add: first_sector_def VHD_SECTOR_SHIFT_def drop_bit_eq_div unsigned_ucast_eq take_bit_nat_eq_self unat_div)
qed

lemma last_sector_exact:
  assumes "a + n \<le> 2199023255040" and "0 < a + n"
  shows "last_sector (of_nat a) n = (a + n + 511) div 512"
proof -
  have e: "unat (of_nat a + of_nat n :: u64) = a + n" using unat_bytes [OF assms(1)] by simp
  have e': "unat (of_nat a + of_nat n + 511 :: u64) = a + n + 511"
    using e assms(1) by (subst unat_add_lem [THEN iffD1]) simp_all
  have "(a + n + 511) div 512 \<le> (2199023255040 + 511) div 512" using assms by (intro div_le_mono) simp
  then have l: "(a + n + 511) div 512 < 4294967296" by simp
  have r: "unat (secs_round_up (of_nat a + of_nat n)) = (a + n + 511) div 512"
    using l by (simp add: secs_round_up_def VHD_SECTOR_SHIFT_def VHD_SECTOR_SIZE_def unsigned_ucast_eq take_bit_nat_eq_self
        drop_bit_eq_div unat_div e')
  moreover have "1 \<le> (a + n + 511) div 512" using div_le_mono [of 512 "a + n + 511" 512] assms(2) by linarith
  ultimately have "secs_round_up (of_nat a + of_nat n) \<noteq> 0" by (metis not_one_le_zero unat_0)
  then show ?thesis using r by (simp add: last_sector_def secs_round_up_no_zero_def)
qed

lemma byte_read_clears:
  assumes ok: "image_ok hs s f" and par: "ftr_type (ctx_footer (st_ctx s)) \<noteq> HD_TYPE_DIFF"
    and rng: "a + n \<le> nblocks (st_ctx s) * 2097152" "a + n \<le> 2199023255040" and blk: "a mod 2097152 + n \<le> 2097152"
    and na: "\<not> allocated (st_ctx s) (a div 2097152)"
    and two: "512 < a mod 512 + n" and n: "n < 512" and buf: "n \<le> length buf"
  shows "vhd_io_read_bytes lc (Suc fuel) buf n (of_nat a) s =
    (if 512 \<le> length buf then (Inr (zeros 512 @ drop 512 buf), s) else (Inl Undef, s))"
proof -
  let ?c = "st_ctx s" and ?off = "of_nat a :: u64"
  have std: "std_ctx hs ?c" and q: "quiet s" using ok by (simp_all add: image_ok_def image_core_def)
  note c = std_ctxD [OF std]
  define b where "b = a div 2097152"
  define r where "r = a mod 2097152"
  have ab: "a = 2097152 * b + r" "r < 2097152" by (simp_all add: b_def r_def)
  have bn: "b < nblocks ?c" using rng(1) two n by (simp add: b_def less_mult_imp_div_less)
  have ua: "unat ?off = a" using rng(2) by (intro unat_bytes) simp
  have bs: "vhd_sectors_to_bytes 4096 = 2097152" by (simp add: vhd_sectors_to_bytes_def VHD_SECTOR_SHIFT_def)
  have w: "(ucast (?off div 2097152) :: u32) = of_nat b" "?off mod 2097152 = of_nat r"
    using ua unat_of_nblocks [OF bn]
    by (simp_all add: word_unat_eq_iff unat_div unat_mod unsigned_ucast_eq b_def r_def take_bit_nat_eq_self unat_of_nat take_bit_eq_mod)
  have be: "bat_entry (unat (of_nat b :: u32)) s = (Inr DD_BLK_UNUSED, s)"
    using bat_entry_quiet [of b s] bn c(12) na unat_of_nblocks [OF bn] by (simp add: allocated_def b_def)
  have "n \<le> 2097152 - r" using blk by (simp add: r_def)
  moreover have "unat (2097152 - of_nat r :: u64) = 2097152 - r" using ab(2) by (simp add: unat_sub word_le_nat_alt unat_of_nat_small)
  ultimately have mn: "min (2097152 - of_nat r) (of_nat n) = (of_nat n :: u64)"
    using n by (auto simp: min_def word_le_nat_alt unat_of_nat_small word_unat_eq_iff)
  have un: "unat (ucast (of_nat n :: u64) :: u32) = n" using n by (simp add: unsigned_ucast_eq take_bit_nat_eq_self unat_of_nat_small)
  have lp: "read_link_bytes_loop (Suc k) 0 0 n ?off mb s = (Inr mb, s)" for k mb
    by (simp add: with_ctx_app vbind_def vdefined_def vret_def Let_def c(4) bs w be mn un)
  have lk: "vhd_io_dynamic_read_link_bytes n ?off mb s = (Inr mb, s)" for mb
    unfolding vhd_io_dynamic_read_link_bytes_def by (simp only: vbind_def valloc_quiet [OF q] prod.case sum.case lp)
  have rc: "read_chain_bytes lc (Suc fuel) n ?off mb s = (Inr mb, s)" for mb
    using par lk by (simp add: vbind_def with_ctx_app vret_def)
  define k where "k = a div 512"
  have ak: "a = 512 * k + a mod 512" "a mod 512 < 512" by (simp_all add: k_def)
  have fs: "first_sector ?off = k" using rng(2) by (simp add: first_sector_exact k_def)
  have "(a + n + 511) div 512 = k + 2"
  proof -
    have "a + n + 511 = 512 * (k + 2) + (a mod 512 + n - 513)" using ak(1) two by simp
    moreover have "a mod 512 + n - 513 < 512" using ak(2) n by simp
    ultimately show ?thesis by (metis add.commute div_mult_self4 div_less add.left_neutral nat_arith.rule0 mult.commute zero_neq_numeral)
  qed
  moreover have "0 < a + n" using two ak(2) by linarith
  ultimately have ls: "last_sector ?off n = k + 2" using last_sector_exact [OF rng(2)] by simp
  have nb: "\<not> test_bit (zeros 1) 0" "\<not> test_bit (zeros 1) 1" by (simp_all add: test_bit_iff)
  have cl: "clear_all_missing (zeros 1) n ?off buf = (if 512 \<le> length buf then Some (zeros 512 @ drop 512 buf) else None)"
  proof -
    let ?B = "zeros 512 @ drop 512 buf"
    have first: "clear_missing (zeros 1) n ?off k (Some buf) = (if 512 \<le> length buf then Some ?B else None)"
      using nb by (simp add: clear_missing_def fs ls Let_def ua overlay_def)
    have "512 * (k + 1) - a + (a + n - 512 * (k + 1)) = n" "512 * (k + 1) - a \<le> n" using ak two by simp_all
    moreover have "overlay (512 * (k + 1) - a) (zeros (a + n - 512 * (k + 1))) ?B = ?B" if "512 \<le> length buf"
      using calculation n that by (intro nth_equalityI) (auto simp: overlay_def nth_append zeros_def)
    ultimately have second: "clear_missing (zeros 1) n ?off (Suc k) (Some ?B) = Some ?B" if "512 \<le> length buf"
      using nb that n by (simp add: clear_missing_def fs ls Let_def ua)
    have "[k..<k + 2] = [k, Suc k]" by (simp add: upt_rec)
    then show ?thesis using first second by (simp add: clear_all_missing_def fs ls) (simp add: clear_missing_def)
  qed
  have in_size: "\<not> ?off + of_nat n > ftr_curr_size (ctx_footer ?c)"
  proof -
    have "nblocks ?c < 4294967296" by (simp add: nblocks_def)
    then have "unat (of_nat (nblocks ?c * 2097152) :: u64) = nblocks ?c * 2097152" by (intro unat_of_nat_small) simp
    then show ?thesis using rng unat_bytes [OF rng(2)] unfolding word_less_nat_alt c(10) by simp
  qed
  show ?thesis
    using in_size c(1) get_bat_quiet [OF c(1) c(11)] rc cl
    by (simp add: vhd_io_read_bytes_def vhd_io_dynamic_read_bytes_def with_ctx_app vbind_def valloc_quiet [OF q] fs ls
        vret_def vraise_def del: read_chain_bytes.simps)
qed

end
