(* ===== verification/Vhd_Journal.thy ===== *)
theory Vhd_Journal
  imports Vhd_Open Vhd_Io
begin

text \<open>
  The undo journal of an image (\<open>vhd/lib/libvhd-journal.c\<close>, \<open>include/libvhd-journal.h\<close>) and the transfer
  loop it uses (\<open>vhd/lib/atomicio.c\<close>). Before an image is restructured in place its metadata and
  the blocks that will be moved are copied to the journal, a second file: a header of one sector
  and a sequence of entries, each followed by its data. \<open>vhd_journal_revert\<close> plays them back. The
  journal and the image share the file system of the state \<open>vst\<close>; a call on the journal's
  descriptor is run with the journal's name and offset in place of the image's (\<open>on_jfd\<close>).
\<close>

section \<open>The structures\<close>

record vhd_journal_header =
  jh_cookie :: bytes
  jh_uuid :: bytes
  jh_vhd_footer_offset :: u64
  jh_journal_data_entries :: u32
  jh_journal_metadata_entries :: u32
  jh_journal_data_offset :: u64
  jh_journal_metadata_offset :: u64
  jh_journal_eof :: u64
  jh_pad :: bytes

text \<open>The compiler pads the entry with four bytes.\<close>

record vhd_journal_entry =
  je_cookie :: u64
  je_type :: u32
  je_size :: u32
  je_offset :: u64
  je_checksum :: u32
  je_padding :: bytes

text \<open>\<open>j_vhd\<close> is the state of the image, with the file system; \<open>j_junk\<close> is the contents of memory that
  the code reads without having written it.\<close>

record vhd_journal =
  j_jname :: string
  j_pos :: nat
  j_is_block :: bool
  j_header :: vhd_journal_header
  j_vhd :: vst
  j_junk :: bytes

definition VHD_JOURNAL_ENTRY_TYPE_FOOTER_P :: u32 where "VHD_JOURNAL_ENTRY_TYPE_FOOTER_P = 1"
definition VHD_JOURNAL_ENTRY_TYPE_FOOTER_C :: u32 where "VHD_JOURNAL_ENTRY_TYPE_FOOTER_C = 2"
definition VHD_JOURNAL_ENTRY_TYPE_HEADER :: u32 where "VHD_JOURNAL_ENTRY_TYPE_HEADER = 3"
definition VHD_JOURNAL_ENTRY_TYPE_LOCATOR :: u32 where "VHD_JOURNAL_ENTRY_TYPE_LOCATOR = 4"
definition VHD_JOURNAL_ENTRY_TYPE_BAT :: u32 where "VHD_JOURNAL_ENTRY_TYPE_BAT = 5"
definition VHD_JOURNAL_ENTRY_TYPE_BATMAP_H :: u32 where "VHD_JOURNAL_ENTRY_TYPE_BATMAP_H = 6"
definition VHD_JOURNAL_ENTRY_TYPE_BATMAP_M :: u32 where "VHD_JOURNAL_ENTRY_TYPE_BATMAP_M = 7"
definition VHD_JOURNAL_ENTRY_TYPE_DATA :: u32 where "VHD_JOURNAL_ENTRY_TYPE_DATA = 8"
definition EEXIST :: int where [errno_simps]: "EEXIST = 17"
definition VHD_JOURNAL_METADATA :: u8 where "VHD_JOURNAL_METADATA = 1"
definition VHD_JOURNAL_DATA :: u8 where "VHD_JOURNAL_DATA = 2"
definition VHD_JOURNAL_HEADER_COOKIE :: bytes where "VHD_JOURNAL_HEADER_COOKIE = ascii ''vjournal''"
definition VHD_JOURNAL_ENTRY_COOKIE :: u64 where "VHD_JOURNAL_ENTRY_COOKIE = 0xaaaa12344321aaaa"

lemmas entry_type_defs =
  VHD_JOURNAL_ENTRY_TYPE_FOOTER_P_def VHD_JOURNAL_ENTRY_TYPE_FOOTER_C_def
  VHD_JOURNAL_ENTRY_TYPE_HEADER_def VHD_JOURNAL_ENTRY_TYPE_LOCATOR_def
  VHD_JOURNAL_ENTRY_TYPE_BAT_def VHD_JOURNAL_ENTRY_TYPE_BATMAP_H_def
  VHD_JOURNAL_ENTRY_TYPE_BATMAP_M_def VHD_JOURNAL_ENTRY_TYPE_DATA_def

definition jh_bytes :: "vhd_journal_header \<Rightarrow> bytes" where
  "jh_bytes h =
     jh_cookie h @ jh_uuid h @ le_bytes 8 (jh_vhd_footer_offset h) @
     le_bytes 4 (jh_journal_data_entries h) @ le_bytes 4 (jh_journal_metadata_entries h) @
     le_bytes 8 (jh_journal_data_offset h) @ le_bytes 8 (jh_journal_metadata_offset h) @
     le_bytes 8 (jh_journal_eof h) @ jh_pad h"

definition jh_of_bytes :: "bytes \<Rightarrow> vhd_journal_header" where
  "jh_of_bytes bs = \<lparr>
     jh_cookie = field 0 8 bs, jh_uuid = field 8 16 bs, jh_vhd_footer_offset = le_word (field 24 8 bs),
     jh_journal_data_entries = le_word (field 32 4 bs), jh_journal_metadata_entries = le_word (field 36 4 bs),
     jh_journal_data_offset = le_word (field 40 8 bs), jh_journal_metadata_offset = le_word (field 48 8 bs),
     jh_journal_eof = le_word (field 56 8 bs), jh_pad = field 64 448 bs\<rparr>"

definition jh_zero :: vhd_journal_header where
  "jh_zero = jh_of_bytes (zeros 512)"

definition je_bytes :: "vhd_journal_entry \<Rightarrow> bytes" where
  "je_bytes e =
     le_bytes 8 (je_cookie e) @ le_bytes 4 (je_type e) @ le_bytes 4 (je_size e) @
     le_bytes 8 (je_offset e) @ le_bytes 4 (je_checksum e) @ je_padding e"

definition je_of_bytes :: "bytes \<Rightarrow> vhd_journal_entry" where
  "je_of_bytes bs = \<lparr>
     je_cookie = le_word (field 0 8 bs), je_type = le_word (field 8 4 bs), je_size = le_word (field 12 4 bs),
     je_offset = le_word (field 16 8 bs), je_checksum = le_word (field 24 4 bs), je_padding = field 28 4 bs\<rparr>"

text \<open>\<open>journal_eof\<close> is not converted.\<close>

definition vhd_journal_header_in :: "vhd_journal_header \<Rightarrow> vhd_journal_header" where
  "vhd_journal_header_in h = h\<lparr>
     jh_vhd_footer_offset := be64 (jh_vhd_footer_offset h),
     jh_journal_data_entries := be32 (jh_journal_data_entries h),
     jh_journal_metadata_entries := be32 (jh_journal_metadata_entries h),
     jh_journal_data_offset := be64 (jh_journal_data_offset h),
     jh_journal_metadata_offset := be64 (jh_journal_metadata_offset h)\<rparr>"

definition vhd_journal_header_out :: "vhd_journal_header \<Rightarrow> vhd_journal_header" where
  "vhd_journal_header_out h = h\<lparr>
     jh_vhd_footer_offset := be64 (jh_vhd_footer_offset h),
     jh_journal_data_entries := be32 (jh_journal_data_entries h),
     jh_journal_metadata_entries := be32 (jh_journal_metadata_entries h),
     jh_journal_data_offset := be64 (jh_journal_data_offset h),
     jh_journal_metadata_offset := be64 (jh_journal_metadata_offset h)\<rparr>"

definition vhd_journal_entry_in :: "vhd_journal_entry \<Rightarrow> vhd_journal_entry" where
  "vhd_journal_entry_in e = e\<lparr>
     je_cookie := be64 (je_cookie e), je_type := be32 (je_type e), je_size := be32 (je_size e),
     je_offset := be64 (je_offset e), je_checksum := be32 (je_checksum e)\<rparr>"

definition vhd_journal_entry_out :: "vhd_journal_entry \<Rightarrow> vhd_journal_entry" where
  "vhd_journal_entry_out e = e\<lparr>
     je_cookie := be64 (je_cookie e), je_type := be32 (je_type e), je_size := be32 (je_size e),
     je_offset := be64 (je_offset e), je_checksum := be32 (je_checksum e)\<rparr>"

text \<open>The sum over the entry with its checksum zeroed and over the data.\<close>

definition vhd_journal_checksum_entry :: "vhd_journal_entry \<Rightarrow> bytes \<Rightarrow> u32" where
  "vhd_journal_checksum_entry entry buf =
     NOT (byte_sum (je_bytes (entry\<lparr>je_checksum := 0\<rparr>)) + byte_sum buf)"

definition vhd_journal_validate_entry :: "vhd_journal_entry \<Rightarrow> int" where
  "vhd_journal_validate_entry entry =
     (if je_size entry = 0 then - EINVAL
      else if je_size entry AND 511 \<noteq> 0 then - EINVAL
      else if je_cookie entry \<noteq> VHD_JOURNAL_ENTRY_COOKIE then - EINVAL
      else 0)"

definition vhd_journal_validate_entry_data :: "vhd_journal_entry \<Rightarrow> bytes \<Rightarrow> int" where
  "vhd_journal_validate_entry_data entry buf =
     (if vhd_journal_checksum_entry entry (take (unat (je_size entry)) buf) \<noteq> je_checksum entry then - EINVAL else 0)"

section \<open>The transfer loop\<close>

text \<open>One call \<open>f(fd, s + pos, n - pos)\<close> at the offset of the descriptor, which moves on.\<close>

definition io_step :: "pio_dir \<Rightarrow> bytes \<Rightarrow> nat \<Rightarrow> nat \<Rightarrow> vst \<Rightarrow> int \<times> bytes \<times> vst" where
  "io_step d buf pos n s = (case pio_step d buf pos n (int (st_pos s) - int pos) s of (res, buf, t) \<Rightarrow>
     (res, buf, if res > 0 then t\<lparr>st_pos := st_pos s + nat res\<rparr> else t))"

fun atomicio_loop :: "nat \<Rightarrow> pio_dir \<Rightarrow> nat \<Rightarrow> nat \<Rightarrow> bytes \<Rightarrow> vst \<Rightarrow> (nat \<times> bytes \<times> vst) option" where
  "atomicio_loop 0 d n pos buf s = None"
| "atomicio_loop (Suc k) d n pos buf s =
     (if n \<le> pos then Some (pos, buf, s)
      else case io_step d buf pos n s of (res, buf, s) \<Rightarrow>
        if res = - 1 then
          (if get_errno s = EINTR \<or> get_errno s = EAGAIN then atomicio_loop k d n pos buf s
           else Some (0, buf, s))
        else if res = 0 then Some (pos, buf, set_errno EPIPE s)
        else atomicio_loop k d n (pos + nat res) buf s)"

text \<open>The loop ends: see \<open>atomicio_returns\<close>.\<close>

definition atomicio :: "pio_dir \<Rightarrow> bytes \<Rightarrow> nat \<Rightarrow> (vst, nat \<times> bytes) vm" where
  "atomicio d buf n = (\<lambda>s.
     case atomicio_loop (length (sys_sched (st_sys s)) + 3) d n 0 buf s of
       None \<Rightarrow> (Inl Hang, s)
     | Some (res, buf, s) \<Rightarrow> (Inr (res, buf), s))"

section \<open>Access to the journal and to the image\<close>

definition on_vhd :: "(vst, 'a) vm \<Rightarrow> (vhd_journal, 'a) vm" where
  "on_vhd m = (\<lambda>j. case m (j_vhd j) of (r, s) \<Rightarrow> (r, j\<lparr>j_vhd := s\<rparr>))"

definition jfd_state :: "vhd_journal \<Rightarrow> vst" where
  "jfd_state j = (j_vhd j)\<lparr>st_ctx := (st_ctx (j_vhd j))\<lparr>ctx_file := j_jname j\<rparr>, st_pos := j_pos j\<rparr>"

definition on_jfd :: "(vst, 'a) vm \<Rightarrow> (vhd_journal, 'a) vm" where
  "on_jfd m = (\<lambda>j. case m (jfd_state j) of
     (r, s) \<Rightarrow> (r, j\<lparr>j_pos := st_pos s, j_vhd := (j_vhd j)\<lparr>st_sys := st_sys s\<rparr>\<rparr>))"

definition with_j :: "(vhd_journal \<Rightarrow> (vhd_journal, 'a) vm) \<Rightarrow> (vhd_journal, 'a) vm" where
  "with_j f = (\<lambda>j. f j j)"

abbreviation j_ctx :: "vhd_journal \<Rightarrow> vhd_context" where
  "j_ctx j \<equiv> st_ctx (j_vhd j)"

definition upd_header :: "(vhd_journal_header \<Rightarrow> vhd_journal_header) \<Rightarrow> vhd_journal \<Rightarrow> vhd_journal" where
  "upd_header g j = j\<lparr>j_header := g (j_header j)\<rparr>"

definition jstatus :: "int \<Rightarrow> (vhd_journal, unit) vm" where
  "jstatus e = (if e = 0 then vret () else vfail e)"

definition take_junk :: "nat \<Rightarrow> (vhd_journal, bytes) vm" where
  "take_junk n = (\<lambda>j. (Inr (take n (j_junk j @ zeros n)), j\<lparr>j_junk := drop n (j_junk j)\<rparr>))"

definition vhd_journal_seek :: "int \<Rightarrow> (vhd_journal, unit) vm" where
  "vhd_journal_seek offset = on_jfd (vhd_seek offset SEEK_SET)"

definition vhd_journal_position :: "(vhd_journal, nat option) vm" where
  "vhd_journal_position = on_jfd vhd_position"

text \<open>\<open>vhd_journal_read\<close> into the buffer \<open>buf\<close>, as seen by a caller whose buffer keeps what was read
  before an error: the status and the buffer.\<close>

definition vhd_journal_read_buf :: "bytes \<Rightarrow> nat \<Rightarrow> (vhd_journal, int \<times> bytes) vm" where
  "vhd_journal_read_buf buf n = on_jfd (vthen (vmodify (set_errno 0))
     (vbind (atomicio Pread buf n) (\<lambda>(ret, buf) s. (Inr (if ret = n then 0 else io_error s, buf), s))))"

definition vhd_journal_read :: "nat \<Rightarrow> (vhd_journal, bytes) vm" where
  "vhd_journal_read n = vbind (vhd_journal_read_buf (zeros n) n)
     (\<lambda>(err, buf). if err = 0 then vret buf else vfail err)"

definition vhd_journal_write :: "bytes \<Rightarrow> (vhd_journal, unit) vm" where
  "vhd_journal_write buf = on_jfd (vthen (vmodify (set_errno 0))
     (vbind (atomicio Pwrite buf (length buf)) (\<lambda>(ret, _) s.
        (if ret = length buf then Inr () else Inl (Errno (io_error s)), s))))"

definition vhd_journal_truncate :: "int \<Rightarrow> (vhd_journal, unit) vm" where
  "vhd_journal_truncate len = on_jfd (\<lambda>s. case ftruncate len s of (r, s) \<Rightarrow>
     (if r = - 1 then Inl (Errno (- get_errno s)) else Inr (), s))"

text \<open>\<open>fdatasync\<close> may fail; it changes no contents.\<close>

definition vhd_journal_sync :: "(vhd_journal, unit) vm" where
  "vhd_journal_sync = on_jfd (\<lambda>s. case take_ev s of (ev, s) \<Rightarrow>
     (case ev of Fail e \<Rightarrow> (Inl (Errno (- e)), set_errno e s) | _ \<Rightarrow> (Inr (), s)))"

section \<open>The header of the journal\<close>

text \<open>The offsets tested are those of the journal's own header, whatever header was passed.\<close>

definition vhd_journal_validate_header :: "vhd_journal_header \<Rightarrow> (vhd_journal, unit) vm" where
  "vhd_journal_validate_header header = with_j (\<lambda>j.
     if jh_cookie header \<noteq> VHD_JOURNAL_HEADER_COOKIE then vfail (- EINVAL)
     else vthen (vhd_journal_seek (sint (jh_journal_eof (j_header j))))
       (vbind vhd_journal_position (\<lambda>eof j.
          if eof = None then (Inl (Errno (- get_errno (j_vhd j))), j)
          else if jh_journal_data_offset (j_header j) > jh_journal_eof (j_header j) then (Inl (Errno (- EINVAL)), j)
          else if jh_journal_metadata_offset (j_header j) > jh_journal_eof (j_header j) then (Inl (Errno (- EINVAL)), j)
          else (Inr (), j))))"

text \<open>The header is read into \<open>j->header\<close>, which keeps what was read before an error.\<close>

definition vhd_journal_read_journal_header :: "(vhd_journal, unit) vm" where
  "vhd_journal_read_journal_header = with_j (\<lambda>j.
     vthen (vhd_journal_seek 0)
       (vbind (vhd_journal_read_buf (jh_bytes (j_header j)) 512) (\<lambda>(err, buf).
          vthen (vmodify (upd_header (\<lambda>_. jh_of_bytes buf)))
            (if err \<noteq> 0 then vfail err
             else vthen (vmodify (upd_header vhd_journal_header_in))
               (with_j (\<lambda>j. vhd_journal_validate_header (j_header j)))))))"

definition vhd_journal_write_header :: "vhd_journal_header \<Rightarrow> (vhd_journal, unit) vm" where
  "vhd_journal_write_header header =
     vthen (vhd_journal_validate_header header)
       (vthen (vhd_journal_seek 0)
         (vhd_journal_write (jh_bytes (vhd_journal_header_out header))))"

definition vhd_journal_add_journal_header :: "(vhd_journal, unit) vm" where
  "vhd_journal_add_journal_header =
     vthen (vmodify (upd_header (\<lambda>_. jh_zero)))
       (vthen (on_vhd (vhd_seek 0 SEEK_END))
         (vbind (on_vhd vhd_position) (\<lambda>off.
            case off of None \<Rightarrow> (\<lambda>j. (Inl (Errno (- get_errno (j_vhd j))), j))
            | Some off \<Rightarrow>
                vthen (on_vhd vhd_get_footer)
                  (vthen (vmodify (\<lambda>j. upd_header (\<lambda>h. h\<lparr>
                       jh_cookie := VHD_JOURNAL_HEADER_COOKIE,
                       jh_uuid := ftr_uuid (ctx_footer (j_ctx j)),
                       jh_vhd_footer_offset := of_nat off - 512,
                       jh_journal_eof := 512\<rparr>) j))
                    (with_j (\<lambda>j. vhd_journal_write_header (j_header j)))))))"

section \<open>Entries\<close>

definition vhd_journal_read_entry :: "(vhd_journal, vhd_journal_entry) vm" where
  "vhd_journal_read_entry = vbind (vhd_journal_read 32) (\<lambda>buf.
     let entry = vhd_journal_entry_in (je_of_bytes buf)
     in vthen (jstatus (vhd_journal_validate_entry entry)) (vret entry))"

definition vhd_journal_write_entry :: "vhd_journal_entry \<Rightarrow> (vhd_journal, unit) vm" where
  "vhd_journal_write_entry entry =
     vthen (jstatus (vhd_journal_validate_entry entry))
       (vhd_journal_write (je_bytes (vhd_journal_entry_out entry)))"

text \<open>The counter and the offset of the first entry, of data or of metadata.\<close>

definition count_entry :: "u32 \<Rightarrow> nat \<Rightarrow> vhd_journal_header \<Rightarrow> vhd_journal_header" where
  "count_entry type sz h =
     (let h = (if type = VHD_JOURNAL_ENTRY_TYPE_DATA
         then h\<lparr>jh_journal_data_entries := jh_journal_data_entries h + 1,
                jh_journal_data_offset := (if jh_journal_data_entries h = 0 then jh_journal_eof h
                                           else jh_journal_data_offset h)\<rparr>
         else h\<lparr>jh_journal_metadata_entries := jh_journal_metadata_entries h + 1,
                jh_journal_metadata_offset := (if jh_journal_metadata_entries h = 0 then jh_journal_eof h
                                               else jh_journal_metadata_offset h)\<rparr>)
      in h\<lparr>jh_journal_eof := jh_journal_eof h + of_nat (sz + 32)\<rparr>)"

definition uncount_entry :: "u32 \<Rightarrow> nat \<Rightarrow> u64 \<Rightarrow> vhd_journal_header \<Rightarrow> vhd_journal_header" where
  "uncount_entry type sz off_bak h =
     (let h = (if type = VHD_JOURNAL_ENTRY_TYPE_DATA
         then h\<lparr>jh_journal_data_entries := jh_journal_data_entries h - 1,
                jh_journal_data_offset := (if jh_journal_data_entries h - 1 = 0 then off_bak
                                           else jh_journal_data_offset h)\<rparr>
         else h\<lparr>jh_journal_metadata_entries := jh_journal_metadata_entries h - 1,
                jh_journal_metadata_offset := (if jh_journal_metadata_entries h - 1 = 0 then off_bak
                                               else jh_journal_metadata_offset h)\<rparr>)
      in h\<lparr>jh_journal_eof := jh_journal_eof h - of_nat (sz + 32)\<rparr>)"

text \<open>The label \<open>fail\<close>: the journal is cut back, and an error of that is ignored.\<close>

definition update_fail :: "int \<Rightarrow> (vhd_journal, unit) vm" where
  "update_fail err = with_j (\<lambda>j.
     vthen (if j_is_block j then vret ()
            else vcatch (vhd_journal_truncate (sint (jh_journal_eof (j_header j)))) (\<lambda>_. vret ()))
       (vfail err))"

definition vhd_journal_update :: "u64 \<Rightarrow> bytes \<Rightarrow> u32 \<Rightarrow> (vhd_journal, unit) vm" where
  "vhd_journal_update offset buf type = vbind (take_junk 4) (\<lambda>padding.
     let sz = length buf;
         e = \<lparr>je_cookie = VHD_JOURNAL_ENTRY_COOKIE, je_type = type, je_size = of_nat sz,
              je_offset = offset, je_checksum = 0, je_padding = padding\<rparr>;
         entry = e\<lparr>je_checksum := vhd_journal_checksum_entry e buf\<rparr>
     in with_j (\<lambda>j0.
       let off_bak = (if type = VHD_JOURNAL_ENTRY_TYPE_DATA then jh_journal_data_offset (j_header j0)
                      else jh_journal_metadata_offset (j_header j0))
       in vthen (vhd_journal_seek (sint (jh_journal_eof (j_header j0))))
         (vcatch
           (vthen (vhd_journal_write_entry entry)
             (vthen (vhd_journal_write buf)
               (vthen (vmodify (upd_header (count_entry type sz)))
                 (vcatch (with_j (\<lambda>j. vhd_journal_write_header (j_header j)))
                   (\<lambda>err. vthen (vmodify (upd_header (uncount_entry type sz off_bak))) (vfail err))))))
           update_fail)))"

section \<open>The metadata of the image goes to the journal\<close>

text \<open>The footer at the end of the file and, for a dynamic image, its copy at the start.\<close>

definition vhd_journal_add_footer :: "(vhd_journal, unit) vm" where
  "vhd_journal_add_footer =
     vthen (on_vhd (vhd_seek 0 SEEK_END))
       (vbind (on_vhd vhd_position) (\<lambda>off.
          case off of None \<Rightarrow> (\<lambda>j. (Inl (Errno (- get_errno (j_vhd j))), j))
          | Some off \<Rightarrow>
              vbind (on_vhd (vhd_read_footer_at nowhere (int off - 512))) (\<lambda>footer.
                vthen (vhd_journal_update (of_nat off - 512) (ftr_bytes (vhd_footer_out footer))
                         VHD_JOURNAL_ENTRY_TYPE_FOOTER_P)
                  (with_j (\<lambda>j.
                     if \<not> vhd_type_dynamic (j_ctx j) then vret ()
                     else vbind (on_vhd (vhd_read_footer_at nowhere 0)) (\<lambda>footer.
                       vhd_journal_update 0 (ftr_bytes (vhd_footer_out footer))
                         VHD_JOURNAL_ENTRY_TYPE_FOOTER_C))))))"

definition vhd_journal_add_header :: "(vhd_journal, unit) vm" where
  "vhd_journal_add_header = vbind (on_vhd (vhd_read_header nowhere)) (\<lambda>header. with_j (\<lambda>j.
     vhd_journal_update (ftr_data_offset (ctx_footer (j_ctx j))) (hdr_bytes (vhd_header_out header))
       VHD_JOURNAL_ENTRY_TYPE_HEADER))"

definition add_locator :: "prt_loc \<Rightarrow> (vhd_journal, unit) vm" where
  "add_locator loc = vthen (jstatus (vhd_validate_platform_code (loc_code loc)))
     (if loc_code loc = PLAT_CODE_NONE then vret ()
      else let off = loc_data_offset loc; sz = unat (vhd_parent_locator_size loc)
        in vbind (on_vhd (vthen valloc_buf (vthen (vhd_seek (sint off) SEEK_SET) (vhd_read sz)))) (\<lambda>buf.
             vhd_journal_update off buf VHD_JOURNAL_ENTRY_TYPE_LOCATOR))"

definition vhd_journal_add_locators :: "(vhd_journal, unit) vm" where
  "vhd_journal_add_locators = vthen (on_vhd vhd_get_header) (with_j (\<lambda>j.
     vfor (hdr_loc (ctx_header (j_ctx j))) add_locator))"

definition vhd_journal_add_bat :: "(vhd_journal, unit) vm" where
  "vhd_journal_add_bat = vthen (on_vhd vhd_get_header)
     (vbind (on_vhd (vhd_read_bat nowhere)) (\<lambda>bat. with_j (\<lambda>j.
        vhd_journal_update (hdr_table_offset (ctx_header (j_ctx j)))
          (bat_bytes (case bat_bat (vhd_bat_out bat) of None \<Rightarrow> [] | Some ws \<Rightarrow> ws))
          VHD_JOURNAL_ENTRY_TYPE_BAT)))"

text \<open>
  The first entry has a whole sector copied from a structure of 32 bytes: the rest is what
  lies behind it on the stack. The second copies \<open>batmap_size\<close> sectors from a buffer that
  \<open>vhd_read_batmap\<close> allocated for the blocks in use.
\<close>

definition vhd_journal_add_batmap :: "(vhd_journal, unit) vm" where
  "vhd_journal_add_batmap = with_j (\<lambda>j.
     let off = vhd_batmap_header_offset (j_ctx j)
     in vbind (on_vhd (vhd_read_batmap nowhere)) (\<lambda>batmap.
       let sz = unat (vhd_bytes_padded 32)
       in vbind (take_junk (sz - 32)) (\<lambda>junk.
         vthen (vhd_journal_update off (bmh_bytes (bm_header (vhd_batmap_header_out batmap)) @ junk)
                  VHD_JOURNAL_ENTRY_TYPE_BATMAP_H)
           (let off = bmh_batmap_offset (bm_header batmap);
                sz = unat (vhd_sectors_to_bytes (ucast (bmh_batmap_size (bm_header batmap))));
                m = (case bm_map batmap of None \<Rightarrow> [] | Some m \<Rightarrow> m)
            in vthen (vdefined (sz \<le> length m))
              (vhd_journal_update off (take sz m) VHD_JOURNAL_ENTRY_TYPE_BATMAP_M)))))"

definition vhd_journal_add_metadata :: "(vhd_journal, unit) vm" where
  "vhd_journal_add_metadata = vthen vhd_journal_add_footer (with_j (\<lambda>j.
     if \<not> vhd_type_dynamic (j_ctx j) then vret ()
     else vthen vhd_journal_add_header
       (vthen vhd_journal_add_locators
         (vthen vhd_journal_add_bat
           (vbind (on_vhd vhd_has_batmap) (\<lambda>hb.
              vthen (if hb then vhd_journal_add_batmap else vret ())
                (vthen (vmodify (upd_header (\<lambda>h. h\<lparr>jh_journal_data_offset := jh_journal_eof h\<rparr>)))
                  (with_j (\<lambda>j. vhd_journal_write_header (j_header j))))))))))"

section \<open>The metadata comes back from the journal\<close>

text \<open>\<open>old\<close> is what the destination holds before; an error of the read leaves it partly overwritten
  and not converted.\<close>

definition vhd_journal_read_footer_type ::
    "(hd_ftr \<Rightarrow> vhd_journal \<Rightarrow> vhd_journal) \<Rightarrow> bytes \<Rightarrow> u32 \<Rightarrow> (vhd_journal, hd_ftr) vm" where
  "vhd_journal_read_footer_type put old type = vbind vhd_journal_read_entry (\<lambda>entry.
     if je_type entry \<noteq> type then vfail (- EINVAL)
     else if je_size entry \<noteq> 512 then vfail (- EINVAL)
     else vbind (vhd_journal_read_buf old 512) (\<lambda>(err, buf).
       if err \<noteq> 0 then vthen (vmodify (put (ftr_of_bytes buf))) (vfail err)
       else let f = vhd_footer_in (ftr_of_bytes buf)
         in vthen (vmodify (put f)) (vthen (jstatus (vhd_validate_footer f)) (vret f))))"

definition to_vhd :: "(vst \<Rightarrow> vst) \<Rightarrow> vhd_journal \<Rightarrow> vhd_journal" where
  "to_vhd g j = j\<lparr>j_vhd := g (j_vhd j)\<rparr>"

definition vhd_journal_read_footer :: "(vhd_journal, hd_ftr) vm" where
  "vhd_journal_read_footer = with_j (\<lambda>j.
     vhd_journal_read_footer_type (\<lambda>f. to_vhd (put_footer f)) (ftr_bytes (ctx_footer (j_ctx j)))
       VHD_JOURNAL_ENTRY_TYPE_FOOTER_P)"

text \<open>The copy goes to a local variable of the caller.\<close>

definition vhd_journal_read_footer_copy :: "(vhd_journal, hd_ftr) vm" where
  "vhd_journal_read_footer_copy =
     vhd_journal_read_footer_type (\<lambda>_ j. j) (zeros 512) VHD_JOURNAL_ENTRY_TYPE_FOOTER_C"

definition vhd_journal_read_header :: "(vhd_journal, dd_hdr) vm" where
  "vhd_journal_read_header = vbind vhd_journal_read_entry (\<lambda>entry.
     if je_type entry \<noteq> VHD_JOURNAL_ENTRY_TYPE_HEADER then vfail (- EINVAL)
     else if je_size entry \<noteq> 1024 then vfail (- EINVAL)
     else with_j (\<lambda>j. vbind (vhd_journal_read_buf (hdr_bytes (ctx_header (j_ctx j))) 1024) (\<lambda>(err, buf).
       if err \<noteq> 0 then vthen (vmodify (to_vhd (put_header (hdr_of_bytes buf)))) (vfail err)
       else let h = vhd_header_in (hdr_of_bytes buf)
         in vthen (vmodify (to_vhd (put_header h))) (vthen (jstatus (vhd_validate_header h)) (vret h)))))"

text \<open>The loop over the locator entries: at most \<open>room\<close> more fit the header.\<close>

primrec read_locators_loop :: "nat \<Rightarrow> bytes list \<Rightarrow> (vhd_journal, bytes list) vm" where
  "read_locators_loop 0 acc = vbind vhd_journal_position (\<lambda>pos. vbind vhd_journal_read_entry (\<lambda>entry.
     if je_type entry \<noteq> VHD_JOURNAL_ENTRY_TYPE_LOCATOR
     then vthen (vhd_journal_seek (case pos of None \<Rightarrow> - 1 | Some p \<Rightarrow> int p)) (vret acc)
     else vfail (- EINVAL)))"
| "read_locators_loop (Suc room) acc = vbind vhd_journal_position (\<lambda>pos. vbind vhd_journal_read_entry (\<lambda>entry.
     if je_type entry \<noteq> VHD_JOURNAL_ENTRY_TYPE_LOCATOR
     then vthen (vhd_journal_seek (case pos of None \<Rightarrow> - 1 | Some p \<Rightarrow> int p)) (vret acc)
     else vthen (on_vhd valloc_buf)
       (vbind (vhd_journal_read (unat (je_size entry))) (\<lambda>buf. read_locators_loop room (acc @ [buf])))))"

definition vhd_journal_read_locators :: "(vhd_journal, bytes list) vm" where
  "vhd_journal_read_locators = vthen (on_vhd (valloc (- ENOMEM))) (read_locators_loop 8 [])"

text \<open>The size and the offset expected are those of the header just read. The buffer is
  \<open>vhd->bat.bat\<close>, which is null again after an error of the read.\<close>

definition vhd_journal_read_bat :: "(vhd_journal, unit) vm" where
  "vhd_journal_read_bat = with_j (\<lambda>j.
     let h = ctx_header (j_ctx j);
         sz = vhd_bytes_padded (ucast (hdr_max_bat_size h) * 4)
     in vbind vhd_journal_read_entry (\<lambda>entry.
       if je_type entry \<noteq> VHD_JOURNAL_ENTRY_TYPE_BAT then vfail (- EINVAL)
       else if ucast (je_size entry) \<noteq> sz then vfail (- EINVAL)
       else if je_offset entry \<noteq> hdr_table_offset h then vfail (- EINVAL)
       else vthen (on_vhd valloc_buf)
         (vbind (vcatch (vhd_journal_read (unat (je_size entry)))
                   (\<lambda>err. vthen (vmodify (to_vhd (upd_ctx (\<lambda>c. c\<lparr>ctx_bat := (ctx_bat c)\<lparr>bat_bat := None\<rparr>\<rparr>))))
                            (vfail err))) (\<lambda>buf.
            vmodify (to_vhd (put_bat (vhd_bat_in
              \<lparr>bat_spb = drop_bit VHD_SECTOR_SHIFT (hdr_block_size h), bat_entries = hdr_max_bat_size h,
               bat_bat = Some (bat_of_bytes buf)\<rparr>)))))))"

definition vhd_journal_read_batmap_header :: "(vhd_journal, unit) vm" where
  "vhd_journal_read_batmap_header = vbind vhd_journal_read_entry (\<lambda>entry.
     if je_type entry \<noteq> VHD_JOURNAL_ENTRY_TYPE_BATMAP_H then vfail (- EINVAL)
     else if ucast (je_size entry) \<noteq> vhd_bytes_padded 32 then vfail (- EINVAL)
     else vthen (on_vhd (valloc ENOMEM))
       (vbind (vhd_journal_read (unat (je_size entry))) (\<lambda>buf.
          vthen (vmodify (to_vhd (put_batmap_header (bm_header (vhd_batmap_header_in
                   \<lparr>bm_header = bmh_of_bytes (field 0 32 buf), bm_map = None\<rparr>)))))
            (with_j (\<lambda>j. jstatus (vhd_validate_batmap_header (ctx_batmap (j_ctx j)))))))) "

definition put_map :: "bytes option \<Rightarrow> vhd_journal \<Rightarrow> vhd_journal" where
  "put_map m = to_vhd (upd_ctx (\<lambda>c. c\<lparr>ctx_batmap := (ctx_batmap c)\<lparr>bm_map := m\<rparr>\<rparr>))"

definition vhd_journal_read_batmap_map :: "(vhd_journal, unit) vm" where
  "vhd_journal_read_batmap_map = with_j (\<lambda>j. let h = bm_header (ctx_batmap (j_ctx j)) in
     vbind vhd_journal_read_entry (\<lambda>entry.
       if je_type entry \<noteq> VHD_JOURNAL_ENTRY_TYPE_BATMAP_M then vfail (- EINVAL)
       else if ucast (je_size entry) \<noteq> vhd_sectors_to_bytes (ucast (bmh_batmap_size h)) then vfail (- EINVAL)
       else if je_offset entry \<noteq> bmh_batmap_offset h then vfail (- EINVAL)
       else vthen (on_vhd valloc_buf)
         (vbind (vcatch (vhd_journal_read (unat (je_size entry)))
                   (\<lambda>err. vthen (vmodify (put_map None)) (vfail err)))
           (\<lambda>buf. vmodify (put_map (Some buf))))))"

text \<open>The checksum of the map is over the blocks in use; a shorter map is read beyond its end.\<close>

definition vhd_journal_read_batmap :: "(vhd_journal, unit) vm" where
  "vhd_journal_read_batmap = vthen vhd_journal_read_batmap_header
     (vthen vhd_journal_read_batmap_map (with_j (\<lambda>j.
        vthen (vdefined (batmap_readable (j_ctx j) (ctx_batmap (j_ctx j))))
          (vcatch (jstatus (vhd_validate_batmap (j_ctx j) (ctx_batmap (j_ctx j))))
             (\<lambda>err. vthen (vmodify (put_map None)) (vfail err))))))"

definition vhd_journal_restore_footer :: "hd_ftr \<Rightarrow> (vhd_journal, unit) vm" where
  "vhd_journal_restore_footer footer = with_j (\<lambda>j.
     on_vhd (vhd_write_footer_at footer (sint (jh_vhd_footer_offset (j_header j)))))"

definition vhd_journal_restore_footer_copy :: "hd_ftr \<Rightarrow> (vhd_journal, unit) vm" where
  "vhd_journal_restore_footer_copy footer = on_vhd (vhd_write_footer_at footer 0)"

definition vhd_journal_restore_header :: "dd_hdr \<Rightarrow> (vhd_journal, unit) vm" where
  "vhd_journal_restore_header header = with_j (\<lambda>j.
     on_vhd (vhd_write_header_at header (sint (ftr_data_offset (ctx_footer (j_ctx j))))))"

text \<open>The size written is the header's; the buffer has the size of the entry.\<close>

primrec restore_locators :: "prt_loc list \<Rightarrow> bytes list \<Rightarrow> (vhd_journal, unit) vm" where
  "restore_locators [] locators = vret ()"
| "restore_locators (loc # locs) locators =
     (case locators of [] \<Rightarrow> vret ()
      | buf # rest \<Rightarrow>
          if loc_code loc = PLAT_CODE_NONE then restore_locators locs locators
          else vthen (on_vhd (vhd_seek (sint (loc_data_offset loc)) SEEK_SET))
            (let sz = unat (vhd_parent_locator_size loc)
             in vthen (vdefined (sz \<le> length buf))
               (vthen (on_vhd (vhd_write (take sz buf))) (restore_locators locs rest))))"

definition vhd_journal_restore_locators :: "bytes list \<Rightarrow> (vhd_journal, unit) vm" where
  "vhd_journal_restore_locators locators = with_j (\<lambda>j.
     restore_locators (hdr_loc (ctx_header (j_ctx j))) locators)"

definition vhd_journal_restore_bat :: "vhd_bat \<Rightarrow> (vhd_journal, unit) vm" where
  "vhd_journal_restore_bat bat = on_vhd (vhd_write_bat bat)"

definition vhd_journal_restore_batmap :: "vhd_batmap \<Rightarrow> (vhd_journal, unit) vm" where
  "vhd_journal_restore_batmap batmap = on_vhd (vhd_write_batmap batmap)"

text \<open>What is read of a dynamic image before anything is written: the copy of the footer and the
  locators. \<open>None\<close>: an unknown platform code, for which the function returns 0.\<close>

definition restore_read :: "(vhd_journal, (hd_ftr \<times> bytes list) option) vm" where
  "restore_read = vbind vhd_journal_read_footer_copy (\<lambda>copy. vbind vhd_journal_read_header (\<lambda>h.
     if \<exists>loc \<in> set (hdr_loc h). vhd_validate_platform_code (loc_code loc) \<noteq> 0 then vret None
     else let hlocs = length (filter (\<lambda>loc. loc_code loc \<noteq> PLAT_CODE_NONE) (hdr_loc h))
       in vbind (if hlocs = 0 then vret []
                 else vbind vhd_journal_read_locators (\<lambda>locators.
                   if hlocs \<noteq> length locators then vfail (- EINVAL) else vret locators)) (\<lambda>locators.
            vthen vhd_journal_read_bat (vbind (on_vhd vhd_has_batmap) (\<lambda>hb.
              vthen (if hb then vhd_journal_read_batmap else vret ()) (vret (Some (copy, locators))))))))"

text \<open>The journal's offset must have reached the data.\<close>

definition restore_check :: "(vhd_journal, unit) vm" where
  "restore_check = vbind vhd_journal_position (\<lambda>off j.
     case off of None \<Rightarrow> (Inl (Errno (- get_errno (j_vhd j))), j)
     | Some off \<Rightarrow> if jh_journal_data_offset (j_header j) \<noteq> of_nat off then (Inl (Errno (- EINVAL)), j)
                   else (Inr (), j))"

definition restore_write :: "hd_ftr \<Rightarrow> bytes list \<Rightarrow> (vhd_journal, unit) vm" where
  "restore_write copy locators =
     vthen (vhd_journal_restore_footer_copy copy)
       (vthen (with_j (\<lambda>j. vhd_journal_restore_header (ctx_header (j_ctx j))))
         (vthen (if locators = [] then vret () else vhd_journal_restore_locators locators)
           (vthen (with_j (\<lambda>j. vhd_journal_restore_bat (ctx_bat (j_ctx j))))
             (vbind (on_vhd vhd_has_batmap) (\<lambda>hb.
                if hb then with_j (\<lambda>j. vhd_journal_restore_batmap (ctx_batmap (j_ctx j))) else vret ())))))"

text \<open>The file is cut behind the footer; the status of \<open>ftruncate\<close>, -1, is what is returned.\<close>

definition restore_truncate :: "(vhd_journal, unit) vm" where
  "restore_truncate = with_j (\<lambda>j.
     if ctx_is_block (j_ctx j) then vret ()
     else on_vhd (\<lambda>s. case ftruncate (sint (jh_vhd_footer_offset (j_header j) + 512)) s of (r, s) \<Rightarrow>
       (if r = 0 then Inr () else Inl (Errno r), s)))"

definition vhd_journal_restore_metadata :: "(vhd_journal, unit) vm" where
  "vhd_journal_restore_metadata = vthen (vhd_journal_seek 512) (vthen vhd_journal_read_footer (with_j (\<lambda>j.
     if \<not> vhd_type_dynamic (j_ctx j)
     then vthen restore_check (vthen (with_j (\<lambda>j. vhd_journal_restore_footer (ctx_footer (j_ctx j)))) restore_truncate)
     else vbind restore_read (\<lambda>r. case r of None \<Rightarrow> vret ()
       | Some (copy, locators) \<Rightarrow>
           vthen restore_check
             (vthen (with_j (\<lambda>j. vhd_journal_restore_footer (ctx_footer (j_ctx j))))
               (vthen (restore_write copy locators) restore_truncate))))))"

section \<open>Opening, creating and using a journal\<close>

definition vhd_journal_disable_vhd :: "(vhd_journal, unit) vm" where
  "vhd_journal_disable_vhd = on_vhd (vthen vhd_get_footer (with_ctx (\<lambda>ctx.
     let f = (ctx_footer ctx)\<lparr>ftr_cookie := VHD_POISON_COOKIE\<rparr>;
         f = f\<lparr>ftr_checksum := vhd_checksum_footer f\<rparr>
     in vthen (vmodify (put_footer f)) (vhd_write_footer f))))"

definition vhd_journal_enable_vhd :: "(vhd_journal, unit) vm" where
  "vhd_journal_enable_vhd = on_vhd (vthen vhd_get_footer (with_ctx (\<lambda>ctx.
     if \<not> vhd_disabled ctx then vret ()
     else let f = (ctx_footer ctx)\<lparr>ftr_cookie := HD_COOKIE\<rparr>;
              f = f\<lparr>ftr_checksum := vhd_checksum_footer f\<rparr>
       in vthen (vmodify (put_footer f)) (vhd_write_footer f))))"

definition vhd_journal_close :: "(vhd_journal, unit) vm" where
  "vhd_journal_close = on_vhd vhd_close"

definition unlink_journal :: "vhd_journal \<Rightarrow> vhd_journal" where
  "unlink_journal j = (if j_is_block j then j
     else j\<lparr>j_vhd := (j_vhd j)\<lparr>st_sys := (st_sys (j_vhd j))\<lparr>sys_files :=
       (sys_files (st_sys (j_vhd j)))(j_jname j := None)\<rparr>\<rparr>\<rparr>)"

definition vhd_journal_remove :: "(vhd_journal, unit) vm" where
  "vhd_journal_remove = vthen vhd_journal_enable_vhd (vthen (vmodify unlink_journal) (on_vhd vhd_close))"

text \<open>\<open>memset(j, 0, sizeof(vhd_journal_t))\<close>, the file system being kept.\<close>

definition journal_reset :: "vhd_journal \<Rightarrow> vhd_journal" where
  "journal_reset j = j\<lparr>j_jname := [], j_pos := 0, j_is_block := False, j_header := jh_zero,
     j_vhd := reset_ctx (j_vhd j)\<rparr>"

definition put_name :: "string \<Rightarrow> vhd_journal \<Rightarrow> vhd_journal" where
  "put_name name j = j\<lparr>j_jname := name\<rparr>"

definition get_bat_and_batmap :: "(vst, unit) vm" where
  "get_bat_and_batmap = vthen vhd_get_bat
     (vbind vhd_has_batmap (\<lambda>hb. if hb then vhd_get_batmap else vret ()))"

definition set_is_block :: "string \<Rightarrow> (vst, unit) vm" where
  "set_is_block file = vbind (vhd_test_file_fixed file) (\<lambda>blk.
     vmodify (upd_ctx (\<lambda>c. c\<lparr>ctx_is_block := blk\<rparr>)))"

definition vhd_journal_open :: "libc \<Rightarrow> nat \<Rightarrow> string \<Rightarrow> string \<Rightarrow> (vhd_journal, unit) vm" where
  "vhd_journal_open lc fuel file jfile =
     vthen (vmodify journal_reset) (vthen (on_vhd (valloc (- ENOMEM))) (vthen (vmodify (put_name jfile))
       (vcatch
         (vthen (on_jfd (open_call jfile))
           (vbind (on_vhd (vhd_test_file_fixed jfile)) (\<lambda>blk.
             vthen (vmodify (\<lambda>j. j\<lparr>j_is_block := blk\<rparr>))
               (vthen (on_vhd (vthen (open_call file) (set_is_block file)))
                 (vthen vhd_journal_read_journal_header
                   (vthen vhd_journal_restore_metadata
                     (vthen (on_vhd (vthen (vhd_open lc fuel file VHD_OPEN_RDWR) get_bat_and_batmap))
                       vhd_journal_disable_vhd)))))))
         (\<lambda>err. vthen vhd_journal_close (vfail err)))))"

text \<open>\<open>access(name, F_OK)\<close>\<close>

definition file_exists :: "string \<Rightarrow> (vst, bool) vm" where
  "file_exists name = (\<lambda>s. case stat_call name s of (r, s) \<Rightarrow> (Inr (r \<noteq> None), s))"

text \<open>After \<open>fail1\<close> the journal is cleared, and unlinked if it was opened; after \<open>fail2\<close> the image is
  enabled again, and nothing more is done if that fails.\<close>

definition create_journal_body :: "(vhd_journal, unit) vm" where
  "create_journal_body =
     vthen (on_vhd get_bat_and_batmap)
       (vthen vhd_journal_add_journal_header
         (vthen vhd_journal_add_metadata
           (vthen vhd_journal_disable_vhd vhd_journal_sync)))"

definition vhd_journal_create :: "libc \<Rightarrow> nat \<Rightarrow> string \<Rightarrow> string \<Rightarrow> (vhd_journal, unit) vm" where
  "vhd_journal_create lc fuel file jfile =
     vthen (vmodify journal_reset)
       (vthen
         (vcatch
           (vthen (on_vhd (valloc (- ENOMEM))) (vthen (vmodify (put_name jfile))
             (vbind (on_vhd (file_exists jfile)) (\<lambda>there.
               vthen
                 (if \<not> there then vret ()
                  else vbind (on_vhd (vhd_test_file_fixed jfile)) (\<lambda>blk.
                    vthen (vmodify (\<lambda>j. j\<lparr>j_is_block := blk\<rparr>)) (if blk then vret () else vfail (- EEXIST))))
                 (vthen (with_j (\<lambda>j. on_jfd (if j_is_block j then open_call jfile else creat_call jfile)))
                   (vcatch (on_vhd (vhd_open lc fuel file (VHD_OPEN_RDWR OR VHD_OPEN_STRICT)))
                     (\<lambda>err. vthen (vmodify unlink_journal) (vfail err))))))))
           (\<lambda>err. vthen (vmodify journal_reset) (vfail err)))
         (vcatch create_journal_body
           (\<lambda>err. vthen (vcatch vhd_journal_remove (\<lambda>_. vret ())) (vfail err))))"

definition vhd_journal_add_block :: "u32 \<Rightarrow> u8 \<Rightarrow> (vhd_journal, unit) vm" where
  "vhd_journal_add_block block mode = with_j (\<lambda>j.
     if \<not> vhd_type_dynamic (j_ctx j) then vfail (- EINVAL)
     else vthen (on_vhd vhd_get_bat) (with_j (\<lambda>j.
       if block \<ge> bat_entries (ctx_bat (j_ctx j)) then vfail (- ERANGE)
       else vbind (on_vhd (bat_entry (unat block))) (\<lambda>blk.
         if blk = DD_BLK_UNUSED then vret ()
         else let off = vhd_sectors_to_bytes (ucast blk); c = j_ctx j
           in vthen
                (if mode AND VHD_JOURNAL_METADATA = 0 then vret ()
                 else vbind (on_vhd (vhd_read_bitmap block)) (\<lambda>buf.
                   let sz = unat (vhd_sectors_to_bytes (ucast (ctx_bm_secs c)))
                   in vthen (vdefined (sz \<le> length buf))
                     (vhd_journal_update off (take sz buf) VHD_JOURNAL_ENTRY_TYPE_DATA)))
                (vthen
                  (if mode AND VHD_JOURNAL_DATA = 0 then vret ()
                   else vbind (on_vhd (vhd_read_block block)) (\<lambda>buf.
                     let sz = unat (vhd_sectors_to_bytes (ucast (ctx_spb c)))
                     in vthen (vdefined (sz \<le> length buf))
                       (vhd_journal_update (off + vhd_sectors_to_bytes (ucast (ctx_bm_secs c))) (take sz buf)
                          VHD_JOURNAL_ENTRY_TYPE_DATA)))
                  vhd_journal_sync)))))"

text \<open>\<open>journal_eof\<close> is not reset. When the journal is cut the error returned is \<open>-errno\<close>.\<close>

definition vhd_journal_commit :: "(vhd_journal, unit) vm" where
  "vhd_journal_commit =
     vthen (vmodify (upd_header (\<lambda>h. h\<lparr>jh_journal_data_entries := 0, jh_journal_metadata_entries := 0,
              jh_journal_data_offset := 0, jh_journal_metadata_offset := 0\<rparr>)))
       (vthen (with_j (\<lambda>j. vhd_journal_write_header (j_header j)))
         (with_j (\<lambda>j. if j_is_block j then vret () else vhd_journal_truncate 512)))"

text \<open>One entry is played back.\<close>

definition revert_entry :: "(vhd_journal, unit) vm" where
  "revert_entry = vbind vhd_journal_read_entry (\<lambda>entry.
     vthen (on_vhd valloc_buf)
       (vbind (vhd_journal_read (unat (je_size entry))) (\<lambda>buf.
          vthen (jstatus (vhd_journal_validate_entry_data entry buf))
            (on_vhd (vthen (vhd_seek (sint (je_offset entry)) SEEK_SET) (vhd_write buf))))))"

definition vhd_journal_revert :: "libc \<Rightarrow> nat \<Rightarrow> (vhd_journal, unit) vm" where
  "vhd_journal_revert lc fuel = with_j (\<lambda>j. let name = ctx_file (j_ctx j) in
     vthen (on_vhd (vthen (valloc (- ENOMEM)) (vthen vhd_close (vthen (open_call name) (set_is_block name)))))
       (vthen vhd_journal_restore_metadata
         (vthen (on_vhd (vhd_open lc fuel name VHD_OPEN_RDWR))
           (with_j (\<lambda>j.
             vthen (vhd_journal_seek (sint (jh_journal_data_offset (j_header j))))
               (vthen (vfor [0..<unat (jh_journal_data_entries (j_header j))] (\<lambda>_. revert_entry))
                 (vthen
                   (with_j (\<lambda>j. if ctx_is_block (j_ctx j) then vret ()
                      else on_vhd (\<lambda>s. case ftruncate (sint (jh_vhd_footer_offset (j_header j) + 512)) s of (r, s) \<Rightarrow>
                        (if r = 0 then Inr () else Inl (Errno (- get_errno s)), s))))
                   vhd_journal_sync)))))))"

end
