(* ===== verification/Vhd_Journal_Laws.thy ===== *)
theory Vhd_Journal_Laws
  imports Vhd_Journal Vhd_Image
begin

text \<open>
  The journal as a log. \<open>jnf p jf q f j\<close> is the state \<open>j\<close> with the contents \<open>jf\<close> of the journal, its
  offset \<open>p\<close>, the contents \<open>f\<close> of the image and its offset \<open>q\<close>; on an undisturbed system every
  operation leads from such a state to another. \<open>jinv\<close> says that the journal's file is the encoding
  of its header and of a list of entries, and \<open>update_ok\<close> that \<open>vhd_journal_update\<close> appends one.
\<close>

section \<open>Layouts\<close>

definition jh_wf :: "vhd_journal_header \<Rightarrow> bool" where
  "jh_wf h \<longleftrightarrow> length (jh_cookie h) = 8 \<and> length (jh_uuid h) = 16 \<and> length (jh_pad h) = 448"

interpretation jh_codec: byte_codec 512 jh_bytes jh_of_bytes jh_wf
proof unfold_locales
  fix h :: vhd_journal_header
  assume wf: "jh_wf h"
  then show "length (jh_bytes h) = 512" by (simp add: jh_bytes_def jh_wf_def)
  show "jh_of_bytes (jh_bytes h) = h"
    using wf by (cases h) (simp add: jh_of_bytes_def jh_bytes_def jh_wf_def field_simps_layout le_word_le_bytes)
next
  fix bs :: bytes
  assume "length bs = 512"
  then show "jh_bytes (jh_of_bytes bs) = bs" and "jh_wf (jh_of_bytes bs)"
    by (simp_all add: jh_bytes_def jh_of_bytes_def jh_wf_def le_bytes_field length_field
        field_to_end [of _ 64 448] field_then_drop)
qed

definition je_wf :: "vhd_journal_entry \<Rightarrow> bool" where
  "je_wf e \<longleftrightarrow> length (je_padding e) = 4"

interpretation je_codec: byte_codec 32 je_bytes je_of_bytes je_wf
proof unfold_locales
  fix e :: vhd_journal_entry
  assume wf: "je_wf e"
  then show "length (je_bytes e) = 32" by (simp add: je_bytes_def je_wf_def)
  show "je_of_bytes (je_bytes e) = e"
    using wf by (cases e) (simp add: je_of_bytes_def je_bytes_def je_wf_def field_simps_layout le_word_le_bytes)
next
  fix bs :: bytes
  assume "length bs = 32"
  then show "je_bytes (je_of_bytes bs) = bs" and "je_wf (je_of_bytes bs)"
    by (simp_all add: je_bytes_def je_of_bytes_def je_wf_def le_bytes_field length_field
        field_to_end [of _ 28 4] field_then_drop)
qed

lemma journal_header_in_out [simp]:
  "vhd_journal_header_in (vhd_journal_header_out h) = h" "jh_wf (vhd_journal_header_out h) = jh_wf h"
  by (cases h; simp add: vhd_journal_header_in_def vhd_journal_header_out_def jh_wf_def)+

lemma journal_entry_in_out [simp]:
  "vhd_journal_entry_in (vhd_journal_entry_out e) = e" "je_wf (vhd_journal_entry_out e) = je_wf e"
  by (cases e; simp add: vhd_journal_entry_in_def vhd_journal_entry_out_def je_wf_def)+

section \<open>The transfer loop\<close>

lemma io_step_events: "io_step d buf pos n s = (r, b, t) \<Longrightarrow> events t = events s - 1"
  by (auto simp: io_step_def dest: pio_step_events split: prod.splits if_splits)

lemma regular_pos [simp]: "regular (s\<lparr>st_pos := p\<rparr>) = regular s" "cur_file (s\<lparr>st_pos := p\<rparr>) = cur_file s"
  by (simp_all add: regular_def cur_file_def)

lemma pio_step_read_full:
  assumes "pio_step Pread buf pos n off s = (r, b, t)" and "sys_sched (st_sys s) = []" and "r \<noteq> - 1"
  shows "t = s \<and> (\<exists>f. cur_file s = Some f \<and> r = int (min (n - pos) (f_size f - nat (off + int pos))))"
  using assms by (auto simp: pio_step_def pread_call_def take_ev_def Let_def split: prod.splits option.splits if_splits)

lemma pio_step_write_full:
  assumes "pio_step Pwrite buf pos n off s = (r, b, t)" and "sys_sched (st_sys s) = []" and "r \<noteq> - 1"
    and "length buf = n" and "regular s"
  shows "pos + nat r = max pos n"
  using assms
  by (auto simp: pio_step_def pwrite_call_def take_ev_def Let_def regular_def split: prod.splits option.splits if_splits)

text \<open>With the schedule used up, at most two more calls are made on a regular file: one that
  transfers all there is and one that finds the end of the file.\<close>

lemma atomicio_loop_exhausted:
  assumes "sys_sched (st_sys s) = []" and "length buf = n" and "pos \<le> n" and "regular s"
    and "d = Pread \<Longrightarrow> \<exists>f. cur_file s = Some f \<and> f_size f \<le> st_pos s"
  shows "atomicio_loop (Suc (Suc k)) d n pos buf s \<noteq> None"
proof (cases "n \<le> pos")
  case False
  obtain r b t where st: "io_step d buf pos n s = (r, b, t)" by (cases "io_step d buf pos n s")
  then obtain t' where ps: "pio_step d buf pos n (int (st_pos s) - int pos) s = (r, b, t')"
    and t: "t = (if r > 0 then t'\<lparr>st_pos := st_pos s + nat r\<rparr> else t')"
    by (auto simp: io_step_def split: prod.splits)
  have reg: "regular t'" "length b = n" "r \<noteq> - 1 \<longrightarrow> 0 \<le> r \<and> pos + nat r \<le> n"
    using pio_step_regular [OF ps assms(2,3,4)] by simp_all
  show ?thesis
  proof (cases "r = - 1")
    case True
    have "get_errno t' \<noteq> EINTR \<and> get_errno t' \<noteq> EAGAIN"
      using pio_step_exhausted [OF ps assms(1-4)] True by auto
    then show ?thesis using False st True t by simp
  next
    case nf: False
    show ?thesis
    proof (cases d)
      case Pread
      with assms(5) obtain f where f: "cur_file s = Some f" "f_size f \<le> st_pos s" by blast
      have "r = 0" using pio_step_read_full [OF ps [unfolded Pread] assms(1) nf] f by auto
      then show ?thesis using False st by simp
    next
      case Pwrite
      have "pos + nat r = n"
        using pio_step_write_full [OF ps [unfolded Pwrite] assms(1) nf assms(2,4)] False by simp
      then show ?thesis using False st nf by simp
    qed
  qed
qed simp

lemma atomicio_loop_enough:
  assumes "events s + 3 \<le> k" and "length buf = n" and "pos \<le> n" and "regular s"
  shows "atomicio_loop k d n pos buf s \<noteq> None"
  using assms
proof (induction k arbitrary: pos buf s)
  case (Suc k)
  show ?case
  proof (cases "n \<le> pos")
    case False
    obtain r b t where st: "io_step d buf pos n s = (r, b, t)" by (cases "io_step d buf pos n s")
    then obtain t' where ps: "pio_step d buf pos n (int (st_pos s) - int pos) s = (r, b, t')"
      and t: "t = (if r > 0 then t'\<lparr>st_pos := st_pos s + nat r\<rparr> else t')"
      by (auto simp: io_step_def split: prod.splits)
    have reg: "regular t" "length b = n" "r \<noteq> - 1 \<longrightarrow> 0 \<le> r \<and> pos + nat r \<le> n"
      using pio_step_regular [OF ps Suc.prems(2,3,4)] t by simp_all
    have ev: "events t = events s - 1" by (rule io_step_events [OF st])
    show ?thesis
    proof (cases "events s = 0")
      case True
      then have sch: "sys_sched (st_sys s) = []" by simp
      obtain k' where k: "k = Suc (Suc k')" using Suc.prems(1) by (metis add_2_eq_Suc' add_leD2 Suc_le_mono le_Suc_ex numeral_3_eq_3 add_Suc_right add_Suc)
      show ?thesis
      proof (cases "r = - 1")
        case True
        have "get_errno t' \<noteq> EINTR \<and> get_errno t' \<noteq> EAGAIN"
          using pio_step_exhausted [OF ps sch Suc.prems(2-4)] True by auto
        then show ?thesis using False st True t by simp
      next
        case nf: False
        have "pos + nat r = n \<or> r = 0 \<or> (d = Pread \<and> (\<exists>f. cur_file t = Some f \<and> f_size f \<le> st_pos t))"
        proof (cases d)
          case Pread
          with pio_step_read_full [OF ps [unfolded Pread] sch nf] obtain f where
            f: "t' = s" "cur_file s = Some f" "r = int (min (n - pos) (f_size f - st_pos s))" by auto
          then show ?thesis using False Pread t by (cases "n - pos \<le> f_size f - st_pos s") (auto simp: min_def)
        next
          case Pwrite
          have "pos + nat r = n"
            using pio_step_write_full [OF ps [unfolded Pwrite] sch nf Suc.prems(2,4)] False by simp
          then show ?thesis by simp
        qed
        moreover have "sys_sched (st_sys t) = []" using ev sch by simp
        ultimately have "r \<noteq> 0 \<Longrightarrow> atomicio_loop k d n (pos + nat r) b t \<noteq> None"
          using atomicio_loop_exhausted [of t b n "pos + nat r" d k'] reg nf unfolding k by fastforce
        then show ?thesis using False st nf by auto
      qed
    next
      case False': False
      have "atomicio_loop k d n pos b t \<noteq> None" "r \<noteq> - 1 \<Longrightarrow> atomicio_loop k d n (pos + nat r) b t \<noteq> None"
        using Suc.IH [of t b pos] Suc.IH [of t b "pos + nat r"] Suc.prems reg ev False' by linarith+
      then show ?thesis using False st by (cases "n \<le> pos") (auto simp: get_errno_def)
    qed
  qed simp
qed simp

lemma atomicio_returns:
  "regular s \<Longrightarrow> length buf = n \<Longrightarrow> fst (atomicio d buf n s) \<noteq> Inl Hang"
  using atomicio_loop_enough [of s "events s + 3" buf n 0 d]
  by (auto simp: atomicio_def split: option.splits)

section \<open>States of an undisturbed run\<close>

definition jw :: "vhd_journal \<Rightarrow> bool" where
  "jw j \<longleftrightarrow> quiet (j_vhd j) \<and> j_jname j \<noteq> ctx_file (j_ctx j) \<and> \<not> j_is_block j"

definition jnf :: "nat \<Rightarrow> vfile \<Rightarrow> nat \<Rightarrow> vfile \<Rightarrow> vhd_journal \<Rightarrow> vhd_journal" where
  "jnf p jf q f j = j\<lparr>j_pos := p, j_vhd := (j_vhd j)\<lparr>st_pos := q, st_sys := (st_sys (j_vhd j))\<lparr>
     sys_files := (sys_files (st_sys (j_vhd j)))(j_jname j \<mapsto> jf, ctx_file (j_ctx j) \<mapsto> f), sys_errno := 0\<rparr>\<rparr>\<rparr>"

lemma jnf_simps [simp]:
  "j_pos (jnf p jf q f j) = p" "j_jname (jnf p jf q f j) = j_jname j" "j_header (jnf p jf q f j) = j_header j"
  "j_junk (jnf p jf q f j) = j_junk j" "j_is_block (jnf p jf q f j) = j_is_block j"
  "j_ctx (jnf p jf q f j) = j_ctx j" "st_pos (j_vhd (jnf p jf q f j)) = q" "jw (jnf p jf q f j) = jw j"
  "cur_file (j_vhd (jnf p jf q f j)) = Some f" "quiet (j_vhd (jnf p jf q f j)) = quiet (j_vhd j)"
  "jnf p jf q f (jnf p' jf' q' f' j) = jnf p jf q f j"
  by (simp_all add: jnf_def jw_def quiet_def cur_file_def fun_upd_twist)

lemma jnf_cong_base:
  assumes "j_jname j = j_jname k" "j_header j = j_header k" "j_is_block j = j_is_block k" "j_junk j = j_junk k"
    and "j_ctx j = j_ctx k" "st_parents (j_vhd j) = st_parents (j_vhd k)"
    and "sys_sched (st_sys (j_vhd j)) = sys_sched (st_sys (j_vhd k))"
    and "sys_mem (st_sys (j_vhd j)) = sys_mem (st_sys (j_vhd k))"
    and "sys_files (st_sys (j_vhd j)) = sys_files (st_sys (j_vhd k))"
  shows "jnf p jf q f j = jnf p jf q f k"
  using assms by (simp add: jnf_def)

text \<open>Changes of the header, of the memory and of the context commute with the normal form.\<close>

lemma jnf_upd:
  "upd_header g (jnf p jf q f j) = jnf p jf q f (upd_header g j)"
  "(jnf p jf q f j)\<lparr>j_junk := m\<rparr> = jnf p jf q f (j\<lparr>j_junk := m\<rparr>)"
  "jw (upd_header g j) = jw j" "jw (j\<lparr>j_junk := m\<rparr>) = jw j"
  by (simp_all add: upd_header_def jnf_def jw_def)

lemma upd_header_simps [simp]:
  "j_header (upd_header g j) = g (j_header j)" "j_vhd (upd_header g j) = j_vhd j"
  "j_junk (upd_header g j) = j_junk j" "j_jname (upd_header g j) = j_jname j"
  "j_is_block (upd_header g j) = j_is_block j"
  by (simp_all add: upd_header_def)

lemma jw_quiet: "jw j \<Longrightarrow> quiet (j_vhd j)"
  by (simp add: jw_def)

lemma quiet_jfd [simp]: "quiet (jfd_state j) = quiet (j_vhd j)"
  by (simp add: jfd_state_def quiet_def)

lemma cur_jfd: "jw j \<Longrightarrow> cur_file (jfd_state (jnf p jf q f j)) = Some jf"
  by (simp add: jfd_state_def cur_file_def jnf_def jw_def)

lemma st_pos_jfd [simp]: "st_pos (jfd_state j) = j_pos j"
  by (simp add: jfd_state_def)

text \<open>What a change of the journal's file, and one of the image, comes to.\<close>

lemma on_jfd_nf:
  assumes "m (jfd_state (jnf p jf q f j)) = (r, st_with p' jf' (jfd_state (jnf p jf q f j)))" and "jw j"
  shows "on_jfd m (jnf p jf q f j) = (r, jnf p' jf' q f j)"
  using assms
  by (simp add: on_jfd_def) (auto simp: jnf_def st_with_def at_pos_def set_cur_file_def set_errno_def jfd_state_def
      jw_def fun_eq_iff)

lemma on_vhd_nf:
  assumes "m (j_vhd (jnf p jf q f j)) = (r, st_with q' f' (j_vhd (jnf p jf q f j)))"
  shows "on_vhd m (jnf p jf q f j) = (r, jnf p jf q' f' j)"
  using assms
  by (simp add: on_vhd_def) (auto simp: jnf_def st_with_def at_pos_def set_cur_file_def set_errno_def)

lemma jfd_self: "jw j \<Longrightarrow> st_with p' jf (jfd_state (jnf p jf q f j)) = at_pos p' (jfd_state (jnf p jf q f j))"
  using cur_jfd [of j p jf q f]
  by (simp add: st_with_def at_pos_def set_cur_file_def set_errno_def cur_file_def fun_upd_idem)
    (simp add: jfd_state_def jnf_def)

lemma vhd_self: "st_with q' f (j_vhd (jnf p jf q f j)) = at_pos q' (j_vhd (jnf p jf q f j))"
  using jnf_simps(9) [of p jf q f j]
  by (simp add: st_with_def at_pos_def set_cur_file_def set_errno_def cur_file_def fun_upd_idem)
    (simp add: jnf_def)

lemma errno_jfd: "set_errno 0 (jfd_state (jnf p jf q f j)) = jfd_state (jnf p jf q f j)"
  by (simp add: set_errno_def jfd_state_def jnf_def)

lemma j_seek: "jw j \<Longrightarrow> 0 \<le> off \<Longrightarrow> vhd_journal_seek off (jnf p jf q f j) = (Inr (), jnf (nat off) jf q f j)"
  unfolding vhd_journal_seek_def
  by (intro on_jfd_nf) (simp_all add: jfd_self seek_quiet cur_jfd jw_quiet)

lemma j_position: "jw j \<Longrightarrow> vhd_journal_position (jnf p jf q f j) = (Inr (Some p), jnf p jf q f j)"
  unfolding vhd_journal_position_def
  by (intro on_jfd_nf) (simp_all add: jfd_self vhd_position_quiet [OF _ cur_jfd] jw_quiet at_pos_def)

lemma v_seek: "jw j \<Longrightarrow> 0 \<le> off \<Longrightarrow> on_vhd (vhd_seek off SEEK_SET) (jnf p jf q f j) = (Inr (), jnf p jf (nat off) f j)"
  by (intro on_vhd_nf) (simp add: vhd_self seek_quiet jw_quiet)

lemma v_seek_end: "jw j \<Longrightarrow> on_vhd (vhd_seek 0 SEEK_END) (jnf p jf q f j) = (Inr (), jnf p jf (f_size f) f j)"
  by (intro on_vhd_nf) (simp add: vhd_self vhd_seek_quiet jw_quiet)

lemma v_position: "jw j \<Longrightarrow> on_vhd vhd_position (jnf p jf q f j) = (Inr (Some q), jnf p jf q f j)"
  by (intro on_vhd_nf) (simp add: vhd_self vhd_position_quiet jw_quiet at_pos_def)

lemma v_alloc: "jw j \<Longrightarrow> on_vhd (valloc e) (jnf p jf q f j) = (Inr (), jnf p jf q f j)"
  by (intro on_vhd_nf) (simp add: vhd_self valloc_quiet jw_quiet at_pos_def)

lemma atomicio_read_quiet:
  assumes "quiet s" and "cur_file s = Some f" and "st_pos s + n \<le> f_size f" and "0 < n" and "length buf = n"
  shows "atomicio Pread buf n s = (Inr (n, file_read f (st_pos s) n), at_pos (st_pos s + n) s)"
proof -
  have "io_step Pread buf 0 n s = (int n, file_read f (st_pos s) n, at_pos (st_pos s + n) s)"
    using assms by (simp add: io_step_def pio_step_def pread_call_quiet [where f = f] overlay_all file_read_def at_pos_def)
  then show ?thesis using assms(1,4) by (simp add: atomicio_def quiet_def numeral_3_eq_3)
qed

lemma atomicio_write_quiet:
  assumes "quiet s" and "cur_file s = Some f" and "bs \<noteq> []" and "\<not> f_blk f"
  shows "atomicio Pwrite bs (length bs) s = (Inr (length bs, bs), at_pos (st_pos s + length bs)
    (set_cur_file (file_write f (st_pos s) bs) s))"
proof -
  have "io_step Pwrite bs 0 (length bs) s = (int (length bs), bs, at_pos (st_pos s + length bs)
      (set_cur_file (file_write f (st_pos s) bs) s))"
    using assms by (simp add: io_step_def pio_step_def pwrite_call_def quiet_def take_ev_def Let_def at_pos_def)
  then show ?thesis using assms(1,3) by (simp add: atomicio_def quiet_def numeral_3_eq_3)
qed

lemma j_read_buf:
  assumes "jw j" and "p + n \<le> f_size jf" and "0 < n" and "length buf = n"
  shows "vhd_journal_read_buf buf n (jnf p jf q f j) = (Inr (0, file_read jf p n), jnf (p + n) jf q f j)"
  unfolding vhd_journal_read_buf_def
proof (rule on_jfd_nf)
  let ?s = "jfd_state (jnf p jf q f j)"
  have "atomicio Pread buf n ?s = (Inr (n, file_read jf p n), at_pos (p + n) ?s)"
    using atomicio_read_quiet [of ?s jf n buf] assms by (simp add: cur_jfd jw_quiet)
  then show "vthen (vmodify (set_errno 0)) (vbind (atomicio Pread buf n)
      (\<lambda>(ret, buf) s. (Inr (if ret = n then 0 else io_error s, buf), s))) ?s =
    (Inr (0, file_read jf p n), st_with (p + n) jf ?s)"
    using assms by (simp add: vbind_def vmodify_def errno_jfd jfd_self)
qed (rule assms)

lemma j_read:
  assumes "jw j" and "p + n \<le> f_size jf" and "0 < n"
  shows "vhd_journal_read n (jnf p jf q f j) = (Inr (file_read jf p n), jnf (p + n) jf q f j)"
  using assms by (simp add: vhd_journal_read_def vbind_def j_read_buf vret_def)

lemma j_write:
  assumes "jw j" and "bs \<noteq> []" and "\<not> f_blk jf"
  shows "vhd_journal_write bs (jnf p jf q f j) = (Inr (), jnf (p + length bs) (file_write jf p bs) q f j)"
  unfolding vhd_journal_write_def
proof (rule on_jfd_nf)
  let ?s = "jfd_state (jnf p jf q f j)"
  have "atomicio Pwrite bs (length bs) ?s = (Inr (length bs, bs), at_pos (p + length bs) (set_cur_file (file_write jf p bs) ?s))"
    using atomicio_write_quiet [of ?s jf bs] assms by (simp add: cur_jfd jw_quiet)
  then show "vthen (vmodify (set_errno 0)) (vbind (atomicio Pwrite bs (length bs)) (\<lambda>(ret, _) s.
        (if ret = length bs then Inr () else Inl (Errno (io_error s)), s))) ?s =
    (Inr (), st_with (p + length bs) (file_write jf p bs) ?s)"
    by (simp add: vbind_def vmodify_def errno_jfd) (simp add: st_with_def errno_jfd flip: set_cur_file_commute)
qed (rule assms)

lemma take_ev_quiet: "quiet s \<Longrightarrow> take_ev s = (Full, s)"
  by (simp add: take_ev_def quiet_def)

lemma j_sync: "jw j \<Longrightarrow> vhd_journal_sync (jnf p jf q f j) = (Inr (), jnf p jf q f j)"
  unfolding vhd_journal_sync_def
  by (intro on_jfd_nf) (simp_all add: jfd_self take_ev_quiet jw_quiet at_pos_def)

section \<open>The contents of the journal\<close>

definition holds :: "vfile \<Rightarrow> nat \<Rightarrow> bytes \<Rightarrow> bool" where
  "holds f p bs \<longleftrightarrow> p + length bs \<le> f_size f \<and> file_read f p (length bs) = bs"

lemma file_read_append: "file_read f p (m + n) = file_read f p m @ file_read f (p + m) n"
proof -
  have "[p..<p + (m + n)] = [p..<p + m] @ [p + m..<p + m + n]"
    using upt_add_eq_append [of p "p + m" n] by (simp add: add.assoc)
  then show ?thesis by (simp add: file_read_def add.assoc)
qed

lemma holds_append: "holds f p (xs @ ys) \<longleftrightarrow> holds f p xs \<and> holds f (p + length xs) ys"
  by (auto simp: holds_def file_read_append)

lemma holds_Nil [simp]: "holds f p [] \<longleftrightarrow> p \<le> f_size f"
  by (simp add: holds_def file_read_def)

lemma holds_read: "holds f p bs \<Longrightarrow> length bs = n \<Longrightarrow> file_read f p n = bs"
  by (auto simp: holds_def)

lemma size_file_write: "\<not> f_blk f \<Longrightarrow> f_size (file_write f off bs) = max (f_size f) (off + length bs)"
  "f_blk (file_write f off bs) = f_blk f"
  by (simp_all add: file_write_def)

lemma holds_write: "\<not> f_blk f \<Longrightarrow> holds (file_write f off bs) off bs"
  by (simp add: holds_def size_file_write file_read_write_same)

lemma holds_write_disjoint:
  assumes "holds f p xs" and "p + length xs \<le> off \<or> off + length bs \<le> p"
  shows "holds (file_write f off bs) p xs"
proof -
  have "f_size f \<le> f_size (file_write f off bs)" by (simp add: file_write_def)
  moreover have "file_read (file_write f off bs) p (length xs) = file_read f p (length xs)"
    using assms by (intro file_read_write_disjoint) (auto simp: holds_def)
  ultimately show ?thesis using assms(1) by (simp add: holds_def)
qed

text \<open>An entry of the log: its type, the place of the data in the image, the data, and the bytes of
  padding it happened to get.\<close>

datatype jitem = Item (it_type: u32) (it_off: u64) (it_data: bytes) (it_pad: bytes)

definition entry_of :: "jitem \<Rightarrow> vhd_journal_entry" where
  "entry_of it =
     (let e = \<lparr>je_cookie = VHD_JOURNAL_ENTRY_COOKIE, je_type = it_type it, je_size = of_nat (length (it_data it)),
            je_offset = it_off it, je_checksum = 0, je_padding = it_pad it\<rparr>
      in e\<lparr>je_checksum := vhd_journal_checksum_entry e (it_data it)\<rparr>)"

definition item_bytes :: "jitem \<Rightarrow> bytes" where
  "item_bytes it = je_bytes (vhd_journal_entry_out (entry_of it)) @ it_data it"

definition log_bytes :: "jitem list \<Rightarrow> bytes" where
  "log_bytes its = concat (map item_bytes its)"

definition data_ok :: "bytes \<Rightarrow> bool" where
  "data_ok d \<longleftrightarrow> d \<noteq> [] \<and> 512 dvd length d \<and> length d < 4294967296"

definition item_ok :: "jitem \<Rightarrow> bool" where
  "item_ok it \<longleftrightarrow> length (it_pad it) = 4 \<and> data_ok (it_data it)"

lemma log_bytes_simps [simp]:
  "log_bytes [] = []" "log_bytes (it # its) = item_bytes it @ log_bytes its"
  "log_bytes (xs @ ys) = log_bytes xs @ log_bytes ys"
  by (simp_all add: log_bytes_def)

lemma entry_of_simps [simp]:
  "je_type (entry_of it) = it_type it" "je_size (entry_of it) = of_nat (length (it_data it))"
  "je_offset (entry_of it) = it_off it" "je_cookie (entry_of it) = VHD_JOURNAL_ENTRY_COOKIE"
  "je_padding (entry_of it) = it_pad it"
  "je_checksum (entry_of it) = vhd_journal_checksum_entry (entry_of it) (it_data it)"
  by (simp_all add: entry_of_def vhd_journal_checksum_entry_def Let_def)

lemma je_wf_entry_of: "item_ok it \<Longrightarrow> je_wf (entry_of it)"
  by (simp add: je_wf_def item_ok_def)

lemma length_item [simp]: "item_ok it \<Longrightarrow> length (item_bytes it) = 32 + length (it_data it)"
  by (simp add: item_bytes_def je_codec.length_enc je_wf_entry_of)

lemma and_511: "(of_nat n :: u32) AND 511 = of_nat (n mod 512)"
proof -
  have "(of_nat n :: u32) AND 511 = take_bit 9 (of_nat n)" by (simp add: take_bit_eq_mask mask_eq_exp_minus_1)
  also have "\<dots> = of_nat (take_bit 9 n)" by (simp add: take_bit_of_nat)
  finally show ?thesis by (simp add: take_bit_eq_mod)
qed

lemma unat_data: "data_ok d \<Longrightarrow> unat (of_nat (length d) :: u32) = length d"
  unfolding data_ok_def by (intro unat_of_nat_u32) simp

lemma validate_entry_of: "data_ok (it_data it) \<Longrightarrow> vhd_journal_validate_entry (entry_of it) = 0"
  using unat_data [of "it_data it"]
  by (auto simp: vhd_journal_validate_entry_def and_511 data_ok_def)

lemma jstatus_0 [simp]: "jstatus 0 = vret ()"
  by (simp add: jstatus_def)

text \<open>An entry that the journal holds is read back.\<close>

lemma read_entry_ok:
  assumes "jw j" and "holds jf p (item_bytes it)" and "item_ok it"
  shows "vhd_journal_read_entry (jnf p jf q f j) = (Inr (entry_of it), jnf (p + 32) jf q f j)"
proof -
  let ?e = "je_bytes (vhd_journal_entry_out (entry_of it))"
  have wf: "je_wf (vhd_journal_entry_out (entry_of it))" using assms(3) by (simp add: je_wf_entry_of)
  then have l: "length ?e = 32" by (rule je_codec.length_enc)
  have h: "holds jf p ?e" using assms(2) by (simp add: item_bytes_def holds_append)
  then have "vhd_journal_read 32 (jnf p jf q f j) = (Inr ?e, jnf (p + 32) jf q f j)"
    using j_read [OF assms(1), of p 32 jf q f] l by (simp add: holds_def)
  then show ?thesis
    using assms(3) wf by (simp add: vhd_journal_read_entry_def vbind_def Let_def je_codec.dec_enc
        validate_entry_of item_ok_def vret_def)
qed

lemma read_data_ok:
  assumes "jw j" and "holds jf p (item_bytes it)" and "item_ok it" and "n = length (it_data it)" and "r = p + 32"
  shows "vhd_journal_read n (jnf r jf q f j) = (Inr (it_data it), jnf (r + n) jf q f j)"
    and "length buf = n \<Longrightarrow>
      vhd_journal_read_buf buf n (jnf r jf q f j) = (Inr (0, it_data it), jnf (r + n) jf q f j)"
proof -
  have "holds jf r (it_data it)"
    using assms(2,3,5) by (simp add: item_bytes_def holds_append je_codec.length_enc je_wf_entry_of)
  moreover have "0 < n" using assms(3,4) by (simp add: item_ok_def data_ok_def)
  ultimately show "vhd_journal_read n (jnf r jf q f j) = (Inr (it_data it), jnf (r + n) jf q f j)"
    and "length buf = n \<Longrightarrow>
      vhd_journal_read_buf buf n (jnf r jf q f j) = (Inr (0, it_data it), jnf (r + n) jf q f j)"
    using assms(1,4) by (simp_all add: j_read j_read_buf holds_def)
qed

text \<open>The file of the journal encodes a header and a log: metadata first, then data.\<close>

definition jinv :: "vhd_journal_header \<Rightarrow> vfile \<Rightarrow> jitem list \<Rightarrow> jitem list \<Rightarrow> bool" where
  "jinv h jf ms ds \<longleftrightarrow>
     jh_wf h \<and> jh_cookie h = VHD_JOURNAL_HEADER_COOKIE \<and> \<not> f_blk jf \<and>
     holds jf 0 (jh_bytes (vhd_journal_header_out h)) \<and> holds jf 512 (log_bytes (ms @ ds)) \<and>
     (\<forall>it \<in> set (ms @ ds). item_ok it) \<and>
     (\<forall>it \<in> set ms. it_type it \<noteq> VHD_JOURNAL_ENTRY_TYPE_DATA) \<and>
     (\<forall>it \<in> set ds. it_type it = VHD_JOURNAL_ENTRY_TYPE_DATA) \<and>
     unat (jh_journal_eof h) = 512 + length (log_bytes (ms @ ds)) \<and>
     512 + length (log_bytes (ms @ ds)) < 2 ^ 63 \<and>
     jh_journal_metadata_entries h = of_nat (length ms) \<and> jh_journal_data_entries h = of_nat (length ds) \<and>
     jh_journal_metadata_offset h = (if ms = [] then 0 else 512) \<and>
     unat (jh_journal_data_offset h) \<le> unat (jh_journal_eof h) \<and>
     (ds \<noteq> [] \<longrightarrow> unat (jh_journal_data_offset h) = 512 + length (log_bytes ms))"

lemma jinvD:
  assumes "jinv h jf ms ds"
  shows "jh_wf h" "jh_cookie h = VHD_JOURNAL_HEADER_COOKIE" "\<not> f_blk jf"
    "holds jf 0 (jh_bytes (vhd_journal_header_out h))" "holds jf 512 (log_bytes (ms @ ds))"
    "\<And>it. it \<in> set (ms @ ds) \<Longrightarrow> item_ok it" "unat (jh_journal_eof h) = 512 + length (log_bytes (ms @ ds))"
    "512 + length (log_bytes (ms @ ds)) < 2 ^ 63" "jh_journal_metadata_offset h = (if ms = [] then 0 else 512)"
    "unat (jh_journal_data_offset h) \<le> unat (jh_journal_eof h)"
    "ds \<noteq> [] \<Longrightarrow> unat (jh_journal_data_offset h) = 512 + length (log_bytes ms)"
    "jh_journal_data_entries h = of_nat (length ds)" "jh_journal_metadata_entries h = of_nat (length ms)"
    "\<And>it. it \<in> set ms \<Longrightarrow> it_type it \<noteq> VHD_JOURNAL_ENTRY_TYPE_DATA"
    "\<And>it. it \<in> set ds \<Longrightarrow> it_type it = VHD_JOURNAL_ENTRY_TYPE_DATA"
  using assms unfolding jinv_def by blast+

lemma of_nat_u32_0: "n < 4294967296 \<Longrightarrow> (of_nat n :: u32) = 0 \<longleftrightarrow> n = 0"
  using unat_of_nat_u32 [of n] unat_0_iff [of "of_nat n :: u32"] by simp

section \<open>Appending\<close>

lemma validate_header_ok:
  assumes "jw j" and "jh_cookie h = VHD_JOURNAL_HEADER_COOKIE" and "unat (jh_journal_eof (j_header j)) < 2 ^ 63"
    and "unat (jh_journal_data_offset (j_header j)) \<le> unat (jh_journal_eof (j_header j))"
    and "unat (jh_journal_metadata_offset (j_header j)) \<le> unat (jh_journal_eof (j_header j))"
  shows "vhd_journal_validate_header h (jnf p jf q f j) =
    (Inr (), jnf (unat (jh_journal_eof (j_header j))) jf q f j)"
proof -
  have "sint (jh_journal_eof (j_header j)) = int (unat (jh_journal_eof (j_header j)))"
    using assms(3) by (rule sint_small)
  then show ?thesis
    using assms by (simp add: vhd_journal_validate_header_def with_j_def vbind_def j_seek j_position
        word_less_nat_alt)
qed

lemma write_header_ok:
  assumes "jw j" and "jh_wf h" and "h = j_header j" and "jh_cookie h = VHD_JOURNAL_HEADER_COOKIE" and "\<not> f_blk jf"
    and "unat (jh_journal_eof h) < 2 ^ 63" and "unat (jh_journal_data_offset h) \<le> unat (jh_journal_eof h)"
    and "unat (jh_journal_metadata_offset h) \<le> unat (jh_journal_eof h)"
  shows "vhd_journal_write_header h (jnf p jf q f j) =
    (Inr (), jnf 512 (file_write jf 0 (jh_bytes (vhd_journal_header_out h))) q f j)"
proof -
  let ?b = "jh_bytes (vhd_journal_header_out h)"
  have l: "length ?b = 512" using assms(2) by (simp add: jh_codec.length_enc)
  then have "?b \<noteq> []" by force
  then show ?thesis
    using assms l by (simp add: vhd_journal_write_header_def vbind_def validate_header_ok j_seek j_write)
qed

definition junk4 :: "vhd_journal \<Rightarrow> bytes" where
  "junk4 j = take 4 (j_junk j @ zeros 4)"

lemma length_junk4 [simp]: "length (junk4 j) = 4"
  by (simp add: junk4_def)

lemma take_junk_nf: "take_junk n (jnf p jf q f j) =
    (Inr (take n (j_junk j @ zeros n)), jnf p jf q f (j\<lparr>j_junk := drop n (j_junk j)\<rparr>))"
  by (simp add: take_junk_def jnf_def)

text \<open>The state, and the file, after an entry has been appended.\<close>

definition appended :: "jitem \<Rightarrow> vhd_journal \<Rightarrow> vhd_journal" where
  "appended it j = upd_header (count_entry (it_type it) (length (it_data it))) (j\<lparr>j_junk := drop 4 (j_junk j)\<rparr>)"

definition append_file :: "jitem \<Rightarrow> nat \<Rightarrow> vhd_journal_header \<Rightarrow> vfile \<Rightarrow> vfile" where
  "append_file it e h jf = file_write
     (file_write (file_write jf e (je_bytes (vhd_journal_entry_out (entry_of it)))) (e + 32) (it_data it))
     0 (jh_bytes (vhd_journal_header_out h))"

lemma count_entry_simps [simp]:
  "jh_wf (count_entry t n h) = jh_wf h" "jh_cookie (count_entry t n h) = jh_cookie h"
  "jh_uuid (count_entry t n h) = jh_uuid h" "jh_vhd_footer_offset (count_entry t n h) = jh_vhd_footer_offset h"
  "jh_journal_eof (count_entry t n h) = jh_journal_eof h + of_nat (n + 32)"
  by (simp_all add: count_entry_def jh_wf_def Let_def)

lemma unat_eof_add:
  assumes "unat (w :: u64) + n < 2 ^ 63"
  shows "unat (w + of_nat n) = unat w + n"
proof -
  have "n < 2 ^ 64" using assms by simp
  then have "unat (of_nat n :: u64) = n" by (rule unat_of_nat_u64)
  then show ?thesis using assms by (simp add: unat_word_ariths)
qed

lemma count_entry_offsets:
  assumes "jinv h jf ms ds" and "unat (jh_journal_eof h) + (n + 32) < 2 ^ 63" and "length ds < 2 ^ 32" and "length ms < 2 ^ 32"
    and "t = VHD_JOURNAL_ENTRY_TYPE_DATA \<or> ds = []"
  defines "h' \<equiv> count_entry t n h"
  shows "unat (jh_journal_eof h') = unat (jh_journal_eof h) + (n + 32)"
    and "unat (jh_journal_data_offset h') \<le> unat (jh_journal_eof h')"
    and "unat (jh_journal_metadata_offset h') \<le> unat (jh_journal_eof h')"
    and "t = VHD_JOURNAL_ENTRY_TYPE_DATA \<Longrightarrow>
      unat (jh_journal_data_offset h') = 512 + length (log_bytes ms)"
    and "t \<noteq> VHD_JOURNAL_ENTRY_TYPE_DATA \<Longrightarrow> jh_journal_metadata_offset h' = 512"
proof -
  note i = jinvD [OF assms(1)]
  show e: "unat (jh_journal_eof h') = unat (jh_journal_eof h) + (n + 32)"
    unfolding h'_def count_entry_simps by (rule unat_eof_add) (rule assms)
  have nd: "jh_journal_data_entries h = 0 \<longleftrightarrow> ds = []"
    unfolding i(12) using assms(3) by (simp add: of_nat_u32_0)
  have nm: "jh_journal_metadata_entries h = 0 \<longleftrightarrow> ms = []"
    unfolding i(13) using assms(4) by (simp add: of_nat_u32_0)
  show "unat (jh_journal_data_offset h') \<le> unat (jh_journal_eof h')"
    using i(10) unfolding e by (simp add: h'_def count_entry_def Let_def)
  show "unat (jh_journal_metadata_offset h') \<le> unat (jh_journal_eof h')"
    using i(7,9) unfolding e by (simp add: h'_def count_entry_def Let_def)
  show "unat (jh_journal_data_offset h') = 512 + length (log_bytes ms)" if "t = VHD_JOURNAL_ENTRY_TYPE_DATA"
    using that i(7,11) nd by (simp add: h'_def count_entry_def Let_def)
  show "jh_journal_metadata_offset h' = 512" if "t \<noteq> VHD_JOURNAL_ENTRY_TYPE_DATA"
  proof (cases "ms = []")
    case True
    have "ds = []" using that assms(5) by simp
    then have "unat (jh_journal_eof h) = unat (512 :: u64)" using i(7) True by simp
    then have "jh_journal_eof h = 512" by (simp only: word_unat_eq_iff)
    then show ?thesis using that True nm by (simp add: h'_def count_entry_def Let_def)
  next
    case False
    then show ?thesis using that nm i(9) by (simp add: h'_def count_entry_def Let_def)
  qed
qed

lemma vhd_journal_update_alt:
  "vhd_journal_update offset buf type = vbind (take_junk 4) (\<lambda>padding. with_j (\<lambda>j0.
     vthen (vhd_journal_seek (sint (jh_journal_eof (j_header j0))))
       (vcatch
         (vthen (vhd_journal_write_entry (entry_of (Item type offset buf padding)))
           (vthen (vhd_journal_write buf)
             (vthen (vmodify (upd_header (count_entry type (length buf))))
               (vcatch (with_j (\<lambda>j. vhd_journal_write_header (j_header j)))
                 (\<lambda>err. vthen (vmodify (upd_header (uncount_entry type (length buf)
                    (if type = VHD_JOURNAL_ENTRY_TYPE_DATA then jh_journal_data_offset (j_header j0)
                     else jh_journal_metadata_offset (j_header j0))))) (vfail err))))))
         update_fail)))"
  by (simp add: vhd_journal_update_def entry_of_def Let_def)

lemma update_runs:
  assumes w: "jw j" and inv: "jinv (j_header j) jf ms ds" and d: "data_ok d"
    and t: "type = VHD_JOURNAL_ENTRY_TYPE_DATA \<or> ds = []"
    and room: "unat (jh_journal_eof (j_header j)) + (length d + 32) < 2 ^ 63" "length ds < 2 ^ 32" "length ms < 2 ^ 32"
    and it_def: "it = Item type off d (junk4 j)"
  shows "vhd_journal_update off d type (jnf p jf q f j) = (Inr (),
    jnf 512 (append_file it (unat (jh_journal_eof (j_header j))) (j_header (appended it j)) jf) q f (appended it j))"
proof -
  let ?h = "j_header j" and ?j = "j\<lparr>j_junk := drop 4 (j_junk j)\<rparr>"
  let ?E = "unat (jh_journal_eof ?h)" and ?h' = "count_entry type (length d) ?h"
  let ?e = "je_bytes (vhd_journal_entry_out (entry_of it))"
  note i = jinvD [OF inv]
  have E: "sint (jh_journal_eof ?h) = int ?E" using i(7,8) by (intro sint_small) simp
  have ok: "item_ok it" using d by (simp add: item_ok_def it_def)
  have le: "length ?e = 32" using ok by (simp add: je_codec.length_enc je_wf_entry_of)
  then have ne: "?e \<noteq> []" by force
  have dn: "d \<noteq> []" using d by (simp add: data_ok_def)
  have wj: "jw ?j" using w by (simp add: jnf_upd)
  have sk: "vhd_journal_seek (sint (jh_journal_eof ?h)) (jnf p jf q f ?j) = (Inr (), jnf ?E jf q f ?j)"
    using j_seek [OF wj, of "int ?E"] E by simp
  have we: "vhd_journal_write_entry (entry_of it) (jnf ?E jf q f ?j) =
      (Inr (), jnf (?E + 32) (file_write jf ?E ?e) q f ?j)"
    using j_write [OF wj ne i(3), of ?E] le d
    by (simp add: vhd_journal_write_entry_def validate_entry_of it_def)
  let ?f2 = "file_write (file_write jf ?E ?e) (?E + 32) d"
  have wd: "vhd_journal_write d (jnf (?E + 32) (file_write jf ?E ?e) q f ?j) = (Inr (), jnf (?E + 32 + length d) ?f2 q f ?j)"
    using i(3) by (intro j_write wj dn) (simp add: size_file_write)
  note o = count_entry_offsets [OF inv room t]
  have wh: "vhd_journal_write_header ?h' (jnf (?E + 32 + length d) ?f2 q f (upd_header (count_entry type (length d)) ?j)) =
      (Inr (), jnf 512 (file_write ?f2 0 (jh_bytes (vhd_journal_header_out ?h'))) q f (upd_header (count_entry type (length d)) ?j))"
    using i(1-3) o(1-3) room(1) w by (intro write_header_ok) (simp_all add: jnf_upd size_file_write)
  have tj: "take_junk 4 (jnf p jf q f j) = (Inr (junk4 j), jnf p jf q f ?j)"
    by (simp add: take_junk_nf junk4_def)
  have h': "j_header (appended it j) = ?h'" by (simp add: appended_def it_def)
  show ?thesis
    unfolding vhd_journal_update_alt vbind_ok [where m = "take_junk 4", OF tj] it_def [symmetric] h' append_file_def
    using sk we wd wh
    by (simp add: Let_def with_j_def vbind_def vcatch_def vmodify_def jnf_upd) (simp add: appended_def it_def)
qed

lemma holds_size: "holds f p bs \<Longrightarrow> p + length bs \<le> f_size f"
  by (simp add: holds_def)

lemma append_file_holds:
  assumes log: "holds jf 512 lb" and e: "e = 512 + length lb" and ok: "item_ok it" and wf: "jh_wf h" and nb: "\<not> f_blk jf"
  shows "holds (append_file it e h jf) 512 (lb @ item_bytes it)"
    and "holds (append_file it e h jf) 0 (jh_bytes (vhd_journal_header_out h))"
    and "\<not> f_blk (append_file it e h jf)"
proof -
  let ?e = "je_bytes (vhd_journal_entry_out (entry_of it))" and ?hb = "jh_bytes (vhd_journal_header_out h)"
  let ?f1 = "file_write jf e ?e"
  let ?f2 = "file_write ?f1 (e + 32) (it_data it)"
  have le: "length ?e = 32" using ok by (simp add: je_codec.length_enc je_wf_entry_of)
  have lh: "length ?hb = 512" using wf by (simp add: jh_codec.length_enc)
  have nb': "\<not> f_blk ?f1" "\<not> f_blk ?f2" using nb by (simp_all add: size_file_write)
  have "holds ?f1 512 lb" using e by (intro holds_write_disjoint [OF log]) simp
  from holds_write_disjoint [OF this] have 1: "holds ?f2 512 lb" using e by simp
  have "holds ?f1 e ?e" using nb by (rule holds_write)
  from holds_write_disjoint [OF this] have 2: "holds ?f2 e ?e" using le by simp
  have 3: "holds ?f2 (e + 32) (it_data it)" using nb'(1) by (rule holds_write)
  have "holds ?f2 512 (lb @ item_bytes it)"
    using 1 2 3 by (simp add: holds_append item_bytes_def e le)
  then show "holds (append_file it e h jf) 512 (lb @ item_bytes it)"
    unfolding append_file_def using lh by (elim holds_write_disjoint) simp
  show "holds (append_file it e h jf) 0 ?hb" "\<not> f_blk (append_file it e h jf)"
    unfolding append_file_def using nb' by (simp_all add: holds_write size_file_write)
qed

lemma appended_jinv:
  assumes inv: "jinv (j_header j) jf ms ds" and ok: "item_ok it"
    and t: "it_type it = VHD_JOURNAL_ENTRY_TYPE_DATA \<or> ds = []"
    and room: "unat (jh_journal_eof (j_header j)) + (length (it_data it) + 32) < 2 ^ 63" "length ds < 2 ^ 32" "length ms < 2 ^ 32"
  defines "jf' \<equiv> append_file it (unat (jh_journal_eof (j_header j))) (j_header (appended it j)) jf"
  shows "it_type it = VHD_JOURNAL_ENTRY_TYPE_DATA \<Longrightarrow> jinv (j_header (appended it j)) jf' ms (ds @ [it])"
    and "it_type it \<noteq> VHD_JOURNAL_ENTRY_TYPE_DATA \<Longrightarrow> jinv (j_header (appended it j)) jf' (ms @ [it]) []"
proof -
  let ?h = "j_header j" and ?h' = "j_header (appended it j)" and ?lb = "log_bytes (ms @ ds)"
  note i = jinvD [OF inv]
  have h': "?h' = count_entry (it_type it) (length (it_data it)) ?h" by (simp add: appended_def)
  note o = count_entry_offsets [OF inv room t, folded h']
  have wf: "jh_wf ?h'" "jh_cookie ?h' = VHD_JOURNAL_HEADER_COOKIE" using i(1,2) by (simp_all add: h')
  have a: "holds jf' 512 (?lb @ item_bytes it)" "holds jf' 0 (jh_bytes (vhd_journal_header_out ?h'))" "\<not> f_blk jf'"
    unfolding jf'_def using append_file_holds [OF i(5) i(7) ok wf(1) i(3)] by simp_all
  have l: "length (?lb @ item_bytes it) = length ?lb + (length (it_data it) + 32)" using ok by simp
  have eof: "unat (jh_journal_eof ?h') = 512 + length (?lb @ item_bytes it)"
    unfolding l o(1) i(7) by simp
  have bnd: "512 + length (?lb @ item_bytes it) < 2 ^ 63" using room(1) unfolding l i(7) by simp
  have items: "\<forall>x \<in> set (ms @ ds @ [it]). item_ok x" using i(6) ok by auto
  {
    assume ty: "it_type it = VHD_JOURNAL_ENTRY_TYPE_DATA"
    have "jh_journal_data_entries ?h' = of_nat (length (ds @ [it]))"
      "jh_journal_metadata_entries ?h' = of_nat (length ms)" "jh_journal_metadata_offset ?h' = (if ms = [] then 0 else 512)"
      using ty i(9,12,13) by (simp_all add: h' count_entry_def Let_def add.commute)
    then show "jinv ?h' jf' ms (ds @ [it])"
      unfolding jinv_def using wf a eof bnd items ty i(14,15) o(2) o(4) [OF ty] by auto
  }
  {
    assume ty: "it_type it \<noteq> VHD_JOURNAL_ENTRY_TYPE_DATA"
    then have ds: "ds = []" using t by simp
    have "jh_journal_data_entries ?h' = of_nat (length ([] :: jitem list))"
      "jh_journal_metadata_entries ?h' = of_nat (length (ms @ [it]))" "jh_journal_metadata_offset ?h' = (if ms @ [it] = [] then 0 else 512)"
      using ty i(12,13) ds o(5) [OF ty] by (simp_all add: h' count_entry_def Let_def add.commute)
    then show "jinv ?h' jf' (ms @ [it]) []"
      unfolding jinv_def using wf a eof bnd items ty i(14) ds o(2) by auto
  }
qed

section \<open>Playing back\<close>

definition play :: "jitem list \<Rightarrow> vfile \<Rightarrow> vfile" where
  "play its f = foldl (\<lambda>f it. file_write f (unat (it_off it)) (it_data it)) f its"

lemma play_simps [simp]:
  "play [] f = f" "play (it # its) f = play its (file_write f (unat (it_off it)) (it_data it))"
  "play (xs @ ys) f = play ys (play xs f)"
  by (simp_all add: play_def)

lemma play_blk [simp]: "f_blk (play its f) = f_blk f"
  by (induction its arbitrary: f) (simp_all add: size_file_write)

text \<open>Data that fits a file whose size is a positive \<open>off64_t\<close>.\<close>

definition fits :: "jitem \<Rightarrow> bool" where
  "fits it \<longleftrightarrow> unat (it_off it) + length (it_data it) < 2 ^ 63"

lemma fits_sint: "fits it \<Longrightarrow> sint (it_off it) = int (unat (it_off it))"
  by (intro sint_small) (simp add: fits_def)

lemma v_write:
  assumes "jw j" and "bs \<noteq> []" and "\<not> f_blk f"
  shows "on_vhd (vhd_write bs) (jnf p jf q f j) = (Inr (), jnf p jf (q + length bs) (file_write f q bs) j)"
  using write_here_quiet [of "j_vhd (jnf p jf q f j)" f bs] assms jw_quiet [OF assms(1)] by (intro on_vhd_nf) simp

lemma on_vhd_bind: "on_vhd (vbind m g) = vbind (on_vhd m) (\<lambda>x. on_vhd (g x))"
  by (rule ext) (simp add: on_vhd_def vbind_def split: prod.split sum.split)

lemma checksum_entry_of: "vhd_journal_validate_entry_data (entry_of it) (it_data it) = 0" if "data_ok (it_data it)"
  using unat_data [OF that] by (simp add: vhd_journal_validate_entry_data_def)

lemma revert_entry_ok:
  assumes w: "jw j" and h: "holds jf p (item_bytes it)" and ok: "item_ok it" and fit: "fits it" and nb: "\<not> f_blk f"
  shows "\<exists>q'. revert_entry (jnf p jf q f j) =
    (Inr (), jnf (p + length (item_bytes it)) jf q' (file_write f (unat (it_off it)) (it_data it)) j)"
proof -
  have d: "data_ok (it_data it)" using ok by (simp add: item_ok_def)
  then have dn: "it_data it \<noteq> []" by (simp add: data_ok_def)
  let ?o = "unat (it_off it)"
  have wr: "on_vhd (vthen (vhd_seek (sint (it_off it)) SEEK_SET) (vhd_write (it_data it))) (jnf r jf q f j) =
      (Inr (), jnf r jf (?o + length (it_data it)) (file_write f ?o (it_data it)) j)" for r
    using v_seek [OF w, of "sint (it_off it)" r jf q f] v_write [OF w dn nb, of r jf ?o] fits_sint [OF fit]
    by (simp add: on_vhd_bind vbind_ok)
  show ?thesis
    using read_entry_ok [OF w h ok, of q f] read_data_ok(1) [OF w h ok refl refl, of q f]
    by (intro exI) (simp add: revert_entry_def vbind_ok v_alloc [OF w] unat_data [OF d] checksum_entry_of [OF d] vret_def wr
        length_item [OF ok] ac_simps)
qed

lemma revert_entries_ok:
  assumes "jw j" and "holds jf p (log_bytes its)" and "\<forall>it \<in> set its. item_ok it \<and> fits it" and "\<not> f_blk f"
    and "length xs = length its"
  shows "\<exists>p' q'. vfor xs (\<lambda>_. revert_entry) (jnf p jf q f j) = (Inr (), jnf p' jf q' (play its f) j)"
  using assms
proof (induction its arbitrary: p q f xs)
  case Nil
  then show ?case by (auto simp: vret_def)
next
  case (Cons it its)
  from Cons.prems(5) obtain x ys where xs: "xs = x # ys" and ly: "length ys = length its"
    by (cases xs) auto
  have h: "holds jf p (item_bytes it)" "holds jf (p + length (item_bytes it)) (log_bytes its)"
    using Cons.prems(2) by (simp_all add: holds_append)
  from revert_entry_ok [OF Cons.prems(1) h(1), of f q] Cons.prems obtain q' where
    1: "revert_entry (jnf p jf q f j) = (Inr (), jnf (p + length (item_bytes it)) jf q'
      (file_write f (unat (it_off it)) (it_data it)) j)" by auto
  from Cons.IH [OF Cons.prems(1) h(2), of "file_write f (unat (it_off it)) (it_data it)" ys q'] Cons.prems ly
  obtain p2 q2 where "vfor ys (\<lambda>_. revert_entry) (jnf (p + length (item_bytes it)) jf q'
      (file_write f (unat (it_off it)) (it_data it)) j) =
      (Inr (), jnf p2 jf q2 (play its (file_write f (unat (it_off it)) (it_data it))) j)"
    by (auto simp: size_file_write)
  with 1 show ?case by (auto simp: xs vbind_def)
qed

text \<open>When every entry holds what a file contains, playing it back makes the file agree with that
  one on all the places, in whatever order and with whatever overlaps.\<close>

definition snapshot :: "vfile \<Rightarrow> jitem \<Rightarrow> bool" where
  "snapshot f0 it \<longleftrightarrow> it_data it = file_read f0 (unat (it_off it)) (length (it_data it)) \<and>
     unat (it_off it) + length (it_data it) \<le> f_size f0"

definition covers :: "jitem \<Rightarrow> nat \<Rightarrow> bool" where
  "covers it x \<longleftrightarrow> unat (it_off it) \<le> x \<and> x < unat (it_off it) + length (it_data it)"

lemma play_covered:
  assumes "\<forall>it \<in> set its. snapshot f0 it" and "\<not> f_blk f"
    and "(\<exists>it \<in> set its. covers it x) \<or> x < f_size f \<and> f_data f x = f_data f0 x"
  shows "f_data (play its f) x = f_data f0 x"
  using assms
proof (induction its arbitrary: f)
  case (Cons it its)
  let ?g = "file_write f (unat (it_off it)) (it_data it)"
  have sn: "snapshot f0 it" using Cons.prems(1) by simp
  have nth: "it_data it ! (x - unat (it_off it)) = f_data f0 x" if "covers it x"
  proof -
    have "it_data it = file_read f0 (unat (it_off it)) (length (it_data it))" using sn by (simp add: snapshot_def)
    then have "it_data it ! (x - unat (it_off it)) = file_read f0 (unat (it_off it)) (length (it_data it)) ! (x - unat (it_off it))"
      by simp
    moreover have "x - unat (it_off it) < length (it_data it)" using that by (auto simp: covers_def)
    ultimately show ?thesis using that by (simp add: file_read_def covers_def)
  qed
  have "(\<exists>it \<in> set its. covers it x) \<or> x < f_size ?g \<and> f_data ?g x = f_data f0 x"
  proof (cases "covers it x")
    case True
    then have "x < f_size ?g" "f_data ?g x = it_data it ! (x - unat (it_off it))"
      using Cons.prems(2) by (auto simp: file_write_def covers_def)
    then show ?thesis using nth [OF True] by simp
  next
    case False
    then show ?thesis
      using Cons.prems(2,3) by (auto simp: file_write_def covers_def)
  qed
  then show ?case using Cons.IH [of ?g] Cons.prems(1,2) by (simp add: size_file_write)
qed simp

lemma play_other:
  assumes "\<forall>it \<in> set its. \<not> covers it x" and "\<not> f_blk f" and "x < f_size f"
  shows "f_data (play its f) x = f_data f x \<and> x < f_size (play its f)"
  using assms
proof (induction its arbitrary: f)
  case (Cons it its)
  let ?g = "file_write f (unat (it_off it)) (it_data it)"
  have "x < f_size ?g" "f_data ?g x = f_data f x"
    using Cons.prems by (simp_all add: size_file_write) (auto simp: file_write_def covers_def)
  then show ?case using Cons.IH [of ?g] Cons.prems by (simp add: size_file_write)
qed simp

end
