(* ===== verification/Vhd_Journal_Meta.thy ===== *)
theory Vhd_Journal_Meta
  imports Vhd_Journal_Laws Vhd_Bat
begin

text \<open>
  The metadata of an image in its journal. \<open>sound_image\<close> describes the images considered: dynamic or
  differencing, valid, without a batmap, with a BAT that is exactly as long as the virtual disk
  asks for. \<open>add_metadata_ok\<close> shows that \<open>vhd_journal_add_metadata\<close> records the bytes of the footer, its
  copy, the header, the locators and the BAT (\<open>meta_items\<close>), and \<open>restore_ok\<close> that
  \<open>vhd_journal_restore_metadata\<close> plays exactly these entries back and cuts the file.
\<close>

section \<open>The images\<close>

definition disk_ftr :: "vfile \<Rightarrow> hd_ftr" where
  "disk_ftr f = ftr_of_disk (file_read f (f_size f - 512) 512)"

definition disk_copy :: "vfile \<Rightarrow> hd_ftr" where
  "disk_copy f = ftr_of_disk (file_read f 0 512)"

definition hdr_pos :: "vfile \<Rightarrow> nat" where
  "hdr_pos f = unat (ftr_data_offset (disk_ftr f))"

definition disk_hdr :: "vfile \<Rightarrow> dd_hdr" where
  "disk_hdr f = hdr_of_disk (file_read f (hdr_pos f) 1024)"

definition bat_pos :: "vfile \<Rightarrow> nat" where
  "bat_pos f = unat (hdr_table_offset (disk_hdr f))"

text \<open>The blocks of the virtual disk, and the bytes of a BAT with that many entries.\<close>

definition disk_blks :: "vfile \<Rightarrow> u32" where
  "disk_blks f = ucast (drop_bit VHD_BLOCK_SHIFT (ftr_curr_size (disk_ftr f)))"

definition bat_len :: "u32 \<Rightarrow> nat" where
  "bat_len n = unat (vhd_bytes_padded (ucast n * 4))"

definition good_footer :: "hd_ftr \<Rightarrow> bool" where
  "good_footer f \<longleftrightarrow> vhd_validate_footer f = 0 \<and> \<not> legacy_hidden f"

definition good_loc :: "nat \<Rightarrow> prt_loc \<Rightarrow> bool" where
  "good_loc sz l \<longleftrightarrow> loc_code l = PLAT_CODE_NONE \<or>
     (let n = unat (vhd_parent_locator_size l)
      in 0 < n \<and> 512 dvd n \<and> n < 4294967296 \<and> unat (loc_data_offset l) + n \<le> sz)"

definition no_map :: "hd_ftr \<Rightarrow> bool" where
  "no_map f \<longleftrightarrow> \<not> app_is_tap (ftr_crtr_app f) \<or> ftr_crtr_ver f \<le> VHD_VERSION 0 1"

text \<open>All that is asked of the file but for the length of its BAT.\<close>

definition sound_metadata :: "vfile \<Rightarrow> bool" where
  "sound_metadata f \<longleftrightarrow> \<not> f_blk f \<and> 512 \<le> f_size f \<and> f_size f < 2 ^ 63 \<and>
     good_footer (disk_ftr f) \<and> good_footer (disk_copy f) \<and> ftr_cookie (disk_ftr f) = HD_COOKIE \<and>
     (ftr_type (disk_ftr f) = HD_TYPE_DYNAMIC \<or> ftr_type (disk_ftr f) = HD_TYPE_DIFF) \<and> no_map (disk_ftr f) \<and>
     hdr_pos f + 1024 \<le> f_size f \<and> vhd_validate_header (disk_hdr f) = 0 \<and>
     (\<forall>l \<in> set (hdr_loc (disk_hdr f)). good_loc (f_size f) l) \<and>
     disk_blks f \<le> hdr_max_bat_size (disk_hdr f) \<and> bat_len (hdr_max_bat_size (disk_hdr f)) < 4294967296 \<and>
     bat_pos f + bat_len (hdr_max_bat_size (disk_hdr f)) \<le> f_size f"

definition sound_image :: "vfile \<Rightarrow> bool" where
  "sound_image f \<longleftrightarrow> sound_metadata f \<and> bat_len (disk_blks f) = bat_len (hdr_max_bat_size (disk_hdr f))"

lemma sound_metadataD:
  assumes "sound_metadata f"
  shows "\<not> f_blk f" "512 \<le> f_size f" "f_size f < 2 ^ 63" "good_footer (disk_ftr f)" "good_footer (disk_copy f)"
    "ftr_cookie (disk_ftr f) = HD_COOKIE" "ftr_type (disk_ftr f) = HD_TYPE_DYNAMIC \<or> ftr_type (disk_ftr f) = HD_TYPE_DIFF"
    "no_map (disk_ftr f)" "hdr_pos f + 1024 \<le> f_size f" "vhd_validate_header (disk_hdr f) = 0"
    "\<And>l. l \<in> set (hdr_loc (disk_hdr f)) \<Longrightarrow> good_loc (f_size f) l"
    "disk_blks f \<le> hdr_max_bat_size (disk_hdr f)" "bat_len (hdr_max_bat_size (disk_hdr f)) < 4294967296"
    "bat_pos f + bat_len (hdr_max_bat_size (disk_hdr f)) \<le> f_size f"
  using assms unfolding sound_metadata_def by blast+

lemma bat_len_facts: "0 < bat_len n" "512 dvd bat_len n"
  unfolding bat_len_def by (rule bytes_padded_pos) (simp add: bytes_padded_mult)

lemma bat_len_val: "bat_len n = 512 * max 1 ((4 * unat n + 511) div 512)"
proof -
  have n: "unat n < 4294967296" by simp
  have "unat (ucast n * 4 + 511 :: u64) = 4 * unat n + 511"
    using n by (simp add: unat_word_ariths mult.commute del: unat_u32_less)
  then have d: "unat (drop_bit 9 (ucast n * 4 + 511 :: u64)) = (4 * unat n + 511) div 512"
    unfolding unat_drop_bit_eq by (simp add: drop_bit_eq_div)
  have "unat (secs_round_up (ucast n * 4)) = (4 * unat n + 511) div 512"
    using n d by (simp add: secs_round_up_def VHD_SECTOR_SIZE_def VHD_SECTOR_SHIFT_def unsigned_ucast_eq take_bit_nat_eq_self
        del: unat_u32_less)
  then have "unat (secs_round_up_no_zero (ucast n * 4)) = max 1 ((4 * unat n + 511) div 512)"
    using unat_0_iff [of "secs_round_up (ucast n * 4)"] by (auto simp: secs_round_up_no_zero_def max_def)
  then show ?thesis by (simp add: bat_len_def bytes_padded_mult)
qed

lemma bat_len_mono: "n \<le> m \<Longrightarrow> bat_len n \<le> bat_len m"
  unfolding bat_len_val word_le_nat_alt by (intro mult_le_mono2 max.mono div_le_mono) simp_all

section \<open>The regions\<close>

type_synonym region = "u32 \<times> nat \<times> nat"

definition loc_regions :: "prt_loc list \<Rightarrow> region list" where
  "loc_regions ls = map (\<lambda>l. (VHD_JOURNAL_ENTRY_TYPE_LOCATOR, unat (loc_data_offset l), unat (vhd_parent_locator_size l)))
     (filter (\<lambda>l. loc_code l \<noteq> PLAT_CODE_NONE) ls)"

definition meta_regions :: "vfile \<Rightarrow> region list" where
  "meta_regions f =
     [(VHD_JOURNAL_ENTRY_TYPE_FOOTER_P, f_size f - 512, 512), (VHD_JOURNAL_ENTRY_TYPE_FOOTER_C, 0, 512),
      (VHD_JOURNAL_ENTRY_TYPE_HEADER, hdr_pos f, 1024)] @ loc_regions (hdr_loc (disk_hdr f)) @
     [(VHD_JOURNAL_ENTRY_TYPE_BAT, bat_pos f, bat_len (disk_blks f))]"

text \<open>An entry that records a region of a file.\<close>

definition records :: "vfile \<Rightarrow> region \<Rightarrow> jitem \<Rightarrow> bool" where
  "records f r it \<longleftrightarrow> (case r of (t, off, n) \<Rightarrow>
     it_type it = t \<and> it_off it = of_nat off \<and> it_data it = file_read f off n \<and> off + n \<le> f_size f)"

definition recorded :: "vfile \<Rightarrow> region list \<Rightarrow> jitem list \<Rightarrow> bool" where
  "recorded f rs its \<longleftrightarrow> list_all2 (records f) rs its"

lemma recorded_simps [simp]:
  "recorded f [] []" "recorded f (r # rs) (it # its) \<longleftrightarrow> records f r it \<and> recorded f rs its"
  "recorded f rs [] \<longleftrightarrow> rs = []" "recorded f [] its \<longleftrightarrow> its = []"
  by (auto simp: recorded_def)

lemma recorded_append: "recorded f rs its \<Longrightarrow> recorded f rs' its' \<Longrightarrow> recorded f (rs @ rs') (its @ its')"
  unfolding recorded_def by (rule list_all2_appendI)

lemma recorded_appendE:
  assumes "recorded f (rs @ rs') its"
  obtains xs ys where "its = xs @ ys" "recorded f rs xs" "recorded f rs' ys"
  using assms unfolding recorded_def by (auto simp: list_all2_append1)

lemma recorded_ConsE:
  assumes "recorded f (r # rs) its"
  obtains it xs where "its = it # xs" "records f r it" "recorded f rs xs"
  using assms unfolding recorded_def by (auto simp: list_all2_Cons1)

lemma recorded_length: "recorded f rs its \<Longrightarrow> length its = length rs"
  unfolding recorded_def by (auto dest: list_all2_lengthD)

lemma recorded_snapshot:
  assumes "recorded f rs its" and "f_size f < 2 ^ 63" and "it \<in> set its"
  shows "snapshot f it" "fits it"
proof -
  obtain i where "i < length its" "it = its ! i" using assms(3) by (auto simp: in_set_conv_nth)
  then have "records f (rs ! i) it" using assms(1) by (simp add: recorded_def list_all2_conv_all_nth)
  then obtain off n where r: "it_off it = of_nat off" "it_data it = file_read f off n" "off + n \<le> f_size f"
    by (auto simp: records_def split: prod.splits)
  then have "unat (it_off it) = off" using assms(2) by (simp add: unat_of_nat_small)
  then show "snapshot f it" "fits it" using r assms(2) by (simp_all add: snapshot_def fits_def)
qed

section \<open>Appending to the log\<close>

definition jsame :: "vhd_journal \<Rightarrow> vhd_journal \<Rightarrow> bool" where
  "jsame j k \<longleftrightarrow> j_jname k = j_jname j \<and> j_is_block k = j_is_block j \<and> j_vhd k = j_vhd j \<and>
     jh_vhd_footer_offset (j_header k) = jh_vhd_footer_offset (j_header j)"

lemma jsame_refl [simp]: "jsame j j"
  by (simp add: jsame_def)

lemma jsame_trans: "jsame j k \<Longrightarrow> jsame k l \<Longrightarrow> jsame j l"
  by (simp add: jsame_def)

lemma jsame_jw: "jsame j k \<Longrightarrow> jw k = jw j"
  by (simp add: jsame_def jw_def)

lemma jsame_ctx: "jsame j k \<Longrightarrow> j_ctx k = j_ctx j"
  by (simp add: jsame_def)

lemma log_length_bound:
  "\<forall>it \<in> set its. item_ok it \<Longrightarrow> length (log_bytes its) \<le> length its * 4294967328"
  by (induction its) (auto simp: item_ok_def data_ok_def)

lemma add_item:
  assumes w: "jw j" and inv: "jinv (j_header j) jf ms ds" and d: "data_ok d"
    and t: "type = VHD_JOURNAL_ENTRY_TYPE_DATA \<or> ds = []" and n: "length ms + length ds < 1073741824"
  shows "\<exists>jf' k pad. vhd_journal_update off d type (jnf p jf q f j) = (Inr (), jnf 512 jf' q f k) \<and> jsame j k \<and>
    (if type = VHD_JOURNAL_ENTRY_TYPE_DATA then jinv (j_header k) jf' ms (ds @ [Item type off d pad])
     else jinv (j_header k) jf' (ms @ [Item type off d pad]) [])"
proof -
  note i = jinvD [OF inv]
  have "length (log_bytes (ms @ ds)) \<le> length (ms @ ds) * 4294967328"
    using i(6) by (intro log_length_bound) blast
  also have "\<dots> \<le> 1073741824 * 4294967328" using n by simp
  finally have "length (log_bytes (ms @ ds)) \<le> 1073741824 * 4294967328" .
  moreover have "length d < 4294967296" using d by (simp add: data_ok_def)
  ultimately have room: "unat (jh_journal_eof (j_header j)) + (length d + 32) < 2 ^ 63"
    "length ds < 2 ^ 32" "length ms < 2 ^ 32"
    using n by (simp_all add: i(7))
  let ?it = "Item type off d (junk4 j)"
  have ok: "item_ok ?it" using d by (simp add: item_ok_def)
  have "jsame j (appended ?it j)" by (simp add: jsame_def appended_def)
  moreover note update_runs [OF w inv d t room refl, of off p q f]
    appended_jinv [OF inv ok _ _ room(2,3)]
  ultimately show ?thesis using t room(1) by (intro exI conjI) auto
qed

section \<open>Recording the metadata\<close>

text \<open>The context belongs to the file.\<close>

definition ctx_of :: "vfile \<Rightarrow> vhd_context \<Rightarrow> bool" where
  "ctx_of f c \<longleftrightarrow> ctx_footer c = disk_ftr f \<and> ctx_header c = disk_hdr f \<and> \<not> ctx_is_block c"

lemma ctx_of_dynamic: "sound_metadata f \<Longrightarrow> ctx_of f c \<Longrightarrow> vhd_type_dynamic c"
  using sound_metadataD(7) [of f] by (auto simp: ctx_of_def vhd_type_dynamic_def)

lemma ctx_of_no_batmap: "sound_metadata f \<Longrightarrow> ctx_of f c \<Longrightarrow> no_batmap c"
  using sound_metadataD(8) [of f] by (simp add: ctx_of_def no_batmap_def no_map_def vhd_creator_tapdisk_def)

lemma sint_in_file: "unat (w :: u64) + n \<le> f_size f \<Longrightarrow> f_size f < 2 ^ 63 \<Longrightarrow> sint w = int (unat w)"
  by (intro sint_small) simp

lemma data_ok_read: "0 < n \<Longrightarrow> 512 dvd n \<Longrightarrow> n < 4294967296 \<Longrightarrow> data_ok (file_read f off n)"
  unfolding data_ok_def by (metis length_file_read length_greater_0_conv)

text \<open>One region is recorded: the step common to all of them.\<close>

lemma add_region:
  assumes w: "jw j" and inv: "jinv (j_header j) jf ms []" and n: "0 < n" "512 dvd n" "n < 4294967296"
    and in_file: "off + n \<le> f_size f0" and t: "type \<noteq> VHD_JOURNAL_ENTRY_TYPE_DATA" and lm: "length ms < 1073741824"
    and rs: "recorded f0 rs ms"
  shows "\<exists>jf' k ms'. vhd_journal_update (of_nat off) (file_read f0 off n) type (jnf p jf q f j) = (Inr (), jnf 512 jf' q f k) \<and>
    jsame j k \<and> jinv (j_header k) jf' ms' [] \<and> recorded f0 (rs @ [(type, off, n)]) ms'"
proof -
  have l: "length ms + length ([] :: jitem list) < 1073741824" using lm by simp
  from add_item [OF w inv data_ok_read [OF n] disjI2 [OF refl] l, of "of_nat off" f0 off type p q f] t
  obtain jf' k pad where
    u: "vhd_journal_update (of_nat off) (file_read f0 off n) type (jnf p jf q f j) = (Inr (), jnf 512 jf' q f k)"
    and s: "jsame j k" and i: "jinv (j_header k) jf' (ms @ [Item type (of_nat off) (file_read f0 off n) pad]) []" by auto
  have "recorded f0 (rs @ [(type, off, n)]) (ms @ [Item type (of_nat off) (file_read f0 off n) pad])"
    by (rule recorded_append [OF rs]) (simp add: records_def in_file)
  then show ?thesis using u s i by blast
qed

lemma v_read_footer_at:
  assumes "jw j" and "off + 512 \<le> f_size f" and "good_footer (ftr_of_disk (file_read f off 512))"
  shows "on_vhd (vhd_read_footer_at nowhere (int off)) (jnf p jf q f j) =
    (Inr (ftr_of_disk (file_read f off 512)), jnf p jf (off + 512) f j)"
  using read_footer_at_quiet [of "j_vhd (jnf p jf q f j)" f "int off" nowhere] assms jw_quiet [OF assms(1)]
  by (intro on_vhd_nf) (simp add: Let_def good_footer_def nowhere_def)

lemma footer_bytes_of_disk: "ftr_bytes (vhd_footer_out (ftr_of_disk (file_read f off 512))) = file_read f off 512"
  using ftr_seal.enc_dec [of "file_read f off 512"] by (simp add: ftr_disk_bytes_def)

lemma header_bytes_of_disk: "hdr_bytes (vhd_header_out (hdr_of_disk (file_read f off 1024))) = file_read f off 1024"
  using hdr_seal.enc_dec [of "file_read f off 1024"] by (simp add: hdr_disk_bytes_def)

lemma add_footer_ok:
  assumes w: "jw j" and inv: "jinv (j_header j) jf [] []" and im: "sound_metadata f0" and c: "ctx_of f0 (j_ctx j)"
  shows "\<exists>jf' q' k ms. vhd_journal_add_footer (jnf p jf q f0 j) = (Inr (), jnf 512 jf' q' f0 k) \<and> jsame j k \<and>
    jinv (j_header k) jf' ms [] \<and>
    recorded f0 [(VHD_JOURNAL_ENTRY_TYPE_FOOTER_P, f_size f0 - 512, 512), (VHD_JOURNAL_ENTRY_TYPE_FOOTER_C, 0, 512)] ms"
proof -
  note m = sound_metadataD [OF im]
  let ?e = "f_size f0 - 512"
  have off: "int (f_size f0) - 512 = int ?e" "(of_nat (f_size f0) - 512 :: u64) = of_nat ?e"
    using m(2) by (simp_all add: of_nat_diff)
  have e: "?e + 512 \<le> f_size f0" "good_footer (ftr_of_disk (file_read f0 ?e 512))"
    using m(2,4) by (simp_all add: disk_ftr_def)
  note r1 = v_read_footer_at [OF w e(1) e(2), of p jf "f_size f0"]
  have "recorded f0 [] []" by simp
  from add_region [OF w inv _ _ _ e(1) _ _ this, of VHD_JOURNAL_ENTRY_TYPE_FOOTER_P p "?e + 512" f0]
  obtain jf1 k1 ms1 where u1: "vhd_journal_update (of_nat ?e) (file_read f0 ?e 512) VHD_JOURNAL_ENTRY_TYPE_FOOTER_P
        (jnf p jf (?e + 512) f0 j) = (Inr (), jnf 512 jf1 (?e + 512) f0 k1)"
    and s1: "jsame j k1" and i1: "jinv (j_header k1) jf1 ms1 []"
    and rc1: "recorded f0 [(VHD_JOURNAL_ENTRY_TYPE_FOOTER_P, ?e, 512)] ms1"
    by (auto simp: entry_type_defs)
  have w1: "jw k1" using w jsame_jw [OF s1] by simp
  have dyn: "vhd_type_dynamic (j_ctx k1)" using ctx_of_dynamic [OF im c] jsame_ctx [OF s1] by simp
  have c2: "0 + 512 \<le> f_size f0" "good_footer (ftr_of_disk (file_read f0 0 512))"
    using m(2,5) by (simp_all add: disk_copy_def)
  note r2 = v_read_footer_at [OF w1 c2, of 512 jf1 "?e + 512"]
  have "length ms1 < 1073741824" using recorded_length [OF rc1] by simp
  from add_region [OF w1 i1 _ _ _ c2(1) _ this rc1, of VHD_JOURNAL_ENTRY_TYPE_FOOTER_C 512 "0 + 512" f0]
  obtain jf2 k2 ms2 where u2: "vhd_journal_update (of_nat 0) (file_read f0 0 512) VHD_JOURNAL_ENTRY_TYPE_FOOTER_C
        (jnf 512 jf1 (0 + 512) f0 k1) = (Inr (), jnf 512 jf2 (0 + 512) f0 k2)"
    and s2: "jsame k1 k2" and i2: "jinv (j_header k2) jf2 ms2 []"
    and rc2: "recorded f0 ([(VHD_JOURNAL_ENTRY_TYPE_FOOTER_P, ?e, 512)] @ [(VHD_JOURNAL_ENTRY_TYPE_FOOTER_C, 0, 512)]) ms2"
    by (auto simp: entry_type_defs)
  have "vhd_journal_add_footer (jnf p jf q f0 j) = (Inr (), jnf 512 jf2 (0 + 512) f0 k2)"
    using r1 u1 r2 u2 dyn
    by (simp add: vhd_journal_add_footer_def vbind_ok v_seek_end [OF w] v_position [OF w] off footer_bytes_of_disk
        with_j_def)
  then show ?thesis using jsame_trans [OF s1 s2] i2 rc2 by auto
qed

lemma v_read_header:
  assumes "jw j" and "sound_metadata f" and "ctx_of f (j_ctx j)"
  shows "on_vhd (vhd_read_header nowhere) (jnf p jf q f j) = (Inr (disk_hdr f), jnf p jf (hdr_pos f + 1024) f j)"
proof (rule on_vhd_nf)
  let ?s = "j_vhd (jnf p jf q f j)"
  note m = sound_metadataD [OF assms(2)]
  have off: "sint (ftr_data_offset (ctx_footer (j_ctx j))) = int (hdr_pos f)"
    using assms(3) m(3,9) sint_in_file [of "ftr_data_offset (disk_ftr f)" 1024 f] by (simp add: ctx_of_def hdr_pos_def)
  have "vhd_read_header_at nowhere (int (hdr_pos f)) ?s = (Inr (disk_hdr f), st_with (hdr_pos f + 1024) f ?s)"
    using read_header_at_quiet [of ?s f "int (hdr_pos f)" nowhere] jw_quiet [OF assms(1)] m(9,10)
      ctx_of_dynamic [OF assms(2,3)]
    by (simp add: Let_def nowhere_def disk_hdr_def)
  then show "vhd_read_header nowhere ?s = (Inr (disk_hdr f), st_with (hdr_pos f + 1024) f ?s)"
    using off ctx_of_dynamic [OF assms(2,3)] by (simp add: vhd_read_header_def with_ctx_app)
qed

lemma add_header_ok:
  assumes w: "jw j" and inv: "jinv (j_header j) jf ms []" and im: "sound_metadata f0" and c: "ctx_of f0 (j_ctx j)"
    and lm: "length ms < 1073741824" and rs: "recorded f0 rs ms"
  shows "\<exists>jf' q' k ms'. vhd_journal_add_header (jnf p jf q f0 j) = (Inr (), jnf 512 jf' q' f0 k) \<and> jsame j k \<and>
    jinv (j_header k) jf' ms' [] \<and> recorded f0 (rs @ [(VHD_JOURNAL_ENTRY_TYPE_HEADER, hdr_pos f0, 1024)]) ms'"
proof -
  note m = sound_metadataD [OF im]
  have off: "ftr_data_offset (ctx_footer (j_ctx j)) = of_nat (hdr_pos f0)"
    using c by (simp add: ctx_of_def hdr_pos_def)
  have "hdr_bytes (vhd_header_out (disk_hdr f0)) = file_read f0 (hdr_pos f0) 1024"
    unfolding disk_hdr_def by (rule header_bytes_of_disk)
  moreover note add_region [OF w inv _ _ _ m(9) _ lm rs, of VHD_JOURNAL_ENTRY_TYPE_HEADER p "hdr_pos f0 + 1024" f0]
  ultimately show ?thesis
    using v_read_header [OF w im c, of p jf q] off
    by (simp add: vhd_journal_add_header_def vbind_ok with_j_def entry_type_defs) blast
qed

lemma v_get_header:
  assumes "sound_metadata f" and "ctx_of f (j_ctx j)"
  shows "on_vhd vhd_get_header (jnf p jf q f j) = (Inr (), jnf p jf q f j)"
  using sound_metadataD(10) [OF assms(1)] ctx_of_dynamic [OF assms] assms(2)
  by (simp add: on_vhd_def vhd_get_header_def with_ctx_app ctx_of_def vret_def)

text \<open>A region of the file is read.\<close>

lemma v_read_at:
  assumes "jw j" and "off + n \<le> f_size f" and "0 < n" and "sint o' = int off"
  shows "on_vhd (vthen valloc_buf (vthen (vhd_seek (sint o') SEEK_SET) (vhd_read n))) (jnf p jf q f j) =
    (Inr (file_read f off n), jnf p jf (off + n) f j)"
proof -
  have "on_vhd (vhd_read n) (jnf p jf off f j) = (Inr (file_read f off n), jnf p jf (off + n) f j)"
    using read_here_quiet [of "j_vhd (jnf p jf off f j)" f n] assms jw_quiet [OF assms(1)] by (intro on_vhd_nf) simp
  then show ?thesis
    using v_alloc [OF assms(1)] v_seek [OF assms(1), of "int off" p jf q f] assms(4)
    by (simp add: on_vhd_bind vbind_ok)
qed

lemma validate_header_codes:
  "vhd_validate_header h = 0 \<Longrightarrow> l \<in> set (hdr_loc h) \<Longrightarrow> vhd_validate_platform_code (loc_code l) = 0"
  by (auto simp: vhd_validate_header_def errno_simps split: if_splits)

lemma add_locator_loop:
  assumes "jw j" and "jinv (j_header j) jf ms []" and "sound_metadata f0" and "recorded f0 rs ms"
    and "\<forall>l \<in> set ls. good_loc (f_size f0) l \<and> vhd_validate_platform_code (loc_code l) = 0"
    and "length ms + length ls < 1073741824"
  shows "\<exists>p' jf' q' k ms'. vfor ls add_locator (jnf p jf q f0 j) =
      (Inr (), jnf p' jf' q' f0 k) \<and> jsame j k \<and> jinv (j_header k) jf' ms' [] \<and> recorded f0 (rs @ loc_regions ls) ms'"
  using assms
proof (induction ls arbitrary: p jf q j ms rs)
  case Nil
  then show ?case
    by (intro exI [of _ p] exI [of _ jf] exI [of _ q] exI [of _ j] exI [of _ ms]) (simp add: vret_def loc_regions_def)
next
  case (Cons l ls)
  show ?case
  proof (cases "loc_code l = PLAT_CODE_NONE")
    case True
    then have "loc_regions (l # ls) = loc_regions ls" by (simp add: loc_regions_def)
    moreover have "vhd_validate_platform_code PLAT_CODE_NONE = 0" by (simp add: vhd_validate_platform_code_def)
    ultimately show ?thesis using Cons.IH [OF Cons.prems(1-4), of p q] Cons.prems(5,6) True by (simp add: add_locator_def)
  next
    case False
    let ?n = "unat (vhd_parent_locator_size l)" and ?o = "unat (loc_data_offset l)"
    have g: "0 < ?n" "512 dvd ?n" "?n < 4294967296" "?o + ?n \<le> f_size f0"
      using Cons.prems(5) False by (simp_all add: good_loc_def Let_def)
    have off: "sint (loc_data_offset l) = int ?o"
      using g(4) sound_metadataD(3) [OF Cons.prems(3)] by (rule sint_in_file)
    have rg: "rs @ loc_regions (l # ls) = (rs @ [(VHD_JOURNAL_ENTRY_TYPE_LOCATOR, ?o, ?n)]) @ loc_regions ls"
      using False by (simp add: loc_regions_def)
    have lm: "length ms < 1073741824" using Cons.prems(6) by simp
    note r = v_read_at [OF Cons.prems(1) g(4) g(1) off, of p jf q]
    from add_region [OF Cons.prems(1,2) g _ lm Cons.prems(4), of VHD_JOURNAL_ENTRY_TYPE_LOCATOR p "?o + ?n" f0]
    obtain jf1 k1 ms1 where u: "vhd_journal_update (of_nat ?o) (file_read f0 ?o ?n) VHD_JOURNAL_ENTRY_TYPE_LOCATOR
          (jnf p jf (?o + ?n) f0 j) = (Inr (), jnf 512 jf1 (?o + ?n) f0 k1)"
      and s1: "jsame j k1" and i1: "jinv (j_header k1) jf1 ms1 []"
      and rc1: "recorded f0 (rs @ [(VHD_JOURNAL_ENTRY_TYPE_LOCATOR, ?o, ?n)]) ms1"
      by (auto simp: entry_type_defs)
    have w1: "jw k1" using Cons.prems(1) jsame_jw [OF s1] by simp
    have l1: "length ms1 + length ls < 1073741824"
      using Cons.prems(4,6) recorded_length [OF rc1] recorded_length [OF Cons.prems(4)] by simp
    from Cons.IH [OF w1 i1 Cons.prems(3) rc1 _ l1, of 512 "?o + ?n"] Cons.prems(5)
    obtain p2 jf2 q2 k2 ms2 where rest: "vfor ls add_locator (jnf 512 jf1 (?o + ?n) f0 k1) =
        (Inr (), jnf p2 jf2 q2 f0 k2)" and "jsame k1 k2" "jinv (j_header k2) jf2 ms2 []"
      "recorded f0 ((rs @ [(VHD_JOURNAL_ENTRY_TYPE_LOCATOR, ?o, ?n)]) @ loc_regions ls) ms2" by auto
    moreover have "vfor (l # ls) add_locator (jnf p jf q f0 j) =
        (Inr (), jnf p2 jf2 q2 f0 k2)"
      using rest r u False Cons.prems(5) by (simp add: add_locator_def Let_def vbind_ok)
    ultimately show ?thesis unfolding rg using jsame_trans [OF s1] by blast
  qed
qed

lemma add_locators_ok:
  assumes w: "jw j" and inv: "jinv (j_header j) jf ms []" and im: "sound_metadata f0" and c: "ctx_of f0 (j_ctx j)"
    and lm: "length ms < 1000" and rs: "recorded f0 rs ms" and wf: "length (hdr_loc (disk_hdr f0)) = 8"
  shows "\<exists>p' jf' q' k ms'. vhd_journal_add_locators (jnf p jf q f0 j) = (Inr (), jnf p' jf' q' f0 k) \<and> jsame j k \<and>
    jinv (j_header k) jf' ms' [] \<and> recorded f0 (rs @ loc_regions (hdr_loc (disk_hdr f0))) ms'"
proof -
  note m = sound_metadataD [OF im]
  have g: "\<forall>l \<in> set (hdr_loc (disk_hdr f0)). good_loc (f_size f0) l \<and> vhd_validate_platform_code (loc_code l) = 0"
    using m(11) validate_header_codes [OF m(10)] by blast
  have l: "length ms + length (hdr_loc (disk_hdr f0)) < 1073741824" using lm wf by simp
  have h: "ctx_header (j_ctx j) = disk_hdr f0" using c by (simp add: ctx_of_def)
  show ?thesis
    using add_locator_loop [OF w inv im rs g l, of p q]
    by (simp add: vhd_journal_add_locators_def vbind_ok [where m = "on_vhd vhd_get_header", OF v_get_header [OF im c]] with_j_def h)
qed

lemma bat_bytes_bat_of_bytes:
  assumes "4 dvd length bs"
  shows "bat_bytes (bat_of_bytes bs) = bs"
proof (rule nth_equalityI)
  have l: "4 * (length bs div 4) = length bs" using assms by simp
  then show "length (bat_bytes (bat_of_bytes bs)) = length bs" by simp
  fix i assume "i < length (bat_bytes (bat_of_bytes bs))"
  with l have i: "i < length bs" by simp
  have "i div 4 < length bs div 4" using i l by (metis mult.commute less_mult_imp_div_less)
  then have i4: "i div 4 < length (bat_of_bytes bs)" "4 * (i div 4) + 4 \<le> length bs" using l by simp_all
  have f: "field (4 * (i div 4)) 4 (bat_bytes (bat_of_bytes bs)) = field (4 * (i div 4)) 4 bs"
    using field_bat_bytes [OF i4(1)] i4 by (simp add: bat_of_bytes_def le_bytes_field)
  have "field (4 * (i div 4)) 4 xs ! (i mod 4) = xs ! i" if "i < length xs" for xs :: bytes
    using that by (simp add: field_def)
  then show "bat_bytes (bat_of_bytes bs) ! i = bs ! i" using f i l by (metis length_bat_bytes length_bat_of_bytes)
qed

text \<open>\<open>vhd_read_bat\<close> for any dynamic context.\<close>

lemma v_read_bat:
  assumes w: "jw j" and im: "sound_metadata f" and c: "ctx_of f (j_ctx j)"
  defines "b \<equiv> vhd_bat_in \<lparr>bat_spb = drop_bit VHD_SECTOR_SHIFT (hdr_block_size (disk_hdr f)),
    bat_entries = disk_blks f, bat_bat = Some (bat_of_bytes (file_read f (bat_pos f) (bat_len (disk_blks f))))\<rparr>"
  assumes fit: "bat_pos f + bat_len (disk_blks f) \<le> f_size f"
  shows "on_vhd (vhd_read_bat nowhere) (jnf p jf q f j) = (Inr b, jnf p jf (bat_pos f + bat_len (disk_blks f)) f j)"
proof (rule on_vhd_nf)
  let ?s = "j_vhd (jnf p jf q f j)"
  note m = sound_metadataD [OF im]
  have h: "ctx_header (j_ctx j) = disk_hdr f" "ctx_footer (j_ctx j) = disk_ftr f" using c by (simp_all add: ctx_of_def)
  have off: "sint (hdr_table_offset (disk_hdr f)) = int (bat_pos f)"
    using m(3) sint_in_file [of "hdr_table_offset (disk_hdr f)" "bat_len (disk_blks f)" f] fit by (simp add: bat_pos_def)
  have sk: "vhd_seek (int (bat_pos f)) SEEK_SET ?s = (Inr (), at_pos (bat_pos f) ?s)"
    using seek_quiet [of ?s f "int (bat_pos f)"] jw_quiet [OF w] by simp
  have rd: "vhd_read (bat_len (disk_blks f)) (at_pos (bat_pos f) ?s) =
      (Inr (file_read f (bat_pos f) (bat_len (disk_blks f))), st_with (bat_pos f + bat_len (disk_blks f)) f ?s)"
    using read_here_quiet [of "at_pos (bat_pos f) ?s" f "bat_len (disk_blks f)"] jw_quiet [OF w] fit bat_len_facts(1) by simp
  have bl: "vhd_blks (j_ctx j) = disk_blks f" by (simp add: vhd_blks_def disk_blks_def h)
  show "vhd_read_bat nowhere ?s = (Inr b, st_with (bat_pos f + bat_len (disk_blks f)) f ?s)"
    using sk rd m(12) ctx_of_dynamic [OF im c] jw_quiet [OF w]
    by (simp add: vhd_read_bat_def with_ctx_app vonfail_def vcatch_def vbind_ok Let_def valloc_quiet vmodify_def vret_def
        vassert_def b_def bl h off bat_len_def nowhere_def)
qed

lemma bat_fit:
  assumes "sound_metadata f"
  shows "bat_len (disk_blks f) \<le> bat_len (hdr_max_bat_size (disk_hdr f))"
    and "bat_pos f + bat_len (disk_blks f) \<le> f_size f"
proof -
  show "bat_len (disk_blks f) \<le> bat_len (hdr_max_bat_size (disk_hdr f))"
    using sound_metadataD(12) [OF assms] by (rule bat_len_mono)
  then show "bat_pos f + bat_len (disk_blks f) \<le> f_size f" using sound_metadataD(14) [OF assms] by simp
qed

lemma add_bat_ok:
  assumes w: "jw j" and inv: "jinv (j_header j) jf ms []" and im: "sound_metadata f0" and c: "ctx_of f0 (j_ctx j)"
    and lm: "length ms < 1073741824" and rs: "recorded f0 rs ms"
  shows "\<exists>jf' q' k ms'. vhd_journal_add_bat (jnf p jf q f0 j) = (Inr (), jnf 512 jf' q' f0 k) \<and> jsame j k \<and>
    jinv (j_header k) jf' ms' [] \<and> recorded f0 (rs @ [(VHD_JOURNAL_ENTRY_TYPE_BAT, bat_pos f0, bat_len (disk_blks f0))]) ms'"
proof -
  let ?n = "bat_len (disk_blks f0)"
  have off: "hdr_table_offset (ctx_header (j_ctx j)) = of_nat (bat_pos f0)"
    using c by (simp add: ctx_of_def bat_pos_def)
  have n: "?n < 4294967296" using bat_fit(1) [OF im] sound_metadataD(13) [OF im] by simp
  have "4 dvd length (file_read f0 (bat_pos f0) ?n)"
    using bat_len_facts(2) [of "disk_blks f0"] by (simp add: dvd_trans [of 4 512])
  then have "bat_bytes (bat_of_bytes (file_read f0 (bat_pos f0) ?n)) = file_read f0 (bat_pos f0) ?n"
    by (rule bat_bytes_bat_of_bytes)
  moreover note add_region [OF w inv bat_len_facts n bat_fit(2) [OF im] _ lm rs, of VHD_JOURNAL_ENTRY_TYPE_BAT p "bat_pos f0 + ?n" f0]
  ultimately show ?thesis
    using v_read_bat [OF w im c bat_fit(2) [OF im], of p jf q] off
    by (simp add: vhd_journal_add_bat_def vbind_ok [where m = "on_vhd vhd_get_header", OF v_get_header [OF im c]]
        vbind_ok [where m = "on_vhd (vhd_read_bat nowhere)"] with_j_def vhd_bat_in_def vhd_bat_out_def entry_type_defs)
      blast
qed

lemma length_disk_locs: "length (hdr_loc (disk_hdr f)) = 8"
  using hdr_seal.wf_dec [of "file_read f (hdr_pos f) 1024"] by (simp add: disk_hdr_def hdr_wf_def)

lemma length_loc_regions: "length (loc_regions ls) \<le> length ls"
  by (simp add: loc_regions_def)

text \<open>The data of the journal begins behind the metadata.\<close>

definition meta_done :: "vhd_journal_header \<Rightarrow> jitem list \<Rightarrow> bool" where
  "meta_done h ms \<longleftrightarrow> unat (jh_journal_data_offset h) = 512 + length (log_bytes ms)"

lemma jinv_data_offset:
  assumes inv: "jinv h jf ms []"
  defines "h' \<equiv> h\<lparr>jh_journal_data_offset := jh_journal_eof h\<rparr>"
  shows "jinv h' (file_write jf 0 (jh_bytes (vhd_journal_header_out h'))) ms []" and "meta_done h' ms"
proof -
  note i = jinvD [OF inv]
  have wf: "jh_wf h'" using i(1) by (simp add: h'_def jh_wf_def)
  have l: "length (jh_bytes (vhd_journal_header_out h')) = 512" using wf by (simp add: jh_codec.length_enc)
  have "holds (file_write jf 0 (jh_bytes (vhd_journal_header_out h'))) 512 (log_bytes (ms @ []))"
    using i(5) l by (elim holds_write_disjoint) simp
  then show "jinv h' (file_write jf 0 (jh_bytes (vhd_journal_header_out h'))) ms []"
    using inv wf i(3) unfolding jinv_def by (simp add: holds_write size_file_write h'_def)
  show "meta_done h' ms" using i(7) by (simp add: meta_done_def h'_def)
qed

lemma add_metadata_ok:
  assumes w: "jw j" and inv: "jinv (j_header j) jf [] []" and im: "sound_metadata f0" and c: "ctx_of f0 (j_ctx j)"
  shows "\<exists>p' jf' q' k ms. vhd_journal_add_metadata (jnf p jf q f0 j) = (Inr (), jnf p' jf' q' f0 k) \<and> jsame j k \<and>
    jinv (j_header k) jf' ms [] \<and> recorded f0 (meta_regions f0) ms \<and> meta_done (j_header k) ms"
proof -
  from add_footer_ok [OF w inv im c, of p q] obtain jf1 q1 k1 ms1 where
    a1: "vhd_journal_add_footer (jnf p jf q f0 j) = (Inr (), jnf 512 jf1 q1 f0 k1)" and s1: "jsame j k1"
    and i1: "jinv (j_header k1) jf1 ms1 []"
    and r1: "recorded f0 [(VHD_JOURNAL_ENTRY_TYPE_FOOTER_P, f_size f0 - 512, 512), (VHD_JOURNAL_ENTRY_TYPE_FOOTER_C, 0, 512)] ms1"
    by blast
  have w1: "jw k1" and c1: "ctx_of f0 (j_ctx k1)" using w c jsame_jw [OF s1] jsame_ctx [OF s1] by simp_all
  have l1: "length ms1 < 1073741824" using recorded_length [OF r1] by simp
  from add_header_ok [OF w1 i1 im c1 l1 r1, of 512 q1] obtain jf2 q2 k2 ms2 where
    a2: "vhd_journal_add_header (jnf 512 jf1 q1 f0 k1) = (Inr (), jnf 512 jf2 q2 f0 k2)" and s2: "jsame k1 k2"
    and i2: "jinv (j_header k2) jf2 ms2 []"
    and r2: "recorded f0 ([(VHD_JOURNAL_ENTRY_TYPE_FOOTER_P, f_size f0 - 512, 512), (VHD_JOURNAL_ENTRY_TYPE_FOOTER_C, 0, 512)]
      @ [(VHD_JOURNAL_ENTRY_TYPE_HEADER, hdr_pos f0, 1024)]) ms2" by blast
  have w2: "jw k2" and c2: "ctx_of f0 (j_ctx k2)" using w1 c1 jsame_jw [OF s2] jsame_ctx [OF s2] by simp_all
  have l2: "length ms2 < 1000" using recorded_length [OF r2] by simp
  from add_locators_ok [OF w2 i2 im c2 l2 r2 length_disk_locs, of 512 q2] obtain p3 jf3 q3 k3 ms3 where
    a3: "vhd_journal_add_locators (jnf 512 jf2 q2 f0 k2) = (Inr (), jnf p3 jf3 q3 f0 k3)" and s3: "jsame k2 k3"
    and i3: "jinv (j_header k3) jf3 ms3 []"
    and r3: "recorded f0 (([(VHD_JOURNAL_ENTRY_TYPE_FOOTER_P, f_size f0 - 512, 512), (VHD_JOURNAL_ENTRY_TYPE_FOOTER_C, 0, 512)]
      @ [(VHD_JOURNAL_ENTRY_TYPE_HEADER, hdr_pos f0, 1024)]) @ loc_regions (hdr_loc (disk_hdr f0))) ms3" by blast
  have w3: "jw k3" and c3: "ctx_of f0 (j_ctx k3)" using w2 c2 jsame_jw [OF s3] jsame_ctx [OF s3] by simp_all
  have l3: "length ms3 < 1073741824"
    using recorded_length [OF r3] length_loc_regions [of "hdr_loc (disk_hdr f0)"] by (simp add: length_disk_locs)
  from add_bat_ok [OF w3 i3 im c3 l3 r3, of p3 q3] obtain jf4 q4 k4 ms4 where
    a4: "vhd_journal_add_bat (jnf p3 jf3 q3 f0 k3) = (Inr (), jnf 512 jf4 q4 f0 k4)" and s4: "jsame k3 k4"
    and i4: "jinv (j_header k4) jf4 ms4 []" and r4: "recorded f0 (meta_regions f0) ms4"
    by (auto simp: meta_regions_def)
  have w4: "jw k4" and c4: "ctx_of f0 (j_ctx k4)" using w3 c3 jsame_jw [OF s4] jsame_ctx [OF s4] by simp_all
  let ?g = "\<lambda>h. h\<lparr>jh_journal_data_offset := jh_journal_eof h\<rparr>"
  let ?k = "upd_header ?g k4" and ?jf = "file_write jf4 0 (jh_bytes (vhd_journal_header_out (?g (j_header k4))))"
  note j4 = jinv_data_offset [OF i4] and d4 = jinvD [OF i4]
  have nb: "on_vhd vhd_has_batmap (jnf 512 jf4 q4 f0 k4) = (Inr False, jnf 512 jf4 q4 f0 k4)"
    using has_batmap_none [of "j_vhd (jnf 512 jf4 q4 f0 k4)"] ctx_of_no_batmap [OF im c4] by (simp add: on_vhd_def)
  have wh: "vhd_journal_write_header (?g (j_header k4)) (jnf 512 jf4 q4 f0 ?k) = (Inr (), jnf 512 ?jf q4 f0 ?k)"
    using d4 w4 by (intro write_header_ok) (simp_all add: jnf_upd jh_wf_def)
  have "vhd_journal_add_metadata (jnf p jf q f0 j) = (Inr (), jnf 512 ?jf q4 f0 ?k)"
    using a1 a2 a3 a4 wh ctx_of_dynamic [OF im c1]
    by (simp add: vhd_journal_add_metadata_def vbind_ok [where m = "on_vhd vhd_has_batmap", OF nb] vbind_ok
        with_j_def vmodify_def jnf_upd)
  moreover have "jsame j ?k"
    using jsame_trans [OF jsame_trans [OF jsame_trans [OF s1 s2] s3] s4] by (simp add: jsame_def)
  moreover have "jinv (j_header ?k) ?jf ms4 []" "meta_done (j_header ?k) ms4" using j4 by simp_all
  ultimately show ?thesis using r4 by blast
qed

end
