(* ===== verification/Vhd_Journal_Restore.thy ===== *)
theory Vhd_Journal_Restore
  imports Vhd_Journal_Meta
begin

text \<open>
  \<open>vhd_journal_restore_metadata\<close> on a journal that records the metadata of a sound image: whatever the
  image's file holds by now, the entries are played back and the file is cut to its old size.
\<close>

section \<open>Changes of the context\<close>

definition setctx :: "vhd_context \<Rightarrow> vhd_journal \<Rightarrow> vhd_journal" where
  "setctx c j = j\<lparr>j_vhd := (j_vhd j)\<lparr>st_ctx := c\<rparr>\<rparr>"

lemma setctx_simps [simp]:
  "j_ctx (setctx c j) = c" "j_header (setctx c j) = j_header j" "j_junk (setctx c j) = j_junk j"
  "j_jname (setctx c j) = j_jname j" "j_is_block (setctx c j) = j_is_block j"
  "setctx c (setctx d j) = setctx c j" "setctx (j_ctx j) j = j" "st_sys (j_vhd (setctx c j)) = st_sys (j_vhd j)"
  by (simp_all add: setctx_def)

lemma jw_setctx: "ctx_file c = ctx_file (j_ctx j) \<Longrightarrow> jw (setctx c j) = jw j"
  by (simp add: setctx_def jw_def quiet_def)

lemma to_vhd_nf:
  assumes "ctx_file (g (j_ctx j)) = ctx_file (j_ctx j)"
  shows "to_vhd (upd_ctx g) (jnf p jf q f j) = jnf p jf q f (setctx (g (j_ctx j)) j)"
  using assms by (simp add: to_vhd_def upd_ctx_def jnf_def setctx_def)

lemmas put_nf = to_vhd_nf [where g = "\<lambda>c. c\<lparr>ctx_footer := x\<rparr>" for x, folded put_footer_def, simplified]
  to_vhd_nf [where g = "\<lambda>c. c\<lparr>ctx_header := x\<rparr>" for x, folded put_header_def, simplified]
  to_vhd_nf [where g = "\<lambda>c. c\<lparr>ctx_bat := x\<rparr>" for x, folded put_bat_def, simplified]

section \<open>Reading the entries back\<close>

lemma read_footer_type_ok:
  assumes w: "jw j" and h: "holds jf p (item_bytes it)" and ok: "item_ok it" and t: "it_type it = ty"
    and d: "it_data it = file_read f0 off 512" and g: "good_footer (ftr_of_disk (file_read f0 off 512))" and old: "length old = 512"
  shows "vhd_journal_read_footer_type put old ty (jnf p jf q f j) =
    (Inr (ftr_of_disk (it_data it)), put (ftr_of_disk (it_data it)) (jnf (p + 544) jf q f j))"
proof -
  have n: "512 = length (it_data it)" using d by simp
  show ?thesis
    using read_entry_ok [OF w h ok, of q f] read_data_ok(2) [OF w h ok n refl old, of q f] t g
    by (simp add: vhd_journal_read_footer_type_def vbind_ok ftr_of_disk_def good_footer_def vmodify_def vret_def Let_def d add.commute)
qed

lemma read_footer_ok:
  assumes w: "jw j" and h: "holds jf p (item_bytes it)" and ok: "item_ok it" and t: "it_type it = VHD_JOURNAL_ENTRY_TYPE_FOOTER_P"
    and d: "it_data it = file_read f0 off 512" and g: "good_footer (ftr_of_disk (file_read f0 off 512))"
    and wf: "ftr_wf (ctx_footer (j_ctx j))"
  shows "vhd_journal_read_footer (jnf p jf q f j) = (Inr (ftr_of_disk (file_read f0 off 512)),
    jnf (p + 544) jf q f (setctx ((j_ctx j)\<lparr>ctx_footer := ftr_of_disk (file_read f0 off 512)\<rparr>) j))"
  using read_footer_type_ok [OF w h ok t d g, of "ftr_bytes (ctx_footer (j_ctx j))" "\<lambda>f. to_vhd (put_footer f)" q f] wf
  by (simp add: vhd_journal_read_footer_def with_j_def put_nf d)

lemma read_footer_copy_ok:
  assumes w: "jw j" and h: "holds jf p (item_bytes it)" and ok: "item_ok it" and t: "it_type it = VHD_JOURNAL_ENTRY_TYPE_FOOTER_C"
    and d: "it_data it = file_read f0 off 512" and g: "good_footer (ftr_of_disk (file_read f0 off 512))"
  shows "vhd_journal_read_footer_copy (jnf p jf q f j) =
    (Inr (ftr_of_disk (file_read f0 off 512)), jnf (p + 544) jf q f j)"
  using read_footer_type_ok [OF w h ok t d g, of "zeros 512" "\<lambda>_ j. j" q f]
  by (simp add: vhd_journal_read_footer_copy_def d)

lemma j_read_header_ok:
  assumes w: "jw j" and h: "holds jf p (item_bytes it)" and ok: "item_ok it" and t: "it_type it = VHD_JOURNAL_ENTRY_TYPE_HEADER"
    and d: "it_data it = file_read f0 off 1024" and g: "vhd_validate_header (hdr_of_disk (file_read f0 off 1024)) = 0"
    and wf: "hdr_wf (ctx_header (j_ctx j))"
  shows "vhd_journal_read_header (jnf p jf q f j) = (Inr (hdr_of_disk (file_read f0 off 1024)),
    jnf (p + 1056) jf q f (setctx ((j_ctx j)\<lparr>ctx_header := hdr_of_disk (file_read f0 off 1024)\<rparr>) j))"
proof -
  have n: "1024 = length (it_data it)" using d by simp
  have old: "length (hdr_bytes (ctx_header (j_ctx j))) = 1024" using wf by simp
  show ?thesis
    using read_entry_ok [OF w h ok, of q f] read_data_ok(2) [OF w h ok n refl old, of q f] t g
    by (simp add: vhd_journal_read_header_def vbind_ok with_j_def hdr_of_disk_def vmodify_def vret_def Let_def d put_nf add.commute)
qed

lemma read_locators_loop_ok:
  assumes "jw j" and "holds jf p (log_bytes its)" and "holds jf (p + length (log_bytes its)) (item_bytes nx)"
    and "\<forall>it \<in> set its. item_ok it \<and> it_type it = VHD_JOURNAL_ENTRY_TYPE_LOCATOR" and "item_ok nx"
    and "it_type nx \<noteq> VHD_JOURNAL_ENTRY_TYPE_LOCATOR" and "length its \<le> room"
  shows "read_locators_loop room acc (jnf p jf q f j) =
    (Inr (acc @ map it_data its), jnf (p + length (log_bytes its)) jf q f j)"
  using assms
proof (induction its arbitrary: room acc p)
  case Nil
  have e: "vhd_journal_read_entry (jnf p jf q f j) = (Inr (entry_of nx), jnf (p + 32) jf q f j)"
    using read_entry_ok [OF Nil.prems(1) _ Nil.prems(5)] Nil.prems(3) by simp
  show ?case
    using Nil.prems(6) e j_seek [OF Nil.prems(1), of "int p"]
    by (cases room) (simp_all add: vbind_ok [where m = vhd_journal_position, OF j_position [OF Nil.prems(1)]] vbind_ok vret_def)
next
  case (Cons it its)
  from Cons.prems(7) obtain r where room: "room = Suc r" and r: "length its \<le> r" by (cases room) auto
  have ok: "item_ok it" "it_type it = VHD_JOURNAL_ENTRY_TYPE_LOCATOR" using Cons.prems(4) by simp_all
  have h: "holds jf p (item_bytes it)" "holds jf (p + length (item_bytes it)) (log_bytes its)"
    using Cons.prems(2) by (simp_all add: holds_append)
  have d: "data_ok (it_data it)" using ok(1) by (simp add: item_ok_def)
  have l: "p + length (item_bytes it) = p + 32 + length (it_data it)" using ok(1) by simp
  have IH: "read_locators_loop r (acc @ [it_data it]) (jnf (p + 32 + length (it_data it)) jf q f j) =
      (Inr ((acc @ [it_data it]) @ map it_data its), jnf (p + 32 + length (it_data it) + length (log_bytes its)) jf q f j)"
    using Cons.IH [OF Cons.prems(1), of "p + 32 + length (it_data it)" r "acc @ [it_data it]"] h(2) Cons.prems(3-6) r
    by (simp add: l add.assoc)
  show ?case
    using read_entry_ok [OF Cons.prems(1) h(1) ok(1), of q f] read_data_ok(1) [OF Cons.prems(1) h(1) ok(1) refl refl, of q f] IH ok
    by (simp add: room vbind_ok [where m = vhd_journal_position, OF j_position [OF Cons.prems(1)]] vbind_ok v_alloc [OF Cons.prems(1)] unat_data [OF d] add.assoc)
qed

lemma j_read_bat_ok:
  assumes w: "jw j" and h: "holds jf p (item_bytes it)" and ok: "item_ok it" and r: "records f0 (VHD_JOURNAL_ENTRY_TYPE_BAT, bat_pos f0, bat_len (disk_blks f0)) it"
    and hd: "ctx_header (j_ctx j) = disk_hdr f0" and im: "sound_image f0"
  defines "b \<equiv> vhd_bat_in \<lparr>bat_spb = drop_bit VHD_SECTOR_SHIFT (hdr_block_size (disk_hdr f0)),
    bat_entries = hdr_max_bat_size (disk_hdr f0), bat_bat = Some (bat_of_bytes (it_data it))\<rparr>"
  shows "vhd_journal_read_bat (jnf p jf q f j) =
    (Inr (), jnf (p + 32 + bat_len (disk_blks f0)) jf q f (setctx ((j_ctx j)\<lparr>ctx_bat := b\<rparr>) j))"
proof -
  let ?n = "bat_len (disk_blks f0)"
  have m: "sound_metadata f0" and eq: "?n = bat_len (hdr_max_bat_size (disk_hdr f0))"
    using im by (simp_all add: sound_image_def)
  have it: "it_type it = VHD_JOURNAL_ENTRY_TYPE_BAT" "it_off it = hdr_table_offset (disk_hdr f0)" "length (it_data it) = ?n"
    using r by (simp_all add: records_def bat_pos_def)
  have n: "?n < 4294967296" using sound_metadataD(13) [OF m] eq by simp
  have u: "unat (of_nat ?n :: u32) = ?n" using n by (intro unat_of_nat_u32) simp
  have "unat (ucast (of_nat ?n :: u32) :: u64) = ?n" by (simp only: unat_ucast_u64 u)
  also have "\<dots> = unat (vhd_bytes_padded (ucast (hdr_max_bat_size (disk_hdr f0)) * 4))"
    by (simp only: eq) (simp only: bat_len_def)
  finally have sz: "(ucast (of_nat ?n :: u32) :: u64) = vhd_bytes_padded (ucast (hdr_max_bat_size (disk_hdr f0)) * 4)"
    by (simp only: word_unat_eq_iff)
  show ?thesis
    using read_entry_ok [OF w h ok, of q f] read_data_ok(1) [OF w h ok it(3) [symmetric] refl, of q f] it sz u
    by (simp add: vhd_journal_read_bat_def with_j_def Let_def vbind_ok v_alloc [OF w] hd vcatch_def vmodify_def put_nf b_def
        entry_type_defs)
qed

section \<open>Writing them to the image\<close>

lemma good_footer_seal: "good_footer f \<Longrightarrow> f\<lparr>ftr_checksum := vhd_checksum_footer f\<rparr> = f"
  using validate_footer_accepts [of f] by (simp add: good_footer_def)

lemma good_footer_cookie: "good_footer f \<Longrightarrow> ftr_cookie f = HD_COOKIE \<or> ftr_cookie f = VHD_POISON_COOKIE"
  by (auto simp: good_footer_def vhd_validate_footer_def errno_simps split: if_splits)

lemma v_write_footer:
  assumes w: "jw j" and g: "good_footer (ftr_of_disk (file_read f0 o' 512))" and nb: "\<not> f_blk f"
  shows "on_vhd (vhd_write_footer_at (ftr_of_disk (file_read f0 o' 512)) (int off)) (jnf p jf q f j) =
    (Inr (), jnf p jf (off + 512) (file_write f off (file_read f0 o' 512)) j)"
proof (rule on_vhd_nf)
  let ?F = "ftr_of_disk (file_read f0 o' 512)"
  have "ftr_wf ?F" by (simp add: ftr_seal.wf_dec)
  moreover have "ftr_disk_bytes ?F = file_read f0 o' 512" by (simp add: ftr_seal.enc_dec)
  ultimately show "vhd_write_footer_at ?F (int off) (j_vhd (jnf p jf q f j)) =
      (Inr (), st_with (off + 512) (file_write f off (file_read f0 o' 512)) (j_vhd (jnf p jf q f j)))"
    using write_footer_at_quiet [of "j_vhd (jnf p jf q f j)" f "int off" ?F] jw_quiet [OF w] good_footer_cookie [OF g] nb
    by (simp add: good_footer_seal [OF g])
qed

lemma v_write_header:
  assumes w: "jw j" and g: "vhd_validate_header (hdr_of_disk (file_read f0 o' 1024)) = 0" and nb: "\<not> f_blk f"
    and dyn: "vhd_type_dynamic (j_ctx j)"
  shows "on_vhd (vhd_write_header_at (hdr_of_disk (file_read f0 o' 1024)) (int off)) (jnf p jf q f j) =
    (Inr (), jnf p jf (off + 1024) (file_write f off (file_read f0 o' 1024)) j)"
proof (rule on_vhd_nf)
  let ?H = "hdr_of_disk (file_read f0 o' 1024)"
  have "hdr_wf ?H" by (simp add: hdr_seal.wf_dec)
  moreover have "hdr_disk_bytes ?H = file_read f0 o' 1024" by (simp add: hdr_seal.enc_dec)
  moreover have "?H\<lparr>hdr_checksum := vhd_checksum_header ?H\<rparr> = ?H" using validate_header_checksum [OF g] by simp
  ultimately show "vhd_write_header_at ?H (int off) (j_vhd (jnf p jf q f j)) =
      (Inr (), st_with (off + 1024) (file_write f off (file_read f0 o' 1024)) (j_vhd (jnf p jf q f j)))"
    using write_header_at_quiet [of "j_vhd (jnf p jf q f j)" f "int off" ?H] jw_quiet [OF w] nb dyn g by simp
qed

lemma unat_off: "off + n \<le> f_size f0 \<Longrightarrow> f_size f0 < 2 ^ 63 \<Longrightarrow> unat (of_nat off :: u64) = off"
  by (simp add: unat_of_nat_small)

lemma sint_of_nat: "n < 2 ^ 63 \<Longrightarrow> sint (of_nat n :: u64) = int n"
  by (subst sint_small) (simp_all add: unat_of_nat_small)

lemma restore_locators_ok:
  assumes "jw j" and "f_size f0 < 2 ^ 63" and "recorded f0 (loc_regions ls) its" and "\<forall>it \<in> set its. item_ok it"
    and "\<not> f_blk f"
  shows "\<exists>q'. restore_locators ls (map it_data its) (jnf p jf q f j) = (Inr (), jnf p jf q' (play its f) j)"
  using assms
proof (induction ls arbitrary: its f q)
  case Nil
  then show ?case by (auto simp: loc_regions_def vret_def)
next
  case (Cons l ls)
  show ?case
  proof (cases "loc_code l = PLAT_CODE_NONE")
    case True
    then have "loc_regions (l # ls) = loc_regions ls" by (simp add: loc_regions_def)
    with Cons.IH [OF Cons.prems(1,2), of its f q] Cons.prems(3-5) True show ?thesis
      by (cases its) (auto simp: vret_def)
  next
    case False
    let ?o = "unat (loc_data_offset l)" and ?n = "unat (vhd_parent_locator_size l)"
    have "loc_regions (l # ls) = (VHD_JOURNAL_ENTRY_TYPE_LOCATOR, ?o, ?n) # loc_regions ls"
      using False by (simp add: loc_regions_def)
    with Cons.prems(3) obtain it xs where its: "its = it # xs"
      and r: "records f0 (VHD_JOURNAL_ENTRY_TYPE_LOCATOR, ?o, ?n) it" and rs: "recorded f0 (loc_regions ls) xs"
      by (auto elim: recorded_ConsE)
    have it: "it_off it = loc_data_offset l" "length (it_data it) = ?n" "?o + ?n \<le> f_size f0"
      using r by (simp_all add: records_def)
    have dn: "it_data it \<noteq> []" using Cons.prems(4) by (simp add: its item_ok_def data_ok_def)
    have off: "sint (loc_data_offset l) = int ?o" using it(3) Cons.prems(2) by (rule sint_in_file)
    from Cons.IH [OF Cons.prems(1,2) rs, of "file_write f ?o (it_data it)" "?o + ?n"] Cons.prems(4,5)
    obtain q' where "restore_locators ls (map it_data xs) (jnf p jf (?o + ?n) (file_write f ?o (it_data it)) j) =
        (Inr (), jnf p jf q' (play xs (file_write f ?o (it_data it))) j)" by (auto simp: its size_file_write)
    then show ?thesis
      using v_seek [OF Cons.prems(1), of "int ?o" p jf q f] v_write [OF Cons.prems(1) dn Cons.prems(5), of p jf ?o] False it off
      by (intro exI [of _ q']) (simp add: its vbind_ok vdefined_def vret_def)
  qed
qed

lemma restore_bat_ok:
  assumes w: "jw j" and r: "records f0 (VHD_JOURNAL_ENTRY_TYPE_BAT, bat_pos f0, bat_len (disk_blks f0)) it"
    and im: "sound_image f0" and hd: "ctx_header (j_ctx j) = disk_hdr f0" and dyn: "vhd_type_dynamic (j_ctx j)"
    and b: "ctx_bat (j_ctx j) = vhd_bat_in \<lparr>bat_spb = sp, bat_entries = hdr_max_bat_size (disk_hdr f0),
      bat_bat = Some (bat_of_bytes (it_data it))\<rparr>" and nb: "\<not> f_blk f"
  shows "on_vhd (vhd_write_bat (ctx_bat (j_ctx j))) (jnf p jf q f j) =
    (Inr (), jnf p jf (bat_pos f0 + bat_len (disk_blks f0)) (file_write f (bat_pos f0) (it_data it)) j)"
proof (rule on_vhd_nf)
  let ?s = "j_vhd (jnf p jf q f j)" and ?n = "bat_len (disk_blks f0)"
  have m: "sound_metadata f0" and eq: "?n = bat_len (hdr_max_bat_size (disk_hdr f0))"
    using im by (simp_all add: sound_image_def)
  have l: "length (it_data it) = ?n" using r by (simp add: records_def)
  have dv: "4 dvd ?n" using bat_len_facts(2) [of "disk_blks f0"] by (simp add: dvd_trans [of 4 512])
  then have n4: "4 * (?n div 4) = ?n" by simp
  have ne: "it_data it \<noteq> []" using l bat_len_facts(1) [of "disk_blks f0"] by force
  have off: "sint (hdr_table_offset (disk_hdr f0)) = int (bat_pos f0)"
    using bat_fit(2) [OF m] sound_metadataD(3) [OF m] sint_in_file [of "hdr_table_offset (disk_hdr f0)" ?n f0]
    by (simp add: bat_pos_def)
  have bb: "bat_bytes (bat_of_bytes (it_data it)) = it_data it" using l dv by (intro bat_bytes_bat_of_bytes) simp
  have sz: "unat (vhd_bytes_padded (ucast (hdr_max_bat_size (disk_hdr f0)) * 4)) = ?n" by (simp only: eq) (simp only: bat_len_def)
  have wr: "vhd_write (it_data it) (at_pos (bat_pos f0) ?s) =
      (Inr (), st_with (bat_pos f0 + ?n) (file_write f (bat_pos f0) (it_data it)) ?s)"
    using write_here_quiet [of "at_pos (bat_pos f0) ?s" f "it_data it"] jw_quiet [OF w] ne nb l by simp
  have sk: "vhd_seek (int (bat_pos f0)) SEEK_SET ?s = (Inr (), at_pos (bat_pos f0) ?s)"
    using seek_quiet [of ?s f "int (bat_pos f0)"] jw_quiet [OF w] by simp
  show "vhd_write_bat (ctx_bat (j_ctx j)) ?s =
      (Inr (), st_with (bat_pos f0 + ?n) (file_write f (bat_pos f0) (it_data it)) ?s)"
    using sk wr dyn jw_quiet [OF w] n4
    by (simp add: vhd_write_bat_def with_ctx_app b vhd_validate_bat_def vhd_bat_in_def vhd_bat_out_def Let_def hd off
        sz l bb vbind_ok valloc_quiet vdefined_def vret_def)
qed

definition cut :: "nat \<Rightarrow> vfile \<Rightarrow> vfile" where
  "cut n f = f\<lparr>f_data := (\<lambda>i. if i < n \<and> i < f_size f then f_data f i else 0), f_size := n\<rparr>"

lemma v_truncate:
  assumes "jw j" and "\<not> f_blk f" and "m (j_vhd (jnf p jf q f j)) = (case ftruncate (int n) (j_vhd (jnf p jf q f j)) of
    (r, s) \<Rightarrow> (if r = 0 then Inr () else e r s, s))"
  shows "on_vhd m (jnf p jf q f j) = (Inr (), jnf p jf q (cut n f) j)"
proof (rule on_vhd_nf)
  let ?s = "j_vhd (jnf p jf q f j)"
  have "ftruncate (int n) ?s = (0, set_cur_file (cut n f) ?s)"
    using ftruncate_quiet [of ?s f "int n"] jw_quiet [OF assms(1)] assms(2) by (simp add: cut_def)
  moreover have "set_cur_file (cut n f) ?s = st_with q (cut n f) ?s"
    by (simp add: st_with_def set_cur_file_def at_pos_def set_errno_def jnf_def)
  ultimately show "m ?s = (Inr (), st_with q (cut n f) ?s)" using assms(3) by simp
qed

section \<open>The whole restore\<close>

text \<open>The context that was parsed from the journal.\<close>

definition parsed :: "vfile \<Rightarrow> vhd_context \<Rightarrow> vhd_context" where
  "parsed f0 c = c\<lparr>ctx_header := disk_hdr f0, ctx_bat := vhd_bat_in
     \<lparr>bat_spb = drop_bit VHD_SECTOR_SHIFT (hdr_block_size (disk_hdr f0)), bat_entries = hdr_max_bat_size (disk_hdr f0),
      bat_bat = Some (bat_of_bytes (file_read f0 (bat_pos f0) (bat_len (disk_blks f0))))\<rparr>\<rparr>"

lemma has_no_batmap:
  assumes "sound_metadata f0" and "ctx_footer (j_ctx j) = disk_ftr f0"
  shows "on_vhd vhd_has_batmap (jnf p jf q f j) = (Inr False, jnf p jf q f j)"
proof -
  have "no_batmap (j_ctx j)"
    using sound_metadataD(8) [OF assms(1)] assms(2) by (simp add: no_batmap_def no_map_def vhd_creator_tapdisk_def)
  then show ?thesis using has_batmap_none [of "j_vhd (jnf p jf q f j)"] by (simp add: on_vhd_def)
qed

lemma loc_regions_items:
  assumes "recorded f0 (loc_regions ls) its"
  shows "\<forall>it \<in> set its. it_type it = VHD_JOURNAL_ENTRY_TYPE_LOCATOR"
    and "length its = length (filter (\<lambda>l. loc_code l \<noteq> PLAT_CODE_NONE) ls)"
proof -
  show "length its = length (filter (\<lambda>l. loc_code l \<noteq> PLAT_CODE_NONE) ls)"
    using recorded_length [OF assms] by (simp add: loc_regions_def)
  show "\<forall>it \<in> set its. it_type it = VHD_JOURNAL_ENTRY_TYPE_LOCATOR"
  proof
    fix it assume "it \<in> set its"
    then obtain i where i: "i < length its" "it = its ! i" by (auto simp: in_set_conv_nth)
    then have "records f0 (loc_regions ls ! i) it" "i < length (loc_regions ls)"
      using assms by (simp_all add: recorded_def list_all2_conv_all_nth)
    moreover from this(2) have "fst (loc_regions ls ! i) = VHD_JOURNAL_ENTRY_TYPE_LOCATOR" by (simp add: loc_regions_def)
    ultimately show "it_type it = VHD_JOURNAL_ENTRY_TYPE_LOCATOR"
      by (cases "loc_regions ls ! i") (auto simp: records_def)
  qed
qed

text \<open>The entries in front of the table are read back, whatever its length.\<close>

lemma restore_read_front:
  assumes w: "jw j" and m: "sound_metadata f0" and ms: "recorded f0 (loc_regions (hdr_loc (disk_hdr f0))) ls"
    and r2: "records f0 (VHD_JOURNAL_ENTRY_TYPE_FOOTER_C, 0, 512) i2" and r3: "records f0 (VHD_JOURNAL_ENTRY_TYPE_HEADER, hdr_pos f0, 1024) i3"
    and r4: "it_type i4 = VHD_JOURNAL_ENTRY_TYPE_BAT"
    and ok: "\<forall>it \<in> set (i2 # i3 # ls @ [i4]). item_ok it" and h: "holds jf p (log_bytes (i2 # i3 # ls @ [i4]))"
    and wf: "hdr_wf (ctx_header (j_ctx j))"
  shows "restore_read (jnf p jf q f j) = vthen vhd_journal_read_bat (vbind (on_vhd vhd_has_batmap) (\<lambda>hb.
      vthen (if hb then vhd_journal_read_batmap else vret ()) (vret (Some (disk_copy f0, map it_data ls)))))
    (jnf (p + 544 + 1056 + length (log_bytes ls)) jf q f (setctx ((j_ctx j)\<lparr>ctx_header := disk_hdr f0\<rparr>) j))"
    and "holds jf (p + 544 + 1056 + length (log_bytes ls)) (item_bytes i4)"
proof -
  note mm = sound_metadataD [OF m]
  let ?c3 = "(j_ctx j)\<lparr>ctx_header := disk_hdr f0\<rparr>"
  let ?j3 = "setctx ?c3 j"
  have w3: "jw ?j3" using w by (simp add: jw_setctx)
  let ?p2 = "p + 544" and ?p3 = "p + 544 + 1056" and ?p4 = "p + 544 + 1056 + length (log_bytes ls)"
  have d2: "it_type i2 = VHD_JOURNAL_ENTRY_TYPE_FOOTER_C" "it_data i2 = file_read f0 0 512" using r2 by (simp_all add: records_def)
  have d3: "it_type i3 = VHD_JOURNAL_ENTRY_TYPE_HEADER" "it_data i3 = file_read f0 (hdr_pos f0) 1024"
    using r3 by (simp_all add: records_def)
  have len: "length (item_bytes i2) = 544" "length (item_bytes i3) = 1056"
    using ok d2 d3 by simp_all
  have h2: "holds jf p (item_bytes i2)" and h3: "holds jf ?p2 (item_bytes i3)" and hl: "holds jf ?p3 (log_bytes ls)"
    and h4: "holds jf ?p4 (item_bytes i4)"
    using h len by (simp_all add: holds_append add.assoc)
  show "holds jf ?p4 (item_bytes i4)" by (rule h4)
  have "good_footer (ftr_of_disk (file_read f0 0 512))" using mm(5) by (simp add: disk_copy_def)
  from read_footer_copy_ok [OF w h2 _ d2 this, of q f] ok
  have c1: "vhd_journal_read_footer_copy (jnf p jf q f j) = (Inr (disk_copy f0), jnf ?p2 jf q f j)"
    by (simp add: disk_copy_def)
  have "vhd_validate_header (hdr_of_disk (file_read f0 (hdr_pos f0) 1024)) = 0" using mm(10) by (simp add: disk_hdr_def)
  from j_read_header_ok [OF w h3 _ d3 this wf, of q f] ok
  have c2: "vhd_journal_read_header (jnf ?p2 jf q f j) = (Inr (disk_hdr f0), jnf ?p3 jf q f ?j3)"
    by (simp add: disk_hdr_def)
  note lt = loc_regions_items [OF ms]
  have l8: "length ls \<le> 8" using lt(2) length_filter_le [of _ "hdr_loc (disk_hdr f0)"] by (simp add: length_disk_locs)
  have nl: "it_type i4 \<noteq> VHD_JOURNAL_ENTRY_TYPE_LOCATOR" using r4 by (simp add: entry_type_defs)
  have it: "\<forall>it \<in> set ls. item_ok it \<and> it_type it = VHD_JOURNAL_ENTRY_TYPE_LOCATOR" using ok lt(1) by simp
  have ok4: "item_ok i4" using ok by simp
  have "read_locators_loop 8 [] (jnf ?p3 jf q f ?j3) = (Inr ([] @ map it_data ls), jnf ?p4 jf q f ?j3)"
    by (rule read_locators_loop_ok [OF w3 hl h4 it ok4 nl l8])
  then have c3: "vhd_journal_read_locators (jnf ?p3 jf q f ?j3) = (Inr (map it_data ls), jnf ?p4 jf q f ?j3)"
    by (simp add: vhd_journal_read_locators_def vbind_ok v_alloc [OF w3])
  have codes: "\<not> (\<exists>loc \<in> set (hdr_loc (disk_hdr f0)). vhd_validate_platform_code (loc_code loc) \<noteq> 0)"
    using validate_header_codes [OF mm(10)] by blast
  have locs: "vbind (if length (filter (\<lambda>loc. loc_code loc \<noteq> PLAT_CODE_NONE) (hdr_loc (disk_hdr f0))) = 0 then vret []
      else vbind vhd_journal_read_locators (\<lambda>locators.
        if length (filter (\<lambda>loc. loc_code loc \<noteq> PLAT_CODE_NONE) (hdr_loc (disk_hdr f0))) \<noteq> length locators
        then vfail (- EINVAL) else vret locators)) k (jnf ?p3 jf q f ?j3) = k (map it_data ls) (jnf ?p4 jf q f ?j3)" for k
  proof -
    have e: "filter (\<lambda>loc. loc_code loc \<noteq> PLAT_CODE_NONE) (hdr_loc (disk_hdr f0)) = [] \<longleftrightarrow> ls = []"
      using lt(2) by (metis length_0_conv)
    show ?thesis using c3 lt(2) e by (cases "ls = []") (simp_all add: vbind_ok)
  qed
  show "restore_read (jnf p jf q f j) = vthen vhd_journal_read_bat (vbind (on_vhd vhd_has_batmap) (\<lambda>hb.
      vthen (if hb then vhd_journal_read_batmap else vret ()) (vret (Some (disk_copy f0, map it_data ls))))) (jnf ?p4 jf q f ?j3)"
    unfolding restore_read_def Let_def vbind_ok [where m = vhd_journal_read_footer_copy, OF c1]
      vbind_ok [where m = vhd_journal_read_header, OF c2] if_not_P [OF codes] locs by (rule refl)
qed

lemma restore_read_ok:
  assumes w: "jw j" and im: "sound_image f0" and ms: "recorded f0 (loc_regions (hdr_loc (disk_hdr f0))) ls"
    and r2: "records f0 (VHD_JOURNAL_ENTRY_TYPE_FOOTER_C, 0, 512) i2" and r3: "records f0 (VHD_JOURNAL_ENTRY_TYPE_HEADER, hdr_pos f0, 1024) i3"
    and r4: "records f0 (VHD_JOURNAL_ENTRY_TYPE_BAT, bat_pos f0, bat_len (disk_blks f0)) i4"
    and ok: "\<forall>it \<in> set (i2 # i3 # ls @ [i4]). item_ok it" and h: "holds jf p (log_bytes (i2 # i3 # ls @ [i4]))"
    and c: "ctx_footer (j_ctx j) = disk_ftr f0" and wf: "hdr_wf (ctx_header (j_ctx j))"
  shows "restore_read (jnf p jf q f j) = (Inr (Some (disk_copy f0, map it_data ls)),
    jnf (p + length (log_bytes (i2 # i3 # ls @ [i4]))) jf q f (setctx (parsed f0 (j_ctx j)) j))"
proof -
  have m: "sound_metadata f0" using im by (simp add: sound_image_def)
  let ?j3 = "setctx ((j_ctx j)\<lparr>ctx_header := disk_hdr f0\<rparr>) j" and ?j4 = "setctx (parsed f0 (j_ctx j)) j"
  let ?p4 = "p + 544 + 1056 + length (log_bytes ls)"
  have w3: "jw ?j3" using w by (simp add: jw_setctx)
  have d4: "it_type i4 = VHD_JOURNAL_ENTRY_TYPE_BAT" "it_data i4 = file_read f0 (bat_pos f0) (bat_len (disk_blks f0))"
    using r4 by (simp_all add: records_def)
  note front = restore_read_front [OF w m ms r2 r3 d4(1) ok h wf]
  have ok4: "item_ok i4" using ok by simp
  have c4: "vhd_journal_read_bat (jnf ?p4 jf q f ?j3) = (Inr (), jnf (?p4 + 32 + bat_len (disk_blks f0)) jf q f ?j4)"
    using j_read_bat_ok [OF w3 front(2) ok4 r4 _ im, of q f] c by (simp add: parsed_def d4(2))
  have c5: "on_vhd vhd_has_batmap (jnf p' jf q f ?j4) = (Inr False, jnf p' jf q f ?j4)" for p'
    by (rule has_no_batmap [OF m]) (simp add: parsed_def c)
  have "length (item_bytes i2) = 544" "length (item_bytes i3) = 1056" "length (item_bytes i4) = 32 + bat_len (disk_blks f0)"
    using ok d4 r2 r3 by (simp_all add: records_def)
  then have pe: "p + length (log_bytes (i2 # i3 # ls @ [i4])) = ?p4 + 32 + bat_len (disk_blks f0)" by simp
  show ?thesis
    unfolding pe front(1) vbind_ok [where m = vhd_journal_read_bat, OF c4] vbind_ok [where m = "on_vhd vhd_has_batmap", OF c5]
    by (simp add: vbind_def vret_def)
qed

text \<open>A table shorter than the header allows is refused, and nothing is written to the image.\<close>

lemma read_bat_refused:
  assumes w: "jw j" and h: "holds jf p (item_bytes it)" and ok: "item_ok it"
    and r: "records f0 (VHD_JOURNAL_ENTRY_TYPE_BAT, bat_pos f0, bat_len (disk_blks f0)) it"
    and hd: "ctx_header (j_ctx j) = disk_hdr f0" and m: "sound_metadata f0"
    and ne: "bat_len (disk_blks f0) \<noteq> bat_len (hdr_max_bat_size (disk_hdr f0))"
  shows "vhd_journal_read_bat (jnf p jf q f j) = (Inl (Errno (- EINVAL)), jnf (p + 32) jf q f j)"
proof -
  let ?n = "bat_len (disk_blks f0)"
  have it: "it_type it = VHD_JOURNAL_ENTRY_TYPE_BAT" "length (it_data it) = ?n"
    using r by (simp_all add: records_def)
  have n: "?n < 4294967296" using sound_metadataD(13) [OF m] bat_fit(1) [OF m] by simp
  have "unat (of_nat ?n :: u32) = ?n" using n by (intro unat_of_nat_u32) simp
  then have "unat (ucast (of_nat ?n :: u32) :: u64) = ?n" by (simp only: unat_ucast_u64)
  then have "(ucast (of_nat ?n :: u32) :: u64) \<noteq> vhd_bytes_padded (ucast (hdr_max_bat_size (disk_hdr f0)) * 4)"
    using ne by (metis bat_len_def)
  then show ?thesis
    using read_entry_ok [OF w h ok, of q f] it
    by (simp add: vhd_journal_read_bat_def with_j_def Let_def vbind_ok hd vraise_def)
qed

lemma restore_write_ok:
  assumes w: "jw j" and im: "sound_image f0" and ms: "recorded f0 (loc_regions (hdr_loc (disk_hdr f0))) ls"
    and r2: "records f0 (VHD_JOURNAL_ENTRY_TYPE_FOOTER_C, 0, 512) i2" and r3: "records f0 (VHD_JOURNAL_ENTRY_TYPE_HEADER, hdr_pos f0, 1024) i3"
    and r4: "records f0 (VHD_JOURNAL_ENTRY_TYPE_BAT, bat_pos f0, bat_len (disk_blks f0)) i4"
    and ok: "\<forall>it \<in> set (i2 # i3 # ls @ [i4]). item_ok it" and c: "ctx_footer (j_ctx j) = disk_ftr f0"
    and p: "parsed f0 (j_ctx j) = j_ctx j" and nb: "\<not> f_blk f"
  shows "\<exists>q'. restore_write (disk_copy f0) (map it_data ls) (jnf p jf q f j) =
    (Inr (), jnf p jf q' (play (i2 # i3 # ls @ [i4]) f) j)"
proof -
  have m: "sound_metadata f0" using im by (simp add: sound_image_def)
  note mm = sound_metadataD [OF m]
  have h: "ctx_header (j_ctx j) = disk_hdr f0" by (subst p [symmetric]) (simp add: parsed_def)
  have dyn: "vhd_type_dynamic (j_ctx j)" using mm(7) c by (auto simp: vhd_type_dynamic_def)
  have d2: "it_off i2 = of_nat 0" "it_data i2 = file_read f0 0 512" using r2 by (simp_all add: records_def)
  have d3: "it_off i3 = ftr_data_offset (disk_ftr f0)" "it_data i3 = file_read f0 (hdr_pos f0) 1024"
    using r3 by (simp_all add: records_def hdr_pos_def)
  have d4: "it_off i4 = hdr_table_offset (disk_hdr f0)" "it_data i4 = file_read f0 (bat_pos f0) (bat_len (disk_blks f0))"
    using r4 by (simp_all add: records_def bat_pos_def)
  let ?f2 = "file_write f 0 (it_data i2)"
  let ?f3 = "file_write ?f2 (hdr_pos f0) (it_data i3)"
  let ?f4 = "play ls ?f3"
  have nbs: "\<not> f_blk ?f2" "\<not> f_blk ?f3" "\<not> f_blk ?f4" using nb by (simp_all add: size_file_write)
  have "good_footer (ftr_of_disk (file_read f0 0 512))" using mm(5) by (simp add: disk_copy_def)
  from v_write_footer [OF w this nb, of 0 p jf q]
  have 1: "vhd_journal_restore_footer_copy (disk_copy f0) (jnf p jf q f j) = (Inr (), jnf p jf 512 ?f2 j)"
    by (simp add: vhd_journal_restore_footer_copy_def disk_copy_def d2)
  have off: "sint (ftr_data_offset (disk_ftr f0)) = int (hdr_pos f0)"
    using mm(3,9) sint_in_file [of "ftr_data_offset (disk_ftr f0)" 1024 f0] by (simp add: hdr_pos_def)
  have "vhd_validate_header (hdr_of_disk (file_read f0 (hdr_pos f0) 1024)) = 0" using mm(10) by (simp add: disk_hdr_def)
  from v_write_header [OF w this nbs(1) dyn, of "hdr_pos f0" p jf 512]
  have 2: "with_j (\<lambda>j. vhd_journal_restore_header (ctx_header (j_ctx j))) (jnf p jf 512 ?f2 j) =
      (Inr (), jnf p jf (hdr_pos f0 + 1024) ?f3 j)"
    by (simp add: with_j_def vhd_journal_restore_header_def h c off d3(2)) (simp add: disk_hdr_def)
  have "\<exists>q'. restore_locators (hdr_loc (disk_hdr f0)) (map it_data ls) (jnf p jf (hdr_pos f0 + 1024) ?f3 j) =
      (Inr (), jnf p jf q' ?f4 j)"
    using ok by (intro restore_locators_ok [OF w mm(3) ms _ nbs(2)]) simp
  then obtain q3 where 3: "restore_locators (hdr_loc (disk_hdr f0)) (map it_data ls) (jnf p jf (hdr_pos f0 + 1024) ?f3 j) =
      (Inr (), jnf p jf q3 ?f4 j)" ..
  have "\<exists>q4. (if map it_data ls = [] then vret () else vhd_journal_restore_locators (map it_data ls))
      (jnf p jf (hdr_pos f0 + 1024) ?f3 j) = (Inr (), jnf p jf q4 ?f4 j)"
    using 3 by (cases ls) (auto simp: vhd_journal_restore_locators_def with_j_def h vret_def)
  then obtain q4 where 3: "(if map it_data ls = [] then vret () else vhd_journal_restore_locators (map it_data ls))
      (jnf p jf (hdr_pos f0 + 1024) ?f3 j) = (Inr (), jnf p jf q4 ?f4 j)" ..
  have b: "ctx_bat (j_ctx j) = vhd_bat_in \<lparr>bat_spb = drop_bit VHD_SECTOR_SHIFT (hdr_block_size (disk_hdr f0)),
      bat_entries = hdr_max_bat_size (disk_hdr f0), bat_bat = Some (bat_of_bytes (it_data i4))\<rparr>"
    by (subst p [symmetric]) (simp add: parsed_def d4(2))
  from restore_bat_ok [OF w r4 im h dyn b nbs(3), of p jf q4]
  have 4: "with_j (\<lambda>j. vhd_journal_restore_bat (ctx_bat (j_ctx j))) (jnf p jf q4 ?f4 j) =
      (Inr (), jnf p jf (bat_pos f0 + bat_len (disk_blks f0)) (file_write ?f4 (bat_pos f0) (it_data i4)) j)"
    by (simp add: with_j_def vhd_journal_restore_bat_def)
  have pl: "play (i2 # i3 # ls @ [i4]) f = file_write ?f4 (bat_pos f0) (it_data i4)"
    by (simp add: d2(1) d3(1) d4(1) hdr_pos_def bat_pos_def)
  show ?thesis
    unfolding pl restore_write_def vbind_ok [where m = "vhd_journal_restore_footer_copy _", OF 1] vbind_ok [where m = "with_j _", OF 2]
      vbind_ok [where m = "if _ then _ else _", OF 3] vbind_ok [where m = "with_j _", OF 4]
      vbind_ok [where m = "on_vhd vhd_has_batmap", OF has_no_batmap [OF m c]]
    by (simp add: vret_def) blast
qed

lemma jinv_log_split:
  assumes "jinv h jf ms ds"
  shows "holds jf 512 (log_bytes ms)" and "holds jf (512 + length (log_bytes ms)) (log_bytes ds)"
  using jinvD(5) [OF assms] by (simp_all add: holds_append)

lemma restore_start:
  assumes w: "jw j" and h: "holds jf 512 (item_bytes i1)" and ok: "item_ok i1" and m: "sound_metadata f0"
    and r: "records f0 (VHD_JOURNAL_ENTRY_TYPE_FOOTER_P, f_size f0 - 512, 512) i1" and wf: "ftr_wf (ctx_footer (j_ctx j))"
  shows "vhd_journal_restore_metadata (jnf p jf q f j) =
    vbind restore_read (\<lambda>r. case r of None \<Rightarrow> vret () | Some (copy, locators) \<Rightarrow>
      vthen restore_check (vthen (with_j (\<lambda>j. vhd_journal_restore_footer (ctx_footer (j_ctx j))))
        (vthen (restore_write copy locators) restore_truncate)))
      (jnf 1056 jf q f (setctx ((j_ctx j)\<lparr>ctx_footer := disk_ftr f0\<rparr>) j))"
proof -
  note mm = sound_metadataD [OF m]
  let ?c1 = "(j_ctx j)\<lparr>ctx_footer := disk_ftr f0\<rparr>"
  have d1: "it_type i1 = VHD_JOURNAL_ENTRY_TYPE_FOOTER_P" "it_data i1 = file_read f0 (f_size f0 - 512) 512"
    using r by (simp_all add: records_def)
  have g1: "good_footer (ftr_of_disk (file_read f0 (f_size f0 - 512) 512))" using mm(4) by (simp add: disk_ftr_def)
  have s1: "vhd_journal_seek 512 (jnf p jf q f j) = (Inr (), jnf 512 jf q f j)" using j_seek [OF w, of 512] by simp
  have s2: "vhd_journal_read_footer (jnf 512 jf q f j) = (Inr (disk_ftr f0), jnf 1056 jf q f (setctx ?c1 j))"
    using read_footer_ok [OF w h ok d1 g1 wf, of q f] by (simp add: disk_ftr_def)
  have dyn: "vhd_type_dynamic ?c1" using mm(7) by (auto simp: vhd_type_dynamic_def)
  show ?thesis
    unfolding vhd_journal_restore_metadata_def vbind_ok [where m = "vhd_journal_seek 512", OF s1]
      vbind_ok [where m = vhd_journal_read_footer, OF s2]
    using dyn by (subst with_j_def) simp
qed

text \<open>Restoring plays the metadata back and cuts the file, whatever it holds.\<close>

lemma restore_ok:
  assumes w: "jw j" and inv: "jinv (j_header j) jf ms ds" and im: "sound_image f0" and ms: "recorded f0 (meta_regions f0) ms"
    and md: "meta_done (j_header j) ms" and fo: "jh_vhd_footer_offset (j_header j) = of_nat (f_size f0 - 512)"
    and nb: "\<not> f_blk f" and wf: "ftr_wf (ctx_footer (j_ctx j))" "hdr_wf (ctx_header (j_ctx j))" and bl: "\<not> ctx_is_block (j_ctx j)"
  shows "\<exists>p' q'. vhd_journal_restore_metadata (jnf p jf q f j) =
    (Inr (), jnf p' jf q' (cut (f_size f0) (play ms f)) (setctx (parsed f0 ((j_ctx j)\<lparr>ctx_footer := disk_ftr f0\<rparr>)) j))"
proof -
  have m: "sound_metadata f0" using im by (simp add: sound_image_def)
  note mm = sound_metadataD [OF m] and i = jinvD [OF inv]
  from ms obtain i1 i2 i3 ls i4 where its: "ms = i1 # i2 # i3 # ls @ [i4]"
    and r: "records f0 (VHD_JOURNAL_ENTRY_TYPE_FOOTER_P, f_size f0 - 512, 512) i1" "records f0 (VHD_JOURNAL_ENTRY_TYPE_FOOTER_C, 0, 512) i2"
      "records f0 (VHD_JOURNAL_ENTRY_TYPE_HEADER, hdr_pos f0, 1024) i3"
      "recorded f0 (loc_regions (hdr_loc (disk_hdr f0))) ls" "records f0 (VHD_JOURNAL_ENTRY_TYPE_BAT, bat_pos f0, bat_len (disk_blks f0)) i4"
    by (auto simp: meta_regions_def elim!: recorded_ConsE recorded_appendE)
  have ok: "\<forall>it \<in> set ms. item_ok it" using i(6) by simp
  then have oks: "item_ok i1" "\<forall>it \<in> set (i2 # i3 # ls @ [i4]). item_ok it" by (simp_all add: its)
  let ?lb = "log_bytes (i2 # i3 # ls @ [i4])"
  have d1: "it_type i1 = VHD_JOURNAL_ENTRY_TYPE_FOOTER_P" "it_off i1 = of_nat (f_size f0 - 512)" "it_data i1 = file_read f0 (f_size f0 - 512) 512"
    using r(1) by (simp_all add: records_def)
  have l1: "length (item_bytes i1) = 544" using oks(1) d1 by simp
  have h: "holds jf 512 (item_bytes i1)" "holds jf (512 + 544) ?lb"
    using jinv_log_split(1) [OF inv] l1 unfolding its by (simp_all add: holds_append)
  let ?c1 = "(j_ctx j)\<lparr>ctx_footer := disk_ftr f0\<rparr>"
  let ?j1 = "setctx ?c1 j"
  have w1: "jw ?j1" using w by (simp add: jw_setctx)
  have g1: "good_footer (ftr_of_disk (file_read f0 (f_size f0 - 512) 512))" using mm(4) by (simp add: disk_ftr_def)
  let ?j2 = "setctx (parsed f0 ?c1) j"
  have w2: "jw ?j2" using w by (simp add: jw_setctx parsed_def)
  let ?P = "512 + length (log_bytes ms)"
  have P: "512 + 544 + length ?lb = ?P" using l1 by (simp add: its)
  have s3: "restore_read (jnf (512 + 544) jf q f ?j1) = (Inr (Some (disk_copy f0, map it_data ls)), jnf ?P jf q f ?j2)"
    using restore_read_ok [OF w1 im r(4) r(2,3,5) oks(2) h(2), of q f] wf(2) unfolding P by simp
  then have s3: "restore_read (jnf 1056 jf q f ?j1) = (Inr (Some (disk_copy f0, map it_data ls)), jnf ?P jf q f ?j2)"
    by simp
  have "length (log_bytes ms) \<le> length (log_bytes (ms @ ds))" by simp
  then have Pb: "?P < 2 ^ 63" using i(8) by linarith
  then have "(of_nat ?P :: u64) = jh_journal_data_offset (j_header j)"
    using md unat_of_nat_small [of ?P] by (simp add: meta_done_def word_unat_eq_iff)
  then have s4: "restore_check (jnf ?P jf q f ?j2) = (Inr (), jnf ?P jf q f ?j2)"
    by (simp add: restore_check_def vbind_ok [where m = vhd_journal_position, OF j_position [OF w2]])
  have fo': "sint (jh_vhd_footer_offset (j_header j)) = int (f_size f0 - 512)"
    unfolding fo using mm(3) by (intro sint_of_nat) simp
  have s5: "with_j (\<lambda>j. vhd_journal_restore_footer (ctx_footer (j_ctx j))) (jnf ?P jf q f ?j2) =
      (Inr (), jnf ?P jf (f_size f0 - 512 + 512) (file_write f (f_size f0 - 512) (it_data i1)) ?j2)"
    using v_write_footer [OF w2 g1 nb, of "f_size f0 - 512" ?P jf q]
    by (simp add: with_j_def vhd_journal_restore_footer_def fo' d1(3) parsed_def) (simp add: disk_ftr_def)
  let ?f1 = "file_write f (f_size f0 - 512) (it_data i1)"
  have pl: "play ms f = play (i2 # i3 # ls @ [i4]) ?f1"
    using mm(3) by (simp add: its d1(2) unat_of_nat_small)
  have "\<exists>q'. restore_write (disk_copy f0) (map it_data ls) (jnf ?P jf (f_size f0 - 512 + 512) ?f1 ?j2) =
    (Inr (), jnf ?P jf q' (play (i2 # i3 # ls @ [i4]) ?f1) ?j2)"
    using nb by (intro restore_write_ok [OF w2 im r(4) r(2,3,5) oks(2)]) (simp_all add: parsed_def size_file_write)
  then obtain q6 where s6: "restore_write (disk_copy f0) (map it_data ls) (jnf ?P jf (f_size f0 - 512 + 512) ?f1 ?j2) =
    (Inr (), jnf ?P jf q6 (play ms f) ?j2)" unfolding pl ..
  have "(of_nat (f_size f0 - 512) + 512 :: u64) = of_nat (f_size f0)" using mm(2) by (simp add: of_nat_diff)
  then have tr: "sint (jh_vhd_footer_offset (j_header j) + 512) = int (f_size f0)"
    unfolding fo using mm(3) sint_of_nat [of "f_size f0"] by simp
  have s7: "restore_truncate (jnf ?P jf q6 (play ms f) ?j2) = (Inr (), jnf ?P jf q6 (cut (f_size f0) (play ms f)) ?j2)"
  proof -
    have "on_vhd (\<lambda>s. case ftruncate (int (f_size f0)) s of (r, s) \<Rightarrow> (if r = 0 then Inr () else Inl (Errno r), s))
        (jnf ?P jf q6 (play ms f) ?j2) = (Inr (), jnf ?P jf q6 (cut (f_size f0) (play ms f)) ?j2)"
      by (rule v_truncate [OF w2, where e = "\<lambda>r s. Inl (Errno r)"]) (simp_all add: nb)
    then show ?thesis using bl by (simp add: restore_truncate_def with_j_def tr parsed_def)
  qed
  have "vhd_journal_restore_metadata (jnf p jf q f j) = (Inr (), jnf ?P jf q6 (cut (f_size f0) (play ms f)) ?j2)"
    unfolding restore_start [OF w h(1) oks(1) m r(1) wf(1)]
    by (simp add: vbind_ok [where m = restore_read, OF s3] vbind_ok [where m = restore_check, OF s4]
        vbind_ok [where m = "with_j (\<lambda>j. vhd_journal_restore_footer (ctx_footer (j_ctx j)))", OF s5]
        vbind_ok [where m = "restore_write (disk_copy f0) (map it_data ls)", OF s6] s7)
  then show ?thesis by blast
qed

lemma restore_refused:
  assumes w: "jw j" and inv: "jinv (j_header j) jf ms ds" and m: "sound_metadata f0" and ms: "recorded f0 (meta_regions f0) ms"
    and wf: "ftr_wf (ctx_footer (j_ctx j))" "hdr_wf (ctx_header (j_ctx j))"
    and ne: "bat_len (disk_blks f0) \<noteq> bat_len (hdr_max_bat_size (disk_hdr f0))"
  shows "\<exists>p' c. vhd_journal_restore_metadata (jnf p jf q f j) = (Inl (Errno (- EINVAL)), jnf p' jf q f (setctx c j)) \<and>
    ctx_file c = ctx_file (j_ctx j)"
proof -
  note i = jinvD [OF inv]
  from ms obtain i1 i2 i3 ls i4 where its: "ms = i1 # i2 # i3 # ls @ [i4]"
    and r: "records f0 (VHD_JOURNAL_ENTRY_TYPE_FOOTER_P, f_size f0 - 512, 512) i1" "records f0 (VHD_JOURNAL_ENTRY_TYPE_FOOTER_C, 0, 512) i2"
      "records f0 (VHD_JOURNAL_ENTRY_TYPE_HEADER, hdr_pos f0, 1024) i3"
      "recorded f0 (loc_regions (hdr_loc (disk_hdr f0))) ls" "records f0 (VHD_JOURNAL_ENTRY_TYPE_BAT, bat_pos f0, bat_len (disk_blks f0)) i4"
    by (auto simp: meta_regions_def elim!: recorded_ConsE recorded_appendE)
  have "\<forall>it \<in> set ms. item_ok it" using i(6) by simp
  then have oks: "item_ok i1" "\<forall>it \<in> set (i2 # i3 # ls @ [i4]). item_ok it" by (simp_all add: its)
  have "length (item_bytes i1) = 544" using oks(1) r(1) by (simp add: records_def)
  then have h: "holds jf 512 (item_bytes i1)" "holds jf 1056 (log_bytes (i2 # i3 # ls @ [i4]))"
    using jinv_log_split(1) [OF inv] unfolding its by (simp_all add: holds_append)
  let ?c1 = "(j_ctx j)\<lparr>ctx_footer := disk_ftr f0\<rparr>" and ?c = "(j_ctx j)\<lparr>ctx_footer := disk_ftr f0, ctx_header := disk_hdr f0\<rparr>"
  let ?p4 = "1056 + 544 + 1056 + length (log_bytes ls)"
  have w1: "jw (setctx ?c1 j)" and w3: "jw (setctx ?c j)" using w by (simp_all add: jw_setctx)
  have wf1: "hdr_wf (ctx_header (j_ctx (setctx ?c1 j)))" using wf(2) by simp
  have ty: "it_type i4 = VHD_JOURNAL_ENTRY_TYPE_BAT" using r(5) by (simp add: records_def)
  have ok4: "item_ok i4" using oks(2) by simp
  note front = restore_read_front [OF w1 m r(4) r(2,3) ty oks(2) h(2) wf1]
  have "vhd_journal_read_bat (jnf ?p4 jf q f (setctx ?c j)) = (Inl (Errno (- EINVAL)), jnf (?p4 + 32) jf q f (setctx ?c j))"
    by (rule read_bat_refused [OF w3 front(2) ok4 r(5) _ m ne]) simp
  then have "vhd_journal_restore_metadata (jnf p jf q f j) = (Inl (Errno (- EINVAL)), jnf (?p4 + 32) jf q f (setctx ?c j))"
    unfolding restore_start [OF w h(1) oks(1) m r(1) wf(1)] vbind_def front(1) by simp
  moreover have "ctx_file ?c = ctx_file (j_ctx j)" by simp
  ultimately show ?thesis by blast
qed

end
