(* ===== verification/Vhd_Journal_Undo.thy ===== *)
theory Vhd_Journal_Undo
  imports Vhd_Journal_Restore
begin

text \<open>
  Reverting a journal. \<open>open_quiet\<close> computes \<open>vhd_open\<close> on a sound image, \<open>restored\<close> is the file that
  \<open>vhd_journal_restore_metadata\<close> leaves, and \<open>revert_ok\<close> shows that \<open>vhd_journal_revert\<close> gives every byte
  that an entry of the journal covers the value it had in the file that was recorded, and the file
  its old size, whatever has happened to the file in between.
\<close>

section \<open>Opening a sound image\<close>

definition opened :: "vfile \<Rightarrow> string \<Rightarrow> u32 \<Rightarrow> vhd_context" where
  "opened f name flags = set_block_sizes (ctx_zero\<lparr>ctx_oflags := flags, ctx_file := name,
     ctx_footer := disk_ftr f, ctx_header := disk_hdr f\<rparr>)"

lemma opened_simps [simp]:
  "ctx_file (opened f name flags) = name" "ctx_footer (opened f name flags) = disk_ftr f"
  "ctx_header (opened f name flags) = disk_hdr f" "ctx_is_block (opened f name flags) = False"
  "ctx_bat (opened f name flags) = bat_zero" "ctx_oflags (opened f name flags) = flags"
  "ctx_batmap (opened f name flags) = batmap_zero"
  by (simp_all add: opened_def set_block_sizes_def ctx_zero_def Let_def)

definition plain_flags :: "u32 \<Rightarrow> bool" where
  "plain_flags fl \<longleftrightarrow> fl = VHD_OPEN_RDWR \<or> fl = VHD_OPEN_RDWR OR VHD_OPEN_STRICT"

lemma plain_flagsD:
  assumes "plain_flags fl"
  shows "(if fl AND VHD_OPEN_STRICT \<noteq> 0 then vhd_flag_clear fl VHD_OPEN_FAST else fl) = fl"
    and "fl AND VHD_OPEN_FAST = 0" and "\<not> vhd_flag_test fl VHD_OPEN_CACHED"
  using assms by (auto simp: plain_flags_def VHD_OPEN_RDWR_def VHD_OPEN_STRICT_def VHD_OPEN_FAST_def
      VHD_OPEN_CACHED_def vhd_flag_clear_def vhd_flag_test_def)

lemma open_quiet:
  assumes q: "quiet s" and f: "sys_files (st_sys s) name = Some f" and im: "sound_metadata f"
    and n: "length name < MAX_NAME_LEN" and fl: "plain_flags fl"
  shows "vhd_open lc fuel name fl s = (Inr (), s\<lparr>st_ctx := opened f name fl, st_pos := hdr_pos f + 1024, st_parents := [],
    st_sys := (st_sys s)\<lparr>sys_errno := 0\<rparr>\<rparr>)"
proof -
  note m = sound_metadataD [OF im] and p = plain_flagsD [OF fl]
  let ?c0 = "ctx_zero\<lparr>ctx_oflags := fl\<rparr>"
  let ?c1 = "ctx_zero\<lparr>ctx_oflags := fl, ctx_file := name\<rparr>"
  let ?s0 = "(reset_ctx s)\<lparr>st_ctx := ?c0\<rparr>"
  let ?s1 = "(reset_ctx s)\<lparr>st_ctx := ?c1\<rparr>"
  have q0: "quiet ?s0" and q1: "quiet ?s1" using q by (simp_all add: quiet_def reset_ctx_def)
  have f1: "cur_file ?s1 = Some f" using f by (simp add: cur_file_def reset_ctx_def)
  have bl: "?c1\<lparr>ctx_is_block := False\<rparr> = ?c1" by (simp add: ctx_zero_def)
  have nd: "namedup name ?s0 = (Inr name, ?s0)" using n q0 by (simp add: namedup_def vbind_ok valloc_quiet vret_def)
  have oc: "open_call name ?s0 = (Inr (), ?s1)"
    using f q0 by (simp add: open_call_def stat_call_def take_ev_quiet reset_ctx_def)
  have tf: "vhd_test_file_fixed name ?s1 = (Inr False, ?s1)"
    using f q1 m(1) by (simp add: vhd_test_file_fixed_def stat_call_def take_ev_quiet reset_ctx_def)
  let ?s2 = "st_with (f_size f) f (?s1\<lparr>st_ctx := ?c1\<lparr>ctx_footer := disk_ftr f\<rparr>\<rparr>)"
  obtain k where k: "f_size f = k + 512" using m(2) by (metis le_add_diff_inverse2)
  have rf: "vhd_read_footer put_footer ?s1 = (Inr (disk_ftr f), ?s2)"
  proof -
    have "quiet (at_pos (f_size f) ?s1)" "cur_file (at_pos (f_size f) ?s1) = Some f" using q1 f1 by simp_all
    from read_footer_at_quiet [OF this, of "int k" put_footer]
    have "vhd_read_footer_at put_footer (int (f_size f) - 512) (at_pos (f_size f) ?s1) = (Inr (disk_ftr f), ?s2)"
      using m(4) by (simp add: k disk_ftr_def good_footer_def Let_def put_footer_def upd_ctx_def st_with_def at_pos_def
          set_cur_file_def set_errno_def)
    then show ?thesis
      using q1 f1 by (simp add: vhd_read_footer_def vbind_ok vhd_seek_quiet vhd_position_quiet vcatch_def)
  qed
  have dis: "\<not> vhd_disabled (?c1\<lparr>ctx_footer := disk_ftr f\<rparr>)"
    using m(6) by (simp add: vhd_disabled_def HD_COOKIE_def VHD_POISON_COOKIE_def ascii_def)
  have dyn: "vhd_type_dynamic (?c1\<lparr>ctx_footer := disk_ftr f\<rparr>)" using m(7) by (auto simp: vhd_type_dynamic_def)
  let ?s3 = "st_with (hdr_pos f + 1024) f (?s1\<lparr>st_ctx := ?c1\<lparr>ctx_footer := disk_ftr f, ctx_header := disk_hdr f\<rparr>\<rparr>)"
  have off: "sint (ftr_data_offset (disk_ftr f)) = int (hdr_pos f)"
    using m(3,9) sint_in_file [of "ftr_data_offset (disk_ftr f)" 1024 f] by (simp add: hdr_pos_def)
  have q2: "quiet ?s2" using q1 by (simp add: quiet_def st_with_def set_cur_file_def set_errno_def)
  have f2: "cur_file ?s2 = Some f" by simp
  from read_header_at_quiet [OF q2 f2, of "int (hdr_pos f)" put_header]
  have rh: "vhd_read_header put_header ?s2 = (Inr (disk_hdr f), ?s3)"
    using m(9,10) dyn by (simp add: vhd_read_header_def with_ctx_app off disk_hdr_def Let_def)
      (simp add: put_header_def upd_ctx_def st_with_def at_pos_def set_cur_file_def set_errno_def)
  have s3: "upd_ctx set_block_sizes ?s3 = s\<lparr>st_ctx := opened f name fl, st_pos := hdr_pos f + 1024, st_parents := [],
    st_sys := (st_sys s)\<lparr>sys_errno := 0\<rparr>\<rparr>"
    using f by (simp add: upd_ctx_def st_with_def at_pos_def set_cur_file_def set_errno_def reset_ctx_def opened_def fun_upd_idem)
  let ?R = "s\<lparr>st_ctx := opened f name fl, st_pos := hdr_pos f + 1024, st_parents := [], st_sys := (st_sys s)\<lparr>sys_errno := 0\<rparr>\<rparr>"
  have rz: "st_ctx (reset_ctx s) = ctx_zero" by (simp add: reset_ctx_def)
  have rr: "read_header_retry (VHD_HEADER_MAX_RETRIES - 1) ?s2 = (Inr (), ?s3)"
    using rh by (simp add: VHD_HEADER_MAX_RETRIES_def eval_nat_numeral vcatch_def vbind_ok vret_def)
  have ld: "vhd_cache_load lc fuel ?R = (Inr (), ?R)"
    using p(3) by (simp add: vhd_cache_load_def with_ctx_app vhd_cache_enabled_def vret_def)
  have rest: "with_ctx (\<lambda>ctx. if \<not> vhd_flag_test fl VHD_OPEN_IGNORE_DISABLED \<and> vhd_disabled ctx then vfail (- EINVAL)
      else vthen (if vhd_type_dynamic ctx
        then vthen (read_header_retry (VHD_HEADER_MAX_RETRIES - 1)) (vmodify (upd_ctx set_block_sizes)) else vret ())
        (vhd_cache_load lc fuel)) ?s2 = (Inr (), ?R)"
    using rr ld dis dyn s3 by (simp add: with_ctx_app vbind_ok vmodify_def)
  show ?thesis
    using p(1,2) nd oc tf rf rest
    by (simp add: vhd_open_def vhd_open_core_def Let_def vbind_ok vbind_ok [where m = "vhd_test_file_fixed name", OF tf] vmodify_def upd_ctx_def rz bl)
qed

section \<open>The restored file\<close>

definition restored :: "vfile \<Rightarrow> jitem list \<Rightarrow> vfile \<Rightarrow> vfile" where
  "restored f0 its f = cut (f_size f0) (play its f)"

lemma restored_simps [simp]:
  "f_size (restored f0 its f) = f_size f0" "f_blk (restored f0 its f) = f_blk f"
  by (simp_all add: restored_def cut_def)

lemma play_reach:
  assumes "\<not> f_blk f" and "(\<exists>it \<in> set its. covers it x) \<or> x < f_size f"
  shows "x < f_size (play its f)"
  using assms
proof (induction its arbitrary: f)
  case (Cons it its)
  have "(\<exists>it \<in> set its. covers it x) \<or> x < f_size (file_write f (unat (it_off it)) (it_data it))"
    using Cons.prems by (auto simp: size_file_write covers_def)
  then show ?case using Cons.IH [of "file_write f (unat (it_off it)) (it_data it)"] Cons.prems(1) by (simp add: size_file_write)
qed simp

lemma restored_covered:
  assumes "\<forall>it \<in> set its. snapshot f0 it" and "\<not> f_blk f" and "x < f_size f0"
    and "(\<exists>it \<in> set its. covers it x) \<or> x < f_size f \<and> f_data f x = f_data f0 x"
  shows "f_data (restored f0 its f) x = f_data f0 x"
  using play_covered [OF assms(1,2,4)] play_reach [OF assms(2)] assms(3,4) by (auto simp: restored_def cut_def)

lemma restored_other:
  assumes "\<forall>it \<in> set its. \<not> covers it x" and "\<not> f_blk f" and "x < f_size f" and "x < f_size f0"
  shows "f_data (restored f0 its f) x = f_data f x"
  using play_other [OF assms(1-3)] assms(4) by (simp add: restored_def cut_def)

lemma restored_region:
  assumes r: "recorded f0 rs its" and n: "f_size f0 < 2 ^ 63" and reg: "(t, off, n) \<in> set rs" and nb: "\<not> f_blk f"
  shows "file_read (restored f0 its f) off n = file_read f0 off n"
proof -
  from reg obtain i where i: "i < length rs" "rs ! i = (t, off, n)" by (auto simp: in_set_conv_nth)
  let ?it = "its ! i"
  have l: "i < length its" and rec: "records f0 (t, off, n) ?it"
    using r i by (auto simp: recorded_def list_all2_conv_all_nth)
  then have it: "?it \<in> set its" "unat (it_off ?it) = off" "length (it_data ?it) = n" "off + n \<le> f_size f0"
    using n by (simp_all add: records_def unat_of_nat_small)
  have sn: "\<forall>it \<in> set its. snapshot f0 it" using recorded_snapshot [OF r n] by blast
  have "f_data (restored f0 its f) x = f_data f0 x" if "off \<le> x" "x < off + n" for x
  proof (rule restored_covered [OF sn nb])
    show "x < f_size f0" using that it(4) by linarith
    have "covers ?it x" using that it(2,3) by (simp add: covers_def)
    then show "(\<exists>it \<in> set its. covers it x) \<or> x < f_size f \<and> f_data f x = f_data f0 x" using it(1) by blast
  qed
  then show ?thesis by (simp add: file_read_def)
qed

lemma restored_sound:
  assumes im: "sound_metadata f0" and r: "recorded f0 (meta_regions f0) ms" and nb: "\<not> f_blk f"
  defines "g \<equiv> restored f0 ms f"
  shows "disk_ftr g = disk_ftr f0" and "disk_copy g = disk_copy f0" and "hdr_pos g = hdr_pos f0" and "disk_hdr g = disk_hdr f0"
    and "sound_metadata g"
proof -
  note m = sound_metadataD [OF im]
  have reg: "file_read g off n = file_read f0 off n" if "(t, off, n) \<in> set (meta_regions f0)" for t off n
    unfolding g_def using restored_region [OF r m(3) that nb] .
  show 1: "disk_ftr g = disk_ftr f0"
    using reg [of VHD_JOURNAL_ENTRY_TYPE_FOOTER_P "f_size f0 - 512" 512] by (simp add: disk_ftr_def meta_regions_def g_def)
  show 2: "disk_copy g = disk_copy f0"
    using reg [of VHD_JOURNAL_ENTRY_TYPE_FOOTER_C 0 512] by (simp add: disk_copy_def meta_regions_def)
  show 3: "hdr_pos g = hdr_pos f0" by (simp add: hdr_pos_def 1)
  show 4: "disk_hdr g = disk_hdr f0"
    using reg [of VHD_JOURNAL_ENTRY_TYPE_HEADER "hdr_pos f0" 1024] by (simp add: disk_hdr_def 3 meta_regions_def)
  have 5: "bat_pos g = bat_pos f0" "disk_blks g = disk_blks f0" by (simp_all add: bat_pos_def disk_blks_def 1 4)
  show "sound_metadata g"
    using im nb unfolding sound_metadata_def 1 2 3 4 5 by (simp add: g_def)
qed

section \<open>The error number\<close>

text \<open>A restore does not depend on the \<open>errno\<close> it finds: the first read of the journal clears it.\<close>

definition set_jerrno :: "int \<Rightarrow> vhd_journal \<Rightarrow> vhd_journal" where
  "set_jerrno e j = j\<lparr>j_vhd := set_errno e (j_vhd j)\<rparr>"

lemma read_buf_errno: "vhd_journal_read_buf buf n (set_jerrno e j) = vhd_journal_read_buf buf n j"
  by (simp add: vhd_journal_read_buf_def on_jfd_def vbind_def vmodify_def set_jerrno_def jfd_state_def set_errno_def
      split: prod.split sum.split)

lemma bind_errno: "m (set_jerrno e j) = m j \<Longrightarrow> vbind m k (set_jerrno e j) = vbind m k j"
  by (simp add: vbind_def)

lemma read_footer_errno: "vhd_journal_read_footer (set_jerrno e j) = vhd_journal_read_footer j"
proof -
  have "vhd_journal_read_footer_type put old t (set_jerrno e j) = vhd_journal_read_footer_type put old t j" for put old t
    unfolding vhd_journal_read_footer_type_def vhd_journal_read_entry_def vhd_journal_read_def
    by (intro bind_errno read_buf_errno)
  then show ?thesis by (simp add: vhd_journal_read_footer_def with_j_def) (simp add: set_jerrno_def set_errno_def)
qed

lemma restore_errno:
  assumes "jw j"
  shows "vhd_journal_restore_metadata (set_jerrno e (jnf p jf q f j)) = vhd_journal_restore_metadata (jnf p jf q f j)"
proof -
  have "cur_file (jfd_state (set_jerrno e (jnf p jf q f j))) = Some jf" "quiet (jfd_state (set_jerrno e (jnf p jf q f j)))"
    using cur_jfd [OF assms, of p jf q f] jw_quiet [OF assms]
    by (simp_all add: set_jerrno_def jfd_state_def cur_file_def set_errno_def quiet_def jnf_def)
  then have "vhd_journal_seek 512 (set_jerrno e (jnf p jf q f j)) = (Inr (), set_jerrno e (jnf 512 jf q f j))"
    by (simp add: vhd_journal_seek_def on_jfd_def seek_quiet)
      (simp add: at_pos_def set_jerrno_def jfd_state_def set_errno_def jnf_def)
  moreover have "vhd_journal_seek 512 (jnf p jf q f j) = (Inr (), jnf 512 jf q f j)" using j_seek [OF assms, of 512] by simp
  ultimately show ?thesis
    unfolding vhd_journal_restore_metadata_def by (simp add: vbind_ok bind_errno read_footer_errno)
qed

section \<open>Revert\<close>

text \<open>
  The journal \<open>j\<close> belongs to an image that was \<open>f0\<close> when the journal was created: its file holds a log of
  the metadata \<open>ms\<close> of \<open>f0\<close> and of data \<open>ds\<close> of \<open>f0\<close>, and nothing disturbs the calls.
\<close>

definition journal_log :: "vfile \<Rightarrow> jitem list \<Rightarrow> jitem list \<Rightarrow> vhd_journal \<Rightarrow> bool" where
  "journal_log f0 ms ds j \<longleftrightarrow> jw j \<and> sound_metadata f0 \<and>
     (\<exists>jf. sys_files (st_sys (j_vhd j)) (j_jname j) = Some jf \<and> jinv (j_header j) jf ms ds) \<and>
     recorded f0 (meta_regions f0) ms \<and> (\<forall>it \<in> set ds. snapshot f0 it) \<and> meta_done (j_header j) ms \<and>
     jh_vhd_footer_offset (j_header j) = of_nat (f_size f0 - 512) \<and> length ds < 1073741824"

definition journal_of :: "vfile \<Rightarrow> jitem list \<Rightarrow> jitem list \<Rightarrow> vhd_journal \<Rightarrow> bool" where
  "journal_of f0 ms ds j \<longleftrightarrow> sound_image f0 \<and> journal_log f0 ms ds j"

definition image_file :: "vhd_journal \<Rightarrow> vfile option" where
  "image_file j = sys_files (st_sys (j_vhd j)) (ctx_file (j_ctx j))"

text \<open>The state between the closing of the image and its reopening.\<close>

definition based :: "vhd_context \<Rightarrow> vhd_journal \<Rightarrow> vhd_journal" where
  "based c j = j\<lparr>j_vhd := (reset_ctx (j_vhd j))\<lparr>st_ctx := c\<rparr>\<rparr>"

lemma based_simps [simp]:
  "j_ctx (based c j) = c" "j_header (based c j) = j_header j" "j_jname (based c j) = j_jname j"
  "j_is_block (based c j) = j_is_block j" "setctx d (based c j) = based d j" "st_parents (j_vhd (based c j)) = []"
  "st_sys (j_vhd (based c j)) = st_sys (j_vhd j)"
  by (simp_all add: based_def setctx_def reset_ctx_def)

lemma jw_based: "ctx_file c = ctx_file (j_ctx j) \<Longrightarrow> jw (based c j) = jw j"
  by (simp add: based_def jw_def quiet_def reset_ctx_def)

lemma reopen_ok:
  assumes w: "jw j" and jf: "sys_files (st_sys (j_vhd j)) (j_jname j) = Some jf" and f: "image_file j = Some f" and nb: "\<not> f_blk f"
  defines "name \<equiv> ctx_file (j_ctx j)"
  shows "on_vhd (vthen (valloc e) (vthen vhd_close (vthen (open_call name) (set_is_block name)))) j =
    (Inr (), set_jerrno (get_errno (j_vhd j)) (jnf (j_pos j) jf 0 f (based (ctx_zero\<lparr>ctx_file := name\<rparr>) j)))"
proof -
  have q: "quiet (j_vhd j)" using w by (rule jw_quiet)
  let ?s = "(reset_ctx (j_vhd j))\<lparr>st_ctx := ctx_zero\<lparr>ctx_file := name\<rparr>\<rparr>"
  have qr: "quiet (reset_ctx (j_vhd j))" "quiet ?s" using q by (simp_all add: quiet_def reset_ctx_def)
  have fs: "sys_files (st_sys (reset_ctx (j_vhd j))) name = Some f" "sys_files (st_sys ?s) name = Some f"
    using f by (simp_all add: image_file_def name_def reset_ctx_def)
  have oc: "open_call name (reset_ctx (j_vhd j)) = (Inr (), ?s)"
    using fs qr by (simp add: open_call_def stat_call_def take_ev_quiet reset_ctx_def)
  have sb: "set_is_block name ?s = (Inr (), ?s)"
    using fs qr nb by (simp add: set_is_block_def vhd_test_file_fixed_def stat_call_def take_ev_quiet vbind_def vmodify_def
        upd_ctx_def ctx_zero_def)
  have "on_vhd (vthen (valloc e) (vthen vhd_close (vthen (open_call name) (set_is_block name)))) j = (Inr (), j\<lparr>j_vhd := ?s\<rparr>)"
    using q oc sb by (simp add: on_vhd_def vbind_ok valloc_quiet vhd_close_def vmodify_def)
  also have "j\<lparr>j_vhd := ?s\<rparr> = set_jerrno (get_errno (j_vhd j)) (jnf (j_pos j) jf 0 f (based (ctx_zero\<lparr>ctx_file := name\<rparr>) j))"
    using jf f by (simp add: set_jerrno_def jnf_def based_def set_errno_def get_errno_def reset_ctx_def image_file_def name_def
        fun_upd_idem)
  finally show ?thesis .
qed

lemma with_j_app: "with_j g j = g j j"
  by (simp add: with_j_def)

lemma jnf_reopened:
  assumes "ctx_file c = ctx_file (j_ctx j)" and "ctx_file d = ctx_file (j_ctx j)"
  shows "(jnf p jf q f (based c j))\<lparr>j_vhd := (j_vhd (jnf p jf q f (based c j)))\<lparr>st_ctx := d, st_pos := r, st_parents := [],
      st_sys := (st_sys (j_vhd (jnf p jf q f (based c j))))\<lparr>sys_errno := 0\<rparr>\<rparr>\<rparr> = jnf p jf r f (based d j)"
  using assms by (simp add: jnf_def based_def reset_ctx_def)

lemma revert_ok:
  assumes jo: "journal_of f0 ms ds j" and f: "image_file j = Some f" and nb: "\<not> f_blk f"
    and n: "length (ctx_file (j_ctx j)) < MAX_NAME_LEN"
  shows "\<exists>p jf q c. vhd_journal_revert lc fuel j =
    (Inr (), jnf p jf q (restored f0 ds (restored f0 ms f)) (based c j)) \<and> ctx_file c = ctx_file (j_ctx j)"
proof -
  let ?name = "ctx_file (j_ctx j)" and ?E = "get_errno (j_vhd j)"
  let ?b = "based (ctx_zero\<lparr>ctx_file := ?name\<rparr>) j"
  from jo have w: "jw j" and im: "sound_image f0" and ms: "recorded f0 (meta_regions f0) ms"
    and sn: "\<forall>it \<in> set ds. snapshot f0 it" and md: "meta_done (j_header j) ms" and l: "length ds < 1073741824"
    and fo: "jh_vhd_footer_offset (j_header j) = of_nat (f_size f0 - 512)" by (simp_all add: journal_of_def journal_log_def)
  from jo obtain jf where jf: "sys_files (st_sys (j_vhd j)) (j_jname j) = Some jf" and inv: "jinv (j_header j) jf ms ds"
    by (auto simp: journal_of_def journal_log_def)
  have m: "sound_metadata f0" using im by (simp add: sound_image_def)
  note mm = sound_metadataD [OF m] and i = jinvD [OF inv]
  note 1 = reopen_ok [OF w jf f nb]
  have wb: "jw ?b" using w by (simp add: jw_based)
  let ?f1 = "restored f0 ms f" and ?c1 = "parsed f0 (ctx_zero\<lparr>ctx_file := ?name, ctx_footer := disk_ftr f0\<rparr>)"
  have "\<exists>p' q'. vhd_journal_restore_metadata (jnf (j_pos j) jf 0 f ?b) = (Inr (), jnf p' jf q' (cut (f_size f0) (play ms f))
      (setctx (parsed f0 ((j_ctx ?b)\<lparr>ctx_footer := disk_ftr f0\<rparr>)) ?b))"
    using inv md fo by (intro restore_ok [OF wb _ im ms _ _ nb]) (simp_all add: ctx_zero_def ftr_zero_def hdr_zero_def
        ftr_wf_ftr_of_bytes hdr_wf_hdr_of_bytes)
  then obtain p1 q1 where 2: "vhd_journal_restore_metadata (jnf (j_pos j) jf 0 f ?b) = (Inr (), jnf p1 jf q1 ?f1 (based ?c1 j))"
    by (auto simp: restored_def)
  let ?d = "opened ?f1 ?name VHD_OPEN_RDWR" and ?q2 = "hdr_pos ?f1 + 1024"
  have fc: "ctx_file ?c1 = ?name" by (simp add: parsed_def)
  have wc: "jw (based ?c1 j)" using w fc by (simp add: jw_based)
  have wd: "jw (based ?d j)" using w by (simp add: jw_based)
  have so: "sound_metadata ?f1" using restored_sound [OF m ms nb] by blast
  have fl: "sys_files (st_sys (j_vhd (jnf p1 jf q1 ?f1 (based ?c1 j)))) ?name = Some ?f1"
    using fc by (simp add: jnf_def)
  have "vhd_open lc fuel ?name VHD_OPEN_RDWR (j_vhd (jnf p1 jf q1 ?f1 (based ?c1 j))) =
      (Inr (), (j_vhd (jnf p1 jf q1 ?f1 (based ?c1 j)))\<lparr>st_ctx := ?d, st_pos := ?q2, st_parents := [],
        st_sys := (st_sys (j_vhd (jnf p1 jf q1 ?f1 (based ?c1 j))))\<lparr>sys_errno := 0\<rparr>\<rparr>)"
    using jw_quiet [OF wc] by (intro open_quiet [OF _ fl so n]) (simp_all add: plain_flags_def)
  then have 3: "on_vhd (vhd_open lc fuel ?name VHD_OPEN_RDWR) (jnf p1 jf q1 ?f1 (based ?c1 j)) =
      (Inr (), jnf p1 jf ?q2 ?f1 (based ?d j))"
    using jnf_reopened [OF fc, of ?d p1 jf q1 ?f1 ?q2] by (simp add: on_vhd_def)
  have do: "unat (jh_journal_data_offset (j_header j)) = 512 + length (log_bytes ms)" using md by (simp add: meta_done_def)
  have "unat (jh_journal_data_offset (j_header j)) < 2 ^ 63" using i(8) do by simp
  from sint_small [OF this] have ds: "sint (jh_journal_data_offset (j_header j)) = int (512 + length (log_bytes ms))"
    by (simp only: do)
  have 4: "vhd_journal_seek (sint (jh_journal_data_offset (j_header j))) (jnf p1 jf ?q2 ?f1 (based ?d j)) =
      (Inr (), jnf (512 + length (log_bytes ms)) jf ?q2 ?f1 (based ?d j))"
    using j_seek [OF wd, of "int (512 + length (log_bytes ms))"] unfolding ds nat_int by (simp only: of_nat_0_le_iff)
  have en: "unat (jh_journal_data_entries (j_header j)) = length ds" unfolding i(12) using l by (intro unat_of_nat_u32) simp
  have itm: "\<forall>it \<in> set ds. item_ok it \<and> fits it"
    using i(6) sn mm(3) by (auto simp: fits_def snapshot_def)
  have "\<exists>p' q'. vfor [0..<length ds] (\<lambda>_. revert_entry) (jnf (512 + length (log_bytes ms)) jf ?q2 ?f1 (based ?d j)) =
      (Inr (), jnf p' jf q' (play ds ?f1) (based ?d j))"
    using nb by (intro revert_entries_ok [OF wd jinv_log_split(2) [OF inv] itm]) simp_all
  then obtain p5 q5 where 5: "vfor [0..<length ds] (\<lambda>_. revert_entry)
      (jnf (512 + length (log_bytes ms)) jf ?q2 ?f1 (based ?d j)) = (Inr (), jnf p5 jf q5 (play ds ?f1) (based ?d j))" by blast
  have "(of_nat (f_size f0 - 512) + 512 :: u64) = of_nat (f_size f0)" using mm(2) by (simp add: of_nat_diff)
  then have tr: "sint (jh_vhd_footer_offset (j_header j) + 512) = int (f_size f0)"
    unfolding fo using mm(3) sint_of_nat [of "f_size f0"] by simp
  let ?f2 = "restored f0 ds ?f1"
  have "on_vhd (\<lambda>s. case ftruncate (int (f_size f0)) s of (r, s) \<Rightarrow> (if r = 0 then Inr () else Inl (Errno (- get_errno s)), s))
      (jnf p5 jf q5 (play ds ?f1) (based ?d j)) = (Inr (), jnf p5 jf q5 (cut (f_size f0) (play ds ?f1)) (based ?d j))"
    by (rule v_truncate [OF wd, where e = "\<lambda>r s. Inl (Errno (- get_errno s))"]) (simp_all add: nb)
  then have 6: "with_j (\<lambda>j. if ctx_is_block (j_ctx j) then vret () else on_vhd (\<lambda>s.
        case ftruncate (sint (jh_vhd_footer_offset (j_header j) + 512)) s of (r, s) \<Rightarrow>
          (if r = 0 then Inr () else Inl (Errno (- get_errno s)), s)))
      (jnf p5 jf q5 (play ds ?f1) (based ?d j)) = (Inr (), jnf p5 jf q5 ?f2 (based ?d j))"
    by (simp add: with_j_def tr restored_def)
  let ?cut = "with_j (\<lambda>j. if ctx_is_block (j_ctx j) then vret () else on_vhd (\<lambda>s.
        case ftruncate (sint (jh_vhd_footer_offset (j_header j) + 512)) s of (r, s) \<Rightarrow>
          (if r = 0 then Inr () else Inl (Errno (- get_errno s)), s)))"
  let ?loop = "vfor [0..<unat (jh_journal_data_entries (j_header j))] (\<lambda>_. revert_entry)"
  have 7: "vthen (vhd_journal_seek (sint (jh_journal_data_offset (j_header j)))) (vthen ?loop (vthen ?cut vhd_journal_sync))
      (jnf p1 jf ?q2 ?f1 (based ?d j)) = (Inr (), jnf p5 jf q5 ?f2 (based ?d j))"
    unfolding vbind_ok [where m = "vhd_journal_seek _", OF 4] en vbind_ok [where m = "vfor _ _", OF 5]
      vbind_ok [where m = ?cut, OF 6] by (rule j_sync [OF wd])
  have 8: "vhd_journal_restore_metadata (set_jerrno ?E (jnf (j_pos j) jf 0 f ?b)) = (Inr (), jnf p1 jf q1 ?f1 (based ?c1 j))"
    using 2 restore_errno [OF wb] by simp
  have "vhd_journal_revert lc fuel j = (Inr (), jnf p5 jf q5 ?f2 (based ?d j))"
    unfolding vhd_journal_revert_def Let_def with_j_app vbind_ok [where m = "on_vhd _", OF 1]
      vbind_ok [where m = vhd_journal_restore_metadata, OF 8] vbind_ok [where m = "on_vhd _", OF 3]
    using 7 by (simp only: with_j_def jnf_simps based_simps)
  moreover have "ctx_file ?d = ?name" by simp
  ultimately show ?thesis by blast
qed

text \<open>A journal of an image whose table has room for more blocks than the disk has is refused.\<close>

lemma revert_refused:
  assumes jo: "journal_log f0 ms ds j" and f: "image_file j = Some f" and nb: "\<not> f_blk f"
    and ne: "bat_len (disk_blks f0) \<noteq> bat_len (hdr_max_bat_size (disk_hdr f0))"
  shows "\<exists>k. vhd_journal_revert lc fuel j = (Inl (Errno (- EINVAL)), k) \<and> image_file k = Some f"
proof -
  let ?name = "ctx_file (j_ctx j)" and ?E = "get_errno (j_vhd j)"
  let ?b = "based (ctx_zero\<lparr>ctx_file := ?name\<rparr>) j"
  from jo have w: "jw j" and m: "sound_metadata f0" and ms: "recorded f0 (meta_regions f0) ms" by (simp_all add: journal_log_def)
  from jo obtain jf where jf: "sys_files (st_sys (j_vhd j)) (j_jname j) = Some jf" and inv: "jinv (j_header j) jf ms ds"
    by (auto simp: journal_log_def)
  note 1 = reopen_ok [OF w jf f nb]
  have wb: "jw ?b" using w by (simp add: jw_based)
  have "\<exists>p' c. vhd_journal_restore_metadata (jnf (j_pos j) jf 0 f ?b) = (Inl (Errno (- EINVAL)), jnf p' jf 0 f (setctx c ?b)) \<and>
      ctx_file c = ctx_file (j_ctx ?b)"
    using inv by (intro restore_refused [OF wb _ m ms _ _ ne]) (simp_all add: ctx_zero_def ftr_zero_def hdr_zero_def
        ftr_wf_ftr_of_bytes hdr_wf_hdr_of_bytes)
  then obtain p1 c where 2: "vhd_journal_restore_metadata (jnf (j_pos j) jf 0 f ?b) =
      (Inl (Errno (- EINVAL)), jnf p1 jf 0 f (based c j))" and c: "ctx_file c = ?name" by auto
  have "vhd_journal_revert lc fuel j = (Inl (Errno (- EINVAL)), jnf p1 jf 0 f (based c j))"
    unfolding vhd_journal_revert_def Let_def with_j_app vbind_ok [where m = "on_vhd _", OF 1]
    using 2 restore_errno [OF wb] by (simp add: vbind_def)
  moreover have "image_file (jnf p1 jf 0 f (based c j)) = Some f" by (simp add: image_file_def jnf_def)
  ultimately show ?thesis by blast
qed

end
