(* ===== verification/Vhd_Journal_Create.thy ===== *)
theory Vhd_Journal_Create
  imports Vhd_Journal_Undo Vhd_Read
begin

text \<open>
  Creating a journal. \<open>create_ok\<close> runs \<open>vhd_journal_create\<close> on a sound image: the journal then records the
  metadata of the file as it was, and of the file only the two footers have changed, which are
  poisoned. \<open>add_block_ok\<close> shows that \<open>vhd_journal_add_block\<close> adds the bitmap and the data of a block.
\<close>

section \<open>The image with its block allocation table\<close>

definition disk_bat :: "vfile \<Rightarrow> vhd_bat" where
  "disk_bat f = vhd_bat_in \<lparr>bat_spb = drop_bit VHD_SECTOR_SHIFT (hdr_block_size (disk_hdr f)),
    bat_entries = disk_blks f, bat_bat = Some (bat_of_bytes (file_read f (bat_pos f) (bat_len (disk_blks f))))\<rparr>"

definition loaded :: "vfile \<Rightarrow> string \<Rightarrow> u32 \<Rightarrow> vhd_context" where
  "loaded f name fl = (opened f name fl)\<lparr>ctx_bat := disk_bat f\<rparr>"

lemma loaded_simps [simp]:
  "ctx_file (loaded f name fl) = name" "ctx_footer (loaded f name fl) = disk_ftr f"
  "ctx_header (loaded f name fl) = disk_hdr f" "ctx_is_block (loaded f name fl) = False"
  "ctx_bat (loaded f name fl) = disk_bat f" "ctx_oflags (loaded f name fl) = fl"
  by (simp_all add: loaded_def)

lemma ctx_of_loaded: "ctx_of f (loaded f name fl)" "ctx_of f (opened f name fl)"
  by (simp_all add: ctx_of_def)

lemma read_bat_put: "vhd_read_bat nowhere s = (Inr b, t) \<Longrightarrow> vhd_read_bat put s = (Inr b, put b t)"
  by (auto simp: vhd_read_bat_def with_ctx_app vonfail_def vcatch_def vbind_def vmodify_def vret_def vraise_def Let_def
      nowhere_def vassert_def split: prod.splits sum.splits if_splits verr.splits)

lemma v_get_bat:
  assumes w: "jw j" and im: "sound_metadata f" and c: "j_ctx j = opened f name fl"
  shows "on_vhd vhd_get_bat (jnf p jf q f j) = (Inr (), jnf p jf (bat_pos f + bat_len (disk_blks f)) f (setctx (loaded f name fl) j))"
proof -
  let ?s = "j_vhd (jnf p jf q f j)" and ?q = "bat_pos f + bat_len (disk_blks f)"
  have cs: "st_ctx ?s = opened f name fl" using c by simp
  have dyn: "vhd_type_dynamic (opened f name fl)" using ctx_of_dynamic [OF im ctx_of_loaded(2)] .
  have "on_vhd (vhd_read_bat nowhere) (jnf p jf q f j) = (Inr (disk_bat f), jnf p jf ?q f j)"
    unfolding disk_bat_def using v_read_bat [OF w im _ bat_fit(2) [OF im]] c ctx_of_loaded(2) by simp
  moreover obtain r t where v: "vhd_read_bat nowhere ?s = (r, t)" by fastforce
  ultimately have r: "r = Inr (disk_bat f)" and "(jnf p jf q f j)\<lparr>j_vhd := t\<rparr> = jnf p jf ?q f j" by (simp_all add: on_vhd_def)
  from arg_cong [OF this(2), of j_vhd] have "t = j_vhd (jnf p jf ?q f j)" by simp
  with v r have "vhd_read_bat nowhere ?s = (Inr (disk_bat f), j_vhd (jnf p jf ?q f j))" by simp
  from read_bat_put [OF this] have rb: "vhd_read_bat put_bat ?s = (Inr (disk_bat f), put_bat (disk_bat f) (j_vhd (jnf p jf ?q f j)))" .
  have "put_bat bat_zero ?s = ?s" using cs by (simp add: put_bat_def upd_ctx_def opened_def set_block_sizes_def ctx_zero_def Let_def)
  then have "vhd_get_bat ?s = (Inr (), put_bat (disk_bat f) (j_vhd (jnf p jf ?q f j)))"
    using dyn rb c by (simp add: vhd_get_bat_def with_ctx_app cs vhd_validate_bat_def bat_zero_def vhd_put_bat_def vbind_ok vmodify_def vret_def
        EINVAL_def)
  moreover have "(jnf p jf q f j)\<lparr>j_vhd := put_bat (disk_bat f) (j_vhd (jnf p jf ?q f j))\<rparr> = jnf p jf ?q f (setctx (loaded f name fl) j)"
    using c by (simp add: put_bat_def upd_ctx_def jnf_def setctx_def loaded_def)
  ultimately show ?thesis by (simp add: on_vhd_def)
qed

lemma v_get_footer:
  assumes "vhd_validate_footer (ctx_footer (j_ctx j)) = 0"
  shows "on_vhd vhd_get_footer (jnf p jf q f j) = (Inr (), jnf p jf q f j)"
  using assms by (simp add: on_vhd_def vhd_get_footer_def with_ctx_app vret_def)

section \<open>A new journal\<close>

definition new_header :: "vfile \<Rightarrow> vhd_journal_header" where
  "new_header f = jh_zero\<lparr>jh_cookie := VHD_JOURNAL_HEADER_COOKIE, jh_uuid := ftr_uuid (disk_ftr f),
     jh_vhd_footer_offset := of_nat (f_size f - 512), jh_journal_eof := 512\<rparr>"

definition empty_file :: vfile where
  "empty_file = \<lparr>f_data = (\<lambda>_. 0), f_size = 0, f_blk = False\<rparr>"

lemma le_word_zeros: "le_word (replicate n 0) = 0"
  by (induction n) simp_all

lemma new_header_wf: "jh_wf (new_header f)"
proof -
  have "ftr_wf (disk_ftr f)" unfolding disk_ftr_def by (rule ftr_seal.wf_dec) simp
  then show ?thesis
    by (simp add: jh_wf_def new_header_def jh_zero_def jh_of_bytes_def ftr_wf_def VHD_JOURNAL_HEADER_COOKIE_def ascii_def
        length_field)
qed

lemma add_journal_header_ok:
  assumes w: "jw j" and im: "sound_metadata f" and c: "ctx_of f (j_ctx j)"
  shows "\<exists>jf p'. vhd_journal_add_journal_header (jnf p empty_file q f j) =
    (Inr (), jnf p' jf (f_size f) f (upd_header (\<lambda>_. new_header f) j)) \<and> jinv (new_header f) jf [] []"
proof -
  note m = sound_metadataD [OF im]
  let ?h = "new_header f"
  let ?jf = "file_write empty_file 0 (jh_bytes (vhd_journal_header_out ?h))"
  let ?j0 = "upd_header (\<lambda>_. jh_zero) j" and ?k = "upd_header (\<lambda>_. ?h) j"
  have w0: "jw ?j0" and wk: "jw ?k" using w by (simp_all add: jnf_upd)
  have ft: "ctx_footer (j_ctx j) = disk_ftr f" using c by (simp add: ctx_of_def)
  have gf: "on_vhd vhd_get_footer (jnf p empty_file (f_size f) f ?j0) = (Inr (), jnf p empty_file (f_size f) f ?j0)"
    using m(4) ft by (intro v_get_footer) (simp add: good_footer_def)
  have off: "(of_nat (f_size f) - 512 :: u64) = of_nat (f_size f - 512)" using m(2) by (simp add: of_nat_diff)
  have up: "upd_header (\<lambda>h. h\<lparr>jh_cookie := VHD_JOURNAL_HEADER_COOKIE, jh_uuid := ftr_uuid (disk_ftr f),
      jh_vhd_footer_offset := of_nat (f_size f) - 512, jh_journal_eof := 512\<rparr>) (jnf p empty_file (f_size f) f ?j0) =
      jnf p empty_file (f_size f) f ?k"
    by (simp add: jnf_upd off) (simp add: upd_header_def new_header_def)
  have hz: "jh_zero\<lparr>jh_cookie := VHD_JOURNAL_HEADER_COOKIE, jh_uuid := ftr_uuid (disk_ftr f),
      jh_vhd_footer_offset := of_nat (f_size f) - 512, jh_journal_eof := 512\<rparr> = ?h"
    by (simp add: new_header_def off)
  have hs: "jh_cookie ?h = VHD_JOURNAL_HEADER_COOKIE" "jh_journal_eof ?h = 512" "jh_journal_data_offset ?h = 0"
    "jh_journal_metadata_offset ?h = 0" "jh_journal_data_entries ?h = 0" "jh_journal_metadata_entries ?h = 0"
    by (simp_all add: new_header_def jh_zero_def jh_of_bytes_def zeros_def field_def le_word_zeros)
  have wh: "vhd_journal_write_header ?h (jnf p empty_file (f_size f) f ?k) = (Inr (), jnf 512 ?jf (f_size f) f ?k)"
    using new_header_wf hs by (intro write_header_ok [OF wk]) (simp_all add: empty_file_def)
  have "vhd_journal_add_journal_header (jnf p empty_file q f j) = (Inr (), jnf 512 ?jf (f_size f) f ?k)"
    using gf up wh ft hz
    by (simp add: vhd_journal_add_journal_header_def vbind_def vmodify_def jnf_upd v_seek_end [OF w0] v_position [OF w0] with_j_def)
  moreover have "jinv ?h ?jf [] []"
  proof -
    have l: "length (jh_bytes (vhd_journal_header_out ?h)) = 512" using new_header_wf by (simp add: jh_codec.length_enc)
    have "\<not> f_blk empty_file" by (simp add: empty_file_def)
    from holds_write [OF this] have "holds ?jf 0 (jh_bytes (vhd_journal_header_out ?h))" .
    moreover have "f_size ?jf = 512" "\<not> f_blk ?jf" using l by (simp_all add: size_file_write empty_file_def)
    ultimately show ?thesis using new_header_wf hs by (simp add: jinv_def)
  qed
  ultimately show ?thesis by blast
qed

section \<open>The image is disabled\<close>

definition poisoned :: "vhd_context \<Rightarrow> vhd_context" where
  "poisoned c = (let f = (ctx_footer c)\<lparr>ftr_cookie := VHD_POISON_COOKIE\<rparr>
     in c\<lparr>ctx_footer := f\<lparr>ftr_checksum := vhd_checksum_footer f\<rparr>\<rparr>)"

lemma poisoned_simps [simp]:
  "ctx_file (poisoned c) = ctx_file c" "ctx_header (poisoned c) = ctx_header c" "ctx_bat (poisoned c) = ctx_bat c"
  "ctx_is_block (poisoned c) = ctx_is_block c" "ctx_spb (poisoned c) = ctx_spb c" "ctx_bm_secs (poisoned c) = ctx_bm_secs c"
  "ctx_oflags (poisoned c) = ctx_oflags c" "bat_words (poisoned c) = bat_words c" "nblocks (poisoned c) = nblocks c"
  "bat_file_size (poisoned c) = bat_file_size c" "allocated (poisoned c) i = allocated c i"
  "data_end hs (poisoned c) = data_end hs c" "blocks_ok hs (poisoned c) sz = blocks_ok hs c sz"
  by (simp_all add: poisoned_def Let_def bat_words_def nblocks_def bat_file_size_def allocated_def data_end_def blocks_ok_def)

lemma std_ctx_poisoned: "std_ctx hs c \<Longrightarrow> std_ctx hs (poisoned c)"
  unfolding std_ctx_def poisoned_simps
  by (simp add: poisoned_def Let_def vhd_type_dynamic_def no_batmap_def vhd_creator_tapdisk_def ftr_wf_def headers_end_def
      VHD_POISON_COOKIE_def ascii_def)

lemma disable_ok:
  assumes w: "jw j" and std: "std_ctx hs (j_ctx j)" and ok: "blocks_ok hs (j_ctx j) (f_size f)" and nb: "\<not> f_blk f"
    and v: "vhd_validate_footer (ctx_footer (j_ctx j)) = 0"
  shows "vhd_journal_disable_vhd (jnf p jf q f j) =
    (Inr (), jnf p jf 512 (footed hs (poisoned (j_ctx j)) f) (setctx (poisoned (j_ctx j)) j))"
proof -
  let ?s = "j_vhd (jnf p jf q f j)" and ?c = "poisoned (j_ctx j)"
  let ?t = "?s\<lparr>st_ctx := ?c\<rparr>"
  let ?g = "(ctx_footer (j_ctx j))\<lparr>ftr_cookie := VHD_POISON_COOKIE\<rparr>"
  have pf: "put_footer (?g\<lparr>ftr_checksum := vhd_checksum_footer ?g\<rparr>) ?s = ?t"
    by (simp add: put_footer_def upd_ctx_def poisoned_def Let_def)
  have core: "image_core hs ?t f"
    using jw_quiet [OF w] nb std_ctx_poisoned [OF std] ok
    by (simp add: image_core_def quiet_def cur_file_def jnf_def)
  have ft: "?g\<lparr>ftr_checksum := vhd_checksum_footer ?g\<rparr> = ctx_footer ?c" by (simp add: poisoned_def Let_def)
  have wf: "vhd_write_footer (ctx_footer ?c) ?t = (Inr (), st_with 512 (footed hs ?c f) ?t)"
    using write_footer_run [OF core] by simp
  have gf: "vhd_get_footer ?s = (Inr (), ?s)" using v by (simp add: vhd_get_footer_def with_ctx_app vret_def)
  have "on_vhd (vthen vhd_get_footer (with_ctx (\<lambda>ctx. let f = (ctx_footer ctx)\<lparr>ftr_cookie := VHD_POISON_COOKIE\<rparr>;
         f = f\<lparr>ftr_checksum := vhd_checksum_footer f\<rparr>
      in vthen (vmodify (put_footer f)) (vhd_write_footer f)))) (jnf p jf q f j) =
      (Inr (), (jnf p jf q f j)\<lparr>j_vhd := st_with 512 (footed hs ?c f) ?t\<rparr>)"
    using gf pf wf by (simp add: on_vhd_def vbind_ok with_ctx_app Let_def vmodify_def ft)
  also have "(jnf p jf q f j)\<lparr>j_vhd := st_with 512 (footed hs ?c f) ?t\<rparr> = jnf p jf 512 (footed hs ?c f) (setctx ?c j)"
    by (simp add: jnf_def setctx_def st_with_def at_pos_def set_cur_file_def set_errno_def)
  finally show ?thesis by (simp only: vhd_journal_disable_vhd_def)
qed

section \<open>Create\<close>

text \<open>A sound image of the shape studied in \<open>Vhd_Image\<close>, whose footer follows the last block.\<close>

definition whole_metadata :: "nat \<Rightarrow> vfile \<Rightarrow> bool" where
  "whole_metadata hs f \<longleftrightarrow> sound_metadata f \<and> std_ctx hs (loaded f [] 0) \<and> blocks_ok hs (loaded f [] 0) (f_size f - 512) \<and>
     f_size f = 512 * data_end hs (loaded f [] 0) + 512"

definition whole_image :: "nat \<Rightarrow> vfile \<Rightarrow> bool" where
  "whole_image hs f \<longleftrightarrow> sound_image f \<and> whole_metadata hs f"

lemma loaded_same:
  "bat_words (loaded f n fl) = bat_words (loaded f [] 0)" "nblocks (loaded f n fl) = nblocks (loaded f [] 0)"
  "data_end hs (loaded f n fl) = data_end hs (loaded f [] 0)" "blocks_ok hs (loaded f n fl) sz = blocks_ok hs (loaded f [] 0) sz"
  "allocated (loaded f n fl) i = allocated (loaded f [] 0) i" "bat_file_size (loaded f n fl) = bat_file_size (loaded f [] 0)"
  "headers_end (loaded f n fl) = headers_end (loaded f [] 0)" "no_batmap (loaded f n fl) = no_batmap (loaded f [] 0)"
  "vhd_type_dynamic (loaded f n fl) = vhd_type_dynamic (loaded f [] 0)"
  by (simp_all only: bat_words_def nblocks_def data_end_def blocks_ok_def allocated_def bat_file_size_def headers_end_def
      no_batmap_def vhd_creator_tapdisk_def vhd_type_dynamic_def loaded_simps)

lemma loaded_secs:
  "ctx_spb (loaded f n fl) = ctx_spb (loaded f [] 0)" "ctx_bm_secs (loaded f n fl) = ctx_bm_secs (loaded f [] 0)"
  by (simp_all add: loaded_def opened_def set_block_sizes_def Let_def)

lemma std_ctx_loaded:
  assumes "std_ctx hs (loaded f [] 0)" and "plain_flags fl"
  shows "std_ctx hs (loaded f n fl)"
proof -
  have "\<not> vhd_flag_test fl VHD_OPEN_IO_WRITE_SPARSE"
    using assms(2) by (auto simp: plain_flags_def vhd_flag_test_def VHD_OPEN_RDWR_def VHD_OPEN_STRICT_def VHD_OPEN_IO_WRITE_SPARSE_def)
  then show ?thesis
    using assms(1) unfolding std_ctx_def loaded_same [where f = f and n = n and fl = fl] loaded_secs [of f n fl] loaded_simps by blast
qed

text \<open>The context of a journal that has just been created.\<close>

definition created_ctx :: "vfile \<Rightarrow> string \<Rightarrow> vhd_context" where
  "created_ctx f name = poisoned (loaded f name (VHD_OPEN_RDWR OR VHD_OPEN_STRICT))"

lemma created_ctx_simps [simp]:
  "ctx_file (created_ctx f n) = n" "ctx_is_block (created_ctx f n) = False" "bat_words (created_ctx f n) = bat_words (loaded f [] 0)"
  "nblocks (created_ctx f n) = nblocks (loaded f [] 0)" "allocated (created_ctx f n) i = allocated (loaded f [] 0) i"
  "data_end hs (created_ctx f n) = data_end hs (loaded f [] 0)"
  "blocks_ok hs (created_ctx f n) sz = blocks_ok hs (loaded f [] 0) sz"
  unfolding created_ctx_def poisoned_simps loaded_simps
  by (rule refl loaded_same)+

lemma std_ctx_created: "std_ctx hs (loaded f [] 0) \<Longrightarrow> std_ctx hs (created_ctx f n)"
  unfolding created_ctx_def by (erule std_ctx_poisoned [OF std_ctx_loaded]) (simp add: plain_flags_def)

text \<open>The journal structure with nothing in it but the name and the context of the image.\<close>

definition blank :: "string \<Rightarrow> vhd_context \<Rightarrow> vhd_journal \<Rightarrow> vhd_journal" where
  "blank jfile c j = j\<lparr>j_jname := jfile, j_pos := 0, j_is_block := False, j_header := jh_zero,
     j_vhd := (reset_ctx (j_vhd j))\<lparr>st_ctx := c\<rparr>\<rparr>"

lemma blank_simps [simp]:
  "j_ctx (blank jfile c j) = c" "j_jname (blank jfile c j) = jfile" "setctx d (blank jfile c j) = blank jfile d j"
  "j_header (blank jfile c j) = jh_zero"
  by (simp_all add: blank_def setctx_def)

lemma jw_blank: "quiet (j_vhd j) \<Longrightarrow> jfile \<noteq> ctx_file c \<Longrightarrow> jw (blank jfile c j)"
  by (simp add: jw_def blank_def quiet_def reset_ctx_def)

lemma jnf_files: "jw k \<Longrightarrow> sys_files (st_sys (j_vhd (jnf p jf q g k))) (j_jname k) = Some jf"
  "image_file (jnf p jf q g k) = Some g"
  by (simp_all add: jnf_def jw_def image_file_def)

lemma journal_log_jnf:
  assumes "jw k" and "sound_metadata f" and "jinv (j_header k) jf ms ds" and "recorded f (meta_regions f) ms"
    and "\<forall>it \<in> set ds. snapshot f it" and "meta_done (j_header k) ms"
    and "jh_vhd_footer_offset (j_header k) = of_nat (f_size f - 512)" and "length ds < 1073741824"
  shows "journal_log f ms ds (jnf p jf q g k)"
  using assms jnf_files(1) [OF assms(1)] by (simp add: journal_of_def journal_log_def)

lemma create_prologue:
  assumes q: "quiet (j_vhd j)" and f: "sys_files (st_sys (j_vhd j)) name = Some f" and jf: "sys_files (st_sys (j_vhd j)) jfile = None"
    and im: "sound_metadata f" and n: "length name < MAX_NAME_LEN"
  defines "fl \<equiv> VHD_OPEN_RDWR OR VHD_OPEN_STRICT"
  shows "vthen (on_vhd (valloc (- ENOMEM))) (vthen (vmodify (put_name jfile))
             (vbind (on_vhd (file_exists jfile)) (\<lambda>there.
               vthen
                 (if \<not> there then vret ()
                  else vbind (on_vhd (vhd_test_file_fixed jfile)) (\<lambda>blk.
                    vthen (vmodify (\<lambda>j. j\<lparr>j_is_block := blk\<rparr>)) (if blk then vret () else vfail (- EEXIST))))
                 (vthen (with_j (\<lambda>j. on_jfd (if j_is_block j then open_call jfile else creat_call jfile)))
                   (vcatch (on_vhd (vhd_open lc fuel name fl))
                     (\<lambda>err. vthen (vmodify unlink_journal) (vfail err))))))) (journal_reset j) =
    (Inr (), jnf 0 empty_file (hdr_pos f + 1024) f (blank jfile (opened f name fl) j))"
proof -
  have ne: "jfile \<noteq> name" using f jf by auto
  let ?r = "reset_ctx (j_vhd j)"
  let ?j1 = "(journal_reset j)\<lparr>j_jname := jfile\<rparr>"
  let ?j2 = "?j1\<lparr>j_vhd := set_errno ENOENT ?r\<rparr>"
  have j1: "j_vhd (journal_reset j) = ?r" by (simp add: journal_reset_def)
  have qr: "quiet ?r" using q by (simp add: quiet_def reset_ctx_def)
  have a1: "on_vhd (valloc (- ENOMEM)) (journal_reset j) = (Inr (), journal_reset j)"
    using qr by (simp add: on_vhd_def j1 valloc_quiet)
  have a2: "on_vhd (file_exists jfile) ?j1 = (Inr False, ?j2)"
    using qr jf by (simp add: on_vhd_def file_exists_def stat_call_def take_ev_quiet j1) (simp add: reset_ctx_def)
  let ?s2 = "(set_errno ENOENT ?r)\<lparr>st_sys := (st_sys (set_errno ENOENT ?r))\<lparr>sys_files :=
      (sys_files (st_sys (j_vhd j)))(jfile \<mapsto> empty_file)\<rparr>\<rparr>"
  let ?j3 = "?j1\<lparr>j_pos := 0, j_vhd := ?s2\<rparr>"
  have qj: "quiet (jfd_state ?j2)" using qr by simp
  have a3: "with_j (\<lambda>j. on_jfd (if j_is_block j then open_call jfile else creat_call jfile)) ?j2 = (Inr (), ?j3)"
    using jf by (simp add: with_j_def on_jfd_def creat_call_def take_ev_quiet [OF qj] Let_def)
      (simp add: journal_reset_def jfd_state_def set_errno_def reset_ctx_def empty_file_def)
  have q2: "quiet ?s2" using q by (simp add: quiet_def set_errno_def reset_ctx_def)
  have f2: "sys_files (st_sys ?s2) name = Some f" using f ne by simp
  have a4: "vhd_open lc fuel name fl ?s2 = (Inr (), ?s2\<lparr>st_ctx := opened f name fl, st_pos := hdr_pos f + 1024, st_parents := [],
      st_sys := (st_sys ?s2)\<lparr>sys_errno := 0\<rparr>\<rparr>)"
    by (rule open_quiet [OF q2 f2 im n]) (simp add: plain_flags_def fl_def)
  have fin: "?j3\<lparr>j_vhd := ?s2\<lparr>st_ctx := opened f name fl, st_pos := hdr_pos f + 1024, st_parents := [],
      st_sys := (st_sys ?s2)\<lparr>sys_errno := 0\<rparr>\<rparr>\<rparr> = jnf 0 empty_file (hdr_pos f + 1024) f (blank jfile (opened f name fl) j)"
    using f ne by (simp add: jnf_def blank_def journal_reset_def reset_ctx_def set_errno_def fun_upd_idem)
  have a5: "on_vhd (vhd_open lc fuel name fl) ?j3 = (Inr (), jnf 0 empty_file (hdr_pos f + 1024) f (blank jfile (opened f name fl) j))"
    using a4 fin by (simp add: on_vhd_def)
  have pn: "put_name jfile (journal_reset j) = ?j1" by (simp add: put_name_def)
  show ?thesis
    using a1 a3 a5 by (simp add: vbind_ok vbind_ok [where m = "on_vhd (file_exists jfile)", OF a2] vmodify_def pn vret_def vcatch_def)
qed

lemma create_ok:
  assumes q: "quiet (j_vhd j)" and f: "sys_files (st_sys (j_vhd j)) name = Some f" and jf: "sys_files (st_sys (j_vhd j)) jfile = None"
    and im: "whole_metadata hs f" and n: "length name < MAX_NAME_LEN"
  shows "\<exists>p jf q ms k. vhd_journal_create lc fuel name jfile j =
      (Inr (), jnf p jf q (footed hs (created_ctx f name) f) k) \<and> j_ctx k = created_ctx f name \<and> j_jname k = jfile \<and>
    journal_log f ms [] (jnf p jf q (footed hs (created_ctx f name) f) k)"
proof -
  let ?fl = "VHD_OPEN_RDWR OR VHD_OPEN_STRICT" and ?q0 = "hdr_pos f + 1024" and ?q1 = "bat_pos f + bat_len (disk_blks f)"
  let ?b0 = "blank jfile (opened f name ?fl) j" and ?b1 = "blank jfile (loaded f name ?fl) j"
  let ?b2 = "upd_header (\<lambda>_. new_header f) ?b1"
  have ne: "jfile \<noteq> name" using f jf by auto
  from im have m: "sound_metadata f" and std: "std_ctx hs (loaded f [] 0)" and ok: "blocks_ok hs (loaded f [] 0) (f_size f - 512)"
    unfolding whole_metadata_def by blast+
  note mm = sound_metadataD [OF m]
  have w: "jw ?b0" "jw ?b1" "jw ?b2" using q ne by (simp_all add: jw_blank jnf_upd)
  note pro = create_prologue [OF q f jf m n, of lc fuel]
  have cx: "j_ctx ?b0 = opened f name ?fl" by simp
  have gb: "on_vhd vhd_get_bat (jnf 0 empty_file ?q0 f ?b0) = (Inr (), jnf 0 empty_file ?q1 f ?b1)"
    using v_get_bat [OF w(1) m cx] by simp
  have hb: "on_vhd vhd_has_batmap (jnf 0 empty_file ?q1 f ?b1) = (Inr False, jnf 0 empty_file ?q1 f ?b1)"
    by (rule has_no_batmap [OF m]) simp
  have 1: "on_vhd get_bat_and_batmap (jnf 0 empty_file ?q0 f ?b0) = (Inr (), jnf 0 empty_file ?q1 f ?b1)"
  proof -
    have "on_vhd get_bat_and_batmap = vthen (on_vhd vhd_get_bat) (vbind (on_vhd vhd_has_batmap)
        (\<lambda>hb. on_vhd (if hb then vhd_get_batmap else vret ())))"
      by (simp only: get_bat_and_batmap_def on_vhd_bind)
    then show ?thesis
      by (simp only: vbind_ok [where m = "on_vhd vhd_get_bat", OF gb] vbind_ok [where m = "on_vhd vhd_has_batmap", OF hb])
        (simp add: on_vhd_def vret_def)
  qed
  have co: "ctx_of f (j_ctx ?b1)" "ctx_of f (j_ctx ?b2)" using ctx_of_loaded(1) by simp_all
  from add_journal_header_ok [OF w(2) m co(1), of 0 ?q1] obtain jf2 p2 where
    2: "vhd_journal_add_journal_header (jnf 0 empty_file ?q1 f ?b1) = (Inr (), jnf p2 jf2 (f_size f) f ?b2)"
    and i2: "jinv (new_header f) jf2 [] []" by blast
  have "jinv (j_header ?b2) jf2 [] []" using i2 by simp
  from add_metadata_ok [OF w(3) this m co(2), of p2 "f_size f"] obtain p3 jf3 q3 k ms where
    3: "vhd_journal_add_metadata (jnf p2 jf2 (f_size f) f ?b2) = (Inr (), jnf p3 jf3 q3 f k)" and s: "jsame ?b2 k"
    and i3: "jinv (j_header k) jf3 ms []" and rec: "recorded f (meta_regions f) ms" and md: "meta_done (j_header k) ms" by blast
  have ck: "j_ctx k = loaded f name ?fl" using jsame_ctx [OF s] by simp
  have wk: "jw k" using w(3) jsame_jw [OF s] by simp
  have stdk: "std_ctx hs (j_ctx k)" unfolding ck by (rule std_ctx_loaded [OF std]) (simp add: plain_flags_def)
  have okk: "blocks_ok hs (j_ctx k) (f_size f)"
    using blocks_ok_mono [OF ok, of "f_size f"] unfolding ck loaded_same(4) [where n = name] by simp
  have vk: "vhd_validate_footer (ctx_footer (j_ctx k)) = 0" using mm(4) by (simp add: ck good_footer_def)
  let ?k = "setctx (created_ctx f name) k" and ?g = "footed hs (created_ctx f name) f"
  have 4: "vhd_journal_disable_vhd (jnf p3 jf3 q3 f k) = (Inr (), jnf p3 jf3 512 ?g ?k)"
    using disable_ok [OF wk stdk okk mm(1) vk] by (simp add: ck created_ctx_def)
  have wk': "jw ?k" using wk by (simp add: jw_setctx ck)
  have body: "create_journal_body (jnf 0 empty_file ?q0 f ?b0) = (Inr (), jnf p3 jf3 512 ?g ?k)"
    using 1 2 3 4 j_sync [OF wk'] by (simp add: create_journal_body_def vbind_ok)
  have run: "vhd_journal_create lc fuel name jfile j = (Inr (), jnf p3 jf3 512 ?g ?k)"
    using pro body by (simp add: vhd_journal_create_def vmodify_def vbind_def vcatch_def)
  have nm: "j_jname k = jfile" using s by (simp add: jsame_def)
  have fo: "jh_vhd_footer_offset (j_header k) = of_nat (f_size f - 512)"
    using s by (simp add: jsame_def new_header_def)
  have "journal_log f ms [] (jnf p3 jf3 512 ?g ?k)"
    using wk' m i3 rec md fo by (intro journal_log_jnf) simp_all
  then show ?thesis using run nm by (intro exI conjI) simp_all
qed

end
