(* ===== verification/Vhd_Journal_Protect.thy ===== *)
theory Vhd_Journal_Protect
  imports Vhd_Journal_Create
begin

text \<open>
  What a journal protects. \<open>add_block_ok\<close>: \<open>vhd_journal_add_block\<close> records the bitmap and the data of an
  allocated block. \<open>protected\<close>: after \<open>vhd_journal_create\<close> and any number of added blocks, whatever is
  written to the metadata and to these blocks, and whatever becomes of the size of the file, a
  revert brings back the contents the file had before the journal was created.
\<close>

section \<open>The bytes logged\<close>

definition logged :: "jitem list \<Rightarrow> nat set" where
  "logged its = {x. \<exists>it \<in> set its. covers it x}"

lemma logged_simps [simp]:
  "logged [] = {}" "logged (xs @ ys) = logged xs \<union> logged ys"
  by (auto simp: logged_def)

lemma logged_item: "unat off = p \<Longrightarrow> logged [Item t off d pad] = {p..<p + length d}"
  by (auto simp: logged_def covers_def)

definition block_bytes :: "vhd_context \<Rightarrow> u8 \<Rightarrow> nat \<Rightarrow> nat set" where
  "block_bytes c mode b = (if \<not> allocated c b then {} else
     (if mode AND VHD_JOURNAL_METADATA = 0 then {} else {512 * start c b..<512 * (start c b + 1)}) \<union>
     (if mode AND VHD_JOURNAL_DATA = 0 then {} else {512 * (start c b + 1)..<512 * (start c b + 4097)}))"

definition meta_bytes :: "vfile \<Rightarrow> nat set" where
  "meta_bytes f = (\<Union>(t, off, n) \<in> set (meta_regions f). {off..<off + n})"

lemma logged_meta:
  assumes "recorded f rs its" and "f_size f < 2 ^ 63"
  shows "logged its = (\<Union>(t, off, n) \<in> set rs. {off..<off + n})"
  using assms(1)
proof (induction its arbitrary: rs)
  case (Cons it its)
  then obtain r rs' where rs: "rs = r # rs'" and r: "records f r it" and rec: "recorded f rs' its"
    by (auto simp: recorded_def list_all2_Cons2)
  obtain t off n where t: "r = (t, off, n)" by (cases r) auto
  have "covers it x \<longleftrightarrow> off \<le> x \<and> x < off + n" for x
    using r assms(2) by (simp add: t records_def covers_def unat_of_nat_small)
  moreover have "logged (it # its) = {x. covers it x} \<union> logged its" by (auto simp: logged_def)
  ultimately show ?case using Cons.IH [OF rec] by (auto simp: rs t)
qed simp

section \<open>One region of the image\<close>

lemma sync_id: "jw j \<Longrightarrow> vhd_journal_sync j = (Inr (), j)"
  by (simp add: vhd_journal_sync_def on_jfd_def take_ev_quiet jw_quiet) (simp add: jfd_state_def)

text \<open>What stays the same while blocks are added.\<close>

definition journaling :: "nat \<Rightarrow> vfile \<Rightarrow> vfile \<Rightarrow> jitem list \<Rightarrow> jitem list \<Rightarrow> vhd_journal \<Rightarrow> bool" where
  "journaling hs f0 f ms ds j \<longleftrightarrow> journal_of f0 ms ds j \<and> image_ok hs (j_vhd j) f"

lemma journaling_file: "journaling hs f0 f ms ds j \<Longrightarrow> image_file j = Some f"
  by (simp add: journaling_def image_ok_def image_core_def image_file_def cur_file_def)

lemma add_part:
  assumes jo: "journaling hs f0 f ms ds j"
    and rd: "m (j_vhd j) = (Inr (file_read f off n), st_with q f (j_vhd j))"
    and same: "\<And>x. off \<le> x \<Longrightarrow> x < off + n \<Longrightarrow> f_data f x = f_data f0 x"
    and n: "0 < n" "512 dvd n" "n < 4294967296" "off + n \<le> f_size f0" and l: "length ds < 1073741000"
  shows "\<exists>k it. vbind (on_vhd m) (\<lambda>buf. vthen (vdefined (n \<le> length buf))
      (vhd_journal_update (of_nat off) (take n buf) VHD_JOURNAL_ENTRY_TYPE_DATA)) j = (Inr (), k) \<and>
    journaling hs f0 f ms (ds @ [it]) k \<and> j_ctx k = j_ctx j \<and> logged [it] = {off..<off + n}"
proof -
  from jo have j: "journal_of f0 ms ds j" and io: "image_ok hs (j_vhd j) f" by (simp_all add: journaling_def)
  from j have w: "jw j" and im: "sound_image f0" and rec: "recorded f0 (meta_regions f0) ms"
    and sn: "\<forall>it \<in> set ds. snapshot f0 it" and md: "meta_done (j_header j) ms"
    and fo: "jh_vhd_footer_offset (j_header j) = of_nat (f_size f0 - 512)" by (simp_all add: journal_of_def journal_log_def)
  from j obtain jf where jf: "sys_files (st_sys (j_vhd j)) (j_jname j) = Some jf" and inv: "jinv (j_header j) jf ms ds"
    by (auto simp: journal_of_def journal_log_def)
  have m: "sound_metadata f0" using im by (simp add: sound_image_def)
  have sz: "f_size f0 < 2 ^ 63" by (rule sound_metadataD(3) [OF m])
  have lm: "length ms < 100"
    using recorded_length [OF rec] length_loc_regions [of "hdr_loc (disk_hdr f0)"]
    by (simp add: meta_regions_def length_disk_locs)
  have uo: "unat (of_nat off :: u64) = off" using n sz by (intro unat_of_nat_small) simp
  have eq: "file_read f off n = file_read f0 off n" using same by (simp add: file_read_def)
  have st: "j\<lparr>j_vhd := st_with q f (j_vhd j)\<rparr> = jnf (j_pos j) jf q f j"
    using jf by (simp add: jnf_def st_with_def at_pos_def set_cur_file_def set_errno_def fun_upd_idem)
  have 1: "on_vhd m j = (Inr (file_read f0 off n), jnf (j_pos j) jf q f j)"
    using rd st eq by (simp add: on_vhd_def)
  have d: "data_ok (file_read f0 off n)" using n by (intro data_ok_read)
  from add_item [OF w inv d, of VHD_JOURNAL_ENTRY_TYPE_DATA "of_nat off" "j_pos j" q f] lm l obtain jf' k pad where
    2: "vhd_journal_update (of_nat off) (file_read f0 off n) VHD_JOURNAL_ENTRY_TYPE_DATA (jnf (j_pos j) jf q f j) =
      (Inr (), jnf 512 jf' q f k)" and s: "jsame j k"
    and i: "jinv (j_header k) jf' ms (ds @ [Item VHD_JOURNAL_ENTRY_TYPE_DATA (of_nat off) (file_read f0 off n) pad])"
    by auto
  let ?it = "Item VHD_JOURNAL_ENTRY_TYPE_DATA (of_nat off) (file_read f0 off n) pad"
  have "snapshot f0 ?it" using n uo by (simp add: snapshot_def)
  moreover have "meta_done (j_header k) ms" using jinvD(11) [OF i] by (simp add: meta_done_def)
  ultimately have "journal_of f0 ms (ds @ [?it]) (jnf 512 jf' q f k)"
    using jsame_jw [OF s] w im m i rec sn fo s l unfolding journal_of_def by (intro conjI journal_log_jnf) (auto simp: jsame_def)
  moreover have "image_ok hs (j_vhd (jnf 512 jf' q f k)) f"
    using io jsame_ctx [OF s] jsame_jw [OF s] w by (auto simp: image_ok_def image_core_def intro: jw_quiet)
  moreover have "vbind (on_vhd m) (\<lambda>buf. vthen (vdefined (n \<le> length buf))
      (vhd_journal_update (of_nat off) (take n buf) VHD_JOURNAL_ENTRY_TYPE_DATA)) j = (Inr (), jnf 512 jf' q f k)"
    using 1 2 by (simp add: vbind_ok vdefined_def vret_def)
  moreover have "logged [?it] = {off..<off + n}" using logged_item [OF uo] by simp
  ultimately show ?thesis using jsame_ctx [OF s] unfolding journaling_def
    by (intro exI [of _ "jnf 512 jf' q f k"] exI [of _ ?it]) simp
qed

section \<open>One block\<close>

lemma add_block_ok:
  assumes jo: "journaling hs f0 f ms ds j" and b: "b < nblocks (j_ctx j)" and sz: "f_size f \<le> f_size f0"
    and same: "\<And>x. allocated (j_ctx j) b \<Longrightarrow> 512 * start (j_ctx j) b \<le> x \<Longrightarrow> x < 512 * (start (j_ctx j) b + 4097) \<Longrightarrow>
      f_data f x = f_data f0 x"
    and l: "length ds < 1073740000"
  shows "\<exists>k its. vhd_journal_add_block (of_nat b) mode j = (Inr (), k) \<and> journaling hs f0 f ms (ds @ its) k \<and>
    j_ctx k = j_ctx j \<and> logged its = block_bytes (j_ctx j) mode b \<and> length its \<le> 2"
proof -
  let ?c = "j_ctx j" and ?w = "bat_words (j_ctx j) ! b"
  let ?S = "512 * start ?c b" and ?T = "512 * (start ?c b + 1)"
  from jo have w: "jw j" and io: "image_ok hs (j_vhd j) f" by (simp_all add: journaling_def journal_of_def journal_log_def)
  from io have std: "std_ctx hs ?c" and cf: "cur_file (j_vhd j) = Some f" by (simp_all add: image_ok_def image_core_def)
  note c = std_ctxD [OF std]
  have bl: "b < length (bat_words ?c)" using b c(12) by simp
  have gb: "on_vhd vhd_get_bat j = (Inr (), j)" using get_bat_quiet [OF c(1) c(11)] by (simp add: on_vhd_def)
  have be: "on_vhd (bat_entry (unat (of_nat b :: u32))) j = (Inr ?w, j)"
    unfolding unat_of_nblocks [OF b] using bat_entry_quiet [of b "j_vhd j"] bl by (simp add: on_vhd_def)
  have nr: "\<not> of_nat b \<ge> bat_entries (ctx_bat ?c)" using of_nat_less_entries [OF b] by simp
  let ?A = "if mode AND VHD_JOURNAL_METADATA = 0 then vret ()
    else vbind (on_vhd (vhd_read_bitmap (of_nat b))) (\<lambda>buf. vthen (vdefined (512 \<le> length buf))
      (vhd_journal_update (of_nat ?S) (take 512 buf) VHD_JOURNAL_ENTRY_TYPE_DATA))"
  let ?B = "if mode AND VHD_JOURNAL_DATA = 0 then vret ()
    else vbind (on_vhd (vhd_read_block (of_nat b))) (\<lambda>buf. vthen (vdefined (2097152 \<le> length buf))
      (vhd_journal_update (of_nat ?T) (take 2097152 buf) VHD_JOURNAL_ENTRY_TYPE_DATA))"
  have run: "vhd_journal_add_block (of_nat b) mode j = (if ?w = DD_BLK_UNUSED then vret () else vthen ?A (vthen ?B vhd_journal_sync)) j"
  proof -
    have o1: "vhd_sectors_to_bytes (ucast ?w) = of_nat ?S"
      using unat_ucast_sectors [of ?w] by (metis of_nat_unat ucast_id)
    have "vhd_sectors_to_bytes (ucast (1 :: u32)) = 512" by (simp add: vhd_sectors_to_bytes_def VHD_SECTOR_SHIFT_def)
    moreover have "unat (vhd_sectors_to_bytes (ucast (4096 :: u32))) = 2097152"
      by (simp add: vhd_sectors_to_bytes_def VHD_SECTOR_SHIFT_def)
    moreover have "of_nat ?S + 512 = (of_nat ?T :: u64)" by simp
    ultimately show ?thesis
      using c(1,4,5) nr unfolding vhd_journal_add_block_def with_j_app Let_def
      by (simp add: vbind_ok [where m = "on_vhd vhd_get_bat", OF gb] with_j_app vbind_ok [where m = "on_vhd (bat_entry _)", OF be] o1
          del: of_nat_mult of_nat_add of_nat_Suc)
  qed
  show ?thesis
  proof (cases "allocated ?c b")
    case False
    then have "?w = DD_BLK_UNUSED" by (simp add: allocated_def)
    then show ?thesis using jo False unfolding run
      by (intro exI [of _ j] exI [of _ "[]"]) (simp add: vret_def block_bytes_def)
  next
    case True
    have fin: "?S + 2098176 \<le> f_size f0" using image_block_end [OF io b True] sz by simp
    have "\<exists>k its. ?A j = (Inr (), k) \<and> journaling hs f0 f ms (ds @ its) k \<and> j_ctx k = ?c \<and> length its \<le> 1 \<and>
      logged its = (if mode AND VHD_JOURNAL_METADATA = 0 then {} else {?S..<?T})"
    proof (cases "mode AND VHD_JOURNAL_METADATA = 0")
      case True
      then show ?thesis using jo by (intro exI [of _ j] exI [of _ "[]"]) (simp add: vret_def)
    next
      case False
      have "vhd_read_bitmap (of_nat b) (j_vhd j) = (Inr (file_read f ?S 512), st_with (?S + 512) f (j_vhd j))"
        using io fin image_block_end [OF io b True] b \<open>allocated ?c b\<close>
        by (intro read_bitmap_quiet) (auto simp: image_ok_def image_core_def)
      from add_part [where n = 512 and m = "vhd_read_bitmap (of_nat b)", OF jo this] same [OF \<open>allocated ?c b\<close>] fin l False show ?thesis
        by (auto intro!: exI [of _ "[_]"] simp: add.commute)
    qed
    then obtain k its where A: "?A j = (Inr (), k)" "journaling hs f0 f ms (ds @ its) k" "j_ctx k = ?c" "length its \<le> 1"
      "logged its = (if mode AND VHD_JOURNAL_METADATA = 0 then {} else {?S..<?T})" by blast
    have iok: "image_ok hs (j_vhd k) f" using A(2) by (simp add: journaling_def)
    have "\<exists>k' its'. ?B k = (Inr (), k') \<and> journaling hs f0 f ms ((ds @ its) @ its') k' \<and> j_ctx k' = ?c \<and> length its' \<le> 1 \<and>
      logged its' = (if mode AND VHD_JOURNAL_DATA = 0 then {} else {?T..<512 * (start ?c b + 4097)})"
    proof (cases "mode AND VHD_JOURNAL_DATA = 0")
      case True
      then show ?thesis using A by (intro exI [of _ k] exI [of _ "[]"]) (simp add: vret_def)
    next
      case False
      have "vhd_read_block (of_nat b) (j_vhd k) = (Inr (file_read f ?T 2097152), st_with (?T + 2097152) f (j_vhd k))"
        using read_block_quiet [OF iok, of b] b \<open>allocated ?c b\<close> A(3) by simp
      from add_part [where n = 2097152 and m = "vhd_read_block (of_nat b)", OF A(2) this] same [OF \<open>allocated ?c b\<close>] fin l False A(3,4) show ?thesis
        by (auto intro!: exI [of _ "[_]"] simp: add.commute)
    qed
    then obtain k' its' where B: "?B k = (Inr (), k')" "journaling hs f0 f ms ((ds @ its) @ its') k'" "j_ctx k' = ?c"
      "length its' \<le> 1" "logged its' = (if mode AND VHD_JOURNAL_DATA = 0 then {} else {?T..<512 * (start ?c b + 4097)})" by blast
    have "jw k'" using B(2) by (simp add: journaling_def journal_of_def journal_log_def)
    from sync_id [OF this] have "vthen ?A (vthen ?B vhd_journal_sync) j = (Inr (), k')"
      by (simp only: vbind_ok [where m = ?A, OF A(1)] vbind_ok [where m = ?B, OF B(1)])
    moreover have "?w \<noteq> DD_BLK_UNUSED" using True by (simp add: allocated_def)
    ultimately have "vhd_journal_add_block (of_nat b) mode j = (Inr (), k')" unfolding run by simp
    then show ?thesis using A(4,5) B(2-5) True
      by (intro exI [of _ k'] exI [of _ "its @ its'"]) (simp add: block_bytes_def)
  qed
qed

section \<open>From the creation to the revert\<close>

lemma add_blocks_ok:
  assumes "journaling hs f0 f ms ds j" and "\<forall>b \<in> set bs. b < nblocks (j_ctx j)" and "f_size f \<le> f_size f0"
    and "\<And>b x. b \<in> set bs \<Longrightarrow> allocated (j_ctx j) b \<Longrightarrow> 512 * start (j_ctx j) b \<le> x \<Longrightarrow>
      x < 512 * (start (j_ctx j) b + 4097) \<Longrightarrow> f_data f x = f_data f0 x"
    and "length ds + 2 * length bs < 1073740000"
  shows "\<exists>k its. vfor bs (\<lambda>b. vhd_journal_add_block (of_nat b) mode) j = (Inr (), k) \<and>
    journaling hs f0 f ms (ds @ its) k \<and> j_ctx k = j_ctx j \<and> logged its = (\<Union>b \<in> set bs. block_bytes (j_ctx j) mode b)"
  using assms
proof (induction bs arbitrary: j ds)
  case Nil
  then show ?case by (intro exI [of _ j] exI [of _ "[]"]) (simp add: vret_def)
next
  case (Cons b bs)
  have bd: "b < nblocks (j_ctx j)" "length ds < 1073740000" using Cons.prems(2,5) by simp_all
  have sb: "f_data f x = f_data f0 x"
    if "allocated (j_ctx j) b" "512 * start (j_ctx j) b \<le> x" "x < 512 * (start (j_ctx j) b + 4097)" for x
    using Cons.prems(4) [of b x] that by simp
  from add_block_ok [where mode = mode, OF Cons.prems(1) bd(1) Cons.prems(3) sb bd(2)] obtain k its where
    1: "vhd_journal_add_block (of_nat b) mode j = (Inr (), k)" and k: "journaling hs f0 f ms (ds @ its) k"
    and c: "j_ctx k = j_ctx j" and cov: "logged its = block_bytes (j_ctx j) mode b" and l: "length its \<le> 2" by auto
  have "length (ds @ its) + 2 * length bs < 1073740000" using l Cons.prems(5) by simp
  moreover have "\<forall>b \<in> set bs. b < nblocks (j_ctx k)" using Cons.prems(2) c by simp
  moreover have "f_data f x = f_data f0 x" if "b' \<in> set bs" "allocated (j_ctx k) b'" "512 * start (j_ctx k) b' \<le> x"
      "x < 512 * (start (j_ctx k) b' + 4097)" for b' x
    using Cons.prems(4) [of b' x] that c by simp
  ultimately obtain k' its' where
    2: "vfor bs (\<lambda>b. vhd_journal_add_block (of_nat b) mode) k = (Inr (), k')" and k': "journaling hs f0 f ms ((ds @ its) @ its') k'"
    and c': "j_ctx k' = j_ctx k" and cov': "logged its' = (\<Union>b \<in> set bs. block_bytes (j_ctx k) mode b)"
    using Cons.IH [OF k _ Cons.prems(3)] by blast
  show ?case using 1 2 k' c c' cov cov'
    by (intro exI [of _ k'] exI [of _ "its @ its'"]) (simp add: vbind_ok)
qed

lemma block_bytes_created: "block_bytes (created_ctx f n) mode b = block_bytes (loaded f [] 0) mode b"
  by (simp add: block_bytes_def)

text \<open>Whatever happens to the image, the journal is the same.\<close>

definition same_journal :: "vhd_journal \<Rightarrow> vhd_journal \<Rightarrow> bool" where
  "same_journal j k \<longleftrightarrow> quiet (j_vhd k) \<and> j_jname k = j_jname j \<and> j_header k = j_header j \<and>
     j_is_block k = j_is_block j \<and> ctx_file (j_ctx k) = ctx_file (j_ctx j) \<and>
     sys_files (st_sys (j_vhd k)) (j_jname j) = sys_files (st_sys (j_vhd j)) (j_jname j)"

lemma journal_log_same: "journal_log f0 ms ds j \<Longrightarrow> same_journal j k \<Longrightarrow> journal_log f0 ms ds k"
  by (simp add: journal_log_def same_journal_def jw_def)

lemma journal_of_same: "journal_of f0 ms ds j \<Longrightarrow> same_journal j k \<Longrightarrow> journal_of f0 ms ds k"
  by (auto simp: journal_of_def intro: journal_log_same)

text \<open>The revert, in terms of the bytes.\<close>

lemma revert_bytes:
  assumes jo: "journal_of f0 ms ds j" and f: "image_file j = Some f" and nb: "\<not> f_blk f"
    and n: "length (ctx_file (j_ctx j)) < MAX_NAME_LEN"
  shows "\<exists>k g. vhd_journal_revert lc fuel j = (Inr (), k) \<and> image_file k = Some g \<and> f_size g = f_size f0 \<and>
    (\<forall>x < f_size f0. x \<in> logged (ms @ ds) \<or> x < f_size f \<and> f_data f x = f_data f0 x \<longrightarrow> f_data g x = f_data f0 x) \<and>
    (\<forall>x < f_size f0. x \<notin> logged (ms @ ds) \<and> x < f_size f \<longrightarrow> f_data g x = f_data f x)"
proof -
  let ?f1 = "restored f0 ms f"
  let ?g = "restored f0 ds ?f1"
  from revert_ok [OF jo f nb n] obtain p jf q c where
    r: "vhd_journal_revert lc fuel j = (Inr (), jnf p jf q ?g (based c j))" by blast
  from jo have sn: "\<forall>it \<in> set ds. snapshot f0 it" and rec: "recorded f0 (meta_regions f0) ms" and im: "sound_image f0"
    by (simp_all add: journal_of_def journal_log_def)
  have m: "sound_metadata f0" using im by (simp add: sound_image_def)
  have sm: "\<forall>it \<in> set ms. snapshot f0 it" using recorded_snapshot [OF rec sound_metadataD(3) [OF m]] by blast
  have nb1: "\<not> f_blk ?f1" using nb by simp
  have "f_data ?g x = f_data f0 x" if x: "x < f_size f0" and h: "x \<in> logged (ms @ ds) \<or> x < f_size f \<and> f_data f x = f_data f0 x" for x
  proof (cases "x \<in> logged ds")
    case True
    then show ?thesis using restored_covered [OF sn nb1 x] by (simp add: logged_def)
  next
    case False
    then have "f_data ?f1 x = f_data f0 x" using h by (intro restored_covered [OF sm nb x]) (auto simp: logged_def)
    then show ?thesis using x by (intro restored_covered [OF sn nb1 x]) simp
  qed
  moreover have "f_data ?g x = f_data f x" if x: "x < f_size f0" and h: "x \<notin> logged (ms @ ds)" "x < f_size f" for x
  proof -
    have u: "\<forall>it \<in> set ms. \<not> covers it x" "\<forall>it \<in> set ds. \<not> covers it x" using h(1) by (auto simp: logged_def)
    have "f_data ?g x = f_data ?f1 x" using x by (intro restored_other [OF u(2) nb1]) simp_all
    also have "\<dots> = f_data f x" using x h(2) by (intro restored_other [OF u(1) nb])
    finally show ?thesis .
  qed
  ultimately show ?thesis using r by (intro exI [of _ "jnf p jf q ?g (based c j)"] exI [of _ ?g]) (simp add: jnf_files)
qed

lemma create_add_revert:
  assumes q: "quiet (j_vhd j)" and f: "sys_files (st_sys (j_vhd j)) name = Some f0" and jf: "sys_files (st_sys (j_vhd j)) jfile = None"
    and im: "whole_image hs f0" and n: "length name < MAX_NAME_LEN"
    and bs: "\<forall>b \<in> set bs. b < nblocks (loaded f0 [] 0)" and l: "length bs < 500000000"
  shows "\<exists>j1 j2. vhd_journal_create lc fuel name jfile j = (Inr (), j1) \<and>
    vfor bs (\<lambda>b. vhd_journal_add_block (of_nat b) mode) j1 = (Inr (), j2) \<and>
    (\<forall>k f. same_journal j2 k \<and> image_file k = Some f \<and> \<not> f_blk f \<and>
       (\<forall>x < f_size f0. x \<in> meta_bytes f0 \<union> (\<Union>b \<in> set bs. block_bytes (loaded f0 [] 0) mode b) \<or>
          x < f_size f \<and> f_data f x = f_data f0 x) \<longrightarrow>
       (\<exists>k' g. vhd_journal_revert lc fuel k = (Inr (), k') \<and> image_file k' = Some g \<and> f_size g = f_size f0 \<and>
          (\<forall>x < f_size f0. f_data g x = f_data f0 x)))"
proof -
  let ?c = "created_ctx f0 name"
  let ?g = "footed hs ?c f0"
  from im have si: "sound_image f0" and std: "std_ctx hs (loaded f0 [] 0)" and ok: "blocks_ok hs (loaded f0 [] 0) (f_size f0 - 512)"
    and fs: "f_size f0 = 512 * data_end hs (loaded f0 [] 0) + 512" and wm: "whole_metadata hs f0"
    unfolding whole_image_def whole_metadata_def by blast+
  have m: "sound_metadata f0" using si by (simp add: sound_image_def)
  from create_ok [OF q f jf wm n, of lc fuel] obtain p jf1 q1 ms k where
    cr: "vhd_journal_create lc fuel name jfile j = (Inr (), jnf p jf1 q1 ?g k)" and ck: "j_ctx k = ?c"
    and "journal_log f0 ms [] (jnf p jf1 q1 ?g k)" by blast
  then have jo: "journal_of f0 ms [] (jnf p jf1 q1 ?g k)" using si by (simp add: journal_of_def)
  let ?j1 = "jnf p jf1 q1 ?g k"
  have stc: "std_ctx hs ?c" by (rule std_ctx_created [OF std])
  note g = footed_facts [where f = f0 and hs = hs, OF std_ctxD(8) [OF stc] sound_metadataD(1) [OF m]]
  have gs: "f_size ?g = f_size f0" using g(2) fs by simp
  have wk: "jw k" using jo by (simp add: journal_of_def journal_log_def)
  have okc: "blocks_ok hs ?c (f_size f0 - 512)" using ok by simp
  have io: "image_ok hs (j_vhd ?j1) ?g"
    using stc okc blocks_ok_mono [OF okc, of "f_size f0"] g(1) gs jw_quiet [OF wk] ck by (simp add: image_ok_def image_core_def)
  then have jg: "journaling hs f0 ?g ms [] ?j1" using jo by (simp add: journaling_def)
  have same: "f_data ?g x = f_data f0 x" if "b \<in> set bs" "allocated ?c b" "512 * start ?c b \<le> x" "x < 512 * (start ?c b + 4097)" for b x
  proof (rule g(5))
    have b: "b < nblocks ?c" using bs that(1) by simp
    have "hs \<le> start ?c b" "512 * (start ?c b + 4097) \<le> f_size f0 - 512" using blocks_okD(1,2) [OF okc b that(2)] by simp_all
    then show "512 \<le> x" "x < 512 * data_end hs ?c" "x < f_size f0" using that(3,4) std_ctxD(15) [OF stc] fs by simp_all
  qed
  have "\<exists>k' its. vfor bs (\<lambda>b. vhd_journal_add_block (of_nat b) mode) ?j1 = (Inr (), k') \<and>
      journaling hs f0 ?g ms ([] @ its) k' \<and> j_ctx k' = j_ctx ?j1 \<and> logged its = (\<Union>b \<in> set bs. block_bytes (j_ctx ?j1) mode b)"
    using bs same l gs ck by (intro add_blocks_ok [OF jg]) simp_all
  then obtain j2 its where ab: "vfor bs (\<lambda>b. vhd_journal_add_block (of_nat b) mode) ?j1 = (Inr (), j2)"
    and j2: "journaling hs f0 ?g ms its j2" and c2: "j_ctx j2 = ?c"
    and cov: "logged its = (\<Union>b \<in> set bs. block_bytes (loaded f0 [] 0) mode b)"
    by (auto simp: ck block_bytes_created)
  have cm: "logged ms = meta_bytes f0"
    using jo logged_meta [OF _ sound_metadataD(3) [OF m]] by (simp add: journal_of_def journal_log_def meta_bytes_def)
  {
    fix k f
    assume sj: "same_journal j2 k" and fk: "image_file k = Some f" and nb: "\<not> f_blk f"
      and un: "\<forall>x < f_size f0. x \<in> meta_bytes f0 \<union> (\<Union>b \<in> set bs. block_bytes (loaded f0 [] 0) mode b) \<or>
          x < f_size f \<and> f_data f x = f_data f0 x"
    have jk: "journal_of f0 ms its k" using j2 sj by (auto simp: journaling_def intro: journal_of_same)
    have nk: "length (ctx_file (j_ctx k)) < MAX_NAME_LEN" using sj c2 n by (simp add: same_journal_def)
    from revert_bytes [OF jk fk nb nk, of lc fuel] obtain k' g where
      r: "vhd_journal_revert lc fuel k = (Inr (), k')" "image_file k' = Some g" "f_size g = f_size f0"
      and e: "\<And>x. x < f_size f0 \<Longrightarrow> x \<in> logged (ms @ its) \<or> x < f_size f \<and> f_data f x = f_data f0 x \<Longrightarrow> f_data g x = f_data f0 x"
      by blast
    have "\<forall>x < f_size f0. f_data g x = f_data f0 x" using e un by (simp add: cm cov)
    with r have "\<exists>k' g. vhd_journal_revert lc fuel k = (Inr (), k') \<and> image_file k' = Some g \<and> f_size g = f_size f0 \<and>
        (\<forall>x < f_size f0. f_data g x = f_data f0 x)"
      by blast
  }
  with cr ab show ?thesis by blast
qed

text \<open>With spare entries in the table the journal is created, but the revert refuses it.\<close>

lemma create_then_refused:
  assumes q: "quiet (j_vhd j)" and f: "sys_files (st_sys (j_vhd j)) name = Some f0" and jf: "sys_files (st_sys (j_vhd j)) jfile = None"
    and im: "whole_metadata hs f0" and n: "length name < MAX_NAME_LEN"
    and ne: "bat_len (disk_blks f0) \<noteq> bat_len (hdr_max_bat_size (disk_hdr f0))"
  shows "\<exists>j1. vhd_journal_create lc fuel name jfile j = (Inr (), j1) \<and>
    (\<forall>k f. same_journal j1 k \<and> image_file k = Some f \<and> \<not> f_blk f \<longrightarrow>
      (\<exists>k'. vhd_journal_revert lc fuel k = (Inl (Errno (- EINVAL)), k') \<and> image_file k' = Some f))"
proof -
  from create_ok [OF q f jf im n, of lc fuel] obtain p jf1 q1 ms k where
    cr: "vhd_journal_create lc fuel name jfile j = (Inr (), jnf p jf1 q1 (footed hs (created_ctx f0 name) f0) k)"
    and jo: "journal_log f0 ms [] (jnf p jf1 q1 (footed hs (created_ctx f0 name) f0) k)" by blast
  let ?j1 = "jnf p jf1 q1 (footed hs (created_ctx f0 name) f0) k"
  have "\<exists>k'. vhd_journal_revert lc fuel k2 = (Inl (Errno (- EINVAL)), k') \<and> image_file k' = Some f"
    if "same_journal ?j1 k2" "image_file k2 = Some f" "\<not> f_blk f" for k2 f
    using revert_refused [OF journal_log_same [OF jo that(1)] that(2,3) ne] .
  with cr show ?thesis by blast
qed

section \<open>Appending\<close>

lemma jnf_self:
  assumes "sys_files (st_sys (j_vhd j)) (j_jname j) = Some jf" and "image_file j = Some f"
  shows "j = set_jerrno (get_errno (j_vhd j)) (jnf (j_pos j) jf (st_pos (j_vhd j)) f j)"
  using assms by (simp add: set_jerrno_def jnf_def set_errno_def get_errno_def image_file_def fun_upd_idem)

lemma write_errno: "vhd_journal_write bs (set_jerrno e j) = vhd_journal_write bs j"
  by (simp add: vhd_journal_write_def on_jfd_def vbind_def vmodify_def set_jerrno_def jfd_state_def set_errno_def
      split: prod.split sum.split)

lemma catch_errno: "m (set_jerrno e j) = m j \<Longrightarrow> vcatch m h (set_jerrno e j) = vcatch m h j"
  by (simp add: vcatch_def)

text \<open>An update does not depend on the \<open>errno\<close> it finds either.\<close>

lemma seek_errno:
  assumes "jw j" and "0 \<le> off"
  shows "vhd_journal_seek off (set_jerrno e (jnf p jf q f j)) = (Inr (), set_jerrno e (jnf (nat off) jf q f j))"
proof -
  have "cur_file (jfd_state (set_jerrno e (jnf p jf q f j))) = Some jf" "quiet (jfd_state (set_jerrno e (jnf p jf q f j)))"
    using cur_jfd [OF assms(1), of p jf q f] jw_quiet [OF assms(1)]
    by (simp_all add: set_jerrno_def jfd_state_def cur_file_def set_errno_def quiet_def jnf_def)
  then show ?thesis
    using assms(2) by (simp add: vhd_journal_seek_def on_jfd_def seek_quiet)
      (simp add: at_pos_def set_jerrno_def jfd_state_def set_errno_def jnf_def)
qed

lemma update_errno:
  assumes w: "jw j" and e: "unat (jh_journal_eof (j_header j)) < 2 ^ 63" and d: "data_ok d"
  shows "vhd_journal_update off d type (set_jerrno err (jnf p jf q f j)) = vhd_journal_update off d type (jnf p jf q f j)"
proof -
  let ?k = "j\<lparr>j_junk := drop 4 (j_junk j)\<rparr>"
  have wk: "jw ?k" using w by (simp add: jnf_upd)
  have s: "0 \<le> sint (jh_journal_eof (j_header j))" using sint_small [OF e] by simp
  have tj: "take_junk 4 (jnf p jf q f j) = (Inr (junk4 j), jnf p jf q f ?k)" by (simp add: take_junk_nf junk4_def)
  have tj': "take_junk 4 (set_jerrno err (jnf p jf q f j)) = (Inr (junk4 j), set_jerrno err (jnf p jf q f ?k))"
    using tj by (simp add: take_junk_def set_jerrno_def jnf_def junk4_def)
  have we: "vhd_journal_write_entry en (set_jerrno err k) = vhd_journal_write_entry en k"
    if "vhd_journal_validate_entry en = 0" for en k
    using that by (simp add: vhd_journal_write_entry_def vbind_def vret_def write_errno)
  have v: "vhd_journal_validate_entry (entry_of (Item type off d (junk4 j))) = 0" using d by (intro validate_entry_of) simp
  have h: "j_header (set_jerrno err (jnf p jf q f ?k)) = j_header j" "j_header (jnf p jf q f ?k) = j_header j"
    by (simp_all add: set_jerrno_def)
  show ?thesis
    unfolding vhd_journal_update_alt vbind_ok [where m = "take_junk 4", OF tj] vbind_ok [where m = "take_junk 4", OF tj']
      with_j_app h vbind_ok [where m = "vhd_journal_seek _", OF seek_errno [OF wk s]]
    by (simp add: vbind_ok [where m = "vhd_journal_seek _", OF j_seek [OF wk s]] catch_errno bind_errno we [OF v])
qed

lemma update_data_ok:
  assumes jo: "journal_of f0 ms ds j" and f: "image_file j = Some f" and d: "data_ok d"
    and sn: "d = file_read f0 (unat off) (length d)" "unat off + length d \<le> f_size f0" and l: "length ds < 1073741000"
  shows "\<exists>k pad. vhd_journal_update off d VHD_JOURNAL_ENTRY_TYPE_DATA j = (Inr (), k) \<and>
    journal_of f0 ms (ds @ [Item VHD_JOURNAL_ENTRY_TYPE_DATA off d pad]) k \<and> image_file k = Some f"
proof -
  from jo have w: "jw j" and im: "sound_image f0" and m: "sound_metadata f0" and rec: "recorded f0 (meta_regions f0) ms"
    and sd: "\<forall>it \<in> set ds. snapshot f0 it" and fo: "jh_vhd_footer_offset (j_header j) = of_nat (f_size f0 - 512)"
    by (simp_all add: journal_of_def journal_log_def)
  from jo obtain jf where jf: "sys_files (st_sys (j_vhd j)) (j_jname j) = Some jf" and inv: "jinv (j_header j) jf ms ds"
    by (auto simp: journal_of_def journal_log_def)
  note i = jinvD [OF inv]
  have lm: "length ms < 100"
    using recorded_length [OF rec] length_loc_regions [of "hdr_loc (disk_hdr f0)"]
    by (simp add: meta_regions_def length_disk_locs)
  let ?J = "jnf (j_pos j) jf (st_pos (j_vhd j)) f j"
  have e: "unat (jh_journal_eof (j_header j)) < 2 ^ 63" using i(7,8) by simp
  have "vhd_journal_update off d VHD_JOURNAL_ENTRY_TYPE_DATA j = vhd_journal_update off d VHD_JOURNAL_ENTRY_TYPE_DATA ?J"
    by (subst jnf_self [OF jf f]) (rule update_errno [OF w e d])
  moreover from add_item [OF w inv d, of VHD_JOURNAL_ENTRY_TYPE_DATA off "j_pos j" "st_pos (j_vhd j)" f] lm l
  obtain jf' k pad where u: "vhd_journal_update off d VHD_JOURNAL_ENTRY_TYPE_DATA ?J = (Inr (), jnf 512 jf' (st_pos (j_vhd j)) f k)"
    and s: "jsame j k" and ik: "jinv (j_header k) jf' ms (ds @ [Item VHD_JOURNAL_ENTRY_TYPE_DATA off d pad])" by auto
  let ?it = "Item VHD_JOURNAL_ENTRY_TYPE_DATA off d pad" and ?K = "jnf 512 jf' (st_pos (j_vhd j)) f k"
  have "snapshot f0 ?it" using sn by (simp add: snapshot_def)
  moreover have "meta_done (j_header k) ms" using jinvD(11) [OF ik] by (simp add: meta_done_def)
  ultimately have "journal_of f0 ms (ds @ [?it]) ?K"
    using jsame_jw [OF s] w im m ik rec sd fo s l unfolding journal_of_def by (intro conjI journal_log_jnf) (auto simp: jsame_def)
  with u \<open>vhd_journal_update off d _ j = _\<close> show ?thesis
    by (intro exI [of _ ?K] exI [of _ pad]) (simp add: jnf_files)
qed

end
