(* ===== verification/Vhd_Journal_Example.thy ===== *)
theory Vhd_Journal_Example
  imports Vhd_Journal_Protect Vhd_Example
begin

text \<open>
  Files that are images of two blocks, the second of which is allocated, for the witnesses of the
  properties of the journal: footer, header and table are written where the format has them. The
  header leaves room for \<open>n\<close> blocks, 2 or 200.
\<close>

section \<open>The file\<close>

definition ex_foot :: hd_ftr where
  "ex_foot = ex_image_footer\<lparr>ftr_checksum := vhd_checksum_footer ex_image_footer\<rparr>"

definition ex_head :: "u32 \<Rightarrow> dd_hdr" where
  "ex_head n = (let h = ex_header\<lparr>hdr_max_bat_size := n\<rparr> in h\<lparr>hdr_checksum := vhd_checksum_header h\<rparr>)"

definition ex_table :: bytes where
  "ex_table = bat_bytes (DD_BLK_UNUSED # be32 7 # replicate 126 DD_BLK_UNUSED)"

definition ex_disk :: "u32 \<Rightarrow> vfile" where
  "ex_disk n = (let f = \<lparr>f_data = (\<lambda>_. 255), f_size = 2101760, f_blk = False\<rparr>;
     f = file_write f 2101248 (ftr_disk_bytes ex_foot);
     f = file_write f 0 (ftr_disk_bytes ex_foot);
     f = file_write f 512 (hdr_disk_bytes (ex_head n))
   in file_write f 1536 ex_table)"

lemma ex_foot_facts:
  "ftr_wf ex_foot" "vhd_validate_footer ex_foot = 0" "\<not> app_is_tap (ftr_crtr_app ex_foot)"
  "ftr_cookie ex_foot = HD_COOKIE" "ftr_type ex_foot = HD_TYPE_DYNAMIC" "ftr_data_offset ex_foot = 512"
  "ftr_curr_size ex_foot = 0x400000"
proof -
  have cs: "vhd_checksum_footer (ex_image_footer\<lparr>ftr_checksum := c\<rparr>) = vhd_checksum_footer ex_image_footer" for c
    by (simp add: vhd_checksum_footer_def)
  show 1: "ftr_cookie ex_foot = HD_COOKIE" by (simp add: ex_foot_def ex_image_footer_def ex_footer_def)
  then show "vhd_validate_footer ex_foot = 0" by (simp add: vhd_validate_footer_def) (simp add: ex_foot_def cs)
  show "ftr_wf ex_foot" using ftr_wf_ex_image_footer by (simp add: ex_foot_def ftr_wf_def)
  show "\<not> app_is_tap (ftr_crtr_app ex_foot)"
    by (simp add: ex_foot_def ex_image_footer_def app_is_tap_def ascii_def zeros_def numeral_3_eq_3)
  show "ftr_type ex_foot = HD_TYPE_DYNAMIC" "ftr_data_offset ex_foot = 512" "ftr_curr_size ex_foot = 0x400000"
    by (simp_all add: ex_foot_def ex_image_footer_def ex_footer_def)
qed

lemma ex_head_simps [simp]:
  "hdr_max_bat_size (ex_head n) = n" "hdr_table_offset (ex_head n) = 1536" "hdr_block_size (ex_head n) = 0x200000"
  "hdr_loc (ex_head n) = hdr_loc ex_header"
  by (simp_all add: ex_head_def Let_def ex_header_def)

lemma ex_head_facts: "hdr_wf (ex_head n)" "vhd_validate_header (ex_head n) = 0"
proof -
  let ?h = "ex_header\<lparr>hdr_max_bat_size := n\<rparr>"
  have cs: "vhd_checksum_header (ex_head n) = vhd_checksum_header ?h"
    by (simp add: ex_head_def Let_def vhd_checksum_header_def)
  show "hdr_wf (ex_head n)" using hdr_wf_ex_header by (simp add: ex_head_def Let_def hdr_wf_def)
  show "vhd_validate_header (ex_head n) = 0"
    using ex_header_loc_codes unfolding vhd_validate_header_def cs
    by (simp add: ex_head_def Let_def vhd_validate_platform_code_def) (simp add: ex_header_def DD_VERSION_def)
qed

lemma length_ex_table: "length ex_table = 512"
  by (simp add: ex_table_def)

lemma ex_disk_reads:
  "f_size (ex_disk n) = 2101760" "\<not> f_blk (ex_disk n)"
  "file_read (ex_disk n) 2101248 512 = ftr_disk_bytes ex_foot" "file_read (ex_disk n) 0 512 = ftr_disk_bytes ex_foot"
  "file_read (ex_disk n) 512 1024 = hdr_disk_bytes (ex_head n)" "file_read (ex_disk n) 1536 512 = ex_table"
proof -
  let ?F = "ftr_disk_bytes ex_foot" and ?H = "hdr_disk_bytes (ex_head n)"
  let ?f0 = "\<lparr>f_data = (\<lambda>_. 255), f_size = 2101760, f_blk = False\<rparr> :: vfile"
  let ?f1 = "file_write ?f0 2101248 ?F"
  let ?f2 = "file_write ?f1 0 ?F"
  let ?f3 = "file_write ?f2 512 ?H"
  have l: "length ?F = 512" "length ?H = 1024"
    using ex_foot_facts(1) ex_head_facts(1) by simp_all
  have d: "ex_disk n = file_write ?f3 1536 ex_table" by (simp only: ex_disk_def Let_def)
  have b: "\<not> f_blk ?f0" "f_size ?f0 = 2101760" by simp_all
  show "f_size (ex_disk n) = 2101760" "\<not> f_blk (ex_disk n)"
    unfolding d using l length_ex_table by (simp_all add: size_file_write)
  have h1: "holds ?f1 2101248 ?F" using b(1) by (rule holds_write)
  have h2: "holds ?f2 0 ?F" by (rule holds_write) (simp add: size_file_write)
  have h3: "holds ?f3 512 ?H" by (rule holds_write) (simp add: size_file_write)
  have "holds (ex_disk n) 1536 ex_table" unfolding d by (rule holds_write) (simp add: size_file_write)
  then show "file_read (ex_disk n) 1536 512 = ex_table" using length_ex_table by (simp add: holds_read)
  have "holds (ex_disk n) 512 ?H" unfolding d using h3 l by (elim holds_write_disjoint) simp
  then show "file_read (ex_disk n) 512 1024 = ?H" using l by (simp add: holds_read)
  have "holds ?f3 0 ?F" using h2 l by (elim holds_write_disjoint) simp
  then have "holds (ex_disk n) 0 ?F" unfolding d using l by (elim holds_write_disjoint) simp
  then show "file_read (ex_disk n) 0 512 = ?F" using l by (simp add: holds_read)
  have "holds ?f2 2101248 ?F" using h1 l by (elim holds_write_disjoint) simp
  then have "holds ?f3 2101248 ?F" using l by (elim holds_write_disjoint) simp
  then have "holds (ex_disk n) 2101248 ?F" unfolding d using l length_ex_table by (elim holds_write_disjoint) simp
  then show "file_read (ex_disk n) 2101248 512 = ?F" using l by (simp add: holds_read)
qed

lemma ex_disk_parts:
  "disk_ftr (ex_disk n) = ex_foot" "disk_copy (ex_disk n) = ex_foot" "hdr_pos (ex_disk n) = 512" "disk_hdr (ex_disk n) = ex_head n"
  "bat_pos (ex_disk n) = 1536" "disk_blks (ex_disk n) = 2" "bat_len 2 = 512" "bat_len 200 = 1024"
proof -
  have fd: "ftr_of_disk (ftr_disk_bytes ex_foot) = ex_foot" using ex_foot_facts(1) by (rule ftr_seal.dec_enc)
  have hd: "hdr_of_disk (hdr_disk_bytes (ex_head n)) = ex_head n" using ex_head_facts(1) by (rule hdr_seal.dec_enc)
  show 1: "disk_ftr (ex_disk n) = ex_foot" using ex_disk_reads fd by (simp add: disk_ftr_def)
  show "disk_copy (ex_disk n) = ex_foot" using ex_disk_reads fd by (simp add: disk_copy_def)
  show 2: "hdr_pos (ex_disk n) = 512" using 1 ex_foot_facts(6) by (simp add: hdr_pos_def)
  show 3: "disk_hdr (ex_disk n) = ex_head n" using 2 ex_disk_reads hd by (simp add: disk_hdr_def)
  show "bat_pos (ex_disk n) = 1536" by (simp add: bat_pos_def 3)
  show "disk_blks (ex_disk n) = 2" using 1 ex_foot_facts(7) by (simp add: disk_blks_def VHD_BLOCK_SHIFT_def)
  show "bat_len 2 = 512" "bat_len 200 = 1024" by (simp_all add: bat_len_val)
qed

text \<open>The end of the metadata in sectors, and the blocks the header has room for.\<close>

definition ex_shape :: "nat \<Rightarrow> u32 \<Rightarrow> bool" where
  "ex_shape hs n \<longleftrightarrow> hs = 4 \<and> n = 2 \<or> hs = 5 \<and> n = 200"

lemma sound_ex_disk:
  assumes "ex_shape hs n"
  shows "sound_metadata (ex_disk n)"
proof -
  note p = ex_disk_parts and r = ex_disk_reads and f = ex_foot_facts
  have g: "good_footer ex_foot" using f(2,3) by (simp add: good_footer_def legacy_hidden_def)
  have "\<forall>l \<in> set (hdr_loc (ex_head n)). good_loc 2101760 l" using ex_header_loc_codes by (simp add: good_loc_def)
  then show ?thesis
    unfolding sound_metadata_def p(1-6) r(1)
    using r(2) g f(3,4,5) ex_head_facts(2) p(7,8) assms by (auto simp: no_map_def ex_shape_def)
qed

lemma spare_ex_disk: "bat_len (disk_blks (ex_disk n)) = bat_len (hdr_max_bat_size (disk_hdr (ex_disk n))) \<longleftrightarrow> bat_len n = 512"
  by (auto simp: ex_disk_parts)

lemma ex_disk_words: "bat_words (loaded (ex_disk n) [] 0) = DD_BLK_UNUSED # 7 # replicate 126 DD_BLK_UNUSED"
  "nblocks (loaded (ex_disk n) [] 0) = 2" "bat_file_size (loaded (ex_disk n) [] 0) = 512"
proof -
  have "bat_of_bytes ex_table = DD_BLK_UNUSED # be32 7 # replicate 126 DD_BLK_UNUSED" by (simp add: ex_table_def)
  moreover have "be32 DD_BLK_UNUSED = DD_BLK_UNUSED" by code_simp
  ultimately show "bat_words (loaded (ex_disk n) [] 0) = DD_BLK_UNUSED # 7 # replicate 126 DD_BLK_UNUSED"
    by (simp add: bat_words_def disk_bat_def ex_disk_parts ex_disk_reads vhd_bat_in_def swap_first_def)
  show "nblocks (loaded (ex_disk n) [] 0) = 2" by (simp add: nblocks_def disk_bat_def vhd_bat_in_def ex_disk_parts)
  have "bat_entries (ctx_bat (loaded (ex_disk n) [] 0)) = 2" by (simp add: disk_bat_def vhd_bat_in_def ex_disk_parts)
  then show "bat_file_size (loaded (ex_disk n) [] 0) = 512" using ex_disk_parts(7) by (simp add: bat_file_size_def bat_len_def)
qed

lemma std_ctx_ex_disk:
  assumes "ex_shape hs n"
  shows "std_ctx hs (loaded (ex_disk n) [] 0)"
proof -
  let ?c = "loaded (ex_disk n) [] 0"
  have h: "ctx_header ?c = ex_head n" "ctx_footer ?c = ex_foot" by (simp_all add: ex_disk_parts)
  have bp: "vhd_bytes_padded 8 = 512" "vhd_bytes_padded 800 = 1024"
    by (simp_all add: vhd_bytes_padded_def secs_round_up_no_zero_def secs_round_up_def vhd_sectors_to_bytes_def
        VHD_SECTOR_SIZE_def VHD_SECTOR_SHIFT_def)
  have he: "headers_end ?c = of_nat (512 * hs)"
    unfolding headers_end_def h ex_head_simps(4) ex_header_locs
    using assms by (auto simp: ex_foot_facts ex_disk_parts bp max_off_def ex_shape_def)
  have s: "ctx_spb ?c = 4096" "ctx_bm_secs ?c = 1"
    by (simp_all add: loaded_def opened_def set_block_sizes_def Let_def ex_disk_parts VHD_SECTOR_SHIFT_def
        secs_round_up_no_zero_def secs_round_up_def VHD_SECTOR_SIZE_def)
  have "bat_bat (ctx_bat ?c) \<noteq> None" using ex_disk_words(1) [of n] by (auto simp: bat_words_def split: option.splits)
  then show ?thesis
    unfolding std_ctx_def h ex_disk_words
    using he s ex_foot_facts assms
    by (auto simp: vhd_type_dynamic_def no_batmap_def vhd_creator_tapdisk_def ex_disk_parts(1) vhd_flag_test_def ex_shape_def)
qed

lemma whole_ex_disk:
  assumes "ex_shape hs n"
  shows "whole_metadata hs (ex_disk n)"
proof -
  let ?c = "loaded (ex_disk n) [] 0"
  have hs: "hs \<le> 5" using assms by (auto simp: ex_shape_def)
  have al: "allocated ?c i \<longleftrightarrow> i = 1" if "i < 2" for i
    using that by (auto simp: allocated_def ex_disk_words less_2_cases_iff DD_BLK_UNUSED_def)
  have "blocks_ok hs ?c 2101248"
    unfolding blocks_ok_def ex_disk_words(2) using al hs by (auto simp: ex_disk_words)
  moreover have "data_end hs ?c = 4104"
    using hs by (simp add: data_end_def ex_disk_words DD_BLK_UNUSED_def)
  ultimately show ?thesis
    using sound_ex_disk [OF assms] std_ctx_ex_disk [OF assms] by (simp add: whole_metadata_def ex_disk_reads)
qed

lemma whole_ex_disk_2: "whole_image 4 (ex_disk 2)"
  using whole_ex_disk [of 4 2] sound_ex_disk [of 4 2] spare_ex_disk [of 2] ex_disk_parts
  by (simp add: whole_image_def sound_image_def ex_shape_def)

text \<open>A system that holds it, and a journal structure in any state.\<close>

definition ex_journal :: "u32 \<Rightarrow> vhd_journal" where
  "ex_journal n = \<lparr>j_jname = [], j_pos = 0, j_is_block = False, j_header = jh_zero,
     j_vhd = \<lparr>st_ctx = ctx_zero, st_pos = 0, st_parents = [],
       st_sys = \<lparr>sys_files = [''a.vhd'' \<mapsto> ex_disk n], sys_sched = [], sys_mem = [], sys_errno = 0\<rparr>\<rparr>,
     j_junk = []\<rparr>"

lemma ex_journal_facts:
  "quiet (j_vhd (ex_journal n))" "sys_files (st_sys (j_vhd (ex_journal n))) ''a.vhd'' = Some (ex_disk n)"
  "sys_files (st_sys (j_vhd (ex_journal n))) ''a.jnl'' = None" "length ''a.vhd'' < MAX_NAME_LEN"
  by (simp_all add: ex_journal_def quiet_def MAX_NAME_LEN_def)

lemma ex_created:
  "\<exists>ms j f. journal_of (ex_disk 2) ms [] j \<and> image_file j = Some f \<and> \<not> f_blk f \<and>
    length (ctx_file (j_ctx j)) < MAX_NAME_LEN \<and> 0 \<in> logged ms"
proof -
  have wm: "whole_metadata 4 (ex_disk 2)" using whole_ex_disk_2 by (simp add: whole_image_def)
  let ?c = "created_ctx (ex_disk 2) ''a.vhd''"
  let ?g = "footed 4 ?c (ex_disk 2)"
  from create_ok [OF ex_journal_facts(1-3) wm ex_journal_facts(4), of ex_libc 0] obtain p jf q ms k where
    c: "j_ctx k = ?c" and j: "journal_log (ex_disk 2) ms [] (jnf p jf q ?g k)" by blast
  have std: "std_ctx 4 ?c" using wm by (intro std_ctx_created) (simp add: whole_metadata_def)
  have "\<not> f_blk ?g" using footed_facts(1) [OF std_ctxD(8) [OF std] ex_disk_reads(2)] .
  moreover have "journal_of (ex_disk 2) ms [] (jnf p jf q ?g k)"
    using j whole_ex_disk_2 by (simp add: journal_of_def whole_image_def)
  moreover have "recorded (ex_disk 2) (meta_regions (ex_disk 2)) ms" using j by (simp add: journal_log_def)
  then have "0 \<in> logged ms"
    using logged_meta [of "ex_disk 2" "meta_regions (ex_disk 2)" ms] by (simp add: ex_disk_reads meta_regions_def)
  moreover have "length (ctx_file (j_ctx (jnf p jf q ?g k))) < MAX_NAME_LEN"
    using c ex_journal_facts(4) by simp
  ultimately show ?thesis using jnf_files(2) by blast
qed

end
