(* ===== verification/Block_Vhd.thy ===== *)
theory Block_Vhd
  imports Vhd_Open
begin

text \<open>
  The asynchronous VHD driver of tapdisk (\<open>drivers/block-vhd.c\<close>): the requests it keeps, the cache of
  sector bitmaps, the allocation of blocks and the transactions that order data, bitmap and table
  writes. The state is the one of \<open>struct vhd_state\<close>; pointers to requests and bitmaps are numbers
  (\<open>rid\<close>, an index of \<open>bitmap_list\<close>). What \<open>td_queue_tiocb\<close> hands to the queue and has not come back
  is \<open>vs_aio\<close>, and \<open>vs_out\<close> records what goes to the virtual block device: completed and forwarded
  requests. The callbacks there do not call the driver of the image again (\<open>tapdisk-vbd.c\<close>).
\<close>

section \<open>Structures\<close>

definition VHD_CACHE_SIZE :: nat where "VHD_CACHE_SIZE = 32"
definition VHD_REQS_DATA :: nat where "VHD_REQS_DATA = 32 * 11"
definition VHD_REQS_META :: nat where "VHD_REQS_META = VHD_CACHE_SIZE + 2"
definition VHD_REQS_TOTAL :: nat where "VHD_REQS_TOTAL = VHD_REQS_DATA + VHD_REQS_META"

definition VHD_OP_BAT_WRITE :: u8 where "VHD_OP_BAT_WRITE = 0"
definition VHD_OP_DATA_READ :: u8 where "VHD_OP_DATA_READ = 1"
definition VHD_OP_DATA_WRITE :: u8 where "VHD_OP_DATA_WRITE = 2"
definition VHD_OP_BITMAP_READ :: u8 where "VHD_OP_BITMAP_READ = 3"
definition VHD_OP_BITMAP_WRITE :: u8 where "VHD_OP_BITMAP_WRITE = 4"
definition VHD_OP_ZERO_BM_WRITE :: u8 where "VHD_OP_ZERO_BM_WRITE = 5"
definition VHD_OP_REDUNDANT_BM_WRITE :: u8 where "VHD_OP_REDUNDANT_BM_WRITE = 6"

lemmas vhd_op_defs = VHD_OP_BAT_WRITE_def VHD_OP_DATA_READ_def VHD_OP_DATA_WRITE_def
  VHD_OP_BITMAP_READ_def VHD_OP_BITMAP_WRITE_def VHD_OP_ZERO_BM_WRITE_def VHD_OP_REDUNDANT_BM_WRITE_def

definition VHD_BM_BAT_LOCKED :: int where "VHD_BM_BAT_LOCKED = 0"
definition VHD_BM_BAT_CLEAR :: int where "VHD_BM_BAT_CLEAR = 1"
definition VHD_BM_BIT_CLEAR :: int where "VHD_BM_BIT_CLEAR = 2"
definition VHD_BM_BIT_SET :: int where "VHD_BM_BIT_SET = 3"
definition VHD_BM_NOT_CACHED :: int where "VHD_BM_NOT_CACHED = 4"
definition VHD_BM_READ_PENDING :: int where "VHD_BM_READ_PENDING = 5"

lemmas vhd_bm_defs = VHD_BM_BAT_LOCKED_def VHD_BM_BAT_CLEAR_def VHD_BM_BIT_CLEAR_def VHD_BM_BIT_SET_def
  VHD_BM_NOT_CACHED_def VHD_BM_READ_PENDING_def

definition VHD_FLAG_OPEN_RDONLY :: u8 where "VHD_FLAG_OPEN_RDONLY = 1"
definition VHD_FLAG_OPEN_NO_CACHE :: u8 where "VHD_FLAG_OPEN_NO_CACHE = 2"
definition VHD_FLAG_OPEN_QUIET :: u8 where "VHD_FLAG_OPEN_QUIET = 4"
definition VHD_FLAG_OPEN_STRICT :: u8 where "VHD_FLAG_OPEN_STRICT = 8"
definition VHD_FLAG_OPEN_QUERY :: u8 where "VHD_FLAG_OPEN_QUERY = 16"
definition VHD_FLAG_OPEN_PREALLOCATE :: u8 where "VHD_FLAG_OPEN_PREALLOCATE = 32"
definition VHD_FLAG_BAT_LOCKED :: u8 where "VHD_FLAG_BAT_LOCKED = 1"
definition VHD_FLAG_BAT_WRITE_STARTED :: u8 where "VHD_FLAG_BAT_WRITE_STARTED = 2"
definition VHD_FLAG_BM_WRITE_PENDING :: u8 where "VHD_FLAG_BM_WRITE_PENDING = 2"
definition VHD_FLAG_BM_READ_PENDING :: u8 where "VHD_FLAG_BM_READ_PENDING = 4"
definition VHD_FLAG_BM_LOCKED :: u8 where "VHD_FLAG_BM_LOCKED = 8"
definition VHD_FLAG_REQ_UPDATE_BAT :: u8 where "VHD_FLAG_REQ_UPDATE_BAT = 1"
definition VHD_FLAG_REQ_UPDATE_BITMAP :: u8 where "VHD_FLAG_REQ_UPDATE_BITMAP = 2"
definition VHD_FLAG_REQ_QUEUED :: u8 where "VHD_FLAG_REQ_QUEUED = 4"
definition VHD_FLAG_REQ_FINISHED :: u8 where "VHD_FLAG_REQ_FINISHED = 8"
definition VHD_FLAG_TX_LIVE :: u8 where "VHD_FLAG_TX_LIVE = 1"
definition VHD_FLAG_TX_UPDATE_BAT :: u8 where "VHD_FLAG_TX_UPDATE_BAT = 2"

lemmas vhd_flag_defs = VHD_FLAG_OPEN_RDONLY_def VHD_FLAG_OPEN_NO_CACHE_def VHD_FLAG_OPEN_QUIET_def
  VHD_FLAG_OPEN_STRICT_def VHD_FLAG_OPEN_QUERY_def VHD_FLAG_OPEN_PREALLOCATE_def VHD_FLAG_BAT_LOCKED_def
  VHD_FLAG_BAT_WRITE_STARTED_def VHD_FLAG_BM_WRITE_PENDING_def VHD_FLAG_BM_READ_PENDING_def
  VHD_FLAG_BM_LOCKED_def VHD_FLAG_REQ_UPDATE_BAT_def VHD_FLAG_REQ_UPDATE_BITMAP_def
  VHD_FLAG_REQ_QUEUED_def VHD_FLAG_REQ_FINISHED_def VHD_FLAG_TX_LIVE_def VHD_FLAG_TX_UPDATE_BAT_def

text \<open>A request of the virtual block device. Memory is named by address (\<open>Guest\<close>) or by the buffer of the
  driver; \<open>secs\<close> is never negative.\<close>

datatype buffer = Guest u64 | Map_buf nat | Shadow_buf nat | Bat_buf | Zeros_buf | Padbm_buf | Null

record td_request =
  td_op :: int
  td_buf :: buffer
  td_sec :: u64
  td_secs :: nat
  td_image :: nat
  td_sidx :: int
  td_vreq :: nat

text \<open>Requests: those of \<open>vreq_list\<close>, the ones inside the bitmaps, and the two inside \<open>bat\<close>.\<close>

datatype rid = Data nat | Bm_req nat | Bat_req | Zero_req

record vhd_req_list =
  rl_head :: "rid option"
  rl_tail :: "rid option"

record vhd_transaction =
  tx_error :: int
  tx_closed :: bool
  tx_started :: nat
  tx_finished :: nat
  tx_status :: u8
  tx_requests :: vhd_req_list

record vhd_request =
  vr_error :: int
  vr_op :: u8
  vr_flags :: u8
  vr_treq :: td_request
  vr_next :: "rid option"
  vr_tx :: "nat option"

record vhd_bat_state =
  vb_bat :: vhd_bat
  vb_batmap :: vhd_batmap
  vb_status :: u8
  vb_pbw_blk :: u32
  vb_pbw_offset :: u64
  vb_bat_buf :: "u32 list"

record vhd_bitmap =
  vbm_blk :: u32
  vbm_seqno :: u64
  vbm_status :: u8
  vbm_map :: bytes
  vbm_shadow :: bytes
  vbm_tx :: vhd_transaction
  vbm_queue :: vhd_req_list
  vbm_waiting :: vhd_req_list

text \<open>Calls of the kernel under way, and what the driver reports. \<open>aio_off\<close> is in bytes.\<close>

record aio =
  aio_req :: rid
  aio_rw :: bool
  aio_buf :: buffer
  aio_secs :: nat
  aio_off :: u64

datatype vhd_out = Complete td_request int | Forward td_request

text \<open>The stacks of free requests and bitmaps are lists with the top at the head; their counts are the
  lengths. \<open>vs_zsize\<close> is \<open>_vhd_zsize\<close>, 0 while there is no \<open>_vhd_zeros\<close>.\<close>

record vhd_state =
  vs_flags :: u8
  vs_vhd :: vst
  vs_spp :: u32
  vs_spb :: u32
  vs_first_db :: u64
  vs_next_db :: u64
  vs_bat :: vhd_bat_state
  vs_bm_lru :: u64
  vs_bm_secs :: u32
  vs_bitmap :: "nat option list"
  vs_bitmap_free :: "nat list"
  vs_bitmap_list :: "nat \<Rightarrow> vhd_bitmap"
  vs_vreq_free :: "rid list"
  vs_req :: "rid \<Rightarrow> vhd_request"
  vs_padbm_size :: int
  vs_padbm_buf :: bytes
  vs_skipped_redundant_writes :: int
  vs_done_redundant_writes :: int
  vs_queued :: u64
  vs_completed :: u64
  vs_returned :: u64
  vs_reads :: u64
  vs_read_size :: u64
  vs_writes :: u64
  vs_write_size :: u64
  vs_zsize :: u64
  vs_aio :: "aio list"
  vs_out :: "vhd_out list"

type_synonym 'a bv = "(vhd_state, 'a) vm"

text \<open>What \<open>memset\<close> to zero makes of the structures.\<close>

definition td_zero :: td_request where
  "td_zero = \<lparr>td_op = 0, td_buf = Null, td_sec = 0, td_secs = 0, td_image = 0, td_sidx = 0, td_vreq = 0\<rparr>"

definition req_zero :: vhd_request where
  "req_zero = \<lparr>vr_error = 0, vr_op = 0, vr_flags = 0, vr_treq = td_zero, vr_next = None, vr_tx = None\<rparr>"

definition req_list_nil :: vhd_req_list where
  "req_list_nil = \<lparr>rl_head = None, rl_tail = None\<rparr>"

definition tx_zero :: vhd_transaction where
  "tx_zero = \<lparr>tx_error = 0, tx_closed = False, tx_started = 0, tx_finished = 0, tx_status = 0,
     tx_requests = req_list_nil\<rparr>"

section \<open>Access to the state\<close>

definition vget :: "('s \<Rightarrow> ('s, 'a) vm) \<Rightarrow> ('s, 'a) vm" where
  "vget f = (\<lambda>s. f s s)"

definition test_vhd_flag :: "u8 \<Rightarrow> u8 \<Rightarrow> bool" where
  "test_vhd_flag w flag \<longleftrightarrow> w AND flag \<noteq> 0"

definition set_vhd_flag :: "u8 \<Rightarrow> u8 \<Rightarrow> u8" where
  "set_vhd_flag w flag = w OR flag"

definition clear_vhd_flag :: "u8 \<Rightarrow> u8 \<Rightarrow> u8" where
  "clear_vhd_flag w flag = w AND NOT flag"

abbreviation vctx :: "vhd_state \<Rightarrow> vhd_context" where
  "vctx s \<equiv> st_ctx (vs_vhd s)"

abbreviation fixed_disk :: "vhd_state \<Rightarrow> bool" where
  "fixed_disk s \<equiv> ftr_type (ctx_footer (vctx s)) = HD_TYPE_FIXED"

definition on_lib :: "(vst, 'a) vm \<Rightarrow> 'a bv" where
  "on_lib m = (\<lambda>s. case m (vs_vhd s) of (r, v) \<Rightarrow> (r, s\<lparr>vs_vhd := v\<rparr>))"

definition upd_req :: "rid \<Rightarrow> (vhd_request \<Rightarrow> vhd_request) \<Rightarrow> vhd_state \<Rightarrow> vhd_state" where
  "upd_req r f s = s\<lparr>vs_req := (vs_req s)(r := f (vs_req s r))\<rparr>"

definition upd_bm :: "nat \<Rightarrow> (vhd_bitmap \<Rightarrow> vhd_bitmap) \<Rightarrow> vhd_state \<Rightarrow> vhd_state" where
  "upd_bm i f s = s\<lparr>vs_bitmap_list := (vs_bitmap_list s)(i := f (vs_bitmap_list s i))\<rparr>"

definition upd_tx :: "nat \<Rightarrow> (vhd_transaction \<Rightarrow> vhd_transaction) \<Rightarrow> vhd_state \<Rightarrow> vhd_state" where
  "upd_tx i f = upd_bm i (\<lambda>b. b\<lparr>vbm_tx := f (vbm_tx b)\<rparr>)"

definition upd_vbat :: "(vhd_bat_state \<Rightarrow> vhd_bat_state) \<Rightarrow> vhd_state \<Rightarrow> vhd_state" where
  "upd_vbat f s = s\<lparr>vs_bat := f (vs_bat s)\<rparr>"

abbreviation the_bm :: "vhd_state \<Rightarrow> nat \<Rightarrow> vhd_bitmap" where
  "the_bm s i \<equiv> vs_bitmap_list s i"

text \<open>\<open>bat_entry\<close>: an index outside the table is undefined.\<close>

definition bat_table :: "vhd_state \<Rightarrow> u32 list" where
  "bat_table s = (case bat_bat (vb_bat (vs_bat s)) of None \<Rightarrow> [] | Some t \<Rightarrow> t)"

definition get_entry :: "u32 \<Rightarrow> u32 bv" where
  "get_entry blk = vget (\<lambda>s. vthen (vdefined (unat blk < length (bat_table s))) (vret (bat_table s ! unat blk)))"

definition set_entry :: "u32 \<Rightarrow> u32 \<Rightarrow> unit bv" where
  "set_entry blk x = vget (\<lambda>s. vthen (vdefined (unat blk < length (bat_table s)))
     (vmodify (upd_vbat (\<lambda>b. b\<lparr>vb_bat := (vb_bat b)\<lparr>bat_bat := Some ((bat_table s)[unat blk := x])\<rparr>\<rparr>))))"

definition test_batmap :: "u32 \<Rightarrow> bool bv" where
  "test_batmap blk = vget (\<lambda>s. if bm_map (vb_batmap (vs_bat s)) = None then vret False
     else on_lib (vhd_batmap_test (vb_batmap (vs_bat s)) blk))"

definition set_batmap :: "u32 \<Rightarrow> unit bv" where
  "set_batmap blk = vget (\<lambda>s. if bm_map (vb_batmap (vs_bat s)) = None then vret ()
     else vbind (on_lib (vhd_batmap_set (vb_batmap (vs_bat s)) blk))
       (\<lambda>b. vmodify (upd_vbat (\<lambda>v. v\<lparr>vb_batmap := b\<rparr>))))"

definition get_vhd_zeros :: "u64 \<Rightarrow> unit bv" where
  "get_vhd_zeros sz = vget (\<lambda>s. vassert (vs_zsize s \<noteq> 0 \<and> sz \<le> vs_zsize s))"

text \<open>Block and sector inside the block of a sector of the disk, and the sectors up to the block's end.\<close>

definition blk_of :: "vhd_state \<Rightarrow> u64 \<Rightarrow> u32" where
  "blk_of s sec = ucast (sec div ucast (vs_spb s))"

definition sec_of :: "vhd_state \<Rightarrow> u64 \<Rightarrow> u32" where
  "sec_of s sec = ucast (sec mod ucast (vs_spb s))"

definition blk_room :: "vhd_state \<Rightarrow> u64 \<Rightarrow> nat" where
  "blk_room s sec = unat (ucast (vs_spb s) - sec mod ucast (vs_spb s))"

section \<open>Lists of requests\<close>

definition add_to_tail :: "vhd_req_list \<Rightarrow> rid \<Rightarrow> vhd_req_list bv" where
  "add_to_tail l e = (if rl_head l = None then vret \<lparr>rl_head = Some e, rl_tail = Some e\<rparr>
     else case rl_tail l of None \<Rightarrow> vraise Undef
       | Some t \<Rightarrow> vthen (vmodify (upd_req t (\<lambda>r. r\<lparr>vr_next := Some e\<rparr>))) (vret (l\<lparr>rl_tail := Some e\<rparr>)))"

text \<open>The walk of \<open>remove_from_req_list\<close>; there are \<open>VHD_REQS_TOTAL\<close> requests in all.\<close>

primrec remove_walk :: "nat \<Rightarrow> vhd_req_list \<Rightarrow> rid \<Rightarrow> rid \<Rightarrow> (vhd_req_list \<times> int) bv" where
  "remove_walk 0 l e i = vraise Hang"
| "remove_walk (Suc k) l e i = vget (\<lambda>s. case vr_next (vs_req s i) of
     None \<Rightarrow> vret (l, - EINVAL)
   | Some n \<Rightarrow> if n = e then
         (if rl_tail l = Some e
          then vthen (vmodify (upd_req i (\<lambda>r. r\<lparr>vr_next := None\<rparr>))) (vret (l\<lparr>rl_tail := Some i\<rparr>, 0))
          else vthen (vmodify (upd_req i (\<lambda>r. r\<lparr>vr_next := vr_next (vs_req s n)\<rparr>))) (vret (l, 0)))
       else remove_walk k l e n)"

definition remove_from_req_list :: "vhd_req_list \<Rightarrow> rid \<Rightarrow> (vhd_req_list \<times> int) bv" where
  "remove_from_req_list l e = (case rl_head l of None \<Rightarrow> vraise Undef
     | Some h \<Rightarrow> if h = e then
           (if rl_tail l = Some e then vret (req_list_nil, 0)
            else vget (\<lambda>s. vret (l\<lparr>rl_head := vr_next (vs_req s e)\<rparr>, 0)))
         else remove_walk VHD_REQS_TOTAL l e h)"

definition init_vhd_request :: "rid \<Rightarrow> vhd_state \<Rightarrow> vhd_state" where
  "init_vhd_request r = upd_req r (\<lambda>_. req_zero)"

definition add_to_transaction :: "nat \<Rightarrow> rid \<Rightarrow> unit bv" where
  "add_to_transaction i r = vget (\<lambda>s. vthen (vassert (\<not> tx_closed (vbm_tx (the_bm s i))))
     (vthen (vmodify (upd_req r (\<lambda>q. q\<lparr>vr_tx := Some i\<rparr>)))
       (vthen (vmodify (upd_tx i (\<lambda>t. t\<lparr>tx_started := tx_started t + 1\<rparr>)))
         (vbind (add_to_tail (tx_requests (vbm_tx (the_bm s i))) r) (\<lambda>l.
            vmodify (upd_tx i (\<lambda>t. t\<lparr>tx_requests := l, tx_status := set_vhd_flag (tx_status t) VHD_FLAG_TX_LIVE\<rparr>)))))))"

definition transaction_completed :: "vhd_transaction \<Rightarrow> bool" where
  "transaction_completed tx \<longleftrightarrow> tx_started tx = tx_finished tx"

section \<open>The lock of the table\<close>

definition init_bat :: "vhd_state \<Rightarrow> vhd_state" where
  "init_bat s = upd_vbat (\<lambda>b. b\<lparr>vb_pbw_blk := 0, vb_pbw_offset := 0, vb_status := 0\<rparr>)
     (upd_req Bat_req (\<lambda>q. q\<lparr>vr_tx := None, vr_next := None, vr_error := 0\<rparr>) s)"

definition lock_bat :: "vhd_state \<Rightarrow> vhd_state" where
  "lock_bat = upd_vbat (\<lambda>b. b\<lparr>vb_status := set_vhd_flag (vb_status b) VHD_FLAG_BAT_LOCKED\<rparr>)"

definition unlock_bat :: "vhd_state \<Rightarrow> vhd_state" where
  "unlock_bat = upd_vbat (\<lambda>b. b\<lparr>vb_status := clear_vhd_flag (vb_status b) VHD_FLAG_BAT_LOCKED\<rparr>)"

definition bat_locked :: "vhd_state \<Rightarrow> bool" where
  "bat_locked s = test_vhd_flag (vb_status (vs_bat s)) VHD_FLAG_BAT_LOCKED"

section \<open>The cache of bitmaps\<close>

definition init_vhd_bitmap :: "nat \<Rightarrow> vhd_state \<Rightarrow> vhd_state" where
  "init_vhd_bitmap i s = init_vhd_request (Bm_req i) (upd_bm i (\<lambda>_. \<lparr>vbm_blk = 0, vbm_seqno = 0,
     vbm_status = 0, vbm_map = zeros (512 * unat (vs_bm_secs s)), vbm_shadow = zeros (512 * unat (vs_bm_secs s)),
     vbm_tx = tx_zero, vbm_queue = req_list_nil, vbm_waiting = req_list_nil\<rparr>) s)"

definition get_bitmap :: "vhd_state \<Rightarrow> u32 \<Rightarrow> nat option" where
  "get_bitmap s blk = (case List.find (\<lambda>p. case p of None \<Rightarrow> False | Some i \<Rightarrow> vbm_blk (the_bm s i) = blk) (vs_bitmap s)
     of None \<Rightarrow> None | Some p \<Rightarrow> p)"

definition lock_bitmap :: "nat \<Rightarrow> vhd_state \<Rightarrow> vhd_state" where
  "lock_bitmap i = upd_bm i (\<lambda>b. b\<lparr>vbm_status := set_vhd_flag (vbm_status b) VHD_FLAG_BM_LOCKED\<rparr>)"

definition unlock_bitmap :: "nat \<Rightarrow> vhd_state \<Rightarrow> vhd_state" where
  "unlock_bitmap i = upd_bm i (\<lambda>b. b\<lparr>vbm_status := clear_vhd_flag (vbm_status b) VHD_FLAG_BM_LOCKED\<rparr>)"

definition bitmap_locked :: "vhd_bitmap \<Rightarrow> bool" where
  "bitmap_locked b = test_vhd_flag (vbm_status b) VHD_FLAG_BM_LOCKED"

definition bitmap_valid :: "vhd_bitmap \<Rightarrow> bool" where
  "bitmap_valid b \<longleftrightarrow> \<not> test_vhd_flag (vbm_status b) VHD_FLAG_BM_READ_PENDING"

definition bitmap_in_use :: "vhd_bitmap \<Rightarrow> bool" where
  "bitmap_in_use b \<longleftrightarrow> test_vhd_flag (vbm_status b) VHD_FLAG_BM_READ_PENDING \<or>
     test_vhd_flag (vbm_status b) VHD_FLAG_BM_WRITE_PENDING \<or>
     test_vhd_flag (tx_status (vbm_tx b)) VHD_FLAG_TX_UPDATE_BAT \<or>
     rl_head (vbm_waiting b) \<noteq> None \<or> rl_head (tx_requests (vbm_tx b)) \<noteq> None \<or> rl_head (vbm_queue b) \<noteq> None"

definition bitmap_full :: "vhd_state \<Rightarrow> vhd_bitmap \<Rightarrow> bool" where
  "bitmap_full s b \<longleftrightarrow> (\<forall>i \<in> set [0..<unat (drop_bit 3 (vs_spb s))]. vbm_map b ! i = 0xFF)"

text \<open>The scan for the bitmap that was not used for longest: the slot, the bitmap, its number so far.\<close>

primrec lru_scan :: "vhd_state \<Rightarrow> nat list \<Rightarrow> (nat \<times> nat) option \<Rightarrow> u64 \<Rightarrow> (nat \<times> nat) option" where
  "lru_scan s [] best sq = best"
| "lru_scan s (k # ks) best sq = (case vs_bitmap s ! k of None \<Rightarrow> lru_scan s ks best sq
     | Some i \<Rightarrow> if vbm_seqno (the_bm s i) < sq \<and> \<not> bitmap_locked (the_bm s i)
         then lru_scan s ks (Some (k, i)) (vbm_seqno (the_bm s i)) else lru_scan s ks best sq)"

definition remove_lru_bitmap :: "nat option bv" where
  "remove_lru_bitmap = vget (\<lambda>s. case lru_scan s [0..<VHD_CACHE_SIZE] None (vs_bm_lru s) of
     None \<Rightarrow> vret None
   | Some (idx, i) \<Rightarrow> vthen (vmodify (\<lambda>s. s\<lparr>vs_bitmap := (vs_bitmap s)[idx := None]\<rparr>))
       (vthen (vassert (\<not> bitmap_in_use (the_bm s i))) (vret (Some i))))"

definition alloc_vhd_bitmap :: "u32 \<Rightarrow> nat bv" where
  "alloc_vhd_bitmap blk = vbind (vget (\<lambda>s. case vs_bitmap_free s of
       i # is \<Rightarrow> vthen (vmodify (\<lambda>s. s\<lparr>vs_bitmap_free := is\<rparr>)) (vret i)
     | [] \<Rightarrow> vbind remove_lru_bitmap (\<lambda>r. case r of None \<Rightarrow> vfail (- EBUSY) | Some i \<Rightarrow> vret i)))
   (\<lambda>i. vthen (vmodify (init_vhd_bitmap i)) (vthen (vmodify (upd_bm i (\<lambda>b. b\<lparr>vbm_blk := blk\<rparr>))) (vret i)))"

text \<open>\<open>__bitmap_lru_seqno\<close>: at the wrap all sequence numbers are halved.\<close>

primrec halve_seqnos :: "nat option list \<Rightarrow> vhd_state \<Rightarrow> vhd_state" where
  "halve_seqnos [] s = s"
| "halve_seqnos (p # ps) s = halve_seqnos ps (case p of None \<Rightarrow> s
     | Some i \<Rightarrow> let t = upd_bm i (\<lambda>b. b\<lparr>vbm_seqno := drop_bit 1 (vbm_seqno b)\<rparr>) s
         in if vbm_seqno (the_bm t i) > vs_bm_lru t then t\<lparr>vs_bm_lru := vbm_seqno (the_bm t i)\<rparr> else t)"

definition bitmap_lru_seqno :: "vhd_state \<Rightarrow> vhd_state" where
  "bitmap_lru_seqno s = (let t = (if vs_bm_lru s = 0xffffffff then halve_seqnos (vs_bitmap s) (s\<lparr>vs_bm_lru := 0\<rparr>) else s)
     in t\<lparr>vs_bm_lru := vs_bm_lru t + 1\<rparr>)"

definition touch_bitmap :: "nat \<Rightarrow> vhd_state \<Rightarrow> vhd_state" where
  "touch_bitmap i s = (let t = bitmap_lru_seqno s in upd_bm i (\<lambda>b. b\<lparr>vbm_seqno := vs_bm_lru t\<rparr>) t)"

definition free_slot :: "vhd_state \<Rightarrow> nat option" where
  "free_slot s = List.find (\<lambda>k. vs_bitmap s ! k = None) [0..<VHD_CACHE_SIZE]"

definition install_bitmap :: "nat \<Rightarrow> unit bv" where
  "install_bitmap i = vget (\<lambda>s. case free_slot s of None \<Rightarrow> vraise Abort
     | Some k \<Rightarrow> vthen (vmodify (touch_bitmap i)) (vmodify (\<lambda>s. s\<lparr>vs_bitmap := (vs_bitmap s)[k := Some i]\<rparr>)))"

definition free_vhd_bitmap :: "nat \<Rightarrow> unit bv" where
  "free_vhd_bitmap i = vget (\<lambda>s.
     vthen (vassert (\<not> bitmap_locked (the_bm s i))) (vthen (vassert (\<not> bitmap_in_use (the_bm s i)))
       (case List.find (\<lambda>k. vs_bitmap s ! k = Some i) [0..<VHD_CACHE_SIZE] of None \<Rightarrow> vraise Abort
        | Some k \<Rightarrow> vthen (vdefined (length (vs_bitmap_free s) < VHD_CACHE_SIZE))
            (vmodify (\<lambda>s. s\<lparr>vs_bitmap := (vs_bitmap s)[k := None], vs_bitmap_free := i # vs_bitmap_free s\<rparr>)))))"

definition read_bitmap_cache :: "u64 \<Rightarrow> u8 \<Rightarrow> int bv" where
  "read_bitmap_cache sector op = vget (\<lambda>s. if fixed_disk s then vret VHD_BM_BIT_SET
     else let blk = blk_of s sector; sec = sec_of s sector
     in if blk > hdr_max_bat_size (ctx_header (vctx s)) then vret (- EINVAL)
     else vbind (get_entry blk) (\<lambda>e.
       if e = DD_BLK_UNUSED then
         (if op = VHD_OP_DATA_WRITE \<and> vb_pbw_blk (vs_bat s) \<noteq> blk \<and> bat_locked s then vret VHD_BM_BAT_LOCKED
          else vret VHD_BM_BAT_CLEAR)
       else vbind (test_batmap blk) (\<lambda>full. if full then vret VHD_BM_BIT_SET
         else case get_bitmap s blk of None \<Rightarrow> vret VHD_BM_NOT_CACHED
           | Some i \<Rightarrow> vthen (vmodify (touch_bitmap i))
               (vget (\<lambda>s. if test_vhd_flag (vbm_status (the_bm s i)) VHD_FLAG_BM_READ_PENDING then vret VHD_BM_READ_PENDING
                  else vret (if vhd_bitmap_test (vctx s) (vbm_map (the_bm s i)) (unat sec)
                             then VHD_BM_BIT_SET else VHD_BM_BIT_CLEAR))))))"

definition read_bitmap_cache_span :: "u64 \<Rightarrow> nat \<Rightarrow> bool \<Rightarrow> nat bv" where
  "read_bitmap_cache_span sector nr_secs val = vget (\<lambda>s. if fixed_disk s then vret nr_secs
     else vbind (test_batmap (blk_of s sector)) (\<lambda>full. if full then vret (min nr_secs (blk_room s sector))
       else case get_bitmap s (blk_of s sector) of None \<Rightarrow> vraise Abort
         | Some i \<Rightarrow> vthen (vassert (bitmap_valid (the_bm s i)))
             (vret (length (takeWhile (\<lambda>k. vhd_bitmap_test (vctx s) (vbm_map (the_bm s i)) (unat (sec_of s sector) + k) = val)
                [0..<min nr_secs (blk_room s sector)])))))"

section \<open>Requests and the queue\<close>

definition alloc_vhd_request :: "rid option bv" where
  "alloc_vhd_request = vget (\<lambda>s. case vs_vreq_free s of [] \<Rightarrow> vret None
     | r # rs \<Rightarrow> vthen (vmodify (\<lambda>s. s\<lparr>vs_vreq_free := rs\<rparr>))
         (vthen (vassert (td_secs (vr_treq (vs_req s r)) = 0)) (vthen (vmodify (init_vhd_request r)) (vret (Some r)))))"

definition free_vhd_request :: "rid \<Rightarrow> unit bv" where
  "free_vhd_request r = vget (\<lambda>s. vthen (vdefined (length (vs_vreq_free s) < VHD_REQS_DATA))
     (vmodify (\<lambda>s. (init_vhd_request r s)\<lparr>vs_vreq_free := r # vs_vreq_free s\<rparr>)))"

definition td_complete_request :: "td_request \<Rightarrow> int \<Rightarrow> unit bv" where
  "td_complete_request t err = vmodify (\<lambda>s. s\<lparr>vs_out := vs_out s @ [Complete t err]\<rparr>)"

definition td_forward_request :: "td_request \<Rightarrow> unit bv" where
  "td_forward_request t = vmodify (\<lambda>s. s\<lparr>vs_out := vs_out s @ [Forward t]\<rparr>)"

definition aio_read :: "rid \<Rightarrow> u64 \<Rightarrow> unit bv" where
  "aio_read r off = vmodify (\<lambda>s. let t = vr_treq (vs_req s r) in
     s\<lparr>vs_aio := vs_aio s @ [\<lparr>aio_req = r, aio_rw = False, aio_buf = td_buf t, aio_secs = td_secs t, aio_off = off\<rparr>],
       vs_queued := vs_queued s + 1, vs_reads := vs_reads s + 1, vs_read_size := vs_read_size s + of_nat (td_secs t)\<rparr>)"

definition aio_write :: "rid \<Rightarrow> u64 \<Rightarrow> unit bv" where
  "aio_write r off = vmodify (\<lambda>s. let t = vr_treq (vs_req s r) in
     s\<lparr>vs_aio := vs_aio s @ [\<lparr>aio_req = r, aio_rw = True, aio_buf = td_buf t, aio_secs = td_secs t, aio_off = off\<rparr>],
       vs_queued := vs_queued s + 1, vs_writes := vs_writes s + 1, vs_write_size := vs_write_size s + of_nat (td_secs t)\<rparr>)"

section \<open>Allocation of a block\<close>

definition db_gap :: "vhd_state \<Rightarrow> u64" where
  "db_gap s = (let m = (vs_next_db s + ucast (vs_bm_secs s)) mod ucast (vs_spp s)
     in if m \<noteq> 0 then ucast (vs_spp s) - m else 0)"

definition reserve_new_block :: "u32 \<Rightarrow> u64 bv" where
  "reserve_new_block blk = vget (\<lambda>s.
     vthen (vassert (\<not> test_vhd_flag (vb_status (vs_bat s)) VHD_FLAG_BAT_WRITE_STARTED))
       (vthen (vmodify (upd_vbat (\<lambda>b. b\<lparr>vb_pbw_blk := blk, vb_pbw_offset := vs_next_db s + db_gap s\<rparr>)))
         (vret (vs_next_db s))))"

text \<open>The sector of the table that holds the entry, as 128 words in disk byte order.\<close>

definition schedule_bat_write :: "unit bv" where
  "schedule_bat_write = vget (\<lambda>s. let b = vs_bat s; blk = vb_pbw_blk b; base = blk - blk mod 128
     in vthen (vassert (bat_locked s)) (vthen (vmodify (init_vhd_request Bat_req))
       (vthen (vdefined (unat base + 128 \<le> length (bat_table s)))
         (let buf = (take 128 (drop (unat base) (bat_table s)))[unat (blk mod 128) := ucast (vb_pbw_offset b)]
          in vthen (vmodify (upd_vbat (\<lambda>b. b\<lparr>vb_bat_buf := map be32 buf\<rparr>)))
            (vthen (vmodify (upd_req Bat_req (\<lambda>q. q\<lparr>vr_treq := (vr_treq q)\<lparr>td_secs := 1, td_buf := Bat_buf\<rparr>,
                 vr_op := VHD_OP_BAT_WRITE, vr_next := None\<rparr>)))
              (vthen (aio_write Bat_req (hdr_table_offset (ctx_header (vctx s)) + ucast (base * 4)))
                (vmodify (upd_vbat (\<lambda>b. b\<lparr>vb_status := set_vhd_flag (vb_status b) VHD_FLAG_BAT_WRITE_STARTED\<rparr>)))))))))"

definition schedule_zero_bm_write :: "nat \<Rightarrow> u64 \<Rightarrow> unit bv" where
  "schedule_zero_bm_write i lb_end = vget (\<lambda>s. let b = vs_bat s;
       secs = (vb_pbw_offset b - lb_end) + ucast (vs_bm_secs s)
     in vthen (vmodify (init_vhd_request Zero_req))
       (vthen (get_vhd_zeros (vhd_sectors_to_bytes secs))
         (vthen (vmodify (upd_req Zero_req (\<lambda>q. q\<lparr>vr_op := VHD_OP_ZERO_BM_WRITE,
              vr_treq := (vr_treq q)\<lparr>td_sec := ucast (vb_pbw_blk b * vs_spb s), td_secs := unat secs, td_buf := Zeros_buf\<rparr>,
              vr_next := None\<rparr>)))
           (vthen (vmodify (lock_bitmap i))
             (vthen (add_to_transaction i Zero_req) (aio_write Zero_req (vhd_sectors_to_bytes lb_end)))))))"

definition schedule_redundant_bm_write :: "u32 \<Rightarrow> unit bv" where
  "schedule_redundant_bm_write blk = vget (\<lambda>s. vthen (vassert (\<not> fixed_disk s))
     (vbind (test_batmap blk) (\<lambda>full. vthen (vassert full)
       (vbind alloc_vhd_request (\<lambda>r. case r of None \<Rightarrow> vret ()
          | Some r \<Rightarrow> vbind (get_entry blk) (\<lambda>e. vthen (vassert (e \<noteq> DD_BLK_UNUSED))
              (vthen (vmodify (upd_req r (\<lambda>q. q\<lparr>vr_op := VHD_OP_REDUNDANT_BM_WRITE,
                   vr_treq := (vr_treq q)\<lparr>td_buf := Padbm_buf, td_sec := ucast (blk * vs_spb s),
                     td_secs := nat (vs_padbm_size s div 512)\<rparr>, vr_next := None\<rparr>)))
                (aio_write r (push_bit VHD_SECTOR_SHIFT (ucast e) -
                   ucast (of_int (vs_padbm_size s) - push_bit VHD_SECTOR_SHIFT (vs_bm_secs s) :: u32))))))))))"

text \<open>The bitmap of a block that is allocated, in the cache.\<close>

definition cached_bitmap :: "u32 \<Rightarrow> nat bv" where
  "cached_bitmap blk = vget (\<lambda>s. case get_bitmap s blk of Some i \<Rightarrow> vret i
     | None \<Rightarrow> vbind (alloc_vhd_bitmap blk) (\<lambda>i. vthen (install_bitmap i) (vret i)))"

definition update_bat :: "u32 \<Rightarrow> unit bv" where
  "update_bat blk = vbind (get_entry blk) (\<lambda>e. vthen (vassert (e = DD_BLK_UNUSED))
     (vget (\<lambda>s. if bat_locked s then vassert (vb_pbw_blk (vs_bat s) = blk)
        else vbind (cached_bitmap blk) (\<lambda>i. vthen (vmodify lock_bat)
          (vbind (reserve_new_block blk) (\<lambda>lb_end. vthen (schedule_zero_bm_write i lb_end)
            (vmodify (upd_tx i (\<lambda>t. t\<lparr>tx_status := set_vhd_flag (tx_status t) VHD_FLAG_TX_UPDATE_BAT\<rparr>)))))))))"

text \<open>The block is written with zeros at once, by a blocking \<open>write\<close>, before the table is changed.\<close>

definition write_zeros_at :: "u64 \<Rightarrow> u64 \<Rightarrow> unit bv" where
  "write_zeros_at off sz = on_lib (\<lambda>v. case lseek64 (sint off) SEEK_SET v of
       (None, v) \<Rightarrow> (Inl (Errno (- get_errno v)), v)
     | (Some p, v) \<Rightarrow> (case pwrite_call (zeros (unat sz)) (int p) v of (count, v) \<Rightarrow>
         (if count = int (unat sz) then Inr () else Inl (Errno (if count < 0 then - get_errno v else - ENOSPC)),
          if count > 0 then v\<lparr>st_pos := p + nat count\<rparr> else v)))"

definition allocate_block :: "u32 \<Rightarrow> unit bv" where
  "allocate_block blk = vbind (get_entry blk) (\<lambda>e. vthen (vassert (e = DD_BLK_UNUSED))
     (vget (\<lambda>s. if bat_locked s then
          vthen (vassert (vb_pbw_blk (vs_bat s) = blk)) (vcheck (vr_error (vs_req s Bat_req) = 0) (- EBUSY))
        else let gap = db_gap s; off = vhd_sectors_to_bytes (vs_next_db s);
             sz = vhd_sectors_to_bytes (ucast (vs_spb s + vs_bm_secs s + ucast gap))
        in vthen (vmodify (upd_vbat (\<lambda>b. b\<lparr>vb_pbw_blk := blk\<rparr>)))
          (vthen (vmodify (\<lambda>s. s\<lparr>vs_next_db := vs_next_db s + gap\<rparr>))
          (vthen (vmodify (upd_vbat (\<lambda>b. b\<lparr>vb_pbw_offset := vs_next_db s + gap\<rparr>)))
          (vthen (get_vhd_zeros sz) (vthen (write_zeros_at off sz)
          (vbind (cached_bitmap blk) (\<lambda>i.
             vthen (vmodify lock_bat) (vthen (vmodify (lock_bitmap i))
               (vthen schedule_bat_write (add_to_transaction i Bat_req)))))))))))) "


section \<open>Scheduling\<close>

definition schedule_data_read :: "td_request \<Rightarrow> u8 \<Rightarrow> unit bv" where
  "schedule_data_read treq flags = vget (\<lambda>s.
     vbind (if fixed_disk s then vret (vhd_sectors_to_bytes (td_sec treq))
        else let blk = blk_of s (td_sec treq) in vbind (get_entry blk) (\<lambda>e.
          vthen (vassert (e \<noteq> DD_BLK_UNUSED))
            (vbind (test_batmap blk) (\<lambda>full.
              vthen (vassert (full \<or> (case get_bitmap s blk of None \<Rightarrow> False | Some i \<Rightarrow> bitmap_valid (the_bm s i))))
                (vret (vhd_sectors_to_bytes (ucast e + ucast (vs_bm_secs s + sec_of s (td_sec treq)))))))))
     (\<lambda>off. vbind alloc_vhd_request (\<lambda>r. case r of None \<Rightarrow> vfail (- EBUSY)
        | Some r \<Rightarrow> vthen (vmodify (upd_req r (\<lambda>q. q\<lparr>vr_treq := treq, vr_flags := flags, vr_op := VHD_OP_DATA_READ, vr_next := None\<rparr>)))
            (aio_read r off))))"

text \<open>The bookkeeping of a data write between its set-up and its submission.\<close>

definition join_transaction :: "nat \<Rightarrow> rid \<Rightarrow> unit bv" where
  "join_transaction i r = vthen (vmodify (lock_bitmap i)) (vget (\<lambda>s.
     if tx_closed (vbm_tx (the_bm s i)) then
       vbind (add_to_tail (vbm_queue (the_bm s i)) r) (\<lambda>l. vthen (vmodify (upd_bm i (\<lambda>b. b\<lparr>vbm_queue := l\<rparr>)))
         (vmodify (upd_req r (\<lambda>q. q\<lparr>vr_flags := set_vhd_flag (vr_flags q) VHD_FLAG_REQ_QUEUED\<rparr>))))
     else add_to_transaction i r))"

text \<open>From the label \<open>make_request\<close> on.\<close>

definition make_write_request :: "u32 \<Rightarrow> u32 \<Rightarrow> td_request \<Rightarrow> u8 \<Rightarrow> u64 \<Rightarrow> unit bv" where
  "make_write_request blk sec treq flags off = vbind alloc_vhd_request (\<lambda>r. case r of None \<Rightarrow> vfail (- EBUSY)
     | Some r \<Rightarrow> vthen (vmodify (upd_req r (\<lambda>q. q\<lparr>vr_treq := treq, vr_flags := flags, vr_op := VHD_OP_DATA_WRITE, vr_next := None\<rparr>)))
         (vthen (vget (\<lambda>s. if test_vhd_flag flags VHD_FLAG_REQ_UPDATE_BITMAP then
              (case get_bitmap s blk of None \<Rightarrow> vraise Abort
                | Some i \<Rightarrow> vthen (vassert (bitmap_valid (the_bm s i))) (join_transaction i r))
            else if sec = 0 \<and> \<not> fixed_disk s then
              vbind (get_entry blk) (\<lambda>e. if ucast e = vs_first_db s then vret ()
                else vbind (test_batmap blk) (\<lambda>full. if full then schedule_redundant_bm_write blk else vret ()))
            else vret ()))
          (aio_write r off)))"

definition schedule_data_write :: "td_request \<Rightarrow> u8 \<Rightarrow> unit bv" where
  "schedule_data_write treq flags = vget (\<lambda>s.
     if fixed_disk s then make_write_request 0 0 treq flags (vhd_sectors_to_bytes (td_sec treq))
     else let blk = blk_of s (td_sec treq); sec = sec_of s (td_sec treq) in
       vbind (get_entry blk) (\<lambda>e.
         vbind (if test_vhd_flag flags VHD_FLAG_REQ_UPDATE_BAT then
              vthen (if test_vhd_flag (vs_flags s) VHD_FLAG_OPEN_PREALLOCATE then allocate_block blk else update_bat blk)
                (vgets (\<lambda>s. vb_pbw_offset (vs_bat s)))
            else vret (ucast e))
           (\<lambda>off. make_write_request blk sec treq flags (vhd_sectors_to_bytes (off + ucast (vs_bm_secs s + sec))))))"

definition schedule_bitmap_read :: "u32 \<Rightarrow> unit bv" where
  "schedule_bitmap_read blk = vget (\<lambda>s. vthen (vassert (vhd_type_dynamic (vctx s)))
     (vbind (get_entry blk) (\<lambda>e. vthen (vassert (e \<noteq> DD_BLK_UNUSED)) (vthen (vassert (get_bitmap s blk = None))
       (vbind (alloc_vhd_bitmap blk) (\<lambda>i. vthen (vmodify (init_vhd_request (Bm_req i)))
         (vthen (vmodify (upd_req (Bm_req i) (\<lambda>q. q\<lparr>vr_treq := (vr_treq q)\<lparr>td_sec := ucast (blk * vs_spb s),
              td_secs := unat (vs_bm_secs s), td_buf := Map_buf i\<rparr>, vr_op := VHD_OP_BITMAP_READ, vr_next := None\<rparr>)))
           (vthen (aio_read (Bm_req i) (vhd_sectors_to_bytes (ucast e)))
             (vthen (vmodify (lock_bitmap i)) (vthen (install_bitmap i)
               (vmodify (upd_bm i (\<lambda>b. b\<lparr>vbm_status := set_vhd_flag (vbm_status b) VHD_FLAG_BM_READ_PENDING\<rparr>)))))))))))))"

definition schedule_bitmap_write :: "u32 \<Rightarrow> unit bv" where
  "schedule_bitmap_write blk = vget (\<lambda>s. vbind (get_entry blk) (\<lambda>e. vthen (vassert (vhd_type_dynamic (vctx s)))
     (case get_bitmap s blk of None \<Rightarrow> vraise Abort
      | Some i \<Rightarrow> vthen (vassert (bitmap_valid (the_bm s i) \<and> \<not> test_vhd_flag (vbm_status (the_bm s i)) VHD_FLAG_BM_WRITE_PENDING))
         (vbind (if e = DD_BLK_UNUSED then vthen (vassert (bat_locked s \<and> vb_pbw_blk (vs_bat s) = blk)) (vret (vb_pbw_offset (vs_bat s)))
                 else vret (ucast e))
            (\<lambda>off. vthen (vmodify (init_vhd_request (Bm_req i)))
              (vthen (vmodify (upd_req (Bm_req i) (\<lambda>q. q\<lparr>vr_treq := (vr_treq q)\<lparr>td_sec := ucast (blk * vs_spb s),
                   td_secs := unat (vs_bm_secs s), td_buf := Shadow_buf i\<rparr>, vr_op := VHD_OP_BITMAP_WRITE, vr_next := None\<rparr>)))
                (vthen (aio_write (Bm_req i) (vhd_sectors_to_bytes off)) (vthen (vmodify (lock_bitmap i)) (vthen (vmodify (touch_bitmap i))
                  (vmodify (upd_bm i (\<lambda>b. b\<lparr>vbm_status := set_vhd_flag (vbm_status b) VHD_FLAG_BM_WRITE_PENDING\<rparr>))))))))))))"

definition vhd_queue_request :: "u8 \<Rightarrow> td_request \<Rightarrow> unit bv" where
  "vhd_queue_request op treq = vget (\<lambda>s. vthen (vassert (vhd_type_dynamic (vctx s)))
     (case get_bitmap s (blk_of s (td_sec treq)) of None \<Rightarrow> vraise Abort
      | Some i \<Rightarrow> vthen (vassert (test_vhd_flag (vbm_status (the_bm s i)) VHD_FLAG_BM_READ_PENDING))
         (vbind alloc_vhd_request (\<lambda>r. case r of None \<Rightarrow> vfail (- EBUSY)
            | Some r \<Rightarrow> vthen (vmodify (upd_req r (\<lambda>q. q\<lparr>vr_treq := treq, vr_op := op, vr_next := None\<rparr>)))
                (vget (\<lambda>s. vbind (add_to_tail (vbm_waiting (the_bm s i)) r) (\<lambda>l.
                   vthen (vmodify (upd_bm i (\<lambda>b. b\<lparr>vbm_waiting := l\<rparr>))) (vmodify (lock_bitmap i)))))))))"

section \<open>Requests of the virtual block device\<close>

definition buf_add :: "buffer \<Rightarrow> nat \<Rightarrow> buffer" where
  "buf_add b n = (case b of Guest a \<Rightarrow> Guest (a + of_nat (512 * n)) | _ \<Rightarrow> b)"

definition td_advance :: "nat \<Rightarrow> td_request \<Rightarrow> td_request" where
  "td_advance n t = t\<lparr>td_sec := td_sec t + of_nat n, td_secs := td_secs t - n, td_buf := buf_add (td_buf t) n\<rparr>"

text \<open>One turn of the loop of \<open>vhd_queue_read\<close>: the number of sectors it took, or the error.\<close>

definition queue_read_step :: "td_request \<Rightarrow> nat bv" where
  "queue_read_step treq = vget (\<lambda>s. let sec = td_sec treq; room = min (td_secs treq) (blk_room s sec) in
     vbind (read_bitmap_cache sec VHD_OP_DATA_READ) (\<lambda>c.
       if c = - EINVAL then vfail (- EINVAL)
       else if c = VHD_BM_BAT_CLEAR then vthen (td_forward_request (treq\<lparr>td_secs := room\<rparr>)) (vret room)
       else if c = VHD_BM_BIT_CLEAR then vbind (read_bitmap_cache_span sec (td_secs treq) False) (\<lambda>n.
         vthen (td_forward_request (treq\<lparr>td_secs := n\<rparr>)) (vret n))
       else if c = VHD_BM_BIT_SET then vbind (read_bitmap_cache_span sec (td_secs treq) True) (\<lambda>n.
         vthen (schedule_data_read (treq\<lparr>td_secs := n\<rparr>) 0) (vret n))
       else if c = VHD_BM_NOT_CACHED then vthen (schedule_bitmap_read (blk_of s sec))
         (vthen (vhd_queue_request VHD_OP_DATA_READ (treq\<lparr>td_secs := room\<rparr>)) (vret room))
       else if c = VHD_BM_READ_PENDING then vthen (vhd_queue_request VHD_OP_DATA_READ (treq\<lparr>td_secs := room\<rparr>)) (vret room)
       else vraise Abort))"

definition queue_write_step :: "td_request \<Rightarrow> nat bv" where
  "queue_write_step treq = vget (\<lambda>s. let sec = td_sec treq; room = min (td_secs treq) (blk_room s sec) in
     vbind (read_bitmap_cache sec VHD_OP_DATA_WRITE) (\<lambda>c.
       if c = - EINVAL then vfail (- EINVAL)
       else if c = VHD_BM_BAT_LOCKED then vfail (- EBUSY)
       else if c = VHD_BM_BAT_CLEAR then vthen (schedule_data_write (treq\<lparr>td_secs := room\<rparr>)
           (set_vhd_flag VHD_FLAG_REQ_UPDATE_BAT VHD_FLAG_REQ_UPDATE_BITMAP)) (vret room)
       else if c = VHD_BM_BIT_CLEAR then vbind (read_bitmap_cache_span sec (td_secs treq) False) (\<lambda>n.
         vthen (schedule_data_write (treq\<lparr>td_secs := n\<rparr>) VHD_FLAG_REQ_UPDATE_BITMAP) (vret n))
       else if c = VHD_BM_BIT_SET then vbind (read_bitmap_cache_span sec (td_secs treq) True) (\<lambda>n.
         vthen (schedule_data_write (treq\<lparr>td_secs := n\<rparr>) 0) (vret n))
       else if c = VHD_BM_NOT_CACHED then vthen (schedule_bitmap_read (blk_of s sec))
         (vthen (vhd_queue_request VHD_OP_DATA_WRITE (treq\<lparr>td_secs := room\<rparr>)) (vret room))
       else if c = VHD_BM_READ_PENDING then vthen (vhd_queue_request VHD_OP_DATA_WRITE (treq\<lparr>td_secs := room\<rparr>)) (vret room)
       else vraise Abort))"

text \<open>The loop: every turn takes a sector, so as many turns as there are sectors are enough. After an error
  the rest of the request is completed with it.\<close>

primrec queue_loop :: "(td_request \<Rightarrow> nat bv) \<Rightarrow> nat \<Rightarrow> td_request \<Rightarrow> unit bv" where
  "queue_loop step 0 treq = (if td_secs treq = 0 then vret () else vraise Hang)"
| "queue_loop step (Suc k) treq = (if td_secs treq = 0 then vret () else
     vbind (vcatch (vbind (step treq) (\<lambda>n. vret (Inr n))) (\<lambda>err. vret (Inl err))) (\<lambda>r. case r of
        Inl err \<Rightarrow> td_complete_request treq err
      | Inr n \<Rightarrow> queue_loop step k (td_advance n treq)))"

definition vhd_queue_read :: "td_request \<Rightarrow> unit bv" where
  "vhd_queue_read treq = queue_loop queue_read_step (td_secs treq) treq"

definition vhd_queue_write :: "td_request \<Rightarrow> unit bv" where
  "vhd_queue_write treq = queue_loop queue_write_step (td_secs treq) treq"

section \<open>Completion\<close>

primrec signal_loop :: "nat \<Rightarrow> rid option \<Rightarrow> int \<Rightarrow> unit bv" where
  "signal_loop 0 r error = (if r = None then vret () else vraise Hang)"
| "signal_loop (Suc k) r error = (case r of None \<Rightarrow> vret ()
   | Some r \<Rightarrow> vget (\<lambda>s. let q = vs_req s r in
       vthen (td_complete_request (vr_treq q) (if error \<noteq> 0 then error else vr_error q))
         (vthen (free_vhd_request r) (vthen (vmodify (\<lambda>s. s\<lparr>vs_returned := vs_returned s + 1\<rparr>))
           (signal_loop k (vr_next q) error)))))"

definition signal_completion :: "rid option \<Rightarrow> int \<Rightarrow> unit bv" where
  "signal_completion = signal_loop VHD_REQS_TOTAL"

text \<open>Setting the bits of a request in the shadow of a bitmap.\<close>

definition shadow_set :: "nat \<Rightarrow> rid \<Rightarrow> unit bv" where
  "shadow_set i r = vget (\<lambda>s. let t = vr_treq (vs_req s r); sec = unat (sec_of s (td_sec t)) in
     vthen (vdefined (sec + td_secs t \<le> 8 * length (vbm_shadow (the_bm s i))))
       (vmodify (upd_bm i (\<lambda>b. b\<lparr>vbm_shadow :=
          foldl (vhd_bitmap_set (vctx s)) (vbm_shadow b) [sec..<sec + td_secs t]\<rparr>))))"

primrec start_loop :: "nat \<Rightarrow> nat \<Rightarrow> rid option \<Rightarrow> unit bv" where
  "start_loop 0 i r = (if r = None then vret () else vraise Hang)"
| "start_loop (Suc k) i r = (case r of None \<Rightarrow> vret ()
   | Some r \<Rightarrow> vget (\<lambda>s. let next = vr_next (vs_req s r) in
       vthen (vmodify (upd_req r (\<lambda>q. q\<lparr>vr_next := None, vr_flags := clear_vhd_flag (vr_flags q) VHD_FLAG_REQ_QUEUED\<rparr>)))
         (vthen (add_to_transaction i r)
           (vthen (vget (\<lambda>s. if test_vhd_flag (vr_flags (vs_req s r)) VHD_FLAG_REQ_FINISHED then
               vthen (vmodify (upd_tx i (\<lambda>t. t\<lparr>tx_finished := tx_finished t + 1\<rparr>)))
                 (if vr_error (vs_req s r) = 0 then shadow_set i r else vret ())
             else vret ()))
             (start_loop k i next)))))"

definition start_new_bitmap_transaction :: "(nat \<Rightarrow> unit bv) \<Rightarrow> nat \<Rightarrow> unit bv" where
  "start_new_bitmap_transaction fin i = vget (\<lambda>s. let r = rl_head (vbm_queue (the_bm s i)) in
     if r = None then vret () else
     vthen (vmodify (upd_bm i (\<lambda>b. b\<lparr>vbm_queue := req_list_nil\<rparr>)))
       (vthen (vbind (get_entry (vbm_blk (the_bm s i))) (\<lambda>e.
           if e = DD_BLK_UNUSED then vmodify (upd_tx i (\<lambda>t. t\<lparr>tx_error := - EIO\<rparr>)) else vret ()))
         (vthen (start_loop VHD_REQS_TOTAL i r)
           (vget (\<lambda>s. let tx = vbm_tx (the_bm s i) in
             if tx_started tx \<noteq> 0 \<and> transaction_completed tx then fin i else vret ())))))"

definition finish_bat_transaction :: "nat \<Rightarrow> unit bv" where
  "finish_bat_transaction i = vget (\<lambda>s.
     if \<not> bat_locked s then vret ()
     else if vb_pbw_blk (vs_bat s) \<noteq> vbm_blk (the_bm s i) then vret ()
     else if vr_error (vs_req s Bat_req) \<noteq> 0 \<and> test_vhd_flag (tx_status (vbm_tx (the_bm s i))) VHD_FLAG_TX_LIVE
       then vmodify (upd_tx i (\<lambda>t. t\<lparr>tx_closed := True\<rparr>))
     else vthen (vmodify unlock_bat) (vmodify init_bat))"

text \<open>The parts of \<open>finish_bitmap_transaction\<close>: what happens to the bitmap, and what follows it. The three
  functions call each other; the fuel bounds the depth.\<close>

definition settle_bitmap :: "nat \<Rightarrow> unit bv" where
  "settle_bitmap i = vget (\<lambda>s. let b = the_bm s i in
     if tx_error (vbm_tx b) \<noteq> 0 then vmodify (upd_bm i (\<lambda>b. b\<lparr>vbm_shadow := vbm_map b\<rparr>))
     else vthen (vmodify (upd_bm i (\<lambda>b. b\<lparr>vbm_map := vbm_shadow b\<rparr>)))
       (vbind (test_batmap (vbm_blk b)) (\<lambda>full. vget (\<lambda>s.
          if \<not> full \<and> bitmap_full s (the_bm s i) then set_batmap (vbm_blk b) else vret ()))))"

definition waits_for_bat :: "vhd_state \<Rightarrow> nat \<Rightarrow> bool" where
  "waits_for_bat s i \<longleftrightarrow> \<not> test_vhd_flag (vs_flags s) VHD_FLAG_OPEN_PREALLOCATE \<and>
     test_vhd_flag (tx_status (vbm_tx (the_bm s i))) VHD_FLAG_TX_UPDATE_BAT"

definition end_transaction :: "(nat \<Rightarrow> unit bv) \<Rightarrow> nat \<Rightarrow> unit bv" where
  "end_transaction fin i = vthen (settle_bitmap i)
     (vthen (vget (\<lambda>s. let tx = vbm_tx (the_bm s i) in signal_completion (rl_head (tx_requests tx)) (tx_error tx)))
       (vthen (vmodify (upd_tx i (\<lambda>_. tx_zero)))
         (vthen (start_new_bitmap_transaction fin i)
           (vthen (vget (\<lambda>s. if \<not> bitmap_in_use (the_bm s i) then vmodify (unlock_bitmap i) else vret ()))
             (finish_bat_transaction i)))))"

definition finish_data_with :: "(nat \<Rightarrow> int \<Rightarrow> unit bv) \<Rightarrow> nat \<Rightarrow> unit bv" where
  "finish_data_with fbt i = vthen (vmodify (upd_tx i (\<lambda>t. t\<lparr>tx_closed := True\<rparr>)))
     (vget (\<lambda>s. if tx_error (vbm_tx (the_bm s i)) = 0 then schedule_bitmap_write (vbm_blk (the_bm s i)) else fbt i 0))"

primrec finish_bitmap_transaction :: "nat \<Rightarrow> nat \<Rightarrow> int \<Rightarrow> unit bv" where
  "finish_bitmap_transaction 0 i error = vraise Hang"
| "finish_bitmap_transaction (Suc k) i error =
     vthen (vmodify (upd_tx i (\<lambda>t. t\<lparr>tx_error := (if tx_error t \<noteq> 0 then tx_error t else error)\<rparr>)))
       (vget (\<lambda>s. if waits_for_bat s i then
            vthen (vassert (vbm_blk (the_bm s i) = vb_pbw_blk (vs_bat s)))
              (vthen (vassert (test_vhd_flag (vb_status (vs_bat s)) VHD_FLAG_BAT_WRITE_STARTED))
                (vmodify (upd_req Bat_req (\<lambda>q. q\<lparr>vr_tx := Some i\<rparr>))))
          else end_transaction (finish_data_with (finish_bitmap_transaction k)) i))"

definition TX_DEPTH :: nat where "TX_DEPTH = 2"

definition finish_data_transaction :: "nat \<Rightarrow> unit bv" where
  "finish_data_transaction = finish_data_with (finish_bitmap_transaction TX_DEPTH)"

definition count_returned :: "unit bv" where
  "count_returned = vmodify (\<lambda>s. s\<lparr>vs_returned := vs_returned s + 1\<rparr>)"

text \<open>The bitmap of a block that a completed request relies on; without it the code follows a null pointer.\<close>

definition need_bitmap :: "u32 \<Rightarrow> (nat \<Rightarrow> unit bv) \<Rightarrow> unit bv" where
  "need_bitmap blk f = vget (\<lambda>s. case get_bitmap s blk of None \<Rightarrow> vraise Abort | Some i \<Rightarrow> f i)"

text \<open>A request leaves its transaction.\<close>

definition leave_transaction :: "nat \<Rightarrow> rid \<Rightarrow> unit bv" where
  "leave_transaction i r = vthen (vmodify (upd_tx i (\<lambda>t. t\<lparr>tx_finished := tx_finished t + 1\<rparr>)))
     (vget (\<lambda>s. vbind (remove_from_req_list (tx_requests (vbm_tx (the_bm s i))) r)
        (\<lambda>(l, _). vmodify (upd_tx i (\<lambda>t. t\<lparr>tx_requests := l\<rparr>)))))"

definition finish_if_completed :: "nat \<Rightarrow> unit bv" where
  "finish_if_completed i = vget (\<lambda>s. if transaction_completed (vbm_tx (the_bm s i))
     then finish_data_transaction i else vret ())"

definition finish_bat_write :: "unit bv" where
  "finish_bat_write = vthen count_returned (vget (\<lambda>s. need_bitmap (vb_pbw_blk (vs_bat s)) (\<lambda>i.
     let err = vr_error (vs_req s Bat_req) in
     vthen (vassert (bitmap_valid (the_bm s i)))
       (vthen (vassert (bat_locked s \<and> test_vhd_flag (vb_status (vs_bat s)) VHD_FLAG_BAT_WRITE_STARTED))
         (vthen (vassert (test_vhd_flag (tx_status (vbm_tx (the_bm s i))) VHD_FLAG_TX_LIVE))
           (vthen (if err = 0 then
                vthen (set_entry (vb_pbw_blk (vs_bat s)) (ucast (vb_pbw_offset (vs_bat s))))
                  (vmodify (\<lambda>s. s\<lparr>vs_next_db := vb_pbw_offset (vs_bat s) + ucast (vs_spb s) + ucast (vs_bm_secs s)\<rparr>))
              else vmodify (upd_tx i (\<lambda>t. t\<lparr>tx_error := err\<rparr>)))
             (vthen (if test_vhd_flag (vs_flags s) VHD_FLAG_OPEN_PREALLOCATE
                then vthen (leave_transaction i Bat_req) (finish_if_completed i)
                else vthen (vmodify (upd_tx i (\<lambda>t. t\<lparr>tx_status := clear_vhd_flag (tx_status t) VHD_FLAG_TX_UPDATE_BAT\<rparr>)))
                  (vget (\<lambda>s. if vr_tx (vs_req s Bat_req) \<noteq> None then finish_bitmap_transaction (Suc TX_DEPTH) i err else vret ())))
               (finish_bat_transaction i))))))))"

definition finish_zero_bm_write :: "unit bv" where
  "finish_zero_bm_write = vthen count_returned (vget (\<lambda>s. let q = vs_req s Zero_req; blk = blk_of s (td_sec (vr_treq q)) in
     vthen (vassert (bat_locked s)) (vthen (vassert (vb_pbw_blk (vs_bat s) = blk))
       (need_bitmap blk (\<lambda>i. vthen (vassert (bitmap_valid (the_bm s i) \<and> bitmap_locked (the_bm s i)))
         (case vr_tx q of None \<Rightarrow> vraise Undef | Some x \<Rightarrow>
           vthen (leave_transaction x Zero_req)
             (vthen (if vr_error q \<noteq> 0 then
                  vthen (vmodify unlock_bat) (vthen (vmodify init_bat) (vmodify (upd_tx x (\<lambda>t. t\<lparr>tx_error := vr_error q,
                    tx_status := clear_vhd_flag (tx_status t) VHD_FLAG_TX_UPDATE_BAT\<rparr>))))
                else schedule_bat_write)
               (vget (\<lambda>s. if transaction_completed (vbm_tx (the_bm s x)) then finish_data_transaction i else vret ())))))))))"

definition finish_redundant_bm_write :: "rid \<Rightarrow> unit bv" where
  "finish_redundant_bm_write r = vthen count_returned (vthen (free_vhd_request r)
     (vmodify (\<lambda>s. s\<lparr>vs_done_redundant_writes := vs_done_redundant_writes s + 1\<rparr>)))"

text \<open>The requests that waited for the bitmap are queued again.\<close>

primrec requeue_loop :: "nat \<Rightarrow> rid option \<Rightarrow> unit bv" where
  "requeue_loop 0 r = (if r = None then vret () else vraise Hang)"
| "requeue_loop (Suc k) r = (case r of None \<Rightarrow> vret ()
   | Some r \<Rightarrow> vget (\<lambda>s. let tmp = vs_req s r in
       vthen (free_vhd_request r) (vthen (vassert (vr_op tmp = VHD_OP_DATA_READ \<or> vr_op tmp = VHD_OP_DATA_WRITE))
         (vthen (if vr_op tmp = VHD_OP_DATA_READ then vhd_queue_read (vr_treq tmp) else vhd_queue_write (vr_treq tmp))
           (requeue_loop k (vr_next tmp))))))"

definition finish_bitmap_read :: "rid \<Rightarrow> unit bv" where
  "finish_bitmap_read req = vthen count_returned (vget (\<lambda>s. let q = vs_req s req in
     need_bitmap (blk_of s (td_sec (vr_treq q))) (\<lambda>i.
       let r = rl_head (vbm_waiting (the_bm s i)) in
       vthen (vassert (test_vhd_flag (vbm_status (the_bm s i)) VHD_FLAG_BM_READ_PENDING))
         (vthen (vmodify (upd_bm i (\<lambda>b. b\<lparr>vbm_waiting := req_list_nil,
              vbm_status := clear_vhd_flag (vbm_status b) VHD_FLAG_BM_READ_PENDING\<rparr>)))
           (if vr_error q = 0 then
              vthen (vmodify (upd_bm i (\<lambda>b. b\<lparr>vbm_shadow := vbm_map b\<rparr>)))
                (vthen (requeue_loop VHD_REQS_TOTAL r)
                  (vget (\<lambda>s. if \<not> bitmap_in_use (the_bm s i) then vmodify (unlock_bitmap i) else vret ())))
            else vthen (vmodify (unlock_bitmap i)) (vthen (free_vhd_bitmap i) (signal_completion r (vr_error q))))))))"

definition finish_bitmap_write :: "rid \<Rightarrow> unit bv" where
  "finish_bitmap_write req = vthen count_returned (vget (\<lambda>s. let q = vs_req s req in
     need_bitmap (blk_of s (td_sec (vr_treq q))) (\<lambda>i.
       vthen (vassert (tx_closed (vbm_tx (the_bm s i)))) (vthen (vassert (bitmap_valid (the_bm s i)))
         (vthen (vassert (test_vhd_flag (vbm_status (the_bm s i)) VHD_FLAG_BM_WRITE_PENDING))
           (vthen (vmodify (upd_bm i (\<lambda>b. b\<lparr>vbm_status := clear_vhd_flag (vbm_status b) VHD_FLAG_BM_WRITE_PENDING\<rparr>)))
             (finish_bitmap_transaction (Suc TX_DEPTH) i (vr_error q))))))))"

definition finish_data_read :: "rid \<Rightarrow> unit bv" where
  "finish_data_read r = signal_completion (Some r) 0"

definition finish_data_write :: "rid \<Rightarrow> unit bv" where
  "finish_data_write r = vthen (vmodify (upd_req r (\<lambda>q. q\<lparr>vr_flags := set_vhd_flag (vr_flags q) VHD_FLAG_REQ_FINISHED\<rparr>)))
     (vget (\<lambda>s. let q = vs_req s r in case vr_tx q of
        Some x \<Rightarrow> need_bitmap (blk_of s (td_sec (vr_treq q))) (\<lambda>i.
          vthen (vassert (bitmap_valid (the_bm s i) \<and> bitmap_locked (the_bm s i)))
            (vthen (vmodify (upd_tx x (\<lambda>t. t\<lparr>tx_finished := tx_finished t + 1\<rparr>)))
              (vthen (if vr_error q = 0 then shadow_set i r else vret ())
                (vget (\<lambda>s. if transaction_completed (vbm_tx (the_bm s x)) then finish_data_transaction i else vret ())))))
      | None \<Rightarrow> if test_vhd_flag (vr_flags q) VHD_FLAG_REQ_QUEUED then vret ()
          else vthen (vassert (vr_next q = None)) (signal_completion (Some r) 0)))"

text \<open>\<open>vhd_complete\<close>. The message about an error reads the table entry of the request's block.\<close>

definition vhd_complete :: "rid \<Rightarrow> int \<Rightarrow> unit bv" where
  "vhd_complete r err = vthen (vmodify (\<lambda>s. upd_req r (\<lambda>q. q\<lparr>vr_error := err\<rparr>) (s\<lparr>vs_completed := vs_completed s + 1\<rparr>)))
     (vget (\<lambda>s. let op = vr_op (vs_req s r) in
        vthen (vdefined (err \<noteq> 0 \<longrightarrow>
            unat (td_sec (vr_treq (vs_req s r)) div ucast (vs_spb s)) < length (bat_table s)))
          (if op = VHD_OP_DATA_READ then finish_data_read r
           else if op = VHD_OP_DATA_WRITE then finish_data_write r
           else if op = VHD_OP_BITMAP_READ then finish_bitmap_read r
           else if op = VHD_OP_BITMAP_WRITE then finish_bitmap_write r
           else if op = VHD_OP_ZERO_BM_WRITE then finish_zero_bm_write
           else if op = VHD_OP_REDUNDANT_BM_WRITE then finish_redundant_bm_write r
           else if op = VHD_OP_BAT_WRITE then finish_bat_write
           else vraise Abort)))"

section \<open>The driver and its surroundings\<close>

text \<open>What happens to the driver: a request is queued, or a call of the kernel comes back. A read without an
  error has filled its buffer; of the buffers of the driver only maps of bitmaps are read into.\<close>

datatype vhd_event = Queue_read td_request | Queue_write td_request | Io_done rid int bytes

definition fill_buffer :: "buffer \<Rightarrow> bytes \<Rightarrow> vhd_state \<Rightarrow> vhd_state" where
  "fill_buffer b bs = (case b of Map_buf i \<Rightarrow> upd_bm i (\<lambda>b. b\<lparr>vbm_map := bs\<rparr>) | _ \<Rightarrow> id)"

definition aio_of :: "vhd_state \<Rightarrow> rid \<Rightarrow> aio option" where
  "aio_of s r = List.find (\<lambda>a. aio_req a = r) (vs_aio s)"

definition io_done :: "rid \<Rightarrow> int \<Rightarrow> bytes \<Rightarrow> unit bv" where
  "io_done r err bs = vget (\<lambda>s. case aio_of s r of None \<Rightarrow> vraise Undef
     | Some a \<Rightarrow> vthen (vmodify (\<lambda>s. s\<lparr>vs_aio := filter (\<lambda>a. aio_req a \<noteq> r) (vs_aio s)\<rparr>))
         (vthen (if err = 0 \<and> \<not> aio_rw a then vmodify (fill_buffer (aio_buf a) bs) else vret ())
           (vhd_complete r err)))"

definition vhd_event_step :: "vhd_event \<Rightarrow> unit bv" where
  "vhd_event_step e = (case e of Queue_read t \<Rightarrow> vhd_queue_read t | Queue_write t \<Rightarrow> vhd_queue_write t
     | Io_done r err bs \<Rightarrow> io_done r err bs)"

end
