(* ===== verification/Block_Vhd_Open.thy ===== *)
theory Block_Vhd_Open
  imports Block_Vhd
begin

text \<open>
  Opening and closing of the asynchronous VHD driver (\<open>drivers/block-vhd.c\<close>). \<open>vhd_driver\<close> is a
  \<open>td_driver_t\<close> with the state it points to and the two variables all drivers of the process share:
  the page of zeros, whose size is \<open>vs_zsize\<close>, and its owner \<open>_vhd_master\<close>. \<open>dv_freed\<close> tells that
  the pointers \<open>batmap.map\<close> and \<open>bat_buf\<close> are left over from memory that was freed. Log output is
  left out.
\<close>

section \<open>The driver\<close>

record vhd_driver =
  dv_id :: nat
  dv_storage :: int
  dv_size :: u64
  dv_sector_size :: int
  dv_info :: u32
  dv_state :: vhd_state
  dv_freed :: bool
  dv_master :: "nat option"

type_synonym 'a dv = "(vhd_driver, 'a) vm"

definition on_state :: "'a bv \<Rightarrow> 'a dv" where
  "on_state m = (\<lambda>d. case m (dv_state d) of (r, s) \<Rightarrow> (r, d\<lparr>dv_state := s\<rparr>))"

abbreviation dlib :: "(vst, 'a) vm \<Rightarrow> 'a dv" where
  "dlib m \<equiv> on_state (on_lib m)"

abbreviation dstate :: "(vhd_state \<Rightarrow> 'a dv) \<Rightarrow> 'a dv" where
  "dstate f \<equiv> vget (\<lambda>d. f (dv_state d))"

definition upd_state :: "(vhd_state \<Rightarrow> vhd_state) \<Rightarrow> unit dv" where
  "upd_state f = vmodify (\<lambda>d. d\<lparr>dv_state := f (dv_state d)\<rparr>)"

text \<open>\<open>memset(s, 0, sizeof(struct vhd_state))\<close>; the page of zeros is not part of the structure.\<close>

definition bat_state_zero :: vhd_bat_state where
  "bat_state_zero = \<lparr>vb_bat = bat_zero, vb_batmap = batmap_zero, vb_status = 0, vb_pbw_blk = 0, vb_pbw_offset = 0, vb_bat_buf = []\<rparr>"

definition bitmap_zero :: vhd_bitmap where
  "bitmap_zero = \<lparr>vbm_blk = 0, vbm_seqno = 0, vbm_status = 0, vbm_map = [], vbm_shadow = [], vbm_tx = tx_zero,
     vbm_queue = req_list_nil, vbm_waiting = req_list_nil\<rparr>"

definition state_zero :: "vhd_state \<Rightarrow> vhd_state" where
  "state_zero s = \<lparr>vs_flags = 0, vs_vhd = reset_ctx (vs_vhd s), vs_spp = 0, vs_spb = 0, vs_first_db = 0, vs_next_db = 0,
     vs_bat = bat_state_zero, vs_bm_lru = 0, vs_bm_secs = 0, vs_bitmap = replicate VHD_CACHE_SIZE None, vs_bitmap_free = [],
     vs_bitmap_list = (\<lambda>_. bitmap_zero), vs_vreq_free = [], vs_req = (\<lambda>_. req_zero), vs_padbm_size = 0, vs_padbm_buf = [],
     vs_skipped_redundant_writes = 0, vs_done_redundant_writes = 0, vs_queued = 0, vs_completed = 0, vs_returned = 0,
     vs_reads = 0, vs_read_size = 0, vs_writes = 0, vs_write_size = 0, vs_zsize = vs_zsize s, vs_aio = [], vs_out = []\<rparr>"

section \<open>The page of zeros\<close>

definition vhd_initialize :: "libc \<Rightarrow> unit dv" where
  "vhd_initialize lc = dstate (\<lambda>s. if vs_zsize s \<noteq> 0 then vret ()
     else vthen (vonfail (dlib (valloc (- ENOMEM))) (\<lambda>d. d\<lparr>dv_state := (dv_state d)\<lparr>vs_zsize := 0\<rparr>\<rparr>))
       (vmodify (\<lambda>d. d\<lparr>dv_master := Some (dv_id d), dv_state := (dv_state d)\<lparr>vs_zsize := of_nat (2 * lc_pagesize lc) +
          (if test_vhd_flag (vs_flags s) VHD_FLAG_OPEN_PREALLOCATE then VHD_BLOCK_SIZE else 0)\<rparr>\<rparr>)))"

definition vhd_free :: "vhd_driver \<Rightarrow> vhd_driver" where
  "vhd_free d = (if dv_master d \<noteq> Some (dv_id d) \<or> vs_zsize (dv_state d) = 0 then d
     else d\<lparr>dv_master := None, dv_state := (dv_state d)\<lparr>vs_zsize := 0\<rparr>\<rparr>)"

section \<open>The table and the cache of bitmaps\<close>

text \<open>A call of \<open>write\<close> at the position of the descriptor.\<close>

definition write_call :: "bytes \<Rightarrow> (vst, int) vm" where
  "write_call bs = (\<lambda>v. case pwrite_call bs (int (st_pos v)) v of (count, v) \<Rightarrow>
     (Inr count, if count > 0 then v\<lparr>st_pos := st_pos v + nat count\<rparr> else v))"

definition vhd_kill_footer :: "(vst, unit) vm" where
  "vhd_kill_footer = with_ctx (\<lambda>ctx. if ftr_type (ctx_footer ctx) = HD_TYPE_FIXED then vret ()
     else vthen (valloc (- ENOMEM))
       (let fail = (\<lambda>v. (Inl (Errno (if get_errno v \<noteq> 0 then - get_errno v else - EIO)), v))
        in (\<lambda>v. case lseek64 0 SEEK_END v of (None, v) \<Rightarrow> fail v
          | (Some end, v) \<Rightarrow> (case lseek64 (int end - 512) SEEK_SET v of (None, v) \<Rightarrow> fail v
             | (Some p, v) \<Rightarrow> vbind (write_call (replicate 512 0xc7)) (\<lambda>n. if n \<noteq> 512 then fail else vret ()) v))))"

definition find_next_free_block :: "unit bv" where
  "find_next_free_block = vbind (on_lib vhd_end_of_headers) (\<lambda>eom. vget (\<lambda>s.
     let nd = ucast (secs_round_up eom);
         m = (nd + ucast (vs_bm_secs s)) mod ucast (vs_spp s);
         entries = unat (bat_entries (vb_bat (vs_bat s)))
     in vthen (vdefined (vs_spp s \<noteq> 0 \<and> entries \<le> length (bat_table s)))
       (vmodify (\<lambda>s. s\<lparr>vs_first_db := (if m \<noteq> 0 then nd + (ucast (vs_spp s) - m) else nd),
          vs_next_db := foldl (\<lambda>n e. if e \<noteq> DD_BLK_UNUSED \<and> ucast e \<ge> n then ucast (e + vs_spb s + vs_bm_secs s) else n)
            nd (take entries (bat_table s))\<rparr>))))"

text \<open>\<open>vhd_free_bat\<close> clears only the first member of the structure (\<open>sizeof(struct vhd_bat)\<close>): the pointers to
  the map of the batmap and to \<open>bat_buf\<close> stay, and a second call frees them again.\<close>

definition vhd_free_bat :: "unit dv" where
  "vhd_free_bat = dstate (\<lambda>s. let b = vs_bat s; owned = bm_map (vb_batmap b) \<noteq> None \<or> vb_bat_buf b \<noteq> [] in
     vget (\<lambda>d. vthen (vdefined (\<not> (owned \<and> dv_freed d)))
       (vmodify (\<lambda>d. d\<lparr>dv_freed := owned, dv_state := upd_vbat (\<lambda>b. b\<lparr>vb_bat := bat_zero\<rparr>) (dv_state d)\<rparr>))))"

definition VHD_BATMAP_MAX_RETRIES :: nat where "VHD_BATMAP_MAX_RETRIES = 10"

primrec read_batmap_retry :: "nat \<Rightarrow> bool \<Rightarrow> unit bv" where
  "read_batmap_retry 0 required = vret ()"
| "read_batmap_retry (Suc n) required = vcatch
     (vbind (on_lib (vhd_read_batmap nowhere)) (\<lambda>b. vmodify (upd_vbat (\<lambda>v. v\<lparr>vb_batmap := b\<rparr>))))
     (\<lambda>err. if required then vfail err else read_batmap_retry n required)"

definition vhd_initialize_bat :: "unit dv" where
  "vhd_initialize_bat = vthen (upd_state (upd_vbat (\<lambda>b. b\<lparr>vb_bat := bat_zero\<rparr>)))
     (vbind (dlib (vhd_read_bat nowhere)) (\<lambda>b. vthen (upd_state (upd_vbat (\<lambda>v. v\<lparr>vb_bat := b\<rparr>)))
       (dstate (\<lambda>s. let required = \<not> test_vhd_flag (vs_flags s) VHD_FLAG_OPEN_RDONLY in
          vcatch (vthen (if required then on_state find_next_free_block else vret ())
              (vthen (vbind (dlib vhd_has_batmap) (\<lambda>has. if has then on_state (read_batmap_retry VHD_BATMAP_MAX_RETRIES required) else vret ()))
                (vthen (dlib (valloc ENOMEM)) (upd_state (upd_vbat (\<lambda>b. b\<lparr>vb_bat_buf := replicate 128 0\<rparr>))))))
            (\<lambda>err. vthen vhd_free_bat (vfail err))))))"

definition vhd_free_bitmap_cache :: "vhd_state \<Rightarrow> vhd_state" where
  "vhd_free_bitmap_cache s = s\<lparr>vs_bitmap_list := (\<lambda>_. bitmap_zero)\<rparr>"

text \<open>Two buffers for every bitmap.\<close>

definition vhd_initialize_bitmap_cache :: "unit dv" where
  "vhd_initialize_bitmap_cache = vthen (upd_state (\<lambda>s. s\<lparr>vs_bitmap_list := (\<lambda>_. bitmap_zero), vs_bm_lru := 0\<rparr>))
     (vthen (vonfail (vfor [0..<2 * VHD_CACHE_SIZE] (\<lambda>_. dlib (valloc ENOMEM))) (\<lambda>d. d\<lparr>dv_state := vhd_free_bitmap_cache (dv_state d)\<rparr>))
       (upd_state (\<lambda>s. let z = zeros (unat (vhd_sectors_to_bytes (ucast (vs_bm_secs s)))) in
          s\<lparr>vs_bitmap_free := rev [0..<VHD_CACHE_SIZE], vs_bitmap_list := (\<lambda>_. bitmap_zero\<lparr>vbm_map := z, vbm_shadow := z\<rparr>)\<rparr>)))"

section \<open>Open\<close>

text \<open>\<open>padbm_size\<close> takes the number of sectors for a number of bytes; the second \<open>memset\<close> of the difference,
  computed in 32 bits, needs \<open>bm_size\<close> bytes of room.\<close>

definition padbm_of :: "libc \<Rightarrow> u32 \<Rightarrow> int" where
  "padbm_of lc bm_secs = (let p = int (lc_pagesize lc) in
     (uint bm_secs div p) * p + (if uint bm_secs mod p \<noteq> 0 then p else 0))"

definition vhd_initialize_dynamic_disk :: "libc \<Rightarrow> unit dv" where
  "vhd_initialize_dynamic_disk lc = vthen (dlib vhd_get_header) (dstate (\<lambda>s. let h = ctx_header (vctx s) in
     vthen (vcheck (hdr_ver h = 0x00010000) (- EINVAL))
       (let spb = drop_bit VHD_SECTOR_SHIFT (hdr_block_size h);
            bm_secs = (secs_round_up_no_zero (ucast (drop_bit 3 spb)) :: u32);
            psize = padbm_of lc bm_secs;
            bm_size = push_bit VHD_SECTOR_SHIFT bm_secs
        in vthen (upd_state (\<lambda>s. s\<lparr>vs_spp := of_nat (lc_pagesize lc div 512), vs_spb := spb, vs_bm_secs := bm_secs, vs_padbm_size := psize\<rparr>))
          (vthen (dlib (valloc (- ENOMEM)))
            (vthen (vdefined (uint bm_size \<le> psize))
              (vthen (upd_state (\<lambda>s. s\<lparr>vs_padbm_buf := zeros (nat psize - unat bm_size) @ replicate (unat bm_size) 0xff,
                   vs_skipped_redundant_writes := 0, vs_done_redundant_writes := 0\<rparr>))
                (if test_vhd_flag (vs_flags s) VHD_FLAG_OPEN_NO_CACHE then vret ()
                 else vthen vhd_initialize_bat
                   (vcatch vhd_initialize_bitmap_cache (\<lambda>err. vthen vhd_free_bat (vfail err))))))))))"

definition vhd_check_version :: "vhd_context \<Rightarrow> int" where
  "vhd_check_version c = (if \<not> vhd_creator_tapdisk c then 0
     else if ftr_crtr_ver (ctx_footer c) > VHD_CURRENT_VERSION then - EINVAL else 0)"

text \<open>After an error everything is released; the state keeps what it points to.\<close>

definition vhd_open_release :: "unit dv" where
  "vhd_open_release = vthen vhd_free_bat (vthen (upd_state vhd_free_bitmap_cache) (vthen (dlib vhd_close) (vmodify vhd_free)))"

definition vhd_driver_open :: "libc \<Rightarrow> nat \<Rightarrow> string \<Rightarrow> u8 \<Rightarrow> unit dv" where
  "vhd_driver_open lc fuel name flags =
     vthen (vmodify (\<lambda>d. d\<lparr>dv_freed := False, dv_state := (state_zero (dv_state d))\<lparr>vs_flags := flags\<rparr>\<rparr>))
       (vthen (vhd_initialize lc)
         (let ro = test_vhd_flag flags VHD_FLAG_OPEN_RDONLY; strict = test_vhd_flag flags VHD_FLAG_OPEN_STRICT;
              oflags = (if ro then VHD_OPEN_RDONLY else VHD_OPEN_RDWR) OR (if strict then VHD_OPEN_STRICT else 0);
              op = dlib (vhd_open lc fuel name oflags)
          in vthen (vcatch op (\<lambda>_. op))
            (vcatch (dstate (\<lambda>s. vthen (vcheck (vhd_check_version (vctx s) = 0) (- EINVAL))
                (vthen (upd_state (\<lambda>s. s\<lparr>vs_spb := 1, vs_spp := 1\<rparr>))
                  (vthen (if vhd_type_dynamic (vctx s) then vhd_initialize_dynamic_disk lc else vret ())
                    (vthen (upd_state (\<lambda>s. s\<lparr>vs_vreq_free := map Data (rev [0..<VHD_REQS_DATA])\<rparr>))
                      (vthen (vmodify (\<lambda>d. d\<lparr>dv_size := drop_bit VHD_SECTOR_SHIFT (ftr_curr_size (ctx_footer (vctx (dv_state d)))),
                           dv_sector_size := 512, dv_info := 0\<rparr>))
                        (if strict \<and> \<not> ro then vthen (dlib vhd_kill_footer) (upd_state (\<lambda>s. s\<lparr>vs_writes := vs_writes s + 1\<rparr>))
                         else vret ())))))))
              (\<lambda>err. vthen vhd_open_release (vfail err)))))"

definition TD_OPEN_QUIET :: u32 where "TD_OPEN_QUIET = 1"
definition TD_OPEN_QUERY :: u32 where "TD_OPEN_QUERY = 2"
definition TD_OPEN_RDONLY :: u32 where "TD_OPEN_RDONLY = 4"
definition TD_OPEN_STRICT :: u32 where "TD_OPEN_STRICT = 8"
definition TD_OPEN_SHAREABLE :: u32 where "TD_OPEN_SHAREABLE = 16"
definition TAPDISK_STORAGE_TYPE_NFS :: int where "TAPDISK_STORAGE_TYPE_NFS = 1"
definition TAPDISK_STORAGE_TYPE_EXT :: int where "TAPDISK_STORAGE_TYPE_EXT = 2"
definition TAPDISK_STORAGE_TYPE_LVM :: int where "TAPDISK_STORAGE_TYPE_LVM = 3"

text \<open>The kind of storage (\<open>tapdisk_storage_type\<close>, a look at the mounted file systems) is a parameter.\<close>

definition open_flags :: "u32 \<Rightarrow> int \<Rightarrow> u8" where
  "open_flags flags storage = (if flags AND TD_OPEN_RDONLY \<noteq> 0 then VHD_FLAG_OPEN_RDONLY else 0)
     OR (if flags AND TD_OPEN_QUIET \<noteq> 0 then VHD_FLAG_OPEN_QUIET else 0)
     OR (if flags AND TD_OPEN_STRICT \<noteq> 0 then VHD_FLAG_OPEN_STRICT else 0)
     OR (if flags AND TD_OPEN_QUERY \<noteq> 0
         then VHD_FLAG_OPEN_QUERY OR VHD_FLAG_OPEN_QUIET OR VHD_FLAG_OPEN_RDONLY OR VHD_FLAG_OPEN_NO_CACHE else 0)
     OR (if storage \<noteq> TAPDISK_STORAGE_TYPE_NFS \<and> storage \<noteq> TAPDISK_STORAGE_TYPE_LVM then VHD_FLAG_OPEN_PREALLOCATE else 0)"

definition td_vhd_open :: "libc \<Rightarrow> (string \<Rightarrow> int) \<Rightarrow> nat \<Rightarrow> string \<Rightarrow> u32 \<Rightarrow> unit dv" where
  "td_vhd_open lc storage fuel name flags = vthen (vmodify (\<lambda>d. d\<lparr>dv_storage := storage name\<rparr>))
     (vhd_driver_open lc fuel name (open_flags flags (storage name)))"

section \<open>Close and parents\<close>

text \<open>The table is lent to libvhd for the footer; errors are only reported.\<close>

definition close_metadata :: "unit bv" where
  "close_metadata = vget (\<lambda>s. vthen
     (vcatch (on_lib (vthen (vmodify (upd_ctx (\<lambda>c. c\<lparr>ctx_bat := vb_bat (vs_bat s)\<rparr>)))
          (with_ctx (\<lambda>c. vhd_write_footer (ctx_footer c))))) (\<lambda>_. vret ()))
     (vthen (on_lib (vmodify (upd_ctx (\<lambda>c. c\<lparr>ctx_bat := bat_zero\<rparr>))))
       (vbind (on_lib vhd_has_batmap) (\<lambda>has. if has
          then vcatch (on_lib (vhd_write_batmap (vb_batmap (vs_bat s)))) (\<lambda>_. vret ()) else vret ()))))"

definition td_vhd_close :: "unit dv" where
  "td_vhd_close = vthen (dstate (\<lambda>s.
       if test_vhd_flag (vs_flags s) VHD_FLAG_OPEN_RDONLY then vret ()
       else if test_vhd_flag (vs_flags s) VHD_FLAG_OPEN_STRICT \<or> vs_writes s \<noteq> 0 then on_state close_metadata
       else vret ()))
     (vthen vhd_open_release (upd_state state_zero))"

definition DISK_TYPE_AIO :: int where "DISK_TYPE_AIO = 0"
definition DISK_TYPE_VHD :: int where "DISK_TYPE_VHD = 4"

text \<open>A driver of another type has no \<open>vhd_state\<close>.\<close>

definition vhd_validate_parent :: "int \<Rightarrow> vhd_state \<Rightarrow> int \<Rightarrow> vhd_state \<Rightarrow> int" where
  "vhd_validate_parent ctype child ptype parent = (if ptype \<noteq> DISK_TYPE_VHD then
       (if ctype \<noteq> DISK_TYPE_VHD then - EINVAL
        else if ftr_type (ctx_footer (vctx child)) \<noteq> HD_TYPE_DIFF then - EINVAL
        else if \<not> vhd_parent_raw (vctx child) then - EINVAL else 0)
     else if hdr_prt_uuid (ctx_header (vctx child)) \<noteq> ftr_uuid (ctx_footer (vctx parent)) then - EINVAL else 0)"

record td_disk_id =
  id_name :: "string option"
  id_type :: int
  id_flags :: u32

definition TD_NO_PARENT :: int where "TD_NO_PARENT = 1"

text \<open>The result is the status and what is stored at \<open>id\<close>.\<close>

definition vhd_get_parent_id :: "libc \<Rightarrow> (int \<times> td_disk_id) bv" where
  "vhd_get_parent_id lc = vget (\<lambda>s. let none = \<lparr>id_name = None, id_type = 0, id_flags = 0\<rparr> in
     if ftr_type (ctx_footer (vctx s)) \<noteq> HD_TYPE_DIFF then vret (TD_NO_PARENT, none)
     else vcatch (vbind (on_lib (vhd_parent_locator_get lc)) (\<lambda>p. vget (\<lambda>s.
         vret (0, \<lparr>id_name = Some p, id_type = (if vhd_parent_raw (vctx s) then DISK_TYPE_AIO else DISK_TYPE_VHD),
           id_flags = TD_OPEN_SHAREABLE OR TD_OPEN_RDONLY\<rparr>))))
       (\<lambda>err. vret (err, none)))"

end
