(* ===== verification/Block_Vhd_Laws.thy ===== *)
theory Block_Vhd_Laws
  imports Block_Vhd "HOL-Library.Multiset"
begin

text \<open>
  Tools for the driver's proofs: a calculus of weakest preconditions for the monad (\<open>wp\<close>: no
  assertion fails, nothing undefined happens, no walk runs out of fuel), the algebra of flags, the
  linked lists of requests (\<open>rlist\<close>: head, tail and \<open>next\<close> pointers spell out a list), and the
  sectors a request stands for (\<open>pieces\<close>).
\<close>

section \<open>Weakest preconditions\<close>

definition wp :: "('s, 'a) vm \<Rightarrow> ('a \<Rightarrow> 's \<Rightarrow> bool) \<Rightarrow> (int \<Rightarrow> 's \<Rightarrow> bool) \<Rightarrow> 's \<Rightarrow> bool" where
  "wp m Q E s = (case m s of (Inr x, t) \<Rightarrow> Q x t | (Inl e, t) \<Rightarrow> (case e of Errno n \<Rightarrow> E n t | _ \<Rightarrow> False))"

named_theorems wps \<open>symbolic execution of the driver\<close>

lemma wp_vret [wps]: "wp (vret x) Q E s = Q x s"
  by (simp add: wp_def vret_def)

lemma wp_vfail [wps]: "wp (vfail e) Q E s = E e s"
  by (simp add: wp_def vraise_def)

lemma wp_raise [wps]: "wp (vraise Abort) Q E s = False" "wp (vraise Undef) Q E s = False" "wp (vraise Hang) Q E s = False"
  by (simp_all add: wp_def vraise_def)

lemma wp_vbind [wps]: "wp (vbind m f) Q E s = wp m (\<lambda>x. wp (f x) Q E) E s"
  by (auto simp: wp_def vbind_def split: prod.splits sum.splits verr.splits)

lemma wp_vcatch [wps]: "wp (vcatch m h) Q E s = wp m Q (\<lambda>e. wp (h e) Q E) s"
  by (auto simp: wp_def vcatch_def split: prod.splits sum.splits verr.splits)

lemma wp_vmodify [wps]: "wp (vmodify f) Q E s = Q () (f s)"
  by (simp add: wp_def vmodify_def)

lemma wp_vgets [wps]: "wp (vgets f) Q E s = Q (f s) s"
  by (simp add: wp_def vgets_def)

lemma wp_vget [wps]: "wp (vget f) Q E s = wp (f s) Q E s"
  by (simp add: wp_def vget_def)

lemma wp_vassert [wps]: "wp (vassert b) Q E s \<longleftrightarrow> b \<and> Q () s"
  by (simp add: wp_def vassert_def vret_def vraise_def)

lemma wp_vdefined [wps]: "wp (vdefined b) Q E s \<longleftrightarrow> b \<and> Q () s"
  by (simp add: wp_def vdefined_def vret_def vraise_def)

lemma wp_vcheck [wps]: "wp (vcheck b e) Q E s \<longleftrightarrow> (if b then Q () s else E e s)"
  by (simp add: wp_def vcheck_def vret_def vraise_def)

lemma wp_if [wps]: "wp (if b then m else n) Q E s \<longleftrightarrow> (if b then wp m Q E s else wp n Q E s)"
  by simp

lemma wp_mono: "wp m Q E s \<Longrightarrow> (\<And>x t. Q x t \<Longrightarrow> Q' x t) \<Longrightarrow> (\<And>e t. E e t \<Longrightarrow> E' e t) \<Longrightarrow> wp m Q' E' s"
  by (auto simp: wp_def split: prod.splits sum.splits verr.splits)

lemma wp_ok: "m s = (Inr x, t) \<Longrightarrow> wp m Q E s = Q x t"
  by (simp add: wp_def)

lemma wpD: "wp m Q E s \<Longrightarrow> (\<exists>x t. m s = (Inr x, t) \<and> Q x t) \<or> (\<exists>e t. m s = (Inl (Errno e), t) \<and> E e t)"
  by (auto simp: wp_def split: prod.splits sum.splits verr.splits)

section \<open>Flags\<close>

lemma flag_set_test [simp]: "f \<noteq> 0 \<Longrightarrow> test_vhd_flag (set_vhd_flag w f) f"
proof -
  assume f: "f \<noteq> 0"
  have "(w OR f) AND f = f" by (rule bit_eqI) (auto simp: bit_and_iff bit_or_iff)
  with f show ?thesis by (simp add: test_vhd_flag_def set_vhd_flag_def)
qed

lemma flag_clear_test [simp]: "\<not> test_vhd_flag (clear_vhd_flag w f) f"
proof -
  have "(w AND NOT f) AND f = 0" by (rule bit_eqI) (simp add: bit_and_iff bit_not_iff)
  then show ?thesis by (simp add: test_vhd_flag_def clear_vhd_flag_def)
qed

lemma flag_set_other [simp]: "f AND g = 0 \<Longrightarrow> test_vhd_flag (set_vhd_flag w f) g = test_vhd_flag w g"
proof -
  assume "f AND g = 0"
  then have "(w OR f) AND g = w AND g" by (simp add: bit.conj_disj_distrib2)
  then show ?thesis by (simp add: test_vhd_flag_def set_vhd_flag_def)
qed

lemma flag_clear_other [simp]: "f AND g = 0 \<Longrightarrow> test_vhd_flag (clear_vhd_flag w f) g = test_vhd_flag w g"
proof -
  assume f: "f AND g = 0"
  have "(w AND NOT f) AND g = w AND g"
  proof (rule bit_eqI)
    fix n assume "possible_bit TYPE(u8) n"
    have "\<not> (bit f n \<and> bit g n)" using f by (metis bit_and_iff bit_0_eq bot_apply bot_bool_def)
    then show "bit ((w AND NOT f) AND g) n = bit (w AND g) n"
      using \<open>possible_bit TYPE(u8) n\<close> by (auto simp: bit_and_iff bit_not_iff)
  qed
  then show ?thesis by (simp add: test_vhd_flag_def clear_vhd_flag_def)
qed

lemma flag_zero [simp]: "\<not> test_vhd_flag 0 f"
  by (simp add: test_vhd_flag_def)

text \<open>Single flags of one word: which are apart and none is zero.\<close>

lemma bm_flags_apart [simp]:
  "VHD_FLAG_BM_WRITE_PENDING AND VHD_FLAG_BM_READ_PENDING = 0" "VHD_FLAG_BM_READ_PENDING AND VHD_FLAG_BM_WRITE_PENDING = 0"
  "VHD_FLAG_BM_WRITE_PENDING AND VHD_FLAG_BM_LOCKED = 0" "VHD_FLAG_BM_LOCKED AND VHD_FLAG_BM_WRITE_PENDING = 0"
  "VHD_FLAG_BM_READ_PENDING AND VHD_FLAG_BM_LOCKED = 0" "VHD_FLAG_BM_LOCKED AND VHD_FLAG_BM_READ_PENDING = 0"
  "VHD_FLAG_BM_WRITE_PENDING \<noteq> 0" "VHD_FLAG_BM_READ_PENDING \<noteq> 0" "VHD_FLAG_BM_LOCKED \<noteq> 0"
  by (simp_all add: vhd_flag_defs)

lemma other_flags_apart [simp]:
  "VHD_FLAG_BAT_LOCKED AND VHD_FLAG_BAT_WRITE_STARTED = 0" "VHD_FLAG_BAT_WRITE_STARTED AND VHD_FLAG_BAT_LOCKED = 0"
  "VHD_FLAG_REQ_QUEUED AND VHD_FLAG_REQ_FINISHED = 0" "VHD_FLAG_REQ_FINISHED AND VHD_FLAG_REQ_QUEUED = 0"
  "VHD_FLAG_TX_LIVE AND VHD_FLAG_TX_UPDATE_BAT = 0" "VHD_FLAG_TX_UPDATE_BAT AND VHD_FLAG_TX_LIVE = 0"
  "VHD_FLAG_BAT_LOCKED \<noteq> 0" "VHD_FLAG_BAT_WRITE_STARTED \<noteq> 0" "VHD_FLAG_REQ_QUEUED \<noteq> 0" "VHD_FLAG_REQ_FINISHED \<noteq> 0"
  "VHD_FLAG_TX_LIVE \<noteq> 0" "VHD_FLAG_TX_UPDATE_BAT \<noteq> 0"
  by (simp_all add: vhd_flag_defs)

lemma write_flags [simp]:
  "test_vhd_flag (set_vhd_flag VHD_FLAG_REQ_UPDATE_BAT VHD_FLAG_REQ_UPDATE_BITMAP) VHD_FLAG_REQ_UPDATE_BAT"
  "test_vhd_flag (set_vhd_flag VHD_FLAG_REQ_UPDATE_BAT VHD_FLAG_REQ_UPDATE_BITMAP) VHD_FLAG_REQ_UPDATE_BITMAP"
  "\<not> test_vhd_flag (set_vhd_flag VHD_FLAG_REQ_UPDATE_BAT VHD_FLAG_REQ_UPDATE_BITMAP) VHD_FLAG_REQ_QUEUED"
  "\<not> test_vhd_flag (set_vhd_flag VHD_FLAG_REQ_UPDATE_BAT VHD_FLAG_REQ_UPDATE_BITMAP) VHD_FLAG_REQ_FINISHED"
  "\<not> test_vhd_flag VHD_FLAG_REQ_UPDATE_BITMAP VHD_FLAG_REQ_UPDATE_BAT"
  "test_vhd_flag VHD_FLAG_REQ_UPDATE_BITMAP VHD_FLAG_REQ_UPDATE_BITMAP"
  "\<not> test_vhd_flag VHD_FLAG_REQ_UPDATE_BITMAP VHD_FLAG_REQ_QUEUED"
  "\<not> test_vhd_flag VHD_FLAG_REQ_UPDATE_BITMAP VHD_FLAG_REQ_FINISHED"
  by (simp_all add: test_vhd_flag_def set_vhd_flag_def vhd_flag_defs)

section \<open>Linked lists of requests\<close>

fun chained :: "(rid \<Rightarrow> rid option) \<Rightarrow> rid list \<Rightarrow> bool" where
  "chained nx [] = True"
| "chained nx [x] = (nx x = None)"
| "chained nx (x # y # zs) = (nx x = Some y \<and> chained nx (y # zs))"

definition rlist :: "(rid \<Rightarrow> rid option) \<Rightarrow> vhd_req_list \<Rightarrow> rid list \<Rightarrow> bool" where
  "rlist nx l xs \<longleftrightarrow> chained nx xs \<and> rl_head l = (if xs = [] then None else Some (hd xs)) \<and>
     rl_tail l = (if xs = [] then None else Some (last xs))"

abbreviation nexts :: "vhd_state \<Rightarrow> rid \<Rightarrow> rid option" where
  "nexts s \<equiv> \<lambda>r. vr_next (vs_req s r)"

lemma rchained_cong: "(\<And>x. x \<in> set xs \<Longrightarrow> nx' x = nx x) \<Longrightarrow> chained nx' xs = chained nx xs"
  by (induction nx xs rule: chained.induct) auto

lemma rlist_cong: "(\<And>x. x \<in> set xs \<Longrightarrow> nx' x = nx x) \<Longrightarrow> rlist nx' l xs = rlist nx l xs"
  using rchained_cong [of xs nx' nx] by (simp add: rlist_def)

lemma rlist_nil [simp]: "rlist nx req_list_nil xs \<longleftrightarrow> xs = []"
  by (auto simp: rlist_def req_list_nil_def)

lemma rlist_Nil: "rlist nx l [] \<longleftrightarrow> l = req_list_nil"
  by (auto simp: rlist_def req_list_nil_def)

lemma rlist_head: "rlist nx l xs \<Longrightarrow> rl_head l = None \<longleftrightarrow> xs = []"
  by (auto simp: rlist_def)

lemma chained_Cons: "chained nx (x # xs) \<longleftrightarrow> nx x = (if xs = [] then None else Some (hd xs)) \<and> chained nx xs"
  by (cases xs) auto

lemma chained_append1:
  "chained nx xs \<Longrightarrow> distinct (xs @ [e]) \<Longrightarrow> nx e = None \<Longrightarrow> xs \<noteq> [] \<Longrightarrow> chained (nx(last xs := Some e)) (xs @ [e])"
  by (induction nx xs rule: chained.induct) (auto simp: chained_Cons)

lemma nexts_upd_req: "nexts (upd_req r f s) = (nexts s)(r := vr_next (f (vs_req s r)))"
  by (rule ext) (simp add: upd_req_def)

lemma wp_add_to_tail:
  assumes "rlist (nexts s) l xs" and "e \<notin> set xs" and "distinct xs" and "nexts s e = None"
    and "\<And>t l'. t = (if xs = [] then s else upd_req (last xs) (\<lambda>q. q\<lparr>vr_next := Some e\<rparr>) s) \<Longrightarrow>
      rlist (nexts t) l' (xs @ [e]) \<Longrightarrow> Q l' t"
  shows "wp (add_to_tail l e) Q E s"
proof (cases "xs = []")
  case True
  with assms(1,4) assms(5) [of s "\<lparr>rl_head = Some e, rl_tail = Some e\<rparr>"] show ?thesis
    by (simp add: add_to_tail_def wps rlist_def)
next
  case False
  let ?t = "upd_req (last xs) (\<lambda>q. q\<lparr>vr_next := Some e\<rparr>) s"
  have c: "chained (nexts ?t) (xs @ [e])"
    using chained_append1 [of "nexts s" xs e] assms(1-4) False by (simp add: nexts_upd_req rlist_def)
  have "Q (l\<lparr>rl_tail := Some e\<rparr>) ?t"
    using assms(1) False c by (intro assms(5)) (auto simp: rlist_def)
  with assms(1) False show ?thesis by (simp add: add_to_tail_def wps rlist_def)
qed

text \<open>Removal: the list after it, and the one \<open>next\<close> pointer that changes.\<close>

definition unlinked :: "rid \<Rightarrow> rid list \<Rightarrow> vhd_state \<Rightarrow> vhd_state \<Rightarrow> bool" where
  "unlinked e xs s t \<longleftrightarrow> t = s \<or> (\<exists>i \<in> set xs - {e}. \<exists>x. t = upd_req i (\<lambda>q. q\<lparr>vr_next := x\<rparr>) s)"

lemma wp_remove_walk:
  assumes "rlist (nexts s) l (ys @ i # xs)" and "e \<in> set xs" and "distinct (ys @ i # xs)" and "length xs < k"
    and "\<And>t l' c. unlinked e (ys @ i # xs) s t \<Longrightarrow> rlist (nexts t) l' (remove1 e (ys @ i # xs)) \<Longrightarrow> Q (l', c) t"
  shows "wp (remove_walk k l e i) Q E s"
  using assms
proof (induction k arbitrary: ys i xs)
  case 0
  then show ?case by simp
next
  case (Suc k)
  from Suc.prems(2) obtain n zs where xs: "xs = n # zs" by (cases xs) auto
  have ch: "chained (nexts s) (ys @ i # n # zs)" and hl: "rl_head l = Some (hd (ys @ [i]))" "rl_tail l = Some (last (n # zs))"
    using Suc.prems(1) xs by (auto simp: rlist_def hd_append)
  have app: "chained nx (us @ vs) \<Longrightarrow> chained nx vs" for nx us vs
    by (induction us) (auto simp: chained_Cons)
  have c2: "chained (nexts s) (i # n # zs)" using app [OF ch] .
  then have n: "vr_next (vs_req s i) = Some n" by simp
  show ?case
  proof (cases "n = e")
    case True
    have d: "i \<noteq> e" "e \<notin> set ys" "e \<notin> set zs" "i \<notin> set ys" "i \<notin> set zs" "n \<notin> set zs" "distinct (ys @ [i])"
      using Suc.prems(3) xs True by auto
    have r1: "remove1 e (ys @ i # xs) = ys @ i # zs" using d xs True by (simp add: remove1_append)
    let ?x = "if zs = [] then None else Some (hd zs)"
    let ?t = "upd_req i (\<lambda>q. q\<lparr>vr_next := ?x\<rparr>) s"
    have glue: "chained nx (us @ [i]) \<Longrightarrow> chained nx' (i # zs) \<Longrightarrow> (\<And>x. x \<in> set us \<Longrightarrow> nx' x = nx x) \<Longrightarrow> chained nx' (us @ i # zs)"
      if "i \<notin> set us" for nx nx' us using that
    proof (induction us)
      case Nil then show ?case by simp
    next
      case (Cons u us) then show ?case by (cases us) (auto simp: chained_Cons)
    qed
    have pre: "chained ((nexts s)(i := None)) (ys @ [i])"
      using ch d(4) by (induction ys) (auto simp: chained_Cons hd_append split: if_splits)
    have "chained (nexts s) (n # zs)" using c2 by simp
    then have zsc: "chained (nexts s) zs" by (simp add: chained_Cons)
    have "nexts ?t x = nexts s x" if "x \<in> set zs" for x using that d(5) by (auto simp: upd_req_def)
    then have "chained (nexts ?t) zs" using zsc rchained_cong [of zs "nexts ?t" "nexts s"] by blast
    then have iz: "chained (nexts ?t) (i # zs)" by (simp add: chained_Cons nexts_upd_req)
    have cc: "chained (nexts ?t) (ys @ i # zs)"
      by (rule glue [OF d(4) pre iz]) (use d(4) in \<open>auto simp: upd_req_def\<close>)
    have un: "unlinked e (ys @ i # xs) s ?t" using d(1) by (auto simp: unlinked_def)
    have nz: "vr_next (vs_req s n) = ?x" using c2 by (simp add: chained_Cons)
    have q: "Q (l', c) ?t" if "rl_head l' = Some (hd (ys @ [i]))" "rl_tail l' = Some (last (i # zs))" for l' c
      by (rule Suc.prems(5) [OF un]) (use that cc r1 in \<open>auto simp: rlist_def hd_append\<close>)
    show ?thesis
    proof (cases "zs = []")
      case True
      then show ?thesis using q [of "l\<lparr>rl_tail := Some i\<rparr>" 0] hl n \<open>n = e\<close> by (simp add: wps)
    next
      case False
      have "last zs \<noteq> e" using d(3) False by (metis last_in_set)
      then show ?thesis using q [of l 0] hl n nz False \<open>n = e\<close> by (simp add: wps)
    qed
  next
    case False
    then have "e \<in> set zs" using Suc.prems(2) xs by simp
    have "wp (remove_walk k l e n) Q E s"
      by (rule Suc.IH [of "ys @ [i]" n zs]) (use Suc.prems xs \<open>e \<in> set zs\<close> in auto)
    then show ?thesis using n False by (simp add: wps)
  qed
qed

lemma wp_remove_from_req_list:
  assumes "rlist (nexts s) l xs" and "e \<in> set xs" and "distinct xs" and "length xs \<le> VHD_REQS_TOTAL"
    and "\<And>t l' c. unlinked e xs s t \<Longrightarrow> rlist (nexts t) l' (remove1 e xs) \<Longrightarrow> Q (l', c) t"
  shows "wp (remove_from_req_list l e) Q E s"
proof -
  from assms(2) obtain h zs where xs: "xs = h # zs" by (cases xs) auto
  have h: "rl_head l = Some h" and tl: "rl_tail l = Some (last xs)" and ch: "chained (nexts s) (h # zs)"
    using assms(1) xs by (auto simp: rlist_def)
  have q: "rlist (nexts s) l' (remove1 e xs) \<Longrightarrow> Q (l', c) s" for l' c by (rule assms(5)) (simp_all add: unlinked_def)
  show ?thesis
  proof (cases "h = e")
    case False
    then have "e \<in> set zs" using assms(2) xs by simp
    have "wp (remove_walk VHD_REQS_TOTAL l e h) Q E s"
      by (rule wp_remove_walk [where ys = "[]" and xs = zs]) (use assms xs \<open>e \<in> set zs\<close> in auto)
    with h False show ?thesis by (simp add: remove_from_req_list_def)
  next
    case True
    show ?thesis
    proof (cases "zs = []")
      case True
      then show ?thesis using q [of req_list_nil 0] h tl xs \<open>h = e\<close> by (simp add: remove_from_req_list_def wps)
    next
      case False
      have "last zs \<noteq> e" using assms(3) xs \<open>h = e\<close> False by (metis distinct.simps(2) last_in_set)
      moreover have "vr_next (vs_req s h) = Some (hd zs)" using ch False by (simp add: chained_Cons)
      moreover have "rlist (nexts s) (l\<lparr>rl_head := Some (hd zs)\<rparr>) zs"
        using ch tl xs False by (simp add: rlist_def chained_Cons)
      ultimately show ?thesis using q [of "l\<lparr>rl_head := Some (hd zs)\<rparr>" 0] h tl xs \<open>h = e\<close> False
        by (simp add: remove_from_req_list_def wps)
    qed
  qed
qed

section \<open>The sectors of a request\<close>

text \<open>A sector, with the request it belongs to and the place in memory it is transferred to or from.\<close>

type_synonym piece = "nat \<times> int \<times> int \<times> u64 \<times> buffer"

definition pieces :: "td_request \<Rightarrow> piece multiset" where
  "pieces t = image_mset (\<lambda>k. (td_vreq t, td_sidx t, td_op t, td_sec t + of_nat k, buf_add (td_buf t) k)) (mset [0..<td_secs t])"

lemma buf_add_add: "buf_add (buf_add b n) k = buf_add b (n + k)"
  by (cases b) (simp_all add: buf_add_def algebra_simps)

lemma buf_add_0 [simp]: "buf_add b 0 = b"
  by (cases b) (simp_all add: buf_add_def)

lemma pieces_split: "n \<le> td_secs t \<Longrightarrow> pieces (t\<lparr>td_secs := n\<rparr>) + pieces (td_advance n t) = pieces t"
proof -
  assume n: "n \<le> td_secs t"
  then have "[0..<td_secs t] = [0..<n] @ map (\<lambda>k. k + n) [0..<td_secs t - n]"
    by (simp add: map_add_upt upt_add_eq_append [symmetric, of 0 n])
      (metis add.commute add_diff_inverse_nat less_eq_nat.simps(1) linorder_not_less upt_add_eq_append)
  then have "mset [0..<td_secs t] = mset [0..<n] + image_mset (\<lambda>k. k + n) (mset [0..<td_secs t - n])"
    by (metis mset_append mset_map)
  then show ?thesis
    by (simp add: pieces_def td_advance_def buf_add_add multiset.map_comp comp_def add.commute add.left_commute)
qed

lemma pieces_none [simp]: "td_secs t = 0 \<Longrightarrow> pieces t = {#}"
  by (simp add: pieces_def)

lemma size_pieces [simp]: "size (pieces t) = td_secs t"
  by (simp add: pieces_def)

end
