(* ===== verification/Block_Vhd_Inv.thy ===== *)
theory Block_Vhd_Inv
  imports Block_Vhd_Laws
begin

text \<open>
  The invariant of the driver. Every request is at one place (\<open>place\<close>: free, on its own, in the
  transaction, the queue or the waiting list of a bitmap, or taken off a list and held by a loop), every bitmap is in one of a few phases
  (\<open>bm_ok\<close>), and the lock of the table belongs to the transaction that allocates a block (\<open>bat_ok\<close>).
  \<open>Pd\<close> is the set of requests with a call of the kernel under way.
\<close>

section \<open>Configuration\<close>

definition n_blocks :: "vhd_state \<Rightarrow> nat" where
  "n_blocks s = unat (bat_entries (vb_bat (vs_bat s)))"

abbreviation spb :: "vhd_state \<Rightarrow> nat" where
  "spb s \<equiv> unat (vs_spb s)"

abbreviation prealloc :: "vhd_state \<Rightarrow> bool" where
  "prealloc s \<equiv> test_vhd_flag (vs_flags s) VHD_FLAG_OPEN_PREALLOCATE"

text \<open>Whether the image has a batmap, when that takes no access to the file.\<close>

definition plain_batmap :: "vhd_context \<Rightarrow> bool" where
  "plain_batmap c \<longleftrightarrow> \<not> vhd_creator_tapdisk c \<or> ftr_crtr_ver (ctx_footer c) \<le> VHD_VERSION 0 1 \<or>
     ftr_crtr_ver (ctx_footer c) \<ge> VHD_VERSION 1 2"

definition has_batmap :: "vhd_context \<Rightarrow> bool" where
  "has_batmap c \<longleftrightarrow> vhd_creator_tapdisk c \<and> \<not> ftr_crtr_ver (ctx_footer c) \<le> VHD_VERSION 0 1"

definition batmap_fits :: "vhd_state \<Rightarrow> vhd_batmap \<Rightarrow> bool" where
  "batmap_fits s b \<longleftrightarrow> (case bm_map b of None \<Rightarrow> True | Some m \<Rightarrow> plain_batmap (vctx s) \<and>
     (\<forall>blk. unat blk < n_blocks s \<longrightarrow> batmap_index_ok b blk \<longrightarrow> unat blk div 8 < length m))"

definition driver_cfg :: "vhd_state \<Rightarrow> bool" where
  "driver_cfg s \<longleftrightarrow> vhd_type_dynamic (vctx s) \<and> vs_spb s \<noteq> 0 \<and> vs_spp s \<noteq> 0 \<and> vs_bm_secs s \<noteq> 0 \<and>
     128 * ((n_blocks s + 127) div 128) \<le> length (bat_table s) \<and> length (bat_table s) < 4294967296 \<and>
     n_blocks s * spb s \<le> 4294967296 \<and>
     spb s \<le> 4096 * unat (vs_bm_secs s) \<and> batmap_fits s (vb_batmap (vs_bat s)) \<and>
     spb s + unat (vs_bm_secs s) + unat (vs_spp s) < 4194304 \<and>
     512 * (unat (vs_bm_secs s) + unat (vs_spp s)) \<le> unat (vs_zsize s) \<and>
     (prealloc s \<longrightarrow> 512 * (spb s + unat (vs_bm_secs s) + unat (vs_spp s)) \<le> unat (vs_zsize s))"

definition full_block :: "vhd_state \<Rightarrow> u32 \<Rightarrow> bool" where
  "full_block s blk \<longleftrightarrow> (case bm_map (vb_batmap (vs_bat s)) of None \<Rightarrow> False
     | Some m \<Rightarrow> has_batmap (vctx s) \<and> batmap_index_ok (vb_batmap (vs_bat s)) blk \<and> test_bit m (unat blk))"

section \<open>Places\<close>

datatype place = Free | Loose | In_tx nat | In_queue nat | In_wait nat | Parked | Idle

record ghost =
  g_own :: "rid \<Rightarrow> place"
  g_list :: "place \<Rightarrow> rid list"

abbreviation g_tx :: "ghost \<Rightarrow> nat \<Rightarrow> rid list" where
  "g_tx G i \<equiv> g_list G (In_tx i)"

definition listed :: "place \<Rightarrow> bool" where
  "listed p \<longleftrightarrow> p \<noteq> Free \<and> p \<noteq> Loose \<and> p \<noteq> Parked \<and> p \<noteq> Idle"

fun list_at :: "vhd_state \<Rightarrow> place \<Rightarrow> vhd_req_list" where
  "list_at s (In_tx i) = tx_requests (vbm_tx (vs_bitmap_list s i))"
| "list_at s (In_queue i) = vbm_queue (vs_bitmap_list s i)"
| "list_at s (In_wait i) = vbm_waiting (vs_bitmap_list s i)"
| "list_at s p = req_list_nil"

definition is_data :: "rid \<Rightarrow> bool" where
  "is_data r \<longleftrightarrow> (\<exists>k < VHD_REQS_DATA. r = Data k)"

definition installed :: "vhd_state \<Rightarrow> nat \<Rightarrow> bool" where
  "installed s i \<longleftrightarrow> Some i \<in> set (vs_bitmap s)"

definition sec_ok :: "vhd_state \<Rightarrow> u64 \<Rightarrow> bool" where
  "sec_ok s sec \<longleftrightarrow> unat sec < n_blocks s * spb s"

definition in_block :: "vhd_state \<Rightarrow> u32 \<Rightarrow> td_request \<Rightarrow> bool" where
  "in_block s blk t \<longleftrightarrow> sec_ok s (td_sec t) \<and> blk_of s (td_sec t) = blk \<and>
     unat (sec_of s (td_sec t)) + td_secs t \<le> spb s"

text \<open>What holds for a data request at its place.\<close>

definition tx_write :: "vhd_state \<Rightarrow> rid set \<Rightarrow> nat \<Rightarrow> rid \<Rightarrow> bool" where
  "tx_write s Pd i r \<longleftrightarrow> (let q = vs_req s r in vr_op q = VHD_OP_DATA_WRITE \<and>
     (test_vhd_flag (vr_flags q) VHD_FLAG_REQ_FINISHED \<longleftrightarrow> r \<notin> Pd) \<and> in_block s (vbm_blk (the_bm s i)) (vr_treq q))"

definition dreq_ok :: "vhd_state \<Rightarrow> ghost \<Rightarrow> rid set \<Rightarrow> rid \<Rightarrow> bool" where
  "dreq_ok s G Pd r \<longleftrightarrow> (let q = vs_req s r; queued = test_vhd_flag (vr_flags q) VHD_FLAG_REQ_QUEUED in case g_own G r of
     Idle \<Rightarrow> False
   | Parked \<Rightarrow> r \<notin> Pd
   | Free \<Rightarrow> r \<notin> Pd \<and> q = req_zero
   | Loose \<Rightarrow> r \<in> Pd \<and> vr_tx q = None \<and> vr_next q = None \<and> \<not> queued \<and>
       \<not> test_vhd_flag (vr_flags q) VHD_FLAG_REQ_FINISHED \<and> sec_ok s (td_sec (vr_treq q)) \<and>
       vr_op q \<in> {VHD_OP_DATA_READ, VHD_OP_DATA_WRITE, VHD_OP_REDUNDANT_BM_WRITE}
   | In_tx i \<Rightarrow> vr_tx q = Some i \<and> \<not> queued \<and> tx_write s Pd i r
   | In_queue i \<Rightarrow> vr_tx q = None \<and> queued \<and> tx_write s Pd i r
   | In_wait i \<Rightarrow> r \<notin> Pd \<and> (vr_op q = VHD_OP_DATA_READ \<or> vr_op q = VHD_OP_DATA_WRITE) \<and>
       td_buf (vr_treq q) \<in> range Guest \<and> in_block s (vbm_blk (the_bm s i)) (vr_treq q))"

definition zero_ok :: "vhd_state \<Rightarrow> ghost \<Rightarrow> rid set \<Rightarrow> bool" where
  "zero_ok s G Pd \<longleftrightarrow> (let q = vs_req s Zero_req in
     (if Zero_req \<in> Pd then (\<exists>i. g_own G Zero_req = In_tx i \<and> vr_tx q = Some i \<and> blk_of s (td_sec (vr_treq q)) = vbm_blk (the_bm s i))
        \<and> vr_op q = VHD_OP_ZERO_BM_WRITE \<and> sec_ok s (td_sec (vr_treq q))
      else g_own G Zero_req = Idle))"

definition batreq_ok :: "vhd_state \<Rightarrow> ghost \<Rightarrow> rid set \<Rightarrow> bool" where
  "batreq_ok s G Pd \<longleftrightarrow> (let q = vs_req s Bat_req in
     (if Bat_req \<in> Pd then vr_op q = VHD_OP_BAT_WRITE \<and> td_sec (vr_treq q) = 0 \<and>
        (if prealloc s then \<exists>i. g_own G Bat_req = In_tx i \<and> vr_tx q = Some i else g_own G Bat_req = Idle)
      else g_own G Bat_req = Idle))"

definition bmreq_ok :: "vhd_state \<Rightarrow> rid set \<Rightarrow> nat \<Rightarrow> bool" where
  "bmreq_ok s Pd i \<longleftrightarrow> (Bm_req i \<in> Pd \<longrightarrow> (let q = vs_req s (Bm_req i); st = vbm_status (the_bm s i) in
     sec_ok s (td_sec (vr_treq q)) \<and> blk_of s (td_sec (vr_treq q)) = vbm_blk (the_bm s i) \<and>
     vr_op q = (if test_vhd_flag st VHD_FLAG_BM_READ_PENDING then VHD_OP_BITMAP_READ else VHD_OP_BITMAP_WRITE)))"

definition reqs_ok :: "vhd_state \<Rightarrow> ghost \<Rightarrow> rid set \<Rightarrow> bool" where
  "reqs_ok s G Pd \<longleftrightarrow> (\<forall>r. is_data r \<longrightarrow> dreq_ok s G Pd r) \<and> zero_ok s G Pd \<and> batreq_ok s G Pd \<and>
     (\<forall>i. bmreq_ok s Pd i \<and> g_own G (Bm_req i) = Idle) \<and>
     (\<forall>k. VHD_REQS_DATA \<le> k \<longrightarrow> Data k \<notin> Pd \<and> g_own G (Data k) = Idle)"

section \<open>Lists, pool and cache\<close>

definition lists_ok :: "vhd_state \<Rightarrow> ghost \<Rightarrow> bool" where
  "lists_ok s G \<longleftrightarrow> (\<forall>p. listed p \<longrightarrow> rlist (nexts s) (list_at s p) (g_list G p) \<and> distinct (g_list G p) \<and>
     set (g_list G p) = {r. g_own G r = p})"

definition pool_ok :: "vhd_state \<Rightarrow> ghost \<Rightarrow> bool" where
  "pool_ok s G \<longleftrightarrow> distinct (vs_vreq_free s) \<and> set (vs_vreq_free s) = {r. g_own G r = Free}"

definition cached_bms :: "vhd_state \<Rightarrow> nat list" where
  "cached_bms s = map the (filter (\<lambda>p. p \<noteq> None) (vs_bitmap s))"

definition cache_ok :: "vhd_state \<Rightarrow> bool" where
  "cache_ok s \<longleftrightarrow> length (vs_bitmap s) = VHD_CACHE_SIZE \<and> distinct (cached_bms s @ vs_bitmap_free s) \<and>
     set (cached_bms s @ vs_bitmap_free s) \<subseteq> {..<VHD_CACHE_SIZE} \<and>
     inj_on (\<lambda>i. vbm_blk (the_bm s i)) (set (cached_bms s)) \<and>
     (\<forall>i \<in> set (cached_bms s). unat (vbm_blk (the_bm s i)) < n_blocks s \<and>
        length (vbm_map (the_bm s i)) = 512 * unat (vs_bm_secs s) \<and> length (vbm_shadow (the_bm s i)) = 512 * unat (vs_bm_secs s))"

text \<open>All of it that does not look at phases.\<close>

definition core_ok :: "vhd_state \<Rightarrow> ghost \<Rightarrow> rid set \<Rightarrow> bool" where
  "core_ok s G Pd \<longleftrightarrow> driver_cfg s \<and> cache_ok s \<and> lists_ok s G \<and> pool_ok s G \<and> reqs_ok s G Pd"

section \<open>Phases\<close>

abbreviation rd_pending :: "vhd_bitmap \<Rightarrow> bool" where
  "rd_pending b \<equiv> test_vhd_flag (vbm_status b) VHD_FLAG_BM_READ_PENDING"

abbreviation wr_pending :: "vhd_bitmap \<Rightarrow> bool" where
  "wr_pending b \<equiv> test_vhd_flag (vbm_status b) VHD_FLAG_BM_WRITE_PENDING"

abbreviation tx_live :: "vhd_bitmap \<Rightarrow> bool" where
  "tx_live b \<equiv> test_vhd_flag (tx_status (vbm_tx b)) VHD_FLAG_TX_LIVE"

abbreviation tx_bat :: "vhd_bitmap \<Rightarrow> bool" where
  "tx_bat b \<equiv> test_vhd_flag (tx_status (vbm_tx b)) VHD_FLAG_TX_UPDATE_BAT"

text \<open>The phases of a bitmap \<open>b\<close>: it is installed (\<open>ins\<close>), holds the lock of the table (\<open>lk\<close>; \<open>e\<close> is the error of
  the last table write, \<open>tb\<close> tells that a table write will end the transaction), its block is not
  allocated (\<open>un\<close>), its own request is under way (\<open>bp\<close>), \<open>n\<close> writes of the transaction are.\<close>

definition bm_ok :: "bool \<Rightarrow> bool \<Rightarrow> int \<Rightarrow> bool \<Rightarrow> bool \<Rightarrow> bool \<Rightarrow> bool \<Rightarrow> nat \<Rightarrow> vhd_bitmap \<Rightarrow> bool" where
  "bm_ok pr lk e tb un ins bp n b \<longleftrightarrow> (let tx = vbm_tx b in
     (tx_live b \<longleftrightarrow> tx_started tx \<noteq> 0) \<and>
     tx_started tx = tx_finished tx + n \<and>
     (rl_head (vbm_queue b) \<noteq> None \<longrightarrow> tx_closed tx) \<and>
     (tx_closed tx \<longrightarrow> tx_live b) \<and>
     (tx_closed tx \<longrightarrow> n = 0 \<longrightarrow> wr_pending b \<or> lk \<and> tx_bat b \<and> tb) \<and>
     (tx_closed tx \<longrightarrow> n \<noteq> 0 \<longrightarrow> lk \<and> e \<noteq> 0 \<and> \<not> wr_pending b \<and> tx_error tx \<noteq> 0) \<and>
     (\<not> tx_closed tx \<longrightarrow> tx_live b \<longrightarrow> n \<noteq> 0) \<and>
     (\<not> tx_closed tx \<longrightarrow> \<not> wr_pending b) \<and>
     (\<not> tx_live b \<longrightarrow> tx = tx_zero) \<and>
     (wr_pending b \<or> rd_pending b \<longleftrightarrow> bp) \<and>
     (rd_pending b \<longrightarrow> \<not> tx_live b \<and> \<not> un \<and> \<not> wr_pending b) \<and>
     (rl_head (vbm_waiting b) \<noteq> None \<longrightarrow> rd_pending b) \<and>
     (bitmap_in_use b \<longrightarrow> bitmap_locked b) \<and>
     (bitmap_in_use b \<longrightarrow> ins) \<and>
     (tx_live b \<longrightarrow> tx_error tx = 0 \<longrightarrow> un \<longrightarrow> lk) \<and>
     (tx_closed tx \<longrightarrow> un \<longrightarrow> lk) \<and>
     (tx_bat b \<longrightarrow> lk \<and> \<not> pr \<and> e = 0 \<and> un) \<and>
     (tx_error tx \<noteq> 0 \<longrightarrow> wr_pending b \<longrightarrow> lk \<and> e \<noteq> 0))"

definition has_lock :: "vhd_state \<Rightarrow> nat \<Rightarrow> bool" where
  "has_lock s i \<longleftrightarrow> bat_locked s \<and> installed s i \<and> vbm_blk (the_bm s i) = vb_pbw_blk (vs_bat s)"

definition unalloc :: "vhd_state \<Rightarrow> nat \<Rightarrow> bool" where
  "unalloc s i \<longleftrightarrow> installed s i \<and> bat_table s ! unat (vbm_blk (the_bm s i)) = DD_BLK_UNUSED"

abbreviation bat_err :: "vhd_state \<Rightarrow> int" where
  "bat_err s \<equiv> vr_error (vs_req s Bat_req)"

abbreviation bat_tx :: "vhd_state \<Rightarrow> nat option" where
  "bat_tx s \<equiv> vr_tx (vs_req s Bat_req)"

abbreviation bat_started :: "vhd_state \<Rightarrow> bool" where
  "bat_started s \<equiv> test_vhd_flag (vb_status (vs_bat s)) VHD_FLAG_BAT_WRITE_STARTED"

definition n_pending :: "ghost \<Rightarrow> rid set \<Rightarrow> nat \<Rightarrow> nat" where
  "n_pending G Pd i = length (filter (\<lambda>r. r \<in> Pd) (g_tx G i))"

definition bitmap_ok :: "vhd_state \<Rightarrow> ghost \<Rightarrow> rid set \<Rightarrow> nat \<Rightarrow> bool" where
  "bitmap_ok s G Pd i \<longleftrightarrow> bm_ok (prealloc s) (has_lock s i) (bat_err s) (bat_tx s = Some i) (unalloc s i)
     (installed s i) (Bm_req i \<in> Pd) (n_pending G Pd i) (the_bm s i)"

text \<open>The phases of an allocation by bitmap \<open>i\<close>: the new bitmap is zeroed, the table is written, the table
  write has failed. With preallocation the first phase is missing.\<close>

definition alloc_phase :: "vhd_state \<Rightarrow> ghost \<Rightarrow> rid set \<Rightarrow> nat \<Rightarrow> bool" where
  "alloc_phase s G Pd i \<longleftrightarrow> (let b = the_bm s i; tx = vbm_tx b in
     (if prealloc s then Zero_req \<notin> Pd \<and> bat_started s \<and>
        (Bat_req \<in> Pd \<and> bat_err s = 0 \<and> g_own G Bat_req = In_tx i \<or>
         Bat_req \<notin> Pd \<and> bat_err s \<noteq> 0 \<and> tx_closed tx \<and> tx_error tx \<noteq> 0)
      else
        (\<not> bat_started s \<and> Zero_req \<in> Pd \<and> Bat_req \<notin> Pd \<and> tx_bat b \<and> bat_err s = 0 \<and> g_own G Zero_req = In_tx i) \<or>
        (bat_started s \<and> Zero_req \<notin> Pd \<and> Bat_req \<in> Pd \<and> tx_bat b \<and> bat_err s = 0 \<and>
           (bat_tx s = None \<or> bat_tx s = Some i) \<and>
           (bat_tx s = Some i \<longleftrightarrow> tx_closed tx \<and> tx_started tx = tx_finished tx \<and> \<not> wr_pending b)) \<or>
        (bat_started s \<and> Zero_req \<notin> Pd \<and> Bat_req \<notin> Pd \<and> \<not> tx_bat b \<and> bat_err s \<noteq> 0 \<and> tx_closed tx \<and> tx_error tx \<noteq> 0)))"

definition bat_idle :: "vhd_state \<Rightarrow> rid set \<Rightarrow> bool" where
  "bat_idle s Pd \<longleftrightarrow> vb_status (vs_bat s) = 0 \<and> Zero_req \<notin> Pd \<and> Bat_req \<notin> Pd \<and> bat_err s = 0 \<and> bat_tx s = None"

definition bat_ok :: "vhd_state \<Rightarrow> ghost \<Rightarrow> rid set \<Rightarrow> bool" where
  "bat_ok s G Pd \<longleftrightarrow> (if bat_locked s then
       \<exists>i. has_lock s i \<and> unalloc s i \<and> tx_live (the_bm s i) \<and> \<not> rd_pending (the_bm s i) \<and> alloc_phase s G Pd i
     else bat_idle s Pd)"

definition inv :: "vhd_state \<Rightarrow> ghost \<Rightarrow> rid set \<Rightarrow> bool" where
  "inv s G Pd \<longleftrightarrow> core_ok s G Pd \<and> (\<forall>i. bitmap_ok s G Pd i) \<and> bat_ok s G Pd"

text \<open>The calls under way: one at most for each request, and a read into a map is the bitmap's own and as long as the map.\<close>

definition in_flight :: "vhd_state \<Rightarrow> rid set" where
  "in_flight s = aio_req ` set (vs_aio s)"

definition aio_ok :: "vhd_state \<Rightarrow> bool" where
  "aio_ok s \<longleftrightarrow> distinct (map aio_req (vs_aio s)) \<and>
     (\<forall>a \<in> set (vs_aio s). \<forall>i. \<not> aio_rw a \<longrightarrow> aio_buf a = Map_buf i \<longrightarrow> aio_req a = Bm_req i \<and> rd_pending (the_bm s i) \<and> aio_secs a = unat (vs_bm_secs s))"

definition driver_ok :: "vhd_state \<Rightarrow> bool" where
  "driver_ok s \<longleftrightarrow> aio_ok s \<and> (\<exists>G. inv s G (in_flight s))"

end
