(* ===== verification/Block_Vhd_Frame.thy ===== *)
theory Block_Vhd_Frame
  imports Block_Vhd_Inv Vhd_Image_Ops
begin

text \<open>
  What the invariant does not depend on, and the small operations: the batmap, the cache of bitmaps,
  taking and freeing requests.
\<close>

section \<open>Frames\<close>

lemmas upds = upd_req_def upd_bm_def upd_tx_def upd_vbat_def

lemma core_cong:
  assumes "vs_flags t = vs_flags s" "vctx t = vctx s" "vs_spb t = vs_spb s" "vs_spp t = vs_spp s" "vs_bm_secs t = vs_bm_secs s"
    "vs_zsize t = vs_zsize s" "bat_entries (vb_bat (vs_bat t)) = bat_entries (vb_bat (vs_bat s))"
    "length (bat_table t) = length (bat_table s)" "vb_batmap (vs_bat t) = vb_batmap (vs_bat s)" "vs_bitmap t = vs_bitmap s"
    "vs_bitmap_free t = vs_bitmap_free s" "vs_vreq_free t = vs_vreq_free s" "vs_req t = vs_req s"
    and b: "\<And>i. vbm_blk (the_bm t i) = vbm_blk (the_bm s i)"
    "\<And>i. length (vbm_map (the_bm t i)) = length (vbm_map (the_bm s i))"
    "\<And>i. length (vbm_shadow (the_bm t i)) = length (vbm_shadow (the_bm s i))"
    "\<And>i. tx_requests (vbm_tx (the_bm t i)) = tx_requests (vbm_tx (the_bm s i))"
    "\<And>i. vbm_queue (the_bm t i) = vbm_queue (the_bm s i)" "\<And>i. vbm_waiting (the_bm t i) = vbm_waiting (the_bm s i)"
    "\<And>i. Bm_req i \<in> Pd \<Longrightarrow> rd_pending (the_bm t i) = rd_pending (the_bm s i)"
  shows "core_ok t G Pd = core_ok s G Pd"
proof -
  have 0: "sec_ok t sec = sec_ok s sec" "blk_of t sec = blk_of s sec" "sec_of t sec = sec_of s sec" for sec
    using assms by (simp_all add: sec_ok_def n_blocks_def blk_of_def sec_of_def)
  have "batmap_fits t b = batmap_fits s b" for b
    using assms(2,7) by (cases "bm_map b") (simp_all add: batmap_fits_def n_blocks_def)
  then have 1: "driver_cfg t = driver_cfg s" using assms by (simp add: driver_cfg_def n_blocks_def)
  have 2: "cache_ok t = cache_ok s" using assms by (simp add: cache_ok_def cached_bms_def n_blocks_def)
  have "list_at t p = list_at s p" for p using assms by (cases p) simp_all
  then have 3: "lists_ok t G = lists_ok s G" using assms by (simp add: lists_ok_def)
  have 4: "pool_ok t G = pool_ok s G" using assms by (simp add: pool_ok_def)
  have 5: "in_block t b q = in_block s b q" for b q using assms by (simp add: in_block_def 0)
  have 6: "tx_write t Pd i r = tx_write s Pd i r" for i r using assms by (simp add: tx_write_def 5)
  have 7: "dreq_ok t G Pd r = dreq_ok s G Pd r" for r using assms by (simp add: dreq_ok_def 0 5 6 Let_def cong: place.case_cong)
  have 8: "bmreq_ok t Pd i = bmreq_ok s Pd i" for i using assms by (auto simp: bmreq_ok_def 0 Let_def)
  have "reqs_ok t G Pd = reqs_ok s G Pd" using assms by (simp add: reqs_ok_def 0 7 8 zero_ok_def batreq_ok_def)
  with 1 2 3 4 show ?thesis by (simp add: core_ok_def)
qed

text \<open>The phase of a bitmap without the lock does not depend on the table write.\<close>

lemma bm_ok_nolock: "bm_ok pr False e tb un ins bp n b = bm_ok pr False e' tb' un ins bp n b"
  by (simp add: bm_ok_def Let_def)

definition bm_alike :: "vhd_bitmap \<Rightarrow> vhd_bitmap \<Rightarrow> bool" where
  "bm_alike b c \<longleftrightarrow> vbm_blk b = vbm_blk c \<and> vbm_status b = vbm_status c \<and> vbm_tx b = vbm_tx c \<and>
     vbm_queue b = vbm_queue c \<and> vbm_waiting b = vbm_waiting c"

lemma bm_alike_refl [simp]: "bm_alike b b"
  by (simp add: bm_alike_def)

lemma bm_ok_alike: "bm_alike b c \<Longrightarrow> bm_ok pr lk e tb un ins bp n b = bm_ok pr lk e tb un ins bp n c"
  by (simp add: bm_ok_def bm_alike_def bitmap_locked_def bitmap_in_use_def)

lemma bitmap_ok_frame:
  assumes "bitmap_ok s G Pd i" and "bm_alike (the_bm t i) (the_bm s i)" and "prealloc t = prealloc s"
    and "installed t i = installed s i" and "unalloc t i = unalloc s i" and "has_lock t i = has_lock s i"
    and "has_lock s i \<Longrightarrow> bat_err t = bat_err s \<and> bat_tx t = bat_tx s"
    and "(Bm_req i \<in> Pd') = (Bm_req i \<in> Pd)" and "n_pending G' Pd' i = n_pending G Pd i"
  shows "bitmap_ok t G' Pd' i"
proof (cases "has_lock s i")
  case True
  with assms bm_ok_alike [OF assms(2)] show ?thesis by (simp add: bitmap_ok_def)
next
  case False
  with assms bm_ok_alike [OF assms(2)] show ?thesis
    by (simp add: bitmap_ok_def bm_ok_nolock [of _ "bat_err t" "bat_tx t = Some i" _ _ _ _ _ "bat_err s" "bat_tx s = Some i"])
qed

text \<open>Fields no part of the invariant mentions.\<close>

lemma inv_cong:
  assumes "vs_flags t = vs_flags s" "vctx t = vctx s" "vs_spb t = vs_spb s" "vs_spp t = vs_spp s" "vs_bm_secs t = vs_bm_secs s"
    "vs_zsize t = vs_zsize s" "bat_entries (vb_bat (vs_bat t)) = bat_entries (vb_bat (vs_bat s))"
    "bat_table t = bat_table s" "vb_batmap (vs_bat t) = vb_batmap (vs_bat s)" "vs_bitmap t = vs_bitmap s"
    "vs_bitmap_free t = vs_bitmap_free s" "vs_vreq_free t = vs_vreq_free s" "vs_req t = vs_req s"
    "vb_status (vs_bat t) = vb_status (vs_bat s)" "vb_pbw_blk (vs_bat t) = vb_pbw_blk (vs_bat s)"
    and b: "\<And>i. bm_alike (the_bm t i) (the_bm s i)"
    "\<And>i. length (vbm_map (the_bm t i)) = length (vbm_map (the_bm s i))"
    "\<And>i. length (vbm_shadow (the_bm t i)) = length (vbm_shadow (the_bm s i))"
  shows "inv t G Pd = inv s G Pd"
proof -
  have bf: "vbm_blk (the_bm t i) = vbm_blk (the_bm s i)" "vbm_status (the_bm t i) = vbm_status (the_bm s i)"
    "vbm_tx (the_bm t i) = vbm_tx (the_bm s i)" "vbm_queue (the_bm t i) = vbm_queue (the_bm s i)"
    "vbm_waiting (the_bm t i) = vbm_waiting (the_bm s i)" for i using b(1) [of i] by (simp_all add: bm_alike_def)
  have 1: "core_ok t G Pd = core_ok s G Pd" by (rule core_cong) (simp_all add: assms bf)
  have 2: "installed t i = installed s i" "unalloc t i = unalloc s i" "has_lock t i = has_lock s i" for i
    using assms bf by (simp_all add: installed_def unalloc_def has_lock_def bat_locked_def)
  have 3: "bitmap_ok t G Pd i = bitmap_ok s G Pd i" for i
    using assms bm_ok_alike [OF b(1)] by (simp add: bitmap_ok_def 2)
  have 4: "bat_ok t G Pd = bat_ok s G Pd"
    using assms bf by (simp add: bat_ok_def 2 bat_locked_def alloc_phase_def bat_idle_def Let_def)
  show ?thesis by (simp add: inv_def 1 3 4)
qed

lemma invD:
  assumes "inv s G Pd"
  shows "core_ok s G Pd" "bitmap_ok s G Pd i" "bat_ok s G Pd" "driver_cfg s" "cache_ok s" "lists_ok s G" "pool_ok s G" "reqs_ok s G Pd"
  using assms by (simp_all add: inv_def core_ok_def)

lemma listsD:
  assumes "lists_ok s G" and "listed p"
  shows "rlist (nexts s) (list_at s p) (g_list G p)" "distinct (g_list G p)" "r \<in> set (g_list G p) \<longleftrightarrow> g_own G r = p"
  using assms by (auto simp: lists_ok_def)

lemma listed_simps [simp]: "listed (In_tx i)" "listed (In_queue i)" "listed (In_wait i)" "\<not> listed Free" "\<not> listed Loose" "\<not> listed Parked" "\<not> listed Idle"
  by (simp_all add: listed_def)

lemma cfgD:
  assumes "driver_cfg s"
  shows "vhd_type_dynamic (vctx s)" "vs_spb s \<noteq> 0" "vs_spp s \<noteq> 0" "\<not> fixed_disk s" "spb s \<noteq> 0"
    "n_blocks s \<le> length (bat_table s)" "n_blocks s * spb s \<le> 4294967296"
proof -
  show "vhd_type_dynamic (vctx s)" "vs_spb s \<noteq> 0" "vs_spp s \<noteq> 0" "n_blocks s * spb s \<le> 4294967296"
    using assms by (simp_all add: driver_cfg_def)
  show "\<not> fixed_disk s" using assms
    by (auto simp: driver_cfg_def vhd_type_dynamic_def HD_TYPE_FIXED_def HD_TYPE_DYNAMIC_def HD_TYPE_DIFF_def)
  show "spb s \<noteq> 0" using assms by (simp add: driver_cfg_def unat_eq_0)
  show "n_blocks s \<le> length (bat_table s)" using assms unfolding driver_cfg_def by linarith
qed

section \<open>Blocks and sectors\<close>

lemma unat_blk_of:
  assumes "driver_cfg s" and "sec_ok s sec"
  shows "unat (blk_of s sec) = unat sec div spb s" and "unat sec div spb s < n_blocks s" and "unat (blk_of s sec) < n_blocks s"
    and "unat (sec div ucast (vs_spb s)) < length (bat_table s)"
proof -
  have p: "0 < spb s" using cfgD(5) [OF assms(1)] by simp
  have d: "unat sec div spb s < n_blocks s"
    using assms(2) p by (simp add: sec_ok_def less_mult_imp_div_less)
  have u: "unat (sec div ucast (vs_spb s)) = unat sec div spb s"
    by (simp add: unat_div unat_ucast_u64)
  have l: "n_blocks s < 4294967296" by (simp add: n_blocks_def)
  show "unat (blk_of s sec) = unat sec div spb s"
    using d l by (simp add: blk_of_def unsigned_ucast_eq u take_bit_nat_eq_self)
  with d show "unat (blk_of s sec) < n_blocks s" by simp
  show "unat sec div spb s < n_blocks s" by (rule d)
  show "unat (sec div ucast (vs_spb s)) < length (bat_table s)"
    using d cfgD(6) [OF assms(1)] u by simp
qed

lemma unat_sec_of:
  assumes "driver_cfg s"
  shows "unat (sec_of s sec) = unat sec mod spb s" and "blk_room s sec = spb s - unat sec mod spb s"
    and "0 < blk_room s sec" and "unat (sec_of s sec) + blk_room s sec = spb s"
proof -
  have p: "0 < spb s" using cfgD(5) [OF assms] by simp
  have u: "unat (sec mod ucast (vs_spb s)) = unat sec mod spb s"
    by (simp add: unat_mod unat_ucast_u64)
  have m: "unat sec mod spb s < spb s" using p by simp
  then have l: "unat sec mod spb s < 4294967296" using unat_u32_less [of "vs_spb s"] by linarith
  show 1: "unat (sec_of s sec) = unat sec mod spb s"
    using l by (simp add: sec_of_def unsigned_ucast_eq u take_bit_nat_eq_self)
  have le: "sec mod ucast (vs_spb s) \<le> ucast (vs_spb s)"
    using m u by (simp add: word_le_nat_alt unat_ucast_u64)
  show 2: "blk_room s sec = spb s - unat sec mod spb s"
    using unat_sub [OF le] u by (simp add: blk_room_def unat_ucast_u64)
  with m show "0 < blk_room s sec" "unat (sec_of s sec) + blk_room s sec = spb s" using 1 by simp_all
qed

lemma blk_start:
  assumes "driver_cfg s" and "unat blk < n_blocks s"
  shows "sec_ok s (ucast (blk * vs_spb s))" and "blk_of s (ucast (blk * vs_spb s)) = blk"
proof -
  have p: "0 < spb s" using cfgD(5) [OF assms(1)] by simp
  have "unat blk * spb s < n_blocks s * spb s" using assms(2) p by simp
  then have l: "unat blk * spb s < 4294967296" using cfgD(7) [OF assms(1)] by linarith
  then have "unat (blk * vs_spb s) = unat blk * spb s" using unat_mult_lem [of blk "vs_spb s"] by simp
  then have u: "unat (ucast (blk * vs_spb s) :: u64) = unat blk * spb s" by (simp only: unat_ucast_u64)
  show k: "sec_ok s (ucast (blk * vs_spb s))" using u \<open>_ < n_blocks s * spb s\<close> by (simp add: sec_ok_def)
  show "blk_of s (ucast (blk * vs_spb s)) = blk"
    using unat_blk_of(1) [OF assms(1) k] u p by (simp add: word_unat_eq_iff)
qed

section \<open>The cache\<close>

lemma installed_cached: "installed s i \<longleftrightarrow> i \<in> set (cached_bms s)"
  by (force simp: installed_def cached_bms_def)

lemma get_bitmap_Some:
  assumes "cache_ok s"
  shows "get_bitmap s blk = Some i \<longleftrightarrow> installed s i \<and> vbm_blk (the_bm s i) = blk"
proof
  assume g: "get_bitmap s blk = Some i"
  then obtain p where p: "List.find (\<lambda>p. case p of None \<Rightarrow> False | Some i \<Rightarrow> vbm_blk (the_bm s i) = blk) (vs_bitmap s) = Some p" "p = Some i"
    by (auto simp: get_bitmap_def split: option.splits)
  then show "installed s i \<and> vbm_blk (the_bm s i) = blk"
    using nth_mem by (fastforce simp: find_Some_iff installed_def split: option.splits)
next
  assume a: "installed s i \<and> vbm_blk (the_bm s i) = blk"
  show "get_bitmap s blk = Some i"
  proof (cases "List.find (\<lambda>p. case p of None \<Rightarrow> False | Some i \<Rightarrow> vbm_blk (the_bm s i) = blk) (vs_bitmap s)")
    case None
    then have "\<not> (\<exists>p \<in> set (vs_bitmap s). case p of None \<Rightarrow> False | Some i \<Rightarrow> vbm_blk (the_bm s i) = blk)" by (auto simp: find_None_iff)
    with a show ?thesis by (auto simp: installed_def)
  next
    case (Some p)
    then obtain j where j: "p = Some j" "installed s j" "vbm_blk (the_bm s j) = blk"
      using nth_mem by (fastforce simp: find_Some_iff installed_def split: option.splits)
    with a assms have "j = i" by (auto simp: cache_ok_def inj_on_def installed_cached)
    with Some j show ?thesis by (simp add: get_bitmap_def)
  qed
qed

lemma get_bitmap_None:
  "get_bitmap s blk = None \<longleftrightarrow> (\<forall>i. installed s i \<longrightarrow> vbm_blk (the_bm s i) \<noteq> blk)"
proof (cases "List.find (\<lambda>p. case p of None \<Rightarrow> False | Some i \<Rightarrow> vbm_blk (the_bm s i) = blk) (vs_bitmap s)")
  case None
  then have "\<forall>p \<in> set (vs_bitmap s). \<not> (case p of None \<Rightarrow> False | Some i \<Rightarrow> vbm_blk (the_bm s i) = blk)"
    by (auto simp: find_None_iff)
  with None show ?thesis by (auto simp: get_bitmap_def installed_def)
next
  case (Some p)
  then obtain j where "p = Some j" "installed s j" "vbm_blk (the_bm s j) = blk"
    using nth_mem by (fastforce simp: find_Some_iff installed_def split: option.splits)
  with Some show ?thesis by (auto simp: get_bitmap_def)
qed

lemma has_lock_unique: "cache_ok s \<Longrightarrow> has_lock s i \<Longrightarrow> has_lock s j \<Longrightarrow> i = j"
  by (auto simp: has_lock_def cache_ok_def inj_on_def installed_cached)

section \<open>The batmap\<close>

lemma has_batmap_run: "plain_batmap (st_ctx v) \<Longrightarrow> vhd_type_dynamic (st_ctx v) \<Longrightarrow> vhd_has_batmap v = (Inr (has_batmap (st_ctx v)), v)"
  by (auto simp: vhd_has_batmap_def with_ctx_def plain_batmap_def has_batmap_def vret_def)

lemma wp_test_batmap:
  assumes "driver_cfg s" and "unat blk < n_blocks s" and "Q (full_block s blk) s"
  shows "wp (test_batmap blk) Q E s"
proof (cases "bm_map (vb_batmap (vs_bat s))")
  case None
  with assms(3) show ?thesis by (simp add: test_batmap_def wps full_block_def)
next
  case (Some m)
  let ?b = "vb_batmap (vs_bat s)"
  have f: "plain_batmap (vctx s)" "batmap_index_ok ?b blk \<Longrightarrow> unat blk div 8 < length m"
    using assms(1,2) Some by (simp_all add: driver_cfg_def batmap_fits_def)
  have d: "vhd_type_dynamic (vctx s)" using assms(1) by (rule cfgD)
  have "vhd_batmap_test ?b blk (vs_vhd s) = (Inr (full_block s blk), vs_vhd s)"
    using has_batmap_run [OF f(1) d] f(2) Some
    by (auto simp: vhd_batmap_test_def vbind_def full_block_def vret_def vdefined_def)
  then have "on_lib (vhd_batmap_test ?b blk) s = (Inr (full_block s blk), s)" by (simp add: on_lib_def)
  with Some have "test_batmap blk s = (Inr (full_block s blk), s)" by (simp add: test_batmap_def vget_def)
  with assms(3) show ?thesis by (simp add: wp_def)
qed

lemma wp_get_entry: "wp (get_entry blk) Q E s \<longleftrightarrow> unat blk < length (bat_table s) \<and> Q (bat_table s ! unat blk) s"
  by (simp add: get_entry_def wps)

end
