(* ===== verification/Block_Vhd_Ops.thy ===== *)
theory Block_Vhd_Ops
  imports Block_Vhd_Frame
begin

text \<open>
  The driver's small operations under the invariant: a look at the cache, taking a request from the
  pool, putting it into a transaction, a queue or a waiting list, and giving it back.
\<close>

section \<open>Sequence numbers\<close>

definition reseq :: "u64 \<Rightarrow> (nat \<Rightarrow> u64) \<Rightarrow> vhd_state \<Rightarrow> vhd_state" where
  "reseq x y s = s\<lparr>vs_bm_lru := x, vs_bitmap_list := (\<lambda>j. (the_bm s j)\<lparr>vbm_seqno := y j\<rparr>)\<rparr>"

lemma reseq_id: "reseq (vs_bm_lru s) (\<lambda>j. vbm_seqno (the_bm s j)) s = s"
  by (simp add: reseq_def)

lemma reseq_one: "(upd_bm i (\<lambda>b. b\<lparr>vbm_seqno := z\<rparr>) s)\<lparr>vs_bm_lru := x\<rparr> = reseq x ((\<lambda>j. vbm_seqno (the_bm s j))(i := z)) s"
  by (simp add: reseq_def upd_bm_def fun_eq_iff)

lemma reseq_reseq: "reseq x' y' (reseq x y s) = reseq x' y' s"
  by (simp add: reseq_def)

lemma halve_form: "\<exists>x y. halve_seqnos ps s = reseq x y s"
proof (induction ps arbitrary: s)
  case Nil
  show ?case by (intro exI [of _ "vs_bm_lru s"] exI [of _ "\<lambda>j. vbm_seqno (the_bm s j)"]) (simp only: reseq_id halve_seqnos.simps)
next
  case (Cons p ps)
  let ?t = "case p of None \<Rightarrow> s | Some i \<Rightarrow> let t = upd_bm i (\<lambda>b. b\<lparr>vbm_seqno := drop_bit 1 (vbm_seqno b)\<rparr>) s
    in if vbm_seqno (the_bm t i) > vs_bm_lru t then t\<lparr>vs_bm_lru := vbm_seqno (the_bm t i)\<rparr> else t"
  have "\<exists>x y. ?t = reseq x y s"
  proof (cases p)
    case None
    then have "?t = s" by simp
    then show ?thesis by (intro exI [of _ "vs_bm_lru s"] exI [of _ "\<lambda>j. vbm_seqno (the_bm s j)"]) (simp only: reseq_id)
  next
    case (Some i)
    let ?z = "drop_bit 1 (vbm_seqno (the_bm s i))"
    let ?u = "upd_bm i (\<lambda>b. b\<lparr>vbm_seqno := ?z\<rparr>) s"
    have u: "upd_bm i (\<lambda>b. b\<lparr>vbm_seqno := drop_bit 1 (vbm_seqno b)\<rparr>) s = ?u" by (simp add: upd_bm_def)
    have v: "?u\<lparr>vs_bm_lru := vs_bm_lru s\<rparr> = ?u" by (simp add: upd_bm_def)
    have "?t = ?u\<lparr>vs_bm_lru := if vs_bm_lru s < ?z then ?z else vs_bm_lru s\<rparr>"
      by (simp add: Some u Let_def v) (simp add: upd_bm_def)
    then show ?thesis unfolding reseq_one by blast
  qed
  then obtain x y where t: "?t = reseq x y s" by blast
  obtain x' y' where "halve_seqnos ps ?t = reseq x' y' ?t" using Cons.IH by blast
  then have "halve_seqnos (p # ps) s = reseq x' y' s" unfolding t by (simp add: t reseq_reseq)
  then show ?case by blast
qed

lemma touch_form: "\<exists>x y. touch_bitmap i s = reseq x y s"
proof -
  have z: "\<exists>x y. halve_seqnos (vs_bitmap s) (s\<lparr>vs_bm_lru := 0\<rparr>) = reseq x y s"
    using halve_form [of "vs_bitmap s" "s\<lparr>vs_bm_lru := 0\<rparr>"] by (simp add: reseq_def)
  obtain x y where t: "(if vs_bm_lru s = 0xffffffff then halve_seqnos (vs_bitmap s) (s\<lparr>vs_bm_lru := 0\<rparr>) else s) = reseq x y s"
    using z reseq_id [of s] by metis
  have "touch_bitmap i s = upd_bm i (\<lambda>b. b\<lparr>vbm_seqno := x + 1\<rparr>) ((reseq x y s)\<lparr>vs_bm_lru := x + 1\<rparr>)"
    by (simp add: touch_bitmap_def bitmap_lru_seqno_def t Let_def upd_bm_def reseq_def)
  also have "\<dots> = (upd_bm i (\<lambda>b. b\<lparr>vbm_seqno := x + 1\<rparr>) (reseq x y s))\<lparr>vs_bm_lru := x + 1\<rparr>" by (simp add: upd_bm_def)
  finally show ?thesis unfolding reseq_one reseq_reseq by blast
qed

lemma touch_simps [simp]:
  "vs_flags (touch_bitmap i s) = vs_flags s" "vs_vhd (touch_bitmap i s) = vs_vhd s" "vs_spp (touch_bitmap i s) = vs_spp s"
  "vs_spb (touch_bitmap i s) = vs_spb s" "vs_first_db (touch_bitmap i s) = vs_first_db s" "vs_next_db (touch_bitmap i s) = vs_next_db s"
  "vs_bat (touch_bitmap i s) = vs_bat s" "vs_bm_secs (touch_bitmap i s) = vs_bm_secs s" "vs_bitmap (touch_bitmap i s) = vs_bitmap s"
  "vs_bitmap_free (touch_bitmap i s) = vs_bitmap_free s" "vs_vreq_free (touch_bitmap i s) = vs_vreq_free s"
  "vs_req (touch_bitmap i s) = vs_req s" "vs_zsize (touch_bitmap i s) = vs_zsize s" "vs_aio (touch_bitmap i s) = vs_aio s"
  "vs_out (touch_bitmap i s) = vs_out s" "vs_padbm_size (touch_bitmap i s) = vs_padbm_size s"
  "vbm_blk (the_bm (touch_bitmap i s) j) = vbm_blk (the_bm s j)" "vbm_status (the_bm (touch_bitmap i s) j) = vbm_status (the_bm s j)"
  "vbm_map (the_bm (touch_bitmap i s) j) = vbm_map (the_bm s j)" "vbm_shadow (the_bm (touch_bitmap i s) j) = vbm_shadow (the_bm s j)"
  "vbm_tx (the_bm (touch_bitmap i s) j) = vbm_tx (the_bm s j)" "vbm_queue (the_bm (touch_bitmap i s) j) = vbm_queue (the_bm s j)"
  "vbm_waiting (the_bm (touch_bitmap i s) j) = vbm_waiting (the_bm s j)"
  using touch_form [of i s] by (auto simp: reseq_def)

lemma touch_more [simp]:
  "installed (touch_bitmap i s) j = installed s j" "n_blocks (touch_bitmap i s) = n_blocks s" "sec_ok (touch_bitmap i s) sec = sec_ok s sec"
  "blk_of (touch_bitmap i s) sec = blk_of s sec" "sec_of (touch_bitmap i s) sec = sec_of s sec" "blk_room (touch_bitmap i s) sec = blk_room s sec"
  "bat_table (touch_bitmap i s) = bat_table s" "bat_locked (touch_bitmap i s) = bat_locked s" "full_block (touch_bitmap i s) blk = full_block s blk"
  "get_bitmap (touch_bitmap i s) blk = get_bitmap s blk" "in_flight (touch_bitmap i s) = in_flight s" "cached_bms (touch_bitmap i s) = cached_bms s"
  by (simp_all add: installed_def n_blocks_def sec_ok_def blk_of_def sec_of_def blk_room_def bat_table_def bat_locked_def
      full_block_def get_bitmap_def in_flight_def cached_bms_def cong: option.case_cong)

lemma inv_touch [simp]: "inv (touch_bitmap i s) G Pd = inv s G Pd"
  by (rule inv_cong) (simp_all add: bm_alike_def)

section \<open>A look at the cache\<close>

definition seen :: "vhd_state \<Rightarrow> vhd_state \<Rightarrow> bool" where
  "seen s t \<longleftrightarrow> t = s \<or> (\<exists>i. t = touch_bitmap i s)"

lemma seen_same:
  assumes "seen s t"
  shows "inv t G Pd = inv s G Pd" "blk_of t = blk_of s" "blk_room t = blk_room s" "sec_ok t = sec_ok s" "in_flight t = in_flight s"
    "vs_out t = vs_out s" "vs_req t = vs_req s" "vs_spb t = vs_spb s" "n_blocks t = n_blocks s" "vs_aio t = vs_aio s"
    "rd_pending (the_bm t j) = rd_pending (the_bm s j)" "vs_flags t = vs_flags s" "vs_bm_secs t = vs_bm_secs s"
  using assms by (auto simp: seen_def fun_eq_iff)

definition cache_answer :: "vhd_state \<Rightarrow> u64 \<Rightarrow> u8 \<Rightarrow> int \<Rightarrow> bool" where
  "cache_answer s sec op c \<longleftrightarrow> (let blk = blk_of s sec; e = bat_table s ! unat blk in
     c = - EINVAL \<or> (c = VHD_BM_BAT_LOCKED \<and> op = VHD_OP_DATA_WRITE) \<or>
     (c = VHD_BM_BAT_CLEAR \<and> e = DD_BLK_UNUSED \<and> (op = VHD_OP_DATA_WRITE \<longrightarrow> bat_locked s \<longrightarrow> vb_pbw_blk (vs_bat s) = blk)) \<or>
     (e \<noteq> DD_BLK_UNUSED \<and>
       (c = VHD_BM_BIT_SET \<and> full_block s blk \<or>
        c = VHD_BM_NOT_CACHED \<and> get_bitmap s blk = None \<or>
        (\<exists>i. get_bitmap s blk = Some i \<and> \<not> full_block s blk \<and>
          (if rd_pending (the_bm s i) then c = VHD_BM_READ_PENDING
           else c = (if vhd_bitmap_test (vctx s) (vbm_map (the_bm s i)) (unat (sec_of s sec)) then VHD_BM_BIT_SET else VHD_BM_BIT_CLEAR))))))"

lemma wp_read_bitmap_cache:
  assumes I: "inv s G Pd" and sec: "sec_ok s sec"
    and Q: "\<And>t c. seen s t \<Longrightarrow> cache_answer t sec op c \<Longrightarrow> Q c t"
  shows "wp (read_bitmap_cache sec op) Q E s"
proof -
  note cfg = invD(4) [OF I]
  have b: "unat (blk_of s sec) < n_blocks s" by (rule unat_blk_of [OF cfg sec])
  then have l: "unat (blk_of s sec) < length (bat_table s)" using cfgD(6) [OF cfg] by simp
  have q0: "cache_answer s sec op c \<Longrightarrow> Q c s" for c by (rule Q) (simp_all add: seen_def)
  have q1: "cache_answer (touch_bitmap i s) sec op c \<Longrightarrow> Q c (touch_bitmap i s)" for c i by (rule Q) (auto simp: seen_def)
  consider (big) "hdr_max_bat_size (ctx_header (vctx s)) < blk_of s sec"
    | (clear) "\<not> hdr_max_bat_size (ctx_header (vctx s)) < blk_of s sec" "bat_table s ! unat (blk_of s sec) = DD_BLK_UNUSED"
    | (set) "\<not> hdr_max_bat_size (ctx_header (vctx s)) < blk_of s sec" "bat_table s ! unat (blk_of s sec) \<noteq> DD_BLK_UNUSED" by blast
  then show ?thesis
  proof cases
    case big
    have "Q (- EINVAL) s" by (rule q0) (simp add: cache_answer_def Let_def)
    with big cfgD(4) [OF cfg] show ?thesis by (simp add: read_bitmap_cache_def wps Let_def)
  next
    case clear
    have "Q VHD_BM_BAT_LOCKED s" if "op = VHD_OP_DATA_WRITE"
      by (rule q0) (use that in \<open>simp add: cache_answer_def Let_def\<close>)
    moreover have "Q VHD_BM_BAT_CLEAR s" if "\<not> (op = VHD_OP_DATA_WRITE \<and> vb_pbw_blk (vs_bat s) \<noteq> blk_of s sec \<and> bat_locked s)"
      by (rule q0) (use that clear in \<open>auto simp: cache_answer_def Let_def\<close>)
    ultimately show ?thesis using clear cfgD(4) [OF cfg] l by (simp add: read_bitmap_cache_def wps wp_get_entry Let_def)
  next
    case set
    have "Q VHD_BM_BIT_SET s" if "full_block s (blk_of s sec)"
      by (rule q0) (use that set in \<open>simp add: cache_answer_def Let_def\<close>)
    moreover have "wp (case get_bitmap s (blk_of s sec) of None \<Rightarrow> vret VHD_BM_NOT_CACHED
          | Some i \<Rightarrow> vthen (vmodify (touch_bitmap i))
               (vget (\<lambda>u. if rd_pending (the_bm u i) then vret VHD_BM_READ_PENDING
                  else vret (if vhd_bitmap_test (vctx u) (vbm_map (the_bm u i)) (unat (sec_of s sec))
                             then VHD_BM_BIT_SET else VHD_BM_BIT_CLEAR)))) Q E s" if "\<not> full_block s (blk_of s sec)"
    proof (cases "get_bitmap s (blk_of s sec)")
      case None
      have "Q VHD_BM_NOT_CACHED s" by (rule q0) (use None set in \<open>simp add: cache_answer_def Let_def\<close>)
      with None show ?thesis by (simp add: wps)
    next
      case (Some i)
      have "Q (if rd_pending (the_bm s i) then VHD_BM_READ_PENDING
           else if vhd_bitmap_test (vctx s) (vbm_map (the_bm s i)) (unat (sec_of s sec)) then VHD_BM_BIT_SET else VHD_BM_BIT_CLEAR) (touch_bitmap i s)"
        by (rule q1) (use Some set that in \<open>simp add: cache_answer_def Let_def\<close>)
      with Some show ?thesis by (simp add: wps split: if_splits)
    qed
    ultimately show ?thesis using set cfgD(4) [OF cfg] l
      by (simp add: read_bitmap_cache_def wps wp_get_entry Let_def wp_test_batmap [OF cfg b])
  qed
qed

lemma wp_read_bitmap_cache_span:
  assumes I: "inv s G Pd" and sec: "sec_ok s sec" and n: "0 < n"
    and a: "full_block s (blk_of s sec) \<or> (\<exists>i. get_bitmap s (blk_of s sec) = Some i \<and> bitmap_valid (the_bm s i) \<and>
      vhd_bitmap_test (vctx s) (vbm_map (the_bm s i)) (unat (sec_of s sec)) = v)"
    and Q: "\<And>k. 0 < k \<Longrightarrow> k \<le> n \<Longrightarrow> k \<le> blk_room s sec \<Longrightarrow> Q k s"
  shows "wp (read_bitmap_cache_span sec n v) Q E s"
proof -
  note cfg = invD(4) [OF I]
  have b: "unat (blk_of s sec) < n_blocks s" by (rule unat_blk_of [OF cfg sec])
  have r: "0 < blk_room s sec" by (rule unat_sec_of [OF cfg])
  have tw: "0 < length (takeWhile P [0..<min n (blk_room s sec)]) \<and> length (takeWhile P [0..<min n (blk_room s sec)]) \<le> min n (blk_room s sec)"
    if "P 0" for P
  proof -
    obtain m where "min n (blk_room s sec) = Suc m" using n r by (metis gr0_implies_Suc min_less_iff_conj)
    then have "[0..<min n (blk_room s sec)] = 0 # [1..<min n (blk_room s sec)]" by (simp add: upt_conv_Cons)
    then show ?thesis using that by (metis length_greater_0_conv length_takeWhile_le length_upt list.distinct(1) minus_nat.diff_0 takeWhile.simps(2))
  qed
  have fit: "Q (length (takeWhile P [0..<min n (blk_room s sec)])) s" if "P 0" for P
    using tw [of P, OF that] by (intro Q) auto
  show ?thesis
  proof (cases "full_block s (blk_of s sec)")
    case True
    with n r Q [of "min n (blk_room s sec)"] cfgD(4) [OF cfg] show ?thesis
      by (simp add: read_bitmap_cache_span_def wps wp_test_batmap [OF cfg b])
  next
    case False
    with a obtain i where i: "get_bitmap s (blk_of s sec) = Some i" "bitmap_valid (the_bm s i)"
      "vhd_bitmap_test (vctx s) (vbm_map (the_bm s i)) (unat (sec_of s sec)) = v" by blast
    have "Q (length (takeWhile (\<lambda>k. vhd_bitmap_test (vctx s) (vbm_map (the_bm s i)) (unat (sec_of s sec) + k) = v) [0..<min n (blk_room s sec)])) s"
      by (rule fit) (simp add: i(3))
    with False i(1,2) cfgD(4) [OF cfg] show ?thesis
      by (simp add: read_bitmap_cache_span_def wps wp_test_batmap [OF cfg b])
  qed
qed

end
