(* ===== verification/Block_Vhd_Phase.thy ===== *)
theory Block_Vhd_Phase
  imports Block_Vhd_Inv
begin

text \<open>
  The phases of a bitmap (\<open>bm_ok\<close>): introduction and elimination, and one lemma for every step a
  bitmap makes.
\<close>

lemma bm_okI:
  assumes "tx_live b \<longleftrightarrow> tx_started (vbm_tx b) \<noteq> 0" "tx_started (vbm_tx b) = tx_finished (vbm_tx b) + n"
    "rl_head (vbm_queue b) \<noteq> None \<Longrightarrow> tx_closed (vbm_tx b)" "tx_closed (vbm_tx b) \<Longrightarrow> tx_live b"
    "tx_closed (vbm_tx b) \<Longrightarrow> n = 0 \<Longrightarrow> wr_pending b \<or> lk \<and> tx_bat b \<and> tb"
    "tx_closed (vbm_tx b) \<Longrightarrow> n \<noteq> 0 \<Longrightarrow> lk \<and> e \<noteq> 0 \<and> \<not> wr_pending b \<and> tx_error (vbm_tx b) \<noteq> 0"
    "\<not> tx_closed (vbm_tx b) \<Longrightarrow> tx_live b \<Longrightarrow> n \<noteq> 0" "\<not> tx_closed (vbm_tx b) \<Longrightarrow> \<not> wr_pending b"
    "\<not> tx_live b \<Longrightarrow> vbm_tx b = tx_zero" "wr_pending b \<or> rd_pending b \<longleftrightarrow> bp"
    "rd_pending b \<Longrightarrow> \<not> tx_live b \<and> \<not> un \<and> \<not> wr_pending b" "rl_head (vbm_waiting b) \<noteq> None \<Longrightarrow> rd_pending b"
    "bitmap_in_use b \<Longrightarrow> bitmap_locked b" "bitmap_in_use b \<Longrightarrow> ins"
    "tx_live b \<Longrightarrow> tx_error (vbm_tx b) = 0 \<Longrightarrow> un \<Longrightarrow> lk" "tx_closed (vbm_tx b) \<Longrightarrow> un \<Longrightarrow> lk"
    "tx_bat b \<Longrightarrow> lk \<and> \<not> pr \<and> e = 0 \<and> un" "tx_error (vbm_tx b) \<noteq> 0 \<Longrightarrow> wr_pending b \<Longrightarrow> lk \<and> e \<noteq> 0"
  shows "bm_ok pr lk e tb un ins bp n b"
  unfolding bm_ok_def Let_def by (intro conjI; use assms in blast)

lemma bm_okD:
  assumes "bm_ok pr lk e tb un ins bp n b"
  shows "tx_live b \<longleftrightarrow> tx_started (vbm_tx b) \<noteq> 0" "tx_started (vbm_tx b) = tx_finished (vbm_tx b) + n"
    "rl_head (vbm_queue b) \<noteq> None \<Longrightarrow> tx_closed (vbm_tx b)" "tx_closed (vbm_tx b) \<Longrightarrow> tx_live b"
    "tx_closed (vbm_tx b) \<Longrightarrow> n = 0 \<Longrightarrow> wr_pending b \<or> lk \<and> tx_bat b \<and> tb"
    "tx_closed (vbm_tx b) \<Longrightarrow> n \<noteq> 0 \<Longrightarrow> lk \<and> e \<noteq> 0 \<and> \<not> wr_pending b \<and> tx_error (vbm_tx b) \<noteq> 0"
    "\<not> tx_closed (vbm_tx b) \<Longrightarrow> tx_live b \<Longrightarrow> n \<noteq> 0" "\<not> tx_closed (vbm_tx b) \<Longrightarrow> \<not> wr_pending b"
    "\<not> tx_live b \<Longrightarrow> vbm_tx b = tx_zero" "wr_pending b \<or> rd_pending b \<longleftrightarrow> bp"
    "rd_pending b \<Longrightarrow> \<not> tx_live b \<and> \<not> un \<and> \<not> wr_pending b" "rl_head (vbm_waiting b) \<noteq> None \<Longrightarrow> rd_pending b"
    "bitmap_in_use b \<Longrightarrow> bitmap_locked b" "bitmap_in_use b \<Longrightarrow> ins"
    "tx_live b \<Longrightarrow> tx_error (vbm_tx b) = 0 \<Longrightarrow> un \<Longrightarrow> lk" "tx_closed (vbm_tx b) \<Longrightarrow> un \<Longrightarrow> lk"
    "tx_bat b \<Longrightarrow> lk \<and> \<not> pr \<and> e = 0 \<and> un" "tx_error (vbm_tx b) \<noteq> 0 \<Longrightarrow> wr_pending b \<Longrightarrow> lk \<and> e \<noteq> 0"
  using assms unfolding bm_ok_def Let_def by blast+

lemma bm_ok_queue:
  assumes "bm_ok pr lk e tb un ins bp n b" and "tx_closed (vbm_tx b)" and "rl_head l \<noteq> None" and ins
  shows "bm_ok pr lk e tb un ins bp n (b\<lparr>vbm_status := set_vhd_flag (vbm_status b) VHD_FLAG_BM_LOCKED, vbm_queue := l\<rparr>)"
  by (rule bm_okI) (use bm_okD [OF assms(1)] assms(2-) in \<open>simp_all add: bitmap_locked_def bitmap_in_use_def\<close>)

lemma bm_ok_wait:
  assumes "bm_ok pr lk e tb un ins bp n b" and "rd_pending b" and ins
  shows "bm_ok pr lk e tb un ins bp n (b\<lparr>vbm_status := set_vhd_flag (vbm_status b) VHD_FLAG_BM_LOCKED, vbm_waiting := l\<rparr>)"
  by (rule bm_okI) (use bm_okD [OF assms(1)] assms(2-) in \<open>simp_all add: bitmap_locked_def bitmap_in_use_def\<close>)

lemma bm_ok_join:
  assumes "bm_ok pr lk e tb un ins bp n b" and "\<not> tx_closed (vbm_tx b)" and "\<not> rd_pending b" and "rl_head l \<noteq> None" and ins
    and "un \<Longrightarrow> lk"
  shows "bm_ok pr lk e tb un ins bp (Suc n) (b\<lparr>vbm_status := set_vhd_flag (vbm_status b) VHD_FLAG_BM_LOCKED,
     vbm_tx := (vbm_tx b)\<lparr>tx_started := tx_started (vbm_tx b) + 1, tx_requests := l,
       tx_status := set_vhd_flag (tx_status (vbm_tx b)) VHD_FLAG_TX_LIVE\<rparr>\<rparr>)"
  by (rule bm_okI) (use bm_okD [OF assms(1)] assms(2-) in \<open>simp_all add: bitmap_locked_def bitmap_in_use_def\<close>)
end
