(* ===== verification/Block_Vhd_Move.thy ===== *)
theory Block_Vhd_Move
  imports Block_Vhd_Ops Block_Vhd_Phase
begin

text \<open>
  Moving a request from one place to another: one lemma for the part of the invariant that does not
  look at phases (\<open>core_move\<close>), and its uses.
\<close>

section \<open>One request moves\<close>

text \<open>The parts of two states on which block numbers, the table and the bitmaps' identity depend.\<close>

definition same_frame :: "vhd_state \<Rightarrow> vhd_state \<Rightarrow> bool" where
  "same_frame s t \<longleftrightarrow> vs_flags t = vs_flags s \<and> vctx t = vctx s \<and> vs_spb t = vs_spb s \<and> vs_spp t = vs_spp s \<and>
     vs_bm_secs t = vs_bm_secs s \<and> vs_zsize t = vs_zsize s \<and> bat_entries (vb_bat (vs_bat t)) = bat_entries (vb_bat (vs_bat s)) \<and>
     length (bat_table t) = length (bat_table s) \<and> vb_batmap (vs_bat t) = vb_batmap (vs_bat s) \<and>
     vs_bitmap t = vs_bitmap s \<and> vs_bitmap_free t = vs_bitmap_free s \<and>
     (\<forall>i. vbm_blk (the_bm t i) = vbm_blk (the_bm s i) \<and> length (vbm_map (the_bm t i)) = length (vbm_map (the_bm s i)) \<and>
        length (vbm_shadow (the_bm t i)) = length (vbm_shadow (the_bm s i)))"

lemma same_frame_refl [simp]: "same_frame s s"
  by (simp add: same_frame_def)

lemma same_frameD:
  assumes "same_frame s t"
  shows "driver_cfg t = driver_cfg s" "cache_ok t = cache_ok s" "sec_ok t = sec_ok s" "blk_of t = blk_of s" "sec_of t = sec_of s"
    "in_block t = in_block s" "installed t = installed s" "prealloc t = prealloc s" "vbm_blk (the_bm t i) = vbm_blk (the_bm s i)"
    "n_blocks t = n_blocks s" "spb t = spb s" "vctx t = vctx s"
proof -
  note a = assms [unfolded same_frame_def]
  have "batmap_fits t b = batmap_fits s b" for b
    using a by (cases "bm_map b") (simp_all add: batmap_fits_def n_blocks_def)
  then show "driver_cfg t = driver_cfg s" using a by (simp add: driver_cfg_def n_blocks_def)
  show "cache_ok t = cache_ok s" using a by (simp add: cache_ok_def cached_bms_def n_blocks_def)
  show 1: "sec_ok t = sec_ok s" "blk_of t = blk_of s" "sec_of t = sec_of s" "n_blocks t = n_blocks s" "spb t = spb s"
    using a by (auto simp: fun_eq_iff sec_ok_def n_blocks_def blk_of_def sec_of_def)
  show "in_block t = in_block s" by (simp add: fun_eq_iff in_block_def 1)
  show "installed t = installed s" "prealloc t = prealloc s" "vbm_blk (the_bm t i) = vbm_blk (the_bm s i)" "vctx t = vctx s"
    using a by (auto simp: fun_eq_iff installed_def)
qed

text \<open>Requests other than \<open>r\<close> stay as they are, or, when they are on a list, change \<open>next\<close> only.\<close>

definition req_frame :: "vhd_state \<Rightarrow> vhd_state \<Rightarrow> ghost \<Rightarrow> rid \<Rightarrow> bool" where
  "req_frame s t G r \<longleftrightarrow> (\<forall>q. q \<noteq> r \<longrightarrow> vs_req t q = vs_req s q \<or>
     (g_own G q \<notin> {Free, Loose}) \<and> (\<exists>n. vs_req t q = (vs_req s q)\<lparr>vr_next := n\<rparr>))"

lemma core_move:
  assumes C: "core_ok s G Pd" and fr: "same_frame s t" and rq: "req_frame s t G r"
    and L: "lists_ok t G'" and P: "pool_ok t G'" and own: "g_own G' = (g_own G)(r := p)" and Pd: "Pd' - {r} = Pd - {r}"
    and st: "\<And>i. Bm_req i \<in> Pd \<Longrightarrow> rd_pending (the_bm t i) = rd_pending (the_bm s i)"
    and r: "is_data r \<and> dreq_ok t G' Pd' r \<or> r = Zero_req \<and> zero_ok t G' Pd' \<or> r = Bat_req \<and> batreq_ok t G' Pd'"
  shows "core_ok t G' Pd'"
proof -
  note f = same_frameD [OF fr]
  have C': "driver_cfg s" "cache_ok s" "reqs_ok s G Pd" using C by (simp_all add: core_ok_def)
  have pd: "q \<noteq> r \<Longrightarrow> q \<in> Pd' \<longleftrightarrow> q \<in> Pd" for q using Pd by blast
  have rc: "q = r \<or> vs_req t q = vs_req s q \<or> (g_own G q \<notin> {Free, Loose}) \<and> (\<exists>n. vs_req t q = (vs_req s q)\<lparr>vr_next := n\<rparr>)" for q
    using rq by (auto simp: req_frame_def)
  have rf: "vr_op (vs_req t q) = vr_op (vs_req s q)" "vr_flags (vs_req t q) = vr_flags (vs_req s q)"
    "vr_treq (vs_req t q) = vr_treq (vs_req s q)" "vr_tx (vs_req t q) = vr_tx (vs_req s q)" if "q \<noteq> r" for q
    using rc [of q] that by auto
  have "dreq_ok t G' Pd' q" if q: "is_data q" for q
  proof (cases "q = r")
    case True
    with r q show ?thesis by (auto simp: is_data_def)
  next
    case False
    have d: "dreq_ok s G Pd q" using C'(3) q by (simp add: reqs_ok_def)
    have tw: "tx_write t Pd' i q = tx_write s Pd i q" for i
      using False by (simp add: tx_write_def rf f pd Let_def)
    show ?thesis
      using d False rc [of q] by (cases "g_own G q") (auto simp: dreq_ok_def own f tw pd rf Let_def)
  qed
  moreover have "zero_ok t G' Pd'"
  proof (cases "r = Zero_req")
    case True
    with r show ?thesis by (simp add: is_data_def)
  next
    case False
    have "zero_ok s G Pd" using C'(3) by (simp add: reqs_ok_def)
    with False show ?thesis by (simp add: zero_ok_def own f pd rf Let_def)
  qed
  moreover have "batreq_ok t G' Pd'"
  proof (cases "r = Bat_req")
    case True
    with r show ?thesis by (simp add: is_data_def)
  next
    case False
    have "batreq_ok s G Pd" using C'(3) by (simp add: reqs_ok_def)
    with False show ?thesis by (simp add: batreq_ok_def own f pd rf Let_def)
  qed
  moreover have "bmreq_ok t Pd' i \<and> g_own G' (Bm_req i) = Idle" for i
  proof -
    have "r \<noteq> Bm_req i" using r by (auto simp: is_data_def)
    moreover have "bmreq_ok s Pd i" "g_own G (Bm_req i) = Idle" using C'(3) by (simp_all add: reqs_ok_def)
    ultimately show ?thesis using st [of i] by (auto simp: bmreq_ok_def own f pd rf Let_def)
  qed
  moreover have "Data k \<notin> Pd' \<and> g_own G' (Data k) = Idle" if "VHD_REQS_DATA \<le> k" for k
  proof -
    have "r \<noteq> Data k" using r that by (auto simp: is_data_def)
    with C'(3) that show ?thesis by (simp add: reqs_ok_def own pd)
  qed
  ultimately show ?thesis using C' L P by (simp add: core_ok_def f reqs_ok_def)
qed

section \<open>The pool\<close>

lemma own_data:
  assumes "reqs_ok s G Pd" and "g_own G r = p" and "p \<noteq> Idle" and "\<And>i. p \<noteq> In_tx i"
  shows "is_data r"
proof (rule ccontr)
  assume n: "\<not> is_data r"
  have "g_own G r = Idle \<or> (\<exists>i. g_own G r = In_tx i)"
  proof (cases r)
    case (Data k)
    with n have "VHD_REQS_DATA \<le> k" by (auto simp: is_data_def)
    with assms(1) Data show ?thesis by (simp add: reqs_ok_def)
  next
    case (Bm_req i)
    with assms(1) show ?thesis by (simp add: reqs_ok_def)
  next
    case Bat_req
    with assms(1) show ?thesis by (auto simp: reqs_ok_def batreq_ok_def Let_def split: if_splits)
  next
    case Zero_req
    with assms(1) show ?thesis by (auto simp: reqs_ok_def zero_ok_def Let_def split: if_splits)
  qed
  with assms(2-4) show False by auto
qed

lemma not_data [simp]: "\<not> is_data (Bm_req i)" "\<not> is_data Bat_req" "\<not> is_data Zero_req"
  by (simp_all add: is_data_def)

lemma finite_data: "finite {r. is_data r}" "card {r. is_data r} = VHD_REQS_DATA"
proof -
  have e: "{r. is_data r} = Data ` {..<VHD_REQS_DATA}" by (auto simp: is_data_def)
  show "finite {r. is_data r}" unfolding e by simp
  show "card {r. is_data r} = VHD_REQS_DATA" unfolding e by (simp add: card_image inj_on_def)
qed

lemma pool_room:
  assumes "reqs_ok s G Pd" and "pool_ok s G" and "distinct xs" and "set xs \<subseteq> {r. is_data r}" and "\<forall>r \<in> set xs. g_own G r \<noteq> Free"
  shows "length (vs_vreq_free s) + length xs \<le> VHD_REQS_DATA"
proof -
  have "set (vs_vreq_free s) \<subseteq> {r. is_data r}" using assms(1,2) own_data by (fastforce simp: pool_ok_def)
  moreover have "distinct (vs_vreq_free s @ xs)" using assms(2,3,5) by (auto simp: pool_ok_def)
  ultimately have "length (vs_vreq_free s @ xs) \<le> card {r. is_data r}"
    by (metis assms(4) card_mono distinct_card finite_data(1) le_sup_iff set_append)
  then show ?thesis by (simp add: finite_data)
qed

lemma tx_list_bound:
  assumes "reqs_ok s G Pd" and "lists_ok s G"
    and "listed p"
  shows "length (g_list G p) \<le> VHD_REQS_TOTAL"
proof -
  let ?A = "{r. is_data r} \<union> {Bat_req, Zero_req}"
  have c: "card ?A = VHD_REQS_DATA + 2" using finite_data by (subst card_Un_disjoint) auto
  have "r \<in> ?A" if "r \<in> set (g_list G p)" for r
  proof (cases "is_data r")
    case False
    have o: "g_own G r = p" using that listsD(3) [OF assms(2,3)] by simp
    show ?thesis
    proof (cases r)
      case (Data k)
      with o assms(1,3) False show ?thesis by (auto simp: reqs_ok_def is_data_def)
    next
      case (Bm_req j)
      with o assms(1,3) show ?thesis by (auto simp: reqs_ok_def)
    qed auto
  qed simp
  then have "card (set (g_list G p)) \<le> card ?A" using finite_data(1) by (intro card_mono) auto
  then show ?thesis using distinct_card [OF listsD(2) [OF assms(2,3)]]
    unfolding c by (simp add: VHD_REQS_TOTAL_def VHD_REQS_META_def)
qed

lemma wp_alloc_vhd_request:
  assumes I: "inv s G Pd" and none: "Q None s"
    and some: "\<And>r rs. vs_vreq_free s = r # rs \<Longrightarrow> is_data r \<Longrightarrow> g_own G r = Free \<Longrightarrow> r \<notin> Pd \<Longrightarrow>
      Q (Some r) (s\<lparr>vs_vreq_free := rs, vs_req := (vs_req s)(r := req_zero)\<rparr>)"
  shows "wp alloc_vhd_request Q E s"
proof (cases "vs_vreq_free s")
  case Nil
  with none show ?thesis by (simp add: alloc_vhd_request_def wps)
next
  case (Cons r rs)
  have o: "g_own G r = Free" using invD(7) [OF I] Cons by (auto simp: pool_ok_def)
  have d: "is_data r" using own_data [OF invD(8) [OF I] o] by simp
  have dd: "dreq_ok s G Pd r" using invD(8) [OF I] d by (simp add: reqs_ok_def)
  then have z: "vs_req s r = req_zero" "r \<notin> Pd" using o by (simp_all add: dreq_ok_def Let_def)
  show ?thesis using some [OF Cons d o z(2)] Cons z(1)
    by (simp add: alloc_vhd_request_def wps init_vhd_request_def upd_req_def req_zero_def td_zero_def)
qed

text \<open>A move of a data request that no transaction is concerned with.\<close>

lemma bat_ok_frame:
  assumes B: "bat_ok s G Pd" and v: "vb_status (vs_bat t) = vb_status (vs_bat s)" "vb_pbw_blk (vs_bat t) = vb_pbw_blk (vs_bat s)"
    and e: "bat_err t = bat_err s" "bat_tx t = bat_tx s" and z: "(Zero_req \<in> Pd') = (Zero_req \<in> Pd)" "(Bat_req \<in> Pd') = (Bat_req \<in> Pd)"
    and o: "g_own G' Zero_req = g_own G Zero_req" "g_own G' Bat_req = g_own G Bat_req" and fr: "same_frame s t"
    and un: "\<And>i. has_lock s i \<Longrightarrow> unalloc t i = unalloc s i"
    and bm: "\<And>i. has_lock s i \<Longrightarrow> vbm_tx (the_bm t i) = vbm_tx (the_bm s i) \<and> rd_pending (the_bm t i) = rd_pending (the_bm s i) \<and>
      wr_pending (the_bm t i) = wr_pending (the_bm s i)"
  shows "bat_ok t G' Pd'"
proof -
  note f = same_frameD [OF fr]
  have l: "bat_locked t = bat_locked s" using v by (simp add: bat_locked_def)
  have h: "has_lock t i = has_lock s i" for i using v l by (simp add: has_lock_def f)
  show ?thesis
  proof (cases "bat_locked s")
    case False
    with B l v e z show ?thesis by (simp add: bat_ok_def bat_idle_def)
  next
    case True
    with B obtain i where i: "has_lock s i" "unalloc s i" "tx_live (the_bm s i)" "\<not> rd_pending (the_bm s i)" "alloc_phase s G Pd i"
      by (auto simp: bat_ok_def)
    have "alloc_phase t G' Pd' i" using i(5) bm [OF i(1)] by (simp add: alloc_phase_def f v e z o Let_def)
    with i True l bm [OF i(1)] un [OF i(1)] h [of i] show ?thesis by (auto simp: bat_ok_def)
  qed
qed

lemma unalloc_frame: "same_frame s t \<Longrightarrow> bat_table t = bat_table s \<Longrightarrow> unalloc t i = unalloc s i"
  by (simp add: unalloc_def same_frameD)

lemma has_lock_frame:
  "same_frame s t \<Longrightarrow> vb_status (vs_bat t) = vb_status (vs_bat s) \<Longrightarrow> vb_pbw_blk (vs_bat t) = vb_pbw_blk (vs_bat s) \<Longrightarrow> has_lock t i = has_lock s i"
  by (simp add: has_lock_def bat_locked_def same_frameD)

lemma inv_aside:
  assumes I: "inv s G Pd" and C: "core_ok t G' Pd'" and fr: "same_frame s t" and r: "is_data r" "Pd' - {r} = Pd - {r}"
    and o: "g_own G' = (g_own G)(r := p)" "g_list G' = g_list G" "\<forall>i. g_own G r \<noteq> In_tx i"
    and v: "vs_bat t = vs_bat s" and q: "vs_req t Bat_req = vs_req s Bat_req" and bm: "\<And>i. bm_alike (the_bm t i) (the_bm s i)"
  shows "inv t G' Pd'"
proof -
  have pd: "q \<noteq> r \<Longrightarrow> q \<in> Pd' \<longleftrightarrow> q \<in> Pd" for q using r(2) by blast
  have bt: "bat_table t = bat_table s" using v by (simp add: bat_table_def)
  have n: "n_pending G' Pd' i = n_pending G Pd i" for i
  proof -
    have "r \<notin> set (g_tx G i)" using o(3) listsD(3) [OF invD(6) [OF I], of "In_tx i"] by simp
    then have "filter (\<lambda>q. q \<in> Pd') (g_tx G i) = filter (\<lambda>q. q \<in> Pd) (g_tx G i)"
      using pd by (intro filter_cong refl) metis
    then show ?thesis by (simp add: n_pending_def o(2))
  qed
  have ne: "Zero_req \<noteq> r" "Bat_req \<noteq> r" "Bm_req i \<noteq> r" for i using r(1) by auto
  have "bitmap_ok t G' Pd' i" for i
    by (rule bitmap_ok_frame [OF invD(2) [OF I] bm])
      (simp_all add: same_frameD [OF fr] unalloc_frame [OF fr bt] has_lock_frame [OF fr] v q n pd ne)
  moreover have "bat_ok t G' Pd'"
    using bm by (intro bat_ok_frame [OF invD(3) [OF I] _ _ _ _ _ _ _ _ fr])
      (simp_all add: v q pd ne o(1) unalloc_frame [OF fr bt] bm_alike_def)
  ultimately show ?thesis using C by (simp add: inv_def)
qed

text \<open>Taking a request from the pool, and giving one back.\<close>

lemma lists_unlinked:
  assumes "lists_ok s G" and "g_own G r \<in> {Free, Loose}" and "p \<in> {Free, Loose}"
    and "\<And>q. q \<noteq> r \<Longrightarrow> vs_req t q = vs_req s q" and "\<And>i. the_bm t i = the_bm s i"
  shows "lists_ok t (G\<lparr>g_own := (g_own G)(r := p)\<rparr>)"
proof -
  have n: "r \<notin> set (g_list G p)" if "listed p" for p using assms(1,2) that by (auto simp: listsD(3))
  have c: "rlist (nexts t) l xs = rlist (nexts s) l xs" if "r \<notin> set xs" for l xs
    by (rule rlist_cong) (use that assms(4) in metis)
  have s: "{q. (if q = r then p else g_own G q) = x} = {q. g_own G q = x}" if "listed x" for x
    using that assms(2,3) by auto
  have l: "list_at t p = list_at s p" for p using assms(5) by (cases p) simp_all
  show ?thesis using assms(1) n by (simp add: lists_ok_def l c s)
qed

lemma inv_take:
  assumes I: "inv s G Pd" and free: "vs_vreq_free s = r # rs"
    and R: "vr_tx R = None" "vr_next R = None" "\<not> test_vhd_flag (vr_flags R) VHD_FLAG_REQ_QUEUED"
      "\<not> test_vhd_flag (vr_flags R) VHD_FLAG_REQ_FINISHED" "sec_ok s (td_sec (vr_treq R))"
      "vr_op R \<in> {VHD_OP_DATA_READ, VHD_OP_DATA_WRITE, VHD_OP_REDUNDANT_BM_WRITE}"
  shows "inv (s\<lparr>vs_vreq_free := rs, vs_req := (vs_req s)(r := R)\<rparr>) (G\<lparr>g_own := (g_own G)(r := Loose)\<rparr>) (insert r Pd)"
    (is "inv ?t ?G ?P")
proof -
  have o: "g_own G r = Free" using invD(7) [OF I] free by (auto simp: pool_ok_def)
  have d: "is_data r" using own_data [OF invD(8) [OF I] o] by simp
  have fr: "same_frame s ?t" by (simp add: same_frame_def bat_table_def)
  have L: "lists_ok ?t ?G" by (rule lists_unlinked [OF invD(6) [OF I]]) (simp_all add: o)
  have P: "pool_ok ?t ?G" using invD(7) [OF I] free by (auto simp: pool_ok_def)
  have "core_ok ?t ?G ?P"
  proof (rule core_move [OF invD(1) [OF I] fr _ L P, of r Loose])
    show "is_data r \<and> dreq_ok ?t ?G ?P r \<or> r = Zero_req \<and> zero_ok ?t ?G ?P \<or> r = Bat_req \<and> batreq_ok ?t ?G ?P"
      using d R by (simp add: dreq_ok_def same_frameD [OF fr] Let_def)
  qed (auto simp: req_frame_def)
  then show ?thesis by (rule inv_aside [OF I _ fr d]) (use d o in \<open>auto simp: fun_upd_def\<close>)
qed

lemma inv_give:
  assumes I: "inv s G Pd" and o: "g_own G r = Loose"
  shows "inv (s\<lparr>vs_req := (vs_req s)(r := req_zero), vs_vreq_free := r # vs_vreq_free s\<rparr>) (G\<lparr>g_own := (g_own G)(r := Free)\<rparr>) (Pd - {r})"
    (is "inv ?t ?G ?P")
    and "length (vs_vreq_free s) < VHD_REQS_DATA"
proof -
  have d: "is_data r" using own_data [OF invD(8) [OF I] o] by simp
  have fr: "same_frame s ?t" by (simp add: same_frame_def bat_table_def)
  have L: "lists_ok ?t ?G" by (rule lists_unlinked [OF invD(6) [OF I]]) (simp_all add: o)
  have P: "pool_ok ?t ?G" using invD(7) [OF I] o by (auto simp: pool_ok_def)
  have "core_ok ?t ?G ?P"
  proof (rule core_move [OF invD(1) [OF I] fr _ L P, of r Free])
    show "is_data r \<and> dreq_ok ?t ?G ?P r \<or> r = Zero_req \<and> zero_ok ?t ?G ?P \<or> r = Bat_req \<and> batreq_ok ?t ?G ?P"
      using d by (simp add: dreq_ok_def)
  qed (auto simp: req_frame_def)
  then show "inv ?t ?G ?P" by (rule inv_aside [OF I _ fr d]) (use d o in auto)
  show "length (vs_vreq_free s) < VHD_REQS_DATA"
    using pool_room [OF invD(8) [OF I] invD(7) [OF I], of "[r]"] o d by simp
qed

section \<open>Lists\<close>

lemma lists_link:
  assumes L: "lists_ok s G" and r: "\<not> listed (g_own G r)" and p: "listed p"
    and h: "rlist (nexts t) (list_at t p) (g_list G p @ [r])"
    and n: "\<And>q. q \<noteq> r \<Longrightarrow> q \<notin> set (g_list G p) \<Longrightarrow> nexts t q = nexts s q"
    and o: "\<And>p'. p' \<noteq> p \<Longrightarrow> listed p' \<Longrightarrow> list_at t p' = list_at s p'"
  shows "lists_ok t (G\<lparr>g_own := (g_own G)(r := p), g_list := (g_list G)(p := g_list G p @ [r])\<rparr>)"
  unfolding lists_ok_def
proof (intro allI impI)
  fix x assume x: "listed x"
  note l = listsD [OF L x]
  show "rlist (nexts t) (list_at t x) (g_list (G\<lparr>g_own := (g_own G)(r := p), g_list := (g_list G)(p := g_list G p @ [r])\<rparr>) x) \<and>
      distinct (g_list (G\<lparr>g_own := (g_own G)(r := p), g_list := (g_list G)(p := g_list G p @ [r])\<rparr>) x) \<and>
      set (g_list (G\<lparr>g_own := (g_own G)(r := p), g_list := (g_list G)(p := g_list G p @ [r])\<rparr>) x) =
      {q. g_own (G\<lparr>g_own := (g_own G)(r := p), g_list := (g_list G)(p := g_list G p @ [r])\<rparr>) q = x}"
  proof (cases "x = p")
    case True
    have "r \<notin> set (g_list G p)" using r p l(3) True by auto
    with True l h show ?thesis by auto
  next
    case False
    have nr: "r \<notin> set (g_list G x)" using r x l(3) by auto
    have "nexts t q = nexts s q" if "q \<in> set (g_list G x)" for q
      using n [of q] that nr False l(3) listsD(3) [OF L p] by auto
    then have "rlist (nexts t) (list_at t x) (g_list G x)"
      using rlist_cong [of "g_list G x" "nexts t" "nexts s"] l(1) o [OF False x] by simp
    moreover have "set (g_list G x) = {q. (if q = r then p else g_own G q) = x}" using l(3) nr False by auto
    ultimately show ?thesis using l(2) False by simp
  qed
qed

lemma lists_unlink:
  assumes L: "lists_ok s G" and r: "g_own G r = p" and p: "listed p" and y: "\<not> listed y"
    and h: "rlist (nexts t) (list_at t p) (remove1 r (g_list G p))"
    and n: "\<And>q. q \<noteq> r \<Longrightarrow> q \<notin> set (g_list G p) \<Longrightarrow> nexts t q = nexts s q"
    and o: "\<And>p'. p' \<noteq> p \<Longrightarrow> listed p' \<Longrightarrow> list_at t p' = list_at s p'"
  shows "lists_ok t (G\<lparr>g_own := (g_own G)(r := y), g_list := (g_list G)(p := remove1 r (g_list G p))\<rparr>)"
  unfolding lists_ok_def
proof (intro allI impI)
  fix x assume x: "listed x"
  note l = listsD [OF L x]
  show "rlist (nexts t) (list_at t x) (g_list (G\<lparr>g_own := (g_own G)(r := y), g_list := (g_list G)(p := remove1 r (g_list G p))\<rparr>) x) \<and>
      distinct (g_list (G\<lparr>g_own := (g_own G)(r := y), g_list := (g_list G)(p := remove1 r (g_list G p))\<rparr>) x) \<and>
      set (g_list (G\<lparr>g_own := (g_own G)(r := y), g_list := (g_list G)(p := remove1 r (g_list G p))\<rparr>) x) =
      {q. g_own (G\<lparr>g_own := (g_own G)(r := y), g_list := (g_list G)(p := remove1 r (g_list G p))\<rparr>) q = x}"
  proof (cases "x = p")
    case True
    have "set (remove1 r (g_list G p)) = set (g_list G p) - {r}" using l(2) True by simp
    with True l h y p show ?thesis by auto
  next
    case False
    have nr: "r \<notin> set (g_list G x)" using r False l(3) by auto
    have "nexts t q = nexts s q" if "q \<in> set (g_list G x)" for q
      using n [of q] that nr False l(3) listsD(3) [OF L p] by auto
    then have "rlist (nexts t) (list_at t x) (g_list G x)"
      using rlist_cong [of "g_list G x" "nexts t" "nexts s"] l(1) o [OF False x] by simp
    moreover have "set (g_list G x) = {q. (if q = r then y else g_own G q) = x}" using l(3) nr y x by auto
    ultimately show ?thesis using l(2) False by simp
  qed
qed

text \<open>The requests a loop holds, as they are in the state.\<close>

definition parked :: "vhd_state \<Rightarrow> ghost \<Rightarrow> rid \<Rightarrow> vhd_request option" where
  "parked s G r = (if g_own G r = Parked then Some (vs_req s r) else None)"

lemma parked_cong:
  assumes "\<And>r. g_own G' r = Parked \<longleftrightarrow> g_own G r = Parked" and "\<And>r. g_own G r = Parked \<Longrightarrow> vs_req t r = vs_req s r"
  shows "parked t G' = parked s G"
  using assms by (auto simp: parked_def fun_eq_iff)

fun bm_of :: "place \<Rightarrow> nat" where
  "bm_of (In_tx i) = i" | "bm_of (In_queue i) = i" | "bm_of (In_wait i) = i" | "bm_of p = 0"

definition placed :: "ghost \<Rightarrow> rid \<Rightarrow> place \<Rightarrow> ghost" where
  "placed G r p = G\<lparr>g_own := (g_own G)(r := p), g_list := (g_list G)(p := g_list G p @ [r])\<rparr>"

lemma parked_placed:
  assumes "lists_ok s G" and "listed p" and "g_own G r \<noteq> Parked"
    and "\<And>q. q \<noteq> r \<Longrightarrow> vs_req t q = (if g_list G p \<noteq> [] \<and> q = last (g_list G p) then (vs_req s q)\<lparr>vr_next := Some r\<rparr> else vs_req s q)"
  shows "parked t (placed G r p) = parked s G"
proof (rule parked_cong)
  have "p \<noteq> Parked" using assms(2) by auto
  then show "g_own (placed G r p) q = Parked \<longleftrightarrow> g_own G q = Parked" for q using assms(3) by (simp add: placed_def)
  show "vs_req t q = vs_req s q" if "g_own G q = Parked" for q
  proof -
    have "q \<noteq> r" using that assms(3) by auto
    moreover have "g_list G p \<noteq> [] \<Longrightarrow> q \<noteq> last (g_list G p)"
      using that listsD(3) [OF assms(1,2), of q] \<open>p \<noteq> Parked\<close> by auto
    ultimately show ?thesis using assms(4) [of q] by auto
  qed
qed

text \<open>What joining a list leaves alone, as far as the account of sectors goes.\<close>

definition quietly :: "vhd_state \<Rightarrow> ghost \<Rightarrow> vhd_state \<Rightarrow> ghost \<Rightarrow> bool" where
  "quietly s G t G' \<longleftrightarrow> same_frame s t \<and> vs_out t = vs_out s \<and> vs_aio t = vs_aio s \<and> bat_table t = bat_table s \<and> parked t G' = parked s G \<and>
     (\<forall>i. rd_pending (the_bm t i) = rd_pending (the_bm s i)) \<and>
     (\<forall>q. is_data q \<longrightarrow> (g_own G' q = Free) = (g_own G q = Free) \<and> vr_op (vs_req t q) = vr_op (vs_req s q) \<and> vr_treq (vs_req t q) = vr_treq (vs_req s q))"

lemma bat_ok_step:
  assumes B: "bat_ok s G Pd" and l: "bat_locked t = bat_locked s" and idle: "bat_idle s Pd \<Longrightarrow> \<not> bat_locked s \<Longrightarrow> bat_idle t Pd'"
    and step: "\<And>i. has_lock s i \<Longrightarrow> unalloc s i \<Longrightarrow> tx_live (the_bm s i) \<Longrightarrow> \<not> rd_pending (the_bm s i) \<Longrightarrow> alloc_phase s G Pd i \<Longrightarrow>
      has_lock t i \<and> unalloc t i \<and> tx_live (the_bm t i) \<and> \<not> rd_pending (the_bm t i) \<and> alloc_phase t G' Pd' i"
  shows "bat_ok t G' Pd'"
proof (cases "bat_locked s")
  case False
  with B l idle show ?thesis by (simp add: bat_ok_def)
next
  case True
  with B obtain i where "has_lock s i" "unalloc s i" "tx_live (the_bm s i)" "\<not> rd_pending (the_bm s i)" "alloc_phase s G Pd i"
    by (auto simp: bat_ok_def)
  from step [OF this] True l show ?thesis by (auto simp: bat_ok_def)
qed

lemma alloc_phase_frame:
  assumes "alloc_phase s G Pd i" and "prealloc t = prealloc s" "bat_started t = bat_started s" "bat_err t = bat_err s" "bat_tx t = bat_tx s"
    and "(Zero_req \<in> Pd') = (Zero_req \<in> Pd)" "(Bat_req \<in> Pd') = (Bat_req \<in> Pd)"
    and "g_own G' Zero_req = g_own G Zero_req" "g_own G' Bat_req = g_own G Bat_req"
    and "tx_bat (the_bm t i) = tx_bat (the_bm s i)" "wr_pending (the_bm t i) = wr_pending (the_bm s i)"
    and c: "tx_closed (vbm_tx (the_bm t i)) = tx_closed (vbm_tx (the_bm s i))"
    and o: "tx_closed (vbm_tx (the_bm s i)) \<Longrightarrow> (tx_started (vbm_tx (the_bm t i)) = tx_finished (vbm_tx (the_bm t i))) =
      (tx_started (vbm_tx (the_bm s i)) = tx_finished (vbm_tx (the_bm s i))) \<and> (tx_error (vbm_tx (the_bm t i)) = 0) = (tx_error (vbm_tx (the_bm s i)) = 0)"
  shows "alloc_phase t G' Pd' i"
proof (cases "tx_closed (vbm_tx (the_bm s i))")
  case True
  from assms(1-11) c o [OF True] True show ?thesis by (cases "prealloc s") (simp_all add: alloc_phase_def Let_def)
next
  case False
  from assms(1-11) c False show ?thesis by (cases "prealloc s") (simp_all add: alloc_phase_def Let_def)
qed

text \<open>A data request that is on its own joins the list at the end of place \<open>p\<close> of bitmap \<open>i\<close>.\<close>

lemma inv_joined:
  assumes I: "inv s G Pd" and r: "g_own G r = Loose" and p: "listed p" "bm_of p = i" and Pd: "Pd' - {r} = Pd - {r}"
    and rl: "rlist (nexts t) (list_at t p) (g_list G p @ [r])"
    and rq: "\<And>q. q \<noteq> r \<Longrightarrow> vs_req t q = (if g_list G p \<noteq> [] \<and> q = last (g_list G p) then (vs_req s q)\<lparr>vr_next := Some r\<rparr> else vs_req s q)"
    and trq: "vr_op (vs_req t r) = vr_op (vs_req s r)" "vr_treq (vs_req t r) = vr_treq (vs_req s r)"
    and bm: "\<And>j. j \<noteq> i \<Longrightarrow> the_bm t j = the_bm s j" and lo: "\<And>p'. p' \<noteq> p \<Longrightarrow> listed p' \<Longrightarrow> list_at t p' = list_at s p'"
    and fr: "same_frame s t" and v: "vs_bat t = vs_bat s" "vs_vreq_free t = vs_vreq_free s" "vs_out t = vs_out s" "vs_aio t = vs_aio s"
    and st: "rd_pending (the_bm t i) = rd_pending (the_bm s i)" "wr_pending (the_bm t i) = wr_pending (the_bm s i)"
      "tx_bat (the_bm t i) = tx_bat (the_bm s i)" "tx_live (the_bm s i) \<Longrightarrow> tx_live (the_bm t i)"
      "tx_closed (vbm_tx (the_bm t i)) = tx_closed (vbm_tx (the_bm s i))"
      "tx_closed (vbm_tx (the_bm s i)) \<Longrightarrow> vbm_tx (the_bm t i) = vbm_tx (the_bm s i)"
    and dat: "dreq_ok t (placed G r p) Pd' r"
    and bi: "bm_ok (prealloc s) (has_lock s i) (bat_err s) (bat_tx s = Some i) (unalloc s i) (installed s i) (Bm_req i \<in> Pd)
      (n_pending (placed G r p) Pd' i) (the_bm t i)"
  shows "inv t (placed G r p) Pd'" and "quietly s G t (placed G r p)"
proof -
  let ?xs = "g_list G p"
  note Lx = listsD [OF invD(6) [OF I] p(1)]
  have d: "is_data r" using own_data [OF invD(8) [OF I] r] by simp
  have nin: "r \<notin> set ?xs" using Lx(3) r p(1) by auto
  have lx: "?xs \<noteq> [] \<Longrightarrow> last ?xs \<in> set ?xs" by simp
  have pd: "q \<noteq> r \<Longrightarrow> q \<in> Pd' \<longleftrightarrow> q \<in> Pd" for q using Pd by blast
  have bt: "bat_table t = bat_table s" using v by (simp add: bat_table_def)
  have nb: "Bat_req \<noteq> r" "Zero_req \<noteq> r" "Bm_req j \<noteq> r" for j using d by auto
  have L: "lists_ok t (placed G r p)" unfolding placed_def
  proof (rule lists_link [OF invD(6) [OF I] _ p(1) rl])
    show "nexts t q = nexts s q" if "q \<noteq> r" "q \<notin> set ?xs" for q using that lx rq [of q] by auto
  qed (use r lo in simp_all)
  have C: "core_ok t (placed G r p) Pd'"
  proof (rule core_move [OF invD(1) [OF I] fr _ L, of r p])
    have "g_own G (last ?xs) \<notin> {Free, Loose}" if "?xs \<noteq> []" using lx [OF that] Lx(3) p(1) by auto
    then have "vs_req t q = vs_req s q \<or> g_own G q \<notin> {Free, Loose} \<and> (\<exists>n. vs_req t q = (vs_req s q)\<lparr>vr_next := n\<rparr>)" if "q \<noteq> r" for q
      using rq [OF that] by (cases "?xs \<noteq> [] \<and> q = last ?xs") (simp_all, blast)
    then show "req_frame s t G r" by (simp add: req_frame_def)
    have "p \<noteq> Free" using p(1) by auto
    then have "(g_own (placed G r p) q = Free) = (g_own G q = Free)" for q using r by (simp add: placed_def)
    then show "pool_ok t (placed G r p)" using invD(7) [OF I] by (simp add: pool_ok_def v)
    show "rd_pending (the_bm t j) = rd_pending (the_bm s j)" for j using bm [of j] st(1) by (cases "j = i") simp_all
  qed (use d dat Pd in \<open>simp_all add: placed_def\<close>)
  have ul: "unalloc t j = unalloc s j" "has_lock t j = has_lock s j" for j
    using unalloc_frame [OF fr bt] has_lock_frame [OF fr] by (simp_all add: v)
  have be: "bat_err t = bat_err s" "bat_tx t = bat_tx s" using rq [of Bat_req] nb by auto
  have np: "n_pending (placed G r p) Pd' j = n_pending G Pd j" if "j \<noteq> i" for j
  proof -
    have "p \<noteq> In_tx j" using p that by auto
    moreover have "r \<notin> set (g_tx G j)" using r listsD(3) [OF invD(6) [OF I], of "In_tx j"] by simp
    then have "filter (\<lambda>q. q \<in> Pd') (g_tx G j) = filter (\<lambda>q. q \<in> Pd) (g_tx G j)"
      using pd by (intro filter_cong refl) metis
    ultimately show ?thesis by (simp add: n_pending_def placed_def)
  qed
  have "bitmap_ok t (placed G r p) Pd' j" for j
  proof (cases "j = i")
    case False
    then show ?thesis
      by (intro bitmap_ok_frame [OF invD(2) [OF I]]) (simp_all add: bm same_frameD [OF fr] ul be np pd nb)
  next
    case True
    with bi show ?thesis by (simp add: bitmap_ok_def same_frameD [OF fr] ul be pd nb)
  qed
  moreover have "bat_ok t (placed G r p) Pd'"
  proof (rule bat_ok_step [OF invD(3) [OF I]])
    show "bat_locked t = bat_locked s" by (simp add: bat_locked_def v)
    show "bat_idle s Pd \<Longrightarrow> bat_idle t Pd'" by (simp add: bat_idle_def v be pd nb)
    fix j assume a: "has_lock s j" "unalloc s j" "tx_live (the_bm s j)" "\<not> rd_pending (the_bm s j)" "alloc_phase s G Pd j"
    have same: "tx_bat (the_bm t j) = tx_bat (the_bm s j)" "wr_pending (the_bm t j) = wr_pending (the_bm s j)"
      "rd_pending (the_bm t j) = rd_pending (the_bm s j)" "tx_live (the_bm s j) \<Longrightarrow> tx_live (the_bm t j)"
      "tx_closed (vbm_tx (the_bm t j)) = tx_closed (vbm_tx (the_bm s j))"
      "tx_closed (vbm_tx (the_bm s j)) \<Longrightarrow> vbm_tx (the_bm t j) = vbm_tx (the_bm s j)"
      using bm [of j] st by (cases "j = i"; simp)+
    have "alloc_phase t (placed G r p) Pd' j"
      by (rule alloc_phase_frame [OF a(5)]) (use same in \<open>auto simp: same_frameD [OF fr] v be nb pd placed_def\<close>)
    with a same show "has_lock t j \<and> unalloc t j \<and> tx_live (the_bm t j) \<and> \<not> rd_pending (the_bm t j) \<and> alloc_phase t (placed G r p) Pd' j"
      by (simp add: ul)
  qed
  ultimately show "inv t (placed G r p) Pd'" using C by (simp add: inv_def)
  have "vr_op (vs_req t q) = vr_op (vs_req s q)" "vr_treq (vs_req t q) = vr_treq (vs_req s q)" for q
    using trq rq [of q] by (cases "q = r"; simp)+
  moreover have "rd_pending (the_bm t j) = rd_pending (the_bm s j)" for j using bm [of j] st(1) by (cases "j = i") simp_all
  moreover have "parked t (placed G r p) = parked s G" by (rule parked_placed [OF invD(6) [OF I] p(1)]) (use r rq in auto)
  ultimately show "quietly s G t (placed G r p)" using fr r p(1) by (auto simp: quietly_def v bt placed_def)
qed

lemma loose_req:
  assumes "inv s G Pd" and "g_own G r = Loose"
  shows "is_data r" "r \<in> Pd" "vr_next (vs_req s r) = None" "vr_tx (vs_req s r) = None" "sec_ok s (td_sec (vr_treq (vs_req s r)))"
    "\<not> test_vhd_flag (vr_flags (vs_req s r)) VHD_FLAG_REQ_QUEUED" "\<not> test_vhd_flag (vr_flags (vs_req s r)) VHD_FLAG_REQ_FINISHED"
    "vr_op (vs_req s r) \<in> {VHD_OP_DATA_READ, VHD_OP_DATA_WRITE, VHD_OP_REDUNDANT_BM_WRITE}"
    "listed p \<Longrightarrow> r \<notin> set (g_list G p)"
proof -
  show d: "is_data r" using own_data [OF invD(8) [OF assms(1)] assms(2)] by simp
  have "dreq_ok s G Pd r" using invD(8) [OF assms(1)] d by (simp add: reqs_ok_def)
  then show "r \<in> Pd" "vr_next (vs_req s r) = None" "vr_tx (vs_req s r) = None" "sec_ok s (td_sec (vr_treq (vs_req s r)))"
    "\<not> test_vhd_flag (vr_flags (vs_req s r)) VHD_FLAG_REQ_QUEUED" "\<not> test_vhd_flag (vr_flags (vs_req s r)) VHD_FLAG_REQ_FINISHED"
    "vr_op (vs_req s r) \<in> {VHD_OP_DATA_READ, VHD_OP_DATA_WRITE, VHD_OP_REDUNDANT_BM_WRITE}"
    using assms(2) by (simp_all add: dreq_ok_def Let_def)
  show "listed p \<Longrightarrow> r \<notin> set (g_list G p)" using listsD(3) [OF invD(6) [OF assms(1)]] assms(2) by auto
qed

text \<open>Joining the transaction of a bitmap: the open one, or, when it is closed, the queue for the next.\<close>

lemma wp_join_open:
  assumes I: "inv s G Pd" and r: "g_own G r = Loose" and w: "vr_op (vs_req s r) = VHD_OP_DATA_WRITE"
    and b: "in_block s (vbm_blk (the_bm s i)) (vr_treq (vs_req s r))" and inst: "installed s i"
    and nr: "\<not> rd_pending (the_bm s i)" and op: "\<not> tx_closed (vbm_tx (the_bm s i))" and un: "unalloc s i \<Longrightarrow> has_lock s i"
    and Q: "\<And>t G'. inv t G' Pd \<Longrightarrow> quietly s G t G' \<Longrightarrow> Q () t"
  shows "wp (join_transaction i r) Q E s"
proof -
  let ?xs = "g_tx G i"
  let ?s1 = "lock_bitmap i s"
  let ?s2 = "upd_tx i (\<lambda>t. t\<lparr>tx_started := tx_started t + 1\<rparr>) (upd_req r (\<lambda>q. q\<lparr>vr_tx := Some i\<rparr>) ?s1)"
  note Lx = listsD [OF invD(6) [OF I], of "In_tx i", simplified]
  note lr = loose_req [OF I r]
  have nin: "r \<notin> set ?xs" by (rule lr(9)) simp
  have n2: "nexts ?s2 = nexts s" by (auto simp: fun_eq_iff upds lock_bitmap_def)
  have goal: "Q () (upd_tx i (\<lambda>t. t\<lparr>tx_requests := l', tx_status := set_vhd_flag (tx_status t) VHD_FLAG_TX_LIVE\<rparr>) t)" (is "Q () ?t")
    if t: "t = (if ?xs = [] then ?s2 else upd_req (last ?xs) (\<lambda>q. q\<lparr>vr_next := Some r\<rparr>) ?s2)"
      and rl: "rlist (nexts t) l' (?xs @ [r])" for t l'
  proof -
    have lx: "?xs \<noteq> [] \<Longrightarrow> last ?xs \<in> set ?xs" by simp
    have rqt: "vs_req ?t q = (if q = r then (vs_req s r)\<lparr>vr_tx := Some i\<rparr> else if ?xs \<noteq> [] \<and> q = last ?xs
        then (vs_req s q)\<lparr>vr_next := Some r\<rparr> else vs_req s q)" for q
      using lx nin by (auto simp: t upds lock_bitmap_def)
    have bmt: "the_bm ?t j = (if j = i then (the_bm s i)\<lparr>vbm_status := set_vhd_flag (vbm_status (the_bm s i)) VHD_FLAG_BM_LOCKED,
        vbm_tx := (vbm_tx (the_bm s i))\<lparr>tx_started := tx_started (vbm_tx (the_bm s i)) + 1, tx_requests := l',
          tx_status := set_vhd_flag (tx_status (vbm_tx (the_bm s i))) VHD_FLAG_TX_LIVE\<rparr>\<rparr> else the_bm s j)" for j
      by (simp add: t upds lock_bitmap_def)
    have rest: "vs_flags ?t = vs_flags s" "vs_vhd ?t = vs_vhd s" "vs_spb ?t = vs_spb s" "vs_spp ?t = vs_spp s" "vs_bm_secs ?t = vs_bm_secs s"
      "vs_zsize ?t = vs_zsize s" "vs_bat ?t = vs_bat s" "vs_bitmap ?t = vs_bitmap s" "vs_bitmap_free ?t = vs_bitmap_free s"
      "vs_vreq_free ?t = vs_vreq_free s" "vs_out ?t = vs_out s" "vs_aio ?t = vs_aio s" "nexts ?t = nexts t"
      by (simp_all add: t upds lock_bitmap_def)
    have fr: "same_frame s ?t" by (simp add: same_frame_def rest bmt bat_table_def)
    have np: "n_pending (placed G r (In_tx i)) Pd i = Suc (n_pending G Pd i)" using lr(2) by (simp add: n_pending_def placed_def)
    have dat: "dreq_ok ?t (placed G r (In_tx i)) Pd r"
      using w b lr by (simp add: dreq_ok_def tx_write_def rqt same_frameD [OF fr] Let_def placed_def)
    have bi: "bm_ok (prealloc s) (has_lock s i) (bat_err s) (bat_tx s = Some i) (unalloc s i) (installed s i) (Bm_req i \<in> Pd)
      (n_pending (placed G r (In_tx i)) Pd i) (the_bm ?t i)"
      using bm_ok_join [OF invD(2) [OF I, unfolded bitmap_ok_def] op nr _ inst un, of l'] rlist_head [OF rl] by (simp add: bmt np)
    have lo: "list_at ?t p' = list_at s p'" if "p' \<noteq> In_tx i" for p' using that by (cases p') (auto simp: bmt)
    have "inv ?t (placed G r (In_tx i)) Pd \<and> quietly s G ?t (placed G r (In_tx i))"
      by (intro conjI inv_joined [OF I r _ _ refl _ _ _ _ _ lo fr _ _ _ _ _ _ _ _ _ _ dat bi])
        (use rl op in \<open>simp_all add: rest bmt, simp_all add: rqt\<close>)
    then show ?thesis using Q by blast
  qed
  have l1: "tx_closed (vbm_tx (the_bm ?s1 i)) = tx_closed (vbm_tx (the_bm s i))"
    "tx_requests (vbm_tx (the_bm ?s1 i)) = tx_requests (vbm_tx (the_bm s i))" by (simp_all add: lock_bitmap_def upd_bm_def)
  have nx2: "nexts ?s2 r = None" by (rule trans [OF fun_cong [OF n2] lr(3)])
  have rl2: "rlist (nexts ?s2) (tx_requests (vbm_tx (the_bm ?s1 i))) ?xs" using Lx(1) unfolding n2 l1 .
  have "wp (add_to_transaction i r) Q E ?s1"
    unfolding add_to_transaction_def wps
    by (intro conjI wp_add_to_tail [OF rl2 nin Lx(2) nx2] goal) (simp_all add: l1 op)
  then show ?thesis
    unfolding join_transaction_def wps by (simp add: l1 op)
qed

lemma wp_join_closed:
  assumes I: "inv s G Pd" and r: "g_own G r = Loose" and w: "vr_op (vs_req s r) = VHD_OP_DATA_WRITE"
    and b: "in_block s (vbm_blk (the_bm s i)) (vr_treq (vs_req s r))" and inst: "installed s i"
    and cl: "tx_closed (vbm_tx (the_bm s i))"
    and Q: "\<And>t G'. inv t G' Pd \<Longrightarrow> quietly s G t G' \<Longrightarrow> Q () t"
  shows "wp (join_transaction i r) Q E s"
proof -
  let ?xs = "g_list G (In_queue i)"
  let ?s1 = "lock_bitmap i s"
  note Lx = listsD [OF invD(6) [OF I], of "In_queue i", simplified]
  note lr = loose_req [OF I r]
  have nin: "r \<notin> set ?xs" by (rule lr(9)) simp
  have n2: "nexts ?s1 = nexts s" by (auto simp: fun_eq_iff upds lock_bitmap_def)
  have goal: "Q () (upd_req r (\<lambda>q. q\<lparr>vr_flags := set_vhd_flag (vr_flags q) VHD_FLAG_REQ_QUEUED\<rparr>) (upd_bm i (\<lambda>b. b\<lparr>vbm_queue := l'\<rparr>) t))" (is "Q () ?t")
    if t: "t = (if ?xs = [] then ?s1 else upd_req (last ?xs) (\<lambda>q. q\<lparr>vr_next := Some r\<rparr>) ?s1)"
      and rl: "rlist (nexts t) l' (?xs @ [r])" for t l'
  proof -
    have lx: "?xs \<noteq> [] \<Longrightarrow> last ?xs \<in> set ?xs" by simp
    have rqt: "vs_req ?t q = (if q = r then (vs_req s r)\<lparr>vr_flags := set_vhd_flag (vr_flags (vs_req s r)) VHD_FLAG_REQ_QUEUED\<rparr>
        else if ?xs \<noteq> [] \<and> q = last ?xs then (vs_req s q)\<lparr>vr_next := Some r\<rparr> else vs_req s q)" for q
      using lx nin by (auto simp: t upds lock_bitmap_def)
    have bmt: "the_bm ?t j = (if j = i then (the_bm s i)\<lparr>vbm_status := set_vhd_flag (vbm_status (the_bm s i)) VHD_FLAG_BM_LOCKED,
        vbm_queue := l'\<rparr> else the_bm s j)" for j
      by (simp add: t upds lock_bitmap_def)
    have rest: "vs_flags ?t = vs_flags s" "vs_vhd ?t = vs_vhd s" "vs_spb ?t = vs_spb s" "vs_spp ?t = vs_spp s" "vs_bm_secs ?t = vs_bm_secs s"
      "vs_zsize ?t = vs_zsize s" "vs_bat ?t = vs_bat s" "vs_bitmap ?t = vs_bitmap s" "vs_bitmap_free ?t = vs_bitmap_free s"
      "vs_vreq_free ?t = vs_vreq_free s" "vs_out ?t = vs_out s" "vs_aio ?t = vs_aio s" "nexts ?t = nexts t"
      by (auto simp: t upds lock_bitmap_def)
    have fr: "same_frame s ?t" by (simp add: same_frame_def rest bmt bat_table_def)
    have np: "n_pending (placed G r (In_queue i)) Pd i = n_pending G Pd i" by (simp add: n_pending_def placed_def)
    have dat: "dreq_ok ?t (placed G r (In_queue i)) Pd r"
      using w b lr by (simp add: dreq_ok_def tx_write_def rqt same_frameD [OF fr] Let_def placed_def)
    have bi: "bm_ok (prealloc s) (has_lock s i) (bat_err s) (bat_tx s = Some i) (unalloc s i) (installed s i) (Bm_req i \<in> Pd)
      (n_pending (placed G r (In_queue i)) Pd i) (the_bm ?t i)"
      using bm_ok_queue [OF invD(2) [OF I, unfolded bitmap_ok_def] cl _ inst, of l'] rlist_head [OF rl] by (simp add: bmt np)
    have lo: "list_at ?t p' = list_at s p'" if "p' \<noteq> In_queue i" for p' using that by (cases p') (auto simp: bmt)
    have "inv ?t (placed G r (In_queue i)) Pd \<and> quietly s G ?t (placed G r (In_queue i))"
      by (intro conjI inv_joined [OF I r _ _ refl _ _ _ _ _ lo fr _ _ _ _ _ _ _ _ _ _ dat bi])
        (use rl in \<open>simp_all add: rest bmt, simp_all add: rqt\<close>)
    then show ?thesis using Q by blast
  qed
  have l1: "tx_closed (vbm_tx (the_bm ?s1 i)) = tx_closed (vbm_tx (the_bm s i))" "vbm_queue (the_bm ?s1 i) = vbm_queue (the_bm s i)"
    by (simp_all add: lock_bitmap_def upd_bm_def)
  have nx2: "nexts ?s1 r = None" by (rule trans [OF fun_cong [OF n2] lr(3)])
  have rl2: "rlist (nexts ?s1) (vbm_queue (the_bm ?s1 i)) ?xs" using Lx(1) unfolding n2 l1 .
  show ?thesis
    unfolding join_transaction_def wps
    using cl by (simp add: l1 wps) (intro wp_add_to_tail [OF rl2 [unfolded l1] nin Lx(2) nx2] goal; simp add: l1)
qed

end
