(* ===== verification/Block_Vhd_Sched.thy ===== *)
theory Block_Vhd_Sched
  imports Block_Vhd_Move
begin
text \<open>
  Scheduling under the invariant, with an account of sectors: what the driver was asked for is what it
  has completed or forwarded (\<open>reported\<close>) and what its requests stand for (\<open>owed\<close>).
\<close>

section \<open>The account\<close>

definition contrib :: "vhd_state \<Rightarrow> ghost \<Rightarrow> rid \<Rightarrow> piece multiset" where
  "contrib s G r = (if g_own G r = Free \<or> vr_op (vs_req s r) = VHD_OP_REDUNDANT_BM_WRITE then {#} else pieces (vr_treq (vs_req s r)))"

definition owed :: "vhd_state \<Rightarrow> ghost \<Rightarrow> piece multiset" where
  "owed s G = (\<Sum>r \<in> {r. is_data r}. contrib s G r)"

fun out_pieces :: "vhd_out \<Rightarrow> piece multiset" where
  "out_pieces (Complete t e) = pieces t"
| "out_pieces (Forward t) = pieces t"

definition reported :: "vhd_state \<Rightarrow> piece multiset" where
  "reported s = sum_list (map out_pieces (vs_out s))"

lemma owed_cong: "(\<And>r. is_data r \<Longrightarrow> contrib t G' r = contrib s G r) \<Longrightarrow> owed t G' = owed s G"
  unfolding owed_def by (rule sum.cong) simp_all

lemma owed_step:
  assumes "is_data r" and "\<And>q. is_data q \<Longrightarrow> q \<noteq> r \<Longrightarrow> contrib t G' q = contrib s G q"
  shows "owed t G' + contrib s G r = owed s G + contrib t G' r"
proof -
  have "sum (contrib t G') ({r. is_data r} - {r}) = sum (contrib s G) ({r. is_data r} - {r})"
    by (rule sum.cong) (use assms(2) in auto)
  moreover have "owed s G = contrib s G r + sum (contrib s G) ({r. is_data r} - {r})"
    "owed t G' = contrib t G' r + sum (contrib t G') ({r. is_data r} - {r})"
    unfolding owed_def using assms(1) finite_data(1) by (simp_all add: sum.remove)
  ultimately show ?thesis by (simp add: add.commute add.left_commute)
qed

lemma quietly_owed: "quietly s G t G' \<Longrightarrow> owed t G' = owed s G" "quietly s G t G' \<Longrightarrow> reported t = reported s"
  by (auto intro!: owed_cong simp: quietly_def contrib_def reported_def)

text \<open>A state is ready when the invariant holds with the requests of \<open>P\<close> about to be submitted, and the
  account is balanced.\<close>

definition ready :: "(rid \<Rightarrow> vhd_request option) \<Rightarrow> rid set \<Rightarrow> piece multiset \<Rightarrow> vhd_state \<Rightarrow> bool" where
  "ready D P A s \<longleftrightarrow> aio_ok s \<and> P \<inter> in_flight s = {} \<and> (\<exists>G. inv s G (P \<union> in_flight s) \<and> reported s + owed s G = A \<and> parked s G = D)"

abbreviation good :: "piece multiset \<Rightarrow> vhd_state \<Rightarrow> bool" where
  "good \<equiv> ready (\<lambda>_. None) {}"

lemma readyI: "inv t G Q \<Longrightarrow> Q = P \<union> in_flight t \<Longrightarrow> P \<inter> in_flight t = {} \<Longrightarrow> aio_ok t \<Longrightarrow> reported t + owed t G = A \<Longrightarrow> parked t G = D \<Longrightarrow> ready D P A t"
  by (auto simp: ready_def)

lemma readyE:
  assumes "ready D P A s"
  obtains G where "inv s G (P \<union> in_flight s)" "aio_ok s" "P \<inter> in_flight s = {}" "reported s + owed s G = A" "parked s G = D"
  using assms by (auto simp: ready_def)

definition same_disk :: "vhd_state \<Rightarrow> vhd_state \<Rightarrow> bool" where
  "same_disk s t \<longleftrightarrow> n_blocks t = n_blocks s \<and> vs_spb t = vs_spb s \<and> vs_bm_secs t = vs_bm_secs s"

lemma same_disk_refl [simp]: "same_disk s s"
  by (simp add: same_disk_def)

lemma same_disk_trans: "same_disk s t \<Longrightarrow> same_disk t u \<Longrightarrow> same_disk s u"
  by (simp add: same_disk_def)

lemma same_disk_frame: "same_frame s t \<Longrightarrow> same_disk s t"
  using same_frameD(10) by (simp add: same_disk_def same_frame_def)

text \<open>What an operation does: with success the account is \<open>B\<close>, with an error it is still \<open>A\<close>.\<close>

definition step_ok :: "(rid \<Rightarrow> vhd_request option) \<Rightarrow> rid set \<Rightarrow> piece multiset \<Rightarrow> piece multiset \<Rightarrow> 'a bv \<Rightarrow> vhd_state \<Rightarrow> bool" where
  "step_ok D P A B m s \<longleftrightarrow> wp m (\<lambda>_ t. ready D P B t \<and> same_disk s t) (\<lambda>_ t. ready D P A t \<and> same_disk s t) s"

abbreviation fits :: "vhd_state \<Rightarrow> td_request \<Rightarrow> bool" where
  "fits s t \<equiv> sec_ok s (td_sec t) \<and> unat (sec_of s (td_sec t)) + td_secs t \<le> spb s"

section \<open>Calls of the kernel\<close>

definition aio_call :: "bool \<Rightarrow> rid \<Rightarrow> u64 \<Rightarrow> unit bv" where
  "aio_call rw r off = (if rw then aio_write r off else aio_read r off)"

lemma wp_aio:
  assumes "\<And>t. \<lbrakk>\<forall>G Pd. inv t G Pd = inv s G Pd; vs_aio t = vs_aio s @ [\<lparr>aio_req = r, aio_rw = rw, aio_buf = td_buf (vr_treq (vs_req s r)),
       aio_secs = td_secs (vr_treq (vs_req s r)), aio_off = off\<rparr>]; vs_out t = vs_out s; vs_req t = vs_req s; vs_bitmap_list t = vs_bitmap_list s;
       same_disk s t\<rbrakk> \<Longrightarrow> Q () t"
  shows "wp (aio_call rw r off) Q E s"
  unfolding aio_call_def aio_read_def aio_write_def
  by (cases rw) (simp_all only: if_True if_False wps Let_def,
      (rule assms, (intro allI inv_cong; simp add: bat_table_def), simp_all add: same_disk_def n_blocks_def)+)

lemma aio_call_simps: "aio_read r off = aio_call False r off" "aio_write r off = aio_call True r off"
  by (simp_all add: aio_call_def)

lemma aio_ok_add:
  assumes "aio_ok s" and "r \<notin> in_flight s" and "vs_aio t = vs_aio s @ [a]" and "aio_req a = r" and "vs_bitmap_list t = vs_bitmap_list s"
    and "aio_rw a \<or> (\<forall>i. aio_buf a \<noteq> Map_buf i)" and "vs_bm_secs t = vs_bm_secs s"
  shows "aio_ok t" "in_flight t = insert r (in_flight s)"
  using assms by (auto simp: aio_ok_def in_flight_def)

lemma aio_ok_same:
  assumes "aio_ok s" "vs_aio t = vs_aio s" "\<And>i. rd_pending (the_bm s i) \<Longrightarrow> rd_pending (the_bm t i)" "vs_bm_secs t = vs_bm_secs s"
  shows "aio_ok t" "in_flight t = in_flight s"
  using assms by (auto simp: aio_ok_def in_flight_def)

lemma wp_submit:
  assumes R: "ready D (insert r P) A s" and r: "r \<notin> P" and b: "rw \<or> (\<forall>i. td_buf (vr_treq (vs_req s r)) \<noteq> Map_buf i)"
    and Q: "\<And>t. ready D P A t \<Longrightarrow> same_disk s t \<Longrightarrow> Q () t"
  shows "wp (aio_call rw r off) Q E s"
proof (rule wp_aio)
  fix t assume t: "\<forall>G Pd. inv t G Pd = inv s G Pd" "vs_aio t = vs_aio s @ [\<lparr>aio_req = r, aio_rw = rw,
      aio_buf = td_buf (vr_treq (vs_req s r)), aio_secs = td_secs (vr_treq (vs_req s r)), aio_off = off\<rparr>]"
    "vs_out t = vs_out s" "vs_req t = vs_req s" "vs_bitmap_list t = vs_bitmap_list s" "same_disk s t"
  from R obtain G where G: "inv s G (insert r P \<union> in_flight s)" "aio_ok s" "insert r P \<inter> in_flight s = {}" "reported s + owed s G = A" "parked s G = D"
    by (rule readyE)
  have "aio_ok t" and fl: "in_flight t = insert r (in_flight s)"
    using aio_ok_add [OF G(2) _ t(2) _ t(5)] G(3) b t(6) by (auto simp: same_disk_def)
  moreover have "reported t + owed t G = A" 
    using G(4) owed_cong [of t G s G] t(3,4) by (simp add: reported_def contrib_def)
  moreover have "parked t G = D" using G(5) t(3,4) parked_cong [of G G t s] by simp
  ultimately have "ready D P A t" using G(1,3) t(1) r by (intro readyI [of _ G "insert r P \<union> in_flight s"]) auto
  then show "Q () t" using Q t(6) by blast
qed

section \<open>Taking a request\<close>

lemma take_ready:
  assumes I: "inv s G (P \<union> in_flight s)" and a: "aio_ok s" "P \<inter> in_flight s = {}" and A: "reported s + owed s G = A" and PK: "parked s G = D"
    and free: "vs_vreq_free s = r # rs" "is_data r" "g_own G r = Free"
    and R: "vr_tx R = None" "vr_next R = None" "\<not> test_vhd_flag (vr_flags R) VHD_FLAG_REQ_QUEUED"
      "\<not> test_vhd_flag (vr_flags R) VHD_FLAG_REQ_FINISHED" "sec_ok s (td_sec (vr_treq R))"
      "vr_op R \<in> {VHD_OP_DATA_READ, VHD_OP_DATA_WRITE, VHD_OP_REDUNDANT_BM_WRITE}"
    and B: "B = A + (if vr_op R = VHD_OP_REDUNDANT_BM_WRITE then {#} else pieces (vr_treq R))"
  defines "t \<equiv> s\<lparr>vs_vreq_free := rs, vs_req := (vs_req s)(r := R)\<rparr>" and "G' \<equiv> G\<lparr>g_own := (g_own G)(r := Loose)\<rparr>"
  shows "inv t G' (insert r P \<union> in_flight t)" "aio_ok t" "r \<notin> P" "insert r P \<inter> in_flight t = {}" "reported t + owed t G' = B" "same_disk s t"
    "ready D (insert r P) B t" "parked t G' = D"
proof -
  have "dreq_ok s G (P \<union> in_flight s) r" using invD(8) [OF I] free(2) by (simp add: reqs_ok_def)
  then have n: "r \<notin> P \<union> in_flight s" using free(3) by (simp add: dreq_ok_def Let_def)
  show 1: "inv t G' (insert r P \<union> in_flight t)"
    using inv_take [OF I free(1) R] by (simp add: t_def G'_def in_flight_def)
  show 2: "aio_ok t" using a by (simp add: aio_ok_def t_def)
  show "r \<notin> P" and 3: "insert r P \<inter> in_flight t = {}" using n a by (auto simp: t_def in_flight_def)
  have "owed t G' + contrib s G r = owed s G + contrib t G' r"
    by (rule owed_step [OF free(2)]) (simp add: contrib_def t_def G'_def)
  then show 4: "reported t + owed t G' = B"
    using free A B by (simp add: contrib_def t_def G'_def reported_def add.assoc split: if_splits)
  show "same_disk s t" by (simp add: same_disk_def t_def n_blocks_def)
  show 5: "parked t G' = D" unfolding PK [symmetric] by (rule parked_cong) (use free in \<open>auto simp: t_def G'_def\<close>)
  show "ready D (insert r P) B t" by (rule readyI [OF 1 refl 3 2 4 5])
qed

text \<open>The request for a part of a read or a write.\<close>

definition new_req :: "td_request \<Rightarrow> u8 \<Rightarrow> u8 \<Rightarrow> vhd_request" where
  "new_req treq fl op = req_zero\<lparr>vr_treq := treq, vr_flags := fl, vr_op := op\<rparr>"

lemma new_req_simps [simp]: "vr_treq (new_req treq fl op) = treq" "vr_flags (new_req treq fl op) = fl" "vr_op (new_req treq fl op) = op"
  "vr_next (new_req treq fl op) = None" "vr_tx (new_req treq fl op) = None" "vr_error (new_req treq fl op) = 0"
  by (simp_all add: new_req_def req_zero_def)

lemma upd_new:
  "upd_req r (\<lambda>q. q\<lparr>vr_treq := treq, vr_op := op, vr_next := None\<rparr>) (s\<lparr>vs_vreq_free := rs, vs_req := (vs_req s)(r := req_zero)\<rparr>) =
     s\<lparr>vs_vreq_free := rs, vs_req := (vs_req s)(r := new_req treq 0 op)\<rparr>"
  "upd_req r (\<lambda>q. q\<lparr>vr_treq := treq, vr_flags := fl, vr_op := op, vr_next := None\<rparr>) (s\<lparr>vs_vreq_free := rs, vs_req := (vs_req s)(r := req_zero)\<rparr>) =
     s\<lparr>vs_vreq_free := rs, vs_req := (vs_req s)(r := new_req treq fl op)\<rparr>"
  by (simp_all add: upd_req_def new_req_def req_zero_def)

lemma take_data:
  assumes I: "inv s G (P \<union> in_flight s)" and a: "aio_ok s" "P \<inter> in_flight s = {}" and A: "reported s + owed s G = A" and PK: "parked s G = D"
    and free: "vs_vreq_free s = r # rs" "is_data r" "g_own G r = Free"
    and R: "sec_ok s (td_sec treq)" "op = VHD_OP_DATA_READ \<or> op = VHD_OP_DATA_WRITE"
      "\<not> test_vhd_flag fl VHD_FLAG_REQ_QUEUED" "\<not> test_vhd_flag fl VHD_FLAG_REQ_FINISHED"
  defines "t \<equiv> s\<lparr>vs_vreq_free := rs, vs_req := (vs_req s)(r := new_req treq fl op)\<rparr>" and "G' \<equiv> G\<lparr>g_own := (g_own G)(r := Loose)\<rparr>"
  shows "inv t G' (insert r P \<union> in_flight t)" "aio_ok t" "r \<notin> P" "insert r P \<inter> in_flight t = {}" "reported t + owed t G' = A + pieces treq"
    "same_disk s t" "ready D (insert r P) (A + pieces treq) t" "in_flight t = in_flight s" "parked t G' = D"
proof -
  have o: "op \<noteq> VHD_OP_REDUNDANT_BM_WRITE" "op \<in> {VHD_OP_DATA_READ, VHD_OP_DATA_WRITE, VHD_OP_REDUNDANT_BM_WRITE}" using R(2) by (auto simp: vhd_op_defs)
  note T = take_ready [OF I a A PK free, of "new_req treq fl op" "A + pieces treq", folded t_def G'_def, simplified new_req_simps, OF refl refl R(3,4,1) o(2)]
  show "inv t G' (insert r P \<union> in_flight t)" "aio_ok t" "r \<notin> P" "insert r P \<inter> in_flight t = {}" "reported t + owed t G' = A + pieces treq"
    "same_disk s t" "ready D (insert r P) (A + pieces treq) t" "parked t G' = D" using T o(1) by simp_all
  show "in_flight t = in_flight s" by (simp add: t_def in_flight_def)
qed

section \<open>Requests without a transaction\<close>

lemma wp_vhd_queue_request:
  assumes R: "ready D P A s" and fit: "fits s treq" "td_buf treq \<in> range Guest" and op: "op = VHD_OP_DATA_READ \<or> op = VHD_OP_DATA_WRITE"
    and b: "get_bitmap s (blk_of s (td_sec treq)) = Some i" "rd_pending (the_bm s i)"
  shows "step_ok D P A (A + pieces treq) (vhd_queue_request op treq) s"
proof -
  from R obtain G where I: "inv s G (P \<union> in_flight s)" and a: "aio_ok s" "P \<inter> in_flight s = {}" and A: "reported s + owed s G = A" and PK: "parked s G = D"
    by (rule readyE)
  let ?Pd = "P \<union> in_flight s"
  have inst: "installed s i" "vbm_blk (the_bm s i) = blk_of s (td_sec treq)"
    using b(1) get_bitmap_Some [OF invD(5) [OF I]] by simp_all
  let ?R = "new_req treq 0 op"
  let ?xs = "g_list G (In_wait i)"
  have goal: "ready D P (A + pieces treq) u \<and> same_disk s u"
    if free: "vs_vreq_free s = r # rs" and r: "is_data r" "g_own G r = Free" "r \<notin> ?Pd"
      and s1: "s1 = s\<lparr>vs_vreq_free := rs, vs_req := (vs_req s)(r := ?R)\<rparr>"
      and t: "t = (if ?xs = [] then s1 else upd_req (last ?xs) (\<lambda>q. q\<lparr>vr_next := Some r\<rparr>) s1)"
      and rl: "rlist (nexts t) l' (?xs @ [r])" and tt: "u = lock_bitmap i (upd_bm i (\<lambda>b. b\<lparr>vbm_waiting := l'\<rparr>) t)"
    for r rs s1 t l' u
  proof -
    let ?G = "G\<lparr>g_own := (g_own G)(r := Loose)\<rparr>"
    note T = take_data [OF I a A PK free r(1,2) conjunct1 [OF fit(1)] op, of 0, simplified, folded s1]
    have I1: "inv s1 ?G (insert r ?Pd)" and acc: "reported s1 + owed s1 ?G = A + pieces treq" using T(1,5,8) by simp_all
    have nin: "r \<notin> set ?xs" using listsD(3) [OF invD(6) [OF I], of "In_wait i" r] r(2) by simp
    have lx: "?xs \<noteq> [] \<Longrightarrow> last ?xs \<in> set ?xs" by simp
    have rqt: "vs_req u q = (if ?xs \<noteq> [] \<and> q = last ?xs then (vs_req s1 q)\<lparr>vr_next := Some r\<rparr> else vs_req s1 q)" for q
      by (simp add: tt t upds lock_bitmap_def)
    have bmt: "the_bm u j = (if j = i then (the_bm s1 i)\<lparr>vbm_status := set_vhd_flag (vbm_status (the_bm s1 i)) VHD_FLAG_BM_LOCKED,
        vbm_waiting := l'\<rparr> else the_bm s1 j)" for j
      by (simp add: tt t upds lock_bitmap_def)
    have rest: "vs_flags u = vs_flags s1" "vs_vhd u = vs_vhd s1" "vs_spb u = vs_spb s1" "vs_spp u = vs_spp s1" "vs_bm_secs u = vs_bm_secs s1"
      "vs_zsize u = vs_zsize s1" "vs_bat u = vs_bat s1" "vs_bitmap u = vs_bitmap s1" "vs_bitmap_free u = vs_bitmap_free s1"
      "vs_vreq_free u = vs_vreq_free s1" "vs_out u = vs_out s1" "vs_aio u = vs_aio s1" "nexts u = nexts t"
      by (simp_all add: tt t upds lock_bitmap_def)
    have fr: "same_frame s1 u" by (simp add: same_frame_def rest bmt bat_table_def)
    have np: "n_pending (placed ?G r (In_wait i)) ?Pd i = n_pending ?G (insert r ?Pd) i"
      using listsD(3) [OF invD(6) [OF I], of "In_tx i" r] r(2)
      by (auto simp: n_pending_def placed_def intro!: arg_cong [where f = length] filter_cong)
    have nl: "\<not> (?xs \<noteq> [] \<and> r = last ?xs)" using lx nin by auto
    have same1: "blk_of s1 = blk_of s" "sec_of s1 = sec_of s" "sec_ok s1 = sec_ok s" "the_bm s1 = the_bm s" "spb s1 = spb s" "installed s1 = installed s"
      by (auto simp: s1 blk_of_def sec_of_def sec_ok_def n_blocks_def installed_def fun_eq_iff)
    have dat: "dreq_ok u (placed ?G r (In_wait i)) ?Pd r"
      using fit r(3) inst op by (simp add: dreq_ok_def rqt nl Let_def placed_def same_frameD [OF fr] in_block_def same1 bmt) (simp add: s1)
    have bi: "bm_ok (prealloc s1) (has_lock s1 i) (bat_err s1) (bat_tx s1 = Some i) (unalloc s1 i) (installed s1 i) (Bm_req i \<in> insert r ?Pd)
      (n_pending (placed ?G r (In_wait i)) ?Pd i) (the_bm u i)"
      using bm_ok_wait [OF invD(2) [OF I1, unfolded bitmap_ok_def], of i l'] b(2) inst by (simp add: bmt np same1)
    have lo: "list_at u p' = list_at s1 p'" if "p' \<noteq> In_wait i" for p' using that by (cases p') (auto simp: bmt)
    have J: "inv u (placed ?G r (In_wait i)) ?Pd \<and> quietly s1 ?G u (placed ?G r (In_wait i))"
      by (intro conjI inv_joined [OF I1 _ _ _ _ _ _ _ _ _ lo fr _ _ _ _ _ _ _ _ _ _ dat bi])
        (use rl nl in \<open>simp_all add: rest bmt, simp_all add: rqt\<close>)
    have q: "reported u + owed u (placed ?G r (In_wait i)) = A + pieces treq"
      using quietly_owed J acc by metis
    have "vs_aio u = vs_aio s" by (simp add: rest s1)
    then have ao: "aio_ok u" "in_flight u = in_flight s"
      using aio_ok_same [OF a(1), of u] b(2) by (simp_all add: bmt same1 rest, simp_all add: s1)
    have "same_disk s s1" by (simp add: same_disk_def s1 n_blocks_def)
    then have "same_disk s u" using same_disk_trans same_disk_frame [OF fr] by blast
    moreover have "parked u (placed ?G r (In_wait i)) = D" using conjunct2 [OF J] T(9) by (simp add: quietly_def)
    ultimately show ?thesis using readyI [OF conjunct1 [OF J] _ _ ao(1) q, of P] ao(2) a(2) by simp
  qed
  note A0 = R
  have some: "wp (vthen (vmodify (upd_req r (\<lambda>q. q\<lparr>vr_treq := treq, vr_op := op, vr_next := None\<rparr>)))
        (vget (\<lambda>s. vbind (add_to_tail (vbm_waiting (the_bm s i)) r) (\<lambda>l.
          vthen (vmodify (upd_bm i (\<lambda>b. b\<lparr>vbm_waiting := l\<rparr>))) (vmodify (lock_bitmap i))))))
      (\<lambda>_ t. ready D P (A + pieces treq) t \<and> same_disk s t) E (s\<lparr>vs_vreq_free := rs, vs_req := (vs_req s)(r := req_zero)\<rparr>)"
    if free: "vs_vreq_free s = r # rs" and r: "is_data r" "g_own G r = Free" "r \<notin> ?Pd" for r rs E
  proof -
    let ?s1 = "s\<lparr>vs_vreq_free := rs, vs_req := (vs_req s)(r := ?R)\<rparr>"
    have "wp (add_to_tail (vbm_waiting (the_bm ?s1 i)) r) (\<lambda>l. wp (vthen (vmodify (upd_bm i (\<lambda>b. b\<lparr>vbm_waiting := l\<rparr>))) (vmodify (lock_bitmap i)))
        (\<lambda>_ t. ready D P (A + pieces treq) t \<and> same_disk s t) E) E ?s1"
    proof (rule wp_add_to_tail [where xs = ?xs])
      have nin: "r \<notin> set ?xs" using listsD(3) [OF invD(6) [OF I], of "In_wait i" r] r(2) by simp
      then show "r \<notin> set ?xs" .
      show "distinct ?xs" using listsD(2) [OF invD(6) [OF I], of "In_wait i"] by simp
      have "rlist (nexts s) (vbm_waiting (the_bm s i)) ?xs" using listsD(1) [OF invD(6) [OF I], of "In_wait i"] by simp
      moreover have "rlist (nexts ?s1) l ?xs = rlist (nexts s) l ?xs" for l by (rule rlist_cong) (use nin in auto)
      ultimately show "rlist (nexts ?s1) (vbm_waiting (the_bm ?s1 i)) ?xs" by simp
      show "nexts ?s1 r = None" by simp
      show "wp (vthen (vmodify (upd_bm i (\<lambda>b. b\<lparr>vbm_waiting := l'\<rparr>))) (vmodify (lock_bitmap i))) (\<lambda>_ t. ready D P (A + pieces treq) t \<and> same_disk s t) E t"
        if "t = (if ?xs = [] then ?s1 else upd_req (last ?xs) (\<lambda>q. q\<lparr>vr_next := Some r\<rparr>) ?s1)" "rlist (nexts t) l' (?xs @ [r])" for t l'
        unfolding wps by (rule goal [OF free r refl that refl])
    qed
    then show ?thesis unfolding wp_vbind wp_vmodify wp_vget upd_new .
  qed
  show ?thesis
    unfolding step_ok_def vhd_queue_request_def wps
    using b cfgD(1) [OF invD(4) [OF I]] by (simp add: wps, intro wp_alloc_vhd_request [OF I])
      (use A0 some in \<open>simp_all add: wps\<close>)
qed


lemma wp_schedule_data_read:
  assumes R: "ready D P A s" and fit: "fits s treq" "td_buf treq \<in> range Guest"
    and e: "bat_table s ! unat (blk_of s (td_sec treq)) \<noteq> DD_BLK_UNUSED"
    and b: "full_block s (blk_of s (td_sec treq)) \<or> (\<exists>i. get_bitmap s (blk_of s (td_sec treq)) = Some i \<and> \<not> rd_pending (the_bm s i))"
  shows "step_ok D P A (A + pieces treq) (schedule_data_read treq 0) s"
proof -
  from R obtain G where I: "inv s G (P \<union> in_flight s)" and a: "aio_ok s" "P \<inter> in_flight s = {}" and A: "reported s + owed s G = A" and PK: "parked s G = D"
    by (rule readyE)
  note C = cfgD [OF invD(4) [OF I]]
  note U = unat_blk_of [OF invD(4) [OF I] conjunct1 [OF fit(1)]]
  have some: "wp (aio_read r off) (\<lambda>_ t. ready D P (A + pieces treq) t \<and> same_disk s t) E
      (upd_req r (\<lambda>q. q\<lparr>vr_treq := treq, vr_flags := 0, vr_op := VHD_OP_DATA_READ, vr_next := None\<rparr>)
        (s\<lparr>vs_vreq_free := rs, vs_req := (vs_req s)(r := req_zero)\<rparr>))"
    if free: "vs_vreq_free s = r # rs" "is_data r" "g_own G r = Free" for r rs E off
  proof -
    note T = take_data [OF I a A PK free conjunct1 [OF fit(1)], of VHD_OP_DATA_READ 0, simplified]
    show ?thesis unfolding upd_new aio_call_simps
      by (intro wp_submit [OF T(7)]) (use fit(2) T(3,6) same_disk_trans in auto)
  qed
  show ?thesis
    unfolding step_ok_def schedule_data_read_def wps
    using C(4) e b U(3,4) C(6)
    by (simp add: wps wp_get_entry Let_def)
      (auto simp: wps wp_get_entry bitmap_valid_def intro!: wp_test_batmap [OF invD(4) [OF I]] wp_alloc_vhd_request [OF I] R some)
qed

lemma wp_schedule_redundant:
  assumes R: "ready D P A s" and f: "full_block s blk" and e: "bat_table s ! unat blk \<noteq> DD_BLK_UNUSED" and blk: "unat blk < n_blocks s"
  shows "wp (schedule_redundant_bm_write blk) (\<lambda>_ t. ready D P A t \<and> same_disk s t) E s"
proof -
  from R obtain G where I: "inv s G (P \<union> in_flight s)" and a: "aio_ok s" "P \<inter> in_flight s = {}" and A: "reported s + owed s G = A" and PK: "parked s G = D"
    by (rule readyE)
  note C = cfgD [OF invD(4) [OF I]]
  have some: "wp (aio_write r off) (\<lambda>_ t. ready D P A t \<and> same_disk s t) E
      (upd_req r (\<lambda>q. q\<lparr>vr_op := VHD_OP_REDUNDANT_BM_WRITE, vr_treq := (vr_treq q)\<lparr>td_buf := Padbm_buf, td_sec := ucast (blk * vs_spb s),
         td_secs := n\<rparr>, vr_next := None\<rparr>) (s\<lparr>vs_vreq_free := rs, vs_req := (vs_req s)(r := req_zero)\<rparr>))"
    if free: "vs_vreq_free s = r # rs" "is_data r" "g_own G r = Free" for r rs E off n
  proof -
    let ?R = "new_req (td_zero\<lparr>td_buf := Padbm_buf, td_sec := ucast (blk * vs_spb s), td_secs := n\<rparr>) 0 VHD_OP_REDUNDANT_BM_WRITE"
    let ?s1 = "s\<lparr>vs_vreq_free := rs, vs_req := (vs_req s)(r := ?R)\<rparr>"
    have e: "upd_req r (\<lambda>q. q\<lparr>vr_op := VHD_OP_REDUNDANT_BM_WRITE, vr_treq := (vr_treq q)\<lparr>td_buf := Padbm_buf, td_sec := ucast (blk * vs_spb s),
         td_secs := n\<rparr>, vr_next := None\<rparr>) (s\<lparr>vs_vreq_free := rs, vs_req := (vs_req s)(r := req_zero)\<rparr>) = ?s1"
      by (simp add: upd_req_def new_req_def req_zero_def)
    note T = take_ready [OF I a A PK free, of ?R A, simplified, OF blk_start(1) [OF invD(4) [OF I] blk]]
    show ?thesis unfolding e aio_call_simps
      by (intro wp_submit [OF T(7)]) (use T(3,6) same_disk_trans in auto)
  qed
  show ?thesis
    unfolding schedule_redundant_bm_write_def wps
    using C(4,6) blk e f
    by (auto simp: wps wp_get_entry bat_table_def intro!: wp_test_batmap [OF invD(4) [OF I]] wp_alloc_vhd_request [OF I] R some)
qed

end
