(* ===== verification/Block_Vhd_Cache.thy ===== *)
theory Block_Vhd_Cache
  imports Block_Vhd_Sched
begin

text \<open>
  The cache of bitmaps under the invariant: a bitmap is taken from the free ones or from the cache
  (\<open>bm_taken\<close>), initialised and installed, for a new block or to be read.
\<close>

section \<open>Bitmaps enter the cache\<close>

lemma not_installed:
  assumes "bitmap_ok s G Pd i" and "\<not> installed s i"
  shows "\<not> bitmap_in_use (the_bm s i)"
  using bm_okD(14) [OF assms(1) [unfolded bitmap_ok_def]] assms(2) by blast

lemma not_in_use:
  assumes I: "inv s G Pd" and n: "\<not> bitmap_in_use (the_bm s i)"
  shows "g_list G (In_tx i) = []" "g_list G (In_queue i) = []" "g_list G (In_wait i) = []" "Bm_req i \<notin> Pd" "vbm_tx (the_bm s i) = tx_zero"
    "\<not> tx_live (the_bm s i)" "\<not> has_lock s i"
    "\<And>r. g_own G r \<noteq> In_tx i" "\<And>r. g_own G r \<noteq> In_queue i" "\<And>r. g_own G r \<noteq> In_wait i"
proof -
  note L = listsD [OF invD(6) [OF I]]
  note n' = n [unfolded bitmap_in_use_def]
  note B = bm_okD [OF invD(2) [OF I, of i, unfolded bitmap_ok_def]]
  show 1: "g_list G (In_tx i) = []" using rlist_head [OF L(1) [of "In_tx i"]] n' by simp
  show 2: "g_list G (In_queue i) = []" using rlist_head [OF L(1) [of "In_queue i"]] n' by simp
  show 3: "g_list G (In_wait i) = []" using rlist_head [OF L(1) [of "In_wait i"]] n' by simp
  show "Bm_req i \<notin> Pd" using B(10) n' by blast
  have z: "n_pending G Pd i = 0" using 1 by (simp add: n_pending_def)
  show nl: "\<not> tx_live (the_bm s i)" using B(5,7) z n' by blast
  then show "vbm_tx (the_bm s i) = tx_zero" using B(9) by blast
  show "\<not> has_lock s i"
  proof
    assume h: "has_lock s i"
    then obtain j where "has_lock s j" "tx_live (the_bm s j)" using invD(3) [OF I] by (auto simp: bat_ok_def has_lock_def)
    then show False using has_lock_unique [OF invD(5) [OF I] h] nl by blast
  qed
  show "g_own G r \<noteq> In_tx i" "g_own G r \<noteq> In_queue i" "g_own G r \<noteq> In_wait i" for r
    using L(3) [of "In_tx i" r] L(3) [of "In_queue i" r] L(3) [of "In_wait i" r] 1 2 3 by auto
qed

definition slots :: "nat option list \<Rightarrow> nat list" where
  "slots xs = map the (filter (\<lambda>p. p \<noteq> None) xs)"

lemma slots_clear: "k < length xs \<Longrightarrow> xs ! k = Some i \<Longrightarrow> slots xs = slots (take k xs) @ i # slots (drop (Suc k) xs) \<and>
    slots (xs[k := None]) = slots (take k xs) @ slots (drop (Suc k) xs)"
  by (subst (1) id_take_nth_drop [of k xs]) (simp_all add: slots_def upd_conv_take_nth_drop)

lemma slots_set: "k < length xs \<Longrightarrow> xs ! k = None \<Longrightarrow> slots xs = slots (take k xs) @ slots (drop (Suc k) xs) \<and>
    slots (xs[k := Some i]) = slots (take k xs) @ i # slots (drop (Suc k) xs)"
  by (subst (1) id_take_nth_drop [of k xs]) (simp_all add: slots_def upd_conv_take_nth_drop)

lemma cached_slots: "cached_bms s = slots (vs_bitmap s)"
  by (simp add: cached_bms_def slots_def)

text \<open>A bitmap taken out of the cache or from the free ones, and initialised for block \<open>blk\<close>.\<close>

definition fresh_state :: "nat \<Rightarrow> u32 \<Rightarrow> vhd_state \<Rightarrow> vhd_state" where
  "fresh_state i blk s = upd_bm i (\<lambda>b. b\<lparr>vbm_blk := blk\<rparr>) (init_vhd_bitmap i s)"

definition bm_zero :: "vhd_state \<Rightarrow> u32 \<Rightarrow> vhd_bitmap" where
  "bm_zero s blk = \<lparr>vbm_blk = blk, vbm_seqno = 0, vbm_status = 0, vbm_map = zeros (512 * unat (vs_bm_secs s)),
     vbm_shadow = zeros (512 * unat (vs_bm_secs s)), vbm_tx = tx_zero, vbm_queue = req_list_nil, vbm_waiting = req_list_nil\<rparr>"

lemma fresh_simps [simp]:
  "the_bm (fresh_state i blk s) = (the_bm s)(i := bm_zero s blk)" "vs_req (fresh_state i blk s) = (vs_req s)(Bm_req i := req_zero)"
  "vs_flags (fresh_state i blk s) = vs_flags s" "vs_vhd (fresh_state i blk s) = vs_vhd s" "vs_spp (fresh_state i blk s) = vs_spp s"
  "vs_spb (fresh_state i blk s) = vs_spb s" "vs_first_db (fresh_state i blk s) = vs_first_db s" "vs_next_db (fresh_state i blk s) = vs_next_db s"
  "vs_bat (fresh_state i blk s) = vs_bat s" "vs_bm_lru (fresh_state i blk s) = vs_bm_lru s" "vs_bm_secs (fresh_state i blk s) = vs_bm_secs s"
  "vs_bitmap (fresh_state i blk s) = vs_bitmap s" "vs_bitmap_free (fresh_state i blk s) = vs_bitmap_free s"
  "vs_vreq_free (fresh_state i blk s) = vs_vreq_free s" "vs_zsize (fresh_state i blk s) = vs_zsize s" "vs_aio (fresh_state i blk s) = vs_aio s"
  "vs_out (fresh_state i blk s) = vs_out s" "vs_padbm_size (fresh_state i blk s) = vs_padbm_size s"
  by (simp_all add: fresh_state_def init_vhd_bitmap_def init_vhd_request_def upds bm_zero_def fun_eq_iff)

lemma bm_ok_zero: "bm_ok pr lk e tb un ins False 0 (bm_zero s blk)"
  by (rule bm_okI) (simp_all add: bm_zero_def tx_zero_def req_list_nil_def bitmap_locked_def bitmap_in_use_def)

lemma inv_fresh:
  assumes I: "inv s G Pd" and n: "\<not> bitmap_in_use (the_bm s i)"
    and ins: "\<And>j. Some j \<in> set B \<longleftrightarrow> installed s j \<and> j \<noteq> i"
    and ca: "length B = VHD_CACHE_SIZE" "distinct (slots B @ F)" "set (slots B @ F) \<subseteq> {..<VHD_CACHE_SIZE}"
  shows "inv (fresh_state i blk (s\<lparr>vs_bitmap := B, vs_bitmap_free := F\<rparr>)) G Pd" (is "inv ?t G Pd")
proof -
  note N = not_in_use [OF I n]
  note L = listsD [OF invD(6) [OF I]]
  have it: "installed ?t j \<longleftrightarrow> installed s j \<and> j \<noteq> i" for j using ins by (simp add: installed_def)
  have same: "n_blocks ?t = n_blocks s" "sec_ok ?t = sec_ok s" "blk_of ?t = blk_of s" "sec_of ?t = sec_of s" "in_block ?t = in_block s"
    "bat_table ?t = bat_table s" "prealloc ?t = prealloc s"
    by (auto simp: n_blocks_def sec_ok_def blk_of_def sec_of_def in_block_def bat_table_def fun_eq_iff)
  have cfg: "driver_cfg ?t" using invD(4) [OF I]
    by (simp add: driver_cfg_def same batmap_fits_def cong: option.case_cong)
  have cs: "set (cached_bms ?t) = set (cached_bms s) - {i}" using it installed_cached [of ?t] installed_cached [of s] by auto
  then have cs': "set (slots B) = set (slots (vs_bitmap s)) - {i}" by (simp add: cached_slots)
  have ca': "cache_ok ?t"
    using invD(5) [OF I] ca
    unfolding cache_ok_def cs by (simp add: same) (simp add: cached_slots inj_on_def cs' [symmetric], simp add: cs')
  have la: "list_at ?t p = list_at s p" if "p \<notin> {In_tx i, In_queue i, In_wait i}" for p using that by (cases p) auto
  have nx: "nexts ?t q = nexts s q" if "q \<noteq> Bm_req i" for q using that by simp
  have lists: "lists_ok ?t G" unfolding lists_ok_def
  proof (intro allI impI)
    fix p assume p: "listed p"
    show "rlist (nexts ?t) (list_at ?t p) (g_list G p) \<and> distinct (g_list G p) \<and> set (g_list G p) = {r. g_own G r = p}"
    proof (cases "p \<in> {In_tx i, In_queue i, In_wait i}")
      case True
      then show ?thesis using N(1-3) N(8-10) by (auto simp: rlist_Nil bm_zero_def tx_zero_def)
    next
      case False
      have "g_own G (Bm_req i) = Idle" using invD(8) [OF I] by (simp add: reqs_ok_def)
      then have "Bm_req i \<notin> set (g_list G p)" using L(3) [OF p] p by auto
      then have "rlist (nexts ?t) (list_at s p) (g_list G p) = rlist (nexts s) (list_at s p) (g_list G p)" by (intro rlist_cong nx) auto
      then show ?thesis using L [OF p] la [OF False] by auto
    qed
  qed
  have reqs: "reqs_ok ?t G Pd"
  proof -
    have d: "dreq_ok ?t G Pd r" if "is_data r" for r
    proof -
      have "dreq_ok s G Pd r" using invD(8) [OF I] that by (simp add: reqs_ok_def)
      moreover have "vs_req ?t r = vs_req s r" using that by auto
      ultimately show ?thesis using N(8-10) [of r]
        by (cases "g_own G r") (auto simp: dreq_ok_def Let_def tx_write_def same)
    qed
    have "zero_ok ?t G Pd" using invD(8) [OF I] N(8) [of Zero_req] by (auto simp: reqs_ok_def zero_ok_def Let_def same split: if_splits)
    moreover have "batreq_ok ?t G Pd" using invD(8) [OF I] by (simp add: reqs_ok_def batreq_ok_def same Let_def)
    moreover have "bmreq_ok ?t Pd j" for j using invD(8) [OF I] N(4) by (auto simp: reqs_ok_def bmreq_ok_def Let_def same)
    ultimately show ?thesis using d invD(8) [OF I] by (simp add: reqs_ok_def)
  qed
  have core: "core_ok ?t G Pd" using cfg ca' lists reqs invD(7) [OF I] by (simp add: core_ok_def pool_ok_def)
  have hl: "has_lock ?t j = has_lock s j" "unalloc ?t j = unalloc s j" if "j \<noteq> i" for j
    using that it [of j] by (simp_all add: has_lock_def unalloc_def bat_locked_def same)
  have "bitmap_ok ?t G Pd j" for j
  proof (cases "j = i")
    case True
    then show ?thesis using N(1,4) bm_ok_zero by (simp add: bitmap_ok_def n_pending_def bm_zero_def)
  next
    case False
    then show ?thesis
      by (intro bitmap_ok_frame [OF invD(2) [OF I]]) (simp_all add: hl it same)
  qed
  moreover have "bat_ok ?t G Pd"
  proof (rule bat_ok_step [OF invD(3) [OF I]])
    show "bat_locked ?t = bat_locked s" by (simp add: bat_locked_def)
    show "bat_idle s Pd \<Longrightarrow> bat_idle ?t Pd" by (simp add: bat_idle_def)
    fix j assume j: "has_lock s j" "unalloc s j" "tx_live (the_bm s j)" "\<not> rd_pending (the_bm s j)" "alloc_phase s G Pd j"
    then have "j \<noteq> i" using N(6) by auto
    with j show "has_lock ?t j \<and> unalloc ?t j \<and> tx_live (the_bm ?t j) \<and> \<not> rd_pending (the_bm ?t j) \<and> alloc_phase ?t G Pd j"
      by (simp add: hl alloc_phase_frame [OF j(5)] same)
  qed
  ultimately show ?thesis using core by (simp add: inv_def)
qed


lemma lru_scan_Some:
  assumes "lru_scan s ks best sq = Some (k, i)" and "\<forall>k \<in> set ks. k < length (vs_bitmap s)"
    and "\<And>k i. best = Some (k, i) \<Longrightarrow> k < length (vs_bitmap s) \<and> vs_bitmap s ! k = Some i \<and> \<not> bitmap_locked (the_bm s i)"
  shows "k < length (vs_bitmap s) \<and> vs_bitmap s ! k = Some i \<and> \<not> bitmap_locked (the_bm s i)"
  using assms
proof (induction ks arbitrary: best sq)
  case Nil
  then show ?case by auto
next
  case (Cons a ks)
  show ?case
  proof (cases "vs_bitmap s ! a")
    case None
    then show ?thesis using Cons by auto
  next
    case (Some j)
    then show ?thesis using Cons by (auto split: if_splits)
  qed
qed

text \<open>What allocation of a bitmap leaves: everything but the bitmap itself.\<close>

definition bm_taken :: "vhd_state \<Rightarrow> vhd_state \<Rightarrow> nat \<Rightarrow> u32 \<Rightarrow> bool" where
  "bm_taken s t i blk \<longleftrightarrow> (\<exists>B F. t = fresh_state i blk (s\<lparr>vs_bitmap := B, vs_bitmap_free := F\<rparr>) \<and> length B = VHD_CACHE_SIZE \<and>
     \<not> bitmap_in_use (the_bm s i) \<and> (\<forall>j. Some j \<in> set B \<longleftrightarrow> installed s j \<and> j \<noteq> i) \<and> None \<in> set B \<and> i \<notin> set F \<and> i < VHD_CACHE_SIZE)"

lemma distinct_small:
  assumes "distinct xs" "set xs \<subseteq> {..<n}" "x \<notin> set xs" "x < (n::nat)"
  shows "length xs < n"
proof -
  have "card (insert x (set xs)) \<le> card {..<n}" by (rule card_mono) (use assms in auto)
  then show ?thesis using assms by (simp add: distinct_card)
qed

lemma slots_full: "None \<notin> set xs \<Longrightarrow> length (slots xs) = length xs"
  by (induction xs) (simp_all add: slots_def, metis not_None_eq)

lemma bm_takenI:
  assumes "length B = VHD_CACHE_SIZE" "\<not> bitmap_in_use (the_bm s i)" "\<And>j. Some j \<in> set B \<longleftrightarrow> installed s j \<and> j \<noteq> i"
    "None \<in> set B" "i \<notin> set F" "i < VHD_CACHE_SIZE"
  shows "bm_taken s (fresh_state i blk (s\<lparr>vs_bitmap := B, vs_bitmap_free := F\<rparr>)) i blk"
  unfolding bm_taken_def by (intro exI [of _ B] exI [of _ F] conjI allI refl assms)

lemma wp_alloc_vhd_bitmap:
  assumes I: "inv s G Pd" and E: "E (- EBUSY) s"
    and Q: "\<And>t i. inv t G Pd \<Longrightarrow> bm_taken s t i blk \<Longrightarrow> Q i t"
  shows "wp (alloc_vhd_bitmap blk) Q E s"
proof -
  note C = invD(5) [OF I, unfolded cache_ok_def cached_slots]
  have dis: "distinct (slots (vs_bitmap s) @ vs_bitmap_free s)" "set (slots (vs_bitmap s) @ vs_bitmap_free s) \<subseteq> {..<VHD_CACHE_SIZE}"
    "length (vs_bitmap s) = VHD_CACHE_SIZE" using C by simp_all
  have ins: "installed s j \<longleftrightarrow> j \<in> set (slots (vs_bitmap s))" for j by (simp add: installed_cached cached_slots)
  have free: "Q i (fresh_state i blk (s\<lparr>vs_bitmap_free := is\<rparr>))" if "vs_bitmap_free s = i # is" for i "is"
  proof -
    have n: "i \<notin> set (slots (vs_bitmap s))" "i < VHD_CACHE_SIZE" "i \<notin> set is" using dis that by auto
    then have ni: "\<not> bitmap_in_use (the_bm s i)" using not_installed [OF invD(2) [OF I]] ins by blast
    have il: "Some j \<in> set (vs_bitmap s) \<longleftrightarrow> installed s j \<and> j \<noteq> i" for j using n(1) ins by (auto simp: installed_def)
    have "inv (fresh_state i blk (s\<lparr>vs_bitmap := vs_bitmap s, vs_bitmap_free := is\<rparr>)) G Pd"
      by (rule inv_fresh [OF I ni il]) (use dis that in auto)
    moreover have "None \<in> set (vs_bitmap s)"
      using distinct_small [of "slots (vs_bitmap s)" VHD_CACHE_SIZE i] slots_full [of "vs_bitmap s"] dis n by fastforce
    ultimately have "Q i (fresh_state i blk (s\<lparr>vs_bitmap := vs_bitmap s, vs_bitmap_free := is\<rparr>))"
      by (intro Q bm_takenI il ni n dis(3)) simp_all
    then show ?thesis by simp
  qed
  have lru: "\<not> bitmap_in_use (the_bm s i) \<and> Q i (fresh_state i blk (s\<lparr>vs_bitmap := (vs_bitmap s)[k := None]\<rparr>))"
    if "vs_bitmap_free s = []" and l: "lru_scan s [0..<VHD_CACHE_SIZE] None (vs_bm_lru s) = Some (k, i)" for k i
  proof -
    have k: "k < length (vs_bitmap s)" "vs_bitmap s ! k = Some i" "\<not> bitmap_locked (the_bm s i)"
      using lru_scan_Some [OF l] dis(3) by auto
    then have ni: "\<not> bitmap_in_use (the_bm s i)" using bm_okD(13) [OF invD(2) [OF I, of i, unfolded bitmap_ok_def]] by blast
    let ?B = "(vs_bitmap s)[k := None]"
    note sl = slots_clear [OF k(1,2)]
    have "Some j \<in> set ?B \<longleftrightarrow> j \<in> set (slots ?B)" for j by (force simp: slots_def)
    then have il: "Some j \<in> set ?B \<longleftrightarrow> installed s j \<and> j \<noteq> i" for j using ins sl dis by auto
    have i: "i < VHD_CACHE_SIZE" using dis sl by auto
    have "inv (fresh_state i blk (s\<lparr>vs_bitmap := ?B, vs_bitmap_free := vs_bitmap_free s\<rparr>)) G Pd"
      by (rule inv_fresh [OF I ni il]) (use dis sl in auto)
    moreover have "None \<in> set ?B" using k(1) by (simp add: set_update_memI)
    ultimately have "Q i (fresh_state i blk (s\<lparr>vs_bitmap := ?B, vs_bitmap_free := vs_bitmap_free s\<rparr>))"
      by (intro Q bm_takenI il ni i) (use dis(3) that(1) in simp_all)
    then show ?thesis using ni by simp
  qed
  show ?thesis
  proof (cases "vs_bitmap_free s")
    case Nil
    then show ?thesis
      using lru [OF Nil] E by (auto simp: alloc_vhd_bitmap_def remove_lru_bitmap_def wps fresh_state_def split: option.split)
  next
    case (Cons i "is")
    then show ?thesis using free [OF Cons] by (simp add: alloc_vhd_bitmap_def wps fresh_state_def)
  qed
qed

lemma inv_install:
  assumes I: "inv s G Pd" and n: "\<not> bitmap_in_use (the_bm s i)" "\<not> installed s i" "i \<notin> set (vs_bitmap_free s)" "i < VHD_CACHE_SIZE"
    and slot: "k < VHD_CACHE_SIZE" "vs_bitmap s ! k = None" "vs_bitmap t = (vs_bitmap s)[k := Some i]"
    and nb: "get_bitmap s blk = None" "unat blk < n_blocks s" and ln: "length (vbm_map (the_bm s i)) = 512 * unat (vs_bm_secs s)"
      "length (vbm_shadow (the_bm s i)) = 512 * unat (vs_bm_secs s)"
    and bt: "vbm_blk (the_bm t i) = blk" "vbm_tx (the_bm t i) = tx_zero" "vbm_queue (the_bm t i) = req_list_nil" "vbm_waiting (the_bm t i) = req_list_nil"
      "length (vbm_map (the_bm t i)) = length (vbm_map (the_bm s i))" "length (vbm_shadow (the_bm t i)) = length (vbm_shadow (the_bm s i))"
    and bj: "\<And>j. j \<noteq> i \<Longrightarrow> bm_alike (the_bm t j) (the_bm s j) \<and> length (vbm_map (the_bm t j)) = length (vbm_map (the_bm s j)) \<and>
      length (vbm_shadow (the_bm t j)) = length (vbm_shadow (the_bm s j))"
    and rq: "\<And>q. q \<noteq> Bm_req i \<Longrightarrow> vs_req t q = vs_req s q"
    and fr: "vs_flags t = vs_flags s" "vctx t = vctx s" "vs_spb t = vs_spb s" "vs_spp t = vs_spp s" "vs_bm_secs t = vs_bm_secs s"
      "vs_zsize t = vs_zsize s" "vs_bat t = vs_bat s" "vs_bitmap_free t = vs_bitmap_free s" "vs_vreq_free t = vs_vreq_free s"
    and Pd: "\<And>q. q \<noteq> Bm_req i \<Longrightarrow> q \<in> Pd' \<longleftrightarrow> q \<in> Pd" and br: "bmreq_ok t Pd' i"
    and bi: "\<And>e tb. bm_ok (prealloc s) False e tb (unalloc t i) True (Bm_req i \<in> Pd') 0 (the_bm t i)"
  shows "inv t G Pd'"
proof -
  note N = not_in_use [OF I n(1)]
  note L = listsD [OF invD(6) [OF I]]
  have len: "length (vs_bitmap s) = VHD_CACHE_SIZE" using invD(5) [OF I] by (simp add: cache_ok_def)
  note sl = slots_set [of k "vs_bitmap s" i, unfolded len, OF slot(1,2)]
  have cs: "set (cached_bms t) = insert i (set (cached_bms s))" "distinct (cached_bms t) \<longleftrightarrow> distinct (cached_bms s) \<and> i \<notin> set (cached_bms s)"
    using sl slot(3) by (auto simp: cached_slots)
  have it: "installed t j \<longleftrightarrow> installed s j \<or> j = i" for j using cs(1) by (auto simp: installed_cached)
  have same: "n_blocks t = n_blocks s" "sec_ok t = sec_ok s" "blk_of t = blk_of s" "sec_of t = sec_of s" "in_block t = in_block s"
    "bat_table t = bat_table s" "prealloc t = prealloc s"
    by (auto simp: n_blocks_def sec_ok_def blk_of_def sec_of_def in_block_def bat_table_def fun_eq_iff fr)
  have cfg: "driver_cfg t" using invD(4) [OF I]
    by (simp add: driver_cfg_def same batmap_fits_def fr cong: option.case_cong)
  have bf: "vbm_blk (the_bm t j) = vbm_blk (the_bm s j)" "vbm_status (the_bm t j) = vbm_status (the_bm s j)"
    "vbm_tx (the_bm t j) = vbm_tx (the_bm s j)" "vbm_queue (the_bm t j) = vbm_queue (the_bm s j)"
    "vbm_waiting (the_bm t j) = vbm_waiting (the_bm s j)" if "j \<noteq> i" for j using bj [OF that] by (simp_all add: bm_alike_def)
  have ca: "cache_ok t"
  proof -
    have C: "cache_ok s" by (rule invD(5) [OF I])
    have ni: "i \<notin> set (cached_bms s)" using n(2) by (simp add: installed_cached)
    then have ne: "j \<in> set (cached_bms s) \<Longrightarrow> j \<noteq> i" for j by blast
    have nb': "j \<in> set (cached_bms s) \<Longrightarrow> vbm_blk (the_bm s j) \<noteq> blk" for j
      using nb(1) by (simp add: get_bitmap_None installed_cached)
    have 1: "inj_on (\<lambda>j. vbm_blk (the_bm t j)) (insert i (set (cached_bms s)))"
    proof (rule inj_onI)
      fix x y assume "x \<in> insert i (set (cached_bms s))" "y \<in> insert i (set (cached_bms s))" "vbm_blk (the_bm t x) = vbm_blk (the_bm t y)"
      then show "x = y" using C ne nb' bf(1) bt(1) by (metis cache_ok_def inj_onD insertE)
    qed
    have 2: "unat (vbm_blk (the_bm t j)) < n_blocks t \<and> length (vbm_map (the_bm t j)) = 512 * unat (vs_bm_secs t) \<and>
        length (vbm_shadow (the_bm t j)) = 512 * unat (vs_bm_secs t)" if "j \<in> insert i (set (cached_bms s))" for j
    proof (cases "j = i")
      case True
      then show ?thesis using bt ln nb(2) by (simp add: same fr)
    next
      case False
      then have "j \<in> set (cached_bms s)" using that by simp
      then show ?thesis using C bf(1) [OF False] bj [OF False] by (simp add: cache_ok_def same fr)
    qed
    show ?thesis unfolding cache_ok_def cs(1)
      using C 1 2 cs ni n(3,4) by (auto simp: cache_ok_def fr slot(3))
  qed
  have la: "list_at t p = list_at s p" if "p \<notin> {In_tx i, In_queue i, In_wait i}" for p using that by (cases p) (auto simp: bf)
  have lists: "lists_ok t G" unfolding lists_ok_def
  proof (intro allI impI)
    fix p assume p: "listed p"
    show "rlist (nexts t) (list_at t p) (g_list G p) \<and> distinct (g_list G p) \<and> set (g_list G p) = {r. g_own G r = p}"
    proof (cases "p \<in> {In_tx i, In_queue i, In_wait i}")
      case True
      then show ?thesis using N(1-3) N(8-10) bt by (auto simp: rlist_Nil tx_zero_def)
    next
      case False
      have "g_own G (Bm_req i) = Idle" using invD(8) [OF I] by (simp add: reqs_ok_def)
      then have "Bm_req i \<notin> set (g_list G p)" using L(3) [OF p] p by auto
      then have "rlist (nexts t) (list_at s p) (g_list G p) = rlist (nexts s) (list_at s p) (g_list G p)"
        by (intro rlist_cong) (metis rq)
      then show ?thesis using L [OF p] la [OF False] by auto
    qed
  qed
  have reqs: "reqs_ok t G Pd'"
  proof -
    have d: "dreq_ok t G Pd' r" if "is_data r" for r
    proof -
      have r: "r \<noteq> Bm_req i" using that by auto
      have "dreq_ok s G Pd r" using invD(8) [OF I] that by (simp add: reqs_ok_def)
      then show ?thesis using N(8-10) [of r] rq [OF r] Pd [OF r]
        by (cases "g_own G r") (auto simp: dreq_ok_def Let_def tx_write_def same bf)
    qed
    have "zero_ok t G Pd'" using invD(8) [OF I] N(8) [of Zero_req] Pd [of Zero_req] rq [of Zero_req]
      by (auto simp: reqs_ok_def zero_ok_def Let_def same bf split: if_splits)
    moreover have "batreq_ok t G Pd'" using invD(8) [OF I] Pd [of Bat_req] rq [of Bat_req] by (simp add: reqs_ok_def batreq_ok_def same Let_def)
    moreover have "bmreq_ok t Pd' j" for j
      using invD(8) [OF I] br rq [of "Bm_req j"] Pd [of "Bm_req j"] by (cases "j = i") (auto simp: reqs_ok_def bmreq_ok_def Let_def same bf)
    ultimately show ?thesis using d invD(8) [OF I] Pd by (simp add: reqs_ok_def)
  qed
  have core: "core_ok t G Pd'" using cfg ca lists reqs invD(7) [OF I] by (simp add: core_ok_def pool_ok_def fr)
  have hl: "has_lock t j = has_lock s j" "unalloc t j = unalloc s j" if "j \<noteq> i" for j
    using that it [of j] by (simp_all add: has_lock_def unalloc_def bat_locked_def same fr bf)
  have hi: "\<not> has_lock t i"
  proof
    assume "has_lock t i"
    then have "bat_locked s" "blk = vb_pbw_blk (vs_bat s)" by (simp_all add: has_lock_def bat_locked_def fr bt)
    moreover obtain j where "has_lock s j" using invD(3) [OF I] \<open>bat_locked s\<close> by (auto simp: bat_ok_def)
    ultimately show False using nb(1) by (auto simp: has_lock_def get_bitmap_None)
  qed
  have be: "vs_req t Bat_req = vs_req s Bat_req" by (rule rq) simp
  have "bitmap_ok t G Pd' j" for j
  proof (cases "j = i")
    case True
    then show ?thesis using N(1) bi hi it by (simp add: bitmap_ok_def n_pending_def same)
  next
    case False
    have "g_own G (Bm_req i) = Idle" using invD(8) [OF I] by (simp add: reqs_ok_def)
    then have "Bm_req i \<notin> set (g_tx G j)" using L(3) [of "In_tx j"] by auto
    then have "n_pending G Pd' j = n_pending G Pd j" unfolding n_pending_def
      by (intro arg_cong [where f = length] filter_cong) (metis Pd)+
    with False show ?thesis
      by (intro bitmap_ok_frame [OF invD(2) [OF I]]) (simp_all add: hl it same bj be Pd)
  qed
  moreover have "bat_ok t G Pd'"
  proof (rule bat_ok_step [OF invD(3) [OF I]])
    show "bat_locked t = bat_locked s" by (simp add: bat_locked_def fr)
    show "bat_idle s Pd \<Longrightarrow> bat_idle t Pd'" by (simp add: bat_idle_def fr be Pd)
    fix j assume j: "has_lock s j" "unalloc s j" "tx_live (the_bm s j)" "\<not> rd_pending (the_bm s j)" "alloc_phase s G Pd j"
    then have "j \<noteq> i" using N(6) by auto
    with j show "has_lock t j \<and> unalloc t j \<and> tx_live (the_bm t j) \<and> \<not> rd_pending (the_bm t j) \<and> alloc_phase t G Pd' j"
      by (simp add: hl alloc_phase_frame [OF j(5)] same bf be Pd fr)
  qed
  ultimately show ?thesis using core by (simp add: inv_def)
qed

lemma free_slot_Some: "None \<in> set (vs_bitmap s) \<Longrightarrow> length (vs_bitmap s) = VHD_CACHE_SIZE \<Longrightarrow>
    \<exists>k. free_slot s = Some k \<and> k < VHD_CACHE_SIZE \<and> vs_bitmap s ! k = None"
proof -
  assume a: "None \<in> set (vs_bitmap s)" "length (vs_bitmap s) = VHD_CACHE_SIZE"
  then have "free_slot s \<noteq> None" by (auto simp: free_slot_def find_None_iff in_set_conv_nth)
  then obtain k where "free_slot s = Some k" by blast
  moreover from this have "k < VHD_CACHE_SIZE \<and> vs_bitmap s ! k = None" by (auto simp: free_slot_def find_Some_iff)
  ultimately show ?thesis by blast
qed


text \<open>What stays when bitmaps come and go.\<close>

definition kept :: "vhd_state \<Rightarrow> vhd_state \<Rightarrow> bool" where
  "kept s t \<longleftrightarrow> vs_flags t = vs_flags s \<and> vs_vhd t = vs_vhd s \<and> vs_spb t = vs_spb s \<and> vs_spp t = vs_spp s \<and> vs_bm_secs t = vs_bm_secs s \<and>
     vs_zsize t = vs_zsize s \<and> vs_bat t = vs_bat s \<and> vs_first_db t = vs_first_db s \<and> vs_next_db t = vs_next_db s \<and> vs_aio t = vs_aio s \<and>
     vs_out t = vs_out s \<and> vs_vreq_free t = vs_vreq_free s \<and> (\<forall>r. (\<forall>i. r \<noteq> Bm_req i) \<longrightarrow> vs_req t r = vs_req s r) \<and>
     (\<forall>i. rd_pending (the_bm s i) \<longrightarrow> rd_pending (the_bm t i))"

lemma kept_refl [simp]: "kept s s"
  by (simp add: kept_def)

lemma kept_trans: "kept s t \<Longrightarrow> kept t u \<Longrightarrow> kept s u"
  by (simp add: kept_def)

lemma keptD:
  assumes "kept s t"
  shows "same_disk s t" "bat_table t = bat_table s" "bat_locked t = bat_locked s" "n_blocks t = n_blocks s" "sec_ok t = sec_ok s"
    "blk_of t = blk_of s" "sec_of t = sec_of s" "in_flight t = in_flight s" "reported t = reported s" "prealloc t = prealloc s"
    "owed t G = owed s G" "aio_ok s \<Longrightarrow> aio_ok t" "full_block t blk = full_block s blk" "driver_cfg t = driver_cfg s" "in_block t = in_block s"
proof -
  note K = assms [unfolded kept_def]
  show n: "n_blocks t = n_blocks s" using K by (simp add: n_blocks_def)
  show "same_disk s t" "bat_table t = bat_table s" "bat_locked t = bat_locked s" "in_flight t = in_flight s" "reported t = reported s"
    "prealloc t = prealloc s" "full_block t blk = full_block s blk"
    using K n by (simp_all add: same_disk_def bat_table_def bat_locked_def in_flight_def reported_def full_block_def cong: option.case_cong)
  show f: "sec_ok t = sec_ok s" "blk_of t = blk_of s" "sec_of t = sec_of s" using K n by (auto simp: sec_ok_def blk_of_def sec_of_def)
  show "in_block t = in_block s" using K f by (auto simp: in_block_def fun_eq_iff)
  show "driver_cfg t = driver_cfg s" using K n by (simp add: driver_cfg_def batmap_fits_def bat_table_def cong: option.case_cong)
  show "owed t G = owed s G" using K by (intro owed_cong) (auto simp: contrib_def is_data_def)
  show "aio_ok s \<Longrightarrow> aio_ok t" using K by (intro aio_ok_same(1) [of s t]) blast+
qed

lemma bm_takenD:
  assumes "bm_taken s t i blk"
  shows "the_bm t = (the_bm s)(i := bm_zero s blk)" "installed t j \<longleftrightarrow> installed s j \<and> j \<noteq> i" "None \<in> set (vs_bitmap t)" "i \<notin> set (vs_bitmap_free t)"
    "i < VHD_CACHE_SIZE" "length (vs_bitmap t) = VHD_CACHE_SIZE" "kept s t" "\<not> bitmap_in_use (the_bm t i)" "vs_req t (Bm_req i) = req_zero"
    "get_bitmap s blk = None \<Longrightarrow> get_bitmap t blk = None"
proof -
  from assms obtain B F where t: "t = fresh_state i blk (s\<lparr>vs_bitmap := B, vs_bitmap_free := F\<rparr>)" "length B = VHD_CACHE_SIZE"
    "\<not> bitmap_in_use (the_bm s i)" "\<forall>j. Some j \<in> set B \<longleftrightarrow> installed s j \<and> j \<noteq> i" "None \<in> set B" "i \<notin> set F" "i < VHD_CACHE_SIZE"
    by (auto simp: bm_taken_def)
  have z: "bm_zero (s\<lparr>vs_bitmap := B, vs_bitmap_free := F\<rparr>) blk = bm_zero s blk" by (simp add: bm_zero_def)
  show bm: "the_bm t = (the_bm s)(i := bm_zero s blk)" using t(1) z by (simp add: fun_eq_iff)
  show ins: "installed t j \<longleftrightarrow> installed s j \<and> j \<noteq> i" for j using t(1,4) by (simp add: installed_def)
  show "None \<in> set (vs_bitmap t)" "i \<notin> set (vs_bitmap_free t)" "i < VHD_CACHE_SIZE" "length (vs_bitmap t) = VHD_CACHE_SIZE"
    "vs_req t (Bm_req i) = req_zero" using t by simp_all
  have "\<not> rd_pending (the_bm s i)" using t(3) by (simp add: bitmap_in_use_def)
  then show "kept s t" unfolding kept_def bm using t(1) by simp
  show "\<not> bitmap_in_use (the_bm t i)" by (simp add: bm bitmap_in_use_def bm_zero_def tx_zero_def req_list_nil_def)
  show "get_bitmap s blk = None \<Longrightarrow> get_bitmap t blk = None" by (simp add: get_bitmap_None ins bm)
qed

lemma wp_cached_bitmap:
  assumes I: "inv s G Pd" and blk: "unat blk < n_blocks s" and E: "E (- EBUSY) s"
    and Q: "\<And>t i. inv t G Pd \<Longrightarrow> get_bitmap t blk = Some i \<Longrightarrow> kept s t \<Longrightarrow> Q i t"
  shows "wp (cached_bitmap blk) Q E s"
proof (cases "get_bitmap s blk")
  case (Some i)
  then show ?thesis using Q [OF I] by (simp add: cached_bitmap_def wps)
next
  case None
  have "wp (vthen (install_bitmap i) (vret i)) Q E t" if t: "inv t G Pd" "bm_taken s t i blk" for t i
  proof -
    note T = bm_takenD [OF t(2)]
    obtain k where k: "free_slot t = Some k" "k < VHD_CACHE_SIZE" "vs_bitmap t ! k = None" using free_slot_Some [OF T(3,6)] by blast
    let ?u = "(touch_bitmap i t)\<lparr>vs_bitmap := (vs_bitmap t)[k := Some i]\<rparr>"
    have ku: "kept t ?u" by (simp add: kept_def)
    have ni: "\<not> installed t i" using T(2) by simp
    have nf: "Bm_req i \<notin> Pd" by (rule not_in_use(4) [OF t(1) T(8)])
    have iu: "inv ?u G Pd"
    proof (rule inv_install [OF t(1) T(8) ni T(4,5) k(2,3) _ T(10) [OF None]])
      show "bm_ok (prealloc t) False e tb (unalloc ?u i) True (Bm_req i \<in> Pd) 0 (the_bm ?u i)" for e tb
        using bm_ok_zero [of _ False e tb _ True s blk] nf bm_ok_alike [of "the_bm ?u i" "bm_zero s blk"] by (simp add: T(1) bm_alike_def)
      show "bmreq_ok ?u Pd i" using nf by (simp add: bmreq_ok_def)
    qed (use keptD(4) [OF T(7)] blk T(7) in \<open>simp_all add: T(1) bm_zero_def bm_alike_def kept_def\<close>)
    have "installed ?u i" using k(2) T(6) by (simp add: installed_def set_update_memI)
    then have "get_bitmap ?u blk = Some i" using get_bitmap_Some [OF invD(5) [OF iu]] by (simp add: T(1) bm_zero_def)
    then show ?thesis using Q [OF iu _ kept_trans [OF T(7) ku]] k(1) by (simp add: install_bitmap_def wps)
  qed
  then show ?thesis using None E
    by (simp add: cached_bitmap_def wps) (intro wp_alloc_vhd_bitmap [OF I]; simp add: wps)
qed

lemma same_diskD: "same_disk s t \<Longrightarrow> n_blocks t = n_blocks s" "same_disk s t \<Longrightarrow> spb t = spb s" "same_disk s t \<Longrightarrow> sec_ok t = sec_ok s"
  "same_disk s t \<Longrightarrow> blk_of t = blk_of s" "same_disk s t \<Longrightarrow> sec_of t = sec_of s" "same_disk s t \<Longrightarrow> in_block t = in_block s"
  "same_disk s t \<Longrightarrow> blk_room t = blk_room s"
  by (auto simp: same_disk_def sec_ok_def blk_of_def sec_of_def in_block_def blk_room_def fun_eq_iff)

lemma owed_data_cong: "(\<And>r. is_data r \<Longrightarrow> vs_req t r = vs_req s r) \<Longrightarrow> owed t G = owed s G"
  by (intro owed_cong) (simp add: contrib_def)

lemma parked_data_cong:
  assumes "inv s G Pd" and "\<And>r. is_data r \<Longrightarrow> vs_req t r = vs_req s r"
  shows "parked t G = parked s G"
  by (rule parked_cong) (use assms(2) own_data [OF invD(8) [OF assms(1)]] in auto)

lemma parked_kept: "inv s G Pd \<Longrightarrow> kept s t \<Longrightarrow> parked t G = parked s G"
  by (rule parked_data_cong) (auto simp: kept_def is_data_def)

lemma wp_schedule_bitmap_read:
  assumes R: "ready D P A s" and e: "bat_table s ! unat blk \<noteq> DD_BLK_UNUSED" and none: "get_bitmap s blk = None" and blk: "unat blk < n_blocks s"
  shows "wp (schedule_bitmap_read blk)
    (\<lambda>_ t. ready D P A t \<and> same_disk s t \<and> (\<exists>i. get_bitmap t blk = Some i \<and> rd_pending (the_bm t i)))
    (\<lambda>_ t. ready D P A t \<and> same_disk s t) s"
proof -
  from R obtain G where I: "inv s G (P \<union> in_flight s)" and a: "aio_ok s" "P \<inter> in_flight s = {}" and A: "reported s + owed s G = A" and PK: "parked s G = D"
    by (rule readyE)
  let ?Pd = "P \<union> in_flight s"
  note C = cfgD [OF invD(4) [OF I]]
  let ?f = "\<lambda>i q. q\<lparr>vr_treq := (vr_treq q)\<lparr>td_sec := ucast (blk * vs_spb s), td_secs := unat (vs_bm_secs s), td_buf := Map_buf i\<rparr>,
    vr_op := VHD_OP_BITMAP_READ, vr_next := None\<rparr>"
  have run: "wp (vthen (vmodify (init_vhd_request (Bm_req i))) (vthen (vmodify (upd_req (Bm_req i) (?f i))) (vthen (aio_read (Bm_req i) off)
        (vthen (vmodify (lock_bitmap i)) (vthen (install_bitmap i)
          (vmodify (upd_bm i (\<lambda>b. b\<lparr>vbm_status := set_vhd_flag (vbm_status b) VHD_FLAG_BM_READ_PENDING\<rparr>))))))))
      (\<lambda>_ t. ready D P A t \<and> same_disk s t \<and> (\<exists>i. get_bitmap t blk = Some i \<and> rd_pending (the_bm t i))) E t"
    if t: "inv t G ?Pd" "bm_taken s t i blk" for t i off E
  proof -
    note T = bm_takenD [OF t(2)]
    note K = keptD [OF T(7)]
    let ?q = "new_req (td_zero\<lparr>td_sec := ucast (blk * vs_spb s), td_secs := unat (vs_bm_secs s), td_buf := Map_buf i\<rparr>) 0 VHD_OP_BITMAP_READ"
    let ?t2 = "upd_req (Bm_req i) (\<lambda>_. ?q) t"
    have e2: "upd_req (Bm_req i) (?f i) (init_vhd_request (Bm_req i) t) = ?t2"
      by (simp add: init_vhd_request_def upd_req_def new_req_def req_zero_def)
    have ni: "\<not> installed t i" using T(2) by simp
    have nf: "Bm_req i \<notin> ?Pd" by (rule not_in_use(4) [OF t(1) T(8)])
    have "wp (vthen (vmodify (lock_bitmap i)) (vthen (install_bitmap i)
          (vmodify (upd_bm i (\<lambda>b. b\<lparr>vbm_status := set_vhd_flag (vbm_status b) VHD_FLAG_BM_READ_PENDING\<rparr>)))))
        (\<lambda>_ t. ready D P A t \<and> same_disk s t \<and> (\<exists>i. get_bitmap t blk = Some i \<and> rd_pending (the_bm t i))) E t3"
      if t3: "vs_aio t3 = vs_aio ?t2 @ [\<lparr>aio_req = Bm_req i, aio_rw = False, aio_buf = Map_buf i, aio_secs = unat (vs_bm_secs s), aio_off = off\<rparr>]"
        "vs_out t3 = vs_out ?t2" "vs_req t3 = vs_req ?t2" "vs_bitmap_list t3 = vs_bitmap_list ?t2" "vs_flags t3 = vs_flags ?t2" "vs_vhd t3 = vs_vhd ?t2"
        "vs_spb t3 = vs_spb ?t2" "vs_spp t3 = vs_spp ?t2" "vs_bm_secs t3 = vs_bm_secs ?t2" "vs_zsize t3 = vs_zsize ?t2" "vs_bat t3 = vs_bat ?t2"
        "vs_bitmap t3 = vs_bitmap ?t2" "vs_bitmap_free t3 = vs_bitmap_free ?t2" "vs_vreq_free t3 = vs_vreq_free ?t2" for t3
    proof -
      have bm3: "vs_bitmap t3 = vs_bitmap t" "the_bm t3 = the_bm t" using t3 by (simp_all add: upd_req_def)
      let ?t4 = "lock_bitmap i t3"
      obtain k where k: "free_slot ?t4 = Some k" "k < VHD_CACHE_SIZE" "vs_bitmap t ! k = None"
        using free_slot_Some [of ?t4] T(3,6) bm3(1) by (auto simp: lock_bitmap_def upds)
      let ?u = "upd_bm i (\<lambda>b. b\<lparr>vbm_status := set_vhd_flag (vbm_status b) VHD_FLAG_BM_READ_PENDING\<rparr>)
        ((touch_bitmap i ?t4)\<lparr>vs_bitmap := (vs_bitmap t)[k := Some i]\<rparr>)"
      have ub: "vs_flags ?u = vs_flags t" "vs_vhd ?u = vs_vhd t" "vs_spb ?u = vs_spb t" "vs_spp ?u = vs_spp t" "vs_bm_secs ?u = vs_bm_secs t"
        "vs_zsize ?u = vs_zsize t" "vs_bat ?u = vs_bat t" "vs_bitmap_free ?u = vs_bitmap_free t" "vs_vreq_free ?u = vs_vreq_free t"
        "vs_req ?u = (vs_req t)(Bm_req i := ?q)" "vs_out ?u = vs_out t" "vs_bitmap ?u = (vs_bitmap t)[k := Some i]"
        "vs_aio ?u = vs_aio t @ [\<lparr>aio_req = Bm_req i, aio_rw = False, aio_buf = Map_buf i, aio_secs = unat (vs_bm_secs s), aio_off = off\<rparr>]"
        using t3 by (simp_all add: upds lock_bitmap_def)
      have bu: "vbm_blk (the_bm ?u i) = blk" "vbm_tx (the_bm ?u i) = tx_zero" "vbm_queue (the_bm ?u i) = req_list_nil"
        "vbm_waiting (the_bm ?u i) = req_list_nil" "vbm_map (the_bm ?u i) = vbm_map (the_bm t i)" "vbm_shadow (the_bm ?u i) = vbm_shadow (the_bm t i)"
        "vbm_status (the_bm ?u i) = set_vhd_flag (set_vhd_flag 0 VHD_FLAG_BM_LOCKED) VHD_FLAG_BM_READ_PENDING"
        using bm3 T(1) by (simp_all add: upds lock_bitmap_def bm_zero_def)
      have bj: "bm_alike (the_bm ?u j) (the_bm t j) \<and> vbm_map (the_bm ?u j) = vbm_map (the_bm t j) \<and> vbm_shadow (the_bm ?u j) = vbm_shadow (the_bm t j)"
        if "j \<noteq> i" for j using that bm3 by (simp add: upds lock_bitmap_def bm_alike_def)
      have iu: "inv ?u G (insert (Bm_req i) ?Pd)"
      proof (rule inv_install [OF t(1) T(8) ni T(4,5) k(2,3) ub(12) T(10) [OF none]])
        have un: "\<not> unalloc ?u i" using e bu(1) ub(7) K(2) by (simp add: unalloc_def bat_table_def)
        show "bm_ok (prealloc t) False x tb (unalloc ?u i) True (Bm_req i \<in> insert (Bm_req i) ?Pd) 0 (the_bm ?u i)" for x tb
          by (rule bm_okI) (use un in \<open>simp_all add: bu tx_zero_def req_list_nil_def bitmap_locked_def bitmap_in_use_def\<close>)
        have "n_blocks ?u = n_blocks s" "vs_spb ?u = vs_spb s" "vs_bm_secs ?u = vs_bm_secs s" using K(4) ub T(7) by (simp_all add: n_blocks_def kept_def)
        then have sd: "same_disk s ?u" by (simp add: same_disk_def)
        show "bmreq_ok ?u (insert (Bm_req i) ?Pd) i"
          unfolding bmreq_ok_def same_diskD(3,4) [OF sd] ub bu Let_def using blk_start [OF invD(4) [OF I] blk] by simp
      qed (use K(4) blk T(7) bj in \<open>simp_all add: ub bu, simp_all add: T(1) bm_zero_def kept_def bm_alike_def\<close>)
      have "installed ?u i" using k(2) T(6) by (simp add: installed_def ub set_update_memI)
      then have g: "get_bitmap ?u blk = Some i" using get_bitmap_Some [OF invD(5) [OF iu]] bu(1) by simp
      have rd: "rd_pending (the_bm ?u i)" by (simp add: bu)
      have fl: "in_flight ?u = insert (Bm_req i) (in_flight s)" using K(8) by (auto simp: in_flight_def ub)
      have "rd_pending (the_bm ?u j)" if "rd_pending (the_bm s j)" for j
      proof -
        have "rd_pending (the_bm t j)" using T(7) that by (simp add: kept_def)
        then show ?thesis using rd bj [of j] by (cases "j = i") (simp_all add: bm_alike_def)
      qed
      moreover have "vs_aio t = vs_aio s" "vs_bm_secs t = vs_bm_secs s" using T(7) by (simp_all add: kept_def)
      ultimately have ao: "aio_ok ?u" using a(1) nf rd by (auto simp: aio_ok_def ub in_flight_def)
      have "owed ?u G = owed s G" using T(7) by (intro owed_data_cong) (auto simp: ub kept_def is_data_def)
      moreover have "reported ?u = reported s" using T(7) by (simp add: reported_def ub kept_def)
      moreover have "parked ?u G = D" unfolding PK [symmetric] 
        by (rule parked_data_cong [OF I]) (use T(7) in \<open>auto simp: ub kept_def is_data_def\<close>)
      ultimately have "ready D P A ?u" using iu fl nf a(2) ao A by (intro readyI [OF iu]) auto
      moreover have "same_disk s ?u" using K(4) ub T(7) by (simp add: same_disk_def n_blocks_def kept_def)
      ultimately show ?thesis using g rd k(1) unfolding install_bitmap_def wps by (simp add: wps lock_bitmap_def upds bm3)
    qed
    then show ?thesis unfolding wp_vbind wp_vmodify e2
      by (simp add: aio_read_def wps Let_def) (simp add: upd_req_def)
  qed
  show ?thesis
    unfolding schedule_bitmap_read_def wps
    using C(1,6) blk e none R by (simp add: wps wp_get_entry) (intro wp_alloc_vhd_bitmap [OF I] run [unfolded wps], simp_all)
qed

end
