(* ===== verification/Block_Vhd_Alloc.thy ===== *)
theory Block_Vhd_Alloc
  imports Block_Vhd_Cache
begin

text \<open>
  Allocation of a block under the invariant, with and without preallocation. It begins with a write of
  the driver's own, of the zeroed bitmap or of the table, that joins the transaction of the bitmap.
\<close>

lemma idle_reqs:
  assumes I: "inv s G Pd"
  shows "Zero_req \<notin> Pd \<Longrightarrow> g_own G Zero_req = Idle" "Bat_req \<notin> Pd \<Longrightarrow> g_own G Bat_req = Idle" "g_own G (Bm_req j) = Idle"
  using invD(8) [OF I] by (auto simp: reqs_ok_def zero_ok_def batreq_ok_def Let_def split: if_splits)

lemma unlocked:
  assumes "inv s G Pd" and "\<not> bat_locked s"
  shows "vb_status (vs_bat s) = 0" "Zero_req \<notin> Pd" "Bat_req \<notin> Pd" "bat_err s = 0" "bat_tx s = None" "\<not> has_lock s j"
  using invD(3) [OF assms(1)] assms(2) by (auto simp: bat_ok_def bat_idle_def has_lock_def)

text \<open>Allocation of a block begins: the first write of its own, \<open>r\<close>, joins the transaction of its bitmap.\<close>

lemma inv_begin:
  assumes I: "inv s G Pd" and nl: "\<not> bat_locked s" and g: "get_bitmap s blk = Some i" and e: "bat_table s ! unat blk = DD_BLK_UNUSED"
    and r: "r = Zero_req \<and> \<not> prealloc s \<or> r = Bat_req \<and> prealloc s" and p: "p = In_tx i"
    and rl: "rlist (nexts t) (tx_requests (vbm_tx (the_bm t i))) (g_tx G i @ [r])"
    and rq: "\<And>q. q \<noteq> r \<Longrightarrow> vs_req t q = (if g_tx G i \<noteq> [] \<and> q = last (g_tx G i) then (vs_req s q)\<lparr>vr_next := Some r\<rparr> else vs_req s q)"
    and bm: "\<And>j. j \<noteq> i \<Longrightarrow> the_bm t j = the_bm s j" and bmq: "vbm_queue (the_bm t i) = vbm_queue (the_bm s i)"
      "vbm_waiting (the_bm t i) = vbm_waiting (the_bm s i)" "rd_pending (the_bm t i) = rd_pending (the_bm s i)"
    and fr: "same_frame s t" and v: "bat_locked t" "vb_pbw_blk (vs_bat t) = blk" "bat_table t = bat_table s" "vs_vreq_free t = vs_vreq_free s"
    and ok: "zero_ok t (placed G r p) (insert r Pd)" "batreq_ok t (placed G r p) (insert r Pd)"
    and ph: "alloc_phase t (placed G r p) (insert r Pd) i" "tx_live (the_bm t i)"
    and bi: "\<not> tx_closed (vbm_tx (the_bm s i)) \<Longrightarrow> \<not> rd_pending (the_bm s i) \<Longrightarrow>
      bm_ok (prealloc s) False 0 False True True (Bm_req i \<in> Pd) (n_pending G Pd i) (the_bm s i) \<Longrightarrow>
      bm_ok (prealloc s) True (bat_err t) (bat_tx t = Some i) True True (Bm_req i \<in> Pd) (Suc (n_pending G Pd i)) (the_bm t i)"
  shows "inv t (placed G r p) (insert r Pd)"
proof -
  let ?G = "placed G r p" and ?P = "insert r Pd"
  note U = unlocked [OF I nl]
  note L = listsD [OF invD(6) [OF I]]
  have own: "g_own G r = Idle" "r \<notin> Pd" using idle_reqs [OF I] U r by auto
  have gi: "installed s i" "vbm_blk (the_bm s i) = blk" using g get_bitmap_Some [OF invD(5) [OF I]] by simp_all
  have un: "unalloc s i" using e gi by (simp add: unalloc_def)
  have ul: "unalloc t j = unalloc s j" for j by (rule unalloc_frame [OF fr v(3)])
  have hl: "has_lock t j \<longleftrightarrow> j = i" for j
  proof -
    have "has_lock t j \<longleftrightarrow> installed s j \<and> vbm_blk (the_bm s j) = blk" using same_frameD(7,9) [OF fr] v(1,2) by (simp add: has_lock_def)
    also have "\<dots> \<longleftrightarrow> get_bitmap s blk = Some j" using get_bitmap_Some [OF invD(5) [OF I]] by simp
    finally show ?thesis using g by auto
  qed
  note B = bm_okD [OF invD(2) [OF I, of i, unfolded bitmap_ok_def]]
  have rd: "\<not> rd_pending (the_bm s i)" using B(11) un by blast
  have op: "\<not> tx_closed (vbm_tx (the_bm s i))" using B(16) un U(6) by blast
  have nd: "\<not> is_data r" "\<And>j. r \<noteq> Bm_req j" using r by auto
  have lx: "g_tx G i \<noteq> [] \<Longrightarrow> last (g_tx G i) \<in> set (g_tx G i)" by simp
  have ls: "lists_ok t ?G" unfolding placed_def
  proof (rule lists_link [OF invD(6) [OF I]])
    show "nexts t q = nexts s q" if "q \<noteq> r" "q \<notin> set (g_list G p)" for q using that lx rq [of q] p by auto
    show "list_at t p' = list_at s p'" if "p' \<noteq> p" for p' using that bm bmq p by (cases p') (auto, (metis list_at.simps)+)
  qed (use rl p own in simp_all)
  have core: "core_ok t ?G ?P"
  proof (rule core_move [OF invD(1) [OF I] fr _ ls, of r p])
    have "g_own G (last (g_tx G i)) \<notin> {Free, Loose}" if "g_tx G i \<noteq> []" using lx [OF that] L(3) [of "In_tx i"] by auto
    then have "vs_req t q = vs_req s q \<or> g_own G q \<notin> {Free, Loose} \<and> (\<exists>n. vs_req t q = (vs_req s q)\<lparr>vr_next := n\<rparr>)" if "q \<noteq> r" for q
      using rq [OF that] by (cases "g_tx G i \<noteq> [] \<and> q = last (g_tx G i)") (simp_all, blast)
    then show "req_frame s t G r" by (simp add: req_frame_def)
    show "pool_ok t ?G" using invD(7) [OF I] own p by (auto simp: pool_ok_def v placed_def)
    show "rd_pending (the_bm t j) = rd_pending (the_bm s j)" for j using bm [of j] bmq by (cases "j = i") simp_all
  qed (use ok r in \<open>auto simp: placed_def\<close>)
  have be: "vs_req t Bat_req = vs_req s Bat_req" if "r = Zero_req"
  proof -
    have "Bat_req \<noteq> last (g_tx G i)" if "g_tx G i \<noteq> []" using lx [OF that] L(3) [of "In_tx i" Bat_req] idle_reqs(2) [OF I U(3)] by auto
    then show ?thesis using rq [of Bat_req] that by auto
  qed
  have np: "n_pending ?G ?P j = (if j = i then Suc (n_pending G Pd i) else n_pending G Pd j)" for j
  proof -
    have "r \<notin> set (g_tx G j)" using L(3) [of "In_tx j" r] own by auto
    then have "filter (\<lambda>q. q \<in> ?P) (g_tx G j) = filter (\<lambda>q. q \<in> Pd) (g_tx G j)" by (intro filter_cong) auto
    then have "length (filter (\<lambda>q. q \<in> ?P) (g_tx G j)) = n_pending G Pd j" by (simp only: n_pending_def)
    moreover have "n_pending ?G ?P j = length (filter (\<lambda>q. q \<in> ?P) (g_tx ?G j))" by (simp only: n_pending_def)
    moreover have "g_tx ?G j = (if j = i then g_tx G j @ [r] else g_tx G j)" by (simp add: placed_def p)
    ultimately show ?thesis by (cases "j = i") simp_all
  qed
  have "bitmap_ok t ?G ?P j" for j
  proof (cases "j = i")
    case False
    then show ?thesis
      by (intro bitmap_ok_frame [OF invD(2) [OF I]]) (simp_all add: bm same_frameD [OF fr] ul hl U(6) np nd(2) [symmetric])
  next
    case True
    have "bm_ok (prealloc s) False 0 False True True (Bm_req i \<in> Pd) (n_pending G Pd i) (the_bm s i)"
      using invD(2) [OF I, of i] un gi U by (simp add: bitmap_ok_def)
    then show ?thesis using bi [OF op rd] gi un
      by (simp add: True bitmap_ok_def same_frameD [OF fr] hl ul np nd(2) [symmetric])
  qed
  moreover have "bat_ok t ?G ?P"
    using v(1) hl ul un ph bmq(3) rd by (auto simp: bat_ok_def)
  ultimately show ?thesis using core by (simp add: inv_def)
qed

lemma bm_ok_begin:
  assumes "bm_ok pr False 0 False True True bp n b" and "\<not> tx_closed (vbm_tx b)" and "\<not> rd_pending b" and "rl_head l \<noteq> None" and "f \<longrightarrow> \<not> pr"
  shows "bm_ok pr True 0 tb True True bp (Suc n) (b\<lparr>vbm_status := set_vhd_flag (vbm_status b) VHD_FLAG_BM_LOCKED,
     vbm_tx := (vbm_tx b)\<lparr>tx_started := tx_started (vbm_tx b) + 1, tx_requests := l,
       tx_status := (let w = set_vhd_flag (tx_status (vbm_tx b)) VHD_FLAG_TX_LIVE in if f then set_vhd_flag w VHD_FLAG_TX_UPDATE_BAT else w)\<rparr>\<rparr>)"
  by (cases f; rule bm_okI; use bm_okD [OF assms(1)] assms(2-) in \<open>simp add: bitmap_locked_def bitmap_in_use_def Let_def\<close>)

section \<open>Submission as a change of the state\<close>

definition aio_state :: "bool \<Rightarrow> rid \<Rightarrow> u64 \<Rightarrow> vhd_state \<Rightarrow> vhd_state" where
  "aio_state rw r off s = snd (aio_call rw r off s)"

lemma wp_aio_state: "wp (aio_read r off) Q E s = Q () (aio_state False r off s)" "wp (aio_write r off) Q E s = Q () (aio_state True r off s)"
  by (simp_all add: aio_state_def aio_call_def wp_def aio_read_def aio_write_def vmodify_def)

lemma ready_aio:
  assumes "ready D (insert r P) A s" and "r \<notin> P" and "rw \<or> (\<forall>i. td_buf (vr_treq (vs_req s r)) \<noteq> Map_buf i)"
  shows "ready D P A (aio_state rw r off s)" "same_disk s (aio_state rw r off s)"
proof -
  have "wp (aio_call rw r off) (\<lambda>_ t. ready D P A t \<and> same_disk s t) E s" for E :: "int \<Rightarrow> vhd_state \<Rightarrow> bool"
    by (rule wp_submit [OF assms]) blast
  then have "wp (aio_call rw r off) (\<lambda>_ t. ready D P A t \<and> same_disk s t) (\<lambda>_ _. False) s" .
  then show "ready D P A (aio_state rw r off s)" "same_disk s (aio_state rw r off s)"
    by (auto simp: aio_state_def aio_call_def wp_def aio_read_def aio_write_def vmodify_def split: if_splits)
qed

lemma aio_state_simps [simp]:
  "vs_flags (aio_state rw r off s) = vs_flags s" "vs_vhd (aio_state rw r off s) = vs_vhd s" "vs_spp (aio_state rw r off s) = vs_spp s"
  "vs_spb (aio_state rw r off s) = vs_spb s" "vs_first_db (aio_state rw r off s) = vs_first_db s" "vs_next_db (aio_state rw r off s) = vs_next_db s"
  "vs_bat (aio_state rw r off s) = vs_bat s" "vs_bm_secs (aio_state rw r off s) = vs_bm_secs s" "vs_bitmap (aio_state rw r off s) = vs_bitmap s"
  "vs_bitmap_free (aio_state rw r off s) = vs_bitmap_free s" "vs_bitmap_list (aio_state rw r off s) = vs_bitmap_list s"
  "vs_vreq_free (aio_state rw r off s) = vs_vreq_free s" "vs_req (aio_state rw r off s) = vs_req s" "vs_zsize (aio_state rw r off s) = vs_zsize s"
  "vs_out (aio_state rw r off s) = vs_out s" "vs_padbm_size (aio_state rw r off s) = vs_padbm_size s"
  by (cases rw; simp add: aio_state_def aio_call_def aio_read_def aio_write_def vmodify_def Let_def)+

lemma aio_state_upd:
  "upd_tx i f (aio_state rw r off s) = aio_state rw r off (upd_tx i f s)" "upd_bm i g (aio_state rw r off s) = aio_state rw r off (upd_bm i g s)"
  "upd_vbat h (aio_state rw r off s) = aio_state rw r off (upd_vbat h s)"
  "vr_treq (k (vs_req s q)) = vr_treq (vs_req s q) \<Longrightarrow> upd_req q k (aio_state rw r off s) = aio_state rw r off (upd_req q k s)"
  by (cases rw; auto simp: aio_state_def aio_call_def aio_read_def aio_write_def vmodify_def Let_def upds)+

section \<open>Adding to a transaction\<close>

definition in_tx :: "nat \<Rightarrow> rid \<Rightarrow> rid list \<Rightarrow> vhd_req_list \<Rightarrow> vhd_state \<Rightarrow> vhd_state" where
  "in_tx i r xs l s = (let t = upd_tx i (\<lambda>t. t\<lparr>tx_started := tx_started t + 1\<rparr>) (upd_req r (\<lambda>q. q\<lparr>vr_tx := Some i\<rparr>) s)
     in upd_tx i (\<lambda>t. t\<lparr>tx_requests := l, tx_status := set_vhd_flag (tx_status t) VHD_FLAG_TX_LIVE\<rparr>)
       (if xs = [] then t else upd_req (last xs) (\<lambda>q. q\<lparr>vr_next := Some r\<rparr>) t))"

lemma in_tx_simps [simp]:
  "vs_flags (in_tx i r xs l s) = vs_flags s" "vs_vhd (in_tx i r xs l s) = vs_vhd s" "vs_spp (in_tx i r xs l s) = vs_spp s"
  "vs_spb (in_tx i r xs l s) = vs_spb s" "vs_bat (in_tx i r xs l s) = vs_bat s" "vs_bm_secs (in_tx i r xs l s) = vs_bm_secs s"
  "vs_bitmap (in_tx i r xs l s) = vs_bitmap s" "vs_bitmap_free (in_tx i r xs l s) = vs_bitmap_free s"
  "vs_vreq_free (in_tx i r xs l s) = vs_vreq_free s" "vs_zsize (in_tx i r xs l s) = vs_zsize s" "vs_aio (in_tx i r xs l s) = vs_aio s"
  "vs_out (in_tx i r xs l s) = vs_out s" "vs_next_db (in_tx i r xs l s) = vs_next_db s"
  by (simp_all add: in_tx_def Let_def upds)

lemma in_tx_bm: "the_bm (in_tx i r xs l s) j = (if j = i then (the_bm s i)\<lparr>vbm_tx := (vbm_tx (the_bm s i))\<lparr>tx_started := tx_started (vbm_tx (the_bm s i)) + 1,
    tx_requests := l, tx_status := set_vhd_flag (tx_status (vbm_tx (the_bm s i))) VHD_FLAG_TX_LIVE\<rparr>\<rparr> else the_bm s j)"
  by (simp add: in_tx_def Let_def upds)

lemma in_tx_req: "r \<notin> set xs \<Longrightarrow> vs_req (in_tx i r xs l s) q = (if q = r then (vs_req s r)\<lparr>vr_tx := Some i\<rparr>
    else if xs \<noteq> [] \<and> q = last xs then (vs_req s q)\<lparr>vr_next := Some r\<rparr> else vs_req s q)"
  using last_in_set [of xs] by (auto simp: in_tx_def Let_def upds)

lemma wp_add_to_transaction:
  assumes rl: "rlist (nexts s) (tx_requests (vbm_tx (the_bm s i))) xs" "distinct xs" "r \<notin> set xs" "vr_next (vs_req s r) = None"
    and op: "\<not> tx_closed (vbm_tx (the_bm s i))"
    and Q: "\<And>l. rlist (nexts (in_tx i r xs l s)) l (xs @ [r]) \<Longrightarrow> Q () (in_tx i r xs l s)"
  shows "wp (add_to_transaction i r) Q E s"
proof -
  let ?s2 = "upd_tx i (\<lambda>t. t\<lparr>tx_started := tx_started t + 1\<rparr>) (upd_req r (\<lambda>q. q\<lparr>vr_tx := Some i\<rparr>) s)"
  have n2: "nexts ?s2 = nexts s" by (auto simp: fun_eq_iff upds)
  have rl2: "rlist (nexts ?s2) (tx_requests (vbm_tx (the_bm s i))) xs" using rl(1) unfolding n2 .
  have nx: "nexts ?s2 r = None" by (rule trans [OF fun_cong [OF n2] rl(4)])
  have goal: "Q () (upd_tx i (\<lambda>t. t\<lparr>tx_requests := l, tx_status := set_vhd_flag (tx_status t) VHD_FLAG_TX_LIVE\<rparr>) t)"
    if "t = (if xs = [] then ?s2 else upd_req (last xs) (\<lambda>q. q\<lparr>vr_next := Some r\<rparr>) ?s2)" "rlist (nexts t) l (xs @ [r])" for t l
  proof -
    have e: "upd_tx i (\<lambda>t. t\<lparr>tx_requests := l, tx_status := set_vhd_flag (tx_status t) VHD_FLAG_TX_LIVE\<rparr>) t = in_tx i r xs l s"
      by (simp add: in_tx_def that(1) Let_def)
    have "nexts (in_tx i r xs l s) = nexts t" unfolding e [symmetric] by (auto simp: upds fun_eq_iff)
    then show ?thesis using Q [of l] that(2) e by simp
  qed
  show ?thesis unfolding add_to_transaction_def wps
    by (intro conjI op wp_add_to_tail [OF rl2 rl(3,2) nx] goal)
qed

definition joinable :: "vhd_state \<Rightarrow> u32 \<Rightarrow> bool" where
  "joinable s blk \<longleftrightarrow> (\<exists>i. get_bitmap s blk = Some i \<and> \<not> rd_pending (the_bm s i) \<and> (unalloc s i \<longrightarrow> has_lock s i))"

lemma locked_joinable:
  assumes "inv s G Pd" and "bat_locked s"
  shows "joinable s (vb_pbw_blk (vs_bat s))"
  using invD(3) [OF assms(1)] assms(2) get_bitmap_Some [OF invD(5) [OF assms(1)]] by (auto simp: bat_ok_def joinable_def has_lock_def)

lemma unat_gap: "driver_cfg s \<Longrightarrow> unat (db_gap s) \<le> unat (vs_spp s)"
proof -
  assume c: "driver_cfg s"
  let ?p = "ucast (vs_spp s) :: u64" and ?m = "(vs_next_db s + ucast (vs_bm_secs s)) mod ucast (vs_spp s)"
  have p: "unat ?p = unat (vs_spp s)" by (rule unat_ucast_u64)
  have "unat ?m < unat ?p" using cfgD(3) [OF c] by (simp add: unat_mod p unat_gt_0)
  then have "?m \<le> ?p" by (simp add: word_le_nat_alt)
  then have "unat (?p - ?m) \<le> unat ?p" by (simp add: unat_sub)
  then show ?thesis by (simp add: db_gap_def Let_def p)
qed

lemma zeros_enough:
  assumes c: "driver_cfg s" and n: "unat n \<le> unat (vs_spp s)"
  shows "vs_zsize s \<noteq> 0" "vhd_sectors_to_bytes (n + ucast (vs_bm_secs s)) \<le> vs_zsize s"
proof -
  have b: "unat (vs_bm_secs s) + unat (vs_spp s) < 4194304" "512 * (unat (vs_bm_secs s) + unat (vs_spp s)) \<le> unat (vs_zsize s)"
    "vs_bm_secs s \<noteq> 0" using c by (simp_all add: driver_cfg_def)
  then show "vs_zsize s \<noteq> 0" by (auto simp: unat_eq_0)
  have u: "unat (n + ucast (vs_bm_secs s)) = unat n + unat (vs_bm_secs s)"
    using n b unat_add_lem [of n "ucast (vs_bm_secs s)"] by (simp add: unat_ucast_u64)
  then have "unat (vhd_sectors_to_bytes (n + ucast (vs_bm_secs s))) = 512 * (unat n + unat (vs_bm_secs s))"
    using b n by (subst unat_sectors_to_bytes) simp_all
  also have "\<dots> \<le> unat (vs_zsize s)" using n b by simp
  finally show "vhd_sectors_to_bytes (n + ucast (vs_bm_secs s)) \<le> vs_zsize s" by (simp add: word_le_nat_alt)
qed


lemma wp_update_bat:
  assumes R: "ready D P A s" and e: "bat_table s ! unat blk = DD_BLK_UNUSED" and blk: "unat blk < n_blocks s" and np: "\<not> prealloc s"
    and lk: "bat_locked s \<Longrightarrow> vb_pbw_blk (vs_bat s) = blk"
  shows "wp (update_bat blk) (\<lambda>_ t. ready D P A t \<and> same_disk s t \<and> joinable t blk) (\<lambda>_ t. ready D P A t \<and> same_disk s t) s"
proof -
  from R obtain G where I: "inv s G (P \<union> in_flight s)" and a: "aio_ok s" "P \<inter> in_flight s = {}" and A: "reported s + owed s G = A" and PK: "parked s G = D"
    by (rule readyE)
  let ?Pd = "P \<union> in_flight s"
  have tl: "unat blk < length (bat_table s)" using cfgD(6) [OF invD(4) [OF I]] blk by simp
  have run: "wp (vthen (vmodify lock_bat) (vbind (reserve_new_block blk) (\<lambda>lb_end. vthen (schedule_zero_bm_write i lb_end)
        (vmodify (upd_tx i (\<lambda>t. t\<lparr>tx_status := set_vhd_flag (tx_status t) VHD_FLAG_TX_UPDATE_BAT\<rparr>))))))
      (\<lambda>_ t. ready D P A t \<and> same_disk s t \<and> joinable t blk) E t"
    if t: "inv t G ?Pd" "get_bitmap t blk = Some i" "kept s t" and nl: "\<not> bat_locked s" for t i E
  proof -
    note K = keptD [OF t(3)]
    let ?xs = "g_tx G i"
    have nlt: "\<not> bat_locked t" using nl K(3) by simp
    note U = unlocked [OF t(1) nlt]
    note L = listsD [OF invD(6) [OF t(1)], of "In_tx i", simplified]
    have gi: "installed t i" "vbm_blk (the_bm t i) = blk" using t(2) get_bitmap_Some [OF invD(5) [OF t(1)]] by simp_all
    have et: "bat_table t ! unat blk = DD_BLK_UNUSED" using e K(2) by simp
    have un: "unalloc t i" using et gi by (simp add: unalloc_def)
    note B = bm_okD [OF invD(2) [OF t(1), of i, unfolded bitmap_ok_def]]
    have rd: "\<not> rd_pending (the_bm t i)" using B(11) un by blast
    have op: "\<not> tx_closed (vbm_tx (the_bm t i))" using B(16) un U(6) by blast
    have own: "g_own G Zero_req = Idle" using idle_reqs(1) [OF t(1) U(2)] .
    have nin: "Zero_req \<notin> set ?xs" using L(3) own by simp
    let ?t1 = "upd_vbat (\<lambda>b. b\<lparr>vb_pbw_blk := blk, vb_pbw_offset := vs_next_db (lock_bat t) + db_gap (lock_bat t)\<rparr>) (lock_bat t)"
    let ?secs = "(vb_pbw_offset (vs_bat ?t1) - vs_next_db (lock_bat t)) + ucast (vs_bm_secs ?t1)"
    let ?z = "new_req (td_zero\<lparr>td_sec := ucast (blk * vs_spb t), td_secs := unat ?secs, td_buf := Zeros_buf\<rparr>) 0 VHD_OP_ZERO_BM_WRITE"
    let ?t2 = "lock_bitmap i (upd_req Zero_req (\<lambda>_. ?z) ?t1)"
    have e2: "lock_bitmap i (upd_req Zero_req (\<lambda>q. q\<lparr>vr_op := VHD_OP_ZERO_BM_WRITE,
        vr_treq := (vr_treq q)\<lparr>td_sec := ucast (vb_pbw_blk (vs_bat ?t1) * vs_spb ?t1), td_secs := unat ?secs, td_buf := Zeros_buf\<rparr>,
        vr_next := None\<rparr>) (init_vhd_request Zero_req ?t1)) = ?t2"
      by (simp add: init_vhd_request_def new_req_def req_zero_def upds lock_bat_def)
    have st: "\<not> test_vhd_flag (vb_status (vs_bat (lock_bat t))) VHD_FLAG_BAT_WRITE_STARTED"
      using U(1) by (simp add: lock_bat_def upds)
    have zz: "vs_zsize ?t1 \<noteq> 0 \<and> vhd_sectors_to_bytes ?secs \<le> vs_zsize ?t1"
    proof -
      have "?secs = db_gap (lock_bat t) + ucast (vs_bm_secs t)" by (simp add: upds lock_bat_def)
      moreover have "db_gap (lock_bat t) = db_gap t" by (simp add: db_gap_def lock_bat_def upds Let_def)
      ultimately show ?thesis using zeros_enough [OF invD(4) [OF t(1)] unat_gap [OF invD(4) [OF t(1)]]] by (simp add: upds lock_bat_def)
    qed
    have goal: "ready D P A u \<and> same_disk s u \<and> joinable u blk"
      if rl: "rlist (nexts (in_tx i Zero_req ?xs l ?t2)) l (?xs @ [Zero_req])"
        and u: "u = upd_tx i (\<lambda>t. t\<lparr>tx_status := set_vhd_flag (tx_status t) VHD_FLAG_TX_UPDATE_BAT\<rparr>) (aio_state True Zero_req off (in_tx i Zero_req ?xs l ?t2))" for l off u
    proof -
      define w where "w = upd_tx i (\<lambda>t. t\<lparr>tx_status := set_vhd_flag (tx_status t) VHD_FLAG_TX_UPDATE_BAT\<rparr>) (in_tx i Zero_req ?xs l ?t2)"
      let ?G = "placed G Zero_req (In_tx i)"
      have uw: "u = aio_state True Zero_req off w" unfolding u w_def by (simp add: aio_state_upd)
      have wb: "the_bm w j = (if j = i then (the_bm t i)\<lparr>vbm_status := set_vhd_flag (vbm_status (the_bm t i)) VHD_FLAG_BM_LOCKED,
          vbm_tx := (vbm_tx (the_bm t i))\<lparr>tx_started := tx_started (vbm_tx (the_bm t i)) + 1, tx_requests := l,
           tx_status := set_vhd_flag (set_vhd_flag (tx_status (vbm_tx (the_bm t i))) VHD_FLAG_TX_LIVE) VHD_FLAG_TX_UPDATE_BAT\<rparr>\<rparr>
         else the_bm t j)" for j
        unfolding w_def by (simp add: in_tx_bm upd_tx_def [of i "\<lambda>t. t\<lparr>tx_status := set_vhd_flag (tx_status t) VHD_FLAG_TX_UPDATE_BAT\<rparr>"] upd_bm_def)
          (simp add: lock_bitmap_def upds lock_bat_def)
      have wq: "vs_req w q = (if q = Zero_req then ?z\<lparr>vr_tx := Some i\<rparr> else if ?xs \<noteq> [] \<and> q = last ?xs then (vs_req t q)\<lparr>vr_next := Some Zero_req\<rparr> else vs_req t q)" for q
        using in_tx_req [OF nin, of i l ?t2 q] unfolding w_def by (simp add: upd_tx_def upd_bm_def) (simp add: lock_bitmap_def upds lock_bat_def)
      have wr: "vs_flags w = vs_flags t" "vs_vhd w = vs_vhd t" "vs_spb w = vs_spb t" "vs_spp w = vs_spp t" "vs_bm_secs w = vs_bm_secs t"
        "vs_zsize w = vs_zsize t" "vs_bitmap w = vs_bitmap t" "vs_bitmap_free w = vs_bitmap_free t" "vs_vreq_free w = vs_vreq_free t"
        "vs_out w = vs_out t" "vs_aio w = vs_aio t" "vb_bat (vs_bat w) = vb_bat (vs_bat t)" "vb_batmap (vs_bat w) = vb_batmap (vs_bat t)"
        "vb_status (vs_bat w) = set_vhd_flag 0 VHD_FLAG_BAT_LOCKED" "vb_pbw_blk (vs_bat w) = blk"
        unfolding w_def using U(1) by (simp_all add: upd_tx_def upd_bm_def) (simp_all add: lock_bitmap_def upds lock_bat_def)
      have fr: "same_frame t w" by (simp add: same_frame_def wr wb bat_table_def)
      note F = same_frameD [OF fr]
      have zo: "zero_ok w ?G (insert Zero_req ?Pd)"
        using blk_start [OF invD(4) [OF t(1)], of blk] blk K(4) gi by (simp add: zero_ok_def Let_def wq placed_def F)
      have be: "vs_req w Bat_req = vs_req t Bat_req"
      proof -
        have "Bat_req \<noteq> last ?xs" if "?xs \<noteq> []" using last_in_set [OF that] L(3) idle_reqs(2) [OF t(1) U(3)] by auto
        then show ?thesis by (auto simp: wq)
      qed
      have bo: "batreq_ok w ?G (insert Zero_req ?Pd)"
        using idle_reqs(2) [OF t(1) U(3)] U(3) by (simp add: batreq_ok_def Let_def placed_def)
      have nx: "nexts w = nexts (in_tx i Zero_req ?xs l ?t2)" unfolding w_def by (simp add: upd_tx_def upd_bm_def)
      have J: "inv w ?G (insert Zero_req ?Pd)"
      proof (rule inv_begin [OF t(1) nlt t(2) et _ refl _ _ _ _ _ _ fr _ _ _ _ zo bo])
        show "rlist (nexts w) (tx_requests (vbm_tx (the_bm w i))) (?xs @ [Zero_req])" unfolding nx using rl by (simp add: wb)
        show "alloc_phase w ?G (insert Zero_req ?Pd) i"
          using np K(10) U by (simp add: alloc_phase_def Let_def F be wr wb placed_def)
        show "bm_ok (prealloc t) True (bat_err w) (bat_tx w = Some i) True True (Bm_req i \<in> ?Pd) (Suc (n_pending G ?Pd i)) (the_bm w i)"
          if "bm_ok (prealloc t) False 0 False True True (Bm_req i \<in> ?Pd) (n_pending G ?Pd i) (the_bm t i)"
          using bm_ok_begin [OF that op rd, of l True "bat_tx t = Some i"] rlist_head [OF rl] np K(10) U(4) by (simp add: wb be Let_def)
        show "q \<noteq> Zero_req \<Longrightarrow> vs_req w q = (if ?xs \<noteq> [] \<and> q = last ?xs then (vs_req t q)\<lparr>vr_next := Some Zero_req\<rparr> else vs_req t q)" for q
          by (simp add: wq)
        show "Zero_req = Zero_req \<and> \<not> prealloc t \<or> Zero_req = Bat_req \<and> prealloc t" using np K(10) by simp
        show "bat_locked w" "bat_table w = bat_table t" by (simp_all add: wr bat_locked_def bat_table_def)
      qed (simp_all add: wb wr)
      have fl: "in_flight w = in_flight s" "in_flight t = in_flight s" using K(8) wr by (simp_all add: in_flight_def)
      have ao: "aio_ok w" by (rule aio_ok_same(1) [OF K(12) [OF a(1)] wr(11)]) (auto simp: wb wr)
      have "owed w ?G = owed t G"
        by (intro owed_cong) (auto simp: contrib_def wq placed_def)
      moreover have "reported w = reported t" by (simp add: reported_def wr)
      ultimately have "reported w + owed w ?G = A" using A K(9,11) by simp
      moreover have "parked w ?G = D"
        using parked_placed [OF invD(6) [OF t(1)], of "In_tx i" Zero_req w] own parked_kept [OF I t(3)] PK by (simp add: wq)
      ultimately have "ready D (insert Zero_req P) A w" using J fl U(2) a(2) ao by (intro readyI [OF J]) auto
      moreover have "Zero_req \<notin> P" using U(2) by blast
      ultimately have r: "ready D P A u" "same_disk w u"
        unfolding uw by (auto intro!: ready_aio simp: wq)
      have sd: "same_disk s u" using same_disk_trans K(1) same_disk_frame [OF fr] r(2) by blast
      from r(1) obtain G' where G': "inv u G' (P \<union> in_flight u)" by (rule readyE)
      have "vs_bat u = vs_bat w" unfolding uw by simp
      then have "joinable u blk" using locked_joinable [OF G'] wr by (simp add: bat_locked_def)
      with r(1) sd show ?thesis by blast
    qed
    have x2: "rlist (nexts ?t2) (tx_requests (vbm_tx (the_bm ?t2 i))) ?xs"
    proof -
      have "rlist (nexts ?t2) (tx_requests (vbm_tx (the_bm t i))) ?xs = rlist (nexts t) (tx_requests (vbm_tx (the_bm t i))) ?xs"
        by (rule rlist_cong) (use nin in \<open>auto simp: lock_bitmap_def upds lock_bat_def\<close>)
      then show ?thesis using L(1) by (simp add: lock_bitmap_def upds lock_bat_def)
    qed
    have n2: "nexts ?t2 Zero_req = None" by (simp add: lock_bitmap_def upds)
    have o2: "\<not> tx_closed (vbm_tx (the_bm ?t2 i))" using op by (simp add: lock_bitmap_def upds lock_bat_def)
    have zi: "vs_zsize (init_vhd_request Zero_req ?t1) = vs_zsize ?t1" by (simp add: init_vhd_request_def upd_req_def)
    have fin: "wp (aio_write Zero_req off) (\<lambda>x v. ready D P A (upd_tx i (\<lambda>t. t\<lparr>tx_status := set_vhd_flag (tx_status t) VHD_FLAG_TX_UPDATE_BAT\<rparr>) v) \<and>
        same_disk s (upd_tx i (\<lambda>t. t\<lparr>tx_status := set_vhd_flag (tx_status t) VHD_FLAG_TX_UPDATE_BAT\<rparr>) v) \<and>
        joinable (upd_tx i (\<lambda>t. t\<lparr>tx_status := set_vhd_flag (tx_status t) VHD_FLAG_TX_UPDATE_BAT\<rparr>) v) blk) E (in_tx i Zero_req ?xs l ?t2)"
      if "rlist (nexts (in_tx i Zero_req ?xs l ?t2)) l (?xs @ [Zero_req])" for l off
      unfolding wp_aio_state by (rule goal [OF that refl])
    show ?thesis
      unfolding reserve_new_block_def schedule_zero_bm_write_def get_vhd_zeros_def wps Let_def e2 zi
      by (intro conjI st conjunct1 [OF zz] conjunct2 [OF zz] wp_add_to_transaction [OF x2 L(2) nin n2 o2] fin)
  qed
  show ?thesis
  proof (cases "bat_locked s")
    case True
    then show ?thesis using e tl lk R locked_joinable [OF I] by (simp add: update_bat_def wps wp_get_entry)
  next
    case False
    then show ?thesis using e tl R
      unfolding update_bat_def wps wp_get_entry
      by (simp add: wps) (intro wp_cached_bitmap [OF I blk] run [unfolded wps], simp_all)
  qed
qed

lemma inv_pbw:
  assumes I: "inv s G Pd" and nl: "\<not> bat_locked s"
  shows "inv (upd_vbat (\<lambda>b. b\<lparr>vb_pbw_blk := x\<rparr>) s) G Pd" (is "inv ?t G Pd")
proof -
  note U = unlocked [OF I nl]
  have bt: "bat_table ?t = bat_table s" "bat_locked ?t = bat_locked s" by (simp_all add: bat_table_def bat_locked_def upd_vbat_def)
  have C: "core_ok ?t G Pd" using invD(1) [OF I] bt by (subst core_cong [of ?t s]) (simp_all add: upd_vbat_def)
  have ins: "installed ?t j = installed s j" "unalloc ?t j = unalloc s j" for j
    by (simp_all add: installed_def unalloc_def bt) (simp_all add: upd_vbat_def)
  have "bitmap_ok ?t G Pd j" for j
    by (rule bitmap_ok_frame [OF invD(2) [OF I]]) (use nl bt ins in \<open>simp_all add: has_lock_def, simp_all add: upd_vbat_def\<close>)
  moreover have "bat_ok ?t G Pd" using nl bt U by (simp add: bat_ok_def bat_idle_def) (simp add: upd_vbat_def)
  ultimately show ?thesis using C by (simp add: inv_def)
qed

lemma lseek_ctx: "lseek64 off w v = (r, u) \<Longrightarrow> st_ctx u = st_ctx v"
  by (cases w) (auto simp: lseek64_def take_ev_def set_errno_def fstat_size_def Let_def split: list.splits io_ev.splits option.splits prod.splits if_splits)

lemma pwrite_ctx: "pwrite_call bs off v = (n, u) \<Longrightarrow> st_ctx u = st_ctx v"
  by (auto simp: pwrite_call_def take_ev_def set_errno_def set_cur_file_def Let_def split: list.splits io_ev.splits option.splits prod.splits if_splits)

lemma wp_write_zeros_at:
  assumes Q: "\<And>v. st_ctx v = vctx s \<Longrightarrow> Q () (s\<lparr>vs_vhd := v\<rparr>)" and E: "\<And>v n. st_ctx v = vctx s \<Longrightarrow> E n (s\<lparr>vs_vhd := v\<rparr>)"
  shows "wp (write_zeros_at off sz) Q E s"
  unfolding wp_def write_zeros_at_def on_lib_def
  using Q E by (auto dest!: lseek_ctx pwrite_ctx split: prod.splits option.splits if_splits)

definition bat_write_state :: "u32 list \<Rightarrow> vhd_state \<Rightarrow> vhd_state" where
  "bat_write_state buf s = upd_vbat (\<lambda>b. b\<lparr>vb_bat_buf := buf, vb_status := set_vhd_flag (vb_status b) VHD_FLAG_BAT_WRITE_STARTED\<rparr>)
     (upd_req Bat_req (\<lambda>_. new_req (td_zero\<lparr>td_secs := 1, td_buf := Bat_buf\<rparr>) 0 VHD_OP_BAT_WRITE) s)"

lemma bat_sector:
  assumes c: "driver_cfg s" and b: "unat (blk :: u32) < n_blocks s"
  shows "unat (blk - blk mod 128) + 128 \<le> length (bat_table s)"
proof -
  have m: "unat (blk mod 128) = unat blk mod 128" by (simp add: unat_mod)
  have "blk mod 128 \<le> blk" by (simp add: word_le_nat_alt m)
  then have u: "unat (blk - blk mod 128) = unat blk - unat blk mod 128" by (simp add: unat_sub m)
  have "unat blk div 128 < (n_blocks s + 127) div 128" using b by simp
  then have "128 * (unat blk div 128) + 128 \<le> 128 * ((n_blocks s + 127) div 128)" by linarith
  also have "\<dots> \<le> length (bat_table s)" using c by (simp add: driver_cfg_def)
  finally show ?thesis unfolding u by (simp add: minus_mod_eq_mult_div [symmetric])
qed

lemma wp_schedule_bat_write:
  assumes "driver_cfg s" and "bat_locked s" and "unat (vb_pbw_blk (vs_bat s)) < n_blocks s"
    and Q: "\<And>buf off. Q () (aio_state True Bat_req off (bat_write_state buf s))"
  shows "wp schedule_bat_write Q E s"
proof -
  let ?q = "\<lambda>q. q\<lparr>vr_treq := (vr_treq q)\<lparr>td_secs := 1, td_buf := Bat_buf\<rparr>, vr_op := VHD_OP_BAT_WRITE, vr_next := None\<rparr>"
  have e: "upd_vbat (\<lambda>b. b\<lparr>vb_status := set_vhd_flag (vb_status b) VHD_FLAG_BAT_WRITE_STARTED\<rparr>)
      (upd_req Bat_req ?q (upd_vbat (\<lambda>b. b\<lparr>vb_bat_buf := buf\<rparr>) (init_vhd_request Bat_req s))) = bat_write_state buf s" for buf
    by (simp add: bat_write_state_def init_vhd_request_def new_req_def req_zero_def upds)
  show ?thesis
    unfolding schedule_bat_write_def wps Let_def wp_aio_state aio_state_upd e
    using assms bat_sector [OF assms(1,3)] by blast
qed


lemma zeros_block:
  assumes c: "driver_cfg s" and p: "prealloc s" and n: "unat n \<le> unat (vs_spp s)"
  shows "vhd_sectors_to_bytes (ucast (vs_spb s + vs_bm_secs s + ucast n)) \<le> vs_zsize s"
proof -
  have b: "unat (vs_spb s) + unat (vs_bm_secs s) + unat (vs_spp s) < 4194304"
    "512 * (unat (vs_spb s) + unat (vs_bm_secs s) + unat (vs_spp s)) \<le> unat (vs_zsize s)"
    using c p by (simp_all add: driver_cfg_def)
  have un: "unat (ucast n :: u32) = unat n" using n b by (simp add: unsigned_ucast_eq take_bit_nat_eq_self)
  have u1: "unat (vs_spb s + vs_bm_secs s) = unat (vs_spb s) + unat (vs_bm_secs s)"
    using b unat_add_lem [of "vs_spb s" "vs_bm_secs s"] by simp
  have "unat (vs_spb s + vs_bm_secs s + ucast n) = unat (vs_spb s) + unat (vs_bm_secs s) + unat n"
    using n b u1 un unat_add_lem [of "vs_spb s + vs_bm_secs s" "ucast n"] by simp
  then have "unat (vhd_sectors_to_bytes (ucast (vs_spb s + vs_bm_secs s + ucast n))) = 512 * (unat (vs_spb s) + unat (vs_bm_secs s) + unat n)"
    using b n by (subst unat_sectors_to_bytes) (simp_all add: unat_ucast_u64)
  also have "\<dots> \<le> unat (vs_zsize s)" using n b by simp
  finally show ?thesis by (simp add: word_le_nat_alt)
qed

text \<open>The second half of \<open>allocate_block\<close>: the bitmap is there, the table is written.\<close>

lemma wp_allocate_write:
  assumes t: "inv t G (P \<union> in_flight t)" and g: "get_bitmap t blk = Some i" and nlt: "\<not> bat_locked t" and et: "bat_table t ! unat blk = DD_BLK_UNUSED"
    and pr: "prealloc t" and a: "aio_ok t" "P \<inter> in_flight t = {}" and A: "reported t + owed t G = A" and PK: "parked t G = D"
    and blk: "unat blk < n_blocks t" "vb_pbw_blk (vs_bat t) = blk"
  shows "wp (vthen (vmodify lock_bat) (vthen (vmodify (lock_bitmap i)) (vthen schedule_bat_write (add_to_transaction i Bat_req))))
      (\<lambda>_ u. ready D P A u \<and> same_disk t u \<and> joinable u blk) E t"
proof -
  let ?Pd = "P \<union> in_flight t"
  let ?xs = "g_tx G i"
  note U = unlocked [OF t nlt]
  note L = listsD [OF invD(6) [OF t], of "In_tx i", simplified]
  have gi: "installed t i" "vbm_blk (the_bm t i) = blk" using g get_bitmap_Some [OF invD(5) [OF t]] by simp_all
  have un: "unalloc t i" using et gi by (simp add: unalloc_def)
  note B = bm_okD [OF invD(2) [OF t, of i, unfolded bitmap_ok_def]]
  have rd: "\<not> rd_pending (the_bm t i)" using B(11) un by blast
  have op: "\<not> tx_closed (vbm_tx (the_bm t i))" using B(16) un U(6) by blast
  have own: "g_own G Bat_req = Idle" using idle_reqs(2) [OF t U(3)] .
  have nin: "Bat_req \<notin> set ?xs" using L(3) own by simp
  let ?t1 = "lock_bitmap i (lock_bat t)"
  let ?z = "new_req (td_zero\<lparr>td_secs := 1, td_buf := Bat_buf\<rparr>) 0 VHD_OP_BAT_WRITE"
  have goal: "ready D P A u \<and> same_disk t u \<and> joinable u blk"
    if rl: "rlist (nexts u) l (?xs @ [Bat_req])" and u: "u = in_tx i Bat_req ?xs l (aio_state True Bat_req off (bat_write_state buf ?t1))" for l off buf u
  proof -
    define w where "w = in_tx i Bat_req ?xs l (bat_write_state buf ?t1)"
    let ?G = "placed G Bat_req (In_tx i)"
    have uw: "u = aio_state True Bat_req off w" unfolding u w_def in_tx_def Let_def by (simp add: aio_state_upd)
    have wb: "the_bm w j = (if j = i then (the_bm t i)\<lparr>vbm_status := set_vhd_flag (vbm_status (the_bm t i)) VHD_FLAG_BM_LOCKED,
        vbm_tx := (vbm_tx (the_bm t i))\<lparr>tx_started := tx_started (vbm_tx (the_bm t i)) + 1, tx_requests := l,
         tx_status := set_vhd_flag (tx_status (vbm_tx (the_bm t i))) VHD_FLAG_TX_LIVE\<rparr>\<rparr> else the_bm t j)" for j
      unfolding w_def in_tx_bm by (simp add: bat_write_state_def lock_bitmap_def upds lock_bat_def)
    have wq: "vs_req w q = (if q = Bat_req then ?z\<lparr>vr_tx := Some i\<rparr> else if ?xs \<noteq> [] \<and> q = last ?xs then (vs_req t q)\<lparr>vr_next := Some Bat_req\<rparr> else vs_req t q)" for q
      using in_tx_req [OF nin, of i l _ q] unfolding w_def by (simp add: bat_write_state_def lock_bitmap_def upds lock_bat_def)
    have wr: "vs_flags w = vs_flags t" "vs_vhd w = vs_vhd t" "vs_spb w = vs_spb t" "vs_spp w = vs_spp t" "vs_bm_secs w = vs_bm_secs t"
      "vs_zsize w = vs_zsize t" "vs_bitmap w = vs_bitmap t" "vs_bitmap_free w = vs_bitmap_free t" "vs_vreq_free w = vs_vreq_free t"
      "vs_out w = vs_out t" "vs_aio w = vs_aio t" "vb_bat (vs_bat w) = vb_bat (vs_bat t)" "vb_batmap (vs_bat w) = vb_batmap (vs_bat t)"
      "vb_status (vs_bat w) = set_vhd_flag (set_vhd_flag 0 VHD_FLAG_BAT_LOCKED) VHD_FLAG_BAT_WRITE_STARTED" "vb_pbw_blk (vs_bat w) = blk"
      unfolding w_def using U(1) blk(2) by (simp_all add: bat_write_state_def lock_bitmap_def upds lock_bat_def)
    have fr: "same_frame t w" by (simp add: same_frame_def wr wb bat_table_def)
    note F = same_frameD [OF fr]
    have zo: "zero_ok w ?G (insert Bat_req ?Pd)"
      using idle_reqs(1) [OF t U(2)] U(2) by (simp add: zero_ok_def Let_def placed_def)
    have bo: "batreq_ok w ?G (insert Bat_req ?Pd)" using pr F(8) by (simp add: batreq_ok_def Let_def placed_def wq td_zero_def)
    have er: "vr_error ?z = 0" by simp
    have J: "inv w ?G (insert Bat_req ?Pd)"
    proof (rule inv_begin [OF t nlt g et _ refl _ _ _ _ _ _ fr _ _ _ _ zo bo])
      show "rlist (nexts w) (tx_requests (vbm_tx (the_bm w i))) (?xs @ [Bat_req])" using rl by (simp add: wb uw)
      show "q \<noteq> Bat_req \<Longrightarrow> vs_req w q = (if ?xs \<noteq> [] \<and> q = last ?xs then (vs_req t q)\<lparr>vr_next := Some Bat_req\<rparr> else vs_req t q)" for q
        by (simp add: wq)
      show "alloc_phase w ?G (insert Bat_req ?Pd) i"
        using pr U F(8) by (simp add: alloc_phase_def Let_def wq wr placed_def)
      show "bm_ok (prealloc t) True (bat_err w) (bat_tx w = Some i) True True (Bm_req i \<in> ?Pd) (Suc (n_pending G ?Pd i)) (the_bm w i)"
        if "bm_ok (prealloc t) False 0 False True True (Bm_req i \<in> ?Pd) (n_pending G ?Pd i) (the_bm t i)"
        using bm_ok_begin [OF that op rd, of l False True] rlist_head [OF rl] by (simp add: wb wq)
      show "Bat_req = Zero_req \<and> \<not> prealloc t \<or> Bat_req = Bat_req \<and> prealloc t" using pr by simp
      show "bat_locked w" "bat_table w = bat_table t" by (simp_all add: wr bat_locked_def bat_table_def)
    qed (simp_all add: wb wr)
    have fl: "in_flight w = in_flight t" using wr by (simp add: in_flight_def)
    have ao: "aio_ok w" by (rule aio_ok_same(1) [OF a(1) wr(11)]) (auto simp: wb wr)
    have "owed w ?G = owed t G" by (intro owed_cong) (auto simp: contrib_def wq placed_def)
    moreover have "reported w = reported t" by (simp add: reported_def wr)
    ultimately have "reported w + owed w ?G = A" using A by simp
    moreover have "parked w ?G = D" using parked_placed [OF invD(6) [OF t], of "In_tx i" Bat_req w] own PK by (simp add: wq)
    ultimately have "ready D (insert Bat_req P) A w" using J fl U(3) a(2) ao by (intro readyI [OF J]) auto
    moreover have "Bat_req \<notin> P" using U(3) by blast
    ultimately have r: "ready D P A u" "same_disk w u"
      unfolding uw by (auto intro!: ready_aio simp: wq)
    have sd: "same_disk t u" using same_disk_trans same_disk_frame [OF fr] r(2) by blast
    from r(1) obtain G' where G': "inv u G' (P \<union> in_flight u)" by (rule readyE)
    have "vs_bat u = vs_bat w" unfolding uw by simp
    then have "joinable u blk" using locked_joinable [OF G'] wr by (simp add: bat_locked_def)
    with r(1) sd show ?thesis by blast
  qed
  have "wp (add_to_transaction i Bat_req) (\<lambda>_ u. ready D P A u \<and> same_disk t u \<and> joinable u blk) E (aio_state True Bat_req off (bat_write_state buf ?t1))" for off buf
  proof (rule wp_add_to_transaction)
    have tq: "tx_requests (vbm_tx (the_bm (bat_write_state buf ?t1) i)) = tx_requests (vbm_tx (the_bm t i))"
      by (simp add: bat_write_state_def lock_bitmap_def upds lock_bat_def)
    have "rlist (nexts (bat_write_state buf ?t1)) (tx_requests (vbm_tx (the_bm t i))) ?xs = rlist (nexts t) (tx_requests (vbm_tx (the_bm t i))) ?xs"
      by (rule rlist_cong) (use nin in \<open>auto simp: bat_write_state_def lock_bitmap_def upds lock_bat_def\<close>)
    then show "rlist (nexts (aio_state True Bat_req off (bat_write_state buf ?t1)))
        (tx_requests (vbm_tx (the_bm (aio_state True Bat_req off (bat_write_state buf ?t1)) i))) ?xs"
      using L(1) tq by simp
    show "distinct ?xs" "Bat_req \<notin> set ?xs" using L(2) nin by simp_all
    show "nexts (aio_state True Bat_req off (bat_write_state buf ?t1)) Bat_req = None" by (simp add: bat_write_state_def upds)
    show "\<not> tx_closed (vbm_tx (the_bm (aio_state True Bat_req off (bat_write_state buf ?t1)) i))"
      using op by (simp add: bat_write_state_def lock_bitmap_def upds lock_bat_def)
  qed (rule goal, simp_all)
  moreover have "driver_cfg ?t1"
  proof -
    have "same_frame t ?t1" by (auto simp: same_frame_def lock_bitmap_def upds lock_bat_def bat_table_def)
    then show ?thesis using same_frameD(1) invD(4) [OF t] by blast
  qed
  moreover have "bat_locked ?t1" "unat (vb_pbw_blk (vs_bat ?t1)) < n_blocks ?t1"
    using blk by (simp_all add: bat_locked_def lock_bitmap_def upds lock_bat_def n_blocks_def)
  ultimately show ?thesis unfolding wps by (intro wp_schedule_bat_write)
qed


lemma wp_allocate_block:
  assumes R: "ready D P A s" and e: "bat_table s ! unat blk = DD_BLK_UNUSED" and blk: "unat blk < n_blocks s" and pr: "prealloc s"
    and lk: "bat_locked s \<Longrightarrow> vb_pbw_blk (vs_bat s) = blk"
  shows "wp (allocate_block blk) (\<lambda>_ t. ready D P A t \<and> same_disk s t \<and> joinable t blk) (\<lambda>_ t. ready D P A t \<and> same_disk s t) s"
proof -
  from R obtain G where I: "inv s G (P \<union> in_flight s)" and a: "aio_ok s" "P \<inter> in_flight s = {}" and A: "reported s + owed s G = A" and PK: "parked s G = D"
    by (rule readyE)
  let ?Pd = "P \<union> in_flight s"
  have tl: "unat blk < length (bat_table s)" using cfgD(6) [OF invD(4) [OF I]] blk by simp
  show ?thesis
  proof (cases "bat_locked s")
    case True
    then show ?thesis using e tl lk R locked_joinable [OF I] by (simp add: allocate_block_def wps wp_get_entry)
  next
    case False
    let ?gap = "db_gap s"
    let ?s1 = "\<lambda>v. (upd_vbat (\<lambda>b. b\<lparr>vb_pbw_offset := vs_next_db s + ?gap\<rparr>)
      ((upd_vbat (\<lambda>b. b\<lparr>vb_pbw_blk := blk\<rparr>) s)\<lparr>vs_next_db := vs_next_db s + ?gap\<rparr>))\<lparr>vs_vhd := v\<rparr>"
    have I1: "inv (?s1 v) G ?Pd" if "st_ctx v = vctx s" for v
      using inv_pbw [OF I False, of blk]
      by (subst inv_cong [of _ "upd_vbat (\<lambda>b. b\<lparr>vb_pbw_blk := blk\<rparr>) s"]) (use that in \<open>simp_all add: upd_vbat_def bat_table_def\<close>)
    have P1: "in_flight (?s1 v) = in_flight s" "aio_ok (?s1 v)" "reported (?s1 v) = reported s" "same_disk s (?s1 v)" "bat_table (?s1 v) = bat_table s"
      "n_blocks (?s1 v) = n_blocks s" "\<not> bat_locked (?s1 v)" "prealloc (?s1 v)" "vb_pbw_blk (vs_bat (?s1 v)) = blk" for v
      using a(1) False pr by (simp_all add: in_flight_def aio_ok_def reported_def same_disk_def bat_table_def bat_locked_def n_blocks_def upd_vbat_def)
    have O1: "owed (?s1 v) G = owed s G" "parked (?s1 v) G = parked s G" for v
      using owed_data_cong [of "?s1 v" s G] parked_cong [of G G "?s1 v" s] by (simp_all add: upd_vbat_def)
    have R1: "ready D P A (?s1 v)" if "st_ctx v = vctx s" for v
      using readyI [OF I1 [OF that], of P A] a A PK P1 O1 by simp
    have fin: "wp (cached_bitmap blk) (\<lambda>i. wp (vthen (vmodify lock_bat) (vthen (vmodify (lock_bitmap i)) (vthen schedule_bat_write (add_to_transaction i Bat_req))))
        (\<lambda>_ t. ready D P A t \<and> same_disk s t \<and> joinable t blk) (\<lambda>_ t. ready D P A t \<and> same_disk s t)) (\<lambda>_ t. ready D P A t \<and> same_disk s t) (?s1 v)"
      if v: "st_ctx v = vctx s" for v
    proof (rule wp_cached_bitmap [OF I1 [OF v]])
      show "unat blk < n_blocks (?s1 v)" using blk P1 by simp
      show "ready D P A (?s1 v) \<and> same_disk s (?s1 v)" using R1 [OF v] P1 by simp
      fix t i assume t: "inv t G ?Pd" "get_bitmap t blk = Some i" "kept (?s1 v) t"
      note K = keptD [OF t(3)]
      have I2: "inv t G (P \<union> in_flight t)" using t(1) K(8) P1(1) by simp
      have "wp (vthen (vmodify lock_bat) (vthen (vmodify (lock_bitmap i)) (vthen schedule_bat_write (add_to_transaction i Bat_req))))
        (\<lambda>_ u. ready D P A u \<and> same_disk t u \<and> joinable u blk) (\<lambda>_ t. ready D P A t \<and> same_disk s t) t"
      proof (rule wp_allocate_write [OF I2 t(2)])
        show "vb_pbw_blk (vs_bat t) = blk" using t(3) P1(9) by (simp add: kept_def)
        show "aio_ok t" by (rule K(12) [OF P1(2)])
        show "reported t + owed t G = A" using A K(9,11) P1(3) O1 by simp
        show "prealloc t" using K(10) P1(8) by simp
        show "parked t G = D" using parked_kept [OF I1 [OF v] t(3)] O1(2) PK by simp
      qed (use e blk a K P1 in simp_all)
      then show "wp (vthen (vmodify lock_bat) (vthen (vmodify (lock_bitmap i)) (vthen schedule_bat_write (add_to_transaction i Bat_req))))
        (\<lambda>_ t. ready D P A t \<and> same_disk s t \<and> joinable t blk) (\<lambda>_ t. ready D P A t \<and> same_disk s t) t"
        by (rule wp_mono) (use same_disk_trans K(1) P1(4) in blast)+
    qed
    have zz: "vs_zsize s \<noteq> 0" "vhd_sectors_to_bytes (ucast (vs_spb s + vs_bm_secs s + ucast ?gap)) \<le> vs_zsize s"
      using zeros_enough(1) [OF invD(4) [OF I] unat_gap [OF invD(4) [OF I]]] zeros_block [OF invD(4) [OF I] pr unat_gap [OF invD(4) [OF I]]] by simp_all
    have "wp (write_zeros_at off sz) (\<lambda>_. wp (cached_bitmap blk) (\<lambda>i. wp (vthen (vmodify lock_bat) (vthen (vmodify (lock_bitmap i)) (vthen schedule_bat_write (add_to_transaction i Bat_req))))
        (\<lambda>_ t. ready D P A t \<and> same_disk s t \<and> joinable t blk) (\<lambda>_ t. ready D P A t \<and> same_disk s t)) (\<lambda>_ t. ready D P A t \<and> same_disk s t))
        (\<lambda>_ t. ready D P A t \<and> same_disk s t) (?s1 (vs_vhd s))" for off sz
      by (rule wp_write_zeros_at) (use fin R1 P1(4) in \<open>simp_all add: upd_vbat_def\<close>)
    then show ?thesis
      unfolding allocate_block_def wps wp_get_entry Let_def
      using e tl False zz by (simp add: wps get_vhd_zeros_def upd_vbat_def)
  qed
qed

end
