(* ===== verification/Block_Vhd_Queue.thy ===== *)
theory Block_Vhd_Queue
  imports Block_Vhd_Alloc
begin

text \<open>
  Requests of the virtual block device under the invariant: a data write, with or without an allocation,
  the turns of the loops of \<open>vhd_queue_read\<close> and \<open>vhd_queue_write\<close>, and the loops. None of them fails an
  assertion, and what they take of a request they complete, forward, or keep.
\<close>

section \<open>A data write\<close>

lemma quietly_ready:
  assumes q: "quietly s G t G'" and I: "inv t G' (P \<union> in_flight s)" and a: "aio_ok s" "P \<inter> in_flight s = {}" and A: "reported s + owed s G = A" and PK: "parked s G = D"
  shows "ready D P A t" "same_disk s t"
proof -
  have v: "vs_aio t = vs_aio s" "\<And>i. rd_pending (the_bm t i) = rd_pending (the_bm s i)" using q by (auto simp: quietly_def)
  have ao: "aio_ok t" "in_flight t = in_flight s" using aio_ok_same [OF a(1) v(1)] v(2) q by (auto simp: quietly_def same_frame_def)
  show "ready D P A t" using readyI [OF I _ _ ao(1), of P A] ao(2) a(2) A PK quietly_owed [OF q] q by (simp add: quietly_def)
  show "same_disk s t" using q same_disk_frame by (simp add: quietly_def)
qed

lemma wp_join_transaction:
  assumes I: "inv s G (P \<union> in_flight s)" and a: "aio_ok s" "P \<inter> in_flight s = {}" and A: "reported s + owed s G = A" and PK: "parked s G = D"
    and r: "g_own G r = Loose" "vr_op (vs_req s r) = VHD_OP_DATA_WRITE"
    and fit: "fits s (vr_treq (vs_req s r))" and g: "get_bitmap s (blk_of s (td_sec (vr_treq (vs_req s r)))) = Some i"
    and j: "\<not> rd_pending (the_bm s i)" "unalloc s i \<Longrightarrow> has_lock s i"
    and Q: "\<And>t. ready D P A t \<Longrightarrow> same_disk s t \<Longrightarrow> vr_treq (vs_req t r) = vr_treq (vs_req s r) \<Longrightarrow> Q () t"
  shows "wp (join_transaction i r) Q E s"
proof -
  have gi: "installed s i" "vbm_blk (the_bm s i) = blk_of s (td_sec (vr_treq (vs_req s r)))" using g get_bitmap_Some [OF invD(5) [OF I]] by simp_all
  have b: "in_block s (vbm_blk (the_bm s i)) (vr_treq (vs_req s r))" using fit gi by (simp add: in_block_def)
  have d: "is_data r" using loose_req(1) [OF I r(1)] .
  have Q': "Q () t" if "inv t G' (P \<union> in_flight s)" "quietly s G t G'" for t G'
    using Q quietly_ready [OF that(2,1) a A PK] that(2) d by (auto simp: quietly_def)
  show ?thesis
  proof (cases "tx_closed (vbm_tx (the_bm s i))")
    case True
    then show ?thesis using wp_join_closed [OF I r b gi(1)] Q' by blast
  next
    case False
    then show ?thesis using wp_join_open [OF I r b gi(1) j(1)] j(2) Q' by blast
  qed
qed

text \<open>The second half of \<open>schedule_data_write\<close>: the request is made, joins a transaction and is submitted.\<close>

lemma wp_write_request:
  assumes R: "ready D P A s" and fit: "fits s treq" and blk: "blk = blk_of s (td_sec treq)" and fl: "\<not> test_vhd_flag flags VHD_FLAG_REQ_QUEUED"
    "\<not> test_vhd_flag flags VHD_FLAG_REQ_FINISHED"
    and j: "test_vhd_flag flags VHD_FLAG_REQ_UPDATE_BITMAP \<Longrightarrow> joinable s blk"
    and e: "\<not> test_vhd_flag flags VHD_FLAG_REQ_UPDATE_BITMAP \<Longrightarrow> bat_table s ! unat blk \<noteq> DD_BLK_UNUSED"
  shows "step_ok D P A (A + pieces treq) (make_write_request blk sec treq flags off) s"
proof -
  from R obtain G where I: "inv s G (P \<union> in_flight s)" and a: "aio_ok s" "P \<inter> in_flight s = {}" and A: "reported s + owed s G = A" and PK: "parked s G = D"
    by (rule readyE)
  let ?B = "A + pieces treq"
  have bn: "unat blk < n_blocks s" using unat_blk_of(3) [OF invD(4) [OF I] conjunct1 [OF fit]] blk by simp
  have some: "wp (vthen (vget (\<lambda>s. if test_vhd_flag flags VHD_FLAG_REQ_UPDATE_BITMAP then
              (case get_bitmap s blk of None \<Rightarrow> vraise Abort
                | Some i \<Rightarrow> vthen (vassert (bitmap_valid (the_bm s i))) (join_transaction i r))
            else if sec = 0 \<and> \<not> fixed_disk s then
              vbind (get_entry blk) (\<lambda>e. if ucast e = vs_first_db s then vret ()
                else vbind (test_batmap blk) (\<lambda>full. if full then schedule_redundant_bm_write blk else vret ()))
            else vret ()))
          (aio_write r off)) (\<lambda>_ t. ready D P ?B t \<and> same_disk s t) (\<lambda>_ t. ready D P A t \<and> same_disk s t)
      (s\<lparr>vs_vreq_free := rs, vs_req := (vs_req s)(r := new_req treq flags VHD_OP_DATA_WRITE)\<rparr>)" (is "wp ?m ?Q ?E ?s1")
    if free: "vs_vreq_free s = r # rs" "is_data r" "g_own G r = Free" for r rs
  proof -
    let ?G = "G\<lparr>g_own := (g_own G)(r := Loose)\<rparr>"
    note T = take_data [OF I a A PK free conjunct1 [OF fit] disjI2 [OF refl] fl]
    note D = same_diskD [OF T(6)]
    have last: "wp (aio_write r off) ?Q ?E t" if "ready D (insert r P) ?B t" "same_disk ?s1 t" for t
      unfolding aio_call_simps by (rule wp_submit [OF that(1) T(3)]) (use that(2) T(6) same_disk_trans in blast)+
    show ?thesis
    proof (cases "test_vhd_flag flags VHD_FLAG_REQ_UPDATE_BITMAP")
      case True
      from j [OF True] obtain i where i: "get_bitmap s blk = Some i" "\<not> rd_pending (the_bm s i)" "unalloc s i \<longrightarrow> has_lock s i"
        by (auto simp: joinable_def)
      have s1: "get_bitmap ?s1 blk = Some i" "unalloc ?s1 i = unalloc s i" "has_lock ?s1 i = has_lock s i"
        using i(1) get_bitmap_Some [OF invD(5) [OF I]] get_bitmap_Some [OF invD(5) [OF T(1)]]
        by (simp_all add: unalloc_def has_lock_def installed_def bat_table_def bat_locked_def)
      have "wp (join_transaction i r) (\<lambda>_. wp (aio_write r off) ?Q ?E) ?E ?s1"
        by (rule wp_join_transaction [OF T(1,2,4,5,9)]) (use i s1 fit blk D last in simp_all)
      then show ?thesis using True s1(1) i(2) by (simp add: wps bitmap_valid_def)
    next
      case False
      have tl: "unat blk < length (bat_table ?s1)" "bat_table ?s1 ! unat blk \<noteq> DD_BLK_UNUSED" "unat blk < n_blocks ?s1"
        using e [OF False] bn cfgD(6) [OF invD(4) [OF I]] by (simp_all add: bat_table_def n_blocks_def)
      have red: "wp (schedule_redundant_bm_write blk) (\<lambda>_. wp (aio_write r off) ?Q ?E) ?E ?s1" if f: "full_block ?s1 blk"
        by (rule wp_mono [OF wp_schedule_redundant [OF T(7) f tl(2,3)]]) (use last in blast)+
      have "wp (aio_write r off) ?Q ?E ?s1" using last [OF T(7)] by simp
      then show ?thesis
        using False tl red by (auto simp: wps wp_get_entry intro!: wp_test_batmap [OF invD(4) [OF T(1)]])
    qed
  qed
  show ?thesis
    unfolding step_ok_def make_write_request_def wps
    by (intro wp_alloc_vhd_request [OF I]) (use R some in \<open>simp_all add: wps upd_new del: split_paired_All\<close>)
qed

lemma wp_schedule_data_write:
  assumes R: "ready D P A s" and fit: "fits s treq" and blk: "blk = blk_of s (td_sec treq)"
    and c: "flags = 0 \<and> bat_table s ! unat blk \<noteq> DD_BLK_UNUSED \<or>
      flags = VHD_FLAG_REQ_UPDATE_BITMAP \<and> bat_table s ! unat blk \<noteq> DD_BLK_UNUSED \<and> joinable s blk \<or>
      flags = set_vhd_flag VHD_FLAG_REQ_UPDATE_BAT VHD_FLAG_REQ_UPDATE_BITMAP \<and> bat_table s ! unat blk = DD_BLK_UNUSED \<and>
        (bat_locked s \<longrightarrow> vb_pbw_blk (vs_bat s) = blk)"
  shows "step_ok D P A (A + pieces treq) (schedule_data_write treq flags) s"
proof -
  from R obtain G where I: "inv s G (P \<union> in_flight s)" by (rule readyE)
  note C = cfgD [OF invD(4) [OF I]]
  have bn: "unat blk < n_blocks s" using unat_blk_of(3) [OF invD(4) [OF I] conjunct1 [OF fit]] blk by simp
  then have tl: "unat blk < length (bat_table s)" using C(6) by simp
  have fl: "\<not> test_vhd_flag flags VHD_FLAG_REQ_QUEUED" "\<not> test_vhd_flag flags VHD_FLAG_REQ_FINISHED" using c by auto
  let ?Q = "\<lambda>_ t. ready D P (A + pieces treq) t \<and> same_disk s t" and ?E = "\<lambda>_ t. ready D P A t \<and> same_disk s t"
  show ?thesis
  proof (cases "test_vhd_flag flags VHD_FLAG_REQ_UPDATE_BAT")
    case False
    then have e: "bat_table s ! unat blk \<noteq> DD_BLK_UNUSED" "test_vhd_flag flags VHD_FLAG_REQ_UPDATE_BITMAP \<Longrightarrow> joinable s blk" using c by auto
    show ?thesis
      using wp_write_request [OF R fit blk fl e(2) e(1), unfolded step_ok_def] False C(4) tl
      unfolding step_ok_def schedule_data_write_def wps Let_def blk by (simp add: wps wp_get_entry)
  next
    case True
    then have e: "bat_table s ! unat blk = DD_BLK_UNUSED" "bat_locked s \<Longrightarrow> vb_pbw_blk (vs_bat s) = blk"
      and f: "test_vhd_flag flags VHD_FLAG_REQ_UPDATE_BITMAP" using c by auto
    have go: "wp (make_write_request blk sec treq flags off) ?Q ?E t"
      if t: "ready D P A t" "same_disk s t" "joinable t blk" for t sec off
    proof -
      note D = same_diskD [OF t(2)]
      have "step_ok D P A (A + pieces treq) (make_write_request blk sec treq flags off) t"
        by (rule wp_write_request [OF t(1) _ _ fl]) (use fit blk D f t(3) in simp_all)
      then show ?thesis unfolding step_ok_def
        by (rule wp_mono) (use same_disk_trans [OF t(2)] in blast)+
    qed
    have al: "wp (if prealloc s then allocate_block blk else update_bat blk) (\<lambda>_ t. ready D P A t \<and> same_disk s t \<and> joinable t blk) ?E s"
      using wp_allocate_block [OF R e(1) bn _ e(2)] wp_update_bat [OF R e(1) bn _ e(2)] by simp
    have "wp (if prealloc s then allocate_block blk else update_bat blk) (\<lambda>_ t. wp (make_write_request blk (sec_of s (td_sec treq)) treq flags
        (vhd_sectors_to_bytes (vb_pbw_offset (vs_bat t) + ucast (vs_bm_secs s + sec_of s (td_sec treq))))) ?Q ?E t) ?E s"
      by (rule wp_mono [OF al]) (use go in simp_all)
    then show ?thesis
      using True C(4) tl unfolding step_ok_def schedule_data_write_def wps Let_def blk [symmetric] by (simp add: wps wp_get_entry)
  qed
qed

section \<open>Turns of the loop\<close>

lemma seen_ready:
  assumes "seen s t"
  shows "ready D P A t = ready D P A s" "same_disk s t"
proof -
  note S = seen_same [OF assms]
  have "owed t G = owed s G" for G by (rule owed_data_cong) (simp add: S)
  moreover have "parked t G = parked s G" for G by (rule parked_cong) (simp_all add: S)
  moreover have "reported t = reported s" "aio_ok t = aio_ok s" by (simp_all add: reported_def aio_ok_def S)
  ultimately show "ready D P A t = ready D P A s" by (simp add: ready_def S)
  show "same_disk s t" by (simp add: same_disk_def S)
qed

lemma ready_out:
  assumes "ready D P A s" and "out_pieces o1 = B"
  shows "ready D P (A + B) (s\<lparr>vs_out := vs_out s @ [o1]\<rparr>)" (is "ready D P _ ?t")
proof -
  from assms(1) obtain G where G: "inv s G (P \<union> in_flight s)" "aio_ok s" "P \<inter> in_flight s = {}" "reported s + owed s G = A" "parked s G = D" by (rule readyE)
  have i: "inv ?t G (P \<union> in_flight ?t)" using inv_cong [of ?t s G "P \<union> in_flight s"] G(1) by (simp add: in_flight_def bat_table_def)
  have "owed ?t G = owed s G" by (rule owed_data_cong) simp
  then have "reported ?t + owed ?t G = A + B" using G(4) assms(2) by (simp add: reported_def add.commute add.left_commute)
  moreover have "parked ?t G = D" using G(5) parked_cong [of G G ?t s] by simp
  ultimately show ?thesis using i G(2,3) by (intro readyI [OF i refl]) (simp_all add: in_flight_def aio_ok_def)
qed

text \<open>A turn takes a part of the request, and takes it into the account.\<close>

definition turn_ok :: "(rid \<Rightarrow> vhd_request option) \<Rightarrow> piece multiset \<Rightarrow> td_request \<Rightarrow> nat bv \<Rightarrow> vhd_state \<Rightarrow> bool" where
  "turn_ok D A treq m s \<longleftrightarrow> wp m (\<lambda>n t. 0 < n \<and> n \<le> td_secs treq \<and> ready D {} (A + pieces (treq\<lparr>td_secs := n\<rparr>)) t \<and> same_disk s t)
     (\<lambda>_ t. ready D {} A t \<and> same_disk s t) s"

lemma turn_step:
  assumes "step_ok D {} A (A + pieces (treq\<lparr>td_secs := n\<rparr>)) m t" and "same_disk s t" and "0 < n" "n \<le> td_secs treq"
  shows "wp m (\<lambda>_ u. 0 < n \<and> n \<le> td_secs treq \<and> ready D {} (A + pieces (treq\<lparr>td_secs := n\<rparr>)) u \<and> same_disk s u) (\<lambda>_ u. ready D {} A u \<and> same_disk s u) t"
  using assms(1) unfolding step_ok_def by (rule wp_mono) (use assms(2-) same_disk_trans in blast)+

text \<open>What both loops do with a bitmap that is to be read, or is being read.\<close>

lemma turn_wait:
  assumes R: "ready D {} A t" "same_disk s t" and fit: "fits t (treq\<lparr>td_secs := n\<rparr>)" "td_buf treq \<in> range Guest" "0 < n" "n \<le> td_secs treq"
    and op: "op = VHD_OP_DATA_READ \<or> op = VHD_OP_DATA_WRITE"
  defines "blk \<equiv> blk_of t (td_sec treq)" and "Q \<equiv> \<lambda>_::unit. \<lambda>u. 0 < n \<and> n \<le> td_secs treq \<and> ready D {} (A + pieces (treq\<lparr>td_secs := n\<rparr>)) u \<and> same_disk s u"
    and "E \<equiv> \<lambda>_::int. \<lambda>u. ready D {} A u \<and> same_disk s u"
  shows "get_bitmap t blk = Some i \<Longrightarrow> rd_pending (the_bm t i) \<Longrightarrow> wp (vhd_queue_request op (treq\<lparr>td_secs := n\<rparr>)) Q E t"
    and "get_bitmap t blk = None \<Longrightarrow> bat_table t ! unat blk \<noteq> DD_BLK_UNUSED \<Longrightarrow>
      wp (schedule_bitmap_read blk) (\<lambda>_. wp (vhd_queue_request op (treq\<lparr>td_secs := n\<rparr>)) Q E) E t"
proof -
  have q: "wp (vhd_queue_request op (treq\<lparr>td_secs := n\<rparr>)) Q E u"
    if u: "ready D {} A u" "same_disk t u" "get_bitmap u blk = Some j" "rd_pending (the_bm u j)" for u j
    unfolding Q_def E_def using u op fit same_diskD [OF u(2)] same_disk_trans [OF R(2) u(2)] wp_vhd_queue_request [OF u(1), of "treq\<lparr>td_secs := n\<rparr>" op j]
    by (intro turn_step) (simp_all add: blk_def)
  from R(1) obtain G where I: "inv t G ({} \<union> in_flight t)" by (rule readyE)
  have bn: "unat blk < n_blocks t" using unat_blk_of(3) [OF invD(4) [OF I]] fit(1) by (simp add: blk_def)
  show "get_bitmap t blk = Some i \<Longrightarrow> rd_pending (the_bm t i) \<Longrightarrow> wp (vhd_queue_request op (treq\<lparr>td_secs := n\<rparr>)) Q E t"
    using q [OF R(1)] by simp
  show "wp (schedule_bitmap_read blk) (\<lambda>_. wp (vhd_queue_request op (treq\<lparr>td_secs := n\<rparr>)) Q E) E t"
    if "get_bitmap t blk = None" "bat_table t ! unat blk \<noteq> DD_BLK_UNUSED"
    by (rule wp_mono [OF wp_schedule_bitmap_read [OF R(1) that(2,1) bn]])
      (use q same_disk_trans [OF R(2)] in \<open>auto simp: E_def\<close>)
qed

text \<open>The part that is taken lies in one block.\<close>

lemma part_fits:
  assumes "ready D {} A t" and "sec_ok t (td_sec treq)" and "n \<le> blk_room t (td_sec treq)"
  shows "fits t (treq\<lparr>td_secs := n\<rparr>)"
proof -
  from assms(1) obtain G where I: "inv t G ({} \<union> in_flight t)" by (rule readyE)
  show ?thesis using unat_sec_of(4) [OF invD(4) [OF I], of "td_sec treq"] assms(2,3) by simp
qed

lemma answers [simp]: "VHD_BM_BAT_LOCKED \<noteq> - EINVAL" "VHD_BM_BAT_CLEAR \<noteq> - EINVAL" "VHD_BM_BIT_CLEAR \<noteq> - EINVAL" "VHD_BM_BIT_SET \<noteq> - EINVAL"
  "VHD_BM_NOT_CACHED \<noteq> - EINVAL" "VHD_BM_READ_PENDING \<noteq> - EINVAL" "VHD_BM_BAT_CLEAR \<noteq> VHD_BM_BAT_LOCKED"
  "VHD_BM_BIT_CLEAR \<noteq> VHD_BM_BAT_LOCKED" "VHD_BM_BIT_SET \<noteq> VHD_BM_BAT_LOCKED" "VHD_BM_NOT_CACHED \<noteq> VHD_BM_BAT_LOCKED" "VHD_BM_READ_PENDING \<noteq> VHD_BM_BAT_LOCKED"
  "VHD_BM_BIT_CLEAR \<noteq> VHD_BM_BAT_CLEAR" "VHD_BM_BIT_SET \<noteq> VHD_BM_BAT_CLEAR" "VHD_BM_NOT_CACHED \<noteq> VHD_BM_BAT_CLEAR" "VHD_BM_READ_PENDING \<noteq> VHD_BM_BAT_CLEAR"
  "VHD_BM_BIT_SET \<noteq> VHD_BM_BIT_CLEAR" "VHD_BM_NOT_CACHED \<noteq> VHD_BM_BIT_CLEAR" "VHD_BM_READ_PENDING \<noteq> VHD_BM_BIT_CLEAR"
  "VHD_BM_NOT_CACHED \<noteq> VHD_BM_BIT_SET" "VHD_BM_READ_PENDING \<noteq> VHD_BM_BIT_SET" "VHD_BM_READ_PENDING \<noteq> VHD_BM_NOT_CACHED"
  by (simp_all add: vhd_bm_defs errno_defs)

lemma cache_cases:
  assumes "cache_answer s sec op c"
  obtains (inval) "c = - EINVAL"
  | (locked) "c = VHD_BM_BAT_LOCKED" "op = VHD_OP_DATA_WRITE"
  | (bclear) "c = VHD_BM_BAT_CLEAR" "bat_table s ! unat (blk_of s sec) = DD_BLK_UNUSED"
      "op = VHD_OP_DATA_WRITE \<Longrightarrow> bat_locked s \<Longrightarrow> vb_pbw_blk (vs_bat s) = blk_of s sec"
  | (full) "c = VHD_BM_BIT_SET" "bat_table s ! unat (blk_of s sec) \<noteq> DD_BLK_UNUSED" "full_block s (blk_of s sec)"
  | (absent) "c = VHD_BM_NOT_CACHED" "bat_table s ! unat (blk_of s sec) \<noteq> DD_BLK_UNUSED" "get_bitmap s (blk_of s sec) = None"
  | (reading) i where "c = VHD_BM_READ_PENDING" "bat_table s ! unat (blk_of s sec) \<noteq> DD_BLK_UNUSED" "get_bitmap s (blk_of s sec) = Some i" "rd_pending (the_bm s i)"
  | (bit) i v where "c = (if v then VHD_BM_BIT_SET else VHD_BM_BIT_CLEAR)" "bat_table s ! unat (blk_of s sec) \<noteq> DD_BLK_UNUSED"
      "get_bitmap s (blk_of s sec) = Some i" "\<not> rd_pending (the_bm s i)" "vhd_bitmap_test (vctx s) (vbm_map (the_bm s i)) (unat (sec_of s sec)) = v"
  using assms unfolding cache_answer_def Let_def by (auto split: if_splits) metis+

lemma turn_span:
  assumes R: "ready D {} A t" "same_disk s t" and sec: "sec_ok t (td_sec treq)" and n: "0 < td_secs treq"
    and a: "full_block t (blk_of t (td_sec treq)) \<or> (\<exists>i. get_bitmap t (blk_of t (td_sec treq)) = Some i \<and> \<not> rd_pending (the_bm t i) \<and>
      vhd_bitmap_test (vctx t) (vbm_map (the_bm t i)) (unat (sec_of t (td_sec treq))) = v)"
    and m: "\<And>k. 0 < k \<Longrightarrow> k \<le> td_secs treq \<Longrightarrow> fits t (treq\<lparr>td_secs := k\<rparr>) \<Longrightarrow> step_ok D {} A (A + pieces (treq\<lparr>td_secs := k\<rparr>)) (m k) t"
  shows "wp (vbind (read_bitmap_cache_span (td_sec treq) (td_secs treq) v) (\<lambda>k. vthen (m k) (vret k)))
    (\<lambda>n u. 0 < n \<and> n \<le> td_secs treq \<and> ready D {} (A + pieces (treq\<lparr>td_secs := n\<rparr>)) u \<and> same_disk s u) (\<lambda>_ u. ready D {} A u \<and> same_disk s u) t"
proof -
  from R(1) obtain G where I: "inv t G ({} \<union> in_flight t)" by (rule readyE)
  have a': "full_block t (blk_of t (td_sec treq)) \<or> (\<exists>i. get_bitmap t (blk_of t (td_sec treq)) = Some i \<and> bitmap_valid (the_bm t i) \<and>
      vhd_bitmap_test (vctx t) (vbm_map (the_bm t i)) (unat (sec_of t (td_sec treq))) = v)" using a by (simp add: bitmap_valid_def)
  show ?thesis unfolding wps
    by (rule wp_read_bitmap_cache_span [OF I sec n a']) (rule turn_step [OF m R(2)]; use part_fits [OF R(1) sec] in simp)
qed

lemma forward_step: "ready D {} A t \<Longrightarrow> step_ok D {} A (A + pieces treq) (td_forward_request treq) t"
  unfolding step_ok_def using ready_out [of D "{}" A t "Forward treq"] by (simp add: td_forward_request_def wps same_disk_def n_blocks_def)

lemma queue_read_turn:
  assumes R: "ready D {} A s" and sec: "sec_ok s (td_sec treq)" and b: "td_buf treq \<in> range Guest" and n: "0 < td_secs treq"
  shows "turn_ok D A treq (queue_read_step treq) s"
proof -
  from R obtain G where I: "inv s G ({} \<union> in_flight s)" by (rule readyE)
  have room: "0 < blk_room s (td_sec treq)" by (rule unat_sec_of(3) [OF invD(4) [OF I]])
  let ?Q = "\<lambda>n t. 0 < n \<and> n \<le> td_secs treq \<and> ready D {} (A + pieces (treq\<lparr>td_secs := n\<rparr>)) t \<and> same_disk s t" and ?E = "\<lambda>_ t. ready D {} A t \<and> same_disk s t"
  define r where "r = min (td_secs treq) (blk_room s (td_sec treq))"
  have r: "0 < r" "r \<le> td_secs treq" "r \<le> blk_room s (td_sec treq)" using room n by (simp_all add: r_def)
  show ?thesis
    unfolding turn_ok_def queue_read_step_def wp_vget Let_def r_def [symmetric]
  proof (subst wp_vbind, rule wp_read_bitmap_cache [OF I sec])
    fix t c assume st: "seen s t" and a: "cache_answer t (td_sec treq) VHD_OP_DATA_READ c"
    note S = seen_same [OF st]
    have T: "ready D {} A t" "same_disk s t" using seen_ready [OF st] R by simp_all
    note D = same_diskD [OF T(2)]
    have sc: "sec_ok t (td_sec treq)" and fr: "fits t (treq\<lparr>td_secs := r\<rparr>)" using part_fits [OF T(1)] sec r D by simp_all
    note W = turn_wait [OF T fr b r(1,2), of VHD_OP_DATA_READ, OF disjI1 [OF refl]]
    have F: "wp (vthen (td_forward_request (treq\<lparr>td_secs := r\<rparr>)) (vret r)) ?Q ?E t"
      unfolding wps by (rule turn_step [OF forward_step [OF T(1)] T(2) r(1,2)])
    have sp: "wp (vbind (read_bitmap_cache_span (td_sec treq) (td_secs treq) False) (\<lambda>k. vthen (td_forward_request (treq\<lparr>td_secs := k\<rparr>)) (vret k))) ?Q ?E t"
      if "get_bitmap t (blk_of t (td_sec treq)) = Some i \<and> \<not> rd_pending (the_bm t i) \<and>
        \<not> vhd_bitmap_test (vctx t) (vbm_map (the_bm t i)) (unat (sec_of t (td_sec treq)))" for i
      by (rule turn_span [OF T sc n _ forward_step [OF T(1)]]) (use that in auto)
    have rd: "wp (vbind (read_bitmap_cache_span (td_sec treq) (td_secs treq) True) (\<lambda>k. vthen (schedule_data_read (treq\<lparr>td_secs := k\<rparr>) 0) (vret k))) ?Q ?E t"
      if "bat_table t ! unat (blk_of t (td_sec treq)) \<noteq> DD_BLK_UNUSED" "full_block t (blk_of t (td_sec treq)) \<or> (\<exists>i. get_bitmap t (blk_of t (td_sec treq)) = Some i \<and> \<not> rd_pending (the_bm t i) \<and>
        vhd_bitmap_test (vctx t) (vbm_map (the_bm t i)) (unat (sec_of t (td_sec treq))))"
      by (rule turn_span [OF T sc n]; (rule wp_schedule_data_read [OF T(1)])?) (use that b in auto)
    show "wp (if c = - EINVAL then vfail (- EINVAL)
       else if c = VHD_BM_BAT_CLEAR then vthen (td_forward_request (treq\<lparr>td_secs := r\<rparr>)) (vret r)
       else if c = VHD_BM_BIT_CLEAR then vbind (read_bitmap_cache_span (td_sec treq) (td_secs treq) False) (\<lambda>n.
         vthen (td_forward_request (treq\<lparr>td_secs := n\<rparr>)) (vret n))
       else if c = VHD_BM_BIT_SET then vbind (read_bitmap_cache_span (td_sec treq) (td_secs treq) True) (\<lambda>n.
         vthen (schedule_data_read (treq\<lparr>td_secs := n\<rparr>) 0) (vret n))
       else if c = VHD_BM_NOT_CACHED then vthen (schedule_bitmap_read (blk_of s (td_sec treq)))
         (vthen (vhd_queue_request VHD_OP_DATA_READ (treq\<lparr>td_secs := r\<rparr>)) (vret r))
       else if c = VHD_BM_READ_PENDING then vthen (vhd_queue_request VHD_OP_DATA_READ (treq\<lparr>td_secs := r\<rparr>)) (vret r)
       else vraise Abort) ?Q ?E t"
      using a
    proof (cases rule: cache_cases)
      case inval
      then show ?thesis using T by (simp add: wps)
    next
      case locked
      then show ?thesis by (simp add: vhd_op_defs)
    next
      case bclear
      then show ?thesis using F by simp
    next
      case full
      then show ?thesis using rd by simp
    next
      case absent
      then show ?thesis using W(2) [of] S(2) unfolding wps by simp
    next
      case (reading i)
      then show ?thesis using W(1) unfolding wps by simp
    next
      case (bit i v)
      then show ?thesis using sp [of i] rd by (cases v) auto
    qed
  qed
qed

lemma queue_write_turn:
  assumes R: "ready D {} A s" and sec: "sec_ok s (td_sec treq)" and b: "td_buf treq \<in> range Guest" and n: "0 < td_secs treq"
  shows "turn_ok D A treq (queue_write_step treq) s"
proof -
  from R obtain G where I: "inv s G ({} \<union> in_flight s)" by (rule readyE)
  have room: "0 < blk_room s (td_sec treq)" by (rule unat_sec_of(3) [OF invD(4) [OF I]])
  let ?Q = "\<lambda>n t. 0 < n \<and> n \<le> td_secs treq \<and> ready D {} (A + pieces (treq\<lparr>td_secs := n\<rparr>)) t \<and> same_disk s t" and ?E = "\<lambda>_ t. ready D {} A t \<and> same_disk s t"
  define r where "r = min (td_secs treq) (blk_room s (td_sec treq))"
  have r: "0 < r" "r \<le> td_secs treq" "r \<le> blk_room s (td_sec treq)" using room n by (simp_all add: r_def)
  show ?thesis
    unfolding turn_ok_def queue_write_step_def wp_vget Let_def r_def [symmetric]
  proof (subst wp_vbind, rule wp_read_bitmap_cache [OF I sec])
    fix t c assume st: "seen s t" and a: "cache_answer t (td_sec treq) VHD_OP_DATA_WRITE c"
    have T: "ready D {} A t" "same_disk s t" using seen_ready [OF st] R by simp_all
    note D = same_diskD [OF T(2)]
    have sc: "sec_ok t (td_sec treq)" and fr: "fits t (treq\<lparr>td_secs := r\<rparr>)" using part_fits [OF T(1)] sec r D by simp_all
    let ?blk = "blk_of t (td_sec treq)"
    note W = turn_wait [OF T fr b r(1,2), of VHD_OP_DATA_WRITE, OF disjI2 [OF refl]]
    have cl: "wp (vthen (schedule_data_write (treq\<lparr>td_secs := r\<rparr>) (set_vhd_flag VHD_FLAG_REQ_UPDATE_BAT VHD_FLAG_REQ_UPDATE_BITMAP)) (vret r)) ?Q ?E t"
      if "bat_table t ! unat ?blk = DD_BLK_UNUSED" "bat_locked t \<Longrightarrow> vb_pbw_blk (vs_bat t) = ?blk"
      unfolding wps by (rule turn_step [OF wp_schedule_data_write [OF T(1) fr refl] T(2) r(1,2)]) (use that in simp)
    have sp: "wp (vbind (read_bitmap_cache_span (td_sec treq) (td_secs treq) v) (\<lambda>k. vthen (schedule_data_write (treq\<lparr>td_secs := k\<rparr>) f) (vret k))) ?Q ?E t"
      if "bat_table t ! unat ?blk \<noteq> DD_BLK_UNUSED" "full_block t ?blk \<or> (\<exists>i. get_bitmap t ?blk = Some i \<and> \<not> rd_pending (the_bm t i) \<and>
        vhd_bitmap_test (vctx t) (vbm_map (the_bm t i)) (unat (sec_of t (td_sec treq))) = v)" "f = 0 \<or> f = VHD_FLAG_REQ_UPDATE_BITMAP \<and> joinable t ?blk" for v f
      by (rule turn_span [OF T sc n that(2)], rule wp_schedule_data_write [OF T(1) _ refl]) (use that in auto)
    have j: "joinable t ?blk" if "get_bitmap t ?blk = Some i" "\<not> rd_pending (the_bm t i)" "bat_table t ! unat ?blk \<noteq> DD_BLK_UNUSED" for i
    proof -
      from T(1) obtain G where "inv t G ({} \<union> in_flight t)" by (rule readyE)
      from get_bitmap_Some [OF invD(5) [OF this]] that show ?thesis by (auto simp: joinable_def unalloc_def)
    qed
    show "wp (if c = - EINVAL then vfail (- EINVAL)
       else if c = VHD_BM_BAT_LOCKED then vfail (- EBUSY)
       else if c = VHD_BM_BAT_CLEAR then vthen (schedule_data_write (treq\<lparr>td_secs := r\<rparr>)
           (set_vhd_flag VHD_FLAG_REQ_UPDATE_BAT VHD_FLAG_REQ_UPDATE_BITMAP)) (vret r)
       else if c = VHD_BM_BIT_CLEAR then vbind (read_bitmap_cache_span (td_sec treq) (td_secs treq) False) (\<lambda>n.
         vthen (schedule_data_write (treq\<lparr>td_secs := n\<rparr>) VHD_FLAG_REQ_UPDATE_BITMAP) (vret n))
       else if c = VHD_BM_BIT_SET then vbind (read_bitmap_cache_span (td_sec treq) (td_secs treq) True) (\<lambda>n.
         vthen (schedule_data_write (treq\<lparr>td_secs := n\<rparr>) 0) (vret n))
       else if c = VHD_BM_NOT_CACHED then vthen (schedule_bitmap_read (blk_of s (td_sec treq)))
         (vthen (vhd_queue_request VHD_OP_DATA_WRITE (treq\<lparr>td_secs := r\<rparr>)) (vret r))
       else if c = VHD_BM_READ_PENDING then vthen (vhd_queue_request VHD_OP_DATA_WRITE (treq\<lparr>td_secs := r\<rparr>)) (vret r)
       else vraise Abort) ?Q ?E t"
      using a
    proof (cases rule: cache_cases)
      case inval
      then show ?thesis using T by (simp add: wps)
    next
      case locked
      then show ?thesis using T by (simp add: wps)
    next
      case bclear
      then show ?thesis using cl by simp
    next
      case full
      then show ?thesis using sp by simp
    next
      case absent
      then show ?thesis using W(2) D unfolding wps by simp
    next
      case (reading i)
      then show ?thesis using W(1) unfolding wps by simp
    next
      case (bit i v)
      then show ?thesis using sp [of v] j [of i] by (cases v) auto
    qed
  qed
qed

section \<open>The loop\<close>

text \<open>A request of the virtual block device lies on the disk and has a buffer of its own.\<close>

definition on_disk :: "vhd_state \<Rightarrow> td_request \<Rightarrow> bool" where
  "on_disk s t \<longleftrightarrow> unat (td_sec t) + td_secs t \<le> n_blocks s * spb s \<and> td_buf t \<in> range Guest"

lemma on_disk_advance:
  assumes "on_disk s t" and "n \<le> td_secs t"
  shows "on_disk s (td_advance n t)"
proof -
  have "unat (td_sec t + of_nat n) \<le> unat (td_sec t) + unat (of_nat n :: u64)" by (simp add: unat_word_ariths)
  also have "\<dots> \<le> unat (td_sec t) + n" by (simp add: unat_of_nat)
  finally have "unat (td_sec t + of_nat n) \<le> unat (td_sec t) + n" .
  with assms show ?thesis by (auto simp: on_disk_def td_advance_def buf_add_def)
qed

lemma wp_vret_eta: "wp (vret x) Q E = Q x"
  by (rule ext) (rule wp_vret)

lemma td_complete_request_eta: "wp (td_complete_request treq e) Q E = (\<lambda>t. Q () (t\<lparr>vs_out := vs_out t @ [Complete treq e]\<rparr>))"
  by (rule ext) (simp add: td_complete_request_def wps)

lemma wp_queue_loop:
  assumes "ready D {} A s" and "on_disk s treq" and "td_secs treq \<le> k"
    and turn: "\<And>A s treq. ready D {} A s \<Longrightarrow> sec_ok s (td_sec treq) \<Longrightarrow> td_buf treq \<in> range Guest \<Longrightarrow> 0 < td_secs treq \<Longrightarrow> turn_ok D A treq (step treq) s"
  shows "wp (queue_loop step k treq) (\<lambda>_ t. ready D {} (A + pieces treq) t \<and> same_disk s t) (\<lambda>_ _. False) s"
  using assms(1-3)
proof (induction k arbitrary: A s treq)
  case 0
  then show ?case by (simp add: wps)
next
  case (Suc k)
  show ?case
  proof (cases "td_secs treq = 0")
    case True
    with Suc.prems show ?thesis by (simp add: wps)
  next
    case False
    have sc: "sec_ok s (td_sec treq)" using Suc.prems(2) False by (auto simp: on_disk_def sec_ok_def)
    have tn: "turn_ok D A treq (step treq) s" using turn [OF Suc.prems(1) sc] Suc.prems(2) False by (simp add: on_disk_def)
    have next1: "wp (queue_loop step k (td_advance n treq)) (\<lambda>_ u. ready D {} (A + pieces treq) u \<and> same_disk s u) (\<lambda>_ _. False) t"
      if t: "0 < n" "n \<le> td_secs treq" "ready D {} (A + pieces (treq\<lparr>td_secs := n\<rparr>)) t" "same_disk s t" for n t
    proof -
      have "on_disk t (td_advance n treq)" using on_disk_advance [OF Suc.prems(2) t(2)] same_diskD [OF t(4)] by (simp add: on_disk_def)
      moreover have "td_secs (td_advance n treq) \<le> k" using Suc.prems(3) t(1) by (simp add: td_advance_def)
      ultimately have "wp (queue_loop step k (td_advance n treq)) (\<lambda>_ u. ready D {} (A + pieces (treq\<lparr>td_secs := n\<rparr>) + pieces (td_advance n treq)) u \<and> same_disk t u) (\<lambda>_ _. False) t"
        using Suc.IH t(3) by blast
      then show ?thesis by (rule wp_mono) (use pieces_split [OF t(2)] same_disk_trans [OF t(4)] in \<open>auto simp: add.assoc\<close>)
    qed
    have err: "ready D {} (A + pieces treq) (t\<lparr>vs_out := vs_out t @ [Complete treq e]\<rparr>) \<and> same_disk s (t\<lparr>vs_out := vs_out t @ [Complete treq e]\<rparr>)"
      if "ready D {} A t" "same_disk s t" for t e using ready_out [OF that(1), of "Complete treq e" "pieces treq"] that(2) by (simp add: same_disk_def n_blocks_def)
    have "wp (step treq) (\<lambda>n. wp (queue_loop step k (td_advance n treq)) (\<lambda>_ u. ready D {} (A + pieces treq) u \<and> same_disk s u) (\<lambda>_ _. False))
        (\<lambda>e t. ready D {} (A + pieces treq) (t\<lparr>vs_out := vs_out t @ [Complete treq e]\<rparr>) \<and> same_disk s (t\<lparr>vs_out := vs_out t @ [Complete treq e]\<rparr>)) s"
      by (rule wp_mono [OF tn [unfolded turn_ok_def]]) (use next1 err in blast)+
    then show ?thesis using False by (simp add: wp_vbind wp_vcatch wp_vret_eta td_complete_request_eta)
  qed
qed

lemma wp_vhd_queue:
  assumes "ready D {} A s" and "on_disk s treq"
  shows "wp (vhd_queue_read treq) (\<lambda>_ t. ready D {} (A + pieces treq) t \<and> same_disk s t) (\<lambda>_ _. False) s"
    and "wp (vhd_queue_write treq) (\<lambda>_ t. ready D {} (A + pieces treq) t \<and> same_disk s t) (\<lambda>_ _. False) s"
  unfolding vhd_queue_read_def vhd_queue_write_def
  by (rule wp_queue_loop [OF assms order_refl]; (rule queue_read_turn queue_write_turn); assumption)+

end
