(* ===== verification/Block_Vhd_Start.thy ===== *)
theory Block_Vhd_Start
  imports Block_Vhd_Queue Vhd_Example
begin

text \<open>
  The driver before its first request, and when no call of the kernel is under way.
\<close>

section \<open>Nothing under way\<close>

lemma idle_no_tx:
  assumes I: "inv s G {}"
  shows "\<not> tx_live (the_bm s i)" "\<not> rd_pending (the_bm s i)"
proof -
  have n: "n_pending G {} j = 0" for j by (simp add: n_pending_def)
  note D = bm_okD [OF invD(2) [OF I, of i, unfolded bitmap_ok_def n]]
  show "\<not> rd_pending (the_bm s i)" using D(10) by simp
  have w: "\<not> wr_pending (the_bm s j)" for j
    using bm_okD(10) [OF invD(2) [OF I, of j, unfolded bitmap_ok_def]] by simp
  show "\<not> tx_live (the_bm s i)"
  proof
    assume l: "tx_live (the_bm s i)"
    have c: "tx_closed (vbm_tx (the_bm s i))" using D(7) l by blast
    have b: "has_lock s i" "tx_bat (the_bm s i)" "bat_tx s = Some i" using D(5) [OF c refl] w by blast+
    have e: "bat_err s = 0" "\<not> prealloc s" using D(17) [OF b(2)] by blast+
    have "bat_locked s" using b(1) by (simp add: has_lock_def)
    then obtain j where "alloc_phase s G {} j" using invD(3) [OF I] by (auto simp: bat_ok_def)
    then show False using e by (simp add: alloc_phase_def Let_def)
  qed
qed

lemma idle_lists:
  assumes I: "inv s G {}"
  shows "listed p \<Longrightarrow> g_list G p = []"
proof -
  assume p: "listed p"
  note L = listsD(1) [OF invD(6) [OF I] p]
  have "rl_head (list_at s p) = None"
  proof (cases p)
    case (In_tx i)
    have "vbm_tx (the_bm s i) = tx_zero"
      using bm_okD(9) [OF invD(2) [OF I, of i, unfolded bitmap_ok_def]] idle_no_tx(1) [OF I, of i] by blast
    then show ?thesis by (simp add: In_tx tx_zero_def req_list_nil_def)
  next
    case (In_queue i)
    have "\<not> tx_closed (vbm_tx (the_bm s i))"
      using bm_okD(4) [OF invD(2) [OF I, of i, unfolded bitmap_ok_def]] idle_no_tx(1) [OF I, of i] by blast
    then have "rl_head (vbm_queue (the_bm s i)) = None" using bm_okD(3) [OF invD(2) [OF I, of i, unfolded bitmap_ok_def]] by blast
    then show ?thesis by (simp add: In_queue)
  next
    case (In_wait i)
    have "rl_head (vbm_waiting (the_bm s i)) = None"
      using bm_okD(12) [OF invD(2) [OF I, of i, unfolded bitmap_ok_def]] idle_no_tx(2) [OF I, of i] by blast
    then show ?thesis by (simp add: In_wait)
  qed (simp_all add: req_list_nil_def)
  then show "g_list G p = []" using rlist_head [OF L] by simp
qed

text \<open>Then all requests are free: nothing is owed.\<close>

lemma idle_owes_nothing:
  assumes "good A s" and "vs_aio s = []"
  shows "reported s = A" "set (vs_vreq_free s) = {r. is_data r}"
proof -
  from assms(1) obtain G where G: "inv s G ({} \<union> in_flight s)" "reported s + owed s G = A" "parked s G = (\<lambda>_. None)" by (rule readyE)
  have I: "inv s G {}" using G(1) assms(2) by (simp add: in_flight_def)
  have "g_own G r = Free" if d: "is_data r" for r
  proof -
    have q: "dreq_ok s G {} r" using invD(8) [OF I] d by (simp add: reqs_ok_def)
    have p: "g_own G r \<noteq> Parked" using fun_cong [OF G(3), of r] by (auto simp: parked_def)
    have nl: "\<not> listed (g_own G r)"
    proof
      assume l: "listed (g_own G r)"
      have "r \<in> set (g_list G (g_own G r))" using listsD(3) [OF invD(6) [OF I] l] by simp
      then show False using idle_lists [OF I l] by simp
    qed
    show ?thesis using q p nl by (cases "g_own G r") (simp_all add: dreq_ok_def Let_def)
  qed
  then have c: "contrib s G r = {#}" if "is_data r" for r using that by (simp add: contrib_def)
  have "owed s G = {#}" unfolding owed_def using c by simp
  then show "reported s = A" using G(2) by simp
  have "is_data r" if "g_own G r = Free" for r using own_data [OF invD(8) [OF I] that] by simp
  then show "set (vs_vreq_free s) = {r. is_data r}"
    using invD(7) [OF I] \<open>\<And>r. is_data r \<Longrightarrow> g_own G r = Free\<close> by (auto simp: pool_ok_def)
qed

section \<open>Nothing done yet\<close>

text \<open>The state after an open: no bitmap is cached, no request is in use.\<close>

definition fresh_driver :: "vhd_state \<Rightarrow> bool" where
  "fresh_driver s \<longleftrightarrow> driver_cfg s \<and> vs_bitmap s = replicate VHD_CACHE_SIZE None \<and> vs_bitmap_free s = [0..<VHD_CACHE_SIZE] \<and>
     vs_vreq_free s = map Data [0..<VHD_REQS_DATA] \<and> (\<forall>r. vs_req s r = req_zero) \<and> vb_status (vs_bat s) = 0 \<and> vs_aio s = [] \<and> vs_out s = [] \<and>
     (\<forall>i. vbm_status (the_bm s i) = 0 \<and> vbm_tx (the_bm s i) = tx_zero \<and> vbm_queue (the_bm s i) = req_list_nil \<and> vbm_waiting (the_bm s i) = req_list_nil)"

lemma fresh_good:
  assumes "fresh_driver s"
  shows "good {#} s"
proof -
  note F = assms [unfolded fresh_driver_def]
  define G where "G = \<lparr>g_own = (\<lambda>r. if is_data r then Free else Idle), g_list = (\<lambda>_. [])\<rparr>"
  have own: "g_own G r = (if is_data r then Free else Idle)" "g_list G p = []" for r p by (simp_all add: G_def)
  have q: "vs_req s r = req_zero" for r using F by blast
  have b: "vbm_status (the_bm s i) = 0" "vbm_tx (the_bm s i) = tx_zero" "vbm_queue (the_bm s i) = req_list_nil" "vbm_waiting (the_bm s i) = req_list_nil" for i
    using F by blast+
  have la: "list_at s p = req_list_nil" for p by (cases p) (simp_all add: b tx_zero_def)
  have "lists_ok s G" by (auto simp: lists_ok_def own la listed_def)
  moreover have "pool_ok s G" using F by (auto simp: pool_ok_def own is_data_def distinct_map inj_on_def)
  moreover have "reqs_ok s G {}" by (auto simp: reqs_ok_def own dreq_ok_def q zero_ok_def batreq_ok_def bmreq_ok_def is_data_def Let_def)
  moreover have "cached_bms s = []" using F by (simp add: cached_bms_def)
  then have "cache_ok s" using F by (auto simp: cache_ok_def)
  ultimately have C: "core_ok s G {}" using F by (simp add: core_ok_def)
  have "installed s i = False" for i using F by (simp add: installed_def)
  then have "bitmap_ok s G {} i" for i
    by (simp add: bitmap_ok_def n_pending_def own) (rule bm_okI; simp add: b tx_zero_def req_list_nil_def bitmap_locked_def bitmap_in_use_def has_lock_def test_vhd_flag_def)
  moreover have "bat_ok s G {}" using F by (simp add: bat_ok_def bat_locked_def bat_idle_def q req_zero_def test_vhd_flag_def)
  ultimately have I: "inv s G {}" using C by (simp add: inv_def)
  have "owed s G = {#}" by (simp add: owed_def contrib_def own)
  moreover have "reported s = {#}" using F by (simp add: reported_def)
  moreover have "parked s G = (\<lambda>_. None)" by (rule ext) (simp add: parked_def own)
  moreover have "aio_ok s" "in_flight s = {}" using F by (simp_all add: aio_ok_def in_flight_def)
  ultimately show ?thesis using I by (auto intro!: readyI [of s G "{}"])
qed


section \<open>An example\<close>

text \<open>A disk of 64 sectors in four blocks, none of which is allocated.\<close>

definition ex_driver :: vhd_state where
  "ex_driver = \<lparr>vs_flags = 0, vs_vhd = ex_image\<lparr>st_ctx := (ex_image_ctx ''a'')\<lparr>ctx_spb := 16, ctx_bm_secs := 1,
       ctx_header := ex_header\<lparr>hdr_max_bat_size := 4, hdr_block_size := 8192\<rparr>\<rparr>\<rparr>, vs_spp = 8, vs_spb = 16, vs_first_db = 15, vs_next_db = 11,
     vs_bat = \<lparr>vb_bat = \<lparr>bat_spb = 16, bat_entries = 4, bat_bat = Some (replicate 128 DD_BLK_UNUSED)\<rparr>, vb_batmap = batmap_zero,
       vb_status = 0, vb_pbw_blk = 0, vb_pbw_offset = 0, vb_bat_buf = []\<rparr>,
     vs_bm_lru = 0, vs_bm_secs = 1, vs_bitmap = replicate VHD_CACHE_SIZE None, vs_bitmap_free = [0..<VHD_CACHE_SIZE],
     vs_bitmap_list = (\<lambda>_. \<lparr>vbm_blk = 0, vbm_seqno = 0, vbm_status = 0, vbm_map = zeros 512, vbm_shadow = zeros 512, vbm_tx = tx_zero,
       vbm_queue = req_list_nil, vbm_waiting = req_list_nil\<rparr>),
     vs_vreq_free = map Data [0..<VHD_REQS_DATA], vs_req = (\<lambda>_. req_zero), vs_padbm_size = 4096, vs_padbm_buf = [],
     vs_skipped_redundant_writes = 0, vs_done_redundant_writes = 0, vs_queued = 0, vs_completed = 0, vs_returned = 0, vs_reads = 0,
     vs_read_size = 0, vs_writes = 0, vs_write_size = 0, vs_zsize = 2105344, vs_aio = [], vs_out = []\<rparr>"

lemma fresh_ex_driver: "fresh_driver ex_driver"
proof -
  have "vhd_type_dynamic (vctx ex_driver)"
    by (simp add: ex_driver_def vhd_type_dynamic_def ex_image_ctx_def ex_image_footer_def ex_footer_def)
  then have "driver_cfg ex_driver"
    by (simp add: driver_cfg_def) (simp add: ex_driver_def n_blocks_def bat_table_def batmap_fits_def batmap_zero_def test_vhd_flag_def vhd_flag_defs)
  then show ?thesis by (simp add: fresh_driver_def) (simp add: ex_driver_def)
qed

text \<open>A request over three blocks.\<close>

definition ex_write :: td_request where
  "ex_write = td_zero\<lparr>td_buf := Guest 4096, td_sec := 8, td_secs := 30\<rparr>"

lemma on_disk_ex: "on_disk ex_driver ex_write"
  by (simp add: on_disk_def ex_write_def ex_driver_def n_blocks_def td_zero_def)

end
