(* ===== verification/Block_Vhd_Finish.thy ===== *)
theory Block_Vhd_Finish
  imports Block_Vhd_Queue
begin

text \<open>
  The steps of \<open>finish_bitmap_transaction\<close> under the invariant: the requests of a list are completed
  together, the bitmap is settled, the queued requests start the next transaction.
\<close>

text \<open>The calculus on predicates.\<close>

lemma wp_fun:
  "wp (vret x) Q E = Q x" "wp (vget f) Q E = (\<lambda>s. wp (f s) Q E s)" "wp (vmodify g) Q E = (\<lambda>s. Q () (g s))"
  "wp (vbind m k) Q E = wp m (\<lambda>x. wp (k x) Q E) E" "wp (if b then m else n) Q E = (if b then wp m Q E else wp n Q E)"
  by (auto simp: wps fun_eq_iff)

section \<open>Several requests move\<close>

lemma core_moves:
  assumes C: "core_ok s G Pd" and fr: "same_frame s t" and X: "\<And>r. r \<in> X \<Longrightarrow> is_data r \<and> dreq_ok t G' Pd r"
    and rq: "\<And>q. q \<notin> X \<Longrightarrow> vs_req t q = vs_req s q" and own: "\<And>q. q \<notin> X \<Longrightarrow> g_own G' q = g_own G q"
    and L: "lists_ok t G'" and P: "pool_ok t G'"
    and st: "\<And>i. Bm_req i \<in> Pd \<Longrightarrow> rd_pending (the_bm t i) = rd_pending (the_bm s i)"
  shows "core_ok t G' Pd"
proof -
  note f = same_frameD [OF fr]
  have C': "driver_cfg s" "cache_ok s" "reqs_ok s G Pd" using C by (simp_all add: core_ok_def)
  have nX: "Zero_req \<notin> X" "Bat_req \<notin> X" "Bm_req i \<notin> X" "VHD_REQS_DATA \<le> k \<Longrightarrow> Data k \<notin> X" for i k
    using X by (force simp: is_data_def)+
  have "dreq_ok t G' Pd q" if q: "is_data q" for q
  proof (cases "q \<in> X")
    case False
    have "dreq_ok s G Pd q" using C'(3) q by (simp add: reqs_ok_def)
    moreover have "tx_write t Pd i q = tx_write s Pd i q" for i by (simp add: tx_write_def rq [OF False] f)
    ultimately show ?thesis by (simp add: dreq_ok_def own [OF False] rq [OF False] f Let_def cong: place.case_cong)
  qed (use X in simp)
  moreover have "zero_ok t G' Pd" "batreq_ok t G' Pd" using C'(3) nX by (simp_all add: reqs_ok_def zero_ok_def batreq_ok_def own rq f Let_def)
  moreover have "bmreq_ok t Pd i \<and> g_own G' (Bm_req i) = Idle" for i
    using C'(3) nX st [of i] by (auto simp: reqs_ok_def bmreq_ok_def own rq f Let_def)
  moreover have "Data k \<notin> Pd \<and> g_own G' (Data k) = Idle" if "VHD_REQS_DATA \<le> k" for k
    using C'(3) nX(4) [OF that] that by (simp add: reqs_ok_def own)
  ultimately show ?thesis using C' L P by (simp add: core_ok_def f reqs_ok_def)
qed

text \<open>The list at place \<open>p\<close> is emptied; its requests come to place \<open>y\<close>.\<close>

definition emptied :: "ghost \<Rightarrow> place \<Rightarrow> place \<Rightarrow> ghost" where
  "emptied G p y = G\<lparr>g_own := (\<lambda>r. if r \<in> set (g_list G p) then y else g_own G r), g_list := (g_list G)(p := [])\<rparr>"

lemma emptied_simps [simp]:
  "g_own (emptied G p y) r = (if r \<in> set (g_list G p) then y else g_own G r)" "g_list (emptied G p y) q = (if q = p then [] else g_list G q)"
  by (simp_all add: emptied_def)

lemma lists_emptied:
  assumes L: "lists_ok s G" and p: "listed p" and y: "\<not> listed y"
    and l: "list_at t p = req_list_nil" and o: "\<And>q. q \<noteq> p \<Longrightarrow> listed q \<Longrightarrow> list_at t q = list_at s q"
    and n: "\<And>r. r \<notin> set (g_list G p) \<Longrightarrow> nexts t r = nexts s r"
  shows "lists_ok t (emptied G p y)"
  unfolding lists_ok_def
proof (intro allI impI conjI)
  fix q assume q: "listed q"
  note Lq = listsD [OF L q] and Lp = listsD [OF L p]
  have yq: "y \<noteq> q" using y q by blast
  show "rlist (nexts t) (list_at t q) (g_list (emptied G p y) q)"
  proof (cases "q = p")
    case False
    have "nexts t r = nexts s r" if "r \<in> set (g_list G q)" for r using n [of r] Lq(3) Lp(3) that False by auto
    then show ?thesis using rlist_cong [of "g_list G q" "nexts t" "nexts s"] Lq(1) False o [OF False q] by auto
  qed (simp add: l)
  show "distinct (g_list (emptied G p y) q)" using Lq(2) by simp
  show "set (g_list (emptied G p y) q) = {r. g_own (emptied G p y) r = q}"
    using Lq(3) Lp(3) yq by auto
qed

section \<open>Completion of a list\<close>

definition signalled :: "int \<Rightarrow> rid list \<Rightarrow> vhd_state \<Rightarrow> vhd_state" where
  "signalled e xs s = s\<lparr>vs_req := (\<lambda>r. if r \<in> set xs then req_zero else vs_req s r), vs_vreq_free := rev xs @ vs_vreq_free s,
     vs_out := vs_out s @ map (\<lambda>r. Complete (vr_treq (vs_req s r)) (if e \<noteq> 0 then e else vr_error (vs_req s r))) xs,
     vs_returned := vs_returned s + of_nat (length xs)\<rparr>"

lemma signalled_simps [simp]:
  "vs_flags (signalled e xs s) = vs_flags s" "vs_vhd (signalled e xs s) = vs_vhd s" "vs_spp (signalled e xs s) = vs_spp s"
  "vs_spb (signalled e xs s) = vs_spb s" "vs_first_db (signalled e xs s) = vs_first_db s" "vs_next_db (signalled e xs s) = vs_next_db s"
  "vs_bat (signalled e xs s) = vs_bat s" "vs_bm_secs (signalled e xs s) = vs_bm_secs s" "vs_bitmap (signalled e xs s) = vs_bitmap s"
  "vs_bitmap_free (signalled e xs s) = vs_bitmap_free s" "vs_bitmap_list (signalled e xs s) = vs_bitmap_list s"
  "vs_zsize (signalled e xs s) = vs_zsize s" "vs_aio (signalled e xs s) = vs_aio s" "vs_padbm_size (signalled e xs s) = vs_padbm_size s"
  "vs_vreq_free (signalled e xs s) = rev xs @ vs_vreq_free s" "vs_req (signalled e xs s) r = (if r \<in> set xs then req_zero else vs_req s r)"
  "vs_out (signalled e xs s) = vs_out s @ map (\<lambda>r. Complete (vr_treq (vs_req s r)) (if e \<noteq> 0 then e else vr_error (vs_req s r))) xs"
  by (simp_all add: signalled_def)

lemma wp_signal_loop:
  assumes "chained (nexts s) xs" and "distinct xs" and "length xs \<le> k" and "length (vs_vreq_free s) + length xs \<le> VHD_REQS_DATA"
    and "Q () (signalled e xs s)"
  shows "wp (signal_loop k (if xs = [] then None else Some (hd xs)) e) Q E s"
  using assms
proof (induction k arbitrary: xs s)
  case 0
  then have "s = signalled e [] s" by (simp add: signalled_def)
  then show ?case using 0 by (simp add: wps)
next
  case (Suc k)
  show ?case
  proof (cases xs)
    case Nil
    then have "signalled e xs s = s" by (simp add: signalled_def)
    then show ?thesis using Suc.prems(5) Nil by (simp add: wps)
  next
    case (Cons x ys)
    let ?t = "signalled e [x] s"
    have nx: "vr_next (vs_req s x) = (if ys = [] then None else Some (hd ys))" and c: "chained (nexts s) ys"
      using Suc.prems(1) Cons by (simp_all add: chained_Cons)
    have x: "x \<notin> set ys" "distinct ys" using Suc.prems(2) Cons by simp_all
    have "nexts ?t y = nexts s y" if "y \<in> set ys" for y using that x by auto
    then have "chained (nexts ?t) ys" using rchained_cong [of ys "nexts ?t" "nexts s"] c by blast
    moreover have "signalled e ys ?t = signalled e (x # ys) s"
    proof -
      have "map (\<lambda>r. Complete (vr_treq (vs_req ?t r)) (if e \<noteq> 0 then e else vr_error (vs_req ?t r))) ys =
          map (\<lambda>r. Complete (vr_treq (vs_req s r)) (if e \<noteq> 0 then e else vr_error (vs_req s r))) ys"
        by (rule map_cong) (use x in auto)
      then show ?thesis by (auto simp: signalled_def fun_eq_iff)
    qed
    ultimately have "wp (signal_loop k (if ys = [] then None else Some (hd ys)) e) Q E ?t"
      using Suc.prems x(2) Cons by (intro Suc.IH) simp_all
    moreover have "s\<lparr>vs_out := vs_out s @ [Complete (vr_treq (vs_req s x)) (if e \<noteq> 0 then e else vr_error (vs_req s x))], vs_req := (vs_req s)(x := req_zero),
        vs_vreq_free := x # vs_vreq_free s, vs_returned := vs_returned s + 1\<rparr> = ?t"
      by (simp add: signalled_def fun_eq_iff)
    ultimately show ?thesis using Suc.prems(4) Cons nx
      by (simp add: wps td_complete_request_def free_vhd_request_def Let_def init_vhd_request_def upd_req_def del: if_split)
  qed
qed

lemma contrib_sum:
  assumes "distinct xs" and "\<And>r. r \<in> set xs \<Longrightarrow> is_data r" and "\<And>r. is_data r \<Longrightarrow> r \<notin> set xs \<Longrightarrow> contrib t G' r = contrib s G r"
    and "\<And>r. r \<in> set xs \<Longrightarrow> contrib t G' r = {#}"
  shows "owed s G = owed t G' + sum_list (map (contrib s G) xs)"
proof -
  let ?D = "{r. is_data r}"
  have D: "?D = (?D - set xs) \<union> set xs" using assms(2) by auto
  have s: "owed u H = sum (contrib u H) (?D - set xs) + sum (contrib u H) (set xs)" for u H
    unfolding owed_def by (subst D, rule sum.union_disjoint) (use finite_data(1) in auto)
  have "sum (contrib t G') (?D - set xs) = sum (contrib s G) (?D - set xs)" using assms(3) by (intro sum.cong) auto
  moreover have "sum (contrib t G') (set xs) = {#}" using assms(4) by simp
  moreover have "sum (contrib s G) (set xs) = sum_list (map (contrib s G) xs)" using assms(1) by (rule sum.distinct_set_conv_list)
  ultimately show ?thesis using s [of s G] s [of t G'] by simp
qed

lemma signalled_account:
  assumes L: "lists_ok s G" and p: "listed p" and xs: "xs = g_list G p" and d: "\<And>r. r \<in> set xs \<Longrightarrow> is_data r \<and> vr_op (vs_req s r) \<noteq> VHD_OP_REDUNDANT_BM_WRITE"
    and t: "vs_req t = vs_req (signalled e xs s)" "vs_out t = vs_out (signalled e xs s)"
  shows "reported t + owed t (emptied G p Free) = reported s + owed s G" "parked t (emptied G p Free) = parked s G"
proof -
  note Lp = listsD [OF L p, folded xs]
  have p': "p \<noteq> Free" "p \<noteq> Parked" using p by auto
  have "owed s G = owed t (emptied G p Free) + sum_list (map (contrib s G) xs)"
    by (rule contrib_sum [OF Lp(2)]) (use d in \<open>auto simp: contrib_def t(1) xs\<close>)
  moreover have "reported t = reported s + sum_list (map (contrib s G) xs)"
  proof -
    have "contrib s G r = pieces (vr_treq (vs_req s r))" if "r \<in> set xs" for r using d [OF that] Lp(3) [of r] that p'(1) by (auto simp: contrib_def)
    then have "map (contrib s G) xs = map (\<lambda>r. pieces (vr_treq (vs_req s r))) xs" by (rule map_cong [OF refl])
    then have "sum_list (map (contrib s G) xs) = sum_list (map (\<lambda>r. pieces (vr_treq (vs_req s r))) xs)" by (rule arg_cong)
    then show ?thesis by (simp add: reported_def t(2) comp_def)
  qed
  ultimately show "reported t + owed t (emptied G p Free) = reported s + owed s G" by (simp add: add.assoc add.commute)
  show "parked t (emptied G p Free) = parked s G"
    by (rule parked_cong) (use Lp(3) p'(2) in \<open>auto simp: t(1) xs\<close>)
qed

text \<open>The requests of a list are completed, and the list is emptied.\<close>

lemma core_signalled:
  assumes C: "core_ok s G Pd" and p: "listed p" and xs: "xs = g_list G p" and d: "\<And>r. r \<in> set xs \<Longrightarrow> is_data r \<and> r \<notin> Pd"
    and fr: "same_frame s t" and rq: "vs_req t = vs_req (signalled e xs s)" and f: "vs_vreq_free t = rev xs @ vs_vreq_free s"
    and l: "list_at t p = req_list_nil" and o: "\<And>q. q \<noteq> p \<Longrightarrow> listed q \<Longrightarrow> list_at t q = list_at s q"
    and st: "\<And>i. rd_pending (the_bm t i) = rd_pending (the_bm s i)"
  shows "core_ok t (emptied G p Free) Pd"
proof -
  have L: "lists_ok s G" and P: "pool_ok s G" using C by (simp_all add: core_ok_def)
  note Lp = listsD [OF L p, folded xs]
  have pf: "p \<noteq> Free" using p by auto
  show ?thesis
  proof (rule core_moves [OF C fr, of "set xs"])
    show "is_data r \<and> dreq_ok t (emptied G p Free) Pd r" if "r \<in> set xs" for r
      using d [OF that] that by (simp add: dreq_ok_def rq xs)
    show "lists_ok t (emptied G p Free)"
      by (rule lists_emptied [OF L p _ l o]) (simp_all add: rq xs)
    show "pool_ok t (emptied G p Free)"
      using P Lp pf by (auto simp: pool_ok_def f xs)
  qed (simp_all add: rq xs st)
qed

lemma signal_room:
  assumes R: "reqs_ok s G Pd" and L: "lists_ok s G" and P: "pool_ok s G" and p: "listed p" and d: "\<And>r. r \<in> set (g_list G p) \<Longrightarrow> is_data r"
  shows "length (g_list G p) \<le> VHD_REQS_TOTAL" "length (vs_vreq_free s) + length (g_list G p) \<le> VHD_REQS_DATA"
proof -
  note Lp = listsD [OF L p]
  show "length (g_list G p) \<le> VHD_REQS_TOTAL" by (rule tx_list_bound [OF R L p])
  have "p \<noteq> Free" using p by auto
  then show "length (vs_vreq_free s) + length (g_list G p) \<le> VHD_REQS_DATA"
    using Lp d by (intro pool_room [OF R P]) auto
qed

lemma tx_data:
  assumes "reqs_ok s G Pd" and "lists_ok s G" and "r \<in> set (g_tx G i)" and "r \<notin> Pd"
  shows "is_data r" "tx_write s Pd i r"
proof -
  have o: "g_own G r = In_tx i" using listsD(3) [OF assms(2), of "In_tx i" r] assms(3) by simp
  show d: "is_data r"
  proof (rule ccontr)
    assume n: "\<not> is_data r"
    show False
    proof (cases r)
      case (Data k)
      then have "VHD_REQS_DATA \<le> k" using n by (auto simp: is_data_def)
      then show False using assms(1) o Data by (simp add: reqs_ok_def)
    qed (use assms(1,4) o in \<open>simp_all add: reqs_ok_def zero_ok_def batreq_ok_def Let_def\<close>)
  qed
  have "dreq_ok s G Pd r" using assms(1) d by (simp add: reqs_ok_def)
  then show "tx_write s Pd i r" using o by (simp add: dreq_ok_def Let_def)
qed

section \<open>The end of a transaction\<close>

text \<open>The lock of the table while the transaction of bitmap \<open>i\<close> ends: if it is its own, the table has been written.\<close>

definition lock_over :: "vhd_state \<Rightarrow> ghost \<Rightarrow> rid set \<Rightarrow> nat \<Rightarrow> bool" where
  "lock_over s G Pd i \<longleftrightarrow> (if has_lock s i then Zero_req \<notin> Pd \<and> Bat_req \<notin> Pd \<and> bat_started s \<and> (bat_err s \<noteq> 0 \<longrightarrow> unalloc s i) else bat_ok s G Pd)"

definition others_ok :: "vhd_state \<Rightarrow> ghost \<Rightarrow> rid set \<Rightarrow> nat \<Rightarrow> bool" where
  "others_ok s G Pd i \<longleftrightarrow> core_ok s G Pd \<and> (\<forall>j. j \<noteq> i \<longrightarrow> bitmap_ok s G Pd j) \<and> lock_over s G Pd i"

definition resting :: "vhd_state \<Rightarrow> rid set \<Rightarrow> nat \<Rightarrow> bool" where
  "resting s Pd i \<longleftrightarrow> installed s i \<and> Bm_req i \<notin> Pd \<and> \<not> rd_pending (the_bm s i) \<and> \<not> wr_pending (the_bm s i) \<and> vbm_waiting (the_bm s i) = req_list_nil"

text \<open>Changes of bitmap \<open>i\<close>, the requests and the reports only.\<close>

definition same_lock :: "vhd_state \<Rightarrow> vhd_state \<Rightarrow> bool" where
  "same_lock s t \<longleftrightarrow> bat_table t = bat_table s \<and> vb_status (vs_bat t) = vb_status (vs_bat s) \<and> vb_pbw_blk (vs_bat t) = vb_pbw_blk (vs_bat s) \<and>
     vs_req t Bat_req = vs_req s Bat_req"

lemma same_lockD:
  assumes "same_lock s t" and "same_frame s t"
  shows "has_lock t i = has_lock s i" "unalloc t i = unalloc s i" "bat_err t = bat_err s" "bat_tx t = bat_tx s" "bat_locked t = bat_locked s" "bat_started t = bat_started s"
  using assms has_lock_frame [of s t i] unalloc_frame [of s t i] by (simp_all add: same_lock_def bat_locked_def)

lemma others_frame:
  assumes O: "others_ok s G Pd i" and C: "core_ok t G' Pd" and fr: "same_frame s t" and v: "same_lock s t"
    and bm: "\<And>j. j \<noteq> i \<Longrightarrow> the_bm t j = the_bm s j"
    and o: "g_own G' Zero_req = g_own G Zero_req" "g_own G' Bat_req = g_own G Bat_req" and n: "\<And>j. j \<noteq> i \<Longrightarrow> g_tx G' j = g_tx G j"
  shows "others_ok t G' Pd i"
proof -
  note V = same_lockD [OF v fr] and F = same_frameD [OF fr]
  note O' = O [unfolded others_ok_def]
  have "bitmap_ok t G' Pd j" if j: "j \<noteq> i" for j
    by (rule bitmap_ok_frame [of s G Pd j]) (use O' j in \<open>simp_all add: bm [OF j] V F n_pending_def n [OF j]\<close>)
  moreover have "lock_over t G' Pd i"
  proof (cases "has_lock s i")
    case True
    then show ?thesis using O' by (simp add: lock_over_def V)
  next
    case False
    then have "bat_ok s G Pd" using O' by (simp add: lock_over_def)
    then have "bat_ok t G' Pd"
    proof (rule bat_ok_frame [OF _ _ _ V(3,4) refl refl o fr])
      show "vb_status (vs_bat t) = vb_status (vs_bat s)" "vb_pbw_blk (vs_bat t) = vb_pbw_blk (vs_bat s)" using v by (simp_all add: same_lock_def)
      show "unalloc t j = unalloc s j" for j using same_lockD(2) [OF v fr] .
      show "vbm_tx (the_bm t j) = vbm_tx (the_bm s j) \<and> rd_pending (the_bm t j) = rd_pending (the_bm s j) \<and> wr_pending (the_bm t j) = wr_pending (the_bm s j)"
        if "has_lock s j" for j using bm [of j] that False by (cases "j = i") simp_all
    qed
    then show ?thesis using False by (simp add: lock_over_def V)
  qed
  ultimately show ?thesis using C by (simp add: others_ok_def)
qed

text \<open>What the account and the kernel see of a step.\<close>

definition steady :: "vhd_state \<Rightarrow> ghost \<Rightarrow> vhd_state \<Rightarrow> ghost \<Rightarrow> bool" where
  "steady s G t G' \<longleftrightarrow> reported t + owed t G' = reported s + owed s G \<and> parked t G' = parked s G \<and> same_disk s t \<and> (aio_ok s \<longrightarrow> aio_ok t)"

lemma steady_refl [simp]: "steady s G s G"
  by (simp add: steady_def)

lemma steady_trans: "steady s G t G' \<Longrightarrow> steady t G' u G'' \<Longrightarrow> steady s G u G''"
  using same_disk_trans by (auto simp: steady_def)

lemma steadyI:
  assumes "reported t + owed t G' = reported s + owed s G" "parked t G' = parked s G" "same_disk s t"
    "vs_aio t = vs_aio s" "\<And>j. rd_pending (the_bm s j) \<Longrightarrow> rd_pending (the_bm t j)"
  shows "steady s G t G'" "in_flight t = in_flight s"
  using assms aio_ok_same [of s t] by (auto simp: steady_def in_flight_def same_disk_def)

section \<open>Settling the bitmap\<close>

lemma core_batmap:
  assumes "core_ok s G Pd" and "batmap_fits s b"
  shows "core_ok (upd_vbat (\<lambda>v. v\<lparr>vb_batmap := b\<rparr>) s) G Pd" (is "core_ok ?t G Pd")
proof -
  have n: "n_blocks ?t = n_blocks s" "bat_table ?t = bat_table s" by (simp_all add: n_blocks_def bat_table_def upd_vbat_def)
  have f: "sec_ok ?t = sec_ok s" "blk_of ?t = blk_of s" "sec_of ?t = sec_of s" "in_block ?t = in_block s"
    by (auto simp: sec_ok_def blk_of_def sec_of_def in_block_def n fun_eq_iff) (auto simp: upd_vbat_def)
  have r: "vs_req ?t = vs_req s" "the_bm ?t = the_bm s" "vs_flags ?t = vs_flags s" "vs_vreq_free ?t = vs_vreq_free s" by (simp_all add: upd_vbat_def)
  have "tx_write ?t Pd i q = tx_write s Pd i q" for i q by (simp add: tx_write_def f r)
  then have "dreq_ok ?t G Pd q = dreq_ok s G Pd q" for q by (simp add: dreq_ok_def f r Let_def cong: place.case_cong)
  moreover have "zero_ok ?t G Pd = zero_ok s G Pd" "batreq_ok ?t G Pd = batreq_ok s G Pd" "bmreq_ok ?t Pd i = bmreq_ok s Pd i" for i
    by (simp_all add: zero_ok_def batreq_ok_def bmreq_ok_def f r)
  ultimately have q: "reqs_ok ?t G Pd = reqs_ok s G Pd" by (simp add: reqs_ok_def)
  have "list_at ?t p = list_at s p" for p by (cases p) (simp_all add: r)
  then have l: "lists_ok ?t G = lists_ok s G" "pool_ok ?t G = pool_ok s G" by (simp_all add: lists_ok_def pool_ok_def r)
  have c: "cache_ok ?t = cache_ok s" by (simp add: cache_ok_def cached_bms_def n r) (simp add: upd_vbat_def cong: conj_cong)
  have "batmap_fits ?t b" using assms(2) by (cases "bm_map b") (simp_all add: batmap_fits_def n, simp add: upd_vbat_def)
  then have "driver_cfg ?t" using assms(1) by (simp add: core_ok_def driver_cfg_def n) (simp add: upd_vbat_def)
  then show ?thesis using assms(1) q l c by (simp add: core_ok_def)
qed

lemma others_batmap:
  assumes O: "others_ok s G Pd i" and "batmap_fits s b"
  shows "others_ok (upd_vbat (\<lambda>v. v\<lparr>vb_batmap := b\<rparr>) s) G Pd i" (is "others_ok ?t G Pd i")
proof -
  have e: "installed ?t j = installed s j" "unalloc ?t j = unalloc s j" "has_lock ?t j = has_lock s j" for j
    by (simp_all add: installed_def unalloc_def has_lock_def bat_table_def bat_locked_def upd_vbat_def)
  have "bitmap_ok ?t G Pd j = bitmap_ok s G Pd j" for j by (simp add: bitmap_ok_def e) (simp add: upd_vbat_def)
  moreover have "bat_ok ?t G Pd = bat_ok s G Pd" by (simp add: bat_ok_def e alloc_phase_def bat_idle_def Let_def) (simp add: upd_vbat_def bat_locked_def)
  then have "lock_over ?t G Pd i = lock_over s G Pd i" by (simp add: lock_over_def e) (simp add: upd_vbat_def)
  ultimately show ?thesis using O core_batmap [OF _ assms(2), of G Pd] by (simp add: others_ok_def)
qed

lemma wp_set_batmap:
  assumes "driver_cfg s" and "unat blk < n_blocks s" and Q0: "Q () s" and Q: "\<And>b. batmap_fits s b \<Longrightarrow> Q () (upd_vbat (\<lambda>v. v\<lparr>vb_batmap := b\<rparr>) s)"
  shows "wp (set_batmap blk) Q E s"
proof (cases "bm_map (vb_batmap (vs_bat s))")
  case None
  with Q0 show ?thesis by (simp add: set_batmap_def wps)
next
  case (Some m)
  let ?b = "vb_batmap (vs_bat s)"
  have f: "plain_batmap (vctx s)" "batmap_index_ok ?b blk \<Longrightarrow> unat blk div 8 < length m" and fb: "batmap_fits s ?b"
    using assms(1,2) Some by (simp_all add: driver_cfg_def batmap_fits_def)
  have d: "vhd_type_dynamic (vctx s)" using assms(1) by (rule cfgD)
  define b where "b = (if has_batmap (vctx s) \<and> batmap_index_ok ?b blk then ?b\<lparr>bm_map := Some (set_bit m (unat blk))\<rparr> else ?b)"
  have b: "vhd_batmap_set ?b blk (vs_vhd s) = (Inr b, vs_vhd s)" "b = ?b \<or> b = ?b\<lparr>bm_map := Some (set_bit m (unat blk))\<rparr>"
    using has_batmap_run [OF f(1) d] f(2) Some by (simp_all add: b_def vhd_batmap_set_def vbind_def vret_def vdefined_def)
  have "length (set_bit m (unat blk)) = length m" by (simp add: set_bit_def)
  moreover have "batmap_index_ok (?b\<lparr>bm_map := x\<rparr>) k = batmap_index_ok ?b k" for x k by (simp add: batmap_index_ok_def)
  ultimately have "batmap_fits s b" using fb b(2) Some by (auto simp: batmap_fits_def)
  moreover have "on_lib (vhd_batmap_set ?b blk) s = (Inr b, s)" using b(1) by (simp add: on_lib_def)
  ultimately show ?thesis using Some Q [of b] wp_ok [of "on_lib (vhd_batmap_set ?b blk)" s b s] by (simp add: set_batmap_def wps)
qed

definition settled_bm :: "nat \<Rightarrow> vhd_state \<Rightarrow> vhd_state \<Rightarrow> bool" where
  "settled_bm i s t \<longleftrightarrow> (\<exists>x y b. t = upd_vbat (\<lambda>v. v\<lparr>vb_batmap := b\<rparr>) (upd_bm i (\<lambda>v. v\<lparr>vbm_map := x, vbm_shadow := y\<rparr>) s))"

lemma settled_bmI: "settled_bm i s (upd_vbat (\<lambda>v. v\<lparr>vb_batmap := b\<rparr>) (upd_bm i (\<lambda>v. v\<lparr>vbm_map := x, vbm_shadow := y\<rparr>) s))"
  "settled_bm i s (upd_bm i (\<lambda>v. v\<lparr>vbm_map := x, vbm_shadow := y\<rparr>) s)"
proof -
  show "settled_bm i s (upd_vbat (\<lambda>v. v\<lparr>vb_batmap := b\<rparr>) (upd_bm i (\<lambda>v. v\<lparr>vbm_map := x, vbm_shadow := y\<rparr>) s))" for b
    unfolding settled_bm_def by blast
  from this [of "vb_batmap (vs_bat s)"] show "settled_bm i s (upd_bm i (\<lambda>v. v\<lparr>vbm_map := x, vbm_shadow := y\<rparr>) s)"
    by (simp add: upd_vbat_def upd_bm_def)
qed

lemma settled_bmD:
  assumes "settled_bm i s t"
  shows "bm_alike (the_bm t j) (the_bm s j)" "vs_req t = vs_req s" "vs_out t = vs_out s" "vs_aio t = vs_aio s" "vs_vreq_free t = vs_vreq_free s"
    "vs_flags t = vs_flags s" "vs_spb t = vs_spb s" "bat_table t = bat_table s" "vb_status (vs_bat t) = vb_status (vs_bat s)"
    "vb_pbw_blk (vs_bat t) = vb_pbw_blk (vs_bat s)" "n_blocks t = n_blocks s" "installed t j = installed s j" "has_lock t j = has_lock s j"
    "unalloc t j = unalloc s j" "in_flight t = in_flight s" "bat_started t = bat_started s" "vs_bitmap t = vs_bitmap s"
    "bat_locked t = bat_locked s" "vs_bm_secs t = vs_bm_secs s"
proof -
  obtain x y b where t: "t = upd_vbat (\<lambda>v. v\<lparr>vb_batmap := b\<rparr>) (upd_bm i (\<lambda>v. v\<lparr>vbm_map := x, vbm_shadow := y\<rparr>) s)"
    using assms by (auto simp: settled_bm_def)
  have bl: "vbm_blk (the_bm t j) = vbm_blk (the_bm s j)" by (simp add: t upd_vbat_def upd_bm_def)
  show "bm_alike (the_bm t j) (the_bm s j)" by (simp add: t upd_vbat_def upd_bm_def bm_alike_def)
  show bt: "bat_table t = bat_table s" "bat_locked t = bat_locked s" "installed t j = installed s j"
    by (simp_all add: t upd_vbat_def upd_bm_def bat_table_def bat_locked_def installed_def)
  show pb: "vb_pbw_blk (vs_bat t) = vb_pbw_blk (vs_bat s)" by (simp add: t upd_vbat_def upd_bm_def)
  show "has_lock t j = has_lock s j" "unalloc t j = unalloc s j" by (simp_all add: has_lock_def unalloc_def bl bt pb)
qed (use assms in \<open>auto simp: settled_bm_def upd_vbat_def upd_bm_def n_blocks_def in_flight_def\<close>)

lemma settled_bm_steady:
  assumes "settled_bm i s t"
  shows "steady s G t G"
proof (rule steadyI)
  note S = settled_bmD [OF assms]
  have "owed t G = owed s G" by (rule owed_data_cong) (simp add: S)
  then show "reported t + owed t G = reported s + owed s G" by (simp add: reported_def S)
  show "parked t G = parked s G" by (rule parked_cong) (simp_all add: S)
  show "rd_pending (the_bm t j)" if "rd_pending (the_bm s j)" for j using that S(1) [of j] by (simp add: bm_alike_def)
  show "same_disk s t" "vs_aio t = vs_aio s" by (simp_all add: same_disk_def S)
qed

lemma resting_settled: "settled_bm i s t \<Longrightarrow> resting t Pd j = resting s Pd j"
  using settled_bmD(1) [of i s t j] settled_bmD(12) [of i s t j] by (simp add: resting_def bm_alike_def)

lemma wp_settle:
  assumes O: "others_ok s G Pd i" and ins: "installed s i" and Q: "\<And>t. others_ok t G Pd i \<Longrightarrow> settled_bm i s t \<Longrightarrow> Q () t"
  shows "wp (settle_bitmap i) Q E s"
proof -
  have C: "core_ok s G Pd" "driver_cfg s" "cache_ok s" using O by (simp_all add: others_ok_def core_ok_def)
  have b: "unat (vbm_blk (the_bm s i)) < n_blocks s" "length (vbm_map (the_bm s i)) = 512 * unat (vs_bm_secs s)"
    "length (vbm_shadow (the_bm s i)) = 512 * unat (vs_bm_secs s)"
    using C(3) ins by (auto simp: cache_ok_def installed_cached)
  have step: "others_ok (upd_bm i (\<lambda>v. v\<lparr>vbm_map := x, vbm_shadow := y\<rparr>) s) G Pd i"
    if "length x = 512 * unat (vs_bm_secs s)" "length y = 512 * unat (vs_bm_secs s)" for x y
  proof (rule others_frame [OF O])
    let ?t = "upd_bm i (\<lambda>v. v\<lparr>vbm_map := x, vbm_shadow := y\<rparr>) s"
    show "core_ok ?t G Pd" by (subst core_cong [of _ s]) (use C b that in \<open>auto simp: upd_bm_def bat_table_def\<close>)
    show "same_frame s ?t" using b that by (simp add: same_frame_def upd_bm_def bat_table_def)
    show "same_lock s ?t" by (simp add: same_lock_def upd_bm_def bat_table_def)
  qed (simp_all add: upd_bm_def)
  let ?m = "vbm_map (the_bm s i)" and ?w = "vbm_shadow (the_bm s i)"
  show ?thesis
  proof (cases "tx_error (vbm_tx (the_bm s i)) = 0")
    case False
    have "upd_bm i (\<lambda>b. b\<lparr>vbm_shadow := vbm_map b\<rparr>) s = upd_bm i (\<lambda>v. v\<lparr>vbm_map := ?m, vbm_shadow := ?m\<rparr>) s" by (simp add: upd_bm_def)
    then show ?thesis using False Q [OF step settled_bmI(2)] b by (simp add: settle_bitmap_def wps)
  next
    case True
    let ?t = "upd_bm i (\<lambda>v. v\<lparr>vbm_map := ?w, vbm_shadow := ?w\<rparr>) s"
    have e: "upd_bm i (\<lambda>b. b\<lparr>vbm_map := vbm_shadow b\<rparr>) s = ?t" by (simp add: upd_bm_def)
    have ot: "others_ok ?t G Pd i" using step b by simp
    have cfg: "driver_cfg ?t" using ot by (simp add: others_ok_def core_ok_def)
    have bt: "unat (vbm_blk (the_bm s i)) < n_blocks ?t" using b(1) by (simp add: n_blocks_def upd_bm_def)
    have set: "wp (set_batmap (vbm_blk (the_bm s i))) Q E ?t"
      by (rule wp_set_batmap [OF cfg bt]) (use Q [OF ot settled_bmI(2)] Q [OF others_batmap [OF ot] settled_bmI(1)] in blast)+
    have "wp (test_batmap (vbm_blk (the_bm s i))) (\<lambda>full t. wp (if \<not> full \<and> bitmap_full t (the_bm t i) then set_batmap (vbm_blk (the_bm s i)) else vret ()) Q E t) E ?t"
      by (rule wp_test_batmap [OF cfg bt]) (use set Q [OF ot settled_bmI(2)] in \<open>simp add: wps\<close>)
    then show ?thesis using True e by (simp add: settle_bitmap_def wps Let_def wp_fun)
  qed
qed

text \<open>The transaction's requests are completed and it begins anew.\<close>

lemma wp_close_tx:
  assumes O: "others_ok s G Pd i" and r: "resting s Pd i" and d: "\<And>r. r \<in> set (g_tx G i) \<Longrightarrow> r \<notin> Pd"
    and Q: "\<And>t. others_ok t (emptied G (In_tx i) Free) Pd i \<Longrightarrow> resting t Pd i \<Longrightarrow> steady s G t (emptied G (In_tx i) Free) \<Longrightarrow> vs_aio t = vs_aio s \<Longrightarrow>
       same_lock s t \<Longrightarrow> has_lock t i = has_lock s i \<Longrightarrow> unalloc t i = unalloc s i \<Longrightarrow> vs_flags t = vs_flags s \<Longrightarrow> vbm_tx (the_bm t i) = tx_zero \<Longrightarrow>
       vbm_queue (the_bm t i) = vbm_queue (the_bm s i) \<Longrightarrow> vbm_status (the_bm t i) = vbm_status (the_bm s i) \<Longrightarrow> vbm_blk (the_bm t i) = vbm_blk (the_bm s i) \<Longrightarrow> Q () t"
  shows "wp (vthen (settle_bitmap i) (vthen (vget (\<lambda>s. let tx = vbm_tx (the_bm s i) in signal_completion (rl_head (tx_requests tx)) (tx_error tx)))
     (vmodify (upd_tx i (\<lambda>_. tx_zero))))) Q E s"
proof -
  have "wp (vthen (vget (\<lambda>s. let tx = vbm_tx (the_bm s i) in signal_completion (rl_head (tx_requests tx)) (tx_error tx)))
     (vmodify (upd_tx i (\<lambda>_. tx_zero)))) Q E u" if u: "others_ok u G Pd i" "settled_bm i s u" for u
  proof -
    have C: "core_ok u G Pd" using u(1) by (simp add: others_ok_def)
    have C': "reqs_ok u G Pd" "lists_ok u G" "pool_ok u G" using C by (simp_all add: core_ok_def)
    let ?xs = "g_tx G i"
    note L = listsD [OF C'(2), of "In_tx i", simplified]
    have x: "is_data r \<and> r \<notin> Pd" "vr_op (vs_req u r) = VHD_OP_DATA_WRITE" if "r \<in> set ?xs" for r
      using tx_data [OF C'(1,2) that d [OF that]] d [OF that] by (simp_all add: tx_write_def Let_def)
    note room = signal_room [OF C', of "In_tx i"]
    define e where "e = tx_error (vbm_tx (the_bm u i))"
    let ?t = "upd_tx i (\<lambda>_. tx_zero) (signalled e ?xs u)"
    let ?G = "emptied G (In_tx i) Free"
    have tb: "the_bm ?t j = (if j = i then (the_bm u i)\<lparr>vbm_tx := tx_zero\<rparr> else the_bm u j)" for j by (simp add: upd_tx_def upd_bm_def)
    have tv: "vs_req ?t = vs_req (signalled e ?xs u)" "vs_out ?t = vs_out (signalled e ?xs u)" "vs_vreq_free ?t = rev ?xs @ vs_vreq_free u" "vs_aio ?t = vs_aio u"
      "vs_flags ?t = vs_flags u" "vs_vhd ?t = vs_vhd u" "vs_spb ?t = vs_spb u" "vs_spp ?t = vs_spp u" "vs_bm_secs ?t = vs_bm_secs u" "vs_zsize ?t = vs_zsize u"
      "vs_bat ?t = vs_bat u" "vs_bitmap ?t = vs_bitmap u" "vs_bitmap_free ?t = vs_bitmap_free u" by (simp_all add: upd_tx_def upd_bm_def)
    have fr: "same_frame u ?t" by (simp add: same_frame_def tv tb bat_table_def)
    have "Bat_req \<notin> set ?xs" using x(1) [of Bat_req] by auto
    then have lk: "same_lock u ?t" by (simp add: same_lock_def tv bat_table_def)
    have tz: "tx_requests tx_zero = req_list_nil" by (simp add: tx_zero_def)
    have c: "core_ok ?t ?G Pd"
    proof (rule core_signalled [OF C _ refl x(1) fr tv(1,3)])
      show "list_at ?t q = list_at u q" if "q \<noteq> In_tx i" for q using that by (cases q) (auto simp: tb)
      show "rd_pending (the_bm ?t j) = rd_pending (the_bm u j)" for j by (simp add: tb)
    qed (simp_all add: tb tz)
    have oz: "g_own ?G Zero_req = g_own G Zero_req" "g_own ?G Bat_req = g_own G Bat_req" using x(1) [of Zero_req] x(1) [of Bat_req] by auto
    have o: "others_ok ?t ?G Pd i" by (rule others_frame [OF u(1) c fr lk _ oz]) (simp_all add: tb)
    have ac: "reported ?t + owed ?t ?G = reported u + owed u G" "parked ?t ?G = parked u G"
      by (rule signalled_account [OF C'(2) _ refl _ tv(1,2)]; use x in \<open>simp add: vhd_op_defs\<close>)+
    have "steady u G ?t ?G" by (rule steadyI(1) [OF ac same_disk_frame [OF fr] tv(4)]) (auto simp: tb)
    note S = settled_bmD [OF u(2)]
    have si: "bm_alike (the_bm u i) (the_bm s i)" by (rule S(1))
    have "Q () ?t"
    proof (rule Q [OF o])
      show "steady s G ?t ?G" by (rule steady_trans [OF settled_bm_steady [OF u(2)] \<open>steady u G ?t ?G\<close>])
      show "resting ?t Pd i" using resting_settled [OF u(2), of Pd i] r same_frameD(7) [OF fr] by (simp add: resting_def tb)
      show "same_lock s ?t" using lk S by (simp add: same_lock_def)
      show "has_lock ?t i = has_lock s i" "unalloc ?t i = unalloc s i" using same_lockD(1,2) [OF lk fr] S by simp_all
    qed (use S si in \<open>simp_all add: tv tb bm_alike_def\<close>)
    moreover have "wp (signal_completion (rl_head (tx_requests (vbm_tx (the_bm u i)))) e) (\<lambda>_ t. Q () (upd_tx i (\<lambda>_. tx_zero) t)) E u"
    proof -
      have "wp (signal_loop VHD_REQS_TOTAL (if ?xs = [] then None else Some (hd ?xs)) e) (\<lambda>_ t. Q () (upd_tx i (\<lambda>_. tx_zero) t)) E u"
        by (rule wp_signal_loop) (use L room x \<open>Q () ?t\<close> in \<open>simp_all add: rlist_def\<close>)
      then show ?thesis using L(1) by (simp add: signal_completion_def rlist_def)
    qed
    ultimately show ?thesis by (simp add: wps Let_def e_def wp_fun)
  qed
  then show ?thesis by (subst wp_vbind) (rule wp_settle [OF O]; use r in \<open>simp add: resting_def\<close>)
qed

section \<open>The next transaction\<close>

lemma length_bitmap_set:
  assumes "4 dvd length m" and "a < 8 * length m"
  shows "length (vhd_bitmap_set c m a) = length m"
proof -
  from assms(1) obtain n where n: "length m = 4 * n" by blast
  have "a div 32 < n" using assms(2) n by (simp add: div_less_iff_less_mult)
  then show ?thesis using n by (simp add: vhd_bitmap_set_def old_set_bit_def)
qed

lemma wp_shadow_set:
  assumes sec: "unat (sec_of s (td_sec (vr_treq (vs_req s r)))) + td_secs (vr_treq (vs_req s r)) \<le> 8 * length (vbm_shadow (the_bm s i))"
    and d: "4 dvd length (vbm_shadow (the_bm s i))"
    and Q: "\<And>x. length x = length (vbm_shadow (the_bm s i)) \<Longrightarrow> Q () (upd_bm i (\<lambda>b. b\<lparr>vbm_shadow := x\<rparr>) s)"
  shows "wp (shadow_set i r) Q E s"
proof -
  have l: "length (foldl (vhd_bitmap_set c) m ks) = length m" if "4 dvd length m" "\<forall>a \<in> set ks. a < 8 * length m" for c m ks
    using that by (induction ks arbitrary: m) (simp_all add: length_bitmap_set)
  have "Q () (upd_bm i (\<lambda>b. b\<lparr>vbm_shadow := foldl (vhd_bitmap_set (vctx s)) (vbm_shadow (the_bm s i)) [unat (sec_of s (td_sec (vr_treq (vs_req s r)))) ..<
      unat (sec_of s (td_sec (vr_treq (vs_req s r)))) + td_secs (vr_treq (vs_req s r))]\<rparr>) s)"
    by (rule Q, rule l [OF d]) (use sec in auto)
  then show ?thesis using sec by (simp add: shadow_set_def wps Let_def upd_bm_def)
qed

text \<open>The requests \<open>xs\<close> have been put into the transaction of bitmap \<open>i\<close>.\<close>

abbreviation finished_req :: "vhd_state \<Rightarrow> rid \<Rightarrow> bool" where
  "finished_req s r \<equiv> test_vhd_flag (vr_flags (vs_req s r)) VHD_FLAG_REQ_FINISHED"

definition restarted :: "nat \<Rightarrow> rid list \<Rightarrow> rid list \<Rightarrow> vhd_state \<Rightarrow> vhd_state \<Rightarrow> bool" where
  "restarted i ys xs s t \<longleftrightarrow> t = s\<lparr>vs_req := vs_req t, vs_bitmap_list := vs_bitmap_list t\<rparr> \<and>
     (\<forall>r \<in> set xs. \<exists>n. vs_req t r = (vs_req s r)\<lparr>vr_tx := Some i, vr_flags := clear_vhd_flag (vr_flags (vs_req s r)) VHD_FLAG_REQ_QUEUED, vr_next := n\<rparr>) \<and>
     (\<forall>r \<in> set ys. \<exists>n. vs_req t r = (vs_req s r)\<lparr>vr_next := n\<rparr>) \<and> (\<forall>r. r \<notin> set (ys @ xs) \<longrightarrow> vs_req t r = vs_req s r) \<and>
     (\<forall>j. j \<noteq> i \<longrightarrow> the_bm t j = the_bm s j) \<and>
     (\<exists>w l. length w = length (vbm_shadow (the_bm s i)) \<and> the_bm t i = (the_bm s i)\<lparr>vbm_shadow := w, vbm_tx := (vbm_tx (the_bm s i))\<lparr>
        tx_started := tx_started (vbm_tx (the_bm s i)) + length xs,
        tx_finished := tx_finished (vbm_tx (the_bm s i)) + length (filter (finished_req s) xs),
        tx_status := (if xs = [] then tx_status (vbm_tx (the_bm s i)) else set_vhd_flag (tx_status (vbm_tx (the_bm s i))) VHD_FLAG_TX_LIVE),
        tx_requests := l\<rparr>\<rparr>)"

lemma flag_set_set [simp]: "set_vhd_flag (set_vhd_flag w f) f = set_vhd_flag w f"
  by (simp add: set_vhd_flag_def or.assoc)

lemma restarted_Cons:
  assumes a: "restarted i ys [r] s t" and b: "restarted i (ys @ [r]) xs t u" and d: "distinct (ys @ r # xs)"
  shows "restarted i ys (r # xs) s u"
proof -
  note A = a [unfolded restarted_def] and B = b [unfolded restarted_def]
  have rq: "vs_req t q = vs_req s q" if "q \<notin> set ys" "q \<noteq> r" for q using A that by simp
  have ff: "filter (finished_req t) xs = filter (finished_req s) xs" 
  proof (rule filter_cong [OF refl])
    fix q assume "q \<in> set xs"
    then have "vs_req t q = vs_req s q" using d by (intro rq) auto
    then show "finished_req t q = finished_req s q" by simp
  qed
  have 0: "u = s\<lparr>vs_req := vs_req u, vs_bitmap_list := vs_bitmap_list u\<rparr>"
  proof -
    have "u = t\<lparr>vs_req := vs_req u, vs_bitmap_list := vs_bitmap_list u\<rparr>" using B by simp
    also have "\<dots> = (s\<lparr>vs_req := vs_req t, vs_bitmap_list := vs_bitmap_list t\<rparr>)\<lparr>vs_req := vs_req u, vs_bitmap_list := vs_bitmap_list u\<rparr>" using A by simp
    finally show ?thesis by simp
  qed
  have 1: "\<exists>n. vs_req u q = (vs_req s q)\<lparr>vr_tx := Some i, vr_flags := clear_vhd_flag (vr_flags (vs_req s q)) VHD_FLAG_REQ_QUEUED, vr_next := n\<rparr>"
    if q: "q \<in> set (r # xs)" for q
  proof (cases "q = r")
    case True
    obtain n where "vs_req t r = (vs_req s r)\<lparr>vr_tx := Some i, vr_flags := clear_vhd_flag (vr_flags (vs_req s r)) VHD_FLAG_REQ_QUEUED, vr_next := n\<rparr>" using A by auto
    moreover obtain m where "vs_req u r = (vs_req t r)\<lparr>vr_next := m\<rparr>" using B by auto
    ultimately show ?thesis using True by auto
  next
    case False
    then have x: "q \<in> set xs" "q \<notin> set ys" using q d by auto
    obtain n where "vs_req u q = (vs_req t q)\<lparr>vr_tx := Some i, vr_flags := clear_vhd_flag (vr_flags (vs_req t q)) VHD_FLAG_REQ_QUEUED, vr_next := n\<rparr>"
      using B x(1) by blast
    then show ?thesis using rq [OF x(2) False] by auto
  qed
  have 2: "\<exists>n. vs_req u q = (vs_req s q)\<lparr>vr_next := n\<rparr>" if q: "q \<in> set ys" for q
  proof -
    obtain n where "vs_req t q = (vs_req s q)\<lparr>vr_next := n\<rparr>" using A q by auto
    moreover obtain m where "vs_req u q = (vs_req t q)\<lparr>vr_next := m\<rparr>" using B q by auto
    ultimately show ?thesis by auto
  qed
  have 3: "vs_req u q = vs_req s q" if "q \<notin> set (ys @ r # xs)" for q using A B that by simp
  have 4: "the_bm u j = the_bm s j" if "j \<noteq> i" for j using A B that by simp
  obtain w l where w: "length w = length (vbm_shadow (the_bm s i))" "the_bm t i = (the_bm s i)\<lparr>vbm_shadow := w, vbm_tx := (vbm_tx (the_bm s i))\<lparr>
        tx_started := tx_started (vbm_tx (the_bm s i)) + length [r], tx_finished := tx_finished (vbm_tx (the_bm s i)) + length (filter (finished_req s) [r]),
        tx_status := set_vhd_flag (tx_status (vbm_tx (the_bm s i))) VHD_FLAG_TX_LIVE, tx_requests := l\<rparr>\<rparr>" using A by auto
  obtain w' l' where w': "length w' = length (vbm_shadow (the_bm t i))" "the_bm u i = (the_bm t i)\<lparr>vbm_shadow := w', vbm_tx := (vbm_tx (the_bm t i))\<lparr>
        tx_started := tx_started (vbm_tx (the_bm t i)) + length xs, tx_finished := tx_finished (vbm_tx (the_bm t i)) + length (filter (finished_req t) xs),
        tx_status := (if xs = [] then tx_status (vbm_tx (the_bm t i)) else set_vhd_flag (tx_status (vbm_tx (the_bm t i))) VHD_FLAG_TX_LIVE),
        tx_requests := l'\<rparr>\<rparr>" using B by blast
  have 5: "length w' = length (vbm_shadow (the_bm s i))" "the_bm u i = (the_bm s i)\<lparr>vbm_shadow := w', vbm_tx := (vbm_tx (the_bm s i))\<lparr>
        tx_started := tx_started (vbm_tx (the_bm s i)) + length (r # xs), tx_finished := tx_finished (vbm_tx (the_bm s i)) + length (filter (finished_req s) (r # xs)),
        tx_status := (if r # xs = [] then tx_status (vbm_tx (the_bm s i)) else set_vhd_flag (tx_status (vbm_tx (the_bm s i))) VHD_FLAG_TX_LIVE),
        tx_requests := l'\<rparr>\<rparr>"
    using w w' by (simp_all add: ff)
  show ?thesis unfolding restarted_def using 0 1 2 3 4 5 by blast
qed

lemma restarted_Nil: "restarted i ys [] s s"
proof -
  have "vs_req s r = (vs_req s r)\<lparr>vr_next := vr_next (vs_req s r)\<rparr>" for r by simp
  moreover have "the_bm s i = (the_bm s i)\<lparr>vbm_shadow := vbm_shadow (the_bm s i), vbm_tx := (vbm_tx (the_bm s i))\<lparr>
      tx_started := tx_started (vbm_tx (the_bm s i)) + length [], tx_finished := tx_finished (vbm_tx (the_bm s i)) + length (filter (finished_req s) []),
      tx_status := tx_status (vbm_tx (the_bm s i)), tx_requests := tx_requests (vbm_tx (the_bm s i))\<rparr>\<rparr>" by simp
  ultimately have "\<exists>w l. length w = length (vbm_shadow (the_bm s i)) \<and> the_bm s i = (the_bm s i)\<lparr>vbm_shadow := w, vbm_tx := (vbm_tx (the_bm s i))\<lparr>
      tx_started := tx_started (vbm_tx (the_bm s i)) + length [], tx_finished := tx_finished (vbm_tx (the_bm s i)) + length (filter (finished_req s) []),
      tx_status := tx_status (vbm_tx (the_bm s i)), tx_requests := l\<rparr>\<rparr>" and n: "\<And>r. \<exists>n. vs_req s r = (vs_req s r)\<lparr>vr_next := n\<rparr>" by blast+
  then show ?thesis unfolding restarted_def by simp
qed

lemma restartedD:
  assumes "restarted i ys xs s t"
  shows "vs_flags t = vs_flags s" "vs_vhd t = vs_vhd s" "vs_spb t = vs_spb s" "vs_spp t = vs_spp s" "vs_bm_secs t = vs_bm_secs s" "vs_zsize t = vs_zsize s"
    "vs_bat t = vs_bat s" "vs_bitmap t = vs_bitmap s" "vs_bitmap_free t = vs_bitmap_free s" "vs_vreq_free t = vs_vreq_free s" "vs_aio t = vs_aio s" "vs_out t = vs_out s"
    "vr_treq (vs_req t r) = vr_treq (vs_req s r)" "vr_op (vs_req t r) = vr_op (vs_req s r)" "same_frame s t" "vbm_map (the_bm t j) = vbm_map (the_bm s j)"
    "vbm_status (the_bm t j) = vbm_status (the_bm s j)" "vbm_queue (the_bm t j) = vbm_queue (the_bm s j)" "vbm_waiting (the_bm t j) = vbm_waiting (the_bm s j)"
    "tx_closed (vbm_tx (the_bm t i)) = tx_closed (vbm_tx (the_bm s i))" "tx_error (vbm_tx (the_bm t i)) = tx_error (vbm_tx (the_bm s i))"
    "n_blocks t = n_blocks s" "length (vbm_shadow (the_bm t j)) = length (vbm_shadow (the_bm s j))"
proof -
  note A = assms [unfolded restarted_def]
  have t: "t = s\<lparr>vs_req := vs_req t, vs_bitmap_list := vs_bitmap_list t\<rparr>" using A by simp
  show v: "vs_flags t = vs_flags s" "vs_vhd t = vs_vhd s" "vs_spb t = vs_spb s" "vs_spp t = vs_spp s" "vs_bm_secs t = vs_bm_secs s" "vs_zsize t = vs_zsize s"
    "vs_bat t = vs_bat s" "vs_bitmap t = vs_bitmap s" "vs_bitmap_free t = vs_bitmap_free s" "vs_vreq_free t = vs_vreq_free s" "vs_aio t = vs_aio s" "vs_out t = vs_out s"
    by (subst t, simp)+
  have q: "vr_treq (vs_req t r) = vr_treq (vs_req s r) \<and> vr_op (vs_req t r) = vr_op (vs_req s r)" for r
  proof (cases "r \<in> set xs")
    case True
    then obtain n where "vs_req t r = (vs_req s r)\<lparr>vr_tx := Some i, vr_flags := clear_vhd_flag (vr_flags (vs_req s r)) VHD_FLAG_REQ_QUEUED, vr_next := n\<rparr>" using A by blast
    then show ?thesis by simp
  next
    case False
    then have "vs_req t r = vs_req s r \<or> (\<exists>n. vs_req t r = (vs_req s r)\<lparr>vr_next := n\<rparr>)" using A by auto
    then show ?thesis by auto
  qed
  show "vr_treq (vs_req t r) = vr_treq (vs_req s r)" "vr_op (vs_req t r) = vr_op (vs_req s r)" using q by simp_all
  obtain w l where w: "length w = length (vbm_shadow (the_bm s i))" "the_bm t i = (the_bm s i)\<lparr>vbm_shadow := w, vbm_tx := (vbm_tx (the_bm s i))\<lparr>
        tx_started := tx_started (vbm_tx (the_bm s i)) + length xs, tx_finished := tx_finished (vbm_tx (the_bm s i)) + length (filter (finished_req s) xs),
        tx_status := (if xs = [] then tx_status (vbm_tx (the_bm s i)) else set_vhd_flag (tx_status (vbm_tx (the_bm s i))) VHD_FLAG_TX_LIVE),
        tx_requests := l\<rparr>\<rparr>" using A by blast
  have o: "the_bm t j = the_bm s j" if "j \<noteq> i" for j using A that by blast
  have b: "vbm_map (the_bm t j) = vbm_map (the_bm s j) \<and> vbm_status (the_bm t j) = vbm_status (the_bm s j) \<and> vbm_queue (the_bm t j) = vbm_queue (the_bm s j) \<and>
    vbm_waiting (the_bm t j) = vbm_waiting (the_bm s j) \<and> length (vbm_shadow (the_bm t j)) = length (vbm_shadow (the_bm s j)) \<and> vbm_blk (the_bm t j) = vbm_blk (the_bm s j)" for j
    using w o [of j] by (cases "j = i") simp_all
  then show "vbm_map (the_bm t j) = vbm_map (the_bm s j)" "vbm_status (the_bm t j) = vbm_status (the_bm s j)" "vbm_queue (the_bm t j) = vbm_queue (the_bm s j)"
    "vbm_waiting (the_bm t j) = vbm_waiting (the_bm s j)" "length (vbm_shadow (the_bm t j)) = length (vbm_shadow (the_bm s j))" by simp_all
  show "tx_closed (vbm_tx (the_bm t i)) = tx_closed (vbm_tx (the_bm s i))" "tx_error (vbm_tx (the_bm t i)) = tx_error (vbm_tx (the_bm s i))" using w by simp_all
  show "n_blocks t = n_blocks s" by (simp add: n_blocks_def v)
  show "same_frame s t" using b by (simp add: same_frame_def v bat_table_def)
qed

lemma same_bm: "the_bm w i = b \<Longrightarrow> w\<lparr>vs_bitmap_list := (the_bm w)(i := b)\<rparr> = w"
  by (simp add: fun_upd_idem)

definition only :: "vhd_state \<Rightarrow> vhd_state \<Rightarrow> bool" where
  "only s t \<longleftrightarrow> t = s\<lparr>vs_req := vs_req t, vs_bitmap_list := vs_bitmap_list t\<rparr>"

lemma only_refl: "only s s"
  by (simp add: only_def)

lemma onlyE: "only s t \<Longrightarrow> (\<And>q bl. t = s\<lparr>vs_req := q, vs_bitmap_list := bl\<rparr> \<Longrightarrow> P) \<Longrightarrow> P"
  unfolding only_def by blast

lemma only_upd: "only s t \<Longrightarrow> only s (upd_req r f t)" "only s t \<Longrightarrow> only s (upd_tx i g t)"
  by (erule onlyE, simp add: only_def upds)+

lemma only_in_tx: "only s t \<Longrightarrow> only s (in_tx i r xs l t)"
  unfolding in_tx_def Let_def by (cases "xs = []") (simp_all add: only_upd)

lemma wp_start_loop:
  assumes ch: "chained (nexts s) xs" and rl: "rlist (nexts s) (tx_requests (vbm_tx (the_bm s i))) ys" and d: "distinct (ys @ xs)" and k: "length xs \<le> k"
    and op: "\<not> tx_closed (vbm_tx (the_bm s i))" and d4: "4 dvd length (vbm_shadow (the_bm s i))"
    and f: "\<And>r. r \<in> set xs \<Longrightarrow> unat (sec_of s (td_sec (vr_treq (vs_req s r)))) + td_secs (vr_treq (vs_req s r)) \<le> 8 * length (vbm_shadow (the_bm s i))"
    and Q: "\<And>t. restarted i ys xs s t \<Longrightarrow> rlist (nexts t) (tx_requests (vbm_tx (the_bm t i))) (ys @ xs) \<Longrightarrow> Q () t"
  shows "wp (start_loop k i (if xs = [] then None else Some (hd xs))) Q E s"
  using assms
proof (induction k arbitrary: xs ys s)
  case 0
  then show ?case using restarted_Nil by (simp add: wps)
next
  case (Suc k)
  show ?case
  proof (cases xs)
    case Nil
    then show ?thesis using Suc.prems restarted_Nil by (simp add: wps)
  next
    case (Cons r zs)
    have nx: "vr_next (vs_req s r) = (if zs = [] then None else Some (hd zs))" and cz: "chained (nexts s) zs"
      using Suc.prems(1) Cons by (simp_all add: chained_Cons)
    have r: "r \<notin> set ys" "r \<notin> set zs" "distinct (ys @ [r] @ zs)" using Suc.prems(3) Cons by auto
    let ?s1 = "upd_req r (\<lambda>q. q\<lparr>vr_next := None, vr_flags := clear_vhd_flag (vr_flags q) VHD_FLAG_REQ_QUEUED\<rparr>) s"
    have b1: "the_bm ?s1 = the_bm s" by (simp add: upd_req_def)
    have rl1: "rlist (nexts ?s1) (tx_requests (vbm_tx (the_bm ?s1 i))) ys"
    proof -
      have "nexts ?s1 x = nexts s x" if "x \<in> set ys" for x using that r(1) by (auto simp: upd_req_def)
      then show ?thesis using Suc.prems(2) rlist_cong [of ys "nexts ?s1" "nexts s"] b1 by simp
    qed
    have fin: "finished_req (in_tx i r ys l ?s1) r = finished_req s r" for l using in_tx_req [OF r(1), of i l ?s1 r] by (simp add: upd_req_def)
    have rest: "wp (start_loop k i (if zs = [] then None else Some (hd zs))) Q E t"
      if t: "restarted i ys [r] s t" "rlist (nexts t) (tx_requests (vbm_tx (the_bm t i))) (ys @ [r])" for t
    proof (rule Suc.IH)
      note T = restartedD [OF t(1)]
      have "nexts t q = nexts s q" if "q \<in> set zs" for q
      proof -
        have "q \<notin> set (ys @ [r])" using r that by auto
        then show ?thesis using t(1) by (simp add: restarted_def)
      qed
      then show "chained (nexts t) zs" using rchained_cong [of zs "nexts t" "nexts s"] cz by blast
      show "rlist (nexts t) (tx_requests (vbm_tx (the_bm t i))) (ys @ [r])" by (rule t(2))
      show "distinct ((ys @ [r]) @ zs)" using r(3) by simp
      show "length zs \<le> k" using Suc.prems(4) Cons by simp
      show "\<not> tx_closed (vbm_tx (the_bm t i))" "4 dvd length (vbm_shadow (the_bm t i))" using T Suc.prems by simp_all
      show "unat (sec_of t (td_sec (vr_treq (vs_req t q)))) + td_secs (vr_treq (vs_req t q)) \<le> 8 * length (vbm_shadow (the_bm t i))" if "q \<in> set zs" for q
        using Suc.prems(7) [of q] that Cons T by (simp add: sec_of_def)
      show "Q () u" if u: "restarted i (ys @ [r]) zs t u" "rlist (nexts u) (tx_requests (vbm_tx (the_bm u i))) ((ys @ [r]) @ zs)" for u
        using Suc.prems(8) restarted_Cons [OF t(1) u(1)] u(2) r(3) Cons by simp
    qed
    have one: "restarted i ys [r] s t \<and> rlist (nexts t) (tx_requests (vbm_tx (the_bm t i))) (ys @ [r])"
      if rl2: "rlist (nexts (in_tx i r ys l ?s1)) l (ys @ [r])" and w: "length w = length (vbm_shadow (the_bm s i))"
        and t: "t = (in_tx i r ys l ?s1)\<lparr>vs_bitmap_list := (the_bm (in_tx i r ys l ?s1))(i := (the_bm s i)\<lparr>vbm_shadow := w, vbm_tx := (vbm_tx (the_bm s i))\<lparr>
           tx_started := tx_started (vbm_tx (the_bm s i)) + 1, tx_finished := tx_finished (vbm_tx (the_bm s i)) + (if finished_req s r then 1 else 0),
           tx_status := set_vhd_flag (tx_status (vbm_tx (the_bm s i))) VHD_FLAG_TX_LIVE, tx_requests := l\<rparr>\<rparr>)\<rparr>" for l w t
    proof
      have eq: "in_tx i r ys l ?s1 = s\<lparr>vs_req := vs_req (in_tx i r ys l ?s1), vs_bitmap_list := the_bm (in_tx i r ys l ?s1)\<rparr>"
        using only_in_tx [OF only_upd(1) [OF only_refl]] unfolding only_def .
      have rq: "vs_req t q = (if q = r then (vs_req s r)\<lparr>vr_tx := Some i, vr_flags := clear_vhd_flag (vr_flags (vs_req s r)) VHD_FLAG_REQ_QUEUED, vr_next := None\<rparr>
          else if ys \<noteq> [] \<and> q = last ys then (vs_req s q)\<lparr>vr_next := Some r\<rparr> else vs_req s q)" for q
        using in_tx_req [OF r(1), of i l ?s1 q] unfolding t by (simp add: upd_req_def)
      have bq: "the_bm t j = the_bm s j" if "j \<noteq> i" for j using that in_tx_bm [of i r ys l ?s1 j] unfolding t by (simp add: upd_req_def)
      show "rlist (nexts t) (tx_requests (vbm_tx (the_bm t i))) (ys @ [r])" using rl2 unfolding t by simp
      have 0: "t = s\<lparr>vs_req := vs_req t, vs_bitmap_list := vs_bitmap_list t\<rparr>" unfolding t by (subst eq) simp
      have "\<exists>n. vs_req s q = (vs_req s q)\<lparr>vr_next := n\<rparr>" for q by (intro exI [of _ "vr_next (vs_req s q)"]) simp
      then have 2: "\<exists>n. vs_req t q = (vs_req s q)\<lparr>vr_next := n\<rparr>" if "q \<in> set ys" for q using that r(1) by (auto simp: rq)
      have 3: "vs_req t q = vs_req s q" if "q \<notin> set (ys @ [r])" for q using that last_in_set [of ys] by (auto simp: rq)
      have 1: "\<exists>n. vs_req t q = (vs_req s q)\<lparr>vr_tx := Some i, vr_flags := clear_vhd_flag (vr_flags (vs_req s q)) VHD_FLAG_REQ_QUEUED, vr_next := n\<rparr>" if "q \<in> set [r]" for q
        using that by (simp add: rq) blast
      have 5: "the_bm t i = (the_bm s i)\<lparr>vbm_shadow := w, vbm_tx := (vbm_tx (the_bm s i))\<lparr>tx_started := tx_started (vbm_tx (the_bm s i)) + length [r],
          tx_finished := tx_finished (vbm_tx (the_bm s i)) + length (filter (finished_req s) [r]),
          tx_status := (if [r] = [] then tx_status (vbm_tx (the_bm s i)) else set_vhd_flag (tx_status (vbm_tx (the_bm s i))) VHD_FLAG_TX_LIVE), tx_requests := l\<rparr>\<rparr>"
        unfolding t by simp
      show "restarted i ys [r] s t" unfolding restarted_def using 0 1 2 3 5 bq w by blast
    qed
    have go: "wp (vthen (vget (\<lambda>s. if finished_req s r then vthen (vmodify (upd_tx i (\<lambda>t. t\<lparr>tx_finished := tx_finished t + 1\<rparr>)))
          (if vr_error (vs_req s r) = 0 then shadow_set i r else vret ()) else vret ())) (start_loop k i (if zs = [] then None else Some (hd zs)))) Q E (in_tx i r ys l ?s1)"
      if rl2: "rlist (nexts (in_tx i r ys l ?s1)) l (ys @ [r])" for l
    proof -
      let ?u = "in_tx i r ys l ?s1"
      have ub: "the_bm ?u i = (the_bm s i)\<lparr>vbm_tx := (vbm_tx (the_bm s i))\<lparr>tx_started := tx_started (vbm_tx (the_bm s i)) + 1, tx_requests := l,
           tx_status := set_vhd_flag (tx_status (vbm_tx (the_bm s i))) VHD_FLAG_TX_LIVE\<rparr>\<rparr>" using in_tx_bm [of i r ys l ?s1 i] by (simp add: upd_req_def)
      note R = rest [OF conjunct1 [OF one [OF rl2]] conjunct2 [OF one [OF rl2]]]
      show ?thesis
      proof (cases "finished_req s r")
        case False
        have "?u = ?u\<lparr>vs_bitmap_list := (the_bm ?u)(i := (the_bm s i)\<lparr>vbm_shadow := vbm_shadow (the_bm s i), vbm_tx := (vbm_tx (the_bm s i))\<lparr>
           tx_started := tx_started (vbm_tx (the_bm s i)) + 1, tx_finished := tx_finished (vbm_tx (the_bm s i)) + (if finished_req s r then 1 else 0),
           tx_status := set_vhd_flag (tx_status (vbm_tx (the_bm s i))) VHD_FLAG_TX_LIVE, tx_requests := l\<rparr>\<rparr>)\<rparr>"
          by (rule same_bm [symmetric]) (use False ub in simp)
        from R [OF refl this refl this] show ?thesis using False fin by (simp add: wps)
      next
        case True
        let ?v = "upd_tx i (\<lambda>t. t\<lparr>tx_finished := tx_finished t + 1\<rparr>) ?u"
        have vv: "upd_bm i (\<lambda>b. b\<lparr>vbm_shadow := w\<rparr>) ?v = ?u\<lparr>vs_bitmap_list := (the_bm ?u)(i := (the_bm s i)\<lparr>vbm_shadow := w, vbm_tx := (vbm_tx (the_bm s i))\<lparr>
           tx_started := tx_started (vbm_tx (the_bm s i)) + 1, tx_finished := tx_finished (vbm_tx (the_bm s i)) + (if finished_req s r then 1 else 0),
           tx_status := set_vhd_flag (tx_status (vbm_tx (the_bm s i))) VHD_FLAG_TX_LIVE, tx_requests := l\<rparr>\<rparr>)\<rparr>" for w
          using True unfolding upd_tx_def upd_bm_def
          by (simp add: ub) (intro arg_cong [where f = "\<lambda>b. ?u\<lparr>vs_bitmap_list := (the_bm ?u)(i := b)\<rparr>"] vhd_bitmap.equality vhd_transaction.equality; simp)
        have sh: "wp (start_loop k i (if zs = [] then None else Some (hd zs))) Q E (upd_bm i (\<lambda>b. b\<lparr>vbm_shadow := w\<rparr>) ?v)" if "length w = length (vbm_shadow (the_bm s i))" for w
          using R [OF that vv that vv] .
        have "upd_bm i (\<lambda>b. b\<lparr>vbm_shadow := vbm_shadow (the_bm s i)\<rparr>) ?v = ?v" by (simp add: upd_tx_def upd_bm_def ub)
        then have "wp (start_loop k i (if zs = [] then None else Some (hd zs))) Q E ?v" using sh [OF refl] by simp
        moreover have "wp (shadow_set i r) (\<lambda>_. wp (start_loop k i (if zs = [] then None else Some (hd zs))) Q E) E ?v"
        proof (rule wp_shadow_set)
          have sv: "vbm_shadow (the_bm ?v i) = vbm_shadow (the_bm s i)" "sec_of ?v = sec_of s" by (simp_all add: upd_tx_def upd_bm_def ub sec_of_def fun_eq_iff) (simp add: upd_req_def)
          have rv: "vr_treq (vs_req ?v r) = vr_treq (vs_req s r)" using in_tx_req [OF r(1), of i l ?s1 r] by (simp add: upd_tx_def upd_bm_def) (simp add: upd_req_def)
          show "unat (sec_of ?v (td_sec (vr_treq (vs_req ?v r)))) + td_secs (vr_treq (vs_req ?v r)) \<le> 8 * length (vbm_shadow (the_bm ?v i))"
            unfolding sv rv using Suc.prems(7) [of r] Cons by simp
          show "4 dvd length (vbm_shadow (the_bm ?v i))" unfolding sv using Suc.prems(6) .
          show "wp (start_loop k i (if zs = [] then None else Some (hd zs))) Q E (upd_bm i (\<lambda>b. b\<lparr>vbm_shadow := x\<rparr>) ?v)"
            if "length x = length (vbm_shadow (the_bm ?v i))" for x using sh that unfolding sv .
        qed
        ultimately show ?thesis using True fin by (simp add: wps wp_fun)
      qed
    qed
    have "wp (add_to_transaction i r) (\<lambda>_. wp (vthen (vget (\<lambda>s. if finished_req s r then vthen (vmodify (upd_tx i (\<lambda>t. t\<lparr>tx_finished := tx_finished t + 1\<rparr>)))
          (if vr_error (vs_req s r) = 0 then shadow_set i r else vret ()) else vret ())) (start_loop k i (if zs = [] then None else Some (hd zs)))) Q E) E ?s1"
      by (rule wp_add_to_transaction [OF rl1 _ r(1)]) (use go Suc.prems(5) r(3) b1 in \<open>simp_all add: upd_req_def\<close>)
    moreover have "(if xs = [] then None else Some (hd xs)) = Some r" using Cons by simp
    ultimately show ?thesis by (simp only: start_loop.simps option.case wp_fun Let_def nx)
  qed
qed

end
