(* ===== verification/Block_Vhd_Close.thy ===== *)
theory Block_Vhd_Close
  imports Block_Vhd_Finish
begin

text \<open>
  The end of a transaction under the invariant: the lock of the table is released or kept, and the next
  transaction begins.
\<close>

section \<open>The lock is given up\<close>

definition relock :: "vhd_bitmap \<Rightarrow> vhd_bitmap" where
  "relock b = b\<lparr>vbm_status := (if bitmap_in_use b then set_vhd_flag (vbm_status b) VHD_FLAG_BM_LOCKED else clear_vhd_flag (vbm_status b) VHD_FLAG_BM_LOCKED)\<rparr>"

lemma relock_simps [simp]:
  "vbm_tx (relock b) = vbm_tx b" "vbm_queue (relock b) = vbm_queue b" "vbm_waiting (relock b) = vbm_waiting b"
  "rd_pending (relock b) = rd_pending b" "wr_pending (relock b) = wr_pending b" "bitmap_in_use (relock b) = bitmap_in_use b"
  "bitmap_locked (relock b) = bitmap_in_use b"
  by (simp_all add: relock_def bitmap_in_use_def bitmap_locked_def)

lemma bm_ok_relock:
  assumes "bm_ok pr lk e tb un ins bp n (relock b)" and "bitmap_in_use b \<longrightarrow> bitmap_locked b"
  shows "bm_ok pr lk e tb un ins bp n b"
  by (rule bm_okI) (use bm_okD [OF assms(1)] assms(2) in simp_all)

lemma bm_ok_free: "bm_ok pr False e tb un ins bp n b \<Longrightarrow> bm_ok pr False e' tb' un ins bp n b"
  using bm_ok_nolock by blast

text \<open>Bitmap \<open>i\<close> at the end of its transaction: as if it did not have the lock of the table.\<close>

definition semi :: "vhd_state \<Rightarrow> ghost \<Rightarrow> rid set \<Rightarrow> nat \<Rightarrow> bool" where
  "semi s G Pd i \<longleftrightarrow> others_ok s G Pd i \<and> installed s i \<and> \<not> rd_pending (the_bm s i) \<and> (bitmap_in_use (the_bm s i) \<longrightarrow> bitmap_locked (the_bm s i)) \<and>
     bm_ok (prealloc s) False 0 False (unalloc s i) True (Bm_req i \<in> Pd) (n_pending G Pd i) (relock (the_bm s i)) \<and>
     (has_lock s i \<longrightarrow> bat_err s \<noteq> 0 \<longrightarrow> tx_live (the_bm s i) \<longrightarrow> \<not> tx_closed (vbm_tx (the_bm s i)) \<and> tx_error (vbm_tx (the_bm s i)) \<noteq> 0)"

lemma semi_inv:
  assumes I: "inv s G Pd" and n: "\<not> has_lock s i" and b: "installed s i" "\<not> rd_pending (the_bm s i)"
  shows "semi s G Pd i"
proof -
  have B: "bm_ok (prealloc s) False 0 False (unalloc s i) True (Bm_req i \<in> Pd) (n_pending G Pd i) (the_bm s i)"
    by (rule bm_ok_free [of _ "bat_err s" "bat_tx s = Some i"]) (use invD(2) [OF I, of i] n b in \<open>simp add: bitmap_ok_def\<close>)
  have lk: "bitmap_in_use (the_bm s i) \<longrightarrow> bitmap_locked (the_bm s i)" using bm_okD(13) [OF B] by simp
  have "bm_ok (prealloc s) False 0 False (unalloc s i) True (Bm_req i \<in> Pd) (n_pending G Pd i) (relock (the_bm s i))"
    by (rule bm_okI) (use bm_okD [OF B] in simp_all)
  then show ?thesis using I n b lk by (simp add: semi_def others_ok_def inv_def lock_over_def)
qed

lemma inv_unlocked:
  assumes O: "others_ok s G Pd i" and n: "\<not> has_lock s i" and b: "bm_ok (prealloc s) False 0 False (unalloc s i) (installed s i) (Bm_req i \<in> Pd) (n_pending G Pd i) (the_bm s i)"
  shows "inv s G Pd"
proof -
  have "bitmap_ok s G Pd j" for j
    using O n bm_ok_free [OF b, of "bat_err s" "bat_tx s = Some i"] by (cases "j = i") (simp_all add: others_ok_def bitmap_ok_def)
  then show ?thesis using O n by (simp add: inv_def others_ok_def lock_over_def)
qed

text \<open>The lock passes to nobody.\<close>

lemma inv_released:
  assumes O: "others_ok s G Pd i" and lk: "has_lock s i"
    and b: "bm_ok (prealloc s) False 0 False (unalloc s i) (installed s i) (Bm_req i \<in> Pd) (n_pending G Pd i) (the_bm s i)"
  defines "t \<equiv> init_bat (unlock_bat s)"
  shows "inv t G Pd" "steady s G t G" "in_flight t = in_flight s" "\<not> has_lock t i"
proof -
  note O' = O [unfolded others_ok_def]
  have core: "cache_ok s" "lists_ok s G" "pool_ok s G" "reqs_ok s G Pd" using O' by (simp_all add: core_ok_def)
  have z: "Zero_req \<notin> Pd" "Bat_req \<notin> Pd" using O' lk by (simp_all add: lock_over_def)
  have own: "g_own G Bat_req = Idle" using core(4) z by (simp add: reqs_ok_def batreq_ok_def Let_def)
  have tv: "vs_flags t = vs_flags s" "vs_vhd t = vs_vhd s" "vs_spb t = vs_spb s" "vs_spp t = vs_spp s" "vs_bm_secs t = vs_bm_secs s" "vs_zsize t = vs_zsize s"
    "vs_bitmap t = vs_bitmap s" "vs_bitmap_free t = vs_bitmap_free s" "vs_vreq_free t = vs_vreq_free s" "vs_aio t = vs_aio s" "vs_out t = vs_out s"
    "vs_bitmap_list t = vs_bitmap_list s" "vb_bat (vs_bat t) = vb_bat (vs_bat s)" "vb_batmap (vs_bat t) = vb_batmap (vs_bat s)" "vb_status (vs_bat t) = 0"
    "vs_req t = (vs_req s)(Bat_req := (vs_req s Bat_req)\<lparr>vr_tx := None, vr_next := None, vr_error := 0\<rparr>)"
    by (simp_all add: t_def init_bat_def unlock_bat_def upds)
  have bt: "bat_table t = bat_table s" by (simp add: bat_table_def tv)
  have fr: "same_frame s t" by (simp add: same_frame_def tv bt)
  note F = same_frameD [OF fr]
  have nl: "\<not> bat_locked t" "\<And>j. \<not> has_lock t j" by (simp_all add: bat_locked_def has_lock_def tv)
  have nx: "nexts t r = nexts s r" if "r \<noteq> Bat_req" for r using that by (simp add: tv)
  have C: "core_ok t G Pd"
  proof (rule core_move [of s G Pd t Bat_req G "g_own G Bat_req"])
    show "core_ok s G Pd" using O' by simp
    have lst: "list_at t p = list_at s p" for p by (cases p) (simp_all add: tv)
    have "rlist (nexts t) (list_at t p) (g_list G p) = rlist (nexts s) (list_at s p) (g_list G p)" if "listed p" for p
    proof -
      have "Bat_req \<notin> set (g_list G p)" using listsD(3) [OF core(2) that] own that by auto
      then have "nexts t r = nexts s r" if "r \<in> set (g_list G p)" for r using nx [of r] that by auto
      then show ?thesis unfolding lst by (rule rlist_cong)
    qed
    then show "lists_ok t G" using core(2) by (simp add: lists_ok_def)
    show "pool_ok t G" using core(3) by (simp add: pool_ok_def tv)
    show "is_data Bat_req \<and> dreq_ok t G Pd Bat_req \<or> Bat_req = Zero_req \<and> zero_ok t G Pd \<or> Bat_req = Bat_req \<and> batreq_ok t G Pd"
      using own z by (simp add: batreq_ok_def Let_def)
  qed (simp_all add: fr req_frame_def tv)
  have "bitmap_ok t G Pd j" for j
  proof (cases "j = i")
    case True
    then show ?thesis using bm_ok_free [OF b] nl unalloc_frame [OF fr bt, of i] by (simp add: bitmap_ok_def F tv)
  next
    case False
    then have "\<not> has_lock s j" using has_lock_unique [OF core(1) lk] by blast
    then show ?thesis
      by - (rule bitmap_ok_frame [of s G Pd j], use O' False nl unalloc_frame [OF fr bt] in \<open>simp_all add: F tv\<close>)
  qed
  moreover have "bat_ok t G Pd" using nl z by (simp add: bat_ok_def bat_idle_def tv)
  ultimately show "inv t G Pd" using C by (simp add: inv_def)
  have "owed t G = owed s G" by (rule owed_data_cong) (auto simp: tv is_data_def)
  moreover have "parked t G = parked s G" by (rule parked_cong) (use own in \<open>auto simp: tv\<close>)
  ultimately show "steady s G t G" by (intro steadyI(1) same_disk_frame [OF fr]) (simp_all add: reported_def tv)
  show "in_flight t = in_flight s" by (simp add: in_flight_def tv)
  show "\<not> has_lock t i" by (rule nl)
qed

text \<open>After a failed write of the table the lock is kept, and the transaction closed.\<close>

lemma inv_kept:
  assumes O: "others_ok s G Pd i" and lk: "has_lock s i" "bat_err s \<noteq> 0" and live: "tx_live (the_bm s i)" "tx_error (vbm_tx (the_bm s i)) \<noteq> 0" "\<not> tx_bat (the_bm s i)"
    and rd: "\<not> rd_pending (the_bm s i)"
    and b: "bm_ok (prealloc s) True (bat_err s) (bat_tx s = Some i) True True (Bm_req i \<in> Pd) (n_pending G Pd i)
      ((the_bm s i)\<lparr>vbm_tx := (vbm_tx (the_bm s i))\<lparr>tx_closed := True\<rparr>\<rparr>)"
  defines "t \<equiv> upd_tx i (\<lambda>t. t\<lparr>tx_closed := True\<rparr>) s"
  shows "inv t G Pd" "steady s G t G" "in_flight t = in_flight s" "has_lock t i" "bat_err t \<noteq> 0"
proof -
  note O' = O [unfolded others_ok_def]
  have core: "core_ok s G Pd" "cache_ok s" using O' by (simp_all add: core_ok_def)
  have lo: "Zero_req \<notin> Pd" "Bat_req \<notin> Pd" "bat_started s" "unalloc s i" using O' lk by (simp_all add: lock_over_def)
  have tb: "the_bm t j = (if j = i then (the_bm s i)\<lparr>vbm_tx := (vbm_tx (the_bm s i))\<lparr>tx_closed := True\<rparr>\<rparr> else the_bm s j)" for j
    by (simp add: t_def upd_tx_def upd_bm_def)
  have tv: "vs_flags t = vs_flags s" "vs_vhd t = vs_vhd s" "vs_spb t = vs_spb s" "vs_spp t = vs_spp s" "vs_bm_secs t = vs_bm_secs s" "vs_zsize t = vs_zsize s"
    "vs_bat t = vs_bat s" "vs_bitmap t = vs_bitmap s" "vs_bitmap_free t = vs_bitmap_free s" "vs_vreq_free t = vs_vreq_free s" "vs_aio t = vs_aio s" "vs_out t = vs_out s"
    "vs_req t = vs_req s" by (simp_all add: t_def upd_tx_def upd_bm_def)
  have bt: "bat_table t = bat_table s" by (simp add: bat_table_def tv)
  have fr: "same_frame s t" by (simp add: same_frame_def tv tb bt)
  note F = same_frameD [OF fr]
  have hl: "has_lock t j = has_lock s j" "unalloc t j = unalloc s j" for j using has_lock_frame [OF fr] unalloc_frame [OF fr bt] by (simp_all add: tv)
  have C: "core_ok t G Pd" by (subst core_cong [of t s]) (use core in \<open>simp_all add: tv tb bt\<close>)
  have "bitmap_ok t G Pd j" for j
  proof (cases "j = i")
    case True
    then show ?thesis using b lk lo by (simp add: bitmap_ok_def hl F tv tb) (simp add: unalloc_def)
  next
    case False
    then have "\<not> has_lock s j" using has_lock_unique [OF core(2) lk(1)] by blast
    then show ?thesis by - (rule bitmap_ok_frame [of s G Pd j], use O' False in \<open>simp_all add: F tv tb hl\<close>)
  qed
  moreover have "bat_ok t G Pd"
  proof -
    have "alloc_phase t G Pd i" using lo lk live by (simp add: alloc_phase_def Let_def tv tb F)
    moreover have "bat_locked t" using lk(1) by (simp add: has_lock_def bat_locked_def tv)
    ultimately show ?thesis using lk lo live rd hl by (auto simp: bat_ok_def tb intro!: exI [of _ i])
  qed
  ultimately show "inv t G Pd" using C by (simp add: inv_def)
  have "owed t G = owed s G" by (rule owed_data_cong) (simp add: tv)
  moreover have "parked t G = parked s G" by (rule parked_cong) (simp_all add: tv)
  moreover have "rd_pending (the_bm t j) = rd_pending (the_bm s j)" for j by (simp add: tb)
  ultimately show "steady s G t G" by (intro steadyI(1) same_disk_frame [OF fr]) (simp_all add: reported_def tv)
  show "in_flight t = in_flight s" by (simp add: in_flight_def tv)
  show "has_lock t i" "bat_err t \<noteq> 0" using lk hl tv by simp_all
qed

lemma wp_finish_bat_transaction:
  assumes O: "others_ok s G Pd i" and ins: "installed s i" and rd: "\<not> rd_pending (the_bm s i)"
    and b: "\<not> (has_lock s i \<and> bat_err s \<noteq> 0 \<and> tx_live (the_bm s i)) \<Longrightarrow>
      bm_ok (prealloc s) False 0 False (unalloc s i) True (Bm_req i \<in> Pd) (n_pending G Pd i) (the_bm s i)"
    and c: "has_lock s i \<Longrightarrow> bat_err s \<noteq> 0 \<Longrightarrow> tx_live (the_bm s i) \<Longrightarrow> tx_error (vbm_tx (the_bm s i)) \<noteq> 0 \<and> \<not> tx_bat (the_bm s i) \<and>
      bm_ok (prealloc s) True (bat_err s) (bat_tx s = Some i) True True (Bm_req i \<in> Pd) (n_pending G Pd i)
      ((the_bm s i)\<lparr>vbm_tx := (vbm_tx (the_bm s i))\<lparr>tx_closed := True\<rparr>\<rparr>)"
    and Q: "\<And>t. inv t G Pd \<Longrightarrow> steady s G t G \<Longrightarrow> in_flight t = in_flight s \<Longrightarrow> installed t i \<and> \<not> rd_pending (the_bm t i) \<Longrightarrow>
      (has_lock t i \<Longrightarrow> bat_err t \<noteq> 0 \<and> tx_live (the_bm s i)) \<Longrightarrow> Q () t"
  shows "wp (finish_bat_transaction i) Q E s"
proof (cases "has_lock s i")
  case False
  have "bm_ok (prealloc s) False 0 False (unalloc s i) (installed s i) (Bm_req i \<in> Pd) (n_pending G Pd i) (the_bm s i)" using b False ins by simp
  then have "Q () s" using inv_unlocked [OF O False] Q [of s] False ins rd by simp
  then show ?thesis using False ins by (auto simp: finish_bat_transaction_def wps has_lock_def)
next
  case lk: True
  then have l: "bat_locked s" "vb_pbw_blk (vs_bat s) = vbm_blk (the_bm s i)" by (simp_all add: has_lock_def)
  show ?thesis
  proof (cases "bat_err s \<noteq> 0 \<and> tx_live (the_bm s i)")
    case True
    then have C: "tx_error (vbm_tx (the_bm s i)) \<noteq> 0" "\<not> tx_bat (the_bm s i)" "bm_ok (prealloc s) True (bat_err s) (bat_tx s = Some i) True True (Bm_req i \<in> Pd) (n_pending G Pd i)
      ((the_bm s i)\<lparr>vbm_tx := (vbm_tx (the_bm s i))\<lparr>tx_closed := True\<rparr>\<rparr>)" using c [OF lk] by blast+
    note K = inv_kept [OF O lk _ _ C(1,2) rd C(3)]
    have "installed (upd_tx i (\<lambda>t. t\<lparr>tx_closed := True\<rparr>) s) i \<and> \<not> rd_pending (the_bm (upd_tx i (\<lambda>t. t\<lparr>tx_closed := True\<rparr>) s) i)"
      using ins rd by (simp add: installed_def upd_tx_def upd_bm_def)
    then have "Q () (upd_tx i (\<lambda>t. t\<lparr>tx_closed := True\<rparr>) s)" using K True by (intro Q) blast+
    then show ?thesis using True l by (simp add: finish_bat_transaction_def wps)
  next
    case False
    have "bm_ok (prealloc s) False 0 False (unalloc s i) (installed s i) (Bm_req i \<in> Pd) (n_pending G Pd i) (the_bm s i)" using b False ins by simp
    note K = inv_released [OF O lk this]
    have "installed (init_bat (unlock_bat s)) i \<and> \<not> rd_pending (the_bm (init_bat (unlock_bat s)) i)"
      using ins rd by (simp add: installed_def init_bat_def unlock_bat_def upds)
    then have "Q () (init_bat (unlock_bat s))" using K by (intro Q) blast+
    then show ?thesis using False l by (auto simp: finish_bat_transaction_def wps)
  qed
qed

lemma n_zero: "n_pending G Pd i = 0 \<longleftrightarrow> (\<forall>r \<in> set (g_tx G i). r \<notin> Pd)"
  by (simp add: n_pending_def filter_empty_conv)

lemma bm_ok_shut:
  assumes "bm_ok pr False 0 False True True bp n b" and "tx_error (vbm_tx b) \<noteq> 0" and "\<not> tx_closed (vbm_tx b)" and "tx_live b" and "e \<noteq> 0"
  shows "bm_ok pr True e tb True True bp n (b\<lparr>vbm_tx := (vbm_tx b)\<lparr>tx_closed := True\<rparr>\<rparr>)"
proof -
  note D = bm_okD [OF assms(1)]
  have n: "n \<noteq> 0" "\<not> wr_pending b" "\<not> rd_pending b" "\<not> bp" "\<not> tx_bat b" using D(7,8,10,11,17) assms(2-4) by blast+
  show ?thesis by (rule bm_okI) (use n D(1,2,3,12,13) assms(2-) in \<open>simp_all add: bitmap_in_use_def bitmap_locked_def\<close>)
qed

text \<open>The last steps of \<open>finish_bitmap_transaction\<close>.\<close>

lemma wp_close_semi:
  assumes S: "semi s G Pd i"
    and Q: "\<And>t. inv t G Pd \<Longrightarrow> steady s G t G \<Longrightarrow> in_flight t = in_flight s \<Longrightarrow> installed t i \<and> \<not> rd_pending (the_bm t i) \<Longrightarrow>
      (has_lock t i \<Longrightarrow> bat_err t \<noteq> 0 \<and> tx_live (the_bm s i)) \<Longrightarrow> Q () t"
  shows "wp (vthen (vget (\<lambda>s. if \<not> bitmap_in_use (the_bm s i) then vmodify (unlock_bitmap i) else vret ())) (finish_bat_transaction i)) Q E s"
proof -
  note S' = S [unfolded semi_def]
  have O: "others_ok s G Pd i" and ins: "installed s i" and rd: "\<not> rd_pending (the_bm s i)" using S' by blast+
  have B: "bm_ok (prealloc s) False 0 False (unalloc s i) True (Bm_req i \<in> Pd) (n_pending G Pd i) (relock (the_bm s i))" using S' by blast
  define u where "u = (if \<not> bitmap_in_use (the_bm s i) then unlock_bitmap i s else s)"
  have uv: "vs_flags u = vs_flags s" "vs_vhd u = vs_vhd s" "vs_spb u = vs_spb s" "vs_spp u = vs_spp s" "vs_bm_secs u = vs_bm_secs s" "vs_zsize u = vs_zsize s"
    "vs_bat u = vs_bat s" "vs_bitmap u = vs_bitmap s" "vs_bitmap_free u = vs_bitmap_free s" "vs_vreq_free u = vs_vreq_free s" "vs_aio u = vs_aio s" "vs_out u = vs_out s"
    "vs_req u = vs_req s" by (simp_all add: u_def unlock_bitmap_def upds)
  have ub: "the_bm u j = (if j = i then (the_bm s i)\<lparr>vbm_status := (if bitmap_in_use (the_bm s i) then vbm_status (the_bm s i) else
      clear_vhd_flag (vbm_status (the_bm s i)) VHD_FLAG_BM_LOCKED)\<rparr> else the_bm s j)" for j
    by (simp add: u_def unlock_bitmap_def upds)
  have tests: "vbm_tx (the_bm u j) = vbm_tx (the_bm s j)" "vbm_queue (the_bm u j) = vbm_queue (the_bm s j)" "vbm_waiting (the_bm u j) = vbm_waiting (the_bm s j)"
    "rd_pending (the_bm u j) = rd_pending (the_bm s j)" "wr_pending (the_bm u j) = wr_pending (the_bm s j)" for j by (simp_all add: ub)
  have use: "bitmap_in_use (the_bm u j) = bitmap_in_use (the_bm s j)" for j by (simp add: bitmap_in_use_def tests)
  have lkd: "bitmap_in_use (the_bm u i) \<longrightarrow> bitmap_locked (the_bm u i)" unfolding use using S' by (cases "bitmap_in_use (the_bm s i)") (simp_all add: bitmap_locked_def ub)
  have bt: "bat_table u = bat_table s" by (simp add: bat_table_def uv)
  have fr: "same_frame s u" by (simp add: same_frame_def uv ub bt)
  have lk: "same_lock s u" by (simp add: same_lock_def uv bt)
  note L = same_lockD [OF lk fr] and F = same_frameD [OF fr]
  have core: "core_ok s G Pd" using O by (simp add: others_ok_def)
  have C: "core_ok u G Pd" by (subst core_cong [of u s]) (use core fr in \<open>simp_all add: uv tests bt same_frame_def\<close>)
  have Ou: "others_ok u G Pd i" by (rule others_frame [OF O C fr lk]) (simp_all add: ub)
  have "owed u G = owed s G" by (rule owed_data_cong) (simp add: uv)
  moreover have "parked u G = parked s G" by (rule parked_cong) (simp_all add: uv)
  ultimately have cm: "steady s G u G" by (intro steadyI(1) same_disk_frame [OF fr]) (simp_all add: reported_def uv tests)
  have fl: "in_flight u = in_flight s" by (simp add: in_flight_def uv)
  have Bu: "bm_ok (prealloc u) False 0 False (unalloc u i) True (Bm_req i \<in> Pd) (n_pending G Pd i) (the_bm u i)"
    by (rule bm_okI) (use bm_okD [OF B] lkd in \<open>simp_all add: tests use L F\<close>)
  have "wp (finish_bat_transaction i) Q E u"
  proof (rule wp_finish_bat_transaction [OF Ou])
    show "installed u i" "\<not> rd_pending (the_bm u i)" using ins rd by (simp_all add: F tests)
    show "bm_ok (prealloc u) False 0 False (unalloc u i) True (Bm_req i \<in> Pd) (n_pending G Pd i) (the_bm u i)" by (rule Bu)
    assume h: "has_lock u i" "bat_err u \<noteq> 0" "tx_live (the_bm u i)"
    have e: "tx_error (vbm_tx (the_bm u i)) \<noteq> 0" "\<not> tx_closed (vbm_tx (the_bm u i))" using S' h by (simp_all add: L tests)
    have nb: "\<not> tx_bat (the_bm u i)" using bm_okD(17) [OF Bu] by blast
    have un: "unalloc u i" using Ou h by (simp add: others_ok_def lock_over_def)
    show "tx_error (vbm_tx (the_bm u i)) \<noteq> 0 \<and> \<not> tx_bat (the_bm u i) \<and>
      bm_ok (prealloc u) True (bat_err u) (bat_tx u = Some i) True True (Bm_req i \<in> Pd) (n_pending G Pd i)
      ((the_bm u i)\<lparr>vbm_tx := (vbm_tx (the_bm u i))\<lparr>tx_closed := True\<rparr>\<rparr>)"
      using bm_ok_shut [OF _ e h(3,2)] Bu un e nb by simp
  next
    fix t assume "inv t G Pd" "steady u G t G" "in_flight t = in_flight u" "installed t i \<and> \<not> rd_pending (the_bm t i)"
      "has_lock t i \<Longrightarrow> bat_err t \<noteq> 0 \<and> tx_live (the_bm u i)"
    then show "Q () t" using Q [of t] steady_trans [OF cm] fl tests(1) [of i] by simp
  qed
  then show ?thesis by (simp add: wps u_def split: if_splits)
qed

section \<open>The queued requests start the next transaction\<close>

definition rejoined :: "ghost \<Rightarrow> nat \<Rightarrow> ghost" where
  "rejoined G i = G\<lparr>g_own := (\<lambda>r. if r \<in> set (g_list G (In_queue i)) then In_tx i else g_own G r),
     g_list := (g_list G)(In_queue i := [], In_tx i := g_list G (In_queue i))\<rparr>"

lemma rejoined_simps [simp]:
  "g_own (rejoined G i) r = (if r \<in> set (g_list G (In_queue i)) then In_tx i else g_own G r)"
  "g_list (rejoined G i) p = (if p = In_tx i then g_list G (In_queue i) else if p = In_queue i then [] else g_list G p)"
  by (simp_all add: rejoined_def)

text \<open>A transaction that has just begun.\<close>

definition begun :: "vhd_state \<Rightarrow> ghost \<Rightarrow> rid set \<Rightarrow> nat \<Rightarrow> bool" where
  "begun s G Pd i \<longleftrightarrow> others_ok s G Pd i \<and> resting s Pd i \<and> bitmap_locked (the_bm s i) \<and> g_list G (In_queue i) = [] \<and> vbm_queue (the_bm s i) = req_list_nil \<and>
     (let tx = vbm_tx (the_bm s i) in \<not> tx_closed tx \<and> tx_live (the_bm s i) \<and> \<not> tx_bat (the_bm s i) \<and> tx_started tx \<noteq> 0 \<and>
       tx_started tx = tx_finished tx + n_pending G Pd i \<and> (unalloc s i \<longrightarrow> tx_error tx \<noteq> 0))"

lemma queue_data:
  assumes "reqs_ok s G Pd" and "lists_ok s G" and "r \<in> set (g_list G (In_queue i))"
  shows "is_data r" "tx_write s Pd i r" "vr_tx (vs_req s r) = None" "test_vhd_flag (vr_flags (vs_req s r)) VHD_FLAG_REQ_QUEUED" "g_own G r = In_queue i"
proof -
  show o: "g_own G r = In_queue i" using listsD(3) [OF assms(2), of "In_queue i" r] assms(3) by simp
  show d: "is_data r" using own_data [OF assms(1) o] by simp
  have "dreq_ok s G Pd r" using assms(1) d by (simp add: reqs_ok_def)
  then show "tx_write s Pd i r" "vr_tx (vs_req s r) = None" "test_vhd_flag (vr_flags (vs_req s r)) VHD_FLAG_REQ_QUEUED"
    using o by (simp_all add: dreq_ok_def Let_def)
qed

lemma begun_restarted:
  assumes O: "others_ok s G Pd i" and r: "resting s Pd i" and z: "vbm_tx (the_bm s i) = tx_zero" "g_tx G i = []" and lkd: "bitmap_locked (the_bm s i)"
    and q: "g_list G (In_queue i) = qs" "qs \<noteq> []" and e: "unalloc s i \<Longrightarrow> e \<noteq> 0"
    and R: "restarted i [] qs (upd_bm i (\<lambda>b. b\<lparr>vbm_queue := req_list_nil, vbm_tx := tx_zero\<lparr>tx_error := e\<rparr>\<rparr>) s) t"
    and rl: "rlist (nexts t) (tx_requests (vbm_tx (the_bm t i))) qs"
  shows "begun t (rejoined G i) Pd i" "steady s G t (rejoined G i)" "vs_aio t = vs_aio s" "same_lock s t" "same_frame s t"
proof -
  let ?s1 = "upd_bm i (\<lambda>b. b\<lparr>vbm_queue := req_list_nil, vbm_tx := tx_zero\<lparr>tx_error := e\<rparr>\<rparr>) s"
  let ?G = "rejoined G i"
  note T = restartedD [OF R]
  have core: "core_ok s G Pd" "reqs_ok s G Pd" "lists_ok s G" "pool_ok s G" using O by (simp_all add: others_ok_def core_ok_def)
  have X: "is_data r" "tx_write s Pd i r" "test_vhd_flag (vr_flags (vs_req s r)) VHD_FLAG_REQ_QUEUED" "g_own G r = In_queue i" if "r \<in> set qs" for r
    using queue_data [OF core(2,3), of r i] that q(1) by simp_all
  have s1: "vs_req ?s1 = vs_req s" "vs_bat ?s1 = vs_bat s" "vs_flags ?s1 = vs_flags s" "vs_vhd ?s1 = vs_vhd s" "vs_spb ?s1 = vs_spb s" "vs_spp ?s1 = vs_spp s"
    "vs_bm_secs ?s1 = vs_bm_secs s" "vs_zsize ?s1 = vs_zsize s" "vs_bitmap ?s1 = vs_bitmap s" "vs_bitmap_free ?s1 = vs_bitmap_free s"
    "vs_vreq_free ?s1 = vs_vreq_free s" "vs_aio ?s1 = vs_aio s" "vs_out ?s1 = vs_out s" by (simp_all add: upd_bm_def)
  have b1: "the_bm ?s1 j = (if j = i then (the_bm s i)\<lparr>vbm_queue := req_list_nil, vbm_tx := tx_zero\<lparr>tx_error := e\<rparr>\<rparr> else the_bm s j)" for j
    by (simp add: upd_bm_def)
  note tv = T(1-12) [unfolded s1]
  have fr1: "same_frame s ?s1" by (simp add: same_frame_def s1 b1 bat_table_def)
  have fr: "same_frame s t" using T(15) fr1 by (simp add: same_frame_def)
  then show "same_frame s t" .
  note F = same_frameD [OF fr]
  note R' = R [unfolded restarted_def s1]
  have rq: "vs_req t r = vs_req s r" if "r \<notin> set qs" for r using R' that by simp
  have rx: "\<exists>n. vs_req t r = (vs_req s r)\<lparr>vr_tx := Some i, vr_flags := clear_vhd_flag (vr_flags (vs_req s r)) VHD_FLAG_REQ_QUEUED, vr_next := n\<rparr>" if "r \<in> set qs" for r
    using R' that by simp
  have bt: "bat_table t = bat_table s" by (simp add: bat_table_def tv)
  have nq: "Bat_req \<notin> set qs" "Zero_req \<notin> set qs" using X(1) [of Bat_req] X(1) [of Zero_req] by auto
  show lk: "same_lock s t" using nq by (simp add: same_lock_def tv bt rq)
  have bj: "the_bm t j = the_bm s j" if "j \<noteq> i" for j using R' that b1 by simp
  obtain w l where "the_bm t i = (the_bm ?s1 i)\<lparr>vbm_shadow := w, vbm_tx := (vbm_tx (the_bm ?s1 i))\<lparr>
        tx_started := tx_started (vbm_tx (the_bm ?s1 i)) + length qs, tx_finished := tx_finished (vbm_tx (the_bm ?s1 i)) + length (filter (finished_req s) qs),
        tx_status := set_vhd_flag (tx_status (vbm_tx (the_bm ?s1 i))) VHD_FLAG_TX_LIVE, tx_requests := l\<rparr>\<rparr>" using R' q(2) by auto
  then have bi: "the_bm t i = (the_bm s i)\<lparr>vbm_queue := req_list_nil, vbm_shadow := w, vbm_tx := \<lparr>tx_error = e, tx_closed = False, tx_started = length qs,
      tx_finished = length (filter (finished_req s) qs), tx_status = set_vhd_flag 0 VHD_FLAG_TX_LIVE, tx_requests = l\<rparr>\<rparr>"
    unfolding b1 by (simp add: tx_zero_def)
  have rd: "rd_pending (the_bm t j) = rd_pending (the_bm s j)" for j using bi bj [of j] by (cases "j = i") simp_all
  have tw: "tx_write t Pd i r" if "r \<in> set qs" for r
    using X(2) [OF that] rx [OF that] by (auto simp: tx_write_def Let_def F)
  have C: "core_ok t ?G Pd"
  proof (rule core_moves [OF core(1) fr, of "set qs"])
    show "is_data r \<and> dreq_ok t ?G Pd r" if "r \<in> set qs" for r
      using X(1) [OF that] tw [OF that] rx [OF that] that by (auto simp: dreq_ok_def q(1) Let_def)
    show "pool_ok t ?G" using core(4) X(4) by (auto simp: pool_ok_def tv q(1))
    show "lists_ok t ?G" unfolding lists_ok_def
    proof (intro allI impI conjI)
      fix p assume p: "listed p"
      note Lp = listsD [OF core(3) p]
      show "distinct (g_list ?G p)" using Lp(2) listsD(2) [OF core(3), of "In_queue i"] q(1) by simp
      show "set (g_list ?G p) = {r. g_own ?G r = p}"
      proof -
        have "g_own G r \<noteq> In_tx i" for r using listsD(3) [OF core(3), of "In_tx i" r] z(2) by simp
        moreover have "r \<in> set qs \<longleftrightarrow> g_own G r = In_queue i" for r using listsD(3) [OF core(3), of "In_queue i" r] q(1) by simp
        ultimately show ?thesis using Lp(3) by (auto simp: q(1))
      qed
      show "rlist (nexts t) (list_at t p) (g_list ?G p)"
      proof -
        consider "p = In_tx i" | "p = In_queue i" | "p \<noteq> In_tx i" "p \<noteq> In_queue i" by blast
        then show ?thesis
        proof cases
          case 1
          then show ?thesis using rl q(1) by simp
        next
          case 2
          then show ?thesis by (simp add: bi)
        next
          case 3
          have "list_at t p = list_at s p"
          proof (cases p)
            case (In_tx j)
            then show ?thesis using 3 bj [of j] by auto
          next
            case (In_queue j)
            then show ?thesis using 3 bj [of j] by auto
          next
            case (In_wait j)
            then show ?thesis using bi bj [of j] by (cases "j = i") simp_all
          qed simp_all
          moreover have "nexts t r = nexts s r" if "r \<in> set (g_list G p)" for r
          proof -
            have "r \<notin> set qs" using that X(4) Lp(3) 3 by auto
            then show ?thesis using rq by simp
          qed
          ultimately show ?thesis using 3 Lp(1) rlist_cong [of "g_list G p" "nexts t" "nexts s"] by simp
        qed
      qed
    qed
  qed (simp_all add: rq rd q(1))
  have oz: "g_own ?G Zero_req = g_own G Zero_req" "g_own ?G Bat_req = g_own G Bat_req" using nq q(1) by simp_all
  have Ot: "others_ok t ?G Pd i" by (rule others_frame [OF O C fr lk bj oz]) simp_all
  have rt: "resting t Pd i" using r F(7) by (simp add: resting_def bi)
  have "owed t ?G = owed s G"
  proof (rule owed_cong)
    fix r assume "is_data r"
    have "vr_op (vs_req t r) = vr_op (vs_req s r)" "vr_treq (vs_req t r) = vr_treq (vs_req s r)" using T(13,14) [of r] s1 by simp_all
    moreover have "(g_own ?G r = Free) = (g_own G r = Free)" using X(4) q(1) by auto
    ultimately show "contrib t ?G r = contrib s G r" by (simp add: contrib_def)
  qed
  moreover have "parked t ?G = parked s G" 
  proof (rule parked_cong)
    show "g_own ?G r = Parked \<longleftrightarrow> g_own G r = Parked" for r using X(4) q(1) by auto
    show "vs_req t r = vs_req s r" if "g_own G r = Parked" for r using X(4) [of r] that rq by fastforce
  qed
  ultimately show "steady s G t ?G" by (intro steadyI(1) same_disk_frame [OF fr]) (simp_all add: reported_def tv rd)
  show "vs_aio t = vs_aio s" by (rule tv)
  have fin: "filter (\<lambda>r. r \<in> Pd) qs = filter (\<lambda>r. \<not> finished_req s r) qs" by (rule filter_cong [OF refl]) (use X(2) in \<open>auto simp: tx_write_def Let_def\<close>)
  have ne: "tx_started (vbm_tx (the_bm t i)) \<noteq> 0" using q(2) by (simp add: bi)
  have "length qs = length (filter (finished_req s) qs) + n_pending ?G Pd i"
    unfolding n_pending_def using sum_length_filter_compl [of "finished_req s" qs] by (simp add: q(1) fin)
  moreover have "unalloc t i = unalloc s i" by (rule unalloc_frame [OF fr bt])
  ultimately show "begun t ?G Pd i"
    unfolding begun_def Let_def by (intro conjI ne) (use Ot rt lkd q e in \<open>simp_all add: bi bitmap_locked_def\<close>)
qed

lemma wp_start_new:
  assumes O: "others_ok s G Pd i" and r: "resting s Pd i" and z: "vbm_tx (the_bm s i) = tx_zero" "g_tx G i = []" and lkd: "bitmap_locked (the_bm s i)"
    and Q0: "g_list G (In_queue i) = [] \<Longrightarrow> Q () s"
    and Q1: "\<And>t G'. g_list G (In_queue i) \<noteq> [] \<Longrightarrow> begun t G' Pd i \<Longrightarrow> steady s G t G' \<Longrightarrow> vs_aio t = vs_aio s \<Longrightarrow>
      (if n_pending G' Pd i = 0 then wp (fin i) Q E t else Q () t)"
  shows "wp (start_new_bitmap_transaction fin i) Q E s"
proof -
  have core: "reqs_ok s G Pd" "lists_ok s G" "driver_cfg s" "cache_ok s" using O by (simp_all add: others_ok_def core_ok_def)
  have ins: "installed s i" using r by (simp add: resting_def)
  let ?qs = "g_list G (In_queue i)"
  note L = listsD [OF core(2), of "In_queue i", simplified]
  have b: "unat (vbm_blk (the_bm s i)) < n_blocks s" "length (vbm_shadow (the_bm s i)) = 512 * unat (vs_bm_secs s)"
    using core(4) ins by (auto simp: cache_ok_def installed_cached)
  have tl: "unat (vbm_blk (the_bm s i)) < length (bat_table s)" using b(1) cfgD(6) [OF core(3)] by simp
  show ?thesis
  proof (cases "?qs = []")
    case True
    then have "rl_head (vbm_queue (the_bm s i)) = None" using rlist_head [OF L(1)] by simp
    then show ?thesis using Q0 [OF True] by (simp add: start_new_bitmap_transaction_def wps Let_def)
  next
    case False
    have h: "rl_head (vbm_queue (the_bm s i)) = Some (hd ?qs)" using L(1) False by (simp add: rlist_def)
    let ?s1 = "\<lambda>e. upd_bm i (\<lambda>b. b\<lparr>vbm_queue := req_list_nil, vbm_tx := tx_zero\<lparr>tx_error := e\<rparr>\<rparr>) s"
    have go: "wp (vthen (start_loop VHD_REQS_TOTAL i (Some (hd ?qs))) (vget (\<lambda>s. let tx = vbm_tx (the_bm s i) in
             if tx_started tx \<noteq> 0 \<and> transaction_completed tx then fin i else vret ()))) Q E (?s1 e)" if e: "unalloc s i \<Longrightarrow> e \<noteq> 0" for e
    proof -
      have "wp (start_loop VHD_REQS_TOTAL i (if ?qs = [] then None else Some (hd ?qs))) (\<lambda>_ t. wp (let tx = vbm_tx (the_bm t i) in
             if tx_started tx \<noteq> 0 \<and> transaction_completed tx then fin i else vret ()) Q E t) E (?s1 e)"
      proof (rule wp_start_loop [where ys = "[]"])
        have s1: "vs_req (?s1 e) = vs_req s" "vs_spb (?s1 e) = vs_spb s" "the_bm (?s1 e) i = (the_bm s i)\<lparr>vbm_queue := req_list_nil, vbm_tx := tx_zero\<lparr>tx_error := e\<rparr>\<rparr>"
          by (simp_all add: upd_bm_def)
        show "chained (nexts (?s1 e)) ?qs" using L(1) unfolding s1 by (simp add: rlist_def)
        show "rlist (nexts (?s1 e)) (tx_requests (vbm_tx (the_bm (?s1 e) i))) []" unfolding s1 by (simp add: tx_zero_def)
        show "distinct ([] @ ?qs)" using L(2) by simp
        show "length ?qs \<le> VHD_REQS_TOTAL" by (rule tx_list_bound [OF core(1,2)]) simp
        show "\<not> tx_closed (vbm_tx (the_bm (?s1 e) i))" unfolding s1 by (simp add: tx_zero_def)
        show "4 dvd length (vbm_shadow (the_bm (?s1 e) i))" unfolding s1 using b(2) by (simp add: dvd_mult2)
        show "unat (sec_of (?s1 e) (td_sec (vr_treq (vs_req (?s1 e) q)))) + td_secs (vr_treq (vs_req (?s1 e) q)) \<le> 8 * length (vbm_shadow (the_bm (?s1 e) i))"
          if "q \<in> set ?qs" for q
        proof -
          have "unat (sec_of s (td_sec (vr_treq (vs_req s q)))) + td_secs (vr_treq (vs_req s q)) \<le> spb s"
            using queue_data(2) [OF core(1,2) that] by (simp add: tx_write_def in_block_def Let_def)
          also have "\<dots> \<le> 8 * (512 * unat (vs_bm_secs s))" using core(3) by (simp add: driver_cfg_def)
          finally show ?thesis unfolding s1 using b(2) s1(2) by (simp add: sec_of_def)
        qed
        fix t assume t: "restarted i [] ?qs (?s1 e) t" "rlist (nexts t) (tx_requests (vbm_tx (the_bm t i))) ([] @ ?qs)"
        note B = begun_restarted [OF O r z lkd refl False e t(1) t(2) [unfolded append_Nil]]
        have tc: "tx_started (vbm_tx (the_bm t i)) \<noteq> 0" "transaction_completed (vbm_tx (the_bm t i)) \<longleftrightarrow> n_pending (rejoined G i) Pd i = 0"
          using B(1) unfolding begun_def Let_def transaction_completed_def by (blast, linarith)
        show "wp (let tx = vbm_tx (the_bm t i) in if tx_started tx \<noteq> 0 \<and> transaction_completed tx then fin i else vret ()) Q E t"
          using Q1 [OF False B(1,2,3)] tc by (simp add: Let_def wps split: if_splits)
      qed
      then show ?thesis using False by (simp add: wp_fun wps)
    qed
    have un: "unalloc s i \<longleftrightarrow> bat_table s ! unat (vbm_blk (the_bm s i)) = DD_BLK_UNUSED" using ins by (simp add: unalloc_def)
    let ?s0 = "upd_bm i (\<lambda>b. b\<lparr>vbm_queue := req_list_nil\<rparr>) s"
    have e0: "?s0 = ?s1 0" unfolding upd_bm_def
      by (intro arg_cong [where f = "\<lambda>b. s\<lparr>vs_bitmap_list := (the_bm s)(i := b)\<rparr>"] vhd_bitmap.equality) (simp_all add: z tx_zero_def)
    have e1: "upd_tx i (\<lambda>t. t\<lparr>tx_error := - EIO\<rparr>) ?s0 = ?s1 (- EIO)" unfolding upd_tx_def upd_bm_def
      by (simp add: z)
    have bt: "bat_table ?s0 = bat_table s" by (simp add: bat_table_def upd_bm_def)
    show ?thesis
    proof (cases "unalloc s i")
      case True
      have "- EIO \<noteq> 0" by (simp add: errno_defs)
      from go [OF this] show ?thesis
        using True un h tl False by (simp add: start_new_bitmap_transaction_def wps wp_fun Let_def wp_get_entry bt e1)
    next
      case u: False
      have "wp (vthen (start_loop VHD_REQS_TOTAL i (Some (hd ?qs))) (vget (\<lambda>s. let tx = vbm_tx (the_bm s i) in
             if tx_started tx \<noteq> 0 \<and> transaction_completed tx then fin i else vret ()))) Q E ?s0" unfolding e0 by (rule go) (use u in simp)
      then show ?thesis
        using u un h tl False by (simp add: start_new_bitmap_transaction_def wps wp_fun Let_def wp_get_entry bt)
    qed
  qed
qed

lemma begun_semi:
  assumes B: "begun s G Pd i" and n: "n_pending G Pd i \<noteq> 0"
  shows "semi s G Pd i"
proof -
  note B' = B [unfolded begun_def Let_def resting_def]
  have "bm_ok (prealloc s) False 0 False (unalloc s i) True (Bm_req i \<in> Pd) (n_pending G Pd i) (relock (the_bm s i))"
    by (rule bm_okI) (use B' n in \<open>simp_all add: req_list_nil_def\<close>)
  moreover have "has_lock s i \<Longrightarrow> bat_err s \<noteq> 0 \<Longrightarrow> unalloc s i" using B' by (simp add: others_ok_def lock_over_def)
  ultimately show ?thesis using B' by (simp add: semi_def)
qed

lemma empty_semi:
  assumes O: "others_ok s G Pd i" and r: "resting s Pd i" and z: "vbm_tx (the_bm s i) = tx_zero" "g_tx G i = []" and q: "g_list G (In_queue i) = []"
  shows "semi s G Pd i"
proof -
  have "lists_ok s G" using O by (simp add: others_ok_def core_ok_def)
  then have qn: "vbm_queue (the_bm s i) = req_list_nil" using listsD(1) [of s G "In_queue i"] q by (simp add: rlist_Nil)
  have zs: "\<not> tx_live (the_bm s i)" "\<not> tx_bat (the_bm s i)" "n_pending G Pd i = 0" using z by (simp_all add: tx_zero_def n_pending_def)
  have iu: "\<not> bitmap_in_use (the_bm s i)" using r z qn by (simp add: bitmap_in_use_def resting_def tx_zero_def req_list_nil_def)
  have "bm_ok (prealloc s) False 0 False (unalloc s i) True (Bm_req i \<in> Pd) (n_pending G Pd i) (relock (the_bm s i))"
    by (rule bm_okI) (use r zs qn z iu in \<open>simp_all add: resting_def req_list_nil_def tx_zero_def\<close>)
  then show ?thesis using O r zs iu by (simp add: semi_def resting_def)
qed

text \<open>A state whose transaction on bitmap \<open>i\<close> has ended.\<close>

definition over :: "vhd_state \<Rightarrow> ghost \<Rightarrow> rid set \<Rightarrow> nat \<Rightarrow> bool" where
  "over s G Pd i \<longleftrightarrow> inv s G Pd \<and> installed s i \<and> \<not> rd_pending (the_bm s i) \<and> (has_lock s i \<longrightarrow> bat_err s \<noteq> 0)"

lemma wp_end_transaction:
  assumes O: "others_ok s G (in_flight s) i" and r: "resting s (in_flight s) i" and lkd: "bitmap_locked (the_bm s i)"
    and d: "\<And>r. r \<in> set (g_tx G i) \<Longrightarrow> r \<notin> in_flight s"
    and fin: "\<And>t G'. g_list G (In_queue i) \<noteq> [] \<Longrightarrow> begun t G' (in_flight t) i \<Longrightarrow> n_pending G' (in_flight t) i = 0 \<Longrightarrow>
      wp (fin i) (\<lambda>_ u. \<exists>G''. semi u G'' (in_flight u) i \<and> steady t G' u G'') E t"
    and Q: "\<And>t G'. over t G' (in_flight t) i \<Longrightarrow> steady s G t G' \<Longrightarrow> (g_list G (In_queue i) = [] \<Longrightarrow> \<not> has_lock t i) \<Longrightarrow> Q () t"
  shows "wp (end_transaction fin i) Q E s"
proof -
  let ?fin = "vthen (vget (\<lambda>s. if \<not> bitmap_in_use (the_bm s i) then vmodify (unlock_bitmap i) else vret ())) (finish_bat_transaction i)"
  have cl: "wp ?fin Q E t" if t: "semi t G' (in_flight t) i" "steady s G t G'" "g_list G (In_queue i) = [] \<Longrightarrow> \<not> tx_live (the_bm t i)" for t G'
  proof (rule wp_close_semi [OF t(1)])
    fix u assume u: "inv u G' (in_flight t)" "steady t G' u G'" "in_flight u = in_flight t" "installed u i \<and> \<not> rd_pending (the_bm u i)"
      "has_lock u i \<Longrightarrow> bat_err u \<noteq> 0 \<and> tx_live (the_bm t i)"
    show "Q () u" by (rule Q [of u G']) (use u t steady_trans [OF t(2) u(2)] in \<open>auto simp: over_def\<close>)
  qed
  have "wp (vthen (start_new_bitmap_transaction fin i) ?fin) Q E t"
    if t: "others_ok t (emptied G (In_tx i) Free) (in_flight s) i" "resting t (in_flight s) i" "steady s G t (emptied G (In_tx i) Free)" "vs_aio t = vs_aio s"
      "vbm_tx (the_bm t i) = tx_zero" "vbm_status (the_bm t i) = vbm_status (the_bm s i)" for t
  proof -
    let ?G = "emptied G (In_tx i) Free"
    have fl: "in_flight t = in_flight s" using t(4) by (simp add: in_flight_def)
    have gq: "g_list ?G (In_queue i) = g_list G (In_queue i)" by simp
    have "wp (start_new_bitmap_transaction fin i) (\<lambda>_. wp ?fin Q E) E t"
    proof (rule wp_start_new [OF t(1,2,5)])
      show "g_tx ?G i = []" by simp
      show "bitmap_locked (the_bm t i)" using lkd t(6) by (simp add: bitmap_locked_def)
      show "wp ?fin Q E t" if q: "g_list ?G (In_queue i) = []"
      proof (rule cl [OF _ t(3)])
        show "semi t ?G (in_flight t) i" unfolding fl by (rule empty_semi [OF t(1,2,5) _ q]) simp
        show "\<not> tx_live (the_bm t i)" using t(5) by (simp add: tx_zero_def)
      qed
      fix u G' assume u: "g_list ?G (In_queue i) \<noteq> []" "begun u G' (in_flight s) i" "steady t ?G u G'" "vs_aio u = vs_aio t"
      have fu: "in_flight u = in_flight s" using u(4) fl by (simp add: in_flight_def)
      have q: "g_list G (In_queue i) \<noteq> []" using u(1) by simp
      have cu: "steady s G u G'" by (rule steady_trans [OF t(3) u(3)])
      show "if n_pending G' (in_flight s) i = 0 then wp (fin i) (\<lambda>_. wp ?fin Q E) E u else wp ?fin Q E u"
      proof (cases "n_pending G' (in_flight s) i = 0")
        case True
        have "wp (fin i) (\<lambda>_. wp ?fin Q E) E u"
        proof (rule wp_mono [OF fin [OF q]])
          show "begun u G' (in_flight u) i" "n_pending G' (in_flight u) i = 0" using u(2) True fu by simp_all
          fix x v assume "\<exists>G''. semi v G'' (in_flight v) i \<and> steady u G' v G''"
          then obtain G'' where v: "semi v G'' (in_flight v) i" "steady u G' v G''" by blast
          show "wp ?fin Q E v" by (rule cl [OF v(1) steady_trans [OF cu v(2)]]) (use q in simp)
        qed
        then show ?thesis using True by simp
      next
        case False
        have "wp ?fin Q E u"
          by (rule cl [OF _ cu]) (use q begun_semi [OF u(2) False] fu in simp_all)
        then show ?thesis using False by simp
      qed
    qed
    then show ?thesis by (simp only: wp_vbind)
  qed
  then have "wp (vthen (settle_bitmap i) (vthen (vget (\<lambda>s. let tx = vbm_tx (the_bm s i) in signal_completion (rl_head (tx_requests tx)) (tx_error tx)))
     (vmodify (upd_tx i (\<lambda>_. tx_zero))))) (\<lambda>_. wp (vthen (start_new_bitmap_transaction fin i) ?fin) Q E) E s"
    by (intro wp_close_tx [OF O r d]) simp_all
  then show ?thesis unfolding end_transaction_def wp_fun .
qed

section \<open>The bitmap is written\<close>

lemma core_bm:
  assumes C: "core_ok s G Pd" and fr: "same_frame s t" and rq: "\<And>q. q \<noteq> Bm_req i \<Longrightarrow> vs_req t q = vs_req s q"
    and Pd: "\<And>q. q \<noteq> Bm_req i \<Longrightarrow> q \<in> Pd' \<longleftrightarrow> q \<in> Pd" and l: "\<And>p. list_at t p = list_at s p" and f: "vs_vreq_free t = vs_vreq_free s"
    and b: "bmreq_ok t Pd' i" and rd: "\<And>j. j \<noteq> i \<Longrightarrow> rd_pending (the_bm t j) = rd_pending (the_bm s j)"
  shows "core_ok t G Pd'"
proof -
  note F = same_frameD [OF fr]
  have C': "driver_cfg s" "cache_ok s" "reqs_ok s G Pd" "lists_ok s G" "pool_ok s G" using C by (simp_all add: core_ok_def)
  have "tx_write t Pd' j r = tx_write s Pd j r" if "r \<noteq> Bm_req i" for j r using that by (simp add: tx_write_def rq Pd F)
  then have "dreq_ok t G Pd' r = dreq_ok s G Pd r" if "is_data r" for r
    using that rq [of r] Pd [of r] by (auto simp: dreq_ok_def F Let_def is_data_def cong: place.case_cong)
  moreover have "zero_ok t G Pd' = zero_ok s G Pd" "batreq_ok t G Pd' = batreq_ok s G Pd" by (simp_all add: zero_ok_def batreq_ok_def rq Pd F)
  moreover have "bmreq_ok t Pd' j" for j
  proof (cases "j = i")
    case False
    have "bmreq_ok s Pd j" using C'(3) by (simp add: reqs_ok_def)
    then show ?thesis using False by (simp add: bmreq_ok_def rq Pd F rd Let_def)
  qed (use b in simp)
  ultimately have "reqs_ok t G Pd'" using C'(3) by (simp add: reqs_ok_def Pd)
  moreover have "rlist (nexts t) (list_at t p) (g_list G p) = rlist (nexts s) (list_at s p) (g_list G p)" if p: "listed p" for p
  proof -
    have "Bm_req i \<notin> set (g_list G p)" using listsD(3) [OF C'(4) p] C'(3) p by (auto simp: reqs_ok_def)
    then have "nexts t r = nexts s r" if "r \<in> set (g_list G p)" for r using rq [of r] that by metis
    then show ?thesis unfolding l by (rule rlist_cong)
  qed
  then have "lists_ok t G" using C'(4) by (simp add: lists_ok_def)
  moreover have "pool_ok t G" using C'(5) by (simp add: pool_ok_def f)
  ultimately show ?thesis using C' by (simp add: core_ok_def F)
qed

text \<open>A change of bitmap \<open>i\<close> and of its own request.\<close>

lemma others_bm:
  assumes O: "others_ok s G Pd i" and C: "core_ok t G Pd'" and fr: "same_frame s t" and v: "same_lock s t"
    and bm: "\<And>j. j \<noteq> i \<Longrightarrow> bm_alike (the_bm t j) (the_bm s j)" and Pd: "\<And>q. q \<noteq> Bm_req i \<Longrightarrow> q \<in> Pd' \<longleftrightarrow> q \<in> Pd"
  shows "others_ok t G Pd' i"
proof -
  note V = same_lockD [OF v fr] and F = same_frameD [OF fr]
  note O' = O [unfolded others_ok_def]
  have own: "g_own G (Bm_req i) = Idle" and L: "lists_ok s G" using O' by (simp_all add: core_ok_def reqs_ok_def)
  have n: "n_pending G Pd' j = n_pending G Pd j" for j
  proof -
    have "Bm_req i \<notin> set (g_tx G j)" using listsD(3) [OF L, of "In_tx j"] own by simp
    then have "filter (\<lambda>r. r \<in> Pd') (g_tx G j) = filter (\<lambda>r. r \<in> Pd) (g_tx G j)" by (intro filter_cong refl) (metis Pd)
    then show ?thesis by (simp add: n_pending_def)
  qed
  have "bitmap_ok t G Pd' j" if j: "j \<noteq> i" for j
    by (rule bitmap_ok_frame [of s G Pd j]) (use O' j in \<open>simp_all add: bm [OF j] V F n Pd\<close>)
  moreover have "lock_over t G Pd' i"
  proof (cases "has_lock s i")
    case True
    then show ?thesis using O' by (simp add: lock_over_def V Pd)
  next
    case False
    then have "bat_ok s G Pd" using O' by (simp add: lock_over_def)
    then have "bat_ok t G Pd'"
    proof (rule bat_ok_frame [OF _ _ _ V(3,4) _ _ refl refl fr])
      show "vb_status (vs_bat t) = vb_status (vs_bat s)" "vb_pbw_blk (vs_bat t) = vb_pbw_blk (vs_bat s)" using v by (simp_all add: same_lock_def)
      show "(Zero_req \<in> Pd') = (Zero_req \<in> Pd)" "(Bat_req \<in> Pd') = (Bat_req \<in> Pd)" using Pd by simp_all
      show "unalloc t j = unalloc s j" for j by (rule V)
      show "vbm_tx (the_bm t j) = vbm_tx (the_bm s j) \<and> rd_pending (the_bm t j) = rd_pending (the_bm s j) \<and> wr_pending (the_bm t j) = wr_pending (the_bm s j)"
        if "has_lock s j" for j using bm [of j] that False by (cases "j = i") (simp_all add: bm_alike_def)
    qed
    then show ?thesis using False by (simp add: lock_over_def V)
  qed
  ultimately show ?thesis using C by (simp add: others_ok_def)
qed

definition bm_write_state :: "nat \<Rightarrow> u64 \<Rightarrow> vhd_state \<Rightarrow> vhd_state" where
  "bm_write_state i off s = upd_bm i (\<lambda>b. b\<lparr>vbm_status := set_vhd_flag (vbm_status b) VHD_FLAG_BM_WRITE_PENDING\<rparr>) (touch_bitmap i (lock_bitmap i
     (aio_state True (Bm_req i) off (upd_req (Bm_req i) (\<lambda>_. new_req (td_zero\<lparr>td_sec := ucast (vbm_blk (the_bm s i) * vs_spb s), td_secs := unat (vs_bm_secs s),
       td_buf := Shadow_buf i\<rparr>) 0 VHD_OP_BITMAP_WRITE) s))))"

lemma wp_schedule_bitmap_write:
  assumes cfg: "driver_cfg s" and ca: "cache_ok s" and ins: "installed s i" and st: "\<not> rd_pending (the_bm s i)" "\<not> wr_pending (the_bm s i)"
    and un: "unalloc s i \<Longrightarrow> has_lock s i" and Q: "\<And>off. Q () (bm_write_state i off s)"
  shows "wp (schedule_bitmap_write (vbm_blk (the_bm s i))) Q E s"
proof -
  have b: "unat (vbm_blk (the_bm s i)) < n_blocks s" using ca ins by (auto simp: cache_ok_def installed_cached)
  then have tl: "unat (vbm_blk (the_bm s i)) < length (bat_table s)" using cfgD(6) [OF cfg] by simp
  have g: "get_bitmap s (vbm_blk (the_bm s i)) = Some i" using get_bitmap_Some [OF ca] ins by simp
  have e: "upd_req (Bm_req i) (\<lambda>q. q\<lparr>vr_treq := (vr_treq q)\<lparr>td_sec := ucast (vbm_blk (the_bm s i) * vs_spb s), td_secs := unat (vs_bm_secs s), td_buf := Shadow_buf i\<rparr>,
        vr_op := VHD_OP_BITMAP_WRITE, vr_next := None\<rparr>) (init_vhd_request (Bm_req i) s) =
      upd_req (Bm_req i) (\<lambda>_. new_req (td_zero\<lparr>td_sec := ucast (vbm_blk (the_bm s i) * vs_spb s), td_secs := unat (vs_bm_secs s), td_buf := Shadow_buf i\<rparr>) 0 VHD_OP_BITMAP_WRITE) s"
    by (simp add: init_vhd_request_def upd_req_def new_req_def req_zero_def)
  have un': "bat_table s ! unat (vbm_blk (the_bm s i)) = DD_BLK_UNUSED \<Longrightarrow> bat_locked s \<and> vb_pbw_blk (vs_bat s) = vbm_blk (the_bm s i)"
    using un ins by (simp add: unalloc_def has_lock_def)
  show ?thesis
    using cfgD(1) [OF cfg] tl g st un' Q e
    by (simp add: schedule_bitmap_write_def wps wp_get_entry bitmap_valid_def wp_aio_state bm_write_state_def)
qed

lemma bm_written:
  assumes t: "t = bm_write_state i off s" and C: "core_ok s G Pd" and ins: "installed s i" and rd: "\<not> rd_pending (the_bm s i)"
  shows "\<exists>x. the_bm t j = (the_bm s j)\<lparr>vbm_status := (if j = i then set_vhd_flag (set_vhd_flag (vbm_status (the_bm s i)) VHD_FLAG_BM_LOCKED) VHD_FLAG_BM_WRITE_PENDING
      else vbm_status (the_bm s j)), vbm_seqno := x\<rparr>"
    "same_frame s t" "same_lock s t" "core_ok t G (insert (Bm_req i) Pd)" "in_flight t = insert (Bm_req i) (in_flight s)"
    "Bm_req i \<notin> in_flight s \<Longrightarrow> core_ok s G Pd \<Longrightarrow> steady s G t G" "vs_bat t = vs_bat s"
proof -
  let ?q = "new_req (td_zero\<lparr>td_sec := ucast (vbm_blk (the_bm s i) * vs_spb s), td_secs := unat (vs_bm_secs s), td_buf := Shadow_buf i\<rparr>) 0 VHD_OP_BITMAP_WRITE"
  have tv: "vs_flags t = vs_flags s" "vs_vhd t = vs_vhd s" "vs_spb t = vs_spb s" "vs_spp t = vs_spp s" "vs_bm_secs t = vs_bm_secs s" "vs_zsize t = vs_zsize s"
    "vs_bitmap t = vs_bitmap s" "vs_bitmap_free t = vs_bitmap_free s" "vs_vreq_free t = vs_vreq_free s" "vs_out t = vs_out s"
    "vs_req t = (vs_req s)(Bm_req i := ?q)"
    by (simp_all add: t bm_write_state_def upd_bm_def lock_bitmap_def) (simp_all add: upd_req_def)
  show vb: "vs_bat t = vs_bat s" by (simp add: t bm_write_state_def upd_bm_def lock_bitmap_def) (simp add: upd_req_def)
  have ta: "vs_aio t = vs_aio s @ [\<lparr>aio_req = Bm_req i, aio_rw = True, aio_buf = Shadow_buf i, aio_secs = unat (vs_bm_secs s), aio_off = off\<rparr>]"
    by (simp add: t bm_write_state_def upd_bm_def lock_bitmap_def)
      (simp add: aio_state_def aio_call_def aio_write_def vmodify_def Let_def upd_req_def)
  define u where "u = lock_bitmap i (aio_state True (Bm_req i) off (upd_req (Bm_req i) (\<lambda>_. ?q) s))"
  obtain x y where xy: "touch_bitmap i u = reseq x y u" using touch_form by blast
  have ub: "the_bm u j = (if j = i then (the_bm s i)\<lparr>vbm_status := set_vhd_flag (vbm_status (the_bm s i)) VHD_FLAG_BM_LOCKED\<rparr> else the_bm s j)" for j
    by (simp add: u_def lock_bitmap_def upd_bm_def) (simp add: upd_req_def)
  have bm: "\<exists>x. the_bm t j = (the_bm s j)\<lparr>vbm_status := (if j = i then set_vhd_flag (set_vhd_flag (vbm_status (the_bm s i)) VHD_FLAG_BM_LOCKED) VHD_FLAG_BM_WRITE_PENDING
      else vbm_status (the_bm s j)), vbm_seqno := x\<rparr>" for j
    unfolding t bm_write_state_def u_def [symmetric] xy by (intro exI [of _ "y j"]) (simp add: upd_bm_def reseq_def ub)
  then show "\<exists>x. the_bm t j = (the_bm s j)\<lparr>vbm_status := (if j = i then set_vhd_flag (set_vhd_flag (vbm_status (the_bm s i)) VHD_FLAG_BM_LOCKED) VHD_FLAG_BM_WRITE_PENDING
      else vbm_status (the_bm s j)), vbm_seqno := x\<rparr>" .
  have bf: "vbm_blk (the_bm t j) = vbm_blk (the_bm s j)" "vbm_map (the_bm t j) = vbm_map (the_bm s j)" "vbm_shadow (the_bm t j) = vbm_shadow (the_bm s j)"
    "vbm_tx (the_bm t j) = vbm_tx (the_bm s j)" "vbm_queue (the_bm t j) = vbm_queue (the_bm s j)" "vbm_waiting (the_bm t j) = vbm_waiting (the_bm s j)"
    "rd_pending (the_bm t j) = rd_pending (the_bm s j)" for j using bm [of j] by (auto split: if_splits)
  have bt: "bat_table t = bat_table s" by (simp add: bat_table_def vb)
  show fr: "same_frame s t" by (simp add: same_frame_def tv vb bt bf)
  show "same_lock s t" by (simp add: same_lock_def tv vb bt)
  show fl: "in_flight t = insert (Bm_req i) (in_flight s)" by (simp add: in_flight_def ta)
  have cc: "driver_cfg s" "cache_ok s" using C by (simp_all add: core_ok_def)
  have b: "unat (vbm_blk (the_bm s i)) < n_blocks s" using cc ins by (auto simp: cache_ok_def installed_cached)
  note F = same_frameD [OF fr]
  show "core_ok t G (insert (Bm_req i) Pd)"
  proof (rule core_bm [OF C fr])
    show "list_at t p = list_at s p" for p by (cases p) (simp_all add: bf)
    show "bmreq_ok t (insert (Bm_req i) Pd) i"
      using blk_start [OF cc(1) b] rd by (simp add: bmreq_ok_def Let_def tv F bf)
  qed (simp_all add: tv bf)
  show "steady s G t G" if n: "Bm_req i \<notin> in_flight s" and c: "core_ok s G Pd"
  proof -
    have "owed t G = owed s G" by (rule owed_data_cong) (auto simp: tv is_data_def)
    moreover have "parked t G = parked s G" by (rule parked_cong) (use c in \<open>auto simp: tv core_ok_def reqs_ok_def\<close>)
    moreover have "aio_ok t" if "aio_ok s" using that n by (auto simp: aio_ok_def ta tv in_flight_def bf)
    ultimately show ?thesis using same_disk_frame [OF fr] by (simp add: steady_def reported_def tv)
  qed
qed

lemma wp_schedule_settled:
  assumes O: "others_ok s G (in_flight s) i" and r: "resting s (in_flight s) i" and n: "n_pending G (in_flight s) i = 0"
    and tx: "tx_closed (vbm_tx (the_bm s i))" "tx_live (the_bm s i)" "tx_started (vbm_tx (the_bm s i)) = tx_finished (vbm_tx (the_bm s i))"
      "tx_started (vbm_tx (the_bm s i)) \<noteq> 0" "tx_error (vbm_tx (the_bm s i)) = 0" "\<not> tx_bat (the_bm s i)" and un: "\<not> unalloc s i"
    and Q: "\<And>t. semi t G (in_flight t) i \<Longrightarrow> steady s G t G \<Longrightarrow> (\<not> has_lock s i \<Longrightarrow> over t G (in_flight t) i) \<Longrightarrow>
      (bitmap_in_use (the_bm t i) \<longrightarrow> bitmap_locked (the_bm t i)) \<Longrightarrow> Q () t"
  shows "wp (schedule_bitmap_write (vbm_blk (the_bm s i))) Q E s"
proof -
  have C: "core_ok s G (in_flight s)" "driver_cfg s" "cache_ok s" using O by (simp_all add: others_ok_def core_ok_def)
  note r' = r [unfolded resting_def]
  show ?thesis
  proof (rule wp_schedule_bitmap_write [OF C(2,3)])
    fix off
    define t where "t = bm_write_state i off s"
    have ins: "installed s i" and rd: "\<not> rd_pending (the_bm s i)" using r' by blast+
    note W = bm_written [OF t_def C(1) ins rd]
    note F = same_frameD [OF W(2)] and V = same_lockD [OF W(3,2)]
    obtain x where bi: "the_bm t i = (the_bm s i)\<lparr>vbm_status := set_vhd_flag (set_vhd_flag (vbm_status (the_bm s i)) VHD_FLAG_BM_LOCKED) VHD_FLAG_BM_WRITE_PENDING, vbm_seqno := x\<rparr>"
      using W(1) [of i] by auto
    have bj: "bm_alike (the_bm t j) (the_bm s j)" if "j \<noteq> i" for j using W(1) [of j] that by (auto simp: bm_alike_def)
    have nB: "Bm_req i \<notin> in_flight s" using r' by blast
    have own: "g_own G (Bm_req i) = Idle" and L: "lists_ok s G" using C(1) by (simp_all add: core_ok_def reqs_ok_def)
    have nt: "n_pending G (in_flight t) i = 0"
    proof -
      have "Bm_req i \<notin> set (g_tx G i)" using listsD(3) [OF L, of "In_tx i"] own by simp
      then show ?thesis using n unfolding n_zero W(5) by auto
    qed
    have Ot: "others_ok t G (in_flight t) i" unfolding W(5) by (rule others_bm [OF O W(4,2,3) bj]) auto
    have nu: "\<not> unalloc t i" using un V by simp
    have it: "installed t i" using ins F by simp
    have iu: "bitmap_in_use (the_bm t i)" "bitmap_locked (the_bm t i)" by (simp_all add: bi bitmap_in_use_def bitmap_locked_def)
    have B: "bm_ok (prealloc t) False 0 False (unalloc t i) True (Bm_req i \<in> in_flight t) (n_pending G (in_flight t) i) (the_bm t i)"
    proof (rule bm_okI)
      show "bitmap_locked (the_bm t i)" if "bitmap_in_use (the_bm t i)" using iu by simp
    qed (use r' tx nu it nt in \<open>simp_all add: bi W(5) req_list_nil_def\<close>)
    have Br: "bm_ok (prealloc t) False 0 False (unalloc t i) True (Bm_req i \<in> in_flight t) (n_pending G (in_flight t) i) (relock (the_bm t i))"
      by (rule bm_okI) (use bm_okD [OF B] in simp_all)
    have ne: "bat_err t = 0" if "has_lock t i" using Ot that nu by (auto simp: others_ok_def lock_over_def)
    have "semi t G (in_flight t) i" using Ot it iu Br ne r' by (simp add: semi_def) (simp add: bi)
    moreover have "over t G (in_flight t) i" if "\<not> has_lock s i"
      using inv_unlocked [OF Ot] B it that V r' by (simp add: over_def) (simp add: bi)
    ultimately show "Q () (bm_write_state i off s)" using Q [of t] W(6) [OF nB C(1)] iu by (simp add: t_def)
  qed (use r' un in simp_all)
qed

end
