(* ===== verification/Block_Vhd_Commit.thy ===== *)
theory Block_Vhd_Commit
  imports Block_Vhd_Close
begin

text \<open>
  \<open>finish_data_transaction\<close> and \<open>finish_bitmap_transaction\<close> under the invariant: all writes of a transaction have
  come back, and its bitmap is written, waits for the table, or the transaction is over and the next begins.
\<close>

section \<open>Changes inside a transaction\<close>

lemma tx_changed:
  fixes s :: vhd_state and i :: nat
  assumes f: "\<And>x. tx_requests (f x) = tx_requests x"
  defines "t \<equiv> upd_tx i f s"
  shows "core_ok s G Pd \<Longrightarrow> core_ok t G Pd" "others_ok s G Pd i \<Longrightarrow> others_ok t G Pd i" "resting t Pd j = resting s Pd j" "steady s G t G" "in_flight t = in_flight s"
    "has_lock t j = has_lock s j" "unalloc t j = unalloc s j" "vs_flags t = vs_flags s" "the_bm t j = (if j = i then (the_bm s i)\<lparr>vbm_tx := f (vbm_tx (the_bm s i))\<rparr> else the_bm s j)"
    "vs_req t = vs_req s" "vs_bat t = vs_bat s" "installed t j = installed s j" "same_lock s t" "same_frame s t" "bat_locked t = bat_locked s"
proof -
  have tb: "the_bm t j = (if j = i then (the_bm s i)\<lparr>vbm_tx := f (vbm_tx (the_bm s i))\<rparr> else the_bm s j)" for j
    by (simp add: t_def upd_tx_def upd_bm_def)
  have tv: "vs_flags t = vs_flags s" "vs_vhd t = vs_vhd s" "vs_spb t = vs_spb s" "vs_spp t = vs_spp s" "vs_bm_secs t = vs_bm_secs s" "vs_zsize t = vs_zsize s"
    "vs_bat t = vs_bat s" "vs_bitmap t = vs_bitmap s" "vs_bitmap_free t = vs_bitmap_free s" "vs_vreq_free t = vs_vreq_free s" "vs_aio t = vs_aio s" "vs_out t = vs_out s"
    "vs_req t = vs_req s" by (simp_all add: t_def upd_tx_def upd_bm_def)
  have bt: "bat_table t = bat_table s" by (simp add: bat_table_def tv)
  show fr: "same_frame s t" by (simp add: same_frame_def tv tb bt)
  show lk: "same_lock s t" by (simp add: same_lock_def tv bt)
  note F = same_frameD [OF fr] and V = same_lockD [OF lk fr]
  show "the_bm t j = (if j = i then (the_bm s i)\<lparr>vbm_tx := f (vbm_tx (the_bm s i))\<rparr> else the_bm s j)" by (rule tb)
  show "vs_flags t = vs_flags s" "vs_req t = vs_req s" "vs_bat t = vs_bat s" "installed t j = installed s j" "has_lock t j = has_lock s j" "unalloc t j = unalloc s j"
    "bat_locked t = bat_locked s"
    using V F tv by simp_all
  show fl: "in_flight t = in_flight s" by (simp add: in_flight_def tv)
  show c: "core_ok t G Pd" if "core_ok s G Pd" by (subst core_cong [of t s]) (use that f in \<open>simp_all add: tv tb bt\<close>)
  show "others_ok t G Pd i" if o: "others_ok s G Pd i"
    by (rule others_frame [OF o c fr lk]) (use o in \<open>simp_all add: others_ok_def tb\<close>)
  show "resting t Pd j = resting s Pd j" by (simp add: resting_def F tb)
  have "owed t G = owed s G" by (rule owed_data_cong) (simp add: tv)
  moreover have "parked t G = parked s G" by (rule parked_cong) (simp_all add: tv)
  moreover have "rd_pending (the_bm t j) = rd_pending (the_bm s j)" for j by (simp add: tb)
  ultimately show "steady s G t G" by (intro steadyI(1) same_disk_frame [OF fr]) (simp_all add: reported_def tv)
qed

section \<open>A transaction ends at once\<close>

text \<open>All requests of the next transaction had finished before it began.\<close>

lemma wp_nested:
  assumes B: "begun s G (in_flight s) i" and n: "n_pending G (in_flight s) i = 0"
  shows "wp (finish_data_with (finish_bitmap_transaction (Suc k)) i) (\<lambda>_ u. \<exists>G'. semi u G' (in_flight u) i \<and> steady s G u G') E s"
proof -
  let ?f = "\<lambda>t. t\<lparr>tx_closed := True\<rparr>"
  define u where "u = upd_tx i ?f s"
  have refl_f: "tx_requests (?f x) = tx_requests x" for x by simp
  note T = tx_changed [where f = ?f and s = s and i = i, OF refl_f, folded u_def]
  note B' = B [unfolded begun_def Let_def]
  have O: "others_ok u G (in_flight u) i" and r: "resting u (in_flight u) i" and l: "bitmap_locked (the_bm u i)"
    using B' T(2,3,5) by (simp_all add: T(9) bitmap_locked_def)
  have n': "n_pending G (in_flight u) i = 0" using n T(5) by simp
  have b: "the_bm u i = (the_bm s i)\<lparr>vbm_tx := ?f (vbm_tx (the_bm s i))\<rparr>" by (simp add: T(9))
  have st: "tx_started (vbm_tx (the_bm s i)) = tx_finished (vbm_tx (the_bm s i))" using B' n by simp
  show ?thesis
  proof (cases "tx_error (vbm_tx (the_bm s i)) = 0")
    case True
    have "wp (schedule_bitmap_write (vbm_blk (the_bm u i))) (\<lambda>_ u. \<exists>G'. semi u G' (in_flight u) i \<and> steady s G u G') E u"
    proof (rule wp_schedule_settled [OF O r n'])
      show "\<not> unalloc u i" using B' True by (auto simp: T(7))
      show "\<exists>G'. semi t G' (in_flight t) i \<and> steady s G t G'" if "semi t G (in_flight t) i" "steady u G t G" for t
        using that steady_trans [OF T(4)] by blast
    qed (use B' True st in \<open>simp_all add: b\<close>)
    then show ?thesis using True by (simp add: finish_data_with_def wps u_def [symmetric] b)
  next
    case False
    let ?g = "\<lambda>t. t\<lparr>tx_error := (if tx_error t \<noteq> 0 then tx_error t else 0)\<rparr>"
    define v where "v = upd_tx i ?g u"
    have refl_g: "tx_requests (?g x) = tx_requests x" for x by simp
    note S = tx_changed [where f = ?g and s = u and i = i, OF refl_g, folded v_def]
    have vb: "the_bm v i = (the_bm s i)\<lparr>vbm_tx := ?g (?f (vbm_tx (the_bm s i)))\<rparr>" by (simp add: S(9) b)
    have "wp (end_transaction (finish_data_with (finish_bitmap_transaction k)) i) (\<lambda>_ u. \<exists>G'. semi u G' (in_flight u) i \<and> steady s G u G') E v"
    proof (rule wp_end_transaction [where G = G])
      show "others_ok v G (in_flight v) i" "resting v (in_flight v) i" "bitmap_locked (the_bm v i)"
        using O r l S(2,3,5) by (simp_all add: vb b bitmap_locked_def)
      show "r \<notin> in_flight v" if "r \<in> set (g_tx G i)" for r using n' that S(5) by (simp add: n_zero)
      have q: "g_list G (In_queue i) = []" using B' by simp
      then show "wp (finish_data_with (finish_bitmap_transaction k) i) (\<lambda>_ u. \<exists>G''. semi u G'' (in_flight u) i \<and> steady t G' u G'') E t"
        if "g_list G (In_queue i) \<noteq> []" for t G' using that by simp
      show "\<exists>G'. semi t G' (in_flight t) i \<and> steady s G t G'"
        if "over t G' (in_flight t) i" "steady v G t G'" "g_list G (In_queue i) = [] \<Longrightarrow> \<not> has_lock t i" for t G'
        using semi_inv [of t G' "in_flight t" i] that q steady_trans [OF steady_trans [OF T(4) S(4)]] by (auto simp: over_def)
    qed
    moreover have "\<not> waits_for_bat v i" using B' by (simp add: waits_for_bat_def vb)
    moreover have "finish_bitmap_transaction (Suc k) i 0 = vthen (vmodify (upd_tx i ?g)) (vget (\<lambda>s. if waits_for_bat s i then
            vthen (vassert (vbm_blk (the_bm s i) = vb_pbw_blk (vs_bat s)))
              (vthen (vassert (test_vhd_flag (vb_status (vs_bat s)) VHD_FLAG_BAT_WRITE_STARTED))
                (vmodify (upd_req Bat_req (\<lambda>q. q\<lparr>vr_tx := Some i\<rparr>))))
          else end_transaction (finish_data_with (finish_bitmap_transaction k)) i))" by simp
    ultimately have "wp (finish_bitmap_transaction (Suc k) i 0) (\<lambda>_ u. \<exists>G'. semi u G' (in_flight u) i \<and> steady s G u G') E u"
      by (simp only: wps v_def [symmetric] if_False)
    then show ?thesis using False by (simp add: finish_data_with_def wps u_def [symmetric] b)
  qed
qed

section \<open>The end of a transaction after the table was written\<close>

lemma wp_fbt:
  assumes O: "others_ok s G (in_flight s) i" and r: "resting s (in_flight s) i" and lkd: "bitmap_locked (the_bm s i)"
    and d: "n_pending G (in_flight s) i = 0" and nb: "\<not> tx_bat (the_bm s i)"
    and Q: "\<And>t G'. over t G' (in_flight t) i \<Longrightarrow> steady s G t G' \<Longrightarrow> Q () t"
  shows "wp (finish_bitmap_transaction (Suc (Suc k)) i e) Q E s"
proof -
  let ?g = "\<lambda>t. t\<lparr>tx_error := (if tx_error t \<noteq> 0 then tx_error t else e)\<rparr>"
  define v where "v = upd_tx i ?g s"
  have refl_g: "tx_requests (?g x) = tx_requests x" for x by simp
  note S = tx_changed [where f = ?g and s = s and i = i, OF refl_g, folded v_def]
  have vb: "the_bm v i = (the_bm s i)\<lparr>vbm_tx := ?g (vbm_tx (the_bm s i))\<rparr>" by (simp add: S(9))
  have "wp (end_transaction (finish_data_with (finish_bitmap_transaction (Suc k))) i) Q E v"
  proof (rule wp_end_transaction [where G = G])
    show "others_ok v G (in_flight v) i" "resting v (in_flight v) i" "bitmap_locked (the_bm v i)"
      using O r lkd S(2,3,5) by (simp_all add: vb bitmap_locked_def)
    show "r \<notin> in_flight v" if "r \<in> set (g_tx G i)" for r using d that S(5) by (simp add: n_zero)
    show "wp (finish_data_with (finish_bitmap_transaction (Suc k)) i) (\<lambda>_ u. \<exists>G''. semi u G'' (in_flight u) i \<and> steady t G' u G'') E t"
      if "begun t G' (in_flight t) i" "n_pending G' (in_flight t) i = 0" for t G' by (rule wp_nested [OF that])
    show "Q () t" if "over t G' (in_flight t) i" "steady v G t G'" for t G'
      using Q [OF that(1)] steady_trans [OF S(4) that(2)] by simp
  qed
  moreover have "\<not> waits_for_bat v i" using nb by (simp add: waits_for_bat_def vb)
  ultimately show ?thesis by (subst finish_bitmap_transaction.simps) (simp only: wps v_def [symmetric] if_False)
qed

text \<open>All writes of the transaction have come back: either the bitmap is written, or, after an error, the
  transaction is over.\<close>

lemma wp_finish_data_over:
  assumes O: "others_ok s G (in_flight s) i" and r: "resting s (in_flight s) i" and lkd: "bitmap_locked (the_bm s i)"
    and n: "n_pending G (in_flight s) i = 0" and nb: "\<not> tx_bat (the_bm s i)" and live: "tx_live (the_bm s i)"
    and st: "tx_started (vbm_tx (the_bm s i)) = tx_finished (vbm_tx (the_bm s i))" "tx_started (vbm_tx (the_bm s i)) \<noteq> 0"
    and un: "unalloc s i \<Longrightarrow> tx_error (vbm_tx (the_bm s i)) \<noteq> 0"
    and Q: "\<And>t G'. over t G' (in_flight t) i \<or> has_lock s i \<and> tx_error (vbm_tx (the_bm s i)) = 0 \<and> semi t G' (in_flight t) i \<and>
      (bitmap_in_use (the_bm t i) \<longrightarrow> bitmap_locked (the_bm t i)) \<Longrightarrow> steady s G t G' \<Longrightarrow> Q () t"
  shows "wp (finish_data_with (finish_bitmap_transaction (Suc (Suc k))) i) Q E s"
proof -
  let ?f = "\<lambda>t. t\<lparr>tx_closed := True\<rparr>"
  define u where "u = upd_tx i ?f s"
  have refl_f: "tx_requests (?f x) = tx_requests x" for x by simp
  note T = tx_changed [where f = ?f and s = s and i = i, OF refl_f, folded u_def]
  have b: "the_bm u i = (the_bm s i)\<lparr>vbm_tx := ?f (vbm_tx (the_bm s i))\<rparr>" by (simp add: T(9))
  have Ou: "others_ok u G (in_flight u) i" and ru: "resting u (in_flight u) i" and lu: "bitmap_locked (the_bm u i)"
    using O r lkd T(2,3,5) by (simp_all add: b bitmap_locked_def)
  have nu: "n_pending G (in_flight u) i = 0" using n T(5) by simp
  show ?thesis
  proof (cases "tx_error (vbm_tx (the_bm s i)) = 0")
    case True
    have "wp (schedule_bitmap_write (vbm_blk (the_bm u i))) Q E u"
    proof (rule wp_schedule_settled [OF Ou ru nu])
      show "\<not> unalloc u i" using un True by (auto simp: T(7))
      show "Q () t" if "semi t G (in_flight t) i" "steady u G t G" "\<not> has_lock u i \<Longrightarrow> over t G (in_flight t) i"
        "bitmap_in_use (the_bm t i) \<longrightarrow> bitmap_locked (the_bm t i)" for t
        using that steady_trans [OF T(4) that(2)] True T(6) [of i] by (intro Q [of t G]) blast+
    qed (use live nb True st in \<open>simp_all add: b\<close>)
    then show ?thesis using True by (simp add: finish_data_with_def wps u_def [symmetric] b)
  next
    case False
    have "wp (finish_bitmap_transaction (Suc (Suc k)) i 0) Q E u"
    proof (rule wp_fbt [OF Ou ru lu nu])
      show "\<not> tx_bat (the_bm u i)" using nb by (simp add: b)
      show "Q () t" if "over t G' (in_flight t) i" "steady u G t G'" for t G'
        by (rule Q [OF disjI1 [OF that(1)] steady_trans [OF T(4) that(2)]])
    qed
    then show ?thesis using False by (simp add: finish_data_with_def wps u_def [symmetric] b)
  qed
qed

section \<open>The end of a transaction before the table is written\<close>

text \<open>The write of the table is under way and ends the transaction of bitmap \<open>i\<close>.\<close>

definition bat_writing :: "vhd_state \<Rightarrow> ghost \<Rightarrow> rid set \<Rightarrow> nat \<Rightarrow> bool" where
  "bat_writing s G Pd i \<longleftrightarrow> core_ok s G Pd \<and> (\<forall>j. j \<noteq> i \<longrightarrow> bitmap_ok s G Pd j) \<and> has_lock s i \<and> unalloc s i \<and> \<not> prealloc s \<and> bat_started s \<and>
     Zero_req \<notin> Pd \<and> Bat_req \<in> Pd \<and> bat_err s = 0 \<and> bitmap_locked (the_bm s i) \<and> n_pending G Pd i = 0 \<and> vbm_waiting (the_bm s i) = req_list_nil \<and>
     \<not> rd_pending (the_bm s i) \<and> (wr_pending (the_bm s i) \<longleftrightarrow> Bm_req i \<in> Pd) \<and> tx_live (the_bm s i) \<and> tx_bat (the_bm s i) \<and>
     (let tx = vbm_tx (the_bm s i) in tx_started tx = tx_finished tx \<and> tx_started tx \<noteq> 0 \<and> (tx_error tx \<noteq> 0 \<longrightarrow> \<not> wr_pending (the_bm s i)))"

lemma inv_bat_writing:
  assumes B: "bat_writing s G Pd i" and c: "tx_closed (vbm_tx (the_bm s i))" and t: "bat_tx s = (if wr_pending (the_bm s i) then None else Some i)"
  shows "inv s G Pd"
proof -
  note B' = B [unfolded bat_writing_def Let_def]
  have ins: "installed s i" using B' by (simp add: has_lock_def)
  have iu: "bitmap_in_use (the_bm s i)" using B' by (simp add: bitmap_in_use_def)
  have "bitmap_ok s G Pd i" unfolding bitmap_ok_def
  proof (rule bm_okI)
    show "bitmap_locked (the_bm s i)" if "bitmap_in_use (the_bm s i)" using B' iu by simp
  qed (use B' ins c t in \<open>auto simp: req_list_nil_def\<close>)
  then have "\<forall>j. bitmap_ok s G Pd j" using B' by metis
  moreover have "alloc_phase s G Pd i" using B' c t by (simp add: alloc_phase_def Let_def)
  then have "bat_ok s G Pd" using B' by (auto simp: bat_ok_def has_lock_def intro!: exI [of _ i])
  ultimately show ?thesis using B' by (simp add: inv_def)
qed

lemma bat_writing_tx:
  assumes B: "bat_writing s G (in_flight s) i" and f: "\<And>x. tx_requests (f x) = tx_requests x" "\<And>x. tx_status (f x) = tx_status x"
    "\<And>x. tx_started (f x) = tx_started x" "\<And>x. tx_finished (f x) = tx_finished x" "tx_error (f (vbm_tx (the_bm s i))) \<noteq> 0 \<Longrightarrow> \<not> wr_pending (the_bm s i)"
  shows "bat_writing (upd_tx i f s) G (in_flight (upd_tx i f s)) i"
proof -
  define t where "t = upd_tx i f s"
  note T = tx_changed [where f = f and s = s and i = i, OF f(1), folded t_def]
  note V = same_lockD [OF T(13,14)] and F = same_frameD [OF T(14)]
  note B' = B [unfolded bat_writing_def Let_def]
  have "bitmap_ok t G (in_flight s) j" if "j \<noteq> i" for j
    by (rule bitmap_ok_frame [of s G "in_flight s" j]) (use B' that in \<open>simp_all add: T V F\<close>)
  then show ?thesis unfolding t_def [symmetric] T(5) bat_writing_def Let_def
    using B' T(1) f(5) by (simp add: V F f(2-4) T(9) bitmap_locked_def)
qed

lemma wp_fbt_wait:
  assumes B: "bat_writing s G (in_flight s) i" and w: "\<not> wr_pending (the_bm s i)" and c: "tx_closed (vbm_tx (the_bm s i))"
    and Q: "\<And>t. inv t G (in_flight t) \<Longrightarrow> steady s G t G \<Longrightarrow> Q () t"
  shows "wp (finish_bitmap_transaction (Suc k) i e) Q E s"
proof -
  let ?g = "\<lambda>t. t\<lparr>tx_error := (if tx_error t \<noteq> 0 then tx_error t else e)\<rparr>"
  define v where "v = upd_tx i ?g s"
  have refl_g: "tx_requests (?g x) = tx_requests x" for x by simp
  note S = tx_changed [where f = ?g and s = s and i = i, OF refl_g, folded v_def]
  have vb: "the_bm v i = (the_bm s i)\<lparr>vbm_tx := ?g (vbm_tx (the_bm s i))\<rparr>" by (simp add: S(9))
  have B1: "bat_writing v G (in_flight v) i" unfolding v_def by (rule bat_writing_tx [OF B]) (use w in simp_all)
  note B' = B1 [unfolded bat_writing_def Let_def]
  define t where "t = upd_req Bat_req (\<lambda>q. q\<lparr>vr_tx := Some i\<rparr>) v"
  have tv: "vs_flags t = vs_flags v" "vs_vhd t = vs_vhd v" "vs_spb t = vs_spb v" "vs_spp t = vs_spp v" "vs_bm_secs t = vs_bm_secs v" "vs_zsize t = vs_zsize v"
    "vs_bat t = vs_bat v" "vs_bitmap t = vs_bitmap v" "vs_bitmap_free t = vs_bitmap_free v" "vs_vreq_free t = vs_vreq_free v" "vs_aio t = vs_aio v" "vs_out t = vs_out v"
    "the_bm t = the_bm v" "vs_req t = (vs_req v)(Bat_req := (vs_req v Bat_req)\<lparr>vr_tx := Some i\<rparr>)" by (simp_all add: t_def upd_req_def)
  have bt: "bat_table t = bat_table v" by (simp add: bat_table_def tv)
  have fr: "same_frame v t" by (simp add: same_frame_def tv bt)
  note F = same_frameD [OF fr]
  have hl: "has_lock t j = has_lock v j" "unalloc t j = unalloc v j" for j using has_lock_frame [OF fr] unalloc_frame [OF fr bt] by (simp_all add: tv)
  have cv: "core_ok v G (in_flight v)" "reqs_ok v G (in_flight v)" "lists_ok v G" "pool_ok v G" "cache_ok v" using B' by (simp_all add: core_ok_def)
  have fl: "in_flight t = in_flight v" by (simp add: in_flight_def tv)
  have C: "core_ok t G (in_flight v)"
  proof (rule core_move [of v G "in_flight v" t Bat_req G "g_own G Bat_req"])
    have l: "list_at t p = list_at v p" for p by (cases p) (simp_all add: tv)
    have n: "nexts t r = nexts v r" for r by (simp add: tv)
    then show "lists_ok t G" using cv(3) l by (simp add: lists_ok_def)
    show "pool_ok t G" using cv(4) by (simp add: pool_ok_def tv)
    show "is_data Bat_req \<and> dreq_ok t G (in_flight v) Bat_req \<or> Bat_req = Zero_req \<and> zero_ok t G (in_flight v) \<or>
        Bat_req = Bat_req \<and> batreq_ok t G (in_flight v)"
      using cv(2) B' by (simp add: reqs_ok_def batreq_ok_def Let_def tv)
  qed (simp_all add: cv fr req_frame_def tv)
  have "bitmap_ok t G (in_flight v) j" if "j \<noteq> i" for j
  proof -
    have "\<not> has_lock v j" using has_lock_unique [OF cv(5)] B' that by blast
    then show ?thesis by - (rule bitmap_ok_frame [of v G "in_flight v" j], use B' that in \<open>simp_all add: tv hl F\<close>)
  qed
  then have "bat_writing t G (in_flight t) i" unfolding fl bat_writing_def Let_def using B' C by (simp add: hl F tv) blast
  then have "inv t G (in_flight t)" by (rule inv_bat_writing) (use w c in \<open>simp_all add: tv vb\<close>)
  moreover have "steady s G t G"
  proof -
    have "owed t G = owed v G" by (rule owed_data_cong) (auto simp: tv is_data_def)
    moreover have "parked t G = parked v G" by (rule parked_cong) (use cv(2) B' in \<open>auto simp: tv reqs_ok_def batreq_ok_def Let_def\<close>)
    ultimately have "steady v G t G" by (intro steadyI(1) same_disk_frame [OF fr]) (simp_all add: reported_def tv)
    then show ?thesis by (rule steady_trans [OF S(4)])
  qed
  ultimately have "Q () t" by (rule Q)
  moreover have "waits_for_bat v i" using B' by (simp add: waits_for_bat_def)
  moreover have "vbm_blk (the_bm v i) = vb_pbw_blk (vs_bat v)" using B' by (simp add: has_lock_def)
  ultimately show ?thesis using B' by (simp add: wps v_def [symmetric] t_def)
qed

lemma n_pending_0_own:
  assumes "lists_ok s G" and "n_pending G Pd i = 0" and "g_own G r = In_tx i"
  shows "r \<notin> Pd"
  using assms listsD(3) [OF assms(1), of "In_tx i" r] by (simp add: n_zero)

lemma wp_finish_data_wait:
  assumes B: "bat_writing s G (in_flight s) i" and w: "\<not> wr_pending (the_bm s i)" and t: "bat_tx s = None"
    and Q: "\<And>t. inv t G (in_flight t) \<Longrightarrow> steady s G t G \<Longrightarrow> Q () t"
  shows "wp (finish_data_with (finish_bitmap_transaction (Suc k)) i) Q E s"
proof -
  let ?f = "\<lambda>t. t\<lparr>tx_closed := True\<rparr>"
  define u where "u = upd_tx i ?f s"
  have refl_f: "tx_requests (?f x) = tx_requests x" for x by simp
  note T = tx_changed [where f = ?f and s = s and i = i, OF refl_f, folded u_def]
  have b: "the_bm u i = (the_bm s i)\<lparr>vbm_tx := ?f (vbm_tx (the_bm s i))\<rparr>" by (simp add: T(9))
  have Bu: "bat_writing u G (in_flight u) i" unfolding u_def by (rule bat_writing_tx [OF B]) (use w in simp_all)
  note B' = Bu [unfolded bat_writing_def Let_def]
  have C: "core_ok u G (in_flight u)" "driver_cfg u" "cache_ok u" "lists_ok u G" using B' by (simp_all add: core_ok_def)
  have ins: "installed u i" and rd: "\<not> rd_pending (the_bm u i)" using B' by (simp_all add: has_lock_def)
  have wu: "\<not> wr_pending (the_bm u i)" using w by (simp add: b)
  show ?thesis
  proof (cases "tx_error (vbm_tx (the_bm s i)) = 0")
    case True
    have "wp (schedule_bitmap_write (vbm_blk (the_bm u i))) Q E u"
    proof (rule wp_schedule_bitmap_write [OF C(2,3) ins rd wu])
      show "has_lock u i" using B' by blast
      fix off
      define v where "v = bm_write_state i off u"
      note W = bm_written [OF v_def C(1) ins rd]
      note F = same_frameD [OF W(2)] and V = same_lockD [OF W(3,2)]
      obtain x where bi: "the_bm v i = (the_bm u i)\<lparr>vbm_status := set_vhd_flag (set_vhd_flag (vbm_status (the_bm u i)) VHD_FLAG_BM_LOCKED) VHD_FLAG_BM_WRITE_PENDING, vbm_seqno := x\<rparr>"
        using W(1) [of i] by auto
      have bj: "bm_alike (the_bm v j) (the_bm u j)" if "j \<noteq> i" for j using W(1) [of j] that by (auto simp: bm_alike_def)
      have nB: "Bm_req i \<notin> in_flight u" using B' wu by simp
      have own: "g_own G (Bm_req i) = Idle" using C(1) by (simp add: core_ok_def reqs_ok_def)
      have nt: "n_pending G (in_flight v) j = n_pending G (in_flight u) j" for j
      proof -
        have "Bm_req i \<notin> set (g_tx G j)" using listsD(3) [OF C(4), of "In_tx j"] own by simp
        then have "filter (\<lambda>r. r \<in> in_flight v) (g_tx G j) = filter (\<lambda>r. r \<in> in_flight u) (g_tx G j)"
          by (intro filter_cong refl) (metis W(5) insert_iff)
        then show ?thesis by (simp add: n_pending_def)
      qed
      have "bitmap_ok v G (in_flight v) j" if j: "j \<noteq> i" for j
        by (rule bitmap_ok_frame [of u G "in_flight u" j]) (use B' j in \<open>simp_all add: bj [OF j] V F nt, simp add: W(5)\<close>)
      then have "bat_writing v G (in_flight v) i" unfolding bat_writing_def Let_def
        using B' W(4) True nt [of i] by (simp add: V F W(5) bi b bitmap_locked_def)
      then have "inv v G (in_flight v)"
      proof (rule inv_bat_writing)
        show "tx_closed (vbm_tx (the_bm v i))" by (simp add: bi b)
        show "bat_tx v = (if wr_pending (the_bm v i) then None else Some i)" using t by (simp add: V bi T(10))
      qed
      then have "Q () v" by (rule Q) (rule steady_trans [OF T(4) W(6) [OF nB C(1)]])
      then show "Q () (bm_write_state i off u)" by (simp add: v_def)
    qed
    then show ?thesis using True by (simp add: finish_data_with_def wps u_def [symmetric] b)
  next
    case False
    have "wp (finish_bitmap_transaction (Suc k) i 0) Q E u"
    proof (rule wp_fbt_wait [OF Bu wu])
      show "tx_closed (vbm_tx (the_bm u i))" by (simp add: b)
      show "Q () v" if "inv v G (in_flight v)" "steady u G v G" for v by (rule Q [OF that(1) steady_trans [OF T(4) that(2)]])
    qed
    then show ?thesis using False by (simp add: finish_data_with_def wps u_def [symmetric] b)
  qed
qed

section \<open>The last write of a transaction\<close>

definition drained :: "vhd_state \<Rightarrow> ghost \<Rightarrow> rid set \<Rightarrow> nat \<Rightarrow> bool" where
  "drained s G Pd i \<longleftrightarrow> core_ok s G Pd \<and> (\<forall>j. j \<noteq> i \<longrightarrow> bitmap_ok s G Pd j) \<and> bat_ok s G Pd \<and> resting s Pd i \<and> bitmap_locked (the_bm s i) \<and>
     n_pending G Pd i = 0 \<and> tx_live (the_bm s i) \<and> (tx_bat (the_bm s i) \<longrightarrow> has_lock s i \<and> \<not> prealloc s) \<and>
     (let tx = vbm_tx (the_bm s i) in tx_started tx = tx_finished tx \<and> tx_started tx \<noteq> 0 \<and>
       (tx_error tx = 0 \<longrightarrow> unalloc s i \<longrightarrow> has_lock s i) \<and> (tx_closed tx \<longrightarrow> has_lock s i \<and> bat_err s \<noteq> 0))"

lemma wp_finish_data:
  assumes D: "drained s G (in_flight s) i" and Q: "\<And>t G'. inv t G' (in_flight t) \<Longrightarrow> steady s G t G' \<Longrightarrow> Q () t"
  shows "wp (finish_data_transaction i) Q E s"
proof -
  note D' = D [unfolded drained_def Let_def]
  have C: "core_ok s G (in_flight s)" "lists_ok s G" "cache_ok s" using D' by (simp_all add: core_ok_def)
  have L: "wp (finish_data_with (finish_bitmap_transaction (Suc (Suc 0))) i) Q E s"
    if l: "lock_over s G (in_flight s) i" "\<not> tx_bat (the_bm s i)" "unalloc s i \<Longrightarrow> tx_error (vbm_tx (the_bm s i)) \<noteq> 0"
      "has_lock s i \<Longrightarrow> tx_error (vbm_tx (the_bm s i)) \<noteq> 0"
  proof (rule wp_finish_data_over)
    show "others_ok s G (in_flight s) i" using D' l by (simp add: others_ok_def)
    show "Q () t" if "over t G' (in_flight t) i \<or> has_lock s i \<and> tx_error (vbm_tx (the_bm s i)) = 0 \<and> semi t G' (in_flight t) i \<and>
      (bitmap_in_use (the_bm t i) \<longrightarrow> bitmap_locked (the_bm t i))" "steady s G t G'" for t G'
      using that l(4) Q [of t G'] by (auto simp: over_def)
  qed (use D' l in simp_all)
  show ?thesis
  proof (cases "has_lock s i")
    case False
    then show ?thesis unfolding finish_data_transaction_def TX_DEPTH_def numeral_2_eq_2
      using D' by (intro L) (auto simp: lock_over_def)
  next
    case True
    then have "bat_locked s" by (simp add: has_lock_def)
    then obtain j where j: "has_lock s j" "unalloc s j" "alloc_phase s G (in_flight s) j" using D' by (auto simp: bat_ok_def)
    have "j = i" by (rule has_lock_unique [OF C(3) j(1) True])
    then have ph: "unalloc s i" "alloc_phase s G (in_flight s) i" using j by simp_all
    have nz: "\<not> (Zero_req \<in> in_flight s \<and> g_own G Zero_req = In_tx i)" "\<not> (Bat_req \<in> in_flight s \<and> g_own G Bat_req = In_tx i)"
      using n_pending_0_own [OF C(2)] D' by blast+
    consider (fail) "Zero_req \<notin> in_flight s" "bat_started s" "Bat_req \<notin> in_flight s" "bat_err s \<noteq> 0" "tx_error (vbm_tx (the_bm s i)) \<noteq> 0" "\<not> tx_bat (the_bm s i)"
      | (table) "\<not> prealloc s" "bat_started s" "Zero_req \<notin> in_flight s" "Bat_req \<in> in_flight s" "tx_bat (the_bm s i)" "bat_err s = 0" "bat_tx s = None \<or> bat_tx s = Some i"
        "bat_tx s = Some i \<longleftrightarrow> tx_closed (vbm_tx (the_bm s i)) \<and> tx_started (vbm_tx (the_bm s i)) = tx_finished (vbm_tx (the_bm s i)) \<and> \<not> wr_pending (the_bm s i)"
    proof (cases "prealloc s")
      case True
      have fr: "Zero_req \<notin> in_flight s" "bat_started s" "Bat_req \<notin> in_flight s" "bat_err s \<noteq> 0" "tx_error (vbm_tx (the_bm s i)) \<noteq> 0"
        using ph(2) nz True by (auto simp: alloc_phase_def Let_def)
      have "\<not> tx_bat (the_bm s i)" using D' True by blast
      with fr show thesis by (rule that(1))
    next
      case False
      then show thesis using ph(2) nz(1) that by (simp add: alloc_phase_def Let_def) blast
    qed
    then show ?thesis
    proof cases
      case fail
      then show ?thesis unfolding finish_data_transaction_def TX_DEPTH_def numeral_2_eq_2
        using True ph by (intro L) (simp_all add: lock_over_def)
    next
      case table
      have "\<not> tx_closed (vbm_tx (the_bm s i))" using D' table(6) by blast
      then have tn: "bat_tx s = None" using table(7,8) by blast
      have r: "Bm_req i \<notin> in_flight s" "\<not> rd_pending (the_bm s i)" "\<not> wr_pending (the_bm s i)" "vbm_waiting (the_bm s i) = req_list_nil"
        using D' by (simp_all add: resting_def)
      have "bat_writing s G (in_flight s) i" unfolding bat_writing_def Let_def
        using D' table r True ph by simp
      then show ?thesis unfolding finish_data_transaction_def TX_DEPTH_def numeral_2_eq_2
        by (rule wp_finish_data_wait [OF _ r(3) tn]) (rule Q)
    qed
  qed
qed

end
