(* ===== verification/Block_Vhd_Return.thy ===== *)
theory Block_Vhd_Return
  imports Block_Vhd_Commit
begin

text \<open>
  A call of the kernel comes back: the completions of a data request, wherever the request is, and of a
  written bitmap. \<open>finishes D A m s\<close> says that the handler \<open>m\<close> run in \<open>s\<close> does not fail, keeps the invariant and
  leaves the account at \<open>A\<close>.
\<close>

section \<open>A call has come back\<close>

lemma core_err:
  assumes C: "core_ok s G Pd" and r: "r \<in> Pd"
  shows "core_ok (upd_req r (\<lambda>q. q\<lparr>vr_error := e\<rparr>) s) G Pd" (is "core_ok ?t G Pd")
proof -
  have C': "driver_cfg s" "cache_ok s" "reqs_ok s G Pd" "lists_ok s G" "pool_ok s G" using C by (simp_all add: core_ok_def)
  have fr: "same_frame s ?t" by (simp add: same_frame_def upd_req_def bat_table_def)
  note F = same_frameD [OF fr]
  have q: "vr_op (vs_req ?t q) = vr_op (vs_req s q)" "vr_flags (vs_req ?t q) = vr_flags (vs_req s q)" "vr_treq (vs_req ?t q) = vr_treq (vs_req s q)"
    "vr_tx (vs_req ?t q) = vr_tx (vs_req s q)" "vr_next (vs_req ?t q) = vr_next (vs_req s q)" "q \<noteq> r \<Longrightarrow> vs_req ?t q = vs_req s q" "the_bm ?t = the_bm s" for q
    by (simp_all add: upd_req_def)
  have "tx_write ?t Pd i q = tx_write s Pd i q" for i q by (simp add: tx_write_def q F Let_def)
  then have "dreq_ok ?t G Pd q" if "dreq_ok s G Pd q" for q
    using that r by (cases "q = r") (auto simp: dreq_ok_def q F Let_def cong: place.case_cong split: place.splits)
  moreover have "zero_ok ?t G Pd = zero_ok s G Pd" "batreq_ok ?t G Pd = batreq_ok s G Pd" "bmreq_ok ?t Pd i = bmreq_ok s Pd i" for i
    by (simp_all add: zero_ok_def batreq_ok_def bmreq_ok_def q F Let_def)
  ultimately have "reqs_ok ?t G Pd" using C'(3) by (simp add: reqs_ok_def)
  moreover have "list_at ?t p = list_at s p" for p by (cases p) (simp_all add: q)
  then have "lists_ok ?t G" using C'(4) q(5) by (simp add: lists_ok_def)
  moreover have "pool_ok ?t G" using C'(5) by (simp add: pool_ok_def upd_req_def)
  ultimately show ?thesis using C'(1,2) by (simp add: core_ok_def F)
qed

lemma inv_err:
  assumes I: "inv s G Pd" and r: "r \<in> Pd" "r \<noteq> Bat_req"
  shows "inv (upd_req r (\<lambda>q. q\<lparr>vr_error := e\<rparr>) s) G Pd" (is "inv ?t G Pd")
proof -
  have fr: "same_frame s ?t" by (simp add: same_frame_def upd_req_def bat_table_def)
  have v: "vs_bat ?t = vs_bat s" "the_bm ?t = the_bm s" "vs_req ?t Bat_req = vs_req s Bat_req" "bat_table ?t = bat_table s" using r(2) by (simp_all add: upd_req_def bat_table_def)
  have hl: "has_lock ?t j = has_lock s j" "unalloc ?t j = unalloc s j" for j
    using has_lock_frame [OF fr] unalloc_frame [OF fr v(4)] v(1) by simp_all
  have "bitmap_ok ?t G Pd j" for j
    by (rule bitmap_ok_frame [OF invD(2) [OF I]]) (simp_all add: v hl same_frameD [OF fr])
  moreover have "bat_ok ?t G Pd" by (rule bat_ok_frame [OF invD(3) [OF I] _ _ _ _ refl refl refl refl fr]) (simp_all add: v hl)
  ultimately show ?thesis using core_err [OF invD(1) [OF I] r(1)] by (simp add: inv_def)
qed

definition answered :: "rid \<Rightarrow> int \<Rightarrow> vhd_state \<Rightarrow> vhd_state" where
  "answered r e s = upd_req r (\<lambda>q. q\<lparr>vr_error := e\<rparr>) (s\<lparr>vs_completed := vs_completed s + 1\<rparr>)"

lemma answered_simps [simp]:
  "vs_flags (answered r e s) = vs_flags s" "vs_vhd (answered r e s) = vs_vhd s" "vs_spp (answered r e s) = vs_spp s" "vs_spb (answered r e s) = vs_spb s"
  "vs_bat (answered r e s) = vs_bat s" "vs_bm_secs (answered r e s) = vs_bm_secs s" "vs_bitmap (answered r e s) = vs_bitmap s"
  "vs_bitmap_free (answered r e s) = vs_bitmap_free s" "vs_bitmap_list (answered r e s) = vs_bitmap_list s" "vs_vreq_free (answered r e s) = vs_vreq_free s"
  "vs_aio (answered r e s) = vs_aio s" "vs_out (answered r e s) = vs_out s" "vs_zsize (answered r e s) = vs_zsize s"
  "vr_op (vs_req (answered r e s) q) = vr_op (vs_req s q)" "vr_flags (vs_req (answered r e s) q) = vr_flags (vs_req s q)"
  "vr_treq (vs_req (answered r e s) q) = vr_treq (vs_req s q)" "vr_tx (vs_req (answered r e s) q) = vr_tx (vs_req s q)"
  "vr_next (vs_req (answered r e s) q) = vr_next (vs_req s q)" "vr_error (vs_req (answered r e s) r) = e"
  "in_flight (answered r e s) = in_flight s" "bat_table (answered r e s) = bat_table s" "reported (answered r e s) = reported s"
  by (simp_all add: answered_def upd_req_def in_flight_def bat_table_def reported_def)

lemma answered_other: "q \<noteq> r \<Longrightarrow> vs_req (answered r e s) q = vs_req s q"
  by (simp add: answered_def upd_req_def)

lemma answered_core:
  assumes "core_ok s G Pd" and "r \<in> Pd"
  shows "core_ok (answered r e s) G Pd"
proof -
  let ?u = "s\<lparr>vs_completed := vs_completed s + 1\<rparr>"
  have "core_ok ?u G Pd" by (subst core_cong [of _ s]) (use assms in \<open>simp_all add: bat_table_def\<close>)
  then show ?thesis unfolding answered_def by (rule core_err [OF _ assms(2)])
qed

lemma answered_inv:
  assumes "inv s G Pd" and "r \<in> Pd" "r \<noteq> Bat_req"
  shows "inv (answered r e s) G Pd"
proof -
  let ?u = "s\<lparr>vs_completed := vs_completed s + 1\<rparr>"
  have "inv ?u G Pd" by (subst inv_cong [of _ s]) (use assms in \<open>simp_all add: bat_table_def\<close>)
  then show ?thesis unfolding answered_def by (rule inv_err [OF _ assms(2,3)])
qed

lemma answered_rest:
  assumes "core_ok s G Pd" and "r \<in> Pd"
  shows "owed (answered r e s) G = owed s G" "parked (answered r e s) G = parked s G" "aio_ok (answered r e s) = aio_ok s"
    "same_disk s (answered r e s)"
proof -
  show "owed (answered r e s) G = owed s G" by (rule owed_cong) (simp add: contrib_def)
  have "g_own G r \<noteq> Parked"
  proof
    assume p: "g_own G r = Parked"
    have "reqs_ok s G Pd" using assms(1) by (simp add: core_ok_def)
    from own_data [OF this p] have "dreq_ok s G Pd r" using \<open>reqs_ok s G Pd\<close> by (simp add: reqs_ok_def)
    then show False using p assms(2) by (simp add: dreq_ok_def)
  qed
  then show "parked (answered r e s) G = parked s G" by (intro parked_cong refl answered_other) auto
  show "aio_ok (answered r e s) = aio_ok s" by (simp add: aio_ok_def)
  show "same_disk s (answered r e s)" by (simp add: same_disk_def n_blocks_def)
qed

text \<open>A completion: the request \<open>r\<close> has come back, and its handler neither fails nor loses a sector.\<close>

definition finishes :: "(rid \<Rightarrow> vhd_request option) \<Rightarrow> piece multiset \<Rightarrow> unit bv \<Rightarrow> vhd_state \<Rightarrow> bool" where
  "finishes D A m s \<longleftrightarrow> wp m (\<lambda>_ t. ready D {} A t \<and> same_disk s t) (\<lambda>_ _. False) s"

lemma finish_ready:
  assumes "inv t G' (in_flight t)" and "steady s G t G'" and "aio_ok s" and "reported s + owed s G = A" and "parked s G = D"
  shows "ready D {} A t \<and> same_disk s t"
  using assms readyI [of t G' "in_flight t" "{}"] by (auto simp: steady_def)

section \<open>Requests on their own\<close>

lemma inv_aside_same:
  assumes I: "inv s G Pd" and C: "core_ok t G Pd'" and fr: "same_frame s t" and r: "is_data r" "Pd' - {r} = Pd - {r}"
    and o: "\<forall>i. g_own G r \<noteq> In_tx i" and v: "vs_bat t = vs_bat s" and q: "vs_req t Bat_req = vs_req s Bat_req" and bm: "\<And>i. bm_alike (the_bm t i) (the_bm s i)"
  shows "inv t G Pd'"
  using inv_aside [OF I C fr r _ refl o v q bm, of "g_own G r"] by (simp add: fun_upd_idem)

lemma wp_signal_loose:
  assumes I: "inv s G (insert r (in_flight s))" and n: "r \<notin> in_flight s" and a: "aio_ok s" and A: "reported s + owed s G = A" and PK: "parked s G = D"
    and o: "g_own G r = Loose" and op: "vr_op (vs_req s r) \<noteq> VHD_OP_REDUNDANT_BM_WRITE"
    and u: "u = s\<lparr>vs_req := (vs_req s)(r := q)\<rparr>" "vr_treq q = vr_treq (vs_req s r)" "vr_next q = None"
  shows "wp (signal_completion (Some r) e) (\<lambda>_ t. ready D {} A t \<and> same_disk s t) E u"
proof -
  note L = loose_req [OF I o]
  note V = inv_give [OF I o]
  let ?t = "signalled e [r] u" and ?G = "G\<lparr>g_own := (g_own G)(r := Free)\<rparr>"
  have "inv ?t ?G (insert r (in_flight s) - {r})"
    by (subst inv_cong [of _ "s\<lparr>vs_req := (vs_req s)(r := req_zero), vs_vreq_free := r # vs_vreq_free s\<rparr>"])
      (use V(1) in \<open>simp_all add: u signalled_def bat_table_def fun_eq_iff\<close>)
  then have i: "inv ?t ?G (in_flight ?t)" using n by (simp add: in_flight_def u)
  have ow: "owed ?t ?G + contrib s G r = owed s G + contrib ?t ?G r"
    by (rule owed_step [OF L(1)]) (simp add: contrib_def u)
  have "contrib ?t ?G r = {#}" "contrib s G r = pieces (vr_treq (vs_req s r))" using o op by (simp_all add: contrib_def)
  moreover have "reported ?t = reported s + pieces (vr_treq (vs_req s r))" by (simp add: reported_def u)
  ultimately have "reported ?t + owed ?t ?G = A" using ow A by (simp add: add.assoc) (metis add.commute)
  moreover have "parked ?t ?G = D" unfolding PK [symmetric] by (rule parked_cong) (use o in \<open>auto simp: u\<close>)
  moreover have "aio_ok ?t" using a by (simp add: aio_ok_def u)
  moreover have "same_disk s ?t" by (simp add: same_disk_def n_blocks_def u)
  ultimately have "ready D {} A ?t \<and> same_disk s ?t" using i by (auto intro: readyI)
  then have "wp (signal_loop VHD_REQS_TOTAL (if [r] = [] then None else Some (hd [r])) e) (\<lambda>_ t. ready D {} A t \<and> same_disk s t) E u"
    using V(2) u by (intro wp_signal_loop) (simp_all add: VHD_REQS_TOTAL_def VHD_REQS_DATA_def)
  then show ?thesis by (simp add: signal_completion_def)
qed

lemma finishes_data_read:
  assumes "inv s G (insert r (in_flight s))" "r \<notin> in_flight s" "aio_ok s" "reported s + owed s G = A" "parked s G = D" "g_own G r = Loose"
    and "vr_op (vs_req s r) \<noteq> VHD_OP_REDUNDANT_BM_WRITE"
  shows "finishes D A (finish_data_read r) s"
  unfolding finishes_def finish_data_read_def
  by (rule wp_signal_loose [OF assms, of _ "vs_req s r"]) (simp_all add: loose_req [OF assms(1,6)])

lemma finishes_redundant:
  assumes I: "inv s G (insert r (in_flight s))" and n: "r \<notin> in_flight s" and a: "aio_ok s" and A: "reported s + owed s G = A" and PK: "parked s G = D"
    and o: "g_own G r = Loose" and op: "vr_op (vs_req s r) = VHD_OP_REDUNDANT_BM_WRITE"
  shows "finishes D A (finish_redundant_bm_write r) s"
proof -
  note L = loose_req [OF I o] and V = inv_give [OF I o]
  define t where "t = s\<lparr>vs_returned := vs_returned s + 1, vs_req := (vs_req s)(r := req_zero), vs_vreq_free := r # vs_vreq_free s,
    vs_done_redundant_writes := vs_done_redundant_writes s + 1\<rparr>"
  let ?G = "G\<lparr>g_own := (g_own G)(r := Free)\<rparr>"
  have "inv t ?G (insert r (in_flight s) - {r})"
    by (subst inv_cong [of _ "s\<lparr>vs_req := (vs_req s)(r := req_zero), vs_vreq_free := r # vs_vreq_free s\<rparr>"])
      (use V(1) in \<open>simp_all add: t_def bat_table_def\<close>)
  then have i: "inv t ?G (in_flight t)" using n by (simp add: in_flight_def t_def)
  have "owed t ?G + contrib s G r = owed s G + contrib t ?G r" by (rule owed_step [OF L(1)]) (simp add: contrib_def t_def)
  then have "reported t + owed t ?G = A" using A o op by (simp add: reported_def contrib_def t_def)
  moreover have "parked t ?G = D" unfolding PK [symmetric] by (rule parked_cong) (use o in \<open>auto simp: t_def\<close>)
  moreover have "aio_ok t" using a by (simp add: aio_ok_def t_def)
  moreover have "same_disk s t" by (simp add: same_disk_def n_blocks_def t_def)
  ultimately have "ready D {} A t \<and> same_disk s t" using i by (auto intro: readyI)
  moreover have "(init_vhd_request r (s\<lparr>vs_returned := vs_returned s + 1\<rparr>))\<lparr>vs_vreq_free := r # vs_vreq_free s, vs_done_redundant_writes := vs_done_redundant_writes s + 1\<rparr> = t"
    by (simp add: t_def init_vhd_request_def upd_req_def)
  ultimately show ?thesis using V(2)
    by (simp add: finishes_def finish_redundant_bm_write_def count_returned_def free_vhd_request_def wps) (simp add: init_vhd_request_def upd_req_def t_def)
qed

section \<open>Data writes\<close>

abbreviation mark_finished :: "vhd_request \<Rightarrow> vhd_request" where
  "mark_finished q \<equiv> q\<lparr>vr_flags := set_vhd_flag (vr_flags q) VHD_FLAG_REQ_FINISHED\<rparr>"

lemma finishes_write_loose:
  assumes I: "inv s G (insert r (in_flight s))" and n: "r \<notin> in_flight s" and a: "aio_ok s" and A: "reported s + owed s G = A" and PK: "parked s G = D"
    and o: "g_own G r = Loose" and op: "vr_op (vs_req s r) = VHD_OP_DATA_WRITE"
  shows "finishes D A (finish_data_write r) s"
proof -
  note L = loose_req [OF I o]
  have u: "upd_req r mark_finished s = s\<lparr>vs_req := (vs_req s)(r := mark_finished (vs_req s r))\<rparr>" by (simp add: upd_req_def)
  have "wp (signal_completion (Some r) 0) (\<lambda>_ t. ready D {} A t \<and> same_disk s t) (\<lambda>_ _. False) (upd_req r mark_finished s)"
    by (rule wp_signal_loose [OF I n a A PK o _ u]) (use op L in \<open>simp_all add: vhd_op_defs\<close>)
  then show ?thesis using L(3,4,6) by (simp add: finishes_def finish_data_write_def wps u Let_def)
qed

lemma finished_core:
  assumes C: "core_ok s G (insert r (in_flight s))" and n: "r \<notin> in_flight s" and d: "is_data r"
    and o: "g_own G r = In_queue i \<or> g_own G r = In_tx i"
  shows "core_ok (upd_req r mark_finished s) G (in_flight s)"
proof -
  let ?u = "upd_req r mark_finished s"
  have C': "lists_ok s G" "pool_ok s G" "reqs_ok s G (insert r (in_flight s))" using C by (simp_all add: core_ok_def)
  have fr: "same_frame s ?u" by (simp add: same_frame_def upd_req_def bat_table_def)
  have q: "vr_next (vs_req ?u q) = vr_next (vs_req s q)" "the_bm ?u = the_bm s" for q by (simp_all add: upd_req_def)
  have l: "list_at ?u p = list_at s p" for p by (cases p) (simp_all add: q)
  show ?thesis
  proof (rule core_move [OF C fr, of r G "g_own G r"])
    show "lists_ok ?u G" using C'(1) by (simp add: lists_ok_def l q)
    show "pool_ok ?u G" using C'(2) by (simp add: pool_ok_def upd_req_def)
    have "dreq_ok s G (insert r (in_flight s)) r" using C'(3) d by (simp add: reqs_ok_def)
    then have "dreq_ok ?u G (in_flight s) r"
      using o n by (auto simp: dreq_ok_def tx_write_def same_frameD [OF fr] Let_def) (simp_all add: upd_req_def)
    then show "is_data r \<and> dreq_ok ?u G (in_flight s) r \<or> r = Zero_req \<and> zero_ok ?u G (in_flight s) \<or> r = Bat_req \<and> batreq_ok ?u G (in_flight s)"
      using d by simp
  qed (use n in \<open>simp_all add: q req_frame_def upd_req_def\<close>)
qed

lemma finishes_write_queued:
  assumes I: "inv s G (insert r (in_flight s))" and n: "r \<notin> in_flight s" and a: "aio_ok s" and A: "reported s + owed s G = A" and PK: "parked s G = D"
    and o: "g_own G r = In_queue i"
  shows "finishes D A (finish_data_write r) s"
proof -
  have d: "is_data r" using own_data [OF invD(8) [OF I] o] by simp
  have "dreq_ok s G (insert r (in_flight s)) r" using invD(8) [OF I] d by (simp add: reqs_ok_def)
  then have q: "vr_tx (vs_req s r) = None" "test_vhd_flag (vr_flags (vs_req s r)) VHD_FLAG_REQ_QUEUED" using o by (simp_all add: dreq_ok_def Let_def)
  let ?u = "upd_req r mark_finished s"
  have fr: "same_frame s ?u" by (simp add: same_frame_def upd_req_def bat_table_def)
  have C: "core_ok ?u G (in_flight s)" by (rule finished_core [OF invD(1) [OF I] n d]) (use o in simp)
  have fl: "in_flight ?u = in_flight s" by (simp add: in_flight_def upd_req_def)
  have "inv ?u G (in_flight ?u)" unfolding fl
    by (rule inv_aside_same [OF I C fr d]) (use n o d in \<open>auto simp: upd_req_def\<close>)
  moreover have "owed ?u G = owed s G" by (rule owed_cong) (simp add: contrib_def upd_req_def)
  then have "steady s G ?u G"
    by (intro steadyI(1) same_disk_frame [OF fr] parked_cong) (use o in \<open>auto simp: reported_def upd_req_def\<close>)
  ultimately have "ready D {} A ?u \<and> same_disk s ?u" by (rule finish_ready [OF _ _ a A PK])
  moreover have "vs_req ?u r = mark_finished (vs_req s r)" by (simp add: upd_req_def)
  ultimately show ?thesis using q by (simp add: finishes_def finish_data_write_def wps Let_def)
qed

text \<open>A request of an open or closed transaction comes back.\<close>

lemma n_pending_back:
  assumes L: "lists_ok s G" and o: "g_own G r = In_tx i" and n: "r \<notin> Pd"
  shows "n_pending G (insert r Pd) i = Suc (n_pending G Pd i)" "j \<noteq> i \<Longrightarrow> n_pending G (insert r Pd) j = n_pending G Pd j"
proof -
  have d: "distinct (g_tx G i)" "r \<in> set (g_tx G i)" using listsD [OF L, of "In_tx i"] o by simp_all
  then obtain xs ys where x: "g_tx G i = xs @ r # ys" by (meson split_list)
  then have "r \<notin> set xs" "r \<notin> set ys" using d(1) by auto
  then have "filter (\<lambda>q. q \<in> insert r Pd) xs = filter (\<lambda>q. q \<in> Pd) xs" "filter (\<lambda>q. q \<in> insert r Pd) ys = filter (\<lambda>q. q \<in> Pd) ys"
    by (intro filter_cong refl; metis insert_iff)+
  then show "n_pending G (insert r Pd) i = Suc (n_pending G Pd i)" using n by (simp add: n_pending_def x)
  show "n_pending G (insert r Pd) j = n_pending G Pd j" if "j \<noteq> i"
  proof -
    have "r \<notin> set (g_tx G j)" using listsD(3) [OF L, of "In_tx j" r] o that by simp
    then have "filter (\<lambda>q. q \<in> insert r Pd) (g_tx G j) = filter (\<lambda>q. q \<in> Pd) (g_tx G j)" by (intro filter_cong refl) (metis insert_iff)
    then show ?thesis by (simp add: n_pending_def)
  qed
qed

lemma in_tx_bitmap:
  assumes I: "inv s G Pd" and o: "g_own G r = In_tx i"
  shows "installed s i" "tx_live (the_bm s i)" "\<not> rd_pending (the_bm s i)" "bitmap_locked (the_bm s i)" "vbm_waiting (the_bm s i) = req_list_nil"
proof -
  note B = bm_okD [OF invD(2) [OF I, of i, unfolded bitmap_ok_def]]
  note L = listsD [OF invD(6) [OF I], of "In_tx i", simplified]
  have ne: "g_tx G i \<noteq> []" using L(3) [of r] o by auto
  then have h: "rl_head (tx_requests (vbm_tx (the_bm s i))) \<noteq> None" using rlist_head [OF L(1)] by simp
  then have iu: "bitmap_in_use (the_bm s i)" by (simp add: bitmap_in_use_def)
  show "installed s i" "bitmap_locked (the_bm s i)" using B(13,14) iu by blast+
  show lv: "tx_live (the_bm s i)" 
  proof (rule ccontr)
    assume "\<not> tx_live (the_bm s i)"
    then have "vbm_tx (the_bm s i) = tx_zero" using B(9) by blast
    then show False using h by (simp add: tx_zero_def req_list_nil_def)
  qed
  then show rd: "\<not> rd_pending (the_bm s i)" using B(11) by blast
  then have h: "rl_head (vbm_waiting (the_bm s i)) = None" using B(12) by blast
  note W = listsD(1) [OF invD(6) [OF I], of "In_wait i", simplified]
  have "g_list G (In_wait i) = []" using rlist_head [OF W] h by simp
  then show "vbm_waiting (the_bm s i) = req_list_nil" using W by (simp add: rlist_Nil)
qed

lemma bm_ok_back:
  assumes "bm_ok pr lk e tb un ins bp (Suc n) b" and "n \<noteq> 0"
  shows "bm_ok pr lk e tb un ins bp n (b\<lparr>vbm_shadow := x, vbm_tx := (vbm_tx b)\<lparr>tx_finished := tx_finished (vbm_tx b) + 1\<rparr>\<rparr>)"
proof -
  note D = bm_okD [OF assms(1)]
  have "tx_live b" using D(1,2) by simp
  then show ?thesis
    by (intro bm_okI) (use D assms(2) in \<open>simp_all add: bitmap_locked_def bitmap_in_use_def\<close>)
qed

text \<open>The state after the transaction's counter was moved on.\<close>

lemma back_in_tx:
  assumes I: "inv s G (insert r Pd)" and o: "g_own G r = In_tx i" and C: "core_ok t G Pd" and fr: "same_frame s t" and lk: "same_lock s t" and n: "r \<notin> Pd"
    and bi: "the_bm t i = (the_bm s i)\<lparr>vbm_shadow := x, vbm_tx := (vbm_tx (the_bm s i))\<lparr>tx_finished := tx_finished (vbm_tx (the_bm s i)) + 1\<rparr>\<rparr>"
    and bj': "\<forall>j. j \<noteq> i \<longrightarrow> the_bm t j = the_bm s j" and d: "is_data r"
  shows "transaction_completed (vbm_tx (the_bm t i)) \<longleftrightarrow> n_pending G Pd i = 0"
    "n_pending G Pd i = 0 \<Longrightarrow> drained t G Pd i" "n_pending G Pd i \<noteq> 0 \<Longrightarrow> inv t G Pd"
proof -
  have bj: "the_bm t j = the_bm s j" if "j \<noteq> i" for j using bj' that by blast
  note F = same_frameD [OF fr] and V = same_lockD [OF lk fr]
  note np = n_pending_back [OF invD(6) [OF I] o n]
  note B0 = invD(2) [OF I, of i, unfolded bitmap_ok_def np(1)]
  note B = bm_okD [OF B0]
  note T = in_tx_bitmap [OF I o]
  have nd: "Bm_req j \<noteq> r" "Zero_req \<noteq> r" "Bat_req \<noteq> r" "r \<noteq> Bm_req j" "r \<noteq> Zero_req" "r \<noteq> Bat_req" for j using d by auto
  show "transaction_completed (vbm_tx (the_bm t i)) \<longleftrightarrow> n_pending G Pd i = 0" using B(2) by (simp add: transaction_completed_def bi)
  have oth: "bitmap_ok t G Pd j" if "j \<noteq> i" for j
    by (rule bitmap_ok_frame [OF invD(2) [OF I, of j]]) (use that np(2) nd in \<open>simp_all add: bj V F\<close>)
  have cl: "tx_closed (vbm_tx (the_bm s i)) \<Longrightarrow> has_lock s i \<and> bat_err s \<noteq> 0" using B(6) by blast
  have wr: "\<not> wr_pending (the_bm s i)" using B(6,8) by blast
  have bat: "bat_ok t G Pd"
  proof (rule bat_ok_step [OF invD(3) [OF I]])
    show "bat_locked t = bat_locked s" by (rule V)
    show "bat_idle t Pd" if "bat_idle s (insert r Pd)" using that lk nd by (simp add: bat_idle_def same_lock_def)
    fix j assume j: "has_lock s j" "unalloc s j" "tx_live (the_bm s j)" "\<not> rd_pending (the_bm s j)" "alloc_phase s G (insert r Pd) j"
    have "alloc_phase t G Pd j"
    proof (cases "j = i")
      case True
      note ph = j(5) [unfolded True]
      show ?thesis unfolding True
      proof (cases "tx_closed (vbm_tx (the_bm s i))")
        case c: True
        then have "bat_err s \<noteq> 0" using cl by blast
        with c show "alloc_phase t G Pd i" using ph nd by (simp add: alloc_phase_def F V bi Let_def split: if_splits)
      next
        case c: False
        then show "alloc_phase t G Pd i" using ph nd by (simp add: alloc_phase_def F V bi Let_def split: if_splits)
      qed
    next
      case False
      show ?thesis by (rule alloc_phase_frame [OF j(5)]) (use nd False in \<open>simp_all add: F V bj\<close>)
    qed
    with j show "has_lock t j \<and> unalloc t j \<and> tx_live (the_bm t j) \<and> \<not> rd_pending (the_bm t j) \<and> alloc_phase t G Pd j"
      by (cases "j = i") (simp_all add: V bi bj)
  qed
  show "drained t G Pd i" if z: "n_pending G Pd i = 0"
  proof -
    have bp: "Bm_req i \<notin> Pd" using B(10) wr T(3) by blast
    have bat: "tx_bat (the_bm s i) \<Longrightarrow> has_lock s i \<and> \<not> prealloc s" using B(17) by blast
    have lkd: "bitmap_locked (the_bm t i)" using T(4) by (simp add: bi bitmap_locked_def)
    show ?thesis unfolding drained_def Let_def resting_def
      using C oth \<open>bat_ok t G Pd\<close> lkd bp bat T wr B(2,15) z cl by (simp add: bi V F)
  qed
  show "inv t G Pd" if z: "n_pending G Pd i \<noteq> 0"
  proof -
    have "bitmap_ok t G Pd i" using bm_ok_back [OF B0 z, of x] nd by (simp add: bitmap_ok_def bi V F)
    then have "bitmap_ok t G Pd j" for j using oth by (cases "j = i") simp_all
    then show ?thesis using C bat by (simp add: inv_def)
  qed
qed

lemma finishes_write_tx:
  assumes I: "inv s G (insert r (in_flight s))" and n: "r \<notin> in_flight s" and a: "aio_ok s" and A: "reported s + owed s G = A" and PK: "parked s G = D"
    and o: "g_own G r = In_tx i" and d: "is_data r"
  shows "finishes D A (finish_data_write r) s"
proof -
  note T = in_tx_bitmap [OF I o]
  have "dreq_ok s G (insert r (in_flight s)) r" using invD(8) [OF I] d by (simp add: reqs_ok_def)
  then have q: "vr_tx (vs_req s r) = Some i" "in_block s (vbm_blk (the_bm s i)) (vr_treq (vs_req s r))" using o by (simp_all add: dreq_ok_def tx_write_def Let_def)
  let ?u = "upd_req r mark_finished s"
  let ?v = "upd_tx i (\<lambda>t. t\<lparr>tx_finished := tx_finished t + 1\<rparr>) ?u"
  have cache: "cache_ok s" by (rule invD(5) [OF I])
  have ml: "length (vbm_shadow (the_bm s i)) = 512 * unat (vs_bm_secs s)" using cache T(1) by (simp add: cache_ok_def installed_cached)
  have uq: "vs_req ?u r = mark_finished (vs_req s r)" "vs_req ?v r = mark_finished (vs_req s r)" by (simp_all add: upds)
  have ub: "the_bm ?u = the_bm s" by (simp add: upd_req_def)
  have ug: "get_bitmap ?u (blk_of ?u (td_sec (vr_treq (vs_req s r)))) = Some i"
  proof -
    have "get_bitmap s (blk_of s (td_sec (vr_treq (vs_req s r)))) = Some i" using get_bitmap_Some [OF cache] T(1) q(2) by (simp add: in_block_def)
    then show ?thesis by (simp add: get_bitmap_def blk_of_def upd_req_def cong: option.case_cong)
  qed
  let ?Q = "\<lambda>t. ready D {} A t \<and> same_disk s t"
  have fin: "wp (if transaction_completed (vbm_tx (the_bm t i)) then finish_data_transaction i else vret ()) (\<lambda>_. ?Q) (\<lambda>_ _. False) t"
    if t: "t = upd_bm i (\<lambda>b. b\<lparr>vbm_shadow := x\<rparr>) ?v" and lx: "length x = length (vbm_shadow (the_bm s i))" for t x
  proof -
    have tv: "vs_flags t = vs_flags s" "vs_vhd t = vs_vhd s" "vs_spb t = vs_spb s" "vs_spp t = vs_spp s" "vs_bm_secs t = vs_bm_secs s" "vs_zsize t = vs_zsize s"
      "vs_bat t = vs_bat s" "vs_bitmap t = vs_bitmap s" "vs_bitmap_free t = vs_bitmap_free s" "vs_vreq_free t = vs_vreq_free s" "vs_aio t = vs_aio s" "vs_out t = vs_out s"
      "vs_req t = vs_req ?u" by (simp_all add: t upds)
    have bi: "the_bm t i = (the_bm s i)\<lparr>vbm_shadow := x, vbm_tx := (vbm_tx (the_bm s i))\<lparr>tx_finished := tx_finished (vbm_tx (the_bm s i)) + 1\<rparr>\<rparr>"
      by (simp add: t upds)
    have bj: "the_bm t j = the_bm s j" if "j \<noteq> i" for j using that by (simp add: t upds)
    have b: "vbm_blk (the_bm t j) = vbm_blk (the_bm s j)" "vbm_map (the_bm t j) = vbm_map (the_bm s j)" "length (vbm_shadow (the_bm t j)) = length (vbm_shadow (the_bm s j))"
      "tx_requests (vbm_tx (the_bm t j)) = tx_requests (vbm_tx (the_bm s j))" "vbm_queue (the_bm t j) = vbm_queue (the_bm s j)" "vbm_waiting (the_bm t j) = vbm_waiting (the_bm s j)"
      "vbm_status (the_bm t j) = vbm_status (the_bm s j)" for j using bj [of j] lx by (cases "j = i"; simp add: bi)+
    have bt: "bat_table t = bat_table s" by (simp add: bat_table_def tv)
    have fr: "same_frame s t" by (simp add: same_frame_def tv b bt)
    have lk: "same_lock s t" using d by (auto simp: same_lock_def tv bt upd_req_def)
    have uv: "vs_flags ?u = vs_flags s" "vs_vhd ?u = vs_vhd s" "vs_spb ?u = vs_spb s" "vs_spp ?u = vs_spp s" "vs_bm_secs ?u = vs_bm_secs s" "vs_zsize ?u = vs_zsize s"
      "vs_bat ?u = vs_bat s" "vs_bitmap ?u = vs_bitmap s" "vs_bitmap_free ?u = vs_bitmap_free s" "vs_vreq_free ?u = vs_vreq_free s" "bat_table ?u = bat_table s"
      by (simp_all add: upd_req_def bat_table_def)
    have "core_ok ?u G (in_flight s)" by (rule finished_core [OF invD(1) [OF I] n d]) (use o in simp)
    then have C: "core_ok t G (in_flight s)" by (subst core_cong [of t ?u]) (simp_all add: tv uv b ub bt)
    have fl: "in_flight t = in_flight s" by (simp add: in_flight_def tv)
    have bj': "\<forall>j. j \<noteq> i \<longrightarrow> the_bm t j = the_bm s j" using bj by blast
    note K = back_in_tx [OF I o C fr lk n bi bj' d]
    have "owed t G = owed s G" by (rule owed_cong) (simp add: contrib_def tv upd_req_def)
    moreover have "parked t G = parked s G" by (rule parked_cong) (use o in \<open>auto simp: tv upd_req_def\<close>)
    ultimately have st: "steady s G t G" by (intro steadyI(1) same_disk_frame [OF fr]) (simp_all add: reported_def tv b)
    show ?thesis
    proof (cases "n_pending G (in_flight s) i = 0")
      case True
      have "drained t G (in_flight t) i" unfolding fl by (rule K(2) [OF True])
      then have "wp (finish_data_transaction i) (\<lambda>_. ?Q) (\<lambda>_ _. False) t"
      proof (rule wp_finish_data)
        show "?Q w" if "inv w G' (in_flight w)" "steady t G w G'" for w G'
          by (rule finish_ready [OF that(1) steady_trans [OF st that(2)] a A PK])
      qed
      then show ?thesis using K(1) True by simp
    next
      case False
      have "inv t G (in_flight t)" unfolding fl by (rule K(3) [OF False])
      then have "?Q t" by (rule finish_ready [OF _ st a A PK])
      then show ?thesis using K(1) False by (simp add: wps)
    qed
  qed
  have vs: "vbm_shadow (the_bm ?v i) = vbm_shadow (the_bm s i)" by (simp add: upds)
  have same: "upd_bm i (\<lambda>b. b\<lparr>vbm_shadow := vbm_shadow (the_bm s i)\<rparr>) ?v = ?v" by (simp add: upds)
  have set: "wp (shadow_set i r) (\<lambda>_ t. wp (if transaction_completed (vbm_tx (the_bm t i)) then finish_data_transaction i else vret ()) (\<lambda>_. ?Q) (\<lambda>_ _. False) t) (\<lambda>_ _. False) ?v"
  proof (rule wp_shadow_set)
    have "unat (sec_of s (td_sec (vr_treq (vs_req s r)))) + td_secs (vr_treq (vs_req s r)) \<le> spb s" using q(2) by (simp add: in_block_def)
    also have "\<dots> \<le> 8 * (512 * unat (vs_bm_secs s))" using invD(4) [OF I] by (simp add: driver_cfg_def)
    finally show "unat (sec_of ?v (td_sec (vr_treq (vs_req ?v r)))) + td_secs (vr_treq (vs_req ?v r)) \<le> 8 * length (vbm_shadow (the_bm ?v i))"
      unfolding uq vs ml by (simp add: sec_of_def) (simp add: upds)
    show "4 dvd length (vbm_shadow (the_bm ?v i))" unfolding vs ml by (simp add: dvd_mult2)
    show "wp (if transaction_completed (vbm_tx (the_bm (upd_bm i (\<lambda>b. b\<lparr>vbm_shadow := x\<rparr>) ?v) i)) then finish_data_transaction i else vret ()) (\<lambda>_. ?Q) (\<lambda>_ _. False)
      (upd_bm i (\<lambda>b. b\<lparr>vbm_shadow := x\<rparr>) ?v)" if "length x = length (vbm_shadow (the_bm ?v i))" for x
      by (rule fin [OF refl]) (use that vs in simp)
  qed
  have "wp (if vr_error (vs_req s r) = 0 then shadow_set i r else vret ())
      (\<lambda>_ t. wp (if transaction_completed (vbm_tx (the_bm t i)) then finish_data_transaction i else vret ()) (\<lambda>_. ?Q) (\<lambda>_ _. False) t) (\<lambda>_ _. False) ?v"
  proof (cases "vr_error (vs_req s r) = 0")
    case True
    show ?thesis unfolding if_P [OF True] by (rule set)
  next
    case False
    show ?thesis unfolding if_not_P [OF False] wp_vret by (rule fin [OF refl refl, unfolded same])
  qed
  then show ?thesis using q(1) T(3,4) ug
    unfolding finishes_def finish_data_write_def by (simp add: wps uq Let_def need_bitmap_def ub bitmap_valid_def wp_fun)
qed

section \<open>The write of a bitmap comes back\<close>

lemma returned_simps [simp]:
  "get_bitmap (s\<lparr>vs_returned := x\<rparr>) b = get_bitmap s b" "blk_of (s\<lparr>vs_returned := x\<rparr>) = blk_of s" "bat_locked (s\<lparr>vs_returned := x\<rparr>) = bat_locked s"
  by (simp_all add: get_bitmap_def blk_of_def fun_eq_iff bat_locked_def cong: option.case_cong)

lemma bm_req_bitmap:
  assumes I: "inv s G (insert (Bm_req i) Pd)"
  shows "installed s i" "sec_ok s (td_sec (vr_treq (vs_req s (Bm_req i))))"
    "get_bitmap s (blk_of s (td_sec (vr_treq (vs_req s (Bm_req i))))) = Some i" "rd_pending (the_bm s i) \<or> wr_pending (the_bm s i)"
    "vr_op (vs_req s (Bm_req i)) = (if rd_pending (the_bm s i) then VHD_OP_BITMAP_READ else VHD_OP_BITMAP_WRITE)"
    "n_pending G (insert (Bm_req i) Pd) j = n_pending G Pd j" "g_own G (Bm_req i) = Idle"
proof -
  note B = bm_okD [OF invD(2) [OF I, of i, unfolded bitmap_ok_def]]
  have p: "Bm_req i \<in> insert (Bm_req i) Pd" by simp
  show w: "rd_pending (the_bm s i) \<or> wr_pending (the_bm s i)" using B(10) p by blast
  then have "bitmap_in_use (the_bm s i)" by (auto simp: bitmap_in_use_def)
  then show ins: "installed s i" using B(14) by blast
  have m: "bmreq_ok s (insert (Bm_req i) Pd) i" "g_own G (Bm_req i) = Idle" using invD(8) [OF I] by (simp_all add: reqs_ok_def)
  then show "sec_ok s (td_sec (vr_treq (vs_req s (Bm_req i))))" "g_own G (Bm_req i) = Idle"
    "vr_op (vs_req s (Bm_req i)) = (if rd_pending (the_bm s i) then VHD_OP_BITMAP_READ else VHD_OP_BITMAP_WRITE)"
    by (simp_all add: bmreq_ok_def Let_def)
  have "blk_of s (td_sec (vr_treq (vs_req s (Bm_req i)))) = vbm_blk (the_bm s i)" using m(1) by (simp add: bmreq_ok_def Let_def)
  then show "get_bitmap s (blk_of s (td_sec (vr_treq (vs_req s (Bm_req i))))) = Some i" using get_bitmap_Some [OF invD(5) [OF I]] ins by simp
  have "Bm_req i \<notin> set (g_tx G j)" using listsD(3) [OF invD(6) [OF I], of "In_tx j"] m(2) by simp
  then have "filter (\<lambda>q. q \<in> insert (Bm_req i) Pd) (g_tx G j) = filter (\<lambda>q. q \<in> Pd) (g_tx G j)" by (intro filter_cong refl) (metis insert_iff)
  then show "n_pending G (insert (Bm_req i) Pd) j = n_pending G Pd j" by (simp add: n_pending_def)
qed

lemma finishes_bitmap_write:
  assumes I: "inv s G (insert (Bm_req i) (in_flight s))" and n: "Bm_req i \<notin> in_flight s" and a: "aio_ok s" and A: "reported s + owed s G = A" and PK: "parked s G = D"
    and w: "\<not> rd_pending (the_bm s i)"
  shows "finishes D A (finish_bitmap_write (Bm_req i)) s"
proof -
  let ?Pd = "insert (Bm_req i) (in_flight s)"
  note M = bm_req_bitmap [OF I]
  note B = bm_okD [OF invD(2) [OF I, of i, unfolded bitmap_ok_def M(6)]]
  have wr: "wr_pending (the_bm s i)" using M(4) w by blast
  have cl: "tx_closed (vbm_tx (the_bm s i))" using B(8) wr by blast
  have nz: "n_pending G (in_flight s) i = 0" using B(6) [OF cl] wr by blast
  have live: "tx_live (the_bm s i)" by (rule B(4) [OF cl])
  define t where "t = upd_bm i (\<lambda>b. b\<lparr>vbm_status := clear_vhd_flag (vbm_status b) VHD_FLAG_BM_WRITE_PENDING\<rparr>) (s\<lparr>vs_returned := vs_returned s + 1\<rparr>)"
  have tv: "vs_flags t = vs_flags s" "vs_vhd t = vs_vhd s" "vs_spb t = vs_spb s" "vs_spp t = vs_spp s" "vs_bm_secs t = vs_bm_secs s" "vs_zsize t = vs_zsize s"
    "vs_bat t = vs_bat s" "vs_bitmap t = vs_bitmap s" "vs_bitmap_free t = vs_bitmap_free s" "vs_vreq_free t = vs_vreq_free s" "vs_aio t = vs_aio s" "vs_out t = vs_out s"
    "vs_req t = vs_req s" by (simp_all add: t_def upds)
  have tb: "the_bm t j = (if j = i then (the_bm s i)\<lparr>vbm_status := clear_vhd_flag (vbm_status (the_bm s i)) VHD_FLAG_BM_WRITE_PENDING\<rparr> else the_bm s j)" for j
    by (simp add: t_def upds)
  have bt: "bat_table t = bat_table s" by (simp add: bat_table_def tv)
  have fr: "same_frame s t" by (simp add: same_frame_def tv tb bt)
  have lk: "same_lock s t" by (simp add: same_lock_def tv bt)
  note F = same_frameD [OF fr] and V = same_lockD [OF lk fr]
  have fl: "in_flight t = in_flight s" by (simp add: in_flight_def tv)
  have C: "core_ok t G (in_flight t)" unfolding fl
  proof (rule core_bm [OF invD(1) [OF I] fr, of i])
    show "list_at t p = list_at s p" for p by (cases p) (simp_all add: tb)
    show "bmreq_ok t (in_flight s) i" using n by (simp add: bmreq_ok_def)
  qed (simp_all add: tv tb)
  have oth: "bitmap_ok t G (in_flight t) j" if "j \<noteq> i" for j
    by (rule bitmap_ok_frame [OF invD(2) [OF I, of j]]) (use that M(6) in \<open>simp_all add: fl V F tb\<close>)
  have wait: "vbm_waiting (the_bm s i) = req_list_nil"
  proof -
    have h: "rl_head (vbm_waiting (the_bm s i)) = None" using B(12) w by blast
    note W = listsD(1) [OF invD(6) [OF I], of "In_wait i", simplified]
    have "g_list G (In_wait i) = []" using rlist_head [OF W] h by simp
    then show ?thesis using W by (simp add: rlist_Nil)
  qed
  have iu: "bitmap_in_use (the_bm s i)" using wr by (simp add: bitmap_in_use_def)
  then have lkd: "bitmap_locked (the_bm t i)" using B(13) by (simp add: tb bitmap_locked_def)
  have st: "tx_started (vbm_tx (the_bm s i)) = tx_finished (vbm_tx (the_bm s i))" "tx_started (vbm_tx (the_bm s i)) \<noteq> 0" using B(1,2) nz live by simp_all
  have rest: "resting t (in_flight t) i" using M(1) n w wait by (simp add: resting_def fl F tb)
  have nt: "n_pending G (in_flight t) i = 0" using nz fl by simp
  have wt: "\<not> wr_pending (the_bm t i)" by (simp add: tb)
  have "owed t G = owed s G" by (rule owed_data_cong) (simp add: tv)
  moreover have "parked t G = parked s G" by (rule parked_cong) (simp_all add: tv)
  ultimately have sy: "steady s G t G" by (intro steadyI(1) same_disk_frame [OF fr]) (auto simp: reported_def tv tb)
  have noz: "\<not> (Zero_req \<in> in_flight s \<and> g_own G Zero_req = In_tx i)" "\<not> (Bat_req \<in> in_flight s \<and> g_own G Bat_req = In_tx i)"
    using n_pending_0_own [OF invD(6) [OF I] nz] by blast+
  let ?Q = "\<lambda>t. ready D {} A t \<and> same_disk s t"
  have dn: "?Q u" if "inv u G' (in_flight u)" "steady t G u G'" for u G'
    by (rule finish_ready [OF that(1) steady_trans [OF sy that(2)] a A PK])
  have lock: "alloc_phase s G ?Pd i \<and> unalloc s i" if l: "has_lock s i"
  proof -
    have "bat_locked s" using l by (simp add: has_lock_def)
    then obtain j where j: "has_lock s j" "unalloc s j" "alloc_phase s G ?Pd j" using invD(3) [OF I] by (auto simp: bat_ok_def)
    then show ?thesis using has_lock_unique [OF invD(5) [OF I] j(1) l] by simp
  qed
  have "wp (finish_bitmap_transaction (Suc (Suc (Suc 0))) i e) (\<lambda>_. ?Q) (\<lambda>_ _. False) t" for e
  proof (cases "tx_bat (the_bm s i)")
    case True
    have b: "has_lock s i" "\<not> prealloc s" "bat_err s = 0" "unalloc s i" using B(17) [OF True] by blast+
    have "bat_started s" "Zero_req \<notin> in_flight s" "Bat_req \<in> in_flight s"
      using lock [OF b(1)] b noz True by (auto simp: alloc_phase_def Let_def)
    then have W: "bat_writing t G (in_flight t) i"
      unfolding bat_writing_def Let_def using C oth b lkd nt wait w wt live True st n
      by (simp add: V F tb fl)
    show ?thesis by (rule wp_fbt_wait [OF W wt]) (use cl dn in \<open>simp_all add: tb\<close>)
  next
    case False
    have "lock_over t G (in_flight t) i"
    proof (cases "has_lock s i")
      case True
      then show ?thesis using lock noz False by (auto simp: lock_over_def V fl alloc_phase_def Let_def split: if_splits)
    next
      case nl: False
      have "bat_ok t G (in_flight t)"
      proof (rule bat_ok_frame [OF invD(3) [OF I] _ _ V(3,4) _ _ refl refl fr])
        show "vbm_tx (the_bm t j) = vbm_tx (the_bm s j) \<and> rd_pending (the_bm t j) = rd_pending (the_bm s j) \<and> wr_pending (the_bm t j) = wr_pending (the_bm s j)"
          if "has_lock s j" for j using that nl by (cases "j = i") (simp_all add: tb)
      qed (simp_all add: tv fl V)
      then show ?thesis using nl by (simp add: lock_over_def V)
    qed
    then have O: "others_ok t G (in_flight t) i" using C oth by (simp add: others_ok_def)
    show ?thesis
      by (rule wp_fbt [OF O rest lkd nt]) (use False dn in \<open>auto simp: tb over_def\<close>)
  qed
  then show ?thesis using M(3) cl w wr
    by (simp add: finishes_def finish_bitmap_write_def count_returned_def wps need_bitmap_def bitmap_valid_def TX_DEPTH_def numeral_2_eq_2 t_def [symmetric]
        Let_def del: finish_bitmap_transaction.simps)
qed

end
