(* ===== verification/Block_Vhd_Table.thy ===== *)
theory Block_Vhd_Table
  imports Block_Vhd_Return
begin

text \<open>
  The completions of an allocation: the bitmap of the new block has been zeroed, and the table has been written.
  Without preallocation a transaction may wait for the table; with it the write of the table is one of its requests.
\<close>

section \<open>A request of the table leaves its transaction\<close>

definition released :: "ghost \<Rightarrow> nat \<Rightarrow> rid \<Rightarrow> ghost" where
  "released G i r = G\<lparr>g_own := (g_own G)(r := Idle), g_list := (g_list G)(In_tx i := remove1 r (g_tx G i))\<rparr>"

lemma released_simps [simp]:
  "g_own (released G i r) q = (if q = r then Idle else g_own G q)"
  "g_list (released G i r) p = (if p = In_tx i then remove1 r (g_tx G i) else g_list G p)"
  by (simp_all add: released_def)

lemma filter_remove1_not: "\<not> P x \<Longrightarrow> filter P (remove1 x xs) = filter P xs"
  by (induction xs) auto

lemma n_pending_released:
  assumes "r \<notin> Pd"
  shows "n_pending (released G i r) Pd j = n_pending G Pd j"
  using assms by (simp add: n_pending_def filter_remove1_not)

lemma wp_leave_transaction:
  assumes C: "core_ok s G (insert r Pd)" and n: "r \<notin> Pd" and o: "g_own G r = In_tx i" and r: "r = Zero_req \<or> r = Bat_req"
    and Q: "\<And>t l. only s t \<Longrightarrow> (\<And>j. the_bm t j = (if j = i then (the_bm s i)\<lparr>vbm_tx := (vbm_tx (the_bm s i))\<lparr>tx_finished := tx_finished (vbm_tx (the_bm s i)) + 1,
        tx_requests := l\<rparr>\<rparr> else the_bm s j)) \<Longrightarrow> (\<And>q. \<exists>n. vs_req t q = (vs_req s q)\<lparr>vr_next := n\<rparr>) \<Longrightarrow>
      (\<And>q. q = r \<or> q \<notin> set (g_tx G i) \<Longrightarrow> vs_req t q = vs_req s q) \<Longrightarrow> core_ok t (released G i r) Pd \<Longrightarrow>
      (n_pending G Pd i \<noteq> 0 \<Longrightarrow> rl_head l \<noteq> None) \<Longrightarrow> Q () t"
  shows "wp (leave_transaction i r) Q E s"
proof -
  have core: "reqs_ok s G (insert r Pd)" "lists_ok s G" "pool_ok s G" using C by (simp_all add: core_ok_def)
  note L = listsD [OF core(2), of "In_tx i", simplified]
  let ?xs = "g_tx G i"
  let ?s1 = "upd_tx i (\<lambda>t. t\<lparr>tx_finished := tx_finished t + 1\<rparr>) s"
  have rx: "r \<in> set ?xs" using L(3) o by simp
  have s1: "vs_req ?s1 = vs_req s" "tx_requests (vbm_tx (the_bm ?s1 i)) = tx_requests (vbm_tx (the_bm s i))" by (simp_all add: upds)
  have "wp (remove_from_req_list (tx_requests (vbm_tx (the_bm ?s1 i))) r) (\<lambda>(l, c) t. Q () (upd_tx i (\<lambda>t. t\<lparr>tx_requests := l\<rparr>) t)) E ?s1"
  proof (rule wp_remove_from_req_list [where xs = ?xs])
    show "rlist (nexts ?s1) (tx_requests (vbm_tx (the_bm ?s1 i))) ?xs" unfolding s1 by (rule L(1))
    show "r \<in> set ?xs" "distinct ?xs" using rx L(2) by simp_all
    show "length ?xs \<le> VHD_REQS_TOTAL" by (rule tx_list_bound [OF core(1,2)]) simp
    fix u l c assume u: "unlinked r ?xs ?s1 u" and rl: "rlist (nexts u) l (remove1 r ?xs)"
    define t where "t = upd_tx i (\<lambda>t. t\<lparr>tx_requests := l\<rparr>) u"
    from u consider (same) "u = ?s1" | (one) k x where "k \<in> set ?xs" "k \<noteq> r" "u = upd_req k (\<lambda>q. q\<lparr>vr_next := x\<rparr>) ?s1" by (auto simp: unlinked_def)
    note cs = this
    have on: "only s t" unfolding t_def using cs by cases (simp_all add: only_upd only_refl)
    have bm: "the_bm t j = (if j = i then (the_bm s i)\<lparr>vbm_tx := (vbm_tx (the_bm s i))\<lparr>tx_finished := tx_finished (vbm_tx (the_bm s i)) + 1, tx_requests := l\<rparr>\<rparr> else the_bm s j)" for j
      unfolding t_def using cs by cases (simp_all add: upds)
    have q: "\<exists>n. vs_req t q = (vs_req s q)\<lparr>vr_next := n\<rparr>" for q
      using cs
    proof cases
      case same
      then show ?thesis by (intro exI [of _ "vr_next (vs_req s q)"]) (simp add: t_def upds)
    next
      case one
      then show ?thesis by (intro exI [of _ "if q = k then x else vr_next (vs_req s q)"]) (simp add: t_def upds)
    qed
    have qs: "vs_req t q = vs_req s q" if "q = r \<or> q \<notin> set ?xs" for q
      unfolding t_def using cs by cases (use that in \<open>auto simp: upds\<close>)
    have tu: "vs_req t = vs_req u" by (simp add: t_def upds)
    have tv: "vs_flags t = vs_flags s" "vs_vhd t = vs_vhd s" "vs_spb t = vs_spb s" "vs_spp t = vs_spp s" "vs_bm_secs t = vs_bm_secs s" "vs_zsize t = vs_zsize s"
      "vs_bat t = vs_bat s" "vs_bitmap t = vs_bitmap s" "vs_bitmap_free t = vs_bitmap_free s" "vs_vreq_free t = vs_vreq_free s"
      using on by (auto elim: onlyE)
    have fr: "same_frame s t" by (simp add: same_frame_def tv bm bat_table_def)
    have lo: "list_at t p = (if p = In_tx i then l else list_at s p)" for p
      by (cases p) (simp_all add: bm)
    have LL: "lists_ok t (released G i r)" unfolding released_def
    proof (rule lists_unlink [OF core(2) o])
      show "rlist (nexts t) (list_at t (In_tx i)) (remove1 r ?xs)" using rl by (simp add: tu bm)
      show "nexts t q = nexts s q" if "q \<notin> set ?xs" for q using qs [of q] that by simp
    qed (simp_all add: lo)
    have pf: "g_own G r \<noteq> Free" using o by simp
    have P: "pool_ok t (released G i r)" using core(3) pf by (auto simp: pool_ok_def tv)
    have "core_ok t (released G i r) Pd"
    proof (rule core_move [OF C fr _ LL P, of r Idle])
      show "req_frame s t G r" unfolding req_frame_def
      proof (intro allI impI)
        fix q assume "q \<noteq> r"
        show "vs_req t q = vs_req s q \<or> g_own G q \<notin> {Free, Loose} \<and> (\<exists>n. vs_req t q = (vs_req s q)\<lparr>vr_next := n\<rparr>)"
        proof (cases "q \<in> set ?xs")
          case True
          then have "g_own G q = In_tx i" using L(3) by simp
          then show ?thesis using q [of q] by simp
        next
          case False
          then show ?thesis using qs [of q] by simp
        qed
      qed
      show "is_data r \<and> dreq_ok t (released G i r) Pd r \<or> r = Zero_req \<and> zero_ok t (released G i r) Pd \<or> r = Bat_req \<and> batreq_ok t (released G i r) Pd"
        using r n by (auto simp: zero_ok_def batreq_ok_def Let_def)
    qed (use n in \<open>auto simp: released_def bm\<close>)
    moreover have "rl_head l \<noteq> None" if nz: "n_pending G Pd i \<noteq> 0"
    proof -
      have "filter (\<lambda>q. q \<in> Pd) (remove1 r ?xs) \<noteq> []" using nz n by (simp add: n_pending_def filter_remove1_not)
      then have "remove1 r ?xs \<noteq> []" by (metis filter.simps(1))
      then show ?thesis using rlist_head [OF rl] by simp
    qed
    ultimately have "Q () t" by (intro Q [OF on bm q qs]) simp_all
    then show "(case (l, c) of (l, c) \<Rightarrow> \<lambda>t. Q () (upd_tx i (\<lambda>t. t\<lparr>tx_requests := l\<rparr>) t)) u" by (simp add: t_def)
  qed
  then have "wp (remove_from_req_list (tx_requests (vbm_tx (the_bm ?s1 i))) r) (\<lambda>x. wp (case x of (l, c) \<Rightarrow> vmodify (upd_tx i (\<lambda>t. t\<lparr>tx_requests := l\<rparr>))) Q E) E ?s1"
    by (rule wp_mono) (auto simp: wps)
  then show ?thesis unfolding leave_transaction_def by (simp add: wps)
qed

lemma core_init_bat:
  assumes C: "core_ok s G Pd" and own: "g_own G Bat_req = Idle" and z: "Bat_req \<notin> Pd"
  shows "core_ok (init_bat (unlock_bat s)) G Pd" "same_frame s (init_bat (unlock_bat s))"
proof -
  define t where "t = init_bat (unlock_bat s)"
  have core: "lists_ok s G" "pool_ok s G" using C by (simp_all add: core_ok_def)
  have tv: "vs_flags t = vs_flags s" "vs_vhd t = vs_vhd s" "vs_spb t = vs_spb s" "vs_spp t = vs_spp s" "vs_bm_secs t = vs_bm_secs s" "vs_zsize t = vs_zsize s"
    "vs_bitmap t = vs_bitmap s" "vs_bitmap_free t = vs_bitmap_free s" "vs_vreq_free t = vs_vreq_free s"
    "vs_bitmap_list t = vs_bitmap_list s" "vb_bat (vs_bat t) = vb_bat (vs_bat s)" "vb_batmap (vs_bat t) = vb_batmap (vs_bat s)"
    "vs_req t = (vs_req s)(Bat_req := (vs_req s Bat_req)\<lparr>vr_tx := None, vr_next := None, vr_error := 0\<rparr>)"
    by (simp_all add: t_def init_bat_def unlock_bat_def upds)
  have fr: "same_frame s t" by (simp add: same_frame_def tv bat_table_def)
  have "core_ok t G Pd"
  proof (rule core_move [OF C fr, of Bat_req G "g_own G Bat_req"])
    have lst: "list_at t p = list_at s p" for p by (cases p) (simp_all add: tv)
    have "rlist (nexts t) (list_at t p) (g_list G p) = rlist (nexts s) (list_at s p) (g_list G p)" if "listed p" for p
    proof -
      have "Bat_req \<notin> set (g_list G p)" using listsD(3) [OF core(1) that] own that by auto
      then have "nexts t r = nexts s r" if "r \<in> set (g_list G p)" for r using that by (auto simp: tv)
      then show ?thesis unfolding lst by (rule rlist_cong)
    qed
    then show "lists_ok t G" using core(1) by (simp add: lists_ok_def)
    show "pool_ok t G" using core(2) by (simp add: pool_ok_def tv)
    show "is_data Bat_req \<and> dreq_ok t G Pd Bat_req \<or> Bat_req = Zero_req \<and> zero_ok t G Pd \<or> Bat_req = Bat_req \<and> batreq_ok t G Pd"
      using own z by (simp add: batreq_ok_def Let_def)
  qed (simp_all add: req_frame_def tv)
  then show "core_ok (init_bat (unlock_bat s)) G Pd" "same_frame s (init_bat (unlock_bat s))" using fr by (simp_all add: t_def)
qed

lemma zero_phase:
  assumes I: "inv s G (insert Zero_req Pd)" and Z: "Zero_req \<notin> Pd"
  obtains i where "has_lock s i" "unalloc s i" "\<not> prealloc s" "\<not> bat_started s" "Bat_req \<notin> Pd" "tx_bat (the_bm s i)" "bat_err s = 0"
    "g_own G Zero_req = In_tx i" "vr_tx (vs_req s Zero_req) = Some i" "blk_of s (td_sec (vr_treq (vs_req s Zero_req))) = vbm_blk (the_bm s i)"
    "g_own G Bat_req = Idle" "sec_ok s (td_sec (vr_treq (vs_req s Zero_req)))" "\<not> tx_closed (vbm_tx (the_bm s i))" "\<not> wr_pending (the_bm s i)"
    "vr_op (vs_req s Zero_req) = VHD_OP_ZERO_BM_WRITE"
proof -
  have bl: "bat_locked s"
  proof (rule ccontr)
    assume "\<not> bat_locked s"
    then show False using invD(3) [OF I] by (simp add: bat_ok_def bat_idle_def)
  qed
  then obtain i where i: "has_lock s i" "unalloc s i" "alloc_phase s G (insert Zero_req Pd) i" using invD(3) [OF I] by (auto simp: bat_ok_def)
  have ph: "\<not> prealloc s" "\<not> bat_started s" "Bat_req \<notin> Pd" "tx_bat (the_bm s i)" "bat_err s = 0" "g_own G Zero_req = In_tx i"
    using i(3) by (auto simp: alloc_phase_def Let_def split: if_splits)
  have z: "zero_ok s G (insert Zero_req Pd)" "batreq_ok s G (insert Zero_req Pd)" using invD(8) [OF I] by (simp_all add: reqs_ok_def)
  note B = bm_okD [OF invD(2) [OF I, of i, unfolded bitmap_ok_def n_pending_back(1) [OF invD(6) [OF I] ph(6) Z]]]
  have "\<not> tx_closed (vbm_tx (the_bm s i))" using B(6) ph(5) by blast
  moreover have "\<not> wr_pending (the_bm s i)" using B(8) calculation by blast
  ultimately show thesis using that [of i] i ph z by (auto simp: zero_ok_def batreq_ok_def Let_def)
qed

lemma returned_inv [simp]:
  "inv (s\<lparr>vs_returned := x\<rparr>) G Pd = inv s G Pd" "in_flight (s\<lparr>vs_returned := x\<rparr>) = in_flight s" "reported (s\<lparr>vs_returned := x\<rparr>) = reported s"
  "aio_ok (s\<lparr>vs_returned := x\<rparr>) = aio_ok s" "owed (s\<lparr>vs_returned := x\<rparr>) G = owed s G" "parked (s\<lparr>vs_returned := x\<rparr>) G = parked s G"
  "same_disk (s\<lparr>vs_returned := x\<rparr>) t = same_disk s t"
proof -
  show "inv (s\<lparr>vs_returned := x\<rparr>) G Pd = inv s G Pd" by (rule inv_cong) (simp_all add: bat_table_def)
  show "owed (s\<lparr>vs_returned := x\<rparr>) G = owed s G" by (rule owed_data_cong) simp
  show "parked (s\<lparr>vs_returned := x\<rparr>) G = parked s G" by (rule parked_cong) simp_all
qed (simp_all add: in_flight_def reported_def aio_ok_def same_disk_def n_blocks_def)

lemma finishes_returned:
  assumes "finishes D A m (s\<lparr>vs_returned := vs_returned s + 1\<rparr>)"
  shows "finishes D A (vthen count_returned m) s"
  using assms by (simp add: finishes_def count_returned_def wps)

text \<open>What is left to do when a request of the table has left its transaction.\<close>

lemma finish_if_left:
  assumes C: "core_ok u G (in_flight u)" and oth: "\<And>j. j \<noteq> i \<Longrightarrow> bitmap_ok u G (in_flight u) j" and bat: "bat_ok u G (in_flight u)"
    and ins: "installed u i" and st: "\<not> rd_pending (the_bm u i)" "\<not> wr_pending (the_bm u i)" "Bm_req i \<notin> in_flight u" "vbm_waiting (the_bm u i) = req_list_nil"
    and lkd: "bitmap_locked (the_bm u i)" and live: "tx_live (the_bm u i)" and op: "\<not> tx_closed (vbm_tx (the_bm u i))" and q: "rl_head (vbm_queue (the_bm u i)) = None"
    and n: "tx_started (vbm_tx (the_bm u i)) = tx_finished (vbm_tx (the_bm u i)) + n_pending G (in_flight u) i" "tx_started (vbm_tx (the_bm u i)) \<noteq> 0"
    and un: "tx_error (vbm_tx (the_bm u i)) = 0 \<Longrightarrow> unalloc u i \<Longrightarrow> has_lock u i" and tb: "tx_bat (the_bm u i) \<Longrightarrow> has_lock u i \<and> \<not> prealloc u \<and> bat_err u = 0 \<and> unalloc u i"
    and l: "n_pending G (in_flight u) i \<noteq> 0 \<Longrightarrow> rl_head (tx_requests (vbm_tx (the_bm u i))) \<noteq> None"
    and sy: "steady s G0 u G" and a: "aio_ok s" and A: "reported s + owed s G0 = A" and PK: "parked s G0 = D"
  shows "wp (if transaction_completed (vbm_tx (the_bm u i)) then finish_data_transaction i else vret ()) (\<lambda>_ t. ready D {} A t \<and> same_disk s t) E u"
proof (cases "n_pending G (in_flight u) i = 0")
  case True
  have "drained u G (in_flight u) i" unfolding drained_def Let_def resting_def
    using C oth bat ins st lkd live op n un tb True by simp
  then have "wp (finish_data_transaction i) (\<lambda>_ t. ready D {} A t \<and> same_disk s t) E u"
    by (rule wp_finish_data) (rule finish_ready [OF _ steady_trans [OF sy] a A PK])
  then show ?thesis using n(1) True by (simp add: transaction_completed_def)
next
  case False
  have iu: "bitmap_in_use (the_bm u i)" using l False by (simp add: bitmap_in_use_def)
  have "bitmap_ok u G (in_flight u) i" unfolding bitmap_ok_def
  proof (rule bm_okI)
    show "bitmap_locked (the_bm u i)" by (rule lkd)
  qed (use ins st live op q n un tb False in \<open>auto simp: req_list_nil_def\<close>)
  then have "bitmap_ok u G (in_flight u) j" for j using oth by (cases "j = i") simp_all
  then have "inv u G (in_flight u)" using C bat by (simp add: inv_def)
  from finish_ready [OF this sy a A PK] show ?thesis using n(1) False by (simp add: transaction_completed_def wps)
qed

section \<open>The zeros of a new bitmap are written\<close>

lemma finishes_zero_bm_write:
  assumes I0: "inv s0 G (insert Zero_req (in_flight s0))" and n: "Zero_req \<notin> in_flight s0" and a: "aio_ok s0" and A: "reported s0 + owed s0 G = A" and PK: "parked s0 G = D"
  shows "finishes D A finish_zero_bm_write s0"
  unfolding finish_zero_bm_write_def
proof (rule finishes_returned)
  define s where "s = s0\<lparr>vs_returned := vs_returned s0 + 1\<rparr>"
  have fl: "in_flight s0 = in_flight s" by (simp add: s_def)
  have I: "inv s G (insert Zero_req (in_flight s))" and N: "Zero_req \<notin> in_flight s" and a': "aio_ok s" and A': "reported s + owed s G = A" and PK': "parked s G = D"
    using I0 n a A PK by (simp_all add: s_def)
  let ?Pd = "in_flight s"
  from zero_phase [OF I N] obtain i where Z: "has_lock s i" "unalloc s i" "\<not> prealloc s" "\<not> bat_started s" "Bat_req \<notin> ?Pd" "tx_bat (the_bm s i)" "bat_err s = 0"
    "g_own G Zero_req = In_tx i" "vr_tx (vs_req s Zero_req) = Some i" "blk_of s (td_sec (vr_treq (vs_req s Zero_req))) = vbm_blk (the_bm s i)"
    "g_own G Bat_req = Idle" "sec_ok s (td_sec (vr_treq (vs_req s Zero_req)))" "\<not> tx_closed (vbm_tx (the_bm s i))" "\<not> wr_pending (the_bm s i)" .
  note T = in_tx_bitmap [OF I Z(8)]
  note np = n_pending_back [OF invD(6) [OF I] Z(8) N]
  note B = bm_okD [OF invD(2) [OF I, of i, unfolded bitmap_ok_def np(1)]]
  have cfg: "driver_cfg s" "cache_ok s" using invD [OF I] by blast+
  have lb: "bat_locked s" "vb_pbw_blk (vs_bat s) = vbm_blk (the_bm s i)" using Z(1) by (simp_all add: has_lock_def)
  have blk: "unat (vbm_blk (the_bm s i)) < n_blocks s" using cfg(2) T(1) by (auto simp: cache_ok_def installed_cached)
  have bp: "Bm_req i \<notin> ?Pd" using B(10) Z(14) T(3) by blast
  have qn: "rl_head (vbm_queue (the_bm s i)) = None" using B(3) Z(13) by blast
  have ent: "tx_started (vbm_tx (the_bm s i)) = Suc (tx_finished (vbm_tx (the_bm s i)) + n_pending G ?Pd i)" using B(2) by simp
  have nl: "\<not> has_lock s j" if "j \<noteq> i" for j using has_lock_unique [OF cfg(2) Z(1)] that by blast
  let ?G = "released G i Zero_req"
  let ?Q = "\<lambda>t. ready D {} A t \<and> same_disk s t"
  let ?e = "vr_error (vs_req s Zero_req)"
  let ?m = "vthen (if ?e \<noteq> 0 then vthen (vmodify unlock_bat) (vthen (vmodify init_bat) (vmodify (upd_tx i (\<lambda>t. t\<lparr>tx_error := ?e,
                    tx_status := clear_vhd_flag (tx_status t) VHD_FLAG_TX_UPDATE_BAT\<rparr>)))) else schedule_bat_write)
               (vget (\<lambda>s. if transaction_completed (vbm_tx (the_bm s i)) then finish_data_transaction i else vret ()))"
  have main: "wp (leave_transaction i Zero_req) (\<lambda>_. wp ?m (\<lambda>_. ?Q) (\<lambda>_ _. False)) (\<lambda>_ _. False) s"
  proof (rule wp_leave_transaction [OF invD(1) [OF I] N Z(8)])
    fix t l
    assume on: "only s t" and bm: "\<And>j. the_bm t j = (if j = i then (the_bm s i)\<lparr>vbm_tx := (vbm_tx (the_bm s i))\<lparr>tx_finished := tx_finished (vbm_tx (the_bm s i)) + 1,
        tx_requests := l\<rparr>\<rparr> else the_bm s j)" and rq: "\<And>q. \<exists>n. vs_req t q = (vs_req s q)\<lparr>vr_next := n\<rparr>"
      and rs: "\<And>q. q = Zero_req \<or> q \<notin> set (g_tx G i) \<Longrightarrow> vs_req t q = vs_req s q" and C: "core_ok t ?G ?Pd"
      and ln: "n_pending G ?Pd i \<noteq> 0 \<Longrightarrow> rl_head l \<noteq> None"
    have tv: "vs_flags t = vs_flags s" "vs_vhd t = vs_vhd s" "vs_spb t = vs_spb s" "vs_spp t = vs_spp s" "vs_bm_secs t = vs_bm_secs s" "vs_zsize t = vs_zsize s"
      "vs_bat t = vs_bat s" "vs_bitmap t = vs_bitmap s" "vs_bitmap_free t = vs_bitmap_free s" "vs_vreq_free t = vs_vreq_free s" "vs_aio t = vs_aio s" "vs_out t = vs_out s"
      using on by (auto elim: onlyE)
    have q: "vr_op (vs_req t q) = vr_op (vs_req s q)" "vr_treq (vs_req t q) = vr_treq (vs_req s q)" for q using rq [of q] by auto
    have bq: "vs_req t Bat_req = vs_req s Bat_req"
      by (rule rs) (use listsD(3) [OF invD(6) [OF I], of "In_tx i" Bat_req] Z(11) in simp)
    have bt: "bat_table t = bat_table s" by (simp add: bat_table_def tv)
    have fr: "same_frame s t" by (simp add: same_frame_def tv bm bt)
    have lk: "same_lock s t" by (simp add: same_lock_def tv bt bq)
    note F = same_frameD [OF fr] and V = same_lockD [OF lk fr]
    have nt: "n_pending ?G ?Pd j = n_pending G ?Pd j" for j by (rule n_pending_released [OF N])
    have pk: "parked u ?G = parked s G" if "\<And>q. is_data q \<Longrightarrow> vs_req u q = vs_req t q" for u
    proof (rule parked_cong)
      show "g_own ?G q = Parked \<longleftrightarrow> g_own G q = Parked" for q using Z(8) by simp
      fix q assume p: "g_own G q = Parked"
      then have "q \<notin> set (g_tx G i)" using listsD(3) [OF invD(6) [OF I], of "In_tx i" q] by simp
      moreover have "is_data q" using own_data [OF invD(8) [OF I] p] by simp
      ultimately show "vs_req u q = vs_req s q" using that rs by simp
    qed
    have ow: "owed u ?G = owed s G" if "\<And>q. is_data q \<Longrightarrow> vs_req u q = vs_req t q" for u
    proof (rule owed_cong)
      fix q assume "is_data q"
      then show "contrib u ?G q = contrib s G q" using that q by (auto simp: contrib_def)
    qed
    show "wp ?m (\<lambda>_. ?Q) (\<lambda>_ _. False) t"
    proof (cases "?e = 0")
      case e: False
      let ?f = "\<lambda>t. t\<lparr>tx_error := ?e, tx_status := clear_vhd_flag (tx_status t) VHD_FLAG_TX_UPDATE_BAT\<rparr>"
      define v where "v = init_bat (unlock_bat t)"
      define u where "u = upd_tx i ?f v"
      have Bp: "g_own ?G Bat_req = Idle" using Z(11) by simp
      note Cv = core_init_bat [OF C Bp Z(5), folded v_def]
      have refl_f: "tx_requests (?f x) = tx_requests x" for x by simp
      note X = tx_changed [where f = ?f and s = v and i = i, OF refl_f, folded u_def]
      have vv: "vs_flags v = vs_flags s" "vs_aio v = vs_aio s" "vs_out v = vs_out s" "the_bm v = the_bm t" "vb_status (vs_bat v) = 0" "vs_vreq_free v = vs_vreq_free s"
        "vs_req v = (vs_req t)(Bat_req := (vs_req t Bat_req)\<lparr>vr_tx := None, vr_next := None, vr_error := 0\<rparr>)"
        by (simp_all add: v_def init_bat_def unlock_bat_def upds tv)
      have btv: "bat_table v = bat_table s" unfolding bt [symmetric] by (simp add: v_def init_bat_def unlock_bat_def upds bat_table_def)
      have ufl: "in_flight u = ?Pd" unfolding X(5) by (simp add: in_flight_def vv)
      have uv: "vs_req u = vs_req v" "vs_flags u = vs_flags s" by (simp_all add: X(10) X(8) vv)
      have fru: "same_frame s u" using fr Cv(2) X(14) by (simp add: same_frame_def)
      note Fu = same_frameD [OF fru]
      have nlu: "\<not> bat_locked u" "\<not> has_lock u j" for j by (simp_all add: bat_locked_def has_lock_def X(11) vv)
      have ub: "the_bm u j = (if j = i then (the_bm s i)\<lparr>vbm_tx := ?f ((vbm_tx (the_bm s i))\<lparr>tx_finished := tx_finished (vbm_tx (the_bm s i)) + 1,
        tx_requests := l\<rparr>)\<rparr> else the_bm s j)" for j by (simp add: X(9) vv bm)
      have un: "unalloc u j = unalloc s j" for j unfolding X(7) using btv fr Cv(2) by (simp add: unalloc_def same_frame_def installed_def)
      have Cu: "core_ok u ?G (in_flight u)" unfolding ufl by (rule X(1) [OF Cv(1)])
      have oth: "bitmap_ok u ?G (in_flight u) j" if j: "j \<noteq> i" for j unfolding ufl
        by (rule bitmap_ok_frame [OF invD(2) [OF I, of j]]) (use j np(2) nt nl nlu in \<open>simp_all add: ub Fu un\<close>)
      have bat: "bat_ok u ?G (in_flight u)" unfolding ufl using nlu N Z(5) by (simp add: bat_ok_def bat_idle_def X(11) vv uv)
      have d: "is_data q \<Longrightarrow> vs_req u q = vs_req t q" for q by (auto simp: uv vv)
      have sy: "steady s G u ?G"
        by (intro steadyI(1) same_disk_frame [OF fru]) (simp_all add: reported_def ow pk d, simp_all add: u_def upd_tx_def upd_bm_def vv, auto simp: bm)
      have "wp (if transaction_completed (vbm_tx (the_bm u i)) then finish_data_transaction i else vret ()) (\<lambda>_. ?Q) (\<lambda>_ _. False) u"
        by (rule finish_if_left [OF Cu oth bat _ _ _ _ _ _ _ _ _ _ _ _ _ _ sy a' A' PK'])
          (use T Z(13,14) bp qn ent ln e nt in \<open>simp_all add: ufl ub Fu, simp_all add: bitmap_locked_def\<close>)
      then show ?thesis using e by (simp add: wps u_def v_def)
    next
      case True
      have "wp schedule_bat_write (\<lambda>_ u. wp (if transaction_completed (vbm_tx (the_bm u i)) then finish_data_transaction i else vret ()) (\<lambda>_. ?Q) (\<lambda>_ _. False) u) (\<lambda>_ _. False) t"
      proof (rule wp_schedule_bat_write)
        show "driver_cfg t" "bat_locked t" "unat (vb_pbw_blk (vs_bat t)) < n_blocks t" using cfg lb blk by (simp_all add: F V tv)
        fix buf off
        define u where "u = aio_state True Bat_req off (bat_write_state buf t)"
        have uv: "vs_flags u = vs_flags s" "vs_vhd u = vs_vhd s" "vs_spb u = vs_spb s" "vs_spp u = vs_spp s" "vs_bm_secs u = vs_bm_secs s" "vs_zsize u = vs_zsize s"
          "vs_bitmap u = vs_bitmap s" "vs_bitmap_free u = vs_bitmap_free s" "vs_vreq_free u = vs_vreq_free s" "vs_out u = vs_out s"
          "the_bm u = the_bm t" "vs_req u = (vs_req t)(Bat_req := new_req (td_zero\<lparr>td_secs := 1, td_buf := Bat_buf\<rparr>) 0 VHD_OP_BAT_WRITE)"
          "vb_bat (vs_bat u) = vb_bat (vs_bat s)" "vb_batmap (vs_bat u) = vb_batmap (vs_bat s)" "vb_pbw_blk (vs_bat u) = vb_pbw_blk (vs_bat s)"
          "vb_status (vs_bat u) = set_vhd_flag (vb_status (vs_bat s)) VHD_FLAG_BAT_WRITE_STARTED"
          by (simp_all add: u_def bat_write_state_def upds tv)
        have ua: "\<exists>x. aio_rw x \<and> aio_req x = Bat_req \<and> vs_aio u = vs_aio s @ [x]"
          by (simp add: u_def aio_state_def aio_call_def aio_write_def vmodify_def Let_def bat_write_state_def upds tv)
        then have ufl: "in_flight u = insert Bat_req ?Pd" by (auto simp: in_flight_def)
        have btu: "bat_table u = bat_table s" by (simp add: bat_table_def uv)
        have frt: "same_frame t u" by (simp add: same_frame_def uv tv bt btu)
        have fru: "same_frame s u" using fr frt by (simp add: same_frame_def)
        note Fu = same_frameD [OF fru]
        have hl: "has_lock u j = has_lock s j" "unalloc u j = unalloc s j" "bat_locked u" for j
          using lb unalloc_frame [OF fru btu] by (simp_all add: has_lock_def bat_locked_def uv Fu bm)
        have nr: "n_pending ?G (insert Bat_req ?Pd) j = n_pending G ?Pd j" for j
        proof -
          have "Bat_req \<notin> set (g_tx ?G j)"
            using listsD(3) [OF invD(6) [OF I], of "In_tx j" Bat_req] listsD(3) [OF invD(6) [OF I], of "In_tx i" Bat_req] Z(11) notin_set_remove1 by auto
          then have "filter (\<lambda>q. q \<in> insert Bat_req ?Pd) (g_tx ?G j) = filter (\<lambda>q. q \<in> ?Pd) (g_tx ?G j)" by (intro filter_cong refl) (metis insert_iff)
          then show ?thesis using nt [of j] by (simp add: n_pending_def)
        qed
        have Cu: "core_ok u ?G (in_flight u)" unfolding ufl
        proof (rule core_move [OF C frt, of Bat_req ?G "g_own ?G Bat_req"])
          have Ct: "lists_ok t ?G" "pool_ok t ?G" using C by (simp_all add: core_ok_def)
          have lst: "list_at u p = list_at t p" for p by (cases p) (simp_all add: uv)
          have "rlist (nexts u) (list_at u p) (g_list ?G p) = rlist (nexts t) (list_at t p) (g_list ?G p)" if "listed p" for p
          proof -
            have "Bat_req \<notin> set (g_list ?G p)" using listsD(3) [OF Ct(1) that, of Bat_req] Z(11) that by auto
            then have "nexts u r = nexts t r" if "r \<in> set (g_list ?G p)" for r using that by (auto simp: uv)
            then show ?thesis unfolding lst by (rule rlist_cong)
          qed
          then show "lists_ok u ?G" using Ct(1) by (simp add: lists_ok_def)
          show "pool_ok u ?G" using Ct(2) by (simp add: pool_ok_def uv tv)
          show "is_data Bat_req \<and> dreq_ok u ?G (insert Bat_req ?Pd) Bat_req \<or> Bat_req = Zero_req \<and> zero_ok u ?G (insert Bat_req ?Pd) \<or>
              Bat_req = Bat_req \<and> batreq_ok u ?G (insert Bat_req ?Pd)"
            using Z(3,11) by (simp add: batreq_ok_def Let_def uv td_zero_def)
        qed (auto simp: req_frame_def uv)
        have oth: "bitmap_ok u ?G (in_flight u) j" if j: "j \<noteq> i" for j unfolding ufl
          by (rule bitmap_ok_frame [OF invD(2) [OF I, of j]]) (use j np(2) nr nl hl in \<open>simp_all add: uv bm Fu\<close>)
        have ph: "alloc_phase u ?G (in_flight u) i" unfolding ufl using N Z(3,6,13) by (simp add: alloc_phase_def Let_def uv bm Fu)
        have bat: "bat_ok u ?G (in_flight u)" using ph hl Z(1,2) T(2,3) by (auto simp: bat_ok_def uv bm intro!: exI [of _ i])
        have d: "is_data q \<Longrightarrow> vs_req u q = vs_req t q" for q by (auto simp: uv)
        have sy: "steady s G u ?G"
        proof -
          have "aio_ok u" using a' ua n fl Z(5) by (auto simp: aio_ok_def in_flight_def uv bm)
          then show ?thesis using same_disk_frame [OF fru] using ow [OF d] pk [OF d] by (simp add: steady_def reported_def uv)
        qed
        have "wp (if transaction_completed (vbm_tx (the_bm u i)) then finish_data_transaction i else vret ()) (\<lambda>_. ?Q) (\<lambda>_ _. False) u"
          by (rule finish_if_left [OF Cu oth bat _ _ _ _ _ _ _ _ _ _ _ _ _ _ sy a' A' PK'])
            (use T Z bp qn ent ln nr in \<open>simp_all add: ufl uv bm Fu hl, simp_all add: bitmap_locked_def\<close>)
        then show "wp (if transaction_completed (vbm_tx (the_bm (aio_state True Bat_req off (bat_write_state buf t)) i)) then finish_data_transaction i else vret ()) (\<lambda>_. ?Q) (\<lambda>_ _. False)
            (aio_state True Bat_req off (bat_write_state buf t))" by (simp add: u_def)
      qed
      then show ?thesis using True by (simp add: wp_fun)
    qed
  qed simp
  have g: "get_bitmap s (vbm_blk (the_bm s i)) = Some i" using get_bitmap_Some [OF cfg(2)] T(1) by simp
  have "wp (vget (\<lambda>s. let q = vs_req s Zero_req; blk = blk_of s (td_sec (vr_treq q)) in
     vthen (vassert (bat_locked s)) (vthen (vassert (vb_pbw_blk (vs_bat s) = blk))
       (need_bitmap blk (\<lambda>i. vthen (vassert (bitmap_valid (the_bm s i) \<and> bitmap_locked (the_bm s i)))
         (case vr_tx q of None \<Rightarrow> vraise Undef | Some x \<Rightarrow>
           vthen (leave_transaction x Zero_req)
             (vthen (if vr_error q \<noteq> 0 then
                  vthen (vmodify unlock_bat) (vthen (vmodify init_bat) (vmodify (upd_tx x (\<lambda>t. t\<lparr>tx_error := vr_error q,
                    tx_status := clear_vhd_flag (tx_status t) VHD_FLAG_TX_UPDATE_BAT\<rparr>))))
                else schedule_bat_write)
               (vget (\<lambda>s. if transaction_completed (vbm_tx (the_bm s x)) then finish_data_transaction i else vret ()))))))))) (\<lambda>_. ?Q) (\<lambda>_ _. False) s"
    unfolding wp_vget Let_def wp_vbind wp_vassert need_bitmap_def Z(10) g option.case Z(9)
    using lb T(3,4) main unfolding bitmap_valid_def wp_vbind wp_fun(2) by blast
  then show "finishes D A (vget (\<lambda>s. let q = vs_req s Zero_req; blk = blk_of s (td_sec (vr_treq q)) in
     vthen (vassert (bat_locked s)) (vthen (vassert (vb_pbw_blk (vs_bat s) = blk))
       (need_bitmap blk (\<lambda>i. vthen (vassert (bitmap_valid (the_bm s i) \<and> bitmap_locked (the_bm s i)))
         (case vr_tx q of None \<Rightarrow> vraise Undef | Some x \<Rightarrow>
           vthen (leave_transaction x Zero_req)
             (vthen (if vr_error q \<noteq> 0 then
                  vthen (vmodify unlock_bat) (vthen (vmodify init_bat) (vmodify (upd_tx x (\<lambda>t. t\<lparr>tx_error := vr_error q,
                    tx_status := clear_vhd_flag (tx_status t) VHD_FLAG_TX_UPDATE_BAT\<rparr>))))
                else schedule_bat_write)
               (vget (\<lambda>s. if transaction_completed (vbm_tx (the_bm s x)) then finish_data_transaction i else vret ()))))))))) (s0\<lparr>vs_returned := vs_returned s0 + 1\<rparr>)"
    by (simp add: finishes_def s_def)
qed

section \<open>The table is written\<close>

lemma bat_phase:
  assumes I: "inv s G (insert Bat_req Pd)" and Z: "Bat_req \<notin> Pd"
  obtains i where "has_lock s i" "unalloc s i" "tx_live (the_bm s i)" "\<not> rd_pending (the_bm s i)" "bat_started s" "Zero_req \<notin> Pd" "bat_err s = 0" "installed s i"
    "prealloc s \<longrightarrow> g_own G Bat_req = In_tx i" "\<not> prealloc s \<longrightarrow> g_own G Bat_req = Idle" "\<not> prealloc s \<longrightarrow> tx_bat (the_bm s i)"
    "\<not> prealloc s \<longrightarrow> bat_tx s = None \<or> bat_tx s = Some i"
    "\<not> prealloc s \<longrightarrow> (bat_tx s = Some i \<longleftrightarrow> tx_closed (vbm_tx (the_bm s i)) \<and> tx_started (vbm_tx (the_bm s i)) = tx_finished (vbm_tx (the_bm s i)) \<and> \<not> wr_pending (the_bm s i))"
proof -
  have bl: "bat_locked s"
  proof (rule ccontr)
    assume "\<not> bat_locked s"
    then show False using invD(3) [OF I] by (simp add: bat_ok_def bat_idle_def)
  qed
  then obtain i where i: "has_lock s i" "unalloc s i" "tx_live (the_bm s i)" "\<not> rd_pending (the_bm s i)" "alloc_phase s G (insert Bat_req Pd) i"
    using invD(3) [OF I] by (auto simp: bat_ok_def)
  have "batreq_ok s G (insert Bat_req Pd)" using invD(8) [OF I] by (simp add: reqs_ok_def)
  then have "\<not> prealloc s \<Longrightarrow> g_own G Bat_req = Idle" by (simp add: batreq_ok_def Let_def)
  moreover have "installed s i" using i(1) by (simp add: has_lock_def)
  ultimately show thesis using that [of i] i by (auto simp: alloc_phase_def Let_def split: if_splits)
qed

lemma core_drop_bat:
  assumes C: "core_ok s G (insert Bat_req Pd)" and own: "g_own G Bat_req = Idle" and z: "Bat_req \<notin> Pd"
  shows "core_ok s G Pd"
proof -
  have c: "lists_ok s G" "pool_ok s G" using C by (simp_all add: core_ok_def)
  show ?thesis
  proof (rule core_move [OF C same_frame_refl _ c, of Bat_req "g_own G Bat_req"])
    show "is_data Bat_req \<and> dreq_ok s G Pd Bat_req \<or> Bat_req = Zero_req \<and> zero_ok s G Pd \<or> Bat_req = Bat_req \<and> batreq_ok s G Pd"
      using own z by (simp add: batreq_ok_def Let_def)
  qed (auto simp: req_frame_def)
qed

lemma wp_finish_bat_over:
  assumes V: "over s G Pd i" and Q: "Q () s"
  shows "wp (finish_bat_transaction i) Q E s"
proof -
  note V' = V [unfolded over_def]
  have I: "inv s G Pd" using V' by blast
  show ?thesis
  proof (cases "has_lock s i")
    case False
    then show ?thesis using V' Q by (auto simp: finish_bat_transaction_def wps has_lock_def)
  next
    case True
    then have e: "bat_err s \<noteq> 0" and l: "bat_locked s" "vb_pbw_blk (vs_bat s) = vbm_blk (the_bm s i)" using V' by (simp_all add: has_lock_def)
    from l(1) obtain j where j: "has_lock s j" "tx_live (the_bm s j)" "alloc_phase s G Pd j" using invD(3) [OF I] by (auto simp: bat_ok_def)
    then have "j = i" using has_lock_unique [OF invD(5) [OF I] _ True] by blast
    then have c: "tx_closed (vbm_tx (the_bm s i))" "tx_live (the_bm s i)" using j e by (auto simp: alloc_phase_def Let_def split: if_splits)
    have "(vbm_tx (the_bm s i))\<lparr>tx_closed := True\<rparr> = vbm_tx (the_bm s i)" using c(1) by simp
    then have "upd_tx i (\<lambda>t. t\<lparr>tx_closed := True\<rparr>) s = s" by (simp add: upd_tx_def upd_bm_def)
    then show ?thesis using Q e l c(2) by (simp add: finish_bat_transaction_def wps)
  qed
qed

lemma wp_finish_bat_semi:
  assumes S: "semi s G (in_flight s) i" and l: "bitmap_in_use (the_bm s i) \<longrightarrow> bitmap_locked (the_bm s i)"
    and Q: "\<And>t. inv t G (in_flight t) \<Longrightarrow> steady s G t G \<Longrightarrow> Q () t"
  shows "wp (finish_bat_transaction i) Q E s"
proof -
  note S' = S [unfolded semi_def]
  have B: "bm_ok (prealloc s) False 0 False (unalloc s i) True (Bm_req i \<in> in_flight s) (n_pending G (in_flight s) i) (the_bm s i)"
    by (rule bm_ok_relock [OF _ l]) (use S' in blast)
  show ?thesis
  proof (rule wp_finish_bat_transaction)
    show "others_ok s G (in_flight s) i" "installed s i" "\<not> rd_pending (the_bm s i)" using S' by blast+
    show "bm_ok (prealloc s) False 0 False (unalloc s i) True (Bm_req i \<in> in_flight s) (n_pending G (in_flight s) i) (the_bm s i)" by (rule B)
    assume h: "has_lock s i" "bat_err s \<noteq> 0" "tx_live (the_bm s i)"
    have e: "tx_error (vbm_tx (the_bm s i)) \<noteq> 0" "\<not> tx_closed (vbm_tx (the_bm s i))" using S' h by blast+
    have nb: "\<not> tx_bat (the_bm s i)" using bm_okD(17) [OF B] by blast
    have un: "unalloc s i" using S' h by (simp add: others_ok_def lock_over_def)
    show "tx_error (vbm_tx (the_bm s i)) \<noteq> 0 \<and> \<not> tx_bat (the_bm s i) \<and>
      bm_ok (prealloc s) True (bat_err s) (bat_tx s = Some i) True True (Bm_req i \<in> in_flight s) (n_pending G (in_flight s) i)
      ((the_bm s i)\<lparr>vbm_tx := (vbm_tx (the_bm s i))\<lparr>tx_closed := True\<rparr>\<rparr>)"
      using bm_ok_shut [OF _ e h(3,2)] B un e nb by simp
  next
    show "Q () t" if "inv t G (in_flight s)" "steady s G t G" "in_flight t = in_flight s" for t using Q that by simp
  qed
qed

text \<open>What the answer changes before the transaction is looked at: the entry of the table, or the error of the transaction.\<close>

definition table_answered :: "nat \<Rightarrow> int \<Rightarrow> vhd_state \<Rightarrow> vhd_state" where
  "table_answered i e s = (if e = 0
     then (upd_vbat (\<lambda>b. b\<lparr>vb_bat := (vb_bat b)\<lparr>bat_bat := Some ((bat_table s)[unat (vb_pbw_blk (vs_bat s)) := ucast (vb_pbw_offset (vs_bat s))])\<rparr>\<rparr>) s)
       \<lparr>vs_next_db := vb_pbw_offset (vs_bat s) + ucast (vs_spb s) + ucast (vs_bm_secs s)\<rparr>
     else upd_tx i (\<lambda>t. t\<lparr>tx_error := e\<rparr>) s)"

lemma table_answered:
  fixes x :: u64
  assumes I: "inv s0 G (insert Bat_req (in_flight s0))" and n: "Bat_req \<notin> in_flight s0" and h: "has_lock s0 i" and room: "e = 0 \<longrightarrow> unat (vb_pbw_offset (vs_bat s0)) < 4294967295"
  defines "s \<equiv> (answered Bat_req e s0)\<lparr>vs_returned := x\<rparr>"
  defines "w \<equiv> table_answered i e s"
  shows "same_frame s0 w" "core_ok w G (insert Bat_req (in_flight s0))" "vs_req w = (vs_req s0)(Bat_req := (vs_req s0 Bat_req)\<lparr>vr_error := e\<rparr>)"
    "the_bm w j = (if j = i \<and> e \<noteq> 0 then (the_bm s0 i)\<lparr>vbm_tx := (vbm_tx (the_bm s0 i))\<lparr>tx_error := e\<rparr>\<rparr> else the_bm s0 j)"
    "vs_aio w = vs_aio s0" "vs_out w = vs_out s0" "has_lock w j = has_lock s0 j" "unalloc w j \<longleftrightarrow> unalloc s0 j \<and> \<not> (j = i \<and> e = 0)"
    "vb_status (vs_bat w) = vb_status (vs_bat s0)" "vs_vreq_free w = vs_vreq_free s0" "vs_flags w = vs_flags s0" "vb_pbw_blk (vs_bat w) = vb_pbw_blk (vs_bat s0)"
proof -
  have sv: "vs_flags s = vs_flags s0" "vs_vhd s = vs_vhd s0" "vs_spb s = vs_spb s0" "vs_spp s = vs_spp s0" "vs_bm_secs s = vs_bm_secs s0" "vs_zsize s = vs_zsize s0"
    "vs_bitmap s = vs_bitmap s0" "vs_bitmap_free s = vs_bitmap_free s0" "vs_vreq_free s = vs_vreq_free s0" "vs_out s = vs_out s0" "vs_aio s = vs_aio s0"
    "the_bm s = the_bm s0" "vs_bat s = vs_bat s0" "vs_req s = (vs_req s0)(Bat_req := (vs_req s0 Bat_req)\<lparr>vr_error := e\<rparr>)" "bat_table s = bat_table s0"
    by (simp_all add: s_def, simp_all add: answered_def upds bat_table_def)
  have wv: "vs_flags w = vs_flags s0" "vs_vhd w = vs_vhd s0" "vs_spb w = vs_spb s0" "vs_spp w = vs_spp s0" "vs_bm_secs w = vs_bm_secs s0" "vs_zsize w = vs_zsize s0"
    "vs_bitmap w = vs_bitmap s0" "vs_bitmap_free w = vs_bitmap_free s0" "vs_vreq_free w = vs_vreq_free s0" "vs_out w = vs_out s0" "vs_aio w = vs_aio s0"
    "vs_req w = (vs_req s0)(Bat_req := (vs_req s0 Bat_req)\<lparr>vr_error := e\<rparr>)" "vb_status (vs_bat w) = vb_status (vs_bat s0)"
    "vb_pbw_blk (vs_bat w) = vb_pbw_blk (vs_bat s0)" "bat_entries (vb_bat (vs_bat w)) = bat_entries (vb_bat (vs_bat s0))" "vb_batmap (vs_bat w) = vb_batmap (vs_bat s0)"
    by (simp_all add: w_def table_answered_def upds sv)
  have bt: "bat_table w = (if e = 0 then (bat_table s0)[unat (vb_pbw_blk (vs_bat s0)) := ucast (vb_pbw_offset (vs_bat s0))] else bat_table s0)"
    unfolding sv(13) [symmetric] sv(15) [symmetric] by (simp add: w_def table_answered_def upds bat_table_def)
  have bm: "the_bm w j = (if j = i \<and> e \<noteq> 0 then (the_bm s0 i)\<lparr>vbm_tx := (vbm_tx (the_bm s0 i))\<lparr>tx_error := e\<rparr>\<rparr> else the_bm s0 j)" for j
    by (simp add: w_def table_answered_def upds sv)
  then show "the_bm w j = (if j = i \<and> e \<noteq> 0 then (the_bm s0 i)\<lparr>vbm_tx := (vbm_tx (the_bm s0 i))\<lparr>tx_error := e\<rparr>\<rparr> else the_bm s0 j)" .
  show fr: "same_frame s0 w" by (simp add: same_frame_def wv bm bt)
  note F = same_frameD [OF fr]
  show "vs_req w = (vs_req s0)(Bat_req := (vs_req s0 Bat_req)\<lparr>vr_error := e\<rparr>)" "vs_aio w = vs_aio s0" "vs_out w = vs_out s0" "vb_status (vs_bat w) = vb_status (vs_bat s0)"
    "vs_vreq_free w = vs_vreq_free s0" "vs_flags w = vs_flags s0" "vb_pbw_blk (vs_bat w) = vb_pbw_blk (vs_bat s0)" by (rule wv)+
  show "has_lock w j = has_lock s0 j" by (rule has_lock_frame [OF fr wv(13,14)])
  show "unalloc w j \<longleftrightarrow> unalloc s0 j \<and> \<not> (j = i \<and> e = 0)"
  proof (cases "e = 0")
    case True
    have ci: "cache_ok s0" by (rule invD(5) [OF I])
    have ins: "installed s0 i" and blk: "vb_pbw_blk (vs_bat s0) = vbm_blk (the_bm s0 i)" using h by (simp_all add: has_lock_def)
    have l: "unat (vbm_blk (the_bm s0 i)) < length (bat_table s0)"
      using ci ins cfgD(6) [OF invD(4) [OF I]] by (force simp: cache_ok_def installed_cached)
    have x: "(ucast (vb_pbw_offset (vs_bat s0)) :: u32) \<noteq> DD_BLK_UNUSED"
    proof
      assume "(ucast (vb_pbw_offset (vs_bat s0)) :: u32) = DD_BLK_UNUSED"
      then have "unat (ucast (vb_pbw_offset (vs_bat s0)) :: u32) = 4294967295" by (simp add: DD_BLK_UNUSED_def)
      moreover have "unat (ucast (vb_pbw_offset (vs_bat s0)) :: u32) = unat (vb_pbw_offset (vs_bat s0))"
        using room True by (simp add: unsigned_ucast_eq take_bit_nat_eq_self)
      ultimately show False using room True by simp
    qed
    show ?thesis
    proof (cases "j = i")
      case True
      then show ?thesis using x l blk \<open>e = 0\<close> by (simp add: unalloc_def F bt)
    next
      case False
      have "unat (vbm_blk (the_bm s0 i)) \<noteq> unat (vbm_blk (the_bm s0 j))" if "installed s0 j"
      proof -
        have "vbm_blk (the_bm s0 i) \<noteq> vbm_blk (the_bm s0 j)"
          using ci ins that False by (auto simp: cache_ok_def installed_cached inj_on_def)
        then show ?thesis by (simp add: word_unat_eq_iff)
      qed
      then show ?thesis using False blk by (auto simp: unalloc_def F bt)
    qed
  next
    case False
    then show ?thesis by (simp add: unalloc_def F bt)
  qed
  have "core_ok (answered Bat_req e s0) G (insert Bat_req (in_flight s0))" by (rule answered_core [OF invD(1) [OF I]]) simp
  then show "core_ok w G (insert Bat_req (in_flight s0))"
    by (subst core_cong [of w "answered Bat_req e s0"]) (simp_all add: wv bt bm, simp_all add: answered_def upds)
qed

lemma wp_table_answer:
  assumes "e = 0 \<Longrightarrow> unat (vb_pbw_blk (vs_bat s)) < length (bat_table s)" and "Q () (table_answered i e s)"
  shows "wp (if e = 0 then vthen (set_entry (vb_pbw_blk (vs_bat s)) (ucast (vb_pbw_offset (vs_bat s))))
      (vmodify (\<lambda>s. s\<lparr>vs_next_db := vb_pbw_offset (vs_bat s) + ucast (vs_spb s) + ucast (vs_bm_secs s)\<rparr>))
    else vmodify (upd_tx i (\<lambda>t. t\<lparr>tx_error := e\<rparr>))) Q E s"
  using assms by (cases "e = 0") (simp_all add: table_answered_def set_entry_def wps upd_vbat_def)

lemma table_steady:
  assumes I: "inv s0 G (insert Bat_req (in_flight s0))" and n: "Bat_req \<notin> in_flight s0" and h: "has_lock s0 i" and room: "e = 0 \<longrightarrow> unat (vb_pbw_offset (vs_bat s0)) < 4294967295"
  shows "steady s0 G (table_answered i e ((answered Bat_req e s0)\<lparr>vs_returned := x\<rparr>)) G" (is "steady s0 G ?w G")
proof -
  note W = table_answered [OF I n h room, where x = x]
  have "owed ?w G = owed s0 G" by (rule owed_data_cong) (auto simp: W(3) is_data_def)
  moreover have "parked ?w G = parked s0 G"
    by (rule parked_data_cong [OF I]) (auto simp: W(3) is_data_def)
  moreover have "rd_pending (the_bm ?w j) = rd_pending (the_bm s0 j)" for j by (simp add: W(4))
  ultimately show ?thesis by (intro steadyI(1) same_disk_frame [OF W(1)]) (simp_all add: reported_def W(5,6))
qed

text \<open>Without preallocation: the transaction of the bitmap may have waited for the table.\<close>

lemma bat_answer_plain:
  assumes I: "inv s0 G (insert Bat_req (in_flight s0))" and n: "Bat_req \<notin> in_flight s0" and a: "aio_ok s0" and A: "reported s0 + owed s0 G = A" and PK: "parked s0 G = D"
    and room: "e = 0 \<longrightarrow> unat (vb_pbw_offset (vs_bat s0)) < 4294967295" and pre: "\<not> prealloc s0"
    and P: "has_lock s0 i" "unalloc s0 i" "tx_live (the_bm s0 i)" "\<not> rd_pending (the_bm s0 i)" "bat_started s0" "Zero_req \<notin> in_flight s0" "bat_err s0 = 0" "installed s0 i"
      "g_own G Bat_req = Idle" "tx_bat (the_bm s0 i)" "bat_tx s0 = None \<or> bat_tx s0 = Some i"
      "bat_tx s0 = Some i \<longleftrightarrow> tx_closed (vbm_tx (the_bm s0 i)) \<and> tx_started (vbm_tx (the_bm s0 i)) = tx_finished (vbm_tx (the_bm s0 i)) \<and> \<not> wr_pending (the_bm s0 i)"
  shows "wp (vthen (vmodify (upd_tx i (\<lambda>t. t\<lparr>tx_status := clear_vhd_flag (tx_status t) VHD_FLAG_TX_UPDATE_BAT\<rparr>)))
        (vthen (vget (\<lambda>s. if vr_tx (vs_req s Bat_req) \<noteq> None then finish_bitmap_transaction (Suc (Suc (Suc 0))) i e else vret ()))
          (finish_bat_transaction i))) (\<lambda>_ t. ready D {} A t \<and> same_disk s0 t) E (table_answered i e ((answered Bat_req e s0)\<lparr>vs_returned := x\<rparr>))"
proof -
  define w where "w = table_answered i e ((answered Bat_req e s0)\<lparr>vs_returned := x\<rparr>)"
  note W = table_answered [OF I n P(1) room, where x = x, folded w_def]
  let ?Pd = "in_flight s0"
  let ?f = "\<lambda>t. t\<lparr>tx_status := clear_vhd_flag (tx_status t) VHD_FLAG_TX_UPDATE_BAT\<rparr>"
  define u where "u = upd_tx i ?f w"
  have refl_f: "tx_requests (?f x) = tx_requests x" for x by simp
  note X = tx_changed [where f = ?f and s = w and i = i, OF refl_f, folded u_def]
  have ufl: "in_flight u = ?Pd" unfolding X(5) by (simp add: in_flight_def W(5))
  have sy: "steady s0 G u G" by (rule steady_trans [OF table_steady [OF I n P(1) room, where x = x, folded w_def] X(4)])
  note F = same_frameD [OF W(1)] and Fx = same_frameD [OF X(14)]
  have ub: "the_bm u j = (if j = i then (the_bm s0 i)\<lparr>vbm_tx := ?f (if e \<noteq> 0 then (vbm_tx (the_bm s0 i))\<lparr>tx_error := e\<rparr> else vbm_tx (the_bm s0 i))\<rparr> else the_bm s0 j)" for j
    by (simp add: X(9) W(4))
  have hl: "has_lock u j = has_lock s0 j" "unalloc u j \<longleftrightarrow> unalloc s0 j \<and> \<not> (j = i \<and> e = 0)" "bat_started u = bat_started s0" for j
    by (simp_all add: X(6,7,11) W(7,8,9))
  have ue: "bat_err u = e" "bat_tx u = bat_tx s0" "prealloc u = prealloc s0" "installed u j = installed s0 j" for j
    by (simp_all add: X(8,10,12) W(3,11) F)
  have C: "core_ok u G (in_flight u)" unfolding ufl by (rule core_drop_bat [OF X(1) [OF W(2)] P(9) n])
  have bq: "Bat_req \<notin> set (g_tx G j)" for j using listsD(3) [OF invD(6) [OF I], of "In_tx j" Bat_req] P(9) by simp
  have np: "n_pending G (insert Bat_req ?Pd) j = n_pending G ?Pd j" for j
  proof -
    have "filter (\<lambda>q. q \<in> insert Bat_req ?Pd) (g_tx G j) = filter (\<lambda>q. q \<in> ?Pd) (g_tx G j)"
      using bq by (intro filter_cong refl) (metis insert_iff)
    then show ?thesis by (simp add: n_pending_def)
  qed
  have nl: "\<not> has_lock s0 j" if "j \<noteq> i" for j using has_lock_unique [OF invD(5) [OF I] P(1)] that by blast
  have "bitmap_ok u G (in_flight u) j" if j: "j \<noteq> i" for j unfolding ufl
    by (rule bitmap_ok_frame [OF invD(2) [OF I, of j]]) (use j np nl hl ue in \<open>simp_all add: ub\<close>)
  moreover have "lock_over u G (in_flight u) i" using P n by (simp add: lock_over_def ufl hl ue)
  ultimately have O: "others_ok u G (in_flight u) i" using C by (simp add: others_ok_def)
  note B = bm_okD [OF invD(2) [OF I, of i, unfolded bitmap_ok_def np]]
  have bp: "Bm_req i \<in> in_flight u \<longleftrightarrow> wr_pending (the_bm s0 i)" using B(10) P(4) by (auto simp: ufl)
  have ins: "installed u i" and rd: "\<not> rd_pending (the_bm u i)" using P(4,8) by (simp_all add: ue ub)
  have wait: "vbm_waiting (the_bm s0 i) = req_list_nil"
  proof -
    have h: "rl_head (vbm_waiting (the_bm s0 i)) = None" using B(12) P(4) by blast
    note L = listsD(1) [OF invD(6) [OF I], of "In_wait i", simplified]
    have "g_list G (In_wait i) = []" using rlist_head [OF L] h by simp
    then show ?thesis using L by (simp add: rlist_Nil)
  qed
  have lkd: "bitmap_locked (the_bm s0 i)" using B(13) P(10) by (simp add: bitmap_in_use_def)
  let ?Q = "\<lambda>t. ready D {} A t \<and> same_disk s0 t"
  have "wp (if vr_tx (vs_req u Bat_req) \<noteq> None then finish_bitmap_transaction (Suc (Suc (Suc 0))) i e else vret ()) (\<lambda>_. wp (finish_bat_transaction i) (\<lambda>_. ?Q) E) E u"
  proof (cases "bat_tx s0 = None")
    case False
    then have "bat_tx s0 = Some i" using P(11) by auto
    then have c: "tx_closed (vbm_tx (the_bm s0 i))" "tx_started (vbm_tx (the_bm s0 i)) = tx_finished (vbm_tx (the_bm s0 i))" "\<not> wr_pending (the_bm s0 i)" using P(12) by simp_all
    have "wp (finish_bitmap_transaction (Suc (Suc (Suc 0))) i e) (\<lambda>_. wp (finish_bat_transaction i) (\<lambda>_. ?Q) E) E u"
    proof (rule wp_fbt [OF O])
      show "resting u (in_flight u) i" using ins rd c(3) bp wait by (simp add: resting_def ub)
      show "bitmap_locked (the_bm u i)" using lkd by (simp add: bitmap_locked_def ub)
      show "n_pending G (in_flight u) i = 0" using B(2) c(2) by (simp add: ufl)
      show "\<not> tx_bat (the_bm u i)" by (simp add: ub)
      fix t G' assume t: "over t G' (in_flight t) i" "steady u G t G'"
      have "inv t G' (in_flight t)" using t(1) by (simp add: over_def)
      from finish_ready [OF this steady_trans [OF sy t(2)] a A PK] show "wp (finish_bat_transaction i) (\<lambda>_. ?Q) E t"
        by (rule wp_finish_bat_over [OF t(1)])
    qed
    then show ?thesis using False ue by simp
  next
    case True
    have cl: "tx_closed (vbm_tx (the_bm s0 i)) \<Longrightarrow> wr_pending (the_bm s0 i)" using B(5,6) True P(7) by auto
    have cn: "tx_closed (vbm_tx (the_bm s0 i)) \<Longrightarrow> n_pending G ?Pd i = 0" using B(6) P(7) by blast
    have ew: "tx_error (vbm_tx (the_bm s0 i)) \<noteq> 0 \<Longrightarrow> \<not> wr_pending (the_bm s0 i)" using B(18) P(7) by blast
    have iu: "bitmap_in_use (the_bm u i)"
    proof (cases "n_pending G ?Pd i = 0")
      case True
      then have "wr_pending (the_bm s0 i)" using cl B(7) P(3) by blast
      then show ?thesis by (simp add: bitmap_in_use_def ub)
    next
      case False
      then have "g_tx G i \<noteq> []" by (auto simp: n_pending_def)
      then have "rl_head (tx_requests (vbm_tx (the_bm s0 i))) \<noteq> None" using rlist_head [OF listsD(1) [OF invD(6) [OF I], of "In_tx i", simplified]] by simp
      then show ?thesis by (simp add: bitmap_in_use_def ub)
    qed
    have lku: "bitmap_locked (the_bm u i)" using lkd by (simp add: bitmap_locked_def ub)
    have "wp (finish_bat_transaction i) (\<lambda>_. ?Q) E u"
    proof (rule wp_finish_bat_transaction [OF O ins rd])
      assume x: "\<not> (has_lock u i \<and> bat_err u \<noteq> 0 \<and> tx_live (the_bm u i))"
      have e: "e = 0" using x P(1,3) by (cases "e = 0") (simp_all add: hl ue ub)
      show "bm_ok (prealloc u) False 0 False (unalloc u i) True (Bm_req i \<in> in_flight u) (n_pending G (in_flight u) i) (the_bm u i)"
      proof (rule bm_okI)
        show "bitmap_locked (the_bm u i)" by (rule lku)
      qed (use B(1,2,3,7,8) P(3,4) cl cn ew e wait in \<open>simp_all add: bp hl ub, simp_all add: ufl req_list_nil_def\<close>)
    next
      assume x: "has_lock u i" "bat_err u \<noteq> 0" "tx_live (the_bm u i)"
      then have e: "e \<noteq> 0" by (simp add: ue)
      have bt: "bat_tx u = Some i \<longleftrightarrow> False" using True by (simp add: ue)
      have "bm_ok (prealloc u) True (bat_err u) (bat_tx u = Some i) True True (Bm_req i \<in> in_flight u) (n_pending G (in_flight u) i)
          ((the_bm u i)\<lparr>vbm_tx := (vbm_tx (the_bm u i))\<lparr>tx_closed := True\<rparr>\<rparr>)"
      proof (rule bm_okI)
        show "bitmap_locked ((the_bm u i)\<lparr>vbm_tx := (vbm_tx (the_bm u i))\<lparr>tx_closed := True\<rparr>\<rparr>)" using lku by (simp add: bitmap_locked_def)
        show "wr_pending ((the_bm u i)\<lparr>vbm_tx := (vbm_tx (the_bm u i))\<lparr>tx_closed := True\<rparr>\<rparr>) \<or>
            True \<and> tx_bat ((the_bm u i)\<lparr>vbm_tx := (vbm_tx (the_bm u i))\<lparr>tx_closed := True\<rparr>\<rparr>) \<and> bat_tx u = Some i" if "n_pending G (in_flight u) i = 0"
          using that B(7) P(3) cl by (auto simp: ufl ub)
        show "True \<and> bat_err u \<noteq> 0 \<and> \<not> wr_pending ((the_bm u i)\<lparr>vbm_tx := (vbm_tx (the_bm u i))\<lparr>tx_closed := True\<rparr>\<rparr>) \<and>
            tx_error (vbm_tx ((the_bm u i)\<lparr>vbm_tx := (vbm_tx (the_bm u i))\<lparr>tx_closed := True\<rparr>\<rparr>)) \<noteq> 0" if "n_pending G (in_flight u) i \<noteq> 0"
          using that x cn B(8) e by (auto simp: ufl ub)
      qed (use B(1,2) P(3,4) e x(2) wait in \<open>simp_all add: bp ub, simp_all add: ufl req_list_nil_def\<close>)
      then show "tx_error (vbm_tx (the_bm u i)) \<noteq> 0 \<and> \<not> tx_bat (the_bm u i) \<and> bm_ok (prealloc u) True (bat_err u) (bat_tx u = Some i) True True (Bm_req i \<in> in_flight u)
          (n_pending G (in_flight u) i) ((the_bm u i)\<lparr>vbm_tx := (vbm_tx (the_bm u i))\<lparr>tx_closed := True\<rparr>\<rparr>)" using e by (simp add: ub)
    next
      fix t assume t: "inv t G (in_flight u)" "steady u G t G" "in_flight t = in_flight u"
      show "?Q t" by (rule finish_ready [OF _ steady_trans [OF sy t(2)] a A PK]) (use t in simp)
    qed
    then show ?thesis using True ue by (simp add: wps)
  qed
  then show ?thesis unfolding w_def [symmetric] by (simp add: wp_fun wps u_def)
qed

text \<open>With preallocation: the write of the table was part of the transaction.\<close>

lemma bat_answer_prealloc:
  assumes I: "inv s0 G (insert Bat_req (in_flight s0))" and n: "Bat_req \<notin> in_flight s0" and a: "aio_ok s0" and A: "reported s0 + owed s0 G = A" and PK: "parked s0 G = D"
    and room: "e = 0 \<longrightarrow> unat (vb_pbw_offset (vs_bat s0)) < 4294967295" and pre: "prealloc s0"
    and P: "has_lock s0 i" "unalloc s0 i" "tx_live (the_bm s0 i)" "\<not> rd_pending (the_bm s0 i)" "bat_started s0" "Zero_req \<notin> in_flight s0" "bat_err s0 = 0" "installed s0 i"
      "g_own G Bat_req = In_tx i"
  shows "wp (vthen (vthen (leave_transaction i Bat_req) (finish_if_completed i)) (finish_bat_transaction i)) (\<lambda>_ t. ready D {} A t \<and> same_disk s0 t) E
    (table_answered i e ((answered Bat_req e s0)\<lparr>vs_returned := x\<rparr>))"
proof -
  define w where "w = table_answered i e ((answered Bat_req e s0)\<lparr>vs_returned := x\<rparr>)"
  note W = table_answered [OF I n P(1) room, where x = x, folded w_def]
  let ?Pd = "in_flight s0"
  let ?G = "released G i Bat_req"
  let ?Q = "\<lambda>t. ready D {} A t \<and> same_disk s0 t"
  note F = same_frameD [OF W(1)]
  note T = in_tx_bitmap [OF I P(9)]
  note np = n_pending_back [OF invD(6) [OF I] P(9) n]
  note B = bm_okD [OF invD(2) [OF I, of i, unfolded bitmap_ok_def np(1)]]
  have op: "\<not> tx_closed (vbm_tx (the_bm s0 i))" using B(6) P(7) by blast
  have wr: "\<not> wr_pending (the_bm s0 i)" using B(8) op by blast
  have nb: "\<not> tx_bat (the_bm s0 i)" using B(17) pre by blast
  have qn: "rl_head (vbm_queue (the_bm s0 i)) = None" using B(3) op by blast
  have bp: "Bm_req i \<notin> ?Pd" using B(10) wr T(3) by blast
  have ent: "tx_started (vbm_tx (the_bm s0 i)) = Suc (tx_finished (vbm_tx (the_bm s0 i)) + n_pending G ?Pd i)" using B(2) by simp
  have nl: "\<not> has_lock s0 j" if "j \<noteq> i" for j using has_lock_unique [OF invD(5) [OF I] P(1)] that by blast
  have "wp (leave_transaction i Bat_req) (\<lambda>_. wp (finish_if_completed i) (\<lambda>_. wp (finish_bat_transaction i) (\<lambda>_. ?Q) E) E) E w"
  proof (rule wp_leave_transaction [OF W(2) n P(9)])
    fix t l
    assume on: "only w t" and bm: "\<And>j. the_bm t j = (if j = i then (the_bm w i)\<lparr>vbm_tx := (vbm_tx (the_bm w i))\<lparr>tx_finished := tx_finished (vbm_tx (the_bm w i)) + 1,
        tx_requests := l\<rparr>\<rparr> else the_bm w j)" and rq: "\<And>q. \<exists>n. vs_req t q = (vs_req w q)\<lparr>vr_next := n\<rparr>"
      and rs: "\<And>q. q = Bat_req \<or> q \<notin> set (g_tx G i) \<Longrightarrow> vs_req t q = vs_req w q" and C: "core_ok t ?G ?Pd"
      and ln: "n_pending G ?Pd i \<noteq> 0 \<Longrightarrow> rl_head l \<noteq> None"
    have tw: "vs_flags t = vs_flags w" "vs_vhd t = vs_vhd w" "vs_spb t = vs_spb w" "vs_spp t = vs_spp w" "vs_bm_secs t = vs_bm_secs w" "vs_zsize t = vs_zsize w"
      "vs_bat t = vs_bat w" "vs_bitmap t = vs_bitmap w" "vs_bitmap_free t = vs_bitmap_free w" "vs_vreq_free t = vs_vreq_free w" "vs_aio t = vs_aio w" "vs_out t = vs_out w"
      using on by (auto elim: onlyE)
    have tb: "the_bm t j = (if j = i then (the_bm s0 i)\<lparr>vbm_tx := (vbm_tx (the_bm s0 i))\<lparr>tx_error := (if e \<noteq> 0 then e else tx_error (vbm_tx (the_bm s0 i))),
        tx_finished := tx_finished (vbm_tx (the_bm s0 i)) + 1, tx_requests := l\<rparr>\<rparr> else the_bm s0 j)" for j by (simp add: bm W(4))
    have frw: "same_frame w t" by (simp add: same_frame_def tw bm bat_table_def)
    have fr: "same_frame s0 t" using W(1) frw by (simp add: same_frame_def)
    have lk: "same_lock w t" using rs [of Bat_req] by (simp add: same_lock_def tw bat_table_def)
    note Ft = same_frameD [OF fr] and V = same_lockD [OF lk frw]
    have hl: "has_lock t j = has_lock s0 j" "unalloc t j \<longleftrightarrow> unalloc s0 j \<and> \<not> (j = i \<and> e = 0)" "bat_started t = bat_started s0" "bat_err t = e" for j
      by (simp_all add: V W(3,7,8,9))
    have q: "vr_op (vs_req t q) = vr_op (vs_req s0 q)" "vr_treq (vs_req t q) = vr_treq (vs_req s0 q)" for q using rq [of q] by (auto simp: W(3))
    have fl: "in_flight t = ?Pd" by (simp add: in_flight_def tw W(5))
    have nt: "n_pending ?G ?Pd j = n_pending G ?Pd j" for j by (rule n_pending_released [OF n])
    have oth: "bitmap_ok t ?G (in_flight t) j" if j: "j \<noteq> i" for j unfolding fl
      by (rule bitmap_ok_frame [OF invD(2) [OF I, of j]]) (use j np(2) nt nl hl in \<open>simp_all add: tb Ft\<close>)
    have O: "others_ok t ?G (in_flight t) i" using C oth P n by (simp add: others_ok_def lock_over_def fl hl)
    have sy: "steady s0 G t ?G"
    proof -
      have "owed t ?G = owed s0 G" by (rule owed_cong) (use P(9) q in \<open>auto simp: contrib_def\<close>)
      moreover have "parked t ?G = parked s0 G"
      proof (rule parked_cong)
        show "g_own ?G q = Parked \<longleftrightarrow> g_own G q = Parked" for q using P(9) by simp
        fix q assume p: "g_own G q = Parked"
        then have "q \<notin> set (g_tx G i)" using listsD(3) [OF invD(6) [OF I], of "In_tx i" q] by simp
        moreover have "is_data q" using own_data [OF invD(8) [OF I] p] by simp
        ultimately show "vs_req t q = vs_req s0 q" using rs [of q] by (auto simp: W(3) is_data_def)
      qed
      moreover have "rd_pending (the_bm t j) = rd_pending (the_bm s0 j)" for j by (simp add: tb)
      ultimately show ?thesis by (intro steadyI(1) same_disk_frame [OF fr]) (simp_all add: reported_def tw W(5,6))
    qed
    have dn: "?Q u" if "inv u G' (in_flight u)" "steady t ?G u G'" for u G' by (rule finish_ready [OF that(1) steady_trans [OF sy that(2)] a A PK])
    have rest: "resting t (in_flight t) i" using T bp wr by (simp add: resting_def fl tb Ft)
    have lkd: "bitmap_locked (the_bm t i)" using T(4) by (simp add: tb bitmap_locked_def)
    have tx: "\<not> tx_bat (the_bm t i)" "tx_live (the_bm t i)" "tx_started (vbm_tx (the_bm t i)) = tx_finished (vbm_tx (the_bm t i)) + n_pending G ?Pd i"
      "tx_started (vbm_tx (the_bm t i)) \<noteq> 0" "\<not> tx_closed (vbm_tx (the_bm t i))" "e \<noteq> 0 \<Longrightarrow> tx_error (vbm_tx (the_bm t i)) \<noteq> 0"
      using nb T(2) ent op by (simp_all add: tb)
    show "wp (finish_if_completed i) (\<lambda>_. wp (finish_bat_transaction i) (\<lambda>_. ?Q) E) E t"
    proof (cases "n_pending G ?Pd i = 0")
      case True
      have "wp (finish_data_with (finish_bitmap_transaction (Suc (Suc 0))) i) (\<lambda>_. wp (finish_bat_transaction i) (\<lambda>_. ?Q) E) E t"
      proof (rule wp_finish_data_over [OF O rest lkd _ tx(1,2) _ tx(4)])
        show "n_pending ?G (in_flight t) i = 0" using True nt fl by simp
        show "tx_started (vbm_tx (the_bm t i)) = tx_finished (vbm_tx (the_bm t i))" using tx(3) True by simp
        show "tx_error (vbm_tx (the_bm t i)) \<noteq> 0" if "unalloc t i" using that tx(6) hl by blast
        fix u G' assume u: "over u G' (in_flight u) i \<or> has_lock t i \<and> tx_error (vbm_tx (the_bm t i)) = 0 \<and> semi u G' (in_flight u) i \<and>
          (bitmap_in_use (the_bm u i) \<longrightarrow> bitmap_locked (the_bm u i))" "steady t ?G u G'"
        from u(1) show "wp (finish_bat_transaction i) (\<lambda>_. ?Q) E u"
        proof (elim disjE conjE)
          assume v: "over u G' (in_flight u) i"
          have "inv u G' (in_flight u)" using v by (simp add: over_def)
          from dn [OF this u(2)] show ?thesis by (rule wp_finish_bat_over [OF v])
        next
          assume v: "semi u G' (in_flight u) i" "bitmap_in_use (the_bm u i) \<longrightarrow> bitmap_locked (the_bm u i)"
          show ?thesis by (rule wp_finish_bat_semi [OF v]) (rule dn [OF _ steady_trans [OF u(2)]])
        qed
      qed
      then show ?thesis using tx(3) True
        by (simp add: finish_if_completed_def finish_data_transaction_def TX_DEPTH_def numeral_2_eq_2 wps transaction_completed_def)
    next
      case False
      have iu: "bitmap_in_use (the_bm t i)" using ln [OF False] by (simp add: bitmap_in_use_def tb)
      have rd: "\<not> rd_pending (the_bm t i)" "\<not> wr_pending (the_bm t i)" "vbm_waiting (the_bm t i) = req_list_nil" "rl_head (vbm_queue (the_bm t i)) = None" "installed t i"
        using T wr qn by (simp_all add: tb Ft)
      have bm': "Bm_req i \<notin> in_flight t" "n_pending ?G (in_flight t) i \<noteq> 0" "tx_started (vbm_tx (the_bm t i)) = tx_finished (vbm_tx (the_bm t i)) + n_pending ?G (in_flight t) i"
        using bp False nt tx(3) by (simp_all add: fl)
      have "wp (finish_bat_transaction i) (\<lambda>_. ?Q) E t"
      proof (rule wp_finish_bat_transaction [OF O rd(5,1)])
        assume z: "\<not> (has_lock t i \<and> bat_err t \<noteq> 0 \<and> tx_live (the_bm t i))"
        have e: "\<not> unalloc t i" using z P(1) tx(2) by (simp add: hl)
        show "bm_ok (prealloc t) False 0 False (unalloc t i) True (Bm_req i \<in> in_flight t) (n_pending ?G (in_flight t) i) (the_bm t i)"
        proof (rule bm_okI)
          show "bitmap_locked (the_bm t i)" by (rule lkd)
        qed (use rd tx bm' e in \<open>simp_all add: req_list_nil_def\<close>)
      next
        assume z: "has_lock t i" "bat_err t \<noteq> 0" "tx_live (the_bm t i)"
        have er: "tx_error (vbm_tx (the_bm t i)) \<noteq> 0" using z(2) tx(6) hl by simp
        have "bm_ok (prealloc t) True (bat_err t) (bat_tx t = Some i) True True (Bm_req i \<in> in_flight t) (n_pending ?G (in_flight t) i)
          ((the_bm t i)\<lparr>vbm_tx := (vbm_tx (the_bm t i))\<lparr>tx_closed := True\<rparr>\<rparr>)"
        proof (rule bm_okI)
          show "bitmap_locked ((the_bm t i)\<lparr>vbm_tx := (vbm_tx (the_bm t i))\<lparr>tx_closed := True\<rparr>\<rparr>)" using lkd by (simp add: bitmap_locked_def)
        qed (use rd tx bm' z er in \<open>simp_all add: req_list_nil_def\<close>)
        then show "tx_error (vbm_tx (the_bm t i)) \<noteq> 0 \<and> \<not> tx_bat (the_bm t i) \<and> bm_ok (prealloc t) True (bat_err t) (bat_tx t = Some i) True True (Bm_req i \<in> in_flight t)
          (n_pending ?G (in_flight t) i) ((the_bm t i)\<lparr>vbm_tx := (vbm_tx (the_bm t i))\<lparr>tx_closed := True\<rparr>\<rparr>)" using er tx(1) by simp
      next
        fix u assume u: "inv u ?G (in_flight t)" "steady t ?G u ?G" "in_flight u = in_flight t"
        show "?Q u" by (rule dn [OF _ u(2)]) (use u in simp)
      qed
      then show ?thesis using tx(3) False by (simp add: finish_if_completed_def wps transaction_completed_def)
    qed
  qed simp
  then show ?thesis unfolding w_def [symmetric] by (simp add: wp_fun wps)
qed

lemma finishes_bat_write:
  assumes I: "inv s0 G (insert Bat_req (in_flight s0))" and n: "Bat_req \<notin> in_flight s0" and a: "aio_ok s0" and A: "reported s0 + owed s0 G = A" and PK: "parked s0 G = D"
    and room: "e = 0 \<longrightarrow> unat (vb_pbw_offset (vs_bat s0)) < 4294967295"
  shows "wp finish_bat_write (\<lambda>_ t. ready D {} A t \<and> same_disk s0 t) (\<lambda>_ _. False) (answered Bat_req e s0)"
proof -
  from bat_phase [OF I n] obtain i where P: "has_lock s0 i" "unalloc s0 i" "tx_live (the_bm s0 i)" "\<not> rd_pending (the_bm s0 i)" "bat_started s0" "Zero_req \<notin> in_flight s0"
    "bat_err s0 = 0" "installed s0 i" and R: "prealloc s0 \<longrightarrow> g_own G Bat_req = In_tx i" "\<not> prealloc s0 \<longrightarrow> g_own G Bat_req = Idle" "\<not> prealloc s0 \<longrightarrow> tx_bat (the_bm s0 i)"
    "\<not> prealloc s0 \<longrightarrow> bat_tx s0 = None \<or> bat_tx s0 = Some i"
    "\<not> prealloc s0 \<longrightarrow> (bat_tx s0 = Some i \<longleftrightarrow> tx_closed (vbm_tx (the_bm s0 i)) \<and> tx_started (vbm_tx (the_bm s0 i)) = tx_finished (vbm_tx (the_bm s0 i)) \<and> \<not> wr_pending (the_bm s0 i))" .
  define s where "s = (answered Bat_req e s0)\<lparr>vs_returned := vs_returned (answered Bat_req e s0) + 1\<rparr>"
  have sv: "the_bm s = the_bm s0" "vs_bat s = vs_bat s0" "vr_error (vs_req s Bat_req) = e" "bat_table s = bat_table s0" "vs_flags s = vs_flags s0" "vs_bitmap s = vs_bitmap s0"
    by (simp_all add: s_def bat_table_def)
  have lb: "bat_locked s0" "vb_pbw_blk (vs_bat s0) = vbm_blk (the_bm s0 i)" using P(1) by (simp_all add: has_lock_def)
  have "get_bitmap s0 (vb_pbw_blk (vs_bat s0)) = Some i" using get_bitmap_Some [OF invD(5) [OF I]] P(8) lb(2) by simp
  then have g: "get_bitmap s (vb_pbw_blk (vs_bat s0)) = Some i" by (simp add: get_bitmap_def sv cong: option.case_cong)
  have tl: "unat (vb_pbw_blk (vs_bat s0)) < length (bat_table s0)"
    using invD(5) [OF I] P(8) cfgD(6) [OF invD(4) [OF I]] lb(2) by (force simp: cache_ok_def installed_cached)
  have ls: "bat_locked s" using lb by (simp add: bat_locked_def sv)
  let ?Q = "\<lambda>_ t. ready D {} A t \<and> same_disk s0 t"
  have "wp (vthen (if test_vhd_flag (vs_flags s) VHD_FLAG_OPEN_PREALLOCATE
                then vthen (leave_transaction i Bat_req) (finish_if_completed i)
                else vthen (vmodify (upd_tx i (\<lambda>t. t\<lparr>tx_status := clear_vhd_flag (tx_status t) VHD_FLAG_TX_UPDATE_BAT\<rparr>)))
                  (vget (\<lambda>s. if vr_tx (vs_req s Bat_req) \<noteq> None then finish_bitmap_transaction (Suc TX_DEPTH) i e else vret ())))
               (finish_bat_transaction i)) ?Q (\<lambda>_ _. False) (table_answered i e s)"
  proof (cases "prealloc s0")
    case True
    then show ?thesis using bat_answer_prealloc [OF I n a A PK room True P] R(1) True by (simp add: sv s_def)
  next
    case False
    have "wp (vthen (vmodify (upd_tx i (\<lambda>t. t\<lparr>tx_status := clear_vhd_flag (tx_status t) VHD_FLAG_TX_UPDATE_BAT\<rparr>)))
        (vthen (vget (\<lambda>s. if vr_tx (vs_req s Bat_req) \<noteq> None then finish_bitmap_transaction (Suc (Suc (Suc 0))) i e else vret ()))
          (finish_bat_transaction i))) ?Q (\<lambda>_ _. False) (table_answered i e s)"
      unfolding s_def by (rule bat_answer_plain [OF I n a A PK room False P]) (use R False in blast)+
    then show ?thesis using False by (simp add: sv TX_DEPTH_def numeral_2_eq_2 wp_fun wps del: finish_bitmap_transaction.simps split: if_splits)
  qed
  then have K: "wp (vthen (if e = 0 then vthen (set_entry (vb_pbw_blk (vs_bat s)) (ucast (vb_pbw_offset (vs_bat s))))
                  (vmodify (\<lambda>s. s\<lparr>vs_next_db := vb_pbw_offset (vs_bat s) + ucast (vs_spb s) + ucast (vs_bm_secs s)\<rparr>))
              else vmodify (upd_tx i (\<lambda>t. t\<lparr>tx_error := e\<rparr>)))
           (vthen (if test_vhd_flag (vs_flags s) VHD_FLAG_OPEN_PREALLOCATE
                then vthen (leave_transaction i Bat_req) (finish_if_completed i)
                else vthen (vmodify (upd_tx i (\<lambda>t. t\<lparr>tx_status := clear_vhd_flag (tx_status t) VHD_FLAG_TX_UPDATE_BAT\<rparr>)))
                  (vget (\<lambda>s. if vr_tx (vs_req s Bat_req) \<noteq> None then finish_bitmap_transaction (Suc TX_DEPTH) i e else vret ())))
               (finish_bat_transaction i))) ?Q (\<lambda>_ _. False) s"
    unfolding wp_vbind [of "if e = 0 then _ else _"] by (rule wp_table_answer [rotated]) (use tl in \<open>simp add: sv\<close>)
  have body: "finish_bat_write = vthen count_returned (vget (\<lambda>s. need_bitmap (vb_pbw_blk (vs_bat s)) (\<lambda>i.
     vthen (vassert (bitmap_valid (the_bm s i)))
       (vthen (vassert (bat_locked s \<and> test_vhd_flag (vb_status (vs_bat s)) VHD_FLAG_BAT_WRITE_STARTED))
         (vthen (vassert (test_vhd_flag (tx_status (vbm_tx (the_bm s i))) VHD_FLAG_TX_LIVE))
           (vthen (if vr_error (vs_req s Bat_req) = 0 then
                vthen (set_entry (vb_pbw_blk (vs_bat s)) (ucast (vb_pbw_offset (vs_bat s))))
                  (vmodify (\<lambda>s. s\<lparr>vs_next_db := vb_pbw_offset (vs_bat s) + ucast (vs_spb s) + ucast (vs_bm_secs s)\<rparr>))
              else vmodify (upd_tx i (\<lambda>t. t\<lparr>tx_error := vr_error (vs_req s Bat_req)\<rparr>)))
             (vthen (if test_vhd_flag (vs_flags s) VHD_FLAG_OPEN_PREALLOCATE
                then vthen (leave_transaction i Bat_req) (finish_if_completed i)
                else vthen (vmodify (upd_tx i (\<lambda>t. t\<lparr>tx_status := clear_vhd_flag (tx_status t) VHD_FLAG_TX_UPDATE_BAT\<rparr>)))
                  (vget (\<lambda>t. if vr_tx (vs_req t Bat_req) \<noteq> None then finish_bitmap_transaction (Suc TX_DEPTH) i (vr_error (vs_req s Bat_req)) else vret ())))
               (finish_bat_transaction i))))))))"
    by (simp add: finish_bat_write_def Let_def)
  show ?thesis
    unfolding body count_returned_def wp_vbind [of "vmodify _"] wp_vmodify s_def [symmetric]
    unfolding wp_vget need_bitmap_def sv(2,3) g option.case wp_vbind [of "vassert _"] wp_vassert
    using ls P(3,4,5) K [unfolded sv(2)] by (simp add: bitmap_valid_def sv del: finish_bitmap_transaction.simps)
qed

end
