(* ===== verification/Td_Loglimit.thy ===== *)
theory Td_Loglimit
  imports Vhd_Base
begin

text \<open>
  \<open>drivers/tapdisk-loglimit.c\<close>: the limit on the rate of log messages. A burst of messages passes,
  then messages are dropped until an interval has gone by. The clock is an argument: \<open>now\<close> is what
  \<open>gettimeofday\<close> returns in the call. The statements are about runs, lists of the times at which
  \<open>tapdisk_loglimit_pass\<close> is called.
\<close>

section \<open>The code\<close>

type_synonym timeval = "int \<times> int"

record td_loglimit =
  rl_burst :: int
  rl_interval :: int
  rl_count :: int
  rl_dropped :: int
  rl_ts :: timeval

definition tapdisk_loglimit_init :: "int \<Rightarrow> int \<Rightarrow> timeval \<Rightarrow> td_loglimit" where
  "tapdisk_loglimit_init burst interval now =
     \<lparr>rl_burst = burst, rl_interval = interval, rl_count = 0, rl_dropped = 0, rl_ts = now\<rparr>"

text \<open>The carry is taken only for more than a million microseconds, so exactly a million remains.\<close>

definition timeradd_ms :: "timeval \<Rightarrow> int \<Rightarrow> timeval" where
  "timeradd_ms tv ms = (case tv of (sec, usec) \<Rightarrow>
     let usec = usec + ms * 1000 in
     if usec > 1000000 then (sec + usec div 1000000, usec mod 1000000) else (sec, usec))"

definition timercmp_less :: "timeval \<Rightarrow> timeval \<Rightarrow> bool" where
  "timercmp_less a b \<longleftrightarrow> (if fst a = fst b then snd a < snd b else fst a < fst b)"

definition tapdisk_loglimit_update :: "td_loglimit \<Rightarrow> timeval \<Rightarrow> td_loglimit" where
  "tapdisk_loglimit_update rl now =
     (let next = timeradd_ms (rl_ts rl) (rl_interval rl) in
      if timercmp_less next now then rl\<lparr>rl_count := 0, rl_ts := now\<rparr> else rl)"

definition tapdisk_loglimit_pass :: "td_loglimit \<Rightarrow> timeval \<Rightarrow> td_loglimit \<times> bool" where
  "tapdisk_loglimit_pass rl now =
     (if rl_interval rl = 0 then (rl, True)
      else let rl = (if rl_count rl \<ge> rl_burst rl then tapdisk_loglimit_update rl now else rl) in
        if rl_count rl \<ge> rl_burst rl then (rl\<lparr>rl_dropped := rl_dropped rl + 1\<rparr>, False)
        else (rl\<lparr>rl_count := rl_count rl + 1\<rparr>, True))"

text \<open>The number of messages that pass in a run.\<close>

primrec passes :: "td_loglimit \<Rightarrow> timeval list \<Rightarrow> nat" where
  "passes rl [] = 0"
| "passes rl (t # ts) = (case tapdisk_loglimit_pass rl t of (rl', ok) \<Rightarrow> of_bool ok + passes rl' ts)"

section \<open>Time in microseconds\<close>

definition usecs :: "timeval \<Rightarrow> int" where
  "usecs tv = fst tv * 1000000 + snd tv"

definition normal :: "timeval \<Rightarrow> bool" where
  "normal tv \<longleftrightarrow> 0 \<le> snd tv \<and> snd tv < 1000000"

lemma usecs_timeradd: "usecs (timeradd_ms tv ms) = usecs tv + ms * 1000"
  by (auto simp: usecs_def timeradd_ms_def Let_def split: prod.splits)

lemma timeradd_bound: "normal tv \<Longrightarrow> 0 \<le> ms \<Longrightarrow> snd (timeradd_ms tv ms) \<le> 1000000"
  by (auto simp: normal_def timeradd_ms_def Let_def split: prod.splits intro: less_imp_le)

lemma timercmp_usecs:
  "timercmp_less a b \<Longrightarrow> snd a \<le> 1000000 \<Longrightarrow> normal b \<Longrightarrow> usecs a \<le> usecs b"
  by (auto simp: timercmp_less_def usecs_def normal_def split: if_splits)

section \<open>The invariant and the rate\<close>

definition rl_ok :: "td_loglimit \<Rightarrow> bool" where
  "rl_ok rl \<longleftrightarrow> 0 < rl_interval rl \<and> 0 \<le> rl_burst rl \<and> 0 \<le> rl_count rl \<and> rl_count rl \<le> rl_burst rl \<and>
     normal (rl_ts rl)"

text \<open>The two outcomes of a call: the count grows, or a new interval begins.\<close>

lemma pass_cases:
  assumes "rl_ok rl" and "normal now"
  obtains (grow) "rl_count rl < rl_burst rl" and "tapdisk_loglimit_pass rl now = (rl\<lparr>rl_count := rl_count rl + 1\<rparr>, True)"
  | (drop) "rl_count rl = rl_burst rl" and "tapdisk_loglimit_pass rl now = (rl\<lparr>rl_dropped := rl_dropped rl + 1\<rparr>, False)"
  | (zero) "rl_burst rl = 0" and "usecs (rl_ts rl) + rl_interval rl * 1000 \<le> usecs now"
      and "tapdisk_loglimit_pass rl now = (rl\<lparr>rl_dropped := rl_dropped rl + 1, rl_count := 0, rl_ts := now\<rparr>, False)"
  | (fresh) "rl_count rl = rl_burst rl" and "usecs (rl_ts rl) + rl_interval rl * 1000 \<le> usecs now"
      and "0 < rl_burst rl" and "tapdisk_loglimit_pass rl now = (rl\<lparr>rl_count := 1, rl_ts := now\<rparr>, True)"
proof -
  have u: "usecs (rl_ts rl) + rl_interval rl * 1000 \<le> usecs now"
    if "timercmp_less (timeradd_ms (rl_ts rl) (rl_interval rl)) now"
    using timercmp_usecs [OF that timeradd_bound] assms usecs_timeradd [of "rl_ts rl" "rl_interval rl"]
    by (simp add: rl_ok_def)
  have i: "rl_interval rl \<noteq> 0" "rl_count rl \<le> rl_burst rl" "0 \<le> rl_burst rl" using assms by (simp_all add: rl_ok_def)
  show thesis
  proof (cases "rl_count rl < rl_burst rl")
    case True
    with i have "tapdisk_loglimit_pass rl now = (rl\<lparr>rl_count := rl_count rl + 1\<rparr>, True)"
      by (simp add: tapdisk_loglimit_pass_def)
    with True show thesis by (rule grow)
  next
    case False
    with i have c: "rl_count rl = rl_burst rl" by simp
    show thesis
    proof (cases "timercmp_less (timeradd_ms (rl_ts rl) (rl_interval rl)) now")
      case True
      then have up: "tapdisk_loglimit_update rl now = rl\<lparr>rl_count := 0, rl_ts := now\<rparr>"
        by (simp add: tapdisk_loglimit_update_def)
      show thesis
      proof (cases "rl_burst rl = 0")
        case z: True
        have "tapdisk_loglimit_pass rl now = (rl\<lparr>rl_dropped := rl_dropped rl + 1, rl_count := 0, rl_ts := now\<rparr>, False)"
          using i c z up by (simp add: tapdisk_loglimit_pass_def)
        with z u [OF True] show thesis by (rule zero)
      next
        case nz: False
        then have "0 < rl_burst rl" using i by simp
        moreover have "tapdisk_loglimit_pass rl now = (rl\<lparr>rl_count := 1, rl_ts := now\<rparr>, True)"
          using i c nz up by (simp add: tapdisk_loglimit_pass_def)
        ultimately show thesis using c u [OF True] by (intro fresh)
      qed
    next
      case False
      then have "tapdisk_loglimit_update rl now = rl" by (simp add: tapdisk_loglimit_update_def)
      then have "tapdisk_loglimit_pass rl now = (rl\<lparr>rl_dropped := rl_dropped rl + 1\<rparr>, False)"
        using i c by (simp add: tapdisk_loglimit_pass_def)
      with c show thesis by (rule drop)
    qed
  qed
qed

lemma pass_ok:
  assumes "rl_ok rl" and "normal now"
  shows "rl_ok (fst (tapdisk_loglimit_pass rl now))"
  using assms by (cases rule: pass_cases) (use assms in \<open>auto simp: rl_ok_def\<close>)

lemma passes_in_interval:
  assumes "rl_ok rl" and "\<forall>t \<in> set ts. normal t \<and> usecs t < usecs (rl_ts rl) + rl_interval rl * 1000"
  shows "int (passes rl ts) \<le> rl_burst rl - rl_count rl"
  using assms
proof (induction ts arbitrary: rl)
  case Nil
  then show ?case by (simp add: rl_ok_def)
next
  case (Cons t ts)
  have t: "normal t" "usecs t < usecs (rl_ts rl) + rl_interval rl * 1000" using Cons.prems by auto
  have ok: "rl_ok (fst (tapdisk_loglimit_pass rl t))" by (rule pass_ok [OF Cons.prems(1) t(1)])
  from Cons.prems(1) t(1) show ?case
    by (cases rule: pass_cases) (use Cons.IH [OF ok] Cons.prems(2) t in auto)
qed

text \<open>In less than an interval at most one new interval begins, so at most two bursts pass.\<close>

lemma passes_in_window:
  assumes "rl_ok rl" and "\<forall>t \<in> set ts. normal t \<and> w \<le> usecs t \<and> usecs t < w + rl_interval rl * 1000"
  shows "int (passes rl ts) \<le> (rl_burst rl - rl_count rl) + rl_burst rl"
  using assms
proof (induction ts arbitrary: rl)
  case Nil
  then show ?case by (simp add: rl_ok_def)
next
  case (Cons t ts)
  have t: "normal t" "w \<le> usecs t" using Cons.prems by auto
  have ok: "rl_ok (fst (tapdisk_loglimit_pass rl t))" by (rule pass_ok [OF Cons.prems(1) t(1)])
  have b: "0 \<le> rl_burst rl" using Cons.prems(1) by (simp add: rl_ok_def)
  from Cons.prems(1) t(1) show ?case
  proof (cases rule: pass_cases)
    case fresh
    have "\<forall>x \<in> set ts. normal x \<and> usecs x < usecs t + rl_interval rl * 1000" using Cons.prems(2) t by fastforce
    then have "int (passes (rl\<lparr>rl_count := 1, rl_ts := t\<rparr>) ts) \<le> rl_burst rl - 1"
      using passes_in_interval [of "rl\<lparr>rl_count := 1, rl_ts := t\<rparr>" ts] ok fresh
      by simp
    then show ?thesis using fresh b by simp
  next
    case zero
    have "\<forall>x \<in> set ts. normal x \<and> usecs x < usecs t + rl_interval rl * 1000" using Cons.prems(2) t by fastforce
    then have "int (passes (rl\<lparr>rl_dropped := rl_dropped rl + 1, rl_count := 0, rl_ts := t\<rparr>) ts) \<le> 0"
      using passes_in_interval [of "rl\<lparr>rl_dropped := rl_dropped rl + 1, rl_count := 0, rl_ts := t\<rparr>" ts]
        ok zero by simp
    then show ?thesis using zero Cons.prems(1) by (simp add: rl_ok_def)
  qed (use Cons.IH [OF ok] Cons.prems(2) in auto)
qed

text \<open>A full burst passes at once.\<close>

lemma burst_passes:
  assumes "rl_ok rl" and "int (length ts) \<le> rl_burst rl - rl_count rl"
  shows "passes rl ts = length ts"
  using assms
proof (induction ts arbitrary: rl)
  case (Cons t ts)
  have p: "tapdisk_loglimit_pass rl t = (rl\<lparr>rl_count := rl_count rl + 1\<rparr>, True)"
    using Cons.prems by (simp add: tapdisk_loglimit_pass_def Let_def rl_ok_def)
  have "rl_ok (rl\<lparr>rl_count := rl_count rl + 1\<rparr>)" using Cons.prems by (simp add: rl_ok_def)
  from Cons.IH [OF this] Cons.prems(2) show ?case by (simp add: p)
qed simp

end
