(* ===== verification/Td_Sched.thy ===== *)
theory Td_Sched
  imports Vhd_Base
begin

text \<open>
  \<open>drivers/scheduler.c\<close>: the event loop of tapdisk. Clients register interest in file descriptors and
  timeouts; a call of \<open>scheduler_wait_for_events\<close> waits in \<open>select\<close>, marks the events that are due
  as pending and runs their callbacks, which may themselves register, unregister and mask events
  and wait again. The clock and the results of \<open>select\<close> are streams in the state (lists that are
  consumed; an empty one gives time 0 and the error result). A callback is a number; what it does,
  the sequence of its calls into the scheduler, is the parameter \<open>prog\<close>. The callbacks made are
  recorded in a trace. A failed \<open>BUG_ON\<close> is \<open>Abort\<close>. Sets of file descriptors are sets of integers:
  \<open>FD_SETSIZE\<close> is not modelled. Times are \<open>long\<close> and are cut to \<open>int\<close> (\<open>s32\<close>) where they are stored.
\<close>

section \<open>State\<close>

definition s32 :: "int \<Rightarrow> int" where
  "s32 x = signed_take_bit 31 x"

definition SCHEDULER_POLL_READ_FD :: u8 where "SCHEDULER_POLL_READ_FD = 0x1"
definition SCHEDULER_POLL_WRITE_FD :: u8 where "SCHEDULER_POLL_WRITE_FD = 0x2"
definition SCHEDULER_POLL_EXCEPT_FD :: u8 where "SCHEDULER_POLL_EXCEPT_FD = 0x4"
definition SCHEDULER_POLL_TIMEOUT :: u8 where "SCHEDULER_POLL_TIMEOUT = 0x8"

definition SCHEDULER_POLL_FD :: u8 where
  "SCHEDULER_POLL_FD = SCHEDULER_POLL_READ_FD OR SCHEDULER_POLL_WRITE_FD OR SCHEDULER_POLL_EXCEPT_FD"

definition SCHEDULER_MAX_TIMEOUT :: int where "SCHEDULER_MAX_TIMEOUT = 600"

lemmas poll_defs = SCHEDULER_POLL_READ_FD_def SCHEDULER_POLL_WRITE_FD_def SCHEDULER_POLL_EXCEPT_FD_def
  SCHEDULER_POLL_TIMEOUT_def SCHEDULER_POLL_FD_def

text \<open>\<open>has m b\<close> is \<open>m & b\<close> as a condition.\<close>

definition has :: "u8 \<Rightarrow> u8 \<Rightarrow> bool" where
  "has m b \<longleftrightarrow> m AND b \<noteq> 0"

record event =
  ev_mode :: u8
  ev_dead :: bool
  ev_pending :: u8
  ev_masked :: bool
  ev_id :: int
  ev_fd :: int
  ev_timeout :: int
  ev_deadline :: int
  ev_cb :: nat
  ev_private :: nat

record fdsets =
  read_fds :: "int set"
  write_fds :: "int set"
  except_fds :: "int set"

record scheduler =
  sc_fds :: fdsets
  sc_events :: "event list"
  sc_uuid :: int
  sc_max_fd :: int
  sc_timeout :: int
  sc_max_timeout :: int
  sc_depth :: int

text \<open>A \<open>select\<close> that succeeds reports the number of descriptors and leaves the ready ones in the
  sets.\<close>

record sworld =
  sw_sched :: scheduler
  sw_clock :: "int list"
  sw_select :: "(int \<times> fdsets) list"
  sw_oom :: "bool list"
  sw_trace :: "(int \<times> u8) list"

definition no_fds :: fdsets where
  "no_fds = \<lparr>read_fds = {}, write_fds = {}, except_fds = {}\<rparr>"

definition scheduler_initialize :: scheduler where
  "scheduler_initialize = \<lparr>sc_fds = no_fds, sc_events = [], sc_uuid = 1, sc_max_fd = 0, sc_timeout = 0,
     sc_max_timeout = 0, sc_depth = 0\<rparr>"

definition gettime :: "(sworld, int) vm" where
  "gettime = (\<lambda>w. case sw_clock w of [] \<Rightarrow> (Inr 0, w) | t # ts \<Rightarrow> (Inr t, w\<lparr>sw_clock := ts\<rparr>))"

abbreviation upd_sched :: "(scheduler \<Rightarrow> scheduler) \<Rightarrow> (sworld, unit) vm" where
  "upd_sched f \<equiv> vmodify (\<lambda>w. w\<lparr>sw_sched := f (sw_sched w)\<rparr>)"

abbreviation upd_event :: "nat \<Rightarrow> (event \<Rightarrow> event) \<Rightarrow> (sworld, unit) vm" where
  "upd_event i f \<equiv> upd_sched (\<lambda>s. s\<lparr>sc_events := (sc_events s)[i := f (sc_events s ! i)]\<rparr>)"

section \<open>Waiting\<close>

definition prepare_event :: "int \<Rightarrow> event \<Rightarrow> scheduler \<Rightarrow> scheduler" where
  "prepare_event now e s =
     (if ev_masked e \<or> ev_dead e then s
      else let
        s = (if has (ev_mode e) SCHEDULER_POLL_READ_FD
             then s\<lparr>sc_fds := (sc_fds s)\<lparr>read_fds := insert (ev_fd e) (read_fds (sc_fds s))\<rparr>,
                    sc_max_fd := max (ev_fd e) (sc_max_fd s)\<rparr> else s);
        s = (if has (ev_mode e) SCHEDULER_POLL_WRITE_FD
             then s\<lparr>sc_fds := (sc_fds s)\<lparr>write_fds := insert (ev_fd e) (write_fds (sc_fds s))\<rparr>,
                    sc_max_fd := max (ev_fd e) (sc_max_fd s)\<rparr> else s);
        s = (if has (ev_mode e) SCHEDULER_POLL_EXCEPT_FD
             then s\<lparr>sc_fds := (sc_fds s)\<lparr>except_fds := insert (ev_fd e) (except_fds (sc_fds s))\<rparr>,
                    sc_max_fd := max (ev_fd e) (sc_max_fd s)\<rparr> else s)
      in if has (ev_mode e) SCHEDULER_POLL_TIMEOUT
         then let diff = s32 (ev_deadline e - now)
              in if diff > 0 then s\<lparr>sc_timeout := min (sc_timeout s) diff\<rparr> else s\<lparr>sc_timeout := 0\<rparr>
         else s)"

definition scheduler_prepare_events :: "(sworld, unit) vm" where
  "scheduler_prepare_events = vbind gettime (\<lambda>now. upd_sched (\<lambda>s.
     let s = s\<lparr>sc_fds := no_fds, sc_max_fd := - 1, sc_timeout := SCHEDULER_MAX_TIMEOUT\<rparr>;
         s = fold (prepare_event now) (sc_events s) s
     in s\<lparr>sc_timeout := min (sc_timeout s) (sc_max_timeout s)\<rparr>))"

text \<open>One kind of descriptor of one event: a ready descriptor is taken out of the set.\<close>

definition take_ready :: "u8 \<Rightarrow> event \<Rightarrow> int set \<times> int \<Rightarrow> event \<times> int set \<times> int" where
  "take_ready b e st = (case st of (fds, n) \<Rightarrow>
     if has (ev_mode e) b \<and> ev_fd e \<in> fds
     then (e\<lparr>ev_pending := ev_pending e OR b\<rparr>, fds - {ev_fd e}, n - 1) else (e, fds, n))"

definition check_fd_event :: "event \<Rightarrow> fdsets \<Rightarrow> int \<Rightarrow> event \<times> fdsets \<times> int" where
  "check_fd_event e fs n =
     (case take_ready SCHEDULER_POLL_READ_FD e (read_fds fs, n) of (e, r, n) \<Rightarrow>
      case take_ready SCHEDULER_POLL_WRITE_FD e (write_fds fs, n) of (e, w, n) \<Rightarrow>
      case take_ready SCHEDULER_POLL_EXCEPT_FD e (except_fds fs, n) of (e, x, n) \<Rightarrow>
        (e, \<lparr>read_fds = r, write_fds = w, except_fds = x\<rparr>, n))"

primrec check_fd_events :: "event list \<Rightarrow> fdsets \<Rightarrow> int \<Rightarrow> event list \<times> fdsets \<times> int" where
  "check_fd_events [] fs n = ([], fs, n)"
| "check_fd_events (e # es) fs n =
     (if n = 0 then (e # es, fs, n)
      else if ev_dead e then (case check_fd_events es fs n of (es, fs, n) \<Rightarrow> (e # es, fs, n))
      else case check_fd_event e fs n of (e, fs, n) \<Rightarrow>
        case check_fd_events es fs n of (es, fs, n) \<Rightarrow> (e # es, fs, n))"

definition scheduler_check_fd_events :: "int \<Rightarrow> (sworld, int) vm" where
  "scheduler_check_fd_events nfds = (\<lambda>w.
     case check_fd_events (sc_events (sw_sched w)) (sc_fds (sw_sched w)) nfds of (es, fs, n) \<Rightarrow>
       (Inr n, w\<lparr>sw_sched := (sw_sched w)\<lparr>sc_events := es, sc_fds := fs\<rparr>\<rparr>))"

definition check_timeout :: "int \<Rightarrow> event \<Rightarrow> event" where
  "check_timeout now e =
     (if ev_dead e then e
      else if ev_pending e \<noteq> 0 then e
      else if \<not> has (ev_mode e) SCHEDULER_POLL_TIMEOUT then e
      else if ev_deadline e > now then e
      else e\<lparr>ev_pending := SCHEDULER_POLL_TIMEOUT\<rparr>)"

text \<open>The \<open>BUG_ON\<close> is evaluated for every event of the list, in the course of the loop.\<close>

definition scheduler_check_timeouts :: "(sworld, unit) vm" where
  "scheduler_check_timeouts = vbind gettime (\<lambda>now w.
     if \<exists>e \<in> set (sc_events (sw_sched w)). ev_pending e \<noteq> 0 \<and> ev_masked e then (Inl Abort, w)
     else upd_sched (\<lambda>s. s\<lparr>sc_events := map (check_timeout now) (sc_events s)\<rparr>) w)"

definition scheduler_check_events :: "int \<Rightarrow> (sworld, int) vm" where
  "scheduler_check_events nfds =
     vbind (if nfds \<noteq> 0 then scheduler_check_fd_events nfds else vret nfds) (\<lambda>nfds.
       vthen scheduler_check_timeouts (vret nfds))"

section \<open>Registration\<close>

text \<open>The number of the next event is a signed integer; its overflow is undefined.\<close>

definition INT_MAX :: int where "INT_MAX = 2147483647"

definition scheduler_register_event :: "u8 \<Rightarrow> int \<Rightarrow> int \<Rightarrow> nat option \<Rightarrow> nat \<Rightarrow> (sworld, int) vm" where
  "scheduler_register_event mode fd timeout cb private =
     (case cb of None \<Rightarrow> vfail (- EINVAL)
      | Some cb \<Rightarrow>
        if \<not> has mode SCHEDULER_POLL_TIMEOUT \<and> \<not> has mode SCHEDULER_POLL_FD then vfail (- EINVAL)
        else (\<lambda>w. case sw_oom w of
            True # os \<Rightarrow> (Inl (Errno (- ENOMEM)), w\<lparr>sw_oom := os\<rparr>)
          | os \<Rightarrow> vbind gettime (\<lambda>now w.
              let s = sw_sched w;
                  e = \<lparr>ev_mode = mode, ev_dead = False, ev_pending = 0, ev_masked = False,
                       ev_id = sc_uuid s, ev_fd = fd, ev_timeout = timeout,
                       ev_deadline = s32 (now + timeout), ev_cb = cb, ev_private = private\<rparr>;
                  u = sc_uuid s + 1;
                  u' = (if u = 0 then 1 else u)
              in if u > INT_MAX then (Inl Undef, w)
                 else (Inr (ev_id e), w\<lparr>sw_sched := s\<lparr>sc_uuid := u', sc_events := sc_events s @ [e]\<rparr>\<rparr>))
              (w\<lparr>sw_oom := tl os\<rparr>)))"

text \<open>The first event with the number.\<close>

primrec upd_first :: "int \<Rightarrow> (event \<Rightarrow> event) \<Rightarrow> event list \<Rightarrow> event list" where
  "upd_first i f [] = []"
| "upd_first i f (e # es) = (if ev_id e = i then f e # es else e # upd_first i f es)"

definition scheduler_unregister_event :: "int \<Rightarrow> (sworld, unit) vm" where
  "scheduler_unregister_event i =
     (if i = 0 then vret ()
      else upd_sched (\<lambda>s. s\<lparr>sc_events := upd_first i (\<lambda>e. e\<lparr>ev_dead := True\<rparr>) (sc_events s)\<rparr>))"

definition scheduler_mask_event :: "int \<Rightarrow> bool \<Rightarrow> (sworld, unit) vm" where
  "scheduler_mask_event i masked =
     (if i = 0 then vret ()
      else upd_sched (\<lambda>s. s\<lparr>sc_events := upd_first i (\<lambda>e. e\<lparr>ev_masked := masked\<rparr>) (sc_events s)\<rparr>))"

definition scheduler_gc_events :: "(sworld, unit) vm" where
  "scheduler_gc_events = upd_sched (\<lambda>s. s\<lparr>sc_events := filter (\<lambda>e. \<not> ev_dead e) (sc_events s)\<rparr>)"

definition scheduler_set_max_timeout :: "int \<Rightarrow> (sworld, unit) vm" where
  "scheduler_set_max_timeout timeout =
     (if timeout \<ge> 0 then upd_sched (\<lambda>s. s\<lparr>sc_max_timeout := min (sc_max_timeout s) timeout\<rparr>) else vret ())"

section \<open>Running callbacks\<close>

text \<open>What a callback can do to the scheduler. Results of the calls are its own affair.\<close>

datatype cb_op =
    Cb_register u8 int int "nat option" nat
  | Cb_unregister int
  | Cb_mask int bool
  | Cb_set_max_timeout int
  | Cb_wait

definition select_call :: "(sworld, int) vm" where
  "select_call = (\<lambda>w. case sw_select w of
     [] \<Rightarrow> (Inr (- 1), w)
   | (r, fs) # rs \<Rightarrow>
       (Inr r, (if r < 0 then w else w\<lparr>sw_sched := (sw_sched w)\<lparr>sc_fds := fs\<rparr>\<rparr>)\<lparr>sw_select := rs\<rparr>))"

text \<open>An error of a call inside a callback is no error of the loop.\<close>

definition ignore_error :: "(sworld, 'a) vm \<Rightarrow> (sworld, unit) vm" where
  "ignore_error m = vcatch (vthen m (vret ())) (\<lambda>_. vret ())"

text \<open>The event at position \<open>i\<close>; \<open>call\<close> is its callback, whose call is recorded.\<close>

definition scheduler_event_callback :: "(sworld, unit) vm \<Rightarrow> nat \<Rightarrow> event \<Rightarrow> u8 \<Rightarrow> (sworld, unit) vm" where
  "scheduler_event_callback call i e mode = vthen
     (if has (ev_mode e) SCHEDULER_POLL_TIMEOUT
      then vbind gettime (\<lambda>now. upd_event i (\<lambda>e. e\<lparr>ev_deadline := s32 (now + ev_timeout e)\<rparr>))
      else vret ())
     (if ev_masked e then vret ()
      else vthen (vmodify (\<lambda>w. w\<lparr>sw_trace := sw_trace w @ [(ev_id e, mode)]\<rparr>)) call)"

text \<open>The middle of \<open>scheduler_wait_for_events\<close>, up to the label \<open>out\<close>; \<open>run\<close> is its call of
  \<open>scheduler_run_events\<close>.\<close>

definition scheduler_select :: "(sworld, int) vm \<Rightarrow> (sworld, int) vm" where
  "scheduler_select run = vthen scheduler_prepare_events (vbind select_call (\<lambda>ret.
     if ret < 0 then vret ret
     else vbind (scheduler_check_events ret) (\<lambda>ret.
       vthen (vassert (ret = 0))
         (vthen (upd_sched (\<lambda>s. s\<lparr>sc_timeout := SCHEDULER_MAX_TIMEOUT, sc_max_timeout := SCHEDULER_MAX_TIMEOUT\<rparr>))
           (vthen run
             (vbind (vgets (\<lambda>w. sc_depth (sw_sched w))) (\<lambda>depth.
               vthen (if depth = 1 then scheduler_gc_events else vret ()) (vret ret))))))))"

text \<open>
  The list of events is walked by position, since callbacks only append to it (the collection of
  dead events happens at the outermost level, when no walk is going on). The fuel bounds the
  number of steps of all three functions, nested waits included.
\<close>

fun scheduler_run_events :: "(nat \<Rightarrow> int \<Rightarrow> u8 \<Rightarrow> sworld \<Rightarrow> cb_op list) \<Rightarrow> nat \<Rightarrow> nat \<Rightarrow> int \<Rightarrow> (sworld, int) vm"
  and run_callback :: "(nat \<Rightarrow> int \<Rightarrow> u8 \<Rightarrow> sworld \<Rightarrow> cb_op list) \<Rightarrow> nat \<Rightarrow> cb_op list \<Rightarrow> (sworld, unit) vm"
  and scheduler_wait_for_events :: "(nat \<Rightarrow> int \<Rightarrow> u8 \<Rightarrow> sworld \<Rightarrow> cb_op list) \<Rightarrow> nat \<Rightarrow> (sworld, int) vm"
where
  "scheduler_run_events prog 0 i n = vraise Hang"
| "scheduler_run_events prog (Suc k) i n = (\<lambda>w.
     if i \<ge> length (sc_events (sw_sched w)) then (Inr n, w)
     else let e = sc_events (sw_sched w) ! i; pending = ev_pending e
       in if ev_dead e \<or> pending = 0 then scheduler_run_events prog k (Suc i) n w
       else vthen (upd_event i (\<lambda>e. e\<lparr>ev_pending := 0\<rparr>))
         (vthen (scheduler_event_callback (\<lambda>w. run_callback prog k (prog (ev_cb e) (ev_id e) pending w) w) i e pending)
           (scheduler_run_events prog k (Suc i) (n + 1))) w)"
| "run_callback prog 0 ops = vraise Hang"
| "run_callback prog (Suc k) [] = vret ()"
| "run_callback prog (Suc k) (c # cs) = vthen
     (case c of
        Cb_register mode fd timeout cb private \<Rightarrow> ignore_error (scheduler_register_event mode fd timeout cb private)
      | Cb_unregister i \<Rightarrow> scheduler_unregister_event i
      | Cb_mask i m \<Rightarrow> scheduler_mask_event i m
      | Cb_set_max_timeout t \<Rightarrow> scheduler_set_max_timeout t
      | Cb_wait \<Rightarrow> vthen (scheduler_wait_for_events prog k) (vret ()))
     (run_callback prog k cs)"
| "scheduler_wait_for_events prog 0 = vraise Hang"
| "scheduler_wait_for_events prog (Suc k) =
     vthen (upd_sched (\<lambda>s. s\<lparr>sc_depth := sc_depth s + 1\<rparr>))
       (vbind (vgets (\<lambda>w. sc_depth (sw_sched w))) (\<lambda>depth.
         vbind (if depth > 1 then scheduler_run_events prog k 0 0 else vret 0) (\<lambda>progress.
           vbind (if progress \<noteq> 0 then vret 0 else scheduler_select (scheduler_run_events prog k 0 0))
             (\<lambda>ret. vthen (upd_sched (\<lambda>s. s\<lparr>sc_depth := sc_depth s - 1\<rparr>)) (vret ret)))))"

end
