(* ===== verification/Td_Sched_Laws.thy ===== *)
theory Td_Sched_Laws
  imports Td_Sched
begin

text \<open>
  Properties of the event loop: what \<open>select\<close> is asked for, that its answer is always consumed
  (\<open>BUG_ON (ret)\<close> cannot fire) and the bound on the sleep. Whole runs are in \<open>Td_Sched_Run\<close>.
\<close>

abbreviation evs :: "sworld \<Rightarrow> event list" where "evs w \<equiv> sc_events (sw_sched w)"
abbreviation dep :: "sworld \<Rightarrow> int" where "dep w \<equiv> sc_depth (sw_sched w)"

section \<open>What select is asked for\<close>

definition active :: "event \<Rightarrow> bool" where
  "active e \<longleftrightarrow> \<not> ev_masked e \<and> \<not> ev_dead e"

definition wants :: "u8 \<Rightarrow> event list \<Rightarrow> int set" where
  "wants b es = ev_fd ` {e \<in> set es. active e \<and> has (ev_mode e) b}"

definition remaining :: "int \<Rightarrow> event \<Rightarrow> int" where
  "remaining now e = max 0 (s32 (ev_deadline e - now))"

lemma wants_Cons:
  "wants b (e # es) = (if active e \<and> has (ev_mode e) b then insert (ev_fd e) (wants b es) else wants b es)"
  by (auto simp: wants_def)

lemma fold_prepare_fds:
  "sc_fds (fold (prepare_event now) es s) =
    \<lparr>read_fds = read_fds (sc_fds s) \<union> wants SCHEDULER_POLL_READ_FD es,
     write_fds = write_fds (sc_fds s) \<union> wants SCHEDULER_POLL_WRITE_FD es,
     except_fds = except_fds (sc_fds s) \<union> wants SCHEDULER_POLL_EXCEPT_FD es\<rparr>"
proof (induction es arbitrary: s)
  case Nil
  then show ?case by (simp add: wants_def)
next
  case (Cons e es)
  have "sc_fds (prepare_event now e s) =
    \<lparr>read_fds = read_fds (sc_fds s) \<union> wants SCHEDULER_POLL_READ_FD [e],
     write_fds = write_fds (sc_fds s) \<union> wants SCHEDULER_POLL_WRITE_FD [e],
     except_fds = except_fds (sc_fds s) \<union> wants SCHEDULER_POLL_EXCEPT_FD [e]\<rparr>"
    by (simp add: prepare_event_def Let_def wants_Cons active_def) (simp add: wants_def)
  then show ?case by (simp add: Cons.IH wants_Cons) (simp add: wants_def)
qed

lemma fold_prepare_events: "sc_events (fold (prepare_event now) es s) = sc_events s"
  and fold_prepare_depth: "sc_depth (fold (prepare_event now) es s) = sc_depth s"
  and fold_prepare_uuid: "sc_uuid (fold (prepare_event now) es s) = sc_uuid s"
  and fold_prepare_max: "sc_max_timeout (fold (prepare_event now) es s) = sc_max_timeout s"
  by (induction es arbitrary: s) (simp_all add: prepare_event_def Let_def)

lemma fold_prepare_timeout:
  assumes "0 \<le> sc_timeout s"
  shows "0 \<le> sc_timeout (fold (prepare_event now) es s) \<and> sc_timeout (fold (prepare_event now) es s) \<le> sc_timeout s \<and>
    (\<forall>e \<in> set es. active e \<and> has (ev_mode e) SCHEDULER_POLL_TIMEOUT \<longrightarrow>
      sc_timeout (fold (prepare_event now) es s) \<le> remaining now e)"
  using assms
proof (induction es arbitrary: s)
  case (Cons e es)
  let ?s = "prepare_event now e s"
  have "sc_timeout ?s = (if active e \<and> has (ev_mode e) SCHEDULER_POLL_TIMEOUT
      then (if s32 (ev_deadline e - now) > 0 then min (sc_timeout s) (s32 (ev_deadline e - now)) else 0)
      else sc_timeout s)"
    by (auto simp: prepare_event_def Let_def active_def)
  with Cons.prems have "0 \<le> sc_timeout ?s" "sc_timeout ?s \<le> sc_timeout s"
    "active e \<and> has (ev_mode e) SCHEDULER_POLL_TIMEOUT \<Longrightarrow> sc_timeout ?s \<le> remaining now e"
    by (auto simp: remaining_def)
  with Cons.IH [of ?s] show ?case by fastforce
qed simp

lemma prepare_ok:
  assumes "scheduler_prepare_events w = (r, t)"
  shows "r = Inr () \<and> evs t = evs w \<and> dep t = dep w \<and> sc_uuid (sw_sched t) = sc_uuid (sw_sched w) \<and>
    sw_select t = sw_select w \<and> sc_fds (sw_sched t) = \<lparr>read_fds = wants SCHEDULER_POLL_READ_FD (evs w),
      write_fds = wants SCHEDULER_POLL_WRITE_FD (evs w), except_fds = wants SCHEDULER_POLL_EXCEPT_FD (evs w)\<rparr>"
  using assms
  by (auto simp: scheduler_prepare_events_def gettime_def vbind_def vmodify_def Let_def no_fds_def
      fold_prepare_fds fold_prepare_events fold_prepare_depth fold_prepare_uuid split: list.splits)

lemma prepare_timeout:
  assumes "scheduler_prepare_events w = (r, t)" and "gettime w = (Inr now, u)" and "0 \<le> sc_max_timeout (sw_sched w)"
  shows "0 \<le> sc_timeout (sw_sched t) \<and> sc_timeout (sw_sched t) \<le> sc_max_timeout (sw_sched w) \<and>
    sc_timeout (sw_sched t) \<le> SCHEDULER_MAX_TIMEOUT \<and>
    (\<forall>e \<in> set (evs w). active e \<and> has (ev_mode e) SCHEDULER_POLL_TIMEOUT \<longrightarrow>
      sc_timeout (sw_sched t) \<le> remaining now e)"
proof -
  have u: "sw_sched u = sw_sched w" using assms(2) by (auto simp: gettime_def split: list.splits)
  let ?s = "(sw_sched w)\<lparr>sc_fds := no_fds, sc_max_fd := - 1, sc_timeout := SCHEDULER_MAX_TIMEOUT\<rparr>"
  have t: "sc_timeout (sw_sched t) =
      min (sc_timeout (fold (prepare_event now) (evs w) ?s)) (sc_max_timeout (sw_sched w))"
    using assms(1,2) u
    by (auto simp: scheduler_prepare_events_def vbind_def vmodify_def Let_def fold_prepare_max)
  have "0 \<le> sc_timeout ?s" by (simp add: SCHEDULER_MAX_TIMEOUT_def)
  from fold_prepare_timeout [OF this, of now "evs w"] assms(3) show ?thesis
    unfolding t by (auto simp: min_le_iff_disj)
qed

section \<open>The answer of select is consumed\<close>

definition covered :: "u8 \<Rightarrow> event list \<Rightarrow> int set \<Rightarrow> bool" where
  "covered b es fds \<longleftrightarrow> finite fds \<and> (\<forall>fd \<in> fds. \<exists>e \<in> set es. \<not> ev_dead e \<and> has (ev_mode e) b \<and> ev_fd e = fd)"

lemma covered_Nil: "covered b [] fds \<longleftrightarrow> fds = {}"
  by (auto simp: covered_def)

lemma covered_dead: "ev_dead e \<Longrightarrow> covered b (e # es) fds = covered b es fds"
  by (auto simp: covered_def)

lemma take_ready_covered:
  assumes "covered b (e # es) fds" and "take_ready b e' (fds, n) = (e2, fds', n')"
    and "ev_mode e' = ev_mode e" "ev_fd e' = ev_fd e"
  shows "covered b es fds' \<and> n' - int (card fds') = n - int (card fds) \<and> finite fds' \<and>
    ev_mode e2 = ev_mode e \<and> ev_fd e2 = ev_fd e \<and> ev_dead e2 = ev_dead e' \<and> ev_id e2 = ev_id e'"
proof (cases "has (ev_mode e) b \<and> ev_fd e \<in> fds")
  case True
  have "finite fds" using assms(1) by (simp add: covered_def)
  then have "int (card (fds - {ev_fd e})) = int (card fds) - 1"
    using True by (simp add: card_Diff_singleton of_nat_diff card_gt_0_iff Suc_leI)
      (metis One_nat_def Suc_leI card_gt_0_iff empty_iff of_nat_1 of_nat_diff)
  then show ?thesis using assms True by (auto simp: take_ready_def covered_def)
next
  case False
  then show ?thesis using assms by (auto simp: take_ready_def covered_def)
qed

lemma check_fd_events_zero:
  assumes "covered SCHEDULER_POLL_READ_FD es (read_fds fs)" and "covered SCHEDULER_POLL_WRITE_FD es (write_fds fs)"
    and "covered SCHEDULER_POLL_EXCEPT_FD es (except_fds fs)"
    and "n = int (card (read_fds fs)) + int (card (write_fds fs)) + int (card (except_fds fs))"
  shows "snd (snd (check_fd_events es fs n)) = 0"
  using assms
proof (induction es arbitrary: fs n)
  case Nil
  then show ?case by (simp add: covered_Nil)
next
  case (Cons e es)
  consider "n = 0" | "n \<noteq> 0" "ev_dead e" | "n \<noteq> 0" "\<not> ev_dead e" by blast
  then show ?case
  proof cases
    case 2
    obtain es' fs' n' where r: "check_fd_events es fs n = (es', fs', n')" by (metis prod_cases3)
    have "snd (snd (check_fd_events es fs n)) = 0"
      by (rule Cons.IH) (use Cons.prems 2 in \<open>simp_all add: covered_dead\<close>)
    then show ?thesis using 2 r by simp
  next
    case 3
    obtain e1 r n1 where r: "take_ready SCHEDULER_POLL_READ_FD e (read_fds fs, n) = (e1, r, n1)" by (metis prod_cases3)
    note R = take_ready_covered [OF Cons.prems(1) r]
    obtain e2 w n2 where w: "take_ready SCHEDULER_POLL_WRITE_FD e1 (write_fds fs, n1) = (e2, w, n2)" by (metis prod_cases3)
    note W = take_ready_covered [OF Cons.prems(2) w]
    obtain e3 x n3 where x: "take_ready SCHEDULER_POLL_EXCEPT_FD e2 (except_fds fs, n2) = (e3, x, n3)" by (metis prod_cases3)
    note X = take_ready_covered [OF Cons.prems(3) x]
    let ?fs = "\<lparr>read_fds = r, write_fds = w, except_fds = x\<rparr>"
    have "snd (snd (check_fd_events es ?fs n3)) = 0"
      by (rule Cons.IH) (use R W X Cons.prems(4) in auto)
    moreover obtain es' fs' n' where "check_fd_events es ?fs n3 = (es', fs', n')" by (metis prod_cases3)
    ultimately show ?thesis using 3 r w x by (simp add: check_fd_event_def)
  qed (simp add: Cons)
qed

text \<open>A correct \<open>select\<close> returns subsets of what it was asked for and their total size.\<close>

definition select_answer :: "fdsets \<Rightarrow> int \<Rightarrow> fdsets \<Rightarrow> bool" where
  "select_answer asked n fs \<longleftrightarrow> read_fds fs \<subseteq> read_fds asked \<and> write_fds fs \<subseteq> write_fds asked \<and>
     except_fds fs \<subseteq> except_fds asked \<and>
     n = int (card (read_fds fs)) + int (card (write_fds fs)) + int (card (except_fds fs))"

lemma select_answer_consumed:
  assumes "scheduler_prepare_events w = (r, t)" and "select_answer (sc_fds (sw_sched t)) n fs"
  shows "fst (scheduler_check_fd_events n (t\<lparr>sw_sched := (sw_sched t)\<lparr>sc_fds := fs\<rparr>\<rparr>)) = Inr 0"
proof -
  note p = prepare_ok [OF assms(1)]
  have c: "covered b (evs w) fds" if "fds \<subseteq> wants b (evs w)" for b fds
  proof -
    have "finite (wants b (evs w))" by (simp add: wants_def)
    then show ?thesis using that by (auto simp: covered_def wants_def active_def intro: finite_subset)
  qed
  have "snd (snd (check_fd_events (evs w) fs n)) = 0"
    using assms(2) p by (intro check_fd_events_zero c) (auto simp: select_answer_def)
  moreover obtain es' fs' n' where "check_fd_events (evs w) fs n = (es', fs', n')" by (metis prod_cases3)
  ultimately show ?thesis using p by (simp add: scheduler_check_fd_events_def)
qed

section \<open>A masked event can be marked\<close>

lemma take_ready_count:
  assumes "finite fds" and "take_ready b e (fds, n) = (e2, fds', n')"
  shows "n' - int (card fds') = n - int (card fds)" "finite fds'" "fds - {ev_fd e} \<subseteq> fds'"
    "\<not> has (ev_mode e) b \<Longrightarrow> fds' = fds" "has (ev_mode e) b \<Longrightarrow> ev_fd e \<in> fds \<Longrightarrow> ev_pending e2 = ev_pending e OR b"
    "ev_pending e2 = 0 \<Longrightarrow> ev_pending e = 0" "ev_masked e2 = ev_masked e" "ev_mode e2 = ev_mode e" "ev_fd e2 = ev_fd e"
proof -
  have "0 < card fds" if "ev_fd e \<in> fds" using assms(1) that card_gt_0_iff by blast
  then show "n' - int (card fds') = n - int (card fds)" "finite fds'" "fds - {ev_fd e} \<subseteq> fds'"
    "\<not> has (ev_mode e) b \<Longrightarrow> fds' = fds" "has (ev_mode e) b \<Longrightarrow> ev_fd e \<in> fds \<Longrightarrow> ev_pending e2 = ev_pending e OR b"
    "ev_pending e2 = 0 \<Longrightarrow> ev_pending e = 0" "ev_masked e2 = ev_masked e" "ev_mode e2 = ev_mode e" "ev_fd e2 = ev_fd e"
    using assms by (auto simp: take_ready_def card_Diff_singleton of_nat_diff or_eq_0_iff split: if_splits)
qed

text \<open>The number of descriptors the answer still holds.\<close>

definition ready_count :: "fdsets \<Rightarrow> int" where
  "ready_count fs = int (card (read_fds fs)) + int (card (write_fds fs)) + int (card (except_fds fs))"

definition finite_fds :: "fdsets \<Rightarrow> bool" where
  "finite_fds fs \<longleftrightarrow> finite (read_fds fs) \<and> finite (write_fds fs) \<and> finite (except_fds fs)"

lemma check_fd_event_keeps:
  assumes "finite_fds fs" and "check_fd_event e fs n = (e', fs', n')"
  shows "n' - ready_count fs' = n - ready_count fs" "finite_fds fs'" "read_fds fs - {ev_fd e} \<subseteq> read_fds fs'"
    "\<not> has (ev_mode e) SCHEDULER_POLL_READ_FD \<Longrightarrow> read_fds fs' = read_fds fs" "ev_masked e' = ev_masked e"
    "has (ev_mode e) SCHEDULER_POLL_READ_FD \<Longrightarrow> ev_fd e \<in> read_fds fs \<Longrightarrow> ev_pending e' \<noteq> 0"
proof -
  obtain e1 r n1 where r: "take_ready SCHEDULER_POLL_READ_FD e (read_fds fs, n) = (e1, r, n1)" by (metis prod_cases3)
  obtain e2 w n2 where w: "take_ready SCHEDULER_POLL_WRITE_FD e1 (write_fds fs, n1) = (e2, w, n2)" by (metis prod_cases3)
  obtain e3 x n3 where x: "take_ready SCHEDULER_POLL_EXCEPT_FD e2 (except_fds fs, n2) = (e3, x, n3)" by (metis prod_cases3)
  note f = assms(1) [unfolded finite_fds_def]
  note R = take_ready_count [OF f [THEN conjunct1] r]
  note W = take_ready_count [OF f [THEN conjunct2, THEN conjunct1] w]
  note X = take_ready_count [OF f [THEN conjunct2, THEN conjunct2] x]
  have e: "e' = e3" "fs' = \<lparr>read_fds = r, write_fds = w, except_fds = x\<rparr>" "n' = n3"
    using assms(2) r w x by (simp_all add: check_fd_event_def)
  show "n' - ready_count fs' = n - ready_count fs" using R(1) W(1) X(1) by (simp add: e ready_count_def)
  show "finite_fds fs'" using R(2) W(2) X(2) by (simp add: e finite_fds_def)
  show "read_fds fs - {ev_fd e} \<subseteq> read_fds fs'" "\<not> has (ev_mode e) SCHEDULER_POLL_READ_FD \<Longrightarrow> read_fds fs' = read_fds fs"
    using R(3,4) by (simp_all add: e)
  show "ev_masked e' = ev_masked e" using R(7) W(7) X(7) by (simp add: e)
  show "ev_pending e' \<noteq> 0" if "has (ev_mode e) SCHEDULER_POLL_READ_FD" "ev_fd e \<in> read_fds fs"
  proof -
    have "ev_pending e1 \<noteq> 0" using R(5) [OF that] by (simp add: or_eq_0_iff SCHEDULER_POLL_READ_FD_def)
    then show ?thesis using W(6) X(6) e(1) by blast
  qed
qed

text \<open>The event takes its descriptor out of the answer unless a reader before it has done so.\<close>

definition reads_fd :: "int \<Rightarrow> event \<Rightarrow> bool" where
  "reads_fd fd e \<longleftrightarrow> \<not> ev_dead e \<and> has (ev_mode e) SCHEDULER_POLL_READ_FD \<and> ev_fd e = fd"

lemma first_reader_marked:
  assumes "finite_fds fs" and "n = ready_count fs" and "ev_fd e \<in> read_fds fs" and "reads_fd (ev_fd e) e"
    and "\<And>a. a \<in> set es1 \<Longrightarrow> \<not> reads_fd (ev_fd e) a"
  shows "\<exists>e' \<in> set (fst (check_fd_events (es1 @ e # es2) fs n)). ev_pending e' \<noteq> 0 \<and> ev_masked e' = ev_masked e"
  using assms
proof (induction es1 arbitrary: fs n)
  case Nil
  have "0 < card (read_fds fs)" using Nil(1,3) card_gt_0_iff finite_fds_def by blast
  then have n: "n \<noteq> 0" using Nil(2) by (simp add: ready_count_def)
  obtain e' fs' n' where c: "check_fd_event e fs n = (e', fs', n')" by (metis prod_cases3)
  obtain es' fs2 n2 where r: "check_fd_events es2 fs' n' = (es', fs2, n2)" by (metis prod_cases3)
  show ?case using check_fd_event_keeps(5,6) [OF Nil(1) c] Nil(3,4) n c r by (simp add: reads_fd_def)
next
  case (Cons a es1)
  have "0 < card (read_fds fs)" using Cons.prems(1,3) card_gt_0_iff finite_fds_def by blast
  then have n: "n \<noteq> 0" using Cons.prems(2) by (simp add: ready_count_def)
  have na: "\<not> reads_fd (ev_fd e) a" using Cons.prems(5) by simp
  show ?case
  proof (cases "ev_dead a")
    case True
    obtain es' fs2 n2 where r: "check_fd_events (es1 @ e # es2) fs n = (es', fs2, n2)" by (metis prod_cases3)
    from Cons.IH [OF Cons.prems(1-4)] Cons.prems(5) show ?thesis using True n r by simp
  next
    case False
    obtain a' fs' n' where c: "check_fd_event a fs n = (a', fs', n')" by (metis prod_cases3)
    note K = check_fd_event_keeps [OF Cons.prems(1) c]
    have "ev_fd e \<in> read_fds fs'"
      using K(3,4) Cons.prems(3) na False by (cases "has (ev_mode a) SCHEDULER_POLL_READ_FD") (auto simp: reads_fd_def)
    moreover have "n' = ready_count fs'" using K(1) Cons.prems(2) by simp
    ultimately have "\<exists>e' \<in> set (fst (check_fd_events (es1 @ e # es2) fs' n')). ev_pending e' \<noteq> 0 \<and> ev_masked e' = ev_masked e"
      by (intro Cons.IH) (use K(2) Cons.prems(4,5) in simp_all)
    moreover obtain es' fs2 n2 where "check_fd_events (es1 @ e # es2) fs' n' = (es', fs2, n2)" by (metis prod_cases3)
    ultimately show ?thesis using False n c by simp
  qed
qed

lemma check_timeouts_abort:
  assumes "e \<in> set (sc_events (sw_sched w))" and "ev_pending e \<noteq> 0" and "ev_masked e"
  shows "fst (scheduler_check_timeouts w) = Inl Abort"
  using assms by (auto simp: scheduler_check_timeouts_def vbind_def gettime_def split: list.splits)

lemma wait_aborts:
  assumes "sc_depth (sw_sched w) = 0" and "sc_events (sw_sched w) = es1 @ e # es2" and "ev_masked e"
    and "reads_fd (ev_fd e) e" and "\<And>a. a \<in> set es1 \<Longrightarrow> \<not> reads_fd (ev_fd e) a"
    and "scheduler_prepare_events w = (x, t)" and "sw_select w = (r, fs) # rs"
    and "select_answer (sc_fds (sw_sched t)) r fs" and "ev_fd e \<in> read_fds fs"
  shows "fst (scheduler_wait_for_events prog (Suc k) w) = Inl Abort"
proof -
  let ?w = "w\<lparr>sw_sched := (sw_sched w)\<lparr>sc_depth := 1\<rparr>\<rparr>"
  obtain y v where v: "scheduler_prepare_events ?w = (y, v)" by (metis surj_pair)
  note p = prepare_ok [OF v] and q = prepare_ok [OF assms(6)]
  have wf: "finite (wants b es)" for b es by (simp add: wants_def)
  have sub: "read_fds fs \<subseteq> wants SCHEDULER_POLL_READ_FD (evs w)" "write_fds fs \<subseteq> wants SCHEDULER_POLL_WRITE_FD (evs w)"
    "except_fds fs \<subseteq> wants SCHEDULER_POLL_EXCEPT_FD (evs w)" "r = ready_count fs"
    using assms(8) q by (simp_all add: select_answer_def ready_count_def)
  then have ff: "finite_fds fs" using wf finite_subset unfolding finite_fds_def by blast
  let ?v = "v\<lparr>sw_sched := (sw_sched v)\<lparr>sc_fds := fs\<rparr>, sw_select := rs\<rparr>"
  have "0 \<le> r" "r \<noteq> 0"
  proof -
    have "0 < card (read_fds fs)" using ff assms(9) card_gt_0_iff finite_fds_def by blast
    then show "0 \<le> r" "r \<noteq> 0" using sub(4) by (simp_all add: ready_count_def)
  qed
  have sel: "select_call v = (Inr r, ?v)" using p assms(7) \<open>0 \<le> r\<close> by (simp add: select_call_def)
  obtain es' fs' n' where c: "check_fd_events (es1 @ e # es2) fs r = (es', fs', n')" by (metis prod_cases3)
  obtain e' where e': "e' \<in> set es'" "ev_pending e' \<noteq> 0" "ev_masked e'"
    using first_reader_marked [where ?es1.0 = es1 and ?es2.0 = es2, OF ff sub(4) assms(9,4,5)] c assms(3) by auto
  let ?z = "?v\<lparr>sw_sched := (sw_sched ?v)\<lparr>sc_events := es', sc_fds := fs'\<rparr>\<rparr>"
  have "scheduler_check_fd_events r ?v = (Inr n', ?z)"
    using p assms(2) c by (simp add: scheduler_check_fd_events_def)
  moreover have "fst (scheduler_check_timeouts ?z) = Inl Abort"
    by (rule check_timeouts_abort [of e']) (use e' in simp_all)
  then obtain u where "scheduler_check_timeouts ?z = (Inl Abort, u)" by (cases "scheduler_check_timeouts ?z") simp
  ultimately have "fst (scheduler_select run ?w) = Inl Abort" for run
    using \<open>0 \<le> r\<close> \<open>r \<noteq> 0\<close> p
    by (simp add: scheduler_select_def vbind_def v sel scheduler_check_events_def)
  then obtain u where "scheduler_select (scheduler_run_events prog k 0 0) ?w = (Inl Abort, u)"
    by (metis prod.collapse)
  then show ?thesis using assms(1) by (simp add: vbind_def vmodify_def vgets_def vret_def)
qed

end
