(* ===== verification/Td_Sched_Run.thy ===== *)
theory Td_Sched_Run
  imports Td_Sched_Laws
begin

text \<open>
  Invariants of whole runs of the event loop, nested waits included, for every program of
  callbacks. An interface \<open>sched_inv\<close> lists the five changes that matter to a property of the
  registered events and of the trace (nothing but descriptors, masks and times changes; an event is
  added; one is marked dead; the dead ones are collected; a live one is called); whatever they keep,
  every run keeps. Then the quiescence of the loop (after a wait no live event is pending) and its
  termination when callbacks do not wait.
\<close>

section \<open>Invariants\<close>

abbreviation trace_of :: "sworld \<Rightarrow> (int \<times> u8) list" where "trace_of w \<equiv> sw_trace w"

definition same_events :: "sworld \<Rightarrow> sworld \<Rightarrow> bool" where
  "same_events w t \<longleftrightarrow> map (\<lambda>e. (ev_id e, ev_dead e)) (evs t) = map (\<lambda>e. (ev_id e, ev_dead e)) (evs w) \<and>
     sc_uuid (sw_sched t) = sc_uuid (sw_sched w) \<and> trace_of t = trace_of w"

lemma same_events_refl: "same_events w w"
  by (simp add: same_events_def)

definition added :: "event \<Rightarrow> sworld \<Rightarrow> sworld" where
  "added e w = w\<lparr>sw_sched := (sw_sched w)\<lparr>
     sc_uuid := (if sc_uuid (sw_sched w) + 1 = 0 then 1 else sc_uuid (sw_sched w) + 1), sc_events := evs w @ [e]\<rparr>\<rparr>"

definition called :: "int \<Rightarrow> u8 \<Rightarrow> sworld \<Rightarrow> sworld" where
  "called i p w = w\<lparr>sw_trace := sw_trace w @ [(i, p)]\<rparr>"

lemma map_upd_first: "(\<And>e. g (f e) = g e) \<Longrightarrow> map g (upd_first i f es) = map g es"
  by (induction es) auto

lemma mask_same: "same_events w (snd (scheduler_mask_event i m w))"
  by (simp add: scheduler_mask_event_def vm_simps same_events_def map_upd_first)

lemma prepare_same: "same_events w (snd (scheduler_prepare_events w))"
  by (cases "sw_clock w") (simp_all add: scheduler_prepare_events_def gettime_def vm_simps Let_def same_events_def
      fold_prepare_events fold_prepare_uuid)

lemma select_same: "same_events w (snd (select_call w))"
  by (auto simp: select_call_def same_events_def split: list.splits)

abbreviation key :: "event \<Rightarrow> int \<times> bool" where "key e \<equiv> (ev_id e, ev_dead e)"

lemma take_ready_key: "take_ready b e st = (e', st') \<Longrightarrow> key e' = key e"
  by (auto simp: take_ready_def split: prod.splits if_splits)

lemma check_fd_event_key: "check_fd_event e fs n = (e', r) \<Longrightarrow> key e' = key e"
  by (auto simp: check_fd_event_def split: prod.splits dest!: take_ready_key)

lemma check_fd_events_same: "check_fd_events es fs n = (es', r) \<Longrightarrow> map key es' = map key es"
proof (induction es arbitrary: fs n es' r)
  case (Cons e es)
  then show ?case
    by (auto split: prod.splits if_splits dest!: check_fd_event_key)
qed simp

lemma check_fds_same: "same_events w (snd (scheduler_check_fd_events m w))"
  using check_fd_events_same [of "evs w" "sc_fds (sw_sched w)" m]
  by (simp add: scheduler_check_fd_events_def same_events_def split: prod.split)

lemma check_timeout_key: "key (check_timeout now e) = key e"
  by (simp add: check_timeout_def)

lemma check_timeouts_same: "same_events w (snd (scheduler_check_timeouts w))"
  using check_timeout_key
  by (cases "sw_clock w")
    (simp_all add: scheduler_check_timeouts_def gettime_def vm_simps same_events_def comp_def)

abbreviation stamp :: "nat \<Rightarrow> event \<Rightarrow> (sworld, unit) vm" where
  "stamp i e \<equiv> (if has (ev_mode e) SCHEDULER_POLL_TIMEOUT
      then vbind gettime (\<lambda>now. upd_event i (\<lambda>e. e\<lparr>ev_deadline := s32 (now + ev_timeout e)\<rparr>)) else vret ())"

lemma stamp_ok:
  obtains t d where "stamp i e w = (Inr (), t)"
    and "evs t = evs w \<or> evs t = (evs w)[i := (evs w ! i)\<lparr>ev_deadline := d\<rparr>]"
    and "sc_uuid (sw_sched t) = sc_uuid (sw_sched w)" "trace_of t = trace_of w" "dep t = dep w"
proof (cases "has (ev_mode e) SCHEDULER_POLL_TIMEOUT")
  case True
  obtain now u where g: "gettime w = (Inr now, u)" "sw_sched u = sw_sched w" "trace_of u = trace_of w"
    by (cases "sw_clock w") (simp_all add: gettime_def)
  show ?thesis
    by (rule that [of "snd (stamp i e w)" "s32 (now + ev_timeout (evs w ! i))"])
      (simp_all add: True vbind_def g vmodify_def)
next
  case False
  show ?thesis by (rule that [of w]) (simp_all add: False vret_def)
qed

locale sched_inv =
  fixes I :: "sworld \<Rightarrow> bool"
  assumes same: "I w \<Longrightarrow> same_events w t \<Longrightarrow> I t"
    and add: "I w \<Longrightarrow> ev_id e = sc_uuid (sw_sched w) \<Longrightarrow> \<not> ev_dead e \<Longrightarrow> I (added e w)"
    and kill: "I w \<Longrightarrow> I (snd (scheduler_unregister_event i w))"
    and collect: "I w \<Longrightarrow> I (snd (scheduler_gc_events w))"
    and call: "I w \<Longrightarrow> j < length (evs w) \<Longrightarrow> \<not> ev_dead (evs w ! j) \<Longrightarrow> I (called (ev_id (evs w ! j)) p w)"
begin

lemma same_vinv: "(\<And>w. same_events w (snd (m w))) \<Longrightarrow> vinv I m"
  by (rule vinvI) (rule same)

lemma register_vinv: "vinv I (scheduler_register_event mode fd timeout cb private)"
proof (rule vinvI)
  fix w
  assume I: "I w"
  show "I (snd (scheduler_register_event mode fd timeout cb private w))"
  proof (cases "cb = None \<or> \<not> has mode SCHEDULER_POLL_TIMEOUT \<and> \<not> has mode SCHEDULER_POLL_FD")
    case True
    then show ?thesis using I by (auto simp: scheduler_register_event_def vraise_def split: option.splits)
  next
    case False
    have oom: "I (w\<lparr>sw_oom := os\<rparr>)" for os
      by (rule same [OF I]) (simp add: same_events_def)
    obtain now u where g: "gettime (w\<lparr>sw_oom := tl (sw_oom w)\<rparr>) = (Inr now, u)" "same_events w u"
      by (cases "sw_clock w") (simp_all add: gettime_def same_events_def)
    have u: "I u" by (rule same [OF I g(2)])
    note a = add [OF u]
    obtain c where c: "cb = Some c" using False by auto
    show ?thesis
      using False c oom g(1) u a
      by (cases "sw_oom w" rule: list.exhaust)
        (auto simp: scheduler_register_event_def vbind_def Let_def added_def split: bool.splits)
  qed
qed

lemma unregister_vinv: "vinv I (scheduler_unregister_event i)"
  by (rule vinvI) (rule kill)

lemma gc_vinv: "vinv I scheduler_gc_events"
  by (rule vinvI) (rule collect)

lemma mask_vinv: "vinv I (scheduler_mask_event i m)"
  by (rule same_vinv) (simp add: mask_same)

lemma set_max_vinv: "vinv I (scheduler_set_max_timeout n)"
  by (rule same_vinv) (simp add: scheduler_set_max_timeout_def vm_simps same_events_def)

lemma prepare_vinv: "vinv I scheduler_prepare_events"
  by (rule same_vinv) (simp add: prepare_same)

lemma select_vinv: "vinv I select_call"
  by (rule same_vinv) (simp add: select_same)

lemma check_vinv: "vinv I (scheduler_check_events n)"
  unfolding scheduler_check_events_def
  by (intro vinv_intros same_vinv check_fds_same check_timeouts_same)

lemma depth_vinv: "vinv I (upd_sched (\<lambda>s. s\<lparr>sc_depth := d s\<rparr>))"
  by (rule same_vinv) (simp add: vm_simps same_events_def)

lemma timeouts_vinv: "vinv I (upd_sched (\<lambda>s. s\<lparr>sc_timeout := a, sc_max_timeout := b\<rparr>))"
  by (rule same_vinv) (simp add: vm_simps same_events_def)

lemma ignore_vinv: "vinv I m \<Longrightarrow> vinv I (ignore_error m)"
  unfolding ignore_error_def by (intro vinv_intros) 

lemma upd_event_vinv:
  assumes "\<And>e. key (f e) = key e"
  shows "vinv I (upd_event i f)"
proof (rule same_vinv)
  fix w
  have "(map key (evs w))[i := key (f (evs w ! i))] = map key (evs w)"
    using assms by (cases "i < length (evs w)") (simp_all add: list_update_same_conv list_update_beyond)
  then show "same_events w (snd (upd_event i f w))"
    by (simp add: vm_simps same_events_def map_update)
qed

lemma event_callback_inv:
  assumes c: "vinv I c" and I: "I w" and i: "i < length (evs w)" "ev_id (evs w ! i) = ev_id e" "\<not> ev_dead (evs w ! i)"
  shows "I (snd (scheduler_event_callback c i e p w))"
proof -
  obtain t d where m: "stamp i e w = (Inr (), t)"
    and t: "evs t = evs w \<or> evs t = (evs w)[i := (evs w ! i)\<lparr>ev_deadline := d\<rparr>]"
      "sc_uuid (sw_sched t) = sc_uuid (sw_sched w)" "trace_of t = trace_of w"
    by (rule stamp_ok)
  have s: "same_events w t" using t i(1) by (auto simp: same_events_def map_update list_update_same_conv)
  have It: "I t" by (rule same [OF I s])
  have ti: "i < length (evs t)" "ev_id (evs t ! i) = ev_id e" "\<not> ev_dead (evs t ! i)" using t i by auto
  have "I (called (ev_id e) p t)" using call [OF It ti(1,3)] ti(2) by simp
  then have "I (snd (c (called (ev_id e) p t)))" using c by (simp add: vinv_def)
  then show ?thesis using It unfolding scheduler_event_callback_def vbind_ok [where m = "stamp i e" and s = w, OF m]
    by (simp add: vm_simps called_def split: prod.split)
qed

lemma run_vinv:
  shows "vinv I (scheduler_run_events prog k i n)"
    and "vinv I (run_callback prog k ops)"
    and "vinv I (scheduler_wait_for_events prog k)"
proof (induction k arbitrary: i n ops)
  case 0
  { case 1 then show ?case by (simp add: vinv_intros) }
  { case 2 then show ?case by (simp add: vinv_intros) }
  { case 3 then show ?case by (simp add: vinv_intros) }
next
  case (Suc k)
  {
    case 1
    show ?case
    proof (rule vinvI)
      fix w assume I: "I w"
      let ?e = "evs w ! i"
      let ?u = "w\<lparr>sw_sched := (sw_sched w)\<lparr>sc_events := (evs w)[i := ?e\<lparr>ev_pending := 0\<rparr>]\<rparr>\<rparr>"
      have u: "I ?u"
        using upd_event_vinv [of "\<lambda>e. e\<lparr>ev_pending := 0\<rparr>" i] I by (simp add: vinv_def vm_simps)
      have c: "vinv I (\<lambda>w. run_callback prog k (prog (ev_cb ?e) (ev_id ?e) (ev_pending ?e) w) w)"
        using Suc.IH(2) by (simp add: vinv_def)
      have "I (snd (scheduler_event_callback (\<lambda>w. run_callback prog k (prog (ev_cb ?e) (ev_id ?e) (ev_pending ?e) w) w)
          i ?e (ev_pending ?e) ?u))" if "i < length (evs w)" "\<not> ev_dead ?e"
        by (rule event_callback_inv [OF c u]) (use that in simp_all)
      then show "I (snd (scheduler_run_events prog (Suc k) i n w))"
        using Suc.IH(1) I
        by (auto simp: Let_def vbind_def vmodify_def vinv_def split: prod.split sum.split)
    qed
  next
    case 2
    show ?case
      by (cases ops) (auto intro!: vinv_intros ignore_vinv register_vinv unregister_vinv mask_vinv
          set_max_vinv Suc.IH split: cb_op.split)
  next
    case 3
    show ?case
      by (auto simp: scheduler_select_def intro!: vinv_intros gc_vinv prepare_vinv select_vinv check_vinv depth_vinv timeouts_vinv Suc.IH)
  }
qed

end

section \<open>Numbers of events\<close>

definition ids_ok :: "sworld \<Rightarrow> bool" where
  "ids_ok w \<longleftrightarrow> 0 < sc_uuid (sw_sched w) \<and> distinct (map ev_id (evs w)) \<and>
     (\<forall>i \<in> set (map ev_id (evs w)). 0 < i \<and> i < sc_uuid (sw_sched w))"

text \<open>The calls of the event \<open>x\<close> are those of \<open>T\<close>, and it cannot be called again.\<close>

definition gone :: "int \<Rightarrow> (int \<times> u8) list \<Rightarrow> sworld \<Rightarrow> bool" where
  "gone x T w \<longleftrightarrow> x < sc_uuid (sw_sched w) \<and> (\<forall>e \<in> set (evs w). ev_id e = x \<longrightarrow> ev_dead e) \<and>
     filter (\<lambda>(i, _). i = x) (trace_of w) = T"

lemma same_events_ids:
  assumes "same_events w t"
  shows "map ev_id (evs t) = map ev_id (evs w)"
  using arg_cong [where f = "map fst", OF conjunct1 [OF assms [unfolded same_events_def]]] by (simp add: comp_def)

lemma upd_first_all:
  "(\<And>e. P e \<Longrightarrow> P (f e)) \<Longrightarrow> \<forall>e \<in> set es. P e \<Longrightarrow> \<forall>e \<in> set (upd_first i f es). P e"
  by (induction es) auto

lemma ev_id_added: "evs (added e w) = evs w @ [e]" "trace_of (added e w) = trace_of w"
  "sc_uuid (sw_sched (added e w)) = (if sc_uuid (sw_sched w) + 1 = 0 then 1 else sc_uuid (sw_sched w) + 1)"
  by (simp_all add: added_def)

interpretation ids: sched_inv ids_ok
proof
  fix w t
  assume w: "ids_ok w" and s: "same_events w t"
  have "sc_uuid (sw_sched t) = sc_uuid (sw_sched w)" using s by (simp add: same_events_def)
  then show "ids_ok t" using w by (simp del: set_map add: ids_ok_def same_events_ids [OF s])
next
  fix w and e :: event
  assume "ids_ok w" "ev_id e = sc_uuid (sw_sched w)"
  then show "ids_ok (added e w)" by (fastforce simp: ids_ok_def ev_id_added)
next
  fix w i
  assume a: "ids_ok w"
  have m: "map ev_id (upd_first i (\<lambda>e. e\<lparr>ev_dead := True\<rparr>) es) = map ev_id es" for es
    by (rule map_upd_first) simp
  show "ids_ok (snd (scheduler_unregister_event i w))"
    using a by (simp del: set_map add: scheduler_unregister_event_def vm_simps ids_ok_def m)
next
  fix w
  show "ids_ok w \<Longrightarrow> ids_ok (snd (scheduler_gc_events w))"
    by (simp add: scheduler_gc_events_def vm_simps ids_ok_def distinct_map_filter)
qed (simp add: ids_ok_def called_def)

lemma gone_unregister:
  assumes "ids_ok w" and "e \<in> set (evs w)" and "ev_id e = x"
  shows "gone x (filter (\<lambda>(i, _). i = x) (trace_of w)) (snd (scheduler_unregister_event x w))"
proof -
  have k: "\<forall>e \<in> set (upd_first x (\<lambda>e. e\<lparr>ev_dead := True\<rparr>) es). ev_id e = x \<longrightarrow> ev_dead e"
    if "distinct (map ev_id es)" for es
    using that by (induction es) (auto simp: image_iff)
  have "0 < x" "x < sc_uuid (sw_sched w)" "distinct (map ev_id (evs w))" using assms by (auto simp: ids_ok_def)
  then show ?thesis
    using k [of "evs w"] by (simp add: scheduler_unregister_event_def vm_simps gone_def)
qed

interpretation gone: sched_inv "gone x T"
proof
  fix w t
  assume g: "gone x T w" and s: "same_events w t"
  have "\<forall>e \<in> set (evs t). ev_id e = x \<longrightarrow> ev_dead e"
  proof (intro ballI impI)
    fix e assume "e \<in> set (evs t)" "ev_id e = x"
    then have "(x, ev_dead e) \<in> set (map key (evs t))" by force
    then have "(x, ev_dead e) \<in> set (map key (evs w))" using s by (simp only: same_events_def)
    then show "ev_dead e" using g by (auto simp: gone_def)
  qed
  then show "gone x T t" using g s by (simp add: gone_def same_events_def)
next
  fix w and e :: event
  assume "gone x T w" "ev_id e = sc_uuid (sw_sched w)"
  then show "gone x T (added e w)" by (auto simp: gone_def ev_id_added)
next
  fix w i
  assume g: "gone x T w"
  have "\<forall>e \<in> set (upd_first i (\<lambda>e. e\<lparr>ev_dead := True\<rparr>) (evs w)). ev_id e = x \<longrightarrow> ev_dead e"
    by (rule upd_first_all) (use g in \<open>simp_all add: gone_def\<close>)
  then show "gone x T (snd (scheduler_unregister_event i w))"
    using g by (simp add: scheduler_unregister_event_def vm_simps gone_def)
next
  fix w
  show "gone x T w \<Longrightarrow> gone x T (snd (scheduler_gc_events w))"
    by (auto simp: scheduler_gc_events_def vm_simps gone_def)
next
  fix w j p
  assume "gone x T w" "j < length (evs w)" "\<not> ev_dead (evs w ! j)"
  then have "ev_id (evs w ! j) \<noteq> x" by (auto simp: gone_def)
  then show "gone x T (called (ev_id (evs w ! j)) p w)" using \<open>gone x T w\<close> by (simp add: gone_def called_def)
qed

section \<open>Nothing that is due is left behind\<close>

text \<open>Below position \<open>i\<close> no live event is pending.\<close>

definition qu :: "nat \<Rightarrow> event list \<Rightarrow> bool" where
  "qu i es \<longleftrightarrow> (\<forall>e \<in> set (take i es). \<not> ev_dead e \<longrightarrow> ev_pending e = 0)"

abbreviation settled :: "event list \<Rightarrow> bool" where
  "settled es \<equiv> \<forall>e \<in> set es. \<not> ev_dead e \<longrightarrow> ev_pending e = 0"

lemma qu_0 [simp]: "qu 0 es"
  by (simp add: qu_def)

lemma qu_Suc: "i < length es \<Longrightarrow> qu (Suc i) es \<longleftrightarrow> qu i es \<and> (\<not> ev_dead (es ! i) \<longrightarrow> ev_pending (es ! i) = 0)"
  by (auto simp: qu_def take_Suc_conv_app_nth)

lemma qu_all: "length es \<le> i \<Longrightarrow> qu i es \<longleftrightarrow> settled es"
  by (simp add: qu_def)

lemma settled_qu: "settled es \<Longrightarrow> qu i es"
  by (auto simp: qu_def dest: in_set_takeD)

lemma qu_update: "qu i (es[i := e]) \<longleftrightarrow> qu i es"
  by (simp add: qu_def)

lemma qu_append: "qu i es \<Longrightarrow> ev_pending e = 0 \<Longrightarrow> qu i (es @ [e])"
  by (cases "i \<le> length es") (auto simp: qu_def)

lemma qu_upd_first:
  "(\<And>e. \<not> ev_dead (f e) \<longrightarrow> \<not> ev_dead e \<and> ev_pending (f e) = ev_pending e) \<Longrightarrow> qu i es \<Longrightarrow> qu i (upd_first x f es)"
proof (induction es arbitrary: i)
  case (Cons e es)
  then show ?case by (cases i) (auto simp: qu_def)
qed simp

text \<open>A step of a callback: the depth is kept and no live event becomes pending.\<close>

definition calm :: "sworld \<Rightarrow> sworld \<Rightarrow> bool" where
  "calm w t \<longleftrightarrow> dep t = dep w \<and> length (evs w) \<le> length (evs t) \<and> (\<forall>i. qu i (evs w) \<longrightarrow> qu i (evs t))"

lemma calm_refl [simp]: "calm w w"
  by (simp add: calm_def)

lemma calm_trans: "calm w t \<Longrightarrow> calm t u \<Longrightarrow> calm w u"
  by (auto simp: calm_def)

lemma length_upd_first [simp]: "length (upd_first x f es) = length es"
  by (induction es) auto

lemma calm_register: "calm w (snd (ignore_error (scheduler_register_event mode fd timeout cb private) w))"
proof (cases "cb = None \<or> \<not> has mode SCHEDULER_POLL_TIMEOUT \<and> \<not> has mode SCHEDULER_POLL_FD")
  case True
  then show ?thesis
    by (auto simp: ignore_error_def scheduler_register_event_def vm_simps split: option.splits)
next
  case False
  then obtain c where c: "cb = Some c" by auto
  obtain now u where g: "gettime (w\<lparr>sw_oom := tl (sw_oom w)\<rparr>) = (Inr now, u)" "sw_sched u = sw_sched w"
    by (cases "sw_clock w") (simp_all add: gettime_def)
  show ?thesis
    using False c g
    by (cases "sw_oom w" rule: list.exhaust)
      (auto simp: ignore_error_def scheduler_register_event_def vm_simps Let_def calm_def qu_append split: bool.splits)
qed

lemma calm_unregister: "calm w (snd (scheduler_unregister_event x w))"
  by (auto simp: scheduler_unregister_event_def vm_simps calm_def intro!: qu_upd_first)

lemma calm_mask: "calm w (snd (scheduler_mask_event x m w))"
  by (auto simp: scheduler_mask_event_def vm_simps calm_def intro!: qu_upd_first)

lemma calm_set_max: "calm w (snd (scheduler_set_max_timeout n w))"
  by (simp add: scheduler_set_max_timeout_def vm_simps calm_def)

text \<open>What each of the three functions gives when it returns.\<close>

definition run_ok :: "(sworld, int) vm \<Rightarrow> nat \<Rightarrow> int \<Rightarrow> bool" where
  "run_ok m i n \<longleftrightarrow> (\<forall>w r t. dep w \<ge> 1 \<longrightarrow> m w = (Inr r, t) \<longrightarrow>
     dep t = dep w \<and> length (evs w) \<le> length (evs t) \<and> n \<le> r \<and> (qu i (evs w) \<longrightarrow> settled (evs t)))"

definition callback_ok :: "(sworld, unit) vm \<Rightarrow> bool" where
  "callback_ok m \<longleftrightarrow> (\<forall>w t. dep w \<ge> 1 \<longrightarrow> m w = (Inr (), t) \<longrightarrow> calm w t)"

definition wait_ok :: "(sworld, int) vm \<Rightarrow> bool" where
  "wait_ok m \<longleftrightarrow> (\<forall>w r t. dep w \<ge> 1 \<longrightarrow> m w = (Inr r, t) \<longrightarrow>
     dep t = dep w \<and> length (evs w) \<le> length (evs t) \<and> settled (evs t))"

lemma callback_okI:
  assumes "\<And>w. calm w (snd (m w))"
  shows "callback_ok m"
  unfolding callback_ok_def using assms by (metis snd_conv)

lemma callback_okD: "callback_ok m \<Longrightarrow> m w = (Inr (), t) \<Longrightarrow> dep w \<ge> 1 \<Longrightarrow> calm w t"
  by (rule callback_ok_def [THEN iffD1, rule_format])

lemma callback_ok_then:
  assumes "callback_ok m" and "callback_ok n"
  shows "callback_ok (vthen m n)"
  unfolding callback_ok_def
proof (intro allI impI)
  fix w t
  assume d: "dep w \<ge> 1" and "vthen m n w = (Inr (), t)"
  then obtain u where m: "m w = (Inr (), u)" and n: "n u = (Inr (), t)" by (auto elim: vbind_okE)
  have "calm w u" by (rule callback_okD [OF assms(1) m d])
  moreover from this d have "calm u t" by (intro callback_okD [OF assms(2) n]) (simp add: calm_def)
  ultimately show "calm w t" by (rule calm_trans)
qed

lemma wait_okD: "wait_ok m \<Longrightarrow> m w = (Inr r, t) \<Longrightarrow> dep w \<ge> 1 \<Longrightarrow>
    dep t = dep w \<and> length (evs w) \<le> length (evs t) \<and> settled (evs t)"
  by (rule wait_ok_def [THEN iffD1, rule_format])

lemma wait_callback:
  assumes "wait_ok m"
  shows "callback_ok (vthen m (vret ()))"
  unfolding callback_ok_def
proof (intro allI impI)
  fix w t
  assume d: "dep w \<ge> 1" and "vthen m (vret ()) w = (Inr (), t)"
  then obtain x where m: "m w = (Inr x, t)" by (auto elim: vbind_okE simp: vret_def)
  from wait_okD [OF assms m d] settled_qu show "calm w t" by (simp add: calm_def)
qed

lemma event_callback_calm:
  assumes c: "callback_ok c" and r: "scheduler_event_callback c i e p w = (Inr (), u)" and d: "dep w \<ge> 1"
  shows "dep u = dep w \<and> length (evs w) \<le> length (evs u) \<and> (qu (Suc i) (evs w) \<longrightarrow> qu (Suc i) (evs u))"
proof -
  obtain t d' where m: "stamp i e w = (Inr (), t)"
    and t: "evs t = evs w \<or> evs t = (evs w)[i := (evs w ! i)\<lparr>ev_deadline := d'\<rparr>]" "dep t = dep w"
    by (rule stamp_ok)
  have "qu (Suc i) (evs w) \<longrightarrow> qu (Suc i) (evs t)"
    using t(1) by (cases "i < length (evs w)") (auto simp: qu_Suc qu_update list_update_beyond)
  moreover have "calm t u"
  proof (cases "ev_masked e")
    case True
    then show ?thesis
      using r unfolding scheduler_event_callback_def vbind_ok [where m = "stamp i e" and s = w, OF m] by (simp add: vret_def)
  next
    case False
    then have "c (called (ev_id e) p t) = (Inr (), u)"
      using r unfolding scheduler_event_callback_def vbind_ok [where m = "stamp i e" and s = w, OF m]
      by (simp add: vm_simps called_def)
    moreover have "dep (called (ev_id e) p t) \<ge> 1" using t d by (simp add: called_def)
    ultimately have "calm (called (ev_id e) p t) u" using c unfolding callback_ok_def by blast
    then show ?thesis by (simp add: calm_def called_def)
  qed
  ultimately show ?thesis using t by (auto simp: calm_def)
qed

lemma run_step:
  assumes c: "\<And>ops. callback_ok (run_callback prog k ops)" and n: "\<And>i n. run_ok (scheduler_run_events prog k i n) i n"
  shows "run_ok (scheduler_run_events prog (Suc k) i n) i n"
  unfolding run_ok_def
proof (intro allI impI)
  fix w r t
  assume d: "dep w \<ge> 1" and r: "scheduler_run_events prog (Suc k) i n w = (Inr r, t)"
  let ?e = "evs w ! i"
  consider (stop) "length (evs w) \<le> i" | (skip) "i < length (evs w)" "ev_dead ?e \<or> ev_pending ?e = 0"
    | (go) "i < length (evs w)" "\<not> ev_dead ?e" "ev_pending ?e \<noteq> 0" by linarith
  then show "dep t = dep w \<and> length (evs w) \<le> length (evs t) \<and> n \<le> r \<and> (qu i (evs w) \<longrightarrow> settled (evs t))"
  proof cases
    case stop
    then show ?thesis using r qu_all by auto
  next
    case skip
    then have "scheduler_run_events prog k (Suc i) n w = (Inr r, t)" using r by (simp add: Let_def)
    moreover have "qu i (evs w) \<longrightarrow> qu (Suc i) (evs w)" using skip by (auto simp: qu_Suc)
    ultimately show ?thesis using n d unfolding run_ok_def by blast
  next
    case go
    let ?u = "w\<lparr>sw_sched := (sw_sched w)\<lparr>sc_events := (evs w)[i := ?e\<lparr>ev_pending := 0\<rparr>]\<rparr>\<rparr>"
    let ?c = "\<lambda>w. run_callback prog k (prog (ev_cb ?e) (ev_id ?e) (ev_pending ?e) w) w"
    have "vthen (scheduler_event_callback ?c i ?e (ev_pending ?e)) (scheduler_run_events prog k (Suc i) (n + 1)) ?u = (Inr r, t)"
      using r go by (simp add: Let_def vbind_def vmodify_def)
    then obtain v where v: "scheduler_event_callback ?c i ?e (ev_pending ?e) ?u = (Inr (), v)"
      "scheduler_run_events prog k (Suc i) (n + 1) v = (Inr r, t)" by (rule vbind_okE) simp
    have "callback_ok ?c" using c unfolding callback_ok_def by blast
    from event_callback_calm [OF this v(1)] d
    have v': "dep v = dep w" "length (evs w) \<le> length (evs v)"
      "qu (Suc i) ((evs w)[i := ?e\<lparr>ev_pending := 0\<rparr>]) \<longrightarrow> qu (Suc i) (evs v)" by auto
    have "qu i (evs w) \<longrightarrow> qu (Suc i) (evs v)" using v'(3) go(1) by (simp add: qu_Suc qu_update)
    moreover have "dep t = dep v \<and> length (evs v) \<le> length (evs t) \<and> n + 1 \<le> r \<and> (qu (Suc i) (evs v) \<longrightarrow> settled (evs t))"
      using n v(2) d v'(1) unfolding run_ok_def by metis
    ultimately show ?thesis using v' by auto
  qed
qed

lemma callback_step:
  assumes c: "\<And>ops. callback_ok (run_callback prog k ops)" and w: "wait_ok (scheduler_wait_for_events prog k)"
  shows "callback_ok (run_callback prog (Suc k) ops)"
proof (cases ops)
  case Nil
  then show ?thesis by (simp add: callback_ok_def vret_def)
next
  case (Cons x xs)
  show ?thesis
    unfolding Cons run_callback.simps
    by (rule callback_ok_then [OF _ c], cases x)
      (auto intro: callback_okI calm_register calm_unregister calm_mask calm_set_max wait_callback [OF w])
qed

lemma same_events_length: "same_events w t \<Longrightarrow> length (evs t) = length (evs w)"
  unfolding same_events_def by (metis length_map)

lemma check_events_keeps:
  assumes "scheduler_check_events n w = (r, t)"
  shows "dep t = dep w \<and> length (evs t) = length (evs w)"
proof -
  have fd: "dep (snd (scheduler_check_fd_events m w)) = dep w" for m w
    by (simp add: scheduler_check_fd_events_def split: prod.split)
  have tm: "dep (snd (scheduler_check_timeouts w)) = dep w" for w
    by (cases "sw_clock w") (simp_all add: scheduler_check_timeouts_def gettime_def vm_simps)
  have s: "vinv (\<lambda>t. dep t = dep w \<and> length (evs t) = length (evs w)) (scheduler_check_events n)"
    unfolding scheduler_check_events_def
    by (intro vinv_intros vinvI)
      (simp_all add: fd tm same_events_length [OF check_fds_same] same_events_length [OF check_timeouts_same])
  from vinvD [OF s _ assms] show ?thesis by simp
qed

lemma select_call_keeps: "select_call w = (r, t) \<Longrightarrow> evs t = evs w \<and> dep t = dep w"
  by (auto simp: select_call_def split: list.splits)

lemma run_okD: "run_ok m i n \<Longrightarrow> m w = (Inr r, t) \<Longrightarrow> dep w \<ge> 1 \<Longrightarrow>
    dep t = dep w \<and> length (evs w) \<le> length (evs t) \<and> n \<le> r \<and> (qu i (evs w) \<longrightarrow> settled (evs t))"
  by (rule run_ok_def [THEN iffD1, rule_format])

lemma select_step:
  assumes run: "run_ok run 0 0" and w: "scheduler_select run w = (Inr r, t)" and d: "1 \<le> dep w"
  shows "dep t = dep w \<and> (r < 0 \<and> evs t = evs w \<or> r = 0 \<and> settled (evs t) \<and>
    (if dep w = 1 then \<forall>e \<in> set (evs t). \<not> ev_dead e else length (evs w) \<le> length (evs t)))"
proof -
  obtain pr w1 where p: "scheduler_prepare_events w = (pr, w1)" by (cases "scheduler_prepare_events w")
  note P = prepare_ok [OF p]
  obtain n w2 where s: "select_call w1 = (Inr n, w2)" by (cases "sw_select w1") (auto simp: select_call_def)
  note S = select_call_keeps [OF s]
  have r: "(if n < 0 then vret n
     else vbind (scheduler_check_events n) (\<lambda>ret.
       vthen (vassert (ret = 0))
         (vthen (upd_sched (\<lambda>s. s\<lparr>sc_timeout := SCHEDULER_MAX_TIMEOUT, sc_max_timeout := SCHEDULER_MAX_TIMEOUT\<rparr>))
           (vthen run
             (vbind (vgets (\<lambda>w. sc_depth (sw_sched w))) (\<lambda>depth.
               vthen (if depth = 1 then scheduler_gc_events else vret ()) (vret ret))))))) w2 = (Inr r, t)"
    using w P s unfolding scheduler_select_def by (simp only: vbind_def p) (simp add: vbind_def)
  show ?thesis
  proof (cases "n < 0")
    case True
    then show ?thesis using r S P by (simp add: vret_def)
  next
    case False
    with r obtain n' w3 where c: "scheduler_check_events n w2 = (Inr n', w3)"
      and r: "vthen (vassert (n' = 0))
         (vthen (upd_sched (\<lambda>s. s\<lparr>sc_timeout := SCHEDULER_MAX_TIMEOUT, sc_max_timeout := SCHEDULER_MAX_TIMEOUT\<rparr>))
           (vthen run
             (vbind (vgets (\<lambda>w. sc_depth (sw_sched w))) (\<lambda>depth.
               vthen (if depth = 1 then scheduler_gc_events else vret ()) (vret n'))))) w3 = (Inr r, t)"
      by (simp only: if_False) (erule vbind_okE, blast)
    note C = check_events_keeps [OF c]
    let ?u = "w3\<lparr>sw_sched := (sw_sched w3)\<lparr>sc_timeout := SCHEDULER_MAX_TIMEOUT, sc_max_timeout := SCHEDULER_MAX_TIMEOUT\<rparr>\<rparr>"
    have n': "n' = 0" using r by (simp add: vassert_def vraise_def vbind_def split: if_splits)
    obtain m w4 where m: "run ?u = (Inr m, w4)"
      and g: "vbind (vgets (\<lambda>w. sc_depth (sw_sched w))) (\<lambda>depth.
               vthen (if depth = 1 then scheduler_gc_events else vret ()) (vret n')) w4 = (Inr r, t)"
      using r unfolding n' vassert_def if_P [OF refl] vbind_vret vbind_def [of "vmodify _"]
      by (simp only: vmodify_def prod.case sum.case) (erule vbind_okE, blast)
    have u: "dep ?u = dep w" "length (evs ?u) = length (evs w)" using C S P by simp_all
    from run_okD [OF run m] u d have "dep w4 = dep w" "length (evs w) \<le> length (evs w4)" "settled (evs w4)" by simp_all
    then show ?thesis
      using g n' by (auto simp: vbind_def vgets_def vret_def scheduler_gc_events_def vmodify_def split: if_splits)
  qed
qed

text \<open>One wait, from the depth the caller has.\<close>

lemma wait_step:
  assumes run: "run_ok (scheduler_run_events prog k 0 0) 0 0"
    and w: "scheduler_wait_for_events prog (Suc k) w = (Inr r, t)" and d: "0 \<le> dep w"
  shows "dep t = dep w \<and> (r < 0 \<or> r = 0 \<and> settled (evs t)) \<and>
    (if dep w = 0 then r < 0 \<and> evs t = evs w \<or> (\<forall>e \<in> set (evs t). \<not> ev_dead e)
     else length (evs w) \<le> length (evs t) \<and> settled (evs t))"
proof -
  let ?u = "w\<lparr>sw_sched := (sw_sched w)\<lparr>sc_depth := dep w + 1\<rparr>\<rparr>"
  have du: "dep ?u \<ge> 1" using d by simp
  have w': "vbind (if dep w + 1 > 1 then scheduler_run_events prog k 0 0 else vret 0) (\<lambda>progress.
      vbind (if progress \<noteq> 0 then vret 0 else scheduler_select (scheduler_run_events prog k 0 0))
        (\<lambda>ret. vthen (upd_sched (\<lambda>s. s\<lparr>sc_depth := sc_depth s - 1\<rparr>)) (vret ret))) ?u = (Inr r, t)"
    using w by (simp add: vbind_def vmodify_def vgets_def)
  then obtain progress v where p: "(if dep w + 1 > 1 then scheduler_run_events prog k 0 0 else vret 0) ?u = (Inr progress, v)"
    and b: "vbind (if progress \<noteq> 0 then vret 0 else scheduler_select (scheduler_run_events prog k 0 0))
        (\<lambda>ret. vthen (upd_sched (\<lambda>s. s\<lparr>sc_depth := sc_depth s - 1\<rparr>)) (vret ret)) v = (Inr r, t)"
    by (rule vbind_okE)
  have v: "dep v = dep w + 1" "length (evs w) \<le> length (evs v)" "dep w \<noteq> 0 \<longrightarrow> settled (evs v)"
    "dep w = 0 \<longrightarrow> progress = 0 \<and> evs v = evs w"
    using p run_okD [OF run _ du, of progress v] d by (auto simp: vret_def split: if_splits)
  obtain x u where x: "(if progress \<noteq> 0 then vret 0 else scheduler_select (scheduler_run_events prog k 0 0)) v = (Inr x, u)"
    and t: "vthen (upd_sched (\<lambda>s. s\<lparr>sc_depth := sc_depth s - 1\<rparr>)) (vret x) u = (Inr r, t)"
    using b by (rule vbind_okE)
  have t: "r = x" "t = u\<lparr>sw_sched := (sw_sched u)\<lparr>sc_depth := dep u - 1\<rparr>\<rparr>"
    using t by (simp_all add: vbind_def vmodify_def vret_def)
  show ?thesis
  proof (cases "progress = 0")
    case False
    then show ?thesis using x v t by (auto simp: vret_def)
  next
    case True
    then have "scheduler_select (scheduler_run_events prog k 0 0) v = (Inr x, u)" using x by simp
    from select_step [OF run this] v d show ?thesis unfolding t by auto
  qed
qed

lemma loop_ok:
  shows "run_ok (scheduler_run_events prog k i n) i n"
    and "callback_ok (run_callback prog k ops)"
    and "wait_ok (scheduler_wait_for_events prog k)"
proof (induction k arbitrary: i n ops)
  case 0
  { case 1 then show ?case by (simp add: run_ok_def vraise_def) }
  { case 2 then show ?case by (simp add: callback_ok_def vraise_def) }
  { case 3 then show ?case by (simp add: wait_ok_def vraise_def) }
next
  case (Suc k)
  { case 1 show ?case by (rule run_step) (rule Suc.IH)+ }
  { case 2 show ?case by (rule callback_step) (rule Suc.IH)+ }
  {
    case 3
    show ?case
      unfolding wait_ok_def
    proof (intro allI impI)
      fix w r t
      assume d: "1 \<le> dep w" and r: "scheduler_wait_for_events prog (Suc k) w = (Inr r, t)"
      from wait_step [OF Suc.IH(1) r] d
      show "dep t = dep w \<and> length (evs w) \<le> length (evs t) \<and> settled (evs t)" by simp
    qed
  }
qed

section \<open>Termination\<close>

text \<open>
  A wait returns when the callbacks do a bounded number of calls, none of them a wait: registering
  new events in a callback does not prolong the walk for ever, since a new event is not pending.
  The potential counts the events ahead and the calls their callbacks can still make.
\<close>

definition bounded_prog :: "(nat \<Rightarrow> int \<Rightarrow> u8 \<Rightarrow> sworld \<Rightarrow> cb_op list) \<Rightarrow> nat \<Rightarrow> bool" where
  "bounded_prog prog B \<longleftrightarrow> (\<forall>cb i p w. length (prog cb i p w) \<le> B \<and> Cb_wait \<notin> set (prog cb i p w))"

definition weight :: "nat \<Rightarrow> event \<Rightarrow> nat" where
  "weight B e = (if \<not> ev_dead e \<and> ev_pending e \<noteq> 0 then Suc B else 1)"

definition ahead :: "nat \<Rightarrow> nat \<Rightarrow> event list \<Rightarrow> nat" where
  "ahead B i es = sum_list (map (weight B) (drop i es))"

lemma ahead_step: "i < length es \<Longrightarrow> ahead B i es = weight B (es ! i) + ahead B (Suc i) es"
  by (simp add: ahead_def Cons_nth_drop_Suc [symmetric])

lemma ahead_update: "ahead B (Suc i) (es[i := e]) = ahead B (Suc i) es"
  by (simp add: ahead_def)

lemma ahead_append: "weight B e = 1 \<Longrightarrow> ahead B i (es @ [e]) \<le> Suc (ahead B i es)"
  by (cases "i \<le> length es") (simp_all add: ahead_def)

lemma ahead_upd_first: "(\<And>e. weight B (f e) \<le> weight B e) \<Longrightarrow> ahead B i (upd_first x f es) \<le> ahead B i es"
proof (induction es arbitrary: i)
  case (Cons e es)
  have "sum_list (map (weight B) (upd_first x f es)) \<le> sum_list (map (weight B) es)"
    using Cons.IH [of 0] Cons.prems by (simp add: ahead_def)
  then show ?case using Cons by (cases i) (auto simp: ahead_def add_mono)
qed (simp add: ahead_def)

lemma ahead_le: "ahead B 0 es \<le> length es * Suc B"
  by (induction es) (auto simp: ahead_def weight_def)

text \<open>The program does not hang and lets the potential grow by \<open>n\<close> at most.\<close>

definition returns :: "nat \<Rightarrow> nat \<Rightarrow> (sworld, unit) vm \<Rightarrow> bool" where
  "returns B n m \<longleftrightarrow> (\<forall>w. fst (m w) \<noteq> Inl Hang \<and> (\<forall>i. ahead B i (evs (snd (m w))) \<le> ahead B i (evs w) + n))"

lemma returns_register: "returns B 1 (ignore_error (scheduler_register_event mode fd timeout cb private))"
  unfolding returns_def
proof
  fix w
  show "fst (ignore_error (scheduler_register_event mode fd timeout cb private) w) \<noteq> Inl Hang \<and>
    (\<forall>i. ahead B i (evs (snd (ignore_error (scheduler_register_event mode fd timeout cb private) w))) \<le> ahead B i (evs w) + 1)"
  proof (cases "cb = None \<or> \<not> has mode SCHEDULER_POLL_TIMEOUT \<and> \<not> has mode SCHEDULER_POLL_FD")
    case True
    then show ?thesis
      by (auto simp: ignore_error_def scheduler_register_event_def vm_simps split: option.splits)
  next
    case False
    then obtain c where c: "cb = Some c" by auto
    obtain now u where g: "gettime (w\<lparr>sw_oom := tl (sw_oom w)\<rparr>) = (Inr now, u)" "sw_sched u = sw_sched w"
      by (cases "sw_clock w") (simp_all add: gettime_def)
    have a: "ahead B i (es @ [e]) \<le> Suc (ahead B i es)" if "ev_pending e = 0" for i es e
      by (rule ahead_append) (simp add: weight_def that)
    show ?thesis
      using False c g
      by (cases "sw_oom w" rule: list.exhaust)
        (auto simp: ignore_error_def scheduler_register_event_def vm_simps Let_def a split: bool.splits)
  qed
qed

lemma returns_unregister: "returns B 1 (scheduler_unregister_event x)"
  by (auto simp: returns_def scheduler_unregister_event_def vm_simps weight_def intro!: ahead_upd_first le_SucI)

lemma returns_mask: "returns B 1 (scheduler_mask_event x m)"
  by (auto simp: returns_def scheduler_mask_event_def vm_simps weight_def intro!: ahead_upd_first le_SucI)

lemma returns_set_max: "returns B 1 (scheduler_set_max_timeout n)"
  by (simp add: returns_def scheduler_set_max_timeout_def vm_simps)

lemma returns_then:
  assumes m: "returns B a m" and n: "returns B b n"
  shows "returns B (a + b) (vthen m n)"
  unfolding returns_def
proof
  fix w
  obtain r t where r: "m w = (r, t)" by (cases "m w")
  have mt: "r \<noteq> Inl Hang" "ahead B i (evs t) \<le> ahead B i (evs w) + a" for i
    using m r by (auto simp: returns_def dest: spec [of _ w])
  have "fst (n t) \<noteq> Inl Hang" "ahead B i (evs (snd (n t))) \<le> ahead B i (evs t) + b" for i
    using n by (simp_all add: returns_def)
  then have le: "ahead B i (evs (snd (n t))) \<le> ahead B i (evs w) + (a + b)" for i
    using mt(2) [of i] by (metis add.assoc add_le_mono1 order_trans)
  have le': "ahead B i (evs t) \<le> ahead B i (evs w) + (a + b)" for i using mt(2) [of i] by linarith
  show "fst (vthen m n w) \<noteq> Inl Hang \<and>
      (\<forall>i. ahead B i (evs (snd (vthen m n w))) \<le> ahead B i (evs w) + (a + b))"
    using mt(1) le le' \<open>fst (n t) \<noteq> Inl Hang\<close> by (cases r) (simp_all add: vbind_def r)
qed

lemma run_callback_returns:
  "length ops < k \<Longrightarrow> Cb_wait \<notin> set ops \<Longrightarrow> returns B (length ops) (run_callback prog k ops)"
proof (induction ops arbitrary: k)
  case Nil
  then show ?case by (cases k) (simp_all add: returns_def vret_def)
next
  case (Cons x xs)
  then obtain j where k: "k = Suc j" by (cases k) auto
  have "returns B (length xs) (run_callback prog j xs)" using Cons k by simp
  from returns_then [OF _ this, of 1] show ?case
    using Cons.prems unfolding k run_callback.simps
    by (cases x) (simp_all add: returns_register [simplified] returns_unregister [simplified] returns_mask [simplified] returns_set_max [simplified])
qed

text \<open>The walk itself, from a position.\<close>

lemma event_callback_returns:
  assumes c: "returns B n c"
  shows "fst (scheduler_event_callback c i e p w) \<noteq> Inl Hang \<and>
    ahead B (Suc i) (evs (snd (scheduler_event_callback c i e p w))) \<le> ahead B (Suc i) (evs w) + n"
proof -
  obtain t d where m: "stamp i e w = (Inr (), t)"
    and t: "evs t = evs w \<or> evs t = (evs w)[i := (evs w ! i)\<lparr>ev_deadline := d\<rparr>]"
    by (rule stamp_ok)
  have a: "ahead B (Suc i) (evs t) = ahead B (Suc i) (evs w)" using t by (auto simp: ahead_update)
  have "evs (called (ev_id e) p t) = evs t" by (simp add: called_def)
  with c have c': "fst (c (called (ev_id e) p t)) \<noteq> Inl Hang"
    "ahead B (Suc i) (evs (snd (c (called (ev_id e) p t)))) \<le> ahead B (Suc i) (evs t) + n"
    unfolding returns_def by metis+
  show ?thesis
    using c' a unfolding scheduler_event_callback_def vbind_ok [where m = "stamp i e" and s = w, OF m]
    by (simp add: vm_simps called_def)
qed

lemma run_returns:
  assumes b: "bounded_prog prog B"
  shows "ahead B i (evs w) + B < k \<Longrightarrow> fst (scheduler_run_events prog k i n w) \<noteq> Inl Hang"
proof (induction k arbitrary: i n w)
  case (Suc k)
  let ?e = "evs w ! i"
  consider (stop) "length (evs w) \<le> i" | (skip) "i < length (evs w)" "ev_dead ?e \<or> ev_pending ?e = 0"
    | (go) "i < length (evs w)" "\<not> ev_dead ?e" "ev_pending ?e \<noteq> 0" by linarith
  then show ?case
  proof cases
    case stop
    then show ?thesis by simp
  next
    case skip
    then have "ahead B (Suc i) (evs w) + B < k" using Suc.prems by (auto simp: ahead_step weight_def)
    then show ?thesis using skip Suc.IH by (simp add: Let_def)
  next
    case go
    let ?u = "w\<lparr>sw_sched := (sw_sched w)\<lparr>sc_events := (evs w)[i := ?e\<lparr>ev_pending := 0\<rparr>]\<rparr>\<rparr>"
    let ?c = "\<lambda>w. run_callback prog k (prog (ev_cb ?e) (ev_id ?e) (ev_pending ?e) w) w"
    have ah: "ahead B i (evs w) = Suc B + ahead B (Suc i) (evs w)" using go by (simp add: ahead_step weight_def)
    have c: "returns B B ?c"
      unfolding returns_def
    proof
      fix u
      let ?ops = "prog (ev_cb ?e) (ev_id ?e) (ev_pending ?e) u"
      have o: "length ?ops \<le> B" "Cb_wait \<notin> set ?ops" using b by (simp_all add: bounded_prog_def)
      then have "returns B (length ?ops) (run_callback prog k ?ops)"
        by (intro run_callback_returns) (use Suc.prems ah in simp_all)
      with o(1) show "fst (?c u) \<noteq> Inl Hang \<and> (\<forall>i. ahead B i (evs (snd (?c u))) \<le> ahead B i (evs u) + B)"
        unfolding returns_def by (meson add_le_mono order_trans order_refl)
    qed
    obtain r v where v: "scheduler_event_callback ?c i ?e (ev_pending ?e) ?u = (r, v)"
      by (cases "scheduler_event_callback ?c i ?e (ev_pending ?e) ?u")
    from event_callback_returns [OF c, of i ?e "ev_pending ?e" ?u]
    have v': "r \<noteq> Inl Hang" "ahead B (Suc i) (evs v) \<le> ahead B (Suc i) (evs w) + B"
      by (simp_all add: v ahead_update)
    have "fst (scheduler_run_events prog k (Suc i) (n + 1) v) \<noteq> Inl Hang"
      by (rule Suc.IH) (use v'(2) Suc.prems ah in simp)
    moreover have "scheduler_run_events prog (Suc k) i n w =
        (case (r, v) of (Inl e, t) \<Rightarrow> (Inl e, t) | (Inr x, t) \<Rightarrow> scheduler_run_events prog k (Suc i) (n + 1) t)"
      unfolding v [symmetric] using go by (simp add: Let_def vbind_def vmodify_def)
    ultimately show ?thesis using v'(1) by (cases r) simp_all
  qed
qed simp

lemma check_timeouts_not_hang: "fst (scheduler_check_timeouts w) \<noteq> Inl Hang"
  by (cases "sw_clock w") (simp_all add: scheduler_check_timeouts_def gettime_def vm_simps)

lemma check_events_not_hang: "fst (scheduler_check_events n w) \<noteq> Inl Hang"
proof (cases "n = 0")
  case True
  then show ?thesis using check_timeouts_not_hang [of w]
    by (auto simp: scheduler_check_events_def vret_def vbind_def split: prod.splits sum.splits)
next
  case False
  obtain m u where "scheduler_check_fd_events n w = (Inr m, u)"
    by (cases "check_fd_events (evs w) (sc_fds (sw_sched w)) n") (simp add: scheduler_check_fd_events_def)
  then show ?thesis using False check_timeouts_not_hang [of u]
    by (auto simp: scheduler_check_events_def vret_def vbind_def split: prod.splits sum.splits)
qed

lemma wait_returns:
  assumes b: "bounded_prog prog B" and d: "dep w = 0" and k: "length (evs w) * Suc B + B + 1 < k"
  shows "fst (scheduler_wait_for_events prog k w) \<noteq> Inl Hang"
proof -
  obtain j where j: "k = Suc j" using k by (cases k) auto
  let ?run = "scheduler_run_events prog j 0 0"
  let ?u = "w\<lparr>sw_sched := (sw_sched w)\<lparr>sc_depth := 1\<rparr>\<rparr>"
  obtain pr w1 where p: "scheduler_prepare_events ?u = (pr, w1)" by (cases "scheduler_prepare_events ?u")
  note P = prepare_ok [OF p]
  obtain n w2 where s: "select_call w1 = (Inr n, w2)" by (cases "sw_select w1") (auto simp: select_call_def)
  note S = select_call_keeps [OF s]
  obtain c w3 where c: "scheduler_check_events n w2 = (c, w3)" by (cases "scheduler_check_events n w2")
  note C = check_events_keeps [OF c]
  let ?v = "w3\<lparr>sw_sched := (sw_sched w3)\<lparr>sc_timeout := SCHEDULER_MAX_TIMEOUT, sc_max_timeout := SCHEDULER_MAX_TIMEOUT\<rparr>\<rparr>"
  have "length (evs ?v) = length (evs w)" using C S P by simp
  then have "ahead B 0 (evs ?v) + B < j" using ahead_le [of B "evs ?v"] k j by simp
  from run_returns [OF b this, of 0] have r: "fst (?run ?v) \<noteq> Inl Hang" .
  have "fst (scheduler_select ?run ?u) \<noteq> Inl Hang"
    using r check_events_not_hang [of n w2] P s c p
    by (auto simp: scheduler_select_def vbind_def vret_def vassert_def vraise_def vmodify_def vgets_def
        scheduler_gc_events_def split: prod.split sum.split)
  then show ?thesis
    unfolding j using d
    by (auto simp: vbind_def vmodify_def vgets_def vret_def split: prod.split sum.split)
qed

end
