(* ===== verification/Td_Opio.thy ===== *)
theory Td_Opio
  imports Vhd_Base
begin

text \<open>
  \<open>drivers/io-optimize.c\<close>: adjacent requests of a queue are merged into one before they are submitted,
  and taken apart again when it completes. The requests (\<open>struct iocb\<close>) lie in a heap and are
  known by number; the records that remember what was merged (\<open>struct opio\<close>) are an array handed
  out from a stack of free ones. A request's \<open>data\<close> pointer leads to its \<open>tiocb\<close> or, once it is
  merged, into that array. Addresses, lengths and offsets are 64-bit words, as they are compared in
  the code. The copies \<open>iocb_queue\<close> and \<open>event_queue\<close> are the arguments of the functions.
\<close>

section \<open>Requests and their records\<close>

datatype dptr = Tio nat | Op nat

record iocb =
  io_fd :: int
  io_write :: bool
  io_buf :: u64
  io_nbytes :: u64
  io_offset :: u64
  io_data :: dptr

text \<open>Only the head of a merged request uses \<open>list\<close>; its head pointer is the record itself.\<close>

record opio =
  op_buf :: u64
  op_nbytes :: u64
  op_offset :: u64
  op_data :: dptr
  op_iocb :: nat
  op_head :: "nat option"
  op_next :: "nat option"
  op_list_head :: "nat option"
  op_list_tail :: "nat option"

record opioctx =
  num_opios :: nat
  free_opio_cnt :: nat
  opios :: "opio list"
  free_opios :: "nat list"

record ostate =
  os_ctx :: opioctx
  os_io :: "nat \<Rightarrow> iocb"

text \<open>The record after \<open>memset (op, 0, ...)\<close>; a null \<open>iocb\<close> is the number 0.\<close>

definition no_opio :: opio where
  "no_opio = \<lparr>op_buf = 0, op_nbytes = 0, op_offset = 0, op_data = Tio 0, op_iocb = 0, op_head = None,
     op_next = None, op_list_head = None, op_list_tail = None\<rparr>"

text \<open>The four flags say which of the allocations succeed.\<close>

definition opio_init :: "bool \<times> bool \<times> bool \<times> bool \<Rightarrow> nat \<Rightarrow> verr + opioctx" where
  "opio_init mem num_iocbs = (case mem of (a, b, c, d) \<Rightarrow>
     if \<not> a \<or> \<not> b \<or> \<not> c \<or> \<not> d then Inl (Errno (- ENOMEM))
     else Inr \<lparr>num_opios = num_iocbs, free_opio_cnt = num_iocbs, opios = replicate num_iocbs no_opio,
       free_opios = [0..<num_iocbs]\<rparr>)"

abbreviation upd_ctx_of :: "(opioctx \<Rightarrow> opioctx) \<Rightarrow> (ostate, unit) vm" where
  "upd_ctx_of f \<equiv> vmodify (\<lambda>s. s\<lparr>os_ctx := f (os_ctx s)\<rparr>)"

abbreviation upd_io :: "nat \<Rightarrow> (iocb \<Rightarrow> iocb) \<Rightarrow> (ostate, unit) vm" where
  "upd_io i f \<equiv> vmodify (\<lambda>s. s\<lparr>os_io := (os_io s)(i := f (os_io s i))\<rparr>)"

abbreviation upd_opio :: "nat \<Rightarrow> (opio \<Rightarrow> opio) \<Rightarrow> (ostate, unit) vm" where
  "upd_opio p f \<equiv> upd_ctx_of (\<lambda>c. c\<lparr>opios := (opios c)[p := f (opios c ! p)]\<rparr>)"

definition alloc_opio :: "(ostate, nat option) vm" where
  "alloc_opio = (\<lambda>s. let c = os_ctx s; k = free_opio_cnt c - 1
     in if free_opio_cnt c = 0 then (Inr None, s)
        else (Inr (Some (free_opios c ! k)), s\<lparr>os_ctx := c\<lparr>free_opio_cnt := k\<rparr>\<rparr>))"

definition free_opio :: "nat \<Rightarrow> (ostate, unit) vm" where
  "free_opio p = vthen (upd_opio p (\<lambda>_. no_opio)) (\<lambda>s. let c = os_ctx s
     in if free_opio_cnt c \<ge> length (free_opios c) then (Inl Undef, s)
        else (Inr (), s\<lparr>os_ctx := c\<lparr>free_opios := (free_opios c)[free_opio_cnt c := p],
          free_opio_cnt := Suc (free_opio_cnt c)\<rparr>\<rparr>))"

definition restore_iocb :: "nat \<Rightarrow> (ostate, unit) vm" where
  "restore_iocb p = (\<lambda>s. let op = opios (os_ctx s) ! p
     in upd_io (op_iocb op) (\<lambda>io. io\<lparr>io_data := op_data op, io_buf := op_buf op, io_nbytes := op_nbytes op\<rparr>) s)"

definition iocb_optimized :: "ostate \<Rightarrow> nat \<Rightarrow> bool" where
  "iocb_optimized s i = (case io_data (os_io s i) of Tio _ \<Rightarrow> False | Op _ \<Rightarrow> True)"

definition contiguous_sectors :: "iocb \<Rightarrow> iocb \<Rightarrow> bool" where
  "contiguous_sectors l r \<longleftrightarrow> io_offset l + io_nbytes l = io_offset r"

definition contiguous_buffers :: "iocb \<Rightarrow> iocb \<Rightarrow> bool" where
  "contiguous_buffers l r \<longleftrightarrow> io_buf l + io_nbytes l = io_buf r"

definition contiguous_iocbs :: "iocb \<Rightarrow> iocb \<Rightarrow> bool" where
  "contiguous_iocbs l r \<longleftrightarrow> io_fd l = io_fd r \<and> contiguous_sectors l r \<and> contiguous_buffers l r"

section \<open>Merging\<close>

definition init_opio_list :: "nat \<Rightarrow> opio \<Rightarrow> opio" where
  "init_opio_list p op = op\<lparr>op_list_head := Some p, op_list_tail := Some p\<rparr>"

definition opio_iocb_init :: "nat \<Rightarrow> (ostate, nat option) vm" where
  "opio_iocb_init i = vbind alloc_opio (\<lambda>r. case r of
     None \<Rightarrow> vret None
   | Some p \<Rightarrow> (\<lambda>s. let io = os_io s i in
       vthen (upd_opio p (\<lambda>op. init_opio_list p (op\<lparr>op_buf := io_buf io, op_nbytes := io_nbytes io,
                op_offset := io_offset io, op_data := io_data io, op_iocb := i\<rparr>)))
         (vthen (upd_io i (\<lambda>io. io\<lparr>io_data := Op p\<rparr>)) (vret (Some p))) s))"

definition opio_get :: "nat \<Rightarrow> (ostate, nat option) vm" where
  "opio_get i = (\<lambda>s. case io_data (os_io s i) of Op p \<Rightarrow> (Inr (Some p), s) | Tio _ \<Rightarrow> opio_iocb_init i s)"

definition merge_tail :: "nat \<Rightarrow> nat \<Rightarrow> (ostate, int) vm" where
  "merge_tail head i = vbind (opio_get head) (\<lambda>r. case r of
     None \<Rightarrow> vret (- ENOMEM)
   | Some ophead \<Rightarrow> vbind (opio_get i) (\<lambda>r. case r of
       None \<Rightarrow> vret (- ENOMEM)
     | Some op \<Rightarrow>
         vthen (upd_opio op (\<lambda>x. x\<lparr>op_head := Some ophead\<rparr>))
          (\<lambda>s. vthen (upd_io head (\<lambda>io. io\<lparr>io_nbytes := io_nbytes io + io_nbytes (os_io s i)\<rparr>))
            (vbind (vgets (\<lambda>s. op_list_tail (opios (os_ctx s) ! ophead))) (\<lambda>tail. case tail of
               None \<Rightarrow> vraise Undef
             | Some t \<Rightarrow> vthen (upd_opio t (\<lambda>x. x\<lparr>op_next := Some op\<rparr>))
                 (vthen (upd_opio ophead (\<lambda>x. x\<lparr>op_list_tail := Some op\<rparr>)) (vret 0)))) s)))"

definition merge_iocbs :: "nat \<Rightarrow> nat \<Rightarrow> (ostate, int) vm" where
  "merge_iocbs head i = (\<lambda>s.
     if io_write (os_io s head) \<noteq> io_write (os_io s i) then (Inr (- EINVAL), s)
     else if \<not> contiguous_iocbs (os_io s head) (os_io s i) then (Inr (- EINVAL), s)
     else merge_tail head i s)"

text \<open>The part of the queue array that is in use; its last entry is the request merged into.\<close>

primrec merge_loop :: "nat list \<Rightarrow> nat list \<Rightarrow> (ostate, nat list) vm" where
  "merge_loop [] queue = vret queue"
| "merge_loop (i # q) queue = vbind (merge_iocbs (last queue) i) (\<lambda>r.
     merge_loop q (if r \<noteq> 0 then queue @ [i] else queue))"

definition io_merge :: "nat list \<Rightarrow> (ostate, nat list) vm" where
  "io_merge queue = (case queue of [] \<Rightarrow> vret [] | i # q \<Rightarrow> merge_loop q [i])"

section \<open>Taking apart\<close>

text \<open>The walk along \<open>next\<close>, which collects something of each record before it is freed. Fuel: the
  records of a chain are distinct, so \<open>num_opios\<close> steps are enough.\<close>

primrec expand_chain :: "(opio \<Rightarrow> 'a) \<Rightarrow> nat \<Rightarrow> nat option \<Rightarrow> (ostate, 'a list) vm" where
  "expand_chain f 0 op = (case op of None \<Rightarrow> vret [] | Some _ \<Rightarrow> vraise Hang)"
| "expand_chain f (Suc k) op = (case op of None \<Rightarrow> vret []
   | Some p \<Rightarrow> (\<lambda>s. let x = opios (os_ctx s) ! p in
       vthen (restore_iocb p) (vthen (free_opio p)
         (vbind (expand_chain f k (op_next x)) (\<lambda>xs. vret (f x # xs)))) s))"

definition data_opio :: "dptr \<Rightarrow> nat option" where
  "data_opio d = (case d of Op p \<Rightarrow> Some p | Tio _ \<Rightarrow> None)"

definition expand_iocb :: "nat \<Rightarrow> (ostate, nat list) vm" where
  "expand_iocb i = (\<lambda>s. expand_chain op_iocb (num_opios (os_ctx s)) (data_opio (io_data (os_io s i))) s)"

primrec expand_iocbs :: "nat list \<Rightarrow> (ostate, nat list) vm" where
  "expand_iocbs [] = vret []"
| "expand_iocbs (i # q) = vbind (\<lambda>s. if \<not> iocb_optimized s i then (Inr [i], s) else expand_iocb i s) (\<lambda>xs.
     vbind (expand_iocbs q) (\<lambda>ys. vret (xs @ ys)))"

definition io_expand_iocbs :: "nat list \<Rightarrow> nat \<Rightarrow> nat \<Rightarrow> (ostate, nat list) vm" where
  "io_expand_iocbs queue idx num = expand_iocbs (drop idx (take num queue))"

text \<open>The result of an operation as an error: \<open>(int) res\<close> is its lower half, signed.\<close>

definition res_err :: "u64 \<Rightarrow> u64 \<Rightarrow> int" where
  "res_err nbytes res = (if res = nbytes then 0
     else if sint (ucast res :: u32) < 0 then sint (ucast res :: u32) else - EIO)"

definition expand_event :: "nat \<times> u64 \<Rightarrow> (ostate, (nat \<times> u64) list) vm" where
  "expand_event ev = (case ev of (i, res) \<Rightarrow> \<lambda>s.
     let err = res_err (io_nbytes (os_io s i)) res
     in expand_chain (\<lambda>op. (op_iocb op, if err \<noteq> 0 then word_of_int err else op_nbytes op))
          (num_opios (os_ctx s)) (data_opio (io_data (os_io s i))) s)"

primrec split_events :: "(nat \<times> u64) list \<Rightarrow> (ostate, (nat \<times> u64) list) vm" where
  "split_events [] = vret []"
| "split_events (ev # evs) = vbind (\<lambda>s. if \<not> iocb_optimized s (fst ev) then (Inr [ev], s) else expand_event ev s)
     (\<lambda>xs. vbind (split_events evs) (\<lambda>ys. vret (xs @ ys)))"

text \<open>A negative number of events becomes a huge length of \<open>memcpy\<close>.\<close>

definition io_split :: "(nat \<times> u64) list \<Rightarrow> int \<Rightarrow> (ostate, (nat \<times> u64) list) vm" where
  "io_split events num = (if num < 0 then vraise Undef else split_events (take (nat num) events))"

end
