(* ===== verification/Td_Queue.thy ===== *)
theory Td_Queue
  imports Td_Opio
begin

text \<open>
  \<open>drivers/tapdisk-queue.c\<close>: the queue of asynchronous requests (\<open>struct tiocb\<close>). Requests are queued
  while the queue has room and deferred otherwise; a submit merges what is queued and hands it to
  the kernel (driver \<open>lio\<close>) or does it on the spot (driver \<open>rwio\<close>); completed requests are taken apart,
  their callbacks run, and deferred ones move up. A \<open>tiocb\<close> and the \<open>iocb\<close> inside it have the same
  number. Callbacks are a parameter \<open>prog\<close>: what requests the callback of a request queues. What the
  kernel answers (\<open>io_submit\<close>, \<open>io_getevents\<close>, the transfers of \<open>tapdisk_rwio_rw\<close>) are streams. There is
  no fault-injection filter (\<open>queue->filter\<close> is null).
\<close>

section \<open>State\<close>

datatype tio = Td_tio_lio | Td_tio_rwio

record tqueue =
  tq_size :: int
  tq_tio :: "tio option"
  tq_queued :: nat
  tq_iocbs :: "nat list"
  tq_iocbs_pending :: int
  tq_tiocbs_pending :: int
  tq_head :: "nat option"
  tq_tail :: "nat option"
  tq_tiocbs_deferred :: int
  tq_deferrals :: u64

record qworld =
  qw_q :: tqueue
  qw_os :: ostate
  qw_next :: "nat \<Rightarrow> nat option"
  qw_submit :: "int list"
  qw_events :: "(int \<times> (nat \<times> u64) list) list"
  qw_rw :: "u64 list"
  qw_done :: "(nat \<times> int) list"

text \<open>A request as the client prepares it, and the callbacks' requests.\<close>

datatype qop = Q_queue nat int bool u64 u64 u64

type_synonym qprog = "nat \<Rightarrow> int \<Rightarrow> qworld \<Rightarrow> qop list"

abbreviation upd_q :: "(tqueue \<Rightarrow> tqueue) \<Rightarrow> (qworld, unit) vm" where
  "upd_q f \<equiv> vmodify (\<lambda>w. w\<lparr>qw_q := f (qw_q w)\<rparr>)"

abbreviation set_next :: "nat \<Rightarrow> nat option \<Rightarrow> (qworld, unit) vm" where
  "set_next t x \<equiv> vmodify (\<lambda>w. w\<lparr>qw_next := (qw_next w)(t := x)\<rparr>)"

definition with_opio :: "(ostate, 'a) vm \<Rightarrow> (qworld, 'a) vm" where
  "with_opio m = (\<lambda>w. case m (qw_os w) of (r, s) \<Rightarrow> (r, w\<lparr>qw_os := s\<rparr>))"

text \<open>The \<open>tiocb\<close> an \<open>iocb\<close> that is not merged belongs to.\<close>

definition tiocb_of :: "nat \<Rightarrow> (qworld, nat) vm" where
  "tiocb_of i = (\<lambda>w. case io_data (os_io (qw_os w) i) of Tio t \<Rightarrow> (Inr t, w) | Op _ \<Rightarrow> (Inl Undef, w))"

section \<open>Queueing\<close>

definition queue_tiocb :: "nat \<Rightarrow> (qworld, unit) vm" where
  "queue_tiocb t = (\<lambda>w. let n = tq_queued (qw_q w) in vthen
     (if n \<noteq> 0 then vbind (tiocb_of (tq_iocbs (qw_q w) ! (n - 1))) (\<lambda>prev. set_next prev (Some t)) else vret ())
     (vthen (vdefined (n < length (tq_iocbs (qw_q w))))
       (upd_q (\<lambda>q. q\<lparr>tq_iocbs := (tq_iocbs q)[n := t], tq_queued := Suc n\<rparr>))) w)"

definition defer_tiocb :: "nat \<Rightarrow> (qworld, unit) vm" where
  "defer_tiocb t = (\<lambda>w. vthen
     (case tq_head (qw_q w) of
        None \<Rightarrow> upd_q (\<lambda>q. q\<lparr>tq_head := Some t, tq_tail := Some t\<rparr>)
      | Some _ \<Rightarrow> (case tq_tail (qw_q w) of None \<Rightarrow> vraise Undef
          | Some l \<Rightarrow> vthen (set_next l (Some t)) (upd_q (\<lambda>q. q\<lparr>tq_tail := Some t\<rparr>))))
     (upd_q (\<lambda>q. q\<lparr>tq_tiocbs_deferred := tq_tiocbs_deferred q + 1, tq_deferrals := tq_deferrals q + 1\<rparr>)) w)"

definition queue_deferred_tiocb :: "(qworld, unit) vm" where
  "queue_deferred_tiocb = (\<lambda>w. case tq_head (qw_q w) of None \<Rightarrow> (Inr (), w)
     | Some t \<Rightarrow> vthen (upd_q (\<lambda>q. q\<lparr>tq_head := qw_next w t\<rparr>))
         (vthen (upd_q (\<lambda>q. if tq_head q = None then q\<lparr>tq_tail := None\<rparr> else q))
           (vthen (queue_tiocb t) (upd_q (\<lambda>q. q\<lparr>tq_tiocbs_deferred := tq_tiocbs_deferred q - 1\<rparr>)))) w)"

definition tapdisk_queue_full :: "tqueue \<Rightarrow> bool" where
  "tapdisk_queue_full q \<longleftrightarrow> tq_tiocbs_pending q + int (tq_queued q) \<ge> tq_size q"

text \<open>As many turns as the queue has room for; then it is full.\<close>

primrec queue_deferred_loop :: "nat \<Rightarrow> (qworld, unit) vm" where
  "queue_deferred_loop 0 = (\<lambda>w. if \<not> tapdisk_queue_full (qw_q w) \<and> tq_head (qw_q w) \<noteq> None then (Inl Hang, w) else (Inr (), w))"
| "queue_deferred_loop (Suc k) = (\<lambda>w. if \<not> tapdisk_queue_full (qw_q w) \<and> tq_head (qw_q w) \<noteq> None
     then vthen queue_deferred_tiocb (queue_deferred_loop k) w else (Inr (), w))"

definition queue_deferred_tiocbs :: "(qworld, unit) vm" where
  "queue_deferred_tiocbs = (\<lambda>w.
     queue_deferred_loop (nat (tq_size (qw_q w) - tq_tiocbs_pending (qw_q w) - int (tq_queued (qw_q w)))) w)"

definition tapdisk_prep_tiocb :: "nat \<Rightarrow> int \<Rightarrow> bool \<Rightarrow> u64 \<Rightarrow> u64 \<Rightarrow> u64 \<Rightarrow> (qworld, unit) vm" where
  "tapdisk_prep_tiocb t fd rw buf sz off = vthen
     (with_opio (upd_io t (\<lambda>_. \<lparr>io_fd = fd, io_write = rw, io_buf = buf, io_nbytes = sz, io_offset = off, io_data = Tio t\<rparr>)))
     (set_next t None)"

definition tapdisk_queue_tiocb :: "nat \<Rightarrow> (qworld, unit) vm" where
  "tapdisk_queue_tiocb t = (\<lambda>w. if \<not> tapdisk_queue_full (qw_q w) then queue_tiocb t w else defer_tiocb t w)"

section \<open>Completion\<close>

primrec run_qops :: "qop list \<Rightarrow> (qworld, unit) vm" where
  "run_qops [] = vret ()"
| "run_qops (c # cs) = (case c of Q_queue t fd rw buf sz off \<Rightarrow>
     vthen (tapdisk_prep_tiocb t fd rw buf sz off) (vthen (tapdisk_queue_tiocb t) (run_qops cs)))"

definition complete_tiocb :: "qprog \<Rightarrow> nat \<Rightarrow> u64 \<Rightarrow> (qworld, unit) vm" where
  "complete_tiocb prog t res = (\<lambda>w. let err = res_err (io_nbytes (os_io (qw_os w) t)) res in
     vthen (vmodify (\<lambda>w. w\<lparr>qw_done := qw_done w @ [(t, err)]\<rparr>)) (\<lambda>w. run_qops (prog t err w) w) w)"

text \<open>The walk along \<open>next\<close>, which is read after the callback; fuel for a chain with a cycle.\<close>

primrec cancel_walk :: "qprog \<Rightarrow> u64 \<Rightarrow> nat \<Rightarrow> nat option \<Rightarrow> (qworld, unit) vm" where
  "cancel_walk prog err 0 t = (case t of None \<Rightarrow> vret () | Some _ \<Rightarrow> vraise Hang)"
| "cancel_walk prog err (Suc k) t = (case t of None \<Rightarrow> vret ()
   | Some t \<Rightarrow> vthen (complete_tiocb prog t err) (\<lambda>w. cancel_walk prog err k (qw_next w t) w))"

definition cancel_tiocbs :: "qprog \<Rightarrow> nat \<Rightarrow> int \<Rightarrow> (qworld, int) vm" where
  "cancel_tiocbs prog fuel err = (\<lambda>w. let queued = tq_queued (qw_q w) in
     if queued = 0 then (Inr 0, w)
     else vbind (tiocb_of (hd (tq_iocbs (qw_q w)))) (\<lambda>t.
       vthen (upd_q (\<lambda>q. q\<lparr>tq_queued := 0\<rparr>))
         (vthen (cancel_walk prog (word_of_int err) fuel (Some t)) (vret (int queued)))) w)"

text \<open>Putting a list at the front of the array of requests.\<close>

definition put_front :: "nat list \<Rightarrow> tqueue \<Rightarrow> tqueue" where
  "put_front xs q = q\<lparr>tq_iocbs := xs @ drop (length xs) (tq_iocbs q)\<rparr>"

definition fail_tiocbs :: "qprog \<Rightarrow> nat \<Rightarrow> nat \<Rightarrow> nat \<Rightarrow> int \<Rightarrow> (qworld, int) vm" where
  "fail_tiocbs prog fuel succeeded tot err = (\<lambda>w.
     vbind (with_opio (io_expand_iocbs (tq_iocbs (qw_q w)) succeeded tot)) (\<lambda>xs.
       vthen (upd_q (\<lambda>q. (put_front xs q)\<lparr>tq_queued := length xs\<rparr>)) (cancel_tiocbs prog fuel err)) w)"

primrec complete_events :: "qprog \<Rightarrow> (nat \<times> u64) list \<Rightarrow> (qworld, unit) vm" where
  "complete_events prog [] = vret ()"
| "complete_events prog (ev # evs) = vbind (tiocb_of (fst ev)) (\<lambda>t.
     vthen (complete_tiocb prog t (snd ev)) (complete_events prog evs))"

section \<open>The two drivers\<close>

text \<open>The transfers of the merged requests, in their order; a stream that is used up gives -EIO.\<close>

primrec rw_all :: "nat list \<Rightarrow> (qworld, (nat \<times> u64) list) vm" where
  "rw_all [] = vret []"
| "rw_all (i # xs) = (\<lambda>w. case qw_rw w of
     [] \<Rightarrow> vbind (rw_all xs) (\<lambda>ys. vret ((i, word_of_int (- EIO)) # ys)) w
   | r # rs \<Rightarrow> vbind (rw_all xs) (\<lambda>ys. vret ((i, r) # ys)) (w\<lparr>qw_rw := rs\<rparr>))"

definition tapdisk_rwio_submit :: "qprog \<Rightarrow> (qworld, int) vm" where
  "tapdisk_rwio_submit prog = (\<lambda>w. if tq_queued (qw_q w) = 0 then (Inr 0, w)
     else vbind (with_opio (io_merge (take (tq_queued (qw_q w)) (tq_iocbs (qw_q w))))) (\<lambda>merged.
       vthen (upd_q (\<lambda>q. (put_front merged q)\<lparr>tq_queued := 0\<rparr>))
         (vbind (rw_all merged) (\<lambda>evs.
           vbind (with_opio (io_split evs (int (length evs)))) (\<lambda>evs.
             vthen (complete_events prog evs) (vthen queue_deferred_tiocbs (vret (int (length evs)))))))) w)"

definition io_submit_call :: "(qworld, int) vm" where
  "io_submit_call = (\<lambda>w. case qw_submit w of [] \<Rightarrow> (Inr (- EIO), w) | r # rs \<Rightarrow> (Inr r, w\<lparr>qw_submit := rs\<rparr>))"

definition io_getevents_call :: "(qworld, int \<times> (nat \<times> u64) list) vm" where
  "io_getevents_call = (\<lambda>w. case qw_events w of [] \<Rightarrow> (Inr (- EINTR, []), w) | e # es \<Rightarrow> (Inr e, w\<lparr>qw_events := es\<rparr>))"

definition tapdisk_lio_submit :: "qprog \<Rightarrow> nat \<Rightarrow> (qworld, int) vm" where
  "tapdisk_lio_submit prog fuel = (\<lambda>w. let queued = tq_queued (qw_q w) in
     if queued = 0 then (Inr 0, w)
     else vbind (with_opio (io_merge (take queued (tq_iocbs (qw_q w))))) (\<lambda>merged.
       vthen (upd_q (put_front merged)) (vbind io_submit_call (\<lambda>r.
         let submitted = (if r < 0 then 0 else r);
             err = (if r < 0 then r else if r < int (length merged) then - EIO else 0)
         in vthen (upd_q (\<lambda>q. q\<lparr>tq_iocbs_pending := tq_iocbs_pending q + submitted,
              tq_tiocbs_pending := tq_tiocbs_pending q + int queued, tq_queued := 0\<rparr>))
           (vthen (if err \<noteq> 0 then vbind (fail_tiocbs prog fuel (nat submitted) (length merged) err) (\<lambda>n.
                 upd_q (\<lambda>q. q\<lparr>tq_tiocbs_pending := tq_tiocbs_pending q - n\<rparr>)) else vret ())
             (vret submitted))))) w)"

definition tapdisk_lio_event :: "qprog \<Rightarrow> (qworld, unit) vm" where
  "tapdisk_lio_event prog = vbind io_getevents_call (\<lambda>(ret, evs).
     vbind (with_opio (io_split evs ret)) (\<lambda>xs.
       vthen (upd_q (\<lambda>q. q\<lparr>tq_iocbs_pending := tq_iocbs_pending q - ret,
            tq_tiocbs_pending := tq_tiocbs_pending q - int (length xs)\<rparr>))
         (vthen (complete_events prog xs) queue_deferred_tiocbs)))"

section \<open>The interface\<close>

definition tapdisk_submit_tiocbs :: "qprog \<Rightarrow> nat \<Rightarrow> (qworld, int) vm" where
  "tapdisk_submit_tiocbs prog fuel = (\<lambda>w. case tq_tio (qw_q w) of
     None \<Rightarrow> (Inl Undef, w)
   | Some Td_tio_lio \<Rightarrow> tapdisk_lio_submit prog fuel w
   | Some Td_tio_rwio \<Rightarrow> tapdisk_rwio_submit prog w)"

primrec submit_all_loop :: "qprog \<Rightarrow> nat \<Rightarrow> nat \<Rightarrow> int \<Rightarrow> (qworld, int) vm" where
  "submit_all_loop prog fuel 0 n = vraise Hang"
| "submit_all_loop prog fuel (Suc k) n = vbind (tapdisk_submit_tiocbs prog fuel) (\<lambda>m w.
     if tq_queued (qw_q w) \<noteq> 0 then submit_all_loop prog fuel k (n + m) w else (Inr (n + m), w))"

definition tapdisk_submit_all_tiocbs :: "qprog \<Rightarrow> nat \<Rightarrow> (qworld, int) vm" where
  "tapdisk_submit_all_tiocbs prog fuel = submit_all_loop prog fuel fuel 0"

definition tapdisk_cancel_tiocbs :: "qprog \<Rightarrow> nat \<Rightarrow> (qworld, int) vm" where
  "tapdisk_cancel_tiocbs prog fuel = cancel_tiocbs prog fuel (- EIO)"

primrec cancel_all_loop :: "qprog \<Rightarrow> nat \<Rightarrow> nat \<Rightarrow> int \<Rightarrow> (qworld, int) vm" where
  "cancel_all_loop prog fuel 0 n = vraise Hang"
| "cancel_all_loop prog fuel (Suc k) n = vbind (tapdisk_cancel_tiocbs prog fuel) (\<lambda>m w.
     if tq_queued (qw_q w) \<noteq> 0 then cancel_all_loop prog fuel k (n + m) w else (Inr (n + m), w))"

definition tapdisk_cancel_all_tiocbs :: "qprog \<Rightarrow> nat \<Rightarrow> (qworld, int) vm" where
  "tapdisk_cancel_all_tiocbs prog fuel = cancel_all_loop prog fuel fuel 0"

text \<open>\<open>setup\<close> is what the driver's \<open>tio_setup\<close> returns, the flags say which allocations succeed.\<close>

definition TIO_DRV_LIO :: int where "TIO_DRV_LIO = 1"
definition TIO_DRV_RWIO :: int where "TIO_DRV_RWIO = 2"

definition tapdisk_queue_init_io :: "bool \<Rightarrow> int \<Rightarrow> int \<Rightarrow> verr + tio" where
  "tapdisk_queue_init_io data_mem setup drv =
     (if drv \<noteq> TIO_DRV_LIO \<and> drv \<noteq> TIO_DRV_RWIO then Inl (Errno (- EINVAL))
      else if \<not> data_mem then Inl (Errno (- ENOMEM))
      else if setup \<noteq> 0 then Inl (Errno setup)
      else Inr (if drv = TIO_DRV_LIO then Td_tio_lio else Td_tio_rwio))"

definition no_queue :: tqueue where
  "no_queue = \<lparr>tq_size = 0, tq_tio = None, tq_queued = 0, tq_iocbs = [], tq_iocbs_pending = 0, tq_tiocbs_pending = 0,
     tq_head = None, tq_tail = None, tq_tiocbs_deferred = 0, tq_deferrals = 0\<rparr>"

definition tapdisk_init_queue ::
    "bool \<Rightarrow> bool \<Rightarrow> bool \<times> bool \<times> bool \<times> bool \<Rightarrow> int \<Rightarrow> nat \<Rightarrow> int \<Rightarrow> verr + (tqueue \<times> opioctx option)" where
  "tapdisk_init_queue data_mem iocbs_mem opio_mem setup sz drv =
     (if sz = 0 then Inr (no_queue, None)
      else case tapdisk_queue_init_io data_mem setup drv of
        Inl e \<Rightarrow> Inl e
      | Inr tio \<Rightarrow> if \<not> iocbs_mem then Inl (Errno (- ENOMEM))
          else case opio_init opio_mem sz of
            Inl e \<Rightarrow> Inl e
          | Inr ctx \<Rightarrow> Inr (no_queue\<lparr>tq_size := int sz, tq_tio := Some tio, tq_iocbs := replicate sz 0\<rparr>, Some ctx))"

end
