(* ===== verification/Td_Opio_Laws.thy ===== *)
theory Td_Opio_Laws
  imports Td_Opio "HOL-Library.Multiset"
begin

text \<open>
  What merging does to the requests. \<open>groups h0 st gs\<close> describes a state: \<open>h0\<close> are the requests as
  they were queued, \<open>gs\<close> the groups into which they are merged, each a list of requests with the
  chain of records that remembers them (no chain for a request on its own); records not in a chain
  are on the stack of free ones. Merging keeps the description and joins neighbouring groups that
  are contiguous, taking apart restores the requests of a group and frees its records.
\<close>

section \<open>The description of a state\<close>

definition cell :: "(nat \<Rightarrow> iocb) \<Rightarrow> opio list \<Rightarrow> nat \<Rightarrow> nat \<Rightarrow> bool" where
  "cell h0 os i p \<longleftrightarrow> op_iocb (os ! p) = i \<and> op_buf (os ! p) = io_buf (h0 i) \<and>
     op_nbytes (os ! p) = io_nbytes (h0 i) \<and> op_data (os ! p) = io_data (h0 i)"

fun links :: "opio list \<Rightarrow> nat list \<Rightarrow> bool" where
  "links os [] \<longleftrightarrow> True"
| "links os [p] \<longleftrightarrow> op_next (os ! p) = None"
| "links os (p # q # ps) \<longleftrightarrow> op_next (os ! p) = Some q \<and> links os (q # ps)"

definition total_bytes :: "(nat \<Rightarrow> iocb) \<Rightarrow> nat list \<Rightarrow> u64" where
  "total_bytes h0 is = sum_list (map (\<lambda>i. io_nbytes (h0 i)) is)"

type_synonym group = "nat list \<times> nat list"

definition chained :: "(nat \<Rightarrow> iocb) \<Rightarrow> (nat \<Rightarrow> iocb) \<Rightarrow> opio list \<Rightarrow> nat list \<Rightarrow> nat list \<Rightarrow> bool" where
  "chained h0 h os is ps \<longleftrightarrow> ps \<noteq> [] \<and> list_all2 (cell h0 os) is ps \<and> links os ps \<and>
     op_list_tail (os ! hd ps) = Some (last ps) \<and>
     h (hd is) = (h0 (hd is))\<lparr>io_nbytes := total_bytes h0 is, io_data := Op (hd ps)\<rparr> \<and>
     list_all2 (\<lambda>i p. h i = (h0 i)\<lparr>io_data := Op p\<rparr>) (tl is) (tl ps)"

definition alone :: "(nat \<Rightarrow> iocb) \<Rightarrow> (nat \<Rightarrow> iocb) \<Rightarrow> group \<Rightarrow> bool" where
  "alone h0 h g \<longleftrightarrow> (\<exists>i. g = ([i], []) \<and> h i = h0 i)"

definition group_ok :: "(nat \<Rightarrow> iocb) \<Rightarrow> ostate \<Rightarrow> group \<Rightarrow> bool" where
  "group_ok h0 st g \<longleftrightarrow> alone h0 (os_io st) g \<or> chained h0 (os_io st) (opios (os_ctx st)) (fst g) (snd g)"

abbreviation ids_of :: "group list \<Rightarrow> nat list" where "ids_of gs \<equiv> concat (map fst gs)"
abbreviation ops_of :: "group list \<Rightarrow> nat list" where "ops_of gs \<equiv> concat (map snd gs)"

text \<open>Every record is in a chain, in the hands of the caller (\<open>P\<close>), or free.\<close>

definition pool :: "opioctx \<Rightarrow> nat list \<Rightarrow> bool" where
  "pool c P \<longleftrightarrow> length (opios c) = num_opios c \<and> length (free_opios c) = num_opios c \<and>
     free_opio_cnt c \<le> num_opios c \<and>
     mset P + mset (take (free_opio_cnt c) (free_opios c)) = mset [0..<num_opios c] \<and>
     (\<forall>p \<in> set (take (free_opio_cnt c) (free_opios c)). op_next (opios c ! p) = None)"

text \<open>\<open>I\<close> are requests in the hands of the caller, about which nothing is said.\<close>

definition world :: "(nat \<Rightarrow> iocb) \<Rightarrow> nat list \<Rightarrow> nat list \<Rightarrow> group list \<Rightarrow> ostate \<Rightarrow> bool" where
  "world h0 I P gs st \<longleftrightarrow> pool (os_ctx st) (P @ ops_of gs) \<and> distinct (I @ ids_of gs) \<and>
     (\<forall>g \<in> set gs. group_ok h0 st g) \<and> (\<forall>i. i \<notin> set I \<and> i \<notin> set (ids_of gs) \<longrightarrow> os_io st i = h0 i) \<and>
     (\<forall>i. \<exists>t. io_data (h0 i) = Tio t)"

abbreviation groups :: "(nat \<Rightarrow> iocb) \<Rightarrow> group list \<Rightarrow> ostate \<Rightarrow> bool" where
  "groups h0 gs st \<equiv> world h0 [] [] gs st"

subsection \<open>Frame properties\<close>

lemma poolD:
  assumes "pool c P"
  shows "distinct P" "\<And>p. p \<in> set P \<Longrightarrow> p < length (opios c)" "length P \<le> num_opios c"
    "length P + free_opio_cnt c = num_opios c"
proof -
  let ?F = "take (free_opio_cnt c) (free_opios c)"
  have m: "mset (P @ ?F) = mset [0..<num_opios c]" using assms by (simp add: pool_def)
  have "distinct (P @ ?F)" using mset_eq_imp_distinct_iff [OF m] by simp
  then show "distinct P" by simp
  have "set (P @ ?F) = {0..<num_opios c}" using mset_eq_setD [OF m] by simp
  then show "\<And>p. p \<in> set P \<Longrightarrow> p < length (opios c)" using assms by (auto simp: pool_def)
  have "length (P @ ?F) = num_opios c" using mset_eq_length [OF m] by simp
  then show "length P + free_opio_cnt c = num_opios c" using assms by (simp add: pool_def)
  then show "length P \<le> num_opios c" by simp
qed

lemma pool_perm: "pool c P \<Longrightarrow> mset P = mset Q \<Longrightarrow> pool c Q"
  by (simp add: pool_def)

lemma mset_concat_map: "mset (concat (map f xs)) = \<Sum>\<^sub># (image_mset (\<lambda>x. mset (f x)) (mset xs))"
  by (induction xs) simp_all

lemma mset_ids: "mset gs = mset hs \<Longrightarrow> mset (ids_of gs) = mset (ids_of hs)"
  by (simp only: mset_concat_map)

lemma mset_ops: "mset gs = mset hs \<Longrightarrow> mset (ops_of gs) = mset (ops_of hs)"
  by (simp only: mset_concat_map)

lemma world_perm:
  assumes "world h0 I P gs st" and "mset gs = mset hs"
  shows "world h0 I P hs st"
proof -
  have s: "set hs = set gs" using assms(2) by (metis set_mset_mset)
  have i: "set (ids_of hs) = set (ids_of gs)" using mset_ids [OF assms(2)] by (metis set_mset_mset)
  have "mset (I @ ids_of hs) = mset (I @ ids_of gs)" using mset_ids [OF assms(2)] by simp
  then have "distinct (I @ ids_of hs) = distinct (I @ ids_of gs)" by (rule mset_eq_imp_distinct_iff)
  moreover have "pool (os_ctx st) (P @ ops_of hs)"
    by (rule pool_perm [of _ "P @ ops_of gs"]) (use assms mset_ops [OF assms(2)] in \<open>simp_all add: world_def\<close>)
  ultimately show ?thesis using assms(1) unfolding world_def s i by blast
qed

lemma links_cong: "(\<And>p. p \<in> set ps \<Longrightarrow> os' ! p = os ! p) \<Longrightarrow> links os' ps = links os ps"
  by (induction os ps rule: links.induct) auto

lemma chained_cong:
  assumes "\<And>i. i \<in> set is \<Longrightarrow> h' i = h i" and "\<And>p. p \<in> set ps \<Longrightarrow> os' ! p = os ! p" and "chained h0 h os is ps"
  shows "chained h0 h' os' is ps"
proof -
  note c = assms(3) [unfolded chained_def]
  have "length is = length ps" using c by (auto dest: list_all2_lengthD)
  with c have ne: "ps \<noteq> []" "is \<noteq> []" by auto
  have "list_all2 (cell h0 os') is ps"
    by (rule list.rel_mono_strong [of "cell h0 os"]) (use c assms(2) in \<open>auto simp: cell_def\<close>)
  moreover have "list_all2 (\<lambda>i p. h' i = (h0 i)\<lparr>io_data := Op p\<rparr>) (tl is) (tl ps)"
    by (rule list.rel_mono_strong [of "\<lambda>i p. h i = (h0 i)\<lparr>io_data := Op p\<rparr>"])
      (use c assms(1) ne in \<open>auto dest: list.set_sel(2)\<close>)
  ultimately show ?thesis
    using c assms ne links_cong [of ps os' os] by (simp add: chained_def)
qed

lemma group_ok_cong:
  assumes "\<And>i. i \<in> set (fst g) \<Longrightarrow> os_io t i = os_io s i"
    and "\<And>p. p \<in> set (snd g) \<Longrightarrow> opios (os_ctx t) ! p = opios (os_ctx s) ! p" and "group_ok h0 s g"
  shows "group_ok h0 t g"
  using assms(3) unfolding group_ok_def
proof
  assume "alone h0 (os_io s) g"
  then show "alone h0 (os_io t) g \<or> chained h0 (os_io t) (opios (os_ctx t)) (fst g) (snd g)"
    using assms(1) by (auto simp: alone_def)
next
  assume "chained h0 (os_io s) (opios (os_ctx s)) (fst g) (snd g)"
  then show "alone h0 (os_io t) g \<or> chained h0 (os_io t) (opios (os_ctx t)) (fst g) (snd g)"
    using chained_cong assms(1,2) by blast
qed

text \<open>A change that concerns one group, given up to the caller, and records not in use.\<close>

lemma world_frame:
  assumes w: "world h0 I P gs s"
    and io: "\<And>i. i \<notin> set I' \<Longrightarrow> os_io t i = os_io s i"
    and op: "\<And>p. p \<in> set (ops_of gs) \<Longrightarrow> opios (os_ctx t) ! p = opios (os_ctx s) ! p"
    and I: "set I' = set I" "distinct (I' @ ids_of gs)" and p: "pool (os_ctx t) (P' @ ops_of gs)"
  shows "world h0 I' P' gs t"
proof -
  have "os_io t i = os_io s i" if "i \<in> set (ids_of gs)" for i using that I(2) by (intro io) auto
  then have "\<forall>g \<in> set gs. group_ok h0 t g"
    using w op by (auto simp: world_def intro!: group_ok_cong [of _ t s])
  then show ?thesis using w io I p by (simp add: world_def)
qed

lemma world_Tio: "world h0 I P gs st \<Longrightarrow> \<exists>d. io_data (h0 i) = Tio d"
  by (simp add: world_def)

lemma take_group: "groups h0 ((is, ps) # gs) st \<Longrightarrow> world h0 is ps gs st \<and> group_ok h0 st (is, ps)"
  by (auto simp: world_def)

lemma put_group:
  assumes "world h0 is ps gs st" and "group_ok h0 st (is, ps)"
  shows "groups h0 ((is, ps) # gs) st"
  using assms by (auto simp: world_def)

section \<open>The stack of free records\<close>

lemma pool_alloc:
  assumes "pool c P" and "0 < free_opio_cnt c"
  shows "pool (c\<lparr>free_opio_cnt := free_opio_cnt c - 1\<rparr>) ((free_opios c ! (free_opio_cnt c - 1)) # P) \<and>
    op_next (opios c ! (free_opios c ! (free_opio_cnt c - 1))) = None"
proof -
  obtain k where k: "free_opio_cnt c = Suc k" using assms(2) by (cases "free_opio_cnt c") auto
  with assms(1) have "take (Suc k) (free_opios c) = take k (free_opios c) @ [free_opios c ! k]"
    by (simp add: pool_def take_Suc_conv_app_nth)
  with assms(1) k show ?thesis by (simp add: pool_def)
qed

definition freed :: "nat \<Rightarrow> opioctx \<Rightarrow> opioctx" where
  "freed p c = c\<lparr>opios := (opios c)[p := no_opio], free_opios := (free_opios c)[free_opio_cnt c := p],
     free_opio_cnt := Suc (free_opio_cnt c)\<rparr>"

lemma pool_free:
  assumes p: "pool c (p # P)"
  shows "pool (freed p c) P" and "os_ctx st = c \<Longrightarrow> free_opio p st = (Inr (), st\<lparr>os_ctx := freed p c\<rparr>)"
proof -
  note D = poolD [OF p]
  have l: "free_opio_cnt c < length (free_opios c)" using D(4) p by (simp add: pool_def)
  then show "os_ctx st = c \<Longrightarrow> free_opio p st = (Inr (), st\<lparr>os_ctx := freed p c\<rparr>)"
    by (simp add: free_opio_def vm_simps Let_def freed_def)
  have "take (Suc (free_opio_cnt c)) ((free_opios c)[free_opio_cnt c := p]) =
      take (free_opio_cnt c) (free_opios c) @ [p]"
    using l by (simp add: take_Suc_conv_app_nth)
  moreover have "op_next (((opios c)[p := no_opio]) ! q) = None" if "q \<in> set (take (free_opio_cnt c) (free_opios c)) \<or> q = p" for q
    using that p D(2) [of p] by (cases "q = p") (auto simp: pool_def no_opio_def)
  ultimately show "pool (freed p c) P"
    using p l by (simp add: pool_def freed_def)
qed

lemma pool_opios:
  assumes "pool c P" and "length os = length (opios c)" and "\<And>q. q \<notin> set P \<Longrightarrow> q < length (opios c) \<Longrightarrow> os ! q = opios c ! q"
  shows "pool (c\<lparr>opios := os\<rparr>) P"
proof -
  let ?F = "take (free_opio_cnt c) (free_opios c)"
  have m: "mset (P @ ?F) = mset [0..<num_opios c]" using assms(1) by (simp add: pool_def)
  have "distinct (P @ ?F)" using mset_eq_imp_distinct_iff [OF m] by simp
  moreover have "set (P @ ?F) = {0..<num_opios c}" using mset_eq_setD [OF m] by simp
  ultimately have "\<forall>q \<in> set ?F. q \<notin> set P \<and> q < length (opios c)" using assms(1) by (auto simp: pool_def)
  then show ?thesis using assms by (simp add: pool_def)
qed

section \<open>Merging\<close>

text \<open>A request on its own gets a record, unless there is none left.\<close>

lemma opio_get_alone:
  assumes w: "world h0 I P gs st" and i: "i \<in> set I" "os_io st i = h0 i"
  shows "opio_get i st = (Inr None, st) \<or> (\<exists>p t. opio_get i st = (Inr (Some p), t) \<and> world h0 I (p # P) gs t \<and>
    os_io t = (os_io st)(i := (h0 i)\<lparr>io_data := Op p\<rparr>) \<and> chained h0 (os_io t) (opios (os_ctx t)) [i] [p] \<and>
    (\<forall>q. q \<noteq> p \<longrightarrow> opios (os_ctx t) ! q = opios (os_ctx st) ! q))"
proof (cases "free_opio_cnt (os_ctx st) = 0")
  case True
  obtain d where "io_data (h0 i) = Tio d" using world_Tio [OF w] by blast
  with True i show ?thesis by (simp add: opio_get_def opio_iocb_init_def alloc_opio_def vm_simps)
next
  case False
  obtain d where d: "io_data (h0 i) = Tio d" using world_Tio [OF w] by blast
  let ?c = "os_ctx st" and ?k = "free_opio_cnt (os_ctx st) - 1"
  let ?p = "free_opios ?c ! ?k"
  let ?o = "init_opio_list ?p ((opios ?c ! ?p)\<lparr>op_buf := io_buf (h0 i), op_nbytes := io_nbytes (h0 i),
      op_offset := io_offset (h0 i), op_data := io_data (h0 i), op_iocb := i\<rparr>)"
  let ?c1 = "?c\<lparr>free_opio_cnt := ?k\<rparr>"
  let ?t = "st\<lparr>os_ctx := ?c1\<lparr>opios := (opios ?c)[?p := ?o]\<rparr>, os_io := (os_io st)(i := (h0 i)\<lparr>io_data := Op ?p\<rparr>)\<rparr>"
  have pl: "pool ?c (P @ ops_of gs)" using w by (simp add: world_def)
  from pool_alloc [OF pl] False have p1: "pool ?c1 (?p # P @ ops_of gs)" "op_next (opios ?c ! ?p) = None" by simp_all
  note D = poolD [OF p1(1)]
  have lt: "?p < length (opios ?c)" using D(2) [of ?p] by simp
  have p2: "pool (os_ctx ?t) ((?p # P) @ ops_of gs)"
    using pool_opios [OF p1(1), of "(opios ?c)[?p := ?o]"] by simp
  have "world h0 I (?p # P) gs ?t"
  proof (rule world_frame [OF w, where I' = I])
    show "opios (os_ctx ?t) ! q = opios (os_ctx st) ! q" if "q \<in> set (ops_of gs)" for q
      using that D(1) by (cases "q = ?p") auto
    show "os_io ?t j = os_io st j" if "j \<notin> set I" for j using that i by auto
  qed (use w p2 in \<open>simp_all add: world_def\<close>)
  moreover have "opio_get i st = (Inr (Some ?p), ?t)"
    using False i d by (simp add: opio_get_def opio_iocb_init_def alloc_opio_def vm_simps Let_def)
  moreover have "chained h0 (os_io ?t) (opios (os_ctx ?t)) [i] [?p]"
    using lt p1(2) by (simp add: chained_def cell_def init_opio_list_def total_bytes_def)
  ultimately show ?thesis by (intro disjI2 exI [of _ ?p] exI [of _ ?t]) simp
qed

text \<open>The head of a group: its record if it has one, otherwise a new one.\<close>

lemma opio_get_head:
  assumes g: "groups h0 ((is, ps) # gs) st"
  shows "opio_get (hd is) st = (Inr None, st) \<or> (\<exists>qs t. opio_get (hd is) st = (Inr (Some (hd qs)), t) \<and>
    groups h0 ((is, qs) # gs) t \<and> chained h0 (os_io t) (opios (os_ctx t)) is qs)"
proof -
  note w = take_group [OF g]
  have "alone h0 (os_io st) (is, ps) \<or> chained h0 (os_io st) (opios (os_ctx st)) is ps"
    using w by (simp add: group_ok_def)
  then show ?thesis
  proof
    assume c: "chained h0 (os_io st) (opios (os_ctx st)) is ps"
    then have "opio_get (hd is) st = (Inr (Some (hd ps)), st)" by (simp add: chained_def opio_get_def)
    with g c show ?thesis by blast
  next
    assume "alone h0 (os_io st) (is, ps)"
    then obtain i where i: "is = [i]" "ps = []" "os_io st i = h0 i" by (auto simp: alone_def)
    have w': "world h0 [i] [] gs st" using w i by simp
    have "opio_get i st = (Inr None, st) \<or> (\<exists>p t. opio_get i st = (Inr (Some p), t) \<and>
        world h0 [i] [p] gs t \<and> chained h0 (os_io t) (opios (os_ctx t)) [i] [p])"
      using opio_get_alone [OF w', of i] i(3) by (simp del: fun_upd_apply) blast
    then show ?thesis
    proof (elim disjE exE conjE)
      fix p t
      assume r: "opio_get i st = (Inr (Some p), t)" "world h0 [i] [p] gs t"
        "chained h0 (os_io t) (opios (os_ctx t)) [i] [p]"
      then have "groups h0 (([i], [p]) # gs) t" by (intro put_group) (simp_all add: group_ok_def)
      with r show ?thesis unfolding i(1) by (intro disjI2 exI [of _ "[p]"] exI [of _ t]) simp
    qed (simp_all add: i)
  qed
qed

lemma links_snoc:
  assumes "links os ps" and "ps \<noteq> []" and "distinct (ps @ [q])" and "last ps < length os" and "op_next (os ! q) = None"
  shows "links (os[last ps := (os ! last ps)\<lparr>op_next := Some q\<rparr>]) (ps @ [q])"
  using assms
proof (induction os ps rule: links.induct)
  case (3 os p r ps)
  then have "links (os[last (r # ps) := (os ! last (r # ps))\<lparr>op_next := Some q\<rparr>]) ((r # ps) @ [q])" by simp
  moreover have "p \<noteq> last (r # ps)" using 3(4) last_in_set [of "r # ps"] by auto
  ultimately show ?case using 3(2) by simp
qed auto

lemma chained_length: "chained h0 h os is ps \<Longrightarrow> length is = length ps \<and> is \<noteq> [] \<and> ps \<noteq> []"
  by (auto simp: chained_def dest: list_all2_lengthD)

lemma total_snoc: "total_bytes h0 (is @ [i]) = total_bytes h0 is + io_nbytes (h0 i)"
  by (simp add: total_bytes_def)

text \<open>Linking a request with its record to the end of a chain.\<close>

definition linked_state :: "nat \<Rightarrow> nat \<Rightarrow> nat list \<Rightarrow> nat \<Rightarrow> ostate \<Rightarrow> ostate" where
  "linked_state head i ps q s = (let c = os_ctx s;
     os = (opios c)[q := (opios c ! q)\<lparr>op_head := Some (hd ps)\<rparr>];
     os = os[last ps := (os ! last ps)\<lparr>op_next := Some q\<rparr>];
     os = os[hd ps := (os ! hd ps)\<lparr>op_list_tail := Some q\<rparr>]
   in s\<lparr>os_ctx := c\<lparr>opios := os\<rparr>, os_io := (os_io s)(head := (os_io s head)
        \<lparr>io_nbytes := io_nbytes (os_io s head) + io_nbytes (os_io s i)\<rparr>)\<rparr>)"

lemma merge_tail_linked:
  assumes "opio_get head s = (Inr (Some (hd ps)), u)" and "opio_get i u = (Inr (Some q), t)"
    and "op_list_tail (opios (os_ctx t) ! hd ps) = Some (last ps)" "hd ps \<noteq> q"
  shows "merge_tail head i s = (Inr 0, linked_state head i ps q t)"
  using assms by (simp add: merge_tail_def vbind_def vmodify_def vgets_def vret_def linked_state_def Let_def)

lemma link_chain:
  assumes c: "chained h0 h os is ps" and d: "chained h0 h os [i] [q]"
    and ds: "distinct (ps @ [q])" "distinct (is @ [i])" and lt: "\<And>p. p \<in> set (q # ps) \<Longrightarrow> p < length os"
    and os1: "os1 = os[q := (os ! q)\<lparr>op_head := x\<rparr>]"
    and os2: "os2 = os1[last ps := (os1 ! last ps)\<lparr>op_next := Some q\<rparr>]"
    and os3: "os3 = os2[hd ps := (os2 ! hd ps)\<lparr>op_list_tail := Some q\<rparr>]"
  shows "chained h0 (h(hd is := (h (hd is))\<lparr>io_nbytes := io_nbytes (h (hd is)) + io_nbytes (h i)\<rparr>)) os3 (is @ [i]) (ps @ [q])"
proof -
  note C = c [unfolded chained_def] and D = d [unfolded chained_def]
  note L = chained_length [OF c]
  have in_ps: "last ps \<in> set ps" "hd ps \<in> set ps" using L by simp_all
  have ne: "q \<notin> set ps" using ds by auto
  have "os1 ! p = os ! p" if "p \<in> set ps" for p using that ne os1 by (cases "p = q") auto
  then have links1: "links os1 ps" using links_cong [of ps os1 os] C by blast
  have "links os2 (ps @ [q])"
    unfolding os2 by (rule links_snoc) (use links1 L ds lt in_ps D os1 in auto)
  then have links3: "links os3 (ps @ [q])"
  proof -
    have "op_next (os3 ! p) = op_next (os2 ! p)" for p
      using lt in_ps os1 os2 os3 by (cases "p = hd ps") auto
    moreover have "links a xs \<longleftrightarrow> links b xs" if "\<And>p. op_next (a ! p) = op_next (b ! p)" for a b xs
      using that by (induction a xs rule: links.induct) auto
    ultimately show ?thesis using \<open>links os2 (ps @ [q])\<close> by blast
  qed
  have cell3: "cell h0 os3 j p = cell h0 os j p" if "p \<in> set (ps @ [q])" for j p
  proof -
    have "op_iocb (os3 ! p) = op_iocb (os ! p) \<and> op_buf (os3 ! p) = op_buf (os ! p) \<and>
        op_nbytes (os3 ! p) = op_nbytes (os ! p) \<and> op_data (os3 ! p) = op_data (os ! p)"
      using that lt in_ps os1 os2 os3 ne by (simp add: nth_list_update)
    then show ?thesis by (simp add: cell_def)
  qed
  have "list_all2 (cell h0 os) (is @ [i]) (ps @ [q])"
    by (intro list_all2_appendI) (use C D in simp_all)
  then have cells: "list_all2 (cell h0 os3) (is @ [i]) (ps @ [q])"
    by (rule list.rel_mono_strong) (use cell3 in blast)
  have hd_is: "hd is \<in> set is" "i \<noteq> hd is" "hd is \<notin> set (tl is)"
    using L ds(2) by (cases "is"; auto)+
  have rest: "list_all2 (\<lambda>j p. h j = (h0 j)\<lparr>io_data := Op p\<rparr>) (tl is @ [i]) (tl ps @ [q])"
    by (intro list_all2_appendI) (use C D in \<open>simp_all add: total_bytes_def\<close>)
  have "list_all2 (\<lambda>j p. (h(hd is := v)) j = (h0 j)\<lparr>io_data := Op p\<rparr>) (tl is @ [i]) (tl ps @ [q])" for v
    by (rule list.rel_mono_strong [OF rest]) (use hd_is in auto)
  moreover have "op_list_tail (os3 ! hd ps) = Some q" using lt in_ps os1 os2 os3 by simp
  ultimately show ?thesis
    using cells links3 C D L hd_is by (simp add: chained_def total_snoc) (simp add: total_bytes_def)
qed

definition joins :: "(nat \<Rightarrow> iocb) \<Rightarrow> nat list \<Rightarrow> nat \<Rightarrow> bool" where
  "joins h0 is i \<longleftrightarrow> io_write (h0 (hd is)) = io_write (h0 i) \<and> io_fd (h0 (hd is)) = io_fd (h0 i) \<and>
     io_offset (h0 (hd is)) + total_bytes h0 is = io_offset (h0 i) \<and> io_buf (h0 (hd is)) + total_bytes h0 is = io_buf (h0 i)"

lemma head_iocb:
  assumes "group_ok h0 st (is, ps)"
  shows "is \<noteq> [] \<and> (\<exists>d. os_io st (hd is) = (h0 (hd is))\<lparr>io_nbytes := total_bytes h0 is, io_data := d\<rparr>)"
  using assms chained_length [of h0 "os_io st" "opios (os_ctx st)" "is" ps] unfolding group_ok_def
proof (elim disjE)
  assume "alone h0 (os_io st) (is, ps)"
  then obtain i where "is = [i]" "os_io st i = h0 i" by (auto simp: alone_def)
  then show ?thesis by (simp add: total_bytes_def) (metis iocb.surjective iocb.update_convs(4,6))
qed (auto simp: chained_def)

lemma world_groups_perm: "groups h0 (a # b # gs) st \<Longrightarrow> groups h0 (b # a # gs) st"
  by (erule world_perm) (simp add: add_mset_commute)

lemma merge_link:
  assumes u: "groups h0 ((is, qs) # ([i], []) # gs) u" and c: "chained h0 (os_io u) (opios (os_ctx u)) is qs"
    and i: "opio_get i u = (Inr (Some q), t)" and head: "opio_get (hd is) s = (Inr (Some (hd qs)), u)"
  shows "\<exists>v. merge_tail (hd is) i s = (Inr 0, v) \<and> groups h0 ((is @ [i], qs @ [q]) # gs) v"
proof -
  have w: "world h0 [i] [] ((is, qs) # gs) u"
    using take_group [OF world_groups_perm [OF u]] by simp
  have "alone h0 (os_io u) ([i], [])"
    using take_group [OF world_groups_perm [OF u]] by (auto simp: group_ok_def chained_def)
  then have ui: "os_io u i = h0 i" by (simp add: alone_def)
  from opio_get_alone [OF w _ ui] i have t: "world h0 [i] [q] ((is, qs) # gs) t"
    "chained h0 (os_io t) (opios (os_ctx t)) [i] [q]" by auto
  have qs: "qs \<noteq> []" using c by (simp add: chained_def)
  have ct: "chained h0 (os_io t) (opios (os_ctx t)) is qs"
    using t(1) qs by (auto simp: world_def group_ok_def alone_def)
  have ds: "distinct (qs @ [q])" "distinct (is @ [i])"
    using poolD(1) [of "os_ctx t" "q # qs @ ops_of gs"] t(1) by (auto simp: world_def)
  have lt: "p < length (opios (os_ctx t))" if "p \<in> set (q # qs)" for p
    using poolD(2) [of "os_ctx t" "q # qs @ ops_of gs" p] t(1) that by (auto simp: world_def)
  let ?v = "linked_state (hd is) i qs q t"
  have "op_list_tail (opios (os_ctx t) ! hd qs) = Some (last qs)" using ct by (simp add: chained_def)
  then have m: "merge_tail (hd is) i s = (Inr 0, ?v)"
    by (rule merge_tail_linked [OF head i]) (use ds qs in auto)
  let ?os1 = "(opios (os_ctx t))[q := (opios (os_ctx t) ! q)\<lparr>op_head := Some (hd qs)\<rparr>]"
  let ?os2 = "?os1[last qs := (?os1 ! last qs)\<lparr>op_next := Some q\<rparr>]"
  let ?os3 = "?os2[hd qs := (?os2 ! hd qs)\<lparr>op_list_tail := Some q\<rparr>]"
  have v: "opios (os_ctx ?v) = ?os3"
    "os_io ?v = (os_io t)(hd is := (os_io t (hd is))\<lparr>io_nbytes := io_nbytes (os_io t (hd is)) + io_nbytes (os_io t i)\<rparr>)"
    "os_ctx ?v = (os_ctx t)\<lparr>opios := ?os3\<rparr>"
    by (simp_all add: linked_state_def Let_def)
  have chain: "chained h0 (os_io ?v) (opios (os_ctx ?v)) (is @ [i]) (qs @ [q])"
    unfolding v(1,2) by (rule link_chain [OF ct t(2) ds lt refl refl refl])
  have p: "pool (os_ctx t) ((qs @ [q]) @ ops_of gs)"
    by (rule pool_perm [of _ "q # qs @ ops_of gs"]) (use t(1) in \<open>simp_all add: world_def\<close>)
  have other: "?os3 ! p = opios (os_ctx t) ! p" if "p \<notin> set (qs @ [q])" for p
  proof -
    have "p \<noteq> q" "p \<noteq> last qs" "p \<noteq> hd qs" using that qs by auto
    then show ?thesis by simp
  qed
  have w2: "world h0 (is @ [i]) (qs @ [q]) gs t"
    using t(1) p ds by (auto simp: world_def)
  have "world h0 (is @ [i]) (qs @ [q]) gs ?v"
  proof (rule world_frame [OF w2])
    show "os_io ?v j = os_io t j" if "j \<notin> set (is @ [i])" for j
      using that chained_length [OF ct] unfolding v(2) by auto
    show "opios (os_ctx ?v) ! p = opios (os_ctx t) ! p" if "p \<in> set (ops_of gs)" for p
    proof -
      have "p \<notin> set (qs @ [q])" using poolD(1) [OF p] that by auto
      then show ?thesis unfolding v(1) by (rule other)
    qed
    have "pool ((os_ctx t)\<lparr>opios := ?os3\<rparr>) ((qs @ [q]) @ ops_of gs)"
      by (rule pool_opios [OF p]) (use other in auto)
    then show "pool (os_ctx ?v) ((qs @ [q]) @ ops_of gs)" unfolding v(3) .
  qed (use w2 in \<open>simp_all add: world_def\<close>)
  then have "groups h0 ((is @ [i], qs @ [q]) # gs) ?v"
    by (rule put_group) (use chain in \<open>simp add: group_ok_def\<close>)
  with m show ?thesis by blast
qed

lemma merge_step:
  assumes g: "groups h0 ((is, ps) # ([i], []) # gs) st"
  shows "\<exists>r t. merge_iocbs (hd is) i st = (Inr r, t) \<and>
    (r \<noteq> 0 \<and> (\<exists>qs. groups h0 ((is, qs) # ([i], []) # gs) t) \<or>
     r = 0 \<and> joins h0 is i \<and> (\<exists>qs. groups h0 ((is @ [i], qs) # gs) t))"
proof (cases "io_write (os_io st (hd is)) = io_write (os_io st i) \<and> contiguous_iocbs (os_io st (hd is)) (os_io st i)")
  case False
  then show ?thesis using g by (auto simp: merge_iocbs_def EINVAL_def)
next
  case True
  have "alone h0 (os_io st) ([i], [])"
    using take_group [OF world_groups_perm [OF g]] by (auto simp: group_ok_def chained_def)
  then have "os_io st i = h0 i" by (simp add: alone_def)
  moreover obtain d where "os_io st (hd is) = (h0 (hd is))\<lparr>io_nbytes := total_bytes h0 is, io_data := d\<rparr>"
    using head_iocb take_group [OF g] by blast
  ultimately have j: "joins h0 is i"
    using True by (simp add: joins_def contiguous_iocbs_def contiguous_sectors_def contiguous_buffers_def)
  have m: "merge_iocbs (hd is) i st = merge_tail (hd is) i st" using True by (simp add: merge_iocbs_def)
  from opio_get_head [OF g] show ?thesis
  proof (elim disjE exE conjE)
    assume "opio_get (hd is) st = (Inr None, st)"
    then have "merge_tail (hd is) i st = (Inr (- ENOMEM), st)" by (simp add: merge_tail_def vm_simps)
    then show ?thesis using m g by (auto simp: ENOMEM_def)
  next
    fix qs u
    assume h: "opio_get (hd is) st = (Inr (Some (hd qs)), u)" and u: "groups h0 ((is, qs) # ([i], []) # gs) u"
      and c: "chained h0 (os_io u) (opios (os_ctx u)) is qs"
    have w: "world h0 [i] [] ((is, qs) # gs) u" using take_group [OF world_groups_perm [OF u]] by simp
    have "alone h0 (os_io u) ([i], [])"
      using take_group [OF world_groups_perm [OF u]] by (auto simp: group_ok_def chained_def)
    then have ui: "os_io u i = h0 i" by (simp add: alone_def)
    from opio_get_alone [OF w _ ui]
    have "opio_get i u = (Inr None, u) \<or> (\<exists>q t. opio_get i u = (Inr (Some q), t))" by auto
    then show ?thesis
    proof (elim disjE exE)
      assume "opio_get i u = (Inr None, u)"
      then have "merge_tail (hd is) i st = (Inr (- ENOMEM), u)" using h by (simp add: merge_tail_def vm_simps)
      then show ?thesis using m u by (auto simp: ENOMEM_def)
    next
      fix q t
      assume "opio_get i u = (Inr (Some q), t)"
      from merge_link [OF u c this h] m j show ?thesis by auto
    qed
  qed
qed

text \<open>Every request of a group continues the ones before it.\<close>

definition joined :: "(nat \<Rightarrow> iocb) \<Rightarrow> nat list \<Rightarrow> bool" where
  "joined h0 is \<longleftrightarrow> is \<noteq> [] \<and> (\<forall>k < length is. 0 < k \<longrightarrow> joins h0 (take k is) (is ! k))"

lemma joined_single: "joined h0 [i]"
  by (simp add: joined_def)

lemma joined_snoc: "joined h0 is \<Longrightarrow> joins h0 is i \<Longrightarrow> joined h0 (is @ [i])"
  by (auto simp: joined_def nth_append less_Suc_eq)

abbreviation singles :: "nat list \<Rightarrow> group list" where "singles q \<equiv> map (\<lambda>i. ([i], [])) q"

lemma ids_singles [simp]: "ids_of (singles q) = q" "ops_of (singles q) = []"
  "concat (map (fst \<circ> (\<lambda>i. ([i], []))) q) = q" "concat (map (snd \<circ> (\<lambda>i. ([i], []))) q) = []"
  by (induction q) auto

lemma merge_loop_ok:
  assumes "groups h0 ((is, ps) # singles q @ gs) st" and "joined h0 is"
  shows "\<exists>new t. merge_loop q (acc @ [hd is]) st = (Inr (acc @ map (\<lambda>g. hd (fst g)) new), t) \<and> groups h0 (new @ gs) t \<and>
    ids_of new = is @ q \<and> (\<forall>g \<in> set new. joined h0 (fst g))"
  using assms
proof (induction q arbitrary: "is" ps gs acc st)
  case Nil
  then show ?case by (intro exI [of _ "[(is, ps)]"] exI [of _ st]) (simp add: vret_def)
next
  case (Cons i q)
  have "groups h0 ((is, ps) # ([i], []) # singles q @ gs) st" using Cons.prems(1) by simp
  from merge_step [OF this] show ?case
  proof (elim exE conjE disjE)
    fix r t qs
    assume m: "merge_iocbs (hd is) i st = (Inr r, t)" "r \<noteq> 0" and g: "groups h0 ((is, qs) # ([i], []) # singles q @ gs) t"
    have "groups h0 (([i], []) # singles q @ (is, qs) # gs) t" by (rule world_perm [OF g]) simp
    from Cons.IH [OF this joined_single, of "acc @ [hd is]"] obtain new u where
      n: "merge_loop q ((acc @ [hd is]) @ [i]) t = (Inr ((acc @ [hd is]) @ map (\<lambda>g. hd (fst g)) new), u)"
      "groups h0 (new @ (is, qs) # gs) u" "ids_of new = i # q" "\<forall>g \<in> set new. joined h0 (fst g)" by auto
    have "groups h0 (((is, qs) # new) @ gs) u" by (rule world_perm [OF n(2)]) simp
    with n m Cons.prems(2) show ?thesis
      by (intro exI [of _ "(is, qs) # new"] exI [of _ u]) (simp add: vbind_def)
  next
    fix r t qs
    assume m: "merge_iocbs (hd is) i st = (Inr r, t)" "r = 0" and j: "joins h0 is i"
      and g: "groups h0 ((is @ [i], qs) # singles q @ gs) t"
    have ne: "is \<noteq> []" using Cons.prems(2) by (simp add: joined_def)
    from Cons.IH [OF g joined_snoc [OF Cons.prems(2) j], of acc] ne obtain new u where
      "merge_loop q (acc @ [hd is]) t = (Inr (acc @ map (\<lambda>g. hd (fst g)) new), u)"
      "groups h0 (new @ gs) u" "ids_of new = is @ i # q" "\<forall>g \<in> set new. joined h0 (fst g)" by auto
    with m show ?thesis by (intro exI [of _ new] exI [of _ u]) (simp add: vbind_def)
  qed
qed

lemma groups_singles:
  assumes "groups h0 gs st" and "distinct q" "set q \<inter> set (ids_of gs) = {}"
  shows "groups h0 (singles q @ gs) st"
proof -
  have "group_ok h0 st ([i], [])" if "i \<in> set q" for i
  proof -
    have "i \<notin> set [] \<and> i \<notin> set (ids_of gs)" using assms(3) that by auto
    then have "os_io st i = h0 i" using assms(1) unfolding world_def by blast
    then show ?thesis by (simp add: group_ok_def alone_def)
  qed
  then show ?thesis using assms by (auto simp: world_def)
qed

lemma io_merge_ok:
  assumes "groups h0 gs st" and "distinct q" "set q \<inter> set (ids_of gs) = {}"
  shows "\<exists>new t. io_merge q st = (Inr (map (\<lambda>g. hd (fst g)) new), t) \<and> groups h0 (new @ gs) t \<and>
    ids_of new = q \<and> (\<forall>g \<in> set new. joined h0 (fst g))"
proof (cases q)
  case Nil
  then show ?thesis using assms(1) by (intro exI [of _ "[]"] exI [of _ st]) (simp add: io_merge_def vret_def)
next
  case (Cons i r)
  have "groups h0 (([i], []) # singles r @ gs) st" using groups_singles [OF assms] Cons by simp
  from merge_loop_ok [OF this joined_single, of "[]"] Cons show ?thesis by (simp add: io_merge_def)
qed

section \<open>Taking apart\<close>

definition remains :: "(nat \<Rightarrow> iocb) \<Rightarrow> (nat \<Rightarrow> iocb) \<Rightarrow> opio list \<Rightarrow> nat list \<Rightarrow> nat list \<Rightarrow> bool" where
  "remains h0 h os is ps \<longleftrightarrow> list_all2 (cell h0 os) is ps \<and> links os ps \<and>
     (\<forall>i \<in> set is. \<exists>n d. h i = (h0 i)\<lparr>io_nbytes := n, io_data := d\<rparr>)"

lemma list_all2_ex: "list_all2 P xs ys \<Longrightarrow> x \<in> set xs \<Longrightarrow> \<exists>y. P x y"
  by (induction rule: list_all2_induct) auto

lemma chained_remains:
  assumes "chained h0 h os is ps"
  shows "remains h0 h os is ps"
proof -
  note C = assms [unfolded chained_def] and L = chained_length [OF assms]
  have "\<exists>n d. h i = (h0 i)\<lparr>io_nbytes := n, io_data := d\<rparr>" if "i \<in> set is" for i
  proof (cases "i = hd is")
    case True
    then show ?thesis using C by blast
  next
    case False
    with that L have "i \<in> set (tl is)" by (cases "is") auto
    then obtain p where "h i = (h0 i)\<lparr>io_data := Op p\<rparr>" 
      using list_all2_ex [of "\<lambda>i p. h i = (h0 i)\<lparr>io_data := Op p\<rparr>" "tl is" "tl ps" i] C by blast
    then show ?thesis by (intro exI [of _ "io_nbytes (h0 i)"] exI [of _ "Op p"]) simp
  qed
  then show ?thesis using C by (simp add: remains_def)
qed

lemma world_shrink:
  assumes w: "world h0 (i # is) (p # ps) gs st" and p: "pool (os_ctx t) (ps @ ops_of gs)"
    and t: "os_io t = (os_io st)(i := h0 i)" "\<And>q. q \<noteq> p \<Longrightarrow> opios (os_ctx t) ! q = opios (os_ctx st) ! q"
  shows "world h0 is ps gs t"
proof -
  have "p \<notin> set (ops_of gs)" using w poolD(1) [of "os_ctx st" "p # ps @ ops_of gs"] by (simp add: world_def)
  then have op: "opios (os_ctx t) ! q = opios (os_ctx st) ! q" if "q \<in> set (ops_of gs)" for q
    using t(2) that by metis
  have "world h0 (i # is) ps gs t"
    by (rule world_frame [OF w _ op refl _ p]) (use w t(1) in \<open>simp_all add: world_def\<close>)
  then show ?thesis using t(1) by (auto simp: world_def)
qed

abbreviation chain_start :: "nat list \<Rightarrow> nat option" where
  "chain_start ps \<equiv> (case ps of [] \<Rightarrow> None | p # _ \<Rightarrow> Some p)"

lemma expand_chain_ok:
  assumes "world h0 is ps gs st" and "remains h0 (os_io st) (opios (os_ctx st)) is ps" and "length ps \<le> k"
  shows "\<exists>t. expand_chain f k (chain_start ps) st = (Inr (map (\<lambda>p. f (opios (os_ctx st) ! p)) ps), t) \<and> groups h0 gs t"
  using assms
proof (induction ps arbitrary: "is" k st)
  case Nil
  then have "is = []" by (simp add: remains_def)
  with Nil show ?case by (cases k) (simp_all add: vret_def)
next
  case (Cons p ps)
  obtain i js where i: "is = i # js" using Cons.prems(2) by (cases "is") (auto simp: remains_def)
  obtain j where k: "k = Suc j" using Cons.prems(3) by (cases k) auto
  let ?os = "opios (os_ctx st)"
  have c: "cell h0 ?os i p" and h: "\<exists>n d. os_io st i = (h0 i)\<lparr>io_nbytes := n, io_data := d\<rparr>"
    using Cons.prems(2) i by (simp_all add: remains_def)
  let ?s = "st\<lparr>os_io := (os_io st)(i := h0 i)\<rparr>"
  have r: "restore_iocb p st = (Inr (), ?s)"
    using c h by (auto simp: restore_iocb_def cell_def vmodify_def Let_def)
  have pl: "pool (os_ctx st) (p # ps @ ops_of gs)" using Cons.prems(1) by (simp add: world_def)
  let ?t = "?s\<lparr>os_ctx := freed p (os_ctx st)\<rparr>"
  have fr: "free_opio p ?s = (Inr (), ?t)" by (rule pool_free(2) [OF pl]) simp
  have ot: "opios (os_ctx ?t) ! q = ?os ! q" if "q \<noteq> p" for q using that by (simp add: freed_def)
  have w: "world h0 js ps gs ?t"
    by (rule world_shrink [OF Cons.prems(1) [unfolded i]]) (use pool_free(1) [OF pl] in \<open>simp_all add: freed_def\<close>)
  have np: "p \<notin> set ps" "i \<notin> set js" using poolD(1) [OF pl] Cons.prems(1) i by (auto simp: world_def)
  have rem: "remains h0 (os_io ?t) (opios (os_ctx ?t)) js ps"
  proof -
    have "list_all2 (cell h0 ?os) js ps" "links ?os (p # ps)" using Cons.prems(2) i by (simp_all add: remains_def)
    have same: "opios (os_ctx ?t) ! q = ?os ! q" if "q \<in> set ps" for q using np that by (intro ot) auto
    have "list_all2 (cell h0 (opios (os_ctx ?t))) js ps"
      by (rule list.rel_mono_strong [OF \<open>list_all2 (cell h0 ?os) js ps\<close>]) (simp only: cell_def same)
    moreover have "links ?os ps" using \<open>links ?os (p # ps)\<close> by (cases ps) simp_all
    then have "links (opios (os_ctx ?t)) ps" using links_cong [of ps "opios (os_ctx ?t)" ?os] same by blast
    moreover have "\<forall>x \<in> set js. \<exists>n d. os_io ?t x = (h0 x)\<lparr>io_nbytes := n, io_data := d\<rparr>"
      using Cons.prems(2) i np by (auto simp: remains_def)
    ultimately show ?thesis by (simp add: remains_def)
  qed
  have "links ?os (p # ps)" using Cons.prems(2) by (simp add: remains_def)
  then have nx: "op_next (?os ! p) = chain_start ps" by (cases ps) simp_all
  from Cons.IH [OF w rem, of j] Cons.prems(3) k obtain u where
    u: "expand_chain f j (chain_start ps) ?t = (Inr (map (\<lambda>q. f (opios (os_ctx ?t) ! q)) ps), u)" "groups h0 gs u" by auto
  have m: "map (\<lambda>q. f (opios (os_ctx ?t) ! q)) ps = map (\<lambda>q. f (?os ! q)) ps"
    by (rule map_cong [OF refl], subst ot) (use np in auto)
  have "expand_chain f k (chain_start (p # ps)) st = (Inr (f (?os ! p) # map (\<lambda>q. f (?os ! q)) ps), u)"
    using u(1) unfolding m k by (simp add: Let_def vbind_def r fr nx vret_def)
  with u(2) show ?case by auto
qed

text \<open>The answer each request of a group gets from the result of the merged one.\<close>

definition answers :: "(nat \<Rightarrow> iocb) \<Rightarrow> group \<Rightarrow> u64 \<Rightarrow> (nat \<times> u64) list" where
  "answers h0 g r = (let err = res_err (total_bytes h0 (fst g)) r in
     if snd g = [] then map (\<lambda>i. (i, r)) (fst g)
     else map (\<lambda>i. (i, if err \<noteq> 0 then word_of_int err else io_nbytes (h0 i))) (fst g))"

lemma map_cells:
  assumes "list_all2 (cell h0 os) is ps" and "\<And>i p. cell h0 os i p \<Longrightarrow> f (os ! p) = k i"
  shows "map (\<lambda>p. f (os ! p)) ps = map k is"
  using assms(1) by (induction rule: list_all2_induct) (simp_all add: assms(2))

lemma expand_group:
  assumes g: "groups h0 ((is, ps) # gs) st" and c: "chained h0 (os_io st) (opios (os_ctx st)) is ps"
    and f: "\<And>i p. cell h0 (opios (os_ctx st)) i p \<Longrightarrow> f (opios (os_ctx st) ! p) = k i"
  shows "\<exists>t. expand_chain f (num_opios (os_ctx st)) (data_opio (io_data (os_io st (hd is)))) st = (Inr (map k is), t) \<and>
    groups h0 gs t"
proof -
  have w: "world h0 is ps gs st" using take_group [OF g] by blast
  then have "length ps \<le> num_opios (os_ctx st)" using poolD(3) [of "os_ctx st" "ps @ ops_of gs"] by (simp add: world_def)
  from expand_chain_ok [OF w chained_remains [OF c] this, of f] obtain t where
    t: "expand_chain f (num_opios (os_ctx st)) (chain_start ps) st = (Inr (map (\<lambda>p. f (opios (os_ctx st) ! p)) ps), t)"
    "groups h0 gs t" by blast
  have "data_opio (io_data (os_io st (hd is))) = chain_start ps"
    using c by (cases ps) (simp_all add: chained_def data_opio_def)
  moreover have "map (\<lambda>p. f (opios (os_ctx st) ! p)) ps = map k is"
    by (rule map_cells [where os = "opios (os_ctx st)" and f = f, OF _ f]) (use c in \<open>simp_all add: chained_def\<close>)
  ultimately show ?thesis using t by auto
qed

lemma group_cases:
  assumes g: "groups h0 (g # gs) st"
  obtains (alone) i where "g = ([i], [])" "\<not> iocb_optimized st i" "groups h0 gs st" "os_io st i = h0 i"
  | (chained) "is" ps where "g = (is, ps)" "chained h0 (os_io st) (opios (os_ctx st)) is ps"
      "iocb_optimized st (hd is)" "io_nbytes (os_io st (hd is)) = total_bytes h0 is" "ps \<noteq> []"
proof -
  obtain "is" ps where gp: "g = (is, ps)" by (cases g)
  have "alone h0 (os_io st) g \<or> chained h0 (os_io st) (opios (os_ctx st)) is ps"
    using g gp by (auto simp: world_def group_ok_def)
  then show thesis
  proof
    assume "alone h0 (os_io st) g"
    then obtain i where i: "g = ([i], [])" "os_io st i = h0 i" by (auto simp: alone_def)
    obtain d where "io_data (h0 i) = Tio d" using world_Tio [OF g] by blast
    then have "\<not> iocb_optimized st i" using i by (simp add: iocb_optimized_def)
    moreover have "groups h0 gs st" using g i by (auto simp: world_def)
    ultimately show thesis using i alone by blast
  next
    assume c: "chained h0 (os_io st) (opios (os_ctx st)) is ps"
    then have "iocb_optimized st (hd is)" "io_nbytes (os_io st (hd is)) = total_bytes h0 is" "ps \<noteq> []"
      by (simp_all add: chained_def iocb_optimized_def)
    with gp c show thesis by (intro chained)
  qed
qed

lemma split_events_ok:
  assumes "groups h0 (map fst sel @ gs) st"
  shows "\<exists>t. split_events (map (\<lambda>(g, r). (hd (fst g), r)) sel) st =
    (Inr (concat (map (\<lambda>(g, r). answers h0 g r) sel)), t) \<and> groups h0 gs t"
  using assms
proof (induction sel arbitrary: st)
  case Nil
  then show ?case by (simp add: vret_def)
next
  case (Cons a sel)
  obtain g r where a: "a = (g, r)" by (cases a)
  have "groups h0 (g # map fst sel @ gs) st" using Cons.prems a by simp
  then show ?case
  proof (cases rule: group_cases)
    case (alone i)
    from Cons.IH [OF alone(3)] obtain t where
      "split_events (map (\<lambda>(g, r). (hd (fst g), r)) sel) st = (Inr (concat (map (\<lambda>(g, r). answers h0 g r) sel)), t)"
      "groups h0 gs t" by blast
    then show ?thesis using a alone(1,2) by (simp add: vbind_def vret_def answers_def Let_def)
  next
    case (chained "is" ps)
    let ?err = "res_err (total_bytes h0 is) r"
    let ?k = "\<lambda>i. (i, if ?err \<noteq> 0 then word_of_int ?err else io_nbytes (h0 i)) :: nat \<times> u64"
    let ?f = "\<lambda>op. (op_iocb op, if ?err \<noteq> 0 then word_of_int ?err else op_nbytes op)"
    have "groups h0 ((is, ps) # map fst sel @ gs) st" using Cons.prems a chained(1) by simp
    moreover have "?f (opios (os_ctx st) ! p) = ?k i" if "cell h0 (opios (os_ctx st)) i p" for i p
      using that by (simp add: cell_def)
    ultimately obtain u where
      u: "expand_chain ?f (num_opios (os_ctx st)) (data_opio (io_data (os_io st (hd is)))) st = (Inr (map ?k is), u)"
      "groups h0 (map fst sel @ gs) u" using expand_group [OF _ chained(2), of _ ?f ?k] by blast
    then have e: "expand_event (hd is, r) st = (Inr (answers h0 (is, ps) r), u)"
      using chained(4,5) by (simp add: expand_event_def Let_def answers_def cong: if_cong)
    from Cons.IH [OF u(2)] obtain t where
      "split_events (map (\<lambda>(g, r). (hd (fst g), r)) sel) u = (Inr (concat (map (\<lambda>(g, r). answers h0 g r) sel)), t)"
      "groups h0 gs t" by blast
    then show ?thesis using a chained(1,3) e by (simp add: vbind_def vret_def)
  qed
qed

lemma expand_iocbs_ok:
  assumes "groups h0 (new @ gs) st"
  shows "\<exists>t. expand_iocbs (map (\<lambda>g. hd (fst g)) new) st = (Inr (ids_of new), t) \<and> groups h0 gs t"
  using assms
proof (induction new arbitrary: st)
  case Nil
  then show ?case by (simp add: vret_def)
next
  case (Cons g new)
  have "groups h0 (g # new @ gs) st" using Cons.prems by simp
  then show ?case
  proof (cases rule: group_cases)
    case (alone i)
    from Cons.IH [OF alone(3)] obtain t where
      "expand_iocbs (map (\<lambda>g. hd (fst g)) new) st = (Inr (ids_of new), t)" "groups h0 gs t" by blast
    then show ?thesis using alone(1,2) by (simp add: vbind_def vret_def)
  next
    case (chained "is" ps)
    have "groups h0 ((is, ps) # new @ gs) st" using Cons.prems chained(1) by simp
    from expand_group [OF this chained(2), of op_iocb "\<lambda>i. i"] obtain u where
      u: "expand_iocb (hd is) st = (Inr is, u)" "groups h0 (new @ gs) u" by (auto simp: cell_def expand_iocb_def)
    from Cons.IH [OF u(2)] obtain t where
      "expand_iocbs (map (\<lambda>g. hd (fst g)) new) u = (Inr (ids_of new), t)" "groups h0 gs t" by blast
    then show ?thesis using chained(1,3) u(1) by (simp add: vbind_def vret_def)
  qed
qed

section \<open>The effect of a request\<close>

text \<open>What a request that succeeds does to memory and to the files, bytes addressed as in C.\<close>

type_synonym world_bytes = "(u64 \<Rightarrow> u8) \<times> (int \<Rightarrow> u64 \<Rightarrow> u8)"

definition transfer :: "iocb \<Rightarrow> world_bytes \<Rightarrow> world_bytes" where
  "transfer io w = (case w of (mem, files) \<Rightarrow>
     if io_write io
     then (mem, files(io_fd io := (\<lambda>a. if a - io_offset io < io_nbytes io then mem (io_buf io + (a - io_offset io))
        else files (io_fd io) a)))
     else ((\<lambda>a. if a - io_buf io < io_nbytes io then files (io_fd io) (io_offset io + (a - io_buf io)) else mem a), files))"

definition whole :: "(nat \<Rightarrow> iocb) \<Rightarrow> nat list \<Rightarrow> iocb" where
  "whole h0 is = (h0 (hd is))\<lparr>io_nbytes := total_bytes h0 is\<rparr>"

lemma word_split_range:
  fixes x n m :: u64
  assumes "unat n + unat m < 2 ^ 64"
  shows "x < n + m \<longleftrightarrow> x < n \<or> x - n < m" and "x < n \<Longrightarrow> \<not> x - n < m"
proof -
  have nm: "unat (n + m) = unat n + unat m" using assms by (simp add: unat_word_ariths)
  have ge: "unat (x - n) = unat x - unat n" if "\<not> x < n"
    using that by (simp add: unat_sub not_less)
  show "x < n + m \<longleftrightarrow> x < n \<or> x - n < m"
  proof (cases "x < n")
    case True
    then show ?thesis using nm by (simp add: word_less_nat_alt)
  next
    case False
    then show ?thesis using nm ge [OF False] by (simp add: word_less_nat_alt) linarith
  qed
  assume lt: "x < n"
  have "unat (x - n) = unat x + 2 ^ 64 - unat n"
    using lt by (simp add: unat_sub_if_size word_size word_less_nat_alt)
  then show "\<not> x - n < m" using assms lt by (simp add: word_less_nat_alt)
qed

lemma transfer_joined:
  assumes n: "unat (io_nbytes a) + unat (io_nbytes b) < 2 ^ 64" and "io_write a = io_write b" and "io_fd a = io_fd b"
    and "io_offset a + io_nbytes a = io_offset b" and "io_buf a + io_nbytes a = io_buf b"
  shows "transfer (a\<lparr>io_nbytes := io_nbytes a + io_nbytes b\<rparr>) w = transfer b (transfer a w)"
proof -
  obtain mem files where w: "w = (mem, files)" by (cases w)
  have off: "x - io_offset b = (x - io_offset a) - io_nbytes a" "x - io_buf b = (x - io_buf a) - io_nbytes a" for x
    using assms(4,5) by (simp_all flip: assms(4,5) add: algebra_simps)
  have bk: "io_buf b + ((x - io_offset a) - io_nbytes a) = io_buf a + (x - io_offset a)"
    "io_offset b + ((x - io_buf a) - io_nbytes a) = io_offset a + (x - io_buf a)" for x
    by (simp_all flip: assms(4,5) add: algebra_simps)
  note r = word_split_range [OF n]
  show ?thesis
    using assms(2,3) r(2) unfolding w transfer_def prod.case
    by (auto simp: fun_eq_iff off bk r(1))
qed

lemma joined_snocD:
  assumes j: "joined h0 (is @ [i])" and ne: "is \<noteq> []"
  shows "joined h0 is \<and> joins h0 is i"
proof -
  have k: "joins h0 (take k (is @ [i])) ((is @ [i]) ! k)" if "k \<le> length is" "0 < k" for k
    using j that by (simp add: joined_def)
  have "joins h0 (take k is) (is ! k)" if "k < length is" "0 < k" for k
    using k [of k] that by (simp add: nth_append)
  moreover have "joins h0 is i" using k [of "length is"] ne by simp
  ultimately show ?thesis using ne by (simp add: joined_def)
qed

abbreviation length_of :: "(nat \<Rightarrow> iocb) \<Rightarrow> nat list \<Rightarrow> nat" where
  "length_of h0 is \<equiv> sum_list (map (\<lambda>i. unat (io_nbytes (h0 i))) is)"

lemma unat_total: "length_of h0 is < 2 ^ 64 \<Longrightarrow> unat (total_bytes h0 is) = length_of h0 is"
  by (induction "is") (simp_all add: total_bytes_def unat_word_ariths)

lemma whole_transfer:
  assumes "joined h0 is" and "length_of h0 is < 2 ^ 64"
  shows "transfer (whole h0 is) w = fold (\<lambda>i. transfer (h0 i)) is w"
  using assms
proof (induction "is" rule: rev_induct)
  case Nil
  then show ?case by (simp add: joined_def)
next
  case (snoc i js)
  show ?case
  proof (cases "js = []")
    case True
    then show ?thesis by (simp add: whole_def total_bytes_def)
  next
    case False
    with snoc.prems(1) have j: "joined h0 js" "joins h0 js i" using joined_snocD by blast+
    have n: "unat (io_nbytes (whole h0 js)) + unat (io_nbytes (h0 i)) < 2 ^ 64"
      using snoc.prems(2) by (simp add: whole_def unat_total)
    have "whole h0 (js @ [i]) = (whole h0 js)\<lparr>io_nbytes := io_nbytes (whole h0 js) + io_nbytes (h0 i)\<rparr>"
      using False by (simp add: whole_def total_snoc)
    then have "transfer (whole h0 (js @ [i])) w = transfer (h0 i) (transfer (whole h0 js) w)"
      using transfer_joined [OF n, of w] j(2) by (simp add: joins_def whole_def)
    also have "transfer (whole h0 js) w = fold (\<lambda>i. transfer (h0 i)) js w"
      by (rule snoc.IH [OF j(1)]) (use snoc.prems(2) in simp)
    finally show ?thesis by simp
  qed
qed

text \<open>Groups done one after the other.\<close>

lemma groups_transfer:
  assumes "\<forall>g \<in> set new. joined h0 (fst g) \<and> length_of h0 (fst g) < 2 ^ 64"
  shows "fold (\<lambda>g. transfer (whole h0 (fst g))) new w = fold (\<lambda>i. transfer (h0 i)) (ids_of new) w"
  using assms by (induction new arbitrary: w) (simp_all add: whole_transfer)

text \<open>The merged request in the heap is the whole of its group, whatever its data pointer is.\<close>

lemma transfer_merged:
  assumes "groups h0 (new @ gs) st" and "g \<in> set new"
  shows "transfer (os_io st (hd (fst g))) = transfer (whole h0 (fst g))"
proof -
  have "group_ok h0 st (fst g, snd g)" using assms by (simp add: world_def)
  from head_iocb [OF this] show ?thesis by (auto simp: whole_def transfer_def fun_eq_iff)
qed

lemma fold_merged:
  assumes "groups h0 (new @ gs) st"
  shows "fold (\<lambda>i. transfer (os_io st i)) (map (\<lambda>g. hd (fst g)) new) w = fold (\<lambda>g. transfer (whole h0 (fst g))) new w"
proof -
  have "fold (\<lambda>g. transfer (os_io st (hd (fst g)))) new w = fold (\<lambda>g. transfer (whole h0 (fst g))) new w"
    by (rule fold_cong [OF refl refl]) (rule transfer_merged [OF assms])
  then show ?thesis by (simp add: fold_map comp_def)
qed

end
