(* ===== verification/Td_Queue_Laws.thy ===== *)
theory Td_Queue_Laws
  imports Td_Queue Td_Opio_Laws
begin

text \<open>
  What the queue does with the requests. \<open>queue_ok h0 w qs gs ds\<close> describes a state: the requests
  \<open>qs\<close> are queued, the groups \<open>gs\<close> are in the hands of the kernel, \<open>ds\<close> are deferred, all different,
  and the counters say so (\<open>queue_at c\<close>: with \<open>c\<close> more requests counted as pending). Queueing a request
  and moving up deferred ones keep this. The last section takes the first half of a submit apart; \<open>Td_Queue_Callbacks\<close> goes on from there.
\<close>

fun follows :: "(nat \<Rightarrow> nat option) \<Rightarrow> nat list \<Rightarrow> bool" where
  "follows nx [] \<longleftrightarrow> True"
| "follows nx [d] \<longleftrightarrow> nx d = None"
| "follows nx (d # e # ds) \<longleftrightarrow> nx d = Some e \<and> follows nx (e # ds)"

text \<open>The queued requests are linked up too; the last one ends the list or leads to the deferred ones.\<close>

definition queue_at :: "nat \<Rightarrow> (nat \<Rightarrow> iocb) \<Rightarrow> qworld \<Rightarrow> nat list \<Rightarrow> group list \<Rightarrow> nat list \<Rightarrow> bool" where
  "queue_at c h0 w qs gs ds \<longleftrightarrow> (let q = qw_q w in
     groups h0 gs (qw_os w) \<and> (\<forall>i. io_data (h0 i) = Tio i) \<and> distinct (qs @ ids_of gs @ ds) \<and>
     tq_queued q = length qs \<and> take (length qs) (tq_iocbs q) = qs \<and> int (length (tq_iocbs q)) = tq_size q \<and>
     tq_tiocbs_pending q = int (length (ids_of gs) + c) \<and> int (length qs + length (ids_of gs) + c) \<le> tq_size q \<and>
     tq_head q = (case ds of [] \<Rightarrow> None | d # _ \<Rightarrow> Some d) \<and> (ds \<noteq> [] \<longrightarrow> tq_tail q = Some (last ds)) \<and>
     follows (qw_next w) ds \<and> tq_tiocbs_deferred q = int (length ds) \<and>
     (follows (qw_next w) qs \<or> follows (qw_next w) (qs @ ds)))"

text \<open>Between operations nothing else is counted.\<close>

definition queue_ok :: "(nat \<Rightarrow> iocb) \<Rightarrow> qworld \<Rightarrow> nat list \<Rightarrow> group list \<Rightarrow> nat list \<Rightarrow> bool" where
  "queue_ok = queue_at 0"

lemma queue_atD:
  assumes "queue_at c h0 w qs gs ds"
  shows "groups h0 gs (qw_os w)" "io_data (h0 i) = Tio i" "distinct (qs @ ids_of gs @ ds)"
    "tq_queued (qw_q w) = length qs" "take (length qs) (tq_iocbs (qw_q w)) = qs"
    "int (length (tq_iocbs (qw_q w))) = tq_size (qw_q w)" "tq_tiocbs_pending (qw_q w) = int (length (ids_of gs) + c)"
    "int (length qs + length (ids_of gs) + c) \<le> tq_size (qw_q w)"
    "tq_head (qw_q w) = (case ds of [] \<Rightarrow> None | d # _ \<Rightarrow> Some d)" "ds \<noteq> [] \<Longrightarrow> tq_tail (qw_q w) = Some (last ds)"
    "follows (qw_next w) ds" "tq_tiocbs_deferred (qw_q w) = int (length ds)"
    "follows (qw_next w) qs \<or> follows (qw_next w) (qs @ ds)"
  using assms by (simp_all add: queue_at_def Let_def)

lemma queue_okD:
  assumes "queue_ok h0 w qs gs ds"
  shows "groups h0 gs (qw_os w)" "io_data (h0 i) = Tio i" "distinct (qs @ ids_of gs @ ds)"
    "tq_queued (qw_q w) = length qs" "take (length qs) (tq_iocbs (qw_q w)) = qs"
    "int (length (tq_iocbs (qw_q w))) = tq_size (qw_q w)" "tq_tiocbs_pending (qw_q w) = int (length (ids_of gs))"
    "int (length qs + length (ids_of gs)) \<le> tq_size (qw_q w)"
    "tq_head (qw_q w) = (case ds of [] \<Rightarrow> None | d # _ \<Rightarrow> Some d)" "ds \<noteq> [] \<Longrightarrow> tq_tail (qw_q w) = Some (last ds)"
    "follows (qw_next w) ds" "tq_tiocbs_deferred (qw_q w) = int (length ds)"
    "follows (qw_next w) qs \<or> follows (qw_next w) (qs @ ds)"
  using assms by (simp_all add: queue_ok_def queue_at_def Let_def)

lemma follows_cong: "(\<And>d. d \<in> set ds \<Longrightarrow> nx' d = nx d) \<Longrightarrow> follows nx' ds = follows nx ds"
  by (induction nx ds rule: follows.induct) auto

lemma follows_upd: "d \<notin> set ds \<Longrightarrow> follows (nx(d := y)) ds = follows nx ds"
  by (rule follows_cong) auto

lemma follows_Cons: "follows nx (d # ds) \<longleftrightarrow> nx d = (case ds of [] \<Rightarrow> None | e # _ \<Rightarrow> Some e) \<and> follows nx ds"
  by (cases ds) auto

text \<open>Linking a list to the end of another, whatever the last link was.\<close>

lemma follows_link:
  assumes "follows nx (qs @ xs)" and "follows nx (t # ts)" and "distinct (qs @ t # ts)" and "qs \<noteq> []"
  shows "follows (nx(last qs := Some t)) (qs @ t # ts)"
  using assms
proof (induction qs)
  case (Cons d qs)
  show ?case
  proof (cases qs)
    case Nil
    then show ?thesis using Cons.prems follows_upd [of d "t # ts" nx "Some t"]
      by (simp add: follows_Cons [of _ d] fun_upd_def)
  next
    case (Cons e es)
    note c = this
    have "follows (nx(last qs := Some t)) (qs @ t # ts)"
      by (rule Cons.IH) (use Cons.prems c in \<open>simp_all add: follows_Cons [of _ d]\<close>)
    moreover have "d \<noteq> last qs" using Cons.prems(3) c last_in_set [of qs] by auto
    moreover have "nx d = Some e" using Cons.prems(1) c by simp
    ultimately show ?thesis using c by (simp add: follows_Cons [of _ d] del: last.simps) (simp add: fun_upd_def)
  qed
qed simp

lemma follows_prefix: "queue_at c h0 w qs gs ds \<Longrightarrow> \<exists>xs. follows (qw_next w) (qs @ xs)"
  unfolding queue_at_def Let_def by (metis append_Nil2)

lemma group_tiocb:
  assumes "groups h0 gs s" and "i \<notin> set (ids_of gs)"
  shows "os_io s i = h0 i"
  using assms unfolding world_def by (metis empty_iff list.set(1))

lemma tiocb_of_ok:
  assumes "queue_at c h0 w qs gs ds" and "i \<notin> set (ids_of gs)"
  shows "tiocb_of i w = (Inr i, w)"
  using group_tiocb [OF queue_atD(1) [OF assms(1)] assms(2)] queue_atD(2) [OF assms(1)] by (simp add: tiocb_of_def)

lemma queue_full: "queue_at c h0 w qs gs ds \<Longrightarrow>
    tapdisk_queue_full (qw_q w) \<longleftrightarrow> int (length qs + length (ids_of gs) + c) \<ge> tq_size (qw_q w)"
  by (simp add: tapdisk_queue_full_def queue_at_def Let_def algebra_simps)

section \<open>Queueing\<close>

text \<open>The state after \<open>queue_tiocb\<close>: the link of the last request is overwritten.\<close>

definition queued_state :: "nat list \<Rightarrow> nat \<Rightarrow> qworld \<Rightarrow> qworld" where
  "queued_state qs t w = w\<lparr>qw_next := (if qs = [] then qw_next w else (qw_next w)(last qs := Some t)),
     qw_q := (qw_q w)\<lparr>tq_iocbs := (tq_iocbs (qw_q w))[length qs := t], tq_queued := Suc (length qs)\<rparr>\<rparr>"

lemma queue_tiocb_eq:
  assumes q: "tq_queued (qw_q w) = length qs" "take (length qs) (tq_iocbs (qw_q w)) = qs"
    and lt: "length qs < length (tq_iocbs (qw_q w))" and l: "qs \<noteq> [] \<Longrightarrow> tiocb_of (last qs) w = (Inr (last qs), w)"
  shows "queue_tiocb t w = (Inr (), queued_state qs t w)"
proof (cases "qs = []")
  case True
  then show ?thesis using q lt by (simp add: queue_tiocb_def vm_simps Let_def queued_state_def)
next
  case False
  then have "tq_iocbs (qw_q w) ! (length qs - 1) = last qs"
    using q(2) lt by (metis diff_less last_conv_nth length_greater_0_conv nth_take zero_less_one)
  then show ?thesis using l [OF False] False lt q(1)
    by (simp add: queue_tiocb_def vbind_def vmodify_def vdefined_def vret_def Let_def queued_state_def)
qed

lemma queue_room: "queue_at c h0 w qs gs ds \<Longrightarrow> \<not> tapdisk_queue_full (qw_q w) \<Longrightarrow> length qs < length (tq_iocbs (qw_q w))"
  using queue_full [of c h0 w qs gs ds] queue_atD(6) [of c h0 w qs gs ds] by linarith

lemma last_tiocb: "queue_at c h0 w qs gs ds \<Longrightarrow> qs \<noteq> [] \<Longrightarrow> tiocb_of (last qs) w = (Inr (last qs), w)"
proof -
  assume ok: "queue_at c h0 w qs gs ds" and ne: "qs \<noteq> []"
  have "last qs \<notin> set (ids_of gs)" using queue_atD(3) [OF ok] last_in_set [OF ne] by auto
  then show "tiocb_of (last qs) w = (Inr (last qs), w)" by (rule tiocb_of_ok [OF ok])
qed

lemma take_update_snoc: "take n xs = qs \<Longrightarrow> length qs = n \<Longrightarrow> n < length xs \<Longrightarrow> take (Suc n) (xs[n := t]) = qs @ [t]"
  by (simp add: take_Suc_conv_app_nth)

lemma queue_one:
  assumes ok: "queue_at c h0 w qs gs ds" and room: "\<not> tapdisk_queue_full (qw_q w)"
    and t: "t \<notin> set qs" "t \<notin> set (ids_of gs)" "t \<notin> set ds" "qw_next w t = None"
  shows "queue_tiocb t w = (Inr (), queued_state qs t w)" and "queue_at c h0 (queued_state qs t w) (qs @ [t]) gs ds"
proof -
  note D = queue_atD [OF ok]
  note lt = queue_room [OF ok room]
  show "queue_tiocb t w = (Inr (), queued_state qs t w)"
    by (rule queue_tiocb_eq [OF D(4,5) lt last_tiocb [OF ok]])
  have "last qs \<notin> set ds" if "qs \<noteq> []" using D(3) last_in_set [OF that] by auto
  then have "follows (qw_next (queued_state qs t w)) ds"
    using follows_upd [of "last qs" ds] D(11) by (auto simp: queued_state_def simp del: fun_upd_apply)
  moreover obtain xs where "follows (qw_next w) (qs @ xs)" using follows_prefix [OF ok] by blast
  then have "follows (qw_next (queued_state qs t w)) (qs @ [t])"
    using follows_link [of "qw_next w" qs xs t "[]"] t D(3) by (auto simp: queued_state_def simp del: fun_upd_apply)
  moreover have "int (Suc (length qs + length (ids_of gs) + c)) \<le> tq_size (qw_q w)" using room queue_full [OF ok] by simp
  ultimately show "queue_at c h0 (queued_state qs t w) (qs @ [t]) gs ds"
    using D t lt take_update_snoc [OF D(5) refl lt, of t] by (simp add: queue_at_def Let_def queued_state_def)
qed

text \<open>The first deferred request moves up; its link stays.\<close>

lemma deferred_one:
  assumes ok: "queue_at c h0 w qs gs (t # ds)" and room: "\<not> tapdisk_queue_full (qw_q w)"
  shows "\<exists>u. queue_deferred_tiocb w = (Inr (), u) \<and> queue_at c h0 u (qs @ [t]) gs ds \<and> qw_done u = qw_done w \<and>
    tq_size (qw_q u) = tq_size (qw_q w)"
proof -
  note D = queue_atD [OF ok]
  note lt = queue_room [OF ok room]
  have nt: "qw_next w t = (case ds of [] \<Rightarrow> None | e # _ \<Rightarrow> Some e)" "follows (qw_next w) ds"
    using D(11) by (simp_all add: follows_Cons [of _ t])
  let ?q = "if qw_next w t = None then (qw_q w)\<lparr>tq_head := None, tq_tail := None\<rparr> else (qw_q w)\<lparr>tq_head := qw_next w t\<rparr>"
  let ?v = "w\<lparr>qw_q := ?q\<rparr>"
  let ?u = "(queued_state qs t ?v)\<lparr>qw_q := (qw_q (queued_state qs t ?v))\<lparr>tq_tiocbs_deferred := int (length ds)\<rparr>\<rparr>"
  have l: "tiocb_of (last qs) ?v = (Inr (last qs), ?v)" if "qs \<noteq> []"
    using last_tiocb [OF ok that] by (simp add: tiocb_of_def split: dptr.splits)
  have e: "queue_tiocb t ?v = (Inr (), queued_state qs t ?v)"
    by (rule queue_tiocb_eq) (use D lt l in simp_all)
  have "queue_deferred_tiocb w = (Inr (), ?u)"
    using D(9,12) e by (cases "qw_next w t") (simp_all add: queue_deferred_tiocb_def vbind_def vmodify_def queued_state_def)
  moreover have "last qs \<notin> set ds" if "qs \<noteq> []" using D(3) last_in_set [OF that] by auto
  then have "follows (qw_next ?u) ds"
    using follows_upd [of "last qs" ds] nt(2) by (auto simp: queued_state_def simp del: fun_upd_apply)
  moreover obtain xs where "follows (qw_next w) (qs @ xs)" using follows_prefix [OF ok] by blast
  then have "follows (qw_next ?u) (qs @ t # ds)"
    using follows_link [of "qw_next w" qs xs t ds] D(3,11) by (auto simp: queued_state_def simp del: fun_upd_apply)
  moreover have "int (Suc (length qs + length (ids_of gs) + c)) \<le> tq_size (qw_q w)" using room queue_full [OF ok] by simp
  ultimately have "queue_at c h0 ?u (qs @ [t]) gs ds"
    using D nt lt take_update_snoc [OF D(5) refl lt, of t]
    by (cases ds) (simp_all add: queue_at_def Let_def queued_state_def)
  with \<open>queue_deferred_tiocb w = (Inr (), ?u)\<close> show ?thesis
    by (intro exI [of _ ?u]) (simp add: queued_state_def)
qed

text \<open>Preparing a request that is not in use.\<close>

lemma groups_change:
  assumes g: "groups h0 gs s" and t: "t \<notin> set (ids_of gs)" and x: "\<exists>d. io_data x = Tio d"
  shows "groups (h0(t := x)) gs (s\<lparr>os_io := (os_io s)(t := x)\<rparr>)"
proof -
  have "group_ok (h0(t := x)) (s\<lparr>os_io := (os_io s)(t := x)\<rparr>) g" if "g \<in> set gs" for g
  proof -
    have n: "t \<notin> set (fst g)" using t that by auto
    have "map (\<lambda>i. io_nbytes ((h0(t := x)) i)) (fst g) = map (\<lambda>i. io_nbytes (h0 i)) (fst g)" using n by auto
    then have m: "total_bytes (h0(t := x)) (fst g) = total_bytes h0 (fst g)" by (simp only: total_bytes_def)
    have "group_ok h0 s g" using g that by (simp add: world_def)
    then show ?thesis
      unfolding group_ok_def
    proof (elim disjE)
      assume "alone h0 (os_io s) g"
      then have "alone (h0(t := x)) (os_io (s\<lparr>os_io := (os_io s)(t := x)\<rparr>)) g" using n by (auto simp: alone_def)
      then show "alone (h0(t := x)) (os_io (s\<lparr>os_io := (os_io s)(t := x)\<rparr>)) g \<or>
          chained (h0(t := x)) (os_io (s\<lparr>os_io := (os_io s)(t := x)\<rparr>)) (opios (os_ctx (s\<lparr>os_io := (os_io s)(t := x)\<rparr>))) (fst g) (snd g)" by blast
    next
      assume c: "chained h0 (os_io s) (opios (os_ctx s)) (fst g) (snd g)"
      note C = c [unfolded chained_def] and L = chained_length [OF c]
      have "list_all2 (cell (h0(t := x)) (opios (os_ctx s))) (fst g) (snd g)"
        by (rule list.rel_mono_strong [of "cell h0 (opios (os_ctx s))"]) (use C n in \<open>auto simp: cell_def\<close>)
      moreover have "list_all2 (\<lambda>i p. ((os_io s)(t := x)) i = ((h0(t := x)) i)\<lparr>io_data := Op p\<rparr>) (tl (fst g)) (tl (snd g))"
        by (rule list.rel_mono_strong [of "\<lambda>i p. os_io s i = (h0 i)\<lparr>io_data := Op p\<rparr>"])
          (use C n L in \<open>auto dest: list.set_sel(2)\<close>)
      moreover have "hd (fst g) \<noteq> t" using n L by auto
      ultimately have "chained (h0(t := x)) ((os_io s)(t := x)) (opios (os_ctx s)) (fst g) (snd g)"
        using C m by (simp add: chained_def)
      then show "alone (h0(t := x)) (os_io (s\<lparr>os_io := (os_io s)(t := x)\<rparr>)) g \<or>
          chained (h0(t := x)) (os_io (s\<lparr>os_io := (os_io s)(t := x)\<rparr>)) (opios (os_ctx (s\<lparr>os_io := (os_io s)(t := x)\<rparr>))) (fst g) (snd g)" by simp
    qed
  qed
  then show ?thesis using g x by (simp add: world_def)
qed

text \<open>What an operation on the requests \<open>A\<close> leaves alone.\<close>

definition queue_frame :: "nat set \<Rightarrow> qworld \<Rightarrow> qworld \<Rightarrow> bool" where
  "queue_frame A w u \<longleftrightarrow> tq_size (qw_q u) = tq_size (qw_q w) \<and> qw_done u = qw_done w \<and>
     (\<forall>i. i \<notin> A \<longrightarrow> os_io (qw_os u) i = os_io (qw_os w) i \<and> qw_next u i = qw_next w i)"

lemma queue_frame_trans: "queue_frame A w v \<Longrightarrow> queue_frame B v u \<Longrightarrow> A \<subseteq> C \<Longrightarrow> B \<subseteq> C \<Longrightarrow> queue_frame C w u"
  unfolding queue_frame_def by (metis subsetD)

definition prepared :: "nat \<Rightarrow> int \<Rightarrow> bool \<Rightarrow> u64 \<Rightarrow> u64 \<Rightarrow> u64 \<Rightarrow> iocb" where
  "prepared t fd rw buf sz off =
     \<lparr>io_fd = fd, io_write = rw, io_buf = buf, io_nbytes = sz, io_offset = off, io_data = Tio t\<rparr>"

lemma prep_ok:
  assumes ok: "queue_at c h0 w qs gs ds" and t: "t \<notin> set qs" "t \<notin> set (ids_of gs)" "t \<notin> set ds"
  shows "\<exists>u. tapdisk_prep_tiocb t fd rw buf sz off w = (Inr (), u) \<and>
    queue_at c (h0(t := prepared t fd rw buf sz off)) u qs gs ds \<and> qw_next u t = None \<and> qw_q u = qw_q w \<and>
    queue_frame {t} w u"
proof -
  note D = queue_atD [OF ok]
  let ?x = "prepared t fd rw buf sz off"
  let ?u = "w\<lparr>qw_os := (qw_os w)\<lparr>os_io := (os_io (qw_os w))(t := ?x)\<rparr>, qw_next := (qw_next w)(t := None)\<rparr>"
  have "groups (h0(t := ?x)) gs (qw_os ?u)" using groups_change [OF D(1) t(2), of ?x] by (simp add: prepared_def)
  moreover have "follows (qw_next ?u) ds" using follows_upd [of t ds] D(11) t(3) by simp
  moreover have "follows (qw_next ?u) qs \<or> follows (qw_next ?u) (qs @ ds)"
    using follows_upd [of t qs] follows_upd [of t "qs @ ds"] D(13) t by auto
  moreover have "io_data ((h0(t := ?x)) i) = Tio i" for i using D(2) [of i] by (simp add: prepared_def)
  ultimately have "queue_at c (h0(t := ?x)) ?u qs gs ds" using D by (simp add: queue_at_def Let_def)
  moreover have "tapdisk_prep_tiocb t fd rw buf sz off w = (Inr (), ?u)"
    by (simp add: tapdisk_prep_tiocb_def with_opio_def vbind_def vmodify_def prepared_def)
  ultimately show ?thesis by (intro exI [of _ ?u]) (simp add: queue_frame_def)
qed

text \<open>A prepared request is queued, or deferred when the queue is full.\<close>

lemma queue_tiocb_ok:
  assumes ok: "queue_at c h0 w qs gs ds" and t: "t \<notin> set qs" "t \<notin> set (ids_of gs)" "t \<notin> set ds" "qw_next w t = None"
  shows "\<exists>u. tapdisk_queue_tiocb t w = (Inr (), u) \<and> queue_frame (set qs \<union> set ds) w u \<and>
    (if tapdisk_queue_full (qw_q w) then queue_at c h0 u qs gs (ds @ [t]) else queue_at c h0 u (qs @ [t]) gs ds)"
proof (cases "tapdisk_queue_full (qw_q w)")
  case False
  then show ?thesis using queue_one [OF ok False t]
    by (auto simp: tapdisk_queue_tiocb_def queue_frame_def queued_state_def)
next
  case True
  note D = queue_atD [OF ok]
  show ?thesis
  proof (cases "ds = []")
    case Nil: True
    then show ?thesis using True D t
      by (simp add: tapdisk_queue_tiocb_def defer_tiocb_def vm_simps queue_at_def Let_def queue_frame_def)
  next
    case ne: False
    then obtain d where h: "tq_head (qw_q w) = Some d" "tq_tail (qw_q w) = Some (last ds)" using D(9,10) by (cases ds) auto
    let ?u = "w\<lparr>qw_next := (qw_next w)(last ds := Some t), qw_q := (qw_q w)\<lparr>tq_tail := Some t,
        tq_tiocbs_deferred := tq_tiocbs_deferred (qw_q w) + 1, tq_deferrals := tq_deferrals (qw_q w) + 1\<rparr>\<rparr>"
    have l: "last ds \<notin> set qs" using D(3) last_in_set [OF ne] by auto
    have "follows ((qw_next w)(last ds := Some t)) (ds @ [t])"
      using follows_link [of "qw_next w" ds "[]" t "[]"] ne D(3,11) t by auto
    moreover have "follows ((qw_next w)(last ds := Some t)) (qs @ ds @ [t])" if "follows (qw_next w) (qs @ ds)"
      using follows_link [of "qw_next w" "qs @ ds" "[]" t "[]"] that ne D(3) t by auto
    then have "follows ((qw_next w)(last ds := Some t)) qs \<or> follows ((qw_next w)(last ds := Some t)) (qs @ ds @ [t])"
      using D(13) follows_upd [OF l] by blast
    moreover have "(case ds @ [t] of [] \<Rightarrow> None | x # _ \<Rightarrow> Some x) = Some d" using h(1) D(9) by (cases ds) auto
    ultimately have "queue_at c h0 ?u qs gs (ds @ [t])" using D t ne h(1)
      by (simp add: queue_at_def Let_def del: fun_upd_apply)
    moreover have "tapdisk_queue_tiocb t w = (Inr (), ?u)" using True h
      by (simp add: tapdisk_queue_tiocb_def defer_tiocb_def vbind_def vmodify_def)
    moreover have "queue_frame (set qs \<union> set ds) w ?u" using last_in_set [OF ne] by (auto simp: queue_frame_def)
    ultimately show ?thesis using True by (intro exI [of _ ?u]) simp
  qed
qed

lemma deferred_loop_ok:
  assumes "queue_at c h0 w qs gs ds" and "tq_size (qw_q w) - int (length (ids_of gs) + c) - int (length qs) \<le> int k"
  shows "\<exists>u n. queue_deferred_loop k w = (Inr (), u) \<and> queue_at c h0 u (qs @ take n ds) gs (drop n ds) \<and> qw_done u = qw_done w \<and>
    tq_size (qw_q u) = tq_size (qw_q w) \<and> (drop n ds = [] \<or> tapdisk_queue_full (qw_q u))"
  using assms
proof (induction k arbitrary: w qs ds)
  case 0
  then have "tapdisk_queue_full (qw_q w)" using queue_full [OF 0(1)] by simp
  then show ?case using 0 by (intro exI [of _ w] exI [of _ 0]) simp
next
  case (Suc k)
  show ?case
  proof (cases "\<not> tapdisk_queue_full (qw_q w) \<and> ds \<noteq> []")
    case False
    then have "\<not> (\<not> tapdisk_queue_full (qw_q w) \<and> tq_head (qw_q w) \<noteq> None)" using queue_atD(9) [OF Suc.prems(1)] by auto
    then have "queue_deferred_loop (Suc k) w = (Inr (), w)" by (simp only: queue_deferred_loop.simps if_False)
    then show ?thesis using Suc.prems(1) False by (intro exI [of _ w] exI [of _ 0]) auto
  next
    case True
    then obtain t es where ds: "ds = t # es" by (cases ds) auto
    from deferred_one [OF Suc.prems(1) [unfolded ds]] True obtain v where
      v: "queue_deferred_tiocb w = (Inr (), v)" "queue_at c h0 v (qs @ [t]) gs es" "qw_done v = qw_done w"
        "tq_size (qw_q v) = tq_size (qw_q w)" by blast
    have "tq_size (qw_q v) - int (length (ids_of gs) + c) - int (length (qs @ [t])) \<le> int k" using Suc.prems(2) v(4) by simp
    from Suc.IH [OF v(2) this] obtain u n where
      u: "queue_deferred_loop k v = (Inr (), u)" "queue_at c h0 u ((qs @ [t]) @ take n es) gs (drop n es)" "qw_done u = qw_done v"
        "tq_size (qw_q u) = tq_size (qw_q v)" "drop n es = [] \<or> tapdisk_queue_full (qw_q u)" by blast
    have "queue_deferred_loop (Suc k) w = (Inr (), u)"
      using True queue_atD(9) [OF Suc.prems(1)] v(1) u(1) by (simp add: ds vbind_def)
    then show ?thesis using u v(3,4) ds by (intro exI [of _ u] exI [of _ "Suc n"]) simp
  qed
qed

lemma queue_deferred_ok:
  assumes "queue_at c h0 w qs gs ds"
  shows "\<exists>u n. queue_deferred_tiocbs w = (Inr (), u) \<and> queue_at c h0 u (qs @ take n ds) gs (drop n ds) \<and> qw_done u = qw_done w \<and>
    tq_size (qw_q u) = tq_size (qw_q w) \<and> (drop n ds = [] \<or> tapdisk_queue_full (qw_q u))"
  unfolding queue_deferred_tiocbs_def
  by (rule deferred_loop_ok [OF assms]) (use queue_atD(4,7) [OF assms] in simp)

section \<open>Submitting and completing\<close>

lemma with_opio_eq: "m (qw_os w) = (r, s) \<Longrightarrow> with_opio m w = (r, w\<lparr>qw_os := s\<rparr>)"
  by (simp add: with_opio_def)

lemma vthen_modify: "vthen (vmodify f) m s = m (f s)"
  by (simp add: vbind_def vmodify_def)

text \<open>Callbacks that queue nothing; what they queue later is an operation of its own.\<close>

definition idle :: "qprog \<Rightarrow> bool" where
  "idle prog \<longleftrightarrow> (\<forall>t e w. prog t e w = [])"

text \<open>What a completed request is reported with.\<close>

definition report :: "(nat \<Rightarrow> iocb) \<Rightarrow> nat \<times> u64 \<Rightarrow> nat \<times> int" where
  "report h0 ev = (fst ev, res_err (io_nbytes (h0 (fst ev))) (snd ev))"

lemma complete_idle:
  "idle prog \<Longrightarrow> os_io (qw_os w) t = h0 t \<Longrightarrow>
    complete_tiocb prog t r w = (Inr (), w\<lparr>qw_done := qw_done w @ [report h0 (t, r)]\<rparr>)"
  by (simp add: complete_tiocb_def idle_def vm_simps Let_def report_def)

lemma answers_ids: "map fst (answers h0 g r) = fst g"
  by (simp add: answers_def Let_def comp_def)

lemma answers_all_ids: "map fst (concat (map (\<lambda>(g, r). answers h0 g r) sel)) = ids_of (map fst sel)"
  by (induction sel) (auto simp: answers_ids)

subsection \<open>Submitting\<close>

lemma follows_drop: "follows nx (xs @ ys) \<Longrightarrow> follows nx ys"
  by (induction xs) (auto simp: follows_Cons)

text \<open>The walk of \<open>cancel_tiocbs\<close> completes what the links lead to.\<close>

lemma cancel_walk_ok:
  assumes p: "idle prog" and f: "follows (qw_next w) xs" and k: "length xs \<le> k"
    and io: "\<And>i. i \<in> set xs \<Longrightarrow> os_io (qw_os w) i = h0 i"
  shows "cancel_walk prog r k (chain_start xs) w = (Inr (), w\<lparr>qw_done := qw_done w @ map (\<lambda>i. report h0 (i, r)) xs\<rparr>)"
  using f k io
proof (induction xs arbitrary: w k)
  case Nil
  then show ?case by (cases k) (simp_all add: vret_def)
next
  case (Cons x xs)
  obtain j where k: "k = Suc j" using Cons.prems(2) by (cases k) auto
  let ?v = "w\<lparr>qw_done := qw_done w @ [report h0 (x, r)]\<rparr>"
  have "complete_tiocb prog x r w = (Inr (), ?v)" using complete_idle [OF p] Cons.prems(3) by simp
  moreover have "cancel_walk prog r j (chain_start xs) ?v = (Inr (), ?v\<lparr>qw_done := qw_done ?v @ map (\<lambda>i. report h0 (i, r)) xs\<rparr>)"
    by (rule Cons.IH) (use Cons.prems k in \<open>simp_all add: follows_Cons [of _ x]\<close>)
  moreover have "qw_next ?v x = chain_start xs" using Cons.prems(1) by (simp add: follows_Cons [of _ x])
  ultimately show ?case unfolding k by (simp add: vbind_def)
qed

text \<open>The error of a submit that took \<open>r\<close> of \<open>n\<close> requests.\<close>

definition submit_err :: "int \<Rightarrow> nat \<Rightarrow> int" where
  "submit_err r n = (if r < 0 then r else if r < int n then - EIO else 0)"

lemma submit_start:
  assumes ok: "queue_ok h0 w qs gs ds" and qs: "qs \<noteq> []"
  shows "\<exists>new s. ids_of new = qs \<and> (\<forall>g \<in> set new. joined h0 (fst g)) \<and> groups h0 (new @ gs) s \<and>
    with_opio (io_merge (take (tq_queued (qw_q w)) (tq_iocbs (qw_q w)))) w = (Inr (map (\<lambda>g. hd (fst g)) new), w\<lparr>qw_os := s\<rparr>)"
proof -
  note D = queue_okD [OF ok]
  have "distinct qs" "set qs \<inter> set (ids_of gs) = {}" using D(3) by auto
  from io_merge_ok [OF D(1) this] obtain new s where
    "io_merge qs (qw_os w) = (Inr (map (\<lambda>g. hd (fst g)) new), s)" "groups h0 (new @ gs) s" "ids_of new = qs"
    "\<forall>g \<in> set new. joined h0 (fst g)" by blast
  then show ?thesis using D(4,5) by (intro exI [of _ new] exI [of _ s]) (simp add: with_opio_def)
qed

lemma length_ids_le: "(\<forall>g \<in> set new. joined h0 (fst g)) \<Longrightarrow> length new \<le> length (ids_of new)"
proof (induction new)
  case (Cons g new)
  then have "1 \<le> length (fst g)" by (cases "fst g") (auto simp: joined_def)
  then show ?case using Cons by simp
qed simp

lemma put_front_fields:
  "tq_iocbs (put_front xs q) = xs @ drop (length xs) (tq_iocbs q)" "tq_queued (put_front xs q) = tq_queued q"
  "tq_size (put_front xs q) = tq_size q" "tq_tiocbs_pending (put_front xs q) = tq_tiocbs_pending q"
  "tq_head (put_front xs q) = tq_head q" "tq_tail (put_front xs q) = tq_tail q"
  "tq_tiocbs_deferred (put_front xs q) = tq_tiocbs_deferred q" "tq_iocbs_pending (put_front xs q) = tq_iocbs_pending q"
  by (simp_all add: put_front_def)

text \<open>The state after the kernel has answered \<open>r\<close>, before failures are dealt with.\<close>

definition submitted_state :: "nat list \<Rightarrow> int \<Rightarrow> int list \<Rightarrow> ostate \<Rightarrow> qworld \<Rightarrow> qworld" where
  "submitted_state merged r rs s w = w\<lparr>qw_os := s, qw_submit := rs, qw_q := (put_front merged (qw_q w))
     \<lparr>tq_iocbs_pending := tq_iocbs_pending (qw_q w) + (if r < 0 then 0 else r),
      tq_tiocbs_pending := tq_tiocbs_pending (qw_q w) + int (tq_queued (qw_q w)), tq_queued := 0\<rparr>\<rparr>"

lemma lio_submit_eq:
  assumes q: "tq_queued (qw_q w) \<noteq> 0" and r: "qw_submit w = r # rs"
    and m: "with_opio (io_merge (take (tq_queued (qw_q w)) (tq_iocbs (qw_q w)))) w = (Inr merged, w\<lparr>qw_os := s\<rparr>)"
  shows "tapdisk_lio_submit prog fuel w =
    vthen (if submit_err r (length merged) \<noteq> 0
           then vbind (fail_tiocbs prog fuel (nat (if r < 0 then 0 else r)) (length merged) (submit_err r (length merged)))
             (\<lambda>n. upd_q (\<lambda>q. q\<lparr>tq_tiocbs_pending := tq_tiocbs_pending q - n\<rparr>)) else vret ())
      (vret (if r < 0 then 0 else r)) (submitted_state merged r rs s w)"
proof -
  have sub: "io_submit_call (w\<lparr>qw_os := s, qw_q := put_front merged (qw_q w)\<rparr>) =
      (Inr r, w\<lparr>qw_os := s, qw_q := put_front merged (qw_q w), qw_submit := rs\<rparr>)"
    by (simp add: io_submit_call_def r)
  have st: "submitted_state merged r rs s w = w\<lparr>qw_os := s, qw_submit := rs, qw_q := (put_front merged (qw_q w))
     \<lparr>tq_iocbs_pending := tq_iocbs_pending (put_front merged (qw_q w)) + (if r < 0 then 0 else r),
      tq_tiocbs_pending := tq_tiocbs_pending (put_front merged (qw_q w)) + int (tq_queued (qw_q w)), tq_queued := 0\<rparr>\<rparr>"
    by (simp add: submitted_state_def put_front_fields)
  show ?thesis
    unfolding tapdisk_lio_submit_def Let_def if_not_P [OF q] st submit_err_def
      vbind_ok [where m = "with_opio (io_merge (take (tq_queued (qw_q w)) (tq_iocbs (qw_q w))))" and s = w, OF m]
    by (simp add: vthen_modify vbind_ok [where m = io_submit_call, OF sub])
qed

lemma cancel_eq:
  assumes "tq_queued (qw_q u) = n" and "n \<noteq> 0" and "tiocb_of (hd (tq_iocbs (qw_q u))) u = (Inr t, u)"
    and "cancel_walk prog (word_of_int e) fuel (Some t) (u\<lparr>qw_q := (qw_q u)\<lparr>tq_queued := 0\<rparr>\<rparr>) = (Inr (), z)"
  shows "cancel_tiocbs prog fuel e u = (Inr (int n), z)"
  using assms by (simp add: cancel_tiocbs_def vbind_def vmodify_def vret_def Let_def)

text \<open>Which requests a failed submit completes: the failed ones and, if the last request queued still
  has the link it had as a deferred request, all deferred ones.\<close>

definition stale :: "qworld \<Rightarrow> nat list \<Rightarrow> nat list \<Rightarrow> nat list" where
  "stale w qs ds = (if follows (qw_next w) qs then [] else ds)"

lemma fail_then:
  assumes "m v = (Inr n, z)"
  shows "vthen (vbind m (\<lambda>n. upd_q (\<lambda>q. q\<lparr>tq_tiocbs_pending := tq_tiocbs_pending q - n\<rparr>))) (vret c) v =
    (Inr c, z\<lparr>qw_q := (qw_q z)\<lparr>tq_tiocbs_pending := tq_tiocbs_pending (qw_q z) - n\<rparr>\<rparr>)"
  using assms by (simp add: vbind_def vmodify_def vret_def)

end
