(* ===== verification/Td_Queue_Callbacks.thy ===== *)
theory Td_Queue_Callbacks
  imports Td_Queue_Laws
begin

text \<open>
  Submitting and completing requests while the callbacks queue new ones. \<open>complete_events_ops\<close> and
  \<open>cancel_walk_ops\<close> are the two loops that call back, \<open>lio_event_ops\<close> and \<open>lio_submit_ops\<close> the operations
  around them: the counters are those at the moment of the callbacks, so that a request queued by a
  callback of a failed submit still finds the failed requests counted, and one queued by a callback of
  a completion does not. \<open>lio_submit_stale\<close> is the submit whose last request still has the link it had
  in the deferred list.
\<close>

section \<open>Callbacks that queue requests\<close>

text \<open>
  A callback usually goes on with the next request. \<open>ops t e\<close> is what the callback of request \<open>t\<close> queues
  when it is told the result \<open>e\<close>; \<open>room\<close> more requests fit into the queue, the others are deferred.
\<close>

fun op_id :: "qop \<Rightarrow> nat" where
  "op_id (Q_queue t fd rw buf sz off) = t"

fun op_prep :: "qop \<Rightarrow> (nat \<Rightarrow> iocb) \<Rightarrow> nat \<Rightarrow> iocb" where
  "op_prep (Q_queue t fd rw buf sz off) h0 = h0(t := prepared t fd rw buf sz off)"

definition prep_all :: "qop list \<Rightarrow> (nat \<Rightarrow> iocb) \<Rightarrow> nat \<Rightarrow> iocb" where
  "prep_all cs h0 = fold op_prep cs h0"

definition room_of :: "nat \<Rightarrow> qworld \<Rightarrow> nat list \<Rightarrow> group list \<Rightarrow> nat" where
  "room_of c w qs gs = nat (tq_size (qw_q w)) - length qs - length (ids_of gs) - c"

lemma prep_all_simps [simp]: "prep_all [] h0 = h0" "prep_all (c # cs) h0 = prep_all cs (op_prep c h0)"
  "prep_all (cs @ ds) h0 = prep_all ds (prep_all cs h0)"
  by (simp_all add: prep_all_def)

lemma prep_all_other: "i \<notin> set (map op_id cs) \<Longrightarrow> prep_all cs h0 i = h0 i"
proof (induction cs arbitrary: h0)
  case (Cons c cs)
  then show ?case by (cases c) simp
qed simp

lemma queue_frame_refl: "queue_frame A w w"
  by (simp add: queue_frame_def)

lemma run_qops_ok:
  assumes "queue_at c h0 w qs gs ds" and "distinct (qs @ ids_of gs @ ds @ map op_id cs)"
  shows "\<exists>u. run_qops cs w = (Inr (), u) \<and> queue_frame (set qs \<union> set ds \<union> set (map op_id cs)) w u \<and>
    queue_at c (prep_all cs h0) u (qs @ take (room_of c w qs gs) (map op_id cs)) gs (ds @ drop (room_of c w qs gs) (map op_id cs))"
  using assms
proof (induction cs arbitrary: h0 w qs ds)
  case Nil
  then show ?case by (intro exI [of _ w]) (simp add: vret_def queue_frame_refl)
next
  case (Cons a cs)
  obtain t fd rw buf sz off where a: "a = Q_queue t fd rw buf sz off" by (cases a)
  have t: "t \<notin> set qs" "t \<notin> set (ids_of gs)" "t \<notin> set ds" using Cons.prems(2) by (auto simp: a)
  let ?h = "h0(t := prepared t fd rw buf sz off)"
  from prep_ok [OF Cons.prems(1) t] obtain v where
    v: "tapdisk_prep_tiocb t fd rw buf sz off w = (Inr (), v)" "queue_at c ?h v qs gs ds" "qw_next v t = None"
      "qw_q v = qw_q w" "queue_frame {t} w v" by blast
  let ?C = "set qs \<union> set ds \<union> set (map op_id (a # cs))"
  from queue_tiocb_ok [OF v(2) t v(3)] obtain x where
    x: "tapdisk_queue_tiocb t v = (Inr (), x)" "queue_frame (set qs \<union> set ds) v x"
      "if tapdisk_queue_full (qw_q v) then queue_at c ?h x qs gs (ds @ [t]) else queue_at c ?h x (qs @ [t]) gs ds" by blast
  have kx: "queue_frame ?C w x" by (rule queue_frame_trans [OF v(5) x(2)]) (auto simp: a)
  have sz: "tq_size (qw_q x) = tq_size (qw_q w)" "tq_size (qw_q v) = tq_size (qw_q w)"
    using kx v(4) by (simp_all add: queue_frame_def)
  have run: "run_qops (a # cs) w = run_qops cs x" by (simp add: a vbind_def v(1) x(1))
  show ?case
  proof (cases "tapdisk_queue_full (qw_q v)")
    case True
    then have r0: "room_of c w qs gs = 0" "room_of c x qs gs = 0"
      using queue_full [OF v(2)] sz by (simp_all add: room_of_def)
    have "distinct (qs @ ids_of gs @ (ds @ [t]) @ map op_id cs)" using Cons.prems(2) by (auto simp: a)
    from Cons.IH [of ?h x qs "ds @ [t]", OF _ this] x(3) True obtain u where
      u: "run_qops cs x = (Inr (), u)" "queue_frame (set qs \<union> set (ds @ [t]) \<union> set (map op_id cs)) x u"
        "queue_at c (prep_all cs ?h) u qs gs ((ds @ [t]) @ map op_id cs)" by (auto simp: r0 simp del: fun_upd_apply)
    have "queue_frame ?C w u" by (rule queue_frame_trans [OF kx u(2)]) (auto simp: a)
    then show ?thesis using u(1,3) by (intro exI [of _ u]) (simp add: run [unfolded a] r0 a del: run_qops.simps)
  next
    case False
    then obtain m where r: "room_of c w qs gs = Suc m" "room_of c x (qs @ [t]) gs = m"
      using queue_full [OF v(2)] sz by (cases "room_of c w qs gs") (auto simp: room_of_def)
    have "distinct ((qs @ [t]) @ ids_of gs @ ds @ map op_id cs)" using Cons.prems(2) by (auto simp: a)
    from Cons.IH [of ?h x "qs @ [t]" ds, OF _ this] x(3) False obtain u where
      u: "run_qops cs x = (Inr (), u)" "queue_frame (set (qs @ [t]) \<union> set ds \<union> set (map op_id cs)) x u"
        "queue_at c (prep_all cs ?h) u ((qs @ [t]) @ take m (map op_id cs)) gs (ds @ drop m (map op_id cs))" by (auto simp: r simp del: fun_upd_apply)
    have "queue_frame ?C w u" by (rule queue_frame_trans [OF kx u(2)]) (auto simp: a)
    then show ?thesis using u(1,3) by (intro exI [of _ u]) (simp add: run [unfolded a] r a del: run_qops.simps)
  qed
qed

text \<open>The requests queued by the callbacks of a list of completed requests.\<close>

definition queued_by :: "(nat \<Rightarrow> int \<Rightarrow> qop list) \<Rightarrow> (nat \<times> int) list \<Rightarrow> qop list" where
  "queued_by ops reps = concat (map (\<lambda>(t, e). ops t e) reps)"

text \<open>No callback queues a request that is still to be completed in the same round.\<close>

fun careful :: "(nat \<Rightarrow> int \<Rightarrow> qop list) \<Rightarrow> (nat \<times> int) list \<Rightarrow> bool" where
  "careful ops [] \<longleftrightarrow> True"
| "careful ops ((t, e) # reps) \<longleftrightarrow> set (map op_id (ops t e)) \<inter> set (map fst reps) = {} \<and> careful ops reps"

lemma queued_by_simps [simp]: "queued_by ops [] = []" "queued_by ops (r # reps) = ops (fst r) (snd r) @ queued_by ops reps"
  by (simp_all add: queued_by_def split_beta)

lemma careful_Cons: "careful ops (r # reps) \<longleftrightarrow> set (map op_id (ops (fst r) (snd r))) \<inter> set (map fst reps) = {} \<and> careful ops reps"
  by (cases r) simp

lemma report_other: "i \<notin> set (map op_id cs) \<Longrightarrow> report (prep_all cs h0) (i, r) = report h0 (i, r)"
  by (simp add: report_def prep_all_other del: set_map)

lemma complete_tiocb_ok:
  assumes p: "\<And>v. prog t e v = ops t e" and ok: "queue_at c h0 w qs gs ds" and io: "os_io (qw_os w) t = h0 t"
    and e: "report h0 (t, r) = (t, e)" and dis: "distinct (qs @ ids_of gs @ ds @ map op_id (ops t e))"
  shows "\<exists>u. complete_tiocb prog t r w = (Inr (), u) \<and> qw_done u = qw_done w @ [(t, e)] \<and>
    queue_frame (set qs \<union> set ds \<union> set (map op_id (ops t e))) (w\<lparr>qw_done := qw_done w @ [(t, e)]\<rparr>) u \<and>
    queue_at c (prep_all (ops t e) h0) u (qs @ take (room_of c w qs gs) (map op_id (ops t e))) gs
      (ds @ drop (room_of c w qs gs) (map op_id (ops t e)))"
proof -
  let ?w = "w\<lparr>qw_done := qw_done w @ [(t, e)]\<rparr>"
  have "queue_at c h0 ?w qs gs ds" using ok by (simp add: queue_at_def)
  from run_qops_ok [OF this dis] obtain u where
    u: "run_qops (ops t e) ?w = (Inr (), u)" "queue_frame (set qs \<union> set ds \<union> set (map op_id (ops t e))) ?w u"
      "queue_at c (prep_all (ops t e) h0) u (qs @ take (room_of c ?w qs gs) (map op_id (ops t e))) gs
        (ds @ drop (room_of c ?w qs gs) (map op_id (ops t e)))" by blast
  have "res_err (io_nbytes (os_io (qw_os w) t)) r = e" using e io by (simp add: report_def)
  then have "complete_tiocb prog t r w = run_qops (ops t e) ?w"
    by (simp add: complete_tiocb_def Let_def vbind_def vmodify_def p)
  with u show ?thesis by (intro exI [of _ u]) (auto simp: queue_frame_def room_of_def)
qed

lemma complete_events_ops:
  assumes p: "\<And>t e v. prog t e v = ops t e" and ok: "queue_at c h0 w qs gs ds"
    and "set (map fst evs) \<inter> set (qs @ ids_of gs @ ds) = {}" and "careful ops (map (report h0) evs)"
    and "distinct (qs @ ids_of gs @ ds @ map op_id (queued_by ops (map (report h0) evs)))"
  shows "\<exists>u. complete_events prog evs w = (Inr (), u) \<and> qw_done u = qw_done w @ map (report h0) evs \<and>
    tq_size (qw_q u) = tq_size (qw_q w) \<and>
    queue_at c (prep_all (queued_by ops (map (report h0) evs)) h0) u
      (qs @ take (room_of c w qs gs) (map op_id (queued_by ops (map (report h0) evs)))) gs
      (ds @ drop (room_of c w qs gs) (map op_id (queued_by ops (map (report h0) evs))))"
  using assms(2-)
proof (induction evs arbitrary: h0 w qs ds)
  case Nil
  then show ?case by (simp add: vret_def)
next
  case (Cons ev evs)
  obtain t r where ev: "ev = (t, r)" by (cases ev)
  obtain e where e: "report h0 (t, r) = (t, e)" by (simp add: report_def)
  let ?ys = "map op_id (ops t e)" and ?reps = "map (report h0) evs" and ?m = "room_of c w qs gs"
  let ?zs = "map op_id (queued_by ops ?reps)"
  have tg: "t \<notin> set (ids_of gs)" using Cons.prems(2) by (auto simp: ev)
  have io: "os_io (qw_os w) t = h0 t" by (rule group_tiocb [OF queue_atD(1) [OF Cons.prems(1)] tg])
  have fst_reps: "map fst ?reps = map fst evs" by (simp add: report_def comp_def)
  have dall: "distinct (qs @ ids_of gs @ ds @ ?ys @ ?zs)" using Cons.prems(4) by (simp add: ev e)
  then have dis: "distinct (qs @ ids_of gs @ ds @ ?ys)" unfolding append_assoc [symmetric] distinct_append by blast
  have care: "set ?ys \<inter> set (map fst evs) = {}" "careful ops ?reps"
    using Cons.prems(3) unfolding fst_reps [symmetric] by (simp_all add: ev e)
  from complete_tiocb_ok [where ops = ops and prog = prog, OF p Cons.prems(1) io e dis] obtain v where
    v: "complete_tiocb prog t r w = (Inr (), v)" "qw_done v = qw_done w @ [(t, e)]"
      "queue_frame (set qs \<union> set ds \<union> set ?ys) (w\<lparr>qw_done := qw_done w @ [(t, e)]\<rparr>) v"
      "queue_at c (prep_all (ops t e) h0) v (qs @ take ?m ?ys) gs (ds @ drop ?m ?ys)" by blast
  have sz: "tq_size (qw_q v) = tq_size (qw_q w)" using v(3) by (simp add: queue_frame_def)
  have room: "room_of c v (qs @ take ?m ?ys) gs = ?m - length ?ys" by (simp add: room_of_def sz)
  have reps: "map (report (prep_all (ops t e) h0)) evs = ?reps"
  proof (rule map_cong [OF refl])
    fix x assume "x \<in> set evs"
    then have "fst x \<in> set (map fst evs)" by simp
    then have "fst x \<notin> set ?ys" using care(1) by blast
    then show "report (prep_all (ops t e) h0) x = report h0 x" using report_other [of "fst x" "ops t e" h0 "snd x"] by simp
  qed
  have ms: "mset ?ys = mset (take ?m ?ys) + mset (drop ?m ?ys)" by (metis append_take_drop_id mset_append)
  have "mset ((qs @ take ?m ?ys) @ ids_of gs @ (ds @ drop ?m ?ys) @ ?zs) = mset (qs @ ids_of gs @ ds @ ?ys @ ?zs)"
    by (simp add: ms del: mset_map)
  then have dz: "distinct ((qs @ take ?m ?ys) @ ids_of gs @ (ds @ drop ?m ?ys) @ ?zs)"
    using dall mset_eq_imp_distinct_iff by blast
  have de: "set (map fst evs) \<inter> set ((qs @ take ?m ?ys) @ ids_of gs @ (ds @ drop ?m ?ys)) = {}"
    using Cons.prems(2) care(1) set_take_subset [of ?m ?ys] set_drop_subset [of ?m ?ys] by auto
  from Cons.IH [OF v(4) de, unfolded reps, OF care(2) dz] obtain u where
    u: "complete_events prog evs v = (Inr (), u)" "qw_done u = qw_done v @ ?reps" "tq_size (qw_q u) = tq_size (qw_q v)"
      "queue_at c (prep_all (queued_by ops ?reps) (prep_all (ops t e) h0)) u
        ((qs @ take ?m ?ys) @ take (?m - length ?ys) ?zs) gs ((ds @ drop ?m ?ys) @ drop (?m - length ?ys) ?zs)"
    unfolding room by blast
  have tio: "tiocb_of t w = (Inr t, w)" using io queue_atD(2) [OF Cons.prems(1)] by (simp add: tiocb_of_def)
  have "complete_events prog (ev # evs) w = (Inr (), u)" by (simp add: ev vbind_def tio v(1) u(1))
  then show ?case using u(2-4) v(2) sz by (intro exI [of _ u]) (simp add: ev e)
qed

section \<open>Completing\<close>

text \<open>Completed requests are taken out of the kernel's groups and reported, what their callbacks queue is
  queued or deferred, and deferred ones move up.\<close>

lemma room_of_simp: "qw_q u = (qw_q w)\<lparr>tq_iocbs_pending := x, tq_tiocbs_pending := y\<rparr> \<Longrightarrow> room_of c u qs gs = room_of c w qs gs"
  by (simp add: room_of_def)

lemma lio_event_ops:
  assumes ok: "queue_ok h0 w qs gs ds" and p: "\<And>t e v. prog t e v = ops t e" and sel: "mset gs = mset (map fst sel @ gs')"
    and ev: "qw_events w = (int (length sel), map (\<lambda>(g, r). (hd (fst g), r)) sel) # es"
    and reps: "reps = map (report h0) (concat (map (\<lambda>(g, r). answers h0 g r) sel))" and care: "careful ops reps"
    and dnew: "distinct (qs @ ids_of gs' @ ds @ map op_id (queued_by ops reps))"
    and late: "late = ds @ drop (room_of 0 w qs gs') (map op_id (queued_by ops reps))"
  shows "\<exists>u n. tapdisk_lio_event prog w = (Inr (), u) \<and>
    queue_ok (prep_all (queued_by ops reps) h0) u
      (qs @ take (room_of 0 w qs gs') (map op_id (queued_by ops reps)) @ take n late) gs' (drop n late) \<and>
    (drop n late = [] \<or> tapdisk_queue_full (qw_q u)) \<and> tq_size (qw_q u) = tq_size (qw_q w) \<and> qw_done u = qw_done w @ reps"
proof -
  note D = queue_okD [OF ok]
  let ?evs = "map (\<lambda>(g, r). (hd (fst g), r)) sel" and ?ans = "concat (map (\<lambda>(g, r). answers h0 g r) sel)"
  let ?ys = "map op_id (queued_by ops reps)" and ?m = "room_of 0 w qs gs'"
  have g: "groups h0 (map fst sel @ gs') (qw_os w)" by (rule world_perm [OF D(1) sel])
  from split_events_ok [OF g] obtain s where
    s: "split_events ?evs (qw_os w) = (Inr ?ans, s)" "groups h0 gs' s" by blast
  have ids: "mset (ids_of gs) = mset (ids_of (map fst sel)) + mset (ids_of gs')"
    using mset_ids [OF sel] by simp
  have len: "length (ids_of gs) = length ?ans + length (ids_of gs')"
    using arg_cong [OF ids, of size] arg_cong [OF answers_all_ids [of h0 sel], of length] by simp
  have dist: "distinct (qs @ ids_of gs' @ ds)" "set (map fst ?ans) \<inter> set (qs @ ids_of gs' @ ds) = {}"
  proof -
    have "mset (qs @ ids_of gs @ ds) = mset ((ids_of (map fst sel)) @ (qs @ ids_of gs' @ ds))" using ids by simp
    then have "distinct ((ids_of (map fst sel)) @ (qs @ ids_of gs' @ ds))" using D(3) mset_eq_imp_distinct_iff by blast
    then show "distinct (qs @ ids_of gs' @ ds)" "set (map fst ?ans) \<inter> set (qs @ ids_of gs' @ ds) = {}"
      unfolding answers_all_ids by auto
  qed
  let ?v = "w\<lparr>qw_events := es, qw_os := s, qw_q := (qw_q w)\<lparr>tq_iocbs_pending := tq_iocbs_pending (qw_q w) - int (length sel),
      tq_tiocbs_pending := tq_tiocbs_pending (qw_q w) - int (length ?ans)\<rparr>\<rparr>"
  have v: "queue_at 0 h0 ?v qs gs' ds"
    using D s(2) dist(1) len by (simp add: queue_at_def Let_def)
  have r: "room_of 0 ?v qs gs' = ?m" by (simp add: room_of_def)
  from complete_events_ops [where prog = prog and ops = ops, OF p v dist(2) care [unfolded reps] dnew [unfolded reps],
      folded reps, unfolded r] obtain x where
    x: "complete_events prog ?ans ?v = (Inr (), x)" "qw_done x = qw_done w @ reps" "tq_size (qw_q x) = tq_size (qw_q w)"
      "queue_at 0 (prep_all (queued_by ops reps) h0) x (qs @ take ?m ?ys) gs' late"
    unfolding late by auto
  from queue_deferred_ok [OF x(4)] obtain u n where
    u: "queue_deferred_tiocbs x = (Inr (), u)"
      "queue_ok (prep_all (queued_by ops reps) h0) u ((qs @ take ?m ?ys) @ take n late) gs' (drop n late)" "qw_done u = qw_done x"
      "tq_size (qw_q u) = tq_size (qw_q x)" "drop n late = [] \<or> tapdisk_queue_full (qw_q u)" unfolding queue_ok_def by blast
  have ge: "io_getevents_call w = (Inr (int (length sel), ?evs), w\<lparr>qw_events := es\<rparr>)"
    by (simp add: io_getevents_call_def ev)
  have sp: "with_opio (io_split ?evs (int (length sel))) (w\<lparr>qw_events := es\<rparr>) = (Inr ?ans, w\<lparr>qw_events := es, qw_os := s\<rparr>)"
    using s(1) by (simp add: with_opio_def io_split_def)
  have "tapdisk_lio_event prog w = vthen (complete_events prog ?ans) queue_deferred_tiocbs ?v"
    unfolding tapdisk_lio_event_def vbind_ok [where m = io_getevents_call and s = w, OF ge] prod.case
      vbind_ok [where m = "with_opio (io_split ?evs (int (length sel)))", OF sp]
    by (simp add: vthen_modify)
  also have "\<dots> = (Inr (), u)" by (simp add: vbind_def x(1) u(1))
  finally show ?thesis using u x(2,3) by (intro exI [of _ u] exI [of _ n]) simp
qed

text \<open>The walk over the failed requests: their links are read after their callbacks.\<close>

lemma cancel_walk_ops:
  assumes p: "\<And>t e v. prog t e v = ops t e" and "queue_at c h0 w qs gs ds" and "follows (qw_next w) xs" and "length xs \<le> k"
    and "distinct (xs @ qs @ ids_of gs @ ds @ map op_id (queued_by ops (map (\<lambda>i. report h0 (i, r)) xs)))"
  shows "\<exists>u. cancel_walk prog r k (chain_start xs) w = (Inr (), u) \<and> qw_done u = qw_done w @ map (\<lambda>i. report h0 (i, r)) xs \<and>
    tq_size (qw_q u) = tq_size (qw_q w) \<and>
    queue_at c (prep_all (queued_by ops (map (\<lambda>i. report h0 (i, r)) xs)) h0) u
      (qs @ take (room_of c w qs gs) (map op_id (queued_by ops (map (\<lambda>i. report h0 (i, r)) xs)))) gs
      (ds @ drop (room_of c w qs gs) (map op_id (queued_by ops (map (\<lambda>i. report h0 (i, r)) xs))))"
  using assms(2-)
proof (induction xs arbitrary: h0 w qs ds k)
  case Nil
  then show ?case by (cases k) (simp_all add: vret_def)
next
  case (Cons t xs)
  obtain j where k: "k = Suc j" "length xs \<le> j" using Cons.prems(3) by (cases k) auto
  obtain e where e: "report h0 (t, r) = (t, e)" by (simp add: report_def)
  let ?ys = "map op_id (ops t e)" and ?reps = "map (\<lambda>i. report h0 (i, r)) xs" and ?m = "room_of c w qs gs"
  let ?zs = "map op_id (queued_by ops ?reps)"
  have yz: "map op_id (queued_by ops (map (\<lambda>i. report h0 (i, r)) (t # xs))) = ?ys @ ?zs" by (simp add: e)
  have dall: "distinct ((t # xs) @ qs @ ids_of gs @ ds @ ?ys @ ?zs)" using Cons.prems(4) unfolding yz .
  then have "distinct ((t # xs) @ (qs @ ids_of gs @ ds @ ?ys) @ ?zs)" by (simp only: append_assoc)
  note d2 = this [unfolded distinct_append [of "t # xs"] distinct_append [of "qs @ ids_of gs @ ds @ ?ys"]]
  have dis: "distinct (qs @ ids_of gs @ ds @ ?ys)" using d2 by blast
  have ty: "set (t # xs) \<inter> set (qs @ ids_of gs @ ds @ ?ys) = {}"
    using d2 by (simp only: set_append [of "qs @ ids_of gs @ ds @ ?ys"] Int_Un_distrib Un_empty)
  have tn: "i \<notin> set qs" "i \<notin> set (ids_of gs)" "i \<notin> set ds" "i \<notin> set ?ys" if "i \<in> set (t # xs)" for i
    using ty that by (simp_all only: set_append Int_Un_distrib Un_empty disjoint_iff) blast+
  have io: "os_io (qw_os w) t = h0 t" by (rule group_tiocb [OF queue_atD(1) [OF Cons.prems(1)] tn(2)]) simp
  from complete_tiocb_ok [where ops = ops and prog = prog, OF p Cons.prems(1) io e dis] obtain v where
    v: "complete_tiocb prog t r w = (Inr (), v)" "qw_done v = qw_done w @ [(t, e)]"
      "queue_frame (set qs \<union> set ds \<union> set ?ys) (w\<lparr>qw_done := qw_done w @ [(t, e)]\<rparr>) v"
      "queue_at c (prep_all (ops t e) h0) v (qs @ take ?m ?ys) gs (ds @ drop ?m ?ys)" by blast
  have sz: "tq_size (qw_q v) = tq_size (qw_q w)" using v(3) by (simp add: queue_frame_def)
  have room: "room_of c v (qs @ take ?m ?ys) gs = ?m - length ?ys" by (simp add: room_of_def sz)
  have nx: "qw_next v i = qw_next w i" if "i \<in> set (t # xs)" for i
  proof -
    have "i \<notin> set qs \<union> set ds \<union> set ?ys" using tn [OF that] by blast
    then show ?thesis using v(3) unfolding queue_frame_def by simp
  qed
  have f: "follows (qw_next w) xs" "qw_next w t = chain_start xs"
    using Cons.prems(2) by (simp_all add: follows_Cons [of _ t])
  then have fv: "follows (qw_next v) xs" "qw_next v t = chain_start xs"
    using follows_cong [of xs "qw_next v" "qw_next w"] nx by simp_all
  have reps: "map (\<lambda>i. report (prep_all (ops t e) h0) (i, r)) xs = ?reps"
  proof (rule map_cong [OF refl])
    fix x assume "x \<in> set xs"
    then have "x \<notin> set ?ys" using tn(4) by simp
    then show "report (prep_all (ops t e) h0) (x, r) = report h0 (x, r)" by (rule report_other)
  qed
  have ms: "mset ?ys = mset (take ?m ?ys) + mset (drop ?m ?ys)" by (metis append_take_drop_id mset_append)
  have "mset (xs @ (qs @ take ?m ?ys) @ ids_of gs @ (ds @ drop ?m ?ys) @ ?zs) = mset (xs @ qs @ ids_of gs @ ds @ ?ys @ ?zs)"
    by (simp add: ms del: mset_map)
  moreover have "distinct (xs @ qs @ ids_of gs @ ds @ ?ys @ ?zs)" using dall unfolding append_Cons distinct.simps by blast
  ultimately have dz: "distinct (xs @ (qs @ take ?m ?ys) @ ids_of gs @ (ds @ drop ?m ?ys) @ ?zs)"
    using mset_eq_imp_distinct_iff by blast
  from Cons.IH [OF v(4) fv(1) k(2), unfolded reps, OF dz] obtain u where
    u: "cancel_walk prog r j (chain_start xs) v = (Inr (), u)" "qw_done u = qw_done v @ ?reps" "tq_size (qw_q u) = tq_size (qw_q v)"
      "queue_at c (prep_all (queued_by ops ?reps) (prep_all (ops t e) h0)) u
        ((qs @ take ?m ?ys) @ take (?m - length ?ys) ?zs) gs ((ds @ drop ?m ?ys) @ drop (?m - length ?ys) ?zs)"
    unfolding room by blast
  have "cancel_walk prog r k (chain_start (t # xs)) w = (Inr (), u)" by (simp add: k(1) vbind_def v(1) fv(2) u(1))
  then show ?case using u(2-4) v(2) sz by (intro exI [of _ u]) (simp add: e)
qed

section \<open>Submitting\<close>

lemma fail_tiocbs_walk:
  assumes g: "groups h0 (bad @ gs) (qw_os v)" and d: "\<And>i. io_data (h0 i) = Tio i"
    and ex: "drop k (take n (tq_iocbs (qw_q v))) = map (\<lambda>g. hd (fst g)) bad"
    and ne: "ids_of bad \<noteq> []" and nin: "set (ids_of bad) \<inter> set (ids_of gs) = {}"
  shows "\<exists>s. groups h0 gs s \<and> (\<forall>z. cancel_walk prog (word_of_int e) fuel (chain_start (ids_of bad))
      (v\<lparr>qw_os := s, qw_q := (put_front (ids_of bad) (qw_q v))\<lparr>tq_queued := 0\<rparr>\<rparr>) = (Inr (), z) \<longrightarrow>
    fail_tiocbs prog fuel k n e v = (Inr (int (length (ids_of bad))), z))"
proof -
  let ?b = "ids_of bad"
  from expand_iocbs_ok [OF g] obtain s where
    s: "expand_iocbs (map (\<lambda>g. hd (fst g)) bad) (qw_os v) = (Inr ?b, s)" "groups h0 gs s" by blast
  have ex': "with_opio (io_expand_iocbs (tq_iocbs (qw_q v)) k n) v = (Inr ?b, v\<lparr>qw_os := s\<rparr>)"
    by (simp add: with_opio_def io_expand_iocbs_def ex s(1))
  let ?u = "v\<lparr>qw_os := s, qw_q := (put_front ?b (qw_q v))\<lparr>tq_queued := length ?b\<rparr>\<rparr>"
  have hd: "hd (?b @ ys) = hd ?b" for ys using ne by (cases ?b) simp_all
  have tio: "tiocb_of (hd (tq_iocbs (qw_q ?u))) ?u = (Inr (hd ?b), ?u)"
  proof -
    have "hd ?b \<notin> set (ids_of gs)" using hd_in_set [OF ne] nin by blast
    then have "os_io s (hd ?b) = h0 (hd ?b)" by (rule group_tiocb [OF s(2)])
    then show ?thesis by (simp add: tiocb_of_def put_front_def hd d del: concat.simps)
  qed
  have st: "chain_start ?b = Some (hd ?b)" using ne by (cases ?b) simp_all
  have "fail_tiocbs prog fuel k n e v = (Inr (int (length ?b)), z)"
    if walk: "cancel_walk prog (word_of_int e) fuel (chain_start ?b)
      (v\<lparr>qw_os := s, qw_q := (put_front ?b (qw_q v))\<lparr>tq_queued := 0\<rparr>\<rparr>) = (Inr (), z)" for z
  proof -
    have "cancel_tiocbs prog fuel e ?u = (Inr (int (length ?b)), z)"
      by (rule cancel_eq [OF _ _ tio]) (use ne walk [unfolded st] in simp_all)
    then show ?thesis
      unfolding fail_tiocbs_def vbind_ok [where m = "with_opio (io_expand_iocbs (tq_iocbs (qw_q v)) k n)" and s = v, OF ex']
      by (simp add: vthen_modify)
  qed
  with s(2) show ?thesis by blast
qed

text \<open>The last step of a failed submit: the failed requests are no longer counted.\<close>

lemma queue_at_end:
  assumes "queue_at c h0 z qs gs ds"
  shows "queue_ok h0 (z\<lparr>qw_q := (qw_q z)\<lparr>tq_tiocbs_pending := tq_tiocbs_pending (qw_q z) - int c\<rparr>\<rparr>) qs gs ds"
  using assms by (simp add: queue_ok_def queue_at_def Let_def)

text \<open>A submit up to the walk over the failed requests, and what is left to do after it.\<close>

lemma submit_walk:
  assumes ok: "queue_ok h0 w qs gs ds" and qs: "qs \<noteq> []" and r: "qw_submit w = r # rs"
  shows "\<exists>new. ids_of new = qs \<and> (\<forall>g \<in> set new. joined h0 (fst g)) \<and>
    (r = int (length new) \<longrightarrow> (\<exists>u. tapdisk_lio_submit prog fuel w = (Inr r, u) \<and> queue_ok h0 u [] (new @ gs) ds \<and>
       tq_size (qw_q u) = tq_size (qw_q w) \<and> qw_done u = qw_done w)) \<and>
    (r < int (length new) \<longrightarrow> (\<exists>x. queue_at (length (ids_of (drop (nat r) new))) h0 x [] (take (nat r) new @ gs) ds \<and>
       qw_next x = qw_next w \<and> qw_done x = qw_done w \<and> tq_size (qw_q x) = tq_size (qw_q w) \<and> ids_of (drop (nat r) new) \<noteq> [] \<and>
       (\<forall>z. cancel_walk prog (word_of_int (if r < 0 then r else - EIO)) fuel (chain_start (ids_of (drop (nat r) new))) x = (Inr (), z) \<longrightarrow>
         tapdisk_lio_submit prog fuel w = (Inr (max 0 r), z\<lparr>qw_q := (qw_q z)\<lparr>tq_tiocbs_pending :=
           tq_tiocbs_pending (qw_q z) - int (length (ids_of (drop (nat r) new)))\<rparr>\<rparr>))))"
proof -
  note D = queue_okD [OF ok]
  from submit_start [OF ok qs] obtain new s where
    new: "ids_of new = qs" "\<forall>g \<in> set new. joined h0 (fst g)" "groups h0 (new @ gs) s" and
    m: "with_opio (io_merge (take (tq_queued (qw_q w)) (tq_iocbs (qw_q w)))) w = (Inr (map (\<lambda>g. hd (fst g)) new), w\<lparr>qw_os := s\<rparr>)"
    by blast
  let ?m = "map (\<lambda>g. hd (fst g)) new"
  let ?v = "submitted_state ?m r rs s w"
  have q: "tq_queued (qw_q w) \<noteq> 0" using D(4) qs by simp
  note E = lio_submit_eq [OF q r m, of prog fuel]
  have len: "length new \<le> length qs" using length_ids_le [OF new(2)] new(1) by simp
  then have arr: "int (length (tq_iocbs (qw_q ?v))) = tq_size (qw_q ?v)"
    using D(6,8) by (simp add: submitted_state_def put_front_fields)
  show ?thesis
  proof (intro exI [of _ new] conjI impI new(1,2))
    assume e: "r = int (length new)"
    have "queue_ok h0 ?v [] (new @ gs) ds"
      using D new arr by (simp add: queue_ok_def queue_at_def Let_def) (auto simp: submitted_state_def put_front_fields)
    moreover have "tapdisk_lio_submit prog fuel w = (Inr r, ?v)"
      unfolding E by (simp add: e submit_err_def vbind_def vret_def)
    ultimately show "\<exists>u. tapdisk_lio_submit prog fuel w = (Inr r, u) \<and> queue_ok h0 u [] (new @ gs) ds \<and>
        tq_size (qw_q u) = tq_size (qw_q w) \<and> qw_done u = qw_done w"
      by (intro exI [of _ ?v]) (simp add: submitted_state_def put_front_fields)
  next
    assume lt: "r < int (length new)"
    let ?k = "nat r" and ?e = "if r < 0 then r else - EIO"
    let ?bad = "drop ?k new" and ?good = "take ?k new"
    have ids: "ids_of ?good @ ids_of ?bad = qs"
      using new(1) by (metis append_take_drop_id concat_append map_append)
    have "new \<noteq> []" using new(1) qs by auto
    then have "?bad \<noteq> []" using lt by (cases "r < 0") simp_all
    then obtain b bs where b: "?bad = b # bs" by (cases ?bad) auto
    then have "b \<in> set new" by (metis in_set_dropD list.set_intros(1))
    then have ne: "ids_of ?bad \<noteq> []" using new(2) b by (simp add: joined_def)
    have g: "groups h0 (?bad @ ?good @ gs) (qw_os ?v)"
    proof -
      have "mset (new @ gs) = mset (?bad @ ?good @ gs)"
        by (metis append_take_drop_id mset_append add.assoc add.commute)
      from world_perm [OF new(3) this] show ?thesis by (simp add: submitted_state_def)
    qed
    have dq: "distinct (ids_of ?good @ ids_of ?bad @ ids_of gs @ ds)"
      using D(3) unfolding ids [symmetric] append_assoc .
    then have nin: "set (ids_of ?bad) \<inter> set (ids_of (?good @ gs)) = {}"
      unfolding map_append concat_append set_append distinct_append by blast
    have il: "length (ids_of ?good) + length (ids_of ?bad) = length qs"
      unfolding length_append [symmetric] ids ..
    have ex: "drop ?k (take (length ?m) (tq_iocbs (qw_q ?v))) = map (\<lambda>g. hd (fst g)) ?bad"
      by (simp add: submitted_state_def put_front_fields drop_map)
    from fail_tiocbs_walk [OF g D(2) ex ne nin, of prog ?e fuel] obtain s' where
      s': "groups h0 (?good @ gs) s'" "\<And>z. cancel_walk prog (word_of_int ?e) fuel (chain_start (ids_of ?bad))
        (?v\<lparr>qw_os := s', qw_q := (put_front (ids_of ?bad) (qw_q ?v))\<lparr>tq_queued := 0\<rparr>\<rparr>) = (Inr (), z) \<Longrightarrow>
        fail_tiocbs prog fuel ?k (length ?m) ?e ?v = (Inr (int (length (ids_of ?bad))), z)" by blast
    let ?x = "?v\<lparr>qw_os := s', qw_q := (put_front (ids_of ?bad) (qw_q ?v))\<lparr>tq_queued := 0\<rparr>\<rparr>"
    have x: "queue_at (length (ids_of ?bad)) h0 ?x [] (?good @ gs) ds"
    proof -
      have q: "tq_queued (qw_q ?x) = 0" "tq_size (qw_q ?x) = tq_size (qw_q w)" "tq_head (qw_q ?x) = tq_head (qw_q w)"
        "tq_tail (qw_q ?x) = tq_tail (qw_q w)" "tq_tiocbs_deferred (qw_q ?x) = tq_tiocbs_deferred (qw_q w)"
        "tq_tiocbs_pending (qw_q ?x) = tq_tiocbs_pending (qw_q w) + int (tq_queued (qw_q w))"
        "tq_iocbs (qw_q ?x) = ids_of ?bad @ drop (length (ids_of ?bad)) (tq_iocbs (qw_q ?v))" "qw_next ?x = qw_next w" "qw_os ?x = s'"
        by (simp_all add: submitted_state_def put_front_fields)
      have "int (length (tq_iocbs (qw_q ?x))) = tq_size (qw_q w)"
        using arr il D(6,8) unfolding q(7) by (simp add: submitted_state_def put_front_fields)
      moreover have "tq_tiocbs_pending (qw_q ?x) = int (length (ids_of (?good @ gs)) + length (ids_of ?bad))"
        unfolding q(6) using il D(4,7) by (simp only: map_append concat_append length_append)
      moreover have "int (length (ids_of (?good @ gs)) + length (ids_of ?bad)) \<le> tq_size (qw_q w)"
        using il D(8) by (simp only: map_append concat_append length_append)
      moreover have "distinct (ids_of (?good @ gs) @ ds)"
        using dq unfolding map_append concat_append set_append distinct_append by blast
      ultimately show ?thesis
        unfolding queue_at_def Let_def q(1-5,8,9) using s'(1) D(2,9-12) by simp
    qed
    have k: "nat (max 0 r) = ?k" "submit_err r (length ?m) = ?e" "?e \<noteq> 0" "(if r < 0 then 0 else r) = max 0 r"
      using lt by (auto simp: submit_err_def EIO_def)
    have "tapdisk_lio_submit prog fuel w = (Inr (max 0 r), z\<lparr>qw_q := (qw_q z)\<lparr>tq_tiocbs_pending :=
        tq_tiocbs_pending (qw_q z) - int (length (ids_of ?bad))\<rparr>\<rparr>)"
      if "cancel_walk prog (word_of_int ?e) fuel (chain_start (ids_of ?bad)) ?x = (Inr (), z)" for z
      unfolding E k(2) if_P [OF k(3)] k(4) k(1)
      by (rule fail_then [where m = "fail_tiocbs prog fuel ?k (length ?m) ?e" and v = ?v, OF s'(2) [OF that]])
    with x ne show "\<exists>x. queue_at (length (ids_of ?bad)) h0 x [] (?good @ gs) ds \<and>
       qw_next x = qw_next w \<and> qw_done x = qw_done w \<and> tq_size (qw_q x) = tq_size (qw_q w) \<and> ids_of ?bad \<noteq> [] \<and>
       (\<forall>z. cancel_walk prog (word_of_int ?e) fuel (chain_start (ids_of ?bad)) x = (Inr (), z) \<longrightarrow>
         tapdisk_lio_submit prog fuel w = (Inr (max 0 r), z\<lparr>qw_q := (qw_q z)\<lparr>tq_tiocbs_pending :=
           tq_tiocbs_pending (qw_q z) - int (length (ids_of ?bad))\<rparr>\<rparr>))"
      by (intro exI [of _ ?x]) (simp add: submitted_state_def put_front_fields)
  qed
qed

lemma chain_start_append: "xs \<noteq> [] \<Longrightarrow> chain_start (xs @ ys) = chain_start xs"
  by (cases xs) simp_all

lemma lio_submit_stale:
  assumes ok: "queue_ok h0 w qs gs ds" and p: "idle prog" and qs: "qs \<noteq> []" and r: "qw_submit w = r # rs"
    and neg: "r < 0" and fuel: "length qs + length ds \<le> fuel"
  shows "\<exists>u. tapdisk_lio_submit prog fuel w = (Inr 0, u) \<and> queue_ok h0 u [] gs ds \<and>
    qw_done u = qw_done w @ map (\<lambda>i. report h0 (i, word_of_int r)) (qs @ stale w qs ds)"
proof -
  note D = queue_okD [OF ok]
  let ?xs = "qs @ stale w qs ds"
  from submit_walk [OF ok qs r, of prog fuel] neg obtain x where
    x: "queue_at (length qs) h0 x [] gs ds" "qw_next x = qw_next w" "qw_done x = qw_done w" and
    z: "\<And>z. cancel_walk prog (word_of_int r) fuel (chain_start qs) x = (Inr (), z) \<Longrightarrow>
         tapdisk_lio_submit prog fuel w = (Inr 0, z\<lparr>qw_q := (qw_q z)\<lparr>tq_tiocbs_pending :=
           tq_tiocbs_pending (qw_q z) - int (length qs)\<rparr>\<rparr>)" by auto
  have "follows (qw_next x) ?xs" using D(13) by (auto simp: x(2) stale_def)
  moreover have "length ?xs \<le> fuel" using fuel by (simp add: stale_def)
  moreover have "os_io (qw_os x) i = h0 i" if "i \<in> set ?xs" for i
  proof (rule group_tiocb [OF queue_atD(1) [OF x(1)]])
    have "i \<in> set qs \<or> i \<in> set ds" using that by (auto simp: stale_def split: if_splits)
    then show "i \<notin> set (ids_of gs)" using D(3) by auto
  qed
  ultimately have w: "cancel_walk prog (word_of_int r) fuel (chain_start qs) x =
      (Inr (), x\<lparr>qw_done := qw_done x @ map (\<lambda>i. report h0 (i, word_of_int r)) ?xs\<rparr>)" (is "_ = (_, ?z)")
    using cancel_walk_ok [OF p] unfolding chain_start_append [OF qs, of "stale w qs ds", symmetric] by blast
  have "queue_at (length qs) h0 ?z [] gs ds" using x(1) by (simp add: queue_at_def)
  from z [OF w] queue_at_end [OF this] show ?thesis by (intro exI conjI) (assumption | simp add: x(3))+
qed

lemma lio_submit_ops:
  assumes ok: "queue_ok h0 w qs gs ds" and f: "follows (qw_next w) qs" and p: "\<And>t e v. prog t e v = ops t e"
    and qs: "qs \<noteq> []" and r: "qw_submit w = r # rs" and fuel: "length qs \<le> fuel"
    and rep: "rep = (\<lambda>i. report h0 (i, word_of_int (if r < 0 then r else - EIO)))"
    and dnew: "distinct (qs @ ids_of gs @ ds @ map op_id (queued_by ops (map rep qs)))"
  shows "\<exists>new. ids_of new = qs \<and> (\<forall>failed added. failed = ids_of (drop (nat r) new) \<longrightarrow> added = queued_by ops (map rep failed) \<longrightarrow>
    r \<le> int (length new) \<longrightarrow> (\<exists>u. tapdisk_lio_submit prog fuel w = (Inr (max 0 r), u) \<and>
      queue_ok (prep_all added h0) u (take (room_of 0 w qs gs) (map op_id added)) (take (nat r) new @ gs)
        (ds @ drop (room_of 0 w qs gs) (map op_id added)) \<and>
      tq_size (qw_q u) = tq_size (qw_q w) \<and> qw_done u = qw_done w @ map rep failed))"
proof -
  from submit_walk [OF ok qs r, of prog fuel] obtain new where n: "ids_of new = qs" "\<forall>g \<in> set new. joined h0 (fst g)" and
    all: "r = int (length new) \<Longrightarrow> (\<exists>u. tapdisk_lio_submit prog fuel w = (Inr r, u) \<and> queue_ok h0 u [] (new @ gs) ds \<and>
       tq_size (qw_q u) = tq_size (qw_q w) \<and> qw_done u = qw_done w)" and
    some: "r < int (length new) \<Longrightarrow> (\<exists>x. queue_at (length (ids_of (drop (nat r) new))) h0 x [] (take (nat r) new @ gs) ds \<and>
       qw_next x = qw_next w \<and> qw_done x = qw_done w \<and> tq_size (qw_q x) = tq_size (qw_q w) \<and> ids_of (drop (nat r) new) \<noteq> [] \<and>
       (\<forall>z. cancel_walk prog (word_of_int (if r < 0 then r else - EIO)) fuel (chain_start (ids_of (drop (nat r) new))) x = (Inr (), z) \<longrightarrow>
         tapdisk_lio_submit prog fuel w = (Inr (max 0 r), z\<lparr>qw_q := (qw_q z)\<lparr>tq_tiocbs_pending :=
           tq_tiocbs_pending (qw_q z) - int (length (ids_of (drop (nat r) new)))\<rparr>\<rparr>)))" by blast
  let ?bad = "ids_of (drop (nat r) new)" and ?good = "take (nat r) new" and ?m = "room_of 0 w qs gs"
  let ?new = "queued_by ops (map rep ?bad)"
  have "\<exists>u. tapdisk_lio_submit prog fuel w = (Inr (max 0 r), u) \<and>
      queue_ok (prep_all ?new h0) u (take ?m (map op_id ?new)) (?good @ gs) (ds @ drop ?m (map op_id ?new)) \<and>
      tq_size (qw_q u) = tq_size (qw_q w) \<and> qw_done u = qw_done w @ map rep ?bad" if le: "r \<le> int (length new)"
  proof (cases "r = int (length new)")
    case True
    then show ?thesis using all by simp
  next
    case False
    with le have lt: "r < int (length new)" by simp
    have ids: "ids_of ?good @ ?bad = qs" using n(1) by (metis append_take_drop_id concat_append map_append)
    from some [OF lt] obtain x where
      x: "queue_at (length ?bad) h0 x [] (?good @ gs) ds" "qw_next x = qw_next w" "qw_done x = qw_done w"
        "tq_size (qw_q x) = tq_size (qw_q w)" and
      z: "\<And>z. cancel_walk prog (word_of_int (if r < 0 then r else - EIO)) fuel (chain_start ?bad) x = (Inr (), z) \<Longrightarrow>
         tapdisk_lio_submit prog fuel w = (Inr (max 0 r), z\<lparr>qw_q := (qw_q z)\<lparr>tq_tiocbs_pending :=
           tq_tiocbs_pending (qw_q z) - int (length ?bad)\<rparr>\<rparr>)" by blast
    have "follows (qw_next x) ?bad" using follows_drop [of "qw_next w" "ids_of ?good" ?bad] f unfolding ids x(2) by blast
    moreover have "length ?bad \<le> fuel" using fuel arg_cong [OF ids, of length] by simp
    moreover have "distinct (?bad @ [] @ ids_of (?good @ gs) @ ds @ map op_id ?new)"
    proof -
      have "queued_by ops (map rep qs) = queued_by ops (map rep (ids_of ?good)) @ ?new"
        unfolding ids [symmetric] by (simp add: queued_by_def)
      then have "mset (qs @ ids_of gs @ ds @ map op_id (queued_by ops (map rep qs))) =
          mset (map op_id (queued_by ops (map rep (ids_of ?good))) @ ?bad @ [] @ ids_of (?good @ gs) @ ds @ map op_id ?new)"
        unfolding ids [symmetric] by simp
      then have "distinct (map op_id (queued_by ops (map rep (ids_of ?good))) @ ?bad @ [] @ ids_of (?good @ gs) @ ds @ map op_id ?new)"
        using dnew mset_eq_imp_distinct_iff by blast
      then show ?thesis unfolding distinct_append [of "map op_id (queued_by ops (map rep (ids_of ?good)))"] by blast
    qed
    moreover have room: "room_of (length ?bad) x [] (?good @ gs) = ?m"
      using arg_cong [OF ids, of length] by (simp add: room_of_def x(4))
    ultimately obtain u where
      u: "cancel_walk prog (word_of_int (if r < 0 then r else - EIO)) fuel (chain_start ?bad) x = (Inr (), u)"
        "qw_done u = qw_done x @ map rep ?bad" "tq_size (qw_q u) = tq_size (qw_q x)"
        "queue_at (length ?bad) (prep_all ?new h0) u (take ?m (map op_id ?new)) (?good @ gs) (ds @ drop ?m (map op_id ?new))"
      using cancel_walk_ops [where prog = prog and ops = ops and xs = ?bad and k = fuel and r = "word_of_int (if r < 0 then r else - EIO)", OF p x(1)]
      unfolding rep room append_Nil by blast
    from z [OF u(1)] queue_at_end [OF u(4)] u(2,3) x(3,4) show ?thesis by (intro exI conjI) (assumption | simp)+
  qed
  with n show ?thesis by blast
qed

end
