(* ===== verification/Spec2Isabelle.thy ===== *)
theory Spec2Isabelle
  imports Vhd_Example Vhd_Bat Vhd_Byte_Io Vhd_Byte_Laws Vhd_Journal_Example Block_Vhd_Open Block_Vhd_Start Block_Vhd_Table Rel_Path Td_Loglimit Td_Sched_Run Td_Queue_Callbacks
begin

text \<open>
  blktap3 keeps virtual disks for virtual machines. Its image format is VHD: \<open>libvhd\<close> (\<open>vhd/lib\<close>,
  \<open>include/libvhd.h\<close>, \<open>include/vhd.h\<close>) reads and writes the images, tools and the daemon \<open>tapdisk\<close>
  (\<open>drivers\<close>) are built on it. This development models libvhd's core completely, from byte order to
  reads and writes through a chain of differencing images, its journal, and of tapdisk the event loop, the
  limiter of log messages and the queue of asynchronous requests. Names of definitions are those of
  the C functions where Isabelle allows it; \<open>_loop\<close>, \<open>_block\<close>, \<open>_event\<close> and the like name the body of
  a loop or a part of a function.

  \<^bold>\<open>How the code is modelled.\<close> C functions with effects are functions of a state-and-error monad
  (\<open>Vhd_Base\<close>): a state is returned in every case, also with an error. \<open>Errno\<close> is a returned error
  number, \<open>Abort\<close> a failed assertion, \<open>Undef\<close> a step that C leaves undefined (an index out of an array,
  an overflow of a signed integer), \<open>Hang\<close> a loop that ran out of fuel. Fixed-width integers are
  words, and wrap as in C; \<open>long\<close> times and list positions are \<open>int\<close> and \<open>nat\<close>. A structure is a record
  with the fields of the C structure; byte layouts are explicit encoders, little endian for the host.

  \<^bold>\<open>libvhd.\<close> The state \<open>vst\<close> of \<open>Vhd_Posix\<close> holds the open context with its parents, the file
  position, and a system: the files, \<open>errno\<close>, and schedules that decide which call is interrupted,
  transfers less than asked or fails, and which allocation fails. The theories, in the order of the
  code:
    \<^item> \<open>Vhd_Bytes\<close>, \<open>Vhd_Bitmap\<close>, \<open>Vhd_Format\<close>, \<open>Vhd_Check\<close>, \<open>Vhd_Seal\<close>, \<open>Vhd_Geometry\<close>: byte order, bitmaps, the
      structures, checksums and validation, CHS geometry. \<open>Vhd_Seal\<close> states the contract of a sealed
      record as a locale; the footer and the header are its two interpretations.
    \<^item> \<open>Vhd_Posix\<close>, \<open>Vhd_Posix_Laws\<close>, \<open>Vhd_Store\<close>, \<open>Vhd_Quiet\<close>: the I/O loop and the calls on it. The locale
      \<open>byte_store\<close> says what a positioned read and write guarantee under every schedule; it is
      interpreted for seek-and-transfer and for the positional calls.
    \<^item> \<open>Vhd_Meta\<close>, \<open>Vhd_Meta_Laws\<close>, \<open>Vhd_Meta_Quiet\<close>, \<open>Vhd_Bat\<close>: footer, header, BAT and batmap.
    \<^item> \<open>Rel_Path\<close>, \<open>Vhd_Locator\<close>, \<open>Vhd_Open\<close>: relative paths, parent locators, open, create, snapshot.
    \<^item> \<open>Vhd_Io\<close>, \<open>Vhd_Byte_Io\<close>, \<open>Vhd_Byte_Laws\<close>: sector and byte I/O, allocation of blocks, chains of
      parents; the laws follow a short byte read that crosses from one missing sector into the next.
    \<^item> \<open>Vhd_Image\<close>, \<open>Vhd_Image_Ops\<close>, \<open>Vhd_Alloc\<close>, \<open>Vhd_Block_Write\<close>, \<open>Vhd_Write\<close>, \<open>Vhd_Disk\<close>, \<open>Vhd_Read\<close>: the
      well-formedness invariant \<open>image_ok\<close> of a dynamic image, the virtual disk it stands for
      (\<open>vlayer\<close>: the byte at an address or nothing, \<open>vdisk\<close>: with zeros for nothing, \<open>chain_disk\<close>: through
      the parents), and the refinement of writes and reads of a flat array by \<open>vhd_io_write\<close> and
      \<open>vhd_io_read\<close>. These laws are about an undisturbed system; the laws of the I/O layer and the round
      trips of footer and header hold under every schedule.
    \<^item> \<open>Vhd_Journal\<close>: \<open>libvhd-journal.c\<close>, every function, with the journal's name and position instead of its
      descriptor. \<open>Vhd_Journal_Laws\<close> describes the file of a journal as the encoding of a log (a list of
      items \<open>Item type offset data pad\<close>) and follows the calls of seek, read and write over it;
      \<open>Vhd_Journal_Meta\<close> records the metadata, \<open>Vhd_Journal_Restore\<close> and \<open>Vhd_Journal_Undo\<close> put metadata and
      data back, \<open>Vhd_Journal_Create\<close> and \<open>Vhd_Journal_Protect\<close> prove that a journal made by
      \<open>vhd_journal_create\<close> and \<open>vhd_journal_add_block\<close> restores the image. These laws are about images
      without a batmap and an undisturbed system.
    \<^item> \<open>Vhd_Example\<close>, \<open>Vhd_Journal_Example\<close>: the small images on which the witnesses run.

  \<^bold>\<open>tapdisk.\<close> \<open>Td_Sched\<close>, \<open>Td_Sched_Laws\<close>, \<open>Td_Sched_Run\<close> model \<open>drivers/scheduler.c\<close> with the clock and the
  answers of \<open>select\<close> as streams and the callbacks as a parameter that may call the scheduler again;
  the locale \<open>sched_inv\<close> lifts invariants of single changes to whole runs with nested waits.
  \<open>Td_Loglimit\<close> models \<open>drivers/tapdisk-loglimit.c\<close>. \<open>Td_Opio\<close> and \<open>Td_Opio_Laws\<close> are \<open>drivers/io-optimize.c\<close>: a
  heap of requests, the array of records that remember merged ones, and a description (\<open>groups\<close>) of
  the lists that run through both. \<open>Td_Queue\<close>, \<open>Td_Queue_Laws\<close> and \<open>Td_Queue_Callbacks\<close> are \<open>drivers/tapdisk-queue.c\<close>
  on top of it, with the kernel's answers as streams and the callbacks as a parameter; \<open>queue_ok\<close> describes
  where every request is (queued, with the kernel, deferred), and the loops that call back are followed
  while the callbacks queue new requests.

  \<^bold>\<open>The asynchronous VHD driver.\<close> \<open>Block_Vhd\<close> is \<open>drivers/block-vhd.c\<close> from the structures to \<open>vhd_complete\<close>,
  \<open>Block_Vhd_Open\<close> its opening and closing. Pointers to requests and bitmaps are names (\<open>rid\<close>, an index), so
  the linked lists of the code are those of the model. Calls handed to the queue stand in \<open>vs_aio\<close> until
  \<open>io_done\<close> brings the answer; what the driver reports is appended to \<open>vs_out\<close>. The three functions that end
  a transaction call each other; the code never nests them deeper than \<open>TX_DEPTH\<close>, and lists are
  never longer than \<open>VHD_REQS_TOTAL\<close>. \<open>Block_Vhd_Laws\<close> has a calculus of weakest preconditions and the laws of
  flags and lists, \<open>Block_Vhd_Inv\<close> the invariant: where every request is (free, alone, in a transaction, in
  the queue behind it, waiting for a bitmap), the phases of a bitmap (\<open>bm_ok\<close>) and of an allocation
  (\<open>alloc_phase\<close>). \<open>Block_Vhd_Phase\<close>, \<open>Block_Vhd_Frame\<close>, \<open>Block_Vhd_Ops\<close>, \<open>Block_Vhd_Move\<close> prove what the cache of
  bitmaps, the pool and the lists do to it. \<open>Block_Vhd_Sched\<close>, \<open>Block_Vhd_Cache\<close>, \<open>Block_Vhd_Alloc\<close> and
  \<open>Block_Vhd_Queue\<close> follow the two entry points \<open>vhd_queue_read\<close> and \<open>vhd_queue_write\<close>: whatever is asked, the
  invariant holds afterwards and every sector is accounted for, as answered or as owed by a request.
  \<open>Block_Vhd_Start\<close> is the state in which an image is opened. \<open>Block_Vhd_Finish\<close>, \<open>Block_Vhd_Close\<close> and
  \<open>Block_Vhd_Commit\<close> are the end of a transaction (the lock of the table is passed on or given up, the requests
  that waited begin the next one), \<open>Block_Vhd_Return\<close> and \<open>Block_Vhd_Table\<close> the answers of the kernel to
  requests for data, for a written bitmap and for the steps of an allocation.

  \<^bold>\<open>Bounds and fuel.\<close> The I/O loop has fuel \<open>Suc (2 * length)\<close>-like in the schedule and the length; C15 shows
  that it is enough on regular files, C16 that none is on a block device with an incomplete
  sector. The loop over the blocks of a write has fuel \<open>Suc (unat secs)\<close>, enough since every turn
  writes a sector. \<open>vhd_io_read\<close> follows at most \<open>fuel\<close> parents; the properties ask for more than there
  are. The event loop's fuel counts steps, and C30 says how much is enough.

  \<^bold>\<open>Not modelled.\<close> File descriptors as numbers (a context is bound to its file), \<open>fsync\<close>, log output,
  \<open>sleep\<close>; \<open>iconv\<close>, \<open>realpath\<close>, \<open>access\<close> and the page size are parameters (\<open>libc\<close>). Of the rest of the
  repository: the index, the tools and the virtual block device of tapdisk are left out; sockets, processes, ioctls, shared rings and the
  interposition library talk to the kernel and are left out.
\<close>

section \<open>The virtual disk\<close>

text \<open>C1. A write followed by a read, through a chain of cached parents: on a well-formed dynamic or
  differencing image \<open>vhd_io_write\<close> succeeds, and any later \<open>vhd_io_read\<close> returns the new bytes in
  the sectors written and, elsewhere, what the chain of images showed before. The range read may
  not enter an unallocated block in the middle and leave it (\<open>reads_whole\<close> in \<open>chain_ok\<close>; \<open>read_skips_next_block\<close> shows what happens then).\<close>

theorem vhd_write_then_read:
  assumes "image_core hs s f" and "chain_ok S' n' (sys_files (st_sys s)) (st_ctx s # st_parents s)"
    and "chain_state s" and "pages_ok lc"
    and "data_end hs (st_ctx s) + 4105 * blocks_touched S n < 4294967295"
    and "S + n \<le> 4096 * nblocks (st_ctx s)" and "0 < n" "0 < n'" "n' < 67108864"
    and "length buf = 512 * n" and "length (st_parents s) < fuel"
  shows "\<exists>t u. vhd_io_write lc buf (of_nat S) (of_nat n) s = (Inr (), t) \<and>
    vhd_io_read lc fuel (of_nat S') (of_nat n') t = (Inr (map (\<lambda>x.
      if 512 * S \<le> x \<and> x < 512 * (S + n) then buf ! (x - 512 * S)
      else chain_disk (sys_files (st_sys s)) (st_ctx s # st_parents s) x) [512 * S' ..< 512 * (S' + n')]), u)"
  by (rule write_then_read [OF assms])

theorem vhd_write_then_read_witness:
  "\<exists>t u. vhd_io_write ex_libc (replicate 512 7) 5 1 ex_image = (Inr (), t) \<and>
    vhd_io_read ex_libc 1 4 2 t = (Inr (zeros 512 @ replicate 512 7), u)"
proof -
  let ?d = "\<lambda>x. if 512 * 5 \<le> x \<and> x < 512 * (5 + 1) then replicate 512 7 ! (x - 512 * 5)
    else chain_disk (sys_files (st_sys ex_image)) (st_ctx ex_image # st_parents ex_image) x"
  have ch: "chain_ok 4 2 (sys_files (st_sys ex_image)) (st_ctx ex_image # st_parents ex_image)"
    using image_ok_ex_image ex_image_not_diff unfolding image_ok_at
    by (auto simp: ex_image_facts ex_image_ctx_words reads_whole_def)
  have cs: "chain_state ex_image" by (simp add: chain_state_def ex_image_facts)
  have "\<exists>t u. vhd_io_write ex_libc (replicate 512 7) (of_nat 5) (of_nat 1) ex_image = (Inr (), t) \<and>
      vhd_io_read ex_libc 1 (of_nat 4) (of_nat 2) t = (Inr (map ?d [512 * 4 ..< 512 * (4 + 2)]), u)"
    by (rule vhd_write_then_read [OF image_core_ex_image ch cs pages_ok_ex_libc])
      (simp_all add: ex_image_facts ex_image_ctx_words data_end_ex_image blocks_touched_def)
  moreover have "chain_disk (sys_files (st_sys ex_image)) (st_ctx ex_image # st_parents ex_image) x = 0"
    if "x < 262144" for x
  proof -
    have "vlayer (ex_image_ctx nm) f x = None" for nm f
      using that vlayer_allocated [of "ex_image_ctx nm" f x] ex_image_ctx_words(3) [of "x div 2097152"] by fastforce
    then show ?thesis by (simp add: ex_image_def ex_image_ctx_def split: option.split)
  qed
  then have "map ?d [512 * 4 ..< 512 * (4 + 2)] = zeros 512 @ replicate 512 7"
    by (intro nth_equalityI) (simp_all add: nth_append del: chain_disk.simps upt_rec_numeral)
  ultimately show ?thesis by (simp only: of_nat_numeral of_nat_1)
qed

text \<open>C2. \<open>vhd_io_write\<close> on a well-formed dynamic image refines the update of a range of a flat
  array: it succeeds, the footer is back behind the data, the image is well formed, its shape is
  kept, no other file changes, and exactly the sectors written have new contents.\<close>

theorem vhd_write_refines:
  assumes "image_core hs s f" and "pages_ok lc"
    and "data_end hs (st_ctx s) + 4105 * blocks_touched S n < 4294967295"
    and "S + n \<le> 4096 * nblocks (st_ctx s)" and "0 < n" and "length buf = 512 * n"
  shows "\<exists>t g. vhd_io_write lc buf (of_nat S) (of_nat n) s = (Inr (), t) \<and> image_ok hs t g \<and>
    same_world s t \<and> same_shape (st_ctx s) (st_ctx t) \<and>
    (\<forall>x < nblocks (st_ctx s) * 2097152. vlayer (st_ctx t) g x = put_range (vlayer (st_ctx s) f) (512 * S) buf x)"
  by (rule image_write [OF assms])

theorem vhd_write_refines_witness:
  "\<exists>t g. vhd_io_write ex_libc (replicate 1024 7) 4095 2 ex_image = (Inr (), t) \<and> image_ok 4 t g \<and>
    vlayer (st_ctx t) g 2097151 = Some 7"
proof -
  have "\<exists>t g. vhd_io_write ex_libc (replicate 1024 7) (of_nat 4095) (of_nat 2) ex_image = (Inr (), t) \<and> image_ok 4 t g \<and>
    same_world ex_image t \<and> same_shape (st_ctx ex_image) (st_ctx t) \<and>
    (\<forall>x < nblocks (st_ctx ex_image) * 2097152.
       vlayer (st_ctx t) g x = put_range (vlayer (st_ctx ex_image) ex_image_file) (512 * 4095) (replicate 1024 7) x)"
    by (rule vhd_write_refines [OF image_core_ex_image pages_ok_ex_libc])
      (simp_all add: ex_image_facts ex_image_ctx_words data_end_ex_image blocks_touched_def)
  then obtain t g where "vhd_io_write ex_libc (replicate 1024 7) 4095 2 ex_image = (Inr (), t)" "image_ok 4 t g"
    and v: "\<forall>x < 2 * 2097152. vlayer (st_ctx t) g x =
      put_range (vlayer (st_ctx ex_image) ex_image_file) (512 * 4095) (replicate 1024 7) x"
    by (auto simp: ex_image_facts ex_image_ctx_words)
  moreover have "vlayer (st_ctx t) g 2097151 = Some 7" using v by (simp add: put_range_def)
  ultimately show ?thesis by blast
qed

text \<open>C3. \<open>vhd_io_read\<close> on a well-formed dynamic image at rest returns the contents of the virtual
  disk and leaves the files as they are, if the read does not begin inside an unallocated block and
  run past its end (\<open>reads_whole\<close>: it begins at the start of a block, or stays inside its first
  block, or that block is allocated). A read for which this fails loses data (see C23).\<close>

theorem vhd_read_refines:
  assumes "image_ok hs s f" and "ftr_type (ctx_footer (st_ctx s)) \<noteq> HD_TYPE_DIFF" "st_parents s = []"
    and "S + n \<le> 4096 * nblocks (st_ctx s)" and "0 < n" "n < 67108864"
    and "reads_whole (st_ctx s) S n" and "0 < fuel"
  shows "\<exists>buf t. vhd_io_read lc fuel (of_nat S) (of_nat n) s = (Inr buf, t) \<and> same_image s t \<and>
    buf = map (vdisk (st_ctx s) f) [512 * S ..< 512 * (S + n)]"
  by (rule image_read [OF assms])

theorem vhd_read_refines_witness:
  "\<exists>buf t. vhd_io_read ex_libc 1 4095 1 ex_image = (Inr buf, t) \<and> length buf = 512"
proof -
  have "\<exists>buf t. vhd_io_read ex_libc 1 (of_nat 4095) (of_nat 1) ex_image = (Inr buf, t) \<and> same_image ex_image t \<and>
      buf = map (vdisk (st_ctx ex_image) ex_image_file) [512 * 4095 ..< 512 * (4095 + 1)]"
    by (rule vhd_read_refines [OF image_ok_ex_image ex_image_not_diff])
      (simp_all add: ex_image_facts ex_image_ctx_words reads_whole_def)
  then show ?thesis by auto
qed

text \<open>C4. Reading back exactly the range just written returns the bytes written, wherever the range
  begins and however many blocks it touches.\<close>

theorem vhd_write_read_back:
  assumes "image_core hs s f" and "ftr_type (ctx_footer (st_ctx s)) \<noteq> HD_TYPE_DIFF" "st_parents s = []"
    and "pages_ok lc" and "data_end hs (st_ctx s) + 4105 * blocks_touched S n < 4294967295"
    and "S + n \<le> 4096 * nblocks (st_ctx s)" and "0 < n" "n < 67108864" and "length buf = 512 * n"
    and "0 < fuel"
  shows "\<exists>t u. vhd_io_write lc buf (of_nat S) (of_nat n) s = (Inr (), t) \<and>
    vhd_io_read lc fuel (of_nat S) (of_nat n) t = (Inr buf, u)"
  by (rule write_read_back [OF assms])

theorem vhd_write_read_back_witness:
  "\<exists>t u. vhd_io_write ex_libc (replicate 1024 9) 4095 2 ex_image = (Inr (), t) \<and>
    vhd_io_read ex_libc 1 4095 2 t = (Inr (replicate 1024 9), u)"
proof -
  have "\<exists>t u. vhd_io_write ex_libc (replicate 1024 9) (of_nat 4095) (of_nat 2) ex_image = (Inr (), t) \<and>
      vhd_io_read ex_libc 1 (of_nat 4095) (of_nat 2) t = (Inr (replicate 1024 9), u)"
    by (rule vhd_write_read_back [OF image_core_ex_image ex_image_not_diff _ pages_ok_ex_libc])
      (simp_all add: ex_image_facts ex_image_ctx_words data_end_ex_image blocks_touched_def)
  then show ?thesis by (simp only: of_nat_numeral)
qed

text \<open>C7. Moving the footer behind the data (\<open>vhd_write_footer\<close>) on an image in the middle of an
  operation succeeds, leaves the virtual disk as it was, brings the image to rest, and makes the
  file end exactly one sector behind the last block. That sector holds the footer with its checksum, in disk
  byte order, and so does the first sector of the file.\<close>

theorem write_footer_keeps_disk:
  assumes "image_core hs s f"
  shows "\<exists>t g. vhd_write_footer (ctx_footer (st_ctx s)) s = (Inr (), t) \<and> image_ok hs t g \<and>
    same_world s t \<and> st_ctx t = st_ctx s \<and> f_size g = 512 * data_end hs (st_ctx s) + 512 \<and>
    file_read g (512 * data_end hs (st_ctx s)) 512 = footer_bytes (st_ctx s) \<and> file_read g 0 512 = footer_bytes (st_ctx s) \<and>
    (\<forall>x < nblocks (st_ctx s) * 2097152. vlayer (st_ctx t) g x = vlayer (st_ctx s) f x)"
  by (rule write_footer_ok [OF assms])

theorem write_footer_keeps_disk_witness:
  "\<exists>t g. vhd_write_footer ex_image_footer ex_image = (Inr (), t) \<and> image_ok 4 t g \<and> f_size g = 2560 \<and>
     file_read g 2048 512 = footer_bytes (st_ctx ex_image)"
  using write_footer_keeps_disk [OF image_core_ex_image]
  by (auto simp: ex_image_facts data_end_ex_image) (auto simp: ex_image_ctx_def)

text \<open>C8. Allocation of a block: the new block starts at or behind the end of the data, its data (the
  sector behind its bitmap) is aligned to a page, the invariant holds for the enlarged BAT, so
  that blocks still do not overlap, and the virtual disk is unchanged.\<close>

theorem allocate_block_keeps_disk:
  assumes "image_core hs s f" and "b < nblocks (st_ctx s)" and "\<not> allocated (st_ctx s) b" and "pages_ok lc"
    and "data_end hs (st_ctx s) + 4105 < 4294967295"
  shows "\<exists>t g. vhd_io_allocate_block lc (of_nat b) s = (Inr (), t) \<and> image_core hs t g \<and>
    allocated (st_ctx t) b \<and> data_end hs (st_ctx s) \<le> start (st_ctx t) b \<and>
    lc_pagesize lc div 512 dvd start (st_ctx t) b + 1 \<and>
    (\<forall>j. j \<noteq> b \<longrightarrow> bat_words (st_ctx t) ! j = bat_words (st_ctx s) ! j) \<and>
    (\<forall>x < nblocks (st_ctx s) * 2097152. vlayer (st_ctx t) g x = vlayer (st_ctx s) f x)"
  by (rule allocate_ok [OF assms])

theorem allocate_block_keeps_disk_witness:
  "\<exists>t g. vhd_io_allocate_block ex_libc 1 ex_image = (Inr (), t) \<and> image_core 4 t g \<and> allocated (st_ctx t) 1 \<and>
     8 dvd start (st_ctx t) 1 + 1"
proof -
  have "\<exists>t g. vhd_io_allocate_block ex_libc (of_nat 1) ex_image = (Inr (), t) \<and> image_core 4 t g \<and>
    allocated (st_ctx t) 1 \<and> data_end 4 (st_ctx ex_image) \<le> start (st_ctx t) 1 \<and>
    lc_pagesize ex_libc div 512 dvd start (st_ctx t) 1 + 1 \<and>
    (\<forall>j. j \<noteq> 1 \<longrightarrow> bat_words (st_ctx t) ! j = bat_words (st_ctx ex_image) ! j) \<and>
    (\<forall>x < nblocks (st_ctx ex_image) * 2097152. vlayer (st_ctx t) g x = vlayer (st_ctx ex_image) ex_image_file x)"
    by (rule allocate_block_keeps_disk [OF image_core_ex_image _ _ pages_ok_ex_libc])
      (simp_all add: ex_image_facts ex_image_ctx_words data_end_ex_image)
  then show ?thesis by (auto simp: ex_libc_def)
qed

section \<open>Metadata\<close>

text \<open>C9. A footer that was written is what is read back, with the seal the writer computed, under
  every schedule of interruptions, short transfers and failures in which both calls succeed.\<close>

theorem footer_roundtrip:
  assumes "ftr_wf f" and "vhd_write_footer_at f off s = (Inr (), t)"
    and "vhd_read_footer_at put off t = (Inr g, u)"
  shows "g = f\<lparr>ftr_checksum := vhd_checksum_footer f\<rparr>"
  using footer_at_roundtrip assms by blast

theorem footer_roundtrip_witness:
  "\<exists>t u g. vhd_write_footer_at ex_footer 0 ex_state = (Inr (), t) \<and>
     vhd_read_footer_at nowhere 0 t = (Inr g, u) \<and> ftr_checksum g = vhd_checksum_footer ex_footer"
proof -
  let ?f = "ex_footer\<lparr>ftr_checksum := vhd_checksum_footer ex_footer\<rparr>"
  have wf: "ftr_wf ?f" using ftr_wf_ex_footer by (simp add: ftr_wf_def)
  obtain t where w: "vhd_write_footer_at ex_footer 0 ex_state = (Inr (), t)"
    and t: "t = st_with 512 (file_write ex_file 0 (ftr_disk_bytes ?f)) ex_state"
    using write_footer_at_quiet [of ex_state ex_file 0 ex_footer] ex_state_facts ftr_wf_ex_footer
      ex_footer_cookie by (simp add: ex_file_def)
  have "file_read (file_write ex_file 0 (ftr_disk_bytes ?f)) 0 512 = ftr_disk_bytes ?f"
    using file_read_write_same [of ex_file 0 "ftr_disk_bytes ?f"] wf by simp
  moreover have "vhd_validate_footer ?f = 0"
    using ftr_wf_ex_footer ex_footer_cookie by (intro validate_sealed_footer) simp_all
  moreover have "512 \<le> f_size (file_write ex_file 0 (ftr_disk_bytes ?f))"
    using wf by (simp add: file_write_def ex_file_def)
  ultimately obtain g u where r: "vhd_read_footer_at nowhere 0 t = (Inr g, u)"
    using read_footer_at_quiet [of t "file_write ex_file 0 (ftr_disk_bytes ?f)" 0 nowhere] t wf
      ex_state_facts by (simp add: Let_def ftr_seal.dec_enc)
  from footer_roundtrip [OF ftr_wf_ex_footer w r] w r show ?thesis by auto
qed

text \<open>C10. A header that was written is what is read back, with the checksum the writer computed,
  under every schedule of interruptions, short transfers and failures in which both calls succeed.\<close>

theorem header_roundtrip:
  assumes "hdr_wf h" and "vhd_write_header_at h off s = (Inr (), t)"
    and "vhd_read_header_at put off t = (Inr g, u)"
  shows "g = h\<lparr>hdr_checksum := vhd_checksum_header h\<rparr>"
  using header_at_roundtrip assms by blast

theorem header_roundtrip_witness:
  "\<exists>t u. vhd_write_header_at ex_header 512 ex_image = (Inr (), t) \<and>
     vhd_read_header_at nowhere 512 t = (Inr ex_sealed, u)"
proof -
  let ?g = "file_write ex_image_file 512 (hdr_disk_bytes ex_sealed)"
  have dyn: "vhd_type_dynamic (st_ctx ex_image)"
    using std_ctxD(1) [OF std_ctx_ex_image] by (simp add: ex_image_facts)
  obtain t where w: "vhd_write_header_at ex_header 512 ex_image = (Inr (), t)"
    and t: "t = st_with 1536 ?g ex_image"
    using write_header_at_quiet [of ex_image ex_image_file 512 ex_header] ex_image_facts dyn hdr_wf_ex_header
      ex_sealed_facts(2) by (simp add: ex_sealed_def)
  have "file_read ?g 512 1024 = hdr_disk_bytes ex_sealed"
    using file_read_write_same [of ex_image_file 512 "hdr_disk_bytes ex_sealed"] ex_sealed_facts(1) by simp
  moreover have "1536 \<le> f_size ?g" by (simp add: f_size_file_write ex_image_facts) (simp add: ex_image_file_def)
  ultimately obtain u where r: "vhd_read_header_at nowhere 512 t = (Inr ex_sealed, u)"
    using read_header_at_quiet [of t ?g 512 nowhere] t ex_sealed_facts ex_image_facts dyn
    by (simp add: Let_def hdr_seal.dec_enc)
  from header_roundtrip [OF hdr_wf_ex_header w r] w r show ?thesis by blast
qed

text \<open>C11. A footer sector that validates on disk no longer validates when any one of its bytes is
  changed to any other value. (\<open>legacy_hidden\<close> is the exemption for files of tapdisk 0.1 and 1.1
  marked hidden, whose checksum is also tried with the mark cleared.)\<close>

theorem footer_corruption_detected:
  assumes "length bs = 512" and "i < 512" and "b \<noteq> bs ! i" and "vhd_validate_footer (ftr_of_disk bs) = 0"
    and "\<not> legacy_hidden (ftr_of_disk bs)" and "\<not> legacy_hidden (ftr_of_disk (bs[i := b]))"
  shows "vhd_validate_footer (ftr_of_disk (bs[i := b])) = - EINVAL"
proof (rule validate_footer_rejects)
  show "ftr_checksum (ftr_of_disk (bs[i := b])) \<noteq> vhd_checksum_footer (ftr_of_disk (bs[i := b]))"
    by (rule ftr_seal.detects_corruption) (use assms validate_footer_accepts in auto)
qed (rule assms)

theorem footer_corruption_detected_witness:
  "let bs = ftr_disk_bytes (ex_image_footer\<lparr>ftr_checksum := vhd_checksum_footer ex_image_footer\<rparr>)
   in vhd_validate_footer (ftr_of_disk bs) = 0 \<and>
      vhd_validate_footer (ftr_of_disk (bs[48 := bs ! 48 + 1])) = - EINVAL"
proof -
  let ?f = "ex_image_footer\<lparr>ftr_checksum := vhd_checksum_footer ex_image_footer\<rparr>"
  let ?bs = "ftr_disk_bytes ?f"
  have wf: "ftr_wf ?f" using ftr_wf_ex_image_footer by (simp add: ftr_wf_def)
  have d: "ftr_of_disk ?bs = ?f" using wf by (simp add: ftr_seal.dec_enc)
  have v: "vhd_validate_footer (ftr_of_disk ?bs) = 0"
    using validate_sealed_footer [OF ftr_wf_ex_image_footer] d
    by (simp add: ex_image_footer_def ex_footer_cookie)
  have app: "\<not> app_is_tap (zeros 4)" by (simp add: app_is_tap_def ascii_def zeros_def numeral_3_eq_3)
  have l: "\<not> legacy_hidden (ftr_of_disk ?bs)"
    using app unfolding d by (simp add: legacy_hidden_def) (simp add: ex_image_footer_def)
  have "ftr_crtr_app (ftr_of_disk (?bs[48 := b])) = ftr_crtr_app (ftr_of_disk ?bs)" for b
    by (simp add: ftr_of_disk_def vhd_footer_in_def ftr_of_bytes_def field_def drop_update_swap)
  then have l': "\<not> legacy_hidden (ftr_of_disk (?bs[48 := b]))" for b
    using app d by (simp add: legacy_hidden_def) (simp add: ex_image_footer_def)
  have "vhd_validate_footer (ftr_of_disk (?bs[48 := ?bs ! 48 + 1])) = - EINVAL"
    by (rule footer_corruption_detected [OF _ _ _ v l l']) (use wf in simp_all)
  then show ?thesis using v by (simp add: Let_def)
qed

text \<open>C12. \<open>vhd_end_of_data\<close> on a well-formed image is the exact end of the allocated blocks: no block
  reaches beyond it, and it is the end of a block unless no block is allocated, when it is the end
  of the metadata.\<close>

theorem end_of_data_exact:
  assumes "std_ctx hs (st_ctx s)"
  shows "\<exists>D. vhd_end_of_data s = (Inr (of_nat (512 * D)), s) \<and> hs \<le> D \<and>
    (\<forall>i < nblocks (st_ctx s). allocated (st_ctx s) i \<longrightarrow> start (st_ctx s) i + 4097 \<le> D) \<and>
    (D = hs \<or> (\<exists>i < nblocks (st_ctx s). allocated (st_ctx s) i \<and> D = start (st_ctx s) i + 4097))"
  using end_of_data_quiet [OF assms] data_end_ge [of hs "st_ctx s"] data_end_attained [of "st_ctx s" hs]
    data_end_bound [of _ "st_ctx s" hs] std_ctxD(12) [OF assms] by blast

theorem end_of_data_exact_witness:
  "\<exists>D. vhd_end_of_data ex_half = (Inr (of_nat (512 * D)), ex_half) \<and> D = 7 + 4097"
proof -
  have std: "std_ctx 4 (st_ctx ex_half)" using image_ok_ex_half by (simp add: image_ok_def image_core_def)
  obtain D where D: "vhd_end_of_data ex_half = (Inr (of_nat (512 * D)), ex_half)"
    and b: "\<forall>i < nblocks (st_ctx ex_half). allocated (st_ctx ex_half) i \<longrightarrow> start (st_ctx ex_half) i + 4097 \<le> D"
    and e: "D = 4 \<or> (\<exists>i < nblocks (st_ctx ex_half). allocated (st_ctx ex_half) i \<and> D = start (st_ctx ex_half) i + 4097)"
    using end_of_data_exact [OF std] by blast
  have "7 + 4097 \<le> D" using b [rule_format, of 1] ex_half_facts by simp
  with e have "\<exists>i < 2. allocated (st_ctx ex_half) i \<and> D = start (st_ctx ex_half) i + 4097"
    using ex_half_facts(1) by auto
  then obtain i where i: "i < 2" "allocated (st_ctx ex_half) i" "D = start (st_ctx ex_half) i + 4097" by blast
  then have "i = 1" using ex_half_facts(2) by (cases i) auto
  then have "D = 7 + 4097" using i(3) ex_half_facts(4) by simp
  then show ?thesis using D by blast
qed

text \<open>C13. The BAT that was written is what is read back.\<close>

theorem bat_roundtrip:
  assumes "quiet s" and "cur_file s = Some f" and "\<not> f_blk f" and "std_ctx hs (st_ctx s)"
    and "bat_entries (ctx_bat (st_ctx s)) \<le> hdr_max_bat_size (ctx_header (st_ctx s))"
  shows "\<exists>t b u. vhd_write_bat (ctx_bat (st_ctx s)) s = (Inr (), t) \<and> vhd_read_bat put t = (Inr b, u) \<and>
    bat_entries b = bat_entries (ctx_bat (st_ctx s)) \<and>
    bat_bat b = Some (take (bat_file_size (st_ctx s) div 4) (bat_words (st_ctx s)))"
  by (rule bat_written_read_back [OF assms])

theorem bat_roundtrip_witness:
  "\<exists>t b u. vhd_write_bat (ctx_bat (st_ctx ex_half)) ex_half = (Inr (), t) \<and> vhd_read_bat nowhere t = (Inr b, u) \<and>
    bat_entries b = 2"
proof -
  have "quiet ex_half" "cur_file ex_half = Some ex_half_file" "\<not> f_blk ex_half_file" "std_ctx 4 (st_ctx ex_half)"
    using image_ok_ex_half by (simp_all add: image_ok_def image_core_def)
  moreover have e: "bat_entries (ctx_bat (st_ctx ex_half)) = 2" "hdr_max_bat_size (ctx_header (st_ctx ex_half)) = 2"
    by (simp_all add: ex_half_def ex_image_ctx_def set_words_def ex_header_def)
  ultimately show ?thesis using bat_roundtrip [of ex_half ex_half_file 4 nowhere] by auto
qed

text \<open>C14. A change of the virtual size succeeds exactly when the size has at most \<open>max_bat_size\<close> whole
  blocks, and then leaves a footer that validates, with the new size and its geometry, and the files
  alone; otherwise it is refused and nothing changes. The test counts whole blocks only, so a size that ends inside block
  number \<open>max_bat_size\<close>, which has no entry in the table, is accepted.\<close>

theorem set_virt_size_sound:
  assumes "ftr_wf (ctx_footer (st_ctx s))"
    and "ftr_cookie (ctx_footer (st_ctx s)) = HD_COOKIE \<or> ftr_cookie (ctx_footer (st_ctx s)) = VHD_POISON_COOKIE"
  shows "if unat sz div 2097152 \<le> unat (hdr_max_bat_size (ctx_header (st_ctx s)))
    then \<exists>t. vhd_set_virt_size_no_write sz s = (Inr (), t) \<and> vhd_validate_footer (ctx_footer (st_ctx t)) = 0 \<and>
      ftr_curr_size (ctx_footer (st_ctx t)) = sz \<and> ftr_geometry (ctx_footer (st_ctx t)) = vhd_chs sz \<and> st_sys t = st_sys s
    else vhd_set_virt_size_no_write sz s = (Inl (Errno (- EINVAL)), s)"
  using set_virt_size_ok [OF assms] set_virt_size_refused [of s sz] by simp

theorem set_virt_size_sound_witness:
  "(\<exists>t. vhd_set_virt_size_no_write 0x400200 ex_image = (Inr (), t) \<and> ftr_curr_size (ctx_footer (st_ctx t)) = 0x400200) \<and>
   vhd_set_virt_size_no_write 0x600000 ex_image = (Inl (Errno (- EINVAL)), ex_image)"
proof -
  have f: "ftr_wf (ctx_footer (st_ctx ex_image))" "ftr_cookie (ctx_footer (st_ctx ex_image)) = HD_COOKIE"
    and m: "hdr_max_bat_size (ctx_header (st_ctx ex_image)) = 2"
    using ftr_wf_ex_image_footer ex_footer_cookie
    by (simp_all add: ex_image_facts ex_image_ctx_def ex_header_def) (simp add: ex_image_footer_def)
  show ?thesis using set_virt_size_sound [OF f(1) disjI1 [OF f(2)], of "0x400200"] set_virt_size_sound [OF f(1) disjI1 [OF f(2)], of "0x600000"]
    unfolding m by auto
qed

section \<open>File access, geometry, bitmaps, paths\<close>

text \<open>C15. The I/O loop terminates on a regular file, under every schedule of interruptions, short
  transfers and failures, in both directions.\<close>

theorem atomic_io_terminates:
  assumes "regular s" and "length buf = n"
  shows "fst (vhd_atomic_pio d buf n off s) \<noteq> Inl Hang"
  by (rule atomic_pio_terminates [OF assms])

theorem atomic_io_terminates_witness:
  "fst (vhd_atomic_pio Pread (zeros 512) 512 0 ex_state) \<noteq> Inl Hang"
  by (rule atomic_io_terminates) (simp_all add: regular_def ex_state_facts ex_file_def)

text \<open>C16. On a block device, whose size \<open>fstat\<close> reports as zero, a read that runs into the end of the
  device within its last, incomplete sector is repeated for ever: no number of turns of the loop ends it.\<close>

theorem atomic_io_hangs:
  assumes "cur_file s = Some f" and "f_blk f" and "sys_sched (st_sys s) = []" and "0 \<le> off"
    and "off + int m = int (f_size f)" and "0 < m" "m < 512" "m < n"
  shows "(\<forall>k. pio_loop k Pread n off 0 0 buf s = None) \<and> vhd_atomic_pio Pread buf n off s = (Inl Hang, s)"
  using pio_loop_hangs [of s f off 0 m n] assms by (simp add: vhd_atomic_pio_def vraise_def)

theorem atomic_io_hangs_witness:
  "let s = set_cur_file \<lparr>f_data = \<lambda>_. 0, f_size = 511, f_blk = True\<rparr> ex_state
   in pio_loop 1000 Pread 512 0 0 0 (zeros 512) s = None \<and> vhd_atomic_pio Pread (zeros 512) 512 0 s = (Inl Hang, s)"
proof -
  let ?f = "\<lparr>f_data = \<lambda>_. 0, f_size = 511, f_blk = True\<rparr> :: vfile"
  have "sys_sched (st_sys (set_cur_file ?f ex_state)) = []"
    using ex_state_facts(1) by (simp add: quiet_def set_cur_file_def)
  then show ?thesis
    unfolding Let_def using atomic_io_hangs [where m = 511 and f = ?f and n = 512 and buf = "zeros 512" and s = "set_cur_file ?f ex_state" and off = 0] by simp
qed

text \<open>C17. Positioned I/O behaves as a store of bytes under every schedule: a successful read after two
  successful writes to disjoint ranges returns what the first one wrote.\<close>

theorem positioned_io_is_a_store:
  assumes "vhd_pwrite bs1 (int off1) s = (Inr (), s1)" and "bs1 \<noteq> []"
    and "vhd_pwrite bs2 (int off2) s1 = (Inr (), s2)" and "bs2 \<noteq> []"
    and "off1 + length bs1 \<le> off2 \<or> off2 + length bs2 \<le> off1"
    and "vhd_pread (length bs1) (int off1) s2 = (Inr bs, t)"
  shows "bs = bs1"
  by (rule pos_store.rd_wr_wr [OF assms])

theorem positioned_io_is_a_store_witness:
  "\<exists>s1 s2 t. vhd_pwrite [1, 2] (int 0) ex_state = (Inr (), s1) \<and> vhd_pwrite [3] (int 2) s1 = (Inr (), s2) \<and>
     vhd_pread (length [1, 2 :: u8]) (int 0) s2 = (Inr [1, 2], t)"
proof -
  let ?f1 = "file_write ex_file 0 [1, 2]" and ?f2 = "file_write (file_write ex_file 0 [1, 2]) 2 [3]"
  obtain s1 where w1: "vhd_pwrite [1, 2] (int 0) ex_state = (Inr (), s1)" and s1: "quiet s1" "cur_file s1 = Some ?f1"
    using vhd_pwrite_quiet [of ex_state ex_file 0 "[1, 2]"] ex_state_facts by (auto simp: ex_file_def)
  obtain s2 where w2: "vhd_pwrite [3] (int 2) s1 = (Inr (), s2)" and s2: "quiet s2" "cur_file s2 = Some ?f2"
    using vhd_pwrite_quiet [of s1 ?f1 2 "[3]"] s1 by (auto simp: ex_file_def)
  obtain t bs where r: "vhd_pread (length [1, 2 :: u8]) (int 0) s2 = (Inr bs, t)"
    using vhd_pread_quiet [of s2 ?f2 "int 0" "length [1, 2 :: u8]"] s2
    by (simp add: f_size_file_write ex_file_def)
  from positioned_io_is_a_store [OF w1 _ w2 _ _ r] have "bs = [1, 2]" by simp
  then show ?thesis using w1 w2 r by blast
qed

text \<open>C18. The geometry \<open>vhd_chs\<close> computes: the number of sectors per track is one of the four the
  format knows, and cylinders and heads fit their fields. For sizes below 2 TiB the product of the three is the largest
  the cylinder count can give that is not above the number of sectors of the disk (the last one
  counted as a whole one, at least one, and at most the format's maximum). From 2 TiB on the number of sectors does not fit
  its 32 bits.\<close>

theorem chs_bounds:
  fixes sz :: u64
  defines "g \<equiv> vhd_chs sz"
  defines "c \<equiv> unat (GEOM_GET_CYLS g)" and "h \<equiv> unat (GEOM_GET_HEADS g)"
    and "spt \<equiv> unat (GEOM_GET_SPT g)" and "secs \<equiv> min (max 1 ((unat sz + 511) div 512)) (65535 * 16 * 255)"
  shows "spt \<in> {17, 31, 63, 255} \<and> 4 \<le> h \<and> h \<le> 16 \<and> c \<le> 65535 \<and>
    (unat sz \<le> 2 ^ 41 - 512 \<longrightarrow> c * h * spt \<le> secs \<and> secs < (c + 1) * h * spt)"
  unfolding assms using vhd_chs_bounds [of sz] by (cases "unat sz \<le> 2199023255040") (simp_all add: chs_secs_exact)

theorem chs_bounds_witness:
  "let g = vhd_chs 0x40000000; k = unat (GEOM_GET_CYLS g) * unat (GEOM_GET_HEADS g) * unat (GEOM_GET_SPT g)
   in k \<le> 2097152 \<and> 2097152 < k + unat (GEOM_GET_HEADS g) * unat (GEOM_GET_SPT g)"
proof -
  have s: "min (max 1 ((unat (0x40000000 :: u64) + 511) div 512)) (65535 * 16 * 255) = (2097152 :: nat)" by simp
  have "unat (0x40000000 :: u64) \<le> 2 ^ 41 - 512" by simp
  with chs_bounds [of "0x40000000"] show ?thesis unfolding s Let_def add_mult_distrib mult_1 by blast
qed

text \<open>C19. Setting a range of sectors in a block's bitmap, bit by bit as the write path does, marks
  exactly these sectors, in the numbering of the image's creator, old or new.\<close>

theorem bitmap_range_set:
  assumes "length m = 512" and "lo \<le> hi" "hi \<le> 4096" and "j < 4096"
  shows "vhd_bitmap_test c (set_bits c lo hi m) j \<longleftrightarrow> lo \<le> j \<and> j < hi \<or> vhd_bitmap_test c m j"
  by (rule set_bits_facts(2) [OF assms])

theorem bitmap_range_set_witness:
  "vhd_bitmap_test ex_ctx (set_bits ex_ctx 5 9 (zeros 512)) 8 \<and> \<not> vhd_bitmap_test ex_ctx (set_bits ex_ctx 5 9 (zeros 512)) 9"
  using bitmap_range_set [of "zeros 512" 5 9 8 ex_ctx] bitmap_range_set [of "zeros 512" 5 9 9 ex_ctx]
    bitmap_test_zeros [of 9 ex_ctx] by simp

text \<open>C22. The relative path \<open>relative_path_to\<close> computes leads from the directory of the first file to
  the second, when \<open>realpath\<close> gives absolute paths without empty, dot or dot-dot components.\<close>

theorem relative_path_leads_to:
  assumes "relative_path_to lc src dst s = (Inr rel, u)"
    and "\<And>sy. lc_realpath lc sy dst = Inr (path_of ts)" and "\<And>sy. lc_realpath lc sy src = Inr (path_of fs)"
    and "canonical ts" and "canonical fs"
  shows "resolve (butlast fs) rel = ts"
  by (rule relative_path_resolves [OF assms])

theorem relative_path_leads_to_witness:
  "\<exists>u. relative_path_to ex_libc ''/a/b/c'' ''/a/d'' ex_state = (Inr ''../d'', u) \<and>
     resolve [''a'', ''b''] ''../d'' = [''a'', ''d'']"
proof -
  note q = valloc_quiet [OF ex_state_facts(1)]
  have n: "next_node ''a/d'' ex_state = (Inr (Some (''a'', ''/d'')), ex_state)"
    "next_node ''a/b/c'' ex_state = (Inr (Some (''a'', ''/b/c'')), ex_state)"
    "next_node ''d'' ex_state = (Inr None, ex_state)"
    by (simp_all add: next_node_def vbind_def vret_def q DELIMITER_def)
  have "count_common ''d'' ''b/c'' 1 ex_state = (Inr 1, ex_state)"
    by (subst count_common.simps) (simp add: n)
  then have cc: "count_common_nodes ''a/d'' ''a/b/c'' ex_state = (Inr 1, ex_state)"
    unfolding count_common_nodes_def by (subst count_common.simps) (simp add: n)
  have r: "relative_path_to ex_libc ''/a/b/c'' ''/a/d'' ex_state = (Inr ''../d'', ex_state)"
    by (simp add: relative_path_to_def vbind_def vcheck_def vret_def libc_realpath_def ex_libc_def
        MAX_NAME_LEN_def cc up_nodes_def q DELIMITER_def)
  have "resolve (butlast [''a'', ''b'', ''c'']) ''../d'' = [''a'', ''d'']"
    by (rule relative_path_leads_to [OF r]) (simp_all add: ex_libc_def canonical_def node_ok_def DELIMITER_def)
  then show ?thesis using r by simp
qed

section \<open>Where the code departs from its contract\<close>

text \<open>C23. The reason for the condition \<open>reads_whole\<close>: a read of at most one block's length that
  begins in an unallocated block returns zeros for its whole length, also for the sectors that lie
  in the next block, whatever that block holds.\<close>

theorem read_skips_next_block:
  assumes "image_ok hs s f" and "ftr_type (ctx_footer (st_ctx s)) \<noteq> HD_TYPE_DIFF"
    and "S + n \<le> 4096 * nblocks (st_ctx s)" and "0 < n" "n \<le> 4096" and "\<not> allocated (st_ctx s) (S div 4096)"
  shows "vhd_io_read lc (Suc fuel) (of_nat S) (of_nat n) s = (Inr (zeros (512 * n)), s)"
  by (rule read_unallocated_skips [OF assms])

theorem read_skips_next_block_witness:
  "vhd_io_read ex_libc (Suc 0) 4095 2 ex_half = (Inr (zeros 1024), ex_half) \<and>
   vdisk (st_ctx ex_half) ex_half_file (512 * 4096) = 255"
proof -
  have "vhd_io_read ex_libc (Suc 0) (of_nat 4095) (of_nat 2) ex_half = (Inr (zeros (512 * 2)), ex_half)"
    by (rule read_skips_next_block [OF image_ok_ex_half ex_half_facts(5)]) (simp_all add: ex_half_facts)
  then show ?thesis using vdisk_ex_half by simp
qed

text \<open>C24. A byte read of less than a sector that begins inside a sector of an unallocated block and ends in the
  next sector clears 512 bytes of the caller's buffer, whatever its size: a longer buffer loses the bytes behind
  the ones asked for, a shorter one is written past its end. (Well-formed images without parent, sectors
  below 2 TiB.)\<close>

theorem byte_read_overruns:
  assumes "image_ok hs s f" and "ftr_type (ctx_footer (st_ctx s)) \<noteq> HD_TYPE_DIFF"
    and "a + n \<le> nblocks (st_ctx s) * 2097152" "a + n \<le> 2199023255040" and "a mod 2097152 + n \<le> 2097152"
    and "\<not> allocated (st_ctx s) (a div 2097152)" and "512 < a mod 512 + n" "n < 512" and "n \<le> length buf"
  shows "vhd_io_read_bytes lc (Suc fuel) buf n (of_nat a) s =
    (if 512 \<le> length buf then (Inr (zeros 512 @ drop 512 buf), s) else (Inl Undef, s))"
  by (rule byte_read_clears [OF assms])

theorem byte_read_overruns_witness:
  "vhd_io_read_bytes ex_libc 1 (replicate 20 7) 20 500 ex_image = (Inl Undef, ex_image) \<and>
   vhd_io_read_bytes ex_libc 1 (replicate 600 7) 20 500 ex_image = (Inr (zeros 512 @ replicate 88 7), ex_image)"
  using byte_read_overruns [OF image_ok_ex_image ex_image_not_diff, of 500 20 "replicate 20 7" ex_libc 0]
    byte_read_overruns [OF image_ok_ex_image ex_image_not_diff, of 500 20 "replicate 600 7" ex_libc 0]
  by (simp add: ex_image_facts ex_image_ctx_words allocated_def)

text \<open>C25. \<open>vhd_write_block\<close> tests the wrong bits of the address of the caller's buffer: for every
  buffer outside the first 512 bytes of the address space it refuses to write.\<close>

theorem write_block_always_refuses:
  assumes "512 \<le> addr"
  shows "\<exists>e \<in> {EINVAL, ERANGE}. vhd_write_block block addr data s = (Inl (Errno (- e)), s)"
proof -
  have "addr AND NOT 511 \<noteq> 0"
  proof
    assume "addr AND NOT 511 = 0"
    then have "bit (addr AND NOT (mask 9)) n = False" for n by (simp add: mask_eq_exp_minus_1)
    then have "take_bit 9 addr = addr" by (intro bit_eqI) (auto simp: bit_simps)
    then have "unat addr = take_bit 9 (unat addr)" by (metis unsigned_take_bit_eq)
    then have "unat addr < 512" using take_bit_nat_less_exp [of 9 "unat addr"] by simp
    then have "addr < 512" by (simp add: word_less_nat_alt)
    then show False using assms by simp
  qed
  then show ?thesis
    by (auto simp: vhd_write_block_def with_ctx_app vbind_def vstatus_def vhd_validate_bat_def vret_def vraise_def)
qed

theorem write_block_always_refuses_witness:
  "\<exists>e \<in> {EINVAL, ERANGE}. vhd_write_block 0 0x1000 (zeros 2097152) ex_half = (Inl (Errno (- e)), ex_half)"
  by (rule write_block_always_refuses) simp

text \<open>C26. The byte offset of a sector is taken modulo \<open>2 ^ 64\<close>, in the range check as in the access: on
  a fixed image the sector \<open>2 ^ 55 + n\<close> is read as sector \<open>n\<close>.\<close>

theorem sector_number_wraps:
  assumes "\<not> vhd_type_dynamic (st_ctx s)"
  shows "vhd_io_read lc fuel (sec + 2 ^ 55) secs s = vhd_io_read lc fuel sec secs s"
proof -
  have w: "vhd_sectors_to_bytes (x + 2 ^ 55) = vhd_sectors_to_bytes x" for x
    by (simp add: vhd_sectors_to_bytes_def push_bit_eq_mult VHD_SECTOR_SHIFT_def distrib_right)
  have "sec + 2 ^ 55 + ucast secs = sec + ucast secs + 2 ^ 55" by (simp add: add_ac)
  then show ?thesis
    using assms w by (simp only: vhd_io_read_def with_ctx_app out_of_range_def vhd_io_fixed_read_def if_True simp_thms)
qed

theorem sector_number_wraps_witness:
  "vhd_io_read ex_libc 0 (2 + 2 ^ 55) 1 (upd_ctx (\<lambda>c. c\<lparr>ctx_footer := ex_footer\<lparr>ftr_type := HD_TYPE_FIXED\<rparr>\<rparr>) ex_state) =
   vhd_io_read ex_libc 0 2 1 (upd_ctx (\<lambda>c. c\<lparr>ctx_footer := ex_footer\<lparr>ftr_type := HD_TYPE_FIXED\<rparr>\<rparr>) ex_state)"
  by (rule sector_number_wraps)
    (simp add: upd_ctx_def vhd_type_dynamic_def HD_TYPE_FIXED_def HD_TYPE_DYNAMIC_def HD_TYPE_DIFF_def)

section \<open>The event loop of tapdisk\<close>

text \<open>C27. A wait that does not report an error returns 0 and leaves nothing behind: no event that is
  due and no event that was unregistered remains, and the depth of nesting is back where it was,
  whatever the callbacks do, nested waits included.\<close>

theorem wait_leaves_nothing_due:
  assumes "scheduler_wait_for_events prog k w = (Inr r, t)" and "sc_depth (sw_sched w) = 0" and "0 \<le> r"
  shows "r = 0 \<and> sc_depth (sw_sched t) = 0 \<and>
    (\<forall>e \<in> set (sc_events (sw_sched t)). \<not> ev_dead e \<and> ev_pending e = 0)"
proof (cases k)
  case 0
  then show ?thesis using assms by (simp add: vraise_def)
next
  case (Suc j)
  from wait_step [OF loop_ok(1) assms(1) [unfolded Suc]] assms(2,3) show ?thesis by auto
qed

text \<open>A reader of descriptor 3 whose callback registers a timer and unregisters the reader.\<close>

definition ex_prog :: "nat \<Rightarrow> int \<Rightarrow> u8 \<Rightarrow> sworld \<Rightarrow> cb_op list" where
  "ex_prog cb i p w = [Cb_register SCHEDULER_POLL_TIMEOUT (- 1) 10 (Some 1) 0, Cb_unregister i]"

definition ex_event :: "int \<Rightarrow> bool \<Rightarrow> event" where
  "ex_event i m = \<lparr>ev_mode = SCHEDULER_POLL_READ_FD, ev_dead = False, ev_pending = 0, ev_masked = m,
     ev_id = i, ev_fd = 3, ev_timeout = 0, ev_deadline = 0, ev_cb = 0, ev_private = 0\<rparr>"

definition ex_loop :: "event list \<Rightarrow> sworld" where
  "ex_loop es = \<lparr>sw_sched = scheduler_initialize\<lparr>sc_events := es, sc_uuid := int (length es) + 1\<rparr>, sw_clock = [],
     sw_select = [(1, \<lparr>read_fds = {3}, write_fds = {}, except_fds = {}\<rparr>)], sw_oom = [], sw_trace = []\<rparr>"

lemmas ex_loop_defs = ex_loop_def ex_event_def ex_prog_def scheduler_initialize_def scheduler_select_def
  scheduler_prepare_events_def prepare_event_def gettime_def select_call_def scheduler_check_events_def
  scheduler_check_fd_events_def check_fd_event_def take_ready_def scheduler_check_timeouts_def check_timeout_def
  scheduler_event_callback_def scheduler_gc_events_def scheduler_register_event_def scheduler_unregister_event_def
  ignore_error_def INT_MAX_def SCHEDULER_MAX_TIMEOUT_def has_def poll_defs no_fds_def vm_simps

definition eight :: nat where "eight = Suc (Suc (Suc (Suc (Suc (Suc (Suc (Suc 0)))))))"

lemma ex_loop_run:
  "\<exists>t. scheduler_wait_for_events ex_prog eight (ex_loop [ex_event 1 False]) = (Inr 0, t) \<and>
    map ev_id (sc_events (sw_sched t)) = [2] \<and> sw_trace t = [(1, SCHEDULER_POLL_READ_FD)]"
  by (simp add: ex_loop_defs eight_def Let_def)

theorem wait_leaves_nothing_due_witness:
  "\<exists>t. scheduler_wait_for_events ex_prog eight (ex_loop [ex_event 1 False]) = (Inr 0, t) \<and>
    map ev_id (sc_events (sw_sched t)) = [2] \<and> sc_depth (sw_sched t) = 0 \<and>
    (\<forall>e \<in> set (sc_events (sw_sched t)). \<not> ev_dead e \<and> ev_pending e = 0)"
proof -
  obtain t where t: "scheduler_wait_for_events ex_prog eight (ex_loop [ex_event 1 False]) = (Inr 0, t)"
    "map ev_id (sc_events (sw_sched t)) = [2]"
    by (rule exE [OF ex_loop_run]) (elim conjE, rule that)
  have "sc_depth (sw_sched (ex_loop [ex_event 1 False])) = 0" by (simp add: ex_loop_def scheduler_initialize_def)
  with t wait_leaves_nothing_due [OF t(1) this order_refl] show ?thesis by (intro exI [of _ t] conjI) simp_all
qed

text \<open>C28. Once \<open>scheduler_unregister_event\<close> has been called for a registered event, no later wait
  calls it back, whatever the callbacks do and however the wait ends.\<close>

theorem unregistered_is_not_called:
  assumes "ids_ok w" and "e \<in> set (sc_events (sw_sched w))"
    and "scheduler_unregister_event (ev_id e) w = (r, v)"
  shows "filter (\<lambda>(i, _). i = ev_id e) (sw_trace (snd (scheduler_wait_for_events prog k v))) =
    filter (\<lambda>(i, _). i = ev_id e) (sw_trace w)"
  using gone.run_vinv(3) [of "ev_id e" "filter (\<lambda>(i, _). i = ev_id e) (sw_trace w)" prog k]
    gone_unregister [OF assms(1,2) refl] assms(3)
  by (simp add: vinv_def gone_def)

lemma ids_ok_ex_loop: "ids_ok (ex_loop [ex_event 1 False])"
  by (simp add: ids_ok_def ex_loop_def ex_event_def scheduler_initialize_def)

theorem unregistered_is_not_called_witness:
  "filter (\<lambda>(i, _). i = 1) (sw_trace (snd (scheduler_wait_for_events ex_prog eight
     (snd (scheduler_unregister_event 1 (ex_loop [ex_event 1 False])))))) = []"
proof -
  have e: "ex_event 1 False \<in> set (sc_events (sw_sched (ex_loop [ex_event 1 False])))"
    "ev_id (ex_event 1 False) = 1" "sw_trace (ex_loop [ex_event 1 False]) = []"
    by (simp_all add: ex_loop_def ex_event_def)
  have u: "scheduler_unregister_event (ev_id (ex_event 1 False)) (ex_loop [ex_event 1 False]) =
      (fst (scheduler_unregister_event 1 (ex_loop [ex_event 1 False])),
       snd (scheduler_unregister_event 1 (ex_loop [ex_event 1 False])))"
    by (simp add: e(2))
  from unregistered_is_not_called [OF ids_ok_ex_loop e(1) u, of ex_prog eight] show ?thesis
    by (simp add: e(2,3))
qed

text \<open>C29. The numbers of the registered events stay distinct and positive through every wait.\<close>

theorem event_numbers_distinct:
  assumes "ids_ok w"
  shows "distinct (map ev_id (sc_events (sw_sched (snd (scheduler_wait_for_events prog k w))))) \<and>
    (\<forall>e \<in> set (sc_events (sw_sched (snd (scheduler_wait_for_events prog k w)))). 0 < ev_id e)"
  using ids.run_vinv(3) [of prog k] assms by (simp add: vinv_def ids_ok_def)

theorem event_numbers_distinct_witness:
  "distinct (map ev_id (sc_events (sw_sched (snd (scheduler_wait_for_events ex_prog eight (ex_loop [ex_event 1 False]))))))"
  using event_numbers_distinct [OF ids_ok_ex_loop, of ex_prog eight] by blast

text \<open>C30. A wait at the top level returns when the callbacks make a bounded number of calls and do
  not wait themselves: enough fuel, linear in the number of events, never ends in \<open>Hang\<close>. New
  events registered by callbacks do not keep the walk going.\<close>

theorem wait_terminates:
  assumes "bounded_prog prog B" and "sc_depth (sw_sched w) = 0"
    and "length (sc_events (sw_sched w)) * Suc B + B + 1 < k"
  shows "fst (scheduler_wait_for_events prog k w) \<noteq> Inl Hang"
  by (rule wait_returns [OF assms])

theorem wait_terminates_witness:
  "fst (scheduler_wait_for_events ex_prog eight (ex_loop [ex_event 1 False])) \<noteq> Inl Hang"
proof -
  have "bounded_prog ex_prog 2" by (simp add: bounded_prog_def ex_prog_def)
  then show ?thesis
    by (rule wait_terminates) (simp_all add: ex_loop_def scheduler_initialize_def eight_def)
qed

text \<open>C31. The wait sleeps no longer than allowed: not longer than the limit set by the clients, nor
  600 seconds, nor past the deadline of an event that is live and not masked.\<close>

theorem sleep_bounded:
  assumes "scheduler_prepare_events w = (r, t)" and "gettime w = (Inr now, u)"
    and "0 \<le> sc_max_timeout (sw_sched w)"
  shows "0 \<le> sc_timeout (sw_sched t) \<and> sc_timeout (sw_sched t) \<le> sc_max_timeout (sw_sched w) \<and>
    sc_timeout (sw_sched t) \<le> 600 \<and>
    (\<forall>e \<in> set (sc_events (sw_sched w)). active e \<and> has (ev_mode e) SCHEDULER_POLL_TIMEOUT \<longrightarrow>
      sc_timeout (sw_sched t) \<le> max 0 (s32 (ev_deadline e - now)))"
  using prepare_timeout [OF assms] by (simp add: remaining_def SCHEDULER_MAX_TIMEOUT_def)

theorem sleep_bounded_witness:
  "sc_timeout (sw_sched (snd (scheduler_prepare_events (ex_loop [ex_event 1 False])))) = 0"
  using sleep_bounded [of "ex_loop [ex_event 1 False]" _ _ 0, OF surjective_pairing [of "scheduler_prepare_events _"]]
  by (simp add: ex_loop_def scheduler_initialize_def gettime_def)

text \<open>C32. A \<open>select\<close> that returns subsets of the descriptors asked for, and their number, has its
  answer used up by the events: \<open>BUG_ON (ret)\<close> does not fire.\<close>

theorem select_answer_used_up:
  assumes "scheduler_prepare_events w = (r, t)" and "select_answer (sc_fds (sw_sched t)) n fs"
  shows "fst (scheduler_check_fd_events n (t\<lparr>sw_sched := (sw_sched t)\<lparr>sc_fds := fs\<rparr>\<rparr>)) = Inr 0"
  by (rule select_answer_consumed [OF assms])

theorem select_answer_used_up_witness:
  "fst (scheduler_check_fd_events 1 ((snd (scheduler_prepare_events (ex_loop [ex_event 1 False])))
     \<lparr>sw_sched := (sw_sched (snd (scheduler_prepare_events (ex_loop [ex_event 1 False]))))
       \<lparr>sc_fds := \<lparr>read_fds = {3}, write_fds = {}, except_fds = {}\<rparr>\<rparr>\<rparr>)) = Inr 0"
  by (rule select_answer_used_up [OF surjective_pairing [of "scheduler_prepare_events _"]])
    (simp add: select_answer_def ex_loop_defs Let_def)

text \<open>C33. A masked reader \<open>e\<close> with no live reader of its descriptor before it in the list is marked as
  pending when \<open>select\<close> reports that descriptor as ready, which another, unmasked reader has asked
  for: a wait at the top level then ends the process in \<open>BUG_ON (event->pending && event->masked)\<close>,
  for every correct answer of \<open>select\<close>, whatever the other events and the callbacks are.\<close>

theorem masked_reader_aborts:
  assumes "sc_depth (sw_sched w) = 0" and "sc_events (sw_sched w) = es1 @ e # es2" and "ev_masked e"
    and "reads_fd (ev_fd e) e" and "\<And>a. a \<in> set es1 \<Longrightarrow> \<not> reads_fd (ev_fd e) a"
    and "scheduler_prepare_events w = (x, t)" and "sw_select w = (r, fs) # rs"
    and "select_answer (sc_fds (sw_sched t)) r fs" and "ev_fd e \<in> read_fds fs"
  shows "fst (scheduler_wait_for_events prog (Suc k) w) = Inl Abort"
  by (rule wait_aborts [OF assms])

theorem masked_reader_aborts_witness:
  "fst (scheduler_wait_for_events ex_prog eight (ex_loop [ex_event 1 True, ex_event 2 False])) = Inl Abort"
  unfolding eight_def
  by (rule masked_reader_aborts [where ?es1.0 = "[]" and ?es2.0 = "[ex_event 2 False]" and e = "ex_event 1 True"
        and r = 1 and fs = "\<lparr>read_fds = {3}, write_fds = {}, except_fds = {}\<rparr>" and rs = "[]", OF _ _ _ _ _ surjective_pairing [of "scheduler_prepare_events _"]])
    (simp_all add: ex_loop_defs Let_def reads_fd_def select_answer_def)

section \<open>The limit on log messages\<close>

text \<open>C34. In any stretch of time shorter than the interval at most what is left of the current burst
  and one more burst of messages pass.\<close>

theorem loglimit_window:
  assumes "rl_ok rl" and "\<forall>t \<in> set ts. normal t \<and> w \<le> usecs t \<and> usecs t < w + rl_interval rl * 1000"
  shows "int (passes rl ts) \<le> (rl_burst rl - rl_count rl) + rl_burst rl"
  by (rule passes_in_window [OF assms])

theorem loglimit_window_witness:
  "int (passes (tapdisk_loglimit_init 2 1000 (5, 0)) [(5, 10), (5, 20), (5, 999999)]) \<le> 4"
proof -
  have "rl_ok (tapdisk_loglimit_init 2 1000 (5, 0))" by (simp add: rl_ok_def tapdisk_loglimit_init_def normal_def)
  from loglimit_window [OF this, of "[(5, 10), (5, 20), (5, 999999)]" 5000000] show ?thesis
    by (simp add: normal_def usecs_def tapdisk_loglimit_init_def)
qed

section \<open>Merging of requests\<close>

text \<open>C35. Merging and taking apart: the merged queue is a list of groups of contiguous requests that
  contains every request once, in order; whichever merged requests complete, in whatever order,
  each of their requests gets its answer and is as it was before, and the rest stays merged. When
  all have completed every record is free again.\<close>

theorem merge_then_split:
  assumes "groups h0 gs st" and "distinct q" and "set q \<inter> set (ids_of gs) = {}"
  shows "\<exists>new t. io_merge q st = (Inr (map (\<lambda>g. hd (fst g)) new), t) \<and> concat (map fst new) = q \<and>
    (\<forall>g \<in> set new. joined h0 (fst g)) \<and>
    (\<forall>sel rest. mset (new @ gs) = mset (map fst sel @ rest) \<longrightarrow>
      (\<exists>u. io_split (map (\<lambda>(g, r). (hd (fst g), r)) sel) (int (length sel)) t =
          (Inr (concat (map (\<lambda>(g, r). answers h0 g r) sel)), u) \<and> groups h0 rest u \<and>
        (rest = [] \<longrightarrow> os_io u = h0 \<and> free_opio_cnt (os_ctx u) = num_opios (os_ctx u))))"
proof -
  from io_merge_ok [OF assms] obtain new t where
    n: "io_merge q st = (Inr (map (\<lambda>g. hd (fst g)) new), t)" "groups h0 (new @ gs) t" "ids_of new = q"
      "\<forall>g \<in> set new. joined h0 (fst g)" by blast
  have "\<exists>u. io_split (map (\<lambda>(g, r). (hd (fst g), r)) sel) (int (length sel)) t =
        (Inr (concat (map (\<lambda>(g, r). answers h0 g r) sel)), u) \<and> groups h0 rest u \<and>
      (rest = [] \<longrightarrow> os_io u = h0 \<and> free_opio_cnt (os_ctx u) = num_opios (os_ctx u))"
    if m: "mset (new @ gs) = mset (map fst sel @ rest)" for sel rest
  proof -
    from split_events_ok [OF world_perm [OF n(2) m]] obtain u where
      u: "split_events (map (\<lambda>(g, r). (hd (fst g), r)) sel) t = (Inr (concat (map (\<lambda>(g, r). answers h0 g r) sel)), u)"
        "groups h0 rest u" by blast
    have "os_io u = h0 \<and> free_opio_cnt (os_ctx u) = num_opios (os_ctx u)" if "rest = []"
      using u(2) poolD(4) [of "os_ctx u" "[]"] by (simp add: that world_def fun_eq_iff)
    with u show ?thesis by (intro exI [of _ u]) (simp add: io_split_def)
  qed
  with n show ?thesis by blast
qed

text \<open>Four records; requests of 512 bytes each, contiguous when their numbers are.\<close>

definition ex_req :: "nat \<Rightarrow> iocb" where
  "ex_req i = \<lparr>io_fd = 5, io_write = True, io_buf = 4096 + 512 * of_nat i, io_nbytes = 512,
     io_offset = 512 * of_nat i, io_data = Tio i\<rparr>"

definition ex_opios :: ostate where
  "ex_opios = \<lparr>os_ctx = \<lparr>num_opios = 4, free_opio_cnt = 4, opios = replicate 4 no_opio, free_opios = [0..<4]\<rparr>, os_io = ex_req\<rparr>"

lemma groups_ex_opios: "groups ex_req [] ex_opios"
  by (auto simp: world_def pool_def ex_opios_def ex_req_def no_opio_def in_set_conv_nth)

theorem merge_then_split_witness:
  "\<exists>merged t evs u. io_merge [1, 2, 4] ex_opios = (Inr merged, t) \<and>
    io_split (map (\<lambda>i. (i, 0)) merged) (int (length merged)) t = (Inr evs, u) \<and> os_io u = ex_req"
proof -
  have "distinct [1, 2, 4 :: nat]" "set [1, 2, 4 :: nat] \<inter> set (ids_of []) = {}" by simp_all
  from merge_then_split [OF groups_ex_opios this] obtain new t where
    n: "io_merge [1, 2, 4] ex_opios = (Inr (map (\<lambda>g. hd (fst g)) new), t)" and
    s: "\<And>sel rest. mset (new @ []) = mset (map fst sel @ rest) \<Longrightarrow>
      \<exists>u. io_split (map (\<lambda>(g, r). (hd (fst g), r)) sel) (int (length sel)) t =
          (Inr (concat (map (\<lambda>(g, r). answers ex_req g r) sel)), u) \<and> groups ex_req rest u \<and>
        (rest = [] \<longrightarrow> os_io u = ex_req \<and> free_opio_cnt (os_ctx u) = num_opios (os_ctx u))" by blast
  have m: "mset (new @ []) = mset (map fst (map (\<lambda>g. (g, 0 :: u64)) new) @ [])" by (simp add: comp_def)
  from s [OF m] obtain u where
    "io_split (map (\<lambda>(g, r). (hd (fst g), r)) (map (\<lambda>g. (g, 0)) new)) (int (length (map (\<lambda>g. (g, 0 :: u64)) new))) t =
      (Inr (concat (map (\<lambda>(g, r). answers ex_req g r) (map (\<lambda>g. (g, 0)) new))), u)" "os_io u = ex_req" by blast
  with n show ?thesis by (auto simp: comp_def)
qed

text \<open>C36. Doing the merged requests has the same effect on memory and files as doing the requests of
  the queue one after the other, as long as their lengths do not add up to 2^64.\<close>

theorem merged_requests_same_effect:
  assumes "groups h0 gs st" and "distinct q" and "set q \<inter> set (ids_of gs) = {}"
    and "sum_list (map (\<lambda>i. unat (io_nbytes (h0 i))) q) < 2 ^ 64"
  shows "\<exists>merged t. io_merge q st = (Inr merged, t) \<and> (\<forall>w. fold (\<lambda>i. transfer (os_io t i)) merged w = fold (\<lambda>i. transfer (h0 i)) q w)"
proof -
  from io_merge_ok [OF assms(1-3)] obtain new t where
    n: "io_merge q st = (Inr (map (\<lambda>g. hd (fst g)) new), t)" "groups h0 (new @ gs) t" "ids_of new = q"
      "\<forall>g \<in> set new. joined h0 (fst g)" by blast
  have "length_of h0 (fst g) \<le> length_of h0 (ids_of new)" if "g \<in> set new" for g
    using that by (induction new) auto
  then have "\<forall>g \<in> set new. joined h0 (fst g) \<and> length_of h0 (fst g) < 2 ^ 64"
    using n(3,4) assms(4) by fastforce
  then have "fold (\<lambda>i. transfer (os_io t i)) (map (\<lambda>g. hd (fst g)) new) w = fold (\<lambda>i. transfer (h0 i)) q w" for w
    unfolding fold_merged [OF n(2)] n(3) [symmetric] by (rule groups_transfer)
  with n(1) show ?thesis by blast
qed

theorem merged_requests_same_effect_witness:
  "\<exists>merged t. io_merge [1, 2, 4] ex_opios = (Inr merged, t) \<and>
    (\<forall>w. fold (\<lambda>i. transfer (os_io t i)) merged w = fold (\<lambda>i. transfer (ex_req i)) [1, 2, 4] w)"
  by (rule merged_requests_same_effect [OF groups_ex_opios]) (simp_all add: ex_req_def)

section \<open>The queue of requests\<close>

text \<open>C37. A submit hands the queued requests to the kernel; the requests of those merged ones the
  kernel does not take are reported with the error, once each and in order, and nothing else is. The
  callback of request \<open>t\<close> told the error \<open>e\<close> queues the requests \<open>ops t e\<close>, which are not in use: they are
  queued as far as there is room, with the failed requests still counted, and deferred after that.
  The last request queued must not carry a link into the deferred list (\<open>follows\<close>; see C39).\<close>

theorem submit_hands_over_or_reports:
  assumes "queue_ok h0 w qs gs ds" and "follows (qw_next w) qs" and "\<And>t e v. prog t e v = ops t e" and "qs \<noteq> []"
    and "qw_submit w = r # rs" and "length qs \<le> fuel"
    and "rep = (\<lambda>i. report h0 (i, word_of_int (if r < 0 then r else - EIO)))"
    and "distinct (qs @ concat (map fst gs) @ ds @ map op_id (queued_by ops (map rep qs)))"
  shows "\<exists>new. concat (map fst new) = qs \<and>
    (\<forall>failed added. failed = concat (map fst (drop (nat r) new)) \<longrightarrow> added = queued_by ops (map rep failed) \<longrightarrow>
      r \<le> int (length new) \<longrightarrow> (\<exists>u. tapdisk_lio_submit prog fuel w = (Inr (max 0 r), u) \<and>
        queue_ok (prep_all added h0) u (take (room_of 0 w qs gs) (map op_id added)) (take (nat r) new @ gs)
          (ds @ drop (room_of 0 w qs gs) (map op_id added)) \<and>
        tq_size (qw_q u) = tq_size (qw_q w) \<and> qw_done u = qw_done w @ map rep failed))"
  by (rule lio_submit_ops [where prog = prog, OF assms])

definition ex_queue :: "nat list \<Rightarrow> nat list \<Rightarrow> (nat \<Rightarrow> nat option) \<Rightarrow> int \<Rightarrow> qworld" where
  "ex_queue qs ds nx pending = \<lparr>qw_q = \<lparr>tq_size = 2, tq_tio = Some Td_tio_lio, tq_queued = length qs,
       tq_iocbs = qs @ replicate (2 - length qs) 0, tq_iocbs_pending = pending, tq_tiocbs_pending = pending,
       tq_head = (case ds of [] \<Rightarrow> None | d # _ \<Rightarrow> Some d), tq_tail = (if ds = [] then None else Some (last ds)),
       tq_tiocbs_deferred = int (length ds), tq_deferrals = 0\<rparr>, qw_os = ex_opios, qw_next = nx,
     qw_submit = [- 11], qw_events = [(1, [(1, 512)])], qw_rw = [], qw_done = []\<rparr>"

lemma queue_ok_ex_queue: "queue_ok ex_req (ex_queue [1, 2] [3] ((\<lambda>_. None)(1 := Some 2)) 0) [1, 2] [] [3]"
  using groups_ex_opios by (simp add: queue_ok_def queue_at_def ex_queue_def ex_req_def)


lemma queue_ok_ex_pending: "queue_ok ex_req (ex_queue [2] [3] (\<lambda>_. None) 1) [2] [([1], [])] [3]"
  using groups_singles [OF groups_ex_opios, of "[1]"] by (simp add: queue_ok_def queue_at_def ex_queue_def ex_req_def)

lemma ex_queue_done [simp]: "qw_done (ex_queue qs ds nx pending) = []"
  by (simp add: ex_queue_def)

text \<open>A callback that queues request 4 when request 1 is done or has failed.\<close>

definition ex_ops :: "nat \<Rightarrow> int \<Rightarrow> qop list" where
  "ex_ops t e = (if t = 1 then [Q_queue 4 5 True 6144 512 2048] else [])"

theorem submit_hands_over_or_reports_witness:
  "\<exists>u. tapdisk_lio_submit (\<lambda>t e _. ex_ops t e) 3 (ex_queue [1, 2] [3] ((\<lambda>_. None)(1 := Some 2)) 0) = (Inr 0, u) \<and>
    qw_done u = [(1, - 11), (2, - 11)] \<and> tq_queued (qw_q u) = 0 \<and> tq_tiocbs_deferred (qw_q u) = 2"
proof -
  let ?w = "ex_queue [1, 2] [3] ((\<lambda>_. None)(1 := Some 2)) 0"
  let ?rep = "\<lambda>i. report ex_req (i, word_of_int (if (- 11 :: int) < 0 then - 11 else - EIO))"
  have f: "follows (qw_next ?w) [1, 2]" "qw_submit ?w = [- 11]" "room_of 0 ?w [1, 2] [] = 0"
    by (simp_all add: ex_queue_def room_of_def)
  have r: "?rep i = (i, - 11)" for i by (simp add: report_def res_err_def ex_req_def)
  have "distinct ([1, 2] @ concat (map fst ([] :: group list)) @ [3] @ map op_id (queued_by ex_ops (map ?rep [1, 2])))"
    unfolding r by (simp add: ex_ops_def)
  from submit_hands_over_or_reports [where prog = "\<lambda>t e _. ex_ops t e" and fuel = 3, OF queue_ok_ex_queue f(1) refl _ f(2) _ refl this]
  obtain u where u: "tapdisk_lio_submit (\<lambda>t e _. ex_ops t e) 3 ?w = (Inr 0, u)" "qw_done u = map ?rep [1, 2]"
    "queue_ok (prep_all (queued_by ex_ops (map ?rep [1, 2])) ex_req) u [] [] ([3] @ map op_id (queued_by ex_ops (map ?rep [1, 2])))"
    unfolding f(3) by auto
  from queue_okD(4,12) [OF u(3)] u(1,2) show ?thesis unfolding r by (simp add: ex_ops_def)
qed

text \<open>C38. When the kernel reports merged requests as done, in any order, each request of theirs is
  reported once, with its answer, and the others stay with the kernel. The callback of request \<open>t\<close>
  told the result \<open>e\<close> queues the requests \<open>ops t e\<close>, its own one if it likes, but none that is in use or
  still to be completed in this round (\<open>careful\<close>): they are queued as far as there is room now that
  the completed requests no longer count, and deferred after that. At last deferred requests move up,
  in order, until the queue is full.\<close>

theorem event_reports_and_refills:
  assumes "queue_ok h0 w qs gs ds" and "\<And>t e v. prog t e v = ops t e" and "mset gs = mset (map fst sel @ gs')"
    and "qw_events w = (int (length sel), map (\<lambda>(g, r). (hd (fst g), r)) sel) # es"
    and "reps = map (report h0) (concat (map (\<lambda>(g, r). answers h0 g r) sel))" and "careful ops reps"
    and "distinct (qs @ concat (map fst gs') @ ds @ map op_id (queued_by ops reps))"
    and "late = ds @ drop (room_of 0 w qs gs') (map op_id (queued_by ops reps))"
  shows "\<exists>u n. tapdisk_lio_event prog w = (Inr (), u) \<and>
    queue_ok (prep_all (queued_by ops reps) h0) u
      (qs @ take (room_of 0 w qs gs') (map op_id (queued_by ops reps)) @ take n late) gs' (drop n late) \<and>
    (drop n late = [] \<or> tapdisk_queue_full (qw_q u)) \<and> tq_size (qw_q u) = tq_size (qw_q w) \<and> qw_done u = qw_done w @ reps"
  by (rule lio_event_ops [where prog = prog, OF assms])

theorem event_reports_and_refills_witness:
  "\<exists>u. tapdisk_lio_event (\<lambda>t e _. ex_ops t e) (ex_queue [2] [3] (\<lambda>_. None) 1) = (Inr (), u) \<and> qw_done u = [(1, 0)] \<and>
    tq_iocbs (qw_q u) = [2, 4] \<and> tq_head (qw_q u) = Some 3"
proof -
  let ?w = "ex_queue [2] [3] (\<lambda>_. None) 1" and ?sel = "[(([1], []) :: group, 512 :: u64)]"
  let ?reps = "map (report ex_req) (concat (map (\<lambda>(g, r). answers ex_req g r) ?sel))"
  have f: "mset [([1], [])] = mset (map fst ?sel @ [])" "tq_size (qw_q ?w) = 2"
    "qw_events ?w = (int (length ?sel), map (\<lambda>(g, r). (hd (fst g), r)) ?sel) # []" "room_of 0 ?w [2] [] = 1"
    by (simp_all add: ex_queue_def room_of_def)
  have r: "?reps = [(1, 0)]"
    by (simp add: report_def res_err_def ex_req_def answers_def)
  have q: "map op_id (queued_by ex_ops ?reps) = [4]" unfolding r by (simp add: ex_ops_def)
  have "careful ex_ops ?reps" "distinct ([2] @ concat (map fst ([] :: group list)) @ [3] @ map op_id (queued_by ex_ops ?reps))"
    unfolding q unfolding r by simp_all
  from event_reports_and_refills [where prog = "\<lambda>t e _. ex_ops t e", OF queue_ok_ex_pending refl f(1,3) refl this refl]
  obtain u n where u: "tapdisk_lio_event (\<lambda>t e _. ex_ops t e) ?w = (Inr (), u)" "qw_done u = ?reps" "tq_size (qw_q u) = 2"
    "queue_ok (prep_all (queued_by ex_ops ?reps) ex_req) u ([2, 4] @ take n [3]) [] (drop n [3])"
    unfolding q f(2,4) by auto
  have n: "n = 0" using queue_okD(8) [OF u(4)] u(3) by (cases n) simp_all
  have "length (tq_iocbs (qw_q u)) = 2" using queue_okD(6) [OF u(4)] u(3) by simp
  then have "tq_iocbs (qw_q u) = [2, 4]" using queue_okD(5) [OF u(4)] by (simp add: n)
  moreover have "tq_head (qw_q u) = Some 3" using queue_okD(9) [OF u(4)] by (simp add: n)
  ultimately show ?thesis using u(1,2) unfolding r by simp
qed



section \<open>The journal\<close>

text \<open>C5. A journal protects an image. On a whole image without a batmap \<open>vhd_journal_create\<close> and any number
  of calls of \<open>vhd_journal_add_block\<close> succeed. Whatever is done to the image afterwards: if every byte of
  the old file that is not part of the metadata nor of an added block (its bitmap, its data or both,
  by \<open>mode\<close>) is still there, \<open>vhd_journal_revert\<close> succeeds and the file has the size and the contents it
  had before the journal was created.\<close>

theorem journal_restores_image:
  assumes "quiet (j_vhd j)" and "sys_files (st_sys (j_vhd j)) name = Some f0"
    and "sys_files (st_sys (j_vhd j)) jfile = None" and "whole_image hs f0" and "length name < MAX_NAME_LEN"
    and "\<forall>b \<in> set bs. b < nblocks (loaded f0 [] 0)" and "length bs < 500000000"
  shows "\<exists>j1 j2. vhd_journal_create lc fuel name jfile j = (Inr (), j1) \<and>
    vfor bs (\<lambda>b. vhd_journal_add_block (of_nat b) mode) j1 = (Inr (), j2) \<and>
    (\<forall>k f. same_journal j2 k \<and> image_file k = Some f \<and> \<not> f_blk f \<and>
       (\<forall>x < f_size f0. x \<in> meta_bytes f0 \<union> (\<Union>b \<in> set bs. block_bytes (loaded f0 [] 0) mode b) \<or>
          x < f_size f \<and> f_data f x = f_data f0 x) \<longrightarrow>
       (\<exists>k' g. vhd_journal_revert lc fuel k = (Inr (), k') \<and> image_file k' = Some g \<and> f_size g = f_size f0 \<and>
          (\<forall>x < f_size f0. f_data g x = f_data f0 x)))"
  by (rule create_add_revert) (rule assms)+

theorem journal_restores_image_witness:
  "\<exists>j1 j2. vhd_journal_create ex_libc 0 ''a.vhd'' ''a.jnl'' (ex_journal 2) = (Inr (), j1) \<and>
    vfor [0, 1] (\<lambda>b. vhd_journal_add_block (of_nat b) 3) j1 = (Inr (), j2) \<and>
    (\<forall>k f. same_journal j2 k \<and> image_file k = Some f \<and> \<not> f_blk f \<and>
       (\<forall>x < f_size (ex_disk 2). x \<in> meta_bytes (ex_disk 2) \<union> (\<Union>b \<in> set [0, 1]. block_bytes (loaded (ex_disk 2) [] 0) 3 b) \<or>
          x < f_size f \<and> f_data f x = f_data (ex_disk 2) x) \<longrightarrow>
       (\<exists>k' g. vhd_journal_revert ex_libc 0 k = (Inr (), k') \<and> image_file k' = Some g \<and> f_size g = f_size (ex_disk 2) \<and>
          (\<forall>x < f_size (ex_disk 2). f_data g x = f_data (ex_disk 2) x)))"
  by (rule journal_restores_image [OF ex_journal_facts(1-3) whole_ex_disk_2 ex_journal_facts(4)])
    (simp_all add: ex_disk_words)

text \<open>C6. What a revert does, byte for byte. The journal records the metadata \<open>ms\<close> and the data \<open>ds\<close> of a file
  \<open>f0\<close>; the image is any file \<open>f\<close> by now. The revert succeeds, the file has the size of \<open>f0\<close>, a byte covered by
  an entry or unchanged since then has its old value, and every other byte is left alone.\<close>

theorem revert_undoes:
  assumes "journal_of f0 ms ds j" and "image_file j = Some f" and "\<not> f_blk f"
    and "length (ctx_file (j_ctx j)) < MAX_NAME_LEN"
  shows "\<exists>k g. vhd_journal_revert lc fuel j = (Inr (), k) \<and> image_file k = Some g \<and> f_size g = f_size f0 \<and>
    (\<forall>x < f_size f0. x \<in> logged (ms @ ds) \<or> x < f_size f \<and> f_data f x = f_data f0 x \<longrightarrow> f_data g x = f_data f0 x) \<and>
    (\<forall>x < f_size f0. x \<notin> logged (ms @ ds) \<and> x < f_size f \<longrightarrow> f_data g x = f_data f x)"
  by (rule revert_bytes) (rule assms)+

theorem revert_undoes_witness:
  "\<exists>ms j k g. journal_of (ex_disk 2) ms [] j \<and> vhd_journal_revert ex_libc 0 j = (Inr (), k) \<and> image_file k = Some g \<and>
    f_size g = f_size (ex_disk 2) \<and> f_data g 0 = f_data (ex_disk 2) 0"
proof -
  from ex_created obtain ms j f where j: "journal_of (ex_disk 2) ms [] j" "image_file j = Some f" "\<not> f_blk f"
    and n: "length (ctx_file (j_ctx j)) < MAX_NAME_LEN" and c: "0 \<in> logged ms" by blast
  have "0 < f_size (ex_disk 2)" by (simp add: ex_disk_reads)
  with revert_undoes [OF j n, of ex_libc 0] j(1) c show ?thesis by (metis UnCI logged_simps(2))
qed

text \<open>C20. \<open>vhd_journal_update\<close> with data that the image holds appends one entry: the file of the journal
  encodes the log with the entry added, with its counters, offsets and checksum, and the image is
  not touched.\<close>

theorem update_appends:
  assumes "journal_of f0 ms ds j" and "image_file j = Some f" and "data_ok d"
    and "d = file_read f0 (unat off) (length d)" and "unat off + length d \<le> f_size f0" and "length ds < 1073741000"
  shows "\<exists>k pad. vhd_journal_update off d VHD_JOURNAL_ENTRY_TYPE_DATA j = (Inr (), k) \<and>
    journal_of f0 ms (ds @ [Item VHD_JOURNAL_ENTRY_TYPE_DATA off d pad]) k \<and> image_file k = Some f"
  by (rule update_data_ok) (rule assms)+

theorem update_appends_witness:
  "\<exists>ms j k pad f. journal_of (ex_disk 2) ms [] j \<and>
    vhd_journal_update 4096 (file_read (ex_disk 2) 4096 512) VHD_JOURNAL_ENTRY_TYPE_DATA j = (Inr (), k) \<and>
    journal_of (ex_disk 2) ms ([] @ [Item VHD_JOURNAL_ENTRY_TYPE_DATA 4096 (file_read (ex_disk 2) 4096 512) pad]) k \<and>
    image_file k = Some f"
proof -
  from ex_created obtain ms j f where j: "journal_of (ex_disk 2) ms [] j" "image_file j = Some f" by blast
  have d: "data_ok (file_read (ex_disk 2) 4096 512)" by (rule data_ok_read) simp_all
  from update_appends [OF j d, of 4096] j(1) show ?thesis by (simp add: ex_disk_reads) blast
qed

text \<open>C21. An image whose table has spare sectors, because its header leaves room for more blocks than
  the disk has, cannot be reverted: \<open>vhd_journal_create\<close> succeeds and leaves the image disabled, and
  every \<open>vhd_journal_revert\<close> fails with \<open>EINVAL\<close> before it writes anything. \<open>vhd_journal_add_bat\<close>
  records the entries in use, \<open>vhd_journal_read_bat\<close> asks for all entries of the header.\<close>

theorem spare_table_refused:
  assumes "quiet (j_vhd j)" and "sys_files (st_sys (j_vhd j)) name = Some f0"
    and "sys_files (st_sys (j_vhd j)) jfile = None" and "whole_metadata hs f0" and "length name < MAX_NAME_LEN"
    and "bat_len (disk_blks f0) \<noteq> bat_len (hdr_max_bat_size (disk_hdr f0))"
  shows "\<exists>j1. vhd_journal_create lc fuel name jfile j = (Inr (), j1) \<and>
    (\<forall>k f. same_journal j1 k \<and> image_file k = Some f \<and> \<not> f_blk f \<longrightarrow>
      (\<exists>k'. vhd_journal_revert lc fuel k = (Inl (Errno (- EINVAL)), k') \<and> image_file k' = Some f))"
  by (rule create_then_refused) (rule assms)+

theorem spare_table_refused_witness:
  "\<exists>j1. vhd_journal_create ex_libc 0 ''a.vhd'' ''a.jnl'' (ex_journal 200) = (Inr (), j1) \<and>
    (\<forall>k f. same_journal j1 k \<and> image_file k = Some f \<and> \<not> f_blk f \<longrightarrow>
      (\<exists>k'. vhd_journal_revert ex_libc 0 k = (Inl (Errno (- EINVAL)), k') \<and> image_file k' = Some f))"
  by (rule spare_table_refused [OF ex_journal_facts(1-3) whole_ex_disk [of 5 200] ex_journal_facts(4)])
    (simp_all add: ex_shape_def ex_disk_parts)

end
